(* ===== verification/Updater_Prelude.thy ===== *)
theory Updater_Prelude
  imports
    Main
    "HOL-Library.Char_ord"
    "HOL-Library.List_Lexorder"
    "HOL-Library.Word"
begin

text \<open>
  Shared vocabulary of the development: C++ exceptions as values of a sum type, the character
  classes and string operations the native runtime takes from the C++ standard library,
  decimal and hexadecimal number text, and \<^verbatim>\<open>std::map\<close> as a sorted association list behind
  the interface \<open>ordered_map\<close>.

  A \<^verbatim>\<open>std::string\<close> is a list of bytes, that is a \<^typ>\<open>string\<close>. The order of
  \<^verbatim>\<open>std::string\<close> compares bytes as unsigned characters, which is the order that
  \<open>Char_ord\<close> and \<open>List_Lexorder\<close> give to \<^typ>\<open>string\<close>. A 64-bit signed integer is
  an \<^typ>\<open>int\<close> together with an explicit range check wherever the code can leave the range.
\<close>

named_theorems result_simps \<open>characterisations of successful computations\<close>
named_theorems char_class_defs \<open>definitions of the character classes\<close>

section \<open>Exceptions as values\<close>

text \<open>The exception classes of the install helpers, all derived from \<^verbatim>\<open>std::runtime_error\<close>.\<close>

datatype helper_error =
    LinuxMountGuardError
  | LinuxTransactionJournalError
  | LinuxFileTransactionError
  | LinuxHelperPolicyError
  | LinuxControlWireError
  | LinuxReservationError
  | LinuxTransactionRegistryError
  | LinuxInstallStrategyError
  | LinuxProviderJournalError
  | LinuxNativeInstallRequestBuilderError
  | LinuxArchiveRestageError
  | LinuxRelaunchError
  | UnixSocketTransportError

datatype cpp_exception =
    JsonError string
  | RuntimeError string
  | InvalidArgument string
  | OutOfRange string
  | BadFunctionCall
  | BadAlloc
  | NativeInstallProtocolError string
  | NativeInstallWireError string
  | NativeInstallSessionError string
  | NativeInstallAuthorizationError string
  | HelperPolicyError string
  | WindowsNativeInstallRequestBuilderError string
  | HelperError helper_error string

type_synonym 'a result = "cpp_exception + 'a"

text \<open>The text \<^verbatim>\<open>std::exception::what()\<close> returns.\<close>

fun what_of :: "cpp_exception \<Rightarrow> string" where
  "what_of (JsonError m) = m"
| "what_of (RuntimeError m) = m"
| "what_of (InvalidArgument m) = m"
| "what_of (OutOfRange m) = m"
| "what_of BadFunctionCall = ''bad_function_call''"
| "what_of BadAlloc = ''std::bad_alloc''"
| "what_of (NativeInstallProtocolError m) = m"
| "what_of (NativeInstallWireError m) = m"
| "what_of (NativeInstallSessionError m) = m"
| "what_of (NativeInstallAuthorizationError m) = m"
| "what_of (HelperPolicyError m) = m"
| "what_of (WindowsNativeInstallRequestBuilderError m) = m"
| "what_of (HelperError c m) = m"

definition bindE :: "'a result \<Rightarrow> ('a \<Rightarrow> 'b result) \<Rightarrow> 'b result" where
  "bindE m f = (case m of Inl e \<Rightarrow> Inl e | Inr x \<Rightarrow> f x)"

definition catchE :: "'a result \<Rightarrow> (cpp_exception \<Rightarrow> 'a result) \<Rightarrow> 'a result" where
  "catchE m h = (case m of Inl e \<Rightarrow> h e | Inr x \<Rightarrow> Inr x)"

text \<open>\<^verbatim>\<open>if (condition) throw e;\<close> as a statement.\<close>

definition throw_if :: "bool \<Rightarrow> cpp_exception \<Rightarrow> unit result" where
  "throw_if b e = (if b then Inl e else Inr ())"

text \<open>A range-based \<^verbatim>\<open>for\<close> loop that pushes one result per element.\<close>

primrec mapE :: "('a \<Rightarrow> 'b result) \<Rightarrow> 'a list \<Rightarrow> 'b list result" where
  "mapE f [] = Inr []"
| "mapE f (x # xs) = bindE (f x) (\<lambda>y. bindE (mapE f xs) (\<lambda>ys. Inr (y # ys)))"

lemma bindE_simps [simp]:
  "bindE (Inl e) f = Inl e" "bindE (Inr x) f = f x"
  by (simp_all add: bindE_def)

lemma catchE_simps [simp]:
  "catchE (Inl e) h = h e" "catchE (Inr x) h = Inr x"
  by (simp_all add: catchE_def)

lemma throw_if_simps [simp]:
  "throw_if True e = Inl e" "throw_if False e = Inr ()"
  by (simp_all add: throw_if_def)

lemma bindE_Inr_iff [result_simps]:
  "bindE m f = Inr y \<longleftrightarrow> (\<exists>x. m = Inr x \<and> f x = Inr y)"
  by (cases m) auto

lemma bindE_Inl_iff:
  "bindE m f = Inl e \<longleftrightarrow> m = Inl e \<or> (\<exists>x. m = Inr x \<and> f x = Inl e)"
  by (cases m) auto

lemma throw_if_Inr_iff [result_simps]: "throw_if b e = Inr u \<longleftrightarrow> \<not> b"
  by (simp add: throw_if_def)

lemma if_Inl_Inr_iff [result_simps]:
  "(if b then Inl e else m) = Inr x \<longleftrightarrow> \<not> b \<and> m = Inr x"
  by simp

lemma bindE_assoc: "bindE (bindE m f) g = bindE m (\<lambda>x. bindE (f x) g)"
  by (cases m) auto

lemma bindE_cong [fundef_cong]:
  assumes "m = m'" and "\<And>x. m' = Inr x \<Longrightarrow> f x = f' x"
  shows "bindE m f = bindE m' f'"
  using assms by (cases m') auto

lemma mapE_Inr_iff: "mapE f xs = Inr ys \<longleftrightarrow> list_all2 (\<lambda>x y. f x = Inr y) xs ys"
  by (induction xs arbitrary: ys) (auto simp: bindE_Inr_iff list_all2_Cons1)

lemma mapE_length: "mapE f xs = Inr ys \<Longrightarrow> length ys = length xs"
  by (auto simp: mapE_Inr_iff dest: list_all2_lengthD)

lemma mapE_total: "(\<And>x. x \<in> set xs \<Longrightarrow> f x = Inr (g x)) \<Longrightarrow> mapE f xs = Inr (map g xs)"
  by (induction xs) auto

section \<open>Characters\<close>

abbreviation ord :: "char \<Rightarrow> nat" where
  "ord c \<equiv> of_char c"

definition isspace :: "char \<Rightarrow> bool" where [char_class_defs]:
  "isspace c \<longleftrightarrow> ord c = 32 \<or> (9 \<le> ord c \<and> ord c \<le> 13)"

definition isdigit :: "char \<Rightarrow> bool" where [char_class_defs]:
  "isdigit c \<longleftrightarrow> 48 \<le> ord c \<and> ord c \<le> 57"

definition isupper :: "char \<Rightarrow> bool" where [char_class_defs]:
  "isupper c \<longleftrightarrow> 65 \<le> ord c \<and> ord c \<le> 90"

definition islower :: "char \<Rightarrow> bool" where [char_class_defs]:
  "islower c \<longleftrightarrow> 97 \<le> ord c \<and> ord c \<le> 122"

definition isalpha :: "char \<Rightarrow> bool" where [char_class_defs]:
  "isalpha c \<longleftrightarrow> isupper c \<or> islower c"

definition isalnum :: "char \<Rightarrow> bool" where [char_class_defs]:
  "isalnum c \<longleftrightarrow> isalpha c \<or> isdigit c"

definition tolower :: "char \<Rightarrow> char" where
  "tolower c = (if isupper c then char_of (ord c + 32) else c)"

text \<open>The byte classes \<^verbatim>\<open>[0-9a-f]\<close> and \<^verbatim>\<open>[0-9A-Fa-f]\<close> that several files write out.\<close>

definition is_lower_hex :: "char \<Rightarrow> bool" where [char_class_defs]:
  "is_lower_hex c \<longleftrightarrow> isdigit c \<or> (97 \<le> ord c \<and> ord c \<le> 102)"

definition is_hex :: "char \<Rightarrow> bool" where [char_class_defs]:
  "is_hex c \<longleftrightarrow> is_lower_hex c \<or> (65 \<le> ord c \<and> ord c \<le> 70)"

lemma ord_less_256 [simp]: "ord c < 256"
  using of_char_mod_256 [of c, where ?'a = nat] by (metis mod_less_divisor zero_less_numeral)

lemma ord_char_of [simp]: "n < 256 \<Longrightarrow> ord (char_of n) = n"
  by simp

lemma char_eq_iff_ord: "c = d \<longleftrightarrow> ord c = ord d"
  by simp

lemma tolower_idem: "tolower (tolower c) = tolower c"
  by (auto simp: tolower_def char_class_defs)

lemma isdigit_not_space [simp]: "isdigit c \<Longrightarrow> \<not> isspace c"
  by (simp add: char_class_defs)

section \<open>Strings\<close>

text \<open>\<^verbatim>\<open>std::string::find(char)\<close>, with \<^verbatim>\<open>npos\<close> as \<^const>\<open>None\<close>.\<close>

primrec find_char :: "char \<Rightarrow> string \<Rightarrow> nat option" where
  "find_char c [] = None"
| "find_char c (x # xs) = (if x = c then Some 0 else map_option Suc (find_char c xs))"

text \<open>\<^verbatim>\<open>std::string::find_first_of\<close> and \<^verbatim>\<open>find_last_of\<close>.\<close>

primrec find_first_of :: "char set \<Rightarrow> string \<Rightarrow> nat option" where
  "find_first_of cs [] = None"
| "find_first_of cs (x # xs) = (if x \<in> cs then Some 0 else map_option Suc (find_first_of cs xs))"

definition find_last_of :: "char \<Rightarrow> string \<Rightarrow> nat option" where
  "find_last_of c s = map_option (\<lambda>n. length s - Suc n) (find_char c (rev s))"

text \<open>\<^verbatim>\<open>s.rfind(p, 0) == 0\<close>.\<close>

definition starts_with :: "string \<Rightarrow> string \<Rightarrow> bool" where
  "starts_with p s \<longleftrightarrow> take (length p) s = p"

definition ends_with :: "string \<Rightarrow> string \<Rightarrow> bool" where
  "ends_with p s \<longleftrightarrow> length p \<le> length s \<and> drop (length s - length p) s = p"

lemma find_char_None_iff: "find_char c s = None \<longleftrightarrow> c \<notin> set s"
  by (induction s) auto

lemma find_char_Some_iff:
  "find_char c s = Some n \<longleftrightarrow> n < length s \<and> s ! n = c \<and> c \<notin> set (take n s)"
proof (induction s arbitrary: n)
  case (Cons x s)
  then show ?case by (cases n) auto
qed simp

lemma find_char_SomeD:
  assumes "find_char c s = Some n"
  shows "s = take n s @ c # drop (Suc n) s" and "c \<notin> set (take n s)" and "n < length s"
  using assms by (auto simp: find_char_Some_iff id_take_nth_drop)

lemma find_char_append:
  "c \<notin> set xs \<Longrightarrow> find_char c (xs @ c # ys) = Some (length xs)"
  by (induction xs) auto

lemma find_char_less [termination_simp]: "find_char c s = Some n \<Longrightarrow> n < length s"
  by (simp add: find_char_Some_iff)

lemma starts_with_Nil [simp]: "starts_with [] s"
  by (simp add: starts_with_def)

lemma starts_with_Cons [simp]:
  "starts_with (a # p) s \<longleftrightarrow> (\<exists>t. s = a # t \<and> starts_with p t)"
  by (cases s) (auto simp: starts_with_def)

lemma starts_with_append [simp]: "starts_with p (p @ s)"
  by (simp add: starts_with_def)

lemma starts_with_iff: "starts_with p s \<longleftrightarrow> (\<exists>t. s = p @ t)"
  by (auto simp: starts_with_def) (metis append_take_drop_id)

section \<open>Splitting\<close>

text \<open>
  The loop \<^verbatim>\<open>find separator; push substr; advance\<close> of \<^verbatim>\<open>Split\<close> in \<^verbatim>\<open>release_contract.cc\<close>, with
  the suffix that starts at \<^verbatim>\<open>start\<close> as the loop state. Several validators of the runtime walk
  a path by the same loop.
\<close>

function Split :: "string \<Rightarrow> char \<Rightarrow> string list" where
  "Split value separator =
     (case find_char separator value of
        None \<Rightarrow> [value]
      | Some next \<Rightarrow> take next value # Split (drop (Suc next) value) separator)"
  by pat_completeness auto
termination
  by (relation "measure (\<lambda>(v, c). length v)") (auto dest: find_char_less)

declare Split.simps [simp del]

lemma Split_not_Nil [simp]: "Split s c \<noteq> []"
  by (subst Split.simps) (simp split: option.split)

lemma Split_no_sep: "x \<in> set (Split s c) \<Longrightarrow> c \<notin> set x"
proof (induction s c rule: Split.induct)
  case (1 s c)
  then show ?case
    by (cases "find_char c s")
      (auto simp: Split.simps [of s c] find_char_None_iff dest: find_char_SomeD(2))
qed

text \<open>The inverse of \<^const>\<open>Split\<close>: the pieces joined with the separator.\<close>

primrec join_with :: "char \<Rightarrow> string list \<Rightarrow> string" where
  "join_with c [] = []"
| "join_with c (x # xs) = (if xs = [] then x else x @ c # join_with c xs)"

lemma join_Split [simp]: "join_with c (Split s c) = s"
proof (induction s c rule: Split.induct)
  case (1 s c)
  then show ?case
    by (cases "find_char c s") (auto simp: Split.simps [of s c] find_char_SomeD(1) [symmetric])
qed

lemma Split_no_occurrence: "c \<notin> set s \<Longrightarrow> Split s c = [s]"
  by (simp add: Split.simps find_char_None_iff [THEN iffD2])

lemma Split_append: "c \<notin> set x \<Longrightarrow> Split (x @ c # s) c = x # Split s c"
  by (subst Split.simps) (simp add: find_char_append)

lemma Split_join:
  "xs \<noteq> [] \<Longrightarrow> (\<And>x. x \<in> set xs \<Longrightarrow> c \<notin> set x) \<Longrightarrow> Split (join_with c xs) c = xs"
  by (induction xs) (auto simp: Split_no_occurrence Split_append)

lemma set_join_with:
  "set (join_with c xs) \<subseteq> insert c (\<Union> (set ` set xs))"
  by (induction xs) auto

lemma set_Split: "x \<in> set (Split s c) \<Longrightarrow> set x \<subseteq> set s"
proof (induction s c rule: Split.induct)
  case (1 s c)
  then show ?case
    by (cases "find_char c s")
      (auto simp: Split.simps [of s c] dest: in_set_takeD in_set_dropD)
qed

end
