(* ===== verification/Number_Text.thy ===== *)
theory Number_Text
  imports Updater_Prelude
begin

text \<open>
  Number text of the C++ standard library: decimal output (\<^verbatim>\<open>std::to_string\<close>,
  \<^verbatim>\<open>ostream << int64_t\<close>), \<^verbatim>\<open>strtoll\<close> on a digit string, and fixed-width lower-case
  hexadecimal output, with the lemmas that reading undoes writing.
\<close>

section \<open>64-bit signed range\<close>

definition INT64_MAX :: int where "INT64_MAX = 9223372036854775807"

definition INT64_MIN :: int where "INT64_MIN = -9223372036854775808"

definition int64 :: "int \<Rightarrow> bool" where
  "int64 i \<longleftrightarrow> INT64_MIN \<le> i \<and> i \<le> INT64_MAX"

lemmas int64_defs = int64_def INT64_MAX_def INT64_MIN_def

section \<open>Decimal text\<close>

fun show_nat :: "nat \<Rightarrow> string" where
  "show_nat n =
     (if n < 10 then [char_of (48 + n)] else show_nat (n div 10) @ [char_of (48 + n mod 10)])"

declare show_nat.simps [simp del]

definition show_int :: "int \<Rightarrow> string" where
  "show_int i = (if i < 0 then CHR ''-'' # show_nat (nat (- i)) else show_nat (nat i))"

definition decimal_value :: "string \<Rightarrow> nat" where
  "decimal_value s = foldl (\<lambda>a c. 10 * a + (ord c - 48)) 0 s"

text \<open>The value \<^verbatim>\<open>strtoll\<close> returns on a non-empty digit string: it saturates.\<close>

definition strtoll_digits :: "string \<Rightarrow> int" where
  "strtoll_digits s = min INT64_MAX (int (decimal_value s))"

lemma decimal_value_Nil [simp]: "decimal_value [] = 0"
  by (simp add: decimal_value_def)

lemma decimal_value_snoc [simp]: "decimal_value (s @ [c]) = 10 * decimal_value s + (ord c - 48)"
  by (simp add: decimal_value_def)

lemma isdigit_char_of [simp]: "n < 10 \<Longrightarrow> isdigit (char_of (48 + n :: nat))"
  by (simp add: isdigit_def)

lemma show_nat_digits: "list_all isdigit (show_nat n)"
proof (induction n rule: show_nat.induct)
  case (1 n)
  then show ?case by (cases "n < 10") (simp_all add: show_nat.simps [of n])
qed

lemma show_nat_not_Nil [simp]: "show_nat n \<noteq> []"
  by (simp add: show_nat.simps [of n])

lemma decimal_value_show_nat [simp]: "decimal_value (show_nat n) = n"
proof (induction n rule: show_nat.induct)
  case (1 n)
  then show ?case
    by (cases "n < 10") (simp_all add: show_nat.simps [of n] decimal_value_def)
qed

text \<open>No leading zero, except for the number zero itself.\<close>

lemma hd_show_nat: "0 < n \<Longrightarrow> hd (show_nat n) \<noteq> CHR ''0''"
proof (induction n rule: show_nat.induct)
  case (1 n)
  show ?case
  proof (cases "n < 10")
    case True
    with "1.prems" have "48 + n \<noteq> (48 :: nat)" and "48 + n < 256" by simp_all
    then have "ord (char_of (48 + n)) \<noteq> ord CHR ''0''" by simp
    then have "char_of (48 + n) \<noteq> CHR ''0''" by (metis)
    with True show ?thesis by (simp add: show_nat.simps [of n])
  next
    case False
    then have "hd (show_nat (n div 10)) \<noteq> CHR ''0''" using "1.IH" by simp
    with False show ?thesis by (simp add: show_nat.simps [of n])
  qed
qed

lemma show_nat_0 [simp]: "show_nat 0 = ''0''"
  by (simp add: show_nat.simps char_eq_iff_ord)

text \<open>A digit string without a superfluous zero is the text of its value.\<close>

definition canonical_decimal :: "string \<Rightarrow> bool" where
  "canonical_decimal s \<longleftrightarrow> s \<noteq> [] \<and> list_all isdigit s \<and> (hd s = CHR ''0'' \<longrightarrow> s = ''0'')"

lemma decimal_value_pos:
  assumes "s \<noteq> []" and "list_all isdigit s" and "hd s \<noteq> CHR ''0''"
  shows "0 < decimal_value s"
  using assms
proof (induction s rule: rev_induct)
  case (snoc c s)
  show ?case
  proof (cases "s = []")
    case True
    with snoc.prems have "48 \<le> ord c" and "c \<noteq> CHR ''0''" by (auto simp: isdigit_def)
    then have "ord c \<noteq> 48" using char_eq_iff_ord [of c "CHR ''0''"] by simp
    with \<open>48 \<le> ord c\<close> True show ?thesis by (simp add: decimal_value_def)
  next
    case False
    with snoc show ?thesis by simp
  qed
qed simp

lemma show_nat_decimal_value: "canonical_decimal s \<Longrightarrow> show_nat (decimal_value s) = s"
proof (induction s rule: rev_induct)
  case (snoc c s)
  have c: "48 \<le> ord c" "ord c \<le> 57"
    using snoc.prems by (simp_all add: canonical_decimal_def isdigit_def)
  then have c': "char_of (48 + (ord c - 48)) = c" by simp
  show ?case
  proof (cases "s = []")
    case True
    with c c' show ?thesis by (simp add: decimal_value_def show_nat.simps [of "ord c - 48"])
  next
    case False
    with snoc.prems have s: "canonical_decimal s" and "hd s \<noteq> CHR ''0''"
      by (auto simp: canonical_decimal_def)
    with False have "0 < decimal_value s" by (auto simp: canonical_decimal_def intro: decimal_value_pos)
    moreover have "ord c - 48 < 10" using c by linarith
    then have "(10 * decimal_value s + (ord c - 48)) div 10 = decimal_value s"
      "(10 * decimal_value s + (ord c - 48)) mod 10 = ord c - 48" by simp_all
    ultimately show ?thesis using c' snoc.IH [OF s]
      by (subst show_nat.simps) simp
  qed
qed (simp add: canonical_decimal_def)

lemma canonical_decimal_inj:
  "canonical_decimal s \<Longrightarrow> canonical_decimal t \<Longrightarrow> decimal_value s = decimal_value t \<Longrightarrow> s = t"
  by (metis show_nat_decimal_value)

section \<open>Hexadecimal text\<close>

definition hex_digit :: "nat \<Rightarrow> char" where
  "hex_digit n = (if n < 10 then char_of (48 + n) else char_of (87 + n))"

text \<open>\<^verbatim>\<open>std::hex << std::setw(w) << std::setfill('0')\<close> of a number below \<open>16 ^ w\<close>.\<close>

primrec hex_pad :: "nat \<Rightarrow> nat \<Rightarrow> string" where
  "hex_pad 0 n = []"
| "hex_pad (Suc w) n = hex_pad w (n div 16) @ [hex_digit (n mod 16)]"

lemma length_hex_pad [simp]: "length (hex_pad w n) = w"
  by (induction w arbitrary: n) simp_all

lemma ord_hex_digit: "n < 16 \<Longrightarrow> ord (hex_digit n) = (if n < 10 then 48 + n else 87 + n)"
  by (simp add: hex_digit_def)

lemma hex_digit_class [simp]: "n < 16 \<Longrightarrow> is_lower_hex (hex_digit n)"
  by (simp add: is_lower_hex_def isdigit_def ord_hex_digit)

lemma hex_pad_class: "list_all is_lower_hex (hex_pad w n)"
  by (induction w arbitrary: n) simp_all

lemma hex_digit_inj: "m < 16 \<Longrightarrow> n < 16 \<Longrightarrow> hex_digit m = hex_digit n \<Longrightarrow> m = n"
  by (drule arg_cong [where f = ord]) (auto simp: ord_hex_digit split: if_splits)

lemma hex_pad_inj:
  "m < 16 ^ w \<Longrightarrow> n < 16 ^ w \<Longrightarrow> hex_pad w m = hex_pad w n \<Longrightarrow> m = n"
proof (induction w arbitrary: m n)
  case (Suc w)
  from Suc.prems have "m div 16 = n div 16"
    by (intro Suc.IH) (auto simp: less_mult_imp_div_less mult.commute)
  moreover from Suc.prems have "m mod 16 = n mod 16"
    by (auto intro: hex_digit_inj)
  ultimately show ?case by (metis div_mult_mod_eq)
qed simp

end
