(* ===== verification/Redirect_Url.thy ===== *)
theory Redirect_Url
  imports Number_Text
begin

text \<open>
  Redirect resolution of the update transport, \<^verbatim>\<open>redirect_url.cc\<close>: the reference parser, the
  authority and port checks, dot-segment removal as the loop the code runs, and the two entry
  points \<open>ResolveRedirectURL\<close> and \<open>HTTPRequestTarget\<close>.
\<close>

section \<open>References\<close>

record URLReference =
  ref_scheme :: "string option"
  has_authority :: bool
  ref_authority :: string
  ref_path :: string
  ref_query :: "string option"
  ref_fragment :: "string option"

record HTTPURL =
  url_scheme :: string
  url_host :: string
  url_port :: "nat option"
  url_path :: string
  url_query :: "string option"
  url_fragment :: "string option"

definition LowerASCII :: "string \<Rightarrow> string" where
  "LowerASCII s = map tolower s"

definition ValidURLByte :: "char \<Rightarrow> bool" where
  "ValidURLByte byte \<longleftrightarrow> \<not> (ord byte \<le> 0x20 \<or> ord byte = 0x7F \<or> byte = CHR 0x5C)"

definition ValidateURLCharacters :: "string \<Rightarrow> unit result" where
  "ValidateURLCharacters s =
     (if list_all ValidURLByte s then Inr ()
      else Inl (RuntimeError ''Update URL contains invalid characters.''))"

definition ValidScheme :: "string \<Rightarrow> bool" where
  "ValidScheme s =
     (case s of
        [] \<Rightarrow> False
      | c # cs \<Rightarrow> isalpha c \<and>
          list_all (\<lambda>b. isalnum b \<or> b = CHR ''+'' \<or> b = CHR ''-'' \<or> b = CHR ''.'') cs)"

text \<open>\<^verbatim>\<open>remainder.find(c)\<close> followed by \<^verbatim>\<open>substr(n + 1)\<close> and \<^verbatim>\<open>erase(n)\<close>.\<close>

definition cut_at :: "char \<Rightarrow> string \<Rightarrow> string \<times> string option" where
  "cut_at c s = (case find_char c s of
       None \<Rightarrow> (s, None)
     | Some n \<Rightarrow> (take n s, Some (drop (Suc n) s)))"

text \<open>The optional scheme in front of the first slash.\<close>

definition SplitScheme :: "string \<Rightarrow> (string option \<times> string) result" where
  "SplitScheme remainder =
     (case find_char CHR '':'' remainder of
        Some colon \<Rightarrow>
          if (case find_char CHR ''/'' remainder of None \<Rightarrow> True | Some slash \<Rightarrow> colon < slash) then
            if \<not> ValidScheme (take colon remainder)
            then Inl (RuntimeError ''Redirect URL scheme is invalid.'')
            else Inr (Some (LowerASCII (take colon remainder)), drop (colon + 1) remainder)
          else Inr (None, remainder)
      | None \<Rightarrow> Inr (None, remainder))"

text \<open>The authority, up to the next slash, and the path.\<close>

definition SplitPath ::
    "string option \<Rightarrow> string option \<Rightarrow> string option \<Rightarrow> string \<Rightarrow> URLReference" where
  "SplitPath scheme query fragment remainder =
     (if starts_with ''//'' remainder then
        let rest = drop 2 remainder;
            path = find_char CHR ''/'' rest
        in \<lparr>ref_scheme = scheme, has_authority = True,
            ref_authority = (case path of None \<Rightarrow> rest | Some n \<Rightarrow> take n rest),
            ref_path = (case path of None \<Rightarrow> [] | Some n \<Rightarrow> drop n rest),
            ref_query = query, ref_fragment = fragment\<rparr>
      else
        \<lparr>ref_scheme = scheme, has_authority = False, ref_authority = [],
         ref_path = remainder, ref_query = query, ref_fragment = fragment\<rparr>)"

definition ParseReference :: "string \<Rightarrow> URLReference result" where
  "ParseReference input =
     bindE (ValidateURLCharacters input) (\<lambda>_.
       let (remainder1, fragment) = cut_at CHR ''#'' input;
           (remainder2, query) = cut_at CHR ''?'' remainder1
       in bindE (SplitScheme remainder2) (\<lambda>(scheme, remainder3).
            Inr (SplitPath scheme query fragment remainder3)))"

section \<open>Absolute HTTP addresses\<close>

text \<open>\<^verbatim>\<open>std::stoul\<close> throws beyond 64 bits; the code turns that into its own error.\<close>

definition ParsePort :: "string \<Rightarrow> nat result" where
  "ParsePort s =
     (if s = [] \<or> \<not> list_all isdigit s then Inl (RuntimeError ''HTTP update URL port is invalid.'')
      else let parsed = decimal_value s in
        if 2 ^ 64 \<le> parsed then Inl (RuntimeError ''HTTP update URL port is invalid.'')
        else if parsed = 0 \<or> parsed > 65535
        then Inl (RuntimeError ''HTTP update URL port is invalid.'')
        else Inr parsed)"

text \<open>The host and the port text of an authority, before the port is read.\<close>

definition SplitAuthority :: "string \<Rightarrow> (string \<times> string) result" where
  "SplitAuthority authority =
     (if authority = [] \<or> find_char CHR ''@'' authority \<noteq> None
      then Inl (RuntimeError ''HTTP update URL credentials are forbidden.'')
      else if hd authority = CHR ''['' then
        (case find_char CHR '']'' authority of
           None \<Rightarrow> Inl (RuntimeError ''HTTP update URL IPv6 host is invalid.'')
         | Some close \<Rightarrow>
             if close = 1 then Inl (RuntimeError ''HTTP update URL IPv6 host is invalid.'')
             else
               let host = ''['' @ LowerASCII (take (close - 1) (drop 1 authority)) @ '']'';
                   suffix = drop (close + 1) authority
               in if suffix \<noteq> [] then
                    if hd suffix \<noteq> CHR '':'' \<or> length suffix = 1
                    then Inl (RuntimeError ''HTTP update URL authority is invalid.'')
                    else Inr (host, drop 1 suffix)
                  else Inr (host, []))
      else
        (case find_last_of CHR '':'' authority of
           Some colon \<Rightarrow>
             if find_char CHR '':'' authority \<noteq> Some colon
             then Inl (RuntimeError ''IPv6 update URL hosts must use brackets.'')
             else if colon + 1 = length authority
             then Inl (RuntimeError ''HTTP update URL port is invalid.'')
             else Inr (LowerASCII (take colon authority), drop (colon + 1) authority)
         | None \<Rightarrow> Inr (LowerASCII authority, [])))"

definition DefaultPort :: "string \<Rightarrow> nat \<Rightarrow> bool" where
  "DefaultPort scheme port \<longleftrightarrow>
     (scheme = ''http'' \<and> port = 80) \<or> (scheme = ''https'' \<and> port = 443)"

definition ParseAuthority :: "string \<Rightarrow> HTTPURL \<Rightarrow> HTTPURL result" where
  "ParseAuthority authority result =
     bindE (SplitAuthority authority) (\<lambda>(host, port).
       if host = [] then Inl (RuntimeError ''HTTP update URL must include a host.'')
       else bindE (if port \<noteq> [] then bindE (ParsePort port) (\<lambda>p. Inr (Some p)) else Inr (url_port result))
         (\<lambda>p. Inr (result\<lparr>url_host := host,
            url_port := (case p of
                None \<Rightarrow> None
              | Some n \<Rightarrow> if DefaultPort (url_scheme result) n then None else Some n)\<rparr>)))"

definition ParseAbsoluteHTTPURL :: "string \<Rightarrow> HTTPURL result" where
  "ParseAbsoluteHTTPURL input =
     bindE (ParseReference input) (\<lambda>reference.
       case ref_scheme reference of
         None \<Rightarrow> Inl (RuntimeError ''HTTP update URL must be absolute.'')
       | Some scheme \<Rightarrow>
           if \<not> has_authority reference \<or> (scheme \<noteq> ''http'' \<and> scheme \<noteq> ''https'')
           then Inl (RuntimeError ''HTTP update URL must be absolute.'')
           else
             bindE (ParseAuthority (ref_authority reference)
               \<lparr>url_scheme = scheme, url_host = [], url_port = None, url_path = [],
                url_query = None, url_fragment = None\<rparr>) (\<lambda>result.
               let path = (if ref_path reference = [] then ''/'' else ref_path reference) in
               if hd path \<noteq> CHR ''/'' then Inl (RuntimeError ''HTTP update URL path is invalid.'')
               else Inr (result\<lparr>url_path := path, url_query := ref_query reference,
                 url_fragment := ref_fragment reference\<rparr>)))"

section \<open>Dot segments\<close>

definition RemoveLastSegment :: "string \<Rightarrow> string" where
  "RemoveLastSegment output = (case find_last_of CHR ''/'' output of
       None \<Rightarrow> []
     | Some slash \<Rightarrow> take slash output)"

text \<open>The position the last branch of the loop cuts at.\<close>

definition NextSlash :: "string \<Rightarrow> nat option" where
  "NextSlash input =
     (if hd input = CHR ''/'' then map_option Suc (find_char CHR ''/'' (tl input))
      else find_char CHR ''/'' input)"

function RemoveDotSegmentsLoop :: "string \<Rightarrow> string \<Rightarrow> string" where
  "RemoveDotSegmentsLoop input output =
     (if input = [] then output
      else if starts_with ''../'' input then RemoveDotSegmentsLoop (drop 3 input) output
      else if starts_with ''./'' input then RemoveDotSegmentsLoop (drop 2 input) output
      else if starts_with ''/./'' input then RemoveDotSegmentsLoop (''/'' @ drop 3 input) output
      else if input = ''/.'' then RemoveDotSegmentsLoop ''/'' output
      else if starts_with ''/../'' input
      then RemoveDotSegmentsLoop (''/'' @ drop 4 input) (RemoveLastSegment output)
      else if input = ''/..'' then RemoveDotSegmentsLoop ''/'' (RemoveLastSegment output)
      else if input = ''.'' \<or> input = ''..'' then output
      else (case NextSlash input of
          None \<Rightarrow> output @ input
        | Some next \<Rightarrow> RemoveDotSegmentsLoop (drop next input) (output @ take next input)))"
  by pat_completeness auto

lemma NextSlash_pos: "NextSlash input = Some next \<Longrightarrow> input \<noteq> [] \<Longrightarrow> 0 < next"
  by (cases input) (auto simp: NextSlash_def split: if_splits)

lemma starts_with_length: "starts_with p s \<Longrightarrow> length p \<le> length s"
  by (auto simp: starts_with_iff)

termination RemoveDotSegmentsLoop
  by (relation "measure (\<lambda>(i, o'). length i)", simp_all del: starts_with_Cons)
    (auto simp del: starts_with_Cons dest: NextSlash_pos dest!: starts_with_length)

declare RemoveDotSegmentsLoop.simps [simp del]

definition RemoveDotSegments :: "string \<Rightarrow> string" where
  "RemoveDotSegments input = RemoveDotSegmentsLoop input []"

definition MergePaths :: "string \<Rightarrow> string \<Rightarrow> string" where
  "MergePaths base relative =
     (case find_last_of CHR ''/'' base of
        None \<Rightarrow> ''/''
      | Some slash \<Rightarrow> take (slash + 1) base) @ relative"

definition Serialize :: "HTTPURL \<Rightarrow> bool \<Rightarrow> string" where
  "Serialize u include_fragment =
     url_scheme u @ ''://'' @ url_host u
     @ (case url_port u of None \<Rightarrow> [] | Some p \<Rightarrow> '':'' @ show_nat p)
     @ (if url_path u = [] then ''/'' else url_path u)
     @ (case url_query u of None \<Rightarrow> [] | Some q \<Rightarrow> ''?'' @ q)
     @ (if include_fragment then (case url_fragment u of None \<Rightarrow> [] | Some f \<Rightarrow> ''#'' @ f) else [])"

section \<open>Entry points\<close>

definition RedirectTarget :: "HTTPURL \<Rightarrow> string \<Rightarrow> URLReference \<Rightarrow> HTTPURL result" where
  "RedirectTarget base location reference =
     (if ref_scheme reference \<noteq> None then
        bindE (ParseAbsoluteHTTPURL location) (\<lambda>target.
          Inr (target\<lparr>url_path := RemoveDotSegments (url_path target)\<rparr>))
      else if has_authority reference then
        bindE (ParseAbsoluteHTTPURL (url_scheme base @ '':'' @ location)) (\<lambda>target.
          Inr (target\<lparr>url_path := RemoveDotSegments (url_path target)\<rparr>))
      else
        Inr ((if ref_path reference = [] then
               (if ref_query reference \<noteq> None then base\<lparr>url_query := ref_query reference\<rparr> else base)
             else
               base\<lparr>url_path := RemoveDotSegments
                   (if hd (ref_path reference) = CHR ''/'' then ref_path reference
                    else MergePaths (url_path base) (ref_path reference)),
                 url_query := ref_query reference\<rparr>)
             \<lparr>url_fragment := ref_fragment reference\<rparr>))"

definition ResolveRedirectURL :: "string \<Rightarrow> string \<Rightarrow> string result" where
  "ResolveRedirectURL source location =
     bindE (ParseAbsoluteHTTPURL source) (\<lambda>base.
     bindE (ParseReference location) (\<lambda>reference.
     bindE (RedirectTarget base location reference) (\<lambda>target.
       if url_scheme base = ''https'' \<and> url_scheme target \<noteq> ''https''
       then Inl (RuntimeError ''HTTPS redirect downgrade is forbidden.'')
       else Inr (Serialize target True))))"

definition HTTPRequestTarget :: "string \<Rightarrow> string result" where
  "HTTPRequestTarget url =
     bindE (ParseAbsoluteHTTPURL url) (\<lambda>parsed.
       Inr ((if url_path parsed = [] then ''/'' else url_path parsed)
         @ (case url_query parsed of None \<Rightarrow> [] | Some q \<Rightarrow> ''?'' @ q)))"

section \<open>Dot-segment removal as a stack machine\<close>

text \<open>
  The reference definition: the segments of an absolute path are pushed on a stack, a dot
  segment pushes nothing, a double-dot segment pops, and a trailing dot segment leaves an
  empty last segment.
\<close>

fun resolve_segments :: "string list \<Rightarrow> string list \<Rightarrow> string list" where
  "resolve_segments [] stack = stack"
| "resolve_segments (seg # segs) stack =
     (let stack' = (if seg = ''.'' then stack else if seg = ''..'' then butlast stack
                    else stack @ [seg])
      in if segs = [] then stack' @ (if seg \<in> {''.'', ''..''} then [[]] else [])
         else resolve_segments segs stack')"

definition path_text :: "string list \<Rightarrow> string" where
  "path_text segs = concat (map (Cons CHR ''/'') segs)"

lemma path_text_simps [simp]:
  "path_text [] = []" "path_text (seg # segs) = CHR ''/'' # seg @ path_text segs"
  "path_text (xs @ ys) = path_text xs @ path_text ys"
  by (simp_all add: path_text_def)

lemma path_text_Split: "CHR ''/'' # s = path_text (Split s CHR ''/'')"
proof (induction s "CHR ''/''" rule: Split.induct)
  case (1 s)
  show ?case
  proof (cases "find_char CHR ''/'' s")
    case None
    then show ?thesis by (simp add: Split.simps [of s])
  next
    case (Some n)
    then have "s = take n s @ CHR ''/'' # drop (Suc n) s" by (rule find_char_SomeD)
    with 1 [OF Some] Some show ?thesis by (simp add: Split.simps [of s])
  qed
qed

lemma NextSlash_segment:
  assumes "CHR ''/'' \<notin> set seg"
  shows "NextSlash (CHR ''/'' # seg) = None"
    and "NextSlash (CHR ''/'' # seg @ CHR ''/'' # r) = Some (Suc (length seg))"
  using assms by (simp_all add: NextSlash_def find_char_append find_char_None_iff)

lemma starts_with_segment:
  assumes "CHR ''/'' \<notin> set seg" and "CHR ''/'' \<notin> set p"
  shows "starts_with (p @ [CHR ''/'']) (seg @ CHR ''/'' # r) \<longleftrightarrow> seg = p"
    and "\<not> starts_with (p @ [CHR ''/'']) seg"
  using assms
proof (induction p arbitrary: seg)
  case (Cons a p)
  {
    case 1
    with Cons show ?case by (cases seg) auto
  next
    case 2
    with Cons show ?case by (cases seg) auto
  }
next
  case Nil
  {
    case 1
    then show ?case by (cases seg) auto
  next
    case 2
    then show ?case by auto
  }
qed

lemmas dot_segment = starts_with_segment [where p = "''.''", simplified append.simps]
  starts_with_segment [where p = "''..''", simplified append.simps]

lemma RemoveDotSegmentsLoop_last:
  assumes "CHR ''/'' \<notin> set seg"
  shows "RemoveDotSegmentsLoop (CHR ''/'' # seg) output =
    (if seg = ''.'' then output @ ''/''
     else if seg = ''..'' then RemoveLastSegment output @ ''/''
     else output @ CHR ''/'' # seg)"
proof -
  have "RemoveDotSegmentsLoop ''/'' out = out @ ''/''" for out
    by (subst RemoveDotSegmentsLoop.simps) (simp add: NextSlash_def)
  moreover have "\<not> starts_with ''./'' seg" "\<not> starts_with ''../'' seg"
    using assms dot_segment(2,4) [of seg] by (simp_all del: starts_with_Cons)
  ultimately show ?thesis
    using NextSlash_segment(1) [OF assms]
    by (subst RemoveDotSegmentsLoop.simps) auto
qed

lemma RemoveDotSegmentsLoop_segment:
  assumes "CHR ''/'' \<notin> set seg"
  shows "RemoveDotSegmentsLoop (CHR ''/'' # seg @ CHR ''/'' # r) output =
    (if seg = ''.'' then RemoveDotSegmentsLoop (CHR ''/'' # r) output
     else if seg = ''..'' then RemoveDotSegmentsLoop (CHR ''/'' # r) (RemoveLastSegment output)
     else RemoveDotSegmentsLoop (CHR ''/'' # r) (output @ CHR ''/'' # seg))"
proof -
  have "starts_with ''./'' (seg @ CHR ''/'' # r) \<longleftrightarrow> seg = ''.''"
    "starts_with ''../'' (seg @ CHR ''/'' # r) \<longleftrightarrow> seg = ''..''"
    using assms dot_segment(1,3) [of seg r] by (simp_all del: starts_with_Cons)
  moreover have "seg @ CHR ''/'' # r \<noteq> ''.''" "seg @ CHR ''/'' # r \<noteq> ''..''"
    by (auto simp: append_eq_Cons_conv)
  ultimately show ?thesis
    using NextSlash_segment(2) [OF assms, of r]
    by (subst RemoveDotSegmentsLoop.simps) auto
qed

lemma RemoveLastSegment_path_text:
  assumes "\<And>seg. seg \<in> set stack \<Longrightarrow> CHR ''/'' \<notin> set seg"
  shows "RemoveLastSegment (path_text stack) = path_text (butlast stack)"
proof (cases stack rule: rev_cases)
  case (snoc st seg)
  with assms have "CHR ''/'' \<notin> set (rev seg)" by simp
  then have "find_last_of CHR ''/'' (path_text stack) = Some (length (path_text st))"
    using snoc find_char_append [of "CHR ''/''" "rev seg" "rev (path_text st)"]
    by (simp add: find_last_of_def)
  then show ?thesis by (simp add: RemoveLastSegment_def snoc)
qed (simp add: RemoveLastSegment_def find_last_of_def)

lemma RemoveDotSegmentsLoop_resolve:
  assumes "\<And>seg. seg \<in> set segs \<union> set stack \<Longrightarrow> CHR ''/'' \<notin> set seg" and "segs \<noteq> []"
  shows "RemoveDotSegmentsLoop (path_text segs) (path_text stack) =
    path_text (resolve_segments segs stack)"
  using assms
proof (induction segs stack rule: resolve_segments.induct)
  case (2 seg segs stack)
  have seg: "CHR ''/'' \<notin> set seg" using "2.prems" by simp
  have pop: "RemoveLastSegment (path_text stack) = path_text (butlast stack)"
    using "2.prems" by (intro RemoveLastSegment_path_text) simp
  show ?case
  proof (cases segs)
    case Nil
    then show ?thesis by (simp add: RemoveDotSegmentsLoop_last [OF seg] pop)
  next
    case (Cons seg' segs')
    define stack' where "stack' = (if seg = ''.'' then stack else if seg = ''..'' then butlast stack
      else stack @ [seg])"
    have "RemoveDotSegmentsLoop (path_text (seg # segs)) (path_text stack) =
        RemoveDotSegmentsLoop (path_text segs) (path_text stack')"
      by (simp add: Cons RemoveDotSegmentsLoop_segment [OF seg] pop stack'_def)
    also have "\<dots> = path_text (resolve_segments segs stack')"
      using Cons "2.prems" by (intro "2.IH" [OF stack'_def])
        (auto simp: stack'_def dest: in_set_butlastD split: if_splits)
    finally show ?thesis by (simp add: Cons stack'_def Let_def)
  qed
qed simp

lemma RemoveDotSegments_resolve:
  "RemoveDotSegments (CHR ''/'' # s) = path_text (resolve_segments (Split s CHR ''/'') [])"
  using RemoveDotSegmentsLoop_resolve [of "Split s CHR ''/''" "[]"] Split_no_sep [of _ s "CHR ''/''"]
  by (simp add: RemoveDotSegments_def path_text_Split)

lemma resolve_segments_no_dot:
  assumes "\<And>seg. seg \<in> set stack \<Longrightarrow> seg \<notin> {''.'', ''..''}"
  shows "seg \<in> set (resolve_segments segs stack) \<Longrightarrow> seg \<notin> {''.'', ''..''}"
  using assms
proof (induction segs stack rule: resolve_segments.induct)
  case (2 seg' segs stack)
  define stack' where "stack' = (if seg' = ''.'' then stack else if seg' = ''..'' then butlast stack
      else stack @ [seg'])"
  have stack': "\<And>s. s \<in> set stack' \<Longrightarrow> s \<notin> {''.'', ''..''}"
    using "2.prems" by (auto simp: stack'_def dest: in_set_butlastD split: if_splits)
  show ?case
  proof (cases "segs = []")
    case True
    then have "seg \<in> set stack' \<or> seg = []"
      using "2.prems"(1) by (auto simp: stack'_def Let_def split: if_splits)
    with stack' show ?thesis by auto
  next
    case False
    then have "seg \<in> set (resolve_segments segs stack')"
      using "2.prems"(1) by (simp add: stack'_def Let_def)
    with "2.IH" [OF stack'_def False] stack' show ?thesis by blast
  qed
qed simp

lemma resolve_segments_not_Nil: "segs \<noteq> [] \<Longrightarrow> resolve_segments segs stack \<noteq> []"
  by (induction segs stack rule: resolve_segments.induct) (auto simp: Let_def)

lemma resolve_segments_chars:
  assumes "seg \<in> set (resolve_segments segs stack)" and "c \<in> set seg"
  shows "\<exists>seg' \<in> set segs \<union> set stack. c \<in> set seg'"
  using assms
proof (induction segs stack rule: resolve_segments.induct)
  case (2 seg' segs stack)
  define stack' where "stack' = (if seg' = ''.'' then stack else if seg' = ''..'' then butlast stack
      else stack @ [seg'])"
  have stack': "set stack' \<subseteq> insert seg' (set stack)"
    by (auto simp: stack'_def dest: in_set_butlastD)
  show ?case
  proof (cases "segs = []")
    case True
    then have "seg \<in> set stack' \<or> seg = []"
      using "2.prems"(1) by (auto simp: stack'_def Let_def split: if_splits)
    with stack' "2.prems"(2) show ?thesis by auto
  next
    case False
    then have "seg \<in> set (resolve_segments segs stack')"
      using "2.prems"(1) by (simp add: stack'_def Let_def)
    with "2.IH" [OF stack'_def False] stack' "2.prems"(2) show ?thesis by auto
  qed
qed auto

lemma Split_path_text:
  assumes "\<And>seg. seg \<in> set segs \<Longrightarrow> CHR ''/'' \<notin> set seg"
  shows "Split (path_text segs) CHR ''/'' = [] # segs"
proof -
  have "path_text segs = join_with CHR ''/'' ([] # segs)"
    by (induction segs) (auto simp: neq_Nil_conv)
  moreover have "Split (join_with CHR ''/'' ([] # segs)) CHR ''/'' = [] # segs"
    using assms by (intro Split_join) auto
  ultimately show ?thesis by simp
qed

text \<open>What the resolver guarantees of every absolute path it emits.\<close>

definition dot_free :: "string \<Rightarrow> bool" where
  "dot_free s \<longleftrightarrow> list_all (\<lambda>seg. seg \<notin> {''.'', ''..''}) (Split s CHR ''/'')"

definition absolute_path :: "string \<Rightarrow> bool" where
  "absolute_path s \<longleftrightarrow> starts_with ''/'' s"

lemma RemoveDotSegments_absolute:
  assumes "absolute_path s"
  shows "absolute_path (RemoveDotSegments s)" and "dot_free (RemoveDotSegments s)"
    and "set (RemoveDotSegments s) \<subseteq> set s"
proof -
  obtain t where t: "s = CHR ''/'' # t" using assms by (auto simp: absolute_path_def)
  let ?segs = "resolve_segments (Split t CHR ''/'') []"
  have eq: "RemoveDotSegments s = path_text ?segs" by (simp add: t RemoveDotSegments_resolve)
  have "?segs \<noteq> []" by (simp add: resolve_segments_not_Nil)
  then show "absolute_path (RemoveDotSegments s)"
    by (cases ?segs) (simp_all add: eq absolute_path_def)
  have chars: "c \<in> set t \<and> c \<noteq> CHR ''/''" if "seg \<in> set ?segs" "c \<in> set seg" for seg c
    using resolve_segments_chars [OF that] set_Split [of _ t "CHR ''/''"]
      Split_no_sep [of _ t "CHR ''/''"] by auto
  then have "Split (path_text ?segs) CHR ''/'' = [] # ?segs" by (intro Split_path_text) blast
  then show "dot_free (RemoveDotSegments s)"
    using resolve_segments_no_dot [of "[]" _ "Split t CHR ''/''"]
    by (auto simp: eq dot_free_def list_all_iff)
  show "set (RemoveDotSegments s) \<subseteq> set s"
    unfolding eq using chars by (auto simp: t path_text_def)
qed

section \<open>Well-formed addresses\<close>

definition wf_host :: "string \<Rightarrow> bool" where
  "wf_host h \<longleftrightarrow> h \<noteq> [] \<and> LowerASCII h = h \<and>
     list_all (\<lambda>c. ValidURLByte c \<and> c \<notin> {CHR ''/'', CHR ''?'', CHR ''#'', CHR ''@''}) h \<and>
     (if hd h = CHR ''['' then 3 \<le> length h \<and> last h = CHR '']'' \<and> CHR '']'' \<notin> set (butlast h)
      else CHR '':'' \<notin> set h)"

definition wf_port :: "string \<Rightarrow> nat option \<Rightarrow> bool" where
  "wf_port scheme port = (case port of
       None \<Rightarrow> True
     | Some p \<Rightarrow> 0 < p \<and> p \<le> 65535 \<and> \<not> DefaultPort scheme p)"

definition wf_url :: "HTTPURL \<Rightarrow> bool" where
  "wf_url u \<longleftrightarrow> url_scheme u \<in> {''http'', ''https''} \<and> wf_host (url_host u) \<and>
     wf_port (url_scheme u) (url_port u) \<and>
     absolute_path (url_path u) \<and>
     list_all (\<lambda>c. ValidURLByte c \<and> c \<notin> {CHR ''?'', CHR ''#''}) (url_path u) \<and>
     pred_option (list_all (\<lambda>c. ValidURLByte c \<and> c \<noteq> CHR ''#'')) (url_query u) \<and>
     pred_option (list_all ValidURLByte) (url_fragment u)"

lemma wf_urlD:
  assumes "wf_url u"
  shows "list_all (\<lambda>c. ValidURLByte c \<and> c \<notin> {CHR ''?'', CHR ''#''}) (url_path u)"
    and "pred_option (list_all (\<lambda>c. ValidURLByte c \<and> c \<noteq> CHR ''#'')) (url_query u)"
  using assms unfolding wf_url_def by simp_all

lemma tolower_eq_iff: "\<not> isalpha d \<Longrightarrow> tolower c = d \<longleftrightarrow> c = d"
  by (auto simp: tolower_def isalpha_def isupper_def islower_def)

lemma tolower_marks [simp]:
  "tolower c = CHR ''/'' \<longleftrightarrow> c = CHR ''/''" "tolower c = CHR ''?'' \<longleftrightarrow> c = CHR ''?''"
  "tolower c = CHR ''#'' \<longleftrightarrow> c = CHR ''#''" "tolower c = CHR ''@'' \<longleftrightarrow> c = CHR ''@''"
  "tolower c = CHR '':'' \<longleftrightarrow> c = CHR '':''" "tolower c = CHR ''['' \<longleftrightarrow> c = CHR ''[''"
  "tolower c = CHR '']'' \<longleftrightarrow> c = CHR '']''" "tolower c = CHR 0x5C \<longleftrightarrow> c = CHR 0x5C"
  by (simp_all add: tolower_eq_iff char_class_defs)

lemma tolower_marks_sym [simp]:
  "CHR '':'' = tolower c \<longleftrightarrow> c = CHR '':''" "CHR '']'' = tolower c \<longleftrightarrow> c = CHR '']''"
  "CHR ''@'' = tolower c \<longleftrightarrow> c = CHR ''@''"
  by (metis tolower_marks)+

lemma ord_tolower: "ord (tolower c) = (if isupper c then ord c + 32 else ord c)"
  by (auto simp: tolower_def isupper_def)

lemma ValidURLByte_tolower [simp]: "ValidURLByte (tolower c) = ValidURLByte c"
  by (auto simp: ValidURLByte_def ord_tolower isupper_def)

lemma LowerASCII_simps [simp]:
  "LowerASCII [] = []" "LowerASCII (c # s) = tolower c # LowerASCII s"
  "LowerASCII (s @ t) = LowerASCII s @ LowerASCII t" "LowerASCII (LowerASCII s) = LowerASCII s"
  "LowerASCII s = [] \<longleftrightarrow> s = []" "length (LowerASCII s) = length s"
  "set (LowerASCII s) = tolower ` set s"
  by (simp_all add: LowerASCII_def tolower_idem)

lemma in_LowerASCII_iff [simp]: "\<not> isalpha d \<Longrightarrow> d \<in> tolower ` set s \<longleftrightarrow> d \<in> set s"
  by (auto simp: tolower_eq_iff image_iff eq_commute [of d])

section \<open>Parsing and serialising\<close>

lemma cut_at_append:
  assumes "c \<notin> set a"
  shows "cut_at c (a @ (case q of None \<Rightarrow> [] | Some t \<Rightarrow> [c] @ t)) = (a, q)"
  using assms by (cases q) (simp_all add: cut_at_def find_char_append find_char_None_iff [THEN iffD2])

lemma cut_at_cases:
  assumes "cut_at c s = (a, q)"
  shows "c \<notin> set a" and "set a \<subseteq> set s" and "pred_option (\<lambda>t. set t \<subseteq> set s) q"
  using assms find_char_SomeD(2) [of c s]
  by (auto simp: cut_at_def find_char_None_iff dest: in_set_takeD in_set_dropD split: option.splits)

lemma ParseReference_parts:
  assumes "ParseReference s = Inr r"
  shows "list_all ValidURLByte s"
    and "set (ref_authority r) \<subseteq> set s - {CHR ''/'', CHR ''?'', CHR ''#''}"
    and "set (ref_path r) \<subseteq> set s - {CHR ''?'', CHR ''#''}"
    and "pred_option (\<lambda>q. set q \<subseteq> set s - {CHR ''#''}) (ref_query r)"
    and "pred_option (\<lambda>f. set f \<subseteq> set s) (ref_fragment r)"
    and "has_authority r \<Longrightarrow> ref_path r = [] \<or> hd (ref_path r) = CHR ''/''"
proof -
  show "list_all ValidURLByte s"
    using assms by (auto simp: ParseReference_def ValidateURLCharacters_def bindE_Inr_iff
        split: if_splits)
  obtain s1 f where s1: "cut_at CHR ''#'' s = (s1, f)" by (cases "cut_at CHR ''#'' s")
  obtain s2 q where s2: "cut_at CHR ''?'' s1 = (s2, q)" by (cases "cut_at CHR ''?'' s1")
  note cuts = cut_at_cases [OF s1] cut_at_cases [OF s2]
  from assms obtain scheme s3 where "SplitScheme s2 = Inr (scheme, s3)"
    and r: "r = SplitPath scheme q f s3"
    by (auto simp: ParseReference_def s1 s2 bindE_Inr_iff)
  then have s3: "set s3 \<subseteq> set s2"
    by (auto simp: SplitScheme_def dest: in_set_dropD split: option.splits if_splits)
  show "set (ref_authority r) \<subseteq> set s - {CHR ''/'', CHR ''?'', CHR ''#''}"
    using r s3 cuts find_char_SomeD(2) [of "CHR ''/''" "drop 2 s3"]
    by (auto simp: SplitPath_def Let_def find_char_None_iff dest: in_set_takeD in_set_dropD
        split: if_splits option.splits)
  show "set (ref_path r) \<subseteq> set s - {CHR ''?'', CHR ''#''}"
    using r s3 cuts
    by (auto simp: SplitPath_def Let_def dest: in_set_dropD split: if_splits option.splits)
  have "ref_query r = q" "ref_fragment r = f"
    by (simp_all add: r SplitPath_def Let_def)
  then show "pred_option (\<lambda>q. set q \<subseteq> set s - {CHR ''#''}) (ref_query r)"
    "pred_option (\<lambda>f. set f \<subseteq> set s) (ref_fragment r)"
    using cuts by (cases q; simp; blast)+
  show "ref_path r = [] \<or> hd (ref_path r) = CHR ''/''" if "has_authority r"
    using r that
    by (auto simp: SplitPath_def Let_def find_char_Some_iff hd_drop_conv_nth split: if_splits option.splits)
qed

lemma find_last_of_None_iff: "find_last_of c s = None \<longleftrightarrow> c \<notin> set s"
  by (simp add: find_last_of_def find_char_None_iff)

lemma find_last_of_append:
  "c \<notin> set t \<Longrightarrow> find_last_of c (s @ c # t) = Some (length s)"
  using find_char_append [of c "rev t" "rev s"] by (simp add: find_last_of_def)

lemma list_all_LowerASCII:
  assumes "list_all (\<lambda>c. ValidURLByte c \<and> c \<notin> {CHR ''/'', CHR ''?'', CHR ''#'', CHR ''@''}) h"
  shows "list_all (\<lambda>c. ValidURLByte c \<and> c \<notin> {CHR ''/'', CHR ''?'', CHR ''#'', CHR ''@''}) (LowerASCII h)"
  using assms by (auto simp: list_all_iff)

lemma SplitAuthority_host:
  assumes ok: "SplitAuthority a = Inr (h, p)" and "h \<noteq> []"
    and bytes: "list_all ValidURLByte a" "set a \<inter> {CHR ''/'', CHR ''?'', CHR ''#''} = {}"
  shows "wf_host h"
proof -
  have "a \<noteq> []" and at: "CHR ''@'' \<notin> set a"
    using ok by (auto simp: SplitAuthority_def find_char_None_iff split: if_splits)
  with bytes have all: "list_all (\<lambda>c. ValidURLByte c \<and> c \<notin> {CHR ''/'', CHR ''?'', CHR ''#'', CHR ''@''}) b"
    if "set b \<subseteq> set a" for b
    using that by (auto simp: list_all_iff)
  show ?thesis
  proof (cases "hd a = CHR ''[''")
    case True
    with ok \<open>a \<noteq> []\<close> at obtain close where close: "find_char CHR '']'' a = Some close" "close \<noteq> 1"
      and h: "h = ''['' @ LowerASCII (take (close - 1) (drop 1 a)) @ '']''"
      by (auto simp: SplitAuthority_def find_char_None_iff Let_def split: if_splits option.splits)
    obtain a' where a: "a = CHR ''['' # a'" using True \<open>a \<noteq> []\<close> by (cases a) auto
    then obtain n where n: "find_char CHR '']'' a' = Some n" "close = Suc n" "n \<noteq> 0"
      using close by auto
    define inner where "inner = take n a'"
    have h': "h = CHR ''['' # LowerASCII inner @ '']''" by (simp add: h a n inner_def)
    have "set inner \<subseteq> set a" by (auto simp: inner_def a dest: in_set_takeD)
    then have "list_all (\<lambda>c. ValidURLByte c \<and> c \<notin> {CHR ''/'', CHR ''?'', CHR ''#'', CHR ''@''})
        (LowerASCII inner)"
      by (intro list_all_LowerASCII all)
    moreover have "inner \<noteq> []" "CHR '']'' \<notin> set inner"
      using n find_char_SomeD [OF n(1)] by (auto simp: inner_def)
    moreover have "CHR '']'' \<notin> set (LowerASCII inner)"
      using \<open>CHR '']'' \<notin> set inner\<close> by (simp add: char_class_defs)
    moreover have "ValidURLByte CHR ''[''" "ValidURLByte CHR '']''"
      by (simp_all add: ValidURLByte_def)
    moreover have "tolower CHR ''['' = CHR ''[''" "tolower CHR '']'' = CHR '']''" by simp_all
    ultimately show ?thesis
      by (simp add: wf_host_def h' butlast_append Suc_le_eq)
  next
    case False
    obtain b where b: "h = LowerASCII b" "set b \<subseteq> set a" "CHR '':'' \<notin> set b"
      and hd: "hd b \<noteq> CHR ''[''"
    proof (cases "find_last_of CHR '':'' a")
      case None
      with ok False \<open>a \<noteq> []\<close> at have "h = LowerASCII a"
        by (simp add: SplitAuthority_def find_char_None_iff [THEN iffD2])
      with None False that show ?thesis by (auto simp: find_last_of_None_iff)
    next
      case (Some n)
      with ok False \<open>a \<noteq> []\<close> at have h: "h = LowerASCII (take n a)" "find_char CHR '':'' a = Some n"
        by (simp_all add: SplitAuthority_def find_char_None_iff [THEN iffD2] split: if_splits)
      have "hd (take n a) = hd a" using h \<open>h \<noteq> []\<close> by (cases n; cases a) auto
      with h False that [of "take n a"] find_char_SomeD(2) [OF h(2)] show ?thesis
        by (auto dest: in_set_takeD)
    qed
    then have "list_all (\<lambda>c. ValidURLByte c \<and> c \<notin> {CHR ''/'', CHR ''?'', CHR ''#'', CHR ''@''}) h"
      unfolding b(1) by (intro list_all_LowerASCII all) (use b in blast)
    moreover have "CHR '':'' \<notin> set h" using b by (simp add: char_class_defs)
    moreover have "hd h \<noteq> CHR ''[''" "LowerASCII h = h" using b hd \<open>h \<noteq> []\<close> by (cases b; simp add: tolower_idem)+
    ultimately show ?thesis using \<open>h \<noteq> []\<close> by (simp add: wf_host_def)
  qed
qed

lemma ParseAbsoluteHTTPURL_wf:
  assumes "ParseAbsoluteHTTPURL s = Inr u"
  shows "wf_url u"
proof -
  from assms obtain r scheme where r: "ParseReference s = Inr r" "ref_scheme r = Some scheme"
    and scheme: "has_authority r" "scheme \<in> {''http'', ''https''}"
    and rest: "bindE (ParseAuthority (ref_authority r)
               \<lparr>url_scheme = scheme, url_host = [], url_port = None, url_path = [],
                url_query = None, url_fragment = None\<rparr>) (\<lambda>result.
               let path = (if ref_path r = [] then ''/'' else ref_path r) in
               if hd path \<noteq> CHR ''/'' then Inl (RuntimeError ''HTTP update URL path is invalid.'')
               else Inr (result\<lparr>url_path := path, url_query := ref_query r,
                 url_fragment := ref_fragment r\<rparr>)) = Inr u"
    by (auto simp: ParseAbsoluteHTTPURL_def bindE_Inr_iff split: option.splits if_splits)
  note parts = ParseReference_parts [OF r(1)]
  from rest obtain h p where h: "SplitAuthority (ref_authority r) = Inr (h, p)" "h \<noteq> []"
    and u: "url_scheme u = scheme" "url_host u = h" "url_query u = ref_query r"
      "url_fragment u = ref_fragment r" "url_path u = (if ref_path r = [] then ''/'' else ref_path r)"
      "wf_port scheme (url_port u)"
    by (auto simp: ParseAuthority_def ParsePort_def bindE_Inr_iff Let_def wf_port_def
        split: if_splits option.splits)
  have "wf_host h"
    using parts(1,2) by (intro SplitAuthority_host [OF h]) (auto simp: list_all_iff)
  moreover have "absolute_path (url_path u)"
    using parts(6) scheme(1) u(5) by (cases "ref_path r") (auto simp: absolute_path_def)
  moreover have "list_all (\<lambda>c. ValidURLByte c \<and> c \<notin> {CHR ''?'', CHR ''#''}) (url_path u)"
    using parts(1,3) u(5) by (auto simp: list_all_iff ValidURLByte_def)
  ultimately show ?thesis
    using parts(1,4,5) scheme u
    by (cases "ref_query r"; cases "ref_fragment r") (auto simp: wf_url_def list_all_iff)
qed

lemma wf_host_bracketE:
  assumes "wf_host h" and "hd h = CHR ''[''"
  obtains inner where "h = CHR ''['' # inner @ '']''" "inner \<noteq> []" "CHR '']'' \<notin> set inner"
    "LowerASCII inner = inner"
proof -
  from assms obtain t where t: "h = CHR ''['' # t" "2 \<le> length t" "last t = CHR '']''"
    by (cases h) (auto simp: wf_host_def split: if_splits)
  then obtain inner where inner: "t = inner @ '']''" by (cases t rule: rev_cases) auto
  have "LowerASCII h = h" "CHR '']'' \<notin> set (butlast h)" using assms by (simp_all add: wf_host_def)
  with t inner that [of inner] show ?thesis
    by (cases "inner = []") (auto simp: butlast_append)
qed

lemma SplitAuthority_bracket:
  assumes "inner \<noteq> []" and "CHR '']'' \<notin> set inner" and "LowerASCII inner = inner"
    and "CHR ''@'' \<notin> set inner" and "CHR ''@'' \<notin> set p"
  shows "SplitAuthority (CHR ''['' # inner @ '']'') = Inr (CHR ''['' # inner @ '']'', [])"
    and "p \<noteq> [] \<Longrightarrow> SplitAuthority (CHR ''['' # inner @ CHR '']'' # CHR '':'' # p) =
      Inr (CHR ''['' # inner @ '']'', p)"
  using assms find_char_append [OF assms(2)]
  by (simp_all add: SplitAuthority_def find_char_None_iff [THEN iffD2] Let_def)

lemma SplitAuthority_plain:
  assumes "h \<noteq> []" "hd h \<noteq> CHR ''[''" "CHR '':'' \<notin> set h" "LowerASCII h = h"
    and "CHR ''@'' \<notin> set h" "CHR ''@'' \<notin> set p" "CHR '':'' \<notin> set p"
  shows "SplitAuthority h = Inr (h, [])"
    and "p \<noteq> [] \<Longrightarrow> SplitAuthority (h @ CHR '':'' # p) = Inr (h, p)"
  using assms find_last_of_append [OF assms(7), of h] find_char_append [OF assms(3), of p]
  by (simp_all add: SplitAuthority_def find_char_None_iff [THEN iffD2]
      find_last_of_None_iff [THEN iffD2])

lemma SplitAuthority_wf_host:
  assumes "wf_host h" and p: "list_all isdigit p"
  shows "SplitAuthority (h @ (if p = [] then [] else CHR '':'' # p)) = Inr (h, p)"
proof -
  have h: "h \<noteq> []" "LowerASCII h = h" "CHR ''@'' \<notin> set h"
    using assms by (auto simp: wf_host_def list_all_iff)
  have p: "CHR ''@'' \<notin> set p" "CHR '':'' \<notin> set p" using p by (auto simp: list_all_iff isdigit_def)
  show ?thesis
  proof (cases "hd h = CHR ''[''")
    case True
    with assms obtain inner where "h = CHR ''['' # inner @ '']''" "inner \<noteq> []"
      "CHR '']'' \<notin> set inner" "LowerASCII inner = inner"
      by (elim wf_host_bracketE)
    with h p show ?thesis by (simp add: SplitAuthority_bracket)
  next
    case False
    then have "CHR '':'' \<notin> set h" using assms by (simp add: wf_host_def)
    with False h p show ?thesis by (simp add: SplitAuthority_plain)
  qed
qed

lemma ParseReference_parts_text:
  assumes scheme: "scheme \<in> {''http'', ''https''}"
    and auth: "CHR ''/'' \<notin> set auth" "CHR ''?'' \<notin> set auth" "CHR ''#'' \<notin> set auth"
    and path: "CHR ''?'' \<notin> set path" "CHR ''#'' \<notin> set path" "absolute_path path"
    and query: "pred_option (\<lambda>q. CHR ''#'' \<notin> set q) query"
    and bytes: "list_all ValidURLByte (scheme @ ''://'' @ auth @ path @
      (case query of None \<Rightarrow> [] | Some q \<Rightarrow> ''?'' @ q) @
      (case fragment of None \<Rightarrow> [] | Some f \<Rightarrow> ''#'' @ f))"
  shows "ParseReference (scheme @ ''://'' @ auth @ path @
      (case query of None \<Rightarrow> [] | Some q \<Rightarrow> ''?'' @ q) @
      (case fragment of None \<Rightarrow> [] | Some f \<Rightarrow> ''#'' @ f)) =
    Inr \<lparr>ref_scheme = Some scheme, has_authority = True, ref_authority = auth, ref_path = path,
      ref_query = query, ref_fragment = fragment\<rparr>"
proof -
  let ?front = "scheme @ ''://'' @ auth @ path"
  let ?q = "case query of None \<Rightarrow> [] | Some q \<Rightarrow> ''?'' @ q"
  obtain path' where path': "path = CHR ''/'' # path'" using path by (auto simp: absolute_path_def)
  have cut1: "cut_at CHR ''#'' ((?front @ ?q) @ (case fragment of None \<Rightarrow> [] | Some f \<Rightarrow> ''#'' @ f)) =
      (?front @ ?q, fragment)"
    using scheme auth path query by (intro cut_at_append) (auto split: option.splits)
  have cut2: "cut_at CHR ''?'' (?front @ ?q) = (?front, query)"
    using scheme auth path by (intro cut_at_append) auto
  have "SplitScheme ?front = Inr (Some scheme, ''//'' @ auth @ path)"
    using scheme by (auto simp: SplitScheme_def ValidScheme_def char_class_defs tolower_def)
  moreover have "SplitPath (Some scheme) query fragment (''//'' @ auth @ path) =
      \<lparr>ref_scheme = Some scheme, has_authority = True, ref_authority = auth, ref_path = path,
      ref_query = query, ref_fragment = fragment\<rparr>"
    using find_char_append [OF auth(1), of path'] by (simp add: SplitPath_def path')
  moreover have "ValidateURLCharacters ((?front @ ?q) @
      (case fragment of None \<Rightarrow> [] | Some f \<Rightarrow> ''#'' @ f)) = Inr ()"
    using bytes by (simp add: ValidateURLCharacters_def)
  ultimately show ?thesis using cut1 cut2 by (simp add: ParseReference_def)
qed

lemma ParsePort_show_nat: "0 < p \<Longrightarrow> p \<le> 65535 \<Longrightarrow> ParsePort (show_nat p) = Inr p"
  using show_nat_digits [of p] by (simp add: ParsePort_def Let_def)

lemma ParseAuthority_host_port:
  assumes "wf_host h" and "wf_port (url_scheme u) port" and "url_port u = None"
  shows "ParseAuthority (h @ (case port of None \<Rightarrow> [] | Some p \<Rightarrow> '':'' @ show_nat p)) u =
    Inr (u\<lparr>url_host := h, url_port := port\<rparr>)"
proof (cases port)
  case None
  then show ?thesis
    using SplitAuthority_wf_host [OF assms(1), of "[]"] assms
    by (simp add: ParseAuthority_def wf_host_def)
next
  case (Some p)
  then show ?thesis
    using SplitAuthority_wf_host [OF assms(1) show_nat_digits, of p] assms
    by (simp add: ParseAuthority_def wf_host_def wf_port_def ParsePort_show_nat)
qed

lemma wf_host_bytes:
  assumes "wf_host h"
  shows "list_all ValidURLByte h" "CHR ''/'' \<notin> set h" "CHR ''?'' \<notin> set h" "CHR ''#'' \<notin> set h"
  using assms by (auto simp: wf_host_def list_all_iff)

lemma isdigit_ValidURLByte: "isdigit c \<Longrightarrow> ValidURLByte c \<and> c \<notin> {CHR ''/'', CHR ''?'', CHR ''#''}"
  by (auto simp: isdigit_def ValidURLByte_def)

lemma port_text_bytes:
  "list_all (\<lambda>c. ValidURLByte c \<and> c \<notin> {CHR ''/'', CHR ''?'', CHR ''#''})
     (case port of None \<Rightarrow> [] | Some p \<Rightarrow> '':'' @ show_nat p)"
proof (cases port)
  case (Some p)
  have "list_all (\<lambda>c. ValidURLByte c \<and> c \<notin> {CHR ''/'', CHR ''?'', CHR ''#''}) (show_nat p)"
    using show_nat_digits [of p] by (rule list.pred_mono_strong) (rule isdigit_ValidURLByte)
  then show ?thesis by (simp add: Some ValidURLByte_def [of "CHR '':''"])
qed simp

lemma ParseAbsoluteHTTPURL_Serialize:
  assumes "wf_url u"
  shows "ParseAbsoluteHTTPURL (Serialize u True) = Inr u"
proof -
  let ?auth = "url_host u @ (case url_port u of None \<Rightarrow> [] | Some p \<Rightarrow> '':'' @ show_nat p)"
  have path: "absolute_path (url_path u)" "url_path u \<noteq> []"
    using assms by (auto simp: wf_url_def absolute_path_def)
  have u: "url_scheme u \<in> {''http'', ''https''}" "wf_host (url_host u)"
    using assms by (simp_all add: wf_url_def)
  note port = port_text_bytes [of "url_port u", unfolded list_all_iff]
  have auth: "CHR ''/'' \<notin> set ?auth" "CHR ''?'' \<notin> set ?auth" "CHR ''#'' \<notin> set ?auth"
    using wf_host_bytes(2-) [OF u(2)] port by fastforce+
  have "list_all ValidURLByte ?auth"
    using wf_host_bytes(1) [OF u(2)] port_text_bytes [of "url_port u"]
    by (simp add: list.pred_set split del: option.split) blast
  moreover have "list_all ValidURLByte (url_scheme u @ ''://'')"
    using u by (auto simp: ValidURLByte_def)
  moreover have "list_all ValidURLByte (url_path u)"
    using assms by (simp add: wf_url_def list_all_iff)
  moreover have "list_all ValidURLByte (case url_query u of None \<Rightarrow> [] | Some q \<Rightarrow> ''?'' @ q)"
    using assms by (cases "url_query u") (simp_all add: wf_url_def list_all_iff ValidURLByte_def)
  moreover have "list_all ValidURLByte (case url_fragment u of None \<Rightarrow> [] | Some f \<Rightarrow> ''#'' @ f)"
    using assms by (cases "url_fragment u") (simp_all add: wf_url_def list_all_iff ValidURLByte_def)
  ultimately have bytes: "list_all ValidURLByte (url_scheme u @ ''://'' @ ?auth @ url_path u @
      (case url_query u of None \<Rightarrow> [] | Some q \<Rightarrow> ''?'' @ q) @
      (case url_fragment u of None \<Rightarrow> [] | Some f \<Rightarrow> ''#'' @ f))"
    by simp
  have "CHR ''?'' \<notin> set (url_path u)" "CHR ''#'' \<notin> set (url_path u)"
    "pred_option (\<lambda>q. CHR ''#'' \<notin> set q) (url_query u)"
    using wf_urlD [OF assms] by (auto simp: list_all_iff option.pred_set)
  from ParseReference_parts_text [OF u(1) auth this(1,2) path(1) this(3) bytes]
  have "ParseReference (Serialize u True) =
    Inr \<lparr>ref_scheme = Some (url_scheme u), has_authority = True, ref_authority = ?auth,
      ref_path = url_path u, ref_query = url_query u, ref_fragment = url_fragment u\<rparr>"
    using path(2) by (simp add: Serialize_def)
  then show ?thesis
    using u path assms
    by (auto simp: ParseAbsoluteHTTPURL_def ParseAuthority_host_port wf_url_def absolute_path_def)
qed

lemma wf_url_resolved_path:
  assumes "wf_url u" and "absolute_path p"
    and "list_all (\<lambda>c. ValidURLByte c \<and> c \<notin> {CHR ''?'', CHR ''#''}) p"
  shows "wf_url (u\<lparr>url_path := RemoveDotSegments p\<rparr>)"
  using assms RemoveDotSegments_absolute [OF assms(2)] by (auto simp: wf_url_def list_all_iff)

lemma absolute_path_MergePaths: "absolute_path base \<Longrightarrow> absolute_path (MergePaths base r)"
  by (auto simp: MergePaths_def absolute_path_def split: option.splits)

lemma RedirectTarget_wf:
  assumes base: "wf_url base" and ref: "ParseReference location = Inr r"
    and target: "RedirectTarget base location r = Inr t"
  shows "wf_url t" and "ref_path r \<noteq> [] \<or> has_authority r \<Longrightarrow> dot_free (url_path t)"
proof -
  note parts = ParseReference_parts [OF ref]
  have *: "wf_url t \<and> dot_free (url_path t)"
    if "ParseAbsoluteHTTPURL x = Inr u" "t = u\<lparr>url_path := RemoveDotSegments (url_path u)\<rparr>" for x u
    using ParseAbsoluteHTTPURL_wf [OF that(1)] wf_url_resolved_path [of u "url_path u"]
      RemoveDotSegments_absolute [of "url_path u"] by (simp add: that(2) wf_url_def)
  let ?p = "if hd (ref_path r) = CHR ''/'' then ref_path r else MergePaths (url_path base) (ref_path r)"
  have bytes: "list_all (\<lambda>c. ValidURLByte c \<and> c \<notin> {CHR ''?'', CHR ''#''}) ?p"
    using parts(1,3) base
    by (auto simp: list_all_iff wf_url_def MergePaths_def ValidURLByte_def [of "CHR ''/''"]
        dest: in_set_takeD split: option.splits)
  have abs: "absolute_path ?p" if "ref_path r \<noteq> []"
    using that base absolute_path_MergePaths [of "url_path base"]
    by (cases "ref_path r") (auto simp: absolute_path_def wf_url_def)
  show "wf_url t"
  proof (cases "ref_scheme r = None \<and> \<not> has_authority r")
    case True
    have "wf_url (if ref_path r = [] then base else base\<lparr>url_path := RemoveDotSegments ?p\<rparr>)"
      using base wf_url_resolved_path [OF base abs bytes] by simp
    moreover have "pred_option (list_all (\<lambda>c. ValidURLByte c \<and> c \<noteq> CHR ''#'')) (ref_query r)"
      "pred_option (list_all ValidURLByte) (ref_fragment r)"
      using parts(1,4,5) by (auto simp: list_all_iff option.pred_set)
    ultimately show ?thesis
      using True target by (auto simp: RedirectTarget_def wf_url_def split: if_splits)
  qed (use target * in \<open>auto simp: RedirectTarget_def bindE_Inr_iff split: if_splits\<close>)
  show "dot_free (url_path t)" if "ref_path r \<noteq> [] \<or> has_authority r"
  proof (cases "ref_scheme r = None \<and> \<not> has_authority r")
    case True
    then have "url_path t = RemoveDotSegments ?p"
      using that target by (auto simp: RedirectTarget_def)
    then show ?thesis using RemoveDotSegments_absolute(2) [OF abs] that True by simp
  qed (use target * in \<open>auto simp: RedirectTarget_def bindE_Inr_iff split: if_splits\<close>)
qed

section \<open>Properties\<close>

text \<open>
  C35. Dot-segment removal on an absolute path computes the stack machine over the segments of the
  path: the byte-level loop with its in-place edits is equivalent to the reference definition, for
  every path.
\<close>

theorem remove_dot_segments_equiv:
  "RemoveDotSegments (CHR ''/'' # s) =
     concat (map (Cons CHR ''/'') (resolve_segments (Split s CHR ''/'') []))"
  by (simp add: RemoveDotSegments_resolve path_text_def)

text \<open>
  Serialising inverts parsing on addresses: whatever absolute address the parser accepts, its
  serialised form (with the fragment) is accepted again and yields the same scheme, host, port,
  path, query and fragment.
\<close>

theorem http_url_roundtrip:
  assumes "ParseAbsoluteHTTPURL s = Inr u"
  shows "ParseAbsoluteHTTPURL (Serialize u True) = Inr u"
  by (intro ParseAbsoluteHTTPURL_Serialize ParseAbsoluteHTTPURL_wf [OF assms])

theorem http_url_roundtrip_witness:
  "\<exists>u. ParseAbsoluteHTTPURL ''HTTPS://Host/a?b#c'' = Inr u \<and>
     url_host u = ''host'' \<and> url_port u = None \<and>
     ParseAbsoluteHTTPURL (Serialize u True) = Inr u"
proof -
  have "ParseAbsoluteHTTPURL ''HTTPS://Host/a?b#c'' =
      Inr \<lparr>url_scheme = ''https'', url_host = ''host'', url_port = None, url_path = ''/a'',
           url_query = Some ''b'', url_fragment = Some ''c''\<rparr>"
    by code_simp
  from http_url_roundtrip [OF this] this show ?thesis by auto
qed

text \<open>
  C34. A redirect that is followed leads to a well-formed absolute address of an HTTP scheme: the
  emitted text parses again, an HTTPS source never leads to an address that is not HTTPS, the
  host carries no credentials, and a redirect that names a path or a host has no dot segment left. A redirect that
  names a query or a fragment only keeps the path of its source as it is.
\<close>

theorem redirect_safe:
  assumes "ResolveRedirectURL source location = Inr out"
  shows "\<exists>base target r. ParseAbsoluteHTTPURL source = Inr base \<and> ParseReference location = Inr r \<and>
    ParseAbsoluteHTTPURL out = Inr target \<and>
    (url_scheme base = ''https'' \<longrightarrow> url_scheme target = ''https'') \<and>
    CHR ''@'' \<notin> set (url_host target) \<and> absolute_path (url_path target) \<and>
    (ref_path r \<noteq> [] \<or> has_authority r \<longrightarrow> dot_free (url_path target))"
proof -
  from assms obtain base r t where base: "ParseAbsoluteHTTPURL source = Inr base"
    and r: "ParseReference location = Inr r" and t: "RedirectTarget base location r = Inr t"
    and https: "url_scheme base = ''https'' \<longrightarrow> url_scheme t = ''https''"
    and out: "out = Serialize t True"
    by (auto simp: ResolveRedirectURL_def bindE_Inr_iff split: if_splits)
  have wf: "wf_url t" using RedirectTarget_wf(1) [OF ParseAbsoluteHTTPURL_wf [OF base] r t] .
  then have "CHR ''@'' \<notin> set (url_host t)" "absolute_path (url_path t)"
    by (auto simp: wf_url_def wf_host_def list_all_iff)
  with base r t https wf show ?thesis
    using RedirectTarget_wf(2) [OF ParseAbsoluteHTTPURL_wf [OF base] r t]
    by (auto simp: out ParseAbsoluteHTTPURL_Serialize)
qed

theorem redirect_safe_witness:
  "\<exists>target. ResolveRedirectURL ''https://h/a/b'' ''../c'' = Inr ''https://h/c'' \<and>
     ParseAbsoluteHTTPURL ''https://h/c'' = Inr target \<and> url_scheme target = ''https''"
proof -
  have ok: "ResolveRedirectURL ''https://h/a/b'' ''../c'' = Inr ''https://h/c''"
    by code_simp
  moreover have "ParseAbsoluteHTTPURL ''https://h/a/b'' =
    Inr \<lparr>url_scheme = ''https'', url_host = ''h'', url_port = None, url_path = ''/a/b'',
         url_query = None, url_fragment = None\<rparr>"
    by code_simp
  ultimately show ?thesis using redirect_safe [OF ok] by auto
qed

text \<open>
  The downgrade guard is exact: when the source is HTTPS and the redirect resolves to a target
  of another scheme, the call fails with the downgrade error, and when the source is plain HTTP
  every resolvable target is emitted.
\<close>

theorem redirect_downgrade_refused:
  assumes "ParseAbsoluteHTTPURL source = Inr base" and "ParseReference location = Inr r"
    and "RedirectTarget base location r = Inr target"
  shows "ResolveRedirectURL source location =
    (if url_scheme base = ''https'' \<and> url_scheme target = ''http''
     then Inl (RuntimeError ''HTTPS redirect downgrade is forbidden.'')
     else Inr (Serialize target True))"
  using assms RedirectTarget_wf(1) [OF ParseAbsoluteHTTPURL_wf [OF assms(1)] assms(2,3)]
  by (auto simp: ResolveRedirectURL_def wf_url_def)

theorem redirect_downgrade_refused_witness:
  "ResolveRedirectURL ''https://h/a'' ''http://h/b'' =
     Inl (RuntimeError ''HTTPS redirect downgrade is forbidden.'')"
proof -
  let ?u = "\<lambda>s p. \<lparr>url_scheme = s, url_host = ''h'', url_port = None, url_path = p,
         url_query = None, url_fragment = None\<rparr>"
  let ?r = "\<lparr>ref_scheme = Some ''http'', has_authority = True, ref_authority = ''h'',
    ref_path = ''/b'', ref_query = None, ref_fragment = None\<rparr>"
  have "ParseAbsoluteHTTPURL ''https://h/a'' = Inr (?u ''https'' ''/a'')" by code_simp
  moreover have "ParseReference ''http://h/b'' = Inr ?r" by code_simp
  moreover have "RedirectTarget (?u ''https'' ''/a'') ''http://h/b'' ?r = Inr (?u ''http'' ''/b'')"
    by code_simp
  ultimately show ?thesis using redirect_downgrade_refused by fastforce
qed

end
