(* ===== verification/Ordered_Map.thy ===== *)
theory Ordered_Map
  imports Updater_Prelude
begin

text \<open>
  \<^verbatim>\<open>std::map\<close>: the interface \<open>ordered_map\<close> states what the runtime relies on
  (\<^verbatim>\<open>emplace\<close> keeps an existing entry, lookup after insertion, iteration in key order), and the
  model is an association list sorted strictly by key, which iterates as the container does.
\<close>

section \<open>The interface\<close>

locale ordered_map =
  fixes empty :: "'m"
    and emplace :: "'k::linorder \<Rightarrow> 'v \<Rightarrow> 'm \<Rightarrow> 'm"
    and find :: "'m \<Rightarrow> 'k \<Rightarrow> 'v option"
    and entries :: "'m \<Rightarrow> ('k \<times> 'v) list"
    and invar :: "'m \<Rightarrow> bool"
  assumes find_empty: "find empty k = None"
    and invar_empty: "invar empty"
    and invar_emplace: "invar m \<Longrightarrow> invar (emplace k v m)"
    and find_emplace:
      "invar m \<Longrightarrow> find (emplace k v m) k' =
         (if k' = k then (case find m k of None \<Rightarrow> Some v | Some w \<Rightarrow> Some w) else find m k')"
    and entries_find: "invar m \<Longrightarrow> map_of (entries m) = find m"
    and entries_sorted: "invar m \<Longrightarrow> sorted_wrt (<) (map fst (entries m))"
    and entries_inject: "invar m \<Longrightarrow> invar m' \<Longrightarrow> entries m = entries m' \<Longrightarrow> m = m'"
begin

text \<open>A sequence of \<^verbatim>\<open>emplace\<close> calls, in program order.\<close>

definition emplace_all :: "('k \<times> 'v) list \<Rightarrow> 'm \<Rightarrow> 'm" where
  "emplace_all kvs m = fold (\<lambda>(k, v). emplace k v) kvs m"

lemma invar_emplace_all: "invar m \<Longrightarrow> invar (emplace_all kvs m)"
  unfolding emplace_all_def
  by (induction kvs arbitrary: m) (auto simp: invar_emplace)

lemma find_emplace_all:
  assumes "invar m"
  shows "find (emplace_all kvs m) k =
    (case find m k of Some w \<Rightarrow> Some w | None \<Rightarrow> map_of kvs k)"
  using assms unfolding emplace_all_def
proof (induction kvs arbitrary: m)
  case Nil
  then show ?case by (simp split: option.split)
next
  case (Cons kv kvs)
  obtain a b where kv: "kv = (a, b)" by (cases kv)
  from Cons.prems have inv: "invar (emplace a b m)" by (rule invar_emplace)
  show ?case
    using Cons.IH [OF inv] Cons.prems by (auto simp: kv find_emplace split: option.splits)
qed

text \<open>A map is determined by its lookups.\<close>

lemma map_ext:
  assumes "invar m" and "invar m'" and "\<And>k. find m k = find m' k"
  shows "m = m'"
proof -
  have "find m = find m'" using assms(3) by blast
  then have "map_of (entries m) = map_of (entries m')"
    by (simp add: entries_find assms(1,2))
  moreover have "distinct (map fst (entries m))" "distinct (map fst (entries m'))"
    using entries_sorted assms(1,2) by (auto simp: strict_sorted_iff)
  ultimately have "set (entries m) = set (entries m')"
    by (metis map_of_inject_set)
  moreover have "sorted (map fst (entries m))" "sorted (map fst (entries m'))"
    using entries_sorted assms(1,2) by (auto simp: strict_sorted_iff)
  ultimately have "entries m = entries m'"
    using \<open>distinct (map fst (entries m))\<close> \<open>distinct (map fst (entries m'))\<close>
    by (intro map_sorted_distinct_set_unique [where f = fst])
      (auto simp: distinct_map)
  then show ?thesis using entries_inject assms(1,2) by blast
qed

text \<open>
  A map that holds exactly the keys \<open>ks\<close> is rebuilt by emplacing its own values under these
  keys: what makes a strict decoder with an exact-key check the inverse of its encoder.
\<close>

lemma exact_keys_rebuild:
  assumes inv: "invar m" and card: "length (entries m) = length ks" and dist: "distinct ks"
    and present: "\<And>k. k \<in> set ks \<Longrightarrow> find m k = Some (f k)"
  shows "emplace_all (map (\<lambda>k. (k, f k)) ks) empty = m"
proof (rule map_ext)
  show "invar (emplace_all (map (\<lambda>k. (k, f k)) ks) empty)"
    by (intro invar_emplace_all invar_empty)
  show "invar m" by (rule inv)
next
  fix k
  have dist_m: "distinct (map fst (entries m))"
    using entries_sorted [OF inv] by (simp add: strict_sorted_iff)
  have "set ks \<subseteq> set (map fst (entries m))"
  proof
    fix k assume "k \<in> set ks"
    with present have "map_of (entries m) k = Some (f k)" by (simp add: entries_find inv)
    then show "k \<in> set (map fst (entries m))" by (auto dest: map_of_SomeD intro: rev_image_eqI)
  qed
  moreover have "card (set ks) = card (set (map fst (entries m)))"
    using card dist dist_m by (simp add: distinct_card del: set_map)
  ultimately have keys: "set ks = set (map fst (entries m))"
    by (intro card_subset_eq) auto
  show "find (emplace_all (map (\<lambda>k. (k, f k)) ks) empty) k = find m k"
  proof (cases "k \<in> set ks")
    case True
    then show ?thesis
      by (simp add: find_emplace_all invar_empty find_empty present map_of_map_restrict)
  next
    case False
    with keys have "map_of (entries m) k = None" by (simp add: map_of_eq_None_iff)
    with False show ?thesis
      by (simp add: find_emplace_all invar_empty find_empty entries_find inv map_of_map_restrict)
  qed
qed

end

section \<open>Sorted association lists\<close>

type_synonym ('k, 'v) std_map = "('k \<times> 'v) list"

fun map_emplace :: "'k::linorder \<Rightarrow> 'v \<Rightarrow> ('k, 'v) std_map \<Rightarrow> ('k, 'v) std_map" where
  "map_emplace k v [] = [(k, v)]"
| "map_emplace k v ((k', v') # m) =
     (if k < k' then (k, v) # (k', v') # m
      else if k = k' then (k', v') # m
      else (k', v') # map_emplace k v m)"

text \<open>\<^verbatim>\<open>m[k] = v\<close> overwrites.\<close>

fun map_assign :: "'k::linorder \<Rightarrow> 'v \<Rightarrow> ('k, 'v) std_map \<Rightarrow> ('k, 'v) std_map" where
  "map_assign k v [] = [(k, v)]"
| "map_assign k v ((k', v') # m) =
     (if k < k' then (k, v) # (k', v') # m
      else if k = k' then (k, v) # m
      else (k', v') # map_assign k v m)"

definition map_find :: "('k, 'v) std_map \<Rightarrow> 'k \<Rightarrow> 'v option" where
  "map_find m k = map_of m k"

definition sorted_keys :: "('k::linorder, 'v) std_map \<Rightarrow> bool" where
  "sorted_keys m \<longleftrightarrow> sorted_wrt (<) (map fst m)"

text \<open>An object literal of the code: a sequence of \<^verbatim>\<open>emplace\<close> calls on an empty map.\<close>

definition emplaced :: "('k::linorder \<times> 'v) list \<Rightarrow> ('k, 'v) std_map" where
  "emplaced kvs = fold (\<lambda>(k, v). map_emplace k v) kvs []"

lemma sorted_keys_Nil [simp]: "sorted_keys []"
  by (simp add: sorted_keys_def)

lemma sorted_keys_Cons:
  "sorted_keys ((k, v) # m) \<longleftrightarrow> sorted_keys m \<and> (\<forall>k' \<in> fst ` set m. k < k')"
  by (auto simp: sorted_keys_def)

lemma map_find_simps [simp]:
  "map_find [] k = None" "map_find ((a, b) # m) k = (if k = a then Some b else map_find m k)"
  by (auto simp: map_find_def)

lemma fst_map_emplace: "fst ` set (map_emplace k v m) = insert k (fst ` set m)"
  by (induction k v m rule: map_emplace.induct) auto

lemma sorted_map_emplace: "sorted_keys m \<Longrightarrow> sorted_keys (map_emplace k v m)"
  by (induction k v m rule: map_emplace.induct) (auto simp: sorted_keys_Cons fst_map_emplace)

lemma map_find_less: "sorted_keys ((a, b) # m) \<Longrightarrow> k < a \<Longrightarrow> map_find m k = None"
  by (auto simp: sorted_keys_Cons map_find_def map_of_eq_None_iff)

lemma map_find_emplace:
  "sorted_keys m \<Longrightarrow> map_find (map_emplace k v m) k' =
     (if k' = k then (case map_find m k of None \<Rightarrow> Some v | Some w \<Rightarrow> Some w) else map_find m k')"
proof (induction k v m rule: map_emplace.induct)
  case (2 k v a b m)
  have "k < a \<Longrightarrow> map_find m k = None" by (rule map_find_less [OF "2.prems"])
  moreover have "sorted_keys m" using "2.prems" by (simp add: sorted_keys_Cons)
  ultimately show ?case using "2.IH" by auto
qed simp

interpretation sm: ordered_map "[]" map_emplace map_find "\<lambda>m. m" sorted_keys
  by unfold_locales
    (simp_all add: map_find_emplace sorted_map_emplace, simp_all add: map_find_def fun_eq_iff sorted_keys_def)

lemma emplaced_eq: "emplaced kvs = sm.emplace_all kvs []"
  by (simp add: emplaced_def sm.emplace_all_def)

lemma sorted_emplaced [simp]: "sorted_keys (emplaced kvs)"
  by (simp add: emplaced_eq sm.invar_emplace_all)

lemma map_find_emplaced: "map_find (emplaced kvs) k = map_of kvs k"
  by (simp add: emplaced_eq sm.find_emplace_all)

lemma emplaced_rebuild:
  assumes "sorted_keys m" and "length m = length ks" and "distinct ks"
    and "\<And>k. k \<in> set ks \<Longrightarrow> map_find m k = Some (f k)"
  shows "emplaced (map (\<lambda>k. (k, f k)) ks) = m"
  unfolding emplaced_eq using assms by (rule sm.exact_keys_rebuild)

lemma fst_emplaced: "fst ` set (emplaced kvs) = fst ` set kvs"
proof -
  have "dom (map_of (emplaced kvs)) = dom (map_of kvs)"
    using map_find_emplaced [of kvs] by (auto simp: map_find_def dom_def)
  then show ?thesis by (simp add: dom_map_of_conv_image_fst)
qed

lemma length_emplaced: "distinct (map fst kvs) \<Longrightarrow> length (emplaced kvs) = length kvs"
proof -
  assume dist: "distinct (map fst kvs)"
  have "distinct (map fst (emplaced kvs))"
    using sorted_emplaced [of kvs] by (simp add: sorted_keys_def strict_sorted_iff)
  then have "length (emplaced kvs) = card (fst ` set (emplaced kvs))"
    by (metis distinct_card length_map list.set_map)
  also have "\<dots> = card (fst ` set kvs)" by (simp add: fst_emplaced)
  also have "\<dots> = length kvs" using dist by (metis distinct_card length_map list.set_map)
  finally show ?thesis .
qed

lemma map_find_in_set: "map_find m k = Some v \<Longrightarrow> (k, v) \<in> set m"
  by (simp add: map_find_def map_of_SomeD)

end
