(* ===== verification/Json_Value.thy ===== *)
theory Json_Value
  imports Number_Text Ordered_Map
begin

unbundle bit_operations_syntax

text \<open>
  \<^verbatim>\<open>native_runtime/cpp/json_value.{h,cc}\<close>: the JSON value type, the strict recursive-descent
  parser, the canonical encoder and the checked accessors.

  The parser object holds the input and a position; the model passes the suffix of the input
  that starts at the position. Every function below returns the parsed value with the suffix at
  which the C++ function leaves the position, or the \<open>JsonError\<close> it throws. A JSON object is
  a \<^verbatim>\<open>std::map\<close>, modelled by a strictly sorted association list.
\<close>

section \<open>Values\<close>

datatype JsonValue =
    kNull
  | kBoolean bool
  | kInteger int
  | kString string
  | kArray "JsonValue list"
  | kObject "(string \<times> JsonValue) list"

text \<open>The checked accessors.\<close>

definition jboolean :: "JsonValue \<Rightarrow> bool result" where
  "jboolean v = (case v of kBoolean b \<Rightarrow> Inr b | _ \<Rightarrow> Inl (JsonError ''Expected JSON boolean.''))"

definition jinteger :: "JsonValue \<Rightarrow> int result" where
  "jinteger v = (case v of kInteger i \<Rightarrow> Inr i | _ \<Rightarrow> Inl (JsonError ''Expected JSON integer.''))"

definition jstring :: "JsonValue \<Rightarrow> string result" where
  "jstring v = (case v of kString s \<Rightarrow> Inr s | _ \<Rightarrow> Inl (JsonError ''Expected JSON string.''))"

definition jarray :: "JsonValue \<Rightarrow> JsonValue list result" where
  "jarray v = (case v of kArray a \<Rightarrow> Inr a | _ \<Rightarrow> Inl (JsonError ''Expected JSON array.''))"

definition jobject :: "JsonValue \<Rightarrow> (string, JsonValue) std_map result" where
  "jobject v = (case v of kObject m \<Rightarrow> Inr m | _ \<Rightarrow> Inl (JsonError ''Expected JSON object.''))"

definition json_at :: "JsonValue \<Rightarrow> string \<Rightarrow> JsonValue result" where
  "json_at v key =
     bindE (jobject v) (\<lambda>m. case map_find m key of
         None \<Rightarrow> Inl (JsonError (''Missing JSON key: '' @ key))
       | Some w \<Rightarrow> Inr w)"

definition json_find :: "JsonValue \<Rightarrow> string \<Rightarrow> JsonValue option result" where
  "json_find v key = bindE (jobject v) (\<lambda>m. Inr (map_find m key))"

section \<open>The parser\<close>

definition SkipWhitespace :: "string \<Rightarrow> string" where
  "SkipWhitespace s = dropWhile isspace s"

definition ConsumeIf :: "char \<Rightarrow> string \<Rightarrow> string option" where
  "ConsumeIf c s = (case s of [] \<Rightarrow> None | x # xs \<Rightarrow> if x = c then Some xs else None)"

definition Require :: "char \<Rightarrow> string \<Rightarrow> string result" where
  "Require c s = (case ConsumeIf c s of
       Some r \<Rightarrow> Inr r
     | None \<Rightarrow> Inl (JsonError (''Expected JSON token '' @ [c] @ ''.'')))"

definition ConsumeLiteral :: "string \<Rightarrow> string \<Rightarrow> string result" where
  "ConsumeLiteral literal s =
     (if take (length literal) s \<noteq> literal then Inl (JsonError ''Invalid JSON literal.'')
      else Inr (drop (length literal) s))"

definition hex_value :: "char \<Rightarrow> nat option" where
  "hex_value c =
     (if 48 \<le> ord c \<and> ord c \<le> 57 then Some (ord c - 48)
      else if 97 \<le> ord c \<and> ord c \<le> 102 then Some (ord c - 97 + 10)
      else if 65 \<le> ord c \<and> ord c \<le> 70 then Some (ord c - 65 + 10)
      else None)"

text \<open>The loop over the four digits of an escape; the value stays below \<open>2 ^ 16\<close>.\<close>

fun ParseHexLoop :: "nat \<Rightarrow> nat \<Rightarrow> string \<Rightarrow> (nat \<times> string) result" where
  "ParseHexLoop 0 value s = Inr (value, s)"
| "ParseHexLoop (Suc n) value [] = Inl (JsonError ''Invalid JSON Unicode escape.'')"
| "ParseHexLoop (Suc n) value (c # s) =
     (case hex_value c of
        None \<Rightarrow> Inl (JsonError ''Invalid JSON Unicode escape.'')
      | Some d \<Rightarrow> ParseHexLoop n (push_bit 4 value + d) s)"

definition ParseHex4 :: "string \<Rightarrow> (nat \<times> string) result" where
  "ParseHex4 s =
     (if length s < 4 then Inl (JsonError ''Incomplete JSON Unicode escape.'')
      else ParseHexLoop 4 0 s)"

definition ParseUnicodeScalar :: "string \<Rightarrow> (nat \<times> string) result" where
  "ParseUnicodeScalar s =
     bindE (ParseHex4 s) (\<lambda>(first, s1).
       if first < 0xD800 \<or> first > 0xDFFF then Inr (first, s1)
       else if first > 0xDBFF \<or> length s1 < 2 \<or> s1 ! 0 \<noteq> CHR 0x5C \<or> s1 ! 1 \<noteq> CHR ''u''
       then Inl (JsonError ''Invalid JSON Unicode surrogate pair.'')
       else bindE (ParseHex4 (drop 2 s1)) (\<lambda>(second, s2).
         if second < 0xDC00 \<or> second > 0xDFFF
         then Inl (JsonError ''Invalid JSON Unicode surrogate pair.'')
         else Inr (0x10000 + push_bit 10 (first - 0xD800) + (second - 0xDC00), s2)))"

definition AppendCodePoint :: "nat \<Rightarrow> string" where
  "AppendCodePoint value =
     (if value \<le> 0x7F then [char_of value]
      else if value \<le> 0x7FF then
        [char_of (0xC0 OR drop_bit 6 value), char_of (0x80 OR (value AND 0x3F))]
      else if value \<le> 0xFFFF then
        [char_of (0xE0 OR drop_bit 12 value), char_of (0x80 OR (drop_bit 6 value AND 0x3F)),
         char_of (0x80 OR (value AND 0x3F))]
      else
        [char_of (0xF0 OR drop_bit 18 value), char_of (0x80 OR (drop_bit 12 value AND 0x3F)),
         char_of (0x80 OR (drop_bit 6 value AND 0x3F)), char_of (0x80 OR (value AND 0x3F))])"

lemma ParseHexLoop_rest: "ParseHexLoop n v s = Inr (w, r) \<Longrightarrow> length r + n = length s"
  by (induction n v s rule: ParseHexLoop.induct) (auto split: option.splits)

lemma ParseHex4_rest: "ParseHex4 s = Inr (w, r) \<Longrightarrow> length r + 4 = length s"
  by (auto simp: ParseHex4_def dest: ParseHexLoop_rest split: if_splits)

lemma ParseUnicodeScalar_rest [termination_simp]:
  "ParseUnicodeScalar s = Inr (w, r) \<Longrightarrow> length r < length s"
  by (auto simp: ParseUnicodeScalar_def bindE_Inr_iff dest!: ParseHex4_rest
      split: if_splits prod.splits)

text \<open>The one-byte escapes of the \<^verbatim>\<open>switch\<close> in \<open>ParseString\<close>.\<close>

definition SimpleEscape :: "char \<Rightarrow> char option" where
  "SimpleEscape escape =
     (if escape = CHR 0x22 then Some CHR 0x22
      else if escape = CHR 0x5C then Some CHR 0x5C
      else if escape = CHR ''/'' then Some CHR ''/''
      else if escape = CHR ''b'' then Some CHR 0x08
      else if escape = CHR ''f'' then Some CHR 0x0C
      else if escape = CHR ''n'' then Some CHR 0x0A
      else if escape = CHR ''r'' then Some CHR 0x0D
      else if escape = CHR ''t'' then Some CHR 0x09
      else None)"

text \<open>The loop of \<open>ParseString\<close> after the opening quote, with the bytes gathered so far.\<close>

function ParseStringLoop :: "string \<Rightarrow> string \<Rightarrow> (string \<times> string) result" where
  "ParseStringLoop s result =
     (case s of
        [] \<Rightarrow> Inl (JsonError ''Unterminated JSON string.'')
      | byte # s1 \<Rightarrow>
          if byte = CHR 0x22 then Inr (result, s1)
          else if ord byte < 0x20 then Inl (JsonError ''Unescaped control byte in JSON string.'')
          else if byte \<noteq> CHR 0x5C then ParseStringLoop s1 (result @ [byte])
          else (case s1 of
              [] \<Rightarrow> Inl (JsonError ''Incomplete JSON escape.'')
            | escape # s2 \<Rightarrow>
                (case SimpleEscape escape of
                   Some c \<Rightarrow> ParseStringLoop s2 (result @ [c])
                 | None \<Rightarrow>
                     if escape = CHR ''u'' then
                       bindE (ParseUnicodeScalar s2) (\<lambda>(value, s3).
                         ParseStringLoop s3 (result @ AppendCodePoint value))
                     else Inl (JsonError ''Unsupported JSON escape.''))))"
  by pat_completeness auto
termination
  by (relation "measure (\<lambda>(s, r). length s)") (auto dest: ParseUnicodeScalar_rest)

declare ParseStringLoop.simps [simp del]

definition ParseString :: "string \<Rightarrow> (string \<times> string) result" where
  "ParseString s = bindE (Require CHR 0x22 s) (\<lambda>r. ParseStringLoop r [])"

definition ParseInteger :: "string \<Rightarrow> (JsonValue \<times> string) result" where
  "ParseInteger s =
     (let negative = (ConsumeIf CHR ''-'' s \<noteq> None);
          s1 = (case ConsumeIf CHR ''-'' s of None \<Rightarrow> s | Some r \<Rightarrow> r)
      in case s1 of
        [] \<Rightarrow> Inl (JsonError ''Invalid JSON number.'')
      | c # rest \<Rightarrow>
          if c \<noteq> CHR ''0'' \<and> \<not> isdigit c then Inl (JsonError ''Invalid JSON value.'')
          else
            let digits = (if c = CHR ''0'' then [c] else takeWhile isdigit s1);
                s2 = (if c = CHR ''0'' then rest else dropWhile isdigit s1);
                value = (if negative then - int (decimal_value digits) else int (decimal_value digits))
            in if s2 \<noteq> [] \<and> hd s2 \<in> {CHR ''.'', CHR ''e'', CHR ''E''}
               then Inl (JsonError ''Runtime contract JSON requires integer numbers.'')
               else if \<not> int64 value then Inl (JsonError ''JSON integer is out of range.'')
               else Inr (kInteger value, s2))"

text \<open>
  The mutually recursive core. \<open>ParseArray\<close> and \<open>ParseObject\<close> receive the suffix after the
  opening bracket, which the \<^verbatim>\<open>++position_\<close> at their start skips; the two loops carry the
  container built so far.
\<close>

function ParseValue :: "string \<Rightarrow> (JsonValue \<times> string) result"
  and ParseArray :: "string \<Rightarrow> (JsonValue \<times> string) result"
  and ParseArrayLoop :: "string \<Rightarrow> JsonValue list \<Rightarrow> (JsonValue \<times> string) result"
  and ParseObject :: "string \<Rightarrow> (JsonValue \<times> string) result"
  and ParseObjectLoop ::
    "string \<Rightarrow> (string, JsonValue) std_map \<Rightarrow> (JsonValue \<times> string) result"
where
  "ParseValue s =
     (case s of
        [] \<Rightarrow> Inl (JsonError ''Unexpected end of JSON input.'')
      | c # rest \<Rightarrow>
          if c = CHR ''n'' then bindE (ConsumeLiteral ''null'' s) (\<lambda>r. Inr (kNull, r))
          else if c = CHR ''t'' then bindE (ConsumeLiteral ''true'' s) (\<lambda>r. Inr (kBoolean True, r))
          else if c = CHR ''f'' then bindE (ConsumeLiteral ''false'' s) (\<lambda>r. Inr (kBoolean False, r))
          else if c = CHR 0x22 then bindE (ParseString s) (\<lambda>(t, r). Inr (kString t, r))
          else if c = CHR ''['' then ParseArray rest
          else if c = CHR ''{'' then ParseObject rest
          else ParseInteger s)"
| "ParseArray s =
     (case ConsumeIf CHR '']'' (SkipWhitespace s) of
        Some r \<Rightarrow> Inr (kArray [], r)
      | None \<Rightarrow> ParseArrayLoop (SkipWhitespace s) [])"
| "ParseArrayLoop s result =
     bindE (ParseValue (SkipWhitespace s)) (\<lambda>(v, s1).
       case ConsumeIf CHR '']'' (SkipWhitespace s1) of
         Some r \<Rightarrow> Inr (kArray (result @ [v]), r)
       | None \<Rightarrow> bindE (Require CHR '','' (SkipWhitespace s1)) (\<lambda>r. ParseArrayLoop r (result @ [v])))"
| "ParseObject s =
     (case ConsumeIf CHR ''}'' (SkipWhitespace s) of
        Some r \<Rightarrow> Inr (kObject [], r)
      | None \<Rightarrow> ParseObjectLoop (SkipWhitespace s) [])"
| "ParseObjectLoop s result =
     (let s0 = SkipWhitespace s in
      if s0 = [] \<or> hd s0 \<noteq> CHR 0x22 then Inl (JsonError ''JSON object keys must be strings.'')
      else bindE (ParseString s0) (\<lambda>(key, s1).
        bindE (Require CHR '':'' (SkipWhitespace s1)) (\<lambda>s2.
        bindE (ParseValue (SkipWhitespace s2)) (\<lambda>(v, s3).
          if map_find result key \<noteq> None
          then Inl (JsonError (''Duplicate JSON object key: '' @ key))
          else case ConsumeIf CHR ''}'' (SkipWhitespace s3) of
            Some r \<Rightarrow> Inr (kObject (map_emplace key v result), r)
          | None \<Rightarrow> bindE (Require CHR '','' (SkipWhitespace s3)) (\<lambda>r.
              ParseObjectLoop r (map_emplace key v result))))))"
  by pat_completeness auto

text \<open>
  Every parser consumes input. For the recursive functions this is proved on their domain
  first, and gives the termination argument.
\<close>

lemma SkipWhitespace_length [simp]: "length (SkipWhitespace s) \<le> length s"
  by (simp add: SkipWhitespace_def length_dropWhile_le)

lemma ConsumeIf_length: "ConsumeIf c s = Some r \<Longrightarrow> length r < length s"
  by (auto simp: ConsumeIf_def split: list.splits if_splits)

lemma Require_length: "Require c s = Inr r \<Longrightarrow> length r < length s"
  by (auto simp: Require_def dest: ConsumeIf_length split: option.splits)

lemma Require_skip_length: "Require c (SkipWhitespace s) = Inr r \<Longrightarrow> length r < length s"
  by (auto dest!: Require_length intro: less_le_trans [OF _ SkipWhitespace_length])

lemma ConsumeLiteral_length:
  "ConsumeLiteral l s = Inr r \<Longrightarrow> l \<noteq> [] \<Longrightarrow> length r < length s"
  by (cases "s = []") (auto simp: ConsumeLiteral_def split: if_splits)

text \<open>The rounds of the string loop, and the ways in which one can lead to success.\<close>

lemma ParseStringLoop_rounds:
  "ParseStringLoop [] result = Inl (JsonError ''Unterminated JSON string.'')"
  "ParseStringLoop (CHR 0x22 # r) result = Inr (result, r)"
  "ParseStringLoop [CHR 0x5C] result = Inl (JsonError ''Incomplete JSON escape.'')"
  "ParseStringLoop (CHR 0x5C # e # s2) result =
     (case SimpleEscape e of
        Some c \<Rightarrow> ParseStringLoop s2 (result @ [c])
      | None \<Rightarrow>
          if e = CHR ''u'' then
            bindE (ParseUnicodeScalar s2) (\<lambda>(v, s3). ParseStringLoop s3 (result @ AppendCodePoint v))
          else Inl (JsonError ''Unsupported JSON escape.''))"
  by (subst ParseStringLoop.simps, simp)+

lemma ParseStringLoop_control:
  "ord byte < 0x20 \<Longrightarrow> ParseStringLoop (byte # s) result =
     Inl (JsonError ''Unescaped control byte in JSON string.'')"
  by (subst ParseStringLoop.simps) auto

lemma ParseStringLoop_plain:
  "byte \<noteq> CHR 0x22 \<Longrightarrow> \<not> ord byte < 0x20 \<Longrightarrow> byte \<noteq> CHR 0x5C \<Longrightarrow>
     ParseStringLoop (byte # s) result = ParseStringLoop s (result @ [byte])"
  by (subst ParseStringLoop.simps) simp

lemma ParseStringLoop_cases:
  assumes ok: "ParseStringLoop s result = Inr (t, r)"
  obtains (quote) "s = CHR 0x22 # r" "t = result"
  | (plain) byte s1 where "s = byte # s1" "byte \<noteq> CHR 0x22" "\<not> ord byte < 0x20" "byte \<noteq> CHR 0x5C"
      "ParseStringLoop s1 (result @ [byte]) = Inr (t, r)"
  | (escape) e c s2 where "s = CHR 0x5C # e # s2" "SimpleEscape e = Some c"
      "ParseStringLoop s2 (result @ [c]) = Inr (t, r)"
  | (unicode) s2 v s3 where "s = CHR 0x5C # CHR ''u'' # s2"
      "ParseUnicodeScalar s2 = Inr (v, s3)"
      "ParseStringLoop s3 (result @ AppendCodePoint v) = Inr (t, r)"
proof -
  consider "s = []" | s1 where "s = CHR 0x22 # s1" | "s = [CHR 0x5C]"
    | e s2 where "s = CHR 0x5C # e # s2" | byte s1 where "s = byte # s1" "ord byte < 0x20"
    | byte s1 where "s = byte # s1" "byte \<noteq> CHR 0x22" "\<not> ord byte < 0x20" "byte \<noteq> CHR 0x5C"
    by (metis list.exhaust)
  then show ?thesis
  proof cases
    case (4 e s2)
    with ok have eq: "(case SimpleEscape e of
        Some c \<Rightarrow> ParseStringLoop s2 (result @ [c])
      | None \<Rightarrow>
          if e = CHR ''u'' then
            bindE (ParseUnicodeScalar s2) (\<lambda>(v, s3). ParseStringLoop s3 (result @ AppendCodePoint v))
          else Inl (JsonError ''Unsupported JSON escape.'')) = Inr (t, r)"
      by (simp only: ParseStringLoop_rounds)
    show ?thesis
    proof (cases "SimpleEscape e")
      case None
      with eq have e: "e = CHR ''u''" by (simp split: if_splits)
      with eq None obtain v s3 where "ParseUnicodeScalar s2 = Inr (v, s3)"
        "ParseStringLoop s3 (result @ AppendCodePoint v) = Inr (t, r)"
        by (auto simp: bindE_Inr_iff)
      with 4 e show ?thesis by (intro unicode) simp_all
    next
      case (Some c)
      with eq 4 show ?thesis by (intro escape) simp_all
    qed
  next
    case (6 byte s1)
    with ok show ?thesis by (intro plain) (simp_all add: ParseStringLoop_plain)
  qed (use ok quote in \<open>simp_all add: ParseStringLoop_rounds ParseStringLoop_control\<close>)
qed

lemma ParseStringLoop_length: "ParseStringLoop s result = Inr (t, r) \<Longrightarrow> length r < length s"
proof (induction "length s" arbitrary: s result rule: less_induct)
  case less
  from less.prems show ?case
  proof (cases rule: ParseStringLoop_cases)
    case quote
    then show ?thesis by simp
  next
    case (plain byte s1)
    then show ?thesis using less.hyps [of s1 "result @ [byte]"] by simp
  next
    case (escape e c s2)
    then show ?thesis using less.hyps [of s2 "result @ [c]"] by simp
  next
    case (unicode s2 v s3)
    then have "length s3 < length s2" by (simp add: ParseUnicodeScalar_rest)
    with unicode show ?thesis using less.hyps [of s3 "result @ AppendCodePoint v"] by simp
  qed
qed

lemma ParseString_length: "ParseString s = Inr (t, r) \<Longrightarrow> length r < length s"
  by (auto simp: ParseString_def bindE_Inr_iff dest!: Require_length ParseStringLoop_length)

lemma object_key_length:
  "ParseString (SkipWhitespace s) = Inr (k, s1) \<Longrightarrow> Require c (SkipWhitespace s1) = Inr s2 \<Longrightarrow>
     length s2 < length s"
  using SkipWhitespace_length [of s] ParseString_length [of "SkipWhitespace s" k s1]
    Require_skip_length [of c s1 s2] by linarith

lemma ParseInteger_length: "ParseInteger s = Inr (v, r) \<Longrightarrow> length r < length s"
  by (auto simp: ParseInteger_def Let_def ConsumeIf_def le_imp_less_Suc less_SucI length_dropWhile_le
      split: list.splits if_splits option.splits)

abbreviation consumes :: "(JsonValue \<times> string) result \<Rightarrow> string \<Rightarrow> bool" where
  "consumes res s \<equiv> (\<forall>v r. res = Inr (v, r) \<longrightarrow> length r < length s)"

lemma consumes_mono: "consumes res s \<Longrightarrow> length s \<le> length t \<Longrightarrow> consumes res t"
  by fastforce

lemma parse_consumes_dom:
  shows "ParseValue_ParseArray_ParseArrayLoop_ParseObject_ParseObjectLoop_dom (Inl (Inl s)) \<Longrightarrow>
      consumes (ParseValue s) s"
    and "ParseValue_ParseArray_ParseArrayLoop_ParseObject_ParseObjectLoop_dom (Inl (Inr s)) \<Longrightarrow>
      consumes (ParseArray s) s"
    and "ParseValue_ParseArray_ParseArrayLoop_ParseObject_ParseObjectLoop_dom
      (Inr (Inl (s, arr))) \<Longrightarrow> consumes (ParseArrayLoop s arr) s"
    and "ParseValue_ParseArray_ParseArrayLoop_ParseObject_ParseObjectLoop_dom
      (Inr (Inr (Inl s))) \<Longrightarrow> consumes (ParseObject s) s"
    and "ParseValue_ParseArray_ParseArrayLoop_ParseObject_ParseObjectLoop_dom
      (Inr (Inr (Inr (s, obj)))) \<Longrightarrow> consumes (ParseObjectLoop s obj) s"
proof (induction s and s and s arr and s and s obj
    rule: ParseValue_ParseArray_ParseArrayLoop_ParseObject_ParseObjectLoop.pinduct)
  case (1 s)
  show ?case
  proof (cases s)
    case Nil
    with 1 show ?thesis by (simp add: ParseValue.psimps)
  next
    case (Cons c rest)
    have "consumes (ParseArray rest) s" if "c = CHR ''[''"
      using "1.IH"(1) [OF Cons] that Cons by fastforce
    moreover have "consumes (ParseObject rest) s" if "c = CHR ''{''"
      using "1.IH"(2) [OF Cons] that Cons by fastforce
    ultimately show ?thesis
      unfolding ParseValue.psimps [OF "1.hyps"]
      by (auto simp: Cons bindE_Inr_iff dest: ConsumeLiteral_length ParseString_length
          ParseInteger_length)
  qed
next
  case (2 s)
  show ?case
  proof (cases "ConsumeIf CHR '']'' (SkipWhitespace s)")
    case None
    with "2.IH" show ?thesis
      by (simp add: ParseArray.psimps [OF "2.hyps"] consumes_mono [OF _ SkipWhitespace_length])
  next
    case (Some r)
    then show ?thesis
      by (auto simp: ParseArray.psimps [OF "2.hyps"] dest!: ConsumeIf_length
          intro: less_le_trans [OF _ SkipWhitespace_length])
  qed
next
  case (3 s arr)
  show ?case
  proof (intro allI impI)
    fix v r
    assume "ParseArrayLoop s arr = Inr (v, r)"
    then obtain p where p: "ParseValue (SkipWhitespace s) = Inr p"
      and step: "(case p of (w, s1) \<Rightarrow> (case ConsumeIf CHR '']'' (SkipWhitespace s1) of
         Some r \<Rightarrow> Inr (kArray (arr @ [w]), r)
       | None \<Rightarrow> bindE (Require CHR '','' (SkipWhitespace s1)) (\<lambda>r. ParseArrayLoop r (arr @ [w]))))
       = Inr (v, r)"
      unfolding ParseArrayLoop.psimps [OF "3.hyps"] bindE_Inr_iff by blast
    obtain w s1 where "p = (w, s1)" by (cases p)
    with p step have w: "ParseValue (SkipWhitespace s) = Inr (w, s1)"
      and rest: "(case ConsumeIf CHR '']'' (SkipWhitespace s1) of
         Some r \<Rightarrow> Inr (kArray (arr @ [w]), r)
       | None \<Rightarrow> bindE (Require CHR '','' (SkipWhitespace s1)) (\<lambda>r. ParseArrayLoop r (arr @ [w])))
       = Inr (v, r)"
      by simp_all
    from "3.IH"(1) w have "length s1 < length (SkipWhitespace s)" by blast
    then have "length s1 < length s" using SkipWhitespace_length [of s] by linarith
    moreover have "length r < length (SkipWhitespace s1)"
    proof (cases "ConsumeIf CHR '']'' (SkipWhitespace s1)")
      case None
      with rest obtain r' where r': "Require CHR '','' (SkipWhitespace s1) = Inr r'"
        "ParseArrayLoop r' (arr @ [w]) = Inr (v, r)" by (auto simp: bindE_Inr_iff)
      then have "length r < length r'" using "3.IH"(2) [OF w refl None r'(1)] by blast
      with Require_length [OF r'(1)] show ?thesis by linarith
    qed (use rest in \<open>auto dest: ConsumeIf_length\<close>)
    ultimately show "length r < length s" using SkipWhitespace_length [of s1] by linarith
  qed
next
  case (4 s)
  show ?case
  proof (cases "ConsumeIf CHR ''}'' (SkipWhitespace s)")
    case None
    with "4.IH" show ?thesis
      by (simp add: ParseObject.psimps [OF "4.hyps"] consumes_mono [OF _ SkipWhitespace_length])
  next
    case (Some r)
    then show ?thesis
      by (auto simp: ParseObject.psimps [OF "4.hyps"] dest!: ConsumeIf_length
          intro: less_le_trans [OF _ SkipWhitespace_length])
  qed
next
  case (5 s obj)
  show ?case
  proof (intro allI impI)
    fix v r
    assume ok: "ParseObjectLoop s obj = Inr (v, r)"
    have key0: "\<not> (SkipWhitespace s = [] \<or> hd (SkipWhitespace s) \<noteq> CHR 0x22)"
    proof
      assume "SkipWhitespace s = [] \<or> hd (SkipWhitespace s) \<noteq> CHR 0x22"
      with ok show False by (simp only: ParseObjectLoop.psimps [OF "5.hyps"] Let_def if_True) simp
    qed
    with ok obtain p where p: "ParseString (SkipWhitespace s) = Inr p"
      and stepk: "(case p of (key, s1) \<Rightarrow> bindE (Require CHR '':'' (SkipWhitespace s1)) (\<lambda>s2.
        bindE (ParseValue (SkipWhitespace s2)) (\<lambda>(v, s3).
          if map_find obj key \<noteq> None
          then Inl (JsonError (''Duplicate JSON object key: '' @ key))
          else case ConsumeIf CHR ''}'' (SkipWhitespace s3) of
            Some r \<Rightarrow> Inr (kObject (map_emplace key v obj), r)
          | None \<Rightarrow> bindE (Require CHR '','' (SkipWhitespace s3)) (\<lambda>r.
              ParseObjectLoop r (map_emplace key v obj))))) = Inr (v, r)"
      unfolding ParseObjectLoop.psimps [OF "5.hyps"] Let_def
      by (simp only: if_False bindE_Inr_iff) blast
    obtain key s1 where key: "ParseString (SkipWhitespace s) = Inr (key, s1)" and pk: "p = (key, s1)"
      using p by (cases p) simp
    from stepk obtain s2 q where colon: "Require CHR '':'' (SkipWhitespace s1) = Inr s2"
      and q: "ParseValue (SkipWhitespace s2) = Inr q"
      and stepv: "(case q of (v, s3) \<Rightarrow> (if map_find obj key \<noteq> None
          then Inl (JsonError (''Duplicate JSON object key: '' @ key))
          else case ConsumeIf CHR ''}'' (SkipWhitespace s3) of
            Some r \<Rightarrow> Inr (kObject (map_emplace key v obj), r)
          | None \<Rightarrow> bindE (Require CHR '','' (SkipWhitespace s3)) (\<lambda>r.
              ParseObjectLoop r (map_emplace key v obj)))) = Inr (v, r)"
      unfolding pk prod.case bindE_Inr_iff by blast
    obtain w s3 where "q = (w, s3)" by (cases q)
    with q stepv have w: "ParseValue (SkipWhitespace s2) = Inr (w, s3)"
      and dup: "\<not> map_find obj key \<noteq> None"
      and rest: "(case ConsumeIf CHR ''}'' (SkipWhitespace s3) of
            Some r \<Rightarrow> Inr (kObject (map_emplace key w obj), r)
          | None \<Rightarrow> bindE (Require CHR '','' (SkipWhitespace s3)) (\<lambda>r.
              ParseObjectLoop r (map_emplace key w obj))) = Inr (v, r)"
      by (simp_all split: if_splits)
    have "length s3 < length (SkipWhitespace s2)"
      using "5.IH"(1) [OF refl key0 key refl colon] w by blast
    then have "length s3 < length s"
      using object_key_length [OF key colon] SkipWhitespace_length [of s2] by linarith
    moreover have "length r < length (SkipWhitespace s3)"
    proof (cases "ConsumeIf CHR ''}'' (SkipWhitespace s3)")
      case None
      with rest obtain r' where r': "Require CHR '','' (SkipWhitespace s3) = Inr r'"
        "ParseObjectLoop r' (map_emplace key w obj) = Inr (v, r)" by (auto simp: bindE_Inr_iff)
      then have "length r < length r'"
        using "5.IH"(2) [OF refl key0 key refl colon w refl dup None r'(1)] by blast
      with Require_length [OF r'(1)] show ?thesis by linarith
    qed (use rest in \<open>auto dest: ConsumeIf_length\<close>)
    ultimately show "length r < length s" using SkipWhitespace_length [of s3] by linarith
  qed
qed

text \<open>
  The measure: the length of the remaining input, and between calls at the same position the
  order loop, value, container.
\<close>

definition parse_rank :: "(string + string) + (string \<times> JsonValue list) + string +
    (string \<times> (string, JsonValue) std_map) \<Rightarrow> nat" where
  "parse_rank x = (case x of
       Inl (Inl s) \<Rightarrow> 3 * length s + 1
     | Inl (Inr s) \<Rightarrow> 3 * length s + 3
     | Inr (Inl (s, _)) \<Rightarrow> 3 * length s + 2
     | Inr (Inr (Inl s)) \<Rightarrow> 3 * length s + 3
     | Inr (Inr (Inr (s, _))) \<Rightarrow> 3 * length s + 2)"

lemma array_element_length:
  assumes "ParseValue_ParseArray_ParseArrayLoop_ParseObject_ParseObjectLoop_dom
      (Inl (Inl (SkipWhitespace s)))"
    and "ParseValue (SkipWhitespace s) = Inr (v, s1)" and "Require c (SkipWhitespace s1) = Inr r"
  shows "length r < length s"
proof -
  have "length s1 < length (SkipWhitespace s)"
    using parse_consumes_dom(1) [OF assms(1)] assms(2) by blast
  then show ?thesis
    using Require_skip_length [OF assms(3)] SkipWhitespace_length [of s] by linarith
qed

lemma object_value_rank:
  "ParseString (SkipWhitespace s) = Inr (k, s1) \<Longrightarrow> Require c (SkipWhitespace s1) = Inr s2 \<Longrightarrow>
     3 * length (SkipWhitespace s2) < Suc (3 * length s)"
  using object_key_length [of s k s1 c s2] SkipWhitespace_length [of s2] by linarith

termination ParseValue
  by (relation "measure parse_rank", simp_all add: parse_rank_def le_imp_less_Suc)
    (auto dest: array_element_length object_key_length less_trans object_value_rank)

end
