(* ===== verification/Json_Codec.thy ===== *)
theory Json_Codec
  imports Json_Value
begin

unbundle bit_operations_syntax

text \<open>
  The entry points of \<^verbatim>\<open>json_value.cc\<close>, \<open>ParseJson\<close> and \<open>EncodeCanonicalJson\<close>, and the
  theorems that make the pair a canonical codec: every parsed value is well formed (objects
  strictly sorted, integers in the 64-bit range), parsing undoes encoding on well-formed values,
  and a text is the encoding of what it parses to for exactly one value.
\<close>

declare ParseValue.simps [simp del] ParseArray.simps [simp del] ParseArrayLoop.simps [simp del]
  ParseObject.simps [simp del] ParseObjectLoop.simps [simp del]

section \<open>Entry points\<close>

definition ParseJson :: "string \<Rightarrow> JsonValue result" where
  "ParseJson input =
     bindE (ParseValue (SkipWhitespace input)) (\<lambda>(result, rest).
       if SkipWhitespace rest \<noteq> [] then Inl (JsonError ''Unexpected trailing JSON data.'')
       else Inr result)"

definition EscapeByte :: "char \<Rightarrow> string" where
  "EscapeByte byte =
     (if byte = CHR 0x22 then [CHR 0x5C, CHR 0x22]
      else if byte = CHR 0x5C then [CHR 0x5C, CHR 0x5C]
      else if byte = CHR 0x08 then [CHR 0x5C, CHR ''b'']
      else if byte = CHR 0x0C then [CHR 0x5C, CHR ''f'']
      else if byte = CHR 0x0A then [CHR 0x5C, CHR ''n'']
      else if byte = CHR 0x0D then [CHR 0x5C, CHR ''r'']
      else if byte = CHR 0x09 then [CHR 0x5C, CHR ''t'']
      else if ord byte < 0x20 then [CHR 0x5C, CHR ''u''] @ hex_pad 4 (ord byte)
      else [byte])"

definition EncodeString :: "string \<Rightarrow> string" where
  "EncodeString s = [CHR 0x22] @ concat (map EscapeByte s) @ [CHR 0x22]"

text \<open>The flag of the two loops is the local \<^verbatim>\<open>first\<close> of the code.\<close>

fun Encode :: "JsonValue \<Rightarrow> string"
  and EncodeArrayLoop :: "bool \<Rightarrow> JsonValue list \<Rightarrow> string"
  and EncodeObjectLoop :: "bool \<Rightarrow> (string \<times> JsonValue) list \<Rightarrow> string" where
  "Encode kNull = ''null''"
| "Encode (kBoolean b) = (if b then ''true'' else ''false'')"
| "Encode (kInteger i) = show_int i"
| "Encode (kString s) = EncodeString s"
| "Encode (kArray a) = ''['' @ EncodeArrayLoop True a @ '']''"
| "Encode (kObject m) = ''{'' @ EncodeObjectLoop True m @ ''}''"
| "EncodeArrayLoop first [] = []"
| "EncodeArrayLoop first (entry # a) =
     (if \<not> first then '','' else []) @ Encode entry @ EncodeArrayLoop False a"
| "EncodeObjectLoop first [] = []"
| "EncodeObjectLoop first ((k, v) # m) =
     (if \<not> first then '','' else []) @ EncodeString k @ '':'' @ Encode v @ EncodeObjectLoop False m"

definition EncodeCanonicalJson :: "JsonValue \<Rightarrow> string" where
  "EncodeCanonicalJson v = Encode v"

text \<open>What the type \<^verbatim>\<open>JsonValue\<close> guarantees of every value the code can hold.\<close>

fun wf_json :: "JsonValue \<Rightarrow> bool" where
  "wf_json kNull = True"
| "wf_json (kBoolean b) = True"
| "wf_json (kInteger i) = int64 i"
| "wf_json (kString s) = True"
| "wf_json (kArray a) = (\<forall>x \<in> set a. wf_json x)"
| "wf_json (kObject m) = (sorted_keys m \<and> (\<forall>kv \<in> set m. wf_json (snd kv)))"

section \<open>Strings survive\<close>

lemma hex_value_hex_digit [simp]: "n < 16 \<Longrightarrow> hex_value (hex_digit n) = Some n"
  by (auto simp: hex_value_def ord_hex_digit)

lemma nat_four: "(4 :: nat) = Suc (Suc (Suc (Suc 0)))"
  by simp

lemma ParseHexLoop_four:
  assumes "a < 16" and "b < 16" and "c < 16" and "d < 16"
  shows "ParseHexLoop 4 0 (hex_digit a # hex_digit b # hex_digit c # hex_digit d # rest) =
    Inr (((a * 16 + b) * 16 + c) * 16 + d, rest)"
  using assms by (subst nat_four) (simp add: push_bit_eq_mult)

lemma hex_pad_four:
  "hex_pad 4 n = [hex_digit (n div 16 div 16 div 16 mod 16), hex_digit (n div 16 div 16 mod 16),
     hex_digit (n div 16 mod 16), hex_digit (n mod 16)]"
  by (subst nat_four) (simp only: hex_pad.simps append.simps)

lemma ParseHex4_hex_pad:
  assumes "n < 65536"
  shows "ParseHex4 (hex_pad 4 n @ rest) = Inr (n, rest)"
proof -
  have "n div 16 div 16 div 16 < 16" using assms by simp
  then have "((n div 16 div 16 div 16 mod 16 * 16 + n div 16 div 16 mod 16) * 16 + n div 16 mod 16)
      * 16 + n mod 16 = n"
    by (simp only: mod_less div_mult_mod_eq)
  then show ?thesis
    by (simp only: ParseHex4_def hex_pad_four append.simps ParseHexLoop_four
        mod_less_divisor zero_less_numeral) simp
qed

lemma ParseUnicodeScalar_control:
  "n < 0x20 \<Longrightarrow> ParseUnicodeScalar (hex_pad 4 n @ rest) = Inr (n, rest)"
  by (simp add: ParseUnicodeScalar_def ParseHex4_hex_pad)

lemma ParseStringLoop_EscapeByte:
  "ParseStringLoop (EscapeByte c @ rest) acc = ParseStringLoop rest (acc @ [c])"
proof -
  consider "c \<in> {CHR 0x22, CHR 0x5C, CHR 0x08, CHR 0x0C, CHR 0x0A, CHR 0x0D, CHR 0x09}"
    | "c \<notin> {CHR 0x22, CHR 0x5C, CHR 0x08, CHR 0x0C, CHR 0x0A, CHR 0x0D, CHR 0x09}" "ord c < 0x20"
    | "c \<noteq> CHR 0x22" "c \<noteq> CHR 0x5C" "\<not> ord c < 0x20"
    by blast
  then show ?thesis
  proof cases
    case 1
    then show ?thesis by (auto simp: EscapeByte_def ParseStringLoop_rounds SimpleEscape_def)
  next
    case 2
    then have "EscapeByte c = [CHR 0x5C, CHR ''u''] @ hex_pad 4 (ord c)"
      by (simp add: EscapeByte_def)
    moreover have "SimpleEscape CHR ''u'' = None" by (simp add: SimpleEscape_def)
    moreover have "AppendCodePoint (ord c) = [c]" using 2 by (simp add: AppendCodePoint_def)
    ultimately show ?thesis
      using 2 by (simp add: ParseStringLoop_rounds ParseUnicodeScalar_control)
  next
    case 3
    then have "EscapeByte c = [c]" by (auto simp: EscapeByte_def)
    with 3 show ?thesis by (simp add: ParseStringLoop_plain)
  qed
qed

lemma ParseStringLoop_escaped:
  "ParseStringLoop (concat (map EscapeByte s) @ CHR 0x22 # rest) acc = Inr (acc @ s, rest)"
  by (induction s arbitrary: acc) (simp_all add: ParseStringLoop_rounds ParseStringLoop_EscapeByte)

lemma ParseString_EncodeString: "ParseString (EncodeString s @ rest) = Inr (s, rest)"
  by (simp add: ParseString_def EncodeString_def Require_def ConsumeIf_def ParseStringLoop_escaped)

section \<open>Integers survive\<close>

text \<open>What can follow a value inside a canonical text.\<close>

definition delimited :: "string \<Rightarrow> bool" where
  "delimited rest \<longleftrightarrow> rest = [] \<or> hd rest \<in> {CHR '','', CHR '']'', CHR ''}''}"

lemma delimited_simps [simp]:
  "delimited []" "delimited (CHR '','' # s)" "delimited (CHR '']'' # s)" "delimited (CHR ''}'' # s)"
  by (simp_all add: delimited_def)

lemma delimited_not_number:
  assumes "delimited rest"
  shows "takeWhile isdigit rest = []" and "dropWhile isdigit rest = rest"
    and "rest \<noteq> [] \<Longrightarrow> hd rest \<notin> {CHR ''.'', CHR ''e'', CHR ''E''}"
  using assms by (cases rest; auto simp: delimited_def isdigit_def)+

lemma takeWhile_show_nat:
  assumes "delimited rest"
  shows "takeWhile isdigit (show_nat n @ rest) = show_nat n"
    and "dropWhile isdigit (show_nat n @ rest) = rest"
proof -
  have "\<And>c. c \<in> set (show_nat n) \<Longrightarrow> isdigit c"
    using show_nat_digits [of n] by (simp add: list_all_iff)
  then show "takeWhile isdigit (show_nat n @ rest) = show_nat n"
    "dropWhile isdigit (show_nat n @ rest) = rest"
    by (simp_all add: takeWhile_append dropWhile_append delimited_not_number [OF assms])
qed

text \<open>The digits after an optional sign.\<close>

lemma show_nat_cases:
  obtains (zero) "n = 0" "show_nat n = ''0''"
  | (pos) c cs where "show_nat n = c # cs" "c \<noteq> CHR ''0''" "isdigit c"
proof (cases "n = 0")
  case False
  then have "hd (show_nat n) \<noteq> CHR ''0''" by (simp add: hd_show_nat)
  with show_nat_digits [of n] pos show ?thesis by (cases "show_nat n") simp_all
qed (use zero in simp)

lemma ParseInteger_show_int:
  assumes "int64 i" and "delimited rest"
  shows "ParseInteger (show_int i @ rest) = Inr (kInteger i, rest)"
proof (cases "i < 0")
  case True
  have "show_nat (nat (- i)) \<noteq> ''0''" using True hd_show_nat [of "nat (- i)"] by auto
  then obtain c cs where c: "show_nat (nat (- i)) = c # cs" "c \<noteq> CHR ''0''" "isdigit c"
    by (cases rule: show_nat_cases [of "nat (- i)"]) auto
  have "takeWhile isdigit (c # cs @ rest) = c # cs" "dropWhile isdigit (c # cs @ rest) = rest"
    using takeWhile_show_nat [OF assms(2), of "nat (- i)"] by (simp_all add: c)
  moreover have "decimal_value (c # cs) = nat (- i)"
    using decimal_value_show_nat [of "nat (- i)"] by (simp add: c)
  ultimately show ?thesis
    using True assms delimited_not_number(3) [OF assms(2)] c
    by (auto simp: ParseInteger_def show_int_def ConsumeIf_def Let_def)
next
  case False
  then have i: "show_int i = show_nat (nat i)" "int (nat i) = i" by (simp_all add: show_int_def)
  show ?thesis
  proof (cases rule: show_nat_cases [of "nat i"])
    case zero
    then show ?thesis
      using False assms delimited_not_number(3) [OF assms(2)]
      by (auto simp: ParseInteger_def show_int_def ConsumeIf_def Let_def decimal_value_def)
  next
    case (pos c cs)
    have "takeWhile isdigit (c # cs @ rest) = c # cs" "dropWhile isdigit (c # cs @ rest) = rest"
      using takeWhile_show_nat [OF assms(2), of "nat i"] by (simp_all add: pos)
    moreover have "decimal_value (c # cs) = nat i"
      using decimal_value_show_nat [of "nat i"] by (simp add: pos)
    moreover have "c \<noteq> CHR ''-''" using pos by (auto simp: isdigit_def)
    ultimately show ?thesis
      using False assms delimited_not_number(3) [OF assms(2)] pos
      by (auto simp: ParseInteger_def i ConsumeIf_def Let_def)
  qed
qed

section \<open>Values survive\<close>

lemma SkipWhitespace_Cons [simp]:
  "\<not> isspace c \<Longrightarrow> SkipWhitespace (c # s) = c # s"
  by (simp add: SkipWhitespace_def)

lemma not_isspace_literals [simp]:
  "\<not> isspace CHR 0x22" "\<not> isspace CHR '',''" "\<not> isspace CHR '':''" "\<not> isspace CHR ''[''"
  "\<not> isspace CHR '']''" "\<not> isspace CHR ''{''" "\<not> isspace CHR ''}''" "\<not> isspace CHR ''-''"
  "\<not> isspace CHR ''n''" "\<not> isspace CHR ''t''" "\<not> isspace CHR ''f''"
  by (simp_all add: isspace_def)

lemma ConsumeIf_Cons [simp]: "ConsumeIf c (x # s) = (if x = c then Some s else None)"
  by (simp add: ConsumeIf_def)

lemma Require_Cons [simp]: "Require c (c # s) = Inr s"
  by (simp add: Require_def)

text \<open>A canonical text starts with a byte that is neither white space nor a closing bracket.\<close>

lemma show_int_Cons: "\<exists>c cs. show_int i = c # cs \<and> (c = CHR ''-'' \<or> isdigit c)"
proof (cases "i < 0")
  case False
  then show ?thesis
    by (cases rule: show_nat_cases [of "nat i"]) (simp_all add: show_int_def isdigit_def)
qed (simp add: show_int_def)

lemma Encode_Cons:
  obtains c cs where "Encode v = c # cs" "\<not> isspace c" "c \<noteq> CHR '']''" "c \<noteq> CHR ''}''"
proof (cases v)
  case (kInteger i)
  obtain c cs where "show_int i = c # cs" "c = CHR ''-'' \<or> isdigit c"
    using show_int_Cons by blast
  moreover from this(2) have "\<not> isspace c" "c \<noteq> CHR '']''" "c \<noteq> CHR ''}''"
    by (auto simp: isdigit_def)
  ultimately show ?thesis using kInteger that by simp
next
  case (kBoolean b)
  then show ?thesis using that by (cases b) auto
qed (use that in \<open>auto simp: EncodeString_def\<close>)

lemma ParseValue_show_int:
  assumes "int64 i" and "delimited rest"
  shows "ParseValue (show_int i @ rest) = Inr (kInteger i, rest)"
proof -
  obtain c cs where c: "show_int i = c # cs" "c = CHR ''-'' \<or> isdigit c"
    using show_int_Cons by blast
  then have "ParseValue (show_int i @ rest) = ParseInteger (show_int i @ rest)"
    by (auto simp: ParseValue.simps isdigit_def)
  then show ?thesis by (simp add: ParseInteger_show_int [OF assms])
qed

lemma EncodeArrayLoop_False:
  "EncodeArrayLoop False (x # xs) = CHR '','' # EncodeArrayLoop True (x # xs)"
  by simp

lemma EncodeObjectLoop_False:
  "EncodeObjectLoop False (kv # m) = CHR '','' # EncodeObjectLoop True (kv # m)"
  by (cases kv) simp

lemma map_emplace_snoc:
  "\<forall>k' \<in> fst ` set m. k' < k \<Longrightarrow> map_emplace k v m = m @ [(k, v)]"
  by (induction k v m rule: map_emplace.induct) auto

lemma map_find_above:
  "\<forall>k' \<in> fst ` set m. k' < (k :: 'k::linorder) \<Longrightarrow> map_find m k = None"
  unfolding map_find_def map_of_eq_None_iff by (meson less_irrefl)

lemma sorted_keys_append:
  "sorted_keys (m @ (k, v) # m') \<Longrightarrow> \<forall>k' \<in> fst ` set m. k' < k"
  by (auto simp: sorted_keys_def sorted_wrt_append)

text \<open>One round of the array and of the object loop on canonical text.\<close>

lemma ParseArrayLoop_step:
  assumes v: "\<And>rest. delimited rest \<Longrightarrow> ParseValue (Encode v @ rest) = Inr (v, rest)"
  shows "ParseArrayLoop (Encode v @ CHR '']'' # rest) acc = Inr (kArray (acc @ [v]), rest)"
    and "ParseArrayLoop (Encode v @ CHR '','' # rest) acc = ParseArrayLoop rest (acc @ [v])"
proof -
  obtain c cs where c: "Encode v = c # cs" "\<not> isspace c" by (rule Encode_Cons)
  then have skip: "SkipWhitespace (Encode v @ r) = Encode v @ r" for r by simp
  show "ParseArrayLoop (Encode v @ CHR '']'' # rest) acc = Inr (kArray (acc @ [v]), rest)"
    "ParseArrayLoop (Encode v @ CHR '','' # rest) acc = ParseArrayLoop rest (acc @ [v])"
    by (simp_all add: ParseArrayLoop.simps [of "Encode v @ r" acc for r] skip v)
qed

lemma ParseObjectLoop_member:
  assumes v: "\<And>rest. delimited rest \<Longrightarrow> ParseValue (Encode v @ rest) = Inr (v, rest)"
  shows "map_find acc k = None \<Longrightarrow>
      ParseObjectLoop (EncodeString k @ CHR '':'' # Encode v @ CHR ''}'' # rest) acc =
      Inr (kObject (map_emplace k v acc), rest)"
    and "map_find acc k = None \<Longrightarrow>
      ParseObjectLoop (EncodeString k @ CHR '':'' # Encode v @ CHR '','' # rest) acc =
      ParseObjectLoop rest (map_emplace k v acc)"
    and "map_find acc k \<noteq> None \<Longrightarrow> delimited rest \<Longrightarrow>
      ParseObjectLoop (EncodeString k @ CHR '':'' # Encode v @ rest) acc =
      Inl (JsonError (''Duplicate JSON object key: '' @ k))"
proof -
  obtain c cs where c: "Encode v = c # cs" "\<not> isspace c" by (rule Encode_Cons)
  then have skip: "SkipWhitespace (Encode v @ r) = Encode v @ r" for r by simp
  have skipk: "SkipWhitespace (EncodeString k @ r) = EncodeString k @ r"
    "EncodeString k @ r \<noteq> []" "hd (EncodeString k @ r) = CHR 0x22" for r
    by (simp_all add: EncodeString_def)
  note step = ParseObjectLoop.simps [of "EncodeString k @ r" acc for r] skip skipk v
    ParseString_EncodeString
  show "ParseObjectLoop (EncodeString k @ CHR '':'' # Encode v @ CHR ''}'' # rest) acc =
      Inr (kObject (map_emplace k v acc), rest)"
    "ParseObjectLoop (EncodeString k @ CHR '':'' # Encode v @ CHR '','' # rest) acc =
      ParseObjectLoop rest (map_emplace k v acc)" if "map_find acc k = None"
    by (simp_all add: step Let_def that)
  show "ParseObjectLoop (EncodeString k @ CHR '':'' # Encode v @ rest) acc =
      Inl (JsonError (''Duplicate JSON object key: '' @ k))"
    if "map_find acc k \<noteq> None" "delimited rest"
    using that by (simp add: step Let_def)
qed

lemma ParseObjectLoop_step:
  assumes v: "\<And>rest. delimited rest \<Longrightarrow> ParseValue (Encode v @ rest) = Inr (v, rest)"
    and above: "\<forall>k' \<in> fst ` set acc. k' < k"
  shows "ParseObjectLoop (EncodeString k @ CHR '':'' # Encode v @ CHR ''}'' # rest) acc =
      Inr (kObject (acc @ [(k, v)]), rest)"
    and "ParseObjectLoop (EncodeString k @ CHR '':'' # Encode v @ CHR '','' # rest) acc =
      ParseObjectLoop rest (acc @ [(k, v)])"
  by (simp_all add: ParseObjectLoop_member [OF v] map_find_above [OF above]
      map_emplace_snoc [OF above])

lemma ParseValue_Encode_loops:
  shows "wf_json v \<Longrightarrow> delimited rest \<Longrightarrow> ParseValue (Encode v @ rest) = Inr (v, rest)"
    and "xs \<noteq> [] \<Longrightarrow> \<forall>x \<in> set xs. wf_json x \<Longrightarrow>
      ParseArrayLoop (EncodeArrayLoop True xs @ CHR '']'' # rest) acc = Inr (kArray (acc @ xs), rest)"
    and "m \<noteq> [] \<Longrightarrow> \<forall>kv \<in> set m. wf_json (snd kv) \<Longrightarrow> sorted_keys (obj @ m) \<Longrightarrow>
      ParseObjectLoop (EncodeObjectLoop True m @ CHR ''}'' # rest) obj = Inr (kObject (obj @ m), rest)"
proof (induction v and "b1 :: bool" xs and "b2 :: bool" m arbitrary: rest and rest acc and rest obj
    rule: Encode_EncodeArrayLoop_EncodeObjectLoop.induct)
  case 1
  show ?case by (simp add: ParseValue.simps ConsumeLiteral_def)
next
  case (2 b)
  show ?case by (simp add: ParseValue.simps ConsumeLiteral_def)
next
  case (3 i)
  then show ?case by (simp add: ParseValue_show_int)
next
  case (4 s)
  have "ParseValue (EncodeString s @ rest) =
      bindE (ParseString (EncodeString s @ rest)) (\<lambda>(t, r). Inr (kString t, r))"
    by (simp add: ParseValue.simps EncodeString_def)
  then show ?case by (simp add: ParseString_EncodeString)
next
  case (5 a)
  show ?case
  proof (cases a)
    case Nil
    then show ?thesis by (simp add: ParseValue.simps ParseArray.simps)
  next
    case (Cons x xs)
    obtain c cs where "Encode x = c # cs" "\<not> isspace c" "c \<noteq> CHR '']''" by (rule Encode_Cons)
    with 5 Cons show ?thesis by (simp add: ParseValue.simps ParseArray.simps)
  qed
next
  case (6 m)
  show ?case
  proof (cases m)
    case Nil
    then show ?thesis by (simp add: ParseValue.simps ParseObject.simps)
  next
    case (Cons kv m')
    obtain k v where "kv = (k, v)" by (cases kv)
    with 6 Cons show ?thesis by (simp add: ParseValue.simps ParseObject.simps EncodeString_def)
  qed
next
  case (8 first x xs)
  then have v: "\<And>rest. delimited rest \<Longrightarrow> ParseValue (Encode x @ rest) = Inr (x, rest)" by simp
  show ?case
  proof (cases xs)
    case Nil
    then show ?thesis by (simp add: ParseArrayLoop_step [OF v])
  next
    case (Cons y ys)
    have "EncodeArrayLoop True (x # xs) @ CHR '']'' # rest =
        Encode x @ CHR '','' # EncodeArrayLoop True xs @ CHR '']'' # rest"
      by (simp add: Cons)
    then show ?thesis using 8 Cons by (simp only: ParseArrayLoop_step [OF v]) simp
  qed
next
  case (10 first k v m)
  then have v: "\<And>rest. delimited rest \<Longrightarrow> ParseValue (Encode v @ rest) = Inr (v, rest)" by simp
  have above: "\<forall>k' \<in> fst ` set obj. k' < k" using "10.prems"(3) by (rule sorted_keys_append)
  show ?case
  proof (cases m)
    case Nil
    then show ?thesis by (simp add: ParseObjectLoop_step [OF v above])
  next
    case (Cons kv m')
    obtain k' v' where kv: "kv = (k', v')" by (cases kv)
    have "EncodeObjectLoop True ((k, v) # m) @ CHR ''}'' # rest =
        EncodeString k @ CHR '':'' # Encode v @ CHR '','' # EncodeObjectLoop True m @ CHR ''}'' # rest"
      by (simp add: Cons kv)
    then show ?thesis
      using 10 Cons by (simp only: ParseObjectLoop_step [OF v above]) simp
  qed
qed simp_all

lemmas ParseValue_Encode = ParseValue_Encode_loops(1)

lemma ParseJson_Encode:
  assumes "wf_json v"
  shows "ParseJson (EncodeCanonicalJson v) = Inr v"
proof -
  obtain c cs where "Encode v = c # cs" "\<not> isspace c" by (rule Encode_Cons)
  then have "SkipWhitespace (Encode v) = Encode v" by simp
  then show ?thesis
    using ParseValue_Encode [OF assms, of "[]"]
    by (simp add: ParseJson_def EncodeCanonicalJson_def SkipWhitespace_def)
qed

section \<open>Member order and duplicates\<close>

text \<open>
  The first key of a member list that repeats an earlier one. The object loop accepts members in
  any order, exactly when there is none.
\<close>

fun first_duplicate :: "string list \<Rightarrow> (string \<times> JsonValue) list \<Rightarrow> string option" where
  "first_duplicate seen [] = None"
| "first_duplicate seen ((k, v) # m) =
     (if k \<in> set seen then Some k else first_duplicate (k # seen) m)"

lemma first_duplicate_cong:
  "set seen = set seen' \<Longrightarrow> first_duplicate seen m = first_duplicate seen' m"
proof (induction seen m arbitrary: seen' rule: first_duplicate.induct)
  case (2 seen k v m)
  show ?case using 2 by (simp add: "2.IH" [of "k # seen'"])
qed simp

lemma first_duplicate_None_iff:
  "first_duplicate seen m = None \<longleftrightarrow> distinct (map fst m) \<and> set seen \<inter> fst ` set m = {}"
  by (induction seen m rule: first_duplicate.induct) auto

lemma map_find_None_iff: "map_find m k = None \<longleftrightarrow> k \<notin> fst ` set m"
  by (simp add: map_find_def map_of_eq_None_iff)

lemma ParseObjectLoop_members:
  assumes "m \<noteq> []" and "\<forall>kv \<in> set m. wf_json (snd kv)"
  shows "ParseObjectLoop (EncodeObjectLoop True m @ CHR ''}'' # rest) obj =
    (case first_duplicate (map fst obj) m of
       None \<Rightarrow> Inr (kObject (fold (\<lambda>(k, v). map_emplace k v) m obj), rest)
     | Some k \<Rightarrow> Inl (JsonError (''Duplicate JSON object key: '' @ k)))"
  using assms
proof (induction m arbitrary: obj)
  case (Cons kv m)
  obtain k v where kv: "kv = (k, v)" by (cases kv)
  have v: "\<And>rest. delimited rest \<Longrightarrow> ParseValue (Encode v @ rest) = Inr (v, rest)"
    using Cons.prems by (intro ParseValue_Encode) (simp_all add: kv)
  have shape: "EncodeObjectLoop True (kv # m) @ CHR ''}'' # rest =
      EncodeString k @ CHR '':'' # Encode v @
        (if m = [] then CHR ''}'' # rest else CHR '','' # EncodeObjectLoop True m @ CHR ''}'' # rest)"
    by (cases m) (auto simp: kv)
  have seen: "first_duplicate (k # map fst obj) m = first_duplicate (map fst (map_emplace k v obj)) m"
    by (intro first_duplicate_cong) (simp add: fst_map_emplace)
  show ?case
  proof (cases "map_find obj k = None")
    case False
    then show ?thesis
      by (simp only: shape) (simp add: ParseObjectLoop_member(3) [OF v] kv map_find_None_iff)
  next
    case True
    then have "k \<notin> fst ` set obj" by (simp add: map_find_None_iff)
    then show ?thesis
      using True Cons.IH [of "map_emplace k v obj"] Cons.prems
      by (simp only: shape) (simp add: ParseObjectLoop_member [OF v] kv seen split: option.splits)
  qed
qed simp

section \<open>Parsed values are well formed\<close>

text \<open>How a round of the two container loops can succeed.\<close>

lemma ParseArrayLoop_cases:
  assumes "ParseArrayLoop s acc = Inr (v, r)"
  obtains w s1 where "ParseValue (SkipWhitespace s) = Inr (w, s1)"
    and "v = kArray (acc @ [w]) \<or>
      (\<exists>r'. ConsumeIf CHR '']'' (SkipWhitespace s1) = None \<and>
        Require CHR '','' (SkipWhitespace s1) = Inr r' \<and> ParseArrayLoop r' (acc @ [w]) = Inr (v, r))"
  using assms
  by (auto simp: ParseArrayLoop.simps [of s] bindE_Inr_iff split: option.splits prod.splits)
    (metis not_None_eq)

lemma ParseObjectLoop_cases:
  assumes "ParseObjectLoop s obj = Inr (v, r)"
  obtains key s1 s2 w s3 where "ParseString (SkipWhitespace s) = Inr (key, s1)"
    and "\<not> (SkipWhitespace s = [] \<or> hd (SkipWhitespace s) \<noteq> CHR 0x22)"
    and "Require CHR '':'' (SkipWhitespace s1) = Inr s2"
    and "ParseValue (SkipWhitespace s2) = Inr (w, s3)"
    and "map_find obj key = None"
    and "v = kObject (map_emplace key w obj) \<or>
      (\<exists>r'. ConsumeIf CHR ''}'' (SkipWhitespace s3) = None \<and>
        Require CHR '','' (SkipWhitespace s3) = Inr r' \<and>
        ParseObjectLoop r' (map_emplace key w obj) = Inr (v, r))"
  using assms
  by (auto simp: ParseObjectLoop.simps [of s] bindE_Inr_iff Let_def
      split: option.splits prod.splits if_splits)
    (metis not_None_eq)

lemma set_map_emplace: "set (map_emplace k v m) \<subseteq> insert (k, v) (set m)"
  by (induction k v m rule: map_emplace.induct) auto

definition wf_map :: "(string, JsonValue) std_map \<Rightarrow> bool" where
  "wf_map m \<longleftrightarrow> sorted_keys m \<and> (\<forall>kv \<in> set m. wf_json (snd kv))"

lemma wf_map_emplace: "wf_map m \<Longrightarrow> wf_json v \<Longrightarrow> wf_map (map_emplace k v m)"
  using set_map_emplace [of k v m] by (auto simp: wf_map_def sorted_map_emplace)

lemma ParseInteger_wf: "ParseInteger s = Inr (v, r) \<Longrightarrow> wf_json v"
  by (auto simp: ParseInteger_def Let_def split: list.splits if_splits)

lemma parse_wf:
  shows "ParseValue s = Inr (v, r) \<Longrightarrow> wf_json v"
    and "ParseArray s = Inr (v, r) \<Longrightarrow> wf_json v"
    and "ParseArrayLoop s arr = Inr (v, r) \<Longrightarrow> \<forall>x \<in> set arr. wf_json x \<Longrightarrow> wf_json v"
    and "ParseObject s = Inr (v, r) \<Longrightarrow> wf_json v"
    and "ParseObjectLoop s obj = Inr (v, r) \<Longrightarrow> wf_map obj \<Longrightarrow> wf_json v"
proof (induction s and s and s arr and s and s obj arbitrary: v r and v r and v r and v r and v r
    rule: ParseValue_ParseArray_ParseArrayLoop_ParseObject_ParseObjectLoop.induct)
  case (1 s)
  then show ?case
    by (auto simp: ParseValue.simps [of s] bindE_Inr_iff dest: ParseInteger_wf
        split: list.splits if_splits)
next
  case (2 s)
  then show ?case by (auto simp: ParseArray.simps [of s] split: option.splits)
next
  case (3 s arr)
  from "3.prems"(1) obtain w s1 where w: "ParseValue (SkipWhitespace s) = Inr (w, s1)"
    and rest: "v = kArray (arr @ [w]) \<or>
      (\<exists>r'. ConsumeIf CHR '']'' (SkipWhitespace s1) = None \<and>
        Require CHR '','' (SkipWhitespace s1) = Inr r' \<and> ParseArrayLoop r' (arr @ [w]) = Inr (v, r))"
    by (rule ParseArrayLoop_cases)
  have "wf_json w" by (rule "3.IH"(1) [OF w])
  then have arr: "\<forall>x \<in> set (arr @ [w]). wf_json x" using "3.prems"(2) by auto
  from rest show ?case
  proof (elim disjE exE conjE)
    fix r'
    assume "ConsumeIf CHR '']'' (SkipWhitespace s1) = None"
      "Require CHR '','' (SkipWhitespace s1) = Inr r'" "ParseArrayLoop r' (arr @ [w]) = Inr (v, r)"
    then show ?thesis using "3.IH"(2) [OF w refl] arr by blast
  qed (use arr in simp)
next
  case (4 s)
  then show ?case by (auto simp: ParseObject.simps [of s] wf_map_def split: option.splits)
next
  case (5 s obj)
  from "5.prems"(1) obtain key s1 s2 w s3 where key: "ParseString (SkipWhitespace s) = Inr (key, s1)"
    and q: "\<not> (SkipWhitespace s = [] \<or> hd (SkipWhitespace s) \<noteq> CHR 0x22)"
    and colon: "Require CHR '':'' (SkipWhitespace s1) = Inr s2"
    and w: "ParseValue (SkipWhitespace s2) = Inr (w, s3)"
    and dup: "map_find obj key = None"
    and rest: "v = kObject (map_emplace key w obj) \<or>
      (\<exists>r'. ConsumeIf CHR ''}'' (SkipWhitespace s3) = None \<and>
        Require CHR '','' (SkipWhitespace s3) = Inr r' \<and>
        ParseObjectLoop r' (map_emplace key w obj) = Inr (v, r))"
    by (rule ParseObjectLoop_cases)
  have "wf_json w" by (rule "5.IH"(1) [OF refl q key refl colon w])
  then have obj: "wf_map (map_emplace key w obj)" using "5.prems"(2) by (intro wf_map_emplace)
  from dup have dup': "\<not> map_find obj key \<noteq> None" by simp
  from rest show ?case
  proof (elim disjE exE conjE)
    fix r'
    assume "ConsumeIf CHR ''}'' (SkipWhitespace s3) = None"
      "Require CHR '','' (SkipWhitespace s3) = Inr r'"
      "ParseObjectLoop r' (map_emplace key w obj) = Inr (v, r)"
    then show ?thesis using "5.IH"(2) [OF refl q key refl colon w refl dup'] obj by blast
  qed (use obj in \<open>simp add: wf_map_def\<close>)
qed

lemma ParseJson_wf: "ParseJson s = Inr v \<Longrightarrow> wf_json v"
  by (auto simp: ParseJson_def bindE_Inr_iff dest: parse_wf(1) split: if_splits)

section \<open>A canonical codec\<close>

text \<open>
  The contract the wire and request decoders rely on: a well-formed value is recovered from its
  text, and nothing else comes out of the parser. Consequences that hold of every such pair are
  proved once.
\<close>

locale text_codec =
  fixes parse :: "string \<Rightarrow> 'v result"
    and encode :: "'v \<Rightarrow> string"
    and wf :: "'v \<Rightarrow> bool"
  assumes parse_encode: "wf v \<Longrightarrow> parse (encode v) = Inr v"
    and parse_wf: "parse s = Inr v \<Longrightarrow> wf v"
begin

lemma encode_inject: "wf v \<Longrightarrow> wf w \<Longrightarrow> encode v = encode w \<longleftrightarrow> v = w"
  by (metis parse_encode sum.inject(2))

lemma encode_parse_idem: "parse s = Inr v \<Longrightarrow> parse (encode v) = Inr v"
  by (intro parse_encode parse_wf)

text \<open>A strict decoder accepts a text only if re-encoding gives the text back.\<close>

definition canonical :: "string \<Rightarrow> bool" where
  "canonical s \<longleftrightarrow> (\<exists>v. parse s = Inr v \<and> encode v = s)"

lemma canonical_iff: "canonical s \<longleftrightarrow> (\<exists>v. wf v \<and> encode v = s)"
  by (metis canonical_def parse_encode parse_wf)

lemma canonical_unique:
  "canonical s \<Longrightarrow> canonical t \<Longrightarrow> parse s = parse t \<Longrightarrow> s = t"
  by (auto simp: canonical_def)

end

interpretation json: text_codec ParseJson EncodeCanonicalJson wf_json
  by unfold_locales (simp_all add: ParseJson_Encode ParseJson_wf)

section \<open>Values built from fields\<close>

lemma json_at_wf:
  assumes "json_at v key = Inr w" and "wf_json v"
  shows "wf_json w"
  using assms
  by (cases v) (auto simp: json_at_def jobject_def bindE_Inr_iff dest!: map_find_in_set split: option.splits)

lemma json_find_wf:
  assumes "json_find v key = Inr (Some w)" and "wf_json v"
  shows "wf_json w"
  using assms
  by (cases v) (auto simp: json_find_def jobject_def bindE_Inr_iff dest!: map_find_in_set)

lemma jinteger_wf: "jinteger v = Inr i \<Longrightarrow> wf_json v \<Longrightarrow> int64 i"
  by (cases v) (simp_all add: jinteger_def)

lemma integer_field_wf:
  "bindE (json_at v key) jinteger = Inr i \<Longrightarrow> wf_json v \<Longrightarrow> int64 i"
  by (auto simp: bindE_Inr_iff dest: json_at_wf jinteger_wf)

lemma set_emplaced: "set (emplaced kvs) \<subseteq> set kvs"
proof -
  have "set (fold (\<lambda>(k, v). map_emplace k v) kvs m) \<subseteq> set kvs \<union> set m" for m
  proof (induction kvs arbitrary: m)
    case (Cons kv kvs)
    show ?case using Cons [of "map_emplace (fst kv) (snd kv) m"] set_map_emplace [of "fst kv" "snd kv" m]
      by (auto simp: case_prod_beta)
  qed simp
  from this [of "[]"] show ?thesis by (simp add: emplaced_def)
qed

lemma wf_emplaced: "(\<And>k v. (k, v) \<in> set kvs \<Longrightarrow> wf_json v) \<Longrightarrow> wf_json (kObject (emplaced kvs))"
  using set_emplaced [of kvs] by force

text \<open>A bound on the length of a canonical object.\<close>

lemma length_EncodeString: "length (EncodeString s) \<le> 6 * length s + 2"
proof -
  have "length (EscapeByte c) \<le> 6" for c
    by (auto simp: EscapeByte_def hex_pad_four)
  then have "length (concat (map EscapeByte s)) \<le> 6 * length s"
    by (induction s) (auto simp: add_mono)
  then show ?thesis by (simp add: EncodeString_def)
qed

lemma length_EncodeObjectLoop:
  "length (EncodeObjectLoop b m) \<le> (\<Sum>(k, v) \<leftarrow> m. 6 * length k + 4 + length (Encode v))"
proof (induction m arbitrary: b)
  case (Cons kv m)
  obtain k v where "kv = (k, v)" by (cases kv)
  with Cons [of False] length_EncodeString [of k] show ?case by (cases b) (simp_all add: add_mono)
qed simp

lemma sum_map_emplace: "(\<Sum>x \<leftarrow> map_emplace k v m. f x) \<le> f (k, v) + (\<Sum>x \<leftarrow> m. (f x :: nat))"
  by (induction k v m rule: map_emplace.induct) auto

lemma sum_emplaced: "(\<Sum>x \<leftarrow> emplaced kvs. f x) \<le> (\<Sum>x \<leftarrow> kvs. (f x :: nat))"
proof -
  have "(\<Sum>x \<leftarrow> fold (\<lambda>(k, v). map_emplace k v) kvs m. f x) \<le> (\<Sum>x \<leftarrow> kvs. f x) + (\<Sum>x \<leftarrow> m. f x)" for m
  proof (induction kvs arbitrary: m)
    case (Cons kv kvs)
    obtain k v where kv: "kv = (k, v)" by (cases kv)
    show ?case using Cons [of "map_emplace k v m"] sum_map_emplace [of f k v m] by (simp add: kv)
  qed simp
  from this [of "[]"] show ?thesis by (simp add: emplaced_def)
qed

lemma length_object:
  assumes "list_all (\<lambda>(k, v). length (Encode v) \<le> f v) kvs"
  shows "length (Encode (kObject (emplaced kvs))) \<le> 2 + (\<Sum>(k, v) \<leftarrow> kvs. 6 * length k + 4 + f v)"
proof -
  have "(\<Sum>(k, v) \<leftarrow> kvs. 6 * length k + 4 + length (Encode v)) \<le> (\<Sum>(k, v) \<leftarrow> kvs. 6 * length k + 4 + f v)"
    using assms by (intro sum_list_mono) (auto simp: list_all_iff)
  moreover have "length (EncodeObjectLoop True (emplaced kvs)) \<le> (\<Sum>(k, v) \<leftarrow> kvs. 6 * length k + 4 + length (Encode v))"
    by (rule order_trans [OF length_EncodeObjectLoop sum_emplaced])
  ultimately show ?thesis by simp
qed

section \<open>Properties\<close>

text \<open>
  Round trip of the codec: for every value the code can hold, parsing its canonical text gives
  the value back, with every string byte, every 64-bit integer and every key order restored.
\<close>

theorem json_roundtrip:
  assumes "wf_json v"
  shows "ParseJson (EncodeCanonicalJson v) = Inr v"
  using assms by (rule json.parse_encode)

theorem json_roundtrip_witness:
  "ParseJson (EncodeCanonicalJson (kObject [(''a'', kInteger (-5)), (''b'', kArray [kNull, kString [CHR 0x0A]])])) =
     Inr (kObject [(''a'', kInteger (-5)), (''b'', kArray [kNull, kString [CHR 0x0A]])])"
proof (rule json_roundtrip)
  have "''a'' < ''b''" by (simp add: less_char_def)
  then show "wf_json (kObject [(''a'', kInteger (-5)), (''b'', kArray [kNull, kString [CHR 0x0A]])])"
    by (simp add: sorted_keys_def int64_defs)
qed

text \<open>
  Whatever text the parser accepts, the value is well formed: object keys are distinct and in
  strictly increasing byte order at every level, every integer is in the 64-bit range, and the
  canonical text of the value is accepted again with the same value.
\<close>

theorem json_parse_sound:
  assumes "ParseJson s = Inr v"
  shows "wf_json v \<and> ParseJson (EncodeCanonicalJson v) = Inr v"
  using json.parse_wf [OF assms] json.encode_parse_idem [OF assms] by blast

theorem json_parse_sound_witness:
  "ParseJson '' [ true , -7 ] '' = Inr (kArray [kBoolean True, kInteger (-7)]) \<and>
   ParseJson (EncodeCanonicalJson (kArray [kBoolean True, kInteger (-7)])) =
     Inr (kArray [kBoolean True, kInteger (-7)])"
proof -
  have "ParseJson '' [ true , -7 ] '' = Inr (kArray [kBoolean True, kInteger (-7)])"
    by code_simp
  with json_parse_sound [OF this] show ?thesis by blast
qed

text \<open>
  Objects are read independently of member order and duplicates are refused: a text that lists
  the members of an object in some order is accepted exactly when no key repeats, the result is the
  map with these members in key order, and otherwise the error names the first key that repeats.
\<close>

theorem json_object_members:
  assumes "\<forall>kv \<in> set m. wf_json (snd kv)"
  shows "ParseJson (EncodeCanonicalJson (kObject m)) =
    (case first_duplicate [] m of
       None \<Rightarrow> Inr (kObject (emplaced m))
     | Some k \<Rightarrow> Inl (JsonError (''Duplicate JSON object key: '' @ k)))"
proof (cases m)
  case Nil
  then show ?thesis
    by (simp add: ParseJson_def EncodeCanonicalJson_def ParseValue.simps ParseObject.simps emplaced_def
        SkipWhitespace_def)
next
  case (Cons kv m')
  obtain k v where "kv = (k, v)" by (cases kv)
  then have "SkipWhitespace (EncodeObjectLoop True m @ r) = EncodeObjectLoop True m @ r"
    "ConsumeIf CHR ''}'' (EncodeObjectLoop True m @ r) = None" for r
    by (simp_all add: Cons EncodeString_def)
  then show ?thesis
    using ParseObjectLoop_members [OF _ assms, of "[]" "[]"] Cons
    by (simp add: ParseJson_def EncodeCanonicalJson_def ParseValue.simps ParseObject.simps emplaced_def
        SkipWhitespace_def [of "[]"] split: option.splits)
qed

theorem json_object_members_witness:
  "ParseJson (EncodeCanonicalJson (kObject [(''b'', kNull), (''a'', kNull), (''b'', kInteger 1)])) =
     Inl (JsonError ''Duplicate JSON object key: b'')"
  using json_object_members [of "[(''b'', kNull), (''a'', kNull), (''b'', kInteger 1)]"]
  by (simp add: int64_defs)

text \<open>
  Canonical text is a faithful key: two well-formed values have the same canonical text exactly
  when they are equal, so a signature or a digest over the text covers the value.
\<close>

theorem json_canonical_injective:
  assumes "wf_json v" and "wf_json w"
  shows "EncodeCanonicalJson v = EncodeCanonicalJson w \<longleftrightarrow> v = w"
  using assms by (rule json.encode_inject)

theorem json_canonical_injective_witness:
  "EncodeCanonicalJson (kInteger 1) \<noteq> EncodeCanonicalJson (kString ''1'')"
  using json_canonical_injective [of "kInteger 1" "kString ''1''"] by (simp add: int64_defs)

end
