(* ===== verification/Release_Instant.thy ===== *)
theory Release_Instant
  imports Number_Text
begin

text \<open>
  Instants of the release contract: the civil-calendar arithmetic, the ISO-8601 parser and the
  formatter of \<^verbatim>\<open>release_contract.cc\<close>. The calendar functions are shown to be inverse to
  each other on all days, and the formatter's text to parse back to the instant.
\<close>

section \<open>Integer division of C++\<close>

definition cdiv :: "int \<Rightarrow> int \<Rightarrow> int" where
  "cdiv a b = sgn a * sgn b * (\<bar>a\<bar> div \<bar>b\<bar>)"

definition cmod :: "int \<Rightarrow> int \<Rightarrow> int" where
  "cmod a b = a - cdiv a b * b"

lemma cdiv_nonneg [simp]: "0 \<le> a \<Longrightarrow> 0 < b \<Longrightarrow> cdiv a b = a div b"
  by (cases "a = 0") (simp_all add: cdiv_def)

lemma cmod_nonneg [simp]: "0 \<le> a \<Longrightarrow> 0 < b \<Longrightarrow> cmod a b = a mod b"
  by (simp add: cmod_def minus_div_mult_eq_mod)

lemma cdiv_neg: "a < 0 \<Longrightarrow> 0 < b \<Longrightarrow> cdiv a b = - ((- a) div b)"
  by (simp add: cdiv_def)

lemma cmod_neg: "a < 0 \<Longrightarrow> 0 < b \<Longrightarrow> cmod a b = - ((- a) mod b)"
  using minus_div_mult_eq_mod [of "- a" b] by (simp add: cmod_def cdiv_neg)

lemma cmod_eq_0_iff: "0 < b \<Longrightarrow> cmod a b = 0 \<longleftrightarrow> b dvd a"
  by (cases "a < 0") (simp_all add: cmod_neg dvd_eq_mod_eq_0 [symmetric])

text \<open>Division rounds up below zero.\<close>

lemma cdiv_ceil:
  assumes "a < 0" and "0 < b"
  shows "cdiv a b = (a + b - 1) div b"
proof -
  let ?q = "(- a) div b" and ?r = "(- a) mod b"
  have "- a = b * ?q + ?r" by (rule mult_div_mod_eq [symmetric])
  then have "a + b - 1 = b * (- ?q) + (b - 1 - ?r)" by (simp add: algebra_simps)
  moreover have "0 \<le> b - 1 - ?r" "b - 1 - ?r < b"
    using pos_mod_sign [OF assms(2), of "- a"] pos_mod_bound [OF assms(2), of "- a"] by linarith+
  ultimately have "(a + b - 1) div b = - ?q" by (rule int_div_pos_eq)
  then show ?thesis using assms by (simp add: cdiv_neg)
qed

section \<open>The calendar\<close>

text \<open>An instant compares as the pair of its seconds and its microseconds.\<close>

datatype ParsedInstant = ParsedInstant (instant_seconds: int) (instant_microseconds: int)

instantiation ParsedInstant :: linorder
begin

definition less_eq_ParsedInstant :: "ParsedInstant \<Rightarrow> ParsedInstant \<Rightarrow> bool" where
  "less_eq_ParsedInstant a b \<longleftrightarrow> instant_seconds a < instant_seconds b \<or>
     (instant_seconds a = instant_seconds b \<and> instant_microseconds a \<le> instant_microseconds b)"

definition less_ParsedInstant :: "ParsedInstant \<Rightarrow> ParsedInstant \<Rightarrow> bool" where
  "less_ParsedInstant a b \<longleftrightarrow> a \<le> b \<and> \<not> b \<le> a"

instance
  by standard (auto simp: less_eq_ParsedInstant_def less_ParsedInstant_def ParsedInstant.expand)

end

definition IsLeapYear :: "int \<Rightarrow> bool" where
  "IsLeapYear year \<longleftrightarrow> cmod year 4 = 0 \<and> (cmod year 100 \<noteq> 0 \<or> cmod year 400 = 0)"

definition kDays :: "int list" where
  "kDays = [31, 28, 31, 30, 31, 30, 31, 31, 30, 31, 30, 31]"

definition DaysInMonth :: "int \<Rightarrow> int \<Rightarrow> int" where
  "DaysInMonth year month =
     (if month = 2 \<and> IsLeapYear year then 29 else kDays ! nat (month - 1))"

definition DaysFromCivil :: "int \<Rightarrow> int \<Rightarrow> int \<Rightarrow> int" where
  "DaysFromCivil year0 month day =
     (let year = year0 - (if month \<le> 2 then 1 else 0);
          era = cdiv (if year \<ge> 0 then year else year - 399) 400;
          year_of_era = year - era * 400;
          month_prime = month + (if month > 2 then -3 else 9);
          day_of_year = cdiv (153 * month_prime + 2) 5 + day - 1;
          day_of_era = year_of_era * 365 + cdiv year_of_era 4 - cdiv year_of_era 100 + day_of_year
      in era * 146097 + day_of_era - 719468)"

definition FloorDiv :: "int \<Rightarrow> int \<Rightarrow> int" where
  "FloorDiv v divisor =
     (let quotient = cdiv v divisor in if cmod v divisor < 0 then quotient - 1 else quotient)"

text \<open>The calendar part of \<open>FormatInstant\<close>.\<close>

definition CivilFromDays :: "int \<Rightarrow> int \<times> int \<times> int" where
  "CivilFromDays days =
     (let civil = days + 719468;
          era = cdiv (if civil \<ge> 0 then civil else civil - 146096) 146097;
          day_of_era = civil - era * 146097;
          year_of_era = cdiv (day_of_era - cdiv day_of_era 1460 + cdiv day_of_era 36524
                              - cdiv day_of_era 146096) 365;
          year = year_of_era + era * 400;
          day_of_year = day_of_era - (365 * year_of_era + cdiv year_of_era 4 - cdiv year_of_era 100);
          month_prime = cdiv (5 * day_of_year + 2) 153;
          day = day_of_year - cdiv (153 * month_prime + 2) 5 + 1;
          month = month_prime + (if month_prime < 10 then 3 else -9)
      in (year + (if month \<le> 2 then 1 else 0), month, day))"

section \<open>The calendar functions are inverse to each other\<close>

lemma FloorDiv_div:
  assumes "0 < d"
  shows "FloorDiv v d = v div d"
proof (cases "0 \<le> v")
  case False
  then have "- ((- v) div d) = (if (- v) mod d = 0 then v div d else v div d + 1)"
    using assms zdiv_zminus1_eq_if [of d "- v"] by simp
  moreover have "0 \<le> (- v) mod d" using assms by (rule pos_mod_sign)
  ultimately show ?thesis
    using False assms by (auto simp: FloorDiv_def Let_def cdiv_neg cmod_neg simp del: pos_mod_sign)
qed (simp add: FloorDiv_def assms Let_def not_less pos_mod_sign [OF assms])

lemma era_div: "0 < b \<Longrightarrow> cdiv (if y \<ge> 0 then y else y - (b - 1)) b = y div b"
  by (auto simp: cdiv_ceil)

lemma era_div_numeral:
  "cdiv (if y \<ge> 0 then y else y - 399) 400 = y div 400"
  "cdiv (if y \<ge> 0 then y else y - 146096) 146097 = y div 146097"
  by (auto simp: cdiv_ceil)

text \<open>Days before a year of an era, counted from March, and the guess for the year of a day.\<close>

definition era_days :: "int \<Rightarrow> int" where
  "era_days y = 365 * y + y div 4 - y div 100 + y div 400"

definition year_guess :: "int \<Rightarrow> int" where
  "year_guess doe = doe - doe div 1460 + doe div 36524 - doe div 146096"

lemma minus_div_mono:
  assumes "y \<le> z" and "0 < n"
  shows "y - y div n \<le> z - z div (n :: int)"
proof -
  have "z \<le> y + (z - y) * n" using mult_left_mono [of 1 n "z - y"] assms by simp
  then have "z div n \<le> (y + (z - y) * n) div n" by (rule zdiv_mono1) (rule assms)
  also have "\<dots> = y div n + (z - y)" using assms by simp
  finally show ?thesis by simp
qed

lemma era_days_mono:
  assumes "y \<le> z"
  shows "era_days y \<le> era_days z"
proof -
  have "y div 4 \<le> z div 4" "y div 400 \<le> z div 400" using assms by (simp_all add: zdiv_mono1)
  then show ?thesis using minus_div_mono [OF assms, of 100] assms by (simp add: era_days_def)
qed

lemma year_guess_mono:
  assumes "d \<le> e" and "0 \<le> d" and "e \<le> 146096"
  shows "year_guess d \<le> year_guess e"
proof -
  have "d div 36524 \<le> e div 36524" by (intro zdiv_mono1 assms) simp
  moreover have "d - d div 1460 \<le> e - e div 1460" using assms(1) by (rule minus_div_mono) simp
  moreover have "e div 146096 = (if e = 146096 then 1 else 0)" "d div 146096 = (if d = 146096 then 1 else 0)"
    using assms by auto
  moreover have "d div 36524 \<le> 3" if "d \<noteq> 146096" using that assms by simp
  ultimately show ?thesis using assms by (auto simp: year_guess_def)
qed

text \<open>A year of an era as a century, a four-year group and a year in it.\<close>

lemma year_of_era_digits:
  assumes "0 \<le> y" and "y < 400"
  obtains c q r where "y = 100 * c + 4 * q + r" "0 \<le> c" "c \<le> 3" "0 \<le> q" "q \<le> 24" "0 \<le> r" "r \<le> (3::int)"
proof
  show "y = 100 * (y div 100) + 4 * (y mod 100 div 4) + y mod 100 mod 4" by simp
qed (use assms in simp_all)

lemma era_days_digits:
  assumes "0 \<le> c" "c \<le> 3" "0 \<le> q" "q \<le> 24" "0 \<le> r" "r \<le> (3::int)"
  shows "era_days (100 * c + 4 * q + r) = 36524 * c + 1461 * q + 365 * r"
proof -
  have "(100 * c + 4 * q + r) div 4 = 25 * c + q"
    using assms by (intro int_div_pos_eq [where r = r]) simp_all
  moreover have "(100 * c + 4 * q + r) div 100 = c"
    using assms by (intro int_div_pos_eq [where r = "4 * q + r"]) simp_all
  moreover have "(100 * c + 4 * q + r) div 400 = 0" using assms by simp
  ultimately show ?thesis by (simp add: era_days_def)
qed

lemma era_days_guess:
  assumes "0 \<le> y" and "y < 400"
  shows "year_guess (era_days y) = 365 * y" and "0 < y \<Longrightarrow> year_guess (era_days y - 1) < 365 * y"
proof -
  obtain c q r where y: "y = 100 * c + 4 * q + r"
    and b: "0 \<le> c" "c \<le> 3" "0 \<le> q" "q \<le> 24" "0 \<le> r" "r \<le> 3"
    using assms by (rule year_of_era_digits)
  let ?d = "36524 * c + 1461 * q + 365 * r"
  have d: "era_days y = ?d" using era_days_digits [OF b] by (simp add: y)
  have "?d div 1460 = 25 * c + q"
    using b by (intro int_div_pos_eq [where r = "q + 365 * r + 24 * c"]) simp_all
  moreover have "?d div 36524 = c"
    using b by (intro int_div_pos_eq [where r = "1461 * q + 365 * r"]) simp_all
  moreover have "?d div 146096 = 0" using b by simp
  ultimately show "year_guess (era_days y) = 365 * y"
    unfolding d unfolding year_guess_def using y by linarith
  assume "0 < y"
  then have "0 < q + 365 * r + 24 * c" using y b by linarith
  then have "(?d - 1) div 1460 = 25 * c + q" 
    using b by (intro int_div_pos_eq [where r = "q + 365 * r + 24 * c - 1"]) simp_all
  moreover have "(?d - 1) div 36524 \<le> c" using b by simp
  moreover have "0 \<le> (?d - 1) div 146096" using \<open>0 < y\<close> b y by simp
  ultimately show "year_guess (era_days y - 1) < 365 * y"
    unfolding d unfolding year_guess_def using y by linarith
qed

lemma year_guess_year:
  assumes "0 \<le> y" and "y < 400" and "era_days y \<le> doe" and "doe < era_days (y + 1)"
  shows "year_guess doe div 365 = y"
proof -
  have e400: "era_days 400 = 146097" by (simp add: era_days_def)
  have "0 \<le> era_days y" using assms(1) by (simp add: era_days_def)
  moreover have "era_days (y + 1) \<le> 146097"
    using assms(2) era_days_mono [of "y + 1" 400] by (simp add: e400)
  ultimately have "365 * y \<le> year_guess doe"
    using year_guess_mono [of "era_days y" doe] era_days_guess(1) [OF assms(1,2)] assms by simp
  moreover have "year_guess doe < 365 * (y + 1)"
  proof (cases "y = 399")
    case True
    then show ?thesis
      using year_guess_mono [of doe 146096] assms e400 \<open>0 \<le> era_days y\<close>
      by (simp add: year_guess_def)
  next
    case False
    have "year_guess doe \<le> year_guess (era_days (y + 1) - 1)"
      using assms \<open>0 \<le> era_days y\<close> \<open>era_days (y + 1) \<le> 146097\<close> by (intro year_guess_mono) simp_all
    then show ?thesis using era_days_guess(2) [of "y + 1"] assms False by simp
  qed
  ultimately show ?thesis by (intro int_div_pos_eq [where r = "year_guess doe - 365 * y"]) simp_all
qed

lemma year_exists:
  assumes "0 \<le> doe" and "doe < 146097"
  obtains y where "0 \<le> y" "y < 400" "era_days y \<le> doe" "doe < era_days (y + 1)"
proof -
  define ys where "ys = {y \<in> {0..399}. era_days y \<le> doe}"
  have "0 \<in> ys" using assms by (simp add: ys_def era_days_def)
  moreover have "finite ys" unfolding ys_def by (rule finite_subset [of _ "{0..399}"]) auto
  ultimately have max: "Max ys \<in> ys" "\<And>y. y \<in> ys \<Longrightarrow> y \<le> Max ys" by (auto intro: Max_in)
  have "doe < era_days (Max ys + 1)"
  proof (cases "Max ys = 399")
    case True
    then show ?thesis using assms by (simp add: era_days_def)
  next
    case False
    then have "Max ys + 1 \<notin> ys" using max(2) by force
    with False max(1) show ?thesis by (auto simp: ys_def)
  qed
  with max(1) show ?thesis by (intro that [of "Max ys"]) (auto simp: ys_def)
qed

text \<open>The length of a year that starts in March is that of the civil year it ends in.\<close>

lemma div_step:
  assumes "0 < n"
  shows "(y + 1) div n - y div n = (if n dvd y + 1 then 1 else (0 :: int))"
proof (cases "n dvd y + 1")
  case True
  then obtain k where k: "y + 1 = n * k" by (elim dvdE)
  then have "y div n = k - 1"
    using assms by (intro int_div_pos_eq [where r = "n - 1"]) (simp_all add: algebra_simps)
  with k True assms show ?thesis by simp
next
  case False
  then have "(y + 1) mod n \<noteq> 0" by (simp add: dvd_eq_mod_eq_0)
  then have "0 < (y + 1) mod n" using pos_mod_sign [OF assms, of "y + 1"] by linarith
  moreover have "(y + 1) mod n < n" using assms by (rule pos_mod_bound)
  ultimately have "y div n = (y + 1) div n"
    using mult_div_mod_eq [of n "y + 1"]
    by (intro int_div_pos_eq [where r = "(y + 1) mod n - 1"]) linarith+
  with False show ?thesis by simp
qed

lemma era_days_next:
  "era_days (y + 1) - era_days y = (if 4 dvd y + 1 \<and> (\<not> 100 dvd y + 1 \<or> 400 dvd y + 1) then 366 else 365)"
proof -
  have "era_days (y + 1) - era_days y = 365 + ((y + 1) div 4 - y div 4)
      - ((y + 1) div 100 - y div 100) + ((y + 1) div 400 - y div 400)"
    by (simp add: era_days_def distrib_left)
  moreover have "100 dvd y + 1 \<Longrightarrow> 4 dvd y + 1" "400 dvd y + 1 \<Longrightarrow> 100 dvd y + 1"
    by (rule dvd_trans [rotated], assumption, simp)+
  ultimately show ?thesis by (auto simp only: div_step zero_less_numeral split: if_split)
qed

lemma IsLeapYear_dvd: "IsLeapYear y \<longleftrightarrow> 4 dvd y \<and> (\<not> 100 dvd y \<or> 400 dvd y)"
  by (simp add: IsLeapYear_def cmod_eq_0_iff)

lemma IsLeapYear_era: "IsLeapYear (y + 400 * era) \<longleftrightarrow> IsLeapYear y"
proof -
  have "n dvd y + 400 * era \<longleftrightarrow> n dvd y" if "n dvd 400" for n
    using that by (simp add: dvd_add_left_iff)
  then show ?thesis by (simp add: IsLeapYear_dvd)
qed

text \<open>Months within a year from March: every day of the year, checked.\<close>

definition month_of :: "int \<Rightarrow> int" where
  "month_of doy = (5 * doy + 2) div 153"

definition month_start :: "int \<Rightarrow> int" where
  "month_start mp = (153 * mp + 2) div 5"

lemma months_checked:
  "list_all (\<lambda>doy. 0 \<le> month_of doy \<and> month_of doy \<le> 11 \<and>
      month_start (month_of doy) \<le> doy \<and>
      doy - month_start (month_of doy) + 1 \<le>
        (if month_of doy = 11 then (if doy = 365 then 29 else 28)
         else kDays ! nat (month_of doy + (if month_of doy < 10 then 2 else -10)))) [0..365]"
  by code_simp

lemma days_checked:
  "list_all (\<lambda>mp. list_all (\<lambda>d. month_of (month_start mp + d) = mp)
      [0..(if mp = 11 then 28 else kDays ! nat (mp + (if mp < 10 then 2 else -10)) - 1)]) [0..11]"
  by code_simp

lemma month_ends_checked:
  "list_all (\<lambda>mp. month_start mp + kDays ! nat (mp + (if mp < 10 then 2 else -10)) \<le> 365) [0..10]"
  by code_simp

text \<open>A valid civil date, and the two directions of the correspondence with day numbers.\<close>

definition valid_date :: "int \<Rightarrow> int \<Rightarrow> int \<Rightarrow> bool" where
  "valid_date year month day \<longleftrightarrow>
     1 \<le> month \<and> month \<le> 12 \<and> 1 \<le> day \<and> day \<le> DaysInMonth year month"

text \<open>Both functions in terms of the era, the year of the era and the day of the March year.\<close>

lemma DaysFromCivil_eq:
  assumes "1 \<le> month"
  shows "DaysFromCivil year month day =
    (let y = year - (if month \<le> 2 then 1 else 0)
     in y div 400 * 146097 + 365 * (y mod 400) + y mod 400 div 4 - y mod 400 div 100
        + (month_start (month + (if month > 2 then -3 else 9)) + day - 1) - 719468)"
proof -
  define mp where "mp = month + (if month > 2 then - 3 else 9)"
  define y where "y = year - (if month \<le> 2 then 1 else 0)"
  have "0 \<le> mp" using assms by (simp add: mp_def)
  then have mp: "cdiv (153 * mp + 2) 5 = month_start mp" by (simp add: month_start_def)
  have "y - y div 400 * 400 = y mod 400" by (rule minus_div_mult_eq_mod)
  then show ?thesis
    unfolding DaysFromCivil_def Let_def mp_def [symmetric] y_def [symmetric] era_div_numeral mp
    by simp
qed

lemma CivilFromDays_eq:
  assumes y: "0 \<le> y" "y < 400" "era_days y \<le> doe" "doe < era_days (y + 1)"
  shows "CivilFromDays (era * 146097 + doe - 719468) =
    (let doy = doe - era_days y; mp = month_of doy; month = mp + (if mp < 10 then 3 else -9)
     in (y + 400 * era + (if month \<le> 2 then 1 else 0), month, doy - month_start mp + 1))"
proof -
  have e: "0 \<le> era_days y" "era_days (y + 1) \<le> 146097"
    using y(1,2) era_days_mono [of "y + 1" 400] by (simp_all add: era_days_def)
  then have doe: "0 \<le> doe" "doe < 146097" using y by linarith+
  then have era: "(era * 146097 + doe) div 146097 = era" by simp
  have "0 \<le> year_guess doe"
    using era_days_guess(1) [of 0] year_guess_mono [of 0 doe] doe by (simp add: era_days_def)
  then have guess: "cdiv (doe - cdiv doe 1460 + cdiv doe 36524 - cdiv doe 146096) 365 = y"
    using year_guess_year [OF y] doe by (simp add: year_guess_def)
  have doy: "doe - (365 * y + cdiv y 4 - cdiv y 100) = doe - era_days y" "0 \<le> doe - era_days y"
    using y by (simp_all add: era_days_def)
  then have mp: "cdiv (5 * (doe - era_days y) + 2) 153 = month_of (doe - era_days y)"
    by (simp add: month_of_def)
  then have "0 \<le> month_of (doe - era_days y)" using doy(2) by (simp add: month_of_def)
  then have ms: "cdiv (153 * month_of (doe - era_days y) + 2) 5 = month_start (month_of (doe - era_days y))"
    by (simp add: month_start_def)
  have "era * 146097 + doe - 719468 + 719468 = era * 146097 + doe"
    "era * 146097 + doe - era * 146097 = doe" by simp_all
  then show ?thesis
    unfolding CivilFromDays_def Let_def
    by (simp only: era_div_numeral era guess doy(1) mp ms) simp
qed

lemma in_upto_list_all: "list_all P [a..b] \<Longrightarrow> a \<le> x \<Longrightarrow> x \<le> b \<Longrightarrow> P x"
  by (simp add: list_all_iff)

lemma march_year_bounds:
  assumes "era_days y \<le> doe" and "doe < era_days (y + 1)"
  shows "0 \<le> doe - era_days y" and "doe - era_days y \<le> 365"
    and "doe - era_days y = 365 \<Longrightarrow> IsLeapYear (y + 1)"
  using assms era_days_next [of y] by (auto simp: IsLeapYear_dvd split: if_splits)

lemma civil_of_days:
  assumes "CivilFromDays z = (year, month, day)"
  shows "valid_date year month day" and "DaysFromCivil year month day = z"
proof -
  define era where "era = (z + 719468) div 146097"
  define doe where "doe = (z + 719468) mod 146097"
  have z: "z = era * 146097 + doe - 719468" by (simp add: era_def doe_def)
  have "0 \<le> doe" "doe < 146097" by (simp_all add: doe_def)
  then obtain y where y: "0 \<le> y" "y < 400" "era_days y \<le> doe" "doe < era_days (y + 1)"
    by (rule year_exists)
  define doy where "doy = doe - era_days y"
  define mp where "mp = month_of doy"
  note doy = march_year_bounds [OF y(3,4), folded doy_def]
  have checked: "0 \<le> mp" "mp \<le> 11" "month_start mp \<le> doy" "doy - month_start mp + 1 \<le>
        (if mp = 11 then (if doy = 365 then 29 else 28)
         else kDays ! nat (mp + (if mp < 10 then 2 else -10)))"
    using in_upto_list_all [OF months_checked doy(1,2), folded mp_def] by blast+
  have civil: "month = mp + (if mp < 10 then 3 else -9)" "day = doy - month_start mp + 1"
    "year = y + 400 * era + (if month \<le> 2 then 1 else 0)"
    using assms CivilFromDays_eq [OF y, of era] by (auto simp: z Let_def doy_def mp_def)
  have leap: "IsLeapYear (y + 400 * era + 1)" if "doy = 365"
    using doy(3) [OF that] IsLeapYear_era [of "y + 1" era] by (simp add: algebra_simps)
  have kd: "kDays ! Suc 0 = 28" by (simp add: kDays_def)
  show "valid_date year month day"
  proof (cases "mp = 11")
    case True
    then show ?thesis
      using checked civil leap by (auto simp: valid_date_def DaysInMonth_def kd split: if_splits)
  next
    case False
    then have "nat (month - 1) = nat (mp + (if mp < 10 then 2 else -10))" "month \<noteq> 2"
      using civil(1) checked(1,2) by (auto split: if_splits)
    then show ?thesis
      using checked civil(1,2) False by (auto simp: valid_date_def DaysInMonth_def split: if_splits)
  qed
  have "year - (if month \<le> 2 then 1 else 0) = era * 400 + y" using civil(3) by simp
  moreover have "month + (if month > 2 then -3 else 9) = mp" using civil(1) checked(1,2) by auto
  moreover have "1 \<le> month" using civil(1) checked(1,2) by auto
  ultimately show "DaysFromCivil year month day = z"
    using y(1,2) by (simp add: DaysFromCivil_eq Let_def civil(2) doy_def era_days_def z)
qed

lemma days_of_civil:
  assumes "valid_date year month day"
  shows "CivilFromDays (DaysFromCivil year month day) = (year, month, day)"
proof -
  define yy where "yy = year - (if month \<le> 2 then 1 else 0)"
  define y where "y = yy mod 400"
  define era where "era = yy div 400"
  define mp where "mp = month + (if month > 2 then -3 else 9)"
  have m: "1 \<le> month" "month \<le> 12" "1 \<le> day" "day \<le> DaysInMonth year month"
    using assms by (simp_all add: valid_date_def)
  have mp: "0 \<le> mp" "mp \<le> 11" "month = mp + (if mp < 10 then 3 else -9)"
    using m by (auto simp: mp_def)
  have y: "0 \<le> y" "y < 400" "yy = y + 400 * era" by (simp_all add: y_def era_def)
  let ?doy = "month_start mp + (day - 1)"
  have dim: "day - 1 \<le> (if mp = 11 then 28 else kDays ! nat (mp + (if mp < 10 then 2 else -10)) - 1)"
  proof (cases "mp = 11")
    case True
    then have "month = 2" using mp(3) by simp
    then show ?thesis using m(4) True by (simp add: DaysInMonth_def kDays_def split: if_splits)
  next
    case False
    then have "nat (month - 1) = nat (mp + (if mp < 10 then 2 else -10))" "month \<noteq> 2"
      using mp by (auto split: if_splits)
    then show ?thesis using m(4) False by (simp add: DaysInMonth_def)
  qed
  then have doy: "month_of ?doy = mp"
    using in_upto_list_all [OF in_upto_list_all [OF days_checked mp(1,2)], of "day - 1"] m by simp
  have "0 \<le> ?doy" using m mp by (simp add: month_start_def)
  moreover have "?doy < era_days (y + 1) - era_days y"
  proof (cases "mp = 11")
    case False
    then have "?doy < 365"
      using in_upto_list_all [OF month_ends_checked mp(1), of] dim mp(2) by simp
    then show ?thesis using era_days_next [of y] by simp
  next
    case True
    then have "month = 2" "year = y + 1 + 400 * era" using mp(3) y(3) by (simp_all add: yy_def)
    then have "day \<le> (if IsLeapYear (y + 1) then 29 else 28)"
      using m(4) IsLeapYear_era [of "y + 1" era]
      by (auto simp: DaysInMonth_def kDays_def split: if_splits)
    then show ?thesis
      using era_days_next [of y] True
      by (auto simp: month_start_def IsLeapYear_dvd split: if_splits)
  qed
  ultimately have "CivilFromDays (era * 146097 + (era_days y + ?doy) - 719468) =
      (let mp = month_of ?doy; month = mp + (if mp < 10 then 3 else -9)
       in (y + 400 * era + (if month \<le> 2 then 1 else 0), month, ?doy - month_start mp + 1))"
    using CivilFromDays_eq [of y "era_days y + ?doy" era] y by (simp add: Let_def)
  moreover have "DaysFromCivil year month day = era * 146097 + (era_days y + ?doy) - 719468"
    using y by (simp add: DaysFromCivil_eq m(1) Let_def yy_def [symmetric] era_def [symmetric]
        y_def [symmetric] mp_def [symmetric] era_days_def)
  ultimately show ?thesis using doy mp(3) y(3) by (simp add: Let_def yy_def)
qed

section \<open>Text\<close>

definition ParseComponent :: "string \<Rightarrow> int result" where
  "ParseComponent s =
     (if s = [] \<or> \<not> list_all isdigit s
      then Inl (JsonError ''Invalid semantic version component.'')
      else Inr (strtoll_digits s))"

text \<open>The two loops over the digits of the fraction; six digits count.\<close>

fun FractionLoop :: "string \<Rightarrow> nat \<Rightarrow> int \<Rightarrow> string \<times> nat \<times> int" where
  "FractionLoop [] digits microseconds = ([], digits, microseconds)"
| "FractionLoop (c # s) digits microseconds =
     (if isdigit c then
        FractionLoop s (digits + 1)
          (if digits < 6 then microseconds * 10 + int (ord c - 48) else microseconds)
      else (c # s, digits, microseconds))"

function FractionPad :: "nat \<Rightarrow> int \<Rightarrow> int" where
  "FractionPad digits microseconds =
     (if digits < 6 then FractionPad (digits + 1) (microseconds * 10) else microseconds)"
  by pat_completeness auto
termination
  by (relation "measure (\<lambda>(d, m). 6 - d)") auto

declare FractionPad.simps [simp del]

definition ParseFraction :: "string \<Rightarrow> (string \<times> int) result" where
  "ParseFraction s =
     (case s of
        c # r \<Rightarrow>
          if c = CHR ''.'' then
            (case FractionLoop r 0 0 of (zone, digits, microseconds) \<Rightarrow>
               if zone = r then Inl (JsonError ''Invalid ISO-8601 instant.'')
               else Inr (zone, FractionPad digits microseconds))
          else Inr (s, 0)
      | [] \<Rightarrow> Inr (s, 0))"

definition ParseOffset :: "string \<Rightarrow> int result" where
  "ParseOffset zone =
     (if zone = ''Z'' then Inr 0
      else if length zone = 6 \<and> (zone ! 0 = CHR ''+'' \<or> zone ! 0 = CHR ''-'') \<and> zone ! 3 = CHR '':''
      then
        bindE (ParseComponent (take 2 (drop 1 zone))) (\<lambda>offset_hour.
        bindE (ParseComponent (take 2 (drop 4 zone))) (\<lambda>offset_minute.
          if offset_hour > 23 \<or> offset_minute > 59
          then Inl (JsonError ''Invalid ISO-8601 instant.'')
          else
            let offset = offset_hour * 3600 + offset_minute * 60
            in Inr (if zone ! 0 = CHR ''-'' then - offset else offset)))
      else Inl (JsonError ''Invalid ISO-8601 instant.''))"

definition ParseInstant :: "string \<Rightarrow> ParsedInstant result" where
  "ParseInstant s =
     (if length s < 20 \<or> s ! 4 \<noteq> CHR ''-'' \<or> s ! 7 \<noteq> CHR ''-'' \<or> s ! 10 \<noteq> CHR ''T'' \<or>
         s ! 13 \<noteq> CHR '':'' \<or> s ! 16 \<noteq> CHR '':''
      then Inl (JsonError ''Invalid ISO-8601 instant.'')
      else
        bindE (ParseComponent (take 4 s)) (\<lambda>year.
        bindE (ParseComponent (take 2 (drop 5 s))) (\<lambda>month.
        bindE (ParseComponent (take 2 (drop 8 s))) (\<lambda>day.
        bindE (ParseComponent (take 2 (drop 11 s))) (\<lambda>hour.
        bindE (ParseComponent (take 2 (drop 14 s))) (\<lambda>minute.
        bindE (ParseComponent (take 2 (drop 17 s))) (\<lambda>second.
          if month < 1 \<or> month > 12 \<or> day < 1 \<or> day > DaysInMonth year month \<or>
             hour > 23 \<or> minute > 59 \<or> second > 59
          then Inl (JsonError ''Invalid ISO-8601 instant.'')
          else
            bindE (ParseFraction (drop 19 s)) (\<lambda>(zone, microseconds).
            bindE (ParseOffset zone) (\<lambda>offset.
              Inr (ParsedInstant
                (DaysFromCivil year month day * 86400 + hour * 3600 + minute * 60 + second - offset)
                microseconds))))))))))"

text \<open>\<^verbatim>\<open>%0<w>d\<close> of \<^verbatim>\<open>snprintf\<close>.\<close>

definition printf_pad :: "nat \<Rightarrow> int \<Rightarrow> string" where
  "printf_pad w i =
     (let digits = show_nat (nat \<bar>i\<bar>);
          sign = (if i < 0 then ''-'' else [])
      in sign @ replicate (w - length sign - length digits) CHR ''0'' @ digits)"

definition FormatInstant :: "ParsedInstant \<Rightarrow> string" where
  "FormatInstant instant =
     (let days = FloorDiv (instant_seconds instant) 86400;
          seconds_of_day = instant_seconds instant - days * 86400;
          (year, month, day) = CivilFromDays days;
          hour = cdiv seconds_of_day 3600;
          minute = cdiv (cmod seconds_of_day 3600) 60;
          second = cmod seconds_of_day 60;
          microseconds = instant_microseconds instant
      in printf_pad 4 year @ ''-'' @ printf_pad 2 month @ ''-'' @ printf_pad 2 day @ ''T''
         @ printf_pad 2 hour @ '':'' @ printf_pad 2 minute @ '':'' @ printf_pad 2 second @ ''.''
         @ (if cmod microseconds 1000 = 0 then printf_pad 3 (cdiv microseconds 1000)
            else printf_pad 6 microseconds)
         @ ''Z'')"

section \<open>The formatter's text parses back\<close>

lemma decimal_value_zeros: "decimal_value (replicate n CHR ''0'' @ s) = decimal_value s"
  unfolding decimal_value_def by (induction n) simp_all

lemma length_show_nat: "n < 10 ^ w \<Longrightarrow> 0 < w \<Longrightarrow> length (show_nat n) \<le> w"
proof (induction n arbitrary: w rule: show_nat.induct)
  case (1 n)
  show ?case
  proof (cases "n < 10")
    case True
    then show ?thesis using "1.prems" by (simp add: show_nat.simps [of n])
  next
    case False
    then obtain w' where w: "w = Suc w'" "0 < w'" using "1.prems" by (cases w; cases "w - 1") auto
    then have "length (show_nat (n div 10)) \<le> w'" using False "1.prems" by (intro "1.IH") auto
    then show ?thesis using False w by (simp add: show_nat.simps [of n])
  qed
qed

lemma printf_pad_digits:
  assumes "0 \<le> i" and "i < 10 ^ w" and "0 < w"
  shows "length (printf_pad w i) = w" and "list_all isdigit (printf_pad w i)"
    and "int (decimal_value (printf_pad w i)) = i"
proof -
  have "nat i < 10 ^ w" using assms by (simp add: nat_less_iff)
  then have "length (show_nat (nat i)) \<le> w" using assms(3) by (rule length_show_nat)
  then show "length (printf_pad w i) = w" "list_all isdigit (printf_pad w i)"
    "int (decimal_value (printf_pad w i)) = i"
    using assms show_nat_digits [of "nat i"]
    by (simp_all add: printf_pad_def Let_def decimal_value_zeros) (simp add: list_all_iff isdigit_def)
qed

lemma ParseComponent_printf_pad:
  assumes "0 \<le> i" and "i < 10 ^ w" and "0 < w" and "i \<le> INT64_MAX"
  shows "ParseComponent (printf_pad w i) = Inr i"
  using printf_pad_digits [OF assms(1-3)] assms(3,4)
  by (auto simp: ParseComponent_def strtoll_digits_def)

lemma decimal_value_Cons_acc:
  "foldl (\<lambda>a c. 10 * a + (ord c - 48)) v s = v * 10 ^ length s + decimal_value s"
proof (induction s arbitrary: v)
  case (Cons c s)
  from Cons [of "10 * v + (ord c - 48)"] Cons [of "ord c - 48"] show ?case
    by (simp add: decimal_value_def algebra_simps)
qed simp

lemma decimal_value_Cons: "decimal_value (c # s) = (ord c - 48) * 10 ^ length s + decimal_value s"
  using decimal_value_Cons_acc [of "ord c - 48" s] by (simp add: decimal_value_def)

lemma FractionLoop_digits:
  assumes "list_all isdigit ds" and "digits + length ds \<le> 6" and "\<not> isdigit z"
  shows "FractionLoop (ds @ z # r) digits m =
    (z # r, digits + length ds, m * 10 ^ length ds + int (decimal_value ds))"
  using assms
  by (induction ds arbitrary: digits m) (simp_all add: decimal_value_Cons distrib_right distrib_left ac_simps)

lemma FractionPad_eq: "FractionPad digits m = m * 10 ^ (6 - digits)"
proof (induction digits m rule: FractionPad.induct)
  case (1 digits m)
  show ?case
  proof (cases "digits < 6")
    case True
    then have "6 - digits = Suc (6 - (digits + 1))" by simp
    with 1 True show ?thesis by (simp add: FractionPad.simps [of digits])
  qed (simp add: FractionPad.simps [of digits])
qed

lemma ParseFraction_digits:
  assumes "list_all isdigit ds" and "ds \<noteq> []" and "length ds \<le> 6"
  shows "ParseFraction (CHR ''.'' # ds @ ''Z'') =
    Inr (''Z'', int (decimal_value ds) * 10 ^ (6 - length ds))"
  using FractionLoop_digits [OF assms(1), of 0 "CHR ''Z''" "[]" 0] assms
  by (simp add: ParseFraction_def FractionPad_eq isdigit_def append_eq_Cons_conv)

lemma ParseInstant_layout:
  assumes "length Y = 4" "length M = 2" "length D = 2" "length h = 2" "length m = 2" "length s = 2"
    and "rest \<noteq> []"
  shows "ParseInstant (Y @ ''-'' @ M @ ''-'' @ D @ ''T'' @ h @ '':'' @ m @ '':'' @ s @ rest) =
    bindE (ParseComponent Y) (\<lambda>year.
        bindE (ParseComponent M) (\<lambda>month.
        bindE (ParseComponent D) (\<lambda>day.
        bindE (ParseComponent h) (\<lambda>hour.
        bindE (ParseComponent m) (\<lambda>minute.
        bindE (ParseComponent s) (\<lambda>second.
          if month < 1 \<or> month > 12 \<or> day < 1 \<or> day > DaysInMonth year month \<or>
             hour > 23 \<or> minute > 59 \<or> second > 59
          then Inl (JsonError ''Invalid ISO-8601 instant.'')
          else
            bindE (ParseFraction rest) (\<lambda>(zone, microseconds).
            bindE (ParseOffset zone) (\<lambda>offset.
              Inr (ParsedInstant
                (DaysFromCivil year month day * 86400 + hour * 3600 + minute * 60 + second - offset)
                microseconds)))))))))"
proof -
  let ?t = "Y @ ''-'' @ M @ ''-'' @ D @ ''T'' @ h @ '':'' @ m @ '':'' @ s @ rest"
  have "\<not> length ?t < 20" using assms by (cases rest) simp_all
  moreover have "?t ! 4 = CHR ''-''" "?t ! 7 = CHR ''-''" "?t ! 10 = CHR ''T''"
    "?t ! 13 = CHR '':''" "?t ! 16 = CHR '':''"
    using assms(1-6) by (simp_all add: nth_append)
  moreover have "take 4 ?t = Y" "take 2 (drop 5 ?t) = M" "take 2 (drop 8 ?t) = D"
    "take 2 (drop 11 ?t) = h" "take 2 (drop 14 ?t) = m" "take 2 (drop 17 ?t) = s" "drop 19 ?t = rest"
    using assms(1-6) by simp_all
  ultimately show ?thesis unfolding ParseInstant_def by (simp only: if_False simp_thms)
qed

text \<open>The years the four-digit format can carry.\<close>

lemma DaysFromCivil_era_days:
  assumes "1 \<le> month"
  shows "DaysFromCivil year month day =
    era_days (year - (if month \<le> 2 then 1 else 0))
    + (month_start (month + (if month > 2 then -3 else 9)) + day - 1) - 719468"
proof -
  define y where "y = year - (if month \<le> 2 then 1 else 0)"
  have "(a + 400 * b) div 4 = a div 4 + 100 * b" "(a + 400 * b) div 100 = a div 100 + 4 * b"
    for a b :: int
    using div_mult_self2 [of 4 a "100 * b"] div_mult_self2 [of 100 a "4 * b"] by simp_all
  from this [of "y mod 400" "y div 400"]
  have "y div 4 = y mod 400 div 4 + 100 * (y div 400)" "y div 100 = y mod 400 div 100 + 4 * (y div 400)"
    by simp_all
  moreover have "365 * y = 365 * (y mod 400) + 146000 * (y div 400)"
    using mult_div_mod_eq [of 400 y] by linarith
  ultimately show ?thesis
    unfolding DaysFromCivil_eq [OF assms] Let_def y_def [symmetric] era_days_def by linarith
qed

lemma march_month_bounds:
  assumes "valid_date year month day"
  shows "0 \<le> month_start (month + (if month > 2 then -3 else 9)) + day - 1"
    and "month_start (month + (if month > 2 then -3 else 9)) + day - 1 \<le> 365"
    and "month \<le> 2 \<Longrightarrow> 306 \<le> month_start (month + (if month > 2 then -3 else 9)) + day - 1"
    and "2 < month \<Longrightarrow> month_start (month + (if month > 2 then -3 else 9)) + day - 1 \<le> 305"
proof -
  have m: "1 \<le> month" "month \<le> 12" and day: "1 \<le> day" "day \<le> DaysInMonth year month"
    using assms by (simp_all add: valid_date_def)
  from m have "month = 1 \<or> month = 2 \<or> month = 3 \<or> month = 4 \<or> month = 5 \<or> month = 6 \<or>
      month = 7 \<or> month = 8 \<or> month = 9 \<or> month = 10 \<or> month = 11 \<or> month = 12"
    by presburger
  with day show "0 \<le> month_start (month + (if month > 2 then -3 else 9)) + day - 1"
    "month_start (month + (if month > 2 then -3 else 9)) + day - 1 \<le> 365"
    "month \<le> 2 \<Longrightarrow> 306 \<le> month_start (month + (if month > 2 then -3 else 9)) + day - 1"
    "2 < month \<Longrightarrow> month_start (month + (if month > 2 then -3 else 9)) + day - 1 \<le> 305"
    by (auto simp: month_start_def DaysInMonth_def kDays_def split: if_splits)
qed

lemma civil_year_range:
  assumes "CivilFromDays z = (year, month, day)" and "- 719528 \<le> z" and "z < 2932897"
  shows "0 \<le> year" and "year \<le> 9999"
proof -
  note civil = civil_of_days [OF assms(1)]
  have m: "1 \<le> month" using civil(1) by (simp add: valid_date_def)
  note z = civil(2) [symmetric, unfolded DaysFromCivil_era_days [OF m]]
  note b = march_month_bounds [OF civil(1)]
  have e: "era_days (-1) = -366" "era_days (-2) = -731" "era_days 9999 = 3652059"
    "era_days 10000 = 3652425"
    by (simp_all add: era_days_def)
  show "0 \<le> year"
  proof (rule ccontr)
    assume "\<not> 0 \<le> year"
    then have "month \<le> 2 \<Longrightarrow> era_days (year - 1) \<le> -731" "2 < month \<Longrightarrow> era_days year \<le> -366"
      using era_days_mono [of "year - 1" "-2"] era_days_mono [of year "-1"] by (simp_all add: e)
    then show False using z b assms(2) by (cases "month \<le> 2") simp_all
  qed
  show "year \<le> 9999"
  proof (rule ccontr)
    assume "\<not> year \<le> 9999"
    then have "month \<le> 2 \<Longrightarrow> 3652059 \<le> era_days (year - 1)" "2 < month \<Longrightarrow> 3652425 \<le> era_days year"
      using era_days_mono [of 9999 "year - 1"] era_days_mono [of 10000 year] by (simp_all add: e)
    then show False using z b assms(3) by (cases "month \<le> 2") simp_all
  qed
qed

lemma clock_parts:
  assumes "0 \<le> sod" and "sod < (86400 :: int)"
  shows "sod div 3600 \<le> 23" "sod mod 3600 div 60 \<le> 59" "sod mod 60 \<le> 59"
    "sod div 3600 * 3600 + sod mod 3600 div 60 * 60 + sod mod 60 = sod"
proof -
  have "sod mod 3600 < 3600" "sod mod 60 < 60" by simp_all
  then show "sod div 3600 \<le> 23" "sod mod 3600 div 60 \<le> 59" "sod mod 60 \<le> 59"
    using assms by simp_all
  have "sod mod 3600 mod 60 = sod mod 60" by (simp add: mod_mod_cancel)
  then show "sod div 3600 * 3600 + sod mod 3600 div 60 * 60 + sod mod 60 = sod"
    using div_mult_mod_eq [of sod 3600] div_mult_mod_eq [of "sod mod 3600" 60] by linarith
qed

definition representable :: "ParsedInstant \<Rightarrow> bool" where
  "representable i \<longleftrightarrow> - 62167219200 \<le> instant_seconds i \<and> instant_seconds i < 253402300800 \<and>
     0 \<le> instant_microseconds i \<and> instant_microseconds i < 1000000"

lemma ParseFraction_microseconds:
  assumes "0 \<le> us" and "us < 1000000"
  shows "ParseFraction (CHR ''.'' # (if cmod us 1000 = 0 then printf_pad 3 (cdiv us 1000)
      else printf_pad 6 us) @ ''Z'') = Inr (''Z'', us)"
proof (cases "cmod us 1000 = 0")
  case True
  have "0 \<le> us div 1000" "us div 1000 < 10 ^ 3" using assms by simp_all
  then have "length (printf_pad 3 (us div 1000)) = 3" "list_all isdigit (printf_pad 3 (us div 1000))"
    "int (decimal_value (printf_pad 3 (us div 1000))) = us div 1000"
    by (simp_all add: printf_pad_digits)
  moreover from this(1) have "printf_pad 3 (us div 1000) \<noteq> []" by auto
  moreover have "us div 1000 * 1000 = us" using True assms div_mult_mod_eq [of us 1000] by simp
  ultimately show ?thesis
    using ParseFraction_digits [of "printf_pad 3 (us div 1000)"] True assms by simp
next
  case False
  have "length (printf_pad 6 us) = 6" "list_all isdigit (printf_pad 6 us)"
    "int (decimal_value (printf_pad 6 us)) = us"
    using assms by (simp_all add: printf_pad_digits)
  moreover from this(1) have "printf_pad 6 us \<noteq> []" by auto
  ultimately show ?thesis using ParseFraction_digits [of "printf_pad 6 us"] False by simp
qed

lemma ParseInstant_FormatInstant:
  assumes "representable i"
  shows "ParseInstant (FormatInstant i) = Inr i"
proof -
  obtain s us where i: "i = ParsedInstant s us" by (cases i)
  with assms have s: "- 62167219200 \<le> s" "s < 253402300800" and us: "0 \<le> us" "us < 1000000"
    by (simp_all add: representable_def)
  define days where "days = s div 86400"
  define sod where "sod = s mod 86400"
  have sod: "0 \<le> sod" "sod < 86400" "s = days * 86400 + sod" by (simp_all add: days_def sod_def)
  obtain y m d where civil: "CivilFromDays days = (y, m, d)" by (cases "CivilFromDays days")
  note clock = clock_parts [OF sod(1,2)]
  have "- 719528 \<le> days" "days < 2932897" using s by (simp_all add: days_def)
  then have y: "0 \<le> y" "y < 10 ^ 4" using civil_year_range [OF civil] by simp_all
  have valid: "1 \<le> m" "m \<le> 12" "1 \<le> d" "d \<le> DaysInMonth y m" and days: "DaysFromCivil y m d = days"
    using civil_of_days [OF civil] by (simp_all add: valid_date_def)
  then have "d \<le> 31" by (auto simp: DaysInMonth_def kDays_def nth_Cons' split: if_splits)
  then have fields: "m < 10 ^ 2" "d < 10 ^ 2" "sod div 3600 < 10 ^ 2" "sod mod 3600 div 60 < 10 ^ 2"
    "sod mod 60 < 10 ^ 2"
    using valid clock by simp_all
  have nonneg: "0 \<le> m" "0 \<le> d" "0 \<le> sod div 3600" "0 \<le> sod mod 3600 div 60" "0 \<le> sod mod 60"
    using valid sod by simp_all
  have parsed: "ParseComponent (printf_pad w v) = Inr v" "length (printf_pad w v) = w"
    if "0 \<le> v" "v < 10 ^ w" "0 < w" "w \<le> 4" for w v
  proof -
    have "v < 10 ^ 4" using that power_increasing [of w 4 "10 :: int"] by linarith
    then show "ParseComponent (printf_pad w v) = Inr v" "length (printf_pad w v) = w"
      using that ParseComponent_printf_pad [of v w] printf_pad_digits(1) [of v w]
      by (simp_all add: INT64_MAX_def)
  qed
  have shape: "FormatInstant i = printf_pad 4 y @ ''-'' @ printf_pad 2 m @ ''-'' @ printf_pad 2 d @ ''T''
      @ printf_pad 2 (sod div 3600) @ '':'' @ printf_pad 2 (sod mod 3600 div 60) @ '':''
      @ printf_pad 2 (sod mod 60) @ CHR ''.'' # (if cmod us 1000 = 0 then printf_pad 3 (cdiv us 1000)
            else printf_pad 6 us) @ ''Z''"
    using sod civil
    by (simp add: FormatInstant_def i FloorDiv_div days_def [symmetric] Let_def)
  note pads = parsed [OF y, simplified] parsed [OF nonneg(1) fields(1), simplified]
    parsed [OF nonneg(2) fields(2), simplified] parsed [OF nonneg(3) fields(3), simplified]
    parsed [OF nonneg(4) fields(4), simplified] parsed [OF nonneg(5) fields(5), simplified]
  have range: "\<not> (m < 1 \<or> m > 12 \<or> d < 1 \<or> d > DaysInMonth y m \<or>
      sod div 3600 > 23 \<or> sod mod 3600 div 60 > 59 \<or> sod mod 60 > 59)"
    using valid clock by linarith
  have sum: "DaysFromCivil y m d * 86400 + sod div 3600 * 3600 + sod mod 3600 div 60 * 60
      + sod mod 60 - 0 = s"
    using clock(4) sod(3) days by linarith
  have offset: "ParseOffset ''Z'' = Inr 0" by (simp add: ParseOffset_def)
  show ?thesis
    unfolding shape
    by (subst ParseInstant_layout)
      (simp_all only: pads bindE_simps range if_False ParseFraction_microseconds [OF us] prod.case
        offset sum i list.distinct not_False_eq_True)
qed

lemma isdigit_value: "isdigit c \<Longrightarrow> ord c - 48 \<le> 9"
  unfolding isdigit_def by arith

lemma decimal_value_less:
  "list_all isdigit s \<Longrightarrow> decimal_value s < 10 ^ length s"
proof (induction s)
  case (Cons c s)
  then have "ord c - 48 \<le> 9" by (simp add: isdigit_value)
  then have "(ord c - 48) * 10 ^ length s \<le> 9 * 10 ^ length s" by (rule mult_right_mono) simp
  moreover have "decimal_value s < 10 ^ length s" using Cons by simp
  ultimately show ?case unfolding decimal_value_Cons length_Cons power_Suc by linarith
qed simp

lemma ParseComponent_bounds:
  assumes "ParseComponent s = Inr n"
  shows "0 \<le> n" and "n < 10 ^ length s" and "n \<le> INT64_MAX"
proof -
  have s: "list_all isdigit s" and n: "n = min INT64_MAX (int (decimal_value s))"
    using assms by (auto simp: ParseComponent_def strtoll_digits_def split: if_splits)
  have "decimal_value s < 10 ^ length s" using s by (rule decimal_value_less)
  then have "int (decimal_value s) < 10 ^ length s" by (metis of_nat_less_iff of_nat_numeral of_nat_power)
  moreover have "n \<le> int (decimal_value s)" using n by simp
  ultimately show "n < 10 ^ length s" by linarith
  show "0 \<le> n" "n \<le> INT64_MAX" using n by (simp_all add: INT64_MAX_def)
qed

lemma FractionLoop_bounds:
  assumes "FractionLoop s digits m = (z, digits', m')" and "0 \<le> m" and "m < 10 ^ min digits 6"
  shows "0 \<le> m' \<and> m' < 10 ^ min digits' 6"
  using assms
proof (induction s digits m rule: FractionLoop.induct)
  case (2 c s digits m)
  show ?case
  proof (cases "isdigit c")
    case True
    have d: "ord c - 48 \<le> 9" using True by (rule isdigit_value)
    show ?thesis
    proof (cases "digits < 6")
      case less: True
      then have "m * 10 + int (ord c - 48) < 10 ^ Suc digits" using "2.prems" d by simp
      with less "2.prems" True show ?thesis by (intro "2.IH" [OF True]) (simp_all add: min_def)
    next
      case False
      then have "min digits 6 = 6" "min (digits + 1) 6 = 6" by simp_all
      with False "2.prems" True show ?thesis by (intro "2.IH" [OF True]) simp_all
    qed
  qed (use "2.prems" in auto)
qed simp

lemma ParseFraction_bounds:
  assumes "ParseFraction s = Inr (z, us)"
  shows "0 \<le> us \<and> us < 1000000"
proof -
  have pad: "0 \<le> FractionPad d m \<and> FractionPad d m < 1000000" if "0 \<le> m" "m < 10 ^ min d 6" for d m
  proof -
    have "m * 10 ^ (6 - d) < 10 ^ min d 6 * 10 ^ (6 - d)" using that by (intro mult_strict_right_mono) simp_all
    also have "\<dots> = 10 ^ 6" by (simp add: power_add [symmetric] min_def)
    finally show ?thesis using that by (simp add: FractionPad_eq)
  qed
  from assms consider "us = 0" | r d m where "FractionLoop r 0 0 = (z, d, m)" "us = FractionPad d m"
    by (auto simp: ParseFraction_def split: list.splits if_splits prod.splits)
  then show ?thesis
  proof cases
    case (2 r d m)
    then show ?thesis using FractionLoop_bounds [OF 2(1)] pad [of m d] by simp
  qed simp
qed

lemma ParseOffset_bounds: "ParseOffset z = Inr offset \<Longrightarrow> \<bar>offset\<bar> \<le> 86340"
  by (auto simp: ParseOffset_def bindE_Inr_iff Let_def dest!: ParseComponent_bounds(1) split: if_splits)

lemma ParseInstant_parts:
  assumes "ParseInstant s = Inr i"
  obtains year month day sod offset where "valid_date year month day" "0 \<le> year" "year \<le> 9999"
    "0 \<le> sod" "sod < 86400" "\<bar>offset\<bar> \<le> 86340"
    "instant_seconds i = DaysFromCivil year month day * 86400 + sod - offset"
    "0 \<le> instant_microseconds i" "instant_microseconds i < 1000000"
proof -
  from assms obtain year month day hour minute second z us offset where
    c: "ParseComponent (take 4 s) = Inr year" "ParseComponent (take 2 (drop 11 s)) = Inr hour"
      "ParseComponent (take 2 (drop 14 s)) = Inr minute" "ParseComponent (take 2 (drop 17 s)) = Inr second"
    and v: "valid_date year month day" "hour \<le> 23" "minute \<le> 59" "second \<le> 59"
    and f: "ParseFraction (drop 19 s) = Inr (z, us)" "ParseOffset z = Inr offset"
    and i: "i = ParsedInstant
      (DaysFromCivil year month day * 86400 + hour * 3600 + minute * 60 + second - offset) us"
    by (auto simp: ParseInstant_def bindE_Inr_iff valid_date_def not_less split: if_splits)
  have "0 \<le> year" "year < 10 ^ length (take 4 s)" using ParseComponent_bounds [OF c(1)] by simp_all
  moreover have "(10 :: int) ^ length (take 4 s) \<le> 10 ^ 4" by (intro power_increasing) simp_all
  ultimately have year: "0 \<le> year" "year \<le> 9999" by simp_all
  have "0 \<le> hour" "0 \<le> minute" "0 \<le> second" using c(2-4) by (simp_all add: ParseComponent_bounds)
  then show ?thesis
    using v year ParseFraction_bounds [OF f(1)] ParseOffset_bounds [OF f(2)]
    by (intro that [of year month day "hour * 3600 + minute * 60 + second" offset]) (simp_all add: i)
qed

lemma DaysFromCivil_range:
  assumes "valid_date year month day" and "0 \<le> year" and "year \<le> 9999"
  shows "- 719528 \<le> DaysFromCivil year month day" and "DaysFromCivil year month day < 2932897"
proof -
  have m: "1 \<le> month" using assms(1) by (simp add: valid_date_def)
  note z = DaysFromCivil_era_days [OF m, of year day]
  note b = march_month_bounds [OF assms(1)]
  have e: "era_days 0 = 0" "era_days (-1) = -366" "era_days 9998 = 3651694" "era_days 9999 = 3652059"
    by (simp_all add: era_days_def)
  show "- 719528 \<le> DaysFromCivil year month day"
    using era_days_mono [of 0 year] era_days_mono [of "-1" "year - 1"] b z assms(2)
    by (cases "month \<le> 2") (simp_all add: e)
  show "DaysFromCivil year month day < 2932897"
    using era_days_mono [of year 9999] era_days_mono [of "year - 1" 9998] b z assms(3)
    by (cases "month \<le> 2") (simp_all add: e)
qed

section \<open>Properties\<close>

text \<open>
  The calendar arithmetic is a bijection between all day numbers and the valid civil dates of
  the proleptic Gregorian calendar: the formatter's conversion always yields a valid date (leap
  years included) whose day number is the given one, and converting a valid date to its day number
  and back gives the date.
\<close>

theorem civil_calendar_bijection:
  "(case CivilFromDays z of (y, m, d) \<Rightarrow> valid_date y m d \<and> DaysFromCivil y m d = z) \<and>
   (valid_date year month day \<longrightarrow> CivilFromDays (DaysFromCivil year month day) = (year, month, day))"
proof -
  obtain y m d where "CivilFromDays z = (y, m, d)" by (cases "CivilFromDays z")
  then show ?thesis using civil_of_days [of z y m d] days_of_civil by simp
qed

theorem civil_calendar_bijection_witness:
  "CivilFromDays (DaysFromCivil 2024 2 29) = (2024, 2, 29) \<and> CivilFromDays 0 = (1970, 1, 1)"
proof -
  have "valid_date 2024 2 29" by (simp add: valid_date_def DaysInMonth_def IsLeapYear_def)
  moreover have "CivilFromDays 0 = (1970, 1, 1)" by code_simp
  ultimately show ?thesis using civil_calendar_bijection [of 0 2024 2 29] by simp
qed

text \<open>
  The canonical instant text is lossless: every instant of the years 0 to 9999, to the
  microsecond, is recovered by parsing the text that the formatter writes for it.
\<close>

theorem instant_roundtrip:
  assumes "representable i"
  shows "ParseInstant (FormatInstant i) = Inr i"
  using assms by (rule ParseInstant_FormatInstant)

theorem instant_roundtrip_witness:
  "ParseInstant (FormatInstant (ParsedInstant 951826554 120000)) = Inr (ParsedInstant 951826554 120000)"
  by (rule instant_roundtrip) (simp add: representable_def)

text \<open>
  What the parser accepts: the microseconds are in range, the instant is at most 86340 seconds
  (the largest zone offset) outside the years 0 to 9999, and re-parsing the normalised text gives
  the same instant unless the zone offset has pushed it out of these years.
\<close>

theorem instant_parse_sound:
  assumes "ParseInstant s = Inr i"
  shows "0 \<le> instant_microseconds i \<and> instant_microseconds i < 1000000 \<and>
    - 62167219200 - 86340 \<le> instant_seconds i \<and> instant_seconds i < 253402300800 + 86340 \<and>
    (- 62167219200 \<le> instant_seconds i \<and> instant_seconds i < 253402300800 \<longrightarrow>
      ParseInstant (FormatInstant i) = Inr i)"
proof -
  from assms obtain year month day sod offset where "valid_date year month day" "0 \<le> year" "year \<le> 9999"
    and sod: "0 \<le> sod" "sod < 86400" "\<bar>offset\<bar> \<le> 86340"
      "instant_seconds i = DaysFromCivil year month day * 86400 + sod - offset"
    and us: "0 \<le> instant_microseconds i" "instant_microseconds i < 1000000"
    by (rule ParseInstant_parts)
  from DaysFromCivil_range [OF this(1-3)] sod
  have "- 62167219200 - 86340 \<le> instant_seconds i" "instant_seconds i < 253402300800 + 86340"
    by (auto simp: abs_le_iff)
  with us show ?thesis by (simp add: ParseInstant_FormatInstant representable_def)
qed

theorem instant_parse_sound_witness:
  "ParseInstant ''2000-02-29T12:15:54.12Z'' = Inr (ParsedInstant 951826554 120000) \<and>
   ParseInstant (FormatInstant (ParsedInstant 951826554 120000)) = Inr (ParsedInstant 951826554 120000)"
proof -
  have "ParseInstant ''2000-02-29T12:15:54.12Z'' = Inr (ParsedInstant 951826554 120000)"
    by code_simp
  from instant_parse_sound [OF this] this show ?thesis by simp
qed

end
