(* ===== verification/Release_Version.thy ===== *)
theory Release_Version
  imports Release_Instant "HOL-Library.Product_Lexorder"
begin

text \<open>
  Version numbers of the release contract: \<open>ParseDesktopVersion\<close>, \<open>ComparePrerelease\<close> and
  \<open>CompareDesktopVersions\<close> of \<^verbatim>\<open>release_contract.cc\<close>. The comparison of two versions of which
  not both carry a build number is shown to implement the precedence order of semantic versions,
  given here as a linear order on keys.
\<close>

section \<open>Parsing\<close>

record DesktopVersion =
  dv_raw :: string
  dv_major :: int
  dv_minor :: int
  dv_patch :: int
  dv_prerelease :: "string list"
  dv_has_build_number :: bool
  dv_build_number :: int

definition Trim :: "string \<Rightarrow> string" where
  "Trim s = rev (dropWhile isspace (rev (dropWhile isspace s)))"

definition all_digits :: "string \<Rightarrow> bool" where
  "all_digits s \<longleftrightarrow> s \<noteq> [] \<and> list_all isdigit s"

text \<open>The part before the first \<^verbatim>\<open>'-'\<close> and the identifiers after it.\<close>

definition SplitPrerelease :: "string \<Rightarrow> string list" where
  "SplitPrerelease core =
     (case find_char CHR ''-'' core of
        None \<Rightarrow> [core]
      | Some separator \<Rightarrow> [take separator core, drop (separator + 1) core])"

definition ParseDesktopVersion :: "string \<Rightarrow> bool \<Rightarrow> int \<Rightarrow> DesktopVersion result" where
  "ParseDesktopVersion s has_build_number build_number =
     (let normalized = Trim s in
      if normalized = [] then Inl (JsonError ''Version must not be empty.'')
      else
        let build_split = Split normalized CHR ''+'' in
        if length build_split > 2 then Inl (JsonError ''Invalid version build metadata.'')
        else
          let prerelease_split = SplitPrerelease (build_split ! 0);
              components = Split (prerelease_split ! 0) CHR ''.''
          in if length components \<noteq> 3 then Inl (JsonError ''Version needs three components.'')
          else
            bindE (ParseComponent (components ! 0)) (\<lambda>major.
            bindE (ParseComponent (components ! 1)) (\<lambda>minor.
            bindE (ParseComponent (components ! 2)) (\<lambda>patch.
              let prerelease = (if length prerelease_split = 2
                                then Split (prerelease_split ! 1) CHR ''.'' else []) in
              if list_ex (\<lambda>item. item = []) prerelease
              then Inl (JsonError ''Empty prerelease identifier.'')
              else
                bindE
                  (if \<not> has_build_number \<and> length build_split = 2 then
                     let first_metadata = hd (Split (build_split ! 1) CHR ''.'') in
                     if all_digits first_metadata then
                       bindE (ParseComponent first_metadata) (\<lambda>b. Inr (True, b))
                     else Inr (has_build_number, build_number)
                   else Inr (has_build_number, build_number))
                  (\<lambda>(has_build, build).
                    if has_build \<and> build < 0 then Inl (JsonError ''Negative build number.'')
                    else Inr \<lparr>dv_raw = normalized, dv_major = major, dv_minor = minor,
                      dv_patch = patch, dv_prerelease = prerelease,
                      dv_has_build_number = has_build, dv_build_number = build\<rparr>)))))"

section \<open>Comparing\<close>

fun ComparePrereleaseLoop :: "string list \<Rightarrow> string list \<Rightarrow> int result" where
  "ComparePrereleaseLoop [] [] = Inr 0"
| "ComparePrereleaseLoop [] (r # rs) = Inr (-1)"
| "ComparePrereleaseLoop (l # ls) [] = Inr 1"
| "ComparePrereleaseLoop (l # ls) (r # rs) =
     (if l = r then ComparePrereleaseLoop ls rs
      else
        let left_numeric = all_digits l; right_numeric = all_digits r in
        if left_numeric \<and> right_numeric then
          bindE (ParseComponent l) (\<lambda>left_value.
          bindE (ParseComponent r) (\<lambda>right_value.
            Inr (if left_value < right_value then -1 else 1)))
        else if left_numeric \<noteq> right_numeric then Inr (if left_numeric then -1 else 1)
        else Inr (if l < r then -1 else 1))"

definition ComparePrerelease :: "string list \<Rightarrow> string list \<Rightarrow> int result" where
  "ComparePrerelease left right =
     (if (left = []) \<noteq> (right = []) then Inr (if left = [] then 1 else -1)
      else ComparePrereleaseLoop left right)"

definition CompareDesktopVersions :: "DesktopVersion \<Rightarrow> DesktopVersion \<Rightarrow> int result" where
  "CompareDesktopVersions left right =
     (if dv_has_build_number left \<and> dv_has_build_number right then
        Inr (if dv_build_number left = dv_build_number right then 0
             else if dv_build_number left < dv_build_number right then -1 else 1)
      else if dv_major left \<noteq> dv_major right then Inr (if dv_major left < dv_major right then -1 else 1)
      else if dv_minor left \<noteq> dv_minor right then Inr (if dv_minor left < dv_minor right then -1 else 1)
      else if dv_patch left \<noteq> dv_patch right then Inr (if dv_patch left < dv_patch right then -1 else 1)
      else ComparePrerelease (dv_prerelease left) (dv_prerelease right))"

section \<open>The abstract order\<close>

text \<open>A prerelease identifier: numbers come before names.\<close>

datatype prerelease_id = Numeric int | Alphanumeric string

instantiation prerelease_id :: linorder
begin

fun less_eq_prerelease_id :: "prerelease_id \<Rightarrow> prerelease_id \<Rightarrow> bool" where
  "less_eq_prerelease_id (Numeric a) (Numeric b) = (a \<le> b)"
| "less_eq_prerelease_id (Numeric a) (Alphanumeric t) = True"
| "less_eq_prerelease_id (Alphanumeric s) (Numeric b) = False"
| "less_eq_prerelease_id (Alphanumeric s) (Alphanumeric t) = (s \<le> t)"

definition less_prerelease_id :: "prerelease_id \<Rightarrow> prerelease_id \<Rightarrow> bool" where
  "less_prerelease_id a b \<longleftrightarrow> a \<le> b \<and> \<not> b \<le> a"

instance
proof
  fix x y z :: prerelease_id
  show "x < y \<longleftrightarrow> x \<le> y \<and> \<not> y \<le> x" by (simp add: less_prerelease_id_def)
  show "x \<le> x" by (cases x) simp_all
  show "x \<le> y \<Longrightarrow> y \<le> z \<Longrightarrow> x \<le> z" by (cases x; cases y; cases z) auto
  show "x \<le> y \<Longrightarrow> y \<le> x \<Longrightarrow> x = y" by (cases x; cases y) auto
  show "x \<le> y \<or> y \<le> x" by (cases x; cases y) auto
qed

end

definition identifier_of :: "string \<Rightarrow> prerelease_id" where
  "identifier_of s = (if all_digits s then Numeric (strtoll_digits s) else Alphanumeric s)"

text \<open>
  Precedence: major, minor, patch, then a release above its prereleases, then the identifiers
  in order.
\<close>

definition version_key :: "DesktopVersion \<Rightarrow> int \<times> int \<times> int \<times> bool \<times> prerelease_id list" where
  "version_key v = (dv_major v, dv_minor v, dv_patch v, dv_prerelease v = [],
     map identifier_of (dv_prerelease v))"

definition order_sign :: "'a::linorder \<Rightarrow> 'a \<Rightarrow> int" where
  "order_sign a b = (if a = b then 0 else if a < b then -1 else 1)"

lemma order_sign_less: "order_sign a b = -1 \<longleftrightarrow> a < b"
  by (auto simp: order_sign_def)

text \<open>Numeric identifiers as semantic versioning asks for them, and in the 64-bit range.\<close>

definition canonical_identifier :: "string \<Rightarrow> bool" where
  "canonical_identifier s \<longleftrightarrow>
     (all_digits s \<longrightarrow> canonical_decimal s \<and> int (decimal_value s) \<le> INT64_MAX)"

lemma identifier_of_inj:
  assumes "canonical_identifier s" and "canonical_identifier t" and "identifier_of s = identifier_of t"
  shows "s = t"
  using assms by (auto simp: identifier_of_def canonical_identifier_def strtoll_digits_def
      split: if_splits intro: canonical_decimal_inj)

lemma less_identifier_simps [simp]:
  "Numeric a < Numeric b \<longleftrightarrow> a < b" "Numeric a < Alphanumeric t"
  "\<not> Alphanumeric s < Numeric b" "Alphanumeric s < Alphanumeric t \<longleftrightarrow> s < t"
  by (auto simp: less_prerelease_id_def)

lemma ParseComponent_all_digits: "all_digits s \<Longrightarrow> ParseComponent s = Inr (strtoll_digits s)"
  by (auto simp: all_digits_def ParseComponent_def)

lemma ComparePrereleaseLoop_total:
  "\<exists>c \<in> {-1, 0, 1}. ComparePrereleaseLoop ls rs = Inr c"
  by (induction ls rs rule: ComparePrereleaseLoop.induct)
    (auto simp: Let_def ParseComponent_all_digits)

lemma ComparePrereleaseLoop_sign:
  assumes "list_all canonical_identifier ls" and "list_all canonical_identifier rs"
  shows "ComparePrereleaseLoop ls rs = Inr (order_sign (map identifier_of ls) (map identifier_of rs))"
  using assms
proof (induction ls rs rule: ComparePrereleaseLoop.induct)
  case (4 l ls r rs)
  show ?case
  proof (cases "l = r")
    case True
    with 4 show ?thesis by (simp add: order_sign_def)
  next
    case False
    then have "identifier_of l \<noteq> identifier_of r" using 4 identifier_of_inj by auto
    then show ?thesis
      using False
      by (auto simp: order_sign_def Let_def ParseComponent_all_digits identifier_of_def)
  qed
qed (simp_all add: order_sign_def)

lemma ComparePrerelease_sign:
  assumes "list_all canonical_identifier ls" and "list_all canonical_identifier rs"
  shows "ComparePrerelease ls rs =
    Inr (order_sign (ls = [], map identifier_of ls) (rs = [], map identifier_of rs))"
  using ComparePrereleaseLoop_sign [OF assms]
  by (auto simp: ComparePrerelease_def order_sign_def)

lemma CompareDesktopVersions_sign:
  assumes "list_all canonical_identifier (dv_prerelease v)" and "list_all canonical_identifier (dv_prerelease w)"
  shows "CompareDesktopVersions v w =
    Inr (if dv_has_build_number v \<and> dv_has_build_number w then order_sign (dv_build_number v) (dv_build_number w)
         else order_sign (version_key v) (version_key w))"
  using ComparePrerelease_sign [OF assms]
  by (auto simp: CompareDesktopVersions_def version_key_def order_sign_def)

lemma CompareDesktopVersions_total: "\<exists>c \<in> {-1, 0, 1}. CompareDesktopVersions l r = Inr c"
  using ComparePrereleaseLoop_total [of "dv_prerelease l" "dv_prerelease r"]
  by (auto simp: CompareDesktopVersions_def ComparePrerelease_def)

lemma CompareDesktopVersions_refl: "CompareDesktopVersions v v = Inr 0"
proof -
  have "ComparePrereleaseLoop ls ls = Inr 0" for ls by (induction ls) simp_all
  then show ?thesis by (simp add: CompareDesktopVersions_def ComparePrerelease_def)
qed

text \<open>Without canonical identifiers the comparison is not antisymmetric: each of two versions is newer than the other.\<close>

lemma leading_zero_newer:
  "ComparePrerelease [''01''] [''1''] = Inr 1" "ComparePrerelease [''1''] [''01''] = Inr 1"
  by code_simp+

section \<open>What a parsed version satisfies\<close>

definition wf_version :: "DesktopVersion \<Rightarrow> bool" where
  "wf_version v \<longleftrightarrow> 0 \<le> dv_major v \<and> dv_major v \<le> INT64_MAX \<and> 0 \<le> dv_minor v \<and>
     dv_minor v \<le> INT64_MAX \<and> 0 \<le> dv_patch v \<and> dv_patch v \<le> INT64_MAX \<and>
     list_all (\<lambda>item. item \<noteq> [] \<and> CHR ''.'' \<notin> set item \<and> CHR ''+'' \<notin> set item) (dv_prerelease v) \<and>
     (dv_has_build_number v \<longrightarrow> 0 \<le> dv_build_number v)"

lemma SplitPrerelease_parts:
  "x \<in> set (SplitPrerelease s) \<Longrightarrow> set x \<subseteq> set s"
  by (auto simp: SplitPrerelease_def dest: in_set_takeD in_set_dropD split: option.splits)

lemma ParseDesktopVersion_wf:
  assumes "ParseDesktopVersion s has b = Inr v"
  shows "wf_version v"
proof -
  let ?split = "Split (Trim s) CHR ''+''"
  let ?pre = "SplitPrerelease (?split ! 0)"
  let ?prerelease = "if length ?pre = 2 then Split (?pre ! 1) CHR ''.'' else []"
  from assms obtain c0 c1 c2 where comps: "ParseComponent c0 = Inr (dv_major v)"
      "ParseComponent c1 = Inr (dv_minor v)" "ParseComponent c2 = Inr (dv_patch v)"
    and build: "dv_has_build_number v \<longrightarrow> 0 \<le> dv_build_number v"
    and pre: "dv_prerelease v = ?prerelease" "\<not> list_ex (\<lambda>item. item = []) ?prerelease"
    by (auto simp: ParseDesktopVersion_def Let_def bindE_Inr_iff simp del: One_nat_def
        split: if_splits)
  note v = build comps [THEN ParseComponent_bounds(1)] comps [THEN ParseComponent_bounds(3)]
  have "?split ! 0 \<in> set ?split" by (intro nth_mem) simp
  then have "CHR ''+'' \<notin> set (?split ! 0)" by (rule Split_no_sep)
  moreover have "set (?pre ! 1) \<subseteq> set (?split ! 0)" if "length ?pre = 2"
    using that by (intro SplitPrerelease_parts nth_mem) simp
  ultimately have "CHR ''.'' \<notin> set item \<and> CHR ''+'' \<notin> set item" if "item \<in> set ?prerelease" for item
    using that Split_no_sep [of item "?pre ! 1" "CHR ''.''"] set_Split [of item "?pre ! 1" "CHR ''.''"]
    by (auto split: if_splits)
  with v pre show ?thesis by (auto simp: wf_version_def list_all_iff list_ex_iff)
qed

section \<open>Properties\<close>

text \<open>
  Version comparison never throws and answers only -1, 0 or 1, and a version compares equal to
  itself: the numeric parsing inside the comparison cannot fail, whatever the identifiers.
\<close>

theorem version_compare_total:
  "(CompareDesktopVersions left right = Inr (-1) \<or> CompareDesktopVersions left right = Inr 0 \<or>
    CompareDesktopVersions left right = Inr 1) \<and> CompareDesktopVersions left left = Inr 0"
  using CompareDesktopVersions_total [of left right] CompareDesktopVersions_refl [of left] by auto

text \<open>
  C36. Refinement: unless both versions carry a build number, the field-by-field comparison is the
  sign of a linear order on precedence keys (major, minor, patch, release above prerelease, numeric
  identifiers below names), for versions whose numeric identifiers are canonical 64-bit decimals;
  when both carry a build number, the build numbers alone decide.
\<close>

theorem version_compare_refines:
  assumes "list_all canonical_identifier (dv_prerelease left)"
    and "list_all canonical_identifier (dv_prerelease right)"
  shows "CompareDesktopVersions left right =
    Inr (if dv_has_build_number left \<and> dv_has_build_number right
         then order_sign (dv_build_number left) (dv_build_number right)
         else order_sign (version_key left) (version_key right))"
  using assms by (rule CompareDesktopVersions_sign)

theorem version_compare_refines_witness:
  "CompareDesktopVersions
     \<lparr>dv_raw = ''1.0.0-rc.9'', dv_major = 1, dv_minor = 0, dv_patch = 0,
      dv_prerelease = [''rc'', ''9''], dv_has_build_number = False, dv_build_number = 0\<rparr>
     \<lparr>dv_raw = ''1.0.0-rc.10'', dv_major = 1, dv_minor = 0, dv_patch = 0,
      dv_prerelease = [''rc'', ''10''], dv_has_build_number = False, dv_build_number = 0\<rparr> = Inr (-1)"
proof -
  let ?v = "\<lambda>r p. \<lparr>dv_raw = r, dv_major = 1, dv_minor = 0, dv_patch = 0,
      dv_prerelease = p, dv_has_build_number = False, dv_build_number = (0 :: int)\<rparr>"
  have canonical: "canonical_identifier ''rc''" "canonical_identifier ''9''" "canonical_identifier ''10''"
    by (simp_all add: canonical_identifier_def canonical_decimal_def all_digits_def isdigit_def
        decimal_value_def INT64_MAX_def)
  have "order_sign (version_key (?v ''1.0.0-rc.9'' [''rc'', ''9'']))
      (version_key (?v ''1.0.0-rc.10'' [''rc'', ''10''])) = -1"
    by (simp add: order_sign_def version_key_def identifier_of_def all_digits_def isdigit_def
        strtoll_digits_def decimal_value_def INT64_MAX_def)
  then show ?thesis
    using version_compare_refines [of "?v ''1.0.0-rc.9'' [''rc'', ''9'']" "?v ''1.0.0-rc.10'' [''rc'', ''10'']"]
      canonical by simp
qed

text \<open>
  C37. Every version the parser accepts is well formed: the three components are in the 64-bit
  range, no prerelease identifier is empty or holds a separator, and a build number, given or read
  from the metadata, is not negative.
\<close>

theorem version_parse_wf:
  assumes "ParseDesktopVersion s has_build build = Inr v"
  shows "wf_version v"
  using assms by (rule ParseDesktopVersion_wf)

theorem version_parse_wf_witness:
  "\<exists>v. ParseDesktopVersion '' 1.2.3-beta.1+45 '' False 0 = Inr v \<and> dv_has_build_number v \<and>
     dv_build_number v = 45 \<and> wf_version v"
proof -
  let ?v = "\<lparr>dv_raw = ''1.2.3-beta.1+45'', dv_major = 1, dv_minor = 2, dv_patch = 3,
      dv_prerelease = [''beta'', ''1''], dv_has_build_number = True, dv_build_number = (45 :: int)\<rparr>"
  have "ParseDesktopVersion '' 1.2.3-beta.1+45 '' False 0 = Inr ?v" by code_simp
  from this version_parse_wf [OF this] show ?thesis by (intro exI [of _ ?v]) simp
qed

text \<open>
  C38. Where the comparison is not transitive. For versions with canonical numeric identifiers, three versions compare strictly in a
  cycle only when exactly two of them carry a build number; and when the first and the last carry one and the middle one does
  not, they compare in a cycle exactly when the precedence keys ascend and the build numbers of the outer two
  descend. A selection that folds the comparison over such items can therefore depend on their order.
\<close>

definition compare_in_cycle :: "DesktopVersion \<Rightarrow> DesktopVersion \<Rightarrow> DesktopVersion \<Rightarrow> bool" where
  "compare_in_cycle a b c \<longleftrightarrow> CompareDesktopVersions a b = Inr (-1) \<and> CompareDesktopVersions b c = Inr (-1) \<and>
     CompareDesktopVersions c a = Inr (-1)"

theorem version_compare_cycle:
  assumes "list_all canonical_identifier (dv_prerelease a)" and "list_all canonical_identifier (dv_prerelease b)"
    and "list_all canonical_identifier (dv_prerelease c)"
  shows "(compare_in_cycle a b c \<longrightarrow> length (filter dv_has_build_number [a, b, c]) = 2) \<and>
    (dv_has_build_number a \<and> \<not> dv_has_build_number b \<and> dv_has_build_number c \<longrightarrow>
      (compare_in_cycle a b c \<longleftrightarrow> version_key a < version_key b \<and> version_key b < version_key c \<and>
        dv_build_number c < dv_build_number a))"
proof -
  have compare: "CompareDesktopVersions v w = Inr (-1) \<longleftrightarrow>
      (if dv_has_build_number v \<and> dv_has_build_number w then dv_build_number v < dv_build_number w
       else version_key v < version_key w)" if "v \<in> {a, b, c}" "w \<in> {a, b, c}" for v w
  proof -
    have "list_all canonical_identifier (dv_prerelease v)" "list_all canonical_identifier (dv_prerelease w)"
      using that assms by auto
    then show ?thesis by (simp add: CompareDesktopVersions_sign order_sign_less)
  qed
  have "compare_in_cycle a b c \<longleftrightarrow>
      (if dv_has_build_number a \<and> dv_has_build_number b then dv_build_number a < dv_build_number b
       else version_key a < version_key b) \<and>
      (if dv_has_build_number b \<and> dv_has_build_number c then dv_build_number b < dv_build_number c
       else version_key b < version_key c) \<and>
      (if dv_has_build_number c \<and> dv_has_build_number a then dv_build_number c < dv_build_number a
       else version_key c < version_key a)"
    by (simp add: compare_in_cycle_def compare)
  then show ?thesis
    by (cases "dv_has_build_number a"; cases "dv_has_build_number b"; cases "dv_has_build_number c")
      (auto dest: less_trans)
qed

theorem version_compare_cycle_witness:
  "\<exists>a b c. ParseDesktopVersion ''1.0.0+5'' False 0 = Inr a \<and> ParseDesktopVersion ''2.0.0'' False 0 = Inr b \<and>
     ParseDesktopVersion ''3.0.0+3'' False 0 = Inr c \<and> compare_in_cycle a b c"
proof -
  let ?v = "\<lambda>r m h n. \<lparr>dv_raw = r, dv_major = m, dv_minor = 0, dv_patch = 0, dv_prerelease = [],
      dv_has_build_number = h, dv_build_number = (n :: int)\<rparr>"
  have parse: "ParseDesktopVersion ''1.0.0+5'' False 0 = Inr (?v ''1.0.0+5'' 1 True 5)"
    "ParseDesktopVersion ''2.0.0'' False 0 = Inr (?v ''2.0.0'' 2 False 0)"
    "ParseDesktopVersion ''3.0.0+3'' False 0 = Inr (?v ''3.0.0+3'' 3 True 3)"
    by code_simp+
  have "compare_in_cycle (?v ''1.0.0+5'' 1 True 5) (?v ''2.0.0'' 2 False 0) (?v ''3.0.0+3'' 3 True 3)"
    using version_compare_cycle [of "?v ''1.0.0+5'' 1 True 5" "?v ''2.0.0'' 2 False 0" "?v ''3.0.0+3'' 3 True 3"]
    by (simp add: version_key_def)
  with parse show ?thesis by blast
qed

end
