(* ===== verification/Release_Contract.thy ===== *)
theory Release_Contract
  imports Json_Codec Release_Version
begin

text \<open>
  The release index and the release descriptor of \<^verbatim>\<open>release_contract.{h,cc}\<close>: the structures, the
  JSON helpers, the normalisation and validation of install metadata and the two parsers. A field
  pair \<open>has_x\<close>, \<open>x\<close> of a structure stays a pair, with the default value the structure gives
  to \<open>x\<close> when it is absent.
\<close>

section \<open>Structures\<close>

record ReleaseRollout =
  rollout_percentage :: int
  rollout_salt :: string

record ReleaseFreshInstall =
  fresh_download_url :: string
  fresh_has_message :: bool
  fresh_message :: string

record ReleaseSupportPolicy =
  policy_minimum_supported_version :: DesktopVersion
  policy_enforced_after :: string

record ReleaseIndexItem =
  item_version :: string
  item_has_build_number :: bool
  item_build_number :: int
  item_platform :: string
  item_channel :: string
  item_mandatory :: bool
  item_release :: string
  item_has_rollout :: bool
  item_rollout :: ReleaseRollout
  item_has_fresh_install :: bool
  item_fresh_install :: ReleaseFreshInstall
  item_raw :: JsonValue

record ReleaseSignature =
  sig_algorithm :: string
  sig_public_key_id :: string
  sig_value :: string

record ReleaseIndex =
  index_schema_version :: int
  index_app_name :: string
  index_items :: "ReleaseIndexItem list"
  index_has_support_policy :: bool
  index_support_policy :: ReleaseSupportPolicy
  index_has_signature :: bool
  index_signature :: ReleaseSignature
  index_raw :: JsonValue

record ReleaseArtifact =
  artifact_kind :: string
  artifact_url :: string
  artifact_sha256 :: string
  artifact_length :: int
  artifact_raw :: JsonValue

record ReleaseDescriptor =
  desc_schema_version :: int
  desc_package_id :: string
  desc_app_name :: string
  desc_version :: string
  desc_has_build_number :: bool
  desc_build_number :: int
  desc_platform :: string
  desc_channel :: string
  desc_artifact :: ReleaseArtifact
  desc_wire_install :: JsonValue
  desc_install :: JsonValue
  desc_has_signature :: bool
  desc_signature :: ReleaseSignature
  desc_minimum_updater_version :: string
  desc_minimum_os :: "(string, string) std_map"
  desc_delta_artifacts :: "JsonValue list"
  desc_generated_at :: string
  desc_raw :: JsonValue

definition no_signature :: ReleaseSignature where
  "no_signature = \<lparr>sig_algorithm = [], sig_public_key_id = [], sig_value = []\<rparr>"

section \<open>Field access\<close>

definition RequiredString :: "JsonValue \<Rightarrow> string \<Rightarrow> string result" where
  "RequiredString v key =
     bindE (json_at v key) (\<lambda>w. bindE (jstring w) (\<lambda>result.
       if result = [] then Inl (JsonError (''Empty JSON string: '' @ key)) else Inr result))"

definition RequiredTrimmedString :: "JsonValue \<Rightarrow> string \<Rightarrow> string result" where
  "RequiredTrimmedString v key =
     bindE (json_at v key) (\<lambda>w. bindE (jstring w) (\<lambda>s.
       if Trim s = [] then Inl (JsonError (''Empty JSON string: '' @ key)) else Inr (Trim s)))"

definition HasScheme :: "string \<Rightarrow> bool" where
  "HasScheme s = (case find_char CHR '':'' s of None \<Rightarrow> False | Some separator \<Rightarrow> separator > 0)"

definition OptionalBoolean :: "JsonValue \<Rightarrow> string \<Rightarrow> bool \<Rightarrow> bool result" where
  "OptionalBoolean v key default_value =
     bindE (json_find v key) (\<lambda>found.
       case found of None \<Rightarrow> Inr default_value | Some w \<Rightarrow> jboolean w)"

definition OptionalStringWithDefault :: "JsonValue \<Rightarrow> string \<Rightarrow> string \<Rightarrow> string result" where
  "OptionalStringWithDefault v key default_value =
     bindE (json_find v key) (\<lambda>found.
       case found of None \<Rightarrow> Inr default_value | Some w \<Rightarrow> jstring w)"

definition OptionalString :: "JsonValue \<Rightarrow> string \<Rightarrow> string result" where
  "OptionalString v key =
     bindE (json_find v key) (\<lambda>found. case found of None \<Rightarrow> Inr [] | Some w \<Rightarrow> jstring w)"

definition OptionalStringArray :: "JsonValue \<Rightarrow> string \<Rightarrow> JsonValue list result" where
  "OptionalStringArray v key =
     bindE (json_find v key) (\<lambda>found.
       case found of
         None \<Rightarrow> Inr []
       | Some w \<Rightarrow> bindE (jarray w) (\<lambda>entries.
           mapE (\<lambda>entry. case entry of
               kString s \<Rightarrow> Inr (kString s)
             | _ \<Rightarrow> Inl (JsonError ''Unsupported string-list entry.'')) entries))"

text \<open>The pattern \<^verbatim>\<open>^[0-9a-f]{64}$\<close>, and its variant with both cases.\<close>

definition sha256_pattern :: "string \<Rightarrow> bool" where
  "sha256_pattern s \<longleftrightarrow> length s = 64 \<and> list_all is_lower_hex s"

definition thumbprint_pattern :: "string \<Rightarrow> bool" where
  "thumbprint_pattern s \<longleftrightarrow> length s = 64 \<and> list_all is_hex s"

section \<open>Paths of an installed executable\<close>

definition SafeSegment :: "string \<Rightarrow> bool" where
  "SafeSegment segment \<longleftrightarrow>
     \<not> (segment = [] \<or> segment = ''.'' \<or> segment = ''..'' \<or> last segment = CHR ''.'' \<or>
        last segment = CHR '' '' \<or>
        find_first_of {CHR ''*'', CHR ''?'', CHR 0x22, CHR ''<'', CHR ''>'', CHR ''|''} segment \<noteq> None)"

lemma find_first_of_less [termination_simp]: "find_first_of cs s = Some n \<Longrightarrow> n < length s"
  by (induction s arbitrary: n) (auto split: if_splits)

function SafeSegmentsLoop :: "string \<Rightarrow> bool" where
  "SafeSegmentsLoop s =
     (if s = [] then True
      else case find_first_of {CHR ''/'', CHR 0x5C} s of
          None \<Rightarrow> SafeSegment s
        | Some end' \<Rightarrow> SafeSegment (take end' s) \<and> SafeSegmentsLoop (drop (Suc end') s))"
  by pat_completeness auto
termination
  by (relation "measure length") (auto dest: find_first_of_less)

declare SafeSegmentsLoop.simps [simp del]

definition IsSafeWindowsExecutableRelativePath :: "string \<Rightarrow> bool" where
  "IsSafeWindowsExecutableRelativePath s =
     (if s = [] \<or> hd s = CHR ''/'' \<or> hd s = CHR 0x5C \<or> find_char CHR '':'' s \<noteq> None then False
      else if \<not> SafeSegmentsLoop s then False
      else if length s < 4 then False
      else map tolower (drop (length s - 4) s) = ''.exe'')"

section \<open>Artifacts\<close>

definition ValidateArtifact :: "ReleaseArtifact \<Rightarrow> unit result" where
  "ValidateArtifact artifact =
     (if artifact_kind artifact \<noteq> ''zip'' \<and> artifact_kind artifact \<noteq> ''dmg'' \<and>
         artifact_kind artifact \<noteq> ''pkgInstaller'' \<and> artifact_kind artifact \<noteq> ''innoInstaller''
      then Inl (JsonError (''Unsupported artifact kind: '' @ artifact_kind artifact))
      else if \<not> HasScheme (artifact_url artifact)
      then Inl (JsonError ''Artifact URL is not absolute.'')
      else if \<not> sha256_pattern (artifact_sha256 artifact)
      then Inl (JsonError ''Invalid artifact SHA-256.'')
      else if artifact_length artifact < 0 then Inl (JsonError ''Invalid artifact length.'')
      else Inr ())"

definition ParseArtifact :: "JsonValue \<Rightarrow> ReleaseArtifact result" where
  "ParseArtifact json =
     bindE (RequiredString json ''kind'') (\<lambda>kind.
     bindE (RequiredString json ''url'') (\<lambda>url.
     bindE (RequiredString json ''sha256'') (\<lambda>sha256.
     bindE (bindE (json_at json ''length'') jinteger) (\<lambda>length.
       let result = \<lparr>artifact_kind = kind, artifact_url = url, artifact_sha256 = sha256,
             artifact_length = length,
             artifact_raw = kObject (emplaced
               [(''kind'', kString kind), (''url'', kString url), (''sha256'', kString sha256),
                (''length'', kInteger length)])\<rparr>
       in bindE (ValidateArtifact result) (\<lambda>_. Inr result)))))"

definition NormalizeDelta :: "JsonValue \<Rightarrow> JsonValue result" where
  "NormalizeDelta delta =
     bindE (RequiredString delta ''fromVersion'') (\<lambda>from_version.
     bindE (RequiredString delta ''kind'') (\<lambda>kind.
     bindE (RequiredString delta ''url'') (\<lambda>url.
     bindE (RequiredString delta ''sha256'') (\<lambda>sha256.
     bindE (bindE (json_at delta ''length'') jinteger) (\<lambda>length.
       if Trim from_version = [] \<or> kind \<noteq> ''bsdiff''
       then Inl (JsonError ''Invalid delta artifact identity.'')
       else if \<not> HasScheme url then Inl (JsonError ''Delta artifact URL is not absolute.'')
       else if \<not> sha256_pattern sha256 then Inl (JsonError ''Invalid delta artifact SHA-256.'')
       else if length < 0 then Inl (JsonError ''Invalid delta artifact length.'')
       else Inr (kObject (emplaced
         [(''fromVersion'', kString from_version), (''kind'', kString kind), (''url'', kString url),
          (''sha256'', kString sha256), (''length'', kInteger length)])))))))"

section \<open>Install metadata\<close>

definition NormalizeInno :: "JsonValue \<Rightarrow> JsonValue result" where
  "NormalizeInno inno =
     bindE (json_find inno ''authenticode'') (\<lambda>raw_authenticode.
     bindE (case raw_authenticode of
         None \<Rightarrow> Inr False
       | Some raw \<Rightarrow> OptionalBoolean raw ''required'' False) (\<lambda>required.
     bindE (case raw_authenticode of
         None \<Rightarrow> Inr []
       | Some raw \<Rightarrow> OptionalStringArray raw ''sha256Thumbprints'') (\<lambda>thumbprints.
     let authenticode = kObject (emplaced
           ([(''required'', kBoolean required)]
            @ (if thumbprints \<noteq> [] then [(''sha256Thumbprints'', kArray thumbprints)] else [])))
     in
     bindE (OptionalStringArray inno ''silentArgs'') (\<lambda>silent_args.
     bindE (OptionalBoolean inno ''inheritInstallDirectory'' True) (\<lambda>inherit.
     bindE (RequiredString inno ''installedExecutableRelativePath'') (\<lambda>executable.
     bindE (RequiredString inno ''installedExecutableSha256'') (\<lambda>executable_sha256.
     bindE (OptionalStringWithDefault inno ''logFileName'' ''desktop_updater_inno_install.log'') (\<lambda>log_file.
     bindE (OptionalBoolean inno ''relaunchAfterInstall'' True) (\<lambda>relaunch.
     bindE (OptionalStringWithDefault inno ''requiresElevation'' []) (\<lambda>elevation.
       Inr (kObject (emplaced
         [(''silentArgs'', kArray silent_args),
          (''inheritInstallDirectory'', kBoolean inherit),
          (''installedExecutableRelativePath'', kString executable),
          (''installedExecutableSha256'', kString executable_sha256),
          (''logFileName'', kString log_file),
          (''relaunchAfterInstall'', kBoolean relaunch),
          (''requiresElevation'', kString elevation),
          (''authenticode'', authenticode)]))))))))))))"

definition NormalizeDmg :: "JsonValue \<Rightarrow> JsonValue result" where
  "NormalizeDmg dmg =
     bindE (RequiredString dmg ''appBundleName'') (\<lambda>name.
     bindE (OptionalBoolean dmg ''verifyPrimarySignature'' True) (\<lambda>verify.
       Inr (kObject (emplaced
         [(''appBundleName'', kString name), (''verifyPrimarySignature'', kBoolean verify)]))))"

definition NormalizePkg :: "JsonValue \<Rightarrow> bool \<Rightarrow> JsonValue result" where
  "NormalizePkg pkg normalize_legacy_pkg_launch_mode =
     bindE (OptionalStringWithDefault pkg ''launchMode'' ''installerApp'') (\<lambda>raw_launch_mode.
     bindE (OptionalStringArray pkg ''expectedPackageIds'') (\<lambda>ids.
     bindE (OptionalBoolean pkg ''relaunchAfterInstall'' False) (\<lambda>relaunch.
       Inr (kObject (emplaced
         [(''launchMode'', kString
             (if normalize_legacy_pkg_launch_mode \<and> raw_launch_mode = ''installerApp''
              then ''privilegedInstallerTool'' else raw_launch_mode)),
          (''expectedPackageIds'', kArray ids),
          (''relaunchAfterInstall'', kBoolean relaunch)])))))"

text \<open>\<^verbatim>\<open>if (const JsonValue* x = install.find(key)) normalized.emplace(key, f(*x));\<close>\<close>

definition optional_section ::
    "JsonValue \<Rightarrow> string \<Rightarrow> (JsonValue \<Rightarrow> JsonValue result) \<Rightarrow> (string \<times> JsonValue) list result" where
  "optional_section install key f =
     bindE (json_find install key) (\<lambda>found.
       case found of None \<Rightarrow> Inr [] | Some v \<Rightarrow> bindE (f v) (\<lambda>m. Inr [(key, m)]))"

definition NormalizeInstall :: "JsonValue \<Rightarrow> bool \<Rightarrow> JsonValue result" where
  "NormalizeInstall install normalize_legacy_pkg_launch_mode =
     bindE (RequiredTrimmedString install ''strategy'') (\<lambda>strategy.
     bindE (optional_section install ''inno'' NormalizeInno) (\<lambda>inno.
     bindE (optional_section install ''macosDmg'' NormalizeDmg) (\<lambda>dmg.
     bindE (optional_section install ''macosPkg''
         (\<lambda>pkg. NormalizePkg pkg normalize_legacy_pkg_launch_mode)) (\<lambda>pkg.
       Inr (kObject (emplaced ([(''strategy'', kString strategy)] @ inno @ dmg @ pkg)))))))"

definition kAllowedArguments :: "string set" where
  "kAllowedArguments = {''/CLOSEAPPLICATIONS'', ''/FORCECLOSEAPPLICATIONS'', ''/NOCANCEL'',
     ''/NORESTART'', ''/SILENT'', ''/SP-'', ''/SUPPRESSMSGBOXES'', ''/VERYSILENT''}"

text \<open>The loop over the fixed arguments, with the set of arguments seen, the count and the flag.\<close>

fun InnoArgumentsLoop :: "JsonValue list \<Rightarrow> string list \<Rightarrow> int \<Rightarrow> bool \<Rightarrow> (int \<times> bool) result" where
  "InnoArgumentsLoop [] unique count no_restart = Inr (count, no_restart)"
| "InnoArgumentsLoop (v # vs) unique count no_restart =
     bindE (jstring v) (\<lambda>argument.
       if argument \<notin> kAllowedArguments \<or> argument \<in> set unique
       then Inl (JsonError ''Invalid Inno fixed argument vector.'')
       else InnoArgumentsLoop vs (argument # unique)
         (if argument = ''/VERYSILENT'' \<or> argument = ''/SILENT'' then count + 1 else count)
         (no_restart \<or> argument = ''/NORESTART''))"

fun ThumbprintsLoop :: "JsonValue list \<Rightarrow> string list \<Rightarrow> unit result" where
  "ThumbprintsLoop [] unique = Inr ()"
| "ThumbprintsLoop (v # vs) unique =
     bindE (jstring v) (\<lambda>thumbprint.
       let normalized = map tolower thumbprint in
       if \<not> thumbprint_pattern thumbprint \<or> normalized \<in> set unique
       then Inl (JsonError ''Invalid or duplicate Authenticode thumbprint.'')
       else ThumbprintsLoop vs (normalized # unique))"

definition ValidateDmg :: "ReleaseDescriptor \<Rightarrow> string \<Rightarrow> unit result" where
  "ValidateDmg descriptor strategy =
     (if desc_platform descriptor \<noteq> ''macos'' \<or> strategy \<noteq> ''wholeBundleReplace''
      then Inl (JsonError ''Invalid DMG install strategy.'')
      else
        bindE (json_at (desc_install descriptor) ''macosDmg'') (\<lambda>metadata.
        bindE (RequiredString metadata ''appBundleName'') (\<lambda>name.
          if length name < 4 \<or> drop (length name - 4) name \<noteq> ''.app'' \<or>
             find_char CHR ''/'' name \<noteq> None
          then Inl (JsonError ''Invalid DMG app bundle name.'')
          else Inr ())))"

definition ValidatePkg :: "ReleaseDescriptor \<Rightarrow> string \<Rightarrow> unit result" where
  "ValidatePkg descriptor strategy =
     (if desc_platform descriptor \<noteq> ''macos'' \<or> strategy \<noteq> ''pkgInstaller'' \<or>
         \<not> desc_has_build_number descriptor
      then Inl (JsonError ''Invalid PKG install strategy.'')
      else
        bindE (json_at (desc_install descriptor) ''macosPkg'') (\<lambda>metadata.
        bindE (RequiredString metadata ''launchMode'') (\<lambda>mode.
          if mode \<noteq> ''privilegedInstallerTool''
          then Inl (JsonError ''Invalid PKG install metadata.'')
          else
            bindE (bindE (json_at metadata ''expectedPackageIds'') jarray) (\<lambda>ids.
              if ids = [] then Inl (JsonError ''Invalid PKG install metadata.'') else Inr ()))))"

definition BadLogFileName :: "string \<Rightarrow> bool" where
  "BadLogFileName log_file \<longleftrightarrow>
     Trim log_file = [] \<or> log_file = ''.'' \<or> log_file = ''..'' \<or>
     find_first_of {CHR 0x5C, CHR ''/'', CHR '':'', CHR ''*'', CHR ''?'', CHR 0x22, CHR ''<'',
       CHR ''>'', CHR ''|''} log_file \<noteq> None \<or>
     last log_file = CHR ''.'' \<or> last log_file = CHR '' ''"

definition ValidateAuthenticode :: "JsonValue \<Rightarrow> unit result" where
  "ValidateAuthenticode metadata =
     bindE (json_find metadata ''authenticode'') (\<lambda>authenticode.
     bindE (case authenticode of None \<Rightarrow> Inr None | Some a \<Rightarrow> json_find a ''required'') (\<lambda>required_value.
     bindE (case required_value of None \<Rightarrow> Inr False | Some r \<Rightarrow> jboolean r) (\<lambda>required.
     bindE (case authenticode of None \<Rightarrow> Inr None | Some a \<Rightarrow> json_find a ''sha256Thumbprints'') (\<lambda>thumbprints.
       if \<not> required then Inl (JsonError ''Protected Inno requires Authenticode thumbprints.'')
       else (case thumbprints of
           None \<Rightarrow> Inl (JsonError ''Protected Inno requires Authenticode thumbprints.'')
         | Some t \<Rightarrow>
             bindE (jarray t) (\<lambda>entries.
               if entries = [] then Inl (JsonError ''Protected Inno requires Authenticode thumbprints.'')
               else ThumbprintsLoop entries []))))))"

definition ValidateInno :: "ReleaseDescriptor \<Rightarrow> string \<Rightarrow> unit result" where
  "ValidateInno descriptor strategy =
     (if desc_platform descriptor \<noteq> ''windows'' \<or> strategy \<noteq> ''innoInstaller''
      then Inl (JsonError ''Invalid Inno install strategy.'')
      else
        bindE (json_at (desc_install descriptor) ''inno'') (\<lambda>metadata.
        bindE (RequiredString metadata ''installedExecutableRelativePath'') (\<lambda>executable.
        bindE (RequiredString metadata ''installedExecutableSha256'') (\<lambda>sha256.
          if \<not> IsSafeWindowsExecutableRelativePath executable \<or> \<not> sha256_pattern sha256
          then Inl (JsonError ''Invalid Inno installed executable identity.'')
          else
            bindE (bindE (json_at metadata ''silentArgs'') jarray) (\<lambda>arguments.
            bindE (InnoArgumentsLoop arguments [] 0 False) (\<lambda>(silent_mode_count, has_no_restart).
            bindE (if silent_mode_count \<noteq> 1 \<or> \<not> has_no_restart then Inr True
                   else bindE (bindE (json_at metadata ''inheritInstallDirectory'') jboolean)
                     (\<lambda>inherit. Inr (\<not> inherit))) (\<lambda>bad_arguments.
              if bad_arguments then Inl (JsonError ''Invalid Inno silent arguments.'')
              else
                bindE (OptionalStringWithDefault metadata ''logFileName''
                    ''desktop_updater_inno_install.log'') (\<lambda>log_file.
                  if BadLogFileName log_file then Inl (JsonError ''Invalid Inno log file name.'')
                  else
                    bindE (OptionalStringWithDefault metadata ''requiresElevation'' []) (\<lambda>elevation.
                      if elevation \<noteq> ''always''
                      then Inl (JsonError ''Inno descriptor does not require protected elevation.'')
                      else ValidateAuthenticode metadata)))))))))"

definition ValidateInstall :: "ReleaseDescriptor \<Rightarrow> unit result" where
  "ValidateInstall descriptor =
     bindE (RequiredString (desc_install descriptor) ''strategy'') (\<lambda>strategy.
       let kind = artifact_kind (desc_artifact descriptor) in
       if strategy = ''pkgInstaller'' \<and> kind \<noteq> ''pkgInstaller''
       then Inl (JsonError ''PKG strategy requires a PKG artifact.'')
       else if strategy = ''innoInstaller'' \<and>
               (desc_platform descriptor \<noteq> ''windows'' \<or> kind \<noteq> ''innoInstaller'')
       then Inl (JsonError ''Inno strategy requires a Windows installer artifact.'')
       else if kind = ''dmg'' then ValidateDmg descriptor strategy
       else if kind = ''pkgInstaller'' then ValidatePkg descriptor strategy
       else if kind = ''innoInstaller'' then ValidateInno descriptor strategy
       else Inr ())"

section \<open>The index\<close>

text \<open>The channel of an item or a descriptor: absent means stable, present but blank is an error.\<close>

definition ParseChannel :: "JsonValue \<Rightarrow> string result" where
  "ParseChannel json =
     bindE (json_find json ''channel'') (\<lambda>found.
     bindE (OptionalString json ''channel'') (\<lambda>channel.
       if Trim channel = [] then
         (if found \<noteq> None then Inl (JsonError ''Empty JSON string: channel'') else Inr ''stable'')
       else Inr (Trim channel)))"

definition ParseRollout :: "JsonValue \<Rightarrow> ReleaseRollout result" where
  "ParseRollout rollout =
     bindE (bindE (json_at rollout ''percentage'') jinteger) (\<lambda>percentage.
     bindE (RequiredString rollout ''salt'') (\<lambda>salt.
       if Trim salt = [] then Inl (JsonError ''Empty JSON string: salt'')
       else if percentage < 0 \<or> percentage > 100 then Inl (JsonError ''Invalid rollout percentage.'')
       else Inr \<lparr>rollout_percentage = percentage, rollout_salt = salt\<rparr>))"

definition ParseFreshInstall :: "JsonValue \<Rightarrow> ReleaseFreshInstall result" where
  "ParseFreshInstall fresh =
     bindE (RequiredString fresh ''downloadUrl'') (\<lambda>url.
       if \<not> HasScheme url then Inl (JsonError ''Fresh install URL not absolute.'')
       else
         bindE (json_find fresh ''message'') (\<lambda>found.
         bindE (OptionalString fresh ''message'') (\<lambda>message.
           Inr \<lparr>fresh_download_url = url, fresh_has_message = (found \<noteq> None),
                fresh_message = message\<rparr>)))"

definition ParseItemBuild :: "JsonValue \<Rightarrow> (bool \<times> int) result" where
  "ParseItemBuild json =
     bindE (json_find json ''buildNumber'') (\<lambda>build0.
     bindE (if build0 = None then json_find json ''shortVersion'' else Inr build0) (\<lambda>build.
       case build of
         None \<Rightarrow> Inr (False, 0)
       | Some b \<Rightarrow> bindE (jinteger b) (\<lambda>n.
           if n < 0 then Inl (JsonError ''Negative index build number.'') else Inr (True, n))))"

definition ParseReleaseIndexItem :: "JsonValue \<Rightarrow> ReleaseIndexItem result" where
  "ParseReleaseIndexItem json =
     bindE (RequiredTrimmedString json ''version'') (\<lambda>version.
     bindE (ParseDesktopVersion version False 0) (\<lambda>_.
     bindE (ParseItemBuild json) (\<lambda>(has_build, build).
     bindE (RequiredTrimmedString json ''platform'') (\<lambda>platform.
     bindE (ParseChannel json) (\<lambda>channel.
     bindE (OptionalBoolean json ''mandatory'' False) (\<lambda>mandatory.
     bindE (RequiredString json ''release'') (\<lambda>release.
       if \<not> HasScheme release then Inl (JsonError ''Index release URL not absolute.'')
       else
         bindE (json_find json ''rollout'') (\<lambda>rollout.
         bindE (case rollout of
             None \<Rightarrow> Inr \<lparr>rollout_percentage = 0, rollout_salt = []\<rparr>
           | Some r \<Rightarrow> ParseRollout r) (\<lambda>rollout_value.
         bindE (json_find json ''freshInstall'') (\<lambda>fresh.
         bindE (case fresh of
             None \<Rightarrow> Inr \<lparr>fresh_download_url = [], fresh_has_message = False, fresh_message = []\<rparr>
           | Some f \<Rightarrow> ParseFreshInstall f) (\<lambda>fresh_value.
           Inr \<lparr>item_version = version, item_has_build_number = has_build,
                item_build_number = build, item_platform = platform, item_channel = channel,
                item_mandatory = mandatory, item_release = release,
                item_has_rollout = (rollout \<noteq> None), item_rollout = rollout_value,
                item_has_fresh_install = (fresh \<noteq> None), item_fresh_install = fresh_value,
                item_raw = json\<rparr>)))))))))))"

definition no_version :: DesktopVersion where
  "no_version = \<lparr>dv_raw = [], dv_major = 0, dv_minor = 0, dv_patch = 0, dv_prerelease = [],
     dv_has_build_number = False, dv_build_number = 0\<rparr>"

definition ParseSupportPolicy :: "JsonValue \<Rightarrow> ReleaseSupportPolicy result" where
  "ParseSupportPolicy policy =
     bindE (RequiredString policy ''minimumSupportedVersion'') (\<lambda>minimum.
     bindE (ParseDesktopVersion minimum False 0) (\<lambda>version.
     bindE (RequiredString policy ''enforcedAfter'') (\<lambda>enforced.
     bindE (ParseInstant enforced) (\<lambda>_.
       Inr \<lparr>policy_minimum_supported_version = version, policy_enforced_after = enforced\<rparr>))))"

definition ParseIndexSignature :: "JsonValue \<Rightarrow> ReleaseSignature result" where
  "ParseIndexSignature signature =
     bindE (bindE (json_at signature ''algorithm'') jstring) (\<lambda>algorithm.
     bindE (bindE (json_at signature ''publicKeyId'') jstring) (\<lambda>key_id.
     bindE (OptionalString signature ''value'') (\<lambda>v.
       Inr \<lparr>sig_algorithm = algorithm, sig_public_key_id = key_id, sig_value = v\<rparr>)))"

definition ParseReleaseIndex :: "string \<Rightarrow> ReleaseIndex result" where
  "ParseReleaseIndex json =
     bindE (ParseJson json) (\<lambda>root.
     bindE (bindE (json_at root ''schemaVersion'') jinteger) (\<lambda>schema.
       if schema \<noteq> 3 then Inl (JsonError ''Index schema must be 3.'')
       else
         bindE (RequiredString root ''appName'') (\<lambda>app_name.
         bindE (bindE (json_at root ''items'') jarray) (\<lambda>raw_items.
         bindE (mapE ParseReleaseIndexItem raw_items) (\<lambda>items.
         bindE (json_find root ''supportPolicy'') (\<lambda>policy.
         bindE (case policy of
             None \<Rightarrow> Inr \<lparr>policy_minimum_supported_version = no_version, policy_enforced_after = []\<rparr>
           | Some p \<Rightarrow> ParseSupportPolicy p) (\<lambda>policy_value.
         bindE (json_find root ''signature'') (\<lambda>signature.
         bindE (case signature of None \<Rightarrow> Inr no_signature | Some s \<Rightarrow> ParseIndexSignature s)
           (\<lambda>signature_value.
           Inr \<lparr>index_schema_version = schema, index_app_name = app_name, index_items = items,
                index_has_support_policy = (policy \<noteq> None), index_support_policy = policy_value,
                index_has_signature = (signature \<noteq> None), index_signature = signature_value,
                index_raw = root\<rparr>)))))))))"

section \<open>The descriptor\<close>

text \<open>The loop over \<^verbatim>\<open>minimumOS\<close>: a later entry overwrites an earlier one of the same name.\<close>

fun MinimumOSLoop ::
    "(string \<times> JsonValue) list \<Rightarrow> (string, string) std_map \<Rightarrow> (string, string) std_map result" where
  "MinimumOSLoop [] minimum_os = Inr minimum_os"
| "MinimumOSLoop ((key, v) # entries) minimum_os =
     bindE (jstring v) (\<lambda>s.
       let platform = Trim key; version = Trim s in
       if platform = [] \<or> version = [] then Inl (JsonError ''Invalid minimum OS entry.'')
       else MinimumOSLoop entries (map_assign platform version minimum_os))"

definition ParseDescriptorSignature :: "JsonValue \<Rightarrow> ReleaseSignature result" where
  "ParseDescriptorSignature signature =
     bindE (RequiredString signature ''algorithm'') (\<lambda>algorithm.
     bindE (RequiredString signature ''publicKeyId'') (\<lambda>key_id.
     bindE (bindE (json_at signature ''value'') jstring) (\<lambda>v.
       Inr \<lparr>sig_algorithm = algorithm, sig_public_key_id = key_id, sig_value = v\<rparr>)))"

definition ParseDescriptorBuild :: "JsonValue \<Rightarrow> (bool \<times> int) result" where
  "ParseDescriptorBuild root =
     bindE (json_find root ''buildNumber'') (\<lambda>build.
       case build of
         None \<Rightarrow> Inr (False, 0)
       | Some b \<Rightarrow> bindE (jinteger b) (\<lambda>n.
           if n < 0 then Inl (JsonError ''Negative descriptor build.'') else Inr (True, n)))"

text \<open>
  The object that \<^verbatim>\<open>raw\<close> holds and, with an empty signature value, the one that is signed:
  the two functions of the code emplace the same members in the same order.
\<close>

definition signature_member :: "ReleaseSignature \<Rightarrow> string \<Rightarrow> JsonValue" where
  "signature_member signature signature_text =
     kObject (emplaced [(''algorithm'', kString (sig_algorithm signature)),
       (''publicKeyId'', kString (sig_public_key_id signature)),
       (''value'', kString signature_text)])"

definition artifact_member :: "ReleaseArtifact \<Rightarrow> JsonValue" where
  "artifact_member artifact = kObject (emplaced
     [(''kind'', kString (artifact_kind artifact)), (''url'', kString (artifact_url artifact)),
      (''sha256'', kString (artifact_sha256 artifact)),
      (''length'', kInteger (artifact_length artifact))])"

definition descriptor_members ::
    "ReleaseDescriptor \<Rightarrow> JsonValue \<Rightarrow> string \<Rightarrow> (string \<times> JsonValue) list" where
  "descriptor_members d artifact signature_text =
     [(''schemaVersion'', kInteger (desc_schema_version d)),
      (''packageId'', kString (desc_package_id d)),
      (''appName'', kString (desc_app_name d)),
      (''version'', kString (desc_version d))]
     @ (if desc_has_build_number d then [(''buildNumber'', kInteger (desc_build_number d))] else [])
     @ [(''platform'', kString (desc_platform d)), (''channel'', kString (desc_channel d)),
        (''artifact'', artifact), (''install'', desc_wire_install d)]
     @ (if desc_has_signature d
        then [(''signature'', signature_member (desc_signature d) signature_text)] else [])
     @ [(''minimumUpdaterVersion'', kString (desc_minimum_updater_version d))]
     @ (if desc_minimum_os d \<noteq> []
        then [(''minimumOS'', kObject (emplaced
               (map (\<lambda>(k, v). (k, kString v)) (desc_minimum_os d))))] else [])
     @ (if desc_delta_artifacts d \<noteq> []
        then [(''deltaArtifacts'', kArray (desc_delta_artifacts d))] else [])
     @ [(''generatedAt'', kString (desc_generated_at d))]"

definition DescriptorOfJson :: "JsonValue \<Rightarrow> ReleaseDescriptor result" where
  "DescriptorOfJson root =
     bindE (bindE (json_at root ''schemaVersion'') jinteger) (\<lambda>schema.
       if schema \<noteq> 3 then Inl (JsonError ''Descriptor schema must be 3.'')
       else
     bindE (RequiredTrimmedString root ''packageId'') (\<lambda>package_id.
     bindE (RequiredString root ''appName'') (\<lambda>app_name.
       if Trim app_name = [] then Inl (JsonError ''Empty JSON string: appName'')
       else
     bindE (RequiredTrimmedString root ''version'') (\<lambda>version.
     bindE (ParseDesktopVersion version False 0) (\<lambda>_.
     bindE (ParseDescriptorBuild root) (\<lambda>(has_build, build).
     bindE (RequiredTrimmedString root ''platform'') (\<lambda>platform.
     bindE (ParseChannel root) (\<lambda>channel.
     bindE (bindE (json_at root ''artifact'') ParseArtifact) (\<lambda>artifact.
     bindE (bindE (json_at root ''install'') (\<lambda>i. NormalizeInstall i False)) (\<lambda>wire_install.
     bindE (bindE (json_at root ''install'') (\<lambda>i. NormalizeInstall i True)) (\<lambda>install.
     bindE (json_find root ''signature'') (\<lambda>signature.
     bindE (case signature of None \<Rightarrow> Inr no_signature | Some s \<Rightarrow> ParseDescriptorSignature s)
       (\<lambda>signature_value.
     bindE (RequiredString root ''minimumUpdaterVersion'') (\<lambda>minimum_updater.
     bindE (ParseDesktopVersion minimum_updater False 0) (\<lambda>_.
     bindE (json_find root ''minimumOS'') (\<lambda>minimum_os.
     bindE (case minimum_os of
         None \<Rightarrow> Inr []
       | Some m \<Rightarrow> bindE (jobject m) (\<lambda>entries. MinimumOSLoop entries [])) (\<lambda>minimum_os_value.
     bindE (json_find root ''deltaArtifacts'') (\<lambda>deltas.
     bindE (case deltas of
         None \<Rightarrow> Inr []
       | Some a \<Rightarrow> bindE (jarray a) (mapE NormalizeDelta)) (\<lambda>delta_values.
     bindE (RequiredString root ''generatedAt'') (\<lambda>generated.
     bindE (ParseInstant generated) (\<lambda>instant.
       let result = \<lparr>desc_schema_version = schema, desc_package_id = package_id,
             desc_app_name = app_name, desc_version = version, desc_has_build_number = has_build,
             desc_build_number = build, desc_platform = platform, desc_channel = channel,
             desc_artifact = artifact, desc_wire_install = wire_install, desc_install = install,
             desc_has_signature = (signature \<noteq> None), desc_signature = signature_value,
             desc_minimum_updater_version = minimum_updater, desc_minimum_os = minimum_os_value,
             desc_delta_artifacts = delta_values, desc_generated_at = FormatInstant instant,
             desc_raw = kNull\<rparr>
       in bindE (ValidateInstall result) (\<lambda>_.
            Inr (result\<lparr>desc_raw := kObject (emplaced (descriptor_members result
              (artifact_raw artifact) (sig_value signature_value)))\<rparr>)))))))))))))))))))))))"

definition ParseReleaseDescriptor :: "string \<Rightarrow> ReleaseDescriptor result" where
  "ParseReleaseDescriptor json = bindE (ParseJson json) DescriptorOfJson"

section \<open>Values built by the parsers are well formed\<close>

lemma OptionalStringArray_strings:
  assumes "OptionalStringArray v key = Inr a"
  shows "\<exists>ss. a = map kString ss"
proof -
  have strings: "\<exists>ss. ys = map kString ss"
    if "list_all2 (\<lambda>x y. (case x of kString s \<Rightarrow> Inr (kString s)
      | _ \<Rightarrow> Inl (JsonError ''Unsupported string-list entry.'')) = Inr y) xs ys" for xs ys
    using that
  proof (induction xs ys)
    case (Cons x xs y ys)
    then obtain ss where "ys = map kString ss" by blast
    moreover obtain s where "y = kString s" using Cons.hyps(1) by (cases x) auto
    ultimately show ?case by (intro exI [of _ "s # ss"]) simp
  qed simp
  from assms show ?thesis
    by (auto simp: OptionalStringArray_def bindE_Inr_iff mapE_Inr_iff dest: strings split: option.splits)
qed

lemma wf_kArray_strings [simp]: "wf_json (kArray (map kString ss))"
  by simp

lemma NormalizeInno_wf: "NormalizeInno v = Inr m \<Longrightarrow> wf_json m"
  by (auto simp: NormalizeInno_def bindE_Inr_iff Let_def intro!: wf_emplaced
      dest!: OptionalStringArray_strings split: option.splits if_splits)

lemma NormalizeDmg_wf: "NormalizeDmg v = Inr m \<Longrightarrow> wf_json m"
  by (auto simp: NormalizeDmg_def bindE_Inr_iff intro!: wf_emplaced)

lemma NormalizePkg_wf: "NormalizePkg v b = Inr m \<Longrightarrow> wf_json m"
  by (auto simp: NormalizePkg_def bindE_Inr_iff intro!: wf_emplaced dest!: OptionalStringArray_strings)

lemma optional_section_wf:
  assumes "optional_section v key f = Inr kvs" and "\<And>v m. f v = Inr m \<Longrightarrow> wf_json m"
  shows "(k, m) \<in> set kvs \<Longrightarrow> wf_json m"
  using assms by (auto simp: optional_section_def bindE_Inr_iff split: option.splits)

lemma NormalizeInstall_wf:
  assumes "NormalizeInstall v b = Inr m"
  shows "wf_json m"
proof -
  from assms obtain s inno dmg pkg where
    "optional_section v ''inno'' NormalizeInno = Inr inno"
    "optional_section v ''macosDmg'' NormalizeDmg = Inr dmg"
    "optional_section v ''macosPkg'' (\<lambda>pkg. NormalizePkg pkg b) = Inr pkg"
    and m: "m = kObject (emplaced ([(''strategy'', kString s)] @ inno @ dmg @ pkg))"
    by (auto simp: NormalizeInstall_def bindE_Inr_iff)
  note sections = optional_section_wf [OF this(1) NormalizeInno_wf]
    optional_section_wf [OF this(2) NormalizeDmg_wf]
    optional_section_wf [OF this(3) NormalizePkg_wf]
  show ?thesis unfolding m by (rule wf_emplaced) (use sections in auto)
qed

lemma NormalizeDelta_wf:
  assumes "NormalizeDelta v = Inr m" and "wf_json v"
  shows "wf_json m"
proof -
  from assms(1) obtain a b c d n where m: "m = kObject (emplaced
         [(''fromVersion'', kString a), (''kind'', kString b), (''url'', kString c),
          (''sha256'', kString d), (''length'', kInteger n)])"
    and "bindE (json_at v ''length'') jinteger = Inr n"
    by (auto simp: NormalizeDelta_def bindE_Inr_iff split: if_splits)
  from integer_field_wf [OF this(2) assms(2)] show ?thesis unfolding m by (intro wf_emplaced) auto
qed

lemma sorted_map_assign: "sorted_keys m \<Longrightarrow> sorted_keys (map_assign k v m)"
proof -
  have fst: "fst ` set (map_assign k v m) = insert k (fst ` set m)" for m :: "('a::linorder \<times> 'b) list" and k v
    by (induction k v m rule: map_assign.induct) auto
  show "sorted_keys m \<Longrightarrow> sorted_keys (map_assign k v m)"
    by (induction k v m rule: map_assign.induct) (auto simp: sorted_keys_Cons fst)
qed

lemma MinimumOSLoop_sorted: "MinimumOSLoop entries m = Inr m' \<Longrightarrow> sorted_keys m \<Longrightarrow> sorted_keys m'"
  by (induction entries m rule: MinimumOSLoop.induct)
    (auto simp: bindE_Inr_iff Let_def sorted_map_assign split: if_splits)

definition wf_descriptor :: "ReleaseDescriptor \<Rightarrow> bool" where
  "wf_descriptor d \<longleftrightarrow> desc_schema_version d = 3 \<and> 0 \<le> desc_build_number d \<and>
     int64 (desc_build_number d) \<and> ValidateArtifact (desc_artifact d) = Inr () \<and>
     int64 (artifact_length (desc_artifact d)) \<and>
     artifact_raw (desc_artifact d) = artifact_member (desc_artifact d) \<and>
     wf_json (desc_wire_install d) \<and> ValidateInstall d = Inr () \<and>
     sorted_keys (desc_minimum_os d) \<and> (\<forall>v \<in> set (desc_delta_artifacts d). wf_json v) \<and>
     desc_package_id d \<noteq> [] \<and> desc_platform d \<noteq> [] \<and> desc_channel d \<noteq> []"

lemma ParseArtifact_wf:
  assumes "ParseArtifact v = Inr a" and "wf_json v"
  shows "ValidateArtifact a = Inr ()" and "int64 (artifact_length a)" and "artifact_raw a = artifact_member a"
proof -
  from assms(1) show "ValidateArtifact a = Inr ()" "artifact_raw a = artifact_member a"
    by (auto simp: ParseArtifact_def bindE_Inr_iff Let_def artifact_member_def)
  from assms(1) have "bindE (json_at v ''length'') jinteger = Inr (artifact_length a)"
    by (auto simp: ParseArtifact_def bindE_Inr_iff Let_def)
  then show "int64 (artifact_length a)" using assms(2) by (rule integer_field_wf)
qed

text \<open>Validation reads the install metadata, the artifact, the platform and the build flag only.\<close>

lemma ValidateInstall_cong:
  assumes "ValidateInstall d = Inr ()" and "desc_install d' = desc_install d"
    and "desc_artifact d' = desc_artifact d" and "desc_platform d' = desc_platform d"
    and "desc_has_build_number d' = desc_has_build_number d"
  shows "ValidateInstall d' = Inr ()"
  using assms by (simp add: ValidateInstall_def ValidateDmg_def ValidatePkg_def ValidateInno_def Let_def
      cong: if_cong)

lemma RequiredTrimmedString_nonempty: "RequiredTrimmedString v key = Inr s \<Longrightarrow> s \<noteq> []"
  by (auto simp: RequiredTrimmedString_def bindE_Inr_iff split: if_splits)

lemma ParseChannel_nonempty: "ParseChannel v = Inr s \<Longrightarrow> s \<noteq> []"
  by (auto simp: ParseChannel_def bindE_Inr_iff split: if_splits)

lemma int64_0: "int64 0"
  by (simp add: int64_defs)

lemma ParseDescriptorBuild_wf:
  "ParseDescriptorBuild root = Inr (h, n) \<Longrightarrow> wf_json root \<Longrightarrow> 0 \<le> n \<and> int64 n"
  by (auto simp: ParseDescriptorBuild_def bindE_Inr_iff int64_0
      dest: json_find_wf jinteger_wf split: option.splits if_splits)

lemma mapE_NormalizeDelta_wf:
  assumes "mapE NormalizeDelta vs = Inr ds" and "\<forall>v \<in> set vs. wf_json v"
  shows "\<forall>d \<in> set ds. wf_json d"
  using assms unfolding mapE_Inr_iff by (induction vs ds) (auto dest: NormalizeDelta_wf)

lemma ParseReleaseDescriptor_steps:
  assumes "ParseReleaseDescriptor json = Inr d"
  obtains root artifact_json install_json where "ParseJson json = Inr root"
    and "bindE (json_at root ''schemaVersion'') jinteger = Inr 3" and "desc_schema_version d = 3"
    and "RequiredTrimmedString root ''packageId'' = Inr (desc_package_id d)"
    and "RequiredTrimmedString root ''platform'' = Inr (desc_platform d)"
    and "ParseChannel root = Inr (desc_channel d)"
    and "ParseDescriptorBuild root = Inr (desc_has_build_number d, desc_build_number d)"
    and "json_at root ''artifact'' = Inr artifact_json" "ParseArtifact artifact_json = Inr (desc_artifact d)"
    and "json_at root ''install'' = Inr install_json"
    and "NormalizeInstall install_json False = Inr (desc_wire_install d)"
    and "NormalizeInstall install_json True = Inr (desc_install d)"
    and "desc_minimum_os d = [] \<or> (\<exists>entries. MinimumOSLoop entries [] = Inr (desc_minimum_os d))"
    and "desc_delta_artifacts d = [] \<or>
      (\<exists>a. json_find root ''deltaArtifacts'' = Inr (Some (kArray a)) \<and>
        mapE NormalizeDelta a = Inr (desc_delta_artifacts d))"
    and "ValidateInstall d = Inr ()"
proof -
  have arr: "jarray a = Inr l \<longleftrightarrow> a = kArray l" for a l by (cases a) (auto simp: jarray_def)
  from assms show ?thesis
    unfolding ParseReleaseDescriptor_def DescriptorOfJson_def Let_def
    by (clarsimp simp: bindE_Inr_iff split: if_splits)
      (rule that, assumption, auto simp: bindE_Inr_iff arr elim: ValidateInstall_cong split: option.splits)
qed

lemma ParseReleaseDescriptor_wf:
  assumes "ParseReleaseDescriptor json = Inr d"
  shows "wf_descriptor d"
  using assms
proof (cases rule: ParseReleaseDescriptor_steps)
  case (1 root artifact_json install_json)
  note steps = 1
  have root: "wf_json root" using steps(1) by (rule ParseJson_wf)
  then have "wf_json artifact_json" using steps(8) json_at_wf by blast
  note artifact = ParseArtifact_wf [OF steps(9) this]
  have "\<forall>v \<in> set (desc_delta_artifacts d). wf_json v"
    using steps(14) root json_find_wf [of root "''deltaArtifacts''"] mapE_NormalizeDelta_wf by fastforce
  moreover have "sorted_keys (desc_minimum_os d)"
    using steps(13) MinimumOSLoop_sorted by fastforce
  ultimately show ?thesis
    using steps artifact ParseDescriptorBuild_wf [OF steps(7) root] NormalizeInstall_wf [OF steps(11)]
    by (simp add: wf_descriptor_def RequiredTrimmedString_nonempty ParseChannel_nonempty)
qed

section \<open>Executable paths, declaratively\<close>

text \<open>Both separators separate.\<close>

definition unify_separator :: "char \<Rightarrow> char" where
  "unify_separator c = (if c = CHR 0x5C then CHR ''/'' else c)"

definition windows_segments :: "string \<Rightarrow> string list" where
  "windows_segments s = Split (map unify_separator s) CHR ''/''"

lemma find_first_of_separator:
  "find_first_of {CHR ''/'', CHR 0x5C} s = find_char CHR ''/'' (map unify_separator s)"
  by (induction s) (auto simp: unify_separator_def)

lemma map_unify_id:
  "find_char CHR ''/'' (map unify_separator s) = Some n \<Longrightarrow> map unify_separator (take n s) = take n s"
  "find_char CHR ''/'' (map unify_separator s) = None \<Longrightarrow> map unify_separator s = s"
proof -
  have id: "unify_separator c = c" if "unify_separator c \<noteq> CHR ''/''" for c
    using that by (auto simp: unify_separator_def split: if_splits)
  show "map unify_separator (take n s) = take n s"
    if "find_char CHR ''/'' (map unify_separator s) = Some n"
    using find_char_SomeD(2) [OF that] by (intro map_idI id) (metis imageI set_map take_map)
  show "map unify_separator s = s" if "find_char CHR ''/'' (map unify_separator s) = None"
    using that by (intro map_idI id) (metis find_char_None_iff imageI set_map)
qed

lemma SafeSegmentsLoop_segments:
  assumes "s \<noteq> []" and "unify_separator (last s) \<noteq> CHR ''/''"
  shows "SafeSegmentsLoop s \<longleftrightarrow> list_all SafeSegment (windows_segments s)"
  using assms
proof (induction s rule: SafeSegmentsLoop.induct)
  case (1 s)
  show ?case
  proof (cases "find_char CHR ''/'' (map unify_separator s)")
    case None
    then show ?thesis
      using 1(2) map_unify_id(2) [OF None]
      by (simp add: SafeSegmentsLoop.simps [of s] find_first_of_separator windows_segments_def
          Split.simps)
  next
    case (Some n)
    have n: "n < length s" "unify_separator (s ! n) = CHR ''/''"
      using Some by (auto simp: find_char_Some_iff)
    then have "Suc n \<noteq> length s" using 1(2,3) by (metis diff_Suc_1 last_conv_nth)
    then have less: "Suc n < length s" using n(1) by simp
    have "SafeSegmentsLoop (drop (Suc n) s) \<longleftrightarrow> list_all SafeSegment (windows_segments (drop (Suc n) s))"
      using Some less 1(2,3) by (intro 1(1)) (simp_all add: find_first_of_separator)
    then show ?thesis
      using 1(2) Some map_unify_id(1) [OF Some]
      by (simp add: SafeSegmentsLoop.simps [of s] find_first_of_separator windows_segments_def
          Split.simps [of "map unify_separator s"] take_map drop_map)
  qed
qed

lemma last_of_exe:
  assumes "\<not> length s < 4" and "map tolower (drop (length s - 4) s) = ''.exe''"
  shows "s \<noteq> []" and "unify_separator (last s) \<noteq> CHR ''/''"
proof -
  show "s \<noteq> []" using assms by auto
  have "tolower (last s) = CHR ''e''"
    using assms last_map [of "drop (length s - 4) s" tolower] by (auto simp: last_drop)
  then show "unify_separator (last s) \<noteq> CHR ''/''"
    by (auto simp: unify_separator_def tolower_def isupper_def split: if_splits)
qed

section \<open>Fixed installer arguments, declaratively\<close>

lemma InnoArgumentsLoop_strings:
  "InnoArgumentsLoop (map kString args) unique n r =
     (if set args \<subseteq> kAllowedArguments \<and> distinct args \<and> set args \<inter> set unique = {}
      then Inr (n + int (length (filter (\<lambda>a. a = ''/VERYSILENT'' \<or> a = ''/SILENT'') args)),
        r \<or> ''/NORESTART'' \<in> set args)
      else Inl (JsonError ''Invalid Inno fixed argument vector.''))"
proof (induction args arbitrary: unique n r)
  case (Cons a args)
  show ?case
  proof (cases "a \<in> kAllowedArguments \<and> a \<notin> set unique")
    case True
    moreover have "set args \<inter> set (a # unique) = {} \<longleftrightarrow> a \<notin> set args \<and> set args \<inter> set unique = {}"
      by auto
    ultimately show ?thesis using Cons by (auto simp: jstring_def)
  qed (auto simp: jstring_def)
qed simp

section \<open>Properties\<close>

text \<open>
  The path of an installed executable is accepted exactly when it names an executable below
  the install directory: it is not rooted, holds no colon (drive or stream), every segment between
  separators of either kind is a plain file name (not empty, not a dot segment, no trailing dot or
  blank, no wildcard or reserved byte), and it ends in the executable suffix.
\<close>

theorem executable_path_exact:
  "IsSafeWindowsExecutableRelativePath s \<longleftrightarrow>
     s \<noteq> [] \<and> hd s \<notin> {CHR ''/'', CHR 0x5C} \<and> CHR '':'' \<notin> set s \<and>
     list_all SafeSegment (windows_segments s) \<and> 4 \<le> length s \<and>
     map tolower (drop (length s - 4) s) = ''.exe''"
proof (cases "4 \<le> length s \<and> map tolower (drop (length s - 4) s) = ''.exe''")
  case True
  then have "SafeSegmentsLoop s \<longleftrightarrow> list_all SafeSegment (windows_segments s)"
    using last_of_exe [of s] by (intro SafeSegmentsLoop_segments) auto
  with True show ?thesis
    by (auto simp: IsSafeWindowsExecutableRelativePath_def find_char_None_iff)
qed (auto simp: IsSafeWindowsExecutableRelativePath_def)

text \<open>
  The fixed argument vector of a silent installer is checked exactly: it is accepted when the
  arguments are all of the allow list and pairwise distinct, and then the loop returns the number of
  silent-mode switches and whether a restart is suppressed; anything else is refused.
\<close>

theorem inno_arguments_exact:
  "InnoArgumentsLoop (map kString args) [] 0 False =
     (if set args \<subseteq> kAllowedArguments \<and> distinct args
      then Inr (int (length (filter (\<lambda>a. a = ''/VERYSILENT'' \<or> a = ''/SILENT'') args)),
        ''/NORESTART'' \<in> set args)
      else Inl (JsonError ''Invalid Inno fixed argument vector.''))"
  by (simp add: InnoArgumentsLoop_strings)

text \<open>
  A descriptor that parses is internally consistent: schema 3, a known artifact kind with an
  absolute address, a lower-case SHA-256 and a length that is not negative; a disk image or a
  package only for macOS, an installer only for Windows, with the installed executable a safe
  relative path; a package always with a build number.
\<close>

theorem descriptor_parse_safe:
  assumes "ParseReleaseDescriptor json = Inr d"
  shows "desc_schema_version d = 3 \<and>
    artifact_kind (desc_artifact d) \<in> {''zip'', ''dmg'', ''pkgInstaller'', ''innoInstaller''} \<and>
    HasScheme (artifact_url (desc_artifact d)) \<and> sha256_pattern (artifact_sha256 (desc_artifact d)) \<and>
    0 \<le> artifact_length (desc_artifact d) \<and> 0 \<le> desc_build_number d \<and>
    (artifact_kind (desc_artifact d) = ''dmg'' \<longrightarrow> desc_platform d = ''macos'') \<and>
    (artifact_kind (desc_artifact d) = ''pkgInstaller'' \<longrightarrow>
       desc_platform d = ''macos'' \<and> desc_has_build_number d) \<and>
    (artifact_kind (desc_artifact d) = ''innoInstaller'' \<longrightarrow>
       desc_platform d = ''windows'' \<and>
       (\<exists>metadata executable. json_at (desc_install d) ''inno'' = Inr metadata \<and>
          RequiredString metadata ''installedExecutableRelativePath'' = Inr executable \<and>
          IsSafeWindowsExecutableRelativePath executable))"
proof -
  have wf: "wf_descriptor d" using assms by (rule ParseReleaseDescriptor_wf)
  then have install: "ValidateInstall d = Inr ()" and artifact: "ValidateArtifact (desc_artifact d) = Inr ()"
    by (simp_all add: wf_descriptor_def)
  let ?kind = "artifact_kind (desc_artifact d)"
  have a: "?kind \<in> {''zip'', ''dmg'', ''pkgInstaller'', ''innoInstaller''}"
    "HasScheme (artifact_url (desc_artifact d))" "sha256_pattern (artifact_sha256 (desc_artifact d))"
    "0 \<le> artifact_length (desc_artifact d)"
    using artifact by (auto simp: ValidateArtifact_def split: if_splits)
  have dmg: "desc_platform d = ''macos''" if "?kind = ''dmg''"
    using install that
    by (auto simp: ValidateInstall_def ValidateDmg_def bindE_Inr_iff Let_def split: if_splits)
  have pkg: "desc_platform d = ''macos'' \<and> desc_has_build_number d" if "?kind = ''pkgInstaller''"
    using install that
    by (auto simp: ValidateInstall_def ValidatePkg_def bindE_Inr_iff Let_def split: if_splits)
  have inno: "desc_platform d = ''windows'' \<and>
       (\<exists>metadata executable. json_at (desc_install d) ''inno'' = Inr metadata \<and>
          RequiredString metadata ''installedExecutableRelativePath'' = Inr executable \<and>
          IsSafeWindowsExecutableRelativePath executable)" if "?kind = ''innoInstaller''"
  proof -
    from install that obtain strategy where "ValidateInno d strategy = Inr ()"
      by (auto simp: ValidateInstall_def bindE_Inr_iff Let_def split: if_splits)
    then show ?thesis unfolding ValidateInno_def by (auto simp: bindE_Inr_iff split: if_splits)
  qed
  show ?thesis using wf a dmg pkg inno by (simp add: wf_descriptor_def)
qed

text \<open>A small descriptor, for the witnesses here and in the theories that build on this one.\<close>

definition sample_descriptor :: "string \<Rightarrow> JsonValue" where
  "sample_descriptor signature = kObject (emplaced
     [(''schemaVersion'', kInteger 3), (''packageId'', kString ''app''), (''appName'', kString ''App''),
      (''version'', kString ''1.2.0''), (''platform'', kString ''linux''), (''channel'', kString ''stable''),
      (''artifact'', kObject (emplaced [(''kind'', kString ''zip''), (''url'', kString ''https://h/a''),
         (''sha256'', kString (replicate 64 CHR ''a'')), (''length'', kInteger 7)])),
      (''install'', kObject (emplaced [(''strategy'', kString ''wholeBundleReplace'')])),
      (''signature'', kObject (emplaced [(''algorithm'', kString ''ed25519''),
         (''publicKeyId'', kString ''k''), (''value'', kString signature)])),
      (''minimumUpdaterVersion'', kString ''1.0.0''),
      (''generatedAt'', kString ''2000-02-29T12:15:54.120Z'')])"

lemma sample_descriptor_wf: "wf_json (sample_descriptor signature)"
  unfolding sample_descriptor_def
  by (intro wf_emplaced) (auto simp: int64_defs intro!: wf_emplaced)

lemma sample_fields:
  "json_at (sample_descriptor signature) ''schemaVersion'' = Inr (kInteger 3)"
  "json_at (sample_descriptor signature) ''artifact'' = Inr (kObject (emplaced [(''kind'', kString ''zip''),
     (''url'', kString ''https://h/a''), (''sha256'', kString (replicate 64 CHR ''a'')),
     (''length'', kInteger 7)]))"
  "json_at (sample_descriptor signature) ''install'' =
     Inr (kObject (emplaced [(''strategy'', kString ''wholeBundleReplace'')]))"
  "RequiredTrimmedString (sample_descriptor signature) ''packageId'' = Inr ''app''"
  "RequiredTrimmedString (sample_descriptor signature) ''version'' = Inr ''1.2.0''"
  "RequiredTrimmedString (sample_descriptor signature) ''platform'' = Inr ''linux''"
  "RequiredString (sample_descriptor signature) ''appName'' = Inr ''App''"
  "RequiredString (sample_descriptor signature) ''minimumUpdaterVersion'' = Inr ''1.0.0''"
  "RequiredString (sample_descriptor signature) ''generatedAt'' = Inr ''2000-02-29T12:15:54.120Z''"
  "ParseDescriptorBuild (sample_descriptor signature) = Inr (False, 0)"
  "ParseChannel (sample_descriptor signature) = Inr ''stable''"
  "json_find (sample_descriptor signature) ''signature'' = Inr (Some (kObject (emplaced
     [(''algorithm'', kString ''ed25519''), (''publicKeyId'', kString ''k''), (''value'', kString signature)])))"
  "json_find (sample_descriptor signature) ''minimumOS'' = Inr None"
  "json_find (sample_descriptor signature) ''deltaArtifacts'' = Inr None"
  by (simp_all add: sample_descriptor_def json_at_def json_find_def jobject_def map_find_emplaced
      RequiredTrimmedString_def RequiredString_def jstring_def Trim_def isspace_def
      ParseDescriptorBuild_def ParseChannel_def OptionalString_def)

lemma sample_parts:
  "\<exists>a. ParseArtifact (kObject (emplaced [(''kind'', kString ''zip''),
     (''url'', kString ''https://h/a''), (''sha256'', kString (replicate 64 CHR ''a'')),
     (''length'', kInteger 7)])) = Inr a \<and> artifact_kind a = ''zip'' \<and>
     artifact_sha256 a = replicate 64 CHR ''a'' \<and> artifact_length a = 7 \<and>
     artifact_raw a = kObject (emplaced [(''kind'', kString ''zip''), (''url'', kString ''https://h/a''),
       (''sha256'', kString (replicate 64 CHR ''a'')), (''length'', kInteger 7)])"
  "NormalizeInstall (kObject (emplaced [(''strategy'', kString ''wholeBundleReplace'')])) b =
     Inr (kObject (emplaced [(''strategy'', kString ''wholeBundleReplace'')]))"
  "\<exists>v. ParseDesktopVersion ''1.2.0'' False 0 = Inr v" "\<exists>v. ParseDesktopVersion ''1.0.0'' False 0 = Inr v"
  "ParseInstant ''2000-02-29T12:15:54.120Z'' = Inr (ParsedInstant 951826554 120000)"
proof -
  show "\<exists>a. ParseArtifact (kObject (emplaced [(''kind'', kString ''zip''),
     (''url'', kString ''https://h/a''), (''sha256'', kString (replicate 64 CHR ''a'')),
     (''length'', kInteger 7)])) = Inr a \<and> artifact_kind a = ''zip'' \<and>
     artifact_sha256 a = replicate 64 CHR ''a'' \<and> artifact_length a = 7 \<and>
     artifact_raw a = kObject (emplaced [(''kind'', kString ''zip''), (''url'', kString ''https://h/a''),
       (''sha256'', kString (replicate 64 CHR ''a'')), (''length'', kInteger 7)])"
    by (simp add: ParseArtifact_def RequiredString_def json_at_def jobject_def map_find_emplaced
        jstring_def jinteger_def ValidateArtifact_def HasScheme_def sha256_pattern_def Let_def
        is_lower_hex_def isdigit_def list_all_iff)
  show "NormalizeInstall (kObject (emplaced [(''strategy'', kString ''wholeBundleReplace'')])) b =
     Inr (kObject (emplaced [(''strategy'', kString ''wholeBundleReplace'')]))"
    by (simp add: NormalizeInstall_def RequiredTrimmedString_def json_at_def json_find_def jobject_def
        map_find_emplaced jstring_def Trim_def isspace_def optional_section_def)
  have "map_sum id dv_raw (ParseDesktopVersion ''1.2.0'' False 0) = Inr ''1.2.0''"
    "map_sum id dv_raw (ParseDesktopVersion ''1.0.0'' False 0) = Inr ''1.0.0''"
    by code_simp+
  then show "\<exists>v. ParseDesktopVersion ''1.2.0'' False 0 = Inr v"
    "\<exists>v. ParseDesktopVersion ''1.0.0'' False 0 = Inr v"
    by (cases "ParseDesktopVersion ''1.2.0'' False 0"; cases "ParseDesktopVersion ''1.0.0'' False 0"; simp)+
  show "ParseInstant ''2000-02-29T12:15:54.120Z'' = Inr (ParsedInstant 951826554 120000)"
    by code_simp
qed

lemma sample_descriptor_parses:
  "\<exists>base. desc_version base = ''1.2.0'' \<and> desc_platform base = ''linux'' \<and>
     desc_package_id base = ''app'' \<and> desc_channel base = ''stable'' \<and>
     \<not> desc_has_build_number base \<and> desc_has_signature base \<and>
     artifact_kind (desc_artifact base) = ''zip'' \<and> desc_minimum_os base = [] \<and>
     artifact_sha256 (desc_artifact base) = replicate 64 CHR ''a'' \<and> artifact_length (desc_artifact base) = 7 \<and>
     desc_minimum_updater_version base = ''1.0.0'' \<and>
     (\<forall>signature. ParseReleaseDescriptor (EncodeCanonicalJson (sample_descriptor signature)) =
        Inr (base\<lparr>desc_signature := \<lparr>sig_algorithm = ''ed25519'', sig_public_key_id = ''k'',
          sig_value = signature\<rparr>, desc_raw := sample_descriptor signature\<rparr>))"
proof -
  obtain a v w where parts: "ParseArtifact (kObject (emplaced [(''kind'', kString ''zip''),
     (''url'', kString ''https://h/a''), (''sha256'', kString (replicate 64 CHR ''a'')),
     (''length'', kInteger 7)])) = Inr a" "artifact_kind a = ''zip''"
    "artifact_sha256 a = replicate 64 CHR ''a''" "artifact_length a = 7"
    "artifact_raw a = kObject (emplaced [(''kind'', kString ''zip''), (''url'', kString ''https://h/a''),
       (''sha256'', kString (replicate 64 CHR ''a'')), (''length'', kInteger 7)])"
    "ParseDesktopVersion ''1.2.0'' False 0 = Inr v" "ParseDesktopVersion ''1.0.0'' False 0 = Inr w"
    using sample_parts(1,3,4) by blast
  have trim: "Trim ''App'' = ''App''" by (simp add: Trim_def isspace_def)
  have strategy: "RequiredString (kObject (emplaced [(''strategy'', kString ''wholeBundleReplace'')]))
      ''strategy'' = Inr ''wholeBundleReplace''"
    by (simp add: RequiredString_def json_at_def jobject_def map_find_emplaced jstring_def)
  have signed: "ParseDescriptorSignature (kObject (emplaced [(''algorithm'', kString ''ed25519''),
     (''publicKeyId'', kString ''k''), (''value'', kString signature)])) =
     Inr \<lparr>sig_algorithm = ''ed25519'', sig_public_key_id = ''k'', sig_value = signature\<rparr>" for signature
    by (simp add: ParseDescriptorSignature_def RequiredString_def json_at_def jobject_def
        map_find_emplaced jstring_def)
  let ?install = "kObject (emplaced [(''strategy'', kString ''wholeBundleReplace'')])"
  let ?base = "\<lparr>desc_schema_version = 3, desc_package_id = ''app'', desc_app_name = ''App'',
     desc_version = ''1.2.0'', desc_has_build_number = False, desc_build_number = 0,
     desc_platform = ''linux'', desc_channel = ''stable'', desc_artifact = a,
     desc_wire_install = ?install, desc_install = ?install, desc_has_signature = True,
     desc_signature = no_signature, desc_minimum_updater_version = ''1.0.0'', desc_minimum_os = [],
     desc_delta_artifacts = [], desc_generated_at = FormatInstant (ParsedInstant 951826554 120000),
     desc_raw = kNull\<rparr>"
  have printed: "FormatInstant (ParsedInstant 951826554 120000) = ''2000-02-29T12:15:54.120Z''" by code_simp
  have raw: "kObject (emplaced (descriptor_members (?base\<lparr>desc_signature := \<lparr>sig_algorithm = ''ed25519'',
      sig_public_key_id = ''k'', sig_value = signature\<rparr>\<rparr>) (artifact_raw a) signature)) = sample_descriptor signature"
    for signature
    by (simp add: descriptor_members_def signature_member_def sample_descriptor_def parts printed)
  have "ParseReleaseDescriptor (EncodeCanonicalJson (sample_descriptor signature)) =
        Inr (?base\<lparr>desc_signature := \<lparr>sig_algorithm = ''ed25519'', sig_public_key_id = ''k'',
          sig_value = signature\<rparr>, desc_raw := sample_descriptor signature\<rparr>)" for signature
    using raw [of signature]
    by (simp add: ParseReleaseDescriptor_def signed ParseJson_Encode [OF sample_descriptor_wf]
        DescriptorOfJson_def sample_fields sample_parts(2,5) parts(1,2,6,7) jinteger_def trim Let_def
        ValidateInstall_def strategy)
  then show ?thesis by (intro exI [of _ ?base]) (simp add: parts(2-4))
qed

theorem descriptor_parse_safe_witness:
  "\<exists>d. ParseReleaseDescriptor (EncodeCanonicalJson (sample_descriptor [])) = Inr d \<and>
     desc_schema_version d = 3 \<and> sha256_pattern (artifact_sha256 (desc_artifact d))"
proof -
  obtain d where d: "ParseReleaseDescriptor (EncodeCanonicalJson (sample_descriptor [])) = Inr d"
    using sample_descriptor_parses by blast
  from descriptor_parse_safe [OF d] d show ?thesis by blast
qed

end
