(* ===== verification/Base64.thy ===== *)
theory Base64
  imports Updater_Prelude
begin

unbundle bit_operations_syntax

text \<open>
  \<open>DecodeBase64\<close> of \<^verbatim>\<open>release_contract.cc\<close>, which turns the text of a signature into its bytes.
  The decoder is strict; against a reference encoder it is shown to be a bijection between the
  accepted texts and the non-empty byte strings, so that a signature has one textual form.
\<close>

type_synonym bytes = "8 word list"

definition alphabet :: string where
  "alphabet = ''ABCDEFGHIJKLMNOPQRSTUVWXYZabcdefghijklmnopqrstuvwxyz0123456789+/''"

section \<open>The decoder\<close>

text \<open>One round of the loop; the 32-bit value stays below \<open>2 ^ 24\<close>.\<close>

definition DecodeGroup :: "bool \<Rightarrow> char \<Rightarrow> char \<Rightarrow> char \<Rightarrow> char \<Rightarrow> bytes result" where
  "DecodeGroup final_group c0 c1 c2 c3 =
     (let pad_two = (c2 = CHR ''=''); pad_three = (c3 = CHR ''='') in
      if (pad_two \<and> \<not> pad_three) \<or> (\<not> final_group \<and> (pad_two \<or> pad_three)) \<or>
         c0 = CHR ''='' \<or> c1 = CHR ''=''
      then Inl (JsonError ''Invalid base64 padding.'')
      else
        case (find_char c0 alphabet, find_char c1 alphabet,
              if pad_two then Some 0 else find_char c2 alphabet,
              if pad_three then Some 0 else find_char c3 alphabet) of
          (Some first, Some second, Some third, Some fourth) \<Rightarrow>
            if (pad_two \<and> second AND 0x0F \<noteq> 0) \<or> (pad_three \<and> \<not> pad_two \<and> third AND 0x03 \<noteq> 0)
            then Inl (JsonError ''Non-canonical base64 padding bits.'')
            else
              let combined = push_bit 18 first OR push_bit 12 second OR push_bit 6 third OR fourth
              in Inr ([of_nat (drop_bit 16 combined AND 0xFF)]
                   @ (if pad_two then [] else [of_nat (drop_bit 8 combined AND 0xFF)])
                   @ (if pad_three then [] else [of_nat (combined AND 0xFF)]))
        | _ \<Rightarrow> Inl (JsonError ''Invalid base64 byte.''))"

text \<open>The last equation is never reached: the length is a multiple of four.\<close>

fun DecodeBase64Loop :: "string \<Rightarrow> bytes result" where
  "DecodeBase64Loop [] = Inr []"
| "DecodeBase64Loop (c0 # c1 # c2 # c3 # rest) =
     bindE (DecodeGroup (rest = []) c0 c1 c2 c3) (\<lambda>group.
     bindE (DecodeBase64Loop rest) (\<lambda>output. Inr (group @ output)))"
| "DecodeBase64Loop s = Inl (OutOfRange ''basic_string'')"

definition DecodeBase64 :: "string \<Rightarrow> bytes result" where
  "DecodeBase64 s =
     (if s = [] \<or> length s mod 4 \<noteq> 0 then Inl (JsonError ''Invalid base64 length.'')
      else DecodeBase64Loop s)"

section \<open>The reference encoder\<close>

definition sextet :: "nat \<Rightarrow> char" where
  "sextet n = alphabet ! (n mod 64)"

fun base64_text :: "bytes \<Rightarrow> string" where
  "base64_text [] = []"
| "base64_text [a] =
     (let k = unat a * 65536
      in [sextet (k div 262144), sextet (k div 4096), CHR ''='', CHR ''=''])"
| "base64_text [a, b] =
     (let k = unat a * 65536 + unat b * 256
      in [sextet (k div 262144), sextet (k div 4096), sextet (k div 64), CHR ''=''])"
| "base64_text (a # b # c # rest) =
     (let k = unat a * 65536 + unat b * 256 + unat c
      in [sextet (k div 262144), sextet (k div 4096), sextet (k div 64), sextet k]
         @ base64_text rest)"

section \<open>One group\<close>

lemma length_alphabet [simp]: "length alphabet = 64"
  by (simp add: alphabet_def)

lemma distinct_alphabet: "distinct alphabet"
  by (simp add: alphabet_def)

lemma pad_not_in_alphabet: "CHR ''='' \<notin> set alphabet"
  by (simp add: alphabet_def)

lemma find_char_alphabet: "find_char c alphabet = Some n \<longleftrightarrow> n < 64 \<and> sextet n = c"
proof
  assume "find_char c alphabet = Some n"
  then show "n < 64 \<and> sextet n = c" by (simp add: find_char_Some_iff sextet_def)
next
  assume n: "n < 64 \<and> sextet n = c"
  then have "c \<notin> set (take n alphabet)"
    using distinct_alphabet
    by (auto simp: sextet_def in_set_conv_nth distinct_conv_nth)
  then show "find_char c alphabet = Some n" using n by (auto simp: find_char_Some_iff sextet_def)
qed

lemma sextet_not_pad [simp]: "sextet n \<noteq> CHR ''=''"
proof -
  have "sextet n \<in> set alphabet" unfolding sextet_def by (intro nth_mem) simp
  then show ?thesis using pad_not_in_alphabet by metis
qed

lemma find_char_sextet [simp]: "find_char (sextet n) alphabet = Some (n mod 64)"
  by (simp add: find_char_alphabet) (simp add: sextet_def)

lemma or_eq_plus:
  assumes "b < 2 ^ n"
  shows "push_bit n a OR b = a * 2 ^ n + (b :: nat)"
proof -
  have "take_bit n b = b" using assms by (simp add: take_bit_nat_eq_self)
  moreover have "push_bit n a AND take_bit n b = 0" by (rule bit_eqI) (auto simp: bit_simps)
  ultimately have "push_bit n a AND b = 0" by simp
  then have "push_bit n a + b = push_bit n a OR b" by (rule disjunctive_add_eq_or)
  then show ?thesis by (simp add: push_bit_eq_mult)
qed

lemma combined_eq:
  assumes "s < 64" "t < 64" "u < (64 :: nat)"
  shows "push_bit 18 f OR push_bit 12 s OR push_bit 6 t OR u = f * 262144 + s * 4096 + t * 64 + u"
proof -
  have u: "push_bit 6 t OR u = t * 64 + u" using or_eq_plus [of u 6 t] assms by simp
  have t: "push_bit 12 s OR (t * 64 + u) = s * 4096 + (t * 64 + u)"
    using or_eq_plus [of "t * 64 + u" 12 s] assms by simp
  have "push_bit 18 f OR (s * 4096 + (t * 64 + u)) = f * 262144 + (s * 4096 + (t * 64 + u))"
    using or_eq_plus [of "s * 4096 + (t * 64 + u)" 18 f] assms by simp
  then show ?thesis by (simp add: u t)
qed

lemma and_masks: "n AND 255 = n mod 256" "n AND 15 = n mod 16" "n AND 3 = n mod (4 :: nat)"
  using take_bit_eq_mask [of 8 n] take_bit_eq_mask [of 4 n] take_bit_eq_mask [of 2 n]
  by (simp_all add: take_bit_eq_mod mask_eq_exp_minus_1)

text \<open>The four digits of a number below \<open>2 ^ 24\<close> in base 64, and its three in base 256.\<close>

lemma base64_digits:
  assumes "f < 64" "s < 64" "t < 64" "u < (64 :: nat)"
  defines "k \<equiv> f * 262144 + s * 4096 + t * 64 + u"
  shows "k div 262144 mod 64 = f" "k div 4096 mod 64 = s" "k div 64 mod 64 = t" "k mod 64 = u"
    "k < 16777216"
proof -
  have "k div 262144 = f" using assms by (intro div_nat_eqI) simp_all
  then show "k div 262144 mod 64 = f" using assms by simp
  have "k div 4096 = f * 64 + s" using assms by (intro div_nat_eqI) simp_all
  then show "k div 4096 mod 64 = s" using assms by simp
  have "k div 64 = (f * 64 + s) * 64 + t" using assms by (intro div_nat_eqI) simp_all
  then show "k div 64 mod 64 = t" using assms by (simp only: mod_mult_self3 mod_less)
  have "k = ((f * 64 + s) * 64 + t) * 64 + u" by (simp add: k_def)
  then show "k mod 64 = u" using assms by (simp only: mod_mult_self3 mod_less)
  show "k < 16777216" using assms by simp
qed

lemma base256_digits:
  assumes "k < (16777216 :: nat)"
  shows "k div 65536 mod 256 * 65536 + k div 256 mod 256 * 256 + k mod 256 = k"
    and "k mod 256 = 0 \<Longrightarrow> k div 65536 mod 256 * 65536 + k div 256 mod 256 * 256 = k"
    and "k mod 65536 = 0 \<Longrightarrow> k div 65536 mod 256 * 65536 = k"
proof -
  have "k div 65536 < 256" using assms by simp
  then have a: "k div 65536 mod 256 = k div 65536" by simp
  have b: "k div 65536 * 256 + k div 256 mod 256 = k div 256"
    using div_mult_mod_eq [of "k div 256" 256] by (simp add: div_mult2_eq [symmetric])
  have c: "k div 256 * 256 + k mod 256 = k" by (rule div_mult_mod_eq)
  show "k div 65536 mod 256 * 65536 + k div 256 mod 256 * 256 + k mod 256 = k"
    using a b c by linarith
  then show "k mod 256 = 0 \<Longrightarrow> k div 65536 mod 256 * 65536 + k div 256 mod 256 * 256 = k" by linarith
  show "k mod 65536 = 0 \<Longrightarrow> k div 65536 mod 256 * 65536 = k"
    using div_mult_mod_eq [of k 65536] a by simp
qed

lemma unat_of_byte [simp]: "unat (of_nat (n mod 256) :: 8 word) = n mod 256"
  by (simp add: unat_of_nat)

lemma DecodeGroup_text:
  assumes "DecodeGroup final c0 c1 c2 c3 = Inr g"
  shows "base64_text g = [c0, c1, c2, c3]" and "g \<noteq> []" and "\<not> final \<Longrightarrow> length g = 3" and "length g \<le> 3"
proof -
  let ?p2 = "c2 = CHR ''=''" and ?p3 = "c3 = CHR ''=''"
  from assms obtain f s t u where
    idx: "find_char c0 alphabet = Some f" "find_char c1 alphabet = Some s"
      "(if ?p2 then Some 0 else find_char c2 alphabet) = Some t"
      "(if ?p3 then Some 0 else find_char c3 alphabet) = Some u"
    and pads: "?p2 \<longrightarrow> ?p3" "?p3 \<longrightarrow> final"
    and bits: "?p2 \<longrightarrow> s mod 16 = 0" "?p3 \<and> \<not> ?p2 \<longrightarrow> t mod 4 = 0"
    and g: "g = (let k = push_bit 18 f OR push_bit 12 s OR push_bit 6 t OR u
       in [of_nat (drop_bit 16 k AND 0xFF)] @ (if ?p2 then [] else [of_nat (drop_bit 8 k AND 0xFF)])
         @ (if ?p3 then [] else [of_nat (k AND 0xFF)]))"
    by (auto simp: DecodeGroup_def Let_def and_masks split: option.splits if_splits)
  have multiple: "\<exists>q. m = d * q" if "m mod d = 0" for m d :: nat
    using that by (auto simp: mod_eq_0_iff_dvd)
  have lt: "f < 64" "s < 64" "t < 64" "u < 64"
    using idx by (auto simp: find_char_alphabet split: if_splits)
  define k where "k = f * 262144 + s * 4096 + t * 64 + u"
  note digits = base64_digits [OF lt, folded k_def]
  have c: "c0 = sextet (k div 262144)" "c1 = sextet (k div 4096)"
    "\<not> ?p2 \<longrightarrow> c2 = sextet (k div 64)" "\<not> ?p3 \<longrightarrow> c3 = sextet k"
    using idx lt digits by (auto simp: find_char_alphabet sextet_def split: if_splits)
  have g': "g = [of_nat (k div 65536 mod 256)] @ (if ?p2 then [] else [of_nat (k div 256 mod 256)])
         @ (if ?p3 then [] else [of_nat (k mod 256)])"
    using g lt by (simp add: combined_eq Let_def k_def and_masks drop_bit_eq_div)
  have k2: "k mod 65536 = 0" if two: ?p2
  proof -
    obtain q where "s = 16 * q" using bits(1) two multiple by blast
    with two pads idx(3,4) have "k = 65536 * (4 * f + q)" by (simp add: k_def)
    then show ?thesis by simp
  qed
  have k3: "k mod 256 = 0" if three: ?p3 "\<not> ?p2"
  proof -
    obtain q where "t = 4 * q" using bits(2) three multiple by blast
    with three idx(4) have "k = 256 * (1024 * f + 16 * s + q)" by (simp add: k_def)
    then show ?thesis by simp
  qed
  note sums = base256_digits [OF digits(5)]
  consider "?p2" "?p3" | "\<not> ?p2" "?p3" | "\<not> ?p2" "\<not> ?p3" using pads(1) by blast
  then show "base64_text g = [c0, c1, c2, c3]"
  proof cases
    case 1
    with c show ?thesis
      unfolding g' by (simp only: if_True append.simps base64_text.simps unat_of_byte sums(3) [OF k2]
          Let_def simp_thms)
  next
    case 2
    with c show ?thesis
      unfolding g' by (simp only: if_True if_False append.simps base64_text.simps unat_of_byte
          sums(2) [OF k3] Let_def simp_thms)
  next
    case 3
    with c show ?thesis
      unfolding g' by (simp only: if_False append.simps base64_text.simps unat_of_byte
          sums(1) Let_def simp_thms)
  qed
  show "g \<noteq> []" "\<not> final \<Longrightarrow> length g = 3" "length g \<le> 3" using pads by (auto simp: g')
qed

lemma DecodeGroup_values:
  assumes "f < 64" "s < 64" "t < 64" "u < (64 :: nat)" and k: "k = f * 262144 + s * 4096 + t * 64 + u"
  shows "DecodeGroup final (sextet f) (sextet s) (sextet t) (sextet u) =
      Inr [of_nat (k div 65536 mod 256), of_nat (k div 256 mod 256), of_nat (k mod 256)]"
    and "u = 0 \<Longrightarrow> t mod 4 = 0 \<Longrightarrow> DecodeGroup True (sextet f) (sextet s) (sextet t) CHR ''='' =
      Inr [of_nat (k div 65536 mod 256), of_nat (k div 256 mod 256)]"
    and "u = 0 \<Longrightarrow> t = 0 \<Longrightarrow> s mod 16 = 0 \<Longrightarrow>
      DecodeGroup True (sextet f) (sextet s) CHR ''='' CHR ''='' = Inr [of_nat (k div 65536 mod 256)]"
  unfolding DecodeGroup_def Let_def
  using combined_eq [OF assms(2-4), of f, folded k] assms(1-4)
  by (simp_all add: and_masks drop_bit_eq_div)

lemma base64_sum:
  assumes "k < (16777216 :: nat)"
  shows "k = k div 262144 mod 64 * 262144 + k div 4096 mod 64 * 4096 + k div 64 mod 64 * 64 + k mod 64"
proof -
  have "k div 262144 * 64 + k div 4096 mod 64 = k div 4096"
    using div_mult_mod_eq [of "k div 4096" 64] by (simp add: div_mult2_eq [symmetric])
  moreover have "k div 4096 * 64 + k div 64 mod 64 = k div 64"
    using div_mult_mod_eq [of "k div 64" 64] by (simp add: div_mult2_eq [symmetric])
  moreover have "k div 64 * 64 + k mod 64 = k" by (rule div_mult_mod_eq)
  moreover have "k div 262144 mod 64 = k div 262144" using assms by simp
  ultimately show ?thesis by linarith
qed

lemma sextet_mod [simp]: "sextet (n mod 64) = sextet n"
  by (simp add: sextet_def)

lemma DecodeGroup_sextets:
  assumes "k < 16777216"
  shows "DecodeGroup final (sextet (k div 262144)) (sextet (k div 4096)) (sextet (k div 64)) (sextet k) =
      Inr [of_nat (k div 65536 mod 256), of_nat (k div 256 mod 256), of_nat (k mod 256)]"
    and "k = 256 * q \<Longrightarrow>
      DecodeGroup True (sextet (k div 262144)) (sextet (k div 4096)) (sextet (k div 64)) CHR ''='' =
      Inr [of_nat (k div 65536 mod 256), of_nat (k div 256 mod 256)]"
    and "k = 65536 * q \<Longrightarrow>
      DecodeGroup True (sextet (k div 262144)) (sextet (k div 4096)) CHR ''='' CHR ''='' =
      Inr [of_nat (k div 65536 mod 256)]"
proof -
  note group = DecodeGroup_values [OF _ _ _ _ base64_sum [OF assms], unfolded sextet_mod]
  show "DecodeGroup final (sextet (k div 262144)) (sextet (k div 4096)) (sextet (k div 64)) (sextet k) =
      Inr [of_nat (k div 65536 mod 256), of_nat (k div 256 mod 256), of_nat (k mod 256)]"
    by (rule group(1)) simp_all
  have "(256 * q) mod 64 = 0" "(256 * q) div 64 mod 64 mod 4 = 0"
    "(65536 * q) mod 64 = 0" "(65536 * q) div 64 mod 64 = 0" "(65536 * q) div 4096 mod 64 mod 16 = 0"
    by (simp_all add: mod_mod_cancel mod_eq_0_iff_dvd dvd_mult2)
  note zeros = this
  show "DecodeGroup True (sextet (k div 262144)) (sextet (k div 4096)) (sextet (k div 64)) CHR ''='' =
      Inr [of_nat (k div 65536 mod 256), of_nat (k div 256 mod 256)]" if k: "k = 256 * q"
    by (rule group(2)) (use zeros in \<open>simp_all only: k mod_less_divisor zero_less_numeral\<close>)
  show "DecodeGroup True (sextet (k div 262144)) (sextet (k div 4096)) CHR ''='' CHR ''='' =
      Inr [of_nat (k div 65536 mod 256)]" if k: "k = 65536 * q"
    by (rule group(3)) (use zeros in \<open>simp_all only: k mod_less_divisor zero_less_numeral\<close>)
qed

section \<open>The whole text\<close>

lemma DecodeBase64Loop_text:
  "DecodeBase64Loop s = Inr bs \<Longrightarrow> base64_text bs = s"
proof (induction s arbitrary: bs rule: DecodeBase64Loop.induct)
  case (2 c0 c1 c2 c3 rest)
  then obtain g out where g: "DecodeGroup (rest = []) c0 c1 c2 c3 = Inr g"
    and out: "DecodeBase64Loop rest = Inr out" and bs: "bs = g @ out"
    by (auto simp: bindE_Inr_iff)
  have rest: "base64_text out = rest" using "2.IH" [OF g] out by simp
  note group = DecodeGroup_text [OF g]
  show ?case
  proof (cases "rest = []")
    case True
    with out group(1) show ?thesis by (simp add: bs)
  next
    case False
    with group(3) obtain a b c where "g = [a, b, c]"
      by (metis (no_types, opaque_lifting) length_0_conv length_Suc_conv numeral_3_eq_3)
    with rest group(1) show ?thesis by (simp add: bs Let_def)
  qed
qed simp_all

lemma unat_byte_sums:
  fixes a b c :: "8 word"
  shows "unat a * 65536 + unat b * 256 + unat c < 16777216"
    and "(unat a * 65536 + unat b * 256 + unat c) div 65536 mod 256 = unat a"
    and "(unat a * 65536 + unat b * 256 + unat c) div 256 mod 256 = unat b"
    and "(unat a * 65536 + unat b * 256 + unat c) mod 256 = unat c"
proof -
  have lt: "unat a < 256" "unat b < 256" "unat c < 256"
    using unsigned_less [of a, where ?'a = nat] unsigned_less [of b, where ?'a = nat]
      unsigned_less [of c, where ?'a = nat] by simp_all
  then show "unat a * 65536 + unat b * 256 + unat c < 16777216" by simp
  have "(unat a * 65536 + unat b * 256 + unat c) div 65536 = unat a"
    using lt by (intro div_nat_eqI) simp_all
  then show "(unat a * 65536 + unat b * 256 + unat c) div 65536 mod 256 = unat a" using lt by simp
  have "(unat a * 65536 + unat b * 256 + unat c) div 256 = unat a * 256 + unat b"
    using lt by (intro div_nat_eqI) simp_all
  then show "(unat a * 65536 + unat b * 256 + unat c) div 256 mod 256 = unat b" using lt by simp
  have "unat a * 65536 + unat b * 256 + unat c = (unat a * 256 + unat b) * 256 + unat c" by simp
  then show "(unat a * 65536 + unat b * 256 + unat c) mod 256 = unat c"
    using lt by (simp only: mod_mult_self3 mod_less)
qed

lemma DecodeBase64Loop_base64_text: "DecodeBase64Loop (base64_text bs) = Inr bs"
proof (induction bs rule: base64_text.induct)
  case (2 a)
  note k = unat_byte_sums [of a 0 0, unfolded unsigned_0 mult_zero_left add_0_right]
  show ?case
    using DecodeGroup_sextets(3) [OF k(1), of "unat a"] k(2) by (simp add: Let_def)
next
  case (3 a b)
  note k = unat_byte_sums [of a b 0, unfolded unsigned_0 mult_zero_left add_0_right]
  show ?case
    using DecodeGroup_sextets(2) [OF k(1), of "unat a * 256 + unat b"] k(2,3) by (simp add: Let_def)
next
  case (4 a b c rest)
  note k = unat_byte_sums [of a b c]
  show ?case using DecodeGroup_sextets(1) [OF k(1)] k(2-4) 4 by (simp add: Let_def)
qed simp

lemma length_base64_text: "length (base64_text bs) mod 4 = 0"
  by (induction bs rule: base64_text.induct) (simp_all add: Let_def mod_Suc)

lemma base64_text_Nil_iff [simp]: "base64_text bs = [] \<longleftrightarrow> bs = []"
  by (cases bs rule: base64_text.cases) (simp_all add: Let_def)

lemma DecodeBase64_iff: "DecodeBase64 s = Inr bs \<longleftrightarrow> bs \<noteq> [] \<and> s = base64_text bs"
  using DecodeBase64Loop_text [of s bs]
  by (auto simp: DecodeBase64_def length_base64_text DecodeBase64Loop_base64_text
      eq_commute [of "[]"] split: if_splits)

section \<open>Properties\<close>

text \<open>
  C39. The base64 decoder is a bijection: it accepts a text with a given result exactly when the
  result is a non-empty byte string and the text is its canonical encoding. In particular two
  texts that decode to the same bytes are equal, so a signature cannot be re-spelled.
\<close>

theorem base64_decode_exact:
  "DecodeBase64 s = Inr bs \<longleftrightarrow> bs \<noteq> [] \<and> s = base64_text bs"
  by (rule DecodeBase64_iff)

text \<open>
  Every other text is refused with a base64 error: the decoder never runs past the end of its
  input, so the error is one of length, padding, alphabet or padding bits.
\<close>

theorem base64_decode_errors:
  assumes "DecodeBase64 s = Inl e"
  shows "e \<in> {JsonError ''Invalid base64 length.'', JsonError ''Invalid base64 padding.'',
    JsonError ''Invalid base64 byte.'', JsonError ''Non-canonical base64 padding bits.''}"
proof -
  have group: "e' \<in> {JsonError ''Invalid base64 padding.'', JsonError ''Invalid base64 byte.'',
      JsonError ''Non-canonical base64 padding bits.''}"
    if "DecodeGroup final c0 c1 c2 c3 = Inl e'" for final c0 c1 c2 c3 e'
    using that by (auto simp: DecodeGroup_def Let_def split: option.splits if_splits)
  have "e' \<in> {JsonError ''Invalid base64 padding.'', JsonError ''Invalid base64 byte.'',
      JsonError ''Non-canonical base64 padding bits.''}"
    if "DecodeBase64Loop t = Inl e'" "length t mod 4 = 0" for t e'
    using that
  proof (induction t rule: DecodeBase64Loop.induct)
    case (2 c0 c1 c2 c3 rest)
    then show ?case using group [of "rest = []" c0 c1 c2 c3 e'] by (auto simp: bindE_Inl_iff)
  qed simp_all
  from this [of s e] assms show ?thesis by (auto simp: DecodeBase64_def split: if_splits)
qed

theorem base64_decode_errors_witness:
  "DecodeBase64 ''QR=='' = Inl (JsonError ''Non-canonical base64 padding bits.'') \<and>
   JsonError ''Non-canonical base64 padding bits.'' \<in>
     {JsonError ''Invalid base64 length.'', JsonError ''Invalid base64 padding.'',
      JsonError ''Invalid base64 byte.'', JsonError ''Non-canonical base64 padding bits.''}"
proof -
  have "DecodeBase64 ''QR=='' = Inl (JsonError ''Non-canonical base64 padding bits.'')"
    by (simp add: DecodeBase64_def DecodeGroup_def alphabet_def Let_def and_masks)
  with base64_decode_errors [OF this] show ?thesis by blast
qed

end
