(* ===== verification/Release_Selection.thy ===== *)
theory Release_Selection
  imports Release_Contract Base64
begin

text \<open>
  Selection of a release from an index, \<open>RolloutIncludes\<close> and \<open>SelectReleaseIndexItem\<close> of
  \<^verbatim>\<open>release_contract.cc\<close>. The SHA-256 provider is the function argument that the code takes: a callback, which may
  throw instead of returning a digest.
\<close>

section \<open>Staged rollouts\<close>

type_synonym Sha256Function = "string \<Rightarrow> bytes result"

text \<open>The bucket loop: \<^verbatim>\<open>value = (value << 8) + digest[index]\<close> on 32 bits.\<close>

definition rollout_bucket :: "bytes \<Rightarrow> 32 word" where
  "rollout_bucket digest = fold (\<lambda>byte v. push_bit 8 v + ucast byte) (take 4 digest) 0"

definition RolloutIncludes :: "ReleaseIndexItem \<Rightarrow> string \<Rightarrow> Sha256Function \<Rightarrow> bool result" where
  "RolloutIncludes item identity sha256 =
     (if \<not> item_has_rollout item then Inr True
      else if rollout_percentage (item_rollout item) = 100 then Inr True
      else
        let normalized_identity = Trim identity in
        if rollout_percentage (item_rollout item) \<le> 0 \<or> normalized_identity = [] then Inr False
        else
          bindE (sha256 (rollout_salt (item_rollout item) @ [CHR 0x0A] @ item_channel item
                @ [CHR 0x0A] @ normalized_identity)) (\<lambda>digest.
            if length digest \<noteq> 32 then Inl (JsonError ''SHA-256 provider returned bad size.'')
            else Inr (rollout_bucket digest mod 100 < word_of_int (rollout_percentage (item_rollout item)))))"

section \<open>Selection\<close>

text \<open>The version of an item: its own build number counts when it is positive.\<close>

definition ItemVersion :: "ReleaseIndexItem \<Rightarrow> DesktopVersion result" where
  "ItemVersion item =
     ParseDesktopVersion (item_version item)
       (item_has_build_number item \<and> item_build_number item > 0) (item_build_number item)"

fun SelectLoop ::
    "string \<Rightarrow> string \<Rightarrow> DesktopVersion \<Rightarrow> string \<Rightarrow> Sha256Function \<Rightarrow> ReleaseIndexItem list \<Rightarrow>
     ReleaseIndexItem option \<Rightarrow> ReleaseIndexItem option result" where
  "SelectLoop platform channel current identity sha256 [] selected = Inr selected"
| "SelectLoop platform channel current identity sha256 (item # items) selected =
     (if item_platform item \<noteq> platform \<or> item_channel item \<noteq> channel
      then SelectLoop platform channel current identity sha256 items selected
      else bindE (RolloutIncludes item identity sha256) (\<lambda>included.
        if \<not> included then SelectLoop platform channel current identity sha256 items selected
        else
          bindE (ItemVersion item) (\<lambda>candidate.
          bindE (CompareDesktopVersions candidate current) (\<lambda>c.
            if c \<le> 0 then SelectLoop platform channel current identity sha256 items selected
            else
              bindE (case selected of
                  None \<Rightarrow> Inr True
                | Some s \<Rightarrow> bindE (ItemVersion s) (\<lambda>v.
                    bindE (CompareDesktopVersions candidate v) (\<lambda>d. Inr (d > 0)))) (\<lambda>better.
                SelectLoop platform channel current identity sha256 items
                  (if better then Some item else selected))))))"

definition SelectReleaseIndexItem ::
    "ReleaseIndex \<Rightarrow> string \<Rightarrow> string \<Rightarrow> DesktopVersion \<Rightarrow> string \<Rightarrow> Sha256Function \<Rightarrow>
     ReleaseIndexItem option result" where
  "SelectReleaseIndexItem index platform channel current_version installation_identity sha256 =
     SelectLoop platform channel current_version installation_identity sha256 (index_items index) None"

section \<open>What a selection satisfies\<close>

definition eligible :: "string \<Rightarrow> string \<Rightarrow> string \<Rightarrow> Sha256Function \<Rightarrow> ReleaseIndexItem \<Rightarrow> bool" where
  "eligible platform channel identity sha256 item \<longleftrightarrow> item_platform item = platform \<and>
     item_channel item = channel \<and> RolloutIncludes item identity sha256 = Inr True"

definition newer_than :: "DesktopVersion \<Rightarrow> ReleaseIndexItem \<Rightarrow> bool" where
  "newer_than current item =
     (case ItemVersion item of Inl _ \<Rightarrow> False | Inr v \<Rightarrow> CompareDesktopVersions v current = Inr 1)"

lemma compare_le_0: "CompareDesktopVersions v w = Inr c \<Longrightarrow> (c \<le> 0) = (CompareDesktopVersions v w \<noteq> Inr 1)"
  using CompareDesktopVersions_total [of v w] by auto

lemma SelectLoop_sound:
  assumes "SelectLoop platform channel current identity sha256 items selected = Inr (Some item)"
  shows "selected = Some item \<or>
    (item \<in> set items \<and> eligible platform channel identity sha256 item \<and> newer_than current item)"
  using assms
proof (induction items arbitrary: selected)
  case (Cons i items)
  show ?case
  proof (cases "eligible platform channel identity sha256 i \<and> newer_than current i")
    case True
    then obtain v where v: "ItemVersion i = Inr v" "CompareDesktopVersions v current = Inr 1"
      by (auto simp: newer_than_def split: sum.splits)
    with True Cons.prems obtain better where
      "SelectLoop platform channel current identity sha256 items (if better then Some i else selected) =
        Inr (Some item)"
      by (auto simp: eligible_def bindE_Inr_iff)
    from Cons.IH [OF this] True show ?thesis by (auto split: if_splits)
  next
    case False
    then have "SelectLoop platform channel current identity sha256 items selected = Inr (Some item)"
      using Cons.prems
      by (auto simp: eligible_def newer_than_def bindE_Inr_iff compare_le_0 split: if_splits sum.splits)
    from Cons.IH [OF this] show ?thesis by auto
  qed
qed simp

lemma SelectLoop_complete:
  assumes "SelectLoop platform channel current identity sha256 items selected = Inr None"
  shows "selected = None \<and>
    (\<forall>item \<in> set items. \<not> (eligible platform channel identity sha256 item \<and> newer_than current item))"
  using assms
proof (induction items arbitrary: selected)
  case (Cons i items)
  show ?case
  proof (cases "eligible platform channel identity sha256 i \<and> newer_than current i")
    case True
    then obtain v where v: "ItemVersion i = Inr v" "CompareDesktopVersions v current = Inr 1"
      by (auto simp: newer_than_def split: sum.splits)
    with True Cons.prems obtain better where
      b: "SelectLoop platform channel current identity sha256 items (if better then Some i else selected) =
        Inr None" "better \<or> selected \<noteq> None"
      by (auto simp: eligible_def bindE_Inr_iff split: option.splits)
    from Cons.IH [OF b(1)] b(2) have False by (auto split: if_splits)
    then show ?thesis ..
  next
    case False
    then have "SelectLoop platform channel current identity sha256 items selected = Inr None"
      using Cons.prems
      by (auto simp: eligible_def newer_than_def bindE_Inr_iff compare_le_0 split: if_splits sum.splits)
    from Cons.IH [OF this] False show ?thesis by auto
  qed
qed simp

section \<open>Selection cannot fail on a parsed index\<close>

lemma ParseDesktopVersion_build:
  assumes "ParseDesktopVersion s False 0 = Inr v" and "0 \<le> n"
  shows "\<exists>w. ParseDesktopVersion s h n = Inr w"
proof (cases h)
  case True
  with assms show ?thesis
    by (auto simp: ParseDesktopVersion_def Let_def bindE_Inr_iff split: if_splits)
next
  case False
  with assms show ?thesis
    by (auto simp: ParseDesktopVersion_def Let_def bindE_Inr_iff dest: ParseComponent_bounds(1)
        split: if_splits)
qed

lemma ParseReleaseIndexItem_version:
  assumes "ParseReleaseIndexItem json = Inr item"
  shows "\<exists>v. ItemVersion item = Inr v"
proof -
  from assms obtain v where "ParseDesktopVersion (item_version item) False 0 = Inr v"
    and "0 \<le> item_build_number item"
    by (auto simp: ParseReleaseIndexItem_def ParseItemBuild_def bindE_Inr_iff
        split: if_splits option.splits)
  then show ?thesis unfolding ItemVersion_def by (rule ParseDesktopVersion_build)
qed

lemma ParseReleaseIndex_versions:
  assumes "ParseReleaseIndex json = Inr index" and "item \<in> set (index_items index)"
  shows "\<exists>v. ItemVersion item = Inr v"
proof -
  from assms(1) obtain raw where "mapE ParseReleaseIndexItem raw = Inr (index_items index)"
    by (auto simp: ParseReleaseIndex_def bindE_Inr_iff split: if_splits)
  then have "\<exists>j. ParseReleaseIndexItem j = Inr item"
    using assms(2) by (auto simp: mapE_Inr_iff in_set_conv_nth list_all2_conv_all_nth)
  then show ?thesis using ParseReleaseIndexItem_version by blast
qed

text \<open>A provider that returns, with a digest of the right size.\<close>

definition digest_provider :: "Sha256Function \<Rightarrow> bool" where
  "digest_provider sha256 \<longleftrightarrow> (\<forall>s. \<exists>digest. sha256 s = Inr digest \<and> length digest = 32)"

lemma RolloutIncludes_total:
  assumes "digest_provider sha256"
  shows "\<exists>b. RolloutIncludes item identity sha256 = Inr b"
proof -
  obtain digest where "sha256 (rollout_salt (item_rollout item) @ [CHR 0x0A] @ item_channel item
                @ [CHR 0x0A] @ Trim identity) = Inr digest" "length digest = 32"
    using assms unfolding digest_provider_def by blast
  then show ?thesis by (auto simp: RolloutIncludes_def Let_def)
qed

lemma SelectLoop_total:
  assumes sha: "digest_provider sha256"
    and "\<And>item. item \<in> set items \<union> set_option selected \<Longrightarrow> \<exists>v. ItemVersion item = Inr v"
  shows "\<exists>r. SelectLoop platform channel current identity sha256 items selected = Inr r"
  using assms(2)
proof (induction items arbitrary: selected)
  case (Cons i items)
  obtain b where b: "RolloutIncludes i identity sha256 = Inr b" using RolloutIncludes_total [OF sha] by blast
  obtain v where v: "ItemVersion i = Inr v" using Cons.prems by auto
  obtain c where c: "CompareDesktopVersions v current = Inr c" using CompareDesktopVersions_total by blast
  have skip: "\<exists>r. SelectLoop platform channel current identity sha256 items selected = Inr r"
    using Cons.prems by (intro Cons.IH) auto
  have pick: "\<exists>r. SelectLoop platform channel current identity sha256 items (if better then Some i else selected) = Inr r"
    for better using Cons.prems by (intro Cons.IH) (auto split: if_splits)
  have "\<exists>better. (case selected of
                  None \<Rightarrow> Inr True
                | Some s \<Rightarrow> bindE (ItemVersion s) (\<lambda>w.
                    bindE (CompareDesktopVersions v w) (\<lambda>d. Inr (d > 0)))) = Inr better"
  proof (cases selected)
    case (Some s)
    obtain w where "ItemVersion s = Inr w" using Cons.prems [of s] Some by auto
    moreover obtain d where "CompareDesktopVersions v w = Inr d" using CompareDesktopVersions_total by blast
    ultimately show ?thesis by (simp add: Some)
  qed auto
  then obtain better where better: "(case selected of
                  None \<Rightarrow> Inr True
                | Some s \<Rightarrow> bindE (ItemVersion s) (\<lambda>w.
                    bindE (CompareDesktopVersions v w) (\<lambda>d. Inr (d > 0)))) = Inr better" ..
  show ?case using b v c skip pick [of better] by (simp add: better)
qed simp

section \<open>The best item wins\<close>

text \<open>
  A set of versions on which the comparison is the sign of a linear order of keys. On such a set
  the selection loop computes a maximum.
\<close>

locale version_order =
  fixes key :: "DesktopVersion \<Rightarrow> 'k::linorder"
    and versions :: "DesktopVersion set"
  assumes compare_key: "l \<in> versions \<Longrightarrow> r \<in> versions \<Longrightarrow>
    CompareDesktopVersions l r = Inr (order_sign (key l) (key r))"
begin

definition ver :: "ReleaseIndexItem \<Rightarrow> DesktopVersion" where
  "ver item = projr (ItemVersion item)"

lemma select_maximal:
  assumes "SelectLoop platform channel current identity sha256 items selected = Inr (Some best)"
    and "\<And>item. item \<in> set items \<union> set_option selected \<Longrightarrow>
      ItemVersion item = Inr (ver item) \<and> ver item \<in> versions"
    and "item \<in> set_option selected \<or>
      (item \<in> set items \<and> eligible platform channel identity sha256 item \<and> newer_than current item)"
  shows "key (ver item) \<le> key (ver best)"
  using assms
proof (induction items arbitrary: selected item)
  case (Cons i items)
  have i: "ItemVersion i = Inr (ver i)" "ver i \<in> versions" using Cons.prems(2) by auto
  show ?case
  proof (cases "eligible platform channel identity sha256 i \<and> newer_than current i")
    case True
    then have "CompareDesktopVersions (ver i) current = Inr 1" by (simp add: newer_than_def i)
    with True Cons.prems(1) i obtain better where
      b: "SelectLoop platform channel current identity sha256 items (if better then Some i else selected) =
        Inr (Some best)"
      and better: "selected = None \<and> better \<or> (\<exists>s. selected = Some s \<and>
        better = (order_sign (key (ver i)) (key (ver s)) > 0))"
      using Cons.prems(2)
      by (cases selected) (auto simp: eligible_def bindE_Inr_iff compare_key)
    have IH: "key (ver item) \<le> key (ver best)"
      if "item \<in> set_option (if better then Some i else selected) \<or>
        (item \<in> set items \<and> eligible platform channel identity sha256 item \<and> newer_than current item)" for item
      using b Cons.prems(2) that by (intro Cons.IH) (auto split: if_splits)
    have "key (ver i) \<le> key (ver best)" "s \<in> set_option selected \<Longrightarrow> key (ver s) \<le> key (ver best)" for s
      using better IH [of i] IH [of s] IH [of "the selected"]
      by (auto simp: order_sign_def split: if_splits)
    then show ?thesis using Cons.prems(3) IH [of item] by auto
  next
    case False
    then have "SelectLoop platform channel current identity sha256 items selected = Inr (Some best)"
      using Cons.prems(1) i
      by (auto simp: eligible_def newer_than_def bindE_Inr_iff compare_le_0 split: if_splits)
    then show ?thesis using Cons.prems(2,3) False by (intro Cons.IH) auto
  qed
qed simp

end

text \<open>Versions without build numbers follow the precedence order, versions with one their number.\<close>

definition plain_versions :: "DesktopVersion set" where
  "plain_versions = {v. \<not> dv_has_build_number v \<and> list_all canonical_identifier (dv_prerelease v)}"

definition build_versions :: "DesktopVersion set" where
  "build_versions = {v. dv_has_build_number v}"

interpretation plain: version_order version_key plain_versions
proof
  fix l r assume "l \<in> plain_versions" "r \<in> plain_versions"
  then show "CompareDesktopVersions l r = Inr (order_sign (version_key l) (version_key r))"
    using ComparePrerelease_sign [of "dv_prerelease l" "dv_prerelease r"]
    by (auto simp: plain_versions_def CompareDesktopVersions_def version_key_def order_sign_def)
qed

interpretation builds: version_order dv_build_number build_versions
  by unfold_locales (simp add: build_versions_def CompareDesktopVersions_def order_sign_def)

lemma word32_percentage:
  "0 \<le> p \<Longrightarrow> p \<le> 100 \<Longrightarrow> uint (word_of_int p :: 32 word) = p"
  by (simp add: uint_word_of_int)

section \<open>Properties\<close>

text \<open>
  C33. Selection is sound: an item that is returned is an item of the index for the given platform
  and channel, its rollout includes the installation, and its version compares strictly newer than
  the current one.
\<close>

theorem select_sound:
  assumes "SelectReleaseIndexItem index platform channel current identity sha256 = Inr (Some item)"
  shows "item \<in> set (index_items index) \<and> item_platform item = platform \<and>
    item_channel item = channel \<and> RolloutIncludes item identity sha256 = Inr True \<and>
    (\<exists>v. ItemVersion item = Inr v \<and> CompareDesktopVersions v current = Inr 1)"
  using SelectLoop_sound [OF assms [unfolded SelectReleaseIndexItem_def]]
  by (auto simp: eligible_def newer_than_def split: sum.splits)

definition sample_item :: ReleaseIndexItem where
  "sample_item = \<lparr>item_version = ''1.2.0'', item_has_build_number = False, item_build_number = 0,
     item_platform = ''linux'', item_channel = ''stable'', item_mandatory = False,
     item_release = ''https://h/r'', item_has_rollout = False,
     item_rollout = \<lparr>rollout_percentage = 0, rollout_salt = []\<rparr>, item_has_fresh_install = False,
     item_fresh_install = \<lparr>fresh_download_url = [], fresh_has_message = False, fresh_message = []\<rparr>,
     item_raw = kNull\<rparr>"

definition sample_index :: ReleaseIndex where
  "sample_index = \<lparr>index_schema_version = 3, index_app_name = ''App'', index_items = [sample_item],
     index_has_support_policy = False,
     index_support_policy = \<lparr>policy_minimum_supported_version = no_version, policy_enforced_after = []\<rparr>,
     index_has_signature = False, index_signature = no_signature, index_raw = kNull\<rparr>"

definition sample_version :: DesktopVersion where
  "sample_version = \<lparr>dv_raw = ''1.2.0'', dv_major = 1, dv_minor = 2, dv_patch = 0, dv_prerelease = [],
     dv_has_build_number = False, dv_build_number = 0\<rparr>"

lemma sample_item_version: "ItemVersion sample_item = Inr sample_version"
  unfolding ItemVersion_def sample_item_def sample_version_def by code_simp

lemma sample_select:
  "SelectReleaseIndexItem sample_index ''linux'' ''stable'' no_version identity sha256 = Inr (Some sample_item)"
proof -
  have "CompareDesktopVersions sample_version no_version = Inr 1"
    by (simp add: CompareDesktopVersions_def sample_version_def no_version_def)
  moreover have "RolloutIncludes sample_item identity sha256 = Inr True"
    by (simp add: RolloutIncludes_def sample_item_def)
  moreover have "item_platform sample_item = ''linux''" "item_channel sample_item = ''stable''"
    by (simp_all add: sample_item_def)
  ultimately show ?thesis
    by (simp add: SelectReleaseIndexItem_def sample_index_def sample_item_version)
qed

theorem select_sound_witness:
  "\<exists>sha256. SelectReleaseIndexItem sample_index ''linux'' ''stable'' no_version [] sha256 =
     Inr (Some sample_item) \<and> RolloutIncludes sample_item [] sha256 = Inr True"
  using select_sound [OF sample_select [of "[]" "\<lambda>_. Inr (replicate 32 0)"]] sample_select by blast

text \<open>
  Selection is complete and cannot fail on a parsed index, when the digest function returns
  32 bytes: a result always comes back, and no result means that no item of the index for the
  platform and channel whose rollout includes the installation is newer than the current version.
\<close>

theorem select_complete:
  assumes "ParseReleaseIndex json = Inr index" and "digest_provider sha256"
  shows "\<exists>r. SelectReleaseIndexItem index platform channel current identity sha256 = Inr r \<and>
    (r = None \<longrightarrow> (\<forall>item \<in> set (index_items index).
       \<not> (eligible platform channel identity sha256 item \<and> newer_than current item)))"
proof -
  have "\<exists>r. SelectLoop platform channel current identity sha256 (index_items index) None = Inr r"
    using ParseReleaseIndex_versions [OF assms(1)] assms(2) by (intro SelectLoop_total) auto
  then show ?thesis using SelectLoop_complete unfolding SelectReleaseIndexItem_def by fastforce
qed

lemma empty_index_parses:
  "\<exists>index. ParseReleaseIndex (EncodeCanonicalJson (kObject (emplaced
     [(''schemaVersion'', kInteger 3), (''appName'', kString ''App''), (''items'', kArray [])]))) = Inr index"
proof -
  have "wf_json (kObject (emplaced [(''schemaVersion'', kInteger 3), (''appName'', kString ''App''),
      (''items'', kArray [])]))"
    by (rule wf_emplaced) (auto simp: int64_defs)
  from ParseJson_Encode [OF this] show ?thesis
    by (simp add: ParseReleaseIndex_def json_at_def json_find_def jobject_def map_find_emplaced
        RequiredString_def jstring_def jinteger_def jarray_def)
qed

theorem select_complete_witness:
  "\<exists>index r. ParseReleaseIndex (EncodeCanonicalJson (kObject (emplaced
     [(''schemaVersion'', kInteger 3), (''appName'', kString ''App''), (''items'', kArray [])]))) = Inr index \<and>
     SelectReleaseIndexItem index ''linux'' ''stable'' no_version [] (\<lambda>_. Inr (replicate 32 0)) = Inr r"
proof -
  obtain index where index: "ParseReleaseIndex (EncodeCanonicalJson (kObject (emplaced
     [(''schemaVersion'', kInteger 3), (''appName'', kString ''App''), (''items'', kArray [])]))) = Inr index"
    using empty_index_parses by blast
  have "digest_provider (\<lambda>_. Inr (replicate 32 0))" by (simp add: digest_provider_def)
  from select_complete [OF index this, of "''linux''" "''stable''" no_version "[]"]
  show ?thesis using index by auto
qed

text \<open>
  The best item wins: when the versions of the items carry no build number and their numeric
  prerelease identifiers are canonical, the returned item has the greatest precedence among all
  items of the platform and channel that the rollout includes and that are newer.
\<close>

theorem select_best:
  assumes "SelectReleaseIndexItem index platform channel current identity sha256 = Inr (Some best)"
    and "\<And>item. item \<in> set (index_items index) \<Longrightarrow> \<exists>v \<in> plain_versions. ItemVersion item = Inr v"
    and "item \<in> set (index_items index)" and "eligible platform channel identity sha256 item"
    and "newer_than current item"
  shows "\<exists>v w. ItemVersion item = Inr v \<and> ItemVersion best = Inr w \<and> version_key v \<le> version_key w"
proof -
  have loop: "SelectLoop platform channel current identity sha256 (index_items index) None = Inr (Some best)"
    using assms(1) by (simp add: SelectReleaseIndexItem_def)
  then have "best \<in> set (index_items index)" using SelectLoop_sound [OF loop] by simp
  then obtain w where w: "ItemVersion best = Inr w" using assms(2) by blast
  obtain v where v: "ItemVersion item = Inr v" using assms(2,3) by blast
  have "version_key (plain.ver item) \<le> version_key (plain.ver best)"
    using assms(2-) by (intro plain.select_maximal [OF loop]) (fastforce simp: plain.ver_def)+
  then show ?thesis using v w by (simp add: plain.ver_def)
qed

theorem select_best_witness:
  "\<exists>v w. ItemVersion sample_item = Inr v \<and> ItemVersion sample_item = Inr w \<and> version_key v \<le> version_key w"
proof -
  have "sample_version \<in> plain_versions" by (simp add: plain_versions_def sample_version_def)
  moreover have "eligible ''linux'' ''stable'' [] (\<lambda>_. Inr []) sample_item"
    by (simp add: eligible_def RolloutIncludes_def sample_item_def)
  moreover have "newer_than no_version sample_item"
    by (simp add: newer_than_def sample_item_version CompareDesktopVersions_def sample_version_def
        no_version_def)
  ultimately show ?thesis
    using select_best [OF sample_select [of "[]" "\<lambda>_. Inr []"], of sample_item] sample_item_version
    by (auto simp: sample_index_def)
qed

text \<open>
  Rollouts only grow: an installation that a rollout includes stays included when the percentage
  of the item is raised and nothing else changes, and a percentage of 100 includes every installation.
\<close>

theorem rollout_monotone:
  assumes "RolloutIncludes (item\<lparr>item_rollout := \<lparr>rollout_percentage = p, rollout_salt = salt\<rparr>\<rparr>) identity sha256
      = Inr True"
    and "0 \<le> p" and "p \<le> q" and "q \<le> 100"
  shows "RolloutIncludes (item\<lparr>item_rollout := \<lparr>rollout_percentage = q, rollout_salt = salt\<rparr>\<rparr>) identity sha256
      = Inr True"
proof -
  have "(word_of_int p :: 32 word) \<le> word_of_int q"
    using assms(2-4) by (simp add: word_le_def word32_percentage)
  then show ?thesis
    using assms by (auto simp: RolloutIncludes_def Let_def bindE_Inr_iff split: if_splits)
qed

theorem rollout_monotone_witness:
  "RolloutIncludes (sample_item\<lparr>item_has_rollout := True,
      item_rollout := \<lparr>rollout_percentage = 50, rollout_salt = ''s''\<rparr>\<rparr>) ''id'' (\<lambda>_. Inr (replicate 32 0)) = Inr True"
proof -
  have "RolloutIncludes (sample_item\<lparr>item_has_rollout := True\<rparr>
      \<lparr>item_rollout := \<lparr>rollout_percentage = 1, rollout_salt = ''s''\<rparr>\<rparr>) ''id'' (\<lambda>_. Inr (replicate 32 0)) = Inr True"
    by (simp add: RolloutIncludes_def Let_def Trim_def isspace_def rollout_bucket_def
        eval_nat_numeral)
  from rollout_monotone [OF this, of 50] show ?thesis by simp
qed

end
