(* ===== verification/Release_Signature.thy ===== *)
theory Release_Signature
  imports Release_Selection
begin

text \<open>
  What is signed and what follows from it: the canonical bytes of a descriptor and of an index, the
  two signature checks, and the binding, policy and support decisions of \<^verbatim>\<open>release_contract.cc\<close>.
  The Ed25519 check is vendored code; it is the argument \<open>check\<close>, true when
  \<^verbatim>\<open>crypto_ed25519_check\<close> returns 0 for a signature, a key and a message.
\<close>

section \<open>Signed bytes\<close>

definition CanonicalSignatureBytes :: "ReleaseDescriptor \<Rightarrow> string" where
  "CanonicalSignatureBytes descriptor =
     EncodeCanonicalJson (kObject (emplaced
       (descriptor_members descriptor (artifact_member (desc_artifact descriptor)) [])))"

definition fresh_member :: "ReleaseFreshInstall \<Rightarrow> JsonValue" where
  "fresh_member fresh = kObject (emplaced
     ([(''downloadUrl'', kString (fresh_download_url fresh))]
      @ (if fresh_has_message fresh then [(''message'', kString (fresh_message fresh))] else [])))"

definition rollout_member :: "ReleaseRollout \<Rightarrow> JsonValue" where
  "rollout_member rollout = kObject (emplaced
     [(''percentage'', kInteger (rollout_percentage rollout)),
      (''salt'', kString (rollout_salt rollout))])"

definition item_member :: "ReleaseIndexItem \<Rightarrow> JsonValue" where
  "item_member item = kObject (emplaced
     ([(''version'', kString (item_version item))]
      @ (if item_has_build_number item then [(''buildNumber'', kInteger (item_build_number item))] else [])
      @ [(''platform'', kString (item_platform item)), (''channel'', kString (item_channel item)),
         (''mandatory'', kBoolean (item_mandatory item))]
      @ (if item_has_fresh_install item
         then [(''freshInstall'', fresh_member (item_fresh_install item))] else [])
      @ [(''release'', kString (item_release item))]
      @ (if item_has_rollout item then [(''rollout'', rollout_member (item_rollout item))] else [])))"

definition CanonicalIndexSignatureBytes :: "ReleaseIndex \<Rightarrow> string result" where
  "CanonicalIndexSignatureBytes index =
     bindE (if index_has_support_policy index then
              bindE (ParseInstant (policy_enforced_after (index_support_policy index))) (\<lambda>instant.
                Inr [(''supportPolicy'', kObject (emplaced
                  [(''minimumSupportedVersion'',
                     kString (dv_raw (policy_minimum_supported_version (index_support_policy index)))),
                   (''enforcedAfter'', kString (FormatInstant instant))]))])
            else Inr []) (\<lambda>support.
       Inr (EncodeCanonicalJson (kObject (emplaced
         ([(''schemaVersion'', kInteger (index_schema_version index)),
           (''appName'', kString (index_app_name index))]
          @ support
          @ [(''items'', kArray (map item_member (index_items index)))]
          @ (if index_has_signature index
             then [(''signature'', signature_member (index_signature index) [])] else []))))))"

section \<open>Signature checks\<close>

type_synonym ed25519_check = "bytes \<Rightarrow> bytes \<Rightarrow> string \<Rightarrow> bool"

definition VerifyIndexSignature ::
    "ed25519_check \<Rightarrow> ReleaseIndex \<Rightarrow> (string, bytes) std_map \<Rightarrow> bool result" where
  "VerifyIndexSignature check index pinned_keys =
     (if \<not> index_has_signature index \<or> sig_algorithm (index_signature index) \<noteq> ''ed25519'' \<or>
         Trim (sig_public_key_id (index_signature index)) = []
      then Inr False
      else case map_find pinned_keys (sig_public_key_id (index_signature index)) of
          None \<Rightarrow> Inr False
        | Some key \<Rightarrow>
            if length key \<noteq> 32 then Inr False
            else (case DecodeBase64 (sig_value (index_signature index)) of
                Inl _ \<Rightarrow> Inr False
              | Inr signature \<Rightarrow>
                  if length signature \<noteq> 64 then Inr False
                  else bindE (CanonicalIndexSignatureBytes index) (\<lambda>message.
                    Inr (check signature key message))))"

definition VerifyDescriptorSignature ::
    "ed25519_check \<Rightarrow> ReleaseDescriptor \<Rightarrow> (string, bytes) std_map \<Rightarrow> bool" where
  "VerifyDescriptorSignature check descriptor pinned_keys =
     (if \<not> desc_has_signature descriptor \<or>
         sig_algorithm (desc_signature descriptor) \<noteq> ''ed25519''
      then False
      else case map_find pinned_keys (sig_public_key_id (desc_signature descriptor)) of
          None \<Rightarrow> False
        | Some key \<Rightarrow>
            if length key \<noteq> 32 then False
            else (case DecodeBase64 (sig_value (desc_signature descriptor)) of
                Inl _ \<Rightarrow> False
              | Inr signature \<Rightarrow>
                  if length signature \<noteq> 64 then False
                  else check signature key (CanonicalSignatureBytes descriptor)))"

section \<open>Decisions\<close>

definition DescriptorBindingOutcome ::
    "ReleaseDescriptor \<Rightarrow> ReleaseIndexItem \<Rightarrow> string \<Rightarrow> string" where
  "DescriptorBindingOutcome descriptor item expected_package_id =
     (if desc_package_id descriptor \<noteq> expected_package_id then ''packageIdentityMismatch''
      else if desc_version descriptor \<noteq> item_version item \<or>
              desc_has_build_number descriptor \<noteq> item_has_build_number item \<or>
              (desc_has_build_number descriptor \<and> desc_build_number descriptor \<noteq> item_build_number item) \<or>
              desc_platform descriptor \<noteq> item_platform item \<or> desc_channel descriptor \<noteq> item_channel item
      then ''invalidDescriptor''
      else ''match'')"

text \<open>The resolver is a callback, which may throw.\<close>

definition DescriptorPolicyOutcome ::
    "ReleaseDescriptor \<Rightarrow> DesktopVersion \<Rightarrow> string \<Rightarrow> (string \<Rightarrow> string \<Rightarrow> bool result) \<Rightarrow> string result" where
  "DescriptorPolicyOutcome descriptor current_updater_version platform minimum_os_resolver =
     bindE (ParseDesktopVersion (desc_minimum_updater_version descriptor) False 0) (\<lambda>minimum.
     bindE (CompareDesktopVersions current_updater_version minimum) (\<lambda>c.
       if c < 0 then Inr ''unsupportedMinimumUpdater''
       else (case map_find (desc_minimum_os descriptor) platform of
           None \<Rightarrow> Inr ''updateAvailable''
         | Some os \<Rightarrow>
             bindE (minimum_os_resolver platform os) (\<lambda>supported.
               if \<not> supported then Inr ''unsupportedMinimumOS'' else Inr ''updateAvailable''))))"

definition SupportPolicyOutcome ::
    "ReleaseSupportPolicy \<Rightarrow> DesktopVersion \<Rightarrow> string \<Rightarrow> string result" where
  "SupportPolicyOutcome policy current_version now =
     bindE (CompareDesktopVersions current_version (policy_minimum_supported_version policy)) (\<lambda>c.
       if c \<ge> 0 then Inr ''updateAvailable''
       else
         bindE (ParseInstant now) (\<lambda>current.
         bindE (ParseInstant (policy_enforced_after policy)) (\<lambda>deadline.
           let enforced = (instant_seconds current > instant_seconds deadline \<or>
                 (instant_seconds current = instant_seconds deadline \<and>
                  instant_microseconds current \<ge> instant_microseconds deadline))
           in Inr (if enforced then ''supportPolicyBlocked'' else ''supportPolicyWarning''))))"

section \<open>The signed bytes determine the descriptor\<close>

lemma emplaced_sorted: "sorted_keys m \<Longrightarrow> emplaced m = m"
proof -
  have "sorted_keys (acc @ m) \<Longrightarrow> fold (\<lambda>(k, v). map_emplace k v) m acc = acc @ m" for acc
  proof (induction m arbitrary: acc)
    case (Cons kv m)
    obtain k v where kv: "kv = (k, v)" by (cases kv)
    with Cons.prems have "sorted_keys (acc @ (k, v) # m)" by simp
    then have "\<forall>k' \<in> fst ` set acc. k' < k" by (rule sorted_keys_append)
    with Cons show ?case by (simp add: kv map_emplace_snoc)
  qed simp
  from this [of "[]"] show "sorted_keys m \<Longrightarrow> emplaced m = m" by (simp add: emplaced_def)
qed

lemma wf_members [simp]:
  "wf_json (signature_member s t)"
  "int64 (artifact_length a) \<Longrightarrow> wf_json (artifact_member a)"
  unfolding signature_member_def artifact_member_def by (rule wf_emplaced; auto)+

lemma wf_signed_descriptor:
  assumes "wf_descriptor d"
  shows "wf_json (kObject (emplaced (descriptor_members d (artifact_member (desc_artifact d)) s)))"
proof (rule wf_emplaced)
  fix k v assume "(k, v) \<in> set (descriptor_members d (artifact_member (desc_artifact d)) s)"
  moreover have "wf_json (kObject (emplaced (map (\<lambda>(k, v). (k, kString v)) (desc_minimum_os d))))"
    by (rule wf_emplaced) auto
  ultimately show "wf_json v"
    using assms by (auto simp: descriptor_members_def wf_descriptor_def int64_defs split: if_splits)
qed

lemma descriptor_members_lookup:
  fixes d :: ReleaseDescriptor and a :: JsonValue and s :: string
  defines "m \<equiv> map_of (descriptor_members d a s)"
  shows "m ''schemaVersion'' = Some (kInteger (desc_schema_version d))"
    "m ''packageId'' = Some (kString (desc_package_id d))"
    "m ''appName'' = Some (kString (desc_app_name d))"
    "m ''version'' = Some (kString (desc_version d))"
    "m ''buildNumber'' = (if desc_has_build_number d then Some (kInteger (desc_build_number d)) else None)"
    "m ''platform'' = Some (kString (desc_platform d))" "m ''channel'' = Some (kString (desc_channel d))"
    "m ''artifact'' = Some a" "m ''install'' = Some (desc_wire_install d)"
    "m ''signature'' = (if desc_has_signature d then Some (signature_member (desc_signature d) s) else None)"
    "m ''minimumUpdaterVersion'' = Some (kString (desc_minimum_updater_version d))"
    "m ''minimumOS'' = (if desc_minimum_os d = [] then None else Some (kObject (emplaced
        (map (\<lambda>(k, v). (k, kString v)) (desc_minimum_os d)))))"
    "m ''deltaArtifacts'' = (if desc_delta_artifacts d = [] then None
        else Some (kArray (desc_delta_artifacts d)))"
    "m ''generatedAt'' = Some (kString (desc_generated_at d))"
  unfolding m_def by (simp_all add: descriptor_members_def)

lemma signature_member_inject:
  assumes "signature_member s t = signature_member s' t'"
  shows "sig_algorithm s = sig_algorithm s'" "sig_public_key_id s = sig_public_key_id s'" "t = t'"
proof -
  have "map_find (emplaced [(''algorithm'', kString (sig_algorithm s)),
       (''publicKeyId'', kString (sig_public_key_id s)), (''value'', kString t)]) k =
    map_find (emplaced [(''algorithm'', kString (sig_algorithm s')),
       (''publicKeyId'', kString (sig_public_key_id s')), (''value'', kString t')]) k" for k
    using assms by (simp add: signature_member_def)
  from this [of "''algorithm''"] this [of "''publicKeyId''"] this [of "''value''"]
  show "sig_algorithm s = sig_algorithm s'" "sig_public_key_id s = sig_public_key_id s'" "t = t'"
    by (simp_all add: map_find_emplaced)
qed

lemma artifact_member_inject:
  assumes "artifact_member a = artifact_member a'"
  shows "artifact_kind a = artifact_kind a'" "artifact_url a = artifact_url a'"
    "artifact_sha256 a = artifact_sha256 a'" "artifact_length a = artifact_length a'"
proof -
  let ?kvs = "\<lambda>a. [(''kind'', kString (artifact_kind a)), (''url'', kString (artifact_url a)),
      (''sha256'', kString (artifact_sha256 a)), (''length'', kInteger (artifact_length a))]"
  have "map_find (emplaced (?kvs a)) k = map_find (emplaced (?kvs a')) k" for k
    using assms by (simp add: artifact_member_def)
  from this [of "''kind''"] this [of "''url''"] this [of "''sha256''"] this [of "''length''"]
  show "artifact_kind a = artifact_kind a'" "artifact_url a = artifact_url a'"
    "artifact_sha256 a = artifact_sha256 a'" "artifact_length a = artifact_length a'"
    by (simp_all add: map_find_emplaced)
qed

lemma minimum_os_inject:
  fixes m m' :: "(string \<times> string) list"
  assumes "emplaced (map (\<lambda>(k, v). (k, kString v)) m) =
      emplaced (map (\<lambda>(k, v). (k, kString v)) m')"
    and "sorted_keys m" and "sorted_keys m'"
  shows "m = m'"
proof -
  let ?f = "\<lambda>(k :: string, v). (k, kString v)"
  have "sorted_keys (map ?f m)" if "sorted_keys m" for m :: "(string \<times> string) list"
    using that by (simp add: sorted_keys_def comp_def case_prod_unfold)
  then have "map ?f m = map ?f m'" using assms by (simp add: emplaced_sorted)
  moreover have "inj ?f" by (auto simp: inj_def)
  ultimately show ?thesis by (simp add: inj_map_eq_map)
qed

text \<open>Everything of a descriptor that its signature covers.\<close>

definition signed_part ::
    "ReleaseDescriptor \<Rightarrow> (string \<times> string \<times> string \<times> int option \<times> string \<times> string) \<times>
       (string \<times> string \<times> string \<times> int) \<times> JsonValue \<times> (string \<times> string) option \<times>
       string \<times> (string \<times> string) list \<times> JsonValue list \<times> string" where
  "signed_part d =
     ((desc_package_id d, desc_app_name d, desc_version d,
       if desc_has_build_number d then Some (desc_build_number d) else None,
       desc_platform d, desc_channel d),
      (artifact_kind (desc_artifact d), artifact_url (desc_artifact d),
       artifact_sha256 (desc_artifact d), artifact_length (desc_artifact d)),
      desc_wire_install d,
      (if desc_has_signature d
       then Some (sig_algorithm (desc_signature d), sig_public_key_id (desc_signature d)) else None),
      desc_minimum_updater_version d, desc_minimum_os d, desc_delta_artifacts d, desc_generated_at d)"

lemma signed_part_determined:
  assumes "wf_descriptor d" and "wf_descriptor e"
    and "CanonicalSignatureBytes d = CanonicalSignatureBytes e"
  shows "signed_part d = signed_part e"
proof -
  let ?m = "\<lambda>d. descriptor_members d (artifact_member (desc_artifact d)) []"
  have "emplaced (?m d) = emplaced (?m e)"
    using assms json.encode_inject [OF wf_signed_descriptor wf_signed_descriptor]
    by (simp add: CanonicalSignatureBytes_def)
  then have eq: "map_of (?m d) k = map_of (?m e) k" for k
    using map_find_emplaced [of "?m d" k] map_find_emplaced [of "?m e" k] by simp
  note lookup = descriptor_members_lookup
  have sorted: "sorted_keys (desc_minimum_os d)" "sorted_keys (desc_minimum_os e)"
    using assms by (simp_all add: wf_descriptor_def)
  have strings: "desc_package_id d = desc_package_id e" "desc_app_name d = desc_app_name e"
    "desc_version d = desc_version e" "desc_platform d = desc_platform e"
    "desc_channel d = desc_channel e" "desc_wire_install d = desc_wire_install e"
    "desc_minimum_updater_version d = desc_minimum_updater_version e"
    "desc_generated_at d = desc_generated_at e"
    "artifact_member (desc_artifact d) = artifact_member (desc_artifact e)"
    using eq [of "''packageId''"] eq [of "''appName''"] eq [of "''version''"] eq [of "''platform''"]
      eq [of "''channel''"] eq [of "''install''"] eq [of "''minimumUpdaterVersion''"]
      eq [of "''generatedAt''"] eq [of "''artifact''"]
    by (simp_all only: lookup option.inject JsonValue.inject)
  have build: "(if desc_has_build_number d then Some (desc_build_number d) else None) =
      (if desc_has_build_number e then Some (desc_build_number e) else None)"
    using eq [of "''buildNumber''"] by (simp only: lookup) (simp split: if_splits)
  have signature: "(if desc_has_signature d
       then Some (sig_algorithm (desc_signature d), sig_public_key_id (desc_signature d)) else None) =
     (if desc_has_signature e
       then Some (sig_algorithm (desc_signature e), sig_public_key_id (desc_signature e)) else None)"
    using eq [of "''signature''"]
    by (simp only: lookup) (auto dest: signature_member_inject split: if_splits)
  have os: "desc_minimum_os d = desc_minimum_os e"
    using eq [of "''minimumOS''"] sorted
    by (simp only: lookup) (auto dest: minimum_os_inject split: if_splits)
  have deltas: "desc_delta_artifacts d = desc_delta_artifacts e"
    using eq [of "''deltaArtifacts''"] by (simp only: lookup) (simp split: if_splits)
  show ?thesis
    unfolding signed_part_def using strings build signature os deltas
      artifact_member_inject [OF strings(9)] by (simp only:)
qed

section \<open>Properties\<close>

text \<open>
  C29. A signature binds the whole descriptor: two descriptors that parse and whose signed bytes are
  the same agree on the package, version, build number, platform, channel, artifact address, digest
  and length, install metadata, signing key, minimum updater, minimum system versions, delta
  artifacts and generation time.
\<close>

theorem signed_bytes_bind_descriptor:
  assumes "ParseReleaseDescriptor json = Inr d" and "ParseReleaseDescriptor json' = Inr e"
    and "CanonicalSignatureBytes d = CanonicalSignatureBytes e"
  shows "signed_part d = signed_part e"
  using assms(3) by (rule signed_part_determined
      [OF ParseReleaseDescriptor_wf [OF assms(1)] ParseReleaseDescriptor_wf [OF assms(2)]])

theorem signed_bytes_bind_descriptor_witness:
  "\<exists>d e. ParseReleaseDescriptor (EncodeCanonicalJson (sample_descriptor ''AA=='')) = Inr d \<and>
     ParseReleaseDescriptor (EncodeCanonicalJson (sample_descriptor [])) = Inr e \<and> d \<noteq> e \<and>
     signed_part d = signed_part e"
proof -
  obtain base f where parses: "ParseReleaseDescriptor (EncodeCanonicalJson (sample_descriptor signature)) =
        Inr (base\<lparr>desc_signature := \<lparr>sig_algorithm = ''ed25519'', sig_public_key_id = ''k'',
          sig_value = signature\<rparr>, desc_raw := f signature\<rparr>)" for signature
    using sample_descriptor_parses by metis
  let ?d = "\<lambda>signature. base\<lparr>desc_signature := \<lparr>sig_algorithm = ''ed25519'', sig_public_key_id = ''k'',
          sig_value = signature\<rparr>, desc_raw := f signature\<rparr>"
  have "CanonicalSignatureBytes (?d s) = CanonicalSignatureBytes (?d t)" for s t
    by (simp add: CanonicalSignatureBytes_def descriptor_members_def signature_member_def)
  note bound = signed_bytes_bind_descriptor [OF parses parses this]
  have "sig_value (desc_signature (?d ''AA=='')) \<noteq> sig_value (desc_signature (?d []))" by simp
  then have "?d ''AA=='' \<noteq> ?d []" by metis
  with parses bound show ?thesis by blast
qed

lemma VerifyDescriptorSignature_iff:
  "VerifyDescriptorSignature check d pinned_keys \<longleftrightarrow>
     desc_has_signature d \<and> sig_algorithm (desc_signature d) = ''ed25519'' \<and>
     (\<exists>key signature. map_find pinned_keys (sig_public_key_id (desc_signature d)) = Some key \<and>
        length key = 32 \<and> length signature = 64 \<and>
        sig_value (desc_signature d) = base64_text signature \<and>
        check signature key (CanonicalSignatureBytes d))"
proof -
  have "signature \<noteq> []" if "length signature = 64" for signature :: bytes using that by auto
  then have decode: "DecodeBase64 s = Inr signature \<longleftrightarrow> s = base64_text signature"
    if "length signature = 64" for s signature using that by (auto simp: DecodeBase64_iff)
  have accepts: "(case DecodeBase64 s of Inl _ \<Rightarrow> False
      | Inr signature \<Rightarrow> if length signature \<noteq> 64 then False else check signature key m) \<longleftrightarrow>
      (\<exists>signature. length signature = 64 \<and> s = base64_text signature \<and> check signature key m)" for s key m
  proof -
    have "(\<exists>signature. length signature = 64 \<and> s = base64_text signature \<and> check signature key m) \<longleftrightarrow>
        (\<exists>signature. length signature = 64 \<and> DecodeBase64 s = Inr signature \<and> check signature key m)"
      using decode by blast
    then show ?thesis by (cases "DecodeBase64 s") auto
  qed
  show ?thesis
    unfolding VerifyDescriptorSignature_def accepts by (auto split: option.splits)
qed

text \<open>
  C30. The descriptor check accepts exactly when the descriptor names the Ed25519 algorithm and a
  pinned key of 32 bytes, its signature text is canonical base64 of 64 bytes, and the Ed25519 check
  accepts these bytes for the pinned key and the canonical bytes of the descriptor. No other path
  leads to acceptance.
\<close>

theorem descriptor_signature_exact:
  "VerifyDescriptorSignature check d pinned_keys \<longleftrightarrow>
     desc_has_signature d \<and> sig_algorithm (desc_signature d) = ''ed25519'' \<and>
     (\<exists>key signature. map_find pinned_keys (sig_public_key_id (desc_signature d)) = Some key \<and>
        length key = 32 \<and> length signature = 64 \<and>
        sig_value (desc_signature d) = base64_text signature \<and>
        check signature key (CanonicalSignatureBytes d))"
  by (rule VerifyDescriptorSignature_iff)

lemma ParseReleaseIndex_canonical:
  assumes "ParseReleaseIndex json = Inr index"
  shows "\<exists>message. CanonicalIndexSignatureBytes index = Inr message"
  using assms
  by (auto simp: ParseReleaseIndex_def ParseSupportPolicy_def CanonicalIndexSignatureBytes_def
      bindE_Inr_iff split: if_splits option.splits)

lemma VerifyIndexSignature_total:
  assumes "ParseReleaseIndex json = Inr index"
  shows "\<exists>b. VerifyIndexSignature check index pinned_keys = Inr b"
  using ParseReleaseIndex_canonical [OF assms]
  by (auto simp: VerifyIndexSignature_def split: option.splits sum.splits)

text \<open>
  The index check has the same shape, and it cannot throw on a parsed index: an index that
  passed the parser has a deadline that the canonicaliser reads again.
\<close>

theorem index_signature_total:
  assumes "ParseReleaseIndex json = Inr index"
  shows "VerifyIndexSignature check index pinned_keys = Inr True \<or>
    VerifyIndexSignature check index pinned_keys = Inr False"
  using VerifyIndexSignature_total [OF assms, of check pinned_keys] by auto

theorem index_signature_total_witness:
  "\<exists>index. ParseReleaseIndex (EncodeCanonicalJson (kObject (emplaced
     [(''schemaVersion'', kInteger 3), (''appName'', kString ''App''), (''items'', kArray [])]))) = Inr index \<and>
     (VerifyIndexSignature (\<lambda>_ _ _. True) index [] = Inr True \<or>
      VerifyIndexSignature (\<lambda>_ _ _. True) index [] = Inr False)"
proof -
  obtain index where index: "ParseReleaseIndex (EncodeCanonicalJson (kObject (emplaced
     [(''schemaVersion'', kInteger 3), (''appName'', kString ''App''), (''items'', kArray [])]))) = Inr index"
    using empty_index_parses by blast
  from index_signature_total [OF index, of "\<lambda>_ _ _. True" "[]"] index show ?thesis by blast
qed

text \<open>
  A support policy blocks exactly the outdated installations once the deadline is reached: for
  readable instants the outcome is blocked when the current version is below the minimum and the
  time is not before the deadline, a warning when it is below the minimum earlier, and otherwise
  the update goes on.
\<close>

theorem support_policy_exact:
  assumes "ParseInstant now = Inr t" and "ParseInstant (policy_enforced_after policy) = Inr deadline"
  shows "SupportPolicyOutcome policy current now =
    Inr (if CompareDesktopVersions current (policy_minimum_supported_version policy) \<noteq> Inr (-1)
         then ''updateAvailable''
         else if deadline \<le> t then ''supportPolicyBlocked'' else ''supportPolicyWarning'')"
proof -
  obtain c where c: "c \<in> {-1, 0, 1}"
    "CompareDesktopVersions current (policy_minimum_supported_version policy) = Inr c"
    using CompareDesktopVersions_total by blast
  have "(instant_seconds t > instant_seconds deadline \<or> (instant_seconds t = instant_seconds deadline \<and>
      instant_microseconds t \<ge> instant_microseconds deadline)) \<longleftrightarrow> deadline \<le> t"
    by (auto simp: less_eq_ParsedInstant_def)
  then show ?thesis using c assms by (auto simp: SupportPolicyOutcome_def Let_def)
qed

theorem support_policy_exact_witness:
  "SupportPolicyOutcome \<lparr>policy_minimum_supported_version = sample_version,
      policy_enforced_after = ''2000-02-29T12:15:54.120Z''\<rparr> no_version ''2000-02-29T12:15:54.120Z'' =
     Inr ''supportPolicyBlocked''"
proof -
  have "CompareDesktopVersions no_version sample_version = Inr (-1)"
    by (simp add: CompareDesktopVersions_def sample_version_def no_version_def)
  then show ?thesis
    using support_policy_exact [OF sample_parts(5), of "\<lparr>policy_minimum_supported_version = sample_version,
      policy_enforced_after = ''2000-02-29T12:15:54.120Z''\<rparr>" _ no_version] sample_parts(5)
    by simp
qed

end
