(* ===== verification/Json_Errors.thy ===== *)
theory Json_Errors
  imports Release_Signature
begin

text \<open>
  The parsers of the release contract throw nothing but \<open>JsonError\<close>: what makes the handlers of
  \<^verbatim>\<open>update_client_core.cc\<close>, which catch that type only, complete.
\<close>

named_theorems json_only_simps \<open>computations whose only exception is the JSON error\<close>

definition json_only :: "'a result \<Rightarrow> bool" where
  "json_only r \<longleftrightarrow> (\<forall>e. r = Inl e \<longrightarrow> (\<exists>m. e = JsonError m))"

lemma json_only_basic [simp]:
  "json_only (Inr x)" "json_only (Inl (JsonError m))"
  "json_only (bindE r f) \<longleftrightarrow> json_only r \<and> (\<forall>x. r = Inr x \<longrightarrow> json_only (f x))"
  by (auto simp: json_only_def bindE_Inl_iff)

lemma json_only_mapE [simp]: "(\<And>x. json_only (f x)) \<Longrightarrow> json_only (mapE f xs)"
  by (induction xs) simp_all

lemma json_only_case:
  "json_only r \<Longrightarrow> (\<And>x. r = Inr x \<Longrightarrow> P) \<Longrightarrow> (\<And>m. r = Inl (JsonError m) \<Longrightarrow> P) \<Longrightarrow> P"
  by (cases r) (auto simp: json_only_def)

section \<open>The JSON parser\<close>

lemma json_only_tokens [json_only_simps]:
  "json_only (Require c s)" "json_only (ConsumeLiteral l s)" "json_only (ParseHexLoop n v t)"
  by (simp_all add: Require_def ConsumeLiteral_def split: option.split)
    (induction n v t rule: ParseHexLoop.induct, simp_all split: option.split)

lemma json_only_ParseHex4 [json_only_simps]: "json_only (ParseHex4 s)"
  by (simp add: ParseHex4_def json_only_simps)

lemma json_only_ParseUnicodeScalar [json_only_simps]: "json_only (ParseUnicodeScalar s)"
  by (simp add: ParseUnicodeScalar_def json_only_simps split: prod.split)

lemma json_only_ParseStringLoop [json_only_simps]: "json_only (ParseStringLoop s acc)"
proof (induction s acc rule: ParseStringLoop.induct)
  case (1 s acc)
  show ?case
    by (subst ParseStringLoop.simps)
      (auto simp: json_only_simps 1 split: list.split option.split prod.split)
qed

lemma json_only_ParseString [json_only_simps]: "json_only (ParseString s)"
  by (simp add: ParseString_def json_only_simps)

lemma json_only_ParseInteger [json_only_simps]: "json_only (ParseInteger s)"
  by (simp add: ParseInteger_def Let_def split: list.split option.split)

lemma json_only_parse:
  "json_only (ParseValue s)" "json_only (ParseArray s)" "json_only (ParseArrayLoop s arr)"
  "json_only (ParseObject s)" "json_only (ParseObjectLoop s obj)"
proof (induction s and s and s arr and s and s obj
    rule: ParseValue_ParseArray_ParseArrayLoop_ParseObject_ParseObjectLoop.induct)
  case (1 s)
  then show ?case
    by (simp add: ParseValue.simps [of s] json_only_simps split: list.split prod.split)
next
  case (2 s)
  then show ?case by (simp add: ParseArray.simps [of s] split: option.split)
next
  case (3 s arr)
  then show ?case
    by (simp add: ParseArrayLoop.simps [of s] json_only_simps split: option.split prod.split)
next
  case (4 s)
  then show ?case by (simp add: ParseObject.simps [of s] split: option.split)
next
  case (5 s obj)
  then show ?case
    by (simp add: ParseObjectLoop.simps [of s] Let_def json_only_simps split: option.split prod.split)
qed

lemma json_only_ParseJson [json_only_simps]: "json_only (ParseJson s)"
  by (simp add: ParseJson_def json_only_parse split: prod.split)

section \<open>The release contract\<close>

lemma json_only_accessors [json_only_simps]:
  "json_only (jboolean v)" "json_only (jinteger v)" "json_only (jstring v)" "json_only (jarray v)"
  "json_only (jobject v)" "json_only (json_at v k)" "json_only (json_find v k)"
  by (cases v; simp add: jboolean_def jinteger_def jstring_def jarray_def jobject_def json_at_def
      json_find_def split: option.split)+

lemma json_only_fields [json_only_simps]:
  "json_only (RequiredString v k)" "json_only (RequiredTrimmedString v k)"
  "json_only (OptionalBoolean v k b)" "json_only (OptionalStringWithDefault v k s)"
  "json_only (OptionalString v k)" "json_only (OptionalStringArray v k)"
  by (simp_all add: RequiredString_def RequiredTrimmedString_def OptionalBoolean_def
      OptionalStringWithDefault_def OptionalString_def OptionalStringArray_def json_only_simps
      split: option.split JsonValue.split)

lemma json_only_ParseComponent [json_only_simps]: "json_only (ParseComponent s)"
  by (simp add: ParseComponent_def)

lemma json_only_ParseDesktopVersion [json_only_simps]: "json_only (ParseDesktopVersion s h b)"
  by (simp add: ParseDesktopVersion_def Let_def json_only_simps split: prod.split)

lemma json_only_ParseInstant [json_only_simps]: "json_only (ParseInstant s)"
  by (simp add: ParseInstant_def ParseFraction_def ParseOffset_def Let_def json_only_simps
      split: prod.split list.split)

lemma json_only_sections [json_only_simps]:
  "json_only (NormalizeInno v)" "json_only (NormalizeDmg v)" "json_only (NormalizePkg v b)"
  by (simp_all add: NormalizeInno_def NormalizeDmg_def NormalizePkg_def Let_def json_only_simps
      split: option.split)

lemma json_only_NormalizeInstall [json_only_simps]: "json_only (NormalizeInstall v b)"
  by (simp add: NormalizeInstall_def optional_section_def json_only_simps split: option.split)

lemma json_only_InnoArgumentsLoop [json_only_simps]: "json_only (InnoArgumentsLoop vs u n r)"
  by (induction vs u n r rule: InnoArgumentsLoop.induct) (simp_all add: json_only_simps)

lemma json_only_ThumbprintsLoop [json_only_simps]: "json_only (ThumbprintsLoop vs t)"
  by (induction vs t rule: ThumbprintsLoop.induct) (simp_all add: Let_def json_only_simps)

lemma json_only_MinimumOSLoop [json_only_simps]: "json_only (MinimumOSLoop es m)"
  by (induction es m rule: MinimumOSLoop.induct) (simp_all add: Let_def json_only_simps)

lemma json_only_ValidateInstall [json_only_simps]: "json_only (ValidateInstall d)"
  by (simp add: ValidateInstall_def ValidateDmg_def ValidatePkg_def ValidateInno_def
      ValidateAuthenticode_def Let_def json_only_simps split: option.split prod.split)

lemma json_only_ParseArtifact [json_only_simps]:
  "json_only (ParseArtifact v)" "json_only (NormalizeDelta v)"
  by (simp_all add: ParseArtifact_def ValidateArtifact_def NormalizeDelta_def Let_def json_only_simps)

lemma json_only_parts [json_only_simps]:
  "json_only (ParseChannel v)" "json_only (ParseRollout v)" "json_only (ParseFreshInstall v)"
  "json_only (ParseItemBuild v)" "json_only (ParseSupportPolicy v)" "json_only (ParseIndexSignature v)"
  "json_only (ParseDescriptorSignature v)" "json_only (ParseDescriptorBuild v)"
  by (simp_all add: ParseChannel_def ParseRollout_def ParseFreshInstall_def ParseItemBuild_def
      ParseSupportPolicy_def ParseIndexSignature_def ParseDescriptorSignature_def
      ParseDescriptorBuild_def json_only_simps split: option.split)

lemma json_only_ParseReleaseIndex: "json_only (ParseReleaseIndex s)"
  by (simp add: ParseReleaseIndex_def ParseReleaseIndexItem_def json_only_simps split: option.split prod.split)

lemma json_only_ParseReleaseDescriptor: "json_only (ParseReleaseDescriptor s)"
  by (simp add: ParseReleaseDescriptor_def DescriptorOfJson_def Let_def json_only_simps
      split: option.split prod.split)

end
