(* ===== verification/Update_Client_Core.thy ===== *)
theory Update_Client_Core
  imports Json_Errors
begin

text \<open>
  The update check, \<^verbatim>\<open>update_client_core.{h,cc}\<close>. The transport is a function of the number of
  the call and the address, so that it may answer the two downloads of a check independently; the
  clock, the digest and the operating-system resolver are arguments as well. The transport, the digest and
  the resolver may throw whatever they like. A missing dependency
  (a null transport, an empty function) is \<^const>\<open>None\<close>.
\<close>

section \<open>Configuration and result\<close>

record ClientConfiguration =
  cfg_app_archive_url :: string
  cfg_expected_package_id :: string
  cfg_current_version :: string
  cfg_has_current_build_number :: bool
  cfg_current_build_number :: int
  cfg_current_updater_version :: string
  cfg_platform :: string
  cfg_channel :: string
  cfg_installation_identity :: string
  cfg_pinned_public_keys_by_id :: "(string, bytes) std_map"
  cfg_minimum_os_resolver :: "(string \<Rightarrow> string \<Rightarrow> bool result) option"

record ClientCheckResult =
  check_outcome :: string
  check_message :: string
  check_support_policy_status :: string
  check_has_selected_item :: bool
  check_selected_item :: ReleaseIndexItem
  check_has_descriptor :: bool
  check_descriptor :: ReleaseDescriptor

definition no_item :: ReleaseIndexItem where
  "no_item = \<lparr>item_version = [], item_has_build_number = False, item_build_number = 0,
     item_platform = [], item_channel = [], item_mandatory = False, item_release = [],
     item_has_rollout = False, item_rollout = \<lparr>rollout_percentage = 0, rollout_salt = []\<rparr>,
     item_has_fresh_install = False,
     item_fresh_install = \<lparr>fresh_download_url = [], fresh_has_message = False, fresh_message = []\<rparr>,
     item_raw = kNull\<rparr>"

definition no_descriptor :: ReleaseDescriptor where
  "no_descriptor = \<lparr>desc_schema_version = 0, desc_package_id = [], desc_app_name = [],
     desc_version = [], desc_has_build_number = False, desc_build_number = 0, desc_platform = [],
     desc_channel = [],
     desc_artifact = \<lparr>artifact_kind = [], artifact_url = [], artifact_sha256 = [],
       artifact_length = 0, artifact_raw = kNull\<rparr>,
     desc_wire_install = kNull, desc_install = kNull, desc_has_signature = False,
     desc_signature = no_signature, desc_minimum_updater_version = [], desc_minimum_os = [],
     desc_delta_artifacts = [], desc_generated_at = [], desc_raw = kNull\<rparr>"

text \<open>\<^verbatim>\<open>ClientCheckResult result;\<close>\<close>

definition default_check_result :: ClientCheckResult where
  "default_check_result = \<lparr>check_outcome = ''invalidDescriptor'', check_message = [],
     check_support_policy_status = ''supported'', check_has_selected_item = False,
     check_selected_item = no_item, check_has_descriptor = False, check_descriptor = no_descriptor\<rparr>"

definition Failure :: "string \<Rightarrow> string \<Rightarrow> ClientCheckResult" where
  "Failure outcome message =
     default_check_result\<lparr>check_outcome := outcome, check_message := message\<rparr>"

definition FailureWithSupport :: "string \<Rightarrow> string \<Rightarrow> string \<Rightarrow> ClientCheckResult" where
  "FailureWithSupport outcome message support_status =
     (Failure outcome message)\<lparr>check_support_policy_status := support_status\<rparr>"

section \<open>Helpers\<close>

definition IsNewer :: "ReleaseIndexItem \<Rightarrow> DesktopVersion \<Rightarrow> bool result" where
  "IsNewer item current_version =
     bindE (ItemVersion item) (\<lambda>v.
     bindE (CompareDesktopVersions v current_version) (\<lambda>c. Inr (c > 0)))"

definition SupportedArtifact :: "string \<Rightarrow> string \<Rightarrow> bool" where
  "SupportedArtifact platform kind =
     (if platform = ''macos'' then kind = ''zip'' \<or> kind = ''dmg'' \<or> kind = ''pkgInstaller''
      else if platform = ''windows'' then kind = ''zip'' \<or> kind = ''innoInstaller''
      else platform = ''linux'' \<and> kind = ''zip'')"

definition BytesToString :: "bytes \<Rightarrow> string" where
  "BytesToString bs = map (\<lambda>b. char_of (unat b)) bs"

text \<open>\<^verbatim>\<open>std::any_of\<close> over the items, which stops at the first hit.\<close>

fun HasNewer :: "ClientConfiguration \<Rightarrow> DesktopVersion \<Rightarrow> ReleaseIndexItem list \<Rightarrow> bool result" where
  "HasNewer configuration current_version [] = Inr False"
| "HasNewer configuration current_version (item # items) =
     (if item_platform item = cfg_platform configuration \<and>
         item_channel item = cfg_channel configuration
      then bindE (IsNewer item current_version) (\<lambda>newer.
        if newer then Inr True else HasNewer configuration current_version items)
      else HasNewer configuration current_version items)"

text \<open>The handlers \<^verbatim>\<open>catch (const JsonError&)\<close> and \<^verbatim>\<open>catch (const std::runtime_error&)\<close>.\<close>

fun is_runtime_error :: "cpp_exception \<Rightarrow> bool" where
  "is_runtime_error (InvalidArgument m) = False"
| "is_runtime_error (OutOfRange m) = False"
| "is_runtime_error BadFunctionCall = False"
| "is_runtime_error BadAlloc = False"
| "is_runtime_error e = True"

definition catch_json :: "'a result \<Rightarrow> (string \<Rightarrow> 'b result) \<Rightarrow> ('a \<Rightarrow> 'b result) \<Rightarrow> 'b result" where
  "catch_json r handler continue = (case r of
       Inr x \<Rightarrow> continue x
     | Inl (JsonError m) \<Rightarrow> handler m
     | Inl e \<Rightarrow> Inl e)"

definition catch_runtime :: "'a result \<Rightarrow> (string \<Rightarrow> 'b result) \<Rightarrow> ('a \<Rightarrow> 'b result) \<Rightarrow> 'b result" where
  "catch_runtime r handler continue = (case r of
       Inr x \<Rightarrow> continue x
     | Inl e \<Rightarrow> if is_runtime_error e then handler (what_of e) else Inl e)"

section \<open>The check\<close>

text \<open>The part after the descriptor is parsed.\<close>

definition DecideDescriptor ::
    "ed25519_check \<Rightarrow> ClientConfiguration \<Rightarrow> (string \<Rightarrow> string \<Rightarrow> bool result) \<Rightarrow> ReleaseIndexItem \<Rightarrow>
     ClientCheckResult \<Rightarrow> ClientCheckResult result" where
  "DecideDescriptor check configuration resolver selected result =
     (let binding = DescriptorBindingOutcome (check_descriptor result) selected
            (cfg_expected_package_id configuration) in
      if binding \<noteq> ''match'' then
        Inr (result\<lparr>check_outcome := binding,
          check_message := ''Descriptor does not match its selected index item.''\<rparr>)
      else if \<not> VerifyDescriptorSignature check (check_descriptor result)
                (cfg_pinned_public_keys_by_id configuration) then
        Inr (result\<lparr>check_outcome := ''signatureFailure'',
          check_message := ''Descriptor Ed25519 signature is invalid.''\<rparr>)
      else
        catch_json
          (bindE (ParseDesktopVersion (cfg_current_updater_version configuration) False 0) (\<lambda>updater.
             DescriptorPolicyOutcome (check_descriptor result) updater (cfg_platform configuration) resolver))
          (\<lambda>message. Inr (result\<lparr>check_outcome := ''invalidDescriptor'', check_message := message\<rparr>))
          (\<lambda>policy.
            if policy \<noteq> ''updateAvailable'' then
              Inr (result\<lparr>check_outcome := policy,
                check_message := ''Selected descriptor is not installable on this host.''\<rparr>)
            else if item_has_fresh_install selected then
              Inr (result\<lparr>check_outcome := ''freshInstallRequired'',
                check_message := ''Selected release requires a fresh install.''\<rparr>)
            else if \<not> SupportedArtifact (cfg_platform configuration)
                      (artifact_kind (desc_artifact (check_descriptor result))) then
              Inr (result\<lparr>check_outcome := ''unsupportedArtifactKind'',
                check_message := ''Artifact kind is not supported on this platform.''\<rparr>)
            else
              Inr (result\<lparr>check_outcome := ''updateAvailable'',
                check_message := ''Verified selected native release descriptor.''\<rparr>)))"

text \<open>The part after the index is parsed and verified.\<close>

definition DecideIndex ::
    "ed25519_check \<Rightarrow> string \<Rightarrow> ClientConfiguration \<Rightarrow> (nat \<Rightarrow> string \<Rightarrow> bytes result) \<Rightarrow>
     Sha256Function \<Rightarrow> (string \<Rightarrow> string \<Rightarrow> bool result) \<Rightarrow> ReleaseIndex \<Rightarrow> ClientCheckResult result" where
  "DecideIndex check now configuration download sha256 resolver index =
     catch_json
       (ParseDesktopVersion (cfg_current_version configuration)
          (cfg_has_current_build_number configuration) (cfg_current_build_number configuration))
       (\<lambda>message. Inr (Failure ''invalidDescriptor'' message))
       (\<lambda>current_version.
     bindE (if index_has_support_policy index then
              bindE (SupportPolicyOutcome (index_support_policy index) current_version now) (\<lambda>outcome.
                Inr (if outcome = ''supportPolicyBlocked'' then ''blocked''
                     else if outcome = ''supportPolicyWarning'' then ''warning''
                     else ''supported''))
            else Inr ''supported'') (\<lambda>support_status.
     bindE (HasNewer configuration current_version (index_items index)) (\<lambda>has_newer.
       if \<not> has_newer then
         Inr (FailureWithSupport ''noUpdate'' ''No newer release is available.'' support_status)
       else
         catch_json
           (SelectReleaseIndexItem index (cfg_platform configuration) (cfg_channel configuration)
              current_version (cfg_installation_identity configuration) sha256)
           (\<lambda>message. Inr (FailureWithSupport ''invalidDescriptor'' message support_status))
           (\<lambda>selected. case selected of
              None \<Rightarrow> Inr (FailureWithSupport ''rolloutIneligible''
                ''Installation is outside the rollout cohort.'' support_status)
            | Some item \<Rightarrow>
                catch_runtime (download 1 (item_release item))
                  (\<lambda>message. Inr (FailureWithSupport ''downloadFailure'' message support_status))
                  (\<lambda>descriptor_bytes.
                catch_json (ParseReleaseDescriptor (BytesToString descriptor_bytes))
                  (\<lambda>message. Inr (FailureWithSupport ''invalidDescriptor'' message support_status))
                  (\<lambda>descriptor.
                    DecideDescriptor check configuration resolver item
                      (default_check_result\<lparr>check_support_policy_status := support_status,
                         check_has_selected_item := True, check_selected_item := item,
                         check_descriptor := descriptor, check_has_descriptor := True\<rparr>)))))))"

definition CheckForUpdateCore ::
    "ed25519_check \<Rightarrow> string \<Rightarrow> ClientConfiguration \<Rightarrow> (nat \<Rightarrow> string \<Rightarrow> bytes result) option \<Rightarrow>
     Sha256Function option \<Rightarrow> ClientCheckResult result" where
  "CheckForUpdateCore check now configuration transport sha256 =
     (case (transport, sha256, cfg_minimum_os_resolver configuration) of
        (Some download, Some sha, Some resolver) \<Rightarrow>
          catch_runtime (download 0 (cfg_app_archive_url configuration))
            (\<lambda>message. Inr (Failure ''downloadFailure'' message))
            (\<lambda>index_bytes.
          catch_json (ParseReleaseIndex (BytesToString index_bytes))
            (\<lambda>message. Inr (Failure ''invalidDescriptor'' message))
            (\<lambda>index.
          bindE (VerifyIndexSignature check index (cfg_pinned_public_keys_by_id configuration))
            (\<lambda>verified.
              if \<not> verified then
                Inr (Failure ''signatureFailure'' ''App archive Ed25519 signature is invalid.'')
              else DecideIndex check now configuration download sha resolver index)))
      | _ \<Rightarrow> Inr (Failure ''invalidDescriptor'' ''Runtime dependencies are missing.''))"

section \<open>The handlers are complete\<close>

lemma catch_json_Inr_iff:
  "catch_json r handler continue = Inr y \<longleftrightarrow>
     (\<exists>x. r = Inr x \<and> continue x = Inr y) \<or> (\<exists>m. r = Inl (JsonError m) \<and> handler m = Inr y)"
  by (auto simp: catch_json_def split: sum.splits cpp_exception.splits)

lemma catch_runtime_Inr_iff:
  "catch_runtime r handler continue = Inr y \<longleftrightarrow>
     (\<exists>x. r = Inr x \<and> continue x = Inr y) \<or>
     (\<exists>e. r = Inl e \<and> is_runtime_error e \<and> handler (what_of e) = Inr y)"
  by (auto simp: catch_runtime_def split: sum.splits if_splits)

text \<open>The documented outcomes of a check.\<close>

definition documented_outcomes :: "string set" where
  "documented_outcomes = {''invalidDescriptor'', ''downloadFailure'', ''signatureFailure'', ''noUpdate'',
     ''rolloutIneligible'', ''packageIdentityMismatch'', ''unsupportedMinimumUpdater'',
     ''unsupportedMinimumOS'', ''freshInstallRequired'', ''unsupportedArtifactKind'', ''updateAvailable''}"

text \<open>
  Exceptions that are not the library's own. A computation that throws the JSON error or what \<open>P\<close> allows, and a check that
  has a documented outcome or ends with an exception that \<open>P\<close> allows and no handler of JSON errors would have caught.
\<close>

definition throws_only :: "(cpp_exception \<Rightarrow> bool) \<Rightarrow> 'a result \<Rightarrow> bool" where
  "throws_only P r \<longleftrightarrow> (\<forall>e. r = Inl e \<longrightarrow> (\<exists>m. e = JsonError m) \<or> P e)"

lemma throws_only_basic [simp]:
  "throws_only P (Inr x)" "throws_only P (Inl (JsonError m))"
  "throws_only P (bindE r f) \<longleftrightarrow> throws_only P r \<and> (\<forall>x. r = Inr x \<longrightarrow> throws_only P (f x))"
  by (auto simp: throws_only_def bindE_Inl_iff)

lemma throws_only_json: "json_only r \<Longrightarrow> throws_only P r"
  by (auto simp: throws_only_def json_only_def)

definition settles :: "(cpp_exception \<Rightarrow> bool) \<Rightarrow> ClientCheckResult result \<Rightarrow> bool" where
  "settles P c \<longleftrightarrow> (case c of Inr r \<Rightarrow> check_outcome r \<in> documented_outcomes | Inl e \<Rightarrow> P e \<and> (\<forall>m. e \<noteq> JsonError m))"

lemma settles_Inr [simp]: "settles P (Inr r) \<longleftrightarrow> check_outcome r \<in> documented_outcomes"
  by (simp add: settles_def)

lemma settles_catch_json:
  "throws_only P r \<Longrightarrow> (\<And>m. settles P (handler m)) \<Longrightarrow> (\<And>x. r = Inr x \<Longrightarrow> settles P (continue x)) \<Longrightarrow>
     settles P (catch_json r handler continue)"
  by (cases r) (auto simp: catch_json_def throws_only_def settles_def [of P "Inl e" for e] split: cpp_exception.split)

lemma settles_catch_runtime:
  "(\<And>e. r = Inl e \<Longrightarrow> \<not> is_runtime_error e \<Longrightarrow> P e) \<Longrightarrow> (\<And>m. settles P (handler m)) \<Longrightarrow>
     (\<And>x. r = Inr x \<Longrightarrow> settles P (continue x)) \<Longrightarrow> settles P (catch_runtime r handler continue)"
  by (cases r) (auto simp: catch_runtime_def settles_def)

lemma check_outcome_Failure [simp]:
  "check_outcome (Failure outcome message) = outcome"
  "check_outcome (FailureWithSupport outcome message status) = outcome"
  by (simp_all add: Failure_def FailureWithSupport_def)

lemma DescriptorBindingOutcome_cases:
  "DescriptorBindingOutcome d item package \<in> {''packageIdentityMismatch'', ''invalidDescriptor'', ''match''}"
  by (simp add: DescriptorBindingOutcome_def)

lemma json_only_compare: "json_only (CompareDesktopVersions v w)"
  using CompareDesktopVersions_total [of v w] by auto

lemma throws_only_DescriptorPolicyOutcome:
  assumes "\<And>platform os e. resolver platform os = Inl e \<Longrightarrow> P e"
  shows "throws_only P (DescriptorPolicyOutcome d updater platform resolver)"
proof -
  have "throws_only P (resolver platform os)" for os using assms by (auto simp: throws_only_def)
  then show ?thesis
    by (simp add: DescriptorPolicyOutcome_def throws_only_json json_only_simps json_only_compare split: option.split)
qed

lemma DescriptorPolicyOutcome_cases:
  "DescriptorPolicyOutcome d updater platform resolver = Inr policy \<Longrightarrow>
     policy \<in> {''unsupportedMinimumUpdater'', ''unsupportedMinimumOS'', ''updateAvailable''}"
  by (auto simp: DescriptorPolicyOutcome_def bindE_Inr_iff split: if_splits option.splits)

lemma settles_DecideDescriptor:
  assumes "\<And>platform os e. resolver platform os = Inl e \<Longrightarrow> P e"
  shows "settles P (DecideDescriptor check configuration resolver selected result)"
proof -
  have policy: "check_outcome (result\<lparr>check_outcome := policy, check_message := m\<rparr>) \<in> documented_outcomes"
    if "bindE (ParseDesktopVersion (cfg_current_updater_version configuration) False 0) (\<lambda>updater.
      DescriptorPolicyOutcome (check_descriptor result) updater (cfg_platform configuration) resolver) = Inr policy"
    for policy m
    using that by (auto simp: bindE_Inr_iff documented_outcomes_def dest!: DescriptorPolicyOutcome_cases)
  show ?thesis
    using DescriptorBindingOutcome_cases [of "check_descriptor result" selected
        "cfg_expected_package_id configuration"] throws_only_DescriptorPolicyOutcome [of resolver P, OF assms]
    by (auto simp: DecideDescriptor_def Let_def documented_outcomes_def throws_only_json json_only_simps
        dest: policy intro!: settles_catch_json)
qed

text \<open>The selection throws nothing but the JSON error and what the digest throws.\<close>

lemma throws_only_SelectLoop:
  assumes "\<And>s e. sha256 s = Inl e \<Longrightarrow> P e"
  shows "throws_only P (SelectLoop platform channel current identity sha256 items selected)"
proof -
  have sha: "throws_only P (sha256 s)" for s using assms by (auto simp: throws_only_def)
  have rollout: "throws_only P (RolloutIncludes item identity sha256)" for item
    by (simp add: RolloutIncludes_def Let_def sha)
  have "throws_only P (ItemVersion item)" for item
    by (simp add: ItemVersion_def throws_only_json json_only_simps)
  with rollout throws_only_json [OF json_only_compare, of P] show ?thesis
    by (induction items arbitrary: selected) (simp_all split: option.split)
qed

lemma HasNewer_total:
  assumes "\<And>item. item \<in> set items \<Longrightarrow> \<exists>v. ItemVersion item = Inr v"
  shows "\<exists>b. HasNewer configuration current items = Inr b"
  using assms
proof (induction items)
  case (Cons item items)
  obtain v where v: "ItemVersion item = Inr v" using Cons.prems by auto
  obtain c where "CompareDesktopVersions v current = Inr c" using CompareDesktopVersions_total by blast
  moreover have "\<exists>b. HasNewer configuration current items = Inr b" using Cons by simp
  ultimately show ?case using v by (auto simp: IsNewer_def)
qed auto

lemma SupportPolicyOutcome_total:
  assumes "ParseInstant now = Inr t" and "ParseInstant (policy_enforced_after policy) = Inr deadline"
  shows "\<exists>s. SupportPolicyOutcome policy current now = Inr s"
proof -
  obtain c where "CompareDesktopVersions current (policy_minimum_supported_version policy) = Inr c"
    using CompareDesktopVersions_total by blast
  with assms show ?thesis by (simp add: SupportPolicyOutcome_def Let_def)
qed

lemma ParseReleaseIndex_deadline:
  assumes "ParseReleaseIndex json = Inr index" and "index_has_support_policy index"
  shows "\<exists>t. ParseInstant (policy_enforced_after (index_support_policy index)) = Inr t"
  using assms
  by (auto simp: ParseReleaseIndex_def ParseSupportPolicy_def bindE_Inr_iff split: if_splits option.splits)

lemma settles_DecideIndex:
  assumes index: "ParseReleaseIndex json = Inr index" and clock: "ParseInstant now = Inr t"
    and sha: "\<And>s e. sha256 s = Inl e \<Longrightarrow> P e" and resolver: "\<And>platform os e. resolver platform os = Inl e \<Longrightarrow> P e"
    and transport: "\<And>n url e. download n url = Inl e \<Longrightarrow> \<not> is_runtime_error e \<Longrightarrow> P e"
  shows "settles P (DecideIndex check now configuration download sha256 resolver index)"
proof -
  have newer: "\<exists>b. HasNewer configuration current (index_items index) = Inr b" for current
    using ParseReleaseIndex_versions [OF index] by (rule HasNewer_total)
  have select: "throws_only P (SelectReleaseIndexItem index platform channel current identity sha256)"
    for platform channel current identity
    unfolding SelectReleaseIndexItem_def using sha by (rule throws_only_SelectLoop)
  have policy: "\<exists>s. SupportPolicyOutcome (index_support_policy index) current now = Inr s"
    if "index_has_support_policy index" for current
    using ParseReleaseIndex_deadline [OF index that] SupportPolicyOutcome_total [OF clock] by blast
  have support: "\<exists>status. (if index_has_support_policy index then
              bindE (SupportPolicyOutcome (index_support_policy index) current now) (\<lambda>outcome.
                Inr (if outcome = ''supportPolicyBlocked'' then ''blocked''
                     else if outcome = ''supportPolicyWarning'' then ''warning''
                     else ''supported''))
            else Inr ''supported'') = Inr status" for current
    using policy [of current] by auto
  show ?thesis
  proof (unfold DecideIndex_def, rule settles_catch_json, goal_cases)
    case (3 current)
    obtain status where status: "(if index_has_support_policy index then
              bindE (SupportPolicyOutcome (index_support_policy index) current now) (\<lambda>outcome.
                Inr (if outcome = ''supportPolicyBlocked'' then ''blocked''
                     else if outcome = ''supportPolicyWarning'' then ''warning''
                     else ''supported''))
            else Inr ''supported'') = Inr status"
      using support by blast
    obtain b where b: "HasNewer configuration current (index_items index) = Inr b" using newer by blast
    show ?case
      unfolding status b bindE_simps using transport
      by (auto simp: documented_outcomes_def throws_only_json json_only_ParseReleaseDescriptor
          intro!: select settles_DecideDescriptor [OF resolver] settles_catch_json settles_catch_runtime split: option.split)
  qed (simp_all add: throws_only_json json_only_simps documented_outcomes_def)
qed

section \<open>Properties\<close>

text \<open>
  C22. The check is complete: given a readable clock, whatever the transport delivers and whatever the callbacks answer, it either comes back with
  one of the documented outcomes, or it ends with an exception that came from outside: one of the transport that is not a runtime error, such
  as \<^verbatim>\<open>std::bad_alloc\<close>, or one that the digest or the operating-system resolver threw and that is not a JSON error. No exception of
  any parser, of the selection, of the signature checks or of the policies escapes, and a digest of a wrong size is an outcome; so with
  callbacks that return and a transport that throws runtime errors only, the check always returns.
\<close>

theorem check_exceptions_foreign:
  assumes "ParseInstant now = Inr t"
  shows "case CheckForUpdateCore check now configuration (Some download) (Some sha256) of
      Inr r \<Rightarrow> check_outcome r \<in> documented_outcomes
    | Inl e \<Rightarrow> (\<exists>n url. download n url = Inl e) \<and> \<not> is_runtime_error e \<or>
        ((\<exists>s. sha256 s = Inl e) \<or> (\<exists>resolver platform os. cfg_minimum_os_resolver configuration = Some resolver \<and>
          resolver platform os = Inl e)) \<and> (\<forall>m. e \<noteq> JsonError m)"
proof -
  define P where "P e \<longleftrightarrow> (\<exists>n url. download n url = Inl e) \<and> \<not> is_runtime_error e \<or> (\<exists>s. sha256 s = Inl e) \<or>
     (\<exists>resolver platform os. cfg_minimum_os_resolver configuration = Some resolver \<and> resolver platform os = Inl e)" for e
  have "settles P (CheckForUpdateCore check now configuration (Some download) (Some sha256))"
  proof (cases "cfg_minimum_os_resolver configuration")
    case None
    then show ?thesis by (simp add: CheckForUpdateCore_def documented_outcomes_def)
  next
    case (Some resolver)
    have throwing: "\<And>s e. sha256 s = Inl e \<Longrightarrow> P e" "\<And>platform os e. resolver platform os = Inl e \<Longrightarrow> P e"
      and transport: "\<And>n url e. download n url = Inl e \<Longrightarrow> \<not> is_runtime_error e \<Longrightarrow> P e"
      by (auto simp: P_def Some)
    have "settles P (bindE (VerifyIndexSignature check index (cfg_pinned_public_keys_by_id configuration))
            (\<lambda>verified.
              if \<not> verified then
                Inr (Failure ''signatureFailure'' ''App archive Ed25519 signature is invalid.'')
              else DecideIndex check now configuration download sha256 resolver index))"
      if "ParseReleaseIndex json = Inr index" for json index
      using VerifyIndexSignature_total [OF that, of check "cfg_pinned_public_keys_by_id configuration"]
        settles_DecideIndex [OF that assms, of sha256 P resolver download, OF throwing transport]
      by (auto simp: documented_outcomes_def)
    then show ?thesis
      using transport unfolding CheckForUpdateCore_def
      by (auto simp: Some throws_only_json json_only_ParseReleaseIndex documented_outcomes_def
          intro!: settles_catch_runtime settles_catch_json)
  qed
  then show ?thesis by (auto simp: settles_def P_def split: sum.splits)
qed

definition sample_configuration :: ClientConfiguration where
  "sample_configuration = \<lparr>cfg_app_archive_url = ''https://h/i'', cfg_expected_package_id = ''app'',
     cfg_current_version = ''1.0.0'', cfg_has_current_build_number = False,
     cfg_current_build_number = 0, cfg_current_updater_version = ''1.0.0'', cfg_platform = ''linux'',
     cfg_channel = ''stable'', cfg_installation_identity = ''id'',
     cfg_pinned_public_keys_by_id = [(''k'', replicate 32 0)],
     cfg_minimum_os_resolver = Some (\<lambda>_ _. Inr True)\<rparr>"

theorem check_exceptions_foreign_witness:
  "\<exists>r. CheckForUpdateCore (\<lambda>_ _ _. False) ''2000-02-29T12:15:54.120Z'' sample_configuration
     (Some (\<lambda>n url. if n = 0 then Inr [0x7B] else Inl (RuntimeError ''offline''))) (Some (\<lambda>_. Inr (replicate 32 0))) =
     Inr r \<and> check_outcome r \<in> documented_outcomes"
  using check_exceptions_foreign [OF sample_parts(5), where check = "\<lambda>_ _ _. False" and configuration = sample_configuration
      and download = "\<lambda>n url. if n = 0 then Inr [0x7B] else Inl (RuntimeError ''offline'')" and ?sha256.0 = "\<lambda>_. Inr (replicate 32 0)"]
  by (auto simp: sample_configuration_def split: sum.splits if_splits)

text \<open>An exception of the transport that is not a runtime error does escape.\<close>

lemma foreign_exception_escapes:
  "CheckForUpdateCore check now sample_configuration (Some (\<lambda>_ _. Inl BadAlloc)) (Some sha256) = Inl BadAlloc"
  by (simp add: CheckForUpdateCore_def sample_configuration_def catch_runtime_def)

lemma DecideDescriptor_available:
  assumes "DecideDescriptor check configuration resolver selected result = Inr r"
    and "check_outcome r = ''updateAvailable''"
  shows "r = result\<lparr>check_outcome := ''updateAvailable'',
      check_message := ''Verified selected native release descriptor.''\<rparr> \<and>
    DescriptorBindingOutcome (check_descriptor result) selected (cfg_expected_package_id configuration) = ''match'' \<and>
    VerifyDescriptorSignature check (check_descriptor result) (cfg_pinned_public_keys_by_id configuration) \<and>
    (\<exists>updater. ParseDesktopVersion (cfg_current_updater_version configuration) False 0 = Inr updater \<and>
      DescriptorPolicyOutcome (check_descriptor result) updater (cfg_platform configuration) resolver =
        Inr ''updateAvailable'') \<and>
    \<not> item_has_fresh_install selected \<and>
    SupportedArtifact (cfg_platform configuration) (artifact_kind (desc_artifact (check_descriptor result)))"
proof -
  have binding: "DescriptorBindingOutcome (check_descriptor result) selected
      (cfg_expected_package_id configuration) = ''match''"
    using assms DescriptorBindingOutcome_cases [of "check_descriptor result" selected
        "cfg_expected_package_id configuration"]
    by (auto simp: DecideDescriptor_def Let_def split: if_splits)
  moreover have signed: "VerifyDescriptorSignature check (check_descriptor result)
      (cfg_pinned_public_keys_by_id configuration)"
    using assms binding by (auto simp: DecideDescriptor_def Let_def split: if_splits)
  moreover obtain updater policy where policy:
    "ParseDesktopVersion (cfg_current_updater_version configuration) False 0 = Inr updater"
    "DescriptorPolicyOutcome (check_descriptor result) updater (cfg_platform configuration) resolver = Inr policy"
    using assms binding signed
    by (auto simp: DecideDescriptor_def catch_json_Inr_iff bindE_Inr_iff)
  moreover have "policy = ''updateAvailable''"
    using assms binding signed policy
    by (cases "policy = ''updateAvailable''") (auto simp: DecideDescriptor_def catch_json_def)
  ultimately show ?thesis
    using assms by (auto simp: DecideDescriptor_def catch_json_def split: if_splits)
qed

lemma DecideIndex_available:
  assumes "DecideIndex check now configuration download sha256 resolver index = Inr r"
    and "check_outcome r = ''updateAvailable''"
  obtains current item status descriptor_bytes descriptor where
    "ParseDesktopVersion (cfg_current_version configuration) (cfg_has_current_build_number configuration)
      (cfg_current_build_number configuration) = Inr current"
    "SelectReleaseIndexItem index (cfg_platform configuration) (cfg_channel configuration) current
      (cfg_installation_identity configuration) sha256 = Inr (Some item)"
    "download 1 (item_release item) = Inr descriptor_bytes"
    "ParseReleaseDescriptor (BytesToString descriptor_bytes) = Inr descriptor"
    "DecideDescriptor check configuration resolver item
        (default_check_result\<lparr>check_support_policy_status := status,
           check_has_selected_item := True, check_selected_item := item,
           check_descriptor := descriptor, check_has_descriptor := True\<rparr>) = Inr r"
proof -
  from assms(1) obtain current status has_newer where
    current: "ParseDesktopVersion (cfg_current_version configuration)
      (cfg_has_current_build_number configuration) (cfg_current_build_number configuration) = Inr current"
    and rest: "(if \<not> has_newer then
         Inr (FailureWithSupport ''noUpdate'' ''No newer release is available.'' status)
       else
         catch_json
           (SelectReleaseIndexItem index (cfg_platform configuration) (cfg_channel configuration)
              current (cfg_installation_identity configuration) sha256)
           (\<lambda>message. Inr (FailureWithSupport ''invalidDescriptor'' message status))
           (\<lambda>selected. case selected of
              None \<Rightarrow> Inr (FailureWithSupport ''rolloutIneligible''
                ''Installation is outside the rollout cohort.'' status)
            | Some item \<Rightarrow>
                catch_runtime (download 1 (item_release item))
                  (\<lambda>message. Inr (FailureWithSupport ''downloadFailure'' message status))
                  (\<lambda>descriptor_bytes.
                catch_json (ParseReleaseDescriptor (BytesToString descriptor_bytes))
                  (\<lambda>message. Inr (FailureWithSupport ''invalidDescriptor'' message status))
                  (\<lambda>descriptor.
                    DecideDescriptor check configuration resolver item
                      (default_check_result\<lparr>check_support_policy_status := status,
                         check_has_selected_item := True, check_selected_item := item,
                         check_descriptor := descriptor, check_has_descriptor := True\<rparr>))))) = Inr r"
    unfolding DecideIndex_def catch_json_Inr_iff [where handler = "\<lambda>message. Inr (Failure _ message)"]
      bindE_Inr_iff
    using assms(2) by auto
  from rest assms(2) show ?thesis
    by (auto simp: catch_runtime_Inr_iff catch_json_Inr_iff simp del: One_nat_def
        split: if_splits option.splits intro: that [OF current])
qed

text \<open>
  C2. An update is offered only for a verified release: when the check answers
  \<^verbatim>\<open>updateAvailable\<close>, the first download parsed as an index whose Ed25519 signature verified
  against a pinned key, the selected item is the selection from that index for the installed version,
  platform and channel, the second download was made from the item's address and parsed as the
  descriptor of the result, that descriptor carries the expected package and the version, build
  number, platform and channel of the item, its own signature verified against a pinned key, the
  updater and system minimums hold, no fresh install is required and the artifact kind is one the
  platform supports.
\<close>

theorem update_available_verified:
  assumes "CheckForUpdateCore check now configuration (Some download) (Some sha256) = Inr r"
    and "check_outcome r = ''updateAvailable''"
  shows "\<exists>resolver index_bytes index current descriptor_bytes updater.
    cfg_minimum_os_resolver configuration = Some resolver \<and>
    download 0 (cfg_app_archive_url configuration) = Inr index_bytes \<and>
    ParseReleaseIndex (BytesToString index_bytes) = Inr index \<and>
    VerifyIndexSignature check index (cfg_pinned_public_keys_by_id configuration) = Inr True \<and>
    ParseDesktopVersion (cfg_current_version configuration) (cfg_has_current_build_number configuration)
      (cfg_current_build_number configuration) = Inr current \<and>
    SelectReleaseIndexItem index (cfg_platform configuration) (cfg_channel configuration) current
      (cfg_installation_identity configuration) sha256 = Inr (Some (check_selected_item r)) \<and>
    download 1 (item_release (check_selected_item r)) = Inr descriptor_bytes \<and>
    ParseReleaseDescriptor (BytesToString descriptor_bytes) = Inr (check_descriptor r) \<and>
    DescriptorBindingOutcome (check_descriptor r) (check_selected_item r)
      (cfg_expected_package_id configuration) = ''match'' \<and>
    VerifyDescriptorSignature check (check_descriptor r) (cfg_pinned_public_keys_by_id configuration) \<and>
    ParseDesktopVersion (cfg_current_updater_version configuration) False 0 = Inr updater \<and>
    DescriptorPolicyOutcome (check_descriptor r) updater (cfg_platform configuration) resolver =
      Inr ''updateAvailable'' \<and>
    \<not> item_has_fresh_install (check_selected_item r) \<and>
    SupportedArtifact (cfg_platform configuration) (artifact_kind (desc_artifact (check_descriptor r))) \<and>
    check_has_selected_item r \<and> check_has_descriptor r"
proof -
  obtain resolver where resolver: "cfg_minimum_os_resolver configuration = Some resolver"
    using assms by (auto simp: CheckForUpdateCore_def split: option.splits)
  then obtain index_bytes index where i: "download 0 (cfg_app_archive_url configuration) = Inr index_bytes"
    "ParseReleaseIndex (BytesToString index_bytes) = Inr index"
    "VerifyIndexSignature check index (cfg_pinned_public_keys_by_id configuration) = Inr True"
    "DecideIndex check now configuration download sha256 resolver index = Inr r"
    using assms by (auto simp: CheckForUpdateCore_def catch_runtime_Inr_iff catch_json_Inr_iff
        bindE_Inr_iff split: if_splits)
  from i(4) assms(2) show ?thesis
  proof (rule DecideIndex_available)
    fix current item status descriptor_bytes descriptor
    let ?result = "default_check_result\<lparr>check_support_policy_status := status,
         check_has_selected_item := True, check_selected_item := item,
         check_descriptor := descriptor, check_has_descriptor := True\<rparr>"
    assume d: "ParseDesktopVersion (cfg_current_version configuration)
        (cfg_has_current_build_number configuration) (cfg_current_build_number configuration) = Inr current"
      "SelectReleaseIndexItem index (cfg_platform configuration) (cfg_channel configuration) current
        (cfg_installation_identity configuration) sha256 = Inr (Some item)"
      "download 1 (item_release item) = Inr descriptor_bytes"
      "ParseReleaseDescriptor (BytesToString descriptor_bytes) = Inr descriptor"
      "DecideDescriptor check configuration resolver item ?result = Inr r"
    from DecideDescriptor_available [OF d(5) assms(2)] show ?thesis
      using resolver i(1-3) d(1-4) by (auto simp del: One_nat_def)
  qed
qed

definition sample_signature :: string where
  "sample_signature = base64_text (replicate 64 0)"

definition sample_index_json :: JsonValue where
  "sample_index_json = kObject (emplaced [(''schemaVersion'', kInteger 3), (''appName'', kString ''App''),
     (''items'', kArray [kObject (emplaced [(''version'', kString ''1.2.0''), (''platform'', kString ''linux''),
        (''release'', kString ''https://h/r'')])]),
     (''signature'', kObject (emplaced [(''algorithm'', kString ''ed25519''),
        (''publicKeyId'', kString ''k''), (''value'', kString sample_signature)]))])"

definition sample_transport :: "nat \<Rightarrow> string \<Rightarrow> bytes result" where
  "sample_transport n url = Inr (map (\<lambda>c. of_nat (of_char c)) (EncodeCanonicalJson
     (if n = 0 then sample_index_json else sample_descriptor sample_signature)))"

lemma BytesToString_of_char [simp]: "BytesToString (map (\<lambda>c. of_nat (of_char c)) s) = s"
  by (induction s) (simp_all add: BytesToString_def unat_of_nat take_bit_nat_eq_self_iff)

lemma sample_index_parses:
  "ParseReleaseIndex (EncodeCanonicalJson sample_index_json) = Inr (sample_index
     \<lparr>index_items := [sample_item\<lparr>item_raw := kObject (emplaced [(''version'', kString ''1.2.0''),
        (''platform'', kString ''linux''), (''release'', kString ''https://h/r'')])\<rparr>],
      index_has_signature := True, index_signature := \<lparr>sig_algorithm = ''ed25519'',
        sig_public_key_id = ''k'', sig_value = sample_signature\<rparr>, index_raw := sample_index_json\<rparr>)"
proof -
  have "wf_json (kObject (emplaced [(''version'', kString ''1.2.0''), (''platform'', kString ''linux''),
        (''release'', kString ''https://h/r'')]))"
    by (intro wf_emplaced) auto
  then have wf: "wf_json sample_index_json"
    unfolding sample_index_json_def
    by (intro wf_emplaced) (auto simp: int64_defs simp del: wf_json.simps(6) intro!: wf_emplaced)
  have "\<exists>v. ParseDesktopVersion ''1.2.0'' False 0 = Inr v" by (rule sample_parts(3))
  then obtain v where v: "ParseDesktopVersion ''1.2.0'' False 0 = Inr v" ..
  have item: "ParseReleaseIndexItem (kObject (emplaced [(''version'', kString ''1.2.0''),
        (''platform'', kString ''linux''), (''release'', kString ''https://h/r'')])) =
      Inr (sample_item\<lparr>item_raw := kObject (emplaced [(''version'', kString ''1.2.0''),
        (''platform'', kString ''linux''), (''release'', kString ''https://h/r'')])\<rparr>)"
    by (simp add: ParseReleaseIndexItem_def RequiredTrimmedString_def RequiredString_def json_at_def
        json_find_def jobject_def jstring_def map_find_emplaced Trim_def isspace_def v ParseItemBuild_def
        ParseChannel_def OptionalString_def OptionalBoolean_def HasScheme_def sample_item_def)
  show ?thesis
    by (simp add: ParseReleaseIndex_def ParseJson_Encode [OF wf])
      (simp add: sample_index_json_def json_at_def json_find_def jobject_def map_find_emplaced jinteger_def
        RequiredString_def jstring_def jarray_def item ParseIndexSignature_def OptionalString_def
        sample_index_def)
qed

lemma sample_check:
  "\<exists>r. CheckForUpdateCore (\<lambda>_ _ _. True) now sample_configuration (Some sample_transport)
      (Some (\<lambda>_. Inr (replicate 32 0))) = Inr r \<and> check_outcome r = ''updateAvailable''"
proof -
  obtain base raw where base: "desc_version base = ''1.2.0''" "desc_platform base = ''linux''"
    "desc_package_id base = ''app''" "desc_channel base = ''stable''" "\<not> desc_has_build_number base"
    "desc_has_signature base" "artifact_kind (desc_artifact base) = ''zip''" "desc_minimum_os base = []"
    "desc_minimum_updater_version base = ''1.0.0''"
    and parses: "ParseReleaseDescriptor (EncodeCanonicalJson (sample_descriptor sample_signature)) =
        Inr (base\<lparr>desc_signature := \<lparr>sig_algorithm = ''ed25519'', sig_public_key_id = ''k'',
          sig_value = sample_signature\<rparr>, desc_raw := raw\<rparr>)"
    using sample_descriptor_parses by blast
  let ?v = "\<lparr>dv_raw = ''1.0.0'', dv_major = 1, dv_minor = 0, dv_patch = 0, dv_prerelease = [],
     dv_has_build_number = False, dv_build_number = 0\<rparr>"
  let ?item = "sample_item\<lparr>item_raw := kObject (emplaced [(''version'', kString ''1.2.0''),
        (''platform'', kString ''linux''), (''release'', kString ''https://h/r'')])\<rparr>"
  have v: "ParseDesktopVersion ''1.0.0'' False 0 = Inr ?v" by code_simp
  have decode: "DecodeBase64 sample_signature = Inr (replicate 64 0)"
    by (simp add: DecodeBase64_iff sample_signature_def)
  have item: "ItemVersion ?item = Inr sample_version" "RolloutIncludes ?item identity sha256 = Inr True"
    for identity sha256
    using sample_item_version by (simp_all add: ItemVersion_def RolloutIncludes_def sample_item_def)
  have compare: "CompareDesktopVersions sample_version ?v = Inr 1" "CompareDesktopVersions ?v ?v = Inr 0"
    by (simp_all add: CompareDesktopVersions_def sample_version_def ComparePrerelease_def)
  have fields: "item_platform sample_item = ''linux''" "item_channel sample_item = ''stable''"
    "item_version sample_item = ''1.2.0''" "\<not> item_has_build_number sample_item"
    "\<not> item_has_fresh_install sample_item"
    by (simp_all add: sample_item_def)
  show ?thesis
    by (simp add: CheckForUpdateCore_def sample_configuration_def sample_transport_def catch_runtime_def
        catch_json_def sample_index_parses VerifyIndexSignature_def sample_index_def Trim_def isspace_def
        map_find_def decode CanonicalIndexSignatureBytes_def DecideIndex_def v HasNewer.simps IsNewer_def
        item compare fields SelectReleaseIndexItem_def parses DecideDescriptor_def Let_def
        DescriptorBindingOutcome_def base VerifyDescriptorSignature_def DescriptorPolicyOutcome_def
        SupportedArtifact_def)
qed

theorem update_available_verified_witness:
  "\<exists>r index. CheckForUpdateCore (\<lambda>_ _ _. True) [] sample_configuration (Some sample_transport)
      (Some (\<lambda>_. Inr (replicate 32 0))) = Inr r \<and> check_outcome r = ''updateAvailable'' \<and>
    VerifyIndexSignature (\<lambda>_ _ _. True) index [(''k'', replicate 32 0)] = Inr True \<and>
    VerifyDescriptorSignature (\<lambda>_ _ _. True) (check_descriptor r) [(''k'', replicate 32 0)]"
proof -
  obtain r where r: "CheckForUpdateCore (\<lambda>_ _ _. True) [] sample_configuration (Some sample_transport)
      (Some (\<lambda>_. Inr (replicate 32 0))) = Inr r" "check_outcome r = ''updateAvailable''"
    using sample_check by blast
  have "cfg_pinned_public_keys_by_id sample_configuration = [(''k'', replicate 32 0)]"
    by (simp add: sample_configuration_def)
  with update_available_verified [OF r] r show ?thesis by metis
qed

end
