(* ===== verification/Client_Lifecycle.thy ===== *)
theory Client_Lifecycle
  imports Update_Client_Core
begin

text \<open>
  The lifecycle of a client, \<^verbatim>\<open>client_lifecycle.{h,cc}\<close>: one mutex-protected object that hands out
  leases for checks and stages and a handoff for the installation. Every public method holds the
  mutex for its whole body, so an execution is a sequence of whole method calls in some order: the
  operations are functions from the state to a result and a state, and interleavings are sequences
  of them. The counters are \<^verbatim>\<open>std::uint64_t\<close> and stay words. A \<^verbatim>\<open>std::filesystem::path\<close> is its native
  string; \<^verbatim>\<open>generic_u8string\<close> is the argument \<open>u8\<close>.
\<close>

section \<open>State and operations\<close>

datatype ClientLifecycleStatus = kAllowed | kInstallInProgress | kInvalidGeneration | kNoStagedUpdate

record CheckLease =
  cl_status :: ClientLifecycleStatus
  cl_generation :: "64 word"

record StageLease =
  sl_status :: ClientLifecycleStatus
  sl_generation :: "64 word"
  sl_attempt :: "64 word"
  sl_check :: ClientCheckResult

record InstallHandoff =
  ho_status :: ClientLifecycleStatus
  ho_token :: "64 word"
  ho_generation :: "64 word"
  ho_stage_attempt :: "64 word"
  ho_staged_path :: string
  ho_staged_filesystem_path :: string
  ho_stage_provenance_sha256 :: string

record LifecycleSnapshot =
  sn_check :: ClientCheckResult
  sn_staged_path :: string
  sn_staged_filesystem_path :: string
  sn_stage_provenance_sha256 :: string
  sn_selection_generation :: "64 word"
  sn_check_generation :: "64 word"
  sn_stage_attempt :: "64 word"
  sn_staged_generation :: "64 word"
  sn_staged_attempt :: "64 word"
  sn_install_in_progress :: bool

record ClientLifecycleState =
  ls_check :: ClientCheckResult
  ls_staged_path :: string
  ls_staged_filesystem_path :: string
  ls_stage_provenance_sha256 :: string
  ls_selection_generation :: "64 word"
  ls_check_generation :: "64 word"
  ls_stage_attempt :: "64 word"
  ls_staged_generation :: "64 word"
  ls_staged_attempt :: "64 word"
  ls_install_in_progress :: bool
  ls_next_handoff_token :: "64 word"
  ls_active_handoff_token :: "64 word"
  ls_scheduling_confirmed :: bool

definition initial_lifecycle :: ClientLifecycleState where
  "initial_lifecycle = \<lparr>ls_check = default_check_result, ls_staged_path = [],
     ls_staged_filesystem_path = [], ls_stage_provenance_sha256 = [], ls_selection_generation = 0,
     ls_check_generation = 0, ls_stage_attempt = 0, ls_staged_generation = 0, ls_staged_attempt = 0,
     ls_install_in_progress = False, ls_next_handoff_token = 0, ls_active_handoff_token = 0,
     ls_scheduling_confirmed = False\<rparr>"

definition IncrementNonzero :: "64 word \<Rightarrow> 64 word" where
  "IncrementNonzero v = (let v = v + 1 in if v = 0 then v + 1 else v)"

definition ClearStage :: "ClientLifecycleState \<Rightarrow> ClientLifecycleState" where
  "ClearStage s = s\<lparr>ls_staged_path := [], ls_staged_filesystem_path := [],
     ls_stage_provenance_sha256 := [], ls_staged_generation := 0, ls_staged_attempt := 0\<rparr>"

definition BeginCheck :: "ClientLifecycleState \<Rightarrow> CheckLease \<times> ClientLifecycleState" where
  "BeginCheck s =
     (let s = s\<lparr>ls_selection_generation := IncrementNonzero (ls_selection_generation s),
            ls_check := default_check_result, ls_check_generation := 0,
            ls_stage_attempt := IncrementNonzero (ls_stage_attempt s)\<rparr>;
          s = ClearStage s
      in (\<lparr>cl_status = (if ls_install_in_progress s then kInstallInProgress else kAllowed),
           cl_generation = ls_selection_generation s\<rparr>, s))"

definition PublishCheck ::
    "CheckLease \<Rightarrow> ClientCheckResult \<Rightarrow> ClientLifecycleState \<Rightarrow> bool \<times> ClientLifecycleState" where
  "PublishCheck lease check s =
     (if cl_status lease \<noteq> kAllowed \<or> ls_install_in_progress s \<or>
         cl_generation lease \<noteq> ls_selection_generation s
      then (False, s)
      else (True, s\<lparr>ls_check := check, ls_check_generation := cl_generation lease\<rparr>))"

definition refused_stage :: "ClientLifecycleStatus \<Rightarrow> StageLease" where
  "refused_stage status = \<lparr>sl_status = status, sl_generation = 0, sl_attempt = 0,
     sl_check = default_check_result\<rparr>"

definition BeginStage :: "ClientLifecycleState \<Rightarrow> StageLease \<times> ClientLifecycleState" where
  "BeginStage s =
     (let s = ClearStage (s\<lparr>ls_stage_attempt := IncrementNonzero (ls_stage_attempt s)\<rparr>) in
      if ls_install_in_progress s then (refused_stage kInstallInProgress, s)
      else if ls_selection_generation s = 0 \<or> ls_check_generation s = 0 \<or>
              ls_check_generation s \<noteq> ls_selection_generation s
      then (refused_stage kInvalidGeneration, s)
      else (\<lparr>sl_status = kAllowed, sl_generation = ls_selection_generation s,
             sl_attempt = ls_stage_attempt s, sl_check = ls_check s\<rparr>, s))"

definition stage_refused :: "StageLease \<Rightarrow> ClientLifecycleState \<Rightarrow> bool" where
  "stage_refused lease s \<longleftrightarrow> sl_status lease \<noteq> kAllowed \<or> ls_install_in_progress s \<or>
     sl_generation lease \<noteq> ls_selection_generation s \<or>
     sl_generation lease \<noteq> ls_check_generation s \<or> sl_attempt lease \<noteq> ls_stage_attempt s"

definition PublishStage ::
    "StageLease \<Rightarrow> string \<Rightarrow> string \<Rightarrow> ClientLifecycleState \<Rightarrow> bool \<times> ClientLifecycleState" where
  "PublishStage lease staged_path stage_provenance_sha256 s =
     (if stage_refused lease s then (False, s)
      else (True, s\<lparr>ls_staged_path := staged_path, ls_staged_filesystem_path := [],
        ls_stage_provenance_sha256 := stage_provenance_sha256,
        ls_staged_generation := sl_generation lease, ls_staged_attempt := sl_attempt lease\<rparr>))"

definition PublishFilesystemStage ::
    "(string \<Rightarrow> string) \<Rightarrow> StageLease \<Rightarrow> string \<Rightarrow> string \<Rightarrow> ClientLifecycleState \<Rightarrow>
     bool \<times> ClientLifecycleState" where
  "PublishFilesystemStage u8 lease staged_path stage_provenance_sha256 s =
     (if stage_refused lease s then (False, s)
      else (True, s\<lparr>ls_staged_path := u8 staged_path, ls_staged_filesystem_path := staged_path,
        ls_stage_provenance_sha256 := stage_provenance_sha256,
        ls_staged_generation := sl_generation lease, ls_staged_attempt := sl_attempt lease\<rparr>))"

definition no_handoff :: "ClientLifecycleStatus \<Rightarrow> InstallHandoff" where
  "no_handoff status = \<lparr>ho_status = status, ho_token = 0, ho_generation = 0, ho_stage_attempt = 0,
     ho_staged_path = [], ho_staged_filesystem_path = [], ho_stage_provenance_sha256 = []\<rparr>"

definition BeginInstallLocked :: "ClientLifecycleState \<Rightarrow> InstallHandoff \<times> ClientLifecycleState" where
  "BeginInstallLocked s =
     (if ls_install_in_progress s then (no_handoff kInstallInProgress, s)
      else if ls_staged_path s = [] \<or> ls_staged_generation s = 0 \<or>
              ls_staged_generation s \<noteq> ls_selection_generation s \<or>
              ls_staged_generation s \<noteq> ls_check_generation s \<or>
              ls_staged_attempt s \<noteq> ls_stage_attempt s
      then (no_handoff kNoStagedUpdate, s)
      else
        let token = IncrementNonzero (ls_next_handoff_token s);
            handoff = \<lparr>ho_status = kAllowed, ho_token = token, ho_generation = ls_staged_generation s,
              ho_stage_attempt = ls_staged_attempt s, ho_staged_path = ls_staged_path s,
              ho_staged_filesystem_path = ls_staged_filesystem_path s,
              ho_stage_provenance_sha256 = ls_stage_provenance_sha256 s\<rparr>
        in (handoff, ClearStage (s\<lparr>ls_next_handoff_token := token, ls_install_in_progress := True,
              ls_active_handoff_token := token, ls_scheduling_confirmed := False\<rparr>)))"

definition BeginInstall :: "ClientLifecycleState \<Rightarrow> InstallHandoff \<times> ClientLifecycleState" where
  "BeginInstall s = BeginInstallLocked s"

definition BeginInstallExpected ::
    "LifecycleSnapshot \<Rightarrow> ClientLifecycleState \<Rightarrow> InstallHandoff \<times> ClientLifecycleState" where
  "BeginInstallExpected expected s =
     (if sn_staged_path expected \<noteq> ls_staged_path s \<or>
         sn_staged_filesystem_path expected \<noteq> ls_staged_filesystem_path s \<or>
         sn_stage_provenance_sha256 expected \<noteq> ls_stage_provenance_sha256 s \<or>
         sn_selection_generation expected \<noteq> ls_selection_generation s \<or>
         sn_check_generation expected \<noteq> ls_check_generation s \<or>
         sn_stage_attempt expected \<noteq> ls_stage_attempt s \<or>
         sn_staged_generation expected \<noteq> ls_staged_generation s \<or>
         sn_staged_attempt expected \<noteq> ls_staged_attempt s
      then (no_handoff kNoStagedUpdate, s)
      else BeginInstallLocked s)"

definition RollbackInstall :: "InstallHandoff \<Rightarrow> ClientLifecycleState \<Rightarrow> bool \<times> ClientLifecycleState" where
  "RollbackInstall handoff s =
     (if \<not> ls_install_in_progress s \<or> ls_scheduling_confirmed s \<or> ho_token handoff = 0 \<or>
         ho_token handoff \<noteq> ls_active_handoff_token s
      then (False, s)
      else
        let can_restore = (ho_generation handoff = ls_selection_generation s \<and>
              ho_generation handoff = ls_check_generation s \<and>
              ho_stage_attempt handoff = ls_stage_attempt s);
            s = s\<lparr>ls_install_in_progress := False, ls_active_handoff_token := 0\<rparr>
        in (can_restore,
            if can_restore then s\<lparr>ls_staged_path := ho_staged_path handoff,
              ls_staged_filesystem_path := ho_staged_filesystem_path handoff,
              ls_stage_provenance_sha256 := ho_stage_provenance_sha256 handoff,
              ls_staged_generation := ho_generation handoff,
              ls_staged_attempt := ho_stage_attempt handoff\<rparr> else s))"

definition ConfirmInstall :: "InstallHandoff \<Rightarrow> ClientLifecycleState \<Rightarrow> bool \<times> ClientLifecycleState" where
  "ConfirmInstall handoff s =
     (if \<not> ls_install_in_progress s \<or> ls_scheduling_confirmed s \<or> ho_token handoff = 0 \<or>
         ho_token handoff \<noteq> ls_active_handoff_token s
      then (False, s) else (True, s\<lparr>ls_scheduling_confirmed := True\<rparr>))"

definition CompleteInstall :: "InstallHandoff \<Rightarrow> ClientLifecycleState \<Rightarrow> bool \<times> ClientLifecycleState" where
  "CompleteInstall handoff s =
     (if \<not> ls_install_in_progress s \<or> ho_token handoff = 0 \<or>
         ho_token handoff \<noteq> ls_active_handoff_token s
      then (False, s)
      else (True, s\<lparr>ls_install_in_progress := False, ls_active_handoff_token := 0,
        ls_scheduling_confirmed := True\<rparr>))"

definition Snapshot :: "ClientLifecycleState \<Rightarrow> LifecycleSnapshot" where
  "Snapshot s = \<lparr>sn_check = ls_check s, sn_staged_path = ls_staged_path s,
     sn_staged_filesystem_path = ls_staged_filesystem_path s,
     sn_stage_provenance_sha256 = ls_stage_provenance_sha256 s,
     sn_selection_generation = ls_selection_generation s, sn_check_generation = ls_check_generation s,
     sn_stage_attempt = ls_stage_attempt s, sn_staged_generation = ls_staged_generation s,
     sn_staged_attempt = ls_staged_attempt s, sn_install_in_progress = ls_install_in_progress s\<rparr>"

text \<open>
  \<^verbatim>\<open>SchedulingRollbackGuard\<close>; \<open>guard_destroy\<close> is its destructor and \<open>guard_has_state\<close> says that its
  state pointer is not null.
\<close>

record SchedulingRollbackGuard =
  guard_has_state :: bool
  guard_handoff :: InstallHandoff
  guard_active :: bool

definition guard_construct :: "bool \<Rightarrow> InstallHandoff \<Rightarrow> SchedulingRollbackGuard" where
  "guard_construct has_state handoff =
     \<lparr>guard_has_state = has_state, guard_handoff = handoff, guard_active = True\<rparr>"

definition guard_destroy :: "SchedulingRollbackGuard \<Rightarrow> ClientLifecycleState \<Rightarrow> ClientLifecycleState" where
  "guard_destroy guard s =
     (if guard_active guard \<and> guard_has_state guard
      then snd (RollbackInstall (guard_handoff guard) s) else s)"

definition guard_confirm ::
    "SchedulingRollbackGuard \<Rightarrow> ClientLifecycleState \<Rightarrow>
     bool \<times> SchedulingRollbackGuard \<times> ClientLifecycleState" where
  "guard_confirm guard s =
     (if \<not> guard_active guard \<or> \<not> guard_has_state guard then (False, guard, s)
      else case ConfirmInstall (guard_handoff guard) s of (confirmed, s') \<Rightarrow>
        if \<not> confirmed then (False, guard, s')
        else (True, guard\<lparr>guard_active := False\<rparr>, s'))"

section \<open>Interleavings\<close>

datatype lifecycle_op =
    Op_BeginCheck
  | Op_PublishCheck CheckLease ClientCheckResult
  | Op_BeginStage
  | Op_PublishStage StageLease string string
  | Op_PublishFilesystemStage "string \<Rightarrow> string" StageLease string string
  | Op_BeginInstall
  | Op_BeginInstallExpected LifecycleSnapshot
  | Op_RollbackInstall InstallHandoff
  | Op_ConfirmInstall InstallHandoff
  | Op_CompleteInstall InstallHandoff

fun apply_op :: "lifecycle_op \<Rightarrow> ClientLifecycleState \<Rightarrow> ClientLifecycleState" where
  "apply_op Op_BeginCheck s = snd (BeginCheck s)"
| "apply_op (Op_PublishCheck l c) s = snd (PublishCheck l c s)"
| "apply_op Op_BeginStage s = snd (BeginStage s)"
| "apply_op (Op_PublishStage l p d) s = snd (PublishStage l p d s)"
| "apply_op (Op_PublishFilesystemStage u8 l p d) s = snd (PublishFilesystemStage u8 l p d s)"
| "apply_op Op_BeginInstall s = snd (BeginInstall s)"
| "apply_op (Op_BeginInstallExpected e) s = snd (BeginInstallExpected e s)"
| "apply_op (Op_RollbackInstall h) s = snd (RollbackInstall h s)"
| "apply_op (Op_ConfirmInstall h) s = snd (ConfirmInstall h s)"
| "apply_op (Op_CompleteInstall h) s = snd (CompleteInstall h s)"

definition run_ops :: "lifecycle_op list \<Rightarrow> ClientLifecycleState \<Rightarrow> ClientLifecycleState" where
  "run_ops ops s = fold apply_op ops s"

lemma run_ops_simps [simp]:
  "run_ops [] s = s" "run_ops (op # ops) s = run_ops ops (apply_op op s)"
  "run_ops (ops @ ops') s = run_ops ops' (run_ops ops s)"
  by (simp_all add: run_ops_def)

lemmas lifecycle_defs = BeginCheck_def PublishCheck_def BeginStage_def stage_refused_def
  PublishStage_def PublishFilesystemStage_def BeginInstall_def BeginInstallExpected_def
  BeginInstallLocked_def RollbackInstall_def ConfirmInstall_def CompleteInstall_def ClearStage_def
  refused_stage_def no_handoff_def

section \<open>Counters\<close>

lemma IncrementNonzero_nonzero [simp]: "IncrementNonzero v \<noteq> 0"
  by (simp add: IncrementNonzero_def Let_def)

text \<open>On the counter values other than zero the increment is a rotation of length 2^64 - 1.\<close>

lemma IncrementNonzero_unat:
  assumes "v \<noteq> 0"
  shows "unat (IncrementNonzero v) - 1 = (unat v - 1 + 1) mod (2 ^ 64 - 1)"
proof (cases "v + 1 = 0")
  case True
  then have "v = -1" by (simp add: add_eq_0_iff2)
  then show ?thesis by (simp add: IncrementNonzero_def unsigned_minus_1_eq_mask mask_eq_exp_minus_1)
next
  case False
  then have "unat (v + 1) = unat v + 1" using unatSuc [of v] by (simp add: add.commute)
  moreover have "unat (v + 1) < 2 ^ 64" using unsigned_less [of "v + 1", where ?'a = nat] by simp
  moreover have "unat v \<noteq> 0" using assms by (simp add: unat_eq_0)
  ultimately show ?thesis using False by (simp add: IncrementNonzero_def)
qed

lemma increments_unat:
  assumes "v \<noteq> 0"
  shows "(IncrementNonzero ^^ n) v \<noteq> 0 \<and>
    unat ((IncrementNonzero ^^ n) v) - 1 = (unat v - 1 + n) mod (2 ^ 64 - 1)"
proof (induction n)
  case 0
  have "unat v < 2 ^ 64" using unsigned_less [of v, where ?'a = nat] by simp
  moreover have "unat v \<noteq> 0" using assms by (simp add: unat_eq_0)
  ultimately show ?case using assms by simp
next
  case (Suc n)
  then have "unat (IncrementNonzero ((IncrementNonzero ^^ n) v)) - 1 =
      ((unat v - 1 + n) mod (2 ^ 64 - 1) + 1) mod (2 ^ 64 - 1)"
    using IncrementNonzero_unat by presburger
  also have "\<dots> = (unat v - 1 + Suc n) mod (2 ^ 64 - 1)" by (simp only: mod_add_left_eq) simp
  finally show ?case by simp
qed

lemma increments_return_iff:
  assumes "v \<noteq> 0"
  shows "(IncrementNonzero ^^ n) v = v \<longleftrightarrow> (2 ^ 64 - 1) dvd n"
proof -
  let ?w = "(IncrementNonzero ^^ n) v" and ?m = "2 ^ 64 - 1 :: nat"
  have v: "unat v \<noteq> 0" "unat ?w \<noteq> 0"
    using assms increments_unat [OF assms, of n] by (auto simp: unat_eq_0)
  then have less: "unat v - 1 < ?m" using unsigned_less [of v, where ?'a = nat] by simp
  have "?w = v \<longleftrightarrow> unat ?w = unat v" by (simp add: word_unat_eq_iff)
  also have "\<dots> \<longleftrightarrow> unat ?w - 1 = unat v - 1" using v by linarith
  also have "\<dots> \<longleftrightarrow> (unat v - 1 + n) mod ?m = (unat v - 1) mod ?m"
    using increments_unat [OF assms, of n] less by simp
  also have "\<dots> \<longleftrightarrow> ?m dvd n" by (metis add.commute add_diff_cancel_right' le_add1 mod_eq_dvd_iff_nat)
  finally show ?thesis .
qed

fun starts_check :: "lifecycle_op \<Rightarrow> bool" where
  "starts_check Op_BeginCheck = True"
| "starts_check _ = False"

fun starts_stage :: "lifecycle_op \<Rightarrow> bool" where
  "starts_stage Op_BeginCheck = True"
| "starts_stage Op_BeginStage = True"
| "starts_stage _ = False"

fun completes :: "lifecycle_op \<Rightarrow> bool" where
  "completes (Op_CompleteInstall h) = True"
| "completes _ = False"

lemma apply_op_generation:
  "ls_selection_generation (apply_op op s) =
     (if starts_check op then IncrementNonzero (ls_selection_generation s) else ls_selection_generation s)"
  by (cases op) (simp_all add: lifecycle_defs Let_def)

lemma apply_op_attempt:
  "ls_stage_attempt (apply_op op s) =
     (if starts_stage op then IncrementNonzero (ls_stage_attempt s) else ls_stage_attempt s)"
  by (cases op) (simp_all add: lifecycle_defs Let_def)

lemma run_ops_generation:
  "ls_selection_generation (run_ops ops s) =
     (IncrementNonzero ^^ length (filter starts_check ops)) (ls_selection_generation s)"
  by (induction ops arbitrary: s) (simp_all add: apply_op_generation funpow_swap1)

lemma run_ops_attempt:
  "ls_stage_attempt (run_ops ops s) =
     (IncrementNonzero ^^ length (filter starts_stage ops)) (ls_stage_attempt s)"
  by (induction ops arbitrary: s) (simp_all add: apply_op_attempt funpow_swap1)

section \<open>Invariant\<close>

text \<open>
  What holds between any two method calls, whatever arguments the callers pass: leases and handoffs
  may be stale, forged or used twice.
\<close>

definition lifecycle_inv :: "ClientLifecycleState \<Rightarrow> bool" where
  "lifecycle_inv s \<longleftrightarrow>
     (ls_check_generation s = 0 \<or> ls_check_generation s = ls_selection_generation s) \<and>
     (ls_staged_generation s \<noteq> 0 \<longrightarrow>
        ls_staged_generation s = ls_check_generation s \<and> ls_staged_attempt s = ls_stage_attempt s) \<and>
     (ls_install_in_progress s \<longrightarrow>
        ls_active_handoff_token s \<noteq> 0 \<and> ls_active_handoff_token s = ls_next_handoff_token s \<and>
        ls_staged_generation s = 0) \<and>
     (\<not> ls_install_in_progress s \<longrightarrow> ls_active_handoff_token s = 0)"

inductive lifecycle_reachable :: "ClientLifecycleState \<Rightarrow> bool" where
  start: "lifecycle_reachable initial_lifecycle"
| step: "lifecycle_reachable s \<Longrightarrow> lifecycle_reachable (apply_op op s)"

lemma initial_lifecycle_inv: "lifecycle_inv initial_lifecycle"
  by (simp add: lifecycle_inv_def initial_lifecycle_def)

lemma apply_op_inv: "lifecycle_inv s \<Longrightarrow> lifecycle_inv (apply_op op s)"
  by (cases op) (auto simp: lifecycle_inv_def lifecycle_defs Let_def)

lemma lifecycle_reachable_inv: "lifecycle_reachable s \<Longrightarrow> lifecycle_inv s"
  by (induction rule: lifecycle_reachable.induct) (simp_all add: initial_lifecycle_inv apply_op_inv)

lemma lifecycle_reachable_run: "lifecycle_reachable s \<Longrightarrow> lifecycle_reachable (run_ops ops s)"
  by (induction ops arbitrary: s) (simp_all add: lifecycle_reachable.step)

section \<open>The abstract machine\<close>

text \<open>
  The contract as a machine of five phases. A check discards what was selected and staged; a stage
  needs a selection; an installation needs a stage and blocks everything else until it is completed,
  or rolled back while it is still being scheduled.
\<close>

datatype phase = NoSelection | Selected | Staged | Scheduling "64 word" | Scheduled "64 word"

definition phase_of :: "ClientLifecycleState \<Rightarrow> phase" where
  "phase_of s =
     (if ls_install_in_progress s then
        if ls_scheduling_confirmed s then Scheduled (ls_active_handoff_token s)
        else Scheduling (ls_active_handoff_token s)
      else if ls_staged_generation s \<noteq> 0 then Staged
      else if ls_check_generation s \<noteq> 0 then Selected
      else NoSelection)"

inductive phase_step :: "phase \<Rightarrow> lifecycle_op \<Rightarrow> phase \<Rightarrow> bool" where
  stay: "\<not> starts_stage op \<Longrightarrow> phase_step p op p"
| check: "p \<in> {NoSelection, Selected, Staged} \<Longrightarrow> phase_step p Op_BeginCheck NoSelection"
| busy: "p \<in> {Scheduling t, Scheduled t} \<Longrightarrow> starts_stage op \<Longrightarrow> phase_step p op p"
| checked: "p \<in> {NoSelection, Selected} \<Longrightarrow> cl_status l = kAllowed \<Longrightarrow>
    phase_step p (Op_PublishCheck l c) Selected"
| stage_again: "p \<in> {Selected, Staged} \<Longrightarrow> phase_step p Op_BeginStage Selected"
| stage_early: "phase_step NoSelection Op_BeginStage NoSelection"
| staged: "p \<in> {Selected, Staged} \<Longrightarrow> sl_status l = kAllowed \<Longrightarrow>
    phase_step p (Op_PublishStage l path digest) Staged"
| staged_path: "p \<in> {Selected, Staged} \<Longrightarrow> sl_status l = kAllowed \<Longrightarrow>
    phase_step p (Op_PublishFilesystemStage u8 l path digest) Staged"
| install: "t \<noteq> 0 \<Longrightarrow> op = Op_BeginInstall \<or> (\<exists>e. op = Op_BeginInstallExpected e) \<Longrightarrow>
    phase_step Staged op (Scheduling t)"
| rollback: "ho_token h = t \<Longrightarrow> p \<in> {NoSelection, Selected, Staged} \<Longrightarrow>
    phase_step (Scheduling t) (Op_RollbackInstall h) p"
| confirm: "ho_token h = t \<Longrightarrow> phase_step (Scheduling t) (Op_ConfirmInstall h) (Scheduled t)"
| complete: "ho_token h = t \<Longrightarrow> q \<in> {Scheduling t, Scheduled t} \<Longrightarrow> p \<in> {NoSelection, Selected} \<Longrightarrow>
    phase_step q (Op_CompleteInstall h) p"

inductive_cases phase_step_rollbackE: "phase_step p (Op_RollbackInstall h) q"

lemma phase_of_install:
  "phase_of (snd (BeginInstallLocked s)) = phase_of s \<or>
   phase_of s = Staged \<and> (\<exists>t. t \<noteq> 0 \<and> phase_of (snd (BeginInstallLocked s)) = Scheduling t)"
  by (simp add: phase_of_def BeginInstallLocked_def ClearStage_def Let_def)

lemma phase_step_install:
  assumes "op = Op_BeginInstall \<or> (\<exists>e. op = Op_BeginInstallExpected e)"
  shows "phase_step (phase_of s) op (phase_of (snd (BeginInstallLocked s)))"
proof -
  have "\<not> starts_stage op" using assms by auto
  with phase_of_install [of s] assms show ?thesis by (metis phase_step.install phase_step.stay)
qed

lemma phase_refines:
  assumes "lifecycle_inv s"
  shows "phase_step (phase_of s) op (phase_of (apply_op op s))"
proof (cases op)
  case Op_BeginCheck
  then show ?thesis using assms
    by (auto simp: phase_of_def lifecycle_defs Let_def intro: phase_step.intros)
next
  case (Op_PublishCheck l c)
  then show ?thesis using assms
    by (auto simp: phase_of_def lifecycle_defs lifecycle_inv_def intro: phase_step.intros)
next
  case Op_BeginStage
  then show ?thesis using assms
    by (auto simp: phase_of_def lifecycle_defs lifecycle_inv_def Let_def intro: phase_step.intros)
next
  case (Op_PublishStage l path digest)
  then show ?thesis using assms
    by (auto simp: phase_of_def lifecycle_defs lifecycle_inv_def intro: phase_step.intros)
next
  case (Op_PublishFilesystemStage u8 l path digest)
  then show ?thesis using assms
    by (auto simp: phase_of_def lifecycle_defs lifecycle_inv_def intro: phase_step.intros)
next
  case (Op_RollbackInstall h)
  then show ?thesis using assms
    by (auto simp: phase_of_def lifecycle_defs lifecycle_inv_def Let_def intro: phase_step.intros)
next
  case (Op_ConfirmInstall h)
  then show ?thesis by (auto simp: phase_of_def lifecycle_defs intro: phase_step.intros)
next
  case (Op_CompleteInstall h)
  then show ?thesis using assms
    by (auto simp: phase_of_def lifecycle_defs lifecycle_inv_def intro: phase_step.intros)
next
  case Op_BeginInstall
  then show ?thesis using phase_step_install [of op s] by (simp add: BeginInstall_def)
next
  case (Op_BeginInstallExpected e)
  then show ?thesis using phase_step_install [of op s]
    by (simp add: BeginInstallExpected_def phase_step.stay)
qed

section \<open>Honest callers\<close>

text \<open>
  Callers that only use leases and handoffs they were given, in any interleaving, late or twice. The
  ledger records what was handed out and what was accepted.
\<close>

record ledger =
  check_leases :: "CheckLease set"
  results :: "(64 word \<times> ClientCheckResult) set"
  stage_leases :: "StageLease set"
  published :: "(StageLease \<times> string \<times> string \<times> string) set"
  handoffs :: "InstallHandoff set"

definition empty_ledger :: ledger where
  "empty_ledger = \<lparr>check_leases = {}, results = {}, stage_leases = {}, published = {}, handoffs = {}\<rparr>"

inductive honest_run :: "ClientLifecycleState \<Rightarrow> ledger \<Rightarrow> bool" where
  start_run: "honest_run initial_lifecycle empty_ledger"
| begin_check: "honest_run s g \<Longrightarrow> BeginCheck s = (l, s') \<Longrightarrow>
    honest_run s' (g\<lparr>check_leases := insert l (check_leases g)\<rparr>)"
| publish_check: "honest_run s g \<Longrightarrow> l \<in> check_leases g \<Longrightarrow> PublishCheck l c s = (accepted, s') \<Longrightarrow>
    honest_run s' (if accepted then g\<lparr>results := insert (cl_generation l, c) (results g)\<rparr> else g)"
| begin_stage: "honest_run s g \<Longrightarrow> BeginStage s = (l', s') \<Longrightarrow>
    honest_run s' (g\<lparr>stage_leases := insert l' (stage_leases g)\<rparr>)"
| publish_stage: "honest_run s g \<Longrightarrow> l' \<in> stage_leases g \<Longrightarrow> PublishStage l' path digest s = (accepted, s') \<Longrightarrow>
    honest_run s' (if accepted then g\<lparr>published := insert (l', path, [], digest) (published g)\<rparr> else g)"
| publish_filesystem_stage: "honest_run s g \<Longrightarrow> l' \<in> stage_leases g \<Longrightarrow>
    PublishFilesystemStage u8 l' path digest s = (accepted, s') \<Longrightarrow>
    honest_run s' (if accepted then g\<lparr>published := insert (l', u8 path, path, digest) (published g)\<rparr> else g)"
| begin_install: "honest_run s g \<Longrightarrow> BeginInstall s = (h, s') \<Longrightarrow>
    honest_run s' (g\<lparr>handoffs := insert h (handoffs g)\<rparr>)"
| begin_install_expected: "honest_run s g \<Longrightarrow> BeginInstallExpected e s = (h, s') \<Longrightarrow>
    honest_run s' (g\<lparr>handoffs := insert h (handoffs g)\<rparr>)"
| rollback: "honest_run s g \<Longrightarrow> h \<in> handoffs g \<Longrightarrow> honest_run (snd (RollbackInstall h s)) g"
| confirm: "honest_run s g \<Longrightarrow> h \<in> handoffs g \<Longrightarrow> honest_run (snd (ConfirmInstall h s)) g"
| complete: "honest_run s g \<Longrightarrow> h \<in> handoffs g \<Longrightarrow> honest_run (snd (CompleteInstall h s)) g"

text \<open>A stage that some accepted publication explains, under a lease that carries a published check.\<close>

definition accounted :: "ledger \<Rightarrow> 64 word \<Rightarrow> 64 word \<Rightarrow> string \<Rightarrow> string \<Rightarrow> string \<Rightarrow> bool" where
  "accounted g generation attempt path filesystem_path digest \<longleftrightarrow>
     (\<exists>lease. lease \<in> stage_leases g \<and> sl_status lease = kAllowed \<and>
        sl_generation lease = generation \<and> sl_attempt lease = attempt \<and>
        (lease, path, filesystem_path, digest) \<in> published g \<and>
        (generation, sl_check lease) \<in> results g)"

lemma accounted_mono:
  assumes "accounted g a b c d e" and "stage_leases g \<subseteq> stage_leases g'"
    and "published g \<subseteq> published g'" and "results g \<subseteq> results g'"
  shows "accounted g' a b c d e"
  using assms unfolding accounted_def by blast

definition ledger_inv :: "ClientLifecycleState \<Rightarrow> ledger \<Rightarrow> bool" where
  "ledger_inv s g \<longleftrightarrow> lifecycle_inv s \<and>
     (\<forall>l \<in> stage_leases g. sl_status l = kAllowed \<longrightarrow> sl_generation l \<noteq> 0 \<and> (sl_generation l, sl_check l) \<in> results g) \<and>
     (ls_check_generation s \<noteq> 0 \<longrightarrow> (ls_check_generation s, ls_check s) \<in> results g) \<and>
     (ls_staged_generation s \<noteq> 0 \<longrightarrow> accounted g (ls_staged_generation s) (ls_staged_attempt s)
        (ls_staged_path s) (ls_staged_filesystem_path s) (ls_stage_provenance_sha256 s)) \<and>
     (\<forall>h \<in> handoffs g. ho_token h \<noteq> 0 \<longrightarrow> ho_status h = kAllowed \<and> ho_generation h \<noteq> 0 \<and>
        accounted g (ho_generation h) (ho_stage_attempt h) (ho_staged_path h)
          (ho_staged_filesystem_path h) (ho_stage_provenance_sha256 h))"

lemma ledger_invD:
  assumes "ledger_inv s g"
  shows "lifecycle_inv s"
    "l \<in> stage_leases g \<Longrightarrow> sl_status l = kAllowed \<Longrightarrow> (sl_generation l, sl_check l) \<in> results g"
    "ls_staged_generation s \<noteq> 0 \<Longrightarrow> accounted g (ls_staged_generation s) (ls_staged_attempt s)
        (ls_staged_path s) (ls_staged_filesystem_path s) (ls_stage_provenance_sha256 s)"
  using assms by (auto simp: ledger_inv_def)

lemma BeginInstallLocked_ledger:
  assumes "ledger_inv s g" and "BeginInstallLocked s = (h, s')"
  shows "ledger_inv s' (g\<lparr>handoffs := insert h (handoffs g)\<rparr>)"
proof -
  have mono: "accounted g a b c d e \<Longrightarrow> accounted (g\<lparr>handoffs := insert h (handoffs g)\<rparr>) a b c d e"
    for a b c d e by (erule accounted_mono) simp_all
  have "lifecycle_inv s'"
    using apply_op_inv [of s Op_BeginInstall] assms ledger_invD(1) [OF assms(1)]
    by (simp add: BeginInstall_def)
  then show ?thesis
    using assms mono
    by (auto simp: ledger_inv_def BeginInstallLocked_def no_handoff_def ClearStage_def Let_def split: if_splits)
qed

lemma publish_ledger:
  assumes "ledger_inv s g" and "l \<in> stage_leases g" and "\<not> stage_refused l s"
  shows "ledger_inv (s\<lparr>ls_staged_path := p, ls_staged_filesystem_path := f, ls_stage_provenance_sha256 := d,
      ls_staged_generation := sl_generation l, ls_staged_attempt := sl_attempt l\<rparr>)
    (g\<lparr>published := insert (l, p, f, d) (published g)\<rparr>)"
proof -
  let ?g = "g\<lparr>published := insert (l, p, f, d) (published g)\<rparr>"
  have "accounted ?g (sl_generation l) (sl_attempt l) p f d"
    unfolding accounted_def using assms ledger_invD(2) [OF assms(1,2)]
    by (intro exI [of _ l]) (simp add: stage_refused_def)
  moreover have mono: "accounted g a b c d' e \<Longrightarrow> accounted ?g a b c d' e"
    for a b c d' e by (erule accounted_mono) auto
  ultimately show ?thesis
    using assms by (auto simp: ledger_inv_def lifecycle_inv_def stage_refused_def)
qed

lemma honest_run_inv: "honest_run s g \<Longrightarrow> ledger_inv s g"
proof (induction rule: honest_run.induct)
  case start_run
  then show ?case by (simp add: ledger_inv_def initial_lifecycle_inv empty_ledger_def) (simp add: initial_lifecycle_def)
next
  case (begin_check s g l s')
  have "accounted g a b c d e \<Longrightarrow> accounted (g\<lparr>check_leases := insert l (check_leases g)\<rparr>) a b c d e"
    for a b c d e by (erule accounted_mono) simp_all
  with begin_check apply_op_inv [of s Op_BeginCheck] show ?case
    by (auto simp: ledger_inv_def BeginCheck_def ClearStage_def Let_def)
next
  case (publish_check s g l c accepted s')
  have "accounted g a b c' d e \<Longrightarrow> accounted (g\<lparr>results := insert (cl_generation l, c) (results g)\<rparr>) a b c' d e"
    for a b c' d e by (erule accounted_mono) auto
  with publish_check apply_op_inv [of s "Op_PublishCheck l c"] show ?case
    by (auto simp: ledger_inv_def PublishCheck_def split: if_splits)
next
  case (begin_stage s g l' s')
  have "accounted g a b c d e \<Longrightarrow> accounted (g\<lparr>stage_leases := insert l' (stage_leases g)\<rparr>) a b c d e"
    for a b c d e by (erule accounted_mono) auto
  with begin_stage apply_op_inv [of s Op_BeginStage] show ?case
    by (auto simp: ledger_inv_def BeginStage_def ClearStage_def refused_stage_def Let_def split: if_splits)
next
  case (publish_stage s g l' path digest accepted s')
  then show ?case
    using publish_ledger [of s g l'] by (auto simp: PublishStage_def split: if_splits)
next
  case (publish_filesystem_stage s g l' u8 path digest accepted s')
  then show ?case
    using publish_ledger [of s g l'] by (auto simp: PublishFilesystemStage_def split: if_splits)
next
  case (begin_install s g h s')
  then show ?case by (simp add: BeginInstall_def BeginInstallLocked_ledger)
next
  case (begin_install_expected s g e h s')
  have "accounted g a b c d e' \<Longrightarrow> accounted (g\<lparr>handoffs := insert (no_handoff k) (handoffs g)\<rparr>) a b c d e'"
    for a b c d e' k by (erule accounted_mono) simp_all
  then have "ledger_inv s g \<Longrightarrow> ledger_inv s (g\<lparr>handoffs := insert (no_handoff k) (handoffs g)\<rparr>)" for k
    by (auto simp: ledger_inv_def no_handoff_def)
  with begin_install_expected show ?case
    by (auto simp: BeginInstallExpected_def BeginInstallLocked_ledger split: if_splits)
next
  case (rollback s g h)
  with apply_op_inv [of s "Op_RollbackInstall h"] show ?case
    by (auto simp: ledger_inv_def RollbackInstall_def Let_def)
next
  case (confirm s g h)
  with apply_op_inv [of s "Op_ConfirmInstall h"] show ?case
    by (auto simp: ledger_inv_def ConfirmInstall_def)
next
  case (complete s g h)
  with apply_op_inv [of s "Op_CompleteInstall h"] show ?case
    by (auto simp: ledger_inv_def CompleteInstall_def)
qed

section \<open>Runs after a handoff is settled\<close>

fun starts_install :: "lifecycle_op \<Rightarrow> bool" where
  "starts_install Op_BeginInstall = True"
| "starts_install (Op_BeginInstallExpected e) = True"
| "starts_install _ = False"

lemma apply_op_tokens:
  "(ls_next_handoff_token (apply_op op s) = ls_next_handoff_token s \<and>
    ls_active_handoff_token (apply_op op s) \<in> {0, ls_active_handoff_token s}) \<or>
   (starts_install op \<and>
    ls_next_handoff_token (apply_op op s) = IncrementNonzero (ls_next_handoff_token s) \<and>
    ls_active_handoff_token (apply_op op s) = IncrementNonzero (ls_next_handoff_token s))"
  by (cases op) (simp_all add: lifecycle_defs Let_def)

text \<open>The tokens that can be active after \<open>n\<close> calls that may start an installation.\<close>

lemma run_ops_tokens:
  assumes "ls_active_handoff_token s = 0 \<or>
      (\<exists>j. 1 \<le> j \<and> j \<le> k \<and> ls_active_handoff_token s = (IncrementNonzero ^^ j) t)"
    and "ls_next_handoff_token s = (IncrementNonzero ^^ k) t"
  shows "ls_active_handoff_token (run_ops ops s) = 0 \<or>
    (\<exists>j. 1 \<le> j \<and> j \<le> k + length (filter starts_install ops) \<and>
       ls_active_handoff_token (run_ops ops s) = (IncrementNonzero ^^ j) t)"
  using assms
proof (induction ops arbitrary: s k)
  case (Cons op ops)
  show ?case
  proof (cases "ls_next_handoff_token (apply_op op s) = ls_next_handoff_token s \<and>
      ls_active_handoff_token (apply_op op s) \<in> {0, ls_active_handoff_token s}")
    case True
    with Cons.prems Cons.IH [of "apply_op op s" k] show ?thesis by (fastforce simp: le_SucI)
  next
    case False
    with apply_op_tokens [of op s] have op: "starts_install op"
      "ls_next_handoff_token (apply_op op s) = (IncrementNonzero ^^ Suc k) t"
      "ls_active_handoff_token (apply_op op s) = (IncrementNonzero ^^ Suc k) t"
      using Cons.prems(2) by auto
    then have "ls_active_handoff_token (apply_op op s) = 0 \<or>
      (\<exists>j. 1 \<le> j \<and> j \<le> Suc k \<and> ls_active_handoff_token (apply_op op s) = (IncrementNonzero ^^ j) t)"
      by (metis le_add1 order_refl plus_1_eq_Suc)
    from Cons.IH [OF this op(2)] op(1) show ?thesis by simp
  qed
qed simp

lemma token_retired:
  assumes "ls_active_handoff_token s = 0" and "ls_next_handoff_token s = t" and "t \<noteq> 0"
    and "length (filter starts_install ops) < 2 ^ 64 - 1"
  shows "ls_active_handoff_token (run_ops ops s) \<noteq> t"
proof
  assume "ls_active_handoff_token (run_ops ops s) = t"
  with run_ops_tokens [of s 0 t ops] assms obtain j where
    "1 \<le> j" "j \<le> length (filter starts_install ops)" "(IncrementNonzero ^^ j) t = t" by auto
  with increments_return_iff [OF assms(3), of j] assms(4) show False by (auto dest: dvd_imp_le)
qed

lemma confirmed_step:
  assumes "ls_install_in_progress s" and "ls_scheduling_confirmed s" and "\<not> completes op"
  shows "ls_install_in_progress (apply_op op s) \<and> ls_scheduling_confirmed (apply_op op s) \<and>
    ls_active_handoff_token (apply_op op s) = ls_active_handoff_token s"
  using assms by (cases op) (simp_all add: lifecycle_defs Let_def)

lemma confirmed_run:
  assumes "ls_install_in_progress s" and "ls_scheduling_confirmed s" and "\<forall>op \<in> set ops. \<not> completes op"
  shows "ls_install_in_progress (run_ops ops s) \<and> ls_scheduling_confirmed (run_ops ops s) \<and>
    ls_active_handoff_token (run_ops ops s) = ls_active_handoff_token s"
  using assms by (induction ops arbitrary: s) (simp_all add: confirmed_step)

section \<open>Properties\<close>

text \<open>
  C21. The lifecycle object implements the machine of five phases: from every reachable state, every
  method call with whatever arguments (stale, forged or repeated ones too) is a step of that machine.
  In particular nothing is installed that was not staged, no second installation starts while one is
  in progress, and an installation that is scheduled ends by completion only.
\<close>

theorem lifecycle_refines_phases:
  assumes "lifecycle_reachable s"
  shows "phase_step (phase_of s) op (phase_of (apply_op op s))"
  by (rule phase_refines [OF lifecycle_reachable_inv [OF assms]])

theorem lifecycle_refines_phases_witness:
  "phase_step NoSelection Op_BeginStage NoSelection"
  using lifecycle_refines_phases [OF lifecycle_reachable.start, of Op_BeginStage]
  by (simp add: phase_of_def initial_lifecycle_def BeginStage_def ClearStage_def Let_def)

text \<open>One whole round: a check, a stage and the handoff.\<close>

definition sample_check_lease :: CheckLease where
  "sample_check_lease = \<lparr>cl_status = kAllowed, cl_generation = 1\<rparr>"

definition sample_stage_lease :: StageLease where
  "sample_stage_lease = \<lparr>sl_status = kAllowed, sl_generation = 1, sl_attempt = 2,
     sl_check = default_check_result\<rparr>"

definition sample_round :: "lifecycle_op list" where
  "sample_round = [Op_BeginCheck, Op_PublishCheck sample_check_lease default_check_result, Op_BeginStage,
     Op_PublishStage sample_stage_lease ''p'' ''d'']"

definition sample_handoff :: InstallHandoff where
  "sample_handoff = \<lparr>ho_status = kAllowed, ho_token = 1, ho_generation = 1, ho_stage_attempt = 2,
     ho_staged_path = ''p'', ho_staged_filesystem_path = [], ho_stage_provenance_sha256 = ''d''\<rparr>"

lemmas sample_lifecycle_defs = lifecycle_defs initial_lifecycle_def IncrementNonzero_def
  sample_check_lease_def sample_stage_lease_def sample_handoff_def Let_def

lemma sample_round_state:
  "run_ops sample_round initial_lifecycle = initial_lifecycle\<lparr>ls_staged_path := ''p'',
     ls_stage_provenance_sha256 := ''d'', ls_selection_generation := 1, ls_check_generation := 1,
     ls_stage_attempt := 2, ls_staged_generation := 1, ls_staged_attempt := 2\<rparr>"
  by (simp add: sample_round_def sample_lifecycle_defs)

lemma sample_begin_install:
  "BeginInstall (run_ops sample_round initial_lifecycle) =
     (sample_handoff, snd (BeginInstall (run_ops sample_round initial_lifecycle)))"
  unfolding sample_round_state by (simp add: sample_lifecycle_defs)

lemma sample_confirm:
  "ConfirmInstall sample_handoff (run_ops (sample_round @ [Op_BeginInstall]) initial_lifecycle) =
     (True, (run_ops (sample_round @ [Op_BeginInstall]) initial_lifecycle)\<lparr>ls_scheduling_confirmed := True\<rparr>)"
  unfolding run_ops_simps sample_round_state by (simp add: sample_lifecycle_defs)

lemma sample_honest_run: "\<exists>g. honest_run (run_ops sample_round initial_lifecycle) g"
proof -
  let ?s1 = "snd (BeginCheck initial_lifecycle)"
  let ?s2 = "snd (PublishCheck sample_check_lease default_check_result ?s1)"
  let ?s3 = "snd (BeginStage ?s2)"
  have leases: "BeginCheck initial_lifecycle = (sample_check_lease, ?s1)"
    "PublishCheck sample_check_lease default_check_result ?s1 = (True, ?s2)"
    "BeginStage ?s2 = (sample_stage_lease, ?s3)"
    "PublishStage sample_stage_lease ''p'' ''d'' ?s3 = (True, run_ops sample_round initial_lifecycle)"
    unfolding sample_round_state by (simp_all add: sample_lifecycle_defs)
  note r1 = honest_run.begin_check [OF honest_run.start_run leases(1)]
  note r2 = honest_run.publish_check [OF r1 _ leases(2)]
  have "\<exists>g. honest_run ?s2 g" using r2 by fastforce
  then obtain g where "honest_run ?s2 g" ..
  note r3 = honest_run.begin_stage [OF this leases(3)]
  show ?thesis using honest_run.publish_stage [OF r3 _ leases(4)] by fastforce
qed

text \<open>
  What is handed to the installer is what was staged for the current check: in every interleaving
  of callers that use the leases they were given, a handoff that is allowed carries a nonempty path,
  and exactly this path, file-system path and provenance digest were accepted for a stage lease of the
  selection generation and stage attempt that are current at the handoff, a lease that was granted
  for a check result published for that generation.
\<close>

theorem handoff_provenance:
  assumes "honest_run s g" and "BeginInstall s = (h, s')" and "ho_status h = kAllowed"
  shows "\<not> ls_install_in_progress s \<and> ls_install_in_progress s' \<and> ho_staged_path h \<noteq> [] \<and>
    ho_generation h = ls_selection_generation s \<and> ho_stage_attempt h = ls_stage_attempt s \<and>
    (\<exists>lease. lease \<in> stage_leases g \<and> sl_status lease = kAllowed \<and>
       sl_generation lease = ls_selection_generation s \<and> sl_attempt lease = ls_stage_attempt s \<and>
       (lease, ho_staged_path h, ho_staged_filesystem_path h, ho_stage_provenance_sha256 h) \<in> published g \<and>
       (ls_selection_generation s, sl_check lease) \<in> results g)"
  using ledger_invD(3) [OF honest_run_inv [OF assms(1)]] assms(2,3)
  by (auto simp: accounted_def BeginInstall_def BeginInstallLocked_def no_handoff_def ClearStage_def
      Let_def split: if_splits)

theorem handoff_provenance_witness:
  "\<exists>g lease. honest_run (run_ops sample_round initial_lifecycle) g \<and> lease \<in> stage_leases g \<and>
     (lease, ''p'', [], ''d'') \<in> published g"
proof -
  obtain g where g: "honest_run (run_ops sample_round initial_lifecycle) g"
    using sample_honest_run by blast
  have "ho_status sample_handoff = kAllowed" "ho_staged_path sample_handoff = ''p''"
    "ho_staged_filesystem_path sample_handoff = []" "ho_stage_provenance_sha256 sample_handoff = ''d''"
    by (simp_all add: sample_handoff_def)
  with handoff_provenance [OF g sample_begin_install] g show ?thesis by auto
qed

text \<open>
  A lease is good for its own generation only. A check result is accepted for a lease exactly when
  the lease was allowed, no installation is in progress and the number of checks that were started
  since is zero, or a multiple of 2^64 - 1 by which the counter returns; a stage is accepted only
  when as much holds for the stages (and checks) that were started since.
\<close>

theorem stale_leases_refused:
  "(fst (PublishCheck (fst (BeginCheck s)) c (run_ops ops (snd (BeginCheck s)))) \<longleftrightarrow>
      \<not> ls_install_in_progress s \<and> \<not> ls_install_in_progress (run_ops ops (snd (BeginCheck s))) \<and>
      (2 ^ 64 - 1) dvd length (filter starts_check ops)) \<and>
   (fst (PublishStage (fst (BeginStage s)) path digest (run_ops ops (snd (BeginStage s)))) \<longrightarrow>
      (2 ^ 64 - 1) dvd length (filter starts_stage ops))"
proof (rule conjI)
  have nz: "ls_selection_generation (snd (BeginCheck s)) \<noteq> 0"
    by (simp add: BeginCheck_def ClearStage_def Let_def)
  have "fst (BeginCheck s) = \<lparr>cl_status = (if ls_install_in_progress s then kInstallInProgress else kAllowed),
      cl_generation = ls_selection_generation (snd (BeginCheck s))\<rparr>"
    by (simp add: BeginCheck_def ClearStage_def Let_def)
  then show "fst (PublishCheck (fst (BeginCheck s)) c (run_ops ops (snd (BeginCheck s)))) \<longleftrightarrow>
      \<not> ls_install_in_progress s \<and> \<not> ls_install_in_progress (run_ops ops (snd (BeginCheck s))) \<and>
      (2 ^ 64 - 1) dvd length (filter starts_check ops)"
    using increments_return_iff [OF nz, of "length (filter starts_check ops)"]
    unfolding PublishCheck_def run_ops_generation by auto
next
  have nz: "ls_stage_attempt (snd (BeginStage s)) \<noteq> 0"
    by (simp add: BeginStage_def ClearStage_def Let_def)
  have "sl_status (fst (BeginStage s)) \<noteq> kAllowed \<or>
      sl_attempt (fst (BeginStage s)) = ls_stage_attempt (snd (BeginStage s))"
    by (simp add: BeginStage_def ClearStage_def refused_stage_def Let_def)
  then show "fst (PublishStage (fst (BeginStage s)) path digest (run_ops ops (snd (BeginStage s)))) \<longrightarrow>
      (2 ^ 64 - 1) dvd length (filter starts_stage ops)"
    using increments_return_iff [OF nz, of "length (filter starts_stage ops)"]
    unfolding PublishStage_def stage_refused_def run_ops_attempt by auto
qed

theorem stale_leases_refused_witness:
  "\<not> fst (PublishCheck (fst (BeginCheck initial_lifecycle)) default_check_result
      (run_ops [Op_BeginCheck] (snd (BeginCheck initial_lifecycle))))"
  using stale_leases_refused [of initial_lifecycle default_check_result "[Op_BeginCheck]" "[]" "[]"]
  by (simp add: PublishCheck_def)

text \<open>
  A scheduled installation cannot be rolled back: once a handoff is confirmed, every rollback
  (with any handoff, the destructor of a scheduling guard included) is refused and changes nothing
  until some call completes the installation.
\<close>

theorem confirmed_not_rolled_back:
  assumes "ConfirmInstall h s = (True, s')" and "\<forall>op \<in> set ops. \<not> completes op"
  shows "RollbackInstall h' (run_ops ops s') = (False, run_ops ops s') \<and>
    guard_destroy guard (run_ops ops s') = run_ops ops s' \<and>
    ls_install_in_progress (run_ops ops s') \<and>
    ls_active_handoff_token (run_ops ops s') = ho_token h"
proof -
  have "ls_install_in_progress s'" "ls_scheduling_confirmed s'" "ls_active_handoff_token s' = ho_token h"
    using assms(1) by (auto simp: ConfirmInstall_def split: if_splits)
  with confirmed_run [OF this(1,2) assms(2)] show ?thesis
    by (simp add: guard_destroy_def RollbackInstall_def)
qed

theorem confirmed_not_rolled_back_witness:
  "fst (RollbackInstall sample_handoff (run_ops [Op_BeginCheck] (snd (ConfirmInstall sample_handoff
     (run_ops (sample_round @ [Op_BeginInstall]) initial_lifecycle))))) = False"
  using confirmed_not_rolled_back [OF sample_confirm, of "[Op_BeginCheck]" sample_handoff] sample_confirm
  by simp

text \<open>
  A handoff is settled at most once: after a completion or an accepted rollback, in a reachable
  state, the same handoff can neither be confirmed, completed nor rolled back, in any run with fewer
  than 2^64 - 1 further attempts to install.
\<close>

theorem handoff_settled_once:
  assumes "lifecycle_reachable s" and "ho_token h = ls_active_handoff_token s"
    and "CompleteInstall h s = (True, s') \<or> (s' = snd (RollbackInstall h s) \<and> s' \<noteq> s)"
    and "length (filter starts_install ops) < 2 ^ 64 - 1"
  shows "\<not> fst (CompleteInstall h (run_ops ops s')) \<and> \<not> fst (ConfirmInstall h (run_ops ops s')) \<and>
    RollbackInstall h (run_ops ops s') = (False, run_ops ops s')"
proof -
  note inv = lifecycle_reachable_inv [OF assms(1)]
  have "ls_active_handoff_token s' = 0 \<and> ls_next_handoff_token s' = ls_next_handoff_token s \<and>
      ho_token h = ls_next_handoff_token s \<and> ho_token h \<noteq> 0"
    using assms(2,3) inv
    by (auto simp: lifecycle_inv_def CompleteInstall_def RollbackInstall_def Let_def split: if_splits)
  then have "ls_active_handoff_token (run_ops ops s') \<noteq> ho_token h"
    using token_retired [of s' "ho_token h" ops] assms(4) by auto
  then show ?thesis by (simp add: CompleteInstall_def ConfirmInstall_def RollbackInstall_def)
qed

theorem handoff_settled_once_witness:
  "\<not> fst (CompleteInstall sample_handoff (run_ops [Op_BeginInstall] (snd (CompleteInstall sample_handoff
     (run_ops (sample_round @ [Op_BeginInstall]) initial_lifecycle)))))"
proof -
  let ?s = "run_ops (sample_round @ [Op_BeginInstall]) initial_lifecycle"
  have reach: "lifecycle_reachable ?s"
    by (rule lifecycle_reachable_run [OF lifecycle_reachable.start])
  have token: "ho_token sample_handoff = ls_active_handoff_token ?s"
    unfolding run_ops_simps sample_round_state by (simp add: sample_lifecycle_defs)
  have complete: "CompleteInstall sample_handoff ?s = (True, snd (CompleteInstall sample_handoff ?s))"
    unfolding run_ops_simps sample_round_state by (simp add: sample_lifecycle_defs)
  then show ?thesis
    using handoff_settled_once [OF reach token, of "snd (CompleteInstall sample_handoff ?s)"
        "[Op_BeginInstall]"] by auto
qed

end
