(* ===== verification/Helper_Contract.thy ===== *)
theory Helper_Contract
  imports Updater_Prelude
begin

text \<open>
  The install helper's journal contract, \<^verbatim>\<open>install_helper_contract.{h,cc}\<close>: the journal states with
  their permitted transitions, and the decision that recovery takes from a journal and from what it
  observes on the disk. The constructors carry a prefix for their enumeration.
\<close>

section \<open>Data\<close>

datatype JournalMachine = jm_kSwap | jm_kManager

datatype JournalState = js_kPrepared | js_kBackupCreated | js_kTargetActivated | js_kManagerStarted
  | js_kVerificationPending | js_kCompleted | js_kRolledBack | js_kManualActionRequired

datatype IdentityObservation = io_kMissing | io_kVerifiedOld | io_kVerifiedNew | io_kUnknown

datatype ManagerObservation = mo_kNotApplicable | mo_kVerifiedOld | mo_kVerifiedNew | mo_kPending
  | mo_kUnknown

datatype RecoveryOutcome = ro_kVerifiedOldTarget | ro_kVerifiedNewTarget | ro_kManualActionRequired

datatype RecoveryAction = ra_kNone | ra_kDiscardPrepared | ra_kRestoreBackup | ra_kAcceptActivated
  | ra_kAcceptManagerState

record JournalV1 =
  j_schema_version :: int
  j_machine :: JournalMachine
  j_state :: JournalState
  j_owner_generation :: int
  j_envelope_valid :: bool

record ObservedState =
  ob_journal_durable :: bool
  ob_directory_flush_succeeded :: bool
  ob_owner_live :: bool
  ob_observed_owner_generation :: int
  ob_sibling_names_match :: bool
  ob_observations_unambiguous :: bool
  ob_target :: IdentityObservation
  ob_prepared :: IdentityObservation
  ob_backup :: IdentityObservation
  ob_manager :: ManagerObservation

record RecoveryDecision =
  rd_outcome :: RecoveryOutcome
  rd_action :: RecoveryAction
  rd_cleanup_authorized :: bool
  rd_reason :: string

record TransitionResult =
  tr_allowed :: bool
  tr_reason :: string

section \<open>Names\<close>

definition ParseJournalMachine :: "string \<Rightarrow> JournalMachine result" where
  "ParseJournalMachine s =
     (if s = ''swap'' then Inr jm_kSwap
      else if s = ''manager'' then Inr jm_kManager
      else Inl (InvalidArgument ''unknown journal machine''))"

definition ParseJournalState :: "string \<Rightarrow> JournalState result" where
  "ParseJournalState s =
     (if s = ''prepared'' then Inr js_kPrepared
      else if s = ''backupCreated'' then Inr js_kBackupCreated
      else if s = ''targetActivated'' then Inr js_kTargetActivated
      else if s = ''managerStarted'' then Inr js_kManagerStarted
      else if s = ''verificationPending'' then Inr js_kVerificationPending
      else if s = ''completed'' then Inr js_kCompleted
      else if s = ''rolledBack'' then Inr js_kRolledBack
      else if s = ''manualActionRequired'' then Inr js_kManualActionRequired
      else Inl (InvalidArgument ''unknown journal state''))"

definition ParseIdentityObservation :: "string \<Rightarrow> IdentityObservation result" where
  "ParseIdentityObservation s =
     (if s = ''missing'' then Inr io_kMissing
      else if s = ''verifiedOld'' then Inr io_kVerifiedOld
      else if s = ''verifiedNew'' then Inr io_kVerifiedNew
      else if s = ''unknown'' then Inr io_kUnknown
      else Inl (InvalidArgument ''unknown identity observation''))"

definition ParseManagerObservation :: "string \<Rightarrow> ManagerObservation result" where
  "ParseManagerObservation s =
     (if s = ''notApplicable'' then Inr mo_kNotApplicable
      else if s = ''verifiedOld'' then Inr mo_kVerifiedOld
      else if s = ''verifiedNew'' then Inr mo_kVerifiedNew
      else if s = ''pending'' then Inr mo_kPending
      else if s = ''unknown'' then Inr mo_kUnknown
      else Inl (InvalidArgument ''unknown manager observation''))"

text \<open>Both \<^verbatim>\<open>switch\<close>es are exhaustive, so their final \<^verbatim>\<open>throw\<close> is not reached.\<close>

fun RecoveryOutcomeName :: "RecoveryOutcome \<Rightarrow> string" where
  "RecoveryOutcomeName ro_kVerifiedOldTarget = ''verifiedOldTarget''"
| "RecoveryOutcomeName ro_kVerifiedNewTarget = ''verifiedNewTarget''"
| "RecoveryOutcomeName ro_kManualActionRequired = ''manualActionRequired''"

fun RecoveryActionName :: "RecoveryAction \<Rightarrow> string" where
  "RecoveryActionName ra_kNone = ''none''"
| "RecoveryActionName ra_kDiscardPrepared = ''discardPrepared''"
| "RecoveryActionName ra_kRestoreBackup = ''restoreBackup''"
| "RecoveryActionName ra_kAcceptActivated = ''acceptActivated''"
| "RecoveryActionName ra_kAcceptManagerState = ''acceptManagerState''"

section \<open>Decisions\<close>

definition Manual :: "string \<Rightarrow> RecoveryDecision" where
  "Manual reason = \<lparr>rd_outcome = ro_kManualActionRequired, rd_action = ra_kNone,
     rd_cleanup_authorized = False, rd_reason = reason\<rparr>"

definition VerifiedOld :: "RecoveryAction \<Rightarrow> string \<Rightarrow> RecoveryDecision" where
  "VerifiedOld action reason = \<lparr>rd_outcome = ro_kVerifiedOldTarget, rd_action = action,
     rd_cleanup_authorized = True, rd_reason = reason\<rparr>"

definition VerifiedNew :: "RecoveryAction \<Rightarrow> string \<Rightarrow> RecoveryDecision" where
  "VerifiedNew action reason = \<lparr>rd_outcome = ro_kVerifiedNewTarget, rd_action = action,
     rd_cleanup_authorized = True, rd_reason = reason\<rparr>"

definition DecideSwapRecovery :: "JournalV1 \<Rightarrow> ObservedState \<Rightarrow> RecoveryDecision" where
  "DecideSwapRecovery journal observed =
     (case j_state journal of
        js_kPrepared \<Rightarrow>
          if ob_target observed = io_kVerifiedOld \<and> ob_backup observed = io_kMissing \<and>
             (ob_prepared observed = io_kVerifiedNew \<or> ob_prepared observed = io_kMissing)
          then VerifiedOld (if ob_prepared observed = io_kVerifiedNew then ra_kDiscardPrepared else ra_kNone)
                 ''preparedTargetAuthoritative''
          else Manual ''preparedStateUnverified''
      | js_kBackupCreated \<Rightarrow>
          if ob_target observed = io_kMissing \<and> ob_backup observed = io_kVerifiedOld
          then VerifiedOld ra_kRestoreBackup ''backupReadyToRestore''
          else if ob_target observed = io_kVerifiedOld \<and>
             (ob_backup observed = io_kMissing \<or> ob_backup observed = io_kVerifiedOld)
          then VerifiedOld ra_kNone ''backupAlreadyRestored''
          else Manual ''backupStateUnverified''
      | js_kTargetActivated \<Rightarrow>
          if ob_target observed = io_kVerifiedNew \<and>
             (ob_backup observed = io_kVerifiedOld \<or> ob_backup observed = io_kMissing)
          then VerifiedNew ra_kAcceptActivated ''activatedTargetVerified''
          else if (ob_target observed = io_kMissing \<or> ob_target observed = io_kUnknown) \<and>
             ob_backup observed = io_kVerifiedOld
          then VerifiedOld ra_kRestoreBackup ''activatedTargetRejected''
          else if ob_target observed = io_kVerifiedOld
          then VerifiedOld ra_kNone ''activatedTargetAlreadyRolledBack''
          else Manual ''activatedStateUnverified''
      | js_kCompleted \<Rightarrow>
          if ob_target observed = io_kVerifiedNew
          then VerifiedNew ra_kNone ''completedTargetVerified''
          else Manual ''completedTargetUnverified''
      | js_kRolledBack \<Rightarrow>
          if ob_target observed = io_kVerifiedOld
          then VerifiedOld ra_kNone ''rollbackVerified''
          else Manual ''rollbackUnverified''
      | js_kManualActionRequired \<Rightarrow> Manual ''journalRequiresManualAction''
      | js_kManagerStarted \<Rightarrow> Manual ''strategyStateMismatch''
      | js_kVerificationPending \<Rightarrow> Manual ''strategyStateMismatch'')"

definition DecideManagerRecovery :: "JournalV1 \<Rightarrow> ObservedState \<Rightarrow> RecoveryDecision" where
  "DecideManagerRecovery journal observed =
     (let started =
        (if ob_manager observed = mo_kVerifiedNew
         then VerifiedNew ra_kAcceptManagerState ''managerNewStateVerified''
         else if ob_manager observed = mo_kVerifiedOld
         then VerifiedOld ra_kAcceptManagerState ''managerOldStateVerified''
         else if ob_manager observed = mo_kPending then Manual ''managerVerificationPending''
         else Manual ''managerStateUnknown'')
      in case j_state journal of
        js_kPrepared \<Rightarrow>
          if ob_manager observed = mo_kVerifiedOld
          then VerifiedOld ra_kNone ''managerOldStateVerified''
          else Manual ''managerPreparedStateUnverified''
      | js_kManagerStarted \<Rightarrow> started
      | js_kVerificationPending \<Rightarrow> started
      | js_kCompleted \<Rightarrow>
          if ob_manager observed = mo_kVerifiedNew
          then VerifiedNew ra_kNone ''completedManagerStateVerified''
          else Manual ''completedManagerStateUnverified''
      | js_kManualActionRequired \<Rightarrow> Manual ''journalRequiresManualAction''
      | js_kBackupCreated \<Rightarrow> Manual ''strategyStateMismatch''
      | js_kTargetActivated \<Rightarrow> Manual ''strategyStateMismatch''
      | js_kRolledBack \<Rightarrow> Manual ''strategyStateMismatch'')"

definition ValidateTransition :: "JournalState \<Rightarrow> JournalState \<Rightarrow> TransitionResult" where
  "ValidateTransition from_state to_state =
     (let allowed =
        (from_state = js_kPrepared \<and>
           (to_state = js_kBackupCreated \<or> to_state = js_kManagerStarted \<or>
            to_state = js_kRolledBack \<or> to_state = js_kManualActionRequired)) \<or>
        (from_state = js_kBackupCreated \<and>
           (to_state = js_kTargetActivated \<or> to_state = js_kRolledBack \<or>
            to_state = js_kManualActionRequired)) \<or>
        (from_state = js_kTargetActivated \<and>
           (to_state = js_kCompleted \<or> to_state = js_kRolledBack \<or>
            to_state = js_kManualActionRequired)) \<or>
        (from_state = js_kManagerStarted \<and>
           (to_state = js_kVerificationPending \<or> to_state = js_kManualActionRequired)) \<or>
        (from_state = js_kVerificationPending \<and>
           (to_state = js_kCompleted \<or> to_state = js_kManualActionRequired))
      in \<lparr>tr_allowed = allowed,
          tr_reason = (if allowed then ''transitionAllowed'' else ''transitionDenied'')\<rparr>)"

definition DecideRecovery :: "JournalV1 \<Rightarrow> ObservedState \<Rightarrow> RecoveryDecision" where
  "DecideRecovery journal observed =
     (if \<not> j_envelope_valid journal then Manual ''journalCorrupt''
      else if j_schema_version journal \<noteq> 1 then Manual ''unsupportedJournalVersion''
      else if \<not> ob_journal_durable observed then Manual ''journalNotDurable''
      else if \<not> ob_directory_flush_succeeded observed then Manual ''journalDirectoryFlushFailed''
      else if ob_owner_live observed then Manual ''transactionBusy''
      else if ob_observed_owner_generation observed \<noteq> j_owner_generation journal
      then Manual ''ownerGenerationMismatch''
      else if \<not> ob_sibling_names_match observed then Manual ''siblingNameMismatch''
      else if \<not> ob_observations_unambiguous observed then Manual ''ambiguousObservedState''
      else if j_machine journal = jm_kSwap then DecideSwapRecovery journal observed
      else DecideManagerRecovery journal observed)"

lemma decision_simps [simp]:
  "rd_outcome (Manual r) = ro_kManualActionRequired" "rd_action (Manual r) = ra_kNone"
  "rd_cleanup_authorized (Manual r) = False"
  "rd_outcome (VerifiedOld a r) = ro_kVerifiedOldTarget" "rd_action (VerifiedOld a r) = a"
  "rd_cleanup_authorized (VerifiedOld a r) = True"
  "rd_outcome (VerifiedNew a r) = ro_kVerifiedNewTarget" "rd_action (VerifiedNew a r) = a"
  "rd_cleanup_authorized (VerifiedNew a r) = True"
  by (simp_all add: Manual_def VerifiedOld_def VerifiedNew_def)

text \<open>The checks that come before the decision proper.\<close>

definition trusted :: "JournalV1 \<Rightarrow> ObservedState \<Rightarrow> bool" where
  "trusted journal ob \<longleftrightarrow> j_envelope_valid journal \<and> j_schema_version journal = 1 \<and>
     ob_journal_durable ob \<and> ob_directory_flush_succeeded ob \<and> \<not> ob_owner_live ob \<and>
     ob_observed_owner_generation ob = j_owner_generation journal \<and> ob_sibling_names_match ob \<and>
     ob_observations_unambiguous ob"

lemma DecideRecovery_trusted:
  "trusted journal ob \<Longrightarrow> DecideRecovery journal ob =
     (if j_machine journal = jm_kSwap then DecideSwapRecovery journal ob
      else DecideManagerRecovery journal ob)"
  by (simp add: trusted_def DecideRecovery_def)

lemma DecideRecovery_untrusted:
  "rd_outcome (DecideRecovery journal ob) \<noteq> ro_kManualActionRequired \<Longrightarrow> trusted journal ob"
  by (simp add: trusted_def DecideRecovery_def split: if_splits)

section \<open>The effect of a decision\<close>

text \<open>
  What an action does to the three names of a swap transaction: a restore moves the backup over the
  target, a discard removes the prepared copy, acceptance leaves the files alone. The cleanup that a
  decision authorises may remove the prepared copy and the backup; a crash may leave it half done.
\<close>

fun apply_action :: "RecoveryAction \<Rightarrow> ObservedState \<Rightarrow> ObservedState" where
  "apply_action ra_kRestoreBackup ob = ob\<lparr>ob_target := ob_backup ob, ob_backup := io_kMissing\<rparr>"
| "apply_action ra_kDiscardPrepared ob = ob\<lparr>ob_prepared := io_kMissing\<rparr>"
| "apply_action _ ob = ob"

definition cleanup :: "bool \<Rightarrow> bool \<Rightarrow> ObservedState \<Rightarrow> ObservedState" where
  "cleanup remove_prepared remove_backup ob = ob
     \<lparr>ob_prepared := (if remove_prepared then io_kMissing else ob_prepared ob),
      ob_backup := (if remove_backup then io_kMissing else ob_backup ob)\<rparr>"

definition outcome_identity :: "RecoveryOutcome \<Rightarrow> IdentityObservation \<Rightarrow> bool" where
  "outcome_identity outcome target \<longleftrightarrow>
     (outcome = ro_kVerifiedOldTarget \<longrightarrow> target = io_kVerifiedOld) \<and>
     (outcome = ro_kVerifiedNewTarget \<longrightarrow> target = io_kVerifiedNew)"

lemma DecideSwapRecovery_sound:
  assumes "rd_outcome (DecideSwapRecovery journal ob) \<noteq> ro_kManualActionRequired"
  shows "rd_cleanup_authorized (DecideSwapRecovery journal ob)"
    "outcome_identity (rd_outcome (DecideSwapRecovery journal ob))
       (ob_target (apply_action (rd_action (DecideSwapRecovery journal ob)) ob))"
    "rd_action (DecideSwapRecovery journal ob) = ra_kRestoreBackup \<Longrightarrow>
       ob_backup ob = io_kVerifiedOld \<and> ob_target ob \<in> {io_kMissing, io_kUnknown}"
  using assms
  by (cases "j_state journal";
      auto simp: DecideSwapRecovery_def outcome_identity_def split: if_splits)+

lemma DecideManagerRecovery_sound:
  assumes "rd_outcome (DecideManagerRecovery journal ob) \<noteq> ro_kManualActionRequired"
  shows "rd_cleanup_authorized (DecideManagerRecovery journal ob)"
    "ob_manager ob = (if rd_outcome (DecideManagerRecovery journal ob) = ro_kVerifiedNewTarget
       then mo_kVerifiedNew else mo_kVerifiedOld)"
    "rd_action (DecideManagerRecovery journal ob) \<noteq> ra_kRestoreBackup"
  using assms
  by (cases "j_state journal"; auto simp: DecideManagerRecovery_def Let_def split: if_splits)+

lemma DecideSwapRecovery_again:
  assumes "rd_outcome (DecideSwapRecovery journal ob) \<noteq> ro_kManualActionRequired"
    and "ob' = cleanup p b (apply_action (rd_action (DecideSwapRecovery journal ob)) ob)"
  shows "rd_outcome (DecideSwapRecovery journal ob') = rd_outcome (DecideSwapRecovery journal ob)"
    "rd_action (DecideSwapRecovery journal ob') \<noteq> ra_kRestoreBackup"
  using assms
  by (cases "j_state journal"; auto simp: DecideSwapRecovery_def cleanup_def split: if_splits)+

lemma trusted_after [simp]: "trusted journal (cleanup p b (apply_action a ob)) = trusted journal ob"
  by (cases a) (simp_all add: trusted_def cleanup_def)

section \<open>The journal as a state machine\<close>

inductive journal_path :: "JournalState \<Rightarrow> JournalState list \<Rightarrow> bool" where
  stop: "journal_path s []"
| move: "tr_allowed (ValidateTransition s t) \<Longrightarrow> journal_path t ts \<Longrightarrow> journal_path s (t # ts)"

inductive_simps journal_path_Nil [simp]: "journal_path s []"
inductive_simps journal_path_Cons [simp]: "journal_path s (t # ts)"

fun journal_rank :: "JournalState \<Rightarrow> nat" where
  "journal_rank js_kPrepared = 3"
| "journal_rank js_kBackupCreated = 2"
| "journal_rank js_kManagerStarted = 2"
| "journal_rank js_kTargetActivated = 1"
| "journal_rank js_kVerificationPending = 1"
| "journal_rank _ = 0"

definition terminal :: "JournalState \<Rightarrow> bool" where
  "terminal s \<longleftrightarrow> s \<in> {js_kCompleted, js_kRolledBack, js_kManualActionRequired}"

lemma transition_rank: "tr_allowed (ValidateTransition s t) \<Longrightarrow> journal_rank t < journal_rank s"
  by (auto simp: ValidateTransition_def Let_def)

lemma journal_path_length: "journal_path s ts \<Longrightarrow> length ts \<le> journal_rank s"
  by (induction rule: journal_path.induct) (auto dest: transition_rank)

lemma transition_machine:
  "tr_allowed (ValidateTransition s t) \<Longrightarrow>
    (s \<in> {js_kManagerStarted, js_kVerificationPending} \<longrightarrow>
       t \<in> {js_kVerificationPending, js_kCompleted, js_kManualActionRequired}) \<and>
    (s \<in> {js_kBackupCreated, js_kTargetActivated} \<longrightarrow>
       t \<in> {js_kTargetActivated, js_kCompleted, js_kRolledBack, js_kManualActionRequired})"
  by (auto simp: ValidateTransition_def Let_def)

lemma journal_path_machine:
  "journal_path s ts \<Longrightarrow>
    (s \<in> {js_kManagerStarted, js_kVerificationPending} \<longrightarrow>
       set ts \<subseteq> {js_kVerificationPending, js_kCompleted, js_kManualActionRequired}) \<and>
    (s \<in> {js_kBackupCreated, js_kTargetActivated} \<longrightarrow>
       set ts \<subseteq> {js_kTargetActivated, js_kCompleted, js_kRolledBack, js_kManualActionRequired})"
proof (induction rule: journal_path.induct)
  case (move s t ts)
  have "ts = []" if "terminal t" using journal_path_length [OF move.hyps(2)] that by (auto simp: terminal_def)
  with move transition_machine [OF move.hyps(1)] show ?case by (auto simp: terminal_def)
qed simp

section \<open>Properties\<close>

text \<open>
  C10. Recovery acts on verified evidence only. Unless it asks for manual action, the journal was
  intact, of the known version and durable, its owner dead and of the same generation, the names and
  observations unambiguous; cleanup is authorised exactly then; after the action a swap target is the
  verified old or the verified new version as the outcome says, and a restore happens only from a
  verified old backup over a target that is neither verified version.
\<close>

theorem recovery_acts_on_evidence:
  assumes "DecideRecovery journal ob = d" and "rd_outcome d \<noteq> ro_kManualActionRequired"
  shows "j_envelope_valid journal \<and> j_schema_version journal = 1 \<and> ob_journal_durable ob \<and>
    ob_directory_flush_succeeded ob \<and> \<not> ob_owner_live ob \<and>
    ob_observed_owner_generation ob = j_owner_generation journal \<and> ob_sibling_names_match ob \<and>
    ob_observations_unambiguous ob \<and> rd_cleanup_authorized d \<and>
    (j_machine journal = jm_kSwap \<longrightarrow>
       outcome_identity (rd_outcome d) (ob_target (apply_action (rd_action d) ob))) \<and>
    (j_machine journal = jm_kManager \<longrightarrow>
       ob_manager ob = (if rd_outcome d = ro_kVerifiedNewTarget then mo_kVerifiedNew else mo_kVerifiedOld)) \<and>
    (rd_action d = ra_kRestoreBackup \<longrightarrow>
       ob_backup ob = io_kVerifiedOld \<and> ob_target ob \<in> {io_kMissing, io_kUnknown})"
proof -
  have trusted: "trusted journal ob" using assms DecideRecovery_untrusted by blast
  then have "rd_cleanup_authorized d \<and>
    (j_machine journal = jm_kSwap \<longrightarrow>
       outcome_identity (rd_outcome d) (ob_target (apply_action (rd_action d) ob))) \<and>
    (j_machine journal = jm_kManager \<longrightarrow>
       ob_manager ob = (if rd_outcome d = ro_kVerifiedNewTarget then mo_kVerifiedNew else mo_kVerifiedOld)) \<and>
    (rd_action d = ra_kRestoreBackup \<longrightarrow>
       ob_backup ob = io_kVerifiedOld \<and> ob_target ob \<in> {io_kMissing, io_kUnknown})"
    using assms DecideSwapRecovery_sound [of journal ob] DecideManagerRecovery_sound [of journal ob]
    by (cases "j_machine journal") (auto simp: DecideRecovery_trusted)
  with trusted show ?thesis unfolding trusted_def by blast
qed

definition sample_journal :: "JournalState \<Rightarrow> JournalV1" where
  "sample_journal state = \<lparr>j_schema_version = 1, j_machine = jm_kSwap, j_state = state,
     j_owner_generation = 4, j_envelope_valid = True\<rparr>"

definition sample_crash :: ObservedState where
  "sample_crash = \<lparr>ob_journal_durable = True, ob_directory_flush_succeeded = True, ob_owner_live = False,
     ob_observed_owner_generation = 4, ob_sibling_names_match = True, ob_observations_unambiguous = True,
     ob_target = io_kMissing, ob_prepared = io_kVerifiedNew, ob_backup = io_kVerifiedOld,
     ob_manager = mo_kNotApplicable\<rparr>"

lemma sample_crash_decision:
  "DecideRecovery (sample_journal js_kBackupCreated) sample_crash =
     VerifiedOld ra_kRestoreBackup ''backupReadyToRestore''"
  by (simp add: DecideRecovery_def DecideSwapRecovery_def sample_journal_def sample_crash_def)

theorem recovery_acts_on_evidence_witness:
  "ob_backup sample_crash = io_kVerifiedOld \<and>
     ob_target (apply_action ra_kRestoreBackup sample_crash) = io_kVerifiedOld"
  using recovery_acts_on_evidence [OF sample_crash_decision]
  by (simp add: outcome_identity_def sample_journal_def)

text \<open>
  Recovery of a swap is idempotent: when a crash interrupts it after its action, and after any part
  of the cleanup it authorised, deciding again from the same journal gives the same outcome, with
  nothing left to restore.
\<close>

theorem recovery_idempotent:
  assumes "j_machine journal = jm_kSwap" and "DecideRecovery journal ob = d"
    and "rd_outcome d \<noteq> ro_kManualActionRequired"
  shows "rd_outcome (DecideRecovery journal (cleanup p b (apply_action (rd_action d) ob))) = rd_outcome d \<and>
    rd_action (DecideRecovery journal (cleanup p b (apply_action (rd_action d) ob))) \<noteq> ra_kRestoreBackup"
proof -
  have "trusted journal ob" using assms DecideRecovery_untrusted by blast
  then show ?thesis
    using assms DecideSwapRecovery_again [OF _ refl, of journal ob p b] by (auto simp: DecideRecovery_trusted)
qed

theorem recovery_idempotent_witness:
  "rd_outcome (DecideRecovery (sample_journal js_kBackupCreated)
     (cleanup True False (apply_action ra_kRestoreBackup sample_crash))) = ro_kVerifiedOldTarget"
  using recovery_idempotent [OF _ sample_crash_decision, of True False]
  by (simp add: sample_journal_def)

text \<open>
  C40. Every journal ends: at most three transitions can be recorded after any state, a state without
  successor is exactly a completed, rolled-back or manual one, and a journal that entered the package
  manager's states or the swap states never crosses over.
\<close>

theorem journal_terminates:
  assumes "journal_path s ts"
  shows "length ts \<le> 3 \<and> ((\<forall>t. \<not> tr_allowed (ValidateTransition s t)) \<longleftrightarrow> terminal s) \<and>
    (s = js_kManagerStarted \<longrightarrow> set ts \<inter> {js_kBackupCreated, js_kTargetActivated, js_kRolledBack} = {}) \<and>
    (s = js_kBackupCreated \<longrightarrow> set ts \<inter> {js_kManagerStarted, js_kVerificationPending} = {})"
proof -
  have "journal_rank s \<le> 3" by (cases s) simp_all
  with journal_path_length [OF assms] have "length ts \<le> 3" by linarith
  moreover have "(\<forall>t. \<not> tr_allowed (ValidateTransition s t)) \<longleftrightarrow> terminal s"
    by (cases s) (auto simp: ValidateTransition_def Let_def terminal_def)
  ultimately show ?thesis using journal_path_machine [OF assms] by auto
qed

theorem journal_terminates_witness:
  "length [js_kBackupCreated, js_kTargetActivated, js_kCompleted] \<le> 3 \<and>
     \<not> tr_allowed (ValidateTransition js_kCompleted js_kPrepared)"
proof -
  have "journal_path js_kPrepared [js_kBackupCreated, js_kTargetActivated, js_kCompleted]"
    "journal_path js_kCompleted []"
    by (simp_all add: ValidateTransition_def Let_def)
  from journal_terminates [OF this(1)] journal_terminates [OF this(2)] show ?thesis
    by (auto simp: terminal_def)
qed

end
