(* ===== verification/Install_Wire.thy ===== *)
theory Install_Wire
  imports Json_Codec
begin

text \<open>
  The messages between the application and the install helper, \<^verbatim>\<open>native_install_wire.{h,cc}\<close>: a
  reservation, a command, a transaction status and a recovery result. All four share one contract,
  stated as the locale \<open>wire_message\<close> and interpreted for each of them.
\<close>

section \<open>Messages\<close>

record NativeInstallReservationV1 =
  rv_protocol_version :: int
  rv_transaction_id :: string
  rv_ready_token :: string
  rv_journal_sha256 :: string
  rv_helper_endpoint_identity_sha256 :: string
  rv_expires_at_unix_milliseconds :: int

record NativeInstallWireCommandV1 =
  cm_operation :: string
  cm_protocol_version :: int
  cm_transaction_id :: string
  cm_ready_token :: string
  cm_journal_sha256 :: string
  cm_helper_endpoint_identity_sha256 :: string

record NativeInstallTransactionStatusV1 =
  ts_protocol_version :: int
  ts_transaction_id :: string
  ts_state :: string
  ts_result_code :: string
  ts_journal_sha256 :: string

record NativeInstallRecoveryResultV1 =
  rr_protocol_version :: int
  rr_transaction_id :: string
  rr_result_code :: string
  rr_verified_outcome :: string
  rr_journal_sha256 :: string

section \<open>Checks\<close>

definition wire_Fail :: "string \<Rightarrow> 'a result" where
  "wire_Fail detail = Inl (NativeInstallWireError detail)"

text \<open>
  \<^verbatim>\<open>catch (const NativeInstallWireError&) { throw; } catch (const std::exception&) { Fail(detail); }\<close>
\<close>

definition wire_guard :: "string \<Rightarrow> 'a result \<Rightarrow> 'a result" where
  "wire_guard detail r = (case r of
       Inr x \<Rightarrow> Inr x
     | Inl (NativeInstallWireError m) \<Rightarrow> Inl (NativeInstallWireError m)
     | Inl e \<Rightarrow> wire_Fail detail)"

definition wire_ParseCanonicalObject :: "string \<Rightarrow> (string, JsonValue) std_map result" where
  "wire_ParseCanonicalObject canonical_json = wire_guard ''invalidJson''
     (bindE (ParseJson canonical_json) (\<lambda>owner.
        if EncodeCanonicalJson owner \<noteq> canonical_json then wire_Fail ''nonCanonicalJson''
        else jobject owner))"

text \<open>The keys that the callers list are distinct, so the set built from them has their number.\<close>

definition wire_RequireExactKeys :: "(string, JsonValue) std_map \<Rightarrow> string list \<Rightarrow> unit result" where
  "wire_RequireExactKeys object keys =
     (if length object \<noteq> length (remdups keys) \<or> (\<exists>key \<in> set keys. map_find object key = None)
      then wire_Fail ''unknownOrMissingField'' else Inr ())"

text \<open>\<^verbatim>\<open>std::map::at\<close> throws \<^verbatim>\<open>std::out_of_range\<close>.\<close>

definition At :: "(string, JsonValue) std_map \<Rightarrow> string \<Rightarrow> JsonValue result" where
  "At object key = (case map_find object key of
       None \<Rightarrow> Inl (OutOfRange ''map::at'') | Some v \<Rightarrow> Inr v)"

definition IsLowercaseUuid :: "string \<Rightarrow> bool" where
  "IsLowercaseUuid s \<longleftrightarrow> length s = 36 \<and>
     (\<forall>i < length s. if i \<in> {8, 13, 18, 23} then s ! i = CHR ''-'' else is_lower_hex (s ! i))"

definition IsSha256 :: "string \<Rightarrow> bool" where
  "IsSha256 s \<longleftrightarrow> length s = 64 \<and> list_all is_lower_hex s"

definition IsReadyToken :: "string \<Rightarrow> bool" where
  "IsReadyToken s \<longleftrightarrow> length s = 43 \<and>
     list_all (\<lambda>c. isupper c \<or> islower c \<or> isdigit c \<or> c = CHR ''-'' \<or> c = CHR ''_'') s"

definition ValidateProtocolAndTransaction :: "int \<Rightarrow> string \<Rightarrow> unit result" where
  "ValidateProtocolAndTransaction protocol_version transaction_id =
     (if protocol_version \<noteq> 1 then wire_Fail ''unsupportedProtocolVersion''
      else if \<not> IsLowercaseUuid transaction_id then wire_Fail ''invalidTransactionId''
      else Inr ())"

definition ValidateReservation :: "NativeInstallReservationV1 \<Rightarrow> unit result" where
  "ValidateReservation v =
     bindE (ValidateProtocolAndTransaction (rv_protocol_version v) (rv_transaction_id v)) (\<lambda>_.
       if \<not> IsReadyToken (rv_ready_token v) then wire_Fail ''invalidReadyToken''
       else if \<not> IsSha256 (rv_journal_sha256 v) then wire_Fail ''invalidJournalSha256''
       else if \<not> IsSha256 (rv_helper_endpoint_identity_sha256 v)
       then wire_Fail ''invalidHelperEndpointIdentitySha256''
       else if rv_expires_at_unix_milliseconds v < 0 then wire_Fail ''invalidExpiry''
       else Inr ())"

definition ValidateCommand :: "NativeInstallWireCommandV1 \<Rightarrow> unit result" where
  "ValidateCommand v =
     bindE (ValidateProtocolAndTransaction (cm_protocol_version v) (cm_transaction_id v)) (\<lambda>_.
       if cm_operation v \<noteq> ''commitAfterExit'' \<and> cm_operation v \<noteq> ''cancelReservation''
       then wire_Fail ''unsupportedOperation''
       else if \<not> IsReadyToken (cm_ready_token v) \<or> \<not> IsSha256 (cm_journal_sha256 v) \<or>
          \<not> IsSha256 (cm_helper_endpoint_identity_sha256 v)
       then wire_Fail ''invalidCommandBinding''
       else Inr ())"

definition kStates :: "string set" where
  "kStates = {''prepared'', ''backupCreated'', ''targetActivated'', ''managerStarted'',
     ''verificationPending'', ''completed'', ''rolledBack'', ''manualActionRequired''}"

definition kResultCodes :: "string set" where
  "kResultCodes = {''helperUnavailable'', ''helperTrustFailure'', ''authorizationDenied'',
     ''targetValidationFailure'', ''stageProvenanceFailure'', ''transactionBusy'', ''journalCorrupt'',
     ''recoveryRequired'', ''rolledBack'', ''externalManagerPending'', ''manualActionRequired'',
     ''packageManagerFailure'', ''relaunchFailure'', ''completed''}"

definition ValidateStatus :: "NativeInstallTransactionStatusV1 \<Rightarrow> unit result" where
  "ValidateStatus v =
     bindE (ValidateProtocolAndTransaction (ts_protocol_version v) (ts_transaction_id v)) (\<lambda>_.
       if ts_state v \<notin> kStates \<or> ts_result_code v \<notin> kResultCodes \<or> \<not> IsSha256 (ts_journal_sha256 v)
       then wire_Fail ''invalidTransactionStatus''
       else
         let completed = (ts_state v = ''completed''); completed_result = (ts_result_code v = ''completed'');
             rolled_back = (ts_state v = ''rolledBack''); rolled_back_result = (ts_result_code v = ''rolledBack'')
         in if (completed_result \<and> \<not> completed) \<or> (rolled_back_result \<and> \<not> rolled_back)
            then wire_Fail ''inconsistentTransactionStatus'' else Inr ())"

definition ValidateRecovery :: "NativeInstallRecoveryResultV1 \<Rightarrow> unit result" where
  "ValidateRecovery v =
     bindE (ValidateProtocolAndTransaction (rr_protocol_version v) (rr_transaction_id v)) (\<lambda>_.
       if rr_result_code v \<notin> kResultCodes \<or>
          (rr_verified_outcome v \<noteq> ''oldTarget'' \<and> rr_verified_outcome v \<noteq> ''newTarget'' \<and>
           rr_verified_outcome v \<noteq> ''none'') \<or> \<not> IsSha256 (rr_journal_sha256 v)
       then wire_Fail ''invalidRecoveryResult''
       else
         let completed = (rr_result_code v = ''completed''); new_target = (rr_verified_outcome v = ''newTarget'');
             rolled_back = (rr_result_code v = ''rolledBack''); old_target = (rr_verified_outcome v = ''oldTarget'')
         in if (completed \<and> \<not> new_target) \<or> (rolled_back \<and> \<not> old_target)
            then wire_Fail ''inconsistentRecoveryResult'' else Inr ())"

section \<open>Parsers and encoders\<close>

definition ParseNativeInstallReservationV1 :: "string \<Rightarrow> NativeInstallReservationV1 result" where
  "ParseNativeInstallReservationV1 canonical_json = wire_guard ''invalidReservation''
     (bindE (wire_ParseCanonicalObject canonical_json) (\<lambda>object.
      bindE (wire_RequireExactKeys object [''protocolVersion'', ''transactionId'', ''readyToken'',
        ''journalSha256'', ''helperEndpointIdentitySha256'', ''expiresAtUnixMilliseconds'']) (\<lambda>_.
      bindE (bindE (At object ''protocolVersion'') jinteger) (\<lambda>protocol.
      bindE (bindE (At object ''transactionId'') jstring) (\<lambda>transaction.
      bindE (bindE (At object ''readyToken'') jstring) (\<lambda>ready_token.
      bindE (bindE (At object ''journalSha256'') jstring) (\<lambda>journal.
      bindE (bindE (At object ''helperEndpointIdentitySha256'') jstring) (\<lambda>helper.
      bindE (bindE (At object ''expiresAtUnixMilliseconds'') jinteger) (\<lambda>expires.
        let v = \<lparr>rv_protocol_version = protocol, rv_transaction_id = transaction,
              rv_ready_token = ready_token, rv_journal_sha256 = journal,
              rv_helper_endpoint_identity_sha256 = helper, rv_expires_at_unix_milliseconds = expires\<rparr>
        in bindE (ValidateReservation v) (\<lambda>_. Inr v))))))))))"

definition EncodeNativeInstallReservationV1 :: "NativeInstallReservationV1 \<Rightarrow> string result" where
  "EncodeNativeInstallReservationV1 v =
     bindE (ValidateReservation v) (\<lambda>_. Inr (EncodeCanonicalJson (kObject (emplaced
       [(''protocolVersion'', kInteger (rv_protocol_version v)),
        (''transactionId'', kString (rv_transaction_id v)),
        (''readyToken'', kString (rv_ready_token v)),
        (''journalSha256'', kString (rv_journal_sha256 v)),
        (''helperEndpointIdentitySha256'', kString (rv_helper_endpoint_identity_sha256 v)),
        (''expiresAtUnixMilliseconds'', kInteger (rv_expires_at_unix_milliseconds v))]))))"

definition ParseNativeInstallWireCommandV1 :: "string \<Rightarrow> NativeInstallWireCommandV1 result" where
  "ParseNativeInstallWireCommandV1 canonical_json = wire_guard ''invalidCommand''
     (bindE (wire_ParseCanonicalObject canonical_json) (\<lambda>object.
      bindE (wire_RequireExactKeys object [''operation'', ''protocolVersion'', ''transactionId'',
        ''readyToken'', ''journalSha256'', ''helperEndpointIdentitySha256'']) (\<lambda>_.
      bindE (bindE (At object ''operation'') jstring) (\<lambda>operation.
      bindE (bindE (At object ''protocolVersion'') jinteger) (\<lambda>protocol.
      bindE (bindE (At object ''transactionId'') jstring) (\<lambda>transaction.
      bindE (bindE (At object ''readyToken'') jstring) (\<lambda>ready_token.
      bindE (bindE (At object ''journalSha256'') jstring) (\<lambda>journal.
      bindE (bindE (At object ''helperEndpointIdentitySha256'') jstring) (\<lambda>helper.
        let v = \<lparr>cm_operation = operation, cm_protocol_version = protocol,
              cm_transaction_id = transaction, cm_ready_token = ready_token,
              cm_journal_sha256 = journal, cm_helper_endpoint_identity_sha256 = helper\<rparr>
        in bindE (ValidateCommand v) (\<lambda>_. Inr v))))))))))"

definition EncodeNativeInstallWireCommandV1 :: "NativeInstallWireCommandV1 \<Rightarrow> string result" where
  "EncodeNativeInstallWireCommandV1 v =
     bindE (ValidateCommand v) (\<lambda>_. Inr (EncodeCanonicalJson (kObject (emplaced
       [(''operation'', kString (cm_operation v)),
        (''protocolVersion'', kInteger (cm_protocol_version v)),
        (''transactionId'', kString (cm_transaction_id v)),
        (''readyToken'', kString (cm_ready_token v)),
        (''journalSha256'', kString (cm_journal_sha256 v)),
        (''helperEndpointIdentitySha256'', kString (cm_helper_endpoint_identity_sha256 v))]))))"

definition ParseNativeInstallTransactionStatusV1 :: "string \<Rightarrow> NativeInstallTransactionStatusV1 result" where
  "ParseNativeInstallTransactionStatusV1 canonical_json = wire_guard ''invalidTransactionStatus''
     (bindE (wire_ParseCanonicalObject canonical_json) (\<lambda>object.
      bindE (wire_RequireExactKeys object [''protocolVersion'', ''transactionId'', ''state'',
        ''resultCode'', ''journalSha256'']) (\<lambda>_.
      bindE (bindE (At object ''protocolVersion'') jinteger) (\<lambda>protocol.
      bindE (bindE (At object ''transactionId'') jstring) (\<lambda>transaction.
      bindE (bindE (At object ''state'') jstring) (\<lambda>state.
      bindE (bindE (At object ''resultCode'') jstring) (\<lambda>result_code.
      bindE (bindE (At object ''journalSha256'') jstring) (\<lambda>journal.
        let v = \<lparr>ts_protocol_version = protocol, ts_transaction_id = transaction, ts_state = state,
              ts_result_code = result_code, ts_journal_sha256 = journal\<rparr>
        in bindE (ValidateStatus v) (\<lambda>_. Inr v)))))))))"

definition EncodeNativeInstallTransactionStatusV1 :: "NativeInstallTransactionStatusV1 \<Rightarrow> string result" where
  "EncodeNativeInstallTransactionStatusV1 v =
     bindE (ValidateStatus v) (\<lambda>_. Inr (EncodeCanonicalJson (kObject (emplaced
       [(''protocolVersion'', kInteger (ts_protocol_version v)),
        (''transactionId'', kString (ts_transaction_id v)),
        (''state'', kString (ts_state v)),
        (''resultCode'', kString (ts_result_code v)),
        (''journalSha256'', kString (ts_journal_sha256 v))]))))"

definition ParseNativeInstallRecoveryResultV1 :: "string \<Rightarrow> NativeInstallRecoveryResultV1 result" where
  "ParseNativeInstallRecoveryResultV1 canonical_json = wire_guard ''invalidRecoveryResult''
     (bindE (wire_ParseCanonicalObject canonical_json) (\<lambda>object.
      bindE (wire_RequireExactKeys object [''protocolVersion'', ''transactionId'', ''resultCode'',
        ''verifiedOutcome'', ''journalSha256'']) (\<lambda>_.
      bindE (bindE (At object ''protocolVersion'') jinteger) (\<lambda>protocol.
      bindE (bindE (At object ''transactionId'') jstring) (\<lambda>transaction.
      bindE (bindE (At object ''resultCode'') jstring) (\<lambda>result_code.
      bindE (bindE (At object ''verifiedOutcome'') jstring) (\<lambda>outcome.
      bindE (bindE (At object ''journalSha256'') jstring) (\<lambda>journal.
        let v = \<lparr>rr_protocol_version = protocol, rr_transaction_id = transaction,
              rr_result_code = result_code, rr_verified_outcome = outcome, rr_journal_sha256 = journal\<rparr>
        in bindE (ValidateRecovery v) (\<lambda>_. Inr v)))))))))"

definition EncodeNativeInstallRecoveryResultV1 :: "NativeInstallRecoveryResultV1 \<Rightarrow> string result" where
  "EncodeNativeInstallRecoveryResultV1 v =
     bindE (ValidateRecovery v) (\<lambda>_. Inr (EncodeCanonicalJson (kObject (emplaced
       [(''protocolVersion'', kInteger (rr_protocol_version v)),
        (''transactionId'', kString (rr_transaction_id v)),
        (''resultCode'', kString (rr_result_code v)),
        (''verifiedOutcome'', kString (rr_verified_outcome v)),
        (''journalSha256'', kString (rr_journal_sha256 v))]))))"

section \<open>The contract of a message\<close>

lemma wire_ParseCanonicalObject_iff:
  "wire_ParseCanonicalObject text = Inr object \<longleftrightarrow>
     wf_json (kObject object) \<and> text = EncodeCanonicalJson (kObject object)"
proof
  assume "wire_ParseCanonicalObject text = Inr object"
  then have "ParseJson text = Inr (kObject object) \<and> EncodeCanonicalJson (kObject object) = text"
    by (auto simp: wire_ParseCanonicalObject_def wire_guard_def wire_Fail_def jobject_def bindE_def
        split: sum.splits cpp_exception.splits if_splits JsonValue.splits)
  then show "wf_json (kObject object) \<and> text = EncodeCanonicalJson (kObject object)"
    using ParseJson_wf by blast
next
  assume "wf_json (kObject object) \<and> text = EncodeCanonicalJson (kObject object)"
  then show "wire_ParseCanonicalObject text = Inr object"
    by (simp add: wire_ParseCanonicalObject_def ParseJson_Encode wire_guard_def jobject_def)
qed

text \<open>
  A message is read from an object with exactly its keys, each of the right type, and validated; it
  is written from its members. \<open>reads\<close> is the reading part of a parser and \<open>int64_fields\<close> says that its
  integers fit the 64-bit fields of the code.
\<close>

locale wire_message =
  fixes parse :: "string \<Rightarrow> 'm result"
    and encode :: "'m \<Rightarrow> string result"
    and validate :: "'m \<Rightarrow> unit result"
    and reads :: "(string, JsonValue) std_map \<Rightarrow> 'm result"
    and members :: "'m \<Rightarrow> (string \<times> JsonValue) list"
    and int64_fields :: "'m \<Rightarrow> bool"
    and failure :: string
  assumes parse_eq: "parse text = wire_guard failure (bindE (wire_ParseCanonicalObject text) (\<lambda>object.
      bindE (reads object) (\<lambda>v. bindE (validate v) (\<lambda>_. Inr v))))"
    and encode_eq: "encode v = bindE (validate v) (\<lambda>_. Inr (EncodeCanonicalJson (kObject (emplaced (members v)))))"
    and reads_iff: "sorted_keys object \<Longrightarrow> reads object = Inr v \<longleftrightarrow> object = emplaced (members v)"
    and int64_iff: "wf_json (kObject (emplaced (members v))) \<longleftrightarrow> int64_fields v"
    and validate_wire: "validate v = Inl e \<Longrightarrow> \<exists>d. e = NativeInstallWireError d"
begin

text \<open>The parser accepts exactly the encodings of valid messages.\<close>

lemma parse_iff: "parse text = Inr v \<longleftrightarrow> int64_fields v \<and> encode v = Inr text"
proof
  assume "parse text = Inr v"
  then obtain object where o: "wire_ParseCanonicalObject text = Inr object" "reads object = Inr v"
    "validate v = Inr ()"
    by (auto simp: parse_eq wire_guard_def wire_Fail_def bindE_def split: sum.splits cpp_exception.splits)
  then have wf: "wf_json (kObject object)" and canonical: "text = EncodeCanonicalJson (kObject object)"
    by (simp_all only: wire_ParseCanonicalObject_iff)
  have "object = emplaced (members v)" using reads_iff [of object v] wf o(2) by simp
  with wf canonical o(3) show "int64_fields v \<and> encode v = Inr text"
    using int64_iff by (simp add: encode_eq)
next
  assume "int64_fields v \<and> encode v = Inr text"
  then have v: "validate v = Inr ()" "text = EncodeCanonicalJson (kObject (emplaced (members v)))"
    "wf_json (kObject (emplaced (members v)))"
    by (auto simp: encode_eq bindE_Inr_iff int64_iff simp del: wf_json.simps)
  then have "wire_ParseCanonicalObject text = Inr (emplaced (members v))"
    by (simp only: wire_ParseCanonicalObject_iff)
  moreover have "reads (emplaced (members v)) = Inr v" by (simp add: reads_iff)
  ultimately show "parse text = Inr v" using v(1) by (simp add: parse_eq wire_guard_def)
qed

lemma parse_wire_error: "parse text = Inl e \<Longrightarrow> \<exists>d. e = NativeInstallWireError d"
  by (auto simp: parse_eq wire_guard_def wire_Fail_def split: sum.splits cpp_exception.splits)

lemma encode_wire_error: "encode v = Inl e \<Longrightarrow> \<exists>d. e = NativeInstallWireError d"
  by (auto simp: encode_eq bindE_Inl_iff dest: validate_wire)

lemma parse_inject: "parse text = Inr v \<Longrightarrow> parse text' = Inr v \<Longrightarrow> text = text'"
  by (simp add: parse_iff)

end

text \<open>Reading and writing one field.\<close>

lemma bind_field_iff [result_simps]:
  "bindE (bindE (At m k) jstring) f = Inr v \<longleftrightarrow> (\<exists>s. map_find m k = Some (kString s) \<and> f s = Inr v)"
  "bindE (bindE (At m k) jinteger) g = Inr v \<longleftrightarrow> (\<exists>i. map_find m k = Some (kInteger i) \<and> g i = Inr v)"
  "bindE (wire_RequireExactKeys m ks) h = Inr v \<longleftrightarrow> wire_RequireExactKeys m ks = Inr () \<and> h () = Inr v"
  by (auto simp: At_def jstring_def jinteger_def bindE_Inr_iff split: option.splits JsonValue.splits)

text \<open>An object with exactly the given keys is rebuilt from what they hold.\<close>

lemma exact_object_iff:
  assumes "sorted_keys m" and "distinct (map fst kvs)"
  shows "wire_RequireExactKeys m (map fst kvs) = Inr () \<and> (\<forall>(k, v) \<in> set kvs. map_find m k = Some v) \<longleftrightarrow>
    m = emplaced kvs"
proof (intro iffI conjI)
  assume m: "wire_RequireExactKeys m (map fst kvs) = Inr () \<and> (\<forall>(k, v) \<in> set kvs. map_find m k = Some v)"
  have len: "length m = length (map fst kvs)"
    using m assms(2) by (auto simp: wire_RequireExactKeys_def wire_Fail_def distinct_remdups_id split: if_splits)
  have "map_find m k = Some (the (map_of kvs k))" if "k \<in> set (map fst kvs)" for k
    using m that assms(2) by (auto simp: map_of_eq_Some_iff)
  from emplaced_rebuild [OF assms(1) len assms(2) this]
  have "emplaced (map (\<lambda>k. (k, the (map_of kvs k))) (map fst kvs)) = m" .
  moreover have "map (\<lambda>k. (k, the (map_of kvs k))) (map fst kvs) = kvs"
    using assms(2) by (auto simp: comp_def intro!: map_idI)
  ultimately show "m = emplaced kvs" by simp
next
  assume m: "m = emplaced kvs"
  show "wire_RequireExactKeys m (map fst kvs) = Inr ()"
    using assms(2) length_emplaced [OF assms(2)]
    by (auto simp: m wire_RequireExactKeys_def distinct_remdups_id map_find_emplaced map_of_eq_None_iff)
  show "\<forall>(k, v) \<in> set kvs. map_find m k = Some v"
    using assms(2) by (auto simp: m map_find_emplaced)
qed

lemma wf_object_iff:
  "distinct (map fst kvs) \<Longrightarrow>
     wf_json (kObject (emplaced kvs)) \<longleftrightarrow> (\<forall>(k, v) \<in> set kvs. wf_json v)"
proof (intro iffI)
  assume dist: "distinct (map fst kvs)" and wf: "wf_json (kObject (emplaced kvs))"
  show "\<forall>(k, v) \<in> set kvs. wf_json v"
  proof (clarify)
    fix k v assume "(k, v) \<in> set kvs"
    then have "map_find (emplaced kvs) k = Some v" using dist by (simp add: map_find_emplaced)
    then show "wf_json v" using wf by (auto dest!: map_find_in_set)
  qed
next
  assume "\<forall>(k, v) \<in> set kvs. wf_json v"
  then show "wf_json (kObject (emplaced kvs))" by (intro wf_emplaced) auto
qed

section \<open>The four messages\<close>

definition reservation_members :: "NativeInstallReservationV1 \<Rightarrow> (string \<times> JsonValue) list" where
  "reservation_members v =
     [(''protocolVersion'', kInteger (rv_protocol_version v)),
      (''transactionId'', kString (rv_transaction_id v)),
      (''readyToken'', kString (rv_ready_token v)),
      (''journalSha256'', kString (rv_journal_sha256 v)),
      (''helperEndpointIdentitySha256'', kString (rv_helper_endpoint_identity_sha256 v)),
      (''expiresAtUnixMilliseconds'', kInteger (rv_expires_at_unix_milliseconds v))]"

definition reservation_reads :: "(string, JsonValue) std_map \<Rightarrow> NativeInstallReservationV1 result" where
  "reservation_reads object =
      bindE (wire_RequireExactKeys object [''protocolVersion'', ''transactionId'', ''readyToken'',
        ''journalSha256'', ''helperEndpointIdentitySha256'', ''expiresAtUnixMilliseconds'']) (\<lambda>_.
      bindE (bindE (At object ''protocolVersion'') jinteger) (\<lambda>protocol.
      bindE (bindE (At object ''transactionId'') jstring) (\<lambda>transaction.
      bindE (bindE (At object ''readyToken'') jstring) (\<lambda>ready_token.
      bindE (bindE (At object ''journalSha256'') jstring) (\<lambda>journal.
      bindE (bindE (At object ''helperEndpointIdentitySha256'') jstring) (\<lambda>helper.
      bindE (bindE (At object ''expiresAtUnixMilliseconds'') jinteger) (\<lambda>expires.
        Inr \<lparr>rv_protocol_version = protocol, rv_transaction_id = transaction,
              rv_ready_token = ready_token, rv_journal_sha256 = journal,
              rv_helper_endpoint_identity_sha256 = helper, rv_expires_at_unix_milliseconds = expires\<rparr>)))))))"

lemma reservation_reads_iff:
  assumes "sorted_keys object"
  shows "reservation_reads object = Inr v \<longleftrightarrow> object = emplaced (reservation_members v)"
proof -
  have "reservation_reads object = Inr v \<longleftrightarrow>
      wire_RequireExactKeys object (map fst (reservation_members v)) = Inr () \<and>
      (\<forall>(k, w) \<in> set (reservation_members v). map_find object k = Some w)"
    unfolding reservation_reads_def reservation_members_def bind_field_iff by (cases v) auto
  also have "\<dots> \<longleftrightarrow> object = emplaced (reservation_members v)"
    using assms by (rule exact_object_iff) (simp add: reservation_members_def)
  finally show ?thesis .
qed

lemma Validate_wire:
  "ValidateProtocolAndTransaction p t = Inl e \<Longrightarrow> \<exists>d. e = NativeInstallWireError d"
  "ValidateReservation v = Inl e \<Longrightarrow> \<exists>d. e = NativeInstallWireError d"
  "ValidateCommand c = Inl e \<Longrightarrow> \<exists>d. e = NativeInstallWireError d"
  "ValidateStatus s = Inl e \<Longrightarrow> \<exists>d. e = NativeInstallWireError d"
  "ValidateRecovery r = Inl e \<Longrightarrow> \<exists>d. e = NativeInstallWireError d"
  by (auto simp: ValidateProtocolAndTransaction_def ValidateReservation_def ValidateCommand_def
      ValidateStatus_def ValidateRecovery_def wire_Fail_def bindE_Inl_iff Let_def split: if_splits)

interpretation reservation: wire_message ParseNativeInstallReservationV1 EncodeNativeInstallReservationV1
  ValidateReservation reservation_reads reservation_members
  "\<lambda>v. int64 (rv_protocol_version v) \<and> int64 (rv_expires_at_unix_milliseconds v)" "''invalidReservation''"
proof
  show "ParseNativeInstallReservationV1 s = wire_guard ''invalidReservation''
      (bindE (wire_ParseCanonicalObject s) (\<lambda>object.
       bindE (reservation_reads object) (\<lambda>v. bindE (ValidateReservation v) (\<lambda>_. Inr v))))" for s
    by (simp add: ParseNativeInstallReservationV1_def reservation_reads_def bindE_assoc Let_def)
  show "wf_json (kObject (emplaced (reservation_members v))) \<longleftrightarrow>
      int64 (rv_protocol_version v) \<and> int64 (rv_expires_at_unix_milliseconds v)" for v
    by (subst wf_object_iff) (simp_all add: reservation_members_def)
qed (simp_all add: EncodeNativeInstallReservationV1_def reservation_members_def [symmetric]
    reservation_reads_iff Validate_wire)

definition command_members :: "NativeInstallWireCommandV1 \<Rightarrow> (string \<times> JsonValue) list" where
  "command_members v =
     [(''operation'', kString (cm_operation v)),
      (''protocolVersion'', kInteger (cm_protocol_version v)),
      (''transactionId'', kString (cm_transaction_id v)),
      (''readyToken'', kString (cm_ready_token v)),
      (''journalSha256'', kString (cm_journal_sha256 v)),
      (''helperEndpointIdentitySha256'', kString (cm_helper_endpoint_identity_sha256 v))]"

definition command_reads :: "(string, JsonValue) std_map \<Rightarrow> NativeInstallWireCommandV1 result" where
  "command_reads object =
      bindE (wire_RequireExactKeys object [''operation'', ''protocolVersion'', ''transactionId'', ''readyToken'', ''journalSha256'', ''helperEndpointIdentitySha256'']) (\<lambda>_.
      bindE (bindE (At object ''operation'') jstring) (\<lambda>x0.
      bindE (bindE (At object ''protocolVersion'') jinteger) (\<lambda>x1.
      bindE (bindE (At object ''transactionId'') jstring) (\<lambda>x2.
      bindE (bindE (At object ''readyToken'') jstring) (\<lambda>x3.
      bindE (bindE (At object ''journalSha256'') jstring) (\<lambda>x4.
      bindE (bindE (At object ''helperEndpointIdentitySha256'') jstring) (\<lambda>x5.
        Inr \<lparr>cm_operation = x0, cm_protocol_version = x1, cm_transaction_id = x2, cm_ready_token = x3, cm_journal_sha256 = x4, cm_helper_endpoint_identity_sha256 = x5\<rparr>)))))))"

lemma command_reads_iff:
  assumes "sorted_keys object"
  shows "command_reads object = Inr v \<longleftrightarrow> object = emplaced (command_members v)"
proof -
  have "command_reads object = Inr v \<longleftrightarrow>
      wire_RequireExactKeys object (map fst (command_members v)) = Inr () \<and>
      (\<forall>(k, w) \<in> set (command_members v). map_find object k = Some w)"
    unfolding command_reads_def command_members_def bind_field_iff by (cases v) auto
  also have "\<dots> \<longleftrightarrow> object = emplaced (command_members v)"
    using assms by (rule exact_object_iff) (simp add: command_members_def)
  finally show ?thesis .
qed

interpretation command: wire_message ParseNativeInstallWireCommandV1 EncodeNativeInstallWireCommandV1
  ValidateCommand command_reads command_members
  "\<lambda>v. int64 (cm_protocol_version v)" "''invalidCommand''"
proof
  show "ParseNativeInstallWireCommandV1 s = wire_guard ''invalidCommand''
      (bindE (wire_ParseCanonicalObject s) (\<lambda>object.
       bindE (command_reads object) (\<lambda>v. bindE (ValidateCommand v) (\<lambda>_. Inr v))))" for s
    by (simp add: ParseNativeInstallWireCommandV1_def command_reads_def bindE_assoc Let_def)
  show "wf_json (kObject (emplaced (command_members v))) \<longleftrightarrow> int64 (cm_protocol_version v)" for v
    by (subst wf_object_iff) (simp_all add: command_members_def)
qed (simp_all add: EncodeNativeInstallWireCommandV1_def command_members_def [symmetric]
    command_reads_iff Validate_wire)

definition status_members :: "NativeInstallTransactionStatusV1 \<Rightarrow> (string \<times> JsonValue) list" where
  "status_members v =
     [(''protocolVersion'', kInteger (ts_protocol_version v)),
      (''transactionId'', kString (ts_transaction_id v)),
      (''state'', kString (ts_state v)),
      (''resultCode'', kString (ts_result_code v)),
      (''journalSha256'', kString (ts_journal_sha256 v))]"

definition status_reads :: "(string, JsonValue) std_map \<Rightarrow> NativeInstallTransactionStatusV1 result" where
  "status_reads object =
      bindE (wire_RequireExactKeys object [''protocolVersion'', ''transactionId'', ''state'', ''resultCode'', ''journalSha256'']) (\<lambda>_.
      bindE (bindE (At object ''protocolVersion'') jinteger) (\<lambda>x0.
      bindE (bindE (At object ''transactionId'') jstring) (\<lambda>x1.
      bindE (bindE (At object ''state'') jstring) (\<lambda>x2.
      bindE (bindE (At object ''resultCode'') jstring) (\<lambda>x3.
      bindE (bindE (At object ''journalSha256'') jstring) (\<lambda>x4.
        Inr \<lparr>ts_protocol_version = x0, ts_transaction_id = x1, ts_state = x2, ts_result_code = x3, ts_journal_sha256 = x4\<rparr>))))))"

lemma status_reads_iff:
  assumes "sorted_keys object"
  shows "status_reads object = Inr v \<longleftrightarrow> object = emplaced (status_members v)"
proof -
  have "status_reads object = Inr v \<longleftrightarrow>
      wire_RequireExactKeys object (map fst (status_members v)) = Inr () \<and>
      (\<forall>(k, w) \<in> set (status_members v). map_find object k = Some w)"
    unfolding status_reads_def status_members_def bind_field_iff by (cases v) auto
  also have "\<dots> \<longleftrightarrow> object = emplaced (status_members v)"
    using assms by (rule exact_object_iff) (simp add: status_members_def)
  finally show ?thesis .
qed

interpretation status: wire_message ParseNativeInstallTransactionStatusV1 EncodeNativeInstallTransactionStatusV1
  ValidateStatus status_reads status_members
  "\<lambda>v. int64 (ts_protocol_version v)" "''invalidTransactionStatus''"
proof
  show "ParseNativeInstallTransactionStatusV1 s = wire_guard ''invalidTransactionStatus''
      (bindE (wire_ParseCanonicalObject s) (\<lambda>object.
       bindE (status_reads object) (\<lambda>v. bindE (ValidateStatus v) (\<lambda>_. Inr v))))" for s
    by (simp add: ParseNativeInstallTransactionStatusV1_def status_reads_def bindE_assoc Let_def)
  show "wf_json (kObject (emplaced (status_members v))) \<longleftrightarrow> int64 (ts_protocol_version v)" for v
    by (subst wf_object_iff) (simp_all add: status_members_def)
qed (simp_all add: EncodeNativeInstallTransactionStatusV1_def status_members_def [symmetric]
    status_reads_iff Validate_wire)

definition recovery_members :: "NativeInstallRecoveryResultV1 \<Rightarrow> (string \<times> JsonValue) list" where
  "recovery_members v =
     [(''protocolVersion'', kInteger (rr_protocol_version v)),
      (''transactionId'', kString (rr_transaction_id v)),
      (''resultCode'', kString (rr_result_code v)),
      (''verifiedOutcome'', kString (rr_verified_outcome v)),
      (''journalSha256'', kString (rr_journal_sha256 v))]"

definition recovery_reads :: "(string, JsonValue) std_map \<Rightarrow> NativeInstallRecoveryResultV1 result" where
  "recovery_reads object =
      bindE (wire_RequireExactKeys object [''protocolVersion'', ''transactionId'', ''resultCode'', ''verifiedOutcome'', ''journalSha256'']) (\<lambda>_.
      bindE (bindE (At object ''protocolVersion'') jinteger) (\<lambda>x0.
      bindE (bindE (At object ''transactionId'') jstring) (\<lambda>x1.
      bindE (bindE (At object ''resultCode'') jstring) (\<lambda>x2.
      bindE (bindE (At object ''verifiedOutcome'') jstring) (\<lambda>x3.
      bindE (bindE (At object ''journalSha256'') jstring) (\<lambda>x4.
        Inr \<lparr>rr_protocol_version = x0, rr_transaction_id = x1, rr_result_code = x2, rr_verified_outcome = x3, rr_journal_sha256 = x4\<rparr>))))))"

lemma recovery_reads_iff:
  assumes "sorted_keys object"
  shows "recovery_reads object = Inr v \<longleftrightarrow> object = emplaced (recovery_members v)"
proof -
  have "recovery_reads object = Inr v \<longleftrightarrow>
      wire_RequireExactKeys object (map fst (recovery_members v)) = Inr () \<and>
      (\<forall>(k, w) \<in> set (recovery_members v). map_find object k = Some w)"
    unfolding recovery_reads_def recovery_members_def bind_field_iff by (cases v) auto
  also have "\<dots> \<longleftrightarrow> object = emplaced (recovery_members v)"
    using assms by (rule exact_object_iff) (simp add: recovery_members_def)
  finally show ?thesis .
qed

interpretation recovery: wire_message ParseNativeInstallRecoveryResultV1 EncodeNativeInstallRecoveryResultV1
  ValidateRecovery recovery_reads recovery_members
  "\<lambda>v. int64 (rr_protocol_version v)" "''invalidRecoveryResult''"
proof
  show "ParseNativeInstallRecoveryResultV1 s = wire_guard ''invalidRecoveryResult''
      (bindE (wire_ParseCanonicalObject s) (\<lambda>object.
       bindE (recovery_reads object) (\<lambda>v. bindE (ValidateRecovery v) (\<lambda>_. Inr v))))" for s
    by (simp add: ParseNativeInstallRecoveryResultV1_def recovery_reads_def bindE_assoc Let_def)
  show "wf_json (kObject (emplaced (recovery_members v))) \<longleftrightarrow> int64 (rr_protocol_version v)" for v
    by (subst wf_object_iff) (simp_all add: recovery_members_def)
qed (simp_all add: EncodeNativeInstallRecoveryResultV1_def recovery_members_def [symmetric]
    recovery_reads_iff Validate_wire)

lemma Validate_version:
  "ValidateCommand c = Inr () \<Longrightarrow> cm_protocol_version c = 1"
  "ValidateStatus s = Inr () \<Longrightarrow> ts_protocol_version s = 1"
  "ValidateRecovery r = Inr () \<Longrightarrow> rr_protocol_version r = 1"
  "ValidateReservation v = Inr () \<Longrightarrow> rv_protocol_version v = 1"
  by (auto simp: ValidateProtocolAndTransaction_def ValidateReservation_def ValidateCommand_def
      ValidateStatus_def ValidateRecovery_def wire_Fail_def bindE_Inr_iff split: if_splits)

lemma int64_one [simp]: "int64 1"
  by (simp add: int64_defs)

section \<open>Properties\<close>

text \<open>
  C32. The wire protocol is exact: each of the four parsers accepts exactly the texts that the encoder
  of its message produces, and gives the message back. There is one text per message: unknown or
  missing fields, other spellings of the JSON, and values that fail validation are refused.
\<close>

theorem wire_exact:
  "(ParseNativeInstallReservationV1 t = Inr v \<longleftrightarrow>
      int64 (rv_expires_at_unix_milliseconds v) \<and> EncodeNativeInstallReservationV1 v = Inr t) \<and>
   (ParseNativeInstallWireCommandV1 t = Inr c \<longleftrightarrow> EncodeNativeInstallWireCommandV1 c = Inr t) \<and>
   (ParseNativeInstallTransactionStatusV1 t = Inr s \<longleftrightarrow> EncodeNativeInstallTransactionStatusV1 s = Inr t) \<and>
   (ParseNativeInstallRecoveryResultV1 t = Inr r \<longleftrightarrow> EncodeNativeInstallRecoveryResultV1 r = Inr t)"
  unfolding reservation.parse_iff command.parse_iff status.parse_iff recovery.parse_iff
  using Validate_version(1) [of c] Validate_version(2) [of s] Validate_version(3) [of r]
    Validate_version(4) [of v]
  by (auto simp: EncodeNativeInstallWireCommandV1_def EncodeNativeInstallTransactionStatusV1_def
      EncodeNativeInstallRecoveryResultV1_def EncodeNativeInstallReservationV1_def bindE_Inr_iff)

text \<open>
  Nothing but a wire error leaves a parser, whatever bytes arrive, and a status or recovery result
  that a parser accepts never reports completion or rollback of another state than its own.
\<close>

theorem wire_results_consistent:
  "(ParseNativeInstallWireCommandV1 t = Inl e \<longrightarrow> (\<exists>d. e = NativeInstallWireError d)) \<and>
   (ParseNativeInstallReservationV1 t = Inl e \<longrightarrow> (\<exists>d. e = NativeInstallWireError d)) \<and>
   (ParseNativeInstallTransactionStatusV1 t = Inr s \<longrightarrow>
      (ts_result_code s = ''completed'' \<longrightarrow> ts_state s = ''completed'') \<and>
      (ts_result_code s = ''rolledBack'' \<longrightarrow> ts_state s = ''rolledBack'')) \<and>
   (ParseNativeInstallRecoveryResultV1 t = Inr r \<longrightarrow>
      (rr_result_code r = ''completed'' \<longrightarrow> rr_verified_outcome r = ''newTarget'') \<and>
      (rr_result_code r = ''rolledBack'' \<longrightarrow> rr_verified_outcome r = ''oldTarget''))"
  using command.parse_wire_error [of t e] reservation.parse_wire_error [of t e]
  by (auto simp: status.parse_iff recovery.parse_iff status.encode_eq recovery.encode_eq
      ValidateStatus_def ValidateRecovery_def Let_def wire_Fail_def bindE_Inr_iff split: if_splits)

text \<open>A concrete message.\<close>

definition sample_uuid :: string where
  "sample_uuid = ''01234567-89ab-cdef-0123-456789abcdef''"

lemma sample_uuid_valid: "IsLowercaseUuid sample_uuid"
  unfolding sample_uuid_def by code_simp

lemma sample_digest_valid: "IsSha256 (replicate 64 CHR ''a'')" "IsReadyToken (replicate 43 CHR ''t'')"
  by (simp_all add: IsSha256_def IsReadyToken_def list_all_iff is_lower_hex_def isdigit_def islower_def)

definition sample_recovery :: NativeInstallRecoveryResultV1 where
  "sample_recovery = \<lparr>rr_protocol_version = 1, rr_transaction_id = sample_uuid,
     rr_result_code = ''rolledBack'', rr_verified_outcome = ''oldTarget'',
     rr_journal_sha256 = replicate 64 CHR ''a''\<rparr>"

lemma sample_recovery_encodes: "\<exists>t. EncodeNativeInstallRecoveryResultV1 sample_recovery = Inr t"
  by (simp add: EncodeNativeInstallRecoveryResultV1_def ValidateRecovery_def sample_recovery_def
      ValidateProtocolAndTransaction_def sample_uuid_valid sample_digest_valid kResultCodes_def Let_def)

theorem wire_results_consistent_witness:
  "\<exists>t. ParseNativeInstallRecoveryResultV1 t = Inr sample_recovery \<and>
     rr_verified_outcome sample_recovery = ''oldTarget''"
proof -
  obtain t where "EncodeNativeInstallRecoveryResultV1 sample_recovery = Inr t"
    using sample_recovery_encodes by blast
  then have parsed: "ParseNativeInstallRecoveryResultV1 t = Inr sample_recovery"
    by (simp add: recovery.parse_iff) (simp add: sample_recovery_def)
  have "rr_result_code sample_recovery = ''rolledBack''" by (simp add: sample_recovery_def)
  with parsed wire_results_consistent [of t _ _ sample_recovery] show ?thesis by blast
qed

end
