(* ===== verification/Install_Request.thy ===== *)
theory Install_Request
  imports Install_Wire Json_Errors
begin

text \<open>
  The request that starts an installation, \<^verbatim>\<open>native_install_request.{h,cc}\<close>: one canonical JSON object
  with nested objects, checked field by field. Every refusal is a protocol error with a code.
\<close>

section \<open>The request\<close>

record NativeInstallTargetV1 =
  tg_target_class :: string
  tg_path_hint :: string
  tg_target_name_hint :: string
  tg_executable_relative_path :: string
  tg_identity_proof_sha256 :: string

record NativeInstallVersionIdentityV1 =
  vi_version :: string
  vi_build_number :: int
  vi_package_identity_sha256 :: string

record NativeInstallStageV1 =
  sg_path_hint :: string
  sg_ownership_nonce :: string
  sg_provenance_sha256 :: string
  sg_artifact_sha256 :: string
  sg_artifact_length :: int

record NativeInstallSignedDescriptorV1 =
  sd_canonical_sha256 :: string
  sd_signature_algorithm :: string
  sd_key_id :: string
  sd_signature_base64 :: string

record NativeInstallCallerV1 =
  ca_process_id :: int
  ca_process_start_identity :: string
  ca_executable_sha256 :: string
  ca_package_id :: string
  ca_signer_identity :: string

record NativeInstallDiagnosticsDestinationV1 =
  dd_present :: bool
  dd_kind :: string
  dd_stream :: string

record NativeInstallTransactionRequestV1 =
  rq_schema_version :: int
  rq_protocol_version :: int
  rq_transaction_id :: string
  rq_policy_id :: string
  rq_package_id :: string
  rq_strategy :: string
  rq_provider :: string
  rq_target :: NativeInstallTargetV1
  rq_current_identity :: NativeInstallVersionIdentityV1
  rq_desired_identity :: NativeInstallVersionIdentityV1
  rq_stage :: NativeInstallStageV1
  rq_signed_descriptor :: NativeInstallSignedDescriptorV1
  rq_caller :: NativeInstallCallerV1
  rq_request_nonce :: string
  rq_diagnostics_destination :: NativeInstallDiagnosticsDestinationV1

section \<open>UTF-8\<close>

definition request_Fail :: "string \<Rightarrow> 'a result" where
  "request_Fail code = Inl (NativeInstallProtocolError code)"

text \<open>
  Width and leading bits of a first byte. The masks keep the low bits of a byte whose high bits are
  known, so they are remainders.
\<close>

definition utf8_first :: "nat \<Rightarrow> (nat \<times> nat) option" where
  "utf8_first first =
     (if first \<le> 0x7f then Some (1, first)
      else if first \<ge> 0xc2 \<and> first \<le> 0xdf then Some (2, first mod 32)
      else if first \<ge> 0xe0 \<and> first \<le> 0xef then Some (3, first mod 16)
      else if first \<ge> 0xf0 \<and> first \<le> 0xf4 then Some (4, first mod 8)
      else None)"

text \<open>The continuation bytes: \<^verbatim>\<open>(byte & 0xc0) == 0x80\<close> and \<^verbatim>\<open>scalar = (scalar << 6) | (byte & 0x3f)\<close>.\<close>

fun utf8_continuation :: "nat \<Rightarrow> string \<Rightarrow> nat result" where
  "utf8_continuation scalar [] = Inr scalar"
| "utf8_continuation scalar (c # cs) =
     (if ord c div 64 \<noteq> 2 then request_Fail ''invalidJson''
      else utf8_continuation (scalar * 64 + ord c mod 64) cs)"

definition utf8_rejected :: "nat \<Rightarrow> nat \<Rightarrow> bool" where
  "utf8_rejected width scalar \<longleftrightarrow> (width = 2 \<and> scalar < 0x80) \<or> (width = 3 \<and> scalar < 0x800) \<or>
     (width = 4 \<and> scalar < 0x10000) \<or> (scalar \<ge> 0xd800 \<and> scalar \<le> 0xdfff) \<or> scalar > 0x10ffff"

function Utf8ScalarCountLoop :: "string \<Rightarrow> nat \<Rightarrow> nat result" where
  "Utf8ScalarCountLoop s count = (case s of
       [] \<Rightarrow> Inr count
     | c # _ \<Rightarrow> (case utf8_first (ord c) of
          None \<Rightarrow> request_Fail ''invalidJson''
        | Some (width, bits) \<Rightarrow>
            if width > length s then request_Fail ''invalidJson''
            else bindE (utf8_continuation bits (take (width - 1) (tl s))) (\<lambda>scalar.
              if utf8_rejected width scalar then request_Fail ''invalidJson''
              else Utf8ScalarCountLoop (drop width s) (count + 1))))"
  by pat_completeness auto
termination
  by (relation "measure (length o fst)") (auto simp: utf8_first_def split: if_splits)

declare Utf8ScalarCountLoop.simps [simp del]

definition Utf8ScalarCount :: "string \<Rightarrow> nat result" where
  "Utf8ScalarCount s = Utf8ScalarCountLoop s 0"

section \<open>Field checks\<close>

definition Field :: "string \<Rightarrow> string \<Rightarrow> string" where
  "Field path key = (if path = [] then key else path @ ''.'' @ key)"

definition RequireObject :: "JsonValue option \<Rightarrow> string \<Rightarrow> (string, JsonValue) std_map result" where
  "RequireObject v field = (case v of
       Some (kObject m) \<Rightarrow> Inr m | _ \<Rightarrow> request_Fail (''invalidType:'' @ field))"

fun MissingKeyLoop :: "(string, JsonValue) std_map \<Rightarrow> string \<Rightarrow> string list \<Rightarrow> unit result" where
  "MissingKeyLoop object path [] = Inr ()"
| "MissingKeyLoop object path (key # keys) =
     (if map_find object key = None then request_Fail (''missingField:'' @ Field path key)
      else MissingKeyLoop object path keys)"

fun UnknownKeyLoop :: "string list \<Rightarrow> string \<Rightarrow> (string, JsonValue) std_map \<Rightarrow> unit result" where
  "UnknownKeyLoop allowed path [] = Inr ()"
| "UnknownKeyLoop allowed path ((key, v) # entries) =
     (if key \<notin> set allowed then request_Fail (''unknownField:'' @ Field path key)
      else UnknownKeyLoop allowed path entries)"

definition request_RequireExactKeys ::
    "(string, JsonValue) std_map \<Rightarrow> string list \<Rightarrow> string list \<Rightarrow> string \<Rightarrow> unit result" where
  "request_RequireExactKeys object required optional path =
     bindE (MissingKeyLoop object path required) (\<lambda>_.
       UnknownKeyLoop (required @ optional) path object)"

definition RequireString :: "JsonValue option \<Rightarrow> string \<Rightarrow> string result" where
  "RequireString v field = (case v of
       Some (kString s) \<Rightarrow> Inr s | _ \<Rightarrow> request_Fail (''invalidType:'' @ field))"

definition request_blank :: "char \<Rightarrow> bool" where
  "request_blank c \<longleftrightarrow> c = CHR '' '' \<or> c = CHR 0x09 \<or> c = CHR 0x0D \<or> c = CHR 0x0A"

definition RequireBoundedString :: "JsonValue option \<Rightarrow> string \<Rightarrow> nat \<Rightarrow> string result" where
  "RequireBoundedString v field maximum =
     bindE (RequireString v field) (\<lambda>s.
     bindE (Utf8ScalarCount s) (\<lambda>n.
       if n = 0 \<or> n > maximum \<or> list_all request_blank s then request_Fail (''invalidString:'' @ field)
       else Inr s))"

definition RequireInteger :: "JsonValue option \<Rightarrow> string \<Rightarrow> int \<Rightarrow> int \<Rightarrow> int result" where
  "RequireInteger v field minimum maximum = (case v of
       Some (kInteger i) \<Rightarrow>
         if i < minimum \<or> i > maximum then request_Fail (''invalidInteger:'' @ field) else Inr i
     | _ \<Rightarrow> request_Fail (''invalidInteger:'' @ field))"

definition IsAsciiAlphaNumeric :: "char \<Rightarrow> bool" where
  "IsAsciiAlphaNumeric c \<longleftrightarrow> isupper c \<or> islower c \<or> isdigit c"

definition IsLowerHex :: "string \<Rightarrow> nat \<Rightarrow> bool" where
  "IsLowerHex s n \<longleftrightarrow> length s = n \<and> list_all is_lower_hex s"

text \<open>\<^verbatim>\<open>IsLowercaseUuid\<close> and \<^verbatim>\<open>IsReadyToken\<close> are written out a second time in this file.\<close>

definition request_IsLowercaseUuid :: "string \<Rightarrow> bool" where
  "request_IsLowercaseUuid s \<longleftrightarrow> length s = 36 \<and>
     (\<forall>i < length s. if i \<in> {8, 13, 18, 23} then s ! i = CHR ''-'' else is_lower_hex (s ! i))"

definition request_IsReadyToken :: "string \<Rightarrow> bool" where
  "request_IsReadyToken s \<longleftrightarrow> length s = 43 \<and>
     list_all (\<lambda>c. IsAsciiAlphaNumeric c \<or> c = CHR ''-'' \<or> c = CHR ''_'') s"

definition IsDottedIdentifier :: "string \<Rightarrow> bool" where
  "IsDottedIdentifier s \<longleftrightarrow> 3 \<le> length s \<and> length s \<le> 128 \<and>
     (islower (hd s) \<or> isdigit (hd s)) \<and> (islower (last s) \<or> isdigit (last s)) \<and>
     list_all (\<lambda>c. islower c \<or> isdigit c \<or> c = CHR ''.'' \<or> c = CHR ''_'' \<or> c = CHR ''-'') s"

definition RequireSha256 :: "JsonValue option \<Rightarrow> string \<Rightarrow> string \<Rightarrow> string result" where
  "RequireSha256 v field failure =
     bindE (RequireString v field) (\<lambda>s.
       if \<not> IsLowerHex s 64
       then request_Fail (if failure = [] then ''invalidSha256:'' @ field else failure)
       else Inr s)"

definition RequireDottedIdentifier :: "JsonValue option \<Rightarrow> string \<Rightarrow> string \<Rightarrow> string result" where
  "RequireDottedIdentifier v field failure =
     bindE (RequireString v field) (\<lambda>s. if \<not> IsDottedIdentifier s then request_Fail failure else Inr s)"

definition RequireEnumeration ::
    "JsonValue option \<Rightarrow> string \<Rightarrow> string set \<Rightarrow> string \<Rightarrow> string result" where
  "RequireEnumeration v field allowed failure =
     bindE (RequireString v field) (\<lambda>s. if s \<notin> allowed then request_Fail failure else Inr s)"

definition RequireSafeSiblingName :: "JsonValue option \<Rightarrow> string result" where
  "RequireSafeSiblingName v =
     bindE (RequireString v ''target.targetNameHint'') (\<lambda>s.
     bindE (Utf8ScalarCount s) (\<lambda>n.
       if n = 0 \<or> n > 255 \<or> s = ''.'' \<or> s = ''..'' \<or> find_char CHR ''/'' s \<noteq> None \<or>
          find_char CHR 0x5C s \<noteq> None \<or> find_char CHR '':'' s \<noteq> None
       then request_Fail ''invalidTargetNameHint'' else Inr s))"

text \<open>The loop over the components between slashes looks at every element of \<^const>\<open>Split\<close>.\<close>

definition RequireSafeRelativePath :: "JsonValue option \<Rightarrow> string result" where
  "RequireSafeRelativePath v =
     bindE (RequireString v ''target.executableRelativePath'') (\<lambda>s.
     bindE (Utf8ScalarCount s) (\<lambda>n.
       if n = 0 \<or> n > 1024 \<or> hd s = CHR ''/'' \<or> find_char CHR 0x5C s \<noteq> None \<or>
          (length s \<ge> 2 \<and> (isupper (s ! 0) \<or> islower (s ! 0)) \<and> s ! 1 = CHR '':'')
       then request_Fail ''invalidExecutableRelativePath''
       else if \<exists>component \<in> set (Split s CHR ''/''). component = [] \<or> component = ''.'' \<or> component = ''..''
       then request_Fail ''invalidExecutableRelativePath''
       else Inr s))"

section \<open>Parsing\<close>

definition ParseVersionIdentity :: "JsonValue option \<Rightarrow> string \<Rightarrow> NativeInstallVersionIdentityV1 result" where
  "ParseVersionIdentity v field =
     bindE (RequireObject v field) (\<lambda>object.
     bindE (request_RequireExactKeys object [''version'', ''buildNumber'', ''packageIdentitySha256''] [] field) (\<lambda>_.
     bindE (RequireBoundedString (map_find object ''version'') (field @ ''.version'') 128) (\<lambda>version.
     bindE (RequireInteger (map_find object ''buildNumber'') (field @ ''.buildNumber'') 0 INT64_MAX) (\<lambda>build.
     bindE (RequireSha256 (map_find object ''packageIdentitySha256'') (field @ ''.packageIdentitySha256'') []) (\<lambda>digest.
       Inr \<lparr>vi_version = version, vi_build_number = build, vi_package_identity_sha256 = digest\<rparr>)))))"

definition target_classes :: "string set" where
  "target_classes = {''sameUserWritable'', ''applicationBundle'', ''applicationDirectory'',
     ''singleExecutable'', ''protectedApplication'', ''systemPackage'', ''externalManaged''}"

definition strategy_classes :: "string \<Rightarrow> string set" where
  "strategy_classes strategy =
     (if strategy = ''directoryReplace'' then
        {''sameUserWritable'', ''applicationBundle'', ''applicationDirectory'', ''protectedApplication''}
      else if strategy = ''singleFileReplace'' then {''singleExecutable''}
      else if strategy = ''verifiedInstallerHandoff'' then
        {''applicationBundle'', ''applicationDirectory'', ''protectedApplication''}
      else if strategy = ''systemPackageTransaction'' then {''systemPackage''}
      else if strategy = ''externalManagedRefresh'' then {''externalManaged''}
      else {})"

definition ParseTarget :: "JsonValue option \<Rightarrow> string \<Rightarrow> NativeInstallTargetV1 result" where
  "ParseTarget v strategy =
     bindE (RequireObject v ''target'') (\<lambda>object.
     bindE (request_RequireExactKeys object [''class'', ''pathHint'', ''targetNameHint'',
       ''executableRelativePath'', ''identityProofSha256''] [] ''target'') (\<lambda>_.
     bindE (RequireEnumeration (map_find object ''class'') ''target.class'' target_classes
       ''unknownTargetClass'') (\<lambda>target_class.
       if target_class \<notin> strategy_classes strategy then request_Fail ''strategyTargetMismatch''
       else
     bindE (RequireBoundedString (map_find object ''pathHint'') ''target.pathHint'' 4096) (\<lambda>path_hint.
     bindE (RequireSafeSiblingName (map_find object ''targetNameHint'')) (\<lambda>name_hint.
     bindE (RequireSafeRelativePath (map_find object ''executableRelativePath'')) (\<lambda>relative_path.
     bindE (RequireSha256 (map_find object ''identityProofSha256'') ''target.identityProofSha256'' []) (\<lambda>digest.
       Inr \<lparr>tg_target_class = target_class, tg_path_hint = path_hint, tg_target_name_hint = name_hint,
            tg_executable_relative_path = relative_path, tg_identity_proof_sha256 = digest\<rparr>)))))))"

definition ParseStage :: "JsonValue option \<Rightarrow> NativeInstallStageV1 result" where
  "ParseStage v =
     bindE (RequireObject v ''stage'') (\<lambda>object.
     bindE (request_RequireExactKeys object [''pathHint'', ''ownershipNonce'', ''provenanceSha256'',
       ''artifactSha256'', ''artifactLength''] [] ''stage'') (\<lambda>_.
     bindE (RequireBoundedString (map_find object ''pathHint'') ''stage.pathHint'' 4096) (\<lambda>path_hint.
     bindE (RequireSha256 (map_find object ''ownershipNonce'') ''stage.ownershipNonce''
       ''invalidStageOwnershipNonce'') (\<lambda>nonce.
     bindE (RequireSha256 (map_find object ''provenanceSha256'') ''stage.provenanceSha256'' []) (\<lambda>provenance.
     bindE (RequireSha256 (map_find object ''artifactSha256'') ''stage.artifactSha256'' []) (\<lambda>artifact.
     bindE (RequireInteger (map_find object ''artifactLength'') ''stage.artifactLength'' 1 INT64_MAX) (\<lambda>n.
       Inr \<lparr>sg_path_hint = path_hint, sg_ownership_nonce = nonce, sg_provenance_sha256 = provenance,
            sg_artifact_sha256 = artifact, sg_artifact_length = n\<rparr>)))))))"

definition ParseSignedDescriptor :: "JsonValue option \<Rightarrow> NativeInstallSignedDescriptorV1 result" where
  "ParseSignedDescriptor v =
     bindE (RequireObject v ''signedDescriptor'') (\<lambda>object.
     bindE (request_RequireExactKeys object [''canonicalSha256'', ''signatureAlgorithm'', ''keyId'',
       ''signatureBase64''] [] ''signedDescriptor'') (\<lambda>_.
     bindE (RequireSha256 (map_find object ''canonicalSha256'') ''signedDescriptor.canonicalSha256'' []) (\<lambda>digest.
     bindE (RequireString (map_find object ''signatureAlgorithm'') ''signedDescriptor.signatureAlgorithm'') (\<lambda>algorithm.
       if algorithm \<noteq> ''ed25519'' then request_Fail ''unsupportedDescriptorSignatureAlgorithm''
       else
     bindE (RequireString (map_find object ''keyId'') ''signedDescriptor.keyId'') (\<lambda>key_id.
       if key_id = [] \<or> length key_id > 128 \<or>
          \<not> list_all (\<lambda>c. IsAsciiAlphaNumeric c \<or> c = CHR ''.'' \<or> c = CHR ''_'' \<or> c = CHR ''-'') key_id
       then request_Fail ''invalidDescriptorKeyId''
       else
     bindE (RequireString (map_find object ''signatureBase64'') ''signedDescriptor.signatureBase64'') (\<lambda>signature.
       if length signature \<noteq> 88 \<or> drop 86 signature \<noteq> ''=='' \<or>
          \<not> list_all (\<lambda>c. IsAsciiAlphaNumeric c \<or> c = CHR ''+'' \<or> c = CHR ''/'') (take 86 signature)
       then request_Fail ''invalidDescriptorSignature''
       else
       Inr \<lparr>sd_canonical_sha256 = digest, sd_signature_algorithm = algorithm, sd_key_id = key_id,
            sd_signature_base64 = signature\<rparr>))))))"

definition ParseCaller :: "JsonValue option \<Rightarrow> string \<Rightarrow> NativeInstallCallerV1 result" where
  "ParseCaller v package_id =
     bindE (RequireObject v ''caller'') (\<lambda>object.
     bindE (request_RequireExactKeys object [''processId'', ''processStartIdentity'', ''executableSha256'',
       ''packageId'', ''signerIdentity''] [] ''caller'') (\<lambda>_.
     bindE (RequireInteger (map_find object ''processId'') ''caller.processId'' 1 4294967295) (\<lambda>process_id.
     bindE (RequireBoundedString (map_find object ''processStartIdentity'') ''caller.processStartIdentity'' 256) (\<lambda>start.
     bindE (RequireSha256 (map_find object ''executableSha256'') ''caller.executableSha256'' []) (\<lambda>digest.
     bindE (RequireDottedIdentifier (map_find object ''packageId'') ''caller.packageId''
       ''invalidCallerPackageId'') (\<lambda>package.
       if package \<noteq> package_id then request_Fail ''callerPackageIdMismatch''
       else
     bindE (RequireBoundedString (map_find object ''signerIdentity'') ''caller.signerIdentity'' 512) (\<lambda>signer.
       Inr \<lparr>ca_process_id = process_id, ca_process_start_identity = start, ca_executable_sha256 = digest,
            ca_package_id = package, ca_signer_identity = signer\<rparr>)))))))"

definition no_diagnostics :: NativeInstallDiagnosticsDestinationV1 where
  "no_diagnostics = \<lparr>dd_present = False, dd_kind = [], dd_stream = []\<rparr>"

definition ParseDiagnostics :: "JsonValue option \<Rightarrow> NativeInstallDiagnosticsDestinationV1 result" where
  "ParseDiagnostics v =
     (if v = None then Inr no_diagnostics
      else
     bindE (RequireObject v ''diagnosticsDestination'') (\<lambda>object.
     bindE (request_RequireExactKeys object [''kind''] [''stream''] ''diagnosticsDestination'') (\<lambda>_.
     bindE (RequireEnumeration (map_find object ''kind'') ''diagnosticsDestination.kind''
       {''platformLog'', ''inheritedStream''} ''invalidDiagnosticsDestination'') (\<lambda>kind.
       if kind = ''inheritedStream'' then
         if map_find object ''stream'' = None then request_Fail ''invalidDiagnosticsDestination''
         else bindE (RequireString (map_find object ''stream'') ''diagnosticsDestination.stream'') (\<lambda>stream.
           if stream \<noteq> ''stderr'' then request_Fail ''invalidDiagnosticsDestination''
           else Inr \<lparr>dd_present = True, dd_kind = kind, dd_stream = ''stderr''\<rparr>)
       else if map_find object ''stream'' \<noteq> None then request_Fail ''invalidDiagnosticsDestination''
       else Inr \<lparr>dd_present = True, dd_kind = kind, dd_stream = []\<rparr>))))"

definition request_strategies :: "string set" where
  "request_strategies = {''directoryReplace'', ''singleFileReplace'', ''verifiedInstallerHandoff'',
     ''systemPackageTransaction'', ''externalManagedRefresh''}"

definition request_providers :: "string set" where
  "request_providers = {''platformDirectory'', ''platformFile'', ''macosInstaller'', ''windowsInno'',
     ''apt'', ''dnf'', ''flatpak'', ''snap''}"

definition strategy_providers :: "string \<Rightarrow> string set" where
  "strategy_providers strategy =
     (if strategy = ''directoryReplace'' then {''platformDirectory''}
      else if strategy = ''singleFileReplace'' then {''platformFile''}
      else if strategy = ''verifiedInstallerHandoff'' then {''macosInstaller'', ''windowsInno''}
      else if strategy = ''systemPackageTransaction'' then {''apt'', ''dnf''}
      else if strategy = ''externalManagedRefresh'' then {''flatpak'', ''snap''}
      else {})"

text \<open>The body of the \<^verbatim>\<open>try\<close> block after the text has become an object.\<close>

definition RequestOfObject :: "(string, JsonValue) std_map \<Rightarrow> NativeInstallTransactionRequestV1 result" where
  "RequestOfObject object =
     bindE (request_RequireExactKeys object [''schemaVersion'', ''protocolVersion'', ''transactionId'',
       ''policyId'', ''packageId'', ''strategy'', ''provider'', ''target'', ''currentIdentity'',
       ''desiredIdentity'', ''stage'', ''signedDescriptor'', ''caller'', ''requestNonce'']
       [''diagnosticsDestination''] []) (\<lambda>_.
     bindE (RequireInteger (map_find object ''schemaVersion'') ''schemaVersion'' INT64_MIN INT64_MAX) (\<lambda>schema.
       if schema \<noteq> 1 then request_Fail ''unsupportedSchemaVersion''
       else
     bindE (RequireInteger (map_find object ''protocolVersion'') ''protocolVersion'' INT64_MIN INT64_MAX) (\<lambda>protocol.
       if protocol \<noteq> 1 then request_Fail ''unsupportedProtocolVersion''
       else
     bindE (RequireString (map_find object ''transactionId'') ''transactionId'') (\<lambda>transaction.
       if \<not> request_IsLowercaseUuid transaction then request_Fail ''invalidTransactionId''
       else
     bindE (RequireDottedIdentifier (map_find object ''policyId'') ''policyId'' ''invalidPolicyId'') (\<lambda>policy.
     bindE (RequireDottedIdentifier (map_find object ''packageId'') ''packageId'' ''invalidPackageId'') (\<lambda>package.
     bindE (RequireEnumeration (map_find object ''strategy'') ''strategy'' request_strategies ''unknownStrategy'') (\<lambda>strategy.
     bindE (RequireEnumeration (map_find object ''provider'') ''provider'' request_providers ''unknownProvider'') (\<lambda>provider.
       if provider \<notin> strategy_providers strategy then request_Fail ''strategyProviderMismatch''
       else
     bindE (ParseTarget (map_find object ''target'') strategy) (\<lambda>target.
     bindE (ParseVersionIdentity (map_find object ''currentIdentity'') ''currentIdentity'') (\<lambda>current.
     bindE (ParseVersionIdentity (map_find object ''desiredIdentity'') ''desiredIdentity'') (\<lambda>desired.
     bindE (ParseStage (map_find object ''stage'')) (\<lambda>stage.
     bindE (ParseSignedDescriptor (map_find object ''signedDescriptor'')) (\<lambda>signed_descriptor.
     bindE (ParseCaller (map_find object ''caller'') package) (\<lambda>caller.
     bindE (RequireString (map_find object ''requestNonce'') ''requestNonce'') (\<lambda>nonce.
       if \<not> request_IsReadyToken nonce then request_Fail ''invalidRequestNonce''
       else
     bindE (ParseDiagnostics (map_find object ''diagnosticsDestination'')) (\<lambda>diagnostics.
       Inr \<lparr>rq_schema_version = schema, rq_protocol_version = protocol, rq_transaction_id = transaction,
            rq_policy_id = policy, rq_package_id = package, rq_strategy = strategy,
            rq_provider = provider, rq_target = target, rq_current_identity = current,
            rq_desired_identity = desired, rq_stage = stage, rq_signed_descriptor = signed_descriptor,
            rq_caller = caller, rq_request_nonce = nonce,
            rq_diagnostics_destination = diagnostics\<rparr>))))))))))))))))"

text \<open>The two handlers.\<close>

definition duplicate_prefix :: string where
  "duplicate_prefix = ''Duplicate JSON object key: ''"

definition request_guard :: "'a result \<Rightarrow> 'a result" where
  "request_guard r = (case r of
       Inl (JsonError message) \<Rightarrow>
         if starts_with duplicate_prefix message then
           let key = drop (length duplicate_prefix) message;
               key = (if key \<noteq> [] \<and> last key = CHR ''.'' then butlast key else key)
           in request_Fail (''duplicateKey:'' @ key)
         else request_Fail ''invalidJson''
     | _ \<Rightarrow> r)"

definition ParseNativeInstallTransactionRequestV1 :: "string \<Rightarrow> NativeInstallTransactionRequestV1 result" where
  "ParseNativeInstallTransactionRequestV1 canonical_json = request_guard
     (bindE (Utf8ScalarCount canonical_json) (\<lambda>_.
      bindE (ParseJson canonical_json) (\<lambda>v.
        if EncodeCanonicalJson v \<noteq> canonical_json then request_Fail ''nonCanonicalJson''
        else bindE (RequireObject (Some v) ''request'') RequestOfObject)))"

section \<open>Encoding\<close>

definition target_json :: "NativeInstallTargetV1 \<Rightarrow> JsonValue" where
  "target_json t = kObject (emplaced
     [(''class'', kString (tg_target_class t)), (''pathHint'', kString (tg_path_hint t)),
      (''targetNameHint'', kString (tg_target_name_hint t)),
      (''executableRelativePath'', kString (tg_executable_relative_path t)),
      (''identityProofSha256'', kString (tg_identity_proof_sha256 t))])"

definition encode_identity :: "NativeInstallVersionIdentityV1 \<Rightarrow> JsonValue" where
  "encode_identity i = kObject (emplaced
     [(''version'', kString (vi_version i)), (''buildNumber'', kInteger (vi_build_number i)),
      (''packageIdentitySha256'', kString (vi_package_identity_sha256 i))])"

definition stage_json :: "NativeInstallStageV1 \<Rightarrow> JsonValue" where
  "stage_json s = kObject (emplaced
     [(''pathHint'', kString (sg_path_hint s)), (''ownershipNonce'', kString (sg_ownership_nonce s)),
      (''provenanceSha256'', kString (sg_provenance_sha256 s)),
      (''artifactSha256'', kString (sg_artifact_sha256 s)),
      (''artifactLength'', kInteger (sg_artifact_length s))])"

definition signed_descriptor_json :: "NativeInstallSignedDescriptorV1 \<Rightarrow> JsonValue" where
  "signed_descriptor_json d = kObject (emplaced
     [(''canonicalSha256'', kString (sd_canonical_sha256 d)),
      (''signatureAlgorithm'', kString (sd_signature_algorithm d)),
      (''keyId'', kString (sd_key_id d)), (''signatureBase64'', kString (sd_signature_base64 d))])"

definition caller_json :: "NativeInstallCallerV1 \<Rightarrow> JsonValue" where
  "caller_json c = kObject (emplaced
     [(''processId'', kInteger (ca_process_id c)),
      (''processStartIdentity'', kString (ca_process_start_identity c)),
      (''executableSha256'', kString (ca_executable_sha256 c)),
      (''packageId'', kString (ca_package_id c)), (''signerIdentity'', kString (ca_signer_identity c))])"

definition diagnostics_json :: "NativeInstallDiagnosticsDestinationV1 \<Rightarrow> JsonValue" where
  "diagnostics_json d = kObject (emplaced ([(''kind'', kString (dd_kind d))]
     @ (if dd_stream d \<noteq> [] then [(''stream'', kString (dd_stream d))] else [])))"

definition request_members :: "NativeInstallTransactionRequestV1 \<Rightarrow> (string \<times> JsonValue) list" where
  "request_members r =
     [(''schemaVersion'', kInteger (rq_schema_version r)),
      (''protocolVersion'', kInteger (rq_protocol_version r)),
      (''transactionId'', kString (rq_transaction_id r)), (''policyId'', kString (rq_policy_id r)),
      (''packageId'', kString (rq_package_id r)), (''strategy'', kString (rq_strategy r)),
      (''provider'', kString (rq_provider r)), (''target'', target_json (rq_target r)),
      (''currentIdentity'', encode_identity (rq_current_identity r)),
      (''desiredIdentity'', encode_identity (rq_desired_identity r)),
      (''stage'', stage_json (rq_stage r)),
      (''signedDescriptor'', signed_descriptor_json (rq_signed_descriptor r)),
      (''caller'', caller_json (rq_caller r)), (''requestNonce'', kString (rq_request_nonce r))]
     @ (if dd_present (rq_diagnostics_destination r)
        then [(''diagnosticsDestination'', diagnostics_json (rq_diagnostics_destination r))] else [])"

definition EncodeCanonicalNativeInstallTransactionRequestV1 ::
    "NativeInstallTransactionRequestV1 \<Rightarrow> string result" where
  "EncodeCanonicalNativeInstallTransactionRequestV1 request =
     (let canonical = EncodeCanonicalJson (kObject (emplaced (request_members request)))
      in bindE (ParseNativeInstallTransactionRequestV1 canonical) (\<lambda>_. Inr canonical))"

section \<open>Accepted fields\<close>

lemma RequireString_iff [result_simps]: "RequireString v f = Inr s \<longleftrightarrow> v = Some (kString s)"
  by (auto simp: RequireString_def request_Fail_def split: option.splits JsonValue.splits)

lemma RequireObject_iff [result_simps]: "RequireObject v f = Inr m \<longleftrightarrow> v = Some (kObject m)"
  by (auto simp: RequireObject_def request_Fail_def split: option.splits JsonValue.splits)

lemma RequireInteger_iff [result_simps]:
  "RequireInteger v f lo hi = Inr i \<longleftrightarrow> v = Some (kInteger i) \<and> lo \<le> i \<and> i \<le> hi"
  by (auto simp: RequireInteger_def request_Fail_def split: option.splits JsonValue.splits)

lemma RequireBoundedString_iff [result_simps]:
  "RequireBoundedString v f n = Inr s \<longleftrightarrow> v = Some (kString s) \<and>
     (\<exists>k. Utf8ScalarCount s = Inr k \<and> 0 < k \<and> k \<le> n) \<and> \<not> list_all request_blank s"
  by (auto simp: RequireBoundedString_def RequireString_def bindE_def request_Fail_def 
      split: option.splits JsonValue.splits sum.splits if_splits)

lemma RequireSha256_iff [result_simps]:
  "RequireSha256 v f e = Inr s \<longleftrightarrow> v = Some (kString s) \<and> IsLowerHex s 64"
  by (auto simp: RequireSha256_def bindE_Inr_iff RequireString_iff request_Fail_def split: if_splits)

lemma RequireDottedIdentifier_iff [result_simps]:
  "RequireDottedIdentifier v f e = Inr s \<longleftrightarrow> v = Some (kString s) \<and> IsDottedIdentifier s"
  by (auto simp: RequireDottedIdentifier_def bindE_Inr_iff RequireString_iff request_Fail_def split: if_splits)

lemma RequireEnumeration_iff [result_simps]:
  "RequireEnumeration v f A e = Inr s \<longleftrightarrow> v = Some (kString s) \<and> s \<in> A"
  by (auto simp: RequireEnumeration_def bindE_Inr_iff RequireString_iff request_Fail_def split: if_splits)

lemma RequireSafeSiblingName_iff [result_simps]:
  "RequireSafeSiblingName v = Inr s \<longleftrightarrow> v = Some (kString s) \<and>
     (\<exists>n. Utf8ScalarCount s = Inr n \<and> 0 < n \<and> n \<le> 255) \<and> s \<noteq> ''.'' \<and> s \<noteq> ''..'' \<and>
     CHR ''/'' \<notin> set s \<and> CHR 0x5C \<notin> set s \<and> CHR '':'' \<notin> set s"
  by (auto simp: RequireSafeSiblingName_def RequireString_def bindE_def request_Fail_def find_char_None_iff
      split: option.splits JsonValue.splits sum.splits if_splits)

definition safe_relative_path :: "string \<Rightarrow> bool" where
  "safe_relative_path s \<longleftrightarrow> CHR 0x5C \<notin> set s \<and>
     (\<forall>component \<in> set (Split s CHR ''/''). component \<noteq> [] \<and> component \<noteq> ''.'' \<and> component \<noteq> ''..'') \<and>
     \<not> (length s \<ge> 2 \<and> (isupper (s ! 0) \<or> islower (s ! 0)) \<and> s ! 1 = CHR '':'')"

lemma RequireSafeRelativePath_iff [result_simps]:
  "RequireSafeRelativePath v = Inr s \<longleftrightarrow> v = Some (kString s) \<and>
     (\<exists>n. Utf8ScalarCount s = Inr n \<and> 0 < n \<and> n \<le> 1024) \<and> hd s \<noteq> CHR ''/'' \<and> safe_relative_path s"
proof (cases "\<exists>s'. v = Some (kString s')")
  case True
  then obtain s' where s': "v = Some (kString s')" by blast
  show ?thesis
  proof (cases "Utf8ScalarCount s'")
    case (Inr n)
    define drive where "drive \<longleftrightarrow> length s' \<ge> 2 \<and> (isupper (s' ! 0) \<or> islower (s' ! 0)) \<and> s' ! 1 = CHR '':''"
    define dots where "dots \<longleftrightarrow>
      (\<exists>component \<in> set (Split s' CHR ''/''). component = [] \<or> component = ''.'' \<or> component = ''..'')"
    have "RequireSafeRelativePath v = (if n = 0 \<or> n > 1024 \<or> hd s' = CHR ''/'' \<or> CHR 0x5C \<in> set s' \<or> drive \<or> dots
        then request_Fail ''invalidExecutableRelativePath'' else Inr s')"
      unfolding RequireSafeRelativePath_def s' RequireString_def option.case JsonValue.case bindE_simps
        Inr drive_def [symmetric] dots_def [symmetric]
      by (simp add: find_char_None_iff)
    then have "RequireSafeRelativePath v = Inr s \<longleftrightarrow> s = s' \<and> 0 < n \<and> n \<le> 1024 \<and> hd s' \<noteq> CHR ''/'' \<and>
        CHR 0x5C \<notin> set s' \<and> \<not> drive \<and> \<not> dots"
      by (auto simp: request_Fail_def)
    moreover have "safe_relative_path s' \<longleftrightarrow> CHR 0x5C \<notin> set s' \<and> \<not> dots \<and> \<not> drive"
      unfolding safe_relative_path_def drive_def dots_def by blast
    ultimately show ?thesis using s' Inr by auto
  qed (use s' in \<open>auto simp: RequireSafeRelativePath_def RequireString_def\<close>)
next
  case False
  then have "RequireString v f \<noteq> Inr s''" for f s'' by (auto simp: RequireString_iff)
  with False show ?thesis by (auto simp: RequireSafeRelativePath_def bindE_Inr_iff)
qed

lemma MissingKeyLoop_iff: "MissingKeyLoop m p ks = Inr () \<longleftrightarrow> (\<forall>k \<in> set ks. map_find m k \<noteq> None)"
  by (induction m p ks rule: MissingKeyLoop.induct) (auto simp: request_Fail_def)

lemma UnknownKeyLoop_iff: "UnknownKeyLoop ks p m = Inr () \<longleftrightarrow> fst ` set m \<subseteq> set ks"
  by (induction ks p m rule: UnknownKeyLoop.induct) (auto simp: request_Fail_def)

lemma request_RequireExactKeys_iff:
  "request_RequireExactKeys m req opt p = Inr () \<longleftrightarrow>
     (\<forall>k \<in> set req. map_find m k \<noteq> None) \<and> fst ` set m \<subseteq> set (req @ opt)"
  by (auto simp: request_RequireExactKeys_def bindE_Inr_iff MissingKeyLoop_iff UnknownKeyLoop_iff)

lemma map_find_keys: "map_find m k \<noteq> None \<longleftrightarrow> k \<in> fst ` set m"
  by (simp add: map_find_def map_of_eq_None_iff)

text \<open>An object with only the listed keys, each with its value, is the object built from them.\<close>

lemma object_eq_emplaced:
  assumes "sorted_keys m" and "\<And>k. k \<in> fst ` set m \<Longrightarrow> k \<in> set ks"
    and "\<And>k. k \<in> set ks \<Longrightarrow> map_find m k = map_of kvs k" and "fst ` set kvs \<subseteq> set ks"
  shows "m = emplaced kvs"
proof (rule sm.map_ext)
  fix k
  show "map_find m k = map_find (emplaced kvs) k"
  proof (cases "k \<in> set ks")
    case False
    then have "map_find m k = None" "map_of kvs k = None"
      using assms(2,4) map_find_keys by (metis, auto simp: map_of_eq_None_iff)
    then show ?thesis by (simp add: map_find_emplaced)
  qed (simp add: assms(3) map_find_emplaced)
qed (use assms(1) in simp_all)

lemma exact_required:
  assumes "sorted_keys m" and "request_RequireExactKeys m (map fst kvs) [] p = Inr ()"
    and "distinct (map fst kvs)" and "\<forall>(k, v) \<in> set kvs. map_find m k = Some v"
  shows "m = emplaced kvs"
proof (rule object_eq_emplaced [where ks = "map fst kvs"])
  show "map_find m k = map_of kvs k" if "k \<in> set (map fst kvs)" for k
    using that assms(3,4) by (auto simp: map_of_eq_Some_iff)
qed (use assms in \<open>auto simp: request_RequireExactKeys_iff\<close>)

section \<open>The parts of a request\<close>

lemma ParseVersionIdentity_json:
  assumes "ParseVersionIdentity v f = Inr i" and "\<And>w. v = Some w \<Longrightarrow> wf_json w"
  shows "v = Some (encode_identity i)"
proof -
  from assms obtain m where m: "v = Some (kObject m)" "sorted_keys m"
    "request_RequireExactKeys m [''version'', ''buildNumber'', ''packageIdentitySha256''] [] f = Inr ()"
    "map_find m ''version'' = Some (kString (vi_version i))"
    "map_find m ''buildNumber'' = Some (kInteger (vi_build_number i))"
    "map_find m ''packageIdentitySha256'' = Some (kString (vi_package_identity_sha256 i))"
    by (auto simp: ParseVersionIdentity_def bindE_Inr_iff result_simps)
  have "m = emplaced [(''version'', kString (vi_version i)), (''buildNumber'', kInteger (vi_build_number i)),
      (''packageIdentitySha256'', kString (vi_package_identity_sha256 i))]"
    by (rule exact_required [OF m(2)]) (use m in simp_all)
  then show ?thesis by (simp add: m(1) encode_identity_def)
qed

lemma ParseTarget_json:
  assumes "ParseTarget v strategy = Inr t" and "\<And>w. v = Some w \<Longrightarrow> wf_json w"
  shows "v = Some (target_json t)"
proof -
  from assms obtain m where m: "v = Some (kObject m)" "sorted_keys m"
    "request_RequireExactKeys m [''class'', ''pathHint'', ''targetNameHint'', ''executableRelativePath'', ''identityProofSha256''] [] ''target'' = Inr ()"
    "map_find m ''class'' = Some (kString (tg_target_class t))"
    "map_find m ''pathHint'' = Some (kString (tg_path_hint t))"
    "map_find m ''targetNameHint'' = Some (kString (tg_target_name_hint t))"
    "map_find m ''executableRelativePath'' = Some (kString (tg_executable_relative_path t))"
    "map_find m ''identityProofSha256'' = Some (kString (tg_identity_proof_sha256 t))"
    by (auto simp: ParseTarget_def bindE_Inr_iff result_simps request_Fail_def split: if_splits)
  have "m = emplaced [(''class'', kString (tg_target_class t)),
      (''pathHint'', kString (tg_path_hint t)),
      (''targetNameHint'', kString (tg_target_name_hint t)),
      (''executableRelativePath'', kString (tg_executable_relative_path t)),
      (''identityProofSha256'', kString (tg_identity_proof_sha256 t))]"
    by (rule exact_required [OF m(2)]) (use m in simp_all)
  then show ?thesis by (simp add: m(1) target_json_def)
qed

lemma ParseStage_json:
  assumes "ParseStage v = Inr s" and "\<And>w. v = Some w \<Longrightarrow> wf_json w"
  shows "v = Some (stage_json s)"
proof -
  from assms obtain m where m: "v = Some (kObject m)" "sorted_keys m"
    "request_RequireExactKeys m [''pathHint'', ''ownershipNonce'', ''provenanceSha256'', ''artifactSha256'', ''artifactLength''] [] ''stage'' = Inr ()"
    "map_find m ''pathHint'' = Some (kString (sg_path_hint s))"
    "map_find m ''ownershipNonce'' = Some (kString (sg_ownership_nonce s))"
    "map_find m ''provenanceSha256'' = Some (kString (sg_provenance_sha256 s))"
    "map_find m ''artifactSha256'' = Some (kString (sg_artifact_sha256 s))"
    "map_find m ''artifactLength'' = Some (kInteger (sg_artifact_length s))"
    by (auto simp: ParseStage_def bindE_Inr_iff result_simps request_Fail_def split: if_splits)
  have "m = emplaced [(''pathHint'', kString (sg_path_hint s)),
      (''ownershipNonce'', kString (sg_ownership_nonce s)),
      (''provenanceSha256'', kString (sg_provenance_sha256 s)),
      (''artifactSha256'', kString (sg_artifact_sha256 s)),
      (''artifactLength'', kInteger (sg_artifact_length s))]"
    by (rule exact_required [OF m(2)]) (use m in simp_all)
  then show ?thesis by (simp add: m(1) stage_json_def)
qed

lemma ParseSignedDescriptor_json:
  assumes "ParseSignedDescriptor v = Inr d" and "\<And>w. v = Some w \<Longrightarrow> wf_json w"
  shows "v = Some (signed_descriptor_json d)"
proof -
  from assms obtain m where m: "v = Some (kObject m)" "sorted_keys m"
    "request_RequireExactKeys m [''canonicalSha256'', ''signatureAlgorithm'', ''keyId'', ''signatureBase64''] [] ''signedDescriptor'' = Inr ()"
    "map_find m ''canonicalSha256'' = Some (kString (sd_canonical_sha256 d))"
    "map_find m ''signatureAlgorithm'' = Some (kString (sd_signature_algorithm d))"
    "map_find m ''keyId'' = Some (kString (sd_key_id d))"
    "map_find m ''signatureBase64'' = Some (kString (sd_signature_base64 d))"
    by (auto simp: ParseSignedDescriptor_def bindE_Inr_iff result_simps request_Fail_def split: if_splits)
  have "m = emplaced [(''canonicalSha256'', kString (sd_canonical_sha256 d)),
      (''signatureAlgorithm'', kString (sd_signature_algorithm d)),
      (''keyId'', kString (sd_key_id d)),
      (''signatureBase64'', kString (sd_signature_base64 d))]"
    by (rule exact_required [OF m(2)]) (use m in simp_all)
  then show ?thesis by (simp add: m(1) signed_descriptor_json_def)
qed

lemma ParseCaller_json:
  assumes "ParseCaller v package = Inr c" and "\<And>w. v = Some w \<Longrightarrow> wf_json w"
  shows "v = Some (caller_json c)"
proof -
  from assms obtain m where m: "v = Some (kObject m)" "sorted_keys m"
    "request_RequireExactKeys m [''processId'', ''processStartIdentity'', ''executableSha256'', ''packageId'', ''signerIdentity''] [] ''caller'' = Inr ()"
    "map_find m ''processId'' = Some (kInteger (ca_process_id c))"
    "map_find m ''processStartIdentity'' = Some (kString (ca_process_start_identity c))"
    "map_find m ''executableSha256'' = Some (kString (ca_executable_sha256 c))"
    "map_find m ''packageId'' = Some (kString (ca_package_id c))"
    "map_find m ''signerIdentity'' = Some (kString (ca_signer_identity c))"
    by (auto simp: ParseCaller_def bindE_Inr_iff result_simps request_Fail_def split: if_splits)
  have "m = emplaced [(''processId'', kInteger (ca_process_id c)),
      (''processStartIdentity'', kString (ca_process_start_identity c)),
      (''executableSha256'', kString (ca_executable_sha256 c)),
      (''packageId'', kString (ca_package_id c)),
      (''signerIdentity'', kString (ca_signer_identity c))]"
    by (rule exact_required [OF m(2)]) (use m in simp_all)
  then show ?thesis by (simp add: m(1) caller_json_def)
qed

lemma ParseDiagnostics_json:
  assumes "ParseDiagnostics v = Inr d" and "\<And>w. v = Some w \<Longrightarrow> wf_json w"
  shows "v = (if dd_present d then Some (diagnostics_json d) else None) \<and>
    (\<not> dd_present d \<longrightarrow> d = no_diagnostics)"
proof (cases v)
  case (Some w)
  with assms obtain m where m: "v = Some (kObject m)" "sorted_keys m"
    "request_RequireExactKeys m [''kind''] [''stream''] ''diagnosticsDestination'' = Inr ()"
    "map_find m ''kind'' = Some (kString (dd_kind d))" "dd_present d"
    "map_find m ''stream'' = (if dd_stream d \<noteq> [] then Some (kString (dd_stream d)) else None)"
    by (auto simp: ParseDiagnostics_def bindE_Inr_iff result_simps request_Fail_def split: if_splits)
  have "m = emplaced ([(''kind'', kString (dd_kind d))]
      @ (if dd_stream d \<noteq> [] then [(''stream'', kString (dd_stream d))] else []))"
    by (rule object_eq_emplaced [OF m(2), where ks = "[''kind'', ''stream'']"])
      (use m in \<open>auto simp: request_RequireExactKeys_iff\<close>)
  with m show ?thesis by (simp add: diagnostics_json_def)
qed (use assms in \<open>auto simp: ParseDiagnostics_def no_diagnostics_def\<close>)

lemma map_find_wf: "wf_json (kObject m) \<Longrightarrow> map_find m k = Some w \<Longrightarrow> wf_json w"
  by (auto dest!: map_find_in_set)

lemma RequestOfObject_fields:
  assumes "RequestOfObject m = Inr r"
  shows "request_RequireExactKeys m [''schemaVersion'', ''protocolVersion'', ''transactionId'',
       ''policyId'', ''packageId'', ''strategy'', ''provider'', ''target'', ''currentIdentity'',
       ''desiredIdentity'', ''stage'', ''signedDescriptor'', ''caller'', ''requestNonce'']
       [''diagnosticsDestination''] [] = Inr ()"
    and "map_find m ''schemaVersion'' = Some (kInteger (rq_schema_version r))"
    and "map_find m ''protocolVersion'' = Some (kInteger (rq_protocol_version r))"
    and "map_find m ''transactionId'' = Some (kString (rq_transaction_id r))"
    and "map_find m ''policyId'' = Some (kString (rq_policy_id r))"
    and "map_find m ''packageId'' = Some (kString (rq_package_id r))"
    and "map_find m ''strategy'' = Some (kString (rq_strategy r))"
    and "map_find m ''provider'' = Some (kString (rq_provider r))"
    and "ParseTarget (map_find m ''target'') (rq_strategy r) = Inr (rq_target r)"
    and "ParseVersionIdentity (map_find m ''currentIdentity'') ''currentIdentity'' = Inr (rq_current_identity r)"
    and "ParseVersionIdentity (map_find m ''desiredIdentity'') ''desiredIdentity'' = Inr (rq_desired_identity r)"
    and "ParseStage (map_find m ''stage'') = Inr (rq_stage r)"
    and "ParseSignedDescriptor (map_find m ''signedDescriptor'') = Inr (rq_signed_descriptor r)"
    and "ParseCaller (map_find m ''caller'') (rq_package_id r) = Inr (rq_caller r)"
    and "map_find m ''requestNonce'' = Some (kString (rq_request_nonce r))"
    and "ParseDiagnostics (map_find m ''diagnosticsDestination'') = Inr (rq_diagnostics_destination r)"
    and "rq_schema_version r = 1" "rq_protocol_version r = 1" "request_IsLowercaseUuid (rq_transaction_id r)"
    and "IsDottedIdentifier (rq_policy_id r)" "IsDottedIdentifier (rq_package_id r)"
    and "rq_strategy r \<in> request_strategies" "rq_provider r \<in> strategy_providers (rq_strategy r)"
    and "request_IsReadyToken (rq_request_nonce r)"
  using assms unfolding RequestOfObject_def bindE_Inr_iff
  by (auto simp: RequireString_iff RequireInteger_iff RequireDottedIdentifier_iff RequireEnumeration_iff
      request_Fail_def bindE_Inr_iff split: if_splits)

end
