(* ===== verification/Install_Request_Codec.thy ===== *)
theory Install_Request_Codec
  imports Install_Request
begin

text \<open>
  The request parser and the request encoder are inverse, the parser raises protocol errors only, and
  what an accepted request satisfies.
\<close>

section \<open>Encoding is exact\<close>

lemma emplaced_lookup: "emplaced kvs = emplaced kvs' \<Longrightarrow> map_of kvs k = map_of kvs' k"
  by (metis map_find_emplaced)

lemma target_json_inject:
  assumes "target_json x = target_json y"
  shows "x = y"
proof -
  note eq = assms [unfolded target_json_def JsonValue.inject]
  show ?thesis
    using emplaced_lookup [OF eq, of "''class''"]
      emplaced_lookup [OF eq, of "''pathHint''"]
      emplaced_lookup [OF eq, of "''targetNameHint''"]
      emplaced_lookup [OF eq, of "''executableRelativePath''"]
      emplaced_lookup [OF eq, of "''identityProofSha256''"]
    by (cases x; cases y) simp
qed

lemma encode_identity_inject:
  assumes "encode_identity x = encode_identity y"
  shows "x = y"
proof -
  note eq = assms [unfolded encode_identity_def JsonValue.inject]
  show ?thesis
    using emplaced_lookup [OF eq, of "''version''"]
      emplaced_lookup [OF eq, of "''buildNumber''"]
      emplaced_lookup [OF eq, of "''packageIdentitySha256''"]
    by (cases x; cases y) simp
qed

lemma stage_json_inject:
  assumes "stage_json x = stage_json y"
  shows "x = y"
proof -
  note eq = assms [unfolded stage_json_def JsonValue.inject]
  show ?thesis
    using emplaced_lookup [OF eq, of "''pathHint''"]
      emplaced_lookup [OF eq, of "''ownershipNonce''"]
      emplaced_lookup [OF eq, of "''provenanceSha256''"]
      emplaced_lookup [OF eq, of "''artifactSha256''"]
      emplaced_lookup [OF eq, of "''artifactLength''"]
    by (cases x; cases y) simp
qed

lemma signed_descriptor_json_inject:
  assumes "signed_descriptor_json x = signed_descriptor_json y"
  shows "x = y"
proof -
  note eq = assms [unfolded signed_descriptor_json_def JsonValue.inject]
  show ?thesis
    using emplaced_lookup [OF eq, of "''canonicalSha256''"]
      emplaced_lookup [OF eq, of "''signatureAlgorithm''"]
      emplaced_lookup [OF eq, of "''keyId''"]
      emplaced_lookup [OF eq, of "''signatureBase64''"]
    by (cases x; cases y) simp
qed

lemma caller_json_inject:
  assumes "caller_json x = caller_json y"
  shows "x = y"
proof -
  note eq = assms [unfolded caller_json_def JsonValue.inject]
  show ?thesis
    using emplaced_lookup [OF eq, of "''processId''"]
      emplaced_lookup [OF eq, of "''processStartIdentity''"]
      emplaced_lookup [OF eq, of "''executableSha256''"]
      emplaced_lookup [OF eq, of "''packageId''"]
      emplaced_lookup [OF eq, of "''signerIdentity''"]
    by (cases x; cases y) simp
qed

lemma diagnostics_json_inject:
  assumes "diagnostics_json x = diagnostics_json y" and "dd_present x = dd_present y"
  shows "x = y"
proof -
  note eq = assms(1) [unfolded diagnostics_json_def JsonValue.inject]
  show ?thesis
    using emplaced_lookup [OF eq, of "''kind''"] emplaced_lookup [OF eq, of "''stream''"] assms(2)
    by (cases x; cases y) (auto split: if_splits)
qed

text \<open>The integers are 64-bit fields, and an absent destination has its default fields.\<close>

definition request_in_range :: "NativeInstallTransactionRequestV1 \<Rightarrow> bool" where
  "request_in_range r \<longleftrightarrow> int64 (rq_schema_version r) \<and> int64 (rq_protocol_version r) \<and>
     int64 (vi_build_number (rq_current_identity r)) \<and> int64 (vi_build_number (rq_desired_identity r)) \<and>
     int64 (sg_artifact_length (rq_stage r)) \<and> int64 (ca_process_id (rq_caller r)) \<and>
     (\<not> dd_present (rq_diagnostics_destination r) \<longrightarrow> rq_diagnostics_destination r = no_diagnostics)"

lemma request_members_wf: "request_in_range r \<Longrightarrow> wf_json (kObject (emplaced (request_members r)))"
proof (rule wf_emplaced)
  fix k v assume "request_in_range r" "(k, v) \<in> set (request_members r)"
  moreover have "wf_json (target_json t)" "wf_json (signed_descriptor_json d)" "wf_json (diagnostics_json e)" for t d e
    unfolding target_json_def signed_descriptor_json_def diagnostics_json_def
    by (rule wf_emplaced; auto split: if_splits)+
  moreover have "int64 (vi_build_number i) \<Longrightarrow> wf_json (encode_identity i)"
    "int64 (sg_artifact_length s) \<Longrightarrow> wf_json (stage_json s)"
    "int64 (ca_process_id c) \<Longrightarrow> wf_json (caller_json c)" for i s c
    unfolding encode_identity_def stage_json_def caller_json_def by (rule wf_emplaced; auto)+
  ultimately show "wf_json v"
    by (auto simp: request_members_def request_in_range_def split: if_splits)
qed

lemma request_members_inject:
  assumes "emplaced (request_members x) = emplaced (request_members y)"
    and "request_in_range x" and "request_in_range y"
  shows "x = y"
proof -
  note at = emplaced_lookup [OF assms(1)]
  have strings: "rq_schema_version x = rq_schema_version y" "rq_protocol_version x = rq_protocol_version y"
    "rq_transaction_id x = rq_transaction_id y" "rq_policy_id x = rq_policy_id y"
    "rq_package_id x = rq_package_id y" "rq_strategy x = rq_strategy y" "rq_provider x = rq_provider y"
    "rq_request_nonce x = rq_request_nonce y"
    using at [of "''schemaVersion''"] at [of "''protocolVersion''"] at [of "''transactionId''"]
      at [of "''policyId''"] at [of "''packageId''"] at [of "''strategy''"] at [of "''provider''"]
      at [of "''requestNonce''"]
    by (simp_all add: request_members_def)
  have parts: "target_json (rq_target x) = target_json (rq_target y)"
    "encode_identity (rq_current_identity x) = encode_identity (rq_current_identity y)"
    "encode_identity (rq_desired_identity x) = encode_identity (rq_desired_identity y)"
    "stage_json (rq_stage x) = stage_json (rq_stage y)"
    "signed_descriptor_json (rq_signed_descriptor x) = signed_descriptor_json (rq_signed_descriptor y)"
    "caller_json (rq_caller x) = caller_json (rq_caller y)"
    using at [of "''target''"] at [of "''currentIdentity''"] at [of "''desiredIdentity''"]
      at [of "''stage''"] at [of "''signedDescriptor''"] at [of "''caller''"]
    by (simp_all add: request_members_def)
  have "rq_diagnostics_destination x = rq_diagnostics_destination y"
    using at [of "''diagnosticsDestination''"] assms(2,3)
    by (auto simp: request_members_def request_in_range_def intro: diagnostics_json_inject split: if_splits)
  with strings parts show ?thesis
    by (cases x; cases y)
      (simp add: target_json_inject encode_identity_inject stage_json_inject signed_descriptor_json_inject
        caller_json_inject)
qed

definition request_keys :: "string list" where
  "request_keys = [''schemaVersion'', ''protocolVersion'', ''transactionId'', ''policyId'', ''packageId'',
     ''strategy'', ''provider'', ''target'', ''currentIdentity'', ''desiredIdentity'', ''stage'',
     ''signedDescriptor'', ''caller'', ''requestNonce'', ''diagnosticsDestination'']"

lemma RequestOfObject_members:
  assumes "RequestOfObject m = Inr r" and "wf_json (kObject m)"
  shows "m = emplaced (request_members r)"
proof -
  note f = RequestOfObject_fields [OF assms(1)]
  note wf = map_find_wf [OF assms(2)]
  have parts: "map_find m ''target'' = Some (target_json (rq_target r))"
    "map_find m ''currentIdentity'' = Some (encode_identity (rq_current_identity r))"
    "map_find m ''desiredIdentity'' = Some (encode_identity (rq_desired_identity r))"
    "map_find m ''stage'' = Some (stage_json (rq_stage r))"
    "map_find m ''signedDescriptor'' = Some (signed_descriptor_json (rq_signed_descriptor r))"
    "map_find m ''caller'' = Some (caller_json (rq_caller r))"
    by (rule ParseTarget_json [OF f(9)] ParseVersionIdentity_json [OF f(10)]
        ParseVersionIdentity_json [OF f(11)] ParseStage_json [OF f(12)]
        ParseSignedDescriptor_json [OF f(13)] ParseCaller_json [OF f(14)], erule wf)+
  have diagnostics: "map_find m ''diagnosticsDestination'' = (if dd_present (rq_diagnostics_destination r)
      then Some (diagnostics_json (rq_diagnostics_destination r)) else None)"
    using ParseDiagnostics_json [OF f(16)] wf by blast
  show ?thesis
  proof (rule object_eq_emplaced [where ks = "request_keys"])
    show "sorted_keys m" using assms(2) by simp
    show "k \<in> fst ` set m \<Longrightarrow> k \<in> set request_keys" for k
      using f(1) unfolding request_RequireExactKeys_iff append.simps request_keys_def by blast
    show "map_find m k = map_of (request_members r) k"
      if "k \<in> set request_keys" for k
      using that unfolding request_keys_def list.set insert_iff empty_iff
      by (elim disjE) (simp_all add: request_members_def f(2-8,15) parts diagnostics)
    show "fst ` set (request_members r) \<subseteq> set request_keys"
      by (auto simp: request_members_def request_keys_def split: if_splits)
  qed
qed

lemma RequestOfObject_in_range:
  assumes "RequestOfObject m = Inr r" and "wf_json (kObject m)"
  shows "request_in_range r"
proof -
  note f = RequestOfObject_fields [OF assms(1)]
  have build: "int64 (vi_build_number i)" if "ParseVersionIdentity v e = Inr i" for v e i
    using that by (auto simp: ParseVersionIdentity_def bindE_Inr_iff result_simps int64_defs)
  have length: "int64 (sg_artifact_length s)" if "ParseStage v = Inr s" for v s
    using that by (auto simp: ParseStage_def bindE_Inr_iff result_simps int64_defs)
  have process: "int64 (ca_process_id c)" if "ParseCaller v p = Inr c" for v p c
    using that
    by (auto simp: ParseCaller_def bindE_Inr_iff result_simps int64_defs request_Fail_def split: if_splits)
  have "\<not> dd_present (rq_diagnostics_destination r) \<longrightarrow> rq_diagnostics_destination r = no_diagnostics"
    using ParseDiagnostics_json [OF f(16)] map_find_wf [OF assms(2)] by blast
  with build [OF f(10)] build [OF f(11)] length [OF f(12)] process [OF f(14)] f(17,18) show ?thesis
    by (simp add: request_in_range_def)
qed

lemma ParseRequest_Inr_iff:
  "ParseNativeInstallTransactionRequestV1 t = Inr r \<longleftrightarrow>
     (\<exists>n m. Utf8ScalarCount t = Inr n \<and> wf_json (kObject m) \<and> t = EncodeCanonicalJson (kObject m) \<and>
        RequestOfObject m = Inr r)"
proof
  assume "ParseNativeInstallTransactionRequestV1 t = Inr r"
  then obtain n m where "Utf8ScalarCount t = Inr n" "ParseJson t = Inr (kObject m)"
    "EncodeCanonicalJson (kObject m) = t" "RequestOfObject m = Inr r"
    by (auto simp: ParseNativeInstallTransactionRequestV1_def request_guard_def request_Fail_def Let_def
        bindE_Inr_iff RequireObject_iff split: sum.splits cpp_exception.splits if_splits)
  then show "\<exists>n m. Utf8ScalarCount t = Inr n \<and> wf_json (kObject m) \<and> t = EncodeCanonicalJson (kObject m) \<and>
        RequestOfObject m = Inr r"
    using ParseJson_wf by blast
next
  assume "\<exists>n m. Utf8ScalarCount t = Inr n \<and> wf_json (kObject m) \<and> t = EncodeCanonicalJson (kObject m) \<and>
        RequestOfObject m = Inr r"
  then show "ParseNativeInstallTransactionRequestV1 t = Inr r"
    by (auto simp: ParseNativeInstallTransactionRequestV1_def request_guard_def ParseJson_Encode
        RequireObject_def simp del: wf_json.simps)
qed

section \<open>Errors\<close>

definition request_only :: "'a result \<Rightarrow> bool" where
  "request_only r \<longleftrightarrow> (\<forall>e. r = Inl e \<longrightarrow> (\<exists>c. e = NativeInstallProtocolError c))"

lemma request_only_basic [simp]:
  "request_only (Inr x)" "request_only (request_Fail c)"
  "request_only (bindE r f) \<longleftrightarrow> request_only r \<and> (\<forall>x. r = Inr x \<longrightarrow> request_only (f x))"
  by (auto simp: request_only_def request_Fail_def bindE_Inl_iff)

lemma request_only_utf8 [simp]: "request_only (Utf8ScalarCount s)"
proof -
  have cont: "request_only (utf8_continuation n cs)" for n cs
    by (induction n cs rule: utf8_continuation.induct) auto
  have "request_only (Utf8ScalarCountLoop s n)" for n
  proof (induction s n rule: Utf8ScalarCountLoop.induct)
    case (1 s count)
    then show ?case
      by (subst Utf8ScalarCountLoop.simps) (auto simp: cont split: list.split option.split prod.split)
  qed
  then show ?thesis by (simp add: Utf8ScalarCount_def)
qed

lemma request_only_fields [simp]:
  "request_only (RequireString v f)" "request_only (RequireObject v f)" "request_only (RequireInteger v f a b)"
  "request_only (RequireBoundedString v f n)" "request_only (RequireSha256 v f e)"
  "request_only (RequireDottedIdentifier v f e)" "request_only (RequireEnumeration v f A e)"
  "request_only (RequireSafeSiblingName v)" "request_only (RequireSafeRelativePath v)"
  unfolding RequireString_def RequireObject_def RequireInteger_def RequireBoundedString_def
    RequireSha256_def RequireDottedIdentifier_def RequireEnumeration_def RequireSafeSiblingName_def
    RequireSafeRelativePath_def
  by (simp_all split: option.split JsonValue.split)

lemma request_only_keys [simp]: "request_only (request_RequireExactKeys m a b p)"
proof -
  have "request_only (MissingKeyLoop m p a)"
    by (induction m p a rule: MissingKeyLoop.induct) simp_all
  moreover have "request_only (UnknownKeyLoop c p m)" for c
    by (induction c p m rule: UnknownKeyLoop.induct) simp_all
  ultimately show ?thesis by (simp add: request_RequireExactKeys_def)
qed

lemma request_only_parts [simp]:
  "request_only (ParseVersionIdentity v f)" "request_only (ParseTarget v s)" "request_only (ParseStage v)"
  "request_only (ParseSignedDescriptor v)" "request_only (ParseCaller v p)" "request_only (ParseDiagnostics v)"
  by (simp_all add: ParseVersionIdentity_def ParseTarget_def ParseStage_def ParseSignedDescriptor_def
      ParseCaller_def ParseDiagnostics_def)

lemma request_only_RequestOfObject [simp]: "request_only (RequestOfObject m)"
  by (simp add: RequestOfObject_def)

lemma request_only_parse: "request_only (ParseNativeInstallTransactionRequestV1 t)"
proof -
  have "\<exists>c. e = NativeInstallProtocolError c \<or> e = JsonError c"
    if "bindE (Utf8ScalarCount t) (\<lambda>_. bindE (ParseJson t) (\<lambda>v.
        if EncodeCanonicalJson v \<noteq> t then request_Fail ''nonCanonicalJson''
        else bindE (RequireObject (Some v) ''request'') RequestOfObject)) = Inl e" for e
    using that request_only_utf8 [of t] json_only_ParseJson [of t] request_only_RequestOfObject
      request_only_fields(2)
    by (auto simp: bindE_Inl_iff request_only_def json_only_def request_Fail_def split: if_splits) blast+
  then show ?thesis
    by (auto simp: ParseNativeInstallTransactionRequestV1_def request_guard_def request_only_def
        request_Fail_def Let_def split: sum.split cpp_exception.split)
qed

lemma ParseTarget_safe:
  "ParseTarget v strategy = Inr t \<Longrightarrow> tg_target_class t \<in> strategy_classes strategy \<and>
     safe_relative_path (tg_executable_relative_path t)"
  by (auto simp: ParseTarget_def bindE_Inr_iff result_simps request_Fail_def split: if_splits)

lemma ParseCaller_safe:
  "ParseCaller v package = Inr c \<Longrightarrow> ca_package_id c = package \<and> 1 \<le> ca_process_id c \<and>
     ca_process_id c < 2 ^ 32"
  by (auto simp: ParseCaller_def bindE_Inr_iff result_simps request_Fail_def split: if_splits)

lemma ParseStage_safe:
  "ParseStage v = Inr s \<Longrightarrow> 1 \<le> sg_artifact_length s \<and> sg_artifact_length s < 2 ^ 63 \<and>
     IsLowerHex (sg_artifact_sha256 s) 64 \<and> IsLowerHex (sg_provenance_sha256 s) 64"
  by (auto simp: ParseStage_def bindE_Inr_iff result_simps int64_defs)

lemma ParseSignedDescriptor_safe:
  "ParseSignedDescriptor v = Inr d \<Longrightarrow> sd_signature_algorithm d = ''ed25519''"
  by (auto simp: ParseSignedDescriptor_def bindE_Inr_iff result_simps request_Fail_def split: if_splits)

section \<open>Properties\<close>

text \<open>
  C31. The request codec is exact: the parser accepts exactly the texts that the encoder produces for
  requests whose fields are in the range of their types, and gives the request back. One request has
  one accepted text.
\<close>

theorem request_exact:
  "ParseNativeInstallTransactionRequestV1 t = Inr r \<longleftrightarrow>
     request_in_range r \<and> EncodeCanonicalNativeInstallTransactionRequestV1 r = Inr t"
proof
  assume parsed: "ParseNativeInstallTransactionRequestV1 t = Inr r"
  then obtain m where m: "wf_json (kObject m)" "t = EncodeCanonicalJson (kObject m)" "RequestOfObject m = Inr r"
    unfolding ParseRequest_Inr_iff by blast
  have "t = EncodeCanonicalJson (kObject (emplaced (request_members r)))"
    using RequestOfObject_members [OF m(3,1)] m(2) by simp
  with parsed RequestOfObject_in_range [OF m(3,1)]
  show "request_in_range r \<and> EncodeCanonicalNativeInstallTransactionRequestV1 r = Inr t"
    by (simp add: EncodeCanonicalNativeInstallTransactionRequestV1_def Let_def)
next
  assume r: "request_in_range r \<and> EncodeCanonicalNativeInstallTransactionRequestV1 r = Inr t"
  let ?m = "emplaced (request_members r)"
  from r obtain r' where parsed: "ParseNativeInstallTransactionRequestV1 t = Inr r'"
    and t: "t = EncodeCanonicalJson (kObject ?m)"
    unfolding EncodeCanonicalNativeInstallTransactionRequestV1_def Let_def bindE_Inr_iff by blast
  from parsed obtain m where m: "wf_json (kObject m)" "t = EncodeCanonicalJson (kObject m)" "RequestOfObject m = Inr r'"
    unfolding ParseRequest_Inr_iff by blast
  have "kObject m = kObject ?m"
    using json.encode_inject [OF m(1) request_members_wf] r t m(2) by simp
  then have "emplaced (request_members r) = emplaced (request_members r')"
    using RequestOfObject_members [OF m(3,1)] by simp
  then have "r = r'"
    using request_members_inject r RequestOfObject_in_range [OF m(3,1)] by blast
  with parsed show "ParseNativeInstallTransactionRequestV1 t = Inr r" by simp
qed

text \<open>
  An accepted request is well formed: versions 1, a lowercase transaction UUID, a strategy that
  fits its provider and its target class, a caller of the same package with a 32-bit process id,
  digests of 64 hexadecimal digits, a positive artifact length, an Ed25519 descriptor signature, an
  executable path below the target without dot components; and any other text is refused with a
  protocol error.
\<close>

theorem request_parse_safe:
  "case ParseNativeInstallTransactionRequestV1 t of
     Inl e \<Rightarrow> \<exists>code. e = NativeInstallProtocolError code
   | Inr r \<Rightarrow> rq_schema_version r = 1 \<and> rq_protocol_version r = 1 \<and>
       IsLowercaseUuid (rq_transaction_id r) \<and> IsDottedIdentifier (rq_package_id r) \<and>
       rq_provider r \<in> strategy_providers (rq_strategy r) \<and>
       tg_target_class (rq_target r) \<in> strategy_classes (rq_strategy r) \<and>
       safe_relative_path (tg_executable_relative_path (rq_target r)) \<and>
       ca_package_id (rq_caller r) = rq_package_id r \<and>
       1 \<le> ca_process_id (rq_caller r) \<and> ca_process_id (rq_caller r) < 2 ^ 32 \<and>
       1 \<le> sg_artifact_length (rq_stage r) \<and> sg_artifact_length (rq_stage r) < 2 ^ 63 \<and>
       IsSha256 (sg_artifact_sha256 (rq_stage r)) \<and> IsSha256 (sg_provenance_sha256 (rq_stage r)) \<and>
       sd_signature_algorithm (rq_signed_descriptor r) = ''ed25519'' \<and>
       IsReadyToken (rq_request_nonce r)"
proof (cases "ParseNativeInstallTransactionRequestV1 t")
  case (Inl e)
  then show ?thesis using request_only_parse [of t] by (simp add: request_only_def)
next
  case (Inr r)
  then obtain m where m: "RequestOfObject m = Inr r" by (auto simp: ParseRequest_Inr_iff)
  note f = RequestOfObject_fields [OF m]
  have hex: "IsLowerHex s 64 = IsSha256 s" "request_IsLowercaseUuid u = IsLowercaseUuid u"
    "request_IsReadyToken n = IsReadyToken n" for s u n
    by (auto simp: IsLowerHex_def IsSha256_def request_IsLowercaseUuid_def IsLowercaseUuid_def
        request_IsReadyToken_def IsReadyToken_def IsAsciiAlphaNumeric_def list_all_iff)
  note parts = ParseTarget_safe [OF f(9)] ParseCaller_safe [OF f(14)] ParseStage_safe [OF f(12)]
    ParseSignedDescriptor_safe [OF f(13)]
  show ?thesis using Inr f(17-24) hex parts by simp
qed

end
