(* ===== verification/Install_Request_Sample.thy ===== *)
theory Install_Request_Sample
  imports Install_Request_Codec
begin

text \<open>A concrete request that the parser accepts, for the theories that run the helper on it.\<close>

definition plain :: "string \<Rightarrow> bool" where
  "plain s \<longleftrightarrow> list_all (\<lambda>c. 0x20 \<le> ord c \<and> ord c < 0x7F \<and> c \<noteq> CHR 0x22 \<and> c \<noteq> CHR 0x5C) s"

lemma Utf8ScalarCount_ascii:
  assumes "\<forall>c \<in> set s. ord c < 128"
  shows "Utf8ScalarCount s = Inr (length s)"
proof -
  have "Utf8ScalarCountLoop s n = Inr (n + length s)" for n
    using assms
  proof (induction s arbitrary: n)
    case (Cons c s)
    then have "utf8_first (ord c) = Some (1, ord c)" "\<not> utf8_rejected 1 (ord c)"
      by (simp_all add: utf8_first_def utf8_rejected_def)
    with Cons show ?case by (subst Utf8ScalarCountLoop.simps) simp
  qed (subst Utf8ScalarCountLoop.simps, simp)
  then show ?thesis by (simp add: Utf8ScalarCount_def)
qed

fun plain_json :: "JsonValue \<Rightarrow> bool" where
  "plain_json (kString s) = plain s"
| "plain_json (kArray a) = (\<forall>v \<in> set a. plain_json v)"
| "plain_json (kObject m) = (\<forall>(k, v) \<in> set m. plain k \<and> plain_json v)"
| "plain_json v = True"

lemma EncodeString_ascii: "plain s \<Longrightarrow> c \<in> set (EncodeString s) \<Longrightarrow> ord c < 128"
proof -
  assume s: "plain s" and c: "c \<in> set (EncodeString s)"
  have escape: "EscapeByte x = [x]" if "x \<in> set s" for x
  proof -
    have "0x20 \<le> ord x" "x \<noteq> CHR 0x22" "x \<noteq> CHR 0x5C"
      using s that by (auto simp: plain_def list_all_iff)
    moreover from this(1) have "x \<notin> {CHR 0x08, CHR 0x0C, CHR 0x0A, CHR 0x0D, CHR 0x09}" by auto
    ultimately show ?thesis by (simp add: EscapeByte_def)
  qed
  then have "map EscapeByte s = map (\<lambda>x. [x]) s" by (intro map_cong) auto
  then have "concat (map EscapeByte s) = s" by (simp only: concat_map_singleton map_ident)
  with c have "c = CHR 0x22 \<or> c \<in> set s" by (auto simp: EncodeString_def)
  moreover have "ord x < 0x7F" if "x \<in> set s" for x
    using s that unfolding plain_def list_all_iff by blast
  ultimately show ?thesis by fastforce
qed

lemma show_int_ascii: "c \<in> set (show_int i) \<Longrightarrow> ord c < 128"
  using show_nat_digits [of "nat i"] show_nat_digits [of "nat (- i)"]
  by (auto simp: show_int_def list_all_iff isdigit_def split: if_splits)

lemma Encode_ascii:
  "plain_json v \<Longrightarrow> c \<in> set (Encode v) \<Longrightarrow> ord c < 128"
  "\<forall>v \<in> set a. plain_json v \<Longrightarrow> c \<in> set (EncodeArrayLoop b a) \<Longrightarrow> ord c < 128"
  "\<forall>(k, v) \<in> set m. plain k \<and> plain_json v \<Longrightarrow> c \<in> set (EncodeObjectLoop d m) \<Longrightarrow> ord c < 128"
  by (induction v and b a and d m rule: Encode_EncodeArrayLoop_EncodeObjectLoop.induct)
    (auto dest: EncodeString_ascii show_int_ascii split: if_splits)

lemma plain_simps [simp]:
  "plain []" "plain (c # s) \<longleftrightarrow> 0x20 \<le> ord c \<and> ord c < 0x7F \<and> c \<noteq> CHR 0x22 \<and> c \<noteq> CHR 0x5C \<and> plain s"
  "plain (s @ t) \<longleftrightarrow> plain s \<and> plain t" "plain [c] \<Longrightarrow> plain (replicate n c)"
  by (auto simp: plain_def list_all_iff)

lemma plain_emplaced:
  "list_all (\<lambda>(k, v). plain k \<and> plain_json v) kvs \<Longrightarrow> plain_json (kObject (emplaced kvs))"
  using set_emplaced [of kvs] by (auto simp: list_all_iff)

definition sample_identity :: "string \<Rightarrow> NativeInstallVersionIdentityV1" where
  "sample_identity version = \<lparr>vi_version = version, vi_build_number = 0,
     vi_package_identity_sha256 = replicate 64 CHR ''a''\<rparr>"

definition sample_request :: NativeInstallTransactionRequestV1 where
  "sample_request = \<lparr>rq_schema_version = 1, rq_protocol_version = 1, rq_transaction_id = sample_uuid,
     rq_policy_id = ''policy'', rq_package_id = ''app'', rq_strategy = ''directoryReplace'',
     rq_provider = ''platformDirectory'',
     rq_target = \<lparr>tg_target_class = ''sameUserWritable'', tg_path_hint = ''/opt/app'',
       tg_target_name_hint = ''app'', tg_executable_relative_path = ''bin/app'',
       tg_identity_proof_sha256 = replicate 64 CHR ''a''\<rparr>,
     rq_current_identity = sample_identity ''1.0.0'', rq_desired_identity = sample_identity ''1.2.0'',
     rq_stage = \<lparr>sg_path_hint = ''/stage'', sg_ownership_nonce = replicate 64 CHR ''a'',
       sg_provenance_sha256 = replicate 64 CHR ''a'', sg_artifact_sha256 = replicate 64 CHR ''a'',
       sg_artifact_length = 7\<rparr>,
     rq_signed_descriptor = \<lparr>sd_canonical_sha256 = replicate 64 CHR ''a'',
       sd_signature_algorithm = ''ed25519'', sd_key_id = ''k'',
       sd_signature_base64 = replicate 86 CHR ''A'' @ ''==''\<rparr>,
     rq_caller = \<lparr>ca_process_id = 42, ca_process_start_identity = ''t'',
       ca_executable_sha256 = replicate 64 CHR ''a'', ca_package_id = ''app'', ca_signer_identity = ''s''\<rparr>,
     rq_request_nonce = replicate 43 CHR ''t'', rq_diagnostics_destination = no_diagnostics\<rparr>"

lemma sample_texts:
  "IsLowerHex (replicate 64 CHR ''a'') 64" "IsDottedIdentifier ''policy''" "IsDottedIdentifier ''app''"
  "request_IsReadyToken (replicate 43 CHR ''t'')" "request_IsLowercaseUuid sample_uuid"
  using sample_uuid_valid [unfolded IsLowercaseUuid_def, folded request_IsLowercaseUuid_def]
  by (simp_all add: IsLowerHex_def list_all_iff is_lower_hex_def isdigit_def IsDottedIdentifier_def
      islower_def request_IsReadyToken_def IsAsciiAlphaNumeric_def)

lemma Split_sample: "Split ''bin/app'' CHR ''/'' = [''bin'', ''app'']"
  by (simp add: Split.simps)

lemma exact_required_emplaced:
  "distinct (map fst kvs) \<Longrightarrow> set ks = fst ` set kvs \<Longrightarrow>
     request_RequireExactKeys (emplaced kvs) ks [] p = Inr ()"
  by (auto simp: request_RequireExactKeys_iff fst_emplaced map_find_emplaced map_of_eq_None_iff)

lemma sample_parts_parse:
  "ParseTarget (Some (target_json (rq_target sample_request))) ''directoryReplace'' = Inr (rq_target sample_request)"
  "ParseVersionIdentity (Some (encode_identity (sample_identity ''1.0.0''))) f = Inr (sample_identity ''1.0.0'')"
  "ParseVersionIdentity (Some (encode_identity (sample_identity ''1.2.0''))) f = Inr (sample_identity ''1.2.0'')"
  "ParseStage (Some (stage_json (rq_stage sample_request))) = Inr (rq_stage sample_request)"
  "ParseSignedDescriptor (Some (signed_descriptor_json (rq_signed_descriptor sample_request))) =
     Inr (rq_signed_descriptor sample_request)"
  "ParseCaller (Some (caller_json (rq_caller sample_request))) ''app'' = Inr (rq_caller sample_request)"
  unfolding ParseTarget_def ParseVersionIdentity_def ParseStage_def ParseSignedDescriptor_def ParseCaller_def
    target_json_def encode_identity_def stage_json_def signed_descriptor_json_def caller_json_def
  by (simp_all add: sample_request_def sample_identity_def RequireObject_def exact_required_emplaced
      map_find_emplaced RequireString_def RequireBoundedString_def RequireInteger_def RequireSha256_def
      RequireDottedIdentifier_def RequireEnumeration_def RequireSafeSiblingName_def
      RequireSafeRelativePath_def Utf8ScalarCount_ascii request_blank_def sample_texts
      target_classes_def strategy_classes_def Split_sample IsAsciiAlphaNumeric_def isupper_def islower_def
      isdigit_def list_all_iff INT64_MAX_def)

lemma sample_request_parses:
  "\<exists>t. ParseNativeInstallTransactionRequestV1 t = Inr sample_request"
proof -
  let ?m = "emplaced (request_members sample_request)"
  have "plain sample_uuid" unfolding sample_uuid_def by code_simp
  have range: "request_in_range sample_request"
    by (simp add: request_in_range_def sample_request_def sample_identity_def int64_defs)
  have members: "request_members sample_request =
      [(''schemaVersion'', kInteger 1), (''protocolVersion'', kInteger 1),
       (''transactionId'', kString sample_uuid), (''policyId'', kString ''policy''),
       (''packageId'', kString ''app''), (''strategy'', kString ''directoryReplace''),
       (''provider'', kString ''platformDirectory''), (''target'', target_json (rq_target sample_request)),
       (''currentIdentity'', encode_identity (sample_identity ''1.0.0'')),
       (''desiredIdentity'', encode_identity (sample_identity ''1.2.0'')),
       (''stage'', stage_json (rq_stage sample_request)),
       (''signedDescriptor'', signed_descriptor_json (rq_signed_descriptor sample_request)),
       (''caller'', caller_json (rq_caller sample_request)),
       (''requestNonce'', kString (replicate 43 CHR ''t''))]"
    unfolding request_members_def by (simp add: sample_request_def no_diagnostics_def)
  have exact: "request_RequireExactKeys ?m [''schemaVersion'', ''protocolVersion'', ''transactionId'',
       ''policyId'', ''packageId'', ''strategy'', ''provider'', ''target'', ''currentIdentity'',
       ''desiredIdentity'', ''stage'', ''signedDescriptor'', ''caller'', ''requestNonce'']
       [''diagnosticsDestination''] [] = Inr ()"
    unfolding request_RequireExactKeys_iff fst_emplaced map_find_emplaced members by simp
  have object: "RequestOfObject ?m = Inr sample_request"
    unfolding RequestOfObject_def exact
    by (simp add: map_find_emplaced members RequireInteger_def RequireString_def
        RequireDottedIdentifier_def RequireEnumeration_def int64_defs sample_texts sample_parts_parse
        request_strategies_def request_providers_def strategy_providers_def ParseDiagnostics_def)
      (simp add: sample_request_def)
  have parts: "plain_json (target_json (rq_target sample_request))" "plain_json (stage_json (rq_stage sample_request))"
    "plain_json (encode_identity (sample_identity ''1.0.0''))" "plain_json (encode_identity (sample_identity ''1.2.0''))"
    "plain_json (signed_descriptor_json (rq_signed_descriptor sample_request))"
    "plain_json (caller_json (rq_caller sample_request))"
    unfolding target_json_def stage_json_def encode_identity_def signed_descriptor_json_def caller_json_def
    by (rule plain_emplaced; simp add: sample_request_def sample_identity_def)+
  have "plain_json (kObject ?m)"
    unfolding members by (rule plain_emplaced) (simp add: \<open>plain sample_uuid\<close> parts)
  then have "Utf8ScalarCount (EncodeCanonicalJson (kObject ?m)) = Inr (length (EncodeCanonicalJson (kObject ?m)))"
    by (intro Utf8ScalarCount_ascii) (auto simp: EncodeCanonicalJson_def simp del: Encode.simps plain_json.simps dest: Encode_ascii(1))
  with object request_members_wf [OF range] show ?thesis
    unfolding ParseRequest_Inr_iff by blast
qed

end
