(* ===== verification/Install_Session.thy ===== *)
theory Install_Session
  imports Install_Request_Sample
begin

text \<open>
  The one-shot session of the install helper, \<^verbatim>\<open>native_install_session.{h,cc}\<close>. The authorizer, the
  prepared transaction, the token generator, the digest and the clock are interfaces or functions
  that the code calls; each call of a method takes the answers they give during it, and any of them
  may throw. What the session does to the transaction is recorded in an event log.
\<close>

section \<open>State\<close>

datatype SessionState = ss_kInitial | ss_kPreparing | ss_kPrepared | ss_kCommitAccepted | ss_kExecuting
  | ss_kCancelling | ss_kCancelled | ss_kCompleted | ss_kRecoveryRequired

text \<open>The calls on the transaction, with whether they returned.\<close>

datatype transaction_event = Ev_PrepareDurableJournal bool | Ev_MarkCommitAccepted bool
  | Ev_ExecuteAfterCallerExit bool | Ev_CancelPrepared bool

text \<open>
  The answers during one call: \<open>en_authorize\<close> gives the id of the transaction, or \<^const>\<open>None\<close> for a null
  pointer.
\<close>

record SessionEnv =
  en_authorize :: "NativeInstallTransactionRequestV1 \<Rightarrow> string option result"
  en_prepare :: "string result"
  en_mark :: "unit result"
  en_execute :: "unit result"
  en_cancel :: "unit result"
  en_endpoint_identity :: string
  en_ready_token :: "string result"
  en_sha256 :: "string \<Rightarrow> string result"
  en_now :: "int result"

record Session =
  se_state :: SessionState
  se_transaction :: bool
  se_reservation :: NativeInstallReservationV1
  se_lifetime :: int
  se_log :: "transaction_event list"

definition no_reservation :: NativeInstallReservationV1 where
  "no_reservation = \<lparr>rv_protocol_version = 0, rv_transaction_id = [], rv_ready_token = [],
     rv_journal_sha256 = [], rv_helper_endpoint_identity_sha256 = [], rv_expires_at_unix_milliseconds = 0\<rparr>"

definition session_error :: "string \<Rightarrow> 'a result" where
  "session_error detail = Inl (NativeInstallSessionError detail)"

section \<open>Methods\<close>

text \<open>The constructor; \<open>dependencies\<close> says that no function object is empty.\<close>

definition NewSession :: "bool \<Rightarrow> int \<Rightarrow> Session result" where
  "NewSession dependencies lifetime =
     (if \<not> dependencies \<or> lifetime \<le> 0 then session_error ''invalid one-shot session dependencies''
      else Inr \<lparr>se_state = ss_kInitial, se_transaction = False, se_reservation = no_reservation,
        se_lifetime = lifetime, se_log = []\<rparr>)"

definition log_event :: "transaction_event \<Rightarrow> Session \<Rightarrow> Session" where
  "log_event e s = s\<lparr>se_log := se_log s @ [e]\<rparr>"

definition returned :: "'a result \<Rightarrow> bool" where
  "returned r = (case r of Inl _ \<Rightarrow> False | Inr _ \<Rightarrow> True)"

definition DestroySession :: "SessionEnv \<Rightarrow> Session \<Rightarrow> Session" where
  "DestroySession env s =
     (if se_transaction s \<and> (se_state s = ss_kPrepared \<or> se_state s = ss_kCommitAccepted)
      then log_event (Ev_CancelPrepared (returned (en_cancel env))) s else s)"

definition RequireState :: "SessionState \<Rightarrow> Session \<Rightarrow> unit result" where
  "RequireState expected s =
     (if se_state s \<noteq> expected then session_error ''invalid one-shot session state'' else Inr ())"

text \<open>
  The \<^verbatim>\<open>try\<close> block of \<open>Prepare\<close>, in the order of its statements: first up to the durable journal, then
  the reservation.
\<close>

definition PrepareJournal ::
    "SessionEnv \<Rightarrow> string \<Rightarrow> Session \<Rightarrow> (NativeInstallTransactionRequestV1 \<times> string) result \<times> Session" where
  "PrepareJournal env canonical_request s =
     (case ParseNativeInstallTransactionRequestV1 canonical_request of
        Inl e \<Rightarrow> (Inl e, s)
      | Inr request \<Rightarrow>
          (case en_authorize env request of
             Inl e \<Rightarrow> (Inl e, s)
           | Inr transaction \<Rightarrow>
               let s = s\<lparr>se_transaction := transaction \<noteq> None\<rparr> in
               if transaction \<noteq> Some (rq_transaction_id request)
               then (session_error ''authorized transaction binding mismatch'', s)
               else (map_sum id (\<lambda>journal. (request, journal)) (en_prepare env),
                     log_event (Ev_PrepareDurableJournal (returned (en_prepare env))) s)))"

definition MakeReservation ::
    "SessionEnv \<Rightarrow> int \<Rightarrow> NativeInstallTransactionRequestV1 \<Rightarrow> string \<Rightarrow> NativeInstallReservationV1 result" where
  "MakeReservation env lifetime request journal =
     bindE (en_sha256 env journal) (\<lambda>journal_sha256.
     bindE (en_now env) (\<lambda>now.
       if now < 0 \<or> now > INT64_MAX - lifetime then session_error ''reservation expiry overflow''
       else
     bindE (en_ready_token env) (\<lambda>ready_token.
       Inr \<lparr>rv_protocol_version = 1, rv_transaction_id = rq_transaction_id request,
            rv_ready_token = ready_token, rv_journal_sha256 = journal_sha256,
            rv_helper_endpoint_identity_sha256 = en_endpoint_identity env,
            rv_expires_at_unix_milliseconds = now + lifetime\<rparr>)))"

definition Prepare :: "SessionEnv \<Rightarrow> string \<Rightarrow> Session \<Rightarrow> NativeInstallReservationV1 result \<times> Session" where
  "Prepare env canonical_request s =
     (case RequireState ss_kInitial s of
        Inl e \<Rightarrow> (Inl e, s)
      | Inr _ \<Rightarrow>
          (case PrepareJournal env canonical_request (s\<lparr>se_state := ss_kPreparing\<rparr>) of
             (Inl e, s) \<Rightarrow>
               (Inl e, s\<lparr>se_state := (if \<not> se_transaction s then ss_kCancelled else ss_kRecoveryRequired)\<rparr>)
           | (Inr (request, journal), s) \<Rightarrow>
               (case MakeReservation env (se_lifetime s) request journal of
                  Inl e \<Rightarrow>
                    (Inl e, (log_event (Ev_CancelPrepared (returned (en_cancel env))) s)
                       \<lparr>se_state := (if returned (en_cancel env) then ss_kCancelled else ss_kRecoveryRequired)\<rparr>)
                | Inr reservation \<Rightarrow>
                    let s = s\<lparr>se_reservation := reservation\<rparr> in
                    (case EncodeNativeInstallReservationV1 reservation of
                       Inl e \<Rightarrow>
                         (Inl e, (log_event (Ev_CancelPrepared (returned (en_cancel env))) s)
                            \<lparr>se_state := (if returned (en_cancel env) then ss_kCancelled else ss_kRecoveryRequired)\<rparr>)
                     | Inr _ \<Rightarrow> (Inr reservation, s\<lparr>se_state := ss_kPrepared\<rparr>)))))"

definition RequireBinding :: "NativeInstallWireCommandV1 \<Rightarrow> string \<Rightarrow> Session \<Rightarrow> unit result" where
  "RequireBinding command operation s =
     (if cm_operation command \<noteq> operation \<or>
         cm_protocol_version command \<noteq> rv_protocol_version (se_reservation s) \<or>
         cm_transaction_id command \<noteq> rv_transaction_id (se_reservation s) \<or>
         cm_ready_token command \<noteq> rv_ready_token (se_reservation s) \<or>
         cm_journal_sha256 command \<noteq> rv_journal_sha256 (se_reservation s) \<or>
         cm_helper_endpoint_identity_sha256 command \<noteq>
           rv_helper_endpoint_identity_sha256 (se_reservation s)
      then session_error ''reservation binding mismatch'' else Inr ())"

definition CancelPreparedState ::
    "SessionEnv \<Rightarrow> SessionState \<Rightarrow> Session \<Rightarrow> NativeInstallRecoveryResultV1 result \<times> Session" where
  "CancelPreparedState env expected s =
     (case RequireState expected s of
        Inl e \<Rightarrow> (Inl e, s)
      | Inr _ \<Rightarrow>
          (let s = log_event (Ev_CancelPrepared (returned (en_cancel env))) s in
           case en_cancel env of
             Inl e \<Rightarrow> (Inl e, s\<lparr>se_state := ss_kRecoveryRequired\<rparr>)
           | Inr _ \<Rightarrow>
               (Inr \<lparr>rr_protocol_version = 1, rr_transaction_id = rv_transaction_id (se_reservation s),
                     rr_result_code = ''rolledBack'', rr_verified_outcome = ''oldTarget'',
                     rr_journal_sha256 = rv_journal_sha256 (se_reservation s)\<rparr>,
                s\<lparr>se_state := ss_kCancelled\<rparr>)))"

definition AcceptCommit ::
    "SessionEnv \<Rightarrow> string \<Rightarrow> Session \<Rightarrow> NativeInstallReservationV1 result \<times> Session" where
  "AcceptCommit env canonical_command s =
     (case bindE (RequireState ss_kPrepared s) (\<lambda>_.
           bindE (ParseNativeInstallWireCommandV1 canonical_command) (\<lambda>command.
           bindE (RequireBinding command ''commitAfterExit'' s) (\<lambda>_. en_now env))) of
        Inl e \<Rightarrow> (Inl e, s)
      | Inr now \<Rightarrow>
          if now > rv_expires_at_unix_milliseconds (se_reservation s) then
            (case CancelPreparedState env ss_kPrepared s of
               (Inl e, s) \<Rightarrow> (Inl e, s)
             | (Inr _, s) \<Rightarrow> (session_error ''reservation expired before commit'', s))
          else
            (let s = log_event (Ev_MarkCommitAccepted (returned (en_mark env))) s in
             case en_mark env of
               Inl e \<Rightarrow> (Inl e, s)
             | Inr _ \<Rightarrow> (Inr (se_reservation s), s\<lparr>se_state := ss_kCommitAccepted\<rparr>)))"

definition ExecuteAfterCallerExit ::
    "SessionEnv \<Rightarrow> Session \<Rightarrow> NativeInstallTransactionStatusV1 result \<times> Session" where
  "ExecuteAfterCallerExit env s =
     (case RequireState ss_kCommitAccepted s of
        Inl e \<Rightarrow> (Inl e, s)
      | Inr _ \<Rightarrow>
          (let s = log_event (Ev_ExecuteAfterCallerExit (returned (en_execute env))) s in
           case en_execute env of
             Inl e \<Rightarrow> (Inl e, s\<lparr>se_state := ss_kRecoveryRequired\<rparr>)
           | Inr _ \<Rightarrow>
               (Inr \<lparr>ts_protocol_version = 1, ts_transaction_id = rv_transaction_id (se_reservation s),
                     ts_state = ''completed'', ts_result_code = ''completed'',
                     ts_journal_sha256 = rv_journal_sha256 (se_reservation s)\<rparr>,
                s\<lparr>se_state := ss_kCompleted\<rparr>)))"

definition Cancel ::
    "SessionEnv \<Rightarrow> string \<Rightarrow> Session \<Rightarrow> NativeInstallRecoveryResultV1 result \<times> Session" where
  "Cancel env canonical_command s =
     (case bindE (RequireState ss_kPrepared s) (\<lambda>_.
           bindE (ParseNativeInstallWireCommandV1 canonical_command) (\<lambda>command.
           RequireBinding command ''cancelReservation'' s)) of
        Inl e \<Rightarrow> (Inl e, s)
      | Inr _ \<Rightarrow> CancelPreparedState env ss_kPrepared s)"

definition CancelBeforeCommitOnCallerExit ::
    "SessionEnv \<Rightarrow> Session \<Rightarrow> NativeInstallRecoveryResultV1 result \<times> Session" where
  "CancelBeforeCommitOnCallerExit env s = CancelPreparedState env ss_kPrepared s"

definition CancelCommitAwaitingCallerExit ::
    "SessionEnv \<Rightarrow> Session \<Rightarrow> NativeInstallRecoveryResultV1 result \<times> Session" where
  "CancelCommitAwaitingCallerExit env s = CancelPreparedState env ss_kCommitAccepted s"

section \<open>Runs\<close>

text \<open>Any sequence of calls, each with its own answers from the environment.\<close>

datatype session_call = Call_Prepare SessionEnv string | Call_AcceptCommit SessionEnv string
  | Call_Execute SessionEnv | Call_Cancel SessionEnv string | Call_CancelBeforeCommit SessionEnv
  | Call_CancelCommit SessionEnv

fun apply_call :: "session_call \<Rightarrow> Session \<Rightarrow> Session" where
  "apply_call (Call_Prepare env t) s = snd (Prepare env t s)"
| "apply_call (Call_AcceptCommit env t) s = snd (AcceptCommit env t s)"
| "apply_call (Call_Execute env) s = snd (ExecuteAfterCallerExit env s)"
| "apply_call (Call_Cancel env t) s = snd (Cancel env t s)"
| "apply_call (Call_CancelBeforeCommit env) s = snd (CancelBeforeCommitOnCallerExit env s)"
| "apply_call (Call_CancelCommit env) s = snd (CancelCommitAwaitingCallerExit env s)"

inductive session_reachable :: "Session \<Rightarrow> bool" where
  created: "NewSession True lifetime = Inr s \<Longrightarrow> session_reachable s"
| called: "session_reachable s \<Longrightarrow> session_reachable (apply_call c s)"

section \<open>The protocol with the transaction\<close>

text \<open>
  What the log is in each state. A commit mark may fail any number of times before it succeeds or the
  session is cancelled.
\<close>

definition marked :: "nat \<Rightarrow> bool \<Rightarrow> transaction_event list" where
  "marked n accepted = Ev_PrepareDurableJournal True # replicate n (Ev_MarkCommitAccepted False)
     @ (if accepted then [Ev_MarkCommitAccepted True] else [])"

definition session_inv :: "Session \<Rightarrow> bool" where
  "session_inv s \<longleftrightarrow> (case se_state s of
       ss_kInitial \<Rightarrow> se_log s = [] \<and> \<not> se_transaction s
     | ss_kPrepared \<Rightarrow> se_transaction s \<and> (\<exists>n. se_log s = marked n False)
     | ss_kCommitAccepted \<Rightarrow> se_transaction s \<and> (\<exists>n. se_log s = marked n True)
     | ss_kCompleted \<Rightarrow> \<exists>n. se_log s = marked n True @ [Ev_ExecuteAfterCallerExit True]
     | ss_kCancelled \<Rightarrow> se_log s = [] \<or> (\<exists>n a. se_log s = marked n a @ [Ev_CancelPrepared True])
     | ss_kRecoveryRequired \<Rightarrow> se_log s = [] \<or> se_log s = [Ev_PrepareDurableJournal False] \<or>
         (\<exists>n. se_log s = marked n True @ [Ev_ExecuteAfterCallerExit False]) \<or>
         (\<exists>n a. se_log s = marked n a @ [Ev_CancelPrepared False])
     | _ \<Rightarrow> False)"

lemma marked_Suc: "marked n False @ [Ev_MarkCommitAccepted False] = marked (Suc n) False"
  by (simp add: marked_def replicate_append_same)

lemma marked_accept: "marked n False @ [Ev_MarkCommitAccepted True] = marked n True"
  by (simp add: marked_def)

lemma marked_0: "[Ev_PrepareDurableJournal True] = marked 0 False"
  by (simp add: marked_def)

lemma CancelPreparedState_inv:
  assumes "session_inv s" and "expected = ss_kPrepared \<or> expected = ss_kCommitAccepted"
  shows "session_inv (snd (CancelPreparedState env expected s))"
proof (cases "se_state s = expected")
  case True
  then have "\<exists>n a. se_log s = marked n a" using assms by (auto simp: session_inv_def) blast+
  with True show ?thesis
    by (cases "en_cancel env") (auto simp: CancelPreparedState_def RequireState_def Let_def log_event_def
        session_inv_def returned_def)
next
  case False
  with assms(1) show ?thesis by (simp add: CancelPreparedState_def RequireState_def session_error_def)
qed

lemma Prepare_inv:
  assumes "session_inv s"
  shows "session_inv (snd (Prepare env t s))"
proof (cases "se_state s = ss_kInitial")
  case False
  with assms show ?thesis by (simp add: Prepare_def RequireState_def session_error_def)
next
  case True
  then have s: "se_log s = []" "\<not> se_transaction s" using assms by (simp_all add: session_inv_def)
  obtain r s' where journal: "PrepareJournal env t (s\<lparr>se_state := ss_kPreparing\<rparr>) = (r, s')" by fastforce
  have "(case r of Inl _ \<Rightarrow> se_log s' = [] \<or> se_log s' = [Ev_PrepareDurableJournal False] \<and> se_transaction s'
      | Inr _ \<Rightarrow> se_log s' = marked 0 False \<and> se_transaction s')"
    using journal s
    by (cases "en_prepare env")
      (auto simp: PrepareJournal_def log_event_def returned_def session_error_def Let_def marked_def
        split: sum.splits if_splits)
  with True journal show ?thesis
    by (cases r) (auto simp: Prepare_def RequireState_def log_event_def session_inv_def Let_def
        split: sum.splits prod.splits)
qed

lemma AcceptCommit_inv:
  assumes "session_inv s"
  shows "session_inv (snd (AcceptCommit env t s))"
proof (cases "bindE (RequireState ss_kPrepared s) (\<lambda>_.
           bindE (ParseNativeInstallWireCommandV1 t) (\<lambda>command.
           bindE (RequireBinding command ''commitAfterExit'' s) (\<lambda>_. en_now env)))")
  case (Inl e)
  with assms show ?thesis by (simp add: AcceptCommit_def)
next
  case (Inr now)
  then have "se_state s = ss_kPrepared"
    by (auto simp: RequireState_def session_error_def bindE_Inr_iff split: if_splits)
  with assms obtain n where s: "se_state s = ss_kPrepared" "se_log s = marked n False" "se_transaction s"
    by (auto simp: session_inv_def)
  show ?thesis
  proof (cases "now > rv_expires_at_unix_milliseconds (se_reservation s)")
    case True
    with Inr CancelPreparedState_inv [OF assms, of ss_kPrepared env] show ?thesis
      by (auto simp: AcceptCommit_def split: prod.splits sum.splits)
  next
    case False
    with Inr s show ?thesis
      by (cases "en_mark env") (auto simp: AcceptCommit_def log_event_def returned_def session_inv_def
          marked_Suc marked_accept Let_def)
  qed
qed

lemma ExecuteAfterCallerExit_inv:
  assumes "session_inv s"
  shows "session_inv (snd (ExecuteAfterCallerExit env s))"
proof (cases "se_state s = ss_kCommitAccepted")
  case True
  then obtain n where "se_log s = marked n True" using assms by (auto simp: session_inv_def)
  with True show ?thesis
    by (cases "en_execute env") (auto simp: ExecuteAfterCallerExit_def RequireState_def
        log_event_def returned_def session_inv_def Let_def)
next
  case False
  with assms show ?thesis by (simp add: ExecuteAfterCallerExit_def RequireState_def session_error_def)
qed

lemma apply_call_inv: "session_inv s \<Longrightarrow> session_inv (apply_call c s)"
  by (cases c) (auto simp: Prepare_inv AcceptCommit_inv ExecuteAfterCallerExit_inv CancelPreparedState_inv
      Cancel_def CancelBeforeCommitOnCallerExit_def CancelCommitAwaitingCallerExit_def split: sum.split)

lemma session_reachable_inv: "session_reachable s \<Longrightarrow> session_inv s"
proof (induction rule: session_reachable.induct)
  case (created lifetime s)
  then show ?case by (auto simp: NewSession_def session_inv_def session_error_def split: if_splits)
qed (rule apply_call_inv)

text \<open>The one command that commits a reservation.\<close>

definition commit_command :: "NativeInstallReservationV1 \<Rightarrow> NativeInstallWireCommandV1" where
  "commit_command r = \<lparr>cm_operation = ''commitAfterExit'',
     cm_protocol_version = rv_protocol_version r, cm_transaction_id = rv_transaction_id r,
     cm_ready_token = rv_ready_token r, cm_journal_sha256 = rv_journal_sha256 r,
     cm_helper_endpoint_identity_sha256 = rv_helper_endpoint_identity_sha256 r\<rparr>"

lemma RequireBinding_commit:
  "RequireBinding command ''commitAfterExit'' s = Inr () \<longleftrightarrow> command = commit_command (se_reservation s)"
  by (cases command) (auto simp: RequireBinding_def session_error_def commit_command_def)

lemma AcceptCommit_accepted:
  assumes "AcceptCommit env t s = (Inr r, s')"
  shows "se_state s = ss_kPrepared" and "r = se_reservation s"
    and "s' = s\<lparr>se_state := ss_kCommitAccepted, se_log := se_log s @ [Ev_MarkCommitAccepted True]\<rparr>"
    and "\<exists>now. en_now env = Inr now \<and> now \<le> rv_expires_at_unix_milliseconds r"
    and "ParseNativeInstallWireCommandV1 t = Inr (commit_command r)"
  using assms
  by (auto simp: AcceptCommit_def RequireState_def session_error_def log_event_def Let_def bindE_Inr_iff
      RequireBinding_commit returned_def split: sum.splits if_splits prod.splits)

section \<open>A concrete run\<close>

definition sample_env :: SessionEnv where
  "sample_env = \<lparr>en_authorize = (\<lambda>r. Inr (Some (rq_transaction_id r))), en_prepare = Inr ''journal'',
     en_mark = Inr (), en_execute = Inr (), en_cancel = Inr (),
     en_endpoint_identity = replicate 64 CHR ''a'', en_ready_token = Inr (replicate 43 CHR ''t''),
     en_sha256 = (\<lambda>_. Inr (replicate 64 CHR ''a'')), en_now = Inr 5\<rparr>"

definition sample_reservation :: NativeInstallReservationV1 where
  "sample_reservation = \<lparr>rv_protocol_version = 1, rv_transaction_id = sample_uuid,
     rv_ready_token = replicate 43 CHR ''t'', rv_journal_sha256 = replicate 64 CHR ''a'',
     rv_helper_endpoint_identity_sha256 = replicate 64 CHR ''a'', rv_expires_at_unix_milliseconds = 1005\<rparr>"

definition sample_commit :: NativeInstallWireCommandV1 where
  "sample_commit = \<lparr>cm_operation = ''commitAfterExit'', cm_protocol_version = 1,
     cm_transaction_id = sample_uuid, cm_ready_token = replicate 43 CHR ''t'',
     cm_journal_sha256 = replicate 64 CHR ''a'', cm_helper_endpoint_identity_sha256 = replicate 64 CHR ''a''\<rparr>"

definition sample_session :: Session where
  "sample_session = \<lparr>se_state = ss_kInitial, se_transaction = False, se_reservation = no_reservation,
     se_lifetime = 1000, se_log = []\<rparr>"

definition prepared_session :: Session where
  "prepared_session = \<lparr>se_state = ss_kPrepared, se_transaction = True, se_reservation = sample_reservation,
     se_lifetime = 1000, se_log = [Ev_PrepareDurableJournal True]\<rparr>"

definition committed_session :: Session where
  "committed_session = prepared_session\<lparr>se_state := ss_kCommitAccepted,
     se_log := [Ev_PrepareDurableJournal True, Ev_MarkCommitAccepted True]\<rparr>"

lemma sample_reservation_encodes: "\<exists>t. EncodeNativeInstallReservationV1 sample_reservation = Inr t"
  by (simp add: EncodeNativeInstallReservationV1_def ValidateReservation_def sample_reservation_def
      ValidateProtocolAndTransaction_def sample_uuid_valid sample_digest_valid)

lemma sample_commit_parses: "\<exists>t. ParseNativeInstallWireCommandV1 t = Inr sample_commit"
proof -
  have "\<exists>t. EncodeNativeInstallWireCommandV1 sample_commit = Inr t"
    by (simp add: EncodeNativeInstallWireCommandV1_def ValidateCommand_def sample_commit_def
        ValidateProtocolAndTransaction_def sample_uuid_valid sample_digest_valid)
  then show ?thesis by (simp add: command.parse_iff) (simp add: sample_commit_def)
qed

lemma sample_prepare:
  assumes "ParseNativeInstallTransactionRequestV1 t = Inr sample_request"
  shows "Prepare sample_env t sample_session = (Inr sample_reservation, prepared_session)"
proof -
  obtain e where e: "EncodeNativeInstallReservationV1 sample_reservation = Inr e"
    using sample_reservation_encodes by blast
  have "rq_transaction_id sample_request = sample_uuid" by (simp add: sample_request_def)
  then have "MakeReservation sample_env 1000 sample_request ''journal'' = Inr sample_reservation"
    by (simp add: MakeReservation_def sample_env_def sample_reservation_def int64_defs)
  with assms e show ?thesis
    by (simp add: Prepare_def RequireState_def sample_session_def PrepareJournal_def
        prepared_session_def log_event_def returned_def Let_def sample_env_def)
qed

lemma sample_accept:
  assumes "ParseNativeInstallWireCommandV1 t = Inr sample_commit"
  shows "AcceptCommit sample_env t prepared_session = (Inr sample_reservation, committed_session)"
  using assms
  by (simp add: AcceptCommit_def RequireState_def RequireBinding_def prepared_session_def
      committed_session_def sample_reservation_def sample_commit_def sample_env_def log_event_def
      returned_def Let_def)

lemma sample_session_reachable: "session_reachable committed_session"
proof -
  obtain t c where t: "ParseNativeInstallTransactionRequestV1 t = Inr sample_request"
    and c: "ParseNativeInstallWireCommandV1 c = Inr sample_commit"
    using sample_request_parses sample_commit_parses by blast
  have "NewSession True 1000 = Inr sample_session" by (simp add: NewSession_def sample_session_def)
  then have "session_reachable sample_session" by (rule session_reachable.created)
  from session_reachable.called [OF this, of "Call_Prepare sample_env t"]
  have "session_reachable prepared_session" by (simp add: sample_prepare [OF t])
  from session_reachable.called [OF this, of "Call_AcceptCommit sample_env c"]
  show ?thesis by (simp add: sample_accept [OF c])
qed

section \<open>Properties\<close>

text \<open>
  C9. The helper executes a transaction only after a durable journal and an accepted commit, once, and
  never a cancelled one: in every run, whatever the environment answers, an execution in the log is
  its last event, and the log before it is a durable journal, commit marks that failed, and one that
  succeeded.
\<close>

theorem execute_only_after_commit:
  assumes "session_reachable s" and "Ev_ExecuteAfterCallerExit done_flag \<in> set (se_log s)"
  shows "\<exists>n. se_log s = Ev_PrepareDurableJournal True # replicate n (Ev_MarkCommitAccepted False)
     @ [Ev_MarkCommitAccepted True, Ev_ExecuteAfterCallerExit done_flag]"
  using session_reachable_inv [OF assms(1)] assms(2)
  by (auto simp: session_inv_def marked_def split: SessionState.splits if_splits)

theorem execute_only_after_commit_witness:
  "session_reachable (snd (ExecuteAfterCallerExit sample_env committed_session)) \<and>
     (\<exists>n. se_log (snd (ExecuteAfterCallerExit sample_env committed_session)) =
       Ev_PrepareDurableJournal True # replicate n (Ev_MarkCommitAccepted False)
       @ [Ev_MarkCommitAccepted True, Ev_ExecuteAfterCallerExit True])"
proof -
  let ?s = "snd (ExecuteAfterCallerExit sample_env committed_session)"
  have reach: "session_reachable ?s"
    using session_reachable.called [OF sample_session_reachable, of "Call_Execute sample_env"] by simp
  moreover have "Ev_ExecuteAfterCallerExit True \<in> set (se_log ?s)"
    by (simp add: ExecuteAfterCallerExit_def RequireState_def committed_session_def sample_env_def
        log_event_def returned_def Let_def)
  ultimately show ?thesis using execute_only_after_commit by blast
qed

text \<open>
  C27. No prepared transaction is left behind: when a session object is destroyed and its transaction
  had a durable journal, the last thing that was done to the transaction is an execution or a
  cancellation, and it is the only one.
\<close>

theorem journal_always_settled:
  assumes "session_reachable s" and "Ev_PrepareDurableJournal True \<in> set (se_log s)"
  shows "\<exists>before b e. se_log (DestroySession env s) = before @ [e] \<and>
    e \<in> {Ev_ExecuteAfterCallerExit b, Ev_CancelPrepared b} \<and>
    (\<forall>c. Ev_ExecuteAfterCallerExit c \<notin> set before \<and> Ev_CancelPrepared c \<notin> set before)"
proof -
  have marks: "Ev_ExecuteAfterCallerExit c \<notin> set (marked n a) \<and> Ev_CancelPrepared c \<notin> set (marked n a)" for c n a
    by (simp add: marked_def)
  have "\<exists>n a b e. se_log (DestroySession env s) = marked n a @ [e] \<and>
      e \<in> {Ev_ExecuteAfterCallerExit b, Ev_CancelPrepared b}"
    using session_reachable_inv [OF assms(1)] assms(2)
    by (cases "se_state s") (auto simp: session_inv_def DestroySession_def log_event_def)
  with marks show ?thesis by blast
qed

theorem journal_always_settled_witness:
  "\<exists>before b e. se_log (DestroySession sample_env committed_session) = before @ [e] \<and>
     e \<in> {Ev_ExecuteAfterCallerExit b, Ev_CancelPrepared b}"
proof -
  have "Ev_PrepareDurableJournal True \<in> set (se_log committed_session)"
    by (simp add: committed_session_def)
  from journal_always_settled [OF sample_session_reachable this] show ?thesis by blast
qed

text \<open>
  C28. Only the holder of the reservation can commit, and only in time: a commit that is accepted is the
  one canonical text of the command that repeats the reservation's transaction, ready token, journal
  digest and endpoint identity, it was read not after the expiry, and the session was prepared.
\<close>

theorem commit_requires_reservation:
  assumes "AcceptCommit env t s = (Inr r, s')"
  shows "se_state s = ss_kPrepared \<and> se_state s' = ss_kCommitAccepted \<and> r = se_reservation s \<and>
    (\<exists>now. en_now env = Inr now \<and> now \<le> rv_expires_at_unix_milliseconds r) \<and>
    EncodeNativeInstallWireCommandV1 (commit_command r) = Inr t"
  using AcceptCommit_accepted [OF assms] by (simp add: command.parse_iff)

theorem commit_requires_reservation_witness:
  "\<exists>t. AcceptCommit sample_env t prepared_session = (Inr sample_reservation, committed_session) \<and>
     EncodeNativeInstallWireCommandV1 sample_commit = Inr t"
proof -
  obtain t where t: "ParseNativeInstallWireCommandV1 t = Inr sample_commit"
    using sample_commit_parses by blast
  from commit_requires_reservation [OF sample_accept [OF t]] sample_accept [OF t] show ?thesis
    by (auto simp: sample_commit_def sample_reservation_def commit_command_def)
qed

end
