(* ===== verification/Service_Runtime.thy ===== *)
theory Service_Runtime
  imports Install_Session
begin

text \<open>
  The one-shot service of the install helper, \<^verbatim>\<open>native_install_service_runtime.{h,cc}\<close>: it drives one
  session over a channel to the application. The channel and the monitor of the caller's exit are
  interfaces; a run takes the answers they give, and any of them may throw.
\<close>

section \<open>State of a run\<close>

datatype Phase = ph_kInitial | ph_kPrepared | ph_kCommitAccepted | ph_kExecuting | ph_kFinished

text \<open>
  What a run does to the outside: frames written, waits for the caller's exit, each with whether the
  call returned, and the calls on the transaction.
\<close>

datatype runtime_event = Rt_Write string bool | Rt_Wait bool | Rt_Transaction transaction_event

record RunEnv =
  rn_ReadFrame :: "string result"
  rn_Create :: "NativeInstallCallerV1 \<Rightarrow> bool result"
  rn_prepare :: SessionEnv
  rn_WriteReservation :: "unit result"
  rn_ReadFrameUntil :: "int \<Rightarrow> string result"
  rn_command :: SessionEnv
  rn_WriteReply :: "unit result"
  rn_WaitForExit :: "int \<Rightarrow> unit result"
  rn_execute :: SessionEnv
  rn_rollback :: SessionEnv

record Runtime =
  rt_session :: Session
  rt_phase :: Phase
  rt_trace :: "runtime_event list"

section \<open>Statements\<close>

text \<open>Statements that may throw, over the state of the run, in sequence.\<close>

type_synonym 'a statement = "Runtime \<Rightarrow> 'a result \<times> Runtime"

definition andThen :: "'a statement \<Rightarrow> ('a \<Rightarrow> 'b statement) \<Rightarrow> 'b statement" where
  "andThen m f r = (case m r of (Inl e, r) \<Rightarrow> (Inl e, r) | (Inr x, r) \<Rightarrow> f x r)"

definition value_of :: "'a result \<Rightarrow> 'a statement" where
  "value_of x r = (x, r)"

definition set_phase :: "Phase \<Rightarrow> unit statement" where
  "set_phase p r = (Inr (), r\<lparr>rt_phase := p\<rparr>)"

definition record_event :: "runtime_event \<Rightarrow> Runtime \<Rightarrow> Runtime" where
  "record_event e r = r\<lparr>rt_trace := rt_trace r @ [e]\<rparr>"

definition WriteFrame :: "unit result \<Rightarrow> string \<Rightarrow> unit statement" where
  "WriteFrame answer frame r = (answer, record_event (Rt_Write frame (returned answer)) r)"

definition WaitForExit :: "unit result \<Rightarrow> unit statement" where
  "WaitForExit answer r = (answer, record_event (Rt_Wait (returned answer)) r)"

text \<open>A call of the session; the calls it made on the transaction enter the trace.\<close>

definition on_session :: "(Session \<Rightarrow> 'a result \<times> Session) \<Rightarrow> 'a statement" where
  "on_session f r =
     (case f (rt_session r) of (x, s) \<Rightarrow>
        (x, r\<lparr>rt_session := s,
              rt_trace := rt_trace r @ map Rt_Transaction (drop (length (se_log (rt_session r))) (se_log s))\<rparr>))"

section \<open>The run\<close>

definition CommitBranch :: "RunEnv \<Rightarrow> NativeInstallReservationV1 \<Rightarrow> string \<Rightarrow> unit statement" where
  "CommitBranch env reservation canonical_command =
     andThen (on_session (AcceptCommit (rn_command env) canonical_command)) (\<lambda>acknowledged.
     andThen (set_phase ph_kCommitAccepted) (\<lambda>_.
     andThen (value_of (EncodeNativeInstallReservationV1 acknowledged)) (\<lambda>frame.
     andThen (WriteFrame (rn_WriteReply env) frame) (\<lambda>_.
     andThen (WaitForExit (rn_WaitForExit env (rv_expires_at_unix_milliseconds reservation))) (\<lambda>_.
     andThen (set_phase ph_kExecuting) (\<lambda>_.
     andThen (on_session (ExecuteAfterCallerExit (rn_execute env))) (\<lambda>_.
     set_phase ph_kFinished)))))))"

definition CancelBranch :: "RunEnv \<Rightarrow> string \<Rightarrow> unit statement" where
  "CancelBranch env canonical_command =
     andThen (on_session (Cancel (rn_command env) canonical_command)) (\<lambda>result.
     andThen (set_phase ph_kFinished) (\<lambda>_.
     andThen (value_of (EncodeNativeInstallRecoveryResultV1 result)) (\<lambda>frame.
     WriteFrame (rn_WriteReply env) frame)))"

text \<open>The \<^verbatim>\<open>try\<close> block.\<close>

definition ServeReservation :: "RunEnv \<Rightarrow> NativeInstallReservationV1 \<Rightarrow> unit statement" where
  "ServeReservation env reservation =
     andThen (value_of (EncodeNativeInstallReservationV1 reservation)) (\<lambda>frame.
     andThen (WriteFrame (rn_WriteReservation env) frame) (\<lambda>_.
     andThen (value_of (rn_ReadFrameUntil env (rv_expires_at_unix_milliseconds reservation))) (\<lambda>canonical_command.
     andThen (value_of (ParseNativeInstallWireCommandV1 canonical_command)) (\<lambda>command.
       if cm_operation command = ''commitAfterExit'' then CommitBranch env reservation canonical_command
       else if cm_operation command = ''cancelReservation'' then CancelBranch env canonical_command
       else value_of (Inl (NativeInstallWireError ''unsupportedOperation''))))))"

text \<open>The \<^verbatim>\<open>catch (...)\<close> handler; what the cancellation itself throws is dropped.\<close>

definition RollBack :: "RunEnv \<Rightarrow> Runtime \<Rightarrow> Runtime" where
  "RollBack env r =
     (if rt_phase r = ph_kPrepared
      then snd (on_session (CancelBeforeCommitOnCallerExit (rn_rollback env)) r)
      else if rt_phase r = ph_kCommitAccepted
      then snd (on_session (CancelCommitAwaitingCallerExit (rn_rollback env)) r)
      else r)"

definition RunWithInitialRequest :: "RunEnv \<Rightarrow> string \<Rightarrow> Session \<Rightarrow> unit result \<times> Runtime" where
  "RunWithInitialRequest env canonical_request s =
     (let r = \<lparr>rt_session = s, rt_phase = ph_kInitial, rt_trace = []\<rparr> in
      case bindE (ParseNativeInstallTransactionRequestV1 canonical_request) (\<lambda>request.
           bindE (rn_Create env (rq_caller request)) (\<lambda>created.
             if \<not> created then session_error ''caller exit monitor is unavailable'' else Inr ())) of
        Inl e \<Rightarrow> (Inl e, r)
      | Inr _ \<Rightarrow>
          (case on_session (Prepare (rn_prepare env) canonical_request) r of
             (Inl e, r) \<Rightarrow> (Inl e, r)
           | (Inr reservation, r) \<Rightarrow>
               (case ServeReservation env reservation (r\<lparr>rt_phase := ph_kPrepared\<rparr>) of
                  (Inl e, r) \<Rightarrow> (Inl e, RollBack env r)
                | (Inr _, r) \<Rightarrow> (Inr (), r))))"

definition Run :: "RunEnv \<Rightarrow> Session \<Rightarrow> unit result \<times> Runtime" where
  "Run env s =
     (case rn_ReadFrame env of
        Inl e \<Rightarrow> (Inl e, \<lparr>rt_session = s, rt_phase = ph_kInitial, rt_trace = []\<rparr>)
      | Inr canonical_request \<Rightarrow> RunWithInitialRequest env canonical_request s)"

section \<open>What the calls of the session do\<close>

text \<open>The calls on the transaction between two states of a session, when none of them executes.\<close>

definition quiet_since :: "Session \<Rightarrow> Session \<Rightarrow> bool" where
  "quiet_since s s' \<longleftrightarrow> (\<exists>new. se_log s' = se_log s @ new \<and> (\<forall>b. Ev_ExecuteAfterCallerExit b \<notin> set new))"

lemma quiet_since_simps [simp]:
  "se_log s' = se_log s \<Longrightarrow> quiet_since s s'"
  "se_log s' = se_log s @ [Ev_CancelPrepared b] \<Longrightarrow> quiet_since s s'"
  "se_log s' = se_log s @ [Ev_MarkCommitAccepted b] \<Longrightarrow> quiet_since s s'"
  "se_log s' = se_log s @ [Ev_PrepareDurableJournal b] \<Longrightarrow> quiet_since s s'"
  "se_log s' = se_log s @ [Ev_PrepareDurableJournal b, Ev_CancelPrepared c] \<Longrightarrow> quiet_since s s'"
  by (auto simp: quiet_since_def)

lemma CancelPreparedState_settles:
  assumes "CancelPreparedState env expected s = (x, s')" and "se_state s = expected"
  shows "se_state s' \<in> {ss_kCancelled, ss_kRecoveryRequired} \<and> quiet_since s s' \<and>
    (\<forall>v. x = Inr v \<longrightarrow> se_state s' = ss_kCancelled)"
  using assms
  by (auto simp: CancelPreparedState_def RequireState_def Let_def log_event_def split: sum.splits)

lemma Prepare_outcome:
  assumes "Prepare env t s = (x, s')" and "se_state s = ss_kInitial" and "se_log s = []"
  shows "case x of
      Inl e \<Rightarrow> se_state s' \<in> {ss_kCancelled, ss_kRecoveryRequired} \<and> quiet_since s s'
    | Inr v \<Rightarrow> se_state s' = ss_kPrepared \<and> se_reservation s' = v \<and>
        se_log s' = [Ev_PrepareDurableJournal True] \<and> (\<exists>frame. EncodeNativeInstallReservationV1 v = Inr frame)"
proof -
  let ?s = "s\<lparr>se_state := ss_kPreparing\<rparr>"
  obtain j s1 where journal: "PrepareJournal env t ?s = (j, s1)" by fastforce
  have log: "case j of Inl _ \<Rightarrow> se_log s1 = [] \<or> se_log s1 = [Ev_PrepareDurableJournal False]
      | Inr _ \<Rightarrow> se_log s1 = [Ev_PrepareDurableJournal True]"
    using journal assms(3)
    by (cases "en_prepare env") (auto simp: PrepareJournal_def Let_def log_event_def returned_def
        session_error_def split: sum.splits if_splits)
  show ?thesis
    using assms journal log
    by (cases j) (auto simp: Prepare_def RequireState_def Let_def log_event_def quiet_since_def
        split: sum.splits prod.splits if_splits)
qed

lemma AcceptCommit_refused:
  assumes "AcceptCommit env t s = (Inl e, s')" and "se_state s = ss_kPrepared"
  shows "se_state s' \<in> {ss_kPrepared, ss_kCancelled, ss_kRecoveryRequired} \<and> quiet_since s s'"
proof -
  have "CancelPreparedState env ss_kPrepared s = (x, s1) \<Longrightarrow>
      se_state s1 \<in> {ss_kCancelled, ss_kRecoveryRequired} \<and> quiet_since s s1" for x s1
    using CancelPreparedState_settles assms(2) by blast
  with assms show ?thesis
    by (auto simp: AcceptCommit_def Let_def log_event_def split: sum.splits if_splits prod.splits)
qed

lemma ExecuteAfterCallerExit_outcome:
  assumes "ExecuteAfterCallerExit env s = (x, s')" and "se_state s = ss_kCommitAccepted"
  shows "se_log s' = se_log s @ [Ev_ExecuteAfterCallerExit (returned x)] \<and>
    se_state s' = (if returned x then ss_kCompleted else ss_kRecoveryRequired)"
  using assms
  by (auto simp: ExecuteAfterCallerExit_def RequireState_def Let_def log_event_def returned_def
      split: sum.splits)

lemma Cancel_outcome:
  assumes "Cancel env t s = (x, s')" and "se_state s = ss_kPrepared"
  shows "se_state s' \<in> {ss_kPrepared, ss_kCancelled, ss_kRecoveryRequired} \<and> quiet_since s s' \<and>
    (\<forall>v. x = Inr v \<longrightarrow> se_state s' = ss_kCancelled)"
  using assms CancelPreparedState_settles [OF _ assms(2), of _ x s']
  by (auto simp: Cancel_def split: sum.splits)

section \<open>Triples for statements\<close>

text \<open>From a state with \<open>P\<close>, a statement returns with \<open>Q\<close> or throws with \<open>E\<close>.\<close>

definition triple ::
    "(Runtime \<Rightarrow> bool) \<Rightarrow> 'a statement \<Rightarrow> ('a \<Rightarrow> Runtime \<Rightarrow> bool) \<Rightarrow> (Runtime \<Rightarrow> bool) \<Rightarrow> bool" where
  "triple P m Q E \<longleftrightarrow>
     (\<forall>r x r'. P r \<longrightarrow> m r = (x, r') \<longrightarrow> (case x of Inl _ \<Rightarrow> E r' | Inr v \<Rightarrow> Q v r'))"

lemma tripleI:
  assumes "\<And>r x r'. P r \<Longrightarrow> m r = (x, r') \<Longrightarrow> case x of Inl _ \<Rightarrow> E r' | Inr v \<Rightarrow> Q v r'"
  shows "triple P m Q E"
  using assms by (simp add: triple_def)

lemma tripleD:
  "triple P m Q E \<Longrightarrow> P r \<Longrightarrow> m r = (x, r') \<Longrightarrow> case x of Inl _ \<Rightarrow> E r' | Inr v \<Rightarrow> Q v r'"
  by (auto simp: triple_def)

lemma triple_andThen:
  assumes "triple P m Q E" and "\<And>x. triple (Q x) (f x) S E"
  shows "triple P (andThen m f) S E"
proof (rule tripleI)
  fix r x r' assume "P r" "andThen m f r = (x, r')"
  obtain y r1 where m: "m r = (y, r1)" by fastforce
  from tripleD [OF assms(1) \<open>P r\<close> m] tripleD [OF assms(2)] \<open>andThen m f r = (x, r')\<close> m
  show "case x of Inl _ \<Rightarrow> E r' | Inr v \<Rightarrow> S v r'"
    by (cases y) (auto simp: andThen_def)
qed

lemma triple_value_of:
  "(\<And>r. P r \<Longrightarrow> case v of Inl _ \<Rightarrow> E r | Inr y \<Rightarrow> Q y r) \<Longrightarrow> triple P (value_of v) Q E"
  by (auto simp: triple_def value_of_def)

section \<open>The run, statement by statement\<close>

text \<open>
  The trace of a run that came as far as the execution, and the two shapes a state can have when a
  statement throws: \<open>unexecuted\<close> before, with a session that the handler can still settle, and the
  full trace after a failed execution.
\<close>

definition full_trace :: "string \<Rightarrow> bool \<Rightarrow> runtime_event list" where
  "full_trace frame b =
     [Rt_Transaction (Ev_PrepareDurableJournal True), Rt_Write frame True,
      Rt_Transaction (Ev_MarkCommitAccepted True), Rt_Write frame True, Rt_Wait True,
      Rt_Transaction (Ev_ExecuteAfterCallerExit b)]"

definition unexecuted :: "Runtime \<Rightarrow> bool" where
  "unexecuted r \<longleftrightarrow> (\<forall>b. Rt_Transaction (Ev_ExecuteAfterCallerExit b) \<notin> set (rt_trace r))"

definition recoverable :: "Runtime \<Rightarrow> bool" where
  "recoverable r \<longleftrightarrow>
     (case rt_phase r of
        ph_kPrepared \<Rightarrow> se_state (rt_session r) \<in> {ss_kPrepared, ss_kCancelled, ss_kRecoveryRequired}
      | ph_kCommitAccepted \<Rightarrow> se_state (rt_session r) = ss_kCommitAccepted
      | ph_kFinished \<Rightarrow> se_state (rt_session r) = ss_kCancelled
      | _ \<Rightarrow> False)"

definition run_failed :: "string \<Rightarrow> bool \<Rightarrow> Runtime \<Rightarrow> bool" where
  "run_failed frame committed r \<longleftrightarrow>
     unexecuted r \<and> recoverable r \<or>
     committed \<and> rt_phase r = ph_kExecuting \<and> rt_trace r = full_trace frame False \<and>
     se_state (rt_session r) = ss_kRecoveryRequired"

definition run_finished :: "string \<Rightarrow> bool \<Rightarrow> Runtime \<Rightarrow> bool" where
  "run_finished frame committed r \<longleftrightarrow>
     unexecuted r \<and> se_state (rt_session r) = ss_kCancelled \<or>
     committed \<and> rt_trace r = full_trace frame True \<and> se_state (rt_session r) = ss_kCompleted"

text \<open>A state inside the \<^verbatim>\<open>try\<close> block: the phase, the session's state and the trace so far.\<close>

definition at_point ::
    "NativeInstallReservationV1 \<Rightarrow> Phase \<Rightarrow> SessionState \<Rightarrow> runtime_event list \<Rightarrow> Runtime \<Rightarrow> bool" where
  "at_point v p st trace r \<longleftrightarrow> rt_phase r = p \<and> se_state (rt_session r) = st \<and>
     se_reservation (rt_session r) = v \<and> rt_trace r = trace"

lemmas point_defs = at_point_def run_failed_def unexecuted_def recoverable_def

lemma triple_set_phase:
  "triple (at_point v p st trace) (set_phase p') (\<lambda>_. at_point v p' st trace) E"
  by (auto simp: triple_def set_phase_def at_point_def)

text \<open>A statement of the channel or the monitor that throws leaves a state the handler can settle.\<close>

lemma triple_record:
  assumes "\<And>r. m r = (answer, record_event (event (returned answer)) r)"
    and "\<And>b c. event b \<noteq> Rt_Transaction c"
    and "p = ph_kPrepared \<and> st = ss_kPrepared \<or> p = ph_kCommitAccepted \<and> st = ss_kCommitAccepted"
    and "\<forall>b. Rt_Transaction (Ev_ExecuteAfterCallerExit b) \<notin> set trace"
  shows "triple (at_point v p st trace) m (\<lambda>_. at_point v p st (trace @ [event True])) (run_failed frame c)"
proof (rule tripleI)
  fix r x r' assume "at_point v p st trace r" "m r = (x, r')"
  with assms show "case x of Inl _ \<Rightarrow> run_failed frame c r' | Inr _ \<Rightarrow> at_point v p st (trace @ [event True]) r'"
    by (cases x) (auto simp: point_defs record_event_def returned_def, metis+)
qed

lemmas triple_WriteFrame = triple_record [where m = "WriteFrame a f" and event = "Rt_Write f" and answer = a for a f,
    OF WriteFrame_def, simplified]
lemmas triple_WaitForExit = triple_record [where m = "WaitForExit a" and event = Rt_Wait and answer = a for a,
    OF WaitForExit_def, simplified]

lemma unexecuted_quiet:
  assumes "unexecuted r" and "quiet_since (rt_session r) s"
  shows "unexecuted (r\<lparr>rt_session := s, rt_trace := rt_trace r @
      map Rt_Transaction (drop (length (se_log (rt_session r))) (se_log s))\<rparr>)"
  using assms by (auto simp: unexecuted_def quiet_since_def)

lemma triple_AcceptCommit:
  assumes "\<forall>b. Rt_Transaction (Ev_ExecuteAfterCallerExit b) \<notin> set trace"
  shows "triple (at_point v ph_kPrepared ss_kPrepared trace) (on_session (AcceptCommit env t))
    (\<lambda>x r. x = v \<and> ParseNativeInstallWireCommandV1 t = Inr (commit_command v) \<and>
       at_point v ph_kPrepared ss_kCommitAccepted (trace @ [Rt_Transaction (Ev_MarkCommitAccepted True)]) r)
    (run_failed frame c)"
proof (rule tripleI)
  fix r x r' assume r: "at_point v ph_kPrepared ss_kPrepared trace r"
    and run: "on_session (AcceptCommit env t) r = (x, r')"
  obtain y s where call: "AcceptCommit env t (rt_session r) = (y, s)" by fastforce
  have quiet: "unexecuted r" using r assms by (simp add: unexecuted_def at_point_def)
  show "case x of Inl _ \<Rightarrow> run_failed frame c r' | Inr x \<Rightarrow> x = v \<and>
      ParseNativeInstallWireCommandV1 t = Inr (commit_command v) \<and>
      at_point v ph_kPrepared ss_kCommitAccepted (trace @ [Rt_Transaction (Ev_MarkCommitAccepted True)]) r'"
  proof (cases y)
    case (Inl e)
    with call r have "se_state s \<in> {ss_kPrepared, ss_kCancelled, ss_kRecoveryRequired}"
      "quiet_since (rt_session r) s"
      using AcceptCommit_refused by (auto simp: at_point_def)
    with unexecuted_quiet [OF quiet] Inl call run r show ?thesis
      by (auto simp: on_session_def run_failed_def recoverable_def at_point_def)
  next
    case (Inr u)
    with call AcceptCommit_accepted [of env t "rt_session r" u s] run r show ?thesis
      by (auto simp: on_session_def at_point_def)
  qed
qed

lemma triple_Execute:
  assumes "trace @ [Rt_Transaction (Ev_ExecuteAfterCallerExit True)] = full_trace frame True"
  shows "triple (at_point v ph_kExecuting ss_kCommitAccepted trace)
    (on_session (ExecuteAfterCallerExit env))
    (\<lambda>_. at_point v ph_kExecuting ss_kCompleted (full_trace frame True)) (run_failed frame True)"
proof (rule tripleI)
  fix r x r' assume r: "at_point v ph_kExecuting ss_kCommitAccepted trace r"
    and run: "on_session (ExecuteAfterCallerExit env) r = (x, r')"
  obtain y s where call: "ExecuteAfterCallerExit env (rt_session r) = (y, s)" by fastforce
  have "se_reservation s = se_reservation (rt_session r)"
    using call r by (auto simp: ExecuteAfterCallerExit_def Let_def log_event_def at_point_def split: sum.splits)
  with call ExecuteAfterCallerExit_outcome [OF call] run r assms
  show "case x of Inl _ \<Rightarrow> run_failed frame True r'
      | Inr _ \<Rightarrow> at_point v ph_kExecuting ss_kCompleted (full_trace frame True) r'"
    by (auto simp: on_session_def at_point_def run_failed_def returned_def full_trace_def split: sum.splits)
qed

lemma triple_Cancel:
  assumes "\<forall>b. Rt_Transaction (Ev_ExecuteAfterCallerExit b) \<notin> set trace"
  shows "triple (at_point v ph_kPrepared ss_kPrepared trace) (on_session (Cancel env t))
    (\<lambda>_ r. unexecuted r \<and> se_state (rt_session r) = ss_kCancelled) (run_failed frame c)"
proof (rule tripleI)
  fix r x r' assume r: "at_point v ph_kPrepared ss_kPrepared trace r"
    and run: "on_session (Cancel env t) r = (x, r')"
  obtain y s where call: "Cancel env t (rt_session r) = (y, s)" by fastforce
  have "unexecuted r" using r assms by (simp add: unexecuted_def at_point_def)
  with call Cancel_outcome [OF call] run r unexecuted_quiet [of r s]
  show "case x of Inl _ \<Rightarrow> run_failed frame c r'
      | Inr _ \<Rightarrow> unexecuted r' \<and> se_state (rt_session r') = ss_kCancelled"
    by (auto simp: on_session_def at_point_def run_failed_def recoverable_def split: sum.splits)
qed

lemma triple_pure: "(A \<Longrightarrow> triple P m Q E) \<Longrightarrow> triple (\<lambda>r. A \<and> P r) m Q E"
  by (auto simp: triple_def)

lemma triple_weaken:
  assumes "triple P m Q E" and "\<And>x r. Q x r \<Longrightarrow> Q' x r" and "\<And>r. E r \<Longrightarrow> E' r"
  shows "triple P m Q' E'"
proof (rule tripleI)
  fix r x r' assume "P r" "m r = (x, r')"
  from tripleD [OF assms(1) this] assms(2,3) show "case x of Inl _ \<Rightarrow> E' r' | Inr v \<Rightarrow> Q' v r'"
    by (cases x) simp_all
qed

lemma triple_committed:
  assumes "triple P m (\<lambda>_. run_finished frame c) (run_failed frame c)" and "c \<longrightarrow> c'"
  shows "triple P m (\<lambda>_. run_finished frame c') (run_failed frame c')"
  by (rule triple_weaken [OF assms(1)]) (use assms(2) in \<open>auto simp: run_finished_def run_failed_def\<close>)

lemma CommitBranch_triple:
  assumes frame: "EncodeNativeInstallReservationV1 v = Inr frame"
  shows "triple (at_point v ph_kPrepared ss_kPrepared
      [Rt_Transaction (Ev_PrepareDurableJournal True), Rt_Write frame True])
    (CommitBranch env v t)
    (\<lambda>_. run_finished frame (ParseNativeInstallWireCommandV1 t = Inr (commit_command v)))
    (run_failed frame (ParseNativeInstallWireCommandV1 t = Inr (commit_command v)))"
  (is "triple ?P _ _ (run_failed _ ?c)")
proof -
  have after: "triple (at_point v ph_kPrepared ss_kCommitAccepted
      [Rt_Transaction (Ev_PrepareDurableJournal True), Rt_Write frame True,
       Rt_Transaction (Ev_MarkCommitAccepted True)])
    (andThen (set_phase ph_kCommitAccepted) (\<lambda>_.
     andThen (value_of (EncodeNativeInstallReservationV1 v)) (\<lambda>frame.
     andThen (WriteFrame (rn_WriteReply env) frame) (\<lambda>_.
     andThen (WaitForExit (rn_WaitForExit env (rv_expires_at_unix_milliseconds v))) (\<lambda>_.
     andThen (set_phase ph_kExecuting) (\<lambda>_.
     andThen (on_session (ExecuteAfterCallerExit (rn_execute env))) (\<lambda>_.
     set_phase ph_kFinished)))))))
    (\<lambda>_. run_finished frame True) (run_failed frame True)"
    apply (rule triple_andThen, rule triple_set_phase)
    apply (rule triple_andThen [where Q = "\<lambda>f r. f = frame \<and> at_point v ph_kCommitAccepted ss_kCommitAccepted
        [Rt_Transaction (Ev_PrepareDurableJournal True), Rt_Write frame True,
         Rt_Transaction (Ev_MarkCommitAccepted True)] r"])
     apply (rule triple_value_of, simp add: frame)
    apply (rule triple_pure, simp)
    apply (rule triple_andThen, rule triple_WriteFrame, simp, simp)
    apply (rule triple_andThen, rule triple_WaitForExit, simp, simp)
    apply (rule triple_andThen, rule triple_set_phase)
    apply (rule triple_andThen, rule triple_Execute, simp add: full_trace_def)
    apply (rule triple_weaken, rule triple_set_phase)
     apply (simp add: run_finished_def at_point_def)
    apply assumption
    done
  show ?thesis
    unfolding CommitBranch_def
  proof (rule triple_andThen [OF triple_AcceptCommit])
    fix x
    show "triple (\<lambda>r. x = v \<and> ?c \<and> at_point v ph_kPrepared ss_kCommitAccepted
          ([Rt_Transaction (Ev_PrepareDurableJournal True), Rt_Write frame True] @
           [Rt_Transaction (Ev_MarkCommitAccepted True)]) r)
        (andThen (set_phase ph_kCommitAccepted) (\<lambda>_.
         andThen (value_of (EncodeNativeInstallReservationV1 x)) (\<lambda>frame.
         andThen (WriteFrame (rn_WriteReply env) frame) (\<lambda>_.
         andThen (WaitForExit (rn_WaitForExit env (rv_expires_at_unix_milliseconds v))) (\<lambda>_.
         andThen (set_phase ph_kExecuting) (\<lambda>_.
         andThen (on_session (ExecuteAfterCallerExit (rn_execute env))) (\<lambda>_.
         set_phase ph_kFinished)))))))
        (\<lambda>_. run_finished frame ?c) (run_failed frame ?c)"
      using after by (intro triple_pure) simp
  qed simp
qed

lemma CancelBranch_triple:
  assumes "\<forall>b. Rt_Transaction (Ev_ExecuteAfterCallerExit b) \<notin> set trace"
  shows "triple (at_point v ph_kPrepared ss_kPrepared trace) (CancelBranch env t)
    (\<lambda>_. run_finished frame c) (run_failed frame c)"
proof -
  let ?Q = "\<lambda>r. unexecuted r \<and> se_state (rt_session r) = ss_kCancelled"
  let ?R = "\<lambda>r. ?Q r \<and> rt_phase r = ph_kFinished"
  have phase: "triple ?Q (set_phase ph_kFinished) (\<lambda>_. ?R) (run_failed frame c)"
    by (auto simp: triple_def set_phase_def unexecuted_def)
  have encode: "triple ?R (value_of w) (\<lambda>_. ?R) (run_failed frame c)" for w :: "string result"
    by (rule triple_value_of) (auto simp: run_failed_def recoverable_def split: sum.split)
  have reply: "triple ?R (WriteFrame a f) (\<lambda>_. run_finished frame c) (run_failed frame c)" for a f
    by (auto simp: triple_def WriteFrame_def run_finished_def run_failed_def recoverable_def
        record_event_def unexecuted_def split: sum.split)
  show ?thesis
    unfolding CancelBranch_def
    by (rule triple_andThen [OF triple_Cancel [OF assms]], rule triple_andThen [OF phase],
        rule triple_andThen [OF encode], rule reply)
qed

text \<open>The application sent the one text that commits the reservation.\<close>

definition commits :: "RunEnv \<Rightarrow> NativeInstallReservationV1 \<Rightarrow> bool" where
  "commits env v \<longleftrightarrow>
     EncodeNativeInstallWireCommandV1 (commit_command v) =
       rn_ReadFrameUntil env (rv_expires_at_unix_milliseconds v)"

lemma ServeReservation_triple:
  assumes frame: "EncodeNativeInstallReservationV1 v = Inr frame"
  shows "triple (at_point v ph_kPrepared ss_kPrepared [Rt_Transaction (Ev_PrepareDurableJournal True)])
    (ServeReservation env v) (\<lambda>_. run_finished frame (commits env v)) (run_failed frame (commits env v))"
proof -
  let ?trace = "[Rt_Transaction (Ev_PrepareDurableJournal True), Rt_Write frame True]"
  let ?E = "run_failed frame (commits env v)"
  have settled: "at_point v ph_kPrepared ss_kPrepared tr r \<Longrightarrow>
      \<forall>b. Rt_Transaction (Ev_ExecuteAfterCallerExit b) \<notin> set tr \<Longrightarrow> ?E r" for tr r
    by (simp add: point_defs)
  have branch: "triple (at_point v ph_kPrepared ss_kPrepared ?trace)
      (if cm_operation command = ''commitAfterExit'' then CommitBranch env v t
       else if cm_operation command = ''cancelReservation'' then CancelBranch env t
       else value_of (Inl (NativeInstallWireError ''unsupportedOperation'')))
      (\<lambda>_. run_finished frame (commits env v)) ?E"
    if read: "rn_ReadFrameUntil env (rv_expires_at_unix_milliseconds v) = Inr t" for command t
  proof -
    have "ParseNativeInstallWireCommandV1 t = Inr (commit_command v) \<longrightarrow> commits env v"
      using read by (simp add: commits_def command.parse_iff)
    from triple_committed [OF CommitBranch_triple [OF frame] this] show ?thesis
      using CancelBranch_triple [of ?trace] by (auto intro!: triple_value_of settled)
  qed
  show ?thesis
    unfolding ServeReservation_def
    apply (rule triple_andThen [where Q = "\<lambda>f r. f = frame \<and>
        at_point v ph_kPrepared ss_kPrepared [Rt_Transaction (Ev_PrepareDurableJournal True)] r"])
     apply (rule triple_value_of, simp add: frame)
    apply (rule triple_pure, simp)
    apply (rule triple_andThen, rule triple_WriteFrame, simp, simp)
    apply (rule triple_andThen [where Q = "\<lambda>t r. rn_ReadFrameUntil env (rv_expires_at_unix_milliseconds v) = Inr t \<and>
        at_point v ph_kPrepared ss_kPrepared ?trace r"])
     apply (rule triple_value_of, auto split: sum.split intro: settled)[1]
    apply (rule triple_pure)
    apply (rule triple_andThen [where Q = "\<lambda>_. at_point v ph_kPrepared ss_kPrepared ?trace"])
     apply (rule triple_value_of, auto split: sum.split intro: settled)[1]
    apply (erule branch)
    done
qed

text \<open>What the handler leaves.\<close>

lemma RollBack_settles:
  assumes "run_failed frame c r"
  shows "se_state (rt_session (RollBack env r)) \<in> {ss_kCancelled, ss_kRecoveryRequired} \<and>
    (unexecuted (RollBack env r) \<or> c \<and> rt_trace (RollBack env r) = full_trace frame False \<and>
       se_state (rt_session (RollBack env r)) = ss_kRecoveryRequired)"
proof (cases "unexecuted r \<and> recoverable r")
  case True
  have cancel: "se_state s \<in> {ss_kCancelled, ss_kRecoveryRequired} \<and> quiet_since (rt_session r) s"
    if "CancelPreparedState e p (rt_session r) = (x, s)"
      "se_state (rt_session r) \<in> {p, ss_kCancelled, ss_kRecoveryRequired}" for e p x s
    using that CancelPreparedState_settles [OF that(1)]
    by (cases "se_state (rt_session r) = p")
      (auto simp: CancelPreparedState_def RequireState_def session_error_def)
  show ?thesis
    using True cancel unexecuted_quiet
    by (auto simp: RollBack_def on_session_def CancelBeforeCommitOnCallerExit_def
        CancelCommitAwaitingCallerExit_def recoverable_def split: prod.split Phase.splits)
next
  case False
  with assms show ?thesis by (auto simp: run_failed_def RollBack_def)
qed

text \<open>Every run on a new session.\<close>

definition run_settled :: "RunEnv \<Rightarrow> unit result \<Rightarrow> Runtime \<Rightarrow> bool" where
  "run_settled env x r \<longleftrightarrow>
     (unexecuted r \<and> se_state (rt_session r) \<in> {ss_kCancelled, ss_kRecoveryRequired} \<and>
       (x = Inr () \<longrightarrow> se_state (rt_session r) = ss_kCancelled)) \<or>
     (\<exists>v frame. EncodeNativeInstallReservationV1 v = Inr frame \<and> commits env v \<and>
       rt_trace r = full_trace frame (x = Inr ()) \<and>
       se_state (rt_session r) = (if x = Inr () then ss_kCompleted else ss_kRecoveryRequired))"

lemma RunWithInitialRequest_settled:
  assumes "NewSession True lifetime = Inr s" and "RunWithInitialRequest env t s = (x, r)"
  shows "run_settled env x r \<or>
    (\<exists>e. x = Inl e) \<and> r = \<lparr>rt_session = s, rt_phase = ph_kInitial, rt_trace = []\<rparr>"
proof -
  let ?r0 = "\<lparr>rt_session = s, rt_phase = ph_kInitial, rt_trace = []\<rparr>"
  have s: "se_state s = ss_kInitial" "se_log s = []"
    using assms(1) by (auto simp: NewSession_def session_error_def split: if_splits)
  obtain g where g: "bindE (ParseNativeInstallTransactionRequestV1 t) (\<lambda>request.
           bindE (rn_Create env (rq_caller request)) (\<lambda>created.
             if \<not> created then session_error ''caller exit monitor is unavailable'' else Inr ())) = g" by blast
  show ?thesis
  proof (cases g)
    case (Inl e)
    have "(x, r) = (Inl e, ?r0)"
      using assms(2) unfolding RunWithInitialRequest_def Let_def g Inl by simp
    then show ?thesis by blast
  next
    case (Inr u)
    obtain y s1 where prepare: "Prepare (rn_prepare env) t s = (y, s1)" by fastforce
    let ?r1 = "\<lparr>rt_session = s1, rt_phase = ph_kInitial, rt_trace = map Rt_Transaction (se_log s1)\<rparr>"
    have on: "on_session (Prepare (rn_prepare env) t) ?r0 = (y, ?r1)"
      using prepare s by (simp add: on_session_def)
    note outcome = Prepare_outcome [OF prepare s]
    show ?thesis
    proof (cases y)
      case (Inl e)
      with outcome have "unexecuted ?r1" using s by (auto simp: unexecuted_def quiet_since_def)
      with Inl Inr outcome g on assms(2) show ?thesis
        by (auto simp: RunWithInitialRequest_def run_settled_def)
    next
      case (Inr v)
      with outcome obtain frame where v: "EncodeNativeInstallReservationV1 v = Inr frame"
        and at: "at_point v ph_kPrepared ss_kPrepared [Rt_Transaction (Ev_PrepareDurableJournal True)]
          (?r1\<lparr>rt_phase := ph_kPrepared\<rparr>)" by (auto simp: at_point_def)
      obtain z r2 where serve: "ServeReservation env v (?r1\<lparr>rt_phase := ph_kPrepared\<rparr>) = (z, r2)" by fastforce
      note served = tripleD [OF ServeReservation_triple [OF v] at serve]
      have run: "(x, r) = (case z of Inl e \<Rightarrow> (Inl e, RollBack env r2) | Inr _ \<Rightarrow> (Inr (), r2))"
        using assms(2) on serve \<open>y = Inr v\<close> unfolding RunWithInitialRequest_def Let_def g \<open>g = Inr u\<close>
        by (simp split: sum.splits)
      have "run_settled env x r"
      proof (cases z)
        case (Inl e)
        then have "run_failed frame (commits env v) r2" using served by simp
        from RollBack_settles [OF this, of env] v Inl run show ?thesis
          unfolding run_settled_def by auto
      next
        case (Inr w)
        then have "run_finished frame (commits env v) r2" "x = Inr ()" "r = r2" using served run by simp_all
        with v show ?thesis unfolding run_settled_def run_finished_def by auto
      qed
      then show ?thesis ..
    qed
  qed
qed

section \<open>A concrete run\<close>

text \<open>The request and the command are the ones of the session's sample.\<close>

definition sample_run :: "string \<Rightarrow> string \<Rightarrow> RunEnv" where
  "sample_run request command = \<lparr>rn_ReadFrame = Inr request, rn_Create = (\<lambda>_. Inr True), rn_prepare = sample_env,
     rn_WriteReservation = Inr (), rn_ReadFrameUntil = (\<lambda>_. Inr command), rn_command = sample_env,
     rn_WriteReply = Inr (), rn_WaitForExit = (\<lambda>_. Inr ()), rn_execute = sample_env, rn_rollback = sample_env\<rparr>"

lemma sample_run_executes:
  assumes t: "ParseNativeInstallTransactionRequestV1 t = Inr sample_request"
    and c: "ParseNativeInstallWireCommandV1 c = Inr sample_commit"
    and f: "EncodeNativeInstallReservationV1 sample_reservation = Inr frame"
  shows "\<exists>r. RunWithInitialRequest (sample_run t c) t sample_session = (Inr (), r) \<and>
     rt_trace r = full_trace frame True \<and> se_state (rt_session r) = ss_kCompleted"
proof -
  have "cm_operation sample_commit = ''commitAfterExit''" by (simp add: sample_commit_def)
  with t c f show ?thesis
    by (simp add: RunWithInitialRequest_def sample_run_def ServeReservation_def CommitBranch_def andThen_def
        value_of_def set_phase_def WriteFrame_def WaitForExit_def on_session_def record_event_def returned_def
        Let_def sample_prepare sample_accept ExecuteAfterCallerExit_def RequireState_def
        log_event_def full_trace_def)
      (simp add: sample_session_def prepared_session_def committed_session_def sample_env_def set_phase_def)
qed

section \<open>Properties\<close>

text \<open>
  C6. The update is installed only for an application that asked for it and is gone: in every run of
  the service on a new session, when the transaction was executed, then everything the service did is
  this and in this order: it made the journal durable, sent the reservation, received in time the one
  canonical text that commits this reservation, marked the commit, sent the reservation back, waited
  for the caller's exit, and executed.
\<close>

theorem service_executes_last:
  assumes "NewSession True lifetime = Inr s" and "RunWithInitialRequest env t s = (x, r)"
    and "Rt_Transaction (Ev_ExecuteAfterCallerExit b) \<in> set (rt_trace r)"
  shows "\<exists>v frame command.
    EncodeNativeInstallReservationV1 v = Inr frame \<and>
    rn_ReadFrameUntil env (rv_expires_at_unix_milliseconds v) = Inr command \<and>
    EncodeNativeInstallWireCommandV1 (commit_command v) = Inr command \<and>
    rt_trace r =
      [Rt_Transaction (Ev_PrepareDurableJournal True), Rt_Write frame True,
       Rt_Transaction (Ev_MarkCommitAccepted True), Rt_Write frame True, Rt_Wait True,
       Rt_Transaction (Ev_ExecuteAfterCallerExit b)]"
proof -
  have executed: "\<not> unexecuted r" using assms(3) by (auto simp: unexecuted_def)
  then have "r \<noteq> \<lparr>rt_session = s, rt_phase = ph_kInitial, rt_trace = []\<rparr>" by (auto simp: unexecuted_def)
  with RunWithInitialRequest_settled [OF assms(1,2)] executed obtain v frame
    where v: "EncodeNativeInstallReservationV1 v = Inr frame" "commits env v"
      "rt_trace r = full_trace frame (x = Inr ())" by (auto simp: run_settled_def)
  have "b = (x = Inr ())" using assms(3) v(3) by (simp add: full_trace_def)
  moreover obtain command where "EncodeNativeInstallWireCommandV1 (commit_command v) = Inr command"
    using v(1) by (auto simp: EncodeNativeInstallWireCommandV1_def EncodeNativeInstallReservationV1_def
        ValidateCommand_def ValidateReservation_def bindE_Inr_iff commit_command_def wire_Fail_def
        split: if_splits)
  ultimately show ?thesis using v unfolding commits_def full_trace_def by metis
qed

theorem service_executes_last_witness:
  "\<exists>t c r frame. NewSession True 1000 = Inr sample_session \<and>
     RunWithInitialRequest (sample_run t c) t sample_session = (Inr (), r) \<and>
     (\<exists>v command. EncodeNativeInstallWireCommandV1 (commit_command v) = Inr command \<and>
       rt_trace r =
         [Rt_Transaction (Ev_PrepareDurableJournal True), Rt_Write frame True,
          Rt_Transaction (Ev_MarkCommitAccepted True), Rt_Write frame True, Rt_Wait True,
          Rt_Transaction (Ev_ExecuteAfterCallerExit True)])"
proof -
  obtain t c frame where t: "ParseNativeInstallTransactionRequestV1 t = Inr sample_request"
    and c: "ParseNativeInstallWireCommandV1 c = Inr sample_commit"
    and f: "EncodeNativeInstallReservationV1 sample_reservation = Inr frame"
    using sample_request_parses sample_commit_parses sample_reservation_encodes by blast
  obtain r where r: "RunWithInitialRequest (sample_run t c) t sample_session = (Inr (), r)"
    "rt_trace r = full_trace frame True"
    using sample_run_executes [OF t c f] by blast
  have new: "NewSession True 1000 = Inr sample_session" by (simp add: NewSession_def sample_session_def)
  have "Rt_Transaction (Ev_ExecuteAfterCallerExit True) \<in> set (rt_trace r)"
    by (simp add: r(2) full_trace_def)
  from service_executes_last [OF new r(1) this] new r(1) show ?thesis by blast
qed

text \<open>
  C23. The service leaves nothing pending: whatever the channel, the monitor and the transaction answer,
  a run ends in a settled state. If it returns, the session was completed by an execution that returned
  or was cancelled; if it throws, either nothing was done at all, or the transaction is cancelled or
  handed to recovery. The destructor of the session then has nothing left to do.
\<close>

theorem service_settles:
  assumes "NewSession True lifetime = Inr s"
  shows "case Run env s of (x, r) \<Rightarrow>
    (case x of
       Inr _ \<Rightarrow> se_state (rt_session r) = ss_kCancelled \<or> se_state (rt_session r) = ss_kCompleted \<and>
         last (rt_trace r) = Rt_Transaction (Ev_ExecuteAfterCallerExit True)
     | Inl _ \<Rightarrow> rt_session r = s \<and> rt_trace r = [] \<or>
         se_state (rt_session r) = ss_kCancelled \<or> se_state (rt_session r) = ss_kRecoveryRequired) \<and>
    DestroySession denv (rt_session r) = rt_session r"
proof -
  obtain x r where run: "Run env s = (x, r)" by fastforce
  have new: "se_state s = ss_kInitial" using assms by (auto simp: NewSession_def session_error_def split: if_splits)
  have "run_settled env x r \<or> (\<exists>e. x = Inl e) \<and> r = \<lparr>rt_session = s, rt_phase = ph_kInitial, rt_trace = []\<rparr>"
    using run RunWithInitialRequest_settled [OF assms] by (auto simp: Run_def split: sum.splits)
  with run new show ?thesis
    by (cases x) (auto simp: run_settled_def DestroySession_def full_trace_def)
qed

theorem service_settles_witness:
  "\<exists>t c r. Run (sample_run t c) sample_session = (Inr (), r) \<and>
     se_state (rt_session r) = ss_kCompleted \<and>
     last (rt_trace r) = Rt_Transaction (Ev_ExecuteAfterCallerExit True) \<and>
     DestroySession sample_env (rt_session r) = rt_session r"
proof -
  obtain t c frame where t: "ParseNativeInstallTransactionRequestV1 t = Inr sample_request"
    and c: "ParseNativeInstallWireCommandV1 c = Inr sample_commit"
    and f: "EncodeNativeInstallReservationV1 sample_reservation = Inr frame"
    using sample_request_parses sample_commit_parses sample_reservation_encodes by blast
  obtain r where r: "Run (sample_run t c) sample_session = (Inr (), r)" "se_state (rt_session r) = ss_kCompleted"
    using sample_run_executes [OF t c f] by (auto simp: Run_def sample_run_def)
  have "NewSession True 1000 = Inr sample_session" by (simp add: NewSession_def sample_session_def)
  from service_settles [OF this, of sample_env "sample_run t c"] r
  show ?thesis by fastforce
qed

end
