(* ===== verification/File_Tree.thy ===== *)
theory File_Tree
  imports Updater_Prelude "HOL-Library.AList" "HOL-Library.Sublist"
begin

text \<open>
  The part of a POSIX file system that the staging code sees: a tree of directories, files, symbolic
  links and other entries, the calls that read and change it, and the resolution of paths. A path is
  the list of its components below the root.
\<close>

section \<open>Trees\<close>

text \<open>An entry that cannot be read carries the call that fails on it.\<close>

datatype read_failure = Fail_lstat | Fail_opendir | Fail_open | Fail_readlink

datatype fs_node =
    Fs_Directory "(string \<times> fs_node) list"
  | Fs_File string
  | Fs_Symlink string
  | Fs_Special
  | Fs_Unreadable read_failure

type_synonym fs_path = "string list"

fun fs_at :: "fs_node \<Rightarrow> fs_path \<Rightarrow> fs_node option" where
  "fs_at node [] = Some node"
| "fs_at (Fs_Directory children) (name # path) =
     (case map_of children name of None \<Rightarrow> None | Some child \<Rightarrow> fs_at child path)"
| "fs_at _ (name # path) = None"

text \<open>Creating, replacing or removing the entry at a path whose parent is a directory.\<close>

fun fs_put :: "fs_node \<Rightarrow> fs_path \<Rightarrow> fs_node option \<Rightarrow> fs_node" where
  "fs_put node [] change = node"
| "fs_put node (name # path) change =
     (case node of
        Fs_Directory children \<Rightarrow>
          if path = [] then
            Fs_Directory (case change of
              None \<Rightarrow> AList.delete name children
            | Some new \<Rightarrow> AList.update name new children)
          else
            (case map_of children name of
               None \<Rightarrow> node
             | Some child \<Rightarrow> Fs_Directory (AList.update name (fs_put child path change) children))
      | _ \<Rightarrow> node)"

text \<open>Neither path is inside the other.\<close>

definition apart :: "fs_path \<Rightarrow> fs_path \<Rightarrow> bool" where
  "apart p q \<longleftrightarrow> \<not> prefix p q \<and> \<not> prefix q p"

lemma apart_Cons [simp]: "apart (a # p) (b # q) \<longleftrightarrow> a \<noteq> b \<or> apart p q"
  by (auto simp: apart_def)

definition is_directory :: "fs_node option \<Rightarrow> bool" where
  "is_directory node \<longleftrightarrow> (\<exists>children. node = Some (Fs_Directory children))"

lemma is_directory_code [code]: "is_directory node \<longleftrightarrow> (case node of Some (Fs_Directory _) \<Rightarrow> True | _ \<Rightarrow> False)"
  by (auto simp: is_directory_def split: option.split fs_node.split)

section \<open>The interface of a file store\<close>

locale file_store =
  fixes look :: "'s \<Rightarrow> fs_path \<Rightarrow> 'n option"
    and change :: "'s \<Rightarrow> fs_path \<Rightarrow> 'n option \<Rightarrow> 's"
    and holds_entries :: "'n option \<Rightarrow> bool"
  assumes look_changed: "holds_entries (look s (butlast p)) \<Longrightarrow> p \<noteq> [] \<Longrightarrow> look (change s p v) p = v"
    and look_apart: "apart p q \<Longrightarrow> look (change s p v) q = look s q"
    and look_above: "strict_prefix q p \<Longrightarrow> holds_entries (look (change s p v) q) = holds_entries (look s q)"
    and look_inside: "look s q = None \<Longrightarrow> prefix q r \<Longrightarrow> look s r = None"
begin

text \<open>A removed tree is gone with everything in it, and nothing else has changed.\<close>

lemma removed_inside:
  "holds_entries (look s (butlast p)) \<Longrightarrow> p \<noteq> [] \<Longrightarrow> prefix p q \<Longrightarrow> look (change s p None) q = None"
  using look_changed look_inside by blast

lemma removed_elsewhere:
  assumes "\<not> prefix p q"
  shows "look (change s p v) q = look s q \<or>
    holds_entries (look (change s p v) q) = holds_entries (look s q)"
  using look_apart [of p q s v] look_above [of q p s v] assms by (auto simp: apart_def strict_prefix_def)

end

lemma fs_at_Nil_directory: "fs_at s (name # path) \<noteq> None \<Longrightarrow> is_directory (Some s)"
  by (cases s) (simp_all add: is_directory_def)

lemma fs_at_put_same:
  "is_directory (fs_at s (butlast p)) \<Longrightarrow> p \<noteq> [] \<Longrightarrow> fs_at (fs_put s p v) p = v"
proof (induction p arbitrary: s)
  case (Cons name path)
  then obtain children where "s = Fs_Directory children"
    by (cases s) (auto simp: is_directory_def split: if_splits)
  with Cons show ?case
    by (cases "path = []") (auto simp: update_conv' delete_conv' is_directory_def split: option.splits)
qed simp

lemma fs_at_put_apart: "apart p q \<Longrightarrow> fs_at (fs_put s p v) q = fs_at s q"
proof (induction p arbitrary: s q)
  case (Cons name path)
  then show ?case
    by (cases s; cases q) (auto simp: update_conv' delete_conv' apart_def split: option.splits)
qed (simp add: apart_def)

lemma fs_at_put_above:
  "strict_prefix q p \<Longrightarrow> is_directory (fs_at (fs_put s p v) q) = is_directory (fs_at s q)"
proof (induction p arbitrary: s q)
  case (Cons name path)
  then show ?case
    by (cases s; cases q) (auto simp: is_directory_def update_conv' split: option.splits)
qed simp

lemma fs_at_append: "fs_at s (p @ q) = (case fs_at s p of None \<Rightarrow> None | Some n \<Rightarrow> fs_at n q)"
  by (induction s p rule: fs_at.induct) (auto split: option.split)

interpretation tree: file_store fs_at fs_put is_directory
proof unfold_locales
  show "fs_at s q = None \<Longrightarrow> prefix q r \<Longrightarrow> fs_at s r = None" for s q r
    by (auto simp: prefix_def fs_at_append)
qed (simp_all add: fs_at_put_same fs_at_put_apart fs_at_put_above)

section \<open>Path resolution\<close>

text \<open>
  \<^verbatim>\<open>realpath\<close>: the components are resolved from left to right, links by splicing in their target. The
  first argument bounds the links that are followed; the system refuses longer chains with
  \<^verbatim>\<open>ELOOP\<close>.
\<close>

function resolve_links :: "nat \<Rightarrow> fs_node \<Rightarrow> fs_path \<Rightarrow> fs_path \<Rightarrow> fs_path option" where
  "resolve_links links fs resolved [] = Some resolved"
| "resolve_links links fs resolved (name # path) =
     (if name = [] \<or> name = ''.'' then resolve_links links fs resolved path
      else if name = ''..'' then resolve_links links fs (butlast resolved) path
      else
        (case fs_at fs (resolved @ [name]) of
           None \<Rightarrow> None
         | Some (Fs_Symlink target) \<Rightarrow>
             if links = 0 then None
             else resolve_links (links - 1) fs (if starts_with ''/'' target then [] else resolved)
               (Split target CHR ''/'' @ path)
         | Some (Fs_Unreadable Fail_readlink) \<Rightarrow> None
         | Some (Fs_Unreadable Fail_lstat) \<Rightarrow> None
         | Some _ \<Rightarrow> resolve_links links fs (resolved @ [name]) path))"
  by pat_completeness auto
termination
  by (relation "measures [\<lambda>(links, _, _, _). links, \<lambda>(_, _, _, path). length path]") auto

definition SYMLOOP_MAX :: nat where
  "SYMLOOP_MAX = 40"

definition realpath :: "fs_node \<Rightarrow> fs_path \<Rightarrow> fs_path option" where
  "realpath fs path = resolve_links SYMLOOP_MAX fs [] path"

text \<open>\<^verbatim>\<open>lstat\<close> follows the links of the directories before the last component only.\<close>

definition lstat :: "fs_node \<Rightarrow> fs_path \<Rightarrow> fs_node option" where
  "lstat fs path =
     (if path = [] \<or> last path \<in> {[], ''.'', ''..''}
      then (case realpath fs path of None \<Rightarrow> None | Some p \<Rightarrow> fs_at fs p)
      else
        (case realpath fs (butlast path) of
           None \<Rightarrow> None
         | Some directory \<Rightarrow>
             (case fs_at fs (directory @ [last path]) of
                Some (Fs_Unreadable Fail_lstat) \<Rightarrow> None
              | node \<Rightarrow> node)))"

text \<open>What \<^verbatim>\<open>opendir\<close>, and a stream that opens a file, find at a path.\<close>

definition node_at :: "fs_node \<Rightarrow> fs_path \<Rightarrow> fs_node option" where
  "node_at fs path = (case realpath fs path of None \<Rightarrow> None | Some p \<Rightarrow> fs_at fs p)"

text \<open>The file mode of a directory, readable or not.\<close>

definition S_ISDIR :: "fs_node \<Rightarrow> bool" where
  "S_ISDIR node = (case node of Fs_Directory _ \<Rightarrow> True | Fs_Unreadable Fail_opendir \<Rightarrow> True | _ \<Rightarrow> False)"

text \<open>\<^verbatim>\<open>open\<close> with \<^verbatim>\<open>O_CREAT | O_EXCL\<close>: where the new file is created, if it can be.\<close>

definition open_exclusive :: "fs_node \<Rightarrow> fs_path \<Rightarrow> fs_path option" where
  "open_exclusive fs path =
     (case realpath fs (butlast path) of
        None \<Rightarrow> None
      | Some directory \<Rightarrow>
          let created = directory @ [last path] in
          if fs_at fs created \<noteq> None \<or> \<not> is_directory (fs_at fs directory) then None else Some created)"

section \<open>Canonical directories\<close>

text \<open>A path of proper names on which every entry is a directory: it resolves to itself.\<close>

definition real_directory :: "fs_node \<Rightarrow> fs_path \<Rightarrow> bool" where
  "real_directory fs path \<longleftrightarrow>
     list_all (\<lambda>name. name \<notin> {[], ''.'', ''..''}) path \<and>
     (\<forall>q. prefix q path \<longrightarrow> is_directory (fs_at fs q))"

lemma resolve_links_real:
  assumes "list_all (\<lambda>name. name \<notin> {[], ''.'', ''..''}) path"
    and "\<forall>q. prefix q (resolved @ path) \<longrightarrow> is_directory (fs_at fs q)"
  shows "resolve_links links fs resolved path = Some (resolved @ path)"
  using assms
proof (induction path arbitrary: resolved)
  case (Cons name path)
  have "prefix (resolved @ [name]) (resolved @ name # path)" by simp
  with Cons.prems(2) obtain children where "fs_at fs (resolved @ [name]) = Some (Fs_Directory children)"
    unfolding is_directory_def by blast
  with Cons.IH [of "resolved @ [name]"] Cons.prems show ?case by simp
qed simp

lemma realpath_real: "real_directory fs path \<Longrightarrow> realpath fs path = Some path"
  using resolve_links_real [of path "[]" fs] by (simp add: realpath_def real_directory_def)

lemma real_directory_append:
  "real_directory fs (p @ q) \<Longrightarrow> real_directory fs p"
  by (auto simp: real_directory_def)

lemma real_directory_snoc:
  "real_directory fs (p @ [name]) \<longleftrightarrow>
     real_directory fs p \<and> name \<notin> {[], ''.'', ''..''} \<and> is_directory (fs_at fs (p @ [name]))"
  by (auto simp: real_directory_def prefix_snoc)

lemma real_directory_at: "real_directory fs p \<Longrightarrow> is_directory (fs_at fs p)"
  by (simp add: real_directory_def)

lemma node_at_real: "real_directory fs p \<Longrightarrow> node_at fs p = fs_at fs p"
  by (simp add: node_at_def realpath_real)

lemma lstat_real:
  assumes "real_directory fs p"
  shows "lstat fs p = fs_at fs p"
proof (cases p rule: rev_cases)
  case (snoc q name)
  with assms real_directory_at [OF assms] show ?thesis
    by (auto simp: lstat_def real_directory_snoc realpath_real is_directory_def)
qed (simp add: lstat_def realpath_def)

lemma node_at_child:
  assumes "real_directory fs p" and "name \<notin> {[], ''.'', ''..''}"
    and "fs_at fs (p @ [name]) = Some (Fs_File bytes)"
  shows "node_at fs (p @ [name]) = Some (Fs_File bytes)"
proof -
  have "resolve_links n fs r (path @ [name]) = Some (r @ path @ [name])"
    if "list_all (\<lambda>name. name \<notin> {[], ''.'', ''..''}) path" "r @ path = p" for n r path
    using that
  proof (induction path arbitrary: r)
    case Nil
    with assms show ?case by simp
  next
    case (Cons step path)
    then have "is_directory (fs_at fs (r @ [step]))"
      using assms(1) by (auto simp: real_directory_def)
    with Cons.IH [of "r @ [step]"] Cons.prems show ?case by (auto simp: is_directory_def)
  qed
  from this [of p "[]"] assms show ?thesis
    by (simp add: node_at_def realpath_def real_directory_def)
qed

text \<open>A change inside a directory keeps the path to it real.\<close>

lemma real_directory_put:
  assumes "real_directory fs p" and "strict_prefix p q"
  shows "real_directory (fs_put fs q v) p"
proof -
  have "is_directory (fs_at (fs_put fs q v) r)" if "prefix r p" for r
  proof -
    have "strict_prefix r q" using that assms(2) by (meson prefix_order.le_less_trans)
    then show ?thesis using that assms(1) by (simp add: tree.look_above real_directory_def)
  qed
  with assms(1) show ?thesis by (simp add: real_directory_def)
qed

text \<open>A directory that \<^verbatim>\<open>lstat\<close> sees is the one to which the path resolves.\<close>

lemma resolve_links_snoc:
  assumes "resolve_links links fs resolved path = Some d" and "name \<notin> {[], ''.'', ''..''}"
    and "fs_at fs (d @ [name]) = Some node" and "S_ISDIR node"
  shows "resolve_links links fs resolved (path @ [name]) = Some (d @ [name])"
  using assms
proof (induction links fs resolved path rule: resolve_links.induct)
  case (1 links fs resolved)
  then show ?case by (cases node) (auto simp: S_ISDIR_def split: read_failure.splits)
next
  case (2 links fs resolved step path)
  then show ?case by (auto split: if_splits option.splits fs_node.splits read_failure.splits)
qed

lemma lstat_directory:
  assumes "lstat fs path = Some node" and "S_ISDIR node" and "realpath fs path = Some p"
  shows "fs_at fs p = Some node"
proof (cases "path = [] \<or> last path \<in> {[], ''.'', ''..''}")
  case True
  with assms show ?thesis by (simp add: lstat_def)
next
  case False
  with assms(1) obtain d where d: "realpath fs (butlast path) = Some d" "fs_at fs (d @ [last path]) = Some node"
    by (auto simp: lstat_def split: option.splits fs_node.splits read_failure.splits)
  from resolve_links_snoc [OF d(1) [unfolded realpath_def] _ d(2) assms(2)] False
  have "realpath fs path = Some (d @ [last path])" by (simp add: realpath_def)
  with d(2) assms(3) show ?thesis by simp
qed

end
