(* ===== verification/Stage_Provenance.thy ===== *)
theory Stage_Provenance
  imports Json_Codec File_Tree
begin

text \<open>
  The provenance of a staged update, \<^verbatim>\<open>stage_provenance.{h,cc}\<close> in its POSIX form: the inventory of a
  stage directory, the marker file that records it, and the operations that create, verify and remove
  a stage, over the file trees of \<open>File_Tree\<close>.
\<close>

section \<open>Data\<close>

text \<open>
  The digest function: an empty function object is \<^const>\<open>None\<close>, and a call of it throws.
\<close>

type_synonym stage_sha256 = "(string \<Rightarrow> 8 word list result) option"

definition call_sha256 :: "stage_sha256 \<Rightarrow> string \<Rightarrow> 8 word list result" where
  "call_sha256 sha256 bytes = (case sha256 of None \<Rightarrow> Inl BadFunctionCall | Some f \<Rightarrow> f bytes)"

record StageProvenanceEntry =
  pe_path :: string
  pe_kind :: string
  pe_length :: int
  pe_sha256 :: string
  pe_target :: string

record StageProvenanceMarker =
  mk_nonce :: string
  mk_package_id :: string
  mk_descriptor_sha256 :: string
  mk_artifact_sha256 :: string
  mk_entries :: "StageProvenanceEntry list"

record StageProvenanceState =
  ps_marker :: StageProvenanceMarker
  ps_marker_sha256 :: string

record StageProvenanceBinding =
  pb_marker :: StageProvenanceMarker
  pb_canonical_json :: string

record FilesystemOwnedStage =
  fo_path :: fs_path
  fo_parent_path :: fs_path
  fo_nonce :: string

definition kStageProvenanceFileName :: string where
  "kStageProvenanceFileName = ''.desktop_updater_stage_provenance.json''"

definition kOwnedStagePrefix :: string where
  "kOwnedStagePrefix = ''desktop_updater_stage_''"

section \<open>Validation\<close>

definition ValidSha256 :: "string \<Rightarrow> bool" where
  "ValidSha256 value \<longleftrightarrow> length value = 64 \<and> list_all is_lower_hex value"

definition ValidNonce :: "string \<Rightarrow> bool" where
  "ValidNonce value \<longleftrightarrow>
     length value = 36 \<and> value ! 8 = CHR ''-'' \<and> value ! 13 = CHR ''-'' \<and> value ! 18 = CHR ''-'' \<and>
     value ! 23 = CHR ''-'' \<and> value ! 14 = CHR ''4'' \<and> value ! 19 \<in> set ''89ab'' \<and>
     list_all (\<lambda>index. index \<in> {8, 13, 18, 23} \<or> is_lower_hex (value ! index)) [0..<36]"

text \<open>The loop over the segments is the loop of \<^const>\<open>Split\<close>.\<close>

definition ValidateRelative :: "string \<Rightarrow> string \<Rightarrow> unit result" where
  "ValidateRelative value field =
     (if value = [] \<or> hd value = CHR ''/'' \<or> last value = CHR ''/'' \<or> CHR 0x5C \<in> set value \<or>
         (length value \<ge> 2 \<and> isalpha (value ! 0) \<and> value ! 1 = CHR '':'')
      then Inl (RuntimeError (''Invalid '' @ field @ ''.''))
      else if list_ex (\<lambda>segment. segment = [] \<or> segment = ''.'' \<or> segment = ''..'') (Split value CHR ''/'')
      then Inl (RuntimeError (''Invalid '' @ field @ ''.''))
      else Inr ())"

definition StageBytesToHex :: "8 word list \<Rightarrow> string" where
  "StageBytesToHex bytes =
     concat (map (\<lambda>b. [''0123456789abcdef'' ! unat (drop_bit 4 b), ''0123456789abcdef'' ! unat (and b 15)]) bytes)"

text \<open>The nonce made of sixteen random bytes.\<close>

definition RandomNonce :: "8 word list \<Rightarrow> string" where
  "RandomNonce random =
     (let bytes = random[6 := or (and (random ! 6) 0x0f) 0x40];
          bytes = bytes[8 := or (and (bytes ! 8) 0x3f) 0x80]
      in concat (map (\<lambda>index. (if index \<in> {4, 6, 8, 10} then ''-'' else []) @ hex_pad 2 (unat (bytes ! index)))
           [0..<16]))"

definition Utf8Less :: "string \<Rightarrow> string \<Rightarrow> bool" where
  "Utf8Less left right \<longleftrightarrow> left < right"

section \<open>The inventory\<close>

definition child_path :: "string \<Rightarrow> string \<Rightarrow> string" where
  "child_path json_relative name = (if json_relative = [] then name else json_relative @ ''/'' @ name)"

definition directory_entry :: "string \<Rightarrow> StageProvenanceEntry" where
  "directory_entry path = \<lparr>pe_path = path, pe_kind = ''directory'', pe_length = 0, pe_sha256 = [], pe_target = []\<rparr>"

definition file_entry :: "string \<Rightarrow> string \<Rightarrow> 8 word list \<Rightarrow> StageProvenanceEntry" where
  "file_entry path bytes digest =
     \<lparr>pe_path = path, pe_kind = ''file'', pe_length = int (length bytes),
      pe_sha256 = StageBytesToHex digest, pe_target = []\<rparr>"

definition symlink_entry :: "string \<Rightarrow> string \<Rightarrow> StageProvenanceEntry" where
  "symlink_entry path target = \<lparr>pe_path = path, pe_kind = ''symlink'', pe_length = 0, pe_sha256 = [], pe_target = target\<rparr>"

text \<open>The walk over the entries of a directory, in the order in which the system lists them.\<close>

fun InventoryEntry :: "stage_sha256 \<Rightarrow> string \<Rightarrow> fs_node \<Rightarrow> StageProvenanceEntry list result"
and AddInventory :: "stage_sha256 \<Rightarrow> string \<Rightarrow> (string \<times> fs_node) list \<Rightarrow> StageProvenanceEntry list result" where
  "InventoryEntry sha256 json_child (Fs_Directory children) =
     bindE (AddInventory sha256 json_child children) (\<lambda>inner. Inr (directory_entry json_child # inner))"
| "InventoryEntry sha256 json_child (Fs_File bytes) =
     bindE (call_sha256 sha256 bytes) (\<lambda>digest. Inr [file_entry json_child bytes digest])"
| "InventoryEntry sha256 json_child (Fs_Symlink target) =
     bindE (ValidateRelative target ''symlink target'') (\<lambda>_. Inr [symlink_entry json_child target])"
| "InventoryEntry sha256 json_child Fs_Special = Inl (RuntimeError ''Unsupported staged filesystem entry.'')"
| "InventoryEntry sha256 json_child (Fs_Unreadable failure) =
     (case failure of
        Fail_lstat \<Rightarrow> Inl (RuntimeError ''Unable to inspect staged entry.'')
      | Fail_opendir \<Rightarrow> Inl (RuntimeError ''Unable to enumerate staged directory.'')
      | Fail_open \<Rightarrow> Inl (RuntimeError ''Unable to read staged file.'')
      | Fail_readlink \<Rightarrow> Inl (RuntimeError ''Unable to read staged symlink.''))"
| "AddInventory sha256 json_relative [] = Inr []"
| "AddInventory sha256 json_relative ((name, node) # rest) =
     (if name = ''.'' \<or> name = ''..'' \<or> child_path json_relative name = kStageProvenanceFileName
      then AddInventory sha256 json_relative rest
      else
        bindE (InventoryEntry sha256 (child_path json_relative name) node) (\<lambda>found.
        bindE (AddInventory sha256 json_relative rest) (\<lambda>others. Inr (found @ others))))"

definition Inventory :: "stage_sha256 \<Rightarrow> fs_node \<Rightarrow> fs_path \<Rightarrow> StageProvenanceEntry list result" where
  "Inventory sha256 fs stage_root =
     (if sha256 = None then Inl (InvalidArgument ''Stage SHA-256 is required.'')
      else
        (case node_at fs stage_root of
           Some (Fs_Directory children) \<Rightarrow>
             bindE (AddInventory sha256 [] children) (\<lambda>entries. Inr (sort_key pe_path entries))
         | _ \<Rightarrow> Inl (RuntimeError ''Unable to enumerate staged directory.'')))"

section \<open>The marker\<close>

definition entry_members :: "StageProvenanceEntry \<Rightarrow> (string \<times> JsonValue) list" where
  "entry_members entry =
     [(''path'', kString (pe_path entry)), (''kind'', kString (pe_kind entry)),
      (''length'', kInteger (pe_length entry))]
     @ (if pe_kind entry = ''file'' then [(''sha256'', kString (pe_sha256 entry))] else [])
     @ (if pe_kind entry = ''symlink'' then [(''target'', kString (pe_target entry))] else [])"

definition EncodeMarker :: "StageProvenanceMarker \<Rightarrow> JsonValue" where
  "EncodeMarker marker =
     kObject (emplaced
       [(''schemaVersion'', kInteger 1), (''nonce'', kString (mk_nonce marker)),
        (''packageId'', kString (mk_package_id marker)),
        (''descriptorSha256'', kString (mk_descriptor_sha256 marker)),
        (''artifactSha256'', kString (mk_artifact_sha256 marker)),
        (''entries'', kArray (map (\<lambda>entry. kObject (emplaced (entry_members entry))) (mk_entries marker)))])"

text \<open>The part of an entry that depends on its kind.\<close>

definition DecodeEntryKind :: "JsonValue \<Rightarrow> StageProvenanceEntry \<Rightarrow> StageProvenanceEntry result" where
  "DecodeEntryKind value entry =
     (if pe_kind entry = ''file'' then
        bindE (bindE (json_at value ''sha256'') jstring) (\<lambda>sha256.
        bindE (json_find value ''target'') (\<lambda>target.
          if pe_length entry < 0 \<or> \<not> ValidSha256 sha256 \<or> target \<noteq> None
          then Inl (RuntimeError ''Stage provenance file entry is invalid.'')
          else Inr (entry\<lparr>pe_sha256 := sha256\<rparr>)))
      else if pe_kind entry = ''directory'' then
        bindE (json_find value ''sha256'') (\<lambda>sha256.
        bindE (json_find value ''target'') (\<lambda>target.
          if pe_length entry \<noteq> 0 \<or> sha256 \<noteq> None \<or> target \<noteq> None
          then Inl (RuntimeError ''Stage provenance directory entry is invalid.'')
          else Inr entry))
      else if pe_kind entry = ''symlink'' then
        bindE (bindE (json_at value ''target'') jstring) (\<lambda>target.
        bindE (ValidateRelative target ''symlink target'') (\<lambda>_.
        bindE (json_find value ''sha256'') (\<lambda>sha256.
          if pe_length entry \<noteq> 0 \<or> sha256 \<noteq> None
          then Inl (RuntimeError ''Stage provenance symlink entry is invalid.'')
          else Inr (entry\<lparr>pe_target := target\<rparr>))))
      else Inl (RuntimeError ''Unsupported stage provenance entry.''))"

fun DecodeEntriesLoop :: "string set \<Rightarrow> string \<Rightarrow> JsonValue list \<Rightarrow> StageProvenanceEntry list result" where
  "DecodeEntriesLoop paths previous [] = Inr []"
| "DecodeEntriesLoop paths previous (value # rest) =
     bindE (bindE (json_at value ''path'') jstring) (\<lambda>path.
     bindE (bindE (json_at value ''kind'') jstring) (\<lambda>kind.
     bindE (bindE (json_at value ''length'') jinteger) (\<lambda>len.
     bindE (ValidateRelative path ''provenance path'') (\<lambda>_.
       if path \<in> paths \<or> (previous \<noteq> [] \<and> \<not> Utf8Less previous path)
       then Inl (RuntimeError ''Stage provenance entries are not unique and sorted.'')
       else
     bindE (DecodeEntryKind value \<lparr>pe_path = path, pe_kind = kind, pe_length = len,
         pe_sha256 = [], pe_target = []\<rparr>) (\<lambda>entry.
     bindE (DecodeEntriesLoop (insert path paths) path rest) (\<lambda>entries.
       Inr (entry # entries)))))))"

definition DecodeMarker :: "JsonValue \<Rightarrow> StageProvenanceMarker result" where
  "DecodeMarker root =
     bindE (bindE (json_at root ''schemaVersion'') jinteger) (\<lambda>version.
       if version \<noteq> 1 then Inl (RuntimeError ''Unsupported stage provenance schema.'')
       else
     bindE (bindE (json_at root ''nonce'') jstring) (\<lambda>nonce.
     bindE (bindE (json_at root ''packageId'') jstring) (\<lambda>package_id.
     bindE (bindE (json_at root ''descriptorSha256'') jstring) (\<lambda>descriptor_sha256.
     bindE (bindE (json_at root ''artifactSha256'') jstring) (\<lambda>artifact_sha256.
       if \<not> ValidNonce nonce \<or> package_id = [] \<or> \<not> ValidSha256 descriptor_sha256 \<or>
          \<not> ValidSha256 artifact_sha256
       then Inl (RuntimeError ''Stage provenance identity is invalid.'')
       else
     bindE (bindE (json_at root ''entries'') jarray) (\<lambda>values.
     bindE (DecodeEntriesLoop {} [] values) (\<lambda>entries.
       Inr \<lparr>mk_nonce = nonce, mk_package_id = package_id, mk_descriptor_sha256 = descriptor_sha256,
            mk_artifact_sha256 = artifact_sha256, mk_entries = entries\<rparr>)))))))"

fun EqualEntriesLoop :: "StageProvenanceEntry list \<Rightarrow> StageProvenanceEntry list \<Rightarrow> bool" where
  "EqualEntriesLoop (left # first) (right # second) =
     (if pe_path left \<noteq> pe_path right \<or> pe_kind left \<noteq> pe_kind right \<or> pe_length left \<noteq> pe_length right \<or>
         pe_sha256 left \<noteq> pe_sha256 right \<or> pe_target left \<noteq> pe_target right
      then False else EqualEntriesLoop first second)"
| "EqualEntriesLoop _ _ = True"

definition EqualEntries :: "StageProvenanceEntry list \<Rightarrow> StageProvenanceEntry list \<Rightarrow> bool" where
  "EqualEntries first second = (if length first \<noteq> length second then False else EqualEntriesLoop first second)"

section \<open>Operations on stages\<close>

definition CanonicalStageDirectory :: "fs_node \<Rightarrow> fs_path \<Rightarrow> string \<Rightarrow> fs_path result" where
  "CanonicalStageDirectory fs path field =
     (case lstat fs path of
        None \<Rightarrow> Inl (RuntimeError (field @ '' must be a real directory.''))
      | Some node \<Rightarrow>
          if \<not> S_ISDIR node then Inl (RuntimeError (field @ '' must be a real directory.''))
          else
            (case realpath fs path of
               None \<Rightarrow> Inl (RuntimeError (''Unable to canonicalize '' @ field @ ''.''))
             | Some resolved \<Rightarrow> Inr resolved))"

text \<open>
  A directory that is opened as a stream reads as empty. The code looks at the stream only after it was opened: an error in the middle of the
  file ends the contents early without an exception, and the contents of \<^const>\<open>Fs_File\<close> are then what was delivered.
\<close>

definition ReadFile :: "fs_node \<Rightarrow> fs_path \<Rightarrow> string result" where
  "ReadFile fs path =
     (case node_at fs path of
        Some (Fs_File bytes) \<Rightarrow> Inr bytes
      | Some (Fs_Directory _) \<Rightarrow> Inr []
      | _ \<Rightarrow> Inl (RuntimeError ''Unable to read staged file.''))"

text \<open>
  \<^verbatim>\<open>open\<close> with \<^verbatim>\<open>O_EXCL\<close>; \<open>written\<close> says that the writes and the \<^verbatim>\<open>close\<close> succeeded, and a file that could not
  be written is unlinked again.
\<close>

definition WriteExclusive :: "bool \<Rightarrow> fs_node \<Rightarrow> fs_path \<Rightarrow> string \<Rightarrow> unit result \<times> fs_node" where
  "WriteExclusive written fs path bytes =
     (case open_exclusive fs path of
        None \<Rightarrow> (Inl (RuntimeError ''Stage provenance marker already exists.''), fs)
      | Some created \<Rightarrow>
          if \<not> written then (Inl (RuntimeError ''Unable to write stage provenance marker.''), fs)
          else (Inr (), fs_put fs created (Some (Fs_File bytes))))"

definition ReadCanonicalMarker :: "fs_node \<Rightarrow> fs_path \<Rightarrow> bool \<Rightarrow> (StageProvenanceMarker \<times> string) result" where
  "ReadCanonicalMarker fs stage_root require_owned_stage_name =
     bindE (CanonicalStageDirectory fs stage_root ''Stage root'') (\<lambda>root.
     bindE (ReadFile fs (root @ [kStageProvenanceFileName])) (\<lambda>bytes.
     bindE (ParseJson bytes) (\<lambda>parsed.
     bindE (DecodeMarker parsed) (\<lambda>marker.
       if EncodeCanonicalJson (EncodeMarker marker) \<noteq> bytes \<or>
          (require_owned_stage_name \<and>
           (if root = [] then [] else last root) \<noteq> kOwnedStagePrefix @ mk_nonce marker)
       then Inl (RuntimeError ''Stage provenance marker is not canonical or nonce-bound.'')
       else Inr (marker, bytes)))))"

definition WriteStageProvenance ::
    "stage_sha256 \<Rightarrow> bool \<Rightarrow> fs_node \<Rightarrow> FilesystemOwnedStage \<Rightarrow> string \<Rightarrow> string \<Rightarrow> string \<Rightarrow>
     StageProvenanceState result \<times> fs_node" where
  "WriteStageProvenance sha256 written fs stage package_id descriptor_sha256 artifact_sha256 =
     (if \<not> ValidNonce (fo_nonce stage) \<or>
         (if fo_path stage = [] then [] else last (fo_path stage)) \<noteq> kOwnedStagePrefix @ fo_nonce stage \<or>
         package_id = [] \<or> \<not> ValidSha256 descriptor_sha256 \<or> \<not> ValidSha256 artifact_sha256
      then (Inl (RuntimeError ''Stage provenance metadata is invalid.''), fs)
      else
        (case Inventory sha256 fs (fo_path stage) of
           Inl e \<Rightarrow> (Inl e, fs)
         | Inr entries \<Rightarrow>
             let marker = \<lparr>mk_nonce = fo_nonce stage, mk_package_id = package_id,
                   mk_descriptor_sha256 = descriptor_sha256, mk_artifact_sha256 = artifact_sha256,
                   mk_entries = entries\<rparr>;
                 bytes = EncodeCanonicalJson (EncodeMarker marker) in
             (case WriteExclusive written fs (fo_path stage @ [kStageProvenanceFileName]) bytes of
                (Inl e, fs) \<Rightarrow> (Inl e, fs)
              | (Inr _, fs) \<Rightarrow>
                  (bindE (call_sha256 sha256 bytes) (\<lambda>digest.
                     Inr \<lparr>ps_marker = marker, ps_marker_sha256 = StageBytesToHex digest\<rparr>), fs))))"

definition ReadStageProvenance :: "stage_sha256 \<Rightarrow> fs_node \<Rightarrow> fs_path \<Rightarrow> StageProvenanceState result" where
  "ReadStageProvenance sha256 fs stage_root =
     bindE (ReadCanonicalMarker fs stage_root True) (\<lambda>(marker, bytes).
     bindE (call_sha256 sha256 bytes) (\<lambda>digest.
       Inr \<lparr>ps_marker = marker, ps_marker_sha256 = StageBytesToHex digest\<rparr>))"

definition ReadStageProvenanceBinding :: "fs_node \<Rightarrow> fs_path \<Rightarrow> StageProvenanceBinding result" where
  "ReadStageProvenanceBinding fs stage_root =
     bindE (ReadCanonicalMarker fs stage_root True) (\<lambda>(marker, bytes).
       Inr \<lparr>pb_marker = marker, pb_canonical_json = bytes\<rparr>)"

definition VerifyStageProvenance ::
    "stage_sha256 \<Rightarrow> fs_node \<Rightarrow> fs_path \<Rightarrow> string \<Rightarrow> StageProvenanceMarker result" where
  "VerifyStageProvenance sha256 fs stage_root expected_marker_sha256 =
     (if \<not> ValidSha256 expected_marker_sha256
      then Inl (RuntimeError ''Expected stage provenance SHA-256 is invalid.'')
      else
        bindE (ReadStageProvenance sha256 fs stage_root) (\<lambda>state.
          if ps_marker_sha256 state \<noteq> expected_marker_sha256
          then Inl (RuntimeError ''Stage provenance marker digest changed.'')
          else
        bindE (Inventory sha256 fs stage_root) (\<lambda>entries.
          if \<not> EqualEntries (mk_entries (ps_marker state)) entries
          then Inl (RuntimeError ''Staged update inventory changed.'')
          else Inr (ps_marker state))))"

definition VerifyRelocatedStageProvenance ::
    "stage_sha256 \<Rightarrow> fs_node \<Rightarrow> fs_path \<Rightarrow> string \<Rightarrow> StageProvenanceMarker result" where
  "VerifyRelocatedStageProvenance sha256 fs stage_root expected_marker_sha256 =
     (if \<not> ValidSha256 expected_marker_sha256
      then Inl (RuntimeError ''Expected stage provenance SHA-256 is invalid.'')
      else
        bindE (ReadCanonicalMarker fs stage_root False) (\<lambda>(marker, bytes).
        bindE (call_sha256 sha256 bytes) (\<lambda>digest.
          if StageBytesToHex digest \<noteq> expected_marker_sha256
          then Inl (RuntimeError ''Relocated stage provenance changed.'')
          else
        bindE (Inventory sha256 fs stage_root) (\<lambda>entries.
          if \<not> EqualEntries (mk_entries marker) entries
          then Inl (RuntimeError ''Relocated stage provenance changed.'')
          else Inr marker))))"

text \<open>
  Removal of a tree; \<open>removable\<close> tells at which paths \<^verbatim>\<open>unlink\<close> and \<^verbatim>\<open>rmdir\<close> succeed. The second result is what is
  left. An entry that \<^verbatim>\<open>lstat\<close> cannot see is passed over, and then the directory is not empty.
\<close>

fun RemoveNode :: "(fs_path \<Rightarrow> bool) \<Rightarrow> fs_path \<Rightarrow> fs_node \<Rightarrow> unit result \<times> fs_node option"
and RemoveChildren ::
    "(fs_path \<Rightarrow> bool) \<Rightarrow> fs_path \<Rightarrow> (string \<times> fs_node) list \<Rightarrow> unit result \<times> (string \<times> fs_node) list" where
  "RemoveNode removable path (Fs_Directory children) =
     (case RemoveChildren removable path children of
        (Inl e, left) \<Rightarrow> (Inl e, Some (Fs_Directory left))
      | (Inr _, left) \<Rightarrow>
          if left = [] \<and> removable path then (Inr (), None)
          else (Inl (RuntimeError ''Cleanup failed.''), Some (Fs_Directory left)))"
| "RemoveNode removable path (Fs_Unreadable Fail_lstat) = (Inr (), Some (Fs_Unreadable Fail_lstat))"
| "RemoveNode removable path (Fs_Unreadable Fail_opendir) =
     (Inl (RuntimeError ''Cleanup failed.''), Some (Fs_Unreadable Fail_opendir))"
| "RemoveNode removable path node =
     (if removable path then (Inr (), None) else (Inl (RuntimeError ''Cleanup failed.''), Some node))"
| "RemoveChildren removable path [] = (Inr (), [])"
| "RemoveChildren removable path ((name, node) # rest) =
     (if name = ''.'' \<or> name = ''..'' then
        (case RemoveChildren removable path rest of (r, left) \<Rightarrow> (r, (name, node) # left))
      else
        (case RemoveNode removable (path @ [name]) node of
           (Inl e, None) \<Rightarrow> (Inl e, rest)
         | (Inl e, Some left) \<Rightarrow> (Inl e, (name, left) # rest)
         | (Inr _, None) \<Rightarrow> RemoveChildren removable path rest
         | (Inr _, Some left) \<Rightarrow>
             (case RemoveChildren removable path rest of (r, others) \<Rightarrow> (r, (name, left) # others))))"

definition RemoveTree :: "(fs_path \<Rightarrow> bool) \<Rightarrow> fs_node \<Rightarrow> fs_path \<Rightarrow> unit result \<times> fs_node" where
  "RemoveTree removable fs path =
     (case fs_at fs path of
        None \<Rightarrow> (Inr (), fs)
      | Some node \<Rightarrow> (case RemoveNode removable path node of (r, left) \<Rightarrow> (r, fs_put fs path left)))"

text \<open>
  Creation; \<open>random\<close> is what the random source delivers, \<open>created\<close> that \<^verbatim>\<open>mkdir\<close> is permitted.
\<close>

definition CreateOwnedStage ::
    "8 word list result \<Rightarrow> bool \<Rightarrow> (fs_path \<Rightarrow> bool) \<Rightarrow> fs_node \<Rightarrow> fs_path \<Rightarrow> string \<Rightarrow>
     FilesystemOwnedStage result \<times> fs_node" where
  "CreateOwnedStage random created removable fs parent_path requested_nonce =
     (case bindE (CanonicalStageDirectory fs parent_path ''Staging parent'') (\<lambda>parent.
           if parent = [] then Inl (RuntimeError ''Filesystem roots cannot be staging parents.'')
           else
           bindE (if requested_nonce = [] then map_sum id RandomNonce random else Inr requested_nonce) (\<lambda>nonce.
             if \<not> ValidNonce nonce then Inl (RuntimeError ''Stage nonce is invalid.'')
             else Inr (parent, nonce))) of
        Inl e \<Rightarrow> (Inl e, fs)
      | Inr (parent, nonce) \<Rightarrow>
          let child = parent @ [kOwnedStagePrefix @ nonce] in
          if fs_at fs child \<noteq> None \<or> \<not> created
          then (Inl (RuntimeError ''Unable to exclusively create owned stage.''), fs)
          else
            (let fs = fs_put fs child (Some (Fs_Directory [])) in
             case bindE (CanonicalStageDirectory fs child ''Owned stage'') (\<lambda>canonical.
               if canonical \<noteq> child then Inl (RuntimeError ''Owned stage escapes canonical parent.'')
               else Inr ()) of
               Inl e \<Rightarrow> (Inl e, snd (RemoveTree removable fs child))
             | Inr _ \<Rightarrow> (Inr \<lparr>fo_path = child, fo_parent_path = parent, fo_nonce = nonce\<rparr>, fs)))"

definition RemoveOwnedStage ::
    "stage_sha256 \<Rightarrow> (fs_path \<Rightarrow> bool) \<Rightarrow> fs_node \<Rightarrow> fs_path \<Rightarrow> fs_path \<Rightarrow> string \<Rightarrow> unit result \<times> fs_node" where
  "RemoveOwnedStage sha256 removable fs parent_path stage_root nonce =
     (case bindE (CanonicalStageDirectory fs parent_path ''Staging parent'') (\<lambda>parent.
           bindE (CanonicalStageDirectory fs stage_root ''Stage root'') (\<lambda>root.
             if root = [] \<or> butlast root \<noteq> parent \<or> \<not> ValidNonce nonce \<or>
                last root \<noteq> kOwnedStagePrefix @ nonce
             then Inl (RuntimeError ''Owned stage cleanup path is invalid.'')
             else
           bindE (ReadStageProvenance sha256 fs root) (\<lambda>state.
           bindE (VerifyStageProvenance sha256 fs root (ps_marker_sha256 state)) (\<lambda>marker.
             if mk_nonce marker \<noteq> nonce then Inl (RuntimeError ''Owned stage cleanup nonce changed.'')
             else Inr root)))) of
        Inl e \<Rightarrow> (Inl e, fs)
      | Inr root \<Rightarrow> RemoveTree removable fs root)"

end
