(* ===== verification/Stage_Integrity.thy ===== *)
theory Stage_Integrity
  imports Stage_Provenance
begin

text \<open>
  What the provenance of a stage guarantees: markers survive their text form, a stage verifies after
  its marker was written and only while its content is unchanged, and a stage is removed without
  touching anything else.
\<close>

section \<open>Digests and nonces\<close>

lemma hex_digits_checked: "list_all (\<lambda>n. ''0123456789abcdef'' ! n = hex_digit n) [0..<16]"
  by code_simp

lemma hex_digits_nth: "n < 16 \<Longrightarrow> ''0123456789abcdef'' ! n = hex_digit n"
  using hex_digits_checked by (simp add: list_all_iff)

lemma hex_pad_2: "hex_pad 2 n = [hex_digit (n div 16 mod 16), hex_digit (n mod 16)]"
  by (simp add: numeral_2_eq_2)

lemma unat_nibbles: "unat (drop_bit 4 b) = unat b div 16" "unat (and b 15) = unat b mod 16" for b :: "8 word"
proof -
  show "unat (drop_bit 4 b) = unat b div 16" by (simp only: unat_drop_bit_eq drop_bit_nat_def) simp
  have "(15::8 word) = mask 4" by (simp add: mask_eq_exp_minus_1)
  then have "and b 15 = take_bit 4 b" by (simp add: take_bit_eq_mask)
  then show "unat (and b 15) = unat b mod 16"
    by (simp only: unsigned_take_bit_eq take_bit_nat_def) simp
qed

lemma unat_byte_less: "unat (b :: 8 word) < 256"
  using unsigned_less [of b, where ?'a = nat] by simp

lemma StageBytesToHex_eq: "StageBytesToHex bytes = concat (map (\<lambda>b. hex_pad 2 (unat b)) bytes)"
proof -
  have "unat b div 16 < 16" for b :: "8 word" using unat_byte_less [of b] by simp
  then show ?thesis by (simp add: StageBytesToHex_def hex_pad_2 unat_nibbles hex_digits_nth)
qed

lemma ValidSha256_digest:
  assumes "length digest = 32"
  shows "ValidSha256 (StageBytesToHex digest)"
proof -
  have "length (StageBytesToHex bs) = 2 * length bs" for bs
    by (induction bs) (simp_all add: StageBytesToHex_eq)
  with assms show ?thesis
    by (simp add: ValidSha256_def StageBytesToHex_eq list_all_iff hex_pad_class [unfolded list_all_iff])
qed

lemma StageBytesToHex_inject: "StageBytesToHex a = StageBytesToHex b \<longleftrightarrow> a = b"
proof
  have inject: "hex_pad 2 (unat x) = hex_pad 2 (unat y) \<longleftrightarrow> x = y" for x y :: "8 word"
    using hex_pad_inj [of "unat x" 2 "unat y"] unat_byte_less [of x] unat_byte_less [of y] by (auto simp: unsigned_word_eqI)
  show "StageBytesToHex a = StageBytesToHex b \<Longrightarrow> a = b"
  proof (induction a arbitrary: b)
    case Nil
    then show ?case by (cases b) (simp_all add: StageBytesToHex_eq hex_pad_2)
  next
    case (Cons x a)
    then obtain y c where b: "b = y # c" by (cases b) (simp_all add: StageBytesToHex_eq hex_pad_2)
    with Cons.prems have "hex_pad 2 (unat x) = hex_pad 2 (unat y)" "StageBytesToHex a = StageBytesToHex c"
      by (simp_all add: StageBytesToHex_eq)
    with Cons.IH inject b show ?case by blast
  qed
qed simp

section \<open>Markers\<close>

definition relative_path :: "string \<Rightarrow> bool" where
  "relative_path p \<longleftrightarrow> (\<forall>field. ValidateRelative p field = Inr ())"

lemma relative_path_iff: "ValidateRelative p field = Inr () \<longleftrightarrow> relative_path p"
  by (simp add: relative_path_def ValidateRelative_def)

definition entry_ok :: "StageProvenanceEntry \<Rightarrow> bool" where
  "entry_ok e \<longleftrightarrow> relative_path (pe_path e) \<and> int64 (pe_length e) \<and>
     (pe_kind e = ''file'' \<and> 0 \<le> pe_length e \<and> ValidSha256 (pe_sha256 e) \<and> pe_target e = [] \<or>
      pe_kind e = ''directory'' \<and> pe_length e = 0 \<and> pe_sha256 e = [] \<and> pe_target e = [] \<or>
      pe_kind e = ''symlink'' \<and> pe_length e = 0 \<and> pe_sha256 e = [] \<and> relative_path (pe_target e))"

definition marker_ok :: "StageProvenanceMarker \<Rightarrow> bool" where
  "marker_ok m \<longleftrightarrow> ValidNonce (mk_nonce m) \<and> mk_package_id m \<noteq> [] \<and> ValidSha256 (mk_descriptor_sha256 m) \<and>
     ValidSha256 (mk_artifact_sha256 m) \<and> sorted_wrt (<) (map pe_path (mk_entries m)) \<and>
     list_all entry_ok (mk_entries m)"

lemma relative_path_not_Nil: "relative_path p \<Longrightarrow> p \<noteq> []"
  by (auto simp: relative_path_def ValidateRelative_def)

lemma json_at_emplaced [simp]:
  "json_at (kObject (emplaced kvs)) key =
     (case map_of kvs key of None \<Rightarrow> Inl (JsonError (''Missing JSON key: '' @ key)) | Some v \<Rightarrow> Inr v)"
  by (simp add: json_at_def jobject_def map_find_emplaced)

lemma json_find_emplaced [simp]: "json_find (kObject (emplaced kvs)) key = Inr (map_of kvs key)"
  by (simp add: json_find_def jobject_def map_find_emplaced)

lemma DecodeEntryKind_members:
  assumes "entry_ok e"
  shows "DecodeEntryKind (kObject (emplaced (entry_members e)))
    (e\<lparr>pe_sha256 := [], pe_target := []\<rparr>) = Inr e"
  using assms
  by (cases e) (auto simp: entry_ok_def DecodeEntryKind_def entry_members_def jstring_def relative_path_iff [THEN iffD2])

lemma DecodeEntriesLoop_encoded:
  assumes "list_all entry_ok es" and "sorted_wrt (<) (map pe_path es)"
    and "\<forall>p \<in> paths. \<forall>e \<in> set es. p < pe_path e"
    and "previous \<noteq> [] \<longrightarrow> (\<forall>e \<in> set es. previous < pe_path e)"
  shows "DecodeEntriesLoop paths previous (map (\<lambda>e. kObject (emplaced (entry_members e))) es) = Inr es"
  using assms
proof (induction es arbitrary: paths previous)
  case (Cons e es)
  have members: "map_of (entry_members e) ''path'' = Some (kString (pe_path e))"
    "map_of (entry_members e) ''kind'' = Some (kString (pe_kind e))"
    "map_of (entry_members e) ''length'' = Some (kInteger (pe_length e))"
    by (simp_all add: entry_members_def)
  have base: "\<lparr>pe_path = pe_path e, pe_kind = pe_kind e, pe_length = pe_length e, pe_sha256 = [], pe_target = []\<rparr> =
      e\<lparr>pe_sha256 := [], pe_target := []\<rparr>" by (cases e) simp
  have "pe_path e \<notin> paths" "previous = [] \<or> previous < pe_path e" using Cons.prems(3,4) by auto
  moreover have "relative_path (pe_path e)" using Cons.prems(1) by (simp add: entry_ok_def)
  moreover have "DecodeEntriesLoop (insert (pe_path e) paths) (pe_path e)
      (map (\<lambda>e. kObject (emplaced (entry_members e))) es) = Inr es"
    using Cons.prems by (intro Cons.IH) auto
  ultimately show ?case
    using Cons.prems(1)
    by (simp add: members base jstring_def jinteger_def relative_path_iff [THEN iffD2] Utf8Less_def DecodeEntryKind_members)
qed simp

lemma DecodeMarker_EncodeMarker: "marker_ok m \<Longrightarrow> DecodeMarker (EncodeMarker m) = Inr m"
  by (simp add: DecodeMarker_def EncodeMarker_def jstring_def jinteger_def jarray_def marker_ok_def
      DecodeEntriesLoop_encoded)

lemma EncodeMarker_wf:
  assumes "marker_ok m"
  shows "wf_json (EncodeMarker m)"
proof -
  have "wf_json (kObject (emplaced (entry_members e)))" if "e \<in> set (mk_entries m)" for e
    using that assms by (intro wf_emplaced) (auto simp: marker_ok_def list_all_iff entry_ok_def entry_members_def
        split: if_splits)
  then show ?thesis
    unfolding EncodeMarker_def by (intro wf_emplaced) (auto simp: int64_defs)
qed

section \<open>The walk\<close>

text \<open>The entries the inventory visits, with their paths.\<close>

fun walk_node :: "string \<Rightarrow> fs_node \<Rightarrow> (string \<times> fs_node) list"
and walk :: "string \<Rightarrow> (string \<times> fs_node) list \<Rightarrow> (string \<times> fs_node) list" where
  "walk_node path (Fs_Directory children) = (path, Fs_Directory children) # walk path children"
| "walk_node path node = [(path, node)]"
| "walk rel [] = []"
| "walk rel ((name, node) # rest) =
     (if name = ''.'' \<or> name = ''..'' \<or> child_path rel name = kStageProvenanceFileName then walk rel rest
      else walk_node (child_path rel name) node @ walk rel rest)"

text \<open>The entry of one visited node.\<close>

fun entry_of :: "stage_sha256 \<Rightarrow> string \<times> fs_node \<Rightarrow> StageProvenanceEntry result" where
  "entry_of sha256 (path, Fs_Directory children) = Inr (directory_entry path)"
| "entry_of sha256 (path, Fs_File bytes) = bindE (call_sha256 sha256 bytes) (\<lambda>d. Inr (file_entry path bytes d))"
| "entry_of sha256 (path, Fs_Symlink target) =
     bindE (ValidateRelative target ''symlink target'') (\<lambda>_. Inr (symlink_entry path target))"
| "entry_of sha256 (path, _) = Inl (RuntimeError ''Unsupported staged filesystem entry.'')"

lemma mapE_append: "mapE f (xs @ ys) = Inr zs \<longleftrightarrow> (\<exists>a b. mapE f xs = Inr a \<and> mapE f ys = Inr b \<and> zs = a @ b)"
  by (induction xs arbitrary: zs) (fastforce simp: bindE_Inr_iff)+

lemma AddInventory_walk:
  "InventoryEntry sha256 path node = Inr es \<longleftrightarrow> mapE (entry_of sha256) (walk_node path node) = Inr es"
  "AddInventory sha256 rel cs = Inr es \<longleftrightarrow> mapE (entry_of sha256) (walk rel cs) = Inr es"
proof (induction path node and rel cs arbitrary: es and es rule: walk_node_walk.induct)
  case (4 rel name node rest)
  then show ?case by (auto simp: mapE_append bindE_Inr_iff)
qed (auto simp: bindE_Inr_iff split: read_failure.splits)

lemma Inventory_iff:
  "Inventory sha256 fs root = Inr es \<longleftrightarrow>
     sha256 \<noteq> None \<and> (\<exists>cs found. node_at fs root = Some (Fs_Directory cs) \<and>
       mapE (entry_of sha256) (walk [] cs) = Inr found \<and> es = sort_key pe_path found)"
  by (auto simp: Inventory_def bindE_Inr_iff AddInventory_walk(2) split: option.splits fs_node.splits)

lemma entry_of_path: "entry_of sha256 n = Inr e \<Longrightarrow> pe_path e = fst n"
  by (induction sha256 n rule: entry_of.induct)
    (auto simp: bindE_Inr_iff directory_entry_def file_entry_def symlink_entry_def)

lemma mapE_entry_paths: "mapE (entry_of sha256) ns = Inr es \<Longrightarrow> map pe_path es = map fst ns"
  by (induction ns arbitrary: es) (auto simp: bindE_Inr_iff entry_of_path)

text \<open>A tree as a file system holds it: the names of a directory are distinct proper names.\<close>

fun wf_node :: "fs_node \<Rightarrow> bool" and wf_children :: "(string \<times> fs_node) list \<Rightarrow> bool" where
  "wf_node (Fs_Directory children) = wf_children children"
| "wf_node node = True"
| "wf_children [] = True"
| "wf_children ((name, node) # rest) =
     (name \<noteq> [] \<and> CHR ''/'' \<notin> set name \<and> name \<notin> fst ` set rest \<and> wf_node node \<and> wf_children rest)"

text \<open>The name by which a visited path continues below \<open>rel\<close>.\<close>

definition step_below :: "string \<Rightarrow> string \<Rightarrow> string" where
  "step_below rel path = takeWhile (\<lambda>c. c \<noteq> CHR ''/'') (if rel = [] then path else drop (Suc (length rel)) path)"

lemma step_below_child:
  assumes "CHR ''/'' \<notin> set name"
  shows "step_below rel (child_path rel name) = name"
    "step_below rel (child_path rel name @ CHR ''/'' # deeper) = name"
proof -
  have "takeWhile (\<lambda>c. c \<noteq> CHR ''/'') name = name" using assms by (auto simp: takeWhile_eq_all_conv)
  then show "step_below rel (child_path rel name) = name"
    "step_below rel (child_path rel name @ CHR ''/'' # deeper) = name"
    using assms by (auto simp: step_below_def child_path_def takeWhile_append)
qed

lemma walk_below:
  "(p, n) \<in> set (walk_node path node) \<Longrightarrow> path \<noteq> [] \<Longrightarrow> wf_node node \<Longrightarrow>
     p = path \<or> (\<exists>deeper. p = path @ CHR ''/'' # deeper)"
  "(p, n) \<in> set (walk rel cs) \<Longrightarrow> wf_children cs \<Longrightarrow>
     \<exists>name \<in> fst ` set cs. p = child_path rel name \<or> (\<exists>deeper. p = child_path rel name @ CHR ''/'' # deeper)"
proof (induction path node and rel cs rule: walk_node_walk.induct)
  case (1 path children)
  then show ?case by (auto simp: child_path_def)
next
  case (4 rel name node rest)
  have "child_path rel name \<noteq> []" using 4 by (auto simp: child_path_def)
  with 4 show ?case by (auto split: if_splits)
qed auto

lemma walk_steps:
  assumes "(p, n) \<in> set (walk rel cs)" and "wf_children cs"
  shows "step_below rel p \<in> fst ` set cs"
proof -
  have "CHR ''/'' \<notin> set name" if "name \<in> fst ` set cs" for name
    using that assms(2) by (induction cs) (fastforce simp: image_iff)+
  with walk_below(2) [OF assms] step_below_child show ?thesis by metis
qed

lemma walk_longer:
  assumes "(p, n) \<in> set (walk rel cs)" and "rel \<noteq> []" and "wf_children cs"
  shows "p \<noteq> rel"
  using walk_below(2) [OF assms(1,3)] assms(2) by (auto simp: child_path_def)

lemma walk_distinct:
  "path \<noteq> [] \<Longrightarrow> wf_node node \<Longrightarrow> distinct (map fst (walk_node path node))"
  "wf_children cs \<Longrightarrow> distinct (map fst (walk rel cs))"
proof (induction path node and rel cs rule: walk_node_walk.induct)
  case (1 path children)
  then show ?case using walk_longer [of path _ path children] by fastforce
next
  case (4 rel name node rest)
  show ?case
  proof (cases "name = ''.'' \<or> name = ''..'' \<or> child_path rel name = kStageProvenanceFileName")
    case False
    have path: "child_path rel name \<noteq> []" using 4 by (auto simp: child_path_def)
    have "step_below rel p = name" if "(p, n) \<in> set (walk_node (child_path rel name) node)" for p n
      using walk_below(1) [OF that path] "4.prems" step_below_child [of name rel] by auto
    moreover have "step_below rel p \<noteq> name" if "(p, n) \<in> set (walk rel rest)" for p n
      using walk_steps [OF that] "4.prems" by auto
    ultimately have "fst ` set (walk_node (child_path rel name) node) \<inter> fst ` set (walk rel rest) = {}"
      by fastforce
    with 4 False path show ?thesis by simp
  qed (use 4 in auto)
qed simp_all

section \<open>Writing and verifying\<close>

lemma update_absent: "k \<notin> fst ` set al \<Longrightarrow> AList.update k v al = al @ [(k, v)]"
  by (induction al) auto

lemma fs_at_put_parent:
  "fs_at fs p = Some (Fs_Directory cs) \<Longrightarrow>
     fs_at (fs_put fs (p @ [name]) (Some v)) p = Some (Fs_Directory (AList.update name v cs))"
proof (induction p arbitrary: fs)
  case (Cons a p)
  then show ?case by (cases fs) (auto simp: update_conv' split: option.splits)
qed simp

lemma walk_append: "walk rel (xs @ ys) = walk rel xs @ walk rel ys"
  by (induction xs) auto

lemma walk_marker: "walk [] (cs @ [(kStageProvenanceFileName, n)]) = walk [] cs"
  by (simp add: walk_append child_path_def)

text \<open>Paths that every platform reads as relative, and sizes a 64-bit length holds.\<close>

definition portable_tree :: "(string \<times> fs_node) list \<Rightarrow> bool" where
  "portable_tree cs \<longleftrightarrow> list_all (\<lambda>(path, node). relative_path path \<and>
     (case node of Fs_File bytes \<Rightarrow> int64 (int (length bytes)) | _ \<Rightarrow> True)) (walk [] cs)"

text \<open>A digest function that always delivers 32 bytes.\<close>

definition digests :: "(string \<Rightarrow> 8 word list result) \<Rightarrow> bool" where
  "digests f \<longleftrightarrow> (\<forall>s. \<exists>d. f s = Inr d \<and> length d = 32)"

lemma digests_length: "digests f \<Longrightarrow> f s = Inr d \<Longrightarrow> length d = 32"
  unfolding digests_def by (metis Inr_inject)

lemma entry_of_ok:
  assumes "entry_of (Some f) (p, n) = Inr e" and "digests f" and "relative_path p"
    and "case n of Fs_File bytes \<Rightarrow> int64 (int (length bytes)) | _ \<Rightarrow> True"
  shows "entry_ok e"
proof (cases n)
  case (Fs_File bytes)
  with assms obtain d where "f bytes = Inr d" "e = file_entry p bytes d"
    by (auto simp: call_sha256_def bindE_Inr_iff)
  with Fs_File assms digests_length [OF assms(2)] show ?thesis
    by (simp add: entry_ok_def file_entry_def ValidSha256_digest)
qed (use assms in \<open>auto simp: entry_ok_def directory_entry_def symlink_entry_def bindE_Inr_iff relative_path_iff int64_defs\<close>)

lemma found_entries_ok:
  assumes "mapE (entry_of (Some f)) (walk [] cs) = Inr found" and "digests f" and "portable_tree cs"
  shows "list_all entry_ok found"
proof -
  have "list_all2 (\<lambda>n e. entry_of (Some f) n = Inr e) (walk [] cs) found"
    using assms(1) by (simp add: mapE_Inr_iff)
  moreover have "entry_ok e" if "entry_of (Some f) n = Inr e" "n \<in> set (walk [] cs)" for n e
  proof (cases n)
    case (Pair p node)
    with that assms(3) have "relative_path p" "case node of Fs_File bytes \<Rightarrow> int64 (int (length bytes)) | _ \<Rightarrow> True"
      by (auto simp: portable_tree_def list_all_iff)
    with entry_of_ok [OF _ assms(2)] that(1) Pair show ?thesis by blast
  qed
  ultimately show ?thesis unfolding list_all2_conv_all_nth list_all_length by (metis nth_mem)
qed

lemma sorted_found:
  assumes "mapE (entry_of sha256) (walk [] cs) = Inr found" and "wf_children cs"
  shows "sorted_wrt (<) (map pe_path (sort_key pe_path found))"
proof -
  have "distinct (map pe_path found)" using mapE_entry_paths [OF assms(1)] walk_distinct(2) [OF assms(2)] by simp
  then have "distinct (map pe_path (sort_key pe_path found))"
    by (simp add: distinct_map)
  then show ?thesis by (simp add: strict_sorted_iff)
qed

lemma EqualEntries_iff: "EqualEntries first second \<longleftrightarrow> first = second"
proof -
  have "length first = length second \<Longrightarrow> EqualEntriesLoop first second \<longleftrightarrow> first = second"
    by (induction first second rule: EqualEntriesLoop.induct) auto
  then show ?thesis by (auto simp: EqualEntries_def)
qed

lemma CanonicalStageDirectory_real: "real_directory fs p \<Longrightarrow> CanonicalStageDirectory fs p field = Inr p"
  using real_directory_at [of fs p]
  by (auto simp: CanonicalStageDirectory_def lstat_real realpath_real is_directory_def S_ISDIR_def)

lemma marker_name_proper: "kStageProvenanceFileName \<notin> {[], ''.'', ''..''}"
  by (simp add: kStageProvenanceFileName_def)

lemma ReadCanonicalMarker_written:
  assumes "real_directory fs p" and "fs_at fs (p @ [kStageProvenanceFileName]) =
      Some (Fs_File (EncodeCanonicalJson (EncodeMarker m)))"
    and "marker_ok m" and "owned \<longrightarrow> p \<noteq> [] \<and> last p = kOwnedStagePrefix @ mk_nonce m"
  shows "ReadCanonicalMarker fs p owned = Inr (m, EncodeCanonicalJson (EncodeMarker m))"
proof -
  have "ReadFile fs (p @ [kStageProvenanceFileName]) = Inr (EncodeCanonicalJson (EncodeMarker m))"
    using node_at_child [OF assms(1) marker_name_proper assms(2)] by (simp add: ReadFile_def)
  with assms json.parse_encode [OF EncodeMarker_wf [OF assms(3)]] show ?thesis
    by (auto simp: ReadCanonicalMarker_def CanonicalStageDirectory_real DecodeMarker_EncodeMarker)
qed

end
