(* ===== verification/Stage_Lifecycle.thy ===== *)
theory Stage_Lifecycle
  imports Stage_Integrity
begin

text \<open>
  The life of a stage: it is created under a fresh valid nonce, verifies as written, is evidence
  against any change, and is removed alone.
\<close>

section \<open>Nonces\<close>

lemma nonce_bytes:
  "unat (or (and b 0x0f) 0x40) div 16 = 4" "unat (or (and b 0x3f) 0x80) div 16 \<in> {8, 9, 10, 11}" for b :: "8 word"
proof -
  have "drop_bit 4 (or (and b 0x0f) 0x40) = 4" by (simp add: drop_bit_or drop_bit_and)
  then show "unat (or (and b 0x0f) 0x40) div 16 = 4"
    using unat_nibbles(1) [of "or (and b 0x0f) 0x40"] by simp
  define w where "w = and (drop_bit 4 b) 3"
  have "w = take_bit 2 (drop_bit 4 b)" by (simp add: w_def take_bit_eq_mask mask_eq_exp_minus_1)
  then have "unat w = unat (drop_bit 4 b) mod 4"
    by (simp only: unsigned_take_bit_eq take_bit_nat_def) simp
  then have "unat w < 4" by simp
  then have "unat w \<in> {0, 1, 2, 3}" by auto
  then have "word_of_nat (unat w) \<in> {0, 1, 2, 3 :: 8 word}" by (elim insertE) simp_all
  then have "w \<in> {0, 1, 2, 3}" by simp
  moreover have "drop_bit 4 (or (and b 0x3f) 0x80) = or w 8"
    by (simp add: drop_bit_or drop_bit_and w_def)
  ultimately have "drop_bit 4 (or (and b 0x3f) 0x80) \<in> {8, 9, 10, 11}" by auto
  then show "unat (or (and b 0x3f) 0x80) div 16 \<in> {8, 9, 10, 11}"
    using unat_nibbles(1) [of "or (and b 0x3f) 0x80"] by auto
qed

lemma ValidNonce_RandomNonce:
  assumes "length random = 16"
  shows "ValidNonce (RandomNonce random)"
proof -
  obtain b0 b1 b2 b3 b4 b5 b6 b7 b8 b9 b10 b11 b12 b13 b14 b15 where
    random: "random = [b0, b1, b2, b3, b4, b5, b6, b7, b8, b9, b10, b11, b12, b13, b14, b15]"
    using assms by (auto simp: numeral_eq_Suc length_Suc_conv)
  have four: "hex_digit 4 = CHR ''4''" by code_simp
  have variant: "hex_digit (n mod 16) \<in> set ''89ab''" if "n \<in> {8, 9, 10, 11}" for n
  proof -
    have "list_all (\<lambda>n. hex_digit (n mod 16) \<in> set ''89ab'') [8, 9, 10, 11]" by code_simp
    then have "\<forall>n \<in> set [8, 9, 10, 11]. hex_digit (n mod 16) \<in> set ''89ab''" unfolding list_all_iff .
    moreover have "n \<in> set [8, 9, 10, 11]" using that by (simp only: list.set)
    ultimately show ?thesis by (rule bspec)
  qed
  define c where "c = hex_digit (unat (or (and b8 0x3f) 0x80) div 16 mod 16)"
  have "c \<in> set ''89ab''" unfolding c_def by (rule variant [OF nonce_bytes(2)])
  moreover have "is_lower_hex c" "is_lower_hex CHR ''4''"
    unfolding c_def four [symmetric] by (rule hex_digit_class, simp)+
  ultimately show ?thesis
    using nonce_bytes(1) [of b6]
    by (simp add: c_def [symmetric] ValidNonce_def RandomNonce_def random hex_pad_2 upt_rec four)
qed

section \<open>Written stages\<close>

lemma WriteStageProvenance_written:
  assumes "WriteStageProvenance (Some f) written fs stage package_id descriptor_sha256 artifact_sha256 = (Inr state, fs')"
    and "real_directory fs (fo_path stage)"
  obtains entries digest where "Inventory (Some f) fs (fo_path stage) = Inr entries"
    and "ps_marker state = \<lparr>mk_nonce = fo_nonce stage, mk_package_id = package_id,
      mk_descriptor_sha256 = descriptor_sha256, mk_artifact_sha256 = artifact_sha256, mk_entries = entries\<rparr>"
    and "f (EncodeCanonicalJson (EncodeMarker (ps_marker state))) = Inr digest"
    and "ps_marker_sha256 state = StageBytesToHex digest"
    and "fs_at fs (fo_path stage @ [kStageProvenanceFileName]) = None"
    and "fs' = fs_put fs (fo_path stage @ [kStageProvenanceFileName])
      (Some (Fs_File (EncodeCanonicalJson (EncodeMarker (ps_marker state)))))"
    and "ValidNonce (fo_nonce stage)" and "fo_path stage \<noteq> []"
    and "last (fo_path stage) = kOwnedStagePrefix @ fo_nonce stage"
    and "package_id \<noteq> []" and "ValidSha256 descriptor_sha256" and "ValidSha256 artifact_sha256"
proof -
  have "kOwnedStagePrefix \<noteq> []" by (simp add: kOwnedStagePrefix_def)
  with assms show ?thesis
    by (auto simp: WriteStageProvenance_def WriteExclusive_def open_exclusive_def realpath_real Let_def
        call_sha256_def bindE_Inr_iff split: if_splits sum.splits prod.splits option.splits intro!: that)
qed

text \<open>What a stage looks like after its marker was written.\<close>

lemma written_stage:
  assumes wrote: "WriteStageProvenance (Some f) written fs stage package_id descriptor_sha256 artifact_sha256 = (Inr state, fs')"
    and real: "real_directory fs (fo_path stage)"
    and tree: "fs_at fs (fo_path stage) = Some (Fs_Directory cs)" "wf_children cs" "portable_tree cs"
    and f: "digests f"
  shows "marker_ok (ps_marker state)" and "real_directory fs' (fo_path stage)"
    and "Inventory (Some f) fs' (fo_path stage) = Inr (mk_entries (ps_marker state))"
    and "ReadCanonicalMarker fs' (fo_path stage) owned =
      Inr (ps_marker state, EncodeCanonicalJson (EncodeMarker (ps_marker state)))"
    and "ValidSha256 (ps_marker_sha256 state)"
    and "\<exists>digest. f (EncodeCanonicalJson (EncodeMarker (ps_marker state))) = Inr digest \<and>
      ps_marker_sha256 state = StageBytesToHex digest"
proof -
  let ?p = "fo_path stage" and ?m = "ps_marker state"
  let ?text = "EncodeCanonicalJson (EncodeMarker ?m)"
  from WriteStageProvenance_written [OF wrote real] obtain entries digest where
    inventory: "Inventory (Some f) fs ?p = Inr entries"
    and m: "?m = \<lparr>mk_nonce = fo_nonce stage, mk_package_id = package_id,
      mk_descriptor_sha256 = descriptor_sha256, mk_artifact_sha256 = artifact_sha256, mk_entries = entries\<rparr>"
    and digest: "f ?text = Inr digest" "ps_marker_sha256 state = StageBytesToHex digest"
    and absent: "fs_at fs (?p @ [kStageProvenanceFileName]) = None"
    and fs': "fs' = fs_put fs (?p @ [kStageProvenanceFileName]) (Some (Fs_File ?text))"
    and valid: "ValidNonce (fo_nonce stage)" "?p \<noteq> []" "last ?p = kOwnedStagePrefix @ fo_nonce stage"
      "package_id \<noteq> []" "ValidSha256 descriptor_sha256" "ValidSha256 artifact_sha256" by metis
  from inventory real tree(1) obtain found where
    found: "mapE (entry_of (Some f)) (walk [] cs) = Inr found" "entries = sort_key pe_path found"
    by (auto simp: Inventory_iff node_at_real)
  show ok: "marker_ok ?m"
    using valid found_entries_ok [OF found(1) f tree(3)] sorted_found [OF found(1) tree(2)]
    by (simp add: m marker_ok_def found(2) list_all_iff)
  show real': "real_directory fs' ?p" using real by (simp add: fs' real_directory_put strict_prefix_def)
  have "kStageProvenanceFileName \<notin> fst ` set cs"
    using absent tree(1) by (auto simp: fs_at_append map_of_eq_None_iff split: option.splits)
  then have "fs_at fs' ?p = Some (Fs_Directory (cs @ [(kStageProvenanceFileName, Fs_File ?text)]))"
    by (simp add: fs' fs_at_put_parent [OF tree(1)] update_absent)
  then show "Inventory (Some f) fs' ?p = Inr (mk_entries ?m)"
    using found real' by (auto simp: Inventory_iff node_at_real walk_marker m)
  have "fs_at fs' (?p @ [kStageProvenanceFileName]) = Some (Fs_File ?text)"
    using tree.look_changed [of fs "?p @ [kStageProvenanceFileName]"] real_directory_at [OF real]
    by (simp add: fs')
  then show "ReadCanonicalMarker fs' ?p owned = Inr (?m, ?text)"
    using ReadCanonicalMarker_written [OF real' _ ok] valid by (simp add: m)
  show "ValidSha256 (ps_marker_sha256 state)"
    using digest digests_length [OF f] by (simp add: ValidSha256_digest)
  show "\<exists>digest. f ?text = Inr digest \<and> ps_marker_sha256 state = StageBytesToHex digest"
    using digest by blast
qed

section \<open>The content of a stage\<close>

datatype staged = Staged_Directory | Staged_File string | Staged_Symlink string | Staged_Other

fun staged_of :: "fs_node \<Rightarrow> staged" where
  "staged_of (Fs_Directory _) = Staged_Directory"
| "staged_of (Fs_File bytes) = Staged_File bytes"
| "staged_of (Fs_Symlink target) = Staged_Symlink target"
| "staged_of _ = Staged_Other"

text \<open>The abstract view of a stage: what is found under each relative path.\<close>

definition stage_files :: "(string \<times> fs_node) list \<Rightarrow> string \<Rightarrow> staged option" where
  "stage_files cs = map_of (map (\<lambda>(path, node). (path, staged_of node)) (walk [] cs))"

text \<open>The texts that are digested when a stage is verified: the marker and every file.\<close>

definition stage_texts :: "fs_node \<Rightarrow> fs_path \<Rightarrow> (string \<times> fs_node) list \<Rightarrow> string set" where
  "stage_texts fs root cs =
     {bytes. \<exists>owned marker. ReadCanonicalMarker fs root owned = Inr (marker, bytes)} \<union>
     {bytes. \<exists>path. (path, Fs_File bytes) \<in> set (walk [] cs)}"

text \<open>No two of the given texts have the same digest.\<close>

definition collision_free :: "(string \<Rightarrow> 8 word list result) \<Rightarrow> string set \<Rightarrow> bool" where
  "collision_free f texts \<longleftrightarrow> (\<forall>s \<in> texts. \<forall>t \<in> texts. f s = f t \<longrightarrow> s = t)"

definition stage_verified ::
    "stage_sha256 \<Rightarrow> fs_node \<Rightarrow> fs_path \<Rightarrow> string \<Rightarrow> StageProvenanceMarker \<Rightarrow> bool" where
  "stage_verified sha256 fs root digest marker \<longleftrightarrow>
     VerifyStageProvenance sha256 fs root digest = Inr marker \<or>
     VerifyRelocatedStageProvenance sha256 fs root digest = Inr marker"

lemma stage_verifiedD:
  assumes "stage_verified (Some f) fs root digest marker"
  shows "\<exists>owned bytes d. ReadCanonicalMarker fs root owned = Inr (marker, bytes) \<and> f bytes = Inr d \<and>
    StageBytesToHex d = digest \<and> Inventory (Some f) fs root = Inr (mk_entries marker)"
  using assms unfolding stage_verified_def
proof
  assume "VerifyStageProvenance (Some f) fs root digest = Inr marker"
  then obtain bytes d where "ReadCanonicalMarker fs root True = Inr (marker, bytes)" "f bytes = Inr d"
    "StageBytesToHex d = digest" "Inventory (Some f) fs root = Inr (mk_entries marker)"
    by (fastforce simp: VerifyStageProvenance_def ReadStageProvenance_def bindE_Inr_iff EqualEntries_iff
        call_sha256_def split: if_splits)
  then show ?thesis by blast
next
  assume "VerifyRelocatedStageProvenance (Some f) fs root digest = Inr marker"
  then obtain bytes d where "ReadCanonicalMarker fs root False = Inr (marker, bytes)" "f bytes = Inr d"
    "StageBytesToHex d = digest" "Inventory (Some f) fs root = Inr (mk_entries marker)"
    by (fastforce simp: VerifyRelocatedStageProvenance_def bindE_Inr_iff EqualEntries_iff
        call_sha256_def split: if_splits)
  then show ?thesis by blast
qed

lemma ReadCanonicalMarker_text:
  assumes "ReadCanonicalMarker fs root owned = Inr (m, bytes)"
    and "ReadCanonicalMarker fs' root' owned' = Inr (m', bytes)"
  shows "m = m'"
  using assms by (auto simp: ReadCanonicalMarker_def bindE_Inr_iff split: if_splits)

lemma entry_constructors [simp]:
  "directory_entry p = directory_entry p' \<longleftrightarrow> p = p'"
  "symlink_entry p t = symlink_entry p' t' \<longleftrightarrow> p = p' \<and> t = t'"
  "file_entry p s d = file_entry p' s' d' \<longleftrightarrow> p = p' \<and> length s = length s' \<and> d = d'"
  "directory_entry p \<noteq> file_entry p' s d" "file_entry p' s d \<noteq> directory_entry p"
  "directory_entry p \<noteq> symlink_entry p' t" "symlink_entry p' t \<noteq> directory_entry p"
  "file_entry p s d \<noteq> symlink_entry p' t" "symlink_entry p' t \<noteq> file_entry p s d"
  by (simp_all add: directory_entry_def file_entry_def symlink_entry_def StageBytesToHex_inject)

lemma entry_of_Inr:
  assumes "entry_of (Some f) (p, n) = Inr e"
  obtains children where "n = Fs_Directory children" "e = directory_entry p"
  | s d where "n = Fs_File s" "f s = Inr d" "e = file_entry p s d"
  | t where "n = Fs_Symlink t" "e = symlink_entry p t"
  using assms by (cases n) (auto simp: bindE_Inr_iff call_sha256_def)

lemma entry_of_inject:
  assumes "entry_of (Some f) (p, n) = Inr e" and "entry_of (Some f) (p', n') = Inr e"
    and "\<And>s t. n = Fs_File s \<Longrightarrow> n' = Fs_File t \<Longrightarrow> f s = f t \<Longrightarrow> s = t"
  shows "p = p' \<and> staged_of n = staged_of n'"
  using assms(1)
proof (cases rule: entry_of_Inr)
  case (2 s d)
  with assms(2,3) show ?thesis by (cases rule: entry_of_Inr) simp_all
qed (use assms(2) in \<open>cases rule: entry_of_Inr, simp_all\<close>)+

lemma stage_files_subset:
  assumes "mapE (entry_of (Some f)) (walk [] cs) = Inr found"
    and "mapE (entry_of (Some f)) (walk [] cs') = Inr found'" and "set found = set found'"
    and "collision_free f texts" and "\<forall>p s. (p, Fs_File s) \<in> set (walk [] cs) \<union> set (walk [] cs') \<longrightarrow> s \<in> texts"
    and "(p, n) \<in> set (walk [] cs)"
  shows "\<exists>n'. (p, n') \<in> set (walk [] cs') \<and> staged_of n = staged_of n'"
proof -
  have all2: "list_all2 (\<lambda>n e. entry_of (Some f) n = Inr e) (walk [] cs) found"
    "list_all2 (\<lambda>n e. entry_of (Some f) n = Inr e) (walk [] cs') found'"
    using assms(1,2) by (simp_all add: mapE_Inr_iff)
  obtain e where e: "e \<in> set found" "entry_of (Some f) (p, n) = Inr e"
    using all2(1) assms(6) unfolding list_all2_conv_all_nth by (metis in_set_conv_nth)
  with assms(3) obtain p' n' where n': "(p', n') \<in> set (walk [] cs')" "entry_of (Some f) (p', n') = Inr e"
    using all2(2) unfolding list_all2_conv_all_nth by (metis in_set_conv_nth surj_pair)
  have "s = t" if "n = Fs_File s" "n' = Fs_File t" "f s = f t" for s t
  proof -
    have "s \<in> texts" "t \<in> texts" using that assms(5,6) n'(1) by blast+
    with assms(4) that(3) show ?thesis unfolding collision_free_def by blast
  qed
  with entry_of_inject [OF e(2) n'(2)] n'(1) show ?thesis by blast
qed

lemma stage_files_determined:
  assumes "Inventory (Some f) fs root = Inr es" and "Inventory (Some f) fs' root' = Inr es"
    and "node_at fs root = Some (Fs_Directory cs)" and "node_at fs' root' = Some (Fs_Directory cs')"
    and "wf_children cs" and "wf_children cs'"
    and "collision_free f (stage_texts fs root cs \<union> stage_texts fs' root' cs')"
  shows "stage_files cs = stage_files cs'"
proof -
  let ?view = "\<lambda>cs. map (\<lambda>(path, node). (path, staged_of node)) (walk [] cs)"
  obtain found found' where found: "mapE (entry_of (Some f)) (walk [] cs) = Inr found"
    "mapE (entry_of (Some f)) (walk [] cs') = Inr found'" "sort_key pe_path found = sort_key pe_path found'"
    using assms(1-4) by (auto simp: Inventory_iff)
  have same: "set found = set found'" using arg_cong [OF found(3), of set] by simp
  have texts: "\<forall>p s. (p, Fs_File s) \<in> set (walk [] cs) \<union> set (walk [] cs') \<longrightarrow>
      s \<in> stage_texts fs root cs \<union> stage_texts fs' root' cs'"
    by (auto simp: stage_texts_def)
  note half = stage_files_subset [OF found(1,2) same assms(7) texts]
    stage_files_subset [OF found(2,1) same [symmetric] assms(7) texts [unfolded Un_commute [of "set (walk [] cs)"]]]
  have "set (?view cs) \<subseteq> set (?view cs')" using half(1) by (force simp: image_iff)
  moreover have "set (?view cs') \<subseteq> set (?view cs)" using half(2) by (force simp: image_iff)
  ultimately have "set (?view cs) = set (?view cs')" by (rule subset_antisym)
  moreover have "distinct (map fst (?view c))" if "wf_children c" for c
    using walk_distinct(2) [OF that, of "[]"] by (simp add: comp_def case_prod_beta)
  ultimately show ?thesis
    unfolding stage_files_def using assms(5,6) by (subst map_of_inject_set) blast+
qed

lemma stage_verified_content:
  assumes "stage_verified (Some f) fs root digest m" and "stage_verified (Some f) fs' root' digest m'"
    and "node_at fs root = Some (Fs_Directory cs)" and "node_at fs' root' = Some (Fs_Directory cs')"
    and "wf_children cs" and "wf_children cs'"
    and "collision_free f (stage_texts fs root cs \<union> stage_texts fs' root' cs')"
  shows "m = m' \<and> stage_files cs = stage_files cs'"
proof -
  obtain owned bytes d where v: "ReadCanonicalMarker fs root owned = Inr (m, bytes)" "f bytes = Inr d"
    "StageBytesToHex d = digest" "Inventory (Some f) fs root = Inr (mk_entries m)"
    using stage_verifiedD [OF assms(1)] by blast
  obtain owned' bytes' d' where v': "ReadCanonicalMarker fs' root' owned' = Inr (m', bytes')" "f bytes' = Inr d'"
    "StageBytesToHex d' = digest" "Inventory (Some f) fs' root' = Inr (mk_entries m')"
    using stage_verifiedD [OF assms(2)] by blast
  have "f bytes = f bytes'" using v(2,3) v'(2,3) StageBytesToHex_inject by metis
  moreover have "bytes \<in> stage_texts fs root cs" "bytes' \<in> stage_texts fs' root' cs'"
    using v(1) v'(1) by (auto simp: stage_texts_def)
  ultimately have "bytes = bytes'" using assms(7) unfolding collision_free_def by blast
  then have "m = m'" using ReadCanonicalMarker_text v(1) v'(1) by blast
  with stage_files_determined [OF v(4) _ assms(3-7)] v'(4) show ?thesis by blast
qed

section \<open>Removal\<close>

lemma RemoveNode_directory:
  assumes "RemoveNode removable path node = (Inr (), left)" and "S_ISDIR node"
  shows "left = None"
  using assms by (cases node) (auto simp: S_ISDIR_def split: prod.splits sum.splits if_splits read_failure.splits)

lemma RemoveTree_elsewhere:
  "apart path q \<Longrightarrow> fs_at (snd (RemoveTree removable fs path)) q = fs_at fs q"
  by (auto simp: RemoveTree_def tree.look_apart split: option.split prod.split)

lemma RemoveTree_gone:
  assumes "RemoveTree removable fs path = (Inr (), fs')" and "path \<noteq> []" and "prefix path q"
    and "fs_at fs path = Some node" and "S_ISDIR node"
  shows "fs_at fs' q = None"
proof -
  obtain left where left: "RemoveNode removable path node = (Inr (), left)" "fs' = fs_put fs path left"
    using assms(1,4) by (auto simp: RemoveTree_def split: prod.splits)
  obtain above where above: "fs_at fs (butlast path) = Some above" "fs_at above [last path] = Some node"
    using assms(2,4) fs_at_append [of fs "butlast path" "[last path]"] by (auto split: option.splits)
  then have "is_directory (fs_at fs (butlast path))"
    using fs_at_Nil_directory [of above "last path" "[]"] by simp
  with RemoveNode_directory [OF left(1) assms(5)] left(2) assms(2,3) show ?thesis
    by (simp add: tree.removed_inside)
qed

lemma CanonicalStageDirectory_Inr:
  assumes "CanonicalStageDirectory fs path field = Inr p"
  shows "realpath fs path = Some p" and "\<exists>node. fs_at fs p = Some node \<and> S_ISDIR node"
proof -
  obtain node where node: "lstat fs path = Some node" "S_ISDIR node" "realpath fs path = Some p"
    using assms by (auto simp: CanonicalStageDirectory_def split: option.splits if_splits)
  then show "realpath fs path = Some p" "\<exists>node. fs_at fs p = Some node \<and> S_ISDIR node"
    using lstat_directory by blast+
qed

section \<open>A concrete stage\<close>

definition sample_nonce :: string where
  "sample_nonce = RandomNonce (replicate 16 0)"

definition sample_stage :: FilesystemOwnedStage where
  "sample_stage = \<lparr>fo_path = [''tmp'', kOwnedStagePrefix @ sample_nonce], fo_parent_path = [''tmp''],
     fo_nonce = sample_nonce\<rparr>"

definition sample_fs :: fs_node where
  "sample_fs = Fs_Directory [(''tmp'', Fs_Directory [(kOwnedStagePrefix @ sample_nonce,
     Fs_Directory [(''app'', Fs_File ''x'')])])]"

text \<open>A digest function that tells the file from the marker.\<close>

definition sample_sha256 :: "string \<Rightarrow> 8 word list result" where
  "sample_sha256 s = Inr ((if s = ''x'' then 1 else 0) # replicate 31 0)"

lemma sample_sha256_digests: "digests sample_sha256"
  by (simp add: digests_def sample_sha256_def)

lemma sample_stage_real: "real_directory sample_fs (fo_path sample_stage)"
proof -
  have "real_directory sample_fs []" by (simp add: real_directory_def is_directory_def sample_fs_def)
  then have "real_directory sample_fs [''tmp'']"
    using real_directory_snoc [of sample_fs "[]" "''tmp''"] by (simp add: is_directory_def sample_fs_def)
  then show ?thesis
    using real_directory_snoc [of sample_fs "[''tmp'']"]
    by (simp add: is_directory_def sample_fs_def sample_stage_def kOwnedStagePrefix_def)
qed

lemma sample_stage_children:
  "fs_at sample_fs (fo_path sample_stage) = Some (Fs_Directory [(''app'', Fs_File ''x'')])"
  by (simp add: sample_fs_def sample_stage_def)

lemma sample_tree: "wf_children [(''app'', Fs_File ''x'')]" "portable_tree [(''app'', Fs_File ''x'')]"
proof -
  have "relative_path ''app''" by (simp add: relative_path_def ValidateRelative_def Split_no_occurrence)
  then show "portable_tree [(''app'', Fs_File ''x'')]"
    by (simp add: portable_tree_def child_path_def kStageProvenanceFileName_def int64_defs)
qed simp

lemma sample_write:
  assumes "ValidSha256 d" and "ValidSha256 a"
  shows "\<exists>state fs'. WriteStageProvenance (Some sample_sha256) True sample_fs sample_stage ''app'' d a = (Inr state, fs')"
proof -
  have "ValidNonce sample_nonce" by (simp add: sample_nonce_def ValidNonce_RandomNonce)
  moreover have "\<exists>es. Inventory (Some sample_sha256) sample_fs (fo_path sample_stage) = Inr es"
    using sample_stage_real sample_stage_children
    by (simp add: Inventory_iff node_at_real child_path_def kStageProvenanceFileName_def
        call_sha256_def sample_sha256_def)
  moreover have "open_exclusive sample_fs (fo_path sample_stage @ [kStageProvenanceFileName]) \<noteq> None"
    using sample_stage_real sample_stage_children
    by (simp add: open_exclusive_def realpath_real fs_at_append is_directory_def kStageProvenanceFileName_def)
  ultimately show ?thesis
    using assms by (auto simp: WriteStageProvenance_def WriteExclusive_def Let_def call_sha256_def sample_sha256_def
        sample_stage_def)
qed

lemma sample_digests: "ValidSha256 (replicate 64 CHR ''a'')" "ValidSha256 (replicate 64 CHR ''b'')"
  by (simp_all add: ValidSha256_def list_all_iff char_class_defs)

text \<open>The written sample: it verifies, its digests do not collide, and the marker's digest is all zeros.\<close>

lemma sample_written:
  assumes "ValidSha256 d" and "ValidSha256 a"
  obtains fs state cs where
    "WriteStageProvenance (Some sample_sha256) True sample_fs sample_stage ''app'' d a = (Inr state, fs)"
    "stage_verified (Some sample_sha256) fs (fo_path sample_stage) (ps_marker_sha256 state) (ps_marker state)"
    "node_at fs (fo_path sample_stage) = Some (Fs_Directory cs)" "wf_children cs"
    "collision_free sample_sha256 (stage_texts fs (fo_path sample_stage) cs \<union> stage_texts fs (fo_path sample_stage) cs)"
    "ps_marker_sha256 state = StageBytesToHex (replicate 32 0)"
    "\<exists>entries. ps_marker state = \<lparr>mk_nonce = sample_nonce, mk_package_id = ''app'',
      mk_descriptor_sha256 = d, mk_artifact_sha256 = a, mk_entries = entries\<rparr>"
proof -
  obtain state fs where run: "WriteStageProvenance (Some sample_sha256) True sample_fs sample_stage ''app'' d a =
      (Inr state, fs)" using sample_write [OF assms] by blast
  note stage = written_stage [OF run sample_stage_real sample_stage_children sample_tree sample_sha256_digests]
  let ?text = "EncodeCanonicalJson (EncodeMarker (ps_marker state))"
  let ?cs = "[(''app'', Fs_File ''x''), (kStageProvenanceFileName, Fs_File ?text)]"
  have verified: "stage_verified (Some sample_sha256) fs (fo_path sample_stage) (ps_marker_sha256 state) (ps_marker state)"
    using stage(3-6) by (auto simp: stage_verified_def VerifyStageProvenance_def ReadStageProvenance_def
        call_sha256_def EqualEntries_iff)
  obtain entries where m: "ps_marker state = \<lparr>mk_nonce = fo_nonce sample_stage, mk_package_id = ''app'',
      mk_descriptor_sha256 = d, mk_artifact_sha256 = a, mk_entries = entries\<rparr>"
    and "fs = fs_put sample_fs (fo_path sample_stage @ [kStageProvenanceFileName]) (Some (Fs_File ?text))"
    using WriteStageProvenance_written [OF run sample_stage_real] by metis
  then have cs: "node_at fs (fo_path sample_stage) = Some (Fs_Directory ?cs)"
    using fs_at_put_parent [OF sample_stage_children] stage(2)
    by (simp add: node_at_real kStageProvenanceFileName_def)
  have wf: "wf_children ?cs" by (simp add: kStageProvenanceFileName_def)
  have texts: "stage_texts fs (fo_path sample_stage) ?cs \<subseteq> {?text, ''x''}"
    using stage(4) by (auto simp: stage_texts_def child_path_def kStageProvenanceFileName_def)
  have "hd ?text = CHR ''{''" by (simp add: EncodeCanonicalJson_def EncodeMarker_def)
  then have other: "?text \<noteq> ''x''" by auto
  have "replicate 32 (0 :: 8 word) = 0 # replicate 31 0" by (simp add: numeral_eq_Suc)
  then have zero: "ps_marker_sha256 state = StageBytesToHex (replicate 32 0)"
    using stage(6) other by (auto simp: sample_sha256_def)
  have "collision_free sample_sha256
      (stage_texts fs (fo_path sample_stage) ?cs \<union> stage_texts fs (fo_path sample_stage) ?cs)"
    using texts other by (auto simp: collision_free_def sample_sha256_def)
  with run verified cs wf zero m show ?thesis by (intro that) (auto simp: sample_stage_def)
qed

section \<open>Properties\<close>

text \<open>
  A stage verifies as it was written: after the marker was written into a stage whose tree has paths
  that every platform reads as relative, both verifications of the stage against the digest that
  was returned succeed with the marker that was returned, which carries the given identity.
\<close>

theorem stage_verifies_as_written:
  assumes "WriteStageProvenance (Some f) written fs stage package_id descriptor_sha256 artifact_sha256 = (Inr state, fs')"
    and "real_directory fs (fo_path stage)"
    and "fs_at fs (fo_path stage) = Some (Fs_Directory cs)" and "wf_children cs" and "portable_tree cs"
    and "digests f"
  shows "VerifyStageProvenance (Some f) fs' (fo_path stage) (ps_marker_sha256 state) = Inr (ps_marker state) \<and>
    VerifyRelocatedStageProvenance (Some f) fs' (fo_path stage) (ps_marker_sha256 state) = Inr (ps_marker state) \<and>
    mk_nonce (ps_marker state) = fo_nonce stage \<and> mk_package_id (ps_marker state) = package_id \<and>
    mk_descriptor_sha256 (ps_marker state) = descriptor_sha256 \<and>
    mk_artifact_sha256 (ps_marker state) = artifact_sha256"
proof -
  note stage = written_stage [OF assms]
  obtain entries where "ps_marker state = \<lparr>mk_nonce = fo_nonce stage, mk_package_id = package_id,
      mk_descriptor_sha256 = descriptor_sha256, mk_artifact_sha256 = artifact_sha256, mk_entries = entries\<rparr>"
    using WriteStageProvenance_written [OF assms(1,2)] by metis
  moreover from stage(6) obtain digest where
    "f (EncodeCanonicalJson (EncodeMarker (ps_marker state))) = Inr digest"
    "ps_marker_sha256 state = StageBytesToHex digest" by blast
  ultimately show ?thesis
    using stage(3-5) by (simp add: VerifyStageProvenance_def VerifyRelocatedStageProvenance_def
        ReadStageProvenance_def call_sha256_def EqualEntries_iff)
qed

theorem stage_verifies_as_written_witness:
  "\<exists>state fs'. WriteStageProvenance (Some sample_sha256) True sample_fs sample_stage ''app''
      (replicate 64 CHR ''a'') (replicate 64 CHR ''b'') = (Inr state, fs') \<and>
    VerifyStageProvenance (Some sample_sha256) fs' (fo_path sample_stage) (ps_marker_sha256 state) =
      Inr (ps_marker state)"
proof -
  obtain state fs' where run: "WriteStageProvenance (Some sample_sha256) True sample_fs sample_stage ''app''
      (replicate 64 CHR ''a'') (replicate 64 CHR ''b'') = (Inr state, fs')" using sample_write [OF sample_digests] by blast
  from stage_verifies_as_written [OF run sample_stage_real sample_stage_children sample_tree sample_sha256_digests]
  show ?thesis using run by blast
qed

text \<open>
  C8. A verified stage cannot have been changed: two trees that verify against the same marker digest, in
  place or after they were moved, have the same marker and hold the same files with the same bytes,
  the same links and the same directories, as long as the digest function has no collision among
  the texts that were digested.
\<close>

theorem stage_tamper_evident:
  assumes "stage_verified (Some f) fs root digest m" and "stage_verified (Some f) fs' root' digest m'"
    and "node_at fs root = Some (Fs_Directory cs)" and "node_at fs' root' = Some (Fs_Directory cs')"
    and "wf_children cs" and "wf_children cs'"
    and "collision_free f (stage_texts fs root cs \<union> stage_texts fs' root' cs')"
  shows "m = m' \<and> stage_files cs = stage_files cs'"
  using assms by (rule stage_verified_content)

theorem stage_tamper_evident_witness:
  "\<exists>fs m digest. stage_verified (Some sample_sha256) fs (fo_path sample_stage) digest m \<and>
     (\<forall>m'. stage_verified (Some sample_sha256) fs (fo_path sample_stage) digest m' \<longrightarrow> m = m')"
proof -
  from sample_digests show ?thesis
  proof (rule sample_written)
    fix fs state cs
    assume verified: "stage_verified (Some sample_sha256) fs (fo_path sample_stage) (ps_marker_sha256 state) (ps_marker state)"
      and tree: "node_at fs (fo_path sample_stage) = Some (Fs_Directory cs)" "wf_children cs"
      and free: "collision_free sample_sha256
        (stage_texts fs (fo_path sample_stage) cs \<union> stage_texts fs (fo_path sample_stage) cs)"
    show ?thesis using stage_tamper_evident [OF verified _ tree(1,1,2,2) free] verified by blast
  qed
qed

text \<open>
  Cleaning up removes the stage it is asked for and nothing else: the file system changes only if
  the path resolves to the child that the nonce names in the given parent and its marker verifies
  with this nonce; then nothing outside this child has changed, and if the call returns, the child is
  gone with everything in it.
\<close>

theorem remove_only_owned:
  "case RemoveOwnedStage sha removable fs parent_path stage_root nonce of (x, fs') \<Rightarrow>
     (\<exists>e. x = Inl e) \<and> fs' = fs \<or>
     (\<exists>parent state marker. realpath fs parent_path = Some parent \<and> ValidNonce nonce \<and>
       realpath fs stage_root = Some (parent @ [kOwnedStagePrefix @ nonce]) \<and>
       ReadStageProvenance sha fs (parent @ [kOwnedStagePrefix @ nonce]) = Inr state \<and>
       VerifyStageProvenance sha fs (parent @ [kOwnedStagePrefix @ nonce]) (ps_marker_sha256 state) = Inr marker \<and>
       mk_nonce marker = nonce \<and>
       (\<forall>q. apart (parent @ [kOwnedStagePrefix @ nonce]) q \<longrightarrow> fs_at fs' q = fs_at fs q) \<and>
       (x = Inr () \<longrightarrow> (\<forall>q. prefix (parent @ [kOwnedStagePrefix @ nonce]) q \<longrightarrow> fs_at fs' q = None)))"
proof -
  obtain x fs' where run: "RemoveOwnedStage sha removable fs parent_path stage_root nonce = (x, fs')" by fastforce
  define g where "g = bindE (CanonicalStageDirectory fs parent_path ''Staging parent'') (\<lambda>parent.
           bindE (CanonicalStageDirectory fs stage_root ''Stage root'') (\<lambda>root.
             if root = [] \<or> butlast root \<noteq> parent \<or> \<not> ValidNonce nonce \<or>
                last root \<noteq> kOwnedStagePrefix @ nonce
             then Inl (RuntimeError ''Owned stage cleanup path is invalid.'')
             else
           bindE (ReadStageProvenance sha fs root) (\<lambda>state.
           bindE (VerifyStageProvenance sha fs root (ps_marker_sha256 state)) (\<lambda>marker.
             if mk_nonce marker \<noteq> nonce then Inl (RuntimeError ''Owned stage cleanup nonce changed.'')
             else Inr root))))"
  have run_g: "(x, fs') = (case g of Inl e \<Rightarrow> (Inl e, fs) | Inr root \<Rightarrow> RemoveTree removable fs root)"
    using run by (simp add: RemoveOwnedStage_def g_def)
  show ?thesis
  proof (cases g)
    case (Inl e)
    with run_g run show ?thesis by simp
  next
    case (Inr root)
    then obtain parent state marker where
      path: "CanonicalStageDirectory fs parent_path ''Staging parent'' = Inr parent"
        "CanonicalStageDirectory fs stage_root ''Stage root'' = Inr root"
        "root \<noteq> []" "butlast root = parent" "last root = kOwnedStagePrefix @ nonce" "ValidNonce nonce"
      and marker: "ReadStageProvenance sha fs root = Inr state"
        "VerifyStageProvenance sha fs root (ps_marker_sha256 state) = Inr marker" "mk_nonce marker = nonce"
      unfolding g_def by (auto simp: bindE_Inr_iff split: if_splits)
    have root: "root = parent @ [kOwnedStagePrefix @ nonce]" using path(3-5) by (metis append_butlast_last_id)
    have tree_run: "RemoveTree removable fs root = (x, fs')" using run_g Inr by simp
    obtain node where node: "fs_at fs root = Some node" "S_ISDIR node"
      using CanonicalStageDirectory_Inr(2) [OF path(2)] by blast
    have "fs_at fs' q = fs_at fs q" if "apart root q" for q
      using RemoveTree_elsewhere [OF that, of removable fs] tree_run by simp
    moreover have "fs_at fs' q = None" if "x = Inr ()" "prefix root q" for q
      using RemoveTree_gone [OF _ path(3) that(2) node] tree_run that(1) by simp
    ultimately have "realpath fs parent_path = Some parent \<and> ValidNonce nonce \<and>
       realpath fs stage_root = Some root \<and> ReadStageProvenance sha fs root = Inr state \<and>
       VerifyStageProvenance sha fs root (ps_marker_sha256 state) = Inr marker \<and> mk_nonce marker = nonce \<and>
       (\<forall>q. apart root q \<longrightarrow> fs_at fs' q = fs_at fs q) \<and>
       (x = Inr () \<longrightarrow> (\<forall>q. prefix root q \<longrightarrow> fs_at fs' q = None))"
      using path marker CanonicalStageDirectory_Inr(1) by blast
    then show ?thesis unfolding run root by auto
  qed
qed

theorem remove_only_owned_witness:
  "\<exists>fs fs'. RemoveOwnedStage (Some sample_sha256) (\<lambda>_. True) fs [''tmp''] (fo_path sample_stage) sample_nonce = (Inr (), fs') \<and>
     fs_at fs (fo_path sample_stage @ [''app'']) = Some (Fs_File ''x'') \<and>
     fs_at fs' (fo_path sample_stage @ [''app'']) = None"
proof -
  obtain state fs where run: "WriteStageProvenance (Some sample_sha256) True sample_fs sample_stage ''app''
      (replicate 64 CHR ''a'') (replicate 64 CHR ''b'') = (Inr state, fs)" using sample_write [OF sample_digests] by blast
  note stage = written_stage [OF run sample_stage_real sample_stage_children sample_tree sample_sha256_digests]
  let ?p = "fo_path sample_stage" and ?text = "EncodeCanonicalJson (EncodeMarker (ps_marker state))"
  have p: "?p = [''tmp''] @ [kOwnedStagePrefix @ sample_nonce]" by (simp add: sample_stage_def)
  obtain entries where m: "ps_marker state = \<lparr>mk_nonce = fo_nonce sample_stage, mk_package_id = ''app'',
      mk_descriptor_sha256 = replicate 64 CHR ''a'', mk_artifact_sha256 = replicate 64 CHR ''b'',
      mk_entries = entries\<rparr>" and "fs = fs_put sample_fs (?p @ [kStageProvenanceFileName]) (Some (Fs_File ?text))"
    using WriteStageProvenance_written [OF run sample_stage_real] by metis
  then have at: "fs_at fs ?p = Some (Fs_Directory [(''app'', Fs_File ''x''), (kStageProvenanceFileName, Fs_File ?text)])"
    using fs_at_put_parent [OF sample_stage_children] by (simp add: kStageProvenanceFileName_def)
  have parent: "CanonicalStageDirectory fs [''tmp''] ''Staging parent'' = Inr [''tmp'']"
    by (rule CanonicalStageDirectory_real, rule real_directory_append, rule stage(2) [unfolded p])
  have nonce: "ValidNonce sample_nonce" "mk_nonce (ps_marker state) = sample_nonce"
    using m by (simp_all add: sample_nonce_def ValidNonce_RandomNonce sample_stage_def)
  have read_state: "ReadStageProvenance (Some sample_sha256) fs ?p = Inr state"
    and verify: "VerifyStageProvenance (Some sample_sha256) fs ?p (ps_marker_sha256 state) = Inr (ps_marker state)"
    using stage(3-6) by (auto simp: VerifyStageProvenance_def ReadStageProvenance_def call_sha256_def EqualEntries_iff)
  have "RemoveTree (\<lambda>_. True) fs ?p = (Inr (), fs_put fs ?p None)"
    using at by (simp add: RemoveTree_def kStageProvenanceFileName_def)
  with parent CanonicalStageDirectory_real [OF stage(2)] nonce read_state verify p
  have removed: "RemoveOwnedStage (Some sample_sha256) (\<lambda>_. True) fs [''tmp''] ?p sample_nonce =
      (Inr (), fs_put fs ?p None)"
    by (simp add: RemoveOwnedStage_def)
  have tmp: "realpath fs [''tmp''] = Some [''tmp'']" using CanonicalStageDirectory_Inr(1) [OF parent] .
  have "fs_at (fs_put fs ?p None) q = None" if "prefix ([''tmp''] @ [kOwnedStagePrefix @ sample_nonce]) q" for q
    using remove_only_owned [where sha = "Some sample_sha256" and removable = "\<lambda>_. True" and fs = fs
      and parent_path = "[''tmp'']" and stage_root = ?p and nonce = sample_nonce] that tmp
    unfolding removed by auto
  moreover have "fs_at fs (?p @ [''app'']) = Some (Fs_File ''x'')" using at by (simp add: fs_at_append)
  ultimately show ?thesis using removed p by (metis prefixI)
qed

text \<open>
  A new stage is owned: when creation returns, the stage is an empty directory that did not exist
  before, directly in the resolved parent, named by a valid nonce; the nonce is the requested one, or
  it is made of the random bytes. Nothing outside the stage has changed.
\<close>

theorem create_stage_fresh:
  assumes "CreateOwnedStage random created removable fs parent_path requested_nonce = (Inr stage, fs')"
  shows "realpath fs parent_path = Some (fo_parent_path stage) \<and> fo_parent_path stage \<noteq> [] \<and>
    fo_path stage = fo_parent_path stage @ [kOwnedStagePrefix @ fo_nonce stage] \<and> ValidNonce (fo_nonce stage) \<and>
    fs_at fs (fo_path stage) = None \<and> realpath fs' (fo_path stage) = Some (fo_path stage) \<and>
    fs_at fs' (fo_path stage) = Some (Fs_Directory []) \<and>
    (\<forall>q. apart (fo_path stage) q \<longrightarrow> fs_at fs' q = fs_at fs q) \<and>
    (if requested_nonce = [] then \<exists>bytes. random = Inr bytes \<and> fo_nonce stage = RandomNonce bytes
     else fo_nonce stage = requested_nonce)"
proof -
  define g where "g = bindE (CanonicalStageDirectory fs parent_path ''Staging parent'') (\<lambda>parent.
           if parent = [] then Inl (RuntimeError ''Filesystem roots cannot be staging parents.'')
           else
           bindE (if requested_nonce = [] then map_sum id RandomNonce random else Inr requested_nonce) (\<lambda>nonce.
             if \<not> ValidNonce nonce then Inl (RuntimeError ''Stage nonce is invalid.'')
             else Inr (parent, nonce)))"
  obtain parent nonce where g: "g = Inr (parent, nonce)"
    using assms unfolding CreateOwnedStage_def g_def [symmetric] by (cases g) auto
  let ?child = "parent @ [kOwnedStagePrefix @ nonce]"
  let ?fs = "fs_put fs ?child (Some (Fs_Directory []))"
  have made: "fs_at fs ?child = None" "CanonicalStageDirectory ?fs ?child ''Owned stage'' = Inr ?child"
    "stage = \<lparr>fo_path = ?child, fo_parent_path = parent, fo_nonce = nonce\<rparr>" "fs' = ?fs"
    using assms unfolding CreateOwnedStage_def g_def [symmetric] g
    by (auto simp: Let_def bindE_Inr_iff split: if_splits sum.splits)
  obtain node above where "fs_at ?fs ?child = Some node" "fs_at ?fs parent = Some above"
    using CanonicalStageDirectory_Inr(2) [OF made(2)] fs_at_append [of ?fs parent] by (auto split: option.splits)
  then have "is_directory (fs_at ?fs parent)"
    using fs_at_append [of ?fs parent] fs_at_Nil_directory [of above] by auto
  then have empty: "fs_at ?fs ?child = Some (Fs_Directory [])"
    using tree.look_above [of parent ?child fs] tree.look_changed [of fs ?child] by (simp add: strict_prefix_def)
  have "CanonicalStageDirectory fs parent_path ''Staging parent'' = Inr parent" "parent \<noteq> []" "ValidNonce nonce"
    "if requested_nonce = [] then \<exists>bytes. random = Inr bytes \<and> nonce = RandomNonce bytes
     else nonce = requested_nonce"
    using g unfolding g_def by (auto simp: bindE_Inr_iff split: if_splits) (cases random; simp)+
  with made empty CanonicalStageDirectory_Inr(1) tree.look_apart
  show ?thesis by simp
qed

theorem create_stage_fresh_witness:
  "\<exists>stage fs'. CreateOwnedStage (Inr (replicate 16 0xff)) True (\<lambda>_. True) sample_fs [''tmp''] [] = (Inr stage, fs') \<and>
     ValidNonce (fo_nonce stage) \<and> fs_at fs' (fo_path stage) = Some (Fs_Directory []) \<and>
     fs_at fs' (fo_path sample_stage) = fs_at sample_fs (fo_path sample_stage)"
proof -
  let ?nonce = "RandomNonce (replicate 16 0xff)"
  let ?child = "[''tmp'', kOwnedStagePrefix @ ?nonce]"
  let ?fs = "fs_put sample_fs ?child (Some (Fs_Directory []))"
  have nonce: "ValidNonce ?nonce" by (simp add: ValidNonce_RandomNonce)
  have differ: "?nonce \<noteq> sample_nonce" unfolding sample_nonce_def by code_simp
  have tmp: "real_directory sample_fs [''tmp'']"
    using sample_stage_real real_directory_append [of sample_fs "[''tmp'']"] by (simp add: sample_stage_def)
  have absent: "fs_at sample_fs ?child = None" using differ by (simp add: sample_fs_def)
  have "fs_at ?fs ?child = Some (Fs_Directory [])"
    using tree.look_changed [of sample_fs ?child] real_directory_at [OF tmp] by simp
  moreover have "real_directory ?fs [''tmp'']" using real_directory_put [OF tmp, of ?child] by (simp add: strict_prefix_def)
  ultimately have "real_directory ?fs ([''tmp''] @ [kOwnedStagePrefix @ ?nonce])"
    unfolding real_directory_snoc by (simp add: is_directory_def kOwnedStagePrefix_def)
  from CanonicalStageDirectory_real [OF this] CanonicalStageDirectory_real [OF tmp] absent nonce
  have run: "CreateOwnedStage (Inr (replicate 16 0xff)) True (\<lambda>_. True) sample_fs [''tmp''] [] =
      (Inr \<lparr>fo_path = ?child, fo_parent_path = [''tmp''], fo_nonce = ?nonce\<rparr>, ?fs)"
    by (simp add: CreateOwnedStage_def Let_def)
  have "apart ?child (fo_path sample_stage)" using differ by (simp add: sample_stage_def apart_def)
  with create_stage_fresh [OF run] run show ?thesis by auto
qed

end
