(* ===== verification/Install_Authorization.thy ===== *)
theory Install_Authorization
  imports Install_Request_Sample Stage_Provenance
begin

text \<open>
  The decision of the install helper whether a request may run, \<^verbatim>\<open>native_install_authorization.{h,cc}\<close>:
  the sealed policy, the staged release manifest, the stage marker and the request must agree, and
  the manifest must be signed by a key of the policy. The digest function and the Ed25519 check are
  parameters.
\<close>

section \<open>Data\<close>

record NativeInstallAuthorizationReleaseKeyV1 =
  rk_key_id :: string
  rk_algorithm :: string
  rk_public_key_base64 :: string

record NativeInstallAuthorizationStrategyV1 =
  as_strategy :: string
  as_provider :: string

record NativeInstallAuthorizationPolicyV1 =
  ap_policy_id :: string
  ap_application_package_id :: string
  ap_allowed_target_classes :: "string list"
  ap_release_root_public_keys :: "NativeInstallAuthorizationReleaseKeyV1 list"
  ap_allowed_strategies :: "NativeInstallAuthorizationStrategyV1 list"
  ap_minimum_helper_protocol_version :: int

type_synonym authorization_sha256 = "(string \<Rightarrow> string result) option"

section \<open>The decision\<close>

definition auth_Fail :: "string \<Rightarrow> 'a result" where
  "auth_Fail detail = Inl (NativeInstallAuthorizationError detail)"

definition auth_IsSha256 :: "string \<Rightarrow> bool" where
  "auth_IsSha256 value \<longleftrightarrow> length value = 64 \<and> list_all is_lower_hex value"

definition CanonicalManifest :: "string \<Rightarrow> string result" where
  "CanonicalManifest encoded =
     (let canonical = (if encoded \<noteq> [] \<and> last encoded = CHR 0x0A then butlast encoded else encoded) in
      bindE (ParseJson canonical) (\<lambda>parsed.
        if canonical = [] \<or> EncodeCanonicalJson parsed \<noteq> canonical
        then auth_Fail ''release manifest is not canonical JSON''
        else Inr canonical))"

definition AllowsTarget :: "NativeInstallAuthorizationPolicyV1 \<Rightarrow> string \<Rightarrow> bool" where
  "AllowsTarget policy target_class = list_ex (\<lambda>allowed. allowed = target_class) (ap_allowed_target_classes policy)"

definition AllowsStrategy :: "NativeInstallAuthorizationPolicyV1 \<Rightarrow> string \<Rightarrow> string \<Rightarrow> bool" where
  "AllowsStrategy policy strategy provider =
     list_ex (\<lambda>allowed. as_strategy allowed = strategy \<and> as_provider allowed = provider) (ap_allowed_strategies policy)"

definition ArtifactMatchesRequest :: "string \<Rightarrow> string \<Rightarrow> string \<Rightarrow> string \<Rightarrow> bool" where
  "ArtifactMatchesRequest platform kind strategy provider =
     (if platform = ''windows'' then
        (kind = ''zip'' \<and> strategy = ''directoryReplace'' \<and> provider = ''platformDirectory'') \<or>
        (kind = ''innoInstaller'' \<and> strategy = ''verifiedInstallerHandoff'' \<and> provider = ''windowsInno'')
      else if platform = ''macos'' then
        ((kind = ''zip'' \<or> kind = ''dmg'') \<and> strategy = ''directoryReplace'' \<and> provider = ''platformDirectory'') \<or>
        (kind = ''pkgInstaller'' \<and> strategy = ''verifiedInstallerHandoff'' \<and> provider = ''macosInstaller'')
      else if platform = ''linux'' then
        kind = ''zip'' \<and> strategy = ''directoryReplace'' \<and> provider = ''platformDirectory''
      else False)"

definition PolicyDenies :: "NativeInstallTransactionRequestV1 \<Rightarrow> NativeInstallAuthorizationPolicyV1 \<Rightarrow> bool" where
  "PolicyDenies request policy \<longleftrightarrow>
     rq_protocol_version request \<noteq> 1 \<or>
     rq_protocol_version request < ap_minimum_helper_protocol_version policy \<or>
     rq_policy_id request \<noteq> ap_policy_id policy \<or>
     rq_package_id request \<noteq> ap_application_package_id policy \<or>
     \<not> AllowsTarget policy (tg_target_class (rq_target request)) \<or>
     \<not> AllowsStrategy policy (rq_strategy request) (rq_provider request)"

definition BindingMismatch ::
    "NativeInstallTransactionRequestV1 \<Rightarrow> string \<Rightarrow> ReleaseDescriptor \<Rightarrow> StageProvenanceMarker \<Rightarrow> string \<Rightarrow>
     string \<Rightarrow> string \<Rightarrow> bool" where
  "BindingMismatch request expected_platform descriptor marker marker_sha256 descriptor_sha256 ownership_nonce_sha256 \<longleftrightarrow>
     \<not> auth_IsSha256 descriptor_sha256 \<or> \<not> auth_IsSha256 ownership_nonce_sha256 \<or> \<not> auth_IsSha256 marker_sha256 \<or>
     desc_platform descriptor \<noteq> expected_platform \<or>
     desc_package_id descriptor \<noteq> rq_package_id request \<or>
     mk_package_id marker \<noteq> rq_package_id request \<or>
     mk_descriptor_sha256 marker \<noteq> descriptor_sha256 \<or>
     mk_artifact_sha256 marker \<noteq> artifact_sha256 (desc_artifact descriptor) \<or>
     sg_ownership_nonce (rq_stage request) \<noteq> ownership_nonce_sha256 \<or>
     sg_provenance_sha256 (rq_stage request) \<noteq> marker_sha256 \<or>
     sg_artifact_sha256 (rq_stage request) \<noteq> artifact_sha256 (desc_artifact descriptor) \<or>
     sg_artifact_length (rq_stage request) \<noteq> artifact_length (desc_artifact descriptor) \<or>
     \<not> ArtifactMatchesRequest expected_platform (artifact_kind (desc_artifact descriptor))
         (rq_strategy request) (rq_provider request)"

definition SignedFieldsChanged :: "NativeInstallTransactionRequestV1 \<Rightarrow> ReleaseDescriptor \<Rightarrow> string \<Rightarrow> bool" where
  "SignedFieldsChanged request descriptor descriptor_sha256 \<longleftrightarrow>
     \<not> desc_has_signature descriptor \<or>
     sd_canonical_sha256 (rq_signed_descriptor request) \<noteq> descriptor_sha256 \<or>
     sd_signature_algorithm (rq_signed_descriptor request) \<noteq> sig_algorithm (desc_signature descriptor) \<or>
     sd_key_id (rq_signed_descriptor request) \<noteq> sig_public_key_id (desc_signature descriptor) \<or>
     sd_signature_base64 (rq_signed_descriptor request) \<noteq> sig_value (desc_signature descriptor) \<or>
     vi_version (rq_desired_identity request) \<noteq> desc_version descriptor \<or>
     vi_build_number (rq_desired_identity request) \<noteq>
       (if desc_has_build_number descriptor then desc_build_number descriptor else 0) \<or>
     vi_package_identity_sha256 (rq_desired_identity request) \<noteq> descriptor_sha256"

fun TrustedKeysLoop ::
    "NativeInstallAuthorizationReleaseKeyV1 list \<Rightarrow> (string, bytes) std_map \<Rightarrow> (string, bytes) std_map result" where
  "TrustedKeysLoop [] trusted_keys = Inr trusted_keys"
| "TrustedKeysLoop (key # keys) trusted_keys =
     (if rk_algorithm key \<noteq> ''ed25519'' then auth_Fail ''unsupported sealed release-root algorithm''
      else
        bindE (DecodeBase64 (rk_public_key_base64 key)) (\<lambda>decoded.
          if length decoded \<noteq> 32 \<or> map_find trusted_keys (rk_key_id key) \<noteq> None
          then auth_Fail ''invalid sealed release-root key''
          else TrustedKeysLoop keys (map_emplace (rk_key_id key) decoded trusted_keys)))"

definition AuthorizeBody ::
    "ed25519_check \<Rightarrow> NativeInstallTransactionRequestV1 \<Rightarrow> NativeInstallAuthorizationPolicyV1 \<Rightarrow> string \<Rightarrow> string \<Rightarrow>
     StageProvenanceMarker \<Rightarrow> string \<Rightarrow> (string \<Rightarrow> string result) \<Rightarrow> ReleaseDescriptor result" where
  "AuthorizeBody check request policy expected_platform release_manifest_json marker marker_sha256 sha256 =
     (if PolicyDenies request policy then auth_Fail ''sealed helper policy denied request''
      else
        bindE (CanonicalManifest release_manifest_json) (\<lambda>canonical_manifest.
        bindE (ParseReleaseDescriptor canonical_manifest) (\<lambda>descriptor.
          if EncodeCanonicalJson (desc_raw descriptor) \<noteq> canonical_manifest
          then auth_Fail ''release descriptor normalization changed staged bytes''
          else
        bindE (sha256 canonical_manifest) (\<lambda>descriptor_sha256.
        bindE (sha256 (mk_nonce marker)) (\<lambda>ownership_nonce_sha256.
          if BindingMismatch request expected_platform descriptor marker marker_sha256
               descriptor_sha256 ownership_nonce_sha256
          then auth_Fail ''stage, descriptor, and request binding mismatch''
          else if SignedFieldsChanged request descriptor descriptor_sha256
          then auth_Fail ''signed descriptor request fields changed''
          else
        bindE (TrustedKeysLoop (ap_release_root_public_keys policy) []) (\<lambda>trusted_keys.
          if \<not> VerifyDescriptorSignature check descriptor trusted_keys
          then auth_Fail ''release descriptor signature rejected''
          else Inr descriptor))))))"

definition AuthorizeNativeInstallTransactionRequestV1 ::
    "ed25519_check \<Rightarrow> NativeInstallTransactionRequestV1 \<Rightarrow> NativeInstallAuthorizationPolicyV1 \<Rightarrow> string \<Rightarrow> string \<Rightarrow>
     StageProvenanceMarker \<Rightarrow> string \<Rightarrow> authorization_sha256 \<Rightarrow> ReleaseDescriptor result" where
  "AuthorizeNativeInstallTransactionRequestV1 check request policy expected_platform release_manifest_json
     marker marker_sha256 sha256 =
     (case sha256 of
        None \<Rightarrow> auth_Fail ''authorization SHA-256 function is required''
      | Some sha256 \<Rightarrow>
          catchE (AuthorizeBody check request policy expected_platform release_manifest_json marker marker_sha256 sha256)
            (\<lambda>e. case e of
               NativeInstallAuthorizationError detail \<Rightarrow> Inl e
             | _ \<Rightarrow> auth_Fail (''native install authorization failed: '' @ what_of e)))"

section \<open>What is authorized\<close>

lemma CanonicalManifest_iff:
  "CanonicalManifest encoded = Inr t \<longleftrightarrow>
     t = (if encoded \<noteq> [] \<and> last encoded = CHR 0x0A then butlast encoded else encoded) \<and>
     (\<exists>v. wf_json v \<and> t = EncodeCanonicalJson v)"
proof -
  have "Encode v \<noteq> []" for v by (rule Encode_Cons [of v]) simp
  then have "EncodeCanonicalJson v \<noteq> []" for v by (simp add: EncodeCanonicalJson_def)
  then have canonical: "(\<exists>v. ParseJson t = Inr v \<and> t \<noteq> [] \<and> EncodeCanonicalJson v = t) \<longleftrightarrow>
      (\<exists>v. wf_json v \<and> t = EncodeCanonicalJson v)" for t
    using json.parse_wf json.parse_encode by metis
  define c where "c = (if encoded \<noteq> [] \<and> last encoded = CHR 0x0A then butlast encoded else encoded)"
  have "CanonicalManifest encoded = Inr t \<longleftrightarrow>
      t = c \<and> (\<exists>v. ParseJson c = Inr v \<and> c \<noteq> [] \<and> EncodeCanonicalJson v = c)"
    unfolding CanonicalManifest_def Let_def auth_Fail_def c_def [symmetric] by (auto simp: bindE_Inr_iff)
  then show ?thesis unfolding c_def [symmetric] using canonical [of c] by blast
qed

text \<open>The sealed root keys as the loop accepts them.\<close>

definition sealed_keys :: "NativeInstallAuthorizationReleaseKeyV1 list \<Rightarrow> bool" where
  "sealed_keys keys \<longleftrightarrow> distinct (map rk_key_id keys) \<and>
     (\<forall>key \<in> set keys. rk_algorithm key = ''ed25519'' \<and>
        (\<exists>decoded. DecodeBase64 (rk_public_key_base64 key) = Inr decoded \<and> length decoded = 32))"

lemma TrustedKeysLoop_iff:
  assumes "sorted_keys m"
  shows "TrustedKeysLoop keys m = Inr m' \<Longrightarrow>
     sealed_keys keys \<and> (\<forall>key \<in> set keys. map_find m (rk_key_id key) = None) \<and> sorted_keys m' \<and>
     (\<forall>k. map_find m' k = (case map_find m k of Some v \<Rightarrow> Some v | None \<Rightarrow>
        (case find (\<lambda>key. rk_key_id key = k) keys of None \<Rightarrow> None
         | Some key \<Rightarrow> (case DecodeBase64 (rk_public_key_base64 key) of Inl _ \<Rightarrow> None | Inr d \<Rightarrow> Some d))))"
  and "sealed_keys keys \<Longrightarrow> \<forall>key \<in> set keys. map_find m (rk_key_id key) = None \<Longrightarrow>
     \<exists>m'. TrustedKeysLoop keys m = Inr m'"
  using assms
proof (induction keys arbitrary: m)
  case (Cons key keys)
  {
    case 1
    then obtain d where d: "DecodeBase64 (rk_public_key_base64 key) = Inr d" "length d = 32"
      "rk_algorithm key = ''ed25519''" "map_find m (rk_key_id key) = None"
      "TrustedKeysLoop keys (map_emplace (rk_key_id key) d m) = Inr m'"
      by (auto simp: auth_Fail_def bindE_Inr_iff split: if_splits)
    from 1 have inv: "sorted_keys (map_emplace (rk_key_id key) d m)" by (simp add: sorted_map_emplace)
    from Cons.IH(1) [OF d(5) inv] 1 d show ?case
      by (auto simp: map_find_emplace sealed_keys_def split: option.splits if_splits)
  next
    case 2
    then obtain d where d: "DecodeBase64 (rk_public_key_base64 key) = Inr d" "length d = 32"
      "rk_algorithm key = ''ed25519''" by (auto simp: sealed_keys_def)
    have "\<exists>m'. TrustedKeysLoop keys (map_emplace (rk_key_id key) d m) = Inr m'"
      using 2 by (intro Cons.IH(2)) (auto simp: sealed_keys_def map_find_emplace sorted_map_emplace image_iff)
    with d 2 show ?case by auto
  }
qed (auto simp: sealed_keys_def split: option.splits)

text \<open>The key that the sealed policy holds for an id.\<close>

definition sealed_key :: "NativeInstallAuthorizationPolicyV1 \<Rightarrow> string \<Rightarrow> bytes \<Rightarrow> bool" where
  "sealed_key policy key_id bytes \<longleftrightarrow>
     (\<exists>key \<in> set (ap_release_root_public_keys policy). rk_key_id key = key_id \<and>
        rk_algorithm key = ''ed25519'' \<and> DecodeBase64 (rk_public_key_base64 key) = Inr bytes \<and> length bytes = 32)"

lemma trusted_key_iff:
  assumes "TrustedKeysLoop (ap_release_root_public_keys policy) [] = Inr keys"
  shows "map_find keys k = Some bytes \<longleftrightarrow> sealed_key policy k bytes"
proof -
  let ?all = "ap_release_root_public_keys policy"
  have sealed: "sealed_keys ?all"
    and keys: "map_find keys k = (case find (\<lambda>key. rk_key_id key = k) ?all of None \<Rightarrow> None
         | Some key \<Rightarrow> (case DecodeBase64 (rk_public_key_base64 key) of Inl _ \<Rightarrow> None | Inr d \<Rightarrow> Some d))"
    using TrustedKeysLoop_iff(1) [OF _ assms] by (simp_all split: option.splits)
  show ?thesis
  proof (cases "find (\<lambda>key. rk_key_id key = k) ?all")
    case None
    then have "map_find keys k = None" using keys by simp
    with None show ?thesis by (auto simp: sealed_key_def find_None_iff)
  next
    case (Some key)
    then have key: "key \<in> set ?all" "rk_key_id key = k" by (auto simp: find_Some_iff)
    have "key' = key" if "key' \<in> set ?all" "rk_key_id key' = k" for key'
      using that key sealed unfolding sealed_keys_def distinct_map inj_on_def by metis
    moreover obtain d where d: "DecodeBase64 (rk_public_key_base64 key) = Inr d" "length d = 32"
      "rk_algorithm key = ''ed25519''" using key(1) sealed unfolding sealed_keys_def by blast
    ultimately have "sealed_key policy k bytes \<longleftrightarrow> bytes = d"
      unfolding sealed_key_def using key by (metis Inr_inject)
    moreover have "map_find keys k = Some d" using keys Some d(1) by simp
    ultimately show ?thesis by auto
  qed
qed

lemma AuthorizeBody_iff:
  "AuthorizeBody check request policy platform manifest marker msha sha = Inr d \<longleftrightarrow>
     \<not> PolicyDenies request policy \<and>
     (\<exists>text dsha nsha keys. CanonicalManifest manifest = Inr text \<and> ParseReleaseDescriptor text = Inr d \<and>
        EncodeCanonicalJson (desc_raw d) = text \<and> sha text = Inr dsha \<and> sha (mk_nonce marker) = Inr nsha \<and>
        \<not> BindingMismatch request platform d marker msha dsha nsha \<and> \<not> SignedFieldsChanged request d dsha \<and>
        TrustedKeysLoop (ap_release_root_public_keys policy) [] = Inr keys \<and>
        VerifyDescriptorSignature check d keys)"
  unfolding AuthorizeBody_def auth_Fail_def if_Inl_Inr_iff bindE_Inr_iff by blast

lemma Authorize_Inr_iff:
  "AuthorizeNativeInstallTransactionRequestV1 check request policy platform manifest marker msha sha = Inr d \<longleftrightarrow>
     (\<exists>f. sha = Some f \<and> AuthorizeBody check request policy platform manifest marker msha f = Inr d)"
  by (cases sha) (auto simp: AuthorizeNativeInstallTransactionRequestV1_def auth_Fail_def catchE_def
      split: sum.splits cpp_exception.splits)

lemma Authorize_errors:
  "AuthorizeNativeInstallTransactionRequestV1 check request policy platform manifest marker msha sha = Inl e \<Longrightarrow>
     \<exists>detail. e = NativeInstallAuthorizationError detail"
  by (cases sha) (auto simp: AuthorizeNativeInstallTransactionRequestV1_def auth_Fail_def catchE_def
      split: sum.splits cpp_exception.splits)

lemma AllowsTarget_iff: "AllowsTarget policy c \<longleftrightarrow> c \<in> set (ap_allowed_target_classes policy)"
  by (auto simp: AllowsTarget_def list_ex_iff)

text \<open>The two big conditions of the code, read as equations.\<close>

lemma bound_iff:
  "\<not> BindingMismatch request platform d marker msha dsha nsha \<longleftrightarrow>
     auth_IsSha256 dsha \<and> auth_IsSha256 nsha \<and> auth_IsSha256 msha \<and>
     desc_platform d = platform \<and> desc_package_id d = rq_package_id request \<and>
     mk_package_id marker = rq_package_id request \<and> mk_descriptor_sha256 marker = dsha \<and>
     mk_artifact_sha256 marker = artifact_sha256 (desc_artifact d) \<and>
     rq_stage request = \<lparr>sg_path_hint = sg_path_hint (rq_stage request), sg_ownership_nonce = nsha,
        sg_provenance_sha256 = msha, sg_artifact_sha256 = artifact_sha256 (desc_artifact d),
        sg_artifact_length = artifact_length (desc_artifact d)\<rparr> \<and>
     ArtifactMatchesRequest platform (artifact_kind (desc_artifact d)) (rq_strategy request) (rq_provider request)"
proof -
  have "s = \<lparr>sg_path_hint = sg_path_hint s, sg_ownership_nonce = a, sg_provenance_sha256 = b,
      sg_artifact_sha256 = c, sg_artifact_length = n\<rparr> \<longleftrightarrow>
      sg_ownership_nonce s = a \<and> sg_provenance_sha256 s = b \<and> sg_artifact_sha256 s = c \<and> sg_artifact_length s = n"
    for s :: NativeInstallStageV1 and a b c n by (cases s) auto
  then show ?thesis unfolding BindingMismatch_def by blast
qed

lemma signed_fields_iff:
  "\<not> SignedFieldsChanged request d dsha \<longleftrightarrow> desc_has_signature d \<and>
     rq_signed_descriptor request = \<lparr>sd_canonical_sha256 = dsha,
       sd_signature_algorithm = sig_algorithm (desc_signature d),
       sd_key_id = sig_public_key_id (desc_signature d), sd_signature_base64 = sig_value (desc_signature d)\<rparr> \<and>
     rq_desired_identity request = \<lparr>vi_version = desc_version d,
       vi_build_number = (if desc_has_build_number d then desc_build_number d else 0),
       vi_package_identity_sha256 = dsha\<rparr>"
  unfolding SignedFieldsChanged_def
  by (cases "rq_signed_descriptor request"; cases "rq_desired_identity request") auto

lemma trusted_keys_total: "sealed_keys (ap_release_root_public_keys policy) \<longleftrightarrow>
    (\<exists>keys. TrustedKeysLoop (ap_release_root_public_keys policy) [] = Inr keys)"
proof -
  have "sorted_keys ([] :: (string, bytes) std_map)" by simp
  from TrustedKeysLoop_iff [OF this, of "ap_release_root_public_keys policy"] show ?thesis
    by (auto simp: map_find_def)
qed

section \<open>A concrete decision\<close>

definition zero_digest :: string where
  "zero_digest = replicate 64 CHR ''0''"

definition zero_signature :: string where
  "zero_signature = base64_text (replicate 64 0)"

definition authorized_request :: NativeInstallTransactionRequestV1 where
  "authorized_request = sample_request
     \<lparr>rq_desired_identity := \<lparr>vi_version = ''1.2.0'', vi_build_number = 0, vi_package_identity_sha256 = zero_digest\<rparr>,
      rq_stage := \<lparr>sg_path_hint = ''/stage'', sg_ownership_nonce = zero_digest, sg_provenance_sha256 = zero_digest,
        sg_artifact_sha256 = replicate 64 CHR ''a'', sg_artifact_length = 7\<rparr>,
      rq_signed_descriptor := \<lparr>sd_canonical_sha256 = zero_digest, sd_signature_algorithm = ''ed25519'',
        sd_key_id = ''k'', sd_signature_base64 = zero_signature\<rparr>\<rparr>"

definition sample_policy :: NativeInstallAuthorizationPolicyV1 where
  "sample_policy = \<lparr>ap_policy_id = ''policy'', ap_application_package_id = ''app'',
     ap_allowed_target_classes = [''sameUserWritable''],
     ap_release_root_public_keys = [\<lparr>rk_key_id = ''k'', rk_algorithm = ''ed25519'',
       rk_public_key_base64 = base64_text (replicate 32 0)\<rparr>],
     ap_allowed_strategies = [\<lparr>as_strategy = ''directoryReplace'', as_provider = ''platformDirectory''\<rparr>],
     ap_minimum_helper_protocol_version = 1\<rparr>"

definition sample_marker :: "string \<Rightarrow> StageProvenanceEntry list \<Rightarrow> StageProvenanceMarker" where
  "sample_marker nonce entries = \<lparr>mk_nonce = nonce, mk_package_id = ''app'', mk_descriptor_sha256 = zero_digest,
     mk_artifact_sha256 = replicate 64 CHR ''a'', mk_entries = entries\<rparr>"

definition sample_manifest :: string where
  "sample_manifest = EncodeCanonicalJson (sample_descriptor zero_signature)"

lemma sample_authorized:
  "\<exists>d. AuthorizeNativeInstallTransactionRequestV1 (\<lambda>_ _ _. True) authorized_request sample_policy ''linux''
     sample_manifest (sample_marker nonce entries) zero_digest (Some (\<lambda>_. Inr zero_digest)) = Inr d \<and>
     desc_version d = ''1.2.0''"
proof -
  obtain base where base: "desc_version base = ''1.2.0''" "desc_platform base = ''linux''"
    "desc_package_id base = ''app''" "\<not> desc_has_build_number base" "desc_has_signature base"
    "artifact_kind (desc_artifact base) = ''zip''" "artifact_sha256 (desc_artifact base) = replicate 64 CHR ''a''"
    "artifact_length (desc_artifact base) = 7"
    and parse: "ParseReleaseDescriptor sample_manifest =
        Inr (base\<lparr>desc_signature := \<lparr>sig_algorithm = ''ed25519'', sig_public_key_id = ''k'',
          sig_value = zero_signature\<rparr>, desc_raw := sample_descriptor zero_signature\<rparr>)"
    using sample_descriptor_parses unfolding sample_manifest_def by blast
  let ?d = "base\<lparr>desc_signature := \<lparr>sig_algorithm = ''ed25519'', sig_public_key_id = ''k'',
          sig_value = zero_signature\<rparr>, desc_raw := sample_descriptor zero_signature\<rparr>"
  have "last (EncodeCanonicalJson (sample_descriptor zero_signature)) = CHR ''}''"
    by (simp add: EncodeCanonicalJson_def sample_descriptor_def)
  then have manifest: "CanonicalManifest sample_manifest = Inr sample_manifest"
    using sample_descriptor_wf [of zero_signature] by (auto simp: CanonicalManifest_iff sample_manifest_def)
  have keys: "TrustedKeysLoop (ap_release_root_public_keys sample_policy) [] = Inr [(''k'', replicate 32 0)]"
  proof -
    have "DecodeBase64 (base64_text (replicate 32 0)) = Inr (replicate 32 0)" by (simp add: DecodeBase64_iff)
    then show ?thesis by (simp add: sample_policy_def map_find_def)
  qed
  have digest: "auth_IsSha256 zero_digest"
    by (simp add: auth_IsSha256_def zero_digest_def list_all_iff char_class_defs)
  have "\<not> PolicyDenies authorized_request sample_policy"
    by (simp add: PolicyDenies_def authorized_request_def sample_request_def sample_policy_def
        AllowsTarget_def AllowsStrategy_def)
  moreover have "\<not> BindingMismatch authorized_request ''linux'' ?d (sample_marker nonce entries) zero_digest
      zero_digest zero_digest"
    by (simp add: BindingMismatch_def authorized_request_def sample_request_def sample_marker_def base digest
        ArtifactMatchesRequest_def)
  moreover have "\<not> SignedFieldsChanged authorized_request ?d zero_digest"
    by (simp add: SignedFieldsChanged_def authorized_request_def base)
  moreover have "VerifyDescriptorSignature (\<lambda>_ _ _. True) ?d [(''k'', replicate 32 0)]"
    by (simp add: VerifyDescriptorSignature_iff base map_find_def zero_signature_def)
      (rule exI [of _ "replicate 64 0"], simp)
  ultimately have "AuthorizeBody (\<lambda>_ _ _. True) authorized_request sample_policy ''linux''
     sample_manifest (sample_marker nonce entries) zero_digest (\<lambda>_. Inr zero_digest) = Inr ?d"
    using parse manifest keys unfolding AuthorizeBody_iff by (auto simp: sample_manifest_def)
  with base show ?thesis by (auto simp: Authorize_Inr_iff)
qed

section \<open>Properties\<close>

text \<open>
  C7. The decision is exact: a request is authorized with a descriptor if and only if the sealed policy
  names the request's policy, package, target class, strategy and provider and asks for no newer
  protocol; the staged manifest is one canonical text that parses to this descriptor and prints back
  to it; the request, the stage marker and the descriptor carry the same package, artifact digest and
  length, marker digest, nonce digest and manifest digest; the request repeats the descriptor's
  signature, version and build; every sealed key is a distinct Ed25519 key; and the Ed25519 check
  accepts the 64 signature bytes with the sealed key of that id for the canonical bytes of this
  descriptor.
\<close>

theorem authorization_exact:
  "AuthorizeNativeInstallTransactionRequestV1 check request policy platform manifest marker msha (Some sha) = Inr d \<longleftrightarrow>
   rq_protocol_version request = 1 \<and> ap_minimum_helper_protocol_version policy \<le> 1 \<and>
   rq_policy_id request = ap_policy_id policy \<and> rq_package_id request = ap_application_package_id policy \<and>
   tg_target_class (rq_target request) \<in> set (ap_allowed_target_classes policy) \<and>
   AllowsStrategy policy (rq_strategy request) (rq_provider request) \<and>
   sealed_keys (ap_release_root_public_keys policy) \<and>
   (\<exists>t v dsha nsha key signature.
      t = (if manifest \<noteq> [] \<and> last manifest = CHR 0x0A then butlast manifest else manifest) \<and>
      wf_json v \<and> t = EncodeCanonicalJson v \<and>
      ParseReleaseDescriptor t = Inr d \<and> EncodeCanonicalJson (desc_raw d) = t \<and>
      sha t = Inr dsha \<and> sha (mk_nonce marker) = Inr nsha \<and>
      auth_IsSha256 dsha \<and> auth_IsSha256 nsha \<and> auth_IsSha256 msha \<and>
      desc_platform d = platform \<and> desc_package_id d = rq_package_id request \<and>
      mk_package_id marker = rq_package_id request \<and> mk_descriptor_sha256 marker = dsha \<and>
      mk_artifact_sha256 marker = artifact_sha256 (desc_artifact d) \<and>
      rq_stage request = \<lparr>sg_path_hint = sg_path_hint (rq_stage request), sg_ownership_nonce = nsha,
        sg_provenance_sha256 = msha, sg_artifact_sha256 = artifact_sha256 (desc_artifact d),
        sg_artifact_length = artifact_length (desc_artifact d)\<rparr> \<and>
      ArtifactMatchesRequest platform (artifact_kind (desc_artifact d)) (rq_strategy request) (rq_provider request) \<and>
      rq_signed_descriptor request = \<lparr>sd_canonical_sha256 = dsha, sd_signature_algorithm = ''ed25519'',
        sd_key_id = sig_public_key_id (desc_signature d), sd_signature_base64 = base64_text signature\<rparr> \<and>
      rq_desired_identity request = \<lparr>vi_version = desc_version d,
        vi_build_number = (if desc_has_build_number d then desc_build_number d else 0),
        vi_package_identity_sha256 = dsha\<rparr> \<and>
      desc_has_signature d \<and> sig_algorithm (desc_signature d) = ''ed25519'' \<and>
      sig_value (desc_signature d) = base64_text signature \<and> length signature = 64 \<and>
      sealed_key policy (sig_public_key_id (desc_signature d)) key \<and>
      check signature key (CanonicalSignatureBytes d))"
  (is "_ \<longleftrightarrow> ?rhs")
proof
  assume "AuthorizeNativeInstallTransactionRequestV1 check request policy platform manifest marker msha (Some sha) = Inr d"
  then obtain t dsha nsha keys where body: "\<not> PolicyDenies request policy"
    "CanonicalManifest manifest = Inr t" "ParseReleaseDescriptor t = Inr d"
    "EncodeCanonicalJson (desc_raw d) = t" "sha t = Inr dsha" "sha (mk_nonce marker) = Inr nsha"
    "\<not> BindingMismatch request platform d marker msha dsha nsha" "\<not> SignedFieldsChanged request d dsha"
    "TrustedKeysLoop (ap_release_root_public_keys policy) [] = Inr keys" "VerifyDescriptorSignature check d keys"
    by (auto simp: Authorize_Inr_iff AuthorizeBody_iff)
  from body(10) obtain key signature where signed: "sig_algorithm (desc_signature d) = ''ed25519''"
    "sealed_key policy (sig_public_key_id (desc_signature d)) key" "length signature = 64"
    "sig_value (desc_signature d) = base64_text signature" "check signature key (CanonicalSignatureBytes d)"
    by (auto simp: VerifyDescriptorSignature_iff trusted_key_iff [OF body(9)])
  obtain v where v: "wf_json v" "t = EncodeCanonicalJson v"
    "t = (if manifest \<noteq> [] \<and> last manifest = CHR 0x0A then butlast manifest else manifest)"
    using body(2) by (auto simp: CanonicalManifest_iff)
  note facts = body(1) [unfolded PolicyDenies_def AllowsTarget_iff] body(3-6) body(7) [unfolded bound_iff]
    body(8) [unfolded signed_fields_iff signed(1,4)] v signed
  have "sealed_keys (ap_release_root_public_keys policy)" using body(9) by (auto simp: trusted_keys_total)
  then show ?rhs
    by (intro conjI exI [of _ t] exI [of _ v] exI [of _ dsha] exI [of _ nsha] exI [of _ key] exI [of _ signature])
      (use facts in \<open>blast | linarith\<close>)+
next
  assume rhs: ?rhs
  then obtain keys where keys: "TrustedKeysLoop (ap_release_root_public_keys policy) [] = Inr keys"
    by (auto simp: trusted_keys_total)
  from rhs obtain t v dsha nsha key signature where
    parsed: "t = (if manifest \<noteq> [] \<and> last manifest = CHR 0x0A then butlast manifest else manifest)"
      "wf_json v" "t = EncodeCanonicalJson v" "ParseReleaseDescriptor t = Inr d"
      "EncodeCanonicalJson (desc_raw d) = t" "sha t = Inr dsha" "sha (mk_nonce marker) = Inr nsha"
    and bound: "\<not> BindingMismatch request platform d marker msha dsha nsha"
    and signed: "desc_has_signature d" "sig_algorithm (desc_signature d) = ''ed25519''"
      "sig_value (desc_signature d) = base64_text signature" "length signature = 64"
      "sealed_key policy (sig_public_key_id (desc_signature d)) key" "check signature key (CanonicalSignatureBytes d)"
    and fields: "rq_signed_descriptor request = \<lparr>sd_canonical_sha256 = dsha, sd_signature_algorithm = ''ed25519'',
        sd_key_id = sig_public_key_id (desc_signature d), sd_signature_base64 = base64_text signature\<rparr>"
      "rq_desired_identity request = \<lparr>vi_version = desc_version d,
        vi_build_number = (if desc_has_build_number d then desc_build_number d else 0),
        vi_package_identity_sha256 = dsha\<rparr>"
    unfolding bound_iff by blast
  have "CanonicalManifest manifest = Inr t" using parsed(1-3) by (auto simp: CanonicalManifest_iff)
  moreover have "\<not> SignedFieldsChanged request d dsha" using fields signed by (simp add: signed_fields_iff)
  moreover have "length key = 32" using signed(5) by (auto simp: sealed_key_def)
  then have "VerifyDescriptorSignature check d keys"
    using signed by (auto simp: VerifyDescriptorSignature_iff trusted_key_iff [OF keys])
  moreover have "\<not> PolicyDenies request policy" using rhs by (simp add: PolicyDenies_def AllowsTarget_iff)
  ultimately show "AuthorizeNativeInstallTransactionRequestV1 check request policy platform manifest marker msha (Some sha) = Inr d"
    using parsed bound keys unfolding Authorize_Inr_iff AuthorizeBody_iff by blast
qed

end
