(* ===== verification/Linux_Identity.thy ===== *)
theory Linux_Identity
  imports Install_Wire
begin

text \<open>
  The file identities of the Linux install helper, \<^verbatim>\<open>linux_mount_guard.{h,cc}\<close>: what \<^verbatim>\<open>fstat\<close> and the mount
  table say about an open file, the three comparisons of identities, the names that stay inside one
  directory, and the guard that pins parent, target and stage to one mount. Integers have the width
  the code gives them; a \<^verbatim>\<open>std::int64_t\<close> is a 64-bit word that is read with \<^const>\<open>sint\<close>.
\<close>

section \<open>Identities\<close>

record LinuxFileIdentity =
  id_device :: "64 word"
  id_inode :: "64 word"
  id_mount_id :: "64 word"
  id_mode :: "32 word"
  id_uid :: "32 word"
  id_gid :: "32 word"
  id_link_count :: "64 word"
  id_change_time_seconds :: "64 word"
  id_change_time_nanoseconds :: "64 word"
  id_directory :: bool

text \<open>\<^verbatim>\<open>LinuxFileIdentity::operator==\<close>, which leaves the change time out.\<close>

definition SameLinuxIdentity :: "LinuxFileIdentity \<Rightarrow> LinuxFileIdentity \<Rightarrow> bool" where
  "SameLinuxIdentity a b \<longleftrightarrow>
     id_device a = id_device b \<and> id_inode a = id_inode b \<and> id_mount_id a = id_mount_id b \<and>
     id_mode a = id_mode b \<and> id_uid a = id_uid b \<and> id_gid a = id_gid b \<and>
     id_link_count a = id_link_count b \<and> id_directory a = id_directory b"

definition HasStableLinuxIdentity :: "LinuxFileIdentity \<Rightarrow> LinuxFileIdentity \<Rightarrow> bool" where
  "HasStableLinuxIdentity observed expected \<longleftrightarrow>
     id_device observed = id_device expected \<and> id_inode observed = id_inode expected \<and>
     id_mount_id observed = id_mount_id expected \<and> id_mode observed = id_mode expected \<and>
     id_uid observed = id_uid expected \<and> id_gid observed = id_gid expected \<and>
     id_directory observed = id_directory expected"

definition HasExactLinuxIdentity :: "LinuxFileIdentity \<Rightarrow> LinuxFileIdentity \<Rightarrow> bool" where
  "HasExactLinuxIdentity observed expected \<longleftrightarrow>
     SameLinuxIdentity observed expected \<and>
     id_change_time_seconds observed = id_change_time_seconds expected \<and>
     id_change_time_nanoseconds observed = id_change_time_nanoseconds expected"

text \<open>The file type bits of \<^verbatim>\<open>st_mode\<close>.\<close>

definition S_IFMT :: "32 word" where "S_IFMT = 0xF000"
definition S_IFREG :: "32 word" where "S_IFREG = 0x8000"
definition S_IFLNK :: "32 word" where "S_IFLNK = 0xA000"

section \<open>Names\<close>

definition mount_Fail :: "string \<Rightarrow> 'a result" where
  "mount_Fail detail = Inl (HelperError LinuxMountGuardError detail)"

definition is_leaf :: "string \<Rightarrow> bool" where
  "is_leaf leaf \<longleftrightarrow> leaf \<noteq> [] \<and> leaf \<noteq> ''.'' \<and> leaf \<noteq> ''..'' \<and> CHR ''/'' \<notin> set leaf \<and> char_of (0::nat) \<notin> set leaf"

definition ValidateLinuxLeaf :: "string \<Rightarrow> unit result" where
  "ValidateLinuxLeaf leaf =
     (if leaf = [] \<or> leaf = ''.'' \<or> leaf = ''..'' \<or>
         find_char (CHR ''/'') leaf \<noteq> None \<or> find_char (char_of (0::nat)) leaf \<noteq> None
      then mount_Fail ''expected one derived path component'' else Inr ())"

text \<open>
  The loop of \<^verbatim>\<open>PathComponents\<close>, on the suffix that starts at \<^verbatim>\<open>start\<close>. A trailing slash ends the loop
  without a further component.
\<close>

function PathComponentsLoop :: "string \<Rightarrow> string list result" where
  "PathComponentsLoop path =
     (if path = [] then Inr []
      else
        let component = (case find_char (CHR ''/'') path of None \<Rightarrow> path | Some end_ \<Rightarrow> take end_ path) in
        if component = [] \<or> component = ''.'' \<or> component = ''..''
        then mount_Fail ''directory path component rejected''
        else
          case find_char (CHR ''/'') path of
            None \<Rightarrow> Inr [component]
          | Some end_ \<Rightarrow> bindE (PathComponentsLoop (drop (Suc end_) path)) (\<lambda>rest. Inr (component # rest)))"
  by pat_completeness auto
termination
  by (relation "measure length") (auto dest: find_char_less)

declare PathComponentsLoop.simps [simp del]

definition PathComponents :: "string \<Rightarrow> bool \<Rightarrow> string list result" where
  "PathComponents path absolute =
     (if path = [] \<or> find_char (char_of (0::nat)) path \<noteq> None \<or>
         (absolute \<and> hd path \<noteq> CHR ''/'') \<or> (\<not> absolute \<and> hd path = CHR ''/'')
      then mount_Fail ''directory path rejected''
      else PathComponentsLoop (if absolute then tl path else path))"

section \<open>The guard\<close>

definition ValidateLinuxIdentity :: "LinuxFileIdentity \<Rightarrow> LinuxFileIdentity \<Rightarrow> string \<Rightarrow> unit result" where
  "ValidateLinuxIdentity observed retained detail =
     (if \<not> HasExactLinuxIdentity observed retained then mount_Fail detail else Inr ())"

definition ValidateLinuxMountRelationship :: "LinuxFileIdentity \<Rightarrow> LinuxFileIdentity \<Rightarrow> string \<Rightarrow> unit result" where
  "ValidateLinuxMountRelationship parent child detail =
     (if id_device parent \<noteq> id_device child \<or> id_mount_id parent \<noteq> id_mount_id child
      then mount_Fail detail else Inr ())"

record LinuxMountGuard =
  mg_parent :: LinuxFileIdentity
  mg_target :: LinuxFileIdentity
  mg_stage :: LinuxFileIdentity

text \<open>The constructor and \<^verbatim>\<open>Validate\<close>, on the identities read from the three descriptors.\<close>

definition MakeLinuxMountGuard ::
    "LinuxFileIdentity \<Rightarrow> LinuxFileIdentity \<Rightarrow> LinuxFileIdentity \<Rightarrow> LinuxMountGuard result" where
  "MakeLinuxMountGuard parent target stage =
     (if \<not> id_directory parent then mount_Fail ''target parent is not a directory''
      else
        bindE (ValidateLinuxMountRelationship parent target ''target is a mount point or bind mount'') (\<lambda>_.
        bindE (ValidateLinuxMountRelationship parent stage ''stage is a mount point or bind mount'') (\<lambda>_.
          Inr \<lparr>mg_parent = parent, mg_target = target, mg_stage = stage\<rparr>)))"

definition ValidateMountGuard ::
    "LinuxMountGuard \<Rightarrow> LinuxFileIdentity \<Rightarrow> LinuxFileIdentity \<Rightarrow> LinuxFileIdentity \<Rightarrow> unit result" where
  "ValidateMountGuard guard parent target stage =
     (if \<not> HasStableLinuxIdentity parent (mg_parent guard) then mount_Fail ''target parent identity changed''
      else
        bindE (ValidateLinuxIdentity target (mg_target guard) ''target identity or permissions changed'') (\<lambda>_.
        bindE (ValidateLinuxIdentity stage (mg_stage guard) ''stage identity or permissions changed'') (\<lambda>_.
        bindE (ValidateLinuxMountRelationship (mg_parent guard) target ''target mount changed'') (\<lambda>_.
          ValidateLinuxMountRelationship (mg_parent guard) stage ''stage mount changed''))))"

section \<open>Lemmas\<close>

lemma SameLinuxIdentity_refl [simp]: "SameLinuxIdentity a a"
  by (simp add: SameLinuxIdentity_def)

lemma SameLinuxIdentity_sym: "SameLinuxIdentity a b \<Longrightarrow> SameLinuxIdentity b a"
  by (simp add: SameLinuxIdentity_def)

lemma SameLinuxIdentity_trans: "SameLinuxIdentity a b \<Longrightarrow> SameLinuxIdentity b c \<Longrightarrow> SameLinuxIdentity a c"
  by (simp add: SameLinuxIdentity_def)

lemma HasStableLinuxIdentity_refl [simp]: "HasStableLinuxIdentity a a"
  by (simp add: HasStableLinuxIdentity_def)

lemma Same_imp_Stable: "SameLinuxIdentity a b \<Longrightarrow> HasStableLinuxIdentity a b"
  by (simp add: SameLinuxIdentity_def HasStableLinuxIdentity_def)

text \<open>The exact comparison compares every field.\<close>

lemma HasExactLinuxIdentity_iff [simp]: "HasExactLinuxIdentity a b \<longleftrightarrow> a = b"
  by (cases a; cases b) (auto simp: HasExactLinuxIdentity_def SameLinuxIdentity_def)

lemma ValidateLinuxLeaf_iff: "ValidateLinuxLeaf leaf = Inr u \<longleftrightarrow> is_leaf leaf"
  by (auto simp: ValidateLinuxLeaf_def mount_Fail_def is_leaf_def find_char_None_iff)

lemma ValidateLinuxLeaf_leaf [simp]: "is_leaf leaf \<Longrightarrow> ValidateLinuxLeaf leaf = Inr ()"
  by (simp add: ValidateLinuxLeaf_iff)

text \<open>A path is accepted exactly when its components are names of one directory level each.\<close>

lemma PathComponentsLoop_leaves:
  "char_of (0::nat) \<notin> set path \<Longrightarrow> PathComponentsLoop path = Inr cs \<Longrightarrow>
     list_all is_leaf cs \<and> (path = join_with (CHR ''/'') cs \<or> cs \<noteq> [] \<and> path = join_with (CHR ''/'') cs @ ''/'')"
proof (induction path arbitrary: cs rule: PathComponentsLoop.induct)
  case (1 path)
  note parsed = "1.prems"(2) [unfolded PathComponentsLoop.simps [of path] Let_def]
  show ?case
  proof (cases "path = []")
    case True
    then show ?thesis using parsed by simp
  next
    case False
    show ?thesis
    proof (cases "find_char (CHR ''/'') path")
      case None
      then have "cs = [path]" "path \<noteq> ''.''" "path \<noteq> ''..''"
        using parsed False by (simp_all add: mount_Fail_def split: if_splits)
      then show ?thesis using None False "1.prems"(1) by (simp add: is_leaf_def find_char_None_iff)
    next
      case (Some e)
      let ?c = "take e path" and ?r = "drop (Suc e) path"
      have path: "path = ?c @ CHR ''/'' # ?r" and no: "CHR ''/'' \<notin> set ?c"
        using find_char_SomeD [OF Some] by auto
      have c: "?c \<noteq> []" "?c \<noteq> ''.''" "?c \<noteq> ''..''" and
        "bindE (PathComponentsLoop ?r) (\<lambda>rest. Inr (?c # rest)) = Inr cs"
        using parsed Some False by (auto simp: mount_Fail_def split: if_splits)
      then obtain rest where rest: "PathComponentsLoop ?r = Inr rest" and cs: "cs = ?c # rest"
        by (auto simp: bindE_Inr_iff)
      have zero: "char_of (0::nat) \<notin> set ?r" "char_of (0::nat) \<notin> set ?c"
        using "1.prems"(1) by (auto dest: in_set_dropD in_set_takeD)
      have ih: "list_all is_leaf rest \<and>
          (?r = join_with (CHR ''/'') rest \<or> rest \<noteq> [] \<and> ?r = join_with (CHR ''/'') rest @ ''/'')"
        using "1.IH" [OF False refl _ Some zero(1) rest] Some c by simp
      have leaf: "is_leaf ?c" using c no zero(2) by (simp add: is_leaf_def)
      show ?thesis
      proof (cases "rest = []")
        case True
        then show ?thesis using ih cs leaf path by simp
      next
        case False
        then show ?thesis using ih cs leaf path by (metis append.assoc append_Cons join_with.simps(2) list.distinct(1) list.pred_inject(2))
      qed
    qed
  qed
qed

end
