(* ===== verification/Linux_Journal.thy ===== *)
theory Linux_Journal
  imports Linux_Identity
begin

text \<open>
  The data of the Linux transaction journal, \<^verbatim>\<open>linux_transaction_journal.{h,cc}\<close>: the names derived from a target
  and a transaction, the lock record, the journal, and their strict JSON forms. The file operations
  of the same source file are in \<open>Linux_Cleanup\<close> and \<open>Linux_Transaction\<close>.
\<close>

section \<open>Types\<close>

datatype LinuxTransactionState =
    lt_kPrepared
  | lt_kBackupCreated
  | lt_kTargetActivated
  | lt_kCompleted
  | lt_kManualActionRequired

datatype LinuxTransactionFaultPoint =
    kBeforePreparedJournalFlush
  | kAfterPreparedJournalFlush
  | kBeforeStageRename
  | kAfterStageRenameBeforeDirectoryFlush
  | kAfterStageRename
  | kBeforeBackupRename
  | kAfterBackupRenameBeforeDirectoryFlush
  | kAfterBackupRename
  | kBeforeBackupCreatedJournalFlush
  | kAfterBackupCreatedJournalFlush
  | kBeforeActivationRename
  | kAfterActivationRenameBeforeDirectoryFlush
  | kAfterActivationRename
  | kBeforeTargetActivatedJournalFlush
  | kAfterTargetActivatedJournalFlush
  | kBeforeCompletedJournalFlush
  | kAfterCompletedJournalFlush
  | kDiskFull
  | kShortJournalWrite
  | kFileFsyncFailure
  | kDirectoryFsyncFailure

record LinuxVerifiedPayloadIdentity =
  pl_package_id :: string
  pl_signer_identity :: string
  pl_package_identity_digest :: string
  pl_stage_provenance_digest :: string
  pl_artifact_digest :: string
  pl_executable_relative_path :: string
  pl_executable_digest :: string
  pl_executable_mode :: "32 word"
  pl_executable_uid :: "32 word"
  pl_executable_gid :: "32 word"

record LinuxTransactionPaths =
  lp_target_name :: string
  lp_transaction_id :: string
  lp_prepared_name :: string
  lp_backup_name :: string
  lp_journal_name :: string
  lp_journal_next_name :: string
  lp_lock_name :: string
  lp_recovery_lock_name :: string

text \<open>\<^verbatim>\<open>pid_t\<close> is a 32-bit signed integer, a word read with \<^const>\<open>sint\<close>.\<close>

record LinuxTransactionLockRecord =
  lk_transaction_id :: string
  lk_owner_process_id :: "32 word"
  lk_owner_process_start_identity :: "64 word"

record LinuxTransactionJournal =
  lj_schema_version :: "64 word"
  lj_transaction_id :: string
  lj_owner_process_id :: "32 word"
  lj_owner_process_start_identity :: "64 word"
  lj_target_name :: string
  lj_original_stage_name :: string
  lj_prepared_name :: string
  lj_backup_name :: string
  lj_lock_name :: string
  lj_parent_identity :: LinuxFileIdentity
  lj_target_identity :: LinuxFileIdentity
  lj_stage_identity :: LinuxFileIdentity
  lj_expected_payload_identity :: LinuxVerifiedPayloadIdentity
  lj_state :: LinuxTransactionState

definition journal_kSchemaVersion :: "64 word" where "journal_kSchemaVersion = 2"

section \<open>Casts\<close>

text \<open>
  \<^verbatim>\<open>static_cast<std::int64_t>\<close> of a \<^verbatim>\<open>std::uint64_t\<close> or a \<^verbatim>\<open>pid_t\<close> is \<^const>\<open>sint\<close>, of a \<^verbatim>\<open>std::uint32_t\<close> \<^const>\<open>uint\<close>; the casts back,
  which drop the high bits, are \<^const>\<open>word_of_int\<close>.
\<close>

section \<open>Patterns\<close>

text \<open>\<^verbatim>\<open>kTransactionId\<close>, \<^verbatim>\<open>kSha256\<close> and \<^verbatim>\<open>kPackageId\<close>, each matched against a whole string.\<close>

definition kTransactionId :: "string \<Rightarrow> bool" where
  "kTransactionId s \<longleftrightarrow> length s = 36 \<and>
     (\<forall>i < length s.
        if i = 8 \<or> i = 13 \<or> i = 18 \<or> i = 23 then s ! i = CHR ''-''
        else if i = 14 then s ! i = CHR ''4''
        else if i = 19 then s ! i \<in> {CHR ''8'', CHR ''9'', CHR ''a'', CHR ''b''}
        else is_lower_hex (s ! i))"

definition kSha256 :: "string \<Rightarrow> bool" where
  "kSha256 s \<longleftrightarrow> length s = 64 \<and> list_all is_lower_hex s"

definition kPackageId :: "string \<Rightarrow> bool" where
  "kPackageId s \<longleftrightarrow> 2 \<le> length s \<and> length s \<le> 128 \<and> isalnum (hd s) \<and>
     list_all (\<lambda>c. isalnum c \<or> c = CHR ''.'' \<or> c = CHR ''_'' \<or> c = CHR ''-'') (tl s)"

definition journal_Fail :: "string \<Rightarrow> 'a result" where
  "journal_Fail detail = Inl (HelperError LinuxTransactionJournalError detail)"

section \<open>Fault points and state names\<close>

definition LinuxTransactionCrashInjectionPoints :: "LinuxTransactionFaultPoint list" where
  "LinuxTransactionCrashInjectionPoints =
     [kBeforePreparedJournalFlush, kAfterPreparedJournalFlush, kBeforeStageRename,
      kAfterStageRenameBeforeDirectoryFlush, kAfterStageRename, kBeforeBackupRename,
      kAfterBackupRenameBeforeDirectoryFlush, kAfterBackupRename, kBeforeBackupCreatedJournalFlush,
      kAfterBackupCreatedJournalFlush, kBeforeActivationRename,
      kAfterActivationRenameBeforeDirectoryFlush, kAfterActivationRename,
      kBeforeTargetActivatedJournalFlush, kAfterTargetActivatedJournalFlush,
      kBeforeCompletedJournalFlush, kAfterCompletedJournalFlush]"

fun FaultPoints :: "LinuxTransactionState \<Rightarrow> LinuxTransactionFaultPoint \<times> LinuxTransactionFaultPoint" where
  "FaultPoints lt_kPrepared = (kBeforePreparedJournalFlush, kAfterPreparedJournalFlush)"
| "FaultPoints lt_kBackupCreated = (kBeforeBackupCreatedJournalFlush, kAfterBackupCreatedJournalFlush)"
| "FaultPoints lt_kTargetActivated = (kBeforeTargetActivatedJournalFlush, kAfterTargetActivatedJournalFlush)"
| "FaultPoints lt_kCompleted = (kBeforeCompletedJournalFlush, kAfterCompletedJournalFlush)"
| "FaultPoints lt_kManualActionRequired = (kBeforeCompletedJournalFlush, kAfterCompletedJournalFlush)"

fun linux_StateName :: "LinuxTransactionState \<Rightarrow> string" where
  "linux_StateName lt_kPrepared = ''prepared''"
| "linux_StateName lt_kBackupCreated = ''backupCreated''"
| "linux_StateName lt_kTargetActivated = ''targetActivated''"
| "linux_StateName lt_kCompleted = ''completed''"
| "linux_StateName lt_kManualActionRequired = ''manualActionRequired''"

definition linux_ParseState :: "string \<Rightarrow> LinuxTransactionState result" where
  "linux_ParseState state =
     (if state = ''prepared'' then Inr lt_kPrepared
      else if state = ''backupCreated'' then Inr lt_kBackupCreated
      else if state = ''targetActivated'' then Inr lt_kTargetActivated
      else if state = ''completed'' then Inr lt_kCompleted
      else if state = ''manualActionRequired'' then Inr lt_kManualActionRequired
      else journal_Fail ''unknown transaction state'')"

section \<open>Derived names\<close>

definition CreateLinuxTransactionPaths :: "string \<Rightarrow> string \<Rightarrow> LinuxTransactionPaths result" where
  "CreateLinuxTransactionPaths target_name transaction_id =
     bindE (ValidateLinuxLeaf target_name) (\<lambda>_.
       if \<not> kTransactionId transaction_id then journal_Fail ''invalid transaction ID''
       else
         let prefix = ''.'' @ target_name @ ''.desktop-updater-'' @ transaction_id in
         Inr \<lparr>lp_target_name = target_name, lp_transaction_id = transaction_id,
              lp_prepared_name = prefix @ ''.prepared'', lp_backup_name = prefix @ ''.backup'',
              lp_journal_name = prefix @ ''.journal.json'',
              lp_journal_next_name = prefix @ ''.journal.json.next'',
              lp_lock_name = ''.'' @ target_name @ ''.desktop-updater.lock'',
              lp_recovery_lock_name = prefix @ ''.recovery.lock''\<rparr>)"

section \<open>JSON\<close>

definition journal_RequireKeys :: "JsonValue \<Rightarrow> string list \<Rightarrow> unit result" where
  "journal_RequireKeys json keys =
     bindE (jobject json) (\<lambda>object.
       if length object \<noteq> length (remdups keys) \<or> (\<exists>key \<in> set keys. map_find object key = None)
       then journal_Fail ''journal has unknown or missing fields'' else Inr ())"

abbreviation string_at :: "JsonValue \<Rightarrow> string \<Rightarrow> string result" where
  "string_at json key \<equiv> bindE (json_at json key) jstring"

abbreviation integer_at :: "JsonValue \<Rightarrow> string \<Rightarrow> int result" where
  "integer_at json key \<equiv> bindE (json_at json key) jinteger"

definition identity_members :: "LinuxFileIdentity \<Rightarrow> (string \<times> JsonValue) list" where
  "identity_members identity =
     [(''device'', kInteger (sint (id_device identity))),
      (''changeTimeNanoseconds'', kInteger (sint (id_change_time_nanoseconds identity))),
      (''changeTimeSeconds'', kInteger (sint (id_change_time_seconds identity))),
      (''directory'', kBoolean (id_directory identity)),
      (''gid'', kInteger (uint (id_gid identity))),
      (''inode'', kInteger (sint (id_inode identity))),
      (''linkCount'', kInteger (sint (id_link_count identity))),
      (''mode'', kInteger (uint (id_mode identity))),
      (''mountId'', kInteger (sint (id_mount_id identity))),
      (''uid'', kInteger (uint (id_uid identity)))]"

definition EncodeIdentity :: "LinuxFileIdentity \<Rightarrow> JsonValue" where
  "EncodeIdentity identity = kObject (emplaced (identity_members identity))"

definition invalid_identity :: "LinuxFileIdentity \<Rightarrow> bool" where
  "invalid_identity identity \<longleftrightarrow>
     id_inode identity = 0 \<or> id_mount_id identity = 0 \<or> id_link_count identity = 0 \<or>
     sint (id_change_time_seconds identity) \<le> 0 \<or> sint (id_change_time_nanoseconds identity) < 0 \<or>
     sint (id_change_time_nanoseconds identity) \<ge> 1000000000"

definition DecodeIdentity :: "JsonValue \<Rightarrow> LinuxFileIdentity result" where
  "DecodeIdentity json =
     bindE (journal_RequireKeys json [''changeTimeNanoseconds'', ''changeTimeSeconds'', ''device'',
       ''directory'', ''gid'', ''inode'', ''linkCount'', ''mode'', ''mountId'', ''uid'']) (\<lambda>_.
     bindE (integer_at json ''device'') (\<lambda>device.
     bindE (integer_at json ''inode'') (\<lambda>inode.
     bindE (integer_at json ''mountId'') (\<lambda>mount_id.
     bindE (integer_at json ''mode'') (\<lambda>mode.
     bindE (integer_at json ''uid'') (\<lambda>uid.
     bindE (integer_at json ''gid'') (\<lambda>gid.
     bindE (integer_at json ''linkCount'') (\<lambda>link_count.
     bindE (integer_at json ''changeTimeSeconds'') (\<lambda>seconds.
     bindE (integer_at json ''changeTimeNanoseconds'') (\<lambda>nanoseconds.
     bindE (bindE (json_at json ''directory'') jboolean) (\<lambda>directory.
       let identity = \<lparr>id_device = word_of_int device, id_inode = word_of_int inode,
             id_mount_id = word_of_int mount_id, id_mode = word_of_int mode, id_uid = word_of_int uid,
             id_gid = word_of_int gid, id_link_count = word_of_int link_count,
             id_change_time_seconds = word_of_int seconds, id_change_time_nanoseconds = word_of_int nanoseconds,
             id_directory = directory\<rparr>
       in if invalid_identity identity then journal_Fail ''invalid file identity'' else Inr identity)))))))))))"

definition payload_members :: "LinuxVerifiedPayloadIdentity \<Rightarrow> (string \<times> JsonValue) list" where
  "payload_members identity =
     [(''artifactSha256'', kString (pl_artifact_digest identity)),
      (''executableGid'', kInteger (uint (pl_executable_gid identity))),
      (''executableMode'', kInteger (uint (pl_executable_mode identity))),
      (''executableRelativePath'', kString (pl_executable_relative_path identity)),
      (''executableSha256'', kString (pl_executable_digest identity)),
      (''executableUid'', kInteger (uint (pl_executable_uid identity))),
      (''packageId'', kString (pl_package_id identity)),
      (''packageIdentitySha256'', kString (pl_package_identity_digest identity)),
      (''signerIdentity'', kString (pl_signer_identity identity)),
      (''stageProvenanceSha256'', kString (pl_stage_provenance_digest identity))]"

definition EncodePayload :: "LinuxVerifiedPayloadIdentity \<Rightarrow> JsonValue" where
  "EncodePayload identity = kObject (emplaced (payload_members identity))"

definition journal_ValidateSha256 :: "string \<Rightarrow> unit result" where
  "journal_ValidateSha256 digest = (if \<not> kSha256 digest then journal_Fail ''invalid SHA-256 identity'' else Inr ())"

text \<open>\<^verbatim>\<open>find("..") != npos\<close>.\<close>

primrec has_dotdot :: "string \<Rightarrow> bool" where
  "has_dotdot [] = False"
| "has_dotdot (c # s) \<longleftrightarrow> starts_with ''..'' (c # s) \<or> has_dotdot s"

definition DecodePayload :: "JsonValue \<Rightarrow> LinuxVerifiedPayloadIdentity result" where
  "DecodePayload json =
     bindE (journal_RequireKeys json [''artifactSha256'', ''executableGid'', ''executableMode'',
       ''executableRelativePath'', ''executableSha256'', ''executableUid'', ''packageId'',
       ''packageIdentitySha256'', ''signerIdentity'', ''stageProvenanceSha256'']) (\<lambda>_.
     bindE (string_at json ''packageId'') (\<lambda>package_id.
     bindE (string_at json ''signerIdentity'') (\<lambda>signer.
     bindE (string_at json ''packageIdentitySha256'') (\<lambda>package_identity.
     bindE (string_at json ''stageProvenanceSha256'') (\<lambda>stage_provenance.
     bindE (string_at json ''artifactSha256'') (\<lambda>artifact.
     bindE (string_at json ''executableRelativePath'') (\<lambda>path.
     bindE (string_at json ''executableSha256'') (\<lambda>executable.
     bindE (integer_at json ''executableMode'') (\<lambda>mode.
     bindE (integer_at json ''executableUid'') (\<lambda>uid.
     bindE (integer_at json ''executableGid'') (\<lambda>gid.
       if \<not> kPackageId package_id \<or> signer = [] \<or> path = [] \<or> hd path = CHR ''/'' \<or> has_dotdot path
       then journal_Fail ''invalid payload identity''
       else
         bindE (journal_ValidateSha256 package_identity) (\<lambda>_.
         bindE (journal_ValidateSha256 stage_provenance) (\<lambda>_.
         bindE (journal_ValidateSha256 artifact) (\<lambda>_.
         bindE (journal_ValidateSha256 executable) (\<lambda>_.
           Inr \<lparr>pl_package_id = package_id, pl_signer_identity = signer,
                pl_package_identity_digest = package_identity,
                pl_stage_provenance_digest = stage_provenance, pl_artifact_digest = artifact,
                pl_executable_relative_path = path, pl_executable_digest = executable,
                pl_executable_mode = word_of_int mode, pl_executable_uid = word_of_int uid,
                pl_executable_gid = word_of_int gid\<rparr>)))))))))))))))"

section \<open>The lock record and the journal\<close>

definition lock_members :: "LinuxTransactionLockRecord \<Rightarrow> (string \<times> JsonValue) list" where
  "lock_members r =
     [(''ownerProcessId'', kInteger (sint (lk_owner_process_id r))),
      (''ownerProcessStartIdentity'', kInteger (sint (lk_owner_process_start_identity r))),
      (''transactionId'', kString (lk_transaction_id r))]"

definition EncodeLockRecord :: "LinuxTransactionLockRecord \<Rightarrow> string" where
  "EncodeLockRecord r = EncodeCanonicalJson (kObject (emplaced (lock_members r)))"

text \<open>
  The shared head of both \<^verbatim>\<open>DecodeStrict\<close>: every exception of the JSON parser is replaced, and a text
  that is not canonical is refused.
\<close>

definition ParseCanonical :: "string \<Rightarrow> string \<Rightarrow> string \<Rightarrow> JsonValue result" where
  "ParseCanonical torn noncanonical json =
     (case ParseJson json of
        Inl e \<Rightarrow> journal_Fail torn
      | Inr parsed \<Rightarrow> if EncodeCanonicalJson parsed \<noteq> json then journal_Fail noncanonical else Inr parsed)"

definition DecodeLockRecord :: "string \<Rightarrow> LinuxTransactionLockRecord result" where
  "DecodeLockRecord text =
     bindE (ParseCanonical ''invalid transaction lock record''
              ''transaction lock record is not canonical JSON'' text) (\<lambda>json.
     bindE (journal_RequireKeys json [''ownerProcessId'', ''ownerProcessStartIdentity'', ''transactionId'']) (\<lambda>_.
     bindE (string_at json ''transactionId'') (\<lambda>transaction.
     bindE (integer_at json ''ownerProcessId'') (\<lambda>pid.
     bindE (integer_at json ''ownerProcessStartIdentity'') (\<lambda>start.
       let r = \<lparr>lk_transaction_id = transaction, lk_owner_process_id = word_of_int pid,
             lk_owner_process_start_identity = word_of_int start\<rparr>
       in if \<not> kTransactionId (lk_transaction_id r) \<or> sint (lk_owner_process_id r) \<le> 0 \<or>
             lk_owner_process_start_identity r = 0
          then journal_Fail ''invalid transaction lock identity'' else Inr r)))))"

definition journal_members :: "LinuxTransactionJournal \<Rightarrow> (string \<times> JsonValue) list" where
  "journal_members j =
     [(''backupName'', kString (lj_backup_name j)),
      (''expectedPayloadIdentity'', EncodePayload (lj_expected_payload_identity j)),
      (''lockName'', kString (lj_lock_name j)),
      (''originalStageName'', kString (lj_original_stage_name j)),
      (''ownerProcessId'', kInteger (sint (lj_owner_process_id j))),
      (''ownerProcessStartIdentity'', kInteger (sint (lj_owner_process_start_identity j))),
      (''parentIdentity'', EncodeIdentity (lj_parent_identity j)),
      (''preparedName'', kString (lj_prepared_name j)),
      (''schemaVersion'', kInteger (sint (lj_schema_version j))),
      (''stageIdentity'', EncodeIdentity (lj_stage_identity j)),
      (''state'', kString (linux_StateName (lj_state j))),
      (''targetIdentity'', EncodeIdentity (lj_target_identity j)),
      (''targetName'', kString (lj_target_name j)),
      (''transactionId'', kString (lj_transaction_id j))]"

definition EncodeJournal :: "LinuxTransactionJournal \<Rightarrow> string" where
  "EncodeJournal j = EncodeCanonicalJson (kObject (emplaced (journal_members j)))"

definition ReadJournal :: "JsonValue \<Rightarrow> LinuxTransactionJournal result" where
  "ReadJournal json =
     bindE (journal_RequireKeys json [''backupName'', ''expectedPayloadIdentity'', ''lockName'',
       ''originalStageName'', ''ownerProcessId'', ''ownerProcessStartIdentity'', ''parentIdentity'',
       ''preparedName'', ''schemaVersion'', ''stageIdentity'', ''state'', ''targetIdentity'',
       ''targetName'', ''transactionId'']) (\<lambda>_.
     bindE (integer_at json ''schemaVersion'') (\<lambda>schema.
     bindE (string_at json ''transactionId'') (\<lambda>transaction.
     bindE (integer_at json ''ownerProcessId'') (\<lambda>pid.
     bindE (integer_at json ''ownerProcessStartIdentity'') (\<lambda>start.
     bindE (string_at json ''targetName'') (\<lambda>target.
     bindE (string_at json ''originalStageName'') (\<lambda>stage.
     bindE (string_at json ''preparedName'') (\<lambda>prepared.
     bindE (string_at json ''backupName'') (\<lambda>backup.
     bindE (string_at json ''lockName'') (\<lambda>lock.
     bindE (bindE (json_at json ''parentIdentity'') DecodeIdentity) (\<lambda>parent_identity.
     bindE (bindE (json_at json ''targetIdentity'') DecodeIdentity) (\<lambda>target_identity.
     bindE (bindE (json_at json ''stageIdentity'') DecodeIdentity) (\<lambda>stage_identity.
     bindE (bindE (json_at json ''expectedPayloadIdentity'') DecodePayload) (\<lambda>payload.
     bindE (bindE (string_at json ''state'') linux_ParseState) (\<lambda>state.
       Inr \<lparr>lj_schema_version = word_of_int schema, lj_transaction_id = transaction,
         lj_owner_process_id = word_of_int pid, lj_owner_process_start_identity = word_of_int start,
         lj_target_name = target, lj_original_stage_name = stage, lj_prepared_name = prepared,
         lj_backup_name = backup, lj_lock_name = lock, lj_parent_identity = parent_identity,
         lj_target_identity = target_identity, lj_stage_identity = stage_identity,
         lj_expected_payload_identity = payload, lj_state = state\<rparr>)))))))))))))))"

definition DecodeJournal :: "string \<Rightarrow> LinuxTransactionJournal result" where
  "DecodeJournal text =
     bindE (ParseCanonical ''invalid or torn journal JSON'' ''journal is not canonical JSON'' text) (\<lambda>json.
     bindE (ReadJournal json) (\<lambda>r.
     bindE (CreateLinuxTransactionPaths (lj_target_name r) (lj_transaction_id r)) (\<lambda>paths.
       if lj_schema_version r \<noteq> journal_kSchemaVersion \<or> sint (lj_owner_process_id r) \<le> 0 \<or>
          lj_owner_process_start_identity r = 0 \<or> lj_prepared_name r \<noteq> lp_prepared_name paths \<or>
          lj_backup_name r \<noteq> lp_backup_name paths \<or> lj_lock_name r \<noteq> lp_lock_name paths
       then journal_Fail ''journal derivation mismatch''
       else bindE (ValidateLinuxLeaf (lj_original_stage_name r)) (\<lambda>_. Inr r))))"

section \<open>Well-formed records\<close>

definition valid_payload :: "LinuxVerifiedPayloadIdentity \<Rightarrow> bool" where
  "valid_payload p \<longleftrightarrow> kPackageId (pl_package_id p) \<and> pl_signer_identity p \<noteq> [] \<and>
     pl_executable_relative_path p \<noteq> [] \<and> hd (pl_executable_relative_path p) \<noteq> CHR ''/'' \<and>
     \<not> has_dotdot (pl_executable_relative_path p) \<and> kSha256 (pl_package_identity_digest p) \<and>
     kSha256 (pl_stage_provenance_digest p) \<and> kSha256 (pl_artifact_digest p) \<and> kSha256 (pl_executable_digest p)"

definition valid_lock :: "LinuxTransactionLockRecord \<Rightarrow> bool" where
  "valid_lock r \<longleftrightarrow> kTransactionId (lk_transaction_id r) \<and> 0 < sint (lk_owner_process_id r) \<and>
     lk_owner_process_start_identity r \<noteq> 0"

definition valid_journal :: "LinuxTransactionJournal \<Rightarrow> bool" where
  "valid_journal j \<longleftrightarrow> lj_schema_version j = journal_kSchemaVersion \<and>
     0 < sint (lj_owner_process_id j) \<and> lj_owner_process_start_identity j \<noteq> 0 \<and>
     is_leaf (lj_original_stage_name j) \<and>
     \<not> invalid_identity (lj_parent_identity j) \<and> \<not> invalid_identity (lj_target_identity j) \<and>
     \<not> invalid_identity (lj_stage_identity j) \<and> valid_payload (lj_expected_payload_identity j) \<and>
     (\<exists>paths. CreateLinuxTransactionPaths (lj_target_name j) (lj_transaction_id j) = Inr paths \<and>
        lj_prepared_name j = lp_prepared_name paths \<and> lj_backup_name j = lp_backup_name paths \<and>
        lj_lock_name j = lp_lock_name paths)"

section \<open>Reading fields\<close>

lemma bind_json_field_iff:
  "bindE (bindE (json_at (kObject m) k) d) e = Inr v \<longleftrightarrow>
     (\<exists>w x. map_find m k = Some w \<and> d w = Inr x \<and> e x = Inr v)"
  "bindE (bindE (bindE (json_at (kObject m) k) f) g) h = Inr v \<longleftrightarrow>
     (\<exists>w x y. map_find m k = Some w \<and> f w = Inr x \<and> g x = Inr y \<and> h y = Inr v)"
  by (auto simp: json_at_def jobject_def bindE_Inr_iff split: option.splits)

lemma accessor_iff:
  "jstring v = Inr s \<longleftrightarrow> v = kString s" "jinteger v = Inr i \<longleftrightarrow> v = kInteger i" "jboolean v = Inr b \<longleftrightarrow> v = kBoolean b"
  by (auto simp: jstring_def jinteger_def jboolean_def split: JsonValue.splits)

lemma RequireKeys_object: "journal_RequireKeys json keys = Inr u \<Longrightarrow> \<exists>m. json = kObject m"
  by (auto simp: journal_RequireKeys_def jobject_def split: JsonValue.splits)

lemma RequireKeys_emplaced:
  "distinct (map fst kvs) \<Longrightarrow> set keys = fst ` set kvs \<Longrightarrow> journal_RequireKeys (kObject (emplaced kvs)) keys = Inr ()"
  using distinct_card [of "map fst kvs"]
  by (auto simp: journal_RequireKeys_def jobject_def length_emplaced map_find_emplaced map_of_eq_None_iff
      length_remdups_card_conv)

lemma journal_at_emplaced: "json_at (kObject (emplaced kvs)) k =
    (case map_of kvs k of None \<Rightarrow> Inl (JsonError (''Missing JSON key: '' @ k)) | Some w \<Rightarrow> Inr w)"
  by (simp add: json_at_def jobject_def map_find_emplaced)

lemma int64_sint [simp]: "int64 (sint (w :: 64 word))"
  using sint_ge [of w] sint_lt [of w] by (simp add: int64_defs)

lemma int64_uint [simp]: "int64 (uint (w :: 32 word))"
proof -
  have "0 \<le> uint w" and "uint w < 4294967296" using unsigned_less [of w, where ?'a = int] by simp_all
  then show ?thesis unfolding int64_defs by linarith
qed

lemma int64_sint_pid [simp]: "int64 (sint (w :: 32 word))"
  using sint_ge [of w] sint_lt [of w] by (simp add: int64_defs)

lemmas accessor_defs = jstring_def jinteger_def jboolean_def

section \<open>Identities and payloads\<close>

lemma DecodeIdentity_Encode:
  "DecodeIdentity (EncodeIdentity i) = (if invalid_identity i then journal_Fail ''invalid file identity'' else Inr i)"
proof -
  have keys: "journal_RequireKeys (EncodeIdentity i) [''changeTimeNanoseconds'', ''changeTimeSeconds'', ''device'',
       ''directory'', ''gid'', ''inode'', ''linkCount'', ''mode'', ''mountId'', ''uid''] = Inr ()"
    unfolding EncodeIdentity_def by (rule RequireKeys_emplaced) (auto simp: identity_members_def)
  have at: "json_at (EncodeIdentity i) k = (case map_of (identity_members i) k of
      None \<Rightarrow> Inl (JsonError (''Missing JSON key: '' @ k)) | Some w \<Rightarrow> Inr w)" for k
    by (simp add: EncodeIdentity_def journal_at_emplaced)
  show ?thesis
    unfolding DecodeIdentity_def keys at
    by (cases i) (simp add: identity_members_def accessor_defs Let_def)
qed

lemma DecodeIdentity_valid: "DecodeIdentity json = Inr i \<Longrightarrow> \<not> invalid_identity i"
  unfolding DecodeIdentity_def Let_def by (auto simp: bindE_Inr_iff journal_Fail_def split: if_splits)

lemma DecodePayload_Encode: "DecodePayload (EncodePayload p) = Inr q \<longleftrightarrow> valid_payload p \<and> q = p"
proof -
  have keys: "journal_RequireKeys (EncodePayload p) [''artifactSha256'', ''executableGid'', ''executableMode'',
       ''executableRelativePath'', ''executableSha256'', ''executableUid'', ''packageId'',
       ''packageIdentitySha256'', ''signerIdentity'', ''stageProvenanceSha256''] = Inr ()"
    unfolding EncodePayload_def by (rule RequireKeys_emplaced) (auto simp: payload_members_def)
  have at: "json_at (EncodePayload p) k = (case map_of (payload_members p) k of
      None \<Rightarrow> Inl (JsonError (''Missing JSON key: '' @ k)) | Some w \<Rightarrow> Inr w)" for k
    by (simp add: EncodePayload_def journal_at_emplaced)
  show ?thesis
    unfolding DecodePayload_def keys at
    by (cases p) (auto simp: payload_members_def accessor_defs valid_payload_def journal_ValidateSha256_def
        journal_Fail_def bindE_Inr_iff)
qed

lemma DecodePayload_valid:
  assumes "DecodePayload json = Inr p"
  shows "valid_payload p"
proof -
  obtain m where m: "json = kObject m"
    using assms RequireKeys_object by (fastforce simp: DecodePayload_def bindE_Inr_iff)
  show ?thesis
    using assms unfolding m DecodePayload_def bind_json_field_iff valid_payload_def
    by (auto simp: bindE_Inr_iff journal_Fail_def accessor_iff journal_ValidateSha256_def
        simp del: has_dotdot.simps split: if_splits)
qed

section \<open>Strict decoding\<close>

lemma ParseCanonical_iff:
  "ParseCanonical torn other s = Inr json \<longleftrightarrow> wf_json json \<and> s = EncodeCanonicalJson json"
  by (auto simp: ParseCanonical_def journal_Fail_def ParseJson_Encode dest: ParseJson_wf split: sum.splits if_splits)

lemma ParseCanonical_object:
  "distinct (map fst kvs) \<Longrightarrow> (\<And>k v. (k, v) \<in> set kvs \<Longrightarrow> wf_json v) \<Longrightarrow>
     ParseCanonical torn other (EncodeCanonicalJson (kObject (emplaced kvs))) = Inr (kObject (emplaced kvs))"
  unfolding ParseCanonical_iff by (metis wf_emplaced)

lemma wf_identity: "wf_json (EncodeIdentity i)"
  unfolding EncodeIdentity_def by (rule wf_emplaced) (auto simp: identity_members_def)

lemma wf_payload: "wf_json (EncodePayload p)"
  unfolding EncodePayload_def by (rule wf_emplaced) (auto simp: payload_members_def)

lemma ParseState_Name [simp]: "linux_ParseState (linux_StateName st) = Inr st"
  by (cases st) (simp_all add: linux_ParseState_def)

lemma DecodeLockRecord_Encode: "DecodeLockRecord (EncodeLockRecord r) = Inr q \<longleftrightarrow> valid_lock r \<and> q = r"
proof -
  let ?json = "kObject (emplaced (lock_members r))"
  have parsed: "ParseCanonical a b (EncodeLockRecord r) = Inr ?json" for a b
    unfolding EncodeLockRecord_def by (intro ParseCanonical_object) (auto simp: lock_members_def)
  have keys: "journal_RequireKeys ?json [''ownerProcessId'', ''ownerProcessStartIdentity'', ''transactionId''] = Inr ()"
    by (rule RequireKeys_emplaced) (auto simp: lock_members_def)
  show ?thesis
    unfolding DecodeLockRecord_def parsed bindE_simps keys journal_at_emplaced
    by (cases r) (auto simp: lock_members_def accessor_defs valid_lock_def Let_def journal_Fail_def)
qed

lemma DecodeLockRecord_valid:
  assumes "DecodeLockRecord s = Inr r" shows "valid_lock r"
proof -
  obtain json where json: "ParseCanonical ''invalid transaction lock record''
              ''transaction lock record is not canonical JSON'' s = Inr json"
    using assms by (auto simp: DecodeLockRecord_def bindE_Inr_iff)
  obtain m where m: "json = kObject m"
    using assms RequireKeys_object by (fastforce simp: DecodeLockRecord_def json bindE_Inr_iff)
  show ?thesis
    using assms unfolding DecodeLockRecord_def json bindE_simps m bind_json_field_iff Let_def
    by (auto simp: bindE_Inr_iff [of "journal_RequireKeys j ks" for j ks] accessor_iff journal_Fail_def
        bind_json_field_iff valid_lock_def split: if_splits)
qed

lemma ReadJournal_Encode:
  "ReadJournal (kObject (emplaced (journal_members j))) = Inr q \<longleftrightarrow>
     \<not> invalid_identity (lj_parent_identity j) \<and> \<not> invalid_identity (lj_target_identity j) \<and>
     \<not> invalid_identity (lj_stage_identity j) \<and> valid_payload (lj_expected_payload_identity j) \<and> q = j"
proof -
  have keys: "journal_RequireKeys (kObject (emplaced (journal_members j))) [''backupName'', ''expectedPayloadIdentity'', ''lockName'',
       ''originalStageName'', ''ownerProcessId'', ''ownerProcessStartIdentity'', ''parentIdentity'',
       ''preparedName'', ''schemaVersion'', ''stageIdentity'', ''state'', ''targetIdentity'',
       ''targetName'', ''transactionId''] = Inr ()"
    by (rule RequireKeys_emplaced) (auto simp: journal_members_def)
  have field: "map_find (emplaced (journal_members j)) k = map_of (journal_members j) k" for k
    by (rule map_find_emplaced)
  show ?thesis
    unfolding ReadJournal_def keys bindE_simps bind_json_field_iff field
    by (simp add: journal_members_def accessor_iff DecodeIdentity_Encode DecodePayload_Encode journal_Fail_def)
      (cases j, auto)
qed

lemma ReadJournal_valid:
  assumes "ReadJournal json = Inr j"
  shows "\<not> invalid_identity (lj_parent_identity j) \<and> \<not> invalid_identity (lj_target_identity j) \<and>
    \<not> invalid_identity (lj_stage_identity j) \<and> valid_payload (lj_expected_payload_identity j)"
proof -
  obtain m where m: "json = kObject m"
    using assms(1) RequireKeys_object by (fastforce simp: ReadJournal_def bindE_Inr_iff)
  show ?thesis
    using assms unfolding m ReadJournal_def bindE_Inr_iff [of "journal_RequireKeys j ks" for j ks] bind_json_field_iff
    by (auto dest: DecodeIdentity_valid DecodePayload_valid)
qed

lemma ParseCanonical_Journal:
  "ParseCanonical a b (EncodeJournal j) = Inr (kObject (emplaced (journal_members j)))"
  unfolding EncodeJournal_def
  by (intro ParseCanonical_object) (auto simp: journal_members_def wf_identity wf_payload)

text \<open>A journal that is written and read again is the same journal, or is refused.\<close>

lemma DecodeJournal_Encode: "DecodeJournal (EncodeJournal j) = Inr q \<longleftrightarrow> valid_journal j \<and> q = j"
proof -
  have "DecodeJournal (EncodeJournal j) = Inr q \<longleftrightarrow>
      (\<exists>r. ReadJournal (kObject (emplaced (journal_members j))) = Inr r \<and>
        bindE (CreateLinuxTransactionPaths (lj_target_name r) (lj_transaction_id r)) (\<lambda>paths.
         if lj_schema_version r \<noteq> journal_kSchemaVersion \<or> sint (lj_owner_process_id r) \<le> 0 \<or>
            lj_owner_process_start_identity r = 0 \<or> lj_prepared_name r \<noteq> lp_prepared_name paths \<or>
            lj_backup_name r \<noteq> lp_backup_name paths \<or> lj_lock_name r \<noteq> lp_lock_name paths
         then journal_Fail ''journal derivation mismatch''
         else bindE (ValidateLinuxLeaf (lj_original_stage_name r)) (\<lambda>_. Inr r)) = Inr q)"
    unfolding DecodeJournal_def ParseCanonical_Journal bindE_simps by (simp only: bindE_Inr_iff)
  also have "\<dots> \<longleftrightarrow> valid_journal j \<and> q = j"
    unfolding ReadJournal_Encode valid_journal_def
    by (auto simp: bindE_Inr_iff journal_Fail_def ValidateLinuxLeaf_iff)
  finally show ?thesis .
qed

lemma DecodeJournal_valid:
  assumes "DecodeJournal s = Inr j" shows "valid_journal j"
proof -
  obtain json paths where json: "ReadJournal json = Inr j"
    "CreateLinuxTransactionPaths (lj_target_name j) (lj_transaction_id j) = Inr paths"
    "lj_schema_version j = journal_kSchemaVersion" "0 < sint (lj_owner_process_id j)"
    "lj_owner_process_start_identity j \<noteq> 0" "lj_prepared_name j = lp_prepared_name paths"
    "lj_backup_name j = lp_backup_name paths" "lj_lock_name j = lp_lock_name paths"
    "is_leaf (lj_original_stage_name j)"
    using assms by (auto simp: DecodeJournal_def bindE_Inr_iff journal_Fail_def ValidateLinuxLeaf_iff split: if_splits)
  then show ?thesis using ReadJournal_valid [OF json(1)] by (auto simp: valid_journal_def)
qed

section \<open>Derived names\<close>

lemma kTransactionId_chars: "kTransactionId s \<Longrightarrow> c \<in> set s \<Longrightarrow> c = CHR ''-'' \<or> is_lower_hex c"
proof -
  assume id: "kTransactionId s" and "c \<in> set s"
  then obtain n where n: "n < length s" "c = s ! n" by (auto simp: in_set_conv_nth)
  have "if n = 8 \<or> n = 13 \<or> n = 18 \<or> n = 23 then c = CHR ''-'' else if n = 14 then c = CHR ''4''
      else if n = 19 then c \<in> {CHR ''8'', CHR ''9'', CHR ''a'', CHR ''b''} else is_lower_hex c"
    using id n unfolding kTransactionId_def by blast
  moreover have "is_lower_hex (CHR ''4'')" "c \<in> {CHR ''8'', CHR ''9'', CHR ''a'', CHR ''b''} \<Longrightarrow> is_lower_hex c"
    by (auto simp: is_lower_hex_def isdigit_def)
  ultimately show ?thesis by (metis (full_types))
qed

text \<open>
  The names of a transaction are single path components, pairwise distinct, and none of them is the
  target.
\<close>

lemma paths_derived:
  assumes "CreateLinuxTransactionPaths t i = Inr p"
  shows "is_leaf t" and "kTransactionId i" and "p = (let prefix = ''.'' @ t @ ''.desktop-updater-'' @ i in
     \<lparr>lp_target_name = t, lp_transaction_id = i, lp_prepared_name = prefix @ ''.prepared'',
      lp_backup_name = prefix @ ''.backup'', lp_journal_name = prefix @ ''.journal.json'',
      lp_journal_next_name = prefix @ ''.journal.json.next'',
      lp_lock_name = ''.'' @ t @ ''.desktop-updater.lock'', lp_recovery_lock_name = prefix @ ''.recovery.lock''\<rparr>)"
proof -
  have *: "is_leaf t \<and> kTransactionId i"
    using assms by (cases "kTransactionId i")
      (auto simp: CreateLinuxTransactionPaths_def bindE_Inr_iff journal_Fail_def ValidateLinuxLeaf_iff)
  then show "is_leaf t" and "kTransactionId i" by blast+
  show "p = (let prefix = ''.'' @ t @ ''.desktop-updater-'' @ i in
     \<lparr>lp_target_name = t, lp_transaction_id = i, lp_prepared_name = prefix @ ''.prepared'',
      lp_backup_name = prefix @ ''.backup'', lp_journal_name = prefix @ ''.journal.json'',
      lp_journal_next_name = prefix @ ''.journal.json.next'',
      lp_lock_name = ''.'' @ t @ ''.desktop-updater.lock'', lp_recovery_lock_name = prefix @ ''.recovery.lock''\<rparr>)"
    using assms * by (simp add: CreateLinuxTransactionPaths_def Let_def)
qed

lemma paths_distinct:
  assumes "CreateLinuxTransactionPaths t i = Inr p"
  shows "distinct [lp_target_name p, lp_prepared_name p, lp_backup_name p, lp_journal_name p,
     lp_journal_next_name p, lp_lock_name p, lp_recovery_lock_name p]"
proof -
  have longer: "s \<noteq> c # s @ r" for s r :: string and c
    by (rule notI, drule arg_cong [where f = length]) simp
  show ?thesis unfolding paths_derived(3) [OF assms] by (simp add: Let_def longer)
qed

lemma leaf_of_length: "3 \<le> length s \<Longrightarrow> CHR ''/'' \<notin> set s \<Longrightarrow> char_of (0::nat) \<notin> set s \<Longrightarrow> is_leaf s"
  by (auto simp: is_leaf_def)

lemma paths_leaves:
  assumes "CreateLinuxTransactionPaths t i = Inr p"
  shows "list_all is_leaf [lp_target_name p, lp_prepared_name p, lp_backup_name p, lp_journal_name p,
     lp_journal_next_name p, lp_lock_name p, lp_recovery_lock_name p]"
proof -
  have t: "is_leaf t" "CHR ''/'' \<notin> set t" "char_of (0::nat) \<notin> set t"
    using paths_derived(1) [OF assms] by (simp_all add: is_leaf_def)
  have i: "CHR ''/'' \<notin> set i" "char_of (0::nat) \<notin> set i"
    using kTransactionId_chars [OF paths_derived(2) [OF assms], of "CHR ''/''"]
      kTransactionId_chars [OF paths_derived(2) [OF assms], of "char_of (0::nat)"]
    by (auto simp: is_lower_hex_def isdigit_def char_of_def)
  show ?thesis
    unfolding paths_derived(3) [OF assms] using t(2,3) i
    by (auto simp: Let_def t(1) char_of_def intro!: leaf_of_length)
qed

section \<open>Properties\<close>

text \<open>
  C19. Decoding of the journal and of the lock record is strict: what is accepted is well formed, in
  particular its names are the ones derived from its target and transaction, and the well-formed
  records are exactly the ones that survive being written and read back.
\<close>

theorem journal_strict:
  "(DecodeJournal s = Inr j \<longrightarrow> valid_journal j) \<and>
   (DecodeJournal (EncodeJournal j) = Inr j \<longleftrightarrow> valid_journal j) \<and>
   (DecodeLockRecord s = Inr r \<longrightarrow> valid_lock r) \<and>
   (DecodeLockRecord (EncodeLockRecord r) = Inr r \<longleftrightarrow> valid_lock r)"
  using DecodeJournal_valid DecodeJournal_Encode DecodeLockRecord_valid DecodeLockRecord_Encode by blast

definition sample_transaction :: string where
  "sample_transaction = ''00000000-0000-4000-8000-000000000010''"

definition sample_lock :: LinuxTransactionLockRecord where
  "sample_lock = \<lparr>lk_transaction_id = sample_transaction, lk_owner_process_id = 7,
     lk_owner_process_start_identity = 11\<rparr>"

definition sample_identity :: "64 word \<Rightarrow> bool \<Rightarrow> LinuxFileIdentity" where
  "sample_identity inode directory = \<lparr>id_device = 1, id_inode = inode, id_mount_id = 1,
     id_mode = (if directory then 0x41ED else 0x8180), id_uid = 1000, id_gid = 1000, id_link_count = 1,
     id_change_time_seconds = 1, id_change_time_nanoseconds = 0, id_directory = directory\<rparr>"

definition sample_payload :: LinuxVerifiedPayloadIdentity where
  "sample_payload = \<lparr>pl_package_id = ''com.example.app'', pl_signer_identity = ''release-key-1'',
     pl_package_identity_digest = replicate 64 CHR ''b'', pl_stage_provenance_digest = replicate 64 CHR ''c'',
     pl_artifact_digest = replicate 64 CHR ''d'', pl_executable_relative_path = ''bin/example'',
     pl_executable_digest = replicate 64 CHR ''e'', pl_executable_mode = 0x81ED,
     pl_executable_uid = 1000, pl_executable_gid = 1000\<rparr>"

definition sample_paths :: LinuxTransactionPaths where
  "sample_paths = (case CreateLinuxTransactionPaths ''Example.AppDir'' sample_transaction of Inr p \<Rightarrow> p)"

definition sample_journal :: LinuxTransactionJournal where
  "sample_journal = \<lparr>lj_schema_version = 2, lj_transaction_id = sample_transaction,
     lj_owner_process_id = 7, lj_owner_process_start_identity = 11,
     lj_target_name = ''Example.AppDir'', lj_original_stage_name = ''Stage.AppDir'',
     lj_prepared_name = lp_prepared_name sample_paths, lj_backup_name = lp_backup_name sample_paths,
     lj_lock_name = lp_lock_name sample_paths, lj_parent_identity = sample_identity 1 True,
     lj_target_identity = sample_identity 2 True, lj_stage_identity = sample_identity 3 True,
     lj_expected_payload_identity = sample_payload, lj_state = lt_kPrepared\<rparr>"

lemma sample_transaction_valid: "kTransactionId sample_transaction"
  unfolding sample_transaction_def by code_simp

lemma sample_target_leaf: "is_leaf ''Example.AppDir''" "is_leaf ''Stage.AppDir''"
  by (simp_all add: is_leaf_def char_of_def)

lemma sample_paths_created: "CreateLinuxTransactionPaths ''Example.AppDir'' sample_transaction = Inr sample_paths"
  unfolding sample_paths_def using sample_transaction_valid sample_target_leaf
  by (simp add: CreateLinuxTransactionPaths_def Let_def)

lemma sample_payload_valid: "valid_payload sample_payload"
  unfolding valid_payload_def sample_payload_def
  by (simp add: kPackageId_def kSha256_def list_all_iff is_lower_hex_def isdigit_def isalnum_def isalpha_def
      islower_def isupper_def)

lemma sample_identity_valid: "inode \<noteq> 0 \<Longrightarrow> \<not> invalid_identity (sample_identity inode d)"
  by (simp add: invalid_identity_def sample_identity_def)

lemma sample_lock_valid: "valid_lock sample_lock"
  by (simp add: valid_lock_def sample_lock_def sample_transaction_valid)

lemma sample_journal_valid: "valid_journal sample_journal"
  unfolding valid_journal_def
  by (simp add: sample_journal_def journal_kSchemaVersion_def sample_target_leaf
      sample_paths_created sample_payload_valid sample_identity_valid)

theorem journal_strict_witness:
  "DecodeJournal (EncodeJournal sample_journal) = Inr sample_journal \<and> valid_journal sample_journal"
  using journal_strict [of "EncodeJournal sample_journal" sample_journal sample_lock]
    sample_journal_valid by blast

text \<open>
  Decoding is not injective: the casts drop the high bits of an integer, so a lock record with a process
  number that does not fit 32 bits is read as the lock of another process.
\<close>

lemma lock_record_aliases:
  "\<exists>s. DecodeLockRecord s = Inr sample_lock \<and> s \<noteq> EncodeLockRecord sample_lock"
proof -
  let ?members = "[(''ownerProcessId'', kInteger 4294967303), (''ownerProcessStartIdentity'', kInteger 11),
      (''transactionId'', kString sample_transaction)]"
  let ?json = "kObject (emplaced ?members)"
  have parsed: "ParseCanonical a b (EncodeCanonicalJson ?json) = Inr ?json" for a b
    by (rule ParseCanonical_object) (auto simp: int64_defs)
  have keys: "journal_RequireKeys ?json [''ownerProcessId'', ''ownerProcessStartIdentity'', ''transactionId''] = Inr ()"
    by (rule RequireKeys_emplaced) auto
  have decoded: "DecodeLockRecord (EncodeCanonicalJson ?json) = Inr sample_lock"
    unfolding DecodeLockRecord_def parsed bindE_simps keys journal_at_emplaced
    by (simp add: accessor_defs Let_def sample_transaction_valid sample_lock_def)
  have "?json \<noteq> kObject (emplaced (lock_members sample_lock))"
  proof
    assume "?json = kObject (emplaced (lock_members sample_lock))"
    then have "map_find (emplaced ?members) ''ownerProcessId'' =
        map_find (emplaced (lock_members sample_lock)) ''ownerProcessId''" by simp
    then show False by (simp add: map_find_emplaced lock_members_def sample_lock_def)
  qed
  moreover have "wf_json ?json"
    by (rule wf_emplaced) (auto simp: int64_defs)
  moreover have "wf_json (kObject (emplaced (lock_members sample_lock)))"
    by (rule wf_emplaced) (auto simp: lock_members_def sample_lock_def int64_defs)
  ultimately have "EncodeCanonicalJson ?json \<noteq> EncodeLockRecord sample_lock"
    unfolding EncodeLockRecord_def by (metis ParseJson_Encode sum.inject(2))
  with decoded show ?thesis by blast
qed

end
