(* ===== verification/Linux_Directory.thy ===== *)
theory Linux_Directory
  imports Linux_Journal
begin

text \<open>
  The parent directory that a Linux transaction works in, and the system calls its code makes there. The
  calls of one process are numbered; a kernel decides for each number whether the call goes through,
  fails, or the process dies there, so a theorem about every kernel speaks about every crash and every
  failing call. A process that dies leaves the directory as it is. Not modelled: other processes that
  change the directory between two calls, and the loss of unflushed directory changes when the machine
  goes down.

  The file operations of \<^verbatim>\<open>linux_mount_guard.cc\<close> and \<^verbatim>\<open>linux_transaction_journal.cc\<close> are defined over these calls, and a small
  calculus of pre- and postconditions for them closes the theory.
\<close>

named_theorems action_defs \<open>definitions of the statements\<close>

section \<open>Directories\<close>

text \<open>A file, directory, link or special file: its identity, its bytes, and the entries of a directory.\<close>

datatype LinuxNode = LinuxNode (node_identity: LinuxFileIdentity) (node_bytes: string)
  (node_entries: "(string \<times> LinuxNode) list")

type_synonym linux_entries = "string \<Rightarrow> LinuxNode option"

text \<open>
  The pinned parent with its entries, the number of calls made so far, and the mutable members of the
  \<^verbatim>\<open>LinuxFileTransaction\<close> of the running process. The change time and link count of the parent itself are not
  tracked: the code never compares them.
\<close>

record LinuxWorld =
  lw_parent :: LinuxFileIdentity
  lw_entries :: linux_entries
  lw_clock :: nat
  lw_lock_held :: bool
  lw_journal :: "LinuxTransactionJournal option"
  lw_journal_persisted :: bool
  lw_execution_started :: bool

datatype call_result = Proceeds | Fails | Dies

text \<open>
  What a kernel and its environment decide: the fate of each call and of each fault point, the change
  time and link count that a call leaves on a file, the identity of a created file, how much a
  \<^verbatim>\<open>write\<close> that is cut short wrote, and whether an advisory lock is free.
\<close>

record LinuxKernel =
  kn_call :: "nat \<Rightarrow> call_result"
  kn_hit :: "LinuxTransactionFaultPoint \<Rightarrow> nat \<Rightarrow> call_result"
  kn_change_time :: "nat \<Rightarrow> 64 word \<times> 64 word"
  kn_link_count :: "nat \<Rightarrow> 64 word"
  kn_created :: "nat \<Rightarrow> LinuxFileIdentity"
  kn_written :: "nat \<Rightarrow> nat"
  kn_flock :: "nat \<Rightarrow> bool"

section \<open>Statements\<close>

datatype 'a outcome = Returned 'a | Threw cpp_exception | Died

type_synonym 'a action = "LinuxWorld \<Rightarrow> 'a outcome \<times> LinuxWorld"

definition ret :: "'a \<Rightarrow> 'a action" where [action_defs]:
  "ret x w = (Returned x, w)"

definition throwing :: "cpp_exception \<Rightarrow> 'a action" where [action_defs]:
  "throwing e w = (Threw e, w)"

definition seq :: "'a action \<Rightarrow> ('a \<Rightarrow> 'b action) \<Rightarrow> 'b action" where [action_defs]:
  "seq m f w = (case m w of
       (Returned x, w') \<Rightarrow> f x w'
     | (Threw e, w') \<Rightarrow> (Threw e, w')
     | (Died, w') \<Rightarrow> (Died, w'))"

text \<open>\<^verbatim>\<open>catch (...) { handler; throw; }\<close>; a process that died runs no handler.\<close>

definition rethrowing :: "'a action \<Rightarrow> unit action \<Rightarrow> 'a action" where [action_defs]:
  "rethrowing m handler w = (case m w of
       (Threw e, w') \<Rightarrow> seq handler (\<lambda>_. throwing e) w'
     | r \<Rightarrow> r)"

text \<open>\<^verbatim>\<open>catch (const std::exception&) { return x; }\<close>.\<close>

definition catching :: "'a action \<Rightarrow> 'a \<Rightarrow> 'a action" where [action_defs]:
  "catching m x w = (case m w of
       (Threw e, w') \<Rightarrow> (Returned x, w')
     | r \<Rightarrow> r)"

definition lift :: "'a result \<Rightarrow> 'a action" where [action_defs]:
  "lift r w = (case r of Inl e \<Rightarrow> (Threw e, w) | Inr x \<Rightarrow> (Returned x, w))"

definition require :: "bool \<Rightarrow> cpp_exception \<Rightarrow> unit action" where [action_defs]:
  "require b e w = (if b then (Returned (), w) else (Threw e, w))"

definition reading :: "(LinuxWorld \<Rightarrow> 'a) \<Rightarrow> 'a action" where [action_defs]:
  "reading f w = (Returned (f w), w)"

definition update :: "(LinuxWorld \<Rightarrow> LinuxWorld) \<Rightarrow> unit action" where [action_defs]:
  "update f w = (Returned (), f w)"

section \<open>Calls\<close>

definition mount_error :: "string \<Rightarrow> cpp_exception" where
  "mount_error detail = HelperError LinuxMountGuardError detail"

definition journal_error :: "string \<Rightarrow> cpp_exception" where
  "journal_error detail = HelperError LinuxTransactionJournalError detail"

text \<open>One call: \<open>body\<close> gets its number and is its effect when it goes through.\<close>

definition call :: "LinuxKernel \<Rightarrow> cpp_exception \<Rightarrow> (nat \<Rightarrow> 'a action) \<Rightarrow> 'a action" where
  "call k e body w =
     (let n = lw_clock w; w = w\<lparr>lw_clock := Suc n\<rparr> in
      case kn_call k n of
        Proceeds \<Rightarrow> body n w
      | Fails \<Rightarrow> (Threw e, w)
      | Dies \<Rightarrow> (Died, w))"

text \<open>\<^verbatim>\<open>fault_injector_->Hit(point)\<close>.\<close>

definition Hit :: "LinuxKernel \<Rightarrow> LinuxTransactionFaultPoint \<Rightarrow> unit action" where
  "Hit k point w =
     (let n = lw_clock w; w = w\<lparr>lw_clock := Suc n\<rparr> in
      case kn_hit k point n of
        Proceeds \<Rightarrow> (Returned (), w)
      | Fails \<Rightarrow> (Threw (HelperError LinuxFileTransactionError ''injected crash''), w)
      | Dies \<Rightarrow> (Died, w))"

definition set_entry :: "string \<Rightarrow> LinuxNode option \<Rightarrow> LinuxWorld \<Rightarrow> LinuxWorld" where
  "set_entry leaf node w = w\<lparr>lw_entries := (lw_entries w)(leaf := node)\<rparr>"

definition retime :: "LinuxKernel \<Rightarrow> nat \<Rightarrow> LinuxNode \<Rightarrow> LinuxNode" where
  "retime k n node = LinuxNode ((node_identity node)\<lparr>id_change_time_seconds := fst (kn_change_time k n),
       id_change_time_nanoseconds := snd (kn_change_time k n)\<rparr>) (node_bytes node) (node_entries node)"

definition is_symlink :: "LinuxNode \<Rightarrow> bool" where
  "is_symlink node \<longleftrightarrow> and (id_mode (node_identity node)) S_IFMT = S_IFLNK"

definition is_directory :: "LinuxNode \<Rightarrow> bool" where
  "is_directory node \<longleftrightarrow> id_directory (node_identity node)"

definition LinuxRelativeExistsNoFollow :: "LinuxKernel \<Rightarrow> string \<Rightarrow> bool action" where
  "LinuxRelativeExistsNoFollow k leaf =
     seq (lift (ValidateLinuxLeaf leaf)) (\<lambda>_.
       call k (mount_error ''fstatat existence check failed'') (\<lambda>_. reading (\<lambda>w. lw_entries w leaf \<noteq> None)))"

text \<open>An open that neither creates nor follows; with \<^verbatim>\<open>O_PATH\<close> a link is opened and then refused.\<close>

definition OpenLinuxRelativeNoFollow :: "LinuxKernel \<Rightarrow> string \<Rightarrow> LinuxNode action" where
  "OpenLinuxRelativeNoFollow k leaf =
     seq (lift (ValidateLinuxLeaf leaf)) (\<lambda>_.
       call k (mount_error ''openat no-follow failed'') (\<lambda>_. seq (reading (\<lambda>w. lw_entries w leaf)) (\<lambda>found.
         case found of
           None \<Rightarrow> throwing (mount_error ''openat no-follow failed'')
         | Some node \<Rightarrow>
             if is_symlink node then throwing (mount_error ''symbolic link rejected'') else ret node)))"

definition ReadLinuxRelativeIdentity :: "LinuxKernel \<Rightarrow> string \<Rightarrow> LinuxFileIdentity action" where
  "ReadLinuxRelativeIdentity k leaf = seq (OpenLinuxRelativeNoFollow k leaf) (\<lambda>node. ret (node_identity node))"

text \<open>\<^verbatim>\<open>O_CREAT | O_EXCL\<close>, and \<^verbatim>\<open>O_CREAT\<close> alone.\<close>

definition CreateExclusive :: "LinuxKernel \<Rightarrow> string \<Rightarrow> unit action" where
  "CreateExclusive k leaf =
     seq (lift (ValidateLinuxLeaf leaf)) (\<lambda>_.
       call k (mount_error ''openat no-follow failed'') (\<lambda>n. seq (reading (\<lambda>w. lw_entries w leaf)) (\<lambda>found.
         if found \<noteq> None then throwing (mount_error ''openat no-follow failed'')
         else update (set_entry leaf (Some (LinuxNode (kn_created k n) [] []))))))"

definition OpenOrCreate :: "LinuxKernel \<Rightarrow> string \<Rightarrow> unit action" where
  "OpenOrCreate k leaf =
     seq (lift (ValidateLinuxLeaf leaf)) (\<lambda>_.
       call k (mount_error ''openat no-follow failed'') (\<lambda>n. seq (reading (\<lambda>w. lw_entries w leaf)) (\<lambda>found.
         case found of
           None \<Rightarrow> update (set_entry leaf (Some (LinuxNode (kn_created k n) [] [])))
         | Some node \<Rightarrow>
             if is_symlink node \<or> is_directory node then throwing (mount_error ''openat no-follow failed'') else ret ())))"

text \<open>\<^verbatim>\<open>WriteAll\<close> to the file just created; when it is cut short, a prefix of the text is in the file.\<close>

definition write_bytes :: "string \<Rightarrow> string \<Rightarrow> LinuxWorld \<Rightarrow> LinuxWorld" where
  "write_bytes leaf bytes w = (case lw_entries w leaf of
       None \<Rightarrow> w
     | Some node \<Rightarrow> set_entry leaf (Some (LinuxNode (node_identity node) bytes (node_entries node))) w)"

definition WriteAll :: "LinuxKernel \<Rightarrow> cpp_exception \<Rightarrow> string \<Rightarrow> string \<Rightarrow> unit action" where
  "WriteAll k e leaf contents w =
     (let n = lw_clock w; w = w\<lparr>lw_clock := Suc n\<rparr>; cut = write_bytes leaf (take (kn_written k n) contents) w in
      case kn_call k n of
        Proceeds \<Rightarrow> (Returned (), write_bytes leaf contents w)
      | Fails \<Rightarrow> (Threw e, cut)
      | Dies \<Rightarrow> (Died, cut))"

text \<open>\<^verbatim>\<open>fdatasync\<close> and \<^verbatim>\<open>SyncLinuxDirectory\<close>.\<close>

definition Flush :: "LinuxKernel \<Rightarrow> cpp_exception \<Rightarrow> unit action" where
  "Flush k e = call k e (\<lambda>_. ret ())"

definition SyncLinuxDirectory :: "LinuxKernel \<Rightarrow> unit action" where
  "SyncLinuxDirectory k = Flush k (journal_error ''parent directory fsync failed'')"

text \<open>
  \<^verbatim>\<open>unlinkat\<close> of a file. Where the code tests the result instead of throwing, a failing call is the result
  \<open>False\<close>.
\<close>

definition Unlink :: "LinuxKernel \<Rightarrow> string \<Rightarrow> bool action" where
  "Unlink k leaf w =
     (let n = lw_clock w; w = w\<lparr>lw_clock := Suc n\<rparr> in
      case kn_call k n of
        Proceeds \<Rightarrow>
          (case lw_entries w leaf of
             None \<Rightarrow> (Returned False, w)
           | Some node \<Rightarrow>
               if is_directory node then (Returned False, w) else (Returned True, set_entry leaf None w))
      | Fails \<Rightarrow> (Returned False, w)
      | Dies \<Rightarrow> (Died, w))"

text \<open>\<^verbatim>\<open>flock(fd, LOCK_EX | LOCK_NB) == 0\<close>.\<close>

definition Flock :: "LinuxKernel \<Rightarrow> bool action" where
  "Flock k w =
     (let n = lw_clock w; w = w\<lparr>lw_clock := Suc n\<rparr> in
      case kn_call k n of
        Proceeds \<Rightarrow> (Returned (kn_flock k n), w)
      | Fails \<Rightarrow> (Returned False, w)
      | Dies \<Rightarrow> (Died, w))"

text \<open>
  \<^verbatim>\<open>renameat2\<close> inside the directory: without replacement the destination must be free; with replacement it
  may be a file that is not a directory, or an empty directory when a directory is moved. The moved
  file gets a new change time. The fallback to \<^verbatim>\<open>renameat\<close> on an old kernel has the same effect.
\<close>

definition may_replace :: "LinuxNode \<Rightarrow> LinuxNode \<Rightarrow> bool" where
  "may_replace source destination \<longleftrightarrow>
     (if is_directory source then is_directory destination \<and> node_entries destination = []
      else \<not> is_directory destination)"

definition RenameLinuxRelative :: "LinuxKernel \<Rightarrow> string \<Rightarrow> string \<Rightarrow> bool \<Rightarrow> unit action" where
  "RenameLinuxRelative k source destination replace_existing =
     seq (lift (ValidateLinuxLeaf source)) (\<lambda>_.
     seq (lift (ValidateLinuxLeaf destination)) (\<lambda>_.
       call k (journal_error ''renameat2 relative swap failed'') (\<lambda>n. seq (reading lw_entries) (\<lambda>entries.
         case (entries source, entries destination) of
           (None, _) \<Rightarrow> throwing (journal_error ''renameat2 relative swap failed'')
         | (Some node, None) \<Rightarrow>
             update (\<lambda>w. set_entry destination (Some (retime k n node)) (set_entry source None w))
         | (Some node, Some existing) \<Rightarrow>
             if \<not> replace_existing then throwing (journal_error ''renameat2 relative swap failed'')
             else if source = destination then ret ()
             else if may_replace node existing then
               update (\<lambda>w. set_entry destination (Some (retime k n node)) (set_entry source None w))
             else throwing (journal_error ''renameat2 relative swap failed'')))))"

definition ReadLinuxRelativeUtf8 :: "LinuxKernel \<Rightarrow> string \<Rightarrow> nat \<Rightarrow> string action" where
  "ReadLinuxRelativeUtf8 k leaf maximum_bytes =
     seq (OpenLinuxRelativeNoFollow k leaf) (\<lambda>node.
       if is_directory node then throwing (journal_error ''expected regular file'')
       else
         call k (journal_error ''relative read failed'') (\<lambda>_.
           if length (node_bytes node) > maximum_bytes
           then throwing (journal_error ''relative file exceeds limit'') else ret (node_bytes node)))"

section \<open>Pre- and postconditions\<close>

text \<open>
  From a state with \<open>P\<close>, the statement returns a value in a state with \<open>Q\<close>, or throws or dies in a state
  with \<open>E\<close>.
\<close>

definition runs ::
    "(LinuxWorld \<Rightarrow> bool) \<Rightarrow> 'a action \<Rightarrow> ('a \<Rightarrow> LinuxWorld \<Rightarrow> bool) \<Rightarrow> (LinuxWorld \<Rightarrow> bool) \<Rightarrow> bool" where
  "runs P m Q E \<longleftrightarrow> (\<forall>w. P w \<longrightarrow> (case m w of
       (Returned x, w') \<Rightarrow> Q x w' | (Threw e, w') \<Rightarrow> E w' | (Died, w') \<Rightarrow> E w'))"

abbreviation keeps :: "(LinuxWorld \<Rightarrow> bool) \<Rightarrow> 'a action \<Rightarrow> bool" where
  "keeps P m \<equiv> runs P m (\<lambda>_. P) P"

definition timeless :: "(LinuxWorld \<Rightarrow> bool) \<Rightarrow> bool" where
  "timeless P \<longleftrightarrow> (\<forall>w c. P (w\<lparr>lw_clock := c\<rparr>) \<longleftrightarrow> P w)"

text \<open>A statement that only reads.\<close>

definition quiet :: "'a action \<Rightarrow> bool" where
  "quiet m \<longleftrightarrow> (\<forall>w. \<exists>c. snd (m w) = w\<lparr>lw_clock := c\<rparr>)"

lemma timelessD: "timeless P \<Longrightarrow> P (w\<lparr>lw_clock := c\<rparr>) \<longleftrightarrow> P w"
  by (simp add: timeless_def)

lemma set_entry_simps [simp]:
  "lw_entries (set_entry l n w) = (lw_entries w)(l := n)" "lw_journal (set_entry l n w) = lw_journal w"
  "lw_parent (set_entry l n w) = lw_parent w" "lw_clock (set_entry l n w) = lw_clock w"
  "lw_lock_held (set_entry l n w) = lw_lock_held w"
  "lw_journal_persisted (set_entry l n w) = lw_journal_persisted w"
  "lw_execution_started (set_entry l n w) = lw_execution_started w"
  by (simp_all add: set_entry_def)

lemma retime_simps [simp]:
  "node_bytes (retime k n node) = node_bytes node" "node_entries (retime k n node) = node_entries node"
  "SameLinuxIdentity (node_identity (retime k n node)) (node_identity node)"
  "is_directory (retime k n node) = is_directory node" "is_symlink (retime k n node) = is_symlink node"
  by (simp_all add: retime_def SameLinuxIdentity_def is_directory_def is_symlink_def)

lemma runsD:
  assumes "runs P m Q E" and "P w" and "m w = (r, w')"
  shows "case r of Returned x \<Rightarrow> Q x w' | Threw e \<Rightarrow> E w' | Died \<Rightarrow> E w'"
proof -
  have "case m w of (Returned x, w') \<Rightarrow> Q x w' | (Threw e, w') \<Rightarrow> E w' | (Died, w') \<Rightarrow> E w'"
    using assms(1) [unfolded runs_def, rule_format, OF assms(2)] .
  then show ?thesis unfolding assms(3) by (cases r) simp_all
qed

lemma runsI:
  assumes "\<And>w r w'. P w \<Longrightarrow> m w = (r, w') \<Longrightarrow> case r of Returned x \<Rightarrow> Q x w' | Threw e \<Rightarrow> E w' | Died \<Rightarrow> E w'"
  shows "runs P m Q E"
  unfolding runs_def
proof (intro allI impI)
  fix w assume "P w"
  obtain r w' where m: "m w = (r, w')" by (cases "m w")
  show "case m w of (Returned x, w') \<Rightarrow> Q x w' | (Threw e, w') \<Rightarrow> E w' | (Died, w') \<Rightarrow> E w'"
    using assms [OF \<open>P w\<close> m] unfolding m by (cases r) simp_all
qed

lemma runs_seq:
  assumes "runs P m R E" and "\<And>x. runs (R x) (f x) Q E"
  shows "runs P (seq m f) Q E"
proof (rule runsI)
  fix w r w' assume "P w" and run: "seq m f w = (r, w')"
  obtain r1 w1 where m: "m w = (r1, w1)" by (cases "m w")
  show "case r of Returned x \<Rightarrow> Q x w' | Threw e \<Rightarrow> E w' | Died \<Rightarrow> E w'"
  proof (cases r1)
    case (Returned x)
    then have "R x w1" and "f x w1 = (r, w')" using runsD [OF assms(1) \<open>P w\<close> m] run by (simp_all add: seq_def m)
    then show ?thesis by (rule runsD [OF assms(2)])
  qed (use runsD [OF assms(1) \<open>P w\<close> m] run in \<open>auto simp: seq_def m\<close>)
qed

lemma runs_conseq:
  assumes "runs P' m Q' E'" and "\<And>w. P w \<Longrightarrow> P' w" and "\<And>x w. Q' x w \<Longrightarrow> Q x w" and "\<And>w. E' w \<Longrightarrow> E w"
  shows "runs P m Q E"
proof (rule runsI)
  fix w r w' assume "P w" and m: "m w = (r, w')"
  show "case r of Returned x \<Rightarrow> Q x w' | Threw e \<Rightarrow> E w' | Died \<Rightarrow> E w'"
    using runsD [OF assms(1) assms(2) [OF \<open>P w\<close>] m] assms(3,4) by (cases r) auto
qed

lemma runs_pre: "runs P' m Q E \<Longrightarrow> (\<And>w. P w \<Longrightarrow> P' w) \<Longrightarrow> runs P m Q E"
  by (erule runs_conseq)

lemma runs_assume: "(\<And>w. P w \<Longrightarrow> b) \<Longrightarrow> (b \<Longrightarrow> runs P m Q E) \<Longrightarrow> runs P m Q E"
  by (auto simp: runs_def)

lemma runs_ret: "(\<And>w. P w \<Longrightarrow> Q x w) \<Longrightarrow> runs P (ret x) Q E"
  by (simp add: runs_def ret_def)

lemma runs_throwing: "(\<And>w. P w \<Longrightarrow> E w) \<Longrightarrow> runs P (throwing e) Q E"
  by (simp add: runs_def throwing_def)

lemma runs_lift: "(\<And>w x. P w \<Longrightarrow> r = Inr x \<Longrightarrow> Q x w) \<Longrightarrow> (\<And>w. P w \<Longrightarrow> E w) \<Longrightarrow> runs P (lift r) Q E"
  by (auto simp: runs_def lift_def split: sum.splits)

lemma runs_require: "(\<And>w. P w \<Longrightarrow> b \<Longrightarrow> Q () w) \<Longrightarrow> (\<And>w. P w \<Longrightarrow> E w) \<Longrightarrow> runs P (require b e) Q E"
  by (auto simp: runs_def require_def)

lemma runs_reading: "(\<And>w. P w \<Longrightarrow> Q (f w) w) \<Longrightarrow> runs P (reading f) Q E"
  by (simp add: runs_def reading_def)

lemma runs_update: "(\<And>w. P w \<Longrightarrow> Q () (f w)) \<Longrightarrow> runs P (update f) Q E"
  by (simp add: runs_def update_def)

lemma runs_if: "(b \<Longrightarrow> runs P m Q E) \<Longrightarrow> (\<not> b \<Longrightarrow> runs P m' Q E) \<Longrightarrow> runs P (if b then m else m') Q E"
  by simp

lemma runs_catching:
  assumes "runs P m Q E" and "\<And>w. E w \<Longrightarrow> Q x w"
  shows "runs P (catching m x) Q E"
proof (rule runsI)
  fix w r w' assume "P w" and run: "catching m x w = (r, w')"
  obtain r1 w1 where m: "m w = (r1, w1)" by (cases "m w")
  show "case r of Returned x \<Rightarrow> Q x w' | Threw e \<Rightarrow> E w' | Died \<Rightarrow> E w'"
    using runsD [OF assms(1) \<open>P w\<close> m] run assms(2) by (cases r1) (auto simp: catching_def m)
qed

lemma runs_rethrowing:
  assumes "runs P m Q E" and "runs E h (\<lambda>_. E) E"
  shows "runs P (rethrowing m h) Q E"
proof (rule runsI)
  fix w r w' assume "P w" and run: "rethrowing m h w = (r, w')"
  obtain r1 w1 where m: "m w = (r1, w1)" by (cases "m w")
  obtain r2 w2 where h: "h w1 = (r2, w2)" by (cases "h w1")
  show "case r of Returned x \<Rightarrow> Q x w' | Threw e \<Rightarrow> E w' | Died \<Rightarrow> E w'"
    using runsD [OF assms(1) \<open>P w\<close> m] run runsD [OF assms(2) _ h]
    by (cases r1; cases r2) (auto simp: rethrowing_def seq_def throwing_def m h)
qed

lemma runs_call:
  assumes "timeless P" and "\<And>n. runs P (body n) Q P"
  shows "runs P (call k e body) Q P"
  using assms by (auto simp: runs_def call_def Let_def timeless_def split: call_result.splits)

section \<open>Reading\<close>

lemma quiet_seq: "quiet m \<Longrightarrow> (\<And>x. quiet (f x)) \<Longrightarrow> quiet (seq m f)"
  unfolding quiet_def
proof (rule allI)
  fix w assume m: "\<forall>w. \<exists>c. snd (m w) = w\<lparr>lw_clock := c\<rparr>" and f: "\<And>x. \<forall>w. \<exists>c. snd (f x w) = w\<lparr>lw_clock := c\<rparr>"
  obtain r c where w': "m w = (r, w\<lparr>lw_clock := c\<rparr>)" using m by (metis prod.collapse)
  show "\<exists>c. snd (seq m f w) = w\<lparr>lw_clock := c\<rparr>"
  proof (cases r)
    case (Returned x)
    obtain d where "snd (f x (w\<lparr>lw_clock := c\<rparr>)) = w\<lparr>lw_clock := c\<rparr>\<lparr>lw_clock := d\<rparr>" using f by blast
    then show ?thesis using Returned by (auto simp: seq_def w')
  qed (auto simp: seq_def w')
qed

lemma quiet_statements [simp]:
  "quiet (ret x)" "quiet (throwing e)" "quiet (lift r)" "quiet (require b e)" "quiet (reading f)"
  "quiet (Hit k p)" "quiet (Flock k)"
proof -
  have same: "\<exists>c. w = w\<lparr>lw_clock := c\<rparr>" for w :: LinuxWorld by (rule exI [of _ "lw_clock w"]) simp
  show "quiet (ret x)" "quiet (throwing e)" "quiet (lift r)" "quiet (require b e)" "quiet (reading f)"
    using same by (auto simp: quiet_def action_defs split: sum.split)
  show "quiet (Hit k p)" "quiet (Flock k)"
    by (auto simp: quiet_def Hit_def Flock_def Let_def split: call_result.split)
qed

lemma quiet_call:
  assumes "\<And>n. quiet (body n)" shows "quiet (call k e body)"
  unfolding quiet_def
proof
  fix w
  obtain c where "snd (body (lw_clock w) (w\<lparr>lw_clock := Suc (lw_clock w)\<rparr>)) = w\<lparr>lw_clock := Suc (lw_clock w)\<rparr>\<lparr>lw_clock := c\<rparr>"
    using assms unfolding quiet_def by blast
  then show "\<exists>c. snd (call k e body w) = w\<lparr>lw_clock := c\<rparr>"
    by (auto simp: call_def Let_def split: call_result.split)
qed

lemma quiet_reads [simp]:
  "quiet (LinuxRelativeExistsNoFollow k l)" "quiet (OpenLinuxRelativeNoFollow k l)"
  "quiet (ReadLinuxRelativeIdentity k l)" "quiet (Flush k e)" "quiet (SyncLinuxDirectory k)"
  "quiet (ReadLinuxRelativeUtf8 k l n)"
  unfolding LinuxRelativeExistsNoFollow_def OpenLinuxRelativeNoFollow_def ReadLinuxRelativeIdentity_def Flush_def
    SyncLinuxDirectory_def ReadLinuxRelativeUtf8_def
  by (auto intro!: quiet_seq quiet_call split: option.split)

lemma runs_quiet: "quiet m \<Longrightarrow> timeless P \<Longrightarrow> keeps P m"
proof (rule runsI)
  fix w r w' assume "quiet m" "timeless P" "P w" "m w = (r, w')"
  then obtain c where "w' = w\<lparr>lw_clock := c\<rparr>" by (metis quiet_def snd_conv)
  then have "P w'" using \<open>timeless P\<close> \<open>P w\<close> by (simp add: timeless_def)
  then show "case r of Returned x \<Rightarrow> P w' | Threw e \<Rightarrow> P w' | Died \<Rightarrow> P w'" by (cases r) simp_all
qed

lemma runs_exists:
  assumes "timeless P"
  shows "runs P (LinuxRelativeExistsNoFollow k l) (\<lambda>b w. P w \<and> (b \<longleftrightarrow> lw_entries w l \<noteq> None)) P"
  unfolding LinuxRelativeExistsNoFollow_def
  by (rule runs_seq [where R = "\<lambda>_. P"], rule runs_lift) (auto intro!: runs_call assms runs_reading)

lemma runs_open:
  assumes "timeless P"
  shows "runs P (OpenLinuxRelativeNoFollow k l) (\<lambda>node w. P w \<and> lw_entries w l = Some node) P"
  unfolding OpenLinuxRelativeNoFollow_def
  by (rule runs_seq [where R = "\<lambda>_. P"], rule runs_lift)
    (auto intro!: runs_call assms runs_seq [where R = "\<lambda>found w. P w \<and> lw_entries w l = found"] runs_reading
      runs_throwing runs_ret split: option.split)

lemma runs_identity:
  assumes "timeless P"
  shows "runs P (ReadLinuxRelativeIdentity k l)
    (\<lambda>i w. P w \<and> (\<exists>node. lw_entries w l = Some node \<and> node_identity node = i)) P"
  unfolding ReadLinuxRelativeIdentity_def
  by (rule runs_seq, rule runs_open [OF assms], rule runs_ret) auto

lemma runs_read_text:
  assumes "timeless P"
  shows "runs P (ReadLinuxRelativeUtf8 k l n)
    (\<lambda>s w. P w \<and> (\<exists>node. lw_entries w l = Some node \<and> node_bytes node = s)) P"
  unfolding ReadLinuxRelativeUtf8_def
proof (rule runs_seq, rule runs_open [OF assms])
  fix node
  have timeless: "timeless (\<lambda>w. P w \<and> lw_entries w l = Some node)"
    using assms by (simp add: timeless_def)
  show "runs (\<lambda>w. P w \<and> lw_entries w l = Some node) (if is_directory node
      then throwing (journal_error ''expected regular file'')
      else call k (journal_error ''relative read failed'') (\<lambda>_. if n < length (node_bytes node)
        then throwing (journal_error ''relative file exceeds limit'') else ret (node_bytes node)))
     (\<lambda>s w. P w \<and> (\<exists>node. lw_entries w l = Some node \<and> node_bytes node = s)) P"
    by (rule runs_conseq [where E' = "\<lambda>w. P w \<and> lw_entries w l = Some node"
          and P' = "\<lambda>w. P w \<and> lw_entries w l = Some node" and
          Q' = "\<lambda>s w. P w \<and> (\<exists>node. lw_entries w l = Some node \<and> node_bytes node = s)"])
      (auto intro!: runs_call timeless runs_throwing runs_ret)
qed

section \<open>Changing the directory\<close>

lemma runs_rename:
  assumes time: "timeless P"
    and moved: "\<And>w n node. P w \<Longrightarrow> lw_entries w a = Some node \<Longrightarrow> a \<noteq> b \<Longrightarrow> lw_entries w b = None \<or> replace \<Longrightarrow>
      Q () (set_entry b (Some (retime k n node)) (set_entry a None w))"
    and same: "\<And>w. P w \<Longrightarrow> replace \<Longrightarrow> a = b \<Longrightarrow> Q () w"
  shows "runs P (RenameLinuxRelative k a b replace) Q P"
proof -
  have body: "runs (\<lambda>w. P w \<and> lw_entries w = es) (case (es a, es b) of
        (None, _) \<Rightarrow> throwing (journal_error ''renameat2 relative swap failed'')
      | (Some node, None) \<Rightarrow> update (\<lambda>w. set_entry b (Some (retime k n node)) (set_entry a None w))
      | (Some node, Some existing) \<Rightarrow>
          if \<not> replace then throwing (journal_error ''renameat2 relative swap failed'')
          else if a = b then ret ()
          else if may_replace node existing then
            update (\<lambda>w. set_entry b (Some (retime k n node)) (set_entry a None w))
          else throwing (journal_error ''renameat2 relative swap failed'')) Q P" for es n
    using moved same by (cases "a = b") (auto intro!: runs_throwing runs_update runs_ret split: option.split)
  have leaf: "keeps P (lift (ValidateLinuxLeaf l))" for l by (rule runs_lift)
  have read: "runs P (reading lw_entries) (\<lambda>es w. P w \<and> lw_entries w = es) P" by (rule runs_reading) simp
  show ?thesis
    unfolding RenameLinuxRelative_def
    by (rule runs_seq [OF leaf], rule runs_seq [OF leaf], rule runs_call [OF time], rule runs_seq [OF read], rule body)
qed

lemma runs_create:
  assumes "timeless P"
    and "\<And>w n. P w \<Longrightarrow> lw_entries w l = None \<Longrightarrow> Q () (set_entry l (Some (LinuxNode (kn_created k n) [] [])) w)"
  shows "runs P (CreateExclusive k l) Q P"
  unfolding CreateExclusive_def
  by (rule runs_seq [where R = "\<lambda>_. P"], rule runs_lift)
    (auto intro!: runs_call assms runs_seq [where R = "\<lambda>found w. P w \<and> lw_entries w l = found"] runs_reading
      runs_throwing runs_update)

lemma runs_open_or_create:
  assumes "timeless P"
    and "\<And>w n. P w \<Longrightarrow> lw_entries w l = None \<Longrightarrow> Q () (set_entry l (Some (LinuxNode (kn_created k n) [] [])) w)"
    and "\<And>w node. P w \<Longrightarrow> lw_entries w l = Some node \<Longrightarrow> Q () w"
  shows "runs P (OpenOrCreate k l) Q P"
  unfolding OpenOrCreate_def
  by (rule runs_seq [where R = "\<lambda>_. P"], rule runs_lift)
    (auto intro!: runs_call assms(1,2) runs_seq [where R = "\<lambda>found w. P w \<and> lw_entries w l = found"] runs_reading
      runs_throwing runs_update runs_ret intro: assms(3) split: option.split)

lemma runs_write:
  assumes "timeless P" and "\<And>w bytes. P w \<Longrightarrow> E (write_bytes l bytes w)"
    and "\<And>w. P w \<Longrightarrow> Q () (write_bytes l contents w)"
  shows "runs P (WriteAll k e l contents) Q E"
  using assms by (auto simp: runs_def WriteAll_def Let_def timeless_def split: call_result.splits)

lemma runs_unlink:
  assumes "timeless P"
    and "\<And>w node. P w \<Longrightarrow> lw_entries w l = Some node \<Longrightarrow> \<not> is_directory node \<Longrightarrow> Q True (set_entry l None w)"
    and "\<And>w. P w \<Longrightarrow> Q False w"
  shows "runs P (Unlink k l) Q P"
  using assms by (auto simp: runs_def Unlink_def Let_def timeless_def split: call_result.splits option.splits)

end
