(* ===== verification/Linux_Cleanup.thy ===== *)
theory Linux_Cleanup
  imports Linux_Directory
begin

text \<open>
  Removal of the backup tree, the second part of \<^verbatim>\<open>linux_transaction_journal.cc\<close>: a bounded walk that only reads and
  records a manifest, and a removal that compares each name with the manifest before it unlinks it.
\<close>

section \<open>Limits\<close>

definition kMaximumCleanupDepth :: nat where "kMaximumCleanupDepth = 128"
definition kMaximumCleanupEntries :: nat where "kMaximumCleanupEntries = 100001"
definition kMaximumCleanupWork :: nat where "kMaximumCleanupWork = 128 * 1024 * 1024"

text \<open>The counters stay below their limits, so the 64-bit fields are natural numbers here.\<close>

record CleanupBudget =
  cb_entries :: nat
  cb_work :: nat

definition fresh_budget :: CleanupBudget where
  "fresh_budget = \<lparr>cb_entries = 0, cb_work = 0\<rparr>"

datatype CleanupManifestNode = CleanupManifestNode (mn_name: string) (mn_identity: LinuxFileIdentity)
  (mn_children: "CleanupManifestNode list")

section \<open>The walk\<close>

definition IsRegularFile :: "LinuxFileIdentity \<Rightarrow> bool" where
  "IsRegularFile identity \<longleftrightarrow> and (id_mode identity) S_IFMT = S_IFREG"

definition RequireCleanupNodePolicy :: "LinuxFileIdentity \<Rightarrow> LinuxFileIdentity \<Rightarrow> unit result" where
  "RequireCleanupNodePolicy identity root_identity =
     (if id_device identity \<noteq> id_device root_identity \<or> id_mount_id identity \<noteq> id_mount_id root_identity
      then journal_Fail ''cleanup descendant crosses a mount or device boundary''
      else if \<not> id_directory identity \<and> \<not> IsRegularFile identity
      then journal_Fail ''cleanup rejects symbolic links and special files''
      else if IsRegularFile identity \<and> id_link_count identity \<noteq> 1
      then journal_Fail ''hard-linked file cleanup rejected''
      else Inr ())"

definition ChargeCleanupWork :: "CleanupBudget \<Rightarrow> nat \<Rightarrow> CleanupBudget result" where
  "ChargeCleanupWork budget cost =
     (if cb_work budget > kMaximumCleanupWork \<or> cost > kMaximumCleanupWork - cb_work budget
      then journal_Fail ''cleanup traversal work limit exceeded''
      else Inr (budget\<lparr>cb_work := cb_work budget + cost\<rparr>))"

definition ChargeCleanupEntry :: "CleanupBudget \<Rightarrow> nat \<Rightarrow> string \<Rightarrow> CleanupBudget result" where
  "ChargeCleanupEntry budget depth name =
     (if depth > kMaximumCleanupDepth then journal_Fail ''cleanup depth limit exceeded''
      else if cb_entries budget \<ge> kMaximumCleanupEntries then journal_Fail ''cleanup entry limit exceeded''
      else ChargeCleanupWork (budget\<lparr>cb_entries := Suc (cb_entries budget)\<rparr>) (1 + depth + length name))"

text \<open>The loop over \<^verbatim>\<open>readdir\<close>; the two dot entries come first.\<close>

fun ScanLoop :: "string list \<Rightarrow> nat \<Rightarrow> CleanupBudget \<Rightarrow> (string list \<times> CleanupBudget) result" where
  "ScanLoop [] child_depth budget = Inr ([], budget)"
| "ScanLoop (name # rest) child_depth budget =
     bindE (ChargeCleanupWork budget (1 + child_depth + length name)) (\<lambda>budget.
       if name = ''.'' \<or> name = ''..'' then ScanLoop rest child_depth budget
       else
         bindE (ChargeCleanupEntry budget child_depth name) (\<lambda>budget.
         bindE (ScanLoop rest child_depth budget) (\<lambda>(names, budget). Inr (name # names, budget))))"

definition ReadCleanupDirectoryNames ::
    "(string \<times> LinuxNode) list \<Rightarrow> nat \<Rightarrow> CleanupBudget \<Rightarrow> (string list \<times> CleanupBudget) result" where
  "ReadCleanupDirectoryNames entries child_depth budget =
     bindE (ScanLoop (''.'' # ''..'' # map fst entries) child_depth budget) (\<lambda>(names, budget). Inr (sort names, budget))"

text \<open>\<^verbatim>\<open>OpenLinuxRelativeNoFollow\<close> with \<^verbatim>\<open>O_PATH\<close> in a directory of the tree.\<close>

definition OpenChild :: "(string \<times> LinuxNode) list \<Rightarrow> string \<Rightarrow> LinuxNode result" where
  "OpenChild entries name =
     bindE (ValidateLinuxLeaf name) (\<lambda>_.
       case map_of entries name of
         None \<Rightarrow> mount_Fail ''openat no-follow failed''
       | Some child \<Rightarrow> if is_symlink child then mount_Fail ''symbolic link rejected'' else Inr child)"

lemma OpenChild_size: "OpenChild entries name = Inr child \<Longrightarrow> size child < size_list (size_prod (\<lambda>_. 0) size) entries"
proof -
  assume "OpenChild entries name = Inr child"
  then have "(name, child) \<in> set entries"
    by (auto simp: OpenChild_def bindE_Inr_iff mount_Fail_def dest: map_of_SomeD split: option.splits if_splits)
  from size_list_estimation [OF this, of "size child" "size_prod (\<lambda>_. 0) size"] show ?thesis by simp
qed

lemma node_entries_size: "size_list (size_prod (\<lambda>_. 0) size) (node_entries node) < size node"
  by (cases node) simp

function BuildCleanupManifest ::
    "LinuxNode \<Rightarrow> string \<Rightarrow> LinuxFileIdentity \<Rightarrow> nat \<Rightarrow> CleanupBudget \<Rightarrow> bool \<Rightarrow>
     (CleanupManifestNode \<times> CleanupBudget) result"
  and BuildCleanupChildren ::
    "(string \<times> LinuxNode) list \<Rightarrow> string list \<Rightarrow> LinuxFileIdentity \<Rightarrow> nat \<Rightarrow> CleanupBudget \<Rightarrow>
     (CleanupManifestNode list \<times> CleanupBudget) result" where
  "BuildCleanupManifest retained name root_identity depth budget entry_already_charged =
     bindE (if \<not> entry_already_charged then ChargeCleanupEntry budget depth name else Inr budget) (\<lambda>budget.
     bindE (RequireCleanupNodePolicy (node_identity retained) root_identity) (\<lambda>_.
       if \<not> is_directory retained then Inr (CleanupManifestNode name (node_identity retained) [], budget)
       else
         bindE (ReadCleanupDirectoryNames (node_entries retained) (depth + 1) budget) (\<lambda>(names, budget).
         bindE (BuildCleanupChildren (node_entries retained) names root_identity (depth + 1) budget) (\<lambda>(children, budget).
           Inr (CleanupManifestNode name (node_identity retained) children, budget)))))"
| "BuildCleanupChildren entries [] root_identity depth budget = Inr ([], budget)"
| "BuildCleanupChildren entries (child_name # names) root_identity depth budget =
     bindE (OpenChild entries child_name) (\<lambda>child.
     bindE (BuildCleanupManifest child child_name root_identity depth budget True) (\<lambda>(node, budget).
     bindE (BuildCleanupChildren entries names root_identity depth budget) (\<lambda>(nodes, budget).
       Inr (node # nodes, budget))))"
  by pat_completeness auto
termination
  by (relation "measures [case_sum (\<lambda>(node, _). size node)
        (\<lambda>(entries, _). size_list (size_prod (\<lambda>_. 0) size) entries),
      case_sum (\<lambda>_. 0) (\<lambda>(_, names, _). length names)]")
    (auto dest: OpenChild_size simp: node_entries_size)

declare BuildCleanupManifest.simps [simp del]

section \<open>The removal\<close>

text \<open>
  A statement inside the directory \<open>leaf\<close>, on its entries. Afterwards the directory has another change time
  and perhaps another link count.
\<close>

definition relist :: "linux_entries \<Rightarrow> (string \<times> LinuxNode) list \<Rightarrow> (string \<times> LinuxNode) list" where
  "relist m entries = List.map_filter (\<lambda>(name, _). map_option (Pair name) (m name)) entries"

definition touch :: "LinuxKernel \<Rightarrow> nat \<Rightarrow> LinuxFileIdentity \<Rightarrow> LinuxFileIdentity" where
  "touch k n identity = identity\<lparr>id_link_count := kn_link_count k n,
     id_change_time_seconds := fst (kn_change_time k n), id_change_time_nanoseconds := snd (kn_change_time k n)\<rparr>"

definition within :: "LinuxKernel \<Rightarrow> string \<Rightarrow> 'a action \<Rightarrow> 'a action" where
  "within k leaf m w = (case lw_entries w leaf of
       None \<Rightarrow> (Threw (mount_error ''openat no-follow failed''), w)
     | Some node \<Rightarrow>
         (case m (w\<lparr>lw_entries := map_of (node_entries node)\<rparr>) of
            (r, w') \<Rightarrow> (r, w'\<lparr>lw_entries := (lw_entries w)(leaf := Some (LinuxNode
               (touch k (lw_clock w') (node_identity node)) (node_bytes node)
               (relist (lw_entries w') (node_entries node))))\<rparr>)))"

text \<open>\<^verbatim>\<open>unlinkat\<close> with \<^verbatim>\<open>AT_REMOVEDIR\<close>.\<close>

definition RemoveDirectory :: "LinuxKernel \<Rightarrow> string \<Rightarrow> bool action" where
  "RemoveDirectory k leaf w =
     (let n = lw_clock w; w = w\<lparr>lw_clock := Suc n\<rparr> in
      case kn_call k n of
        Proceeds \<Rightarrow>
          (case lw_entries w leaf of
             None \<Rightarrow> (Returned False, w)
           | Some node \<Rightarrow>
               if is_directory node \<and> node_entries node = [] then (Returned True, set_entry leaf None w)
               else (Returned False, w))
      | Fails \<Rightarrow> (Returned False, w)
      | Dies \<Rightarrow> (Died, w))"

definition RevalidateCleanupName ::
    "LinuxKernel \<Rightarrow> LinuxFileIdentity \<Rightarrow> string \<Rightarrow> LinuxFileIdentity \<Rightarrow> bool \<Rightarrow> unit action" where
  "RevalidateCleanupName k root_identity name identity exact_manifest_identity =
     seq (OpenLinuxRelativeNoFollow k name) (\<lambda>retained.
     seq (lift (RequireCleanupNodePolicy (node_identity retained) root_identity)) (\<lambda>_.
     seq (require (if exact_manifest_identity then SameLinuxIdentity (node_identity retained) identity
                   else HasStableLinuxIdentity (node_identity retained) identity)
            (journal_error ''cleanup retained identity changed'')) (\<lambda>_.
     seq (OpenLinuxRelativeNoFollow k name) (\<lambda>current.
       require (SameLinuxIdentity (node_identity current) (node_identity retained))
         (journal_error ''cleanup name changed before fd-relative mutation'')))))"

definition ScanDirectory :: "LinuxKernel \<Rightarrow> string \<Rightarrow> string list action" where
  "ScanDirectory k name =
     seq (OpenLinuxRelativeNoFollow k name) (\<lambda>retained.
     seq (require (is_directory retained) (journal_error ''cleanup retained object is not a directory'')) (\<lambda>_.
       call k (journal_error ''directory scan failed'') (\<lambda>_.
         seq (lift (ReadCleanupDirectoryNames (node_entries retained) 1 fresh_budget)) (\<lambda>(names, _). ret names))))"

definition RequireCurrentDirectoryNames :: "LinuxKernel \<Rightarrow> string \<Rightarrow> string list \<Rightarrow> unit action" where
  "RequireCurrentDirectoryNames k name expected =
     seq (ScanDirectory k name) (\<lambda>observed.
       require (observed = expected) (journal_error ''cleanup directory entries changed after preflight''))"

definition RequireEmptyCleanupDirectory :: "LinuxKernel \<Rightarrow> string \<Rightarrow> unit action" where
  "RequireEmptyCleanupDirectory k name =
     seq (ScanDirectory k name) (\<lambda>observed.
       require (observed = []) (journal_error ''cleanup directory gained an unexpected entry''))"

fun RemoveCleanupManifestNode :: "LinuxKernel \<Rightarrow> LinuxFileIdentity \<Rightarrow> CleanupManifestNode \<Rightarrow> unit action"
  and RemoveCleanupChildren ::
    "LinuxKernel \<Rightarrow> LinuxFileIdentity \<Rightarrow> string \<Rightarrow> LinuxFileIdentity \<Rightarrow> CleanupManifestNode list \<Rightarrow> unit action" where
  "RemoveCleanupManifestNode k root_identity (CleanupManifestNode name identity children) =
     seq (RevalidateCleanupName k root_identity name identity True) (\<lambda>_.
       if \<not> id_directory identity then
         seq (Unlink k name) (\<lambda>removed. require removed (journal_error ''unlinkat file cleanup failed''))
       else
         seq (RequireCurrentDirectoryNames k name (map mn_name children)) (\<lambda>_.
         seq (RemoveCleanupChildren k root_identity name identity children) (\<lambda>_.
         seq (RequireEmptyCleanupDirectory k name) (\<lambda>_.
         seq (Flush k (journal_error ''directory fsync failed'')) (\<lambda>_.
         seq (RevalidateCleanupName k root_identity name identity False) (\<lambda>_.
         seq (RemoveDirectory k name) (\<lambda>removed.
           require removed (journal_error ''unlinkat directory cleanup failed''))))))))"
| "RemoveCleanupChildren k root_identity name identity [] = ret ()"
| "RemoveCleanupChildren k root_identity name identity (child_node # nodes) =
     seq (RevalidateCleanupName k root_identity name identity False) (\<lambda>_.
     seq (within k name (RemoveCleanupManifestNode k root_identity child_node)) (\<lambda>_.
       RemoveCleanupChildren k root_identity name identity nodes))"

text \<open>Everything before the first unlink.\<close>

definition CleanupPreflight ::
    "LinuxKernel \<Rightarrow> string \<Rightarrow> LinuxFileIdentity \<Rightarrow> (LinuxFileIdentity \<times> CleanupManifestNode) action" where
  "CleanupPreflight k leaf expected_identity =
     seq (OpenLinuxRelativeNoFollow k leaf) (\<lambda>retained.
     seq (require (SameLinuxIdentity (node_identity retained) expected_identity)
            (journal_error ''cleanup identity mismatch'')) (\<lambda>_.
     seq (reading lw_parent) (\<lambda>parent_identity.
     seq (require (id_directory parent_identity \<and> id_device parent_identity = id_device (node_identity retained) \<and>
              id_mount_id parent_identity = id_mount_id (node_identity retained))
            (journal_error ''cleanup root crosses a mount or device boundary'')) (\<lambda>_.
     seq (lift (RequireCleanupNodePolicy (node_identity retained) (node_identity retained))) (\<lambda>_.
     seq (call k (journal_error ''directory scan failed'') (\<lambda>_.
            lift (BuildCleanupManifest retained leaf (node_identity retained) 0 fresh_budget False))) (\<lambda>(manifest, _).
       ret (node_identity retained, manifest)))))))"

definition RemoveLinuxTreeExact :: "LinuxKernel \<Rightarrow> string \<Rightarrow> LinuxFileIdentity \<Rightarrow> unit action" where
  "RemoveLinuxTreeExact k leaf expected_identity =
     seq (CleanupPreflight k leaf expected_identity) (\<lambda>(root_identity, manifest).
     seq (RemoveCleanupManifestNode k root_identity manifest) (\<lambda>_.
       SyncLinuxDirectory k))"

section \<open>What a removal can change\<close>

text \<open>A statement that changes one entry at most.\<close>

definition confined :: "string \<Rightarrow> 'a action \<Rightarrow> bool" where
  "confined l m \<longleftrightarrow> (\<forall>w. \<exists>c n. snd (m w) = set_entry l n (w\<lparr>lw_clock := c\<rparr>))"

lemma set_entry_twice [simp]: "set_entry l n (set_entry l n' w) = set_entry l n w"
  by (simp add: set_entry_def)

lemma set_entry_clock [simp]:
  "(set_entry l n w)\<lparr>lw_clock := c\<rparr> = set_entry l n (w\<lparr>lw_clock := c\<rparr>)"
  by (simp add: set_entry_def)

lemma set_entry_same: "lw_entries w l = n \<Longrightarrow> set_entry l n w = w"
  by (auto simp: set_entry_def)

lemma confined_quiet: "quiet m \<Longrightarrow> confined l m"
  unfolding quiet_def confined_def
proof
  fix w assume "\<forall>w. \<exists>c. snd (m w) = w\<lparr>lw_clock := c\<rparr>"
  then obtain c where "snd (m w) = w\<lparr>lw_clock := c\<rparr>" by blast
  moreover have "set_entry l (lw_entries w l) (w\<lparr>lw_clock := c\<rparr>) = w\<lparr>lw_clock := c\<rparr>" by (rule set_entry_same) simp
  ultimately show "\<exists>c n. snd (m w) = set_entry l n (w\<lparr>lw_clock := c\<rparr>)" by metis
qed

lemma confined_seq:
  assumes "confined l m" and "\<And>w x w'. m w = (Returned x, w') \<Longrightarrow> confined l (f x)"
  shows "confined l (seq m f)"
  unfolding confined_def
proof
  fix w
  obtain r c n where w': "m w = (r, set_entry l n (w\<lparr>lw_clock := c\<rparr>))"
    using assms(1) unfolding confined_def by (metis prod.collapse)
  show "\<exists>c n. snd (seq m f w) = set_entry l n (w\<lparr>lw_clock := c\<rparr>)"
  proof (cases r)
    case (Returned x)
    obtain d n' where "snd (f x (set_entry l n (w\<lparr>lw_clock := c\<rparr>))) =
        set_entry l n' ((set_entry l n (w\<lparr>lw_clock := c\<rparr>))\<lparr>lw_clock := d\<rparr>)"
      using assms(2) [OF w' [unfolded Returned]] unfolding confined_def by blast
    then have "snd (seq m f w) = set_entry l n' (w\<lparr>lw_clock := d\<rparr>)" by (simp add: seq_def w' Returned)
    then show ?thesis by blast
  qed (auto simp: seq_def w')
qed

lemma confined_within:
  assumes "confined l' m" shows "confined l (within k l m)"
  unfolding confined_def
proof
  fix w
  show "\<exists>c n. snd (within k l m w) = set_entry l n (w\<lparr>lw_clock := c\<rparr>)"
  proof (cases "lw_entries w l")
    case None
    then have "snd (within k l m w) = set_entry l None (w\<lparr>lw_clock := lw_clock w\<rparr>)"
      by (simp add: within_def set_entry_same)
    then show ?thesis by blast
  next
    case (Some node)
    let ?inner = "w\<lparr>lw_entries := map_of (node_entries node)\<rparr>"
    obtain r c n where "m ?inner = (r, set_entry l' n (?inner\<lparr>lw_clock := c\<rparr>))"
      using assms unfolding confined_def by (metis prod.collapse)
    then have "\<exists>n. snd (within k l m w) = set_entry l n (w\<lparr>lw_clock := c\<rparr>)"
      by (simp add: within_def Some set_entry_def) (rule exI, rule refl)
    then show ?thesis by blast
  qed
qed

lemma quiet_cleanup [simp]:
  "quiet (RevalidateCleanupName k root name identity exact)" "quiet (ScanDirectory k name)"
  "quiet (RequireCurrentDirectoryNames k name names)" "quiet (RequireEmptyCleanupDirectory k name)"
  unfolding RevalidateCleanupName_def ScanDirectory_def RequireCurrentDirectoryNames_def RequireEmptyCleanupDirectory_def
  by (auto intro!: quiet_seq quiet_call)

lemma confined_unlink: "confined l (Unlink k l)" "confined l (RemoveDirectory k l)"
  using set_entry_same unfolding confined_def Unlink_def RemoveDirectory_def Let_def
  by (auto split: call_result.split option.split) (metis LinuxWorld.select_convs set_entry_same)+

lemmas confined_reads = quiet_cleanup [THEN confined_quiet] quiet_statements [THEN confined_quiet]
  quiet_reads [THEN confined_quiet]

lemma confined_remove:
  "confined (mn_name manifest) (RemoveCleanupManifestNode k root manifest)"
  "confined name (RemoveCleanupChildren k root name identity nodes)"
  by (induction k root manifest and k root name identity nodes rule: RemoveCleanupManifestNode_RemoveCleanupChildren.induct)
    (auto intro!: confined_seq confined_unlink confined_reads intro: confined_within)

lemma Build_name: "BuildCleanupManifest node name root d b f = Inr (m, b') \<Longrightarrow> mn_name m = name"
  by (auto simp: BuildCleanupManifest.simps [of node] bindE_Inr_iff split: if_splits)

lemma quiet_preflight [simp]: "quiet (CleanupPreflight k leaf e)"
  unfolding CleanupPreflight_def by (auto intro!: quiet_seq quiet_call)

lemma runs_preflight:
  "runs (\<lambda>_. True) (CleanupPreflight k leaf e) (\<lambda>(root, manifest) w. \<exists>node b. lw_entries w leaf = Some node \<and>
     root = node_identity node \<and> BuildCleanupManifest node leaf root 0 fresh_budget False = Inr (manifest, b)) (\<lambda>_. True)"
proof -
  have time: "timeless (\<lambda>w. lw_entries w leaf = Some node)" for node by (simp add: timeless_def)
  show ?thesis
    unfolding CleanupPreflight_def
    apply (rule runs_seq, rule runs_open, simp add: timeless_def)
    apply (rule runs_seq [where R = "\<lambda>_ w. lw_entries w leaf = Some x" for x], rule runs_require, simp, simp)
    apply (rule runs_seq [where R = "\<lambda>_ w. lw_entries w leaf = Some x" for x], rule runs_reading, simp)
    apply (rule runs_seq [where R = "\<lambda>_ w. lw_entries w leaf = Some x" for x], rule runs_require, simp, simp)
    apply (rule runs_seq [where R = "\<lambda>_ w. lw_entries w leaf = Some x" for x], rule runs_lift, simp, simp)
    apply (rule runs_seq [where R = "\<lambda>r w. lw_entries w leaf = Some x \<and>
        BuildCleanupManifest x leaf (node_identity x) 0 fresh_budget False = Inr r" for x])
     apply (rule runs_conseq [OF runs_call [OF time]], rule runs_lift, simp_all)
    apply (auto intro!: runs_ret)
    done
qed

lemma confined_remove_tree: "confined leaf (RemoveLinuxTreeExact k leaf e)"
proof -
  have "mn_name manifest = leaf" if "CleanupPreflight k leaf e w = (Returned (root, manifest), w')" for w root manifest w'
    using runsD [OF runs_preflight _ that] by (auto dest: Build_name)
  then show ?thesis
    unfolding RemoveLinuxTreeExact_def
    by (auto intro!: confined_seq confined_quiet [OF quiet_preflight] confined_reads)
      (metis confined_remove(1))
qed

lemma runs_removed:
  "runs (\<lambda>_. True) (RemoveCleanupManifestNode k root manifest) (\<lambda>_ w. lw_entries w (mn_name manifest) = None) (\<lambda>_. True)"
proof (cases manifest)
  case (CleanupManifestNode name identity children)
  have any: "runs (\<lambda>_. True) m (\<lambda>_ _. True) (\<lambda>_. True)" for m :: "'a action"
    by (rule runsI) (simp split: outcome.split)
  have gone: "runs (\<lambda>_. True) (Unlink k name) (\<lambda>b w. b \<longrightarrow> lw_entries w name = None) (\<lambda>_. True)"
    "runs (\<lambda>_. True) (RemoveDirectory k name) (\<lambda>b w. b \<longrightarrow> lw_entries w name = None) (\<lambda>_. True)"
    by (auto simp: runs_def Unlink_def RemoveDirectory_def Let_def split: call_result.split option.split)
  show ?thesis
    unfolding CleanupManifestNode
    by (auto intro!: runs_seq [OF any] runs_seq [OF gone(1)] runs_seq [OF gone(2)] runs_require)
qed

text \<open>
  A removal touches nothing but the entry of its tree, whatever happens on the way, and when it returns
  the entry is gone.
\<close>

lemma runs_remove_tree:
  assumes "timeless P" and "\<And>w n. P (set_entry leaf n w) \<longleftrightarrow> P w"
  shows "runs P (RemoveLinuxTreeExact k leaf e) (\<lambda>_ w. P w \<and> lw_entries w leaf = None) P"
proof (rule runsI)
  fix w r w' assume "P w" and run: "RemoveLinuxTreeExact k leaf e w = (r, w')"
  obtain c n where w': "w' = set_entry leaf n (w\<lparr>lw_clock := c\<rparr>)"
    using confined_remove_tree [of leaf k e] run unfolding confined_def by (metis snd_conv)
  have "P w'" using \<open>P w\<close> assms by (simp add: w' timelessD)
  have gone: "runs (\<lambda>_. True) (RemoveLinuxTreeExact k leaf e) (\<lambda>_ w. lw_entries w leaf = None) (\<lambda>_. True)"
  proof -
    have sync: "keeps (\<lambda>w. lw_entries w leaf = None) (SyncLinuxDirectory k)"
      by (rule runs_quiet) (simp_all add: timeless_def)
    have step: "runs (\<lambda>w. \<exists>node b. lw_entries w leaf = Some node \<and> root = node_identity node \<and>
        BuildCleanupManifest node leaf root 0 fresh_budget False = Inr (manifest, b))
      (seq (RemoveCleanupManifestNode k root manifest) (\<lambda>_. SyncLinuxDirectory k))
      (\<lambda>_ w. lw_entries w leaf = None) (\<lambda>_. True)" for root manifest
    proof (rule runs_assume [where b = "mn_name manifest = leaf"])
      assume name: "mn_name manifest = leaf"
      show ?thesis
        by (rule runs_seq [OF runs_pre [OF runs_removed [of k root manifest, unfolded name]]], simp)
          (rule runs_conseq [OF sync], simp_all)
    qed (auto dest: Build_name)
    show ?thesis
      unfolding RemoveLinuxTreeExact_def by (rule runs_seq, rule runs_preflight) (auto intro!: runs_pre [OF step])
  qed
  show "case r of Returned x \<Rightarrow> P w' \<and> lw_entries w' leaf = None | Threw e \<Rightarrow> P w' | Died \<Rightarrow> P w'"
    using \<open>P w'\<close> runsD [OF gone _ run] by (cases r) simp_all
qed

section \<open>Limits of the walk\<close>

text \<open>The tree as the walk sees it: how many nodes it has and how deep it is.\<close>

fun manifest_nodes :: "CleanupManifestNode \<Rightarrow> nat" where
  "manifest_nodes (CleanupManifestNode name identity children) = Suc (sum_list (map manifest_nodes children))"

fun manifest_depth :: "CleanupManifestNode \<Rightarrow> nat" where
  "manifest_depth (CleanupManifestNode name identity children) =
     (if children = [] then 0 else Suc (Max (set (map manifest_depth children))))"

fun manifest_identities :: "CleanupManifestNode \<Rightarrow> LinuxFileIdentity set" where
  "manifest_identities (CleanupManifestNode name identity children) =
     insert identity (\<Union> (set (map manifest_identities children)))"

lemma RequireCleanupNodePolicy_iff:
  "RequireCleanupNodePolicy i root = Inr () \<longleftrightarrow> id_device i = id_device root \<and> id_mount_id i = id_mount_id root \<and>
     (id_directory i \<or> IsRegularFile i) \<and> (IsRegularFile i \<longrightarrow> id_link_count i = 1)"
  by (auto simp: RequireCleanupNodePolicy_def journal_Fail_def)

lemma ChargeCleanupEntry_Inr:
  "ChargeCleanupEntry b d name = Inr b' \<Longrightarrow> cb_entries b' = Suc (cb_entries b) \<and> d \<le> kMaximumCleanupDepth \<and>
     cb_entries b' \<le> kMaximumCleanupEntries"
  by (auto simp: ChargeCleanupEntry_def ChargeCleanupWork_def journal_Fail_def split: if_splits)

lemma ChargeCleanupWork_Inr: "ChargeCleanupWork b c = Inr b' \<Longrightarrow> cb_entries b' = cb_entries b"
  by (auto simp: ChargeCleanupWork_def journal_Fail_def split: if_splits)

lemma ScanLoop_entries:
  "ScanLoop names d b = Inr (found, b') \<Longrightarrow> cb_entries b' = cb_entries b + length found \<and>
     (found \<noteq> [] \<longrightarrow> d \<le> kMaximumCleanupDepth \<and> cb_entries b' \<le> kMaximumCleanupEntries) \<and>
     found = filter (\<lambda>x. x \<noteq> ''.'' \<and> x \<noteq> ''..'') names"
proof (induction names d b arbitrary: found b' rule: ScanLoop.induct)
  case (2 name rest d b)
  obtain b1 where b1: "ChargeCleanupWork b (1 + d + length name) = Inr b1"
    using "2.prems" by (auto simp: bindE_Inr_iff)
  show ?case
  proof (cases "name = ''.'' \<or> name = ''..''")
    case True
    then have "ScanLoop rest d b1 = Inr (found, b')" using "2.prems" b1 by simp
    with "2.IH"(1) [OF b1 True] True show ?thesis by (auto simp: ChargeCleanupWork_Inr [OF b1])
  next
    case False
    then obtain b2 names where b2: "ChargeCleanupEntry b1 d name = Inr b2" and
      rest: "ScanLoop rest d b2 = Inr (names, b')" "found = name # names"
      using "2.prems" b1 by (auto simp: bindE_Inr_iff)
    from "2.IH"(2) [OF b1 False b2 rest(1)] ChargeCleanupEntry_Inr [OF b2] ChargeCleanupWork_Inr [OF b1] False
    show ?thesis by (cases "names = []") (auto simp: rest(2))
  qed
qed simp

lemma ReadCleanupDirectoryNames_Inr:
  assumes "ReadCleanupDirectoryNames es d b = Inr (names, b')"
  shows "cb_entries b' = cb_entries b + length names"
    and "names \<noteq> [] \<Longrightarrow> d \<le> kMaximumCleanupDepth \<and> cb_entries b' \<le> kMaximumCleanupEntries"
    and "names = sort (filter (\<lambda>x. x \<noteq> ''.'' \<and> x \<noteq> ''..'') (map fst es))"
proof -
  obtain found where found: "ScanLoop (''.'' # ''..'' # map fst es) d b = Inr (found, b')" "names = sort found"
    using assms by (auto simp: ReadCleanupDirectoryNames_def bindE_Inr_iff)
  note * = ScanLoop_entries [OF found(1)]
  show "cb_entries b' = cb_entries b + length names"
    and "names \<noteq> [] \<Longrightarrow> d \<le> kMaximumCleanupDepth \<and> cb_entries b' \<le> kMaximumCleanupEntries"
    and "names = sort (filter (\<lambda>x. x \<noteq> ''.'' \<and> x \<noteq> ''..'') (map fst es))"
    using * by (auto simp: found(2))
qed

text \<open>
  The walk charges every node once: the children of a directory when it is listed, the root before it is
  read. So the counter bounds the number of nodes.
\<close>

lemma Build_bounds:
  "BuildCleanupManifest node name root d b charged = Inr (m, b') \<Longrightarrow> d \<le> kMaximumCleanupDepth \<or> \<not> charged \<Longrightarrow>
     cb_entries b' + (if charged then 1 else 0) = cb_entries b + manifest_nodes m \<and>
     d + manifest_depth m \<le> kMaximumCleanupDepth \<and>
     (cb_entries b \<le> kMaximumCleanupEntries \<longrightarrow> cb_entries b' \<le> kMaximumCleanupEntries)"
  "BuildCleanupChildren es names root d b = Inr (ms, b') \<Longrightarrow> d \<le> kMaximumCleanupDepth \<or> names = [] \<Longrightarrow>
     cb_entries b' + length names = cb_entries b + sum_list (map manifest_nodes ms) \<and> length ms = length names \<and>
     (\<forall>m \<in> set ms. d + manifest_depth m \<le> kMaximumCleanupDepth) \<and>
     (cb_entries b \<le> kMaximumCleanupEntries \<longrightarrow> cb_entries b' \<le> kMaximumCleanupEntries)"
proof (induction node name root d b charged and es names root d b arbitrary: m b' and ms b'
    rule: BuildCleanupManifest_BuildCleanupChildren.induct)
  case (1 node name root d b charged)
  obtain b1 where b1: "(if \<not> charged then ChargeCleanupEntry b d name else Inr b) = Inr b1"
    and policy: "RequireCleanupNodePolicy (node_identity node) root = Inr ()"
    using "1.prems"(1) unfolding BuildCleanupManifest.simps [of node] by (auto simp: bindE_Inr_iff)
  have entry: "cb_entries b1 + (if charged then 1 else 0) = Suc (cb_entries b)" "d \<le> kMaximumCleanupDepth"
    "cb_entries b \<le> kMaximumCleanupEntries \<longrightarrow> cb_entries b1 \<le> kMaximumCleanupEntries"
    using b1 "1.prems"(2) by (auto dest: ChargeCleanupEntry_Inr split: if_splits)
  show ?case
  proof (cases "is_directory node")
    case False
    then have "m = CleanupManifestNode name (node_identity node) []" "b' = b1"
      using "1.prems"(1) unfolding BuildCleanupManifest.simps [of node] b1 policy by simp_all
    then show ?thesis using entry by simp
  next
    case True
    then obtain names b2 ms where names: "ReadCleanupDirectoryNames (node_entries node) (d + 1) b1 = Inr (names, b2)"
      and children: "BuildCleanupChildren (node_entries node) names root (d + 1) b2 = Inr (ms, b')"
      and m: "m = CleanupManifestNode name (node_identity node) ms"
      using "1.prems"(1) unfolding BuildCleanupManifest.simps [of node] b1 policy by (auto simp: bindE_Inr_iff)
    note read = ReadCleanupDirectoryNames_Inr(1,2) [OF names]
    have depth: "d + 1 \<le> kMaximumCleanupDepth \<or> names = []" using read(2) by blast
    from "1.IH" [OF b1 policy _ names refl children depth] True
    have ih: "cb_entries b' + length names = cb_entries b2 + sum_list (map manifest_nodes ms)" "length ms = length names"
      "\<forall>m \<in> set ms. d + 1 + manifest_depth m \<le> kMaximumCleanupDepth"
      "cb_entries b2 \<le> kMaximumCleanupEntries \<longrightarrow> cb_entries b' \<le> kMaximumCleanupEntries" by auto
    have "d + manifest_depth m \<le> kMaximumCleanupDepth"
    proof (cases "ms = []")
      case True
      then show ?thesis using entry(2) by (simp add: m)
    next
      case False
      then have "Max (set (map manifest_depth ms)) \<in> set (map manifest_depth ms)" by (intro Max_in) auto
      then obtain c where "c \<in> set ms" "Max (set (map manifest_depth ms)) = manifest_depth c" by auto
      then show ?thesis using ih(3) False by (auto simp: m)
    qed
    moreover have "cb_entries b2 \<le> kMaximumCleanupEntries" if "cb_entries b \<le> kMaximumCleanupEntries"
      using read entry(3) that by (cases "names = []") auto
    ultimately show ?thesis using ih read(1) entry(1) by (auto simp: m)
  qed
next
  case (3 es child_name names root d b)
  obtain child node b1 nodes where "OpenChild es child_name = Inr child"
    and c: "BuildCleanupManifest child child_name root d b True = Inr (node, b1)"
    and r: "BuildCleanupChildren es names root d b1 = Inr (nodes, b')" and ms: "ms = node # nodes"
    using "3.prems"(1) by (auto simp: bindE_Inr_iff)
  note ih1 = "3.IH"(1) [OF this(1) c] and ih2 = "3.IH"(2) [OF this(1) c refl r]
  show ?case using ih1 ih2 "3.prems"(2) by (auto simp: ms)
qed simp

section \<open>A removal that no call disturbs\<close>

definition steady :: "LinuxKernel \<Rightarrow> bool" where
  "steady k \<longleftrightarrow> (\<forall>n. kn_call k n = Proceeds)"

definition S_IFDIR :: "32 word" where "S_IFDIR = 0x4000"

text \<open>
  Trees as a file system has them: names in a directory are distinct, the dot entries are not among
  them, and the directory flag is the one in the mode.
\<close>

fun wf_tree :: "LinuxNode \<Rightarrow> bool" where
  "wf_tree (LinuxNode identity bytes entries) \<longleftrightarrow>
     (id_directory identity \<longrightarrow> and (id_mode identity) S_IFMT = S_IFDIR) \<and> distinct (map fst entries) \<and>
     ''.'' \<notin> fst ` set entries \<and> ''..'' \<notin> fst ` set entries \<and> (\<forall>entry \<in> set entries. wf_tree (snd entry))"

lemma runs_open_steady:
  assumes "steady k" and "timeless P" and "is_leaf l"
    and "\<And>w. P w \<Longrightarrow> \<exists>node. lw_entries w l = Some node \<and> \<not> is_symlink node"
  shows "runs P (OpenLinuxRelativeNoFollow k l) (\<lambda>node w. P w \<and> lw_entries w l = Some node) (\<lambda>_. False)"
proof (rule runsI)
  fix w r w' assume "P w" and run: "OpenLinuxRelativeNoFollow k l w = (r, w')"
  obtain node where "lw_entries w l = Some node" "\<not> is_symlink node" using assms(4) [OF \<open>P w\<close>] by blast
  then have "r = Returned node" "w' = w\<lparr>lw_clock := Suc (lw_clock w)\<rparr>"
    using run assms(1,3) by (auto simp: OpenLinuxRelativeNoFollow_def action_defs call_def Let_def steady_def)
  with \<open>P w\<close> \<open>lw_entries w l = Some node\<close> show "case r of Returned x \<Rightarrow> P w' \<and> lw_entries w' l = Some x
      | Threw e \<Rightarrow> False | Died \<Rightarrow> False"
    using assms(2) by (simp add: timelessD)
qed

lemma runs_flush_steady: "steady k \<Longrightarrow> timeless P \<Longrightarrow> runs P (Flush k e) (\<lambda>_. P) (\<lambda>_. False)"
  by (auto simp: runs_def Flush_def call_def Let_def steady_def ret_def timeless_def)

lemma runs_revalidate_steady:
  assumes "steady k" and "timeless P" and "is_leaf name"
    and "\<And>w. P w \<Longrightarrow> \<exists>node. lw_entries w name = Some node \<and> \<not> is_symlink node \<and>
      RequireCleanupNodePolicy (node_identity node) root = Inr () \<and>
      (if exact then SameLinuxIdentity (node_identity node) identity else HasStableLinuxIdentity (node_identity node) identity)"
  shows "runs P (RevalidateCleanupName k root name identity exact) (\<lambda>_. P) (\<lambda>_. False)"
proof -
  have time: "timeless (\<lambda>w. P w \<and> lw_entries w name = Some node)" for node
    using assms(2) by (simp add: timeless_def)
  have read: "runs (\<lambda>w. P w \<and> lw_entries w name = Some node) (OpenLinuxRelativeNoFollow k name)
      (\<lambda>current w. (P w \<and> lw_entries w name = Some node) \<and> lw_entries w name = Some current) (\<lambda>_. False)" for node
    by (rule runs_open_steady [OF assms(1) time assms(3)]) (use assms(4) in fastforce)
  show ?thesis
    unfolding RevalidateCleanupName_def
  proof (rule runs_seq [OF runs_open_steady [OF assms(1,2,3)]])
    fix node
    show "runs (\<lambda>w. P w \<and> lw_entries w name = Some node)
      (seq (lift (RequireCleanupNodePolicy (node_identity node) root)) (\<lambda>_.
       seq (require (if exact then SameLinuxIdentity (node_identity node) identity
             else HasStableLinuxIdentity (node_identity node) identity) (journal_error ''cleanup retained identity changed'')) (\<lambda>_.
       seq (OpenLinuxRelativeNoFollow k name) (\<lambda>current.
         require (SameLinuxIdentity (node_identity current) (node_identity node))
          (journal_error ''cleanup name changed before fd-relative mutation''))))) (\<lambda>_. P) (\<lambda>_. False)"
    proof (rule runs_assume)
      show "RequireCleanupNodePolicy (node_identity node) root = Inr () \<and>
        (if exact then SameLinuxIdentity (node_identity node) identity else HasStableLinuxIdentity (node_identity node) identity)"
        if "P w \<and> lw_entries w name = Some node" for w using assms(4) [of w] that by auto
    next
      assume ok: "RequireCleanupNodePolicy (node_identity node) root = Inr () \<and>
        (if exact then SameLinuxIdentity (node_identity node) identity else HasStableLinuxIdentity (node_identity node) identity)"
      have pass: "seq (lift (Inr x)) f = f x" "seq (require True e) g = g ()" for x :: 'x and f and e and g :: "unit \<Rightarrow> 'y action"
        by (auto simp: fun_eq_iff action_defs)
      show ?thesis
        using ok by (simp add: pass) (rule runs_seq [OF read], auto simp: runs_def require_def)
    qed
  qed (use assms(4) in blast)
qed

lemma runs_scan_steady:
  assumes "steady k" and "timeless P" and "is_leaf name"
    and "\<And>w. P w \<Longrightarrow> \<exists>node b. lw_entries w name = Some node \<and> \<not> is_symlink node \<and> is_directory node \<and>
      ReadCleanupDirectoryNames (node_entries node) 1 fresh_budget = Inr (names, b)"
  shows "runs P (ScanDirectory k name) (\<lambda>r w. P w \<and> r = names) (\<lambda>_. False)"
proof (rule runsI)
  fix w r w' assume "P w" and run: "ScanDirectory k name w = (r, w')"
  obtain node b where node: "lw_entries w name = Some node" "\<not> is_symlink node" "is_directory node"
    "ReadCleanupDirectoryNames (node_entries node) 1 fresh_budget = Inr (names, b)" using assms(4) [OF \<open>P w\<close>] by blast
  have "r = Returned names \<and> (\<exists>c. w' = w\<lparr>lw_clock := c\<rparr>)"
    using run assms(1,3) node
    by (auto simp: ScanDirectory_def OpenLinuxRelativeNoFollow_def action_defs call_def Let_def steady_def)
  with \<open>P w\<close> show "case r of Returned x \<Rightarrow> P w' \<and> x = names | Threw e \<Rightarrow> False | Died \<Rightarrow> False"
    using assms(2) by (auto simp: timelessD)
qed

lemma ScanLoop_mono:
  "ScanLoop xs d b = Inr (names, b') \<Longrightarrow> d0 \<le> d \<Longrightarrow> cb_entries b0 \<le> cb_entries b \<Longrightarrow> cb_work b0 \<le> cb_work b \<Longrightarrow>
     \<exists>b0'. ScanLoop xs d0 b0 = Inr (names, b0')"
proof (induction xs d b arbitrary: names b' b0 rule: ScanLoop.induct)
  case (2 name rest d b)
  have work: "\<exists>x'. ChargeCleanupWork y c' = Inr x' \<and> cb_entries x' = cb_entries y \<and> cb_work x' \<le> cb_work x"
    if "ChargeCleanupWork z c = Inr x" "cb_work y \<le> cb_work z" "c' \<le> c" for x y z c c'
    using that by (auto simp: ChargeCleanupWork_def journal_Fail_def split: if_splits)
  obtain b1 where b1: "ChargeCleanupWork b (1 + d + length name) = Inr b1"
    using "2.prems"(1) by (auto simp: bindE_Inr_iff)
  obtain c1 where c1: "ChargeCleanupWork b0 (1 + d0 + length name) = Inr c1" "cb_entries c1 = cb_entries b0" "cb_work c1 \<le> cb_work b1"
    using work [OF b1 "2.prems"(4), of "1 + d0 + length name"] "2.prems"(2) by auto
  have less: "cb_entries c1 \<le> cb_entries b1" using c1(2) ChargeCleanupWork_Inr [OF b1] "2.prems"(3) by simp
  show ?case
  proof (cases "name = ''.'' \<or> name = ''..''")
    case True
    then have "ScanLoop rest d b1 = Inr (names, b')" using "2.prems"(1) b1 by simp
    from "2.IH"(1) [OF b1 True this "2.prems"(2) less c1(3)] True show ?thesis using c1(1) by auto
  next
    case False
    then obtain b2 rest' where b2: "ChargeCleanupEntry b1 d name = Inr b2" and
      rest: "ScanLoop rest d b2 = Inr (rest', b')" "names = name # rest'"
      using "2.prems"(1) b1 by (auto simp: bindE_Inr_iff)
    have ok: "d \<le> kMaximumCleanupDepth" "cb_entries b1 < kMaximumCleanupEntries"
      "ChargeCleanupWork (b1\<lparr>cb_entries := Suc (cb_entries b1)\<rparr>) (1 + d + length name) = Inr b2"
      using b2 by (auto simp: ChargeCleanupEntry_def journal_Fail_def split: if_splits)
    obtain c2 where c2: "ChargeCleanupWork (c1\<lparr>cb_entries := Suc (cb_entries c1)\<rparr>) (1 + d0 + length name) = Inr c2"
      "cb_entries c2 = Suc (cb_entries c1)" "cb_work c2 \<le> cb_work b2"
      using work [OF ok(3), of "c1\<lparr>cb_entries := Suc (cb_entries c1)\<rparr>" "1 + d0 + length name"] c1(3) "2.prems"(2) by auto
    then have entry: "ChargeCleanupEntry c1 d0 name = Inr c2"
      using ok(1,2) less "2.prems"(2) by (simp add: ChargeCleanupEntry_def)
    have "cb_entries c2 \<le> cb_entries b2" using c2(2) less ChargeCleanupWork_Inr [OF ok(3)] by simp
    from "2.IH"(2) [OF b1 False b2 rest(1) "2.prems"(2) this c2(3)] show ?thesis
      using False c1(1) entry rest(2) by auto
  qed
qed simp

lemma scan_again:
  assumes "ReadCleanupDirectoryNames es (d + 1) b = Inr (names, b')"
  shows "\<exists>b0. ReadCleanupDirectoryNames es 1 fresh_budget = Inr (names, b0)"
proof -
  obtain found where found: "ScanLoop (''.'' # ''..'' # map fst es) (d + 1) b = Inr (found, b')" "names = sort found"
    using assms by (auto simp: ReadCleanupDirectoryNames_def bindE_Inr_iff)
  from ScanLoop_mono [OF found(1), of 1 fresh_budget] show ?thesis
    by (auto simp: ReadCleanupDirectoryNames_def found(2) fresh_budget_def simp del: ScanLoop.simps)
qed

lemma scan_empty: "\<exists>b. ReadCleanupDirectoryNames [] 1 fresh_budget = Inr ([], b)"
  by (simp add: ReadCleanupDirectoryNames_def ChargeCleanupWork_def fresh_budget_def kMaximumCleanupWork_def)

lemma touch_stable: "HasStableLinuxIdentity (touch k n i) i"
  by (simp add: touch_def HasStableLinuxIdentity_def)

lemma relist_removed:
  "distinct (map fst es) \<Longrightarrow> relist ((map_of es)(name := None)) es = filter (\<lambda>(x, _). x \<noteq> name) es"
proof -
  assume dist: "distinct (map fst es)"
  have "relist ((map_of es)(name := None)) part = filter (\<lambda>(x, _). x \<noteq> name) part" if "set part \<subseteq> set es" for part
    using that
  proof (induction part)
    case (Cons entry part)
    obtain x node where entry: "entry = (x, node)" by (cases entry)
    then have "map_of es x = Some node" using Cons.prems dist by simp
    then show ?case using Cons entry by (simp add: relist_def map_filter_simps)
  qed (simp add: relist_def map_filter_simps)
  then show ?thesis by simp
qed

text \<open>A child that is removed inside its directory leaves the other entries as they are.\<close>

lemma within_removed:
  assumes run: "runs (\<lambda>w. lw_entries w name = Some child) m (\<lambda>_ w. lw_entries w name = None) (\<lambda>_. False)"
    and conf: "confined name m"
    and dir: "lw_entries w l = Some (LinuxNode i bytes es)" and child: "map_of es name = Some child"
    and dist: "distinct (map fst es)"
  obtains x w' i' where "within k l m w = (Returned x, w')"
    and "lw_entries w' l = Some (LinuxNode i' bytes (filter (\<lambda>(x, _). x \<noteq> name) es))"
    and "HasStableLinuxIdentity i' i"
proof -
  let ?inner = "w\<lparr>lw_entries := map_of es\<rparr>"
  obtain r w1 where m: "m ?inner = (r, w1)" by (cases "m ?inner")
  have "case r of Returned x \<Rightarrow> lw_entries w1 name = None | _ \<Rightarrow> False"
    using runsD [OF run _ m] child by (simp split: outcome.splits)
  then obtain x where r: "r = Returned x" and gone: "lw_entries w1 name = None" by (cases r) simp_all
  obtain c n where "w1 = set_entry name n (?inner\<lparr>lw_clock := c\<rparr>)"
    using conf m unfolding confined_def by (metis snd_conv)
  then have entries: "lw_entries w1 = (map_of es)(name := None)" using gone by auto
  show ?thesis
  proof (rule that)
    show "within k l m w = (Returned x, w1\<lparr>lw_entries := (lw_entries w)(l := Some (LinuxNode
        (touch k (lw_clock w1) i) bytes (relist (lw_entries w1) es)))\<rparr>)"
      by (simp add: within_def dir m r)
    show "lw_entries (w1\<lparr>lw_entries := (lw_entries w)(l := Some (LinuxNode
        (touch k (lw_clock w1) i) bytes (relist (lw_entries w1) es)))\<rparr>) l =
        Some (LinuxNode (touch k (lw_clock w1) i) bytes (filter (\<lambda>(x, _). x \<noteq> name) es))"
      by (simp add: entries relist_removed [OF dist])
  qed (rule touch_stable)
qed

text \<open>What the removal needs to know of a directory while its children go.\<close>

definition emptying :: "string \<Rightarrow> LinuxFileIdentity \<Rightarrow> string \<Rightarrow> (string \<times> LinuxNode) list \<Rightarrow> string list \<Rightarrow> LinuxWorld \<Rightarrow> bool" where
  "emptying l identity bytes es names w \<longleftrightarrow> (\<exists>i. HasStableLinuxIdentity i identity \<and>
     lw_entries w l = Some (LinuxNode i bytes (filter (\<lambda>(x, _). x \<in> set names) es)))"

definition plain_directory :: "LinuxFileIdentity \<Rightarrow> LinuxFileIdentity \<Rightarrow> bool" where
  "plain_directory identity root \<longleftrightarrow> id_directory identity \<and> and (id_mode identity) S_IFMT = S_IFDIR \<and>
     id_device identity = id_device root \<and> id_mount_id identity = id_mount_id root"

lemma plain_directory_stable:
  assumes "plain_directory identity root" and "HasStableLinuxIdentity i identity"
  shows "RequireCleanupNodePolicy i root = Inr ()" and "\<not> is_symlink (LinuxNode i bytes es)" and "is_directory (LinuxNode i bytes es)"
  using assms by (auto simp: plain_directory_def HasStableLinuxIdentity_def RequireCleanupNodePolicy_def
      IsRegularFile_def is_symlink_def is_directory_def S_IFDIR_def S_IFREG_def S_IFLNK_def)

lemma timeless_emptying [simp]: "timeless (emptying l identity bytes es names)"
  by (simp add: timeless_def emptying_def)

lemma emptying_revalidates:
  assumes "steady k" and "is_leaf l" and "plain_directory identity root"
  shows "runs (emptying l identity bytes es names) (RevalidateCleanupName k root l identity False)
    (\<lambda>_. emptying l identity bytes es names) (\<lambda>_. False)"
  by (rule runs_revalidate_steady [OF assms(1) timeless_emptying assms(2)])
    (auto simp: emptying_def plain_directory_stable [OF assms(3)])

lemma emptying_child:
  assumes "runs (\<lambda>w. lw_entries w name = Some child) m (\<lambda>_ w. lw_entries w name = None) (\<lambda>_. False)"
    and "confined name m" and "map_of es name = Some child" and "distinct (map fst es)" and "name \<notin> set names"
  shows "runs (emptying l identity bytes es (name # names)) (within k l m) (\<lambda>_. emptying l identity bytes es names) (\<lambda>_. False)"
proof (rule runsI)
  fix w r w' assume "emptying l identity bytes es (name # names) w" and run: "within k l m w = (r, w')"
  then obtain i where i: "HasStableLinuxIdentity i identity"
    "lw_entries w l = Some (LinuxNode i bytes (filter (\<lambda>(x, _). x \<in> set (name # names)) es))" by (auto simp: emptying_def)
  let ?es = "filter (\<lambda>(x, _). x \<in> set (name # names)) es"
  have dist: "distinct (map fst ?es)" using assms(4) by (rule distinct_map_filter)
  have "(name, child) \<in> set ?es" using map_of_SomeD [OF assms(3)] by simp
  then have child: "map_of ?es name = Some child" using dist by simp
  obtain x w1 i' where w1: "within k l m w = (Returned x, w1)"
    "lw_entries w1 l = Some (LinuxNode i' bytes (filter (\<lambda>(x, _). x \<noteq> name) ?es))" "HasStableLinuxIdentity i' i"
    by (rule within_removed [OF assms(1,2) i(2) child dist])
  have "filter (\<lambda>(x, _). x \<noteq> name) ?es = filter (\<lambda>(x, _). x \<in> set names) es"
    using assms(5) by (auto simp: filter_filter intro!: filter_cong)
  moreover have "HasStableLinuxIdentity i' identity" using w1(3) i(1) by (simp add: HasStableLinuxIdentity_def)
  ultimately show "case r of Returned x \<Rightarrow> emptying l identity bytes es names w' | Threw e \<Rightarrow> False | Died \<Rightarrow> False"
    using w1(1,2) run by (auto simp: emptying_def)
qed

lemma runs_unlink_steady:
  assumes "steady k"
  shows "(\<And>w. P w \<Longrightarrow> \<exists>node. lw_entries w l = Some node \<and> \<not> is_directory node) \<Longrightarrow>
      runs P (Unlink k l) (\<lambda>b w. b \<and> lw_entries w l = None) (\<lambda>_. False)"
    and "(\<And>w. P w \<Longrightarrow> \<exists>node. lw_entries w l = Some node \<and> is_directory node \<and> node_entries node = []) \<Longrightarrow>
      runs P (RemoveDirectory k l) (\<lambda>b w. b \<and> lw_entries w l = None) (\<lambda>_. False)"
  using assms by (fastforce simp: runs_def Unlink_def RemoveDirectory_def Let_def steady_def)+

lemma remove_directory_total:
  assumes k: "steady k" and leaf: "is_leaf name"
    and plain: "plain_directory identity root" and node: "node = LinuxNode identity bytes es"
    and scan: "ReadCleanupDirectoryNames es (d + 1) b = Inr (names, b')" and names: "names = map mn_name ms"
    and all: "filter (\<lambda>(x, _). x \<in> set names) es = es"
    and children: "runs (emptying name identity bytes es names) (RemoveCleanupChildren k root name identity ms)
      (\<lambda>_. emptying name identity bytes es []) (\<lambda>_. False)"
  shows "runs (\<lambda>w. lw_entries w name = Some node) (RemoveCleanupManifestNode k root (CleanupManifestNode name identity ms))
    (\<lambda>_ w. lw_entries w name = None) (\<lambda>_. False)"
proof -
  note stable = plain_directory_stable [OF plain]
  have time: "timeless (\<lambda>w. lw_entries w name = Some node)" by (simp add: timeless_def)
  have first: "runs (\<lambda>w. lw_entries w name = Some node) (RevalidateCleanupName k root name identity True)
      (\<lambda>_ w. lw_entries w name = Some node) (\<lambda>_. False)"
    by (rule runs_revalidate_steady [OF k time leaf]) (simp add: node stable)
  obtain b0 where b0: "ReadCleanupDirectoryNames es 1 fresh_budget = Inr (names, b0)" using scan_again [OF scan] by blast
  have listed: "runs (\<lambda>w. lw_entries w name = Some node) (RequireCurrentDirectoryNames k name (map mn_name ms))
      (\<lambda>_. emptying name identity bytes es names) (\<lambda>_. False)"
    unfolding RequireCurrentDirectoryNames_def
  proof (rule runs_seq [OF runs_scan_steady [OF k time leaf, of names]])
    show "\<exists>node' b. lw_entries w name = Some node' \<and> \<not> is_symlink node' \<and> is_directory node' \<and>
        ReadCleanupDirectoryNames (node_entries node') 1 fresh_budget = Inr (names, b)"
      if "lw_entries w name = Some node" for w using that b0 by (simp add: node stable)
    show "runs (\<lambda>w. lw_entries w name = Some node \<and> r = names) (require (r = map mn_name ms) e)
        (\<lambda>_. emptying name identity bytes es names) (\<lambda>_. False)" for r e
      unfolding names [symmetric] by (auto simp: runs_def require_def emptying_def node all)
  qed
  have empty: "runs (emptying name identity bytes es []) (RequireEmptyCleanupDirectory k name)
      (\<lambda>_. emptying name identity bytes es []) (\<lambda>_. False)"
    unfolding RequireEmptyCleanupDirectory_def
    by (rule runs_seq [OF runs_scan_steady [OF k timeless_emptying leaf, of _ _ _ _ _ "[]"]])
      (use scan_empty in \<open>auto simp: emptying_def stable runs_def require_def\<close>)
  have removed: "runs (emptying name identity bytes es []) (RemoveDirectory k name) (\<lambda>b w. b \<and> lw_entries w name = None) (\<lambda>_. False)"
    by (rule runs_unlink_steady(2) [OF k]) (auto simp: emptying_def stable)
  show ?thesis
    using plain by (simp add: plain_directory_def)
      (rule runs_seq [OF first], rule runs_seq [OF listed], rule runs_seq [OF children], rule runs_seq [OF empty],
       rule runs_seq [OF runs_flush_steady [OF k timeless_emptying]], rule runs_seq [OF emptying_revalidates [OF k leaf plain]],
       rule runs_seq [OF removed], auto simp: runs_def require_def)
qed

lemma OpenChild_Inr:
  "OpenChild es name = Inr child \<Longrightarrow> is_leaf name \<and> map_of es name = Some child \<and> \<not> is_symlink child"
  by (auto simp: OpenChild_def bindE_Inr_iff ValidateLinuxLeaf_iff mount_Fail_def split: option.splits if_splits)

lemma Build_names: "BuildCleanupChildren es names root d b = Inr (ms, b') \<Longrightarrow> map mn_name ms = names"
  by (induction names arbitrary: b ms b') (auto simp: bindE_Inr_iff dest: Build_name)

text \<open>What the walk accepted, an undisturbed removal removes.\<close>

lemma remove_total:
  "BuildCleanupManifest node name root d b charged = Inr (m, b') \<Longrightarrow> wf_tree node \<Longrightarrow> \<not> is_symlink node \<Longrightarrow> is_leaf name \<Longrightarrow>
     steady k \<Longrightarrow> runs (\<lambda>w. lw_entries w name = Some node) (RemoveCleanupManifestNode k root m)
       (\<lambda>_ w. lw_entries w name = None) (\<lambda>_. False)"
  "BuildCleanupChildren es names root d b = Inr (ms, b') \<Longrightarrow> \<forall>entry \<in> set es. wf_tree (snd entry) \<Longrightarrow> distinct (map fst es) \<Longrightarrow>
     distinct names \<Longrightarrow> is_leaf l \<Longrightarrow> plain_directory identity root \<Longrightarrow> steady k \<Longrightarrow>
     runs (emptying l identity bytes es names) (RemoveCleanupChildren k root l identity ms)
       (\<lambda>_. emptying l identity bytes es []) (\<lambda>_. False)"
proof (induction node name root d b charged and es names root d b arbitrary: m b' and ms b' l identity bytes
    rule: BuildCleanupManifest_BuildCleanupChildren.induct)
  case (1 node name root d b charged)
  obtain b1 where b1: "(if \<not> charged then ChargeCleanupEntry b d name else Inr b) = Inr b1"
    and policy: "RequireCleanupNodePolicy (node_identity node) root = Inr ()"
    using "1.prems"(1) unfolding BuildCleanupManifest.simps [of node] by (auto simp: bindE_Inr_iff)
  obtain i bytes es where node: "node = LinuxNode i bytes es" by (cases node)
  show ?case
  proof (cases "is_directory node")
    case False
    then have m: "m = CleanupManifestNode name (node_identity node) []"
      using "1.prems"(1) unfolding BuildCleanupManifest.simps [of node] b1 policy by simp
    have time: "timeless (\<lambda>w. lw_entries w name = Some node)" by (simp add: timeless_def)
    have first: "runs (\<lambda>w. lw_entries w name = Some node) (RevalidateCleanupName k root name (node_identity node) True)
        (\<lambda>_ w. lw_entries w name = Some node) (\<lambda>_. False)"
      by (rule runs_revalidate_steady [OF "1.prems"(5) time "1.prems"(4)]) (simp add: "1.prems"(3) policy)
    have gone: "runs (\<lambda>w. lw_entries w name = Some node) (Unlink k name) (\<lambda>b w. b \<and> lw_entries w name = None) (\<lambda>_. False)"
      by (rule runs_unlink_steady(1) [OF "1.prems"(5)]) (simp add: False)
    show ?thesis
      using False by (simp add: m is_directory_def)
        (rule runs_seq [OF first], rule runs_seq [OF gone], auto simp: runs_def require_def)
  next
    case True
    then obtain names b2 ms where names: "ReadCleanupDirectoryNames (node_entries node) (d + 1) b1 = Inr (names, b2)"
      and children: "BuildCleanupChildren (node_entries node) names root (d + 1) b2 = Inr (ms, b')"
      and m: "m = CleanupManifestNode name (node_identity node) ms"
      using "1.prems"(1) unfolding BuildCleanupManifest.simps [of node] b1 policy by (auto simp: bindE_Inr_iff)
    have wf: "\<forall>entry \<in> set es. wf_tree (snd entry)" "distinct (map fst es)" "''.'' \<notin> fst ` set es" "''..'' \<notin> fst ` set es"
      and mode: "and (id_mode i) S_IFMT = S_IFDIR"
      using "1.prems"(2) True by (auto simp: node is_directory_def)
    have plain: "plain_directory i root"
      using policy True mode by (auto simp: node plain_directory_def RequireCleanupNodePolicy_def is_directory_def
          journal_Fail_def split: if_splits)
    have sorted: "names = sort (filter (\<lambda>x. x \<noteq> ''.'' \<and> x \<noteq> ''..'') (map fst es))"
      using ReadCleanupDirectoryNames_Inr(3) [OF names] by (simp add: node)
    have dist: "distinct names" using wf(2) by (simp add: sorted)
    have all: "filter (\<lambda>(x, _). x \<in> set names) es = es"
      using wf(3,4) by (intro filter_True) (force simp: sorted)
    have "runs (emptying name i bytes es names) (RemoveCleanupChildren k root name i ms)
        (\<lambda>_. emptying name i bytes es []) (\<lambda>_. False)"
      using "1.IH" [OF b1 policy _ names refl children, of name i bytes] True wf dist plain "1.prems"(4,5)
      by (simp add: node)
    from remove_directory_total [OF "1.prems"(5,4) plain node names [unfolded node LinuxNode.sel]
        Build_names [OF children, symmetric] all this]
    show ?thesis by (simp add: m node)
  qed
next
  case (3 es child_name names root d b)
  obtain child node b1 nodes where child: "OpenChild es child_name = Inr child"
    and c: "BuildCleanupManifest child child_name root d b True = Inr (node, b1)"
    and r: "BuildCleanupChildren es names root d b1 = Inr (nodes, b')" and ms: "ms = node # nodes"
    using "3.prems"(1) by (auto simp: bindE_Inr_iff)
  note open_child = OpenChild_Inr [OF child]
  have "wf_tree child" using "3.prems"(2) open_child by (force dest: map_of_SomeD)
  then have inner: "runs (\<lambda>w. lw_entries w child_name = Some child) (RemoveCleanupManifestNode k root node)
      (\<lambda>_ w. lw_entries w child_name = None) (\<lambda>_. False)"
    using "3.IH"(1) [OF child c] open_child "3.prems"(7) by blast
  have conf: "confined child_name (RemoveCleanupManifestNode k root node)"
    using confined_remove(1) [of node] Build_name [OF c] by simp
  have rest: "runs (emptying l identity bytes es names) (RemoveCleanupChildren k root l identity nodes)
      (\<lambda>_. emptying l identity bytes es []) (\<lambda>_. False)"
    using "3.IH"(2) [OF child c refl r] "3.prems"(2-7) by simp
  show ?case
    unfolding ms RemoveCleanupChildren.simps
    by (rule runs_seq [OF emptying_revalidates [OF "3.prems"(7,5,6)]],
        rule runs_seq [OF emptying_child [OF inner conf]], use open_child "3.prems"(3,4) in simp_all)
      (rule rest)
qed (auto intro: runs_ret)

section \<open>The tree that the walk records\<close>

text \<open>
  The nodes of a tree, told without the walk: how many there are, how deep they lie and what they are, and the manifest that
  lists all of them, the entries of a directory by name.
\<close>

fun tree_nodes :: "LinuxNode \<Rightarrow> nat" where
  "tree_nodes (LinuxNode identity bytes entries) =
     Suc (if id_directory identity then sum_list (map (\<lambda>entry. tree_nodes (snd entry)) entries) else 0)"

fun tree_depth :: "LinuxNode \<Rightarrow> nat" where
  "tree_depth (LinuxNode identity bytes entries) =
     (if id_directory identity \<and> entries \<noteq> [] then Suc (Max (set (map (\<lambda>entry. tree_depth (snd entry)) entries))) else 0)"

fun tree_identities :: "LinuxNode \<Rightarrow> LinuxFileIdentity set" where
  "tree_identities (LinuxNode identity bytes entries) =
     insert identity (if id_directory identity then \<Union> (set (map (\<lambda>entry. tree_identities (snd entry)) entries)) else {})"

fun full_manifest :: "string \<Rightarrow> LinuxNode \<Rightarrow> CleanupManifestNode" where
  "full_manifest name (LinuxNode identity bytes entries) = CleanupManifestNode name identity
     (if id_directory identity then map (\<lambda>entry. full_manifest (fst entry) (snd entry)) (sort_key fst entries) else [])"

lemma sort_map_fst: "sort (map fst es) = map fst (sort_key fst es)"
proof -
  have "map fst (insort_key fst x es) = insort (fst x) (map fst es)" for x :: "'a::linorder \<times> 'b" and es
    by (induction es) simp_all
  then show ?thesis by (induction es) simp_all
qed

lemma sum_sort_key: "sum_list (map f (sort_key g xs)) = (sum_list (map f xs) :: nat)"
proof -
  have "sum_list (map f (insort_key g x xs)) = f x + sum_list (map f xs)" for x xs
    by (induction xs) simp_all
  then show ?thesis by (induction xs) simp_all
qed

lemma full_manifest_tree:
  "manifest_nodes (full_manifest name node) = tree_nodes node"
  "manifest_depth (full_manifest name node) = tree_depth node"
  "manifest_identities (full_manifest name node) = tree_identities node"
proof (induction node arbitrary: name rule: tree_nodes.induct)
  case (1 i bytes es)
  { case 1 show ?case using "1.IH"(1) by (simp add: comp_def cong: map_cong) (simp add: sum_sort_key cong: map_cong) }
  { case 2
    have "sort_key fst es = [] \<longleftrightarrow> es = []" by (metis length_0_conv length_sort)
    then show ?case using "1.IH"(2) by (simp add: image_image cong: image_cong) }
  { case 3 show ?case using "1.IH"(3) by (simp add: image_image cong: image_cong) }
qed

text \<open>The walk misses nothing: a manifest that it returns is the full one.\<close>

lemma Build_full:
  "BuildCleanupManifest node name root d b charged = Inr (m, b') \<Longrightarrow> wf_tree node \<Longrightarrow> m = full_manifest name node"
  "BuildCleanupChildren es names root d b = Inr (ms, b') \<Longrightarrow> \<forall>entry \<in> set es. wf_tree (snd entry) \<Longrightarrow>
     ms = map (\<lambda>x. full_manifest x (the (map_of es x))) names"
proof (induction node name root d b charged and es names root d b arbitrary: m b' and ms b'
    rule: BuildCleanupManifest_BuildCleanupChildren.induct)
  case (1 node name root d b charged)
  obtain b1 where b1: "(if \<not> charged then ChargeCleanupEntry b d name else Inr b) = Inr b1"
    and policy: "RequireCleanupNodePolicy (node_identity node) root = Inr ()"
    using "1.prems"(1) unfolding BuildCleanupManifest.simps [of node] by (auto simp: bindE_Inr_iff)
  obtain i bytes es where node: "node = LinuxNode i bytes es" by (cases node)
  show ?case
  proof (cases "is_directory node")
    case False
    then show ?thesis
      using "1.prems"(1) unfolding BuildCleanupManifest.simps [of node] b1 policy by (simp add: node is_directory_def)
  next
    case True
    then obtain names b2 ms where names: "ReadCleanupDirectoryNames (node_entries node) (d + 1) b1 = Inr (names, b2)"
      and children: "BuildCleanupChildren (node_entries node) names root (d + 1) b2 = Inr (ms, b')"
      and m: "m = CleanupManifestNode name (node_identity node) ms"
      using "1.prems"(1) unfolding BuildCleanupManifest.simps [of node] b1 policy by (auto simp: bindE_Inr_iff)
    have wf: "\<forall>entry \<in> set es. wf_tree (snd entry)" "distinct (map fst es)" "''.'' \<notin> fst ` set es" "''..'' \<notin> fst ` set es"
      using "1.prems"(2) by (simp_all add: node)
    have "filter (\<lambda>x. x \<noteq> ''.'' \<and> x \<noteq> ''..'') (map fst es) = map fst es"
      using wf(3,4) by (intro filter_True) force
    then have sorted: "names = map fst (sort_key fst es)"
      using ReadCleanupDirectoryNames_Inr(3) [OF names] sort_map_fst [of es] by (simp add: node)
    have "ms = map (\<lambda>x. full_manifest x (the (map_of es x))) names"
      using "1.IH" [OF b1 policy _ names refl children] True wf(1) by (simp add: node)
    moreover have "map_of es (fst entry) = Some (snd entry)" if "entry \<in> set es" for entry
      using that wf(2) by (simp add: map_of_is_SomeI)
    ultimately show ?thesis using True by (simp add: m node sorted is_directory_def)
  qed
next
  case (3 es child_name names root d b)
  obtain child node b1 nodes where child: "OpenChild es child_name = Inr child"
    and c: "BuildCleanupManifest child child_name root d b True = Inr (node, b1)"
    and r: "BuildCleanupChildren es names root d b1 = Inr (nodes, b')" and ms: "ms = node # nodes"
    using "3.prems"(1) by (auto simp: bindE_Inr_iff)
  have at: "map_of es child_name = Some child" using OpenChild_Inr [OF child] by simp
  then have "wf_tree child" using "3.prems"(2) by (force dest: map_of_SomeD)
  then show ?case using "3.IH"(1) [OF child c] "3.IH"(2) [OF child c refl r] "3.prems"(2) at by (simp add: ms)
qed simp

section \<open>Properties\<close>

text \<open>
  C17. Cleanup is bounded and stays in its tree: when the walk accepts a tree, the whole tree, down to its last entry,
  has at most 100001 nodes, lies at most 128 levels deep and on the device and mount of its root, and holds nothing but directories and
  regular files that have a single name, no links and no special files; and the manifest, by which the removal then goes, lists exactly the
  nodes of the tree. The tree is one as file systems have them: names in a directory are distinct and not the dot entries.
\<close>

theorem cleanup_bounded:
  assumes "BuildCleanupManifest node leaf root 0 fresh_budget False = Inr (manifest, budget)" and "wf_tree node"
  shows "tree_nodes node \<le> 100001 \<and> tree_depth node \<le> 128 \<and>
    (\<forall>i \<in> tree_identities node. id_device i = id_device root \<and> id_mount_id i = id_mount_id root \<and>
       (id_directory i \<or> IsRegularFile i) \<and> (IsRegularFile i \<longrightarrow> id_link_count i = 1)) \<and>
    manifest = full_manifest leaf node"
proof -
  have policy: "BuildCleanupManifest node name root d b c = Inr (m, b') \<Longrightarrow> i \<in> manifest_identities m \<Longrightarrow>
      RequireCleanupNodePolicy i root = Inr ()"
    "BuildCleanupChildren es names root d b = Inr (ms, b') \<Longrightarrow> m \<in> set ms \<Longrightarrow> i \<in> manifest_identities m \<Longrightarrow>
      RequireCleanupNodePolicy i root = Inr ()" for node name root d b c m b' es names ms i
    by (induction node name root d b c and es names root d b arbitrary: m b' and m ms b'
        rule: BuildCleanupManifest_BuildCleanupChildren.induct)
      (fastforce simp: BuildCleanupManifest.simps [of node for node] bindE_Inr_iff split: if_splits)+
  have full: "manifest = full_manifest leaf node" using assms by (rule Build_full(1))
  have "manifest_nodes manifest \<le> 100001 \<and> manifest_depth manifest \<le> 128"
    using Build_bounds(1) [OF assms(1)] by (simp add: fresh_budget_def kMaximumCleanupEntries_def kMaximumCleanupDepth_def)
  then show ?thesis using policy(1) [OF assms(1)] full unfolding RequireCleanupNodePolicy_iff full full_manifest_tree by blast
qed

text \<open>
  C16. Cleanup is all or nothing: with no failing call, removing a tree either returns and exactly that tree is
  gone from the directory, or it throws and the directory is as before. Whatever calls fail, nothing but
  the tree changes, and a removal that returns has removed it.
\<close>

theorem cleanup_all_or_nothing:
  assumes "RemoveLinuxTreeExact k leaf expected w = (r, w')"
  shows "(\<exists>n. lw_entries w' = (lw_entries w)(leaf := n)) \<and> (r = Returned () \<longrightarrow> lw_entries w' leaf = None) \<and>
    (steady k \<and> (\<forall>node. lw_entries w leaf = Some node \<longrightarrow> wf_tree node) \<longrightarrow>
      r = Returned () \<and> lw_entries w' = (lw_entries w)(leaf := None) \<or>
      (\<exists>e. r = Threw e) \<and> lw_entries w' = lw_entries w)"
proof -
  obtain c n where w': "w' = set_entry leaf n (w\<lparr>lw_clock := c\<rparr>)"
    using confined_remove_tree [of leaf k expected] assms unfolding confined_def by (metis snd_conv)
  have gone: "lw_entries w' leaf = None" if "r = Returned ()"
    using runsD [OF runs_remove_tree [of "\<lambda>_. True" leaf k expected] _ assms] that by (simp add: timeless_def)
  have "r = Returned () \<or> (\<exists>e. r = Threw e) \<and> lw_entries w' = lw_entries w"
    if k: "steady k" and wf: "\<forall>node. lw_entries w leaf = Some node \<longrightarrow> wf_tree node"
  proof -
    obtain r1 w1 where pre: "CleanupPreflight k leaf expected w = (r1, w1)" by (cases "CleanupPreflight k leaf expected w")
    obtain c1 where w1: "w1 = w\<lparr>lw_clock := c1\<rparr>" using quiet_preflight pre unfolding quiet_def by (metis snd_conv)
    show ?thesis
    proof (cases r1)
      case (Returned x)
      obtain root manifest where x: "x = (root, manifest)" by (cases x)
      obtain node b where node: "lw_entries w1 leaf = Some node" "root = node_identity node"
        "BuildCleanupManifest node leaf root 0 fresh_budget False = Inr (manifest, b)"
        using runsD [OF runs_preflight _ pre] by (auto simp: Returned x)
      have leaf: "is_leaf leaf \<and> \<not> is_symlink node"
        using pre node(1) w1 unfolding CleanupPreflight_def Returned
        by (cases "is_leaf leaf"; cases "is_symlink node"; cases "kn_call k (lw_clock w)")
          (auto simp: OpenLinuxRelativeNoFollow_def action_defs call_def Let_def ValidateLinuxLeaf_def is_leaf_def
            mount_Fail_def find_char_None_iff split: if_splits)
      have "runs (\<lambda>w. lw_entries w leaf = Some node) (RemoveCleanupManifestNode k root manifest)
          (\<lambda>_ w. lw_entries w leaf = None) (\<lambda>_. False)"
        using remove_total(1) [OF node(3)] wf node(1) leaf k by (simp add: w1)
      moreover have "runs (\<lambda>w. lw_entries w leaf = None) (SyncLinuxDirectory k) (\<lambda>_ w. True) (\<lambda>_. False)"
        unfolding SyncLinuxDirectory_def by (rule runs_conseq [OF runs_flush_steady [OF k]]) (auto simp: timeless_def)
      ultimately have total: "runs (\<lambda>w. lw_entries w leaf = Some node)
          (seq (RemoveCleanupManifestNode k root manifest) (\<lambda>_. SyncLinuxDirectory k)) (\<lambda>_ _. True) (\<lambda>_. False)"
        by (rule runs_seq)
      have "seq (RemoveCleanupManifestNode k root manifest) (\<lambda>_. SyncLinuxDirectory k) w1 = (r, w')"
        using assms unfolding RemoveLinuxTreeExact_def by (simp add: seq_def [of "CleanupPreflight k leaf expected"] pre Returned x)
      from runsD [OF total node(1) this] show ?thesis by (cases r) simp_all
    next
      case (Threw e)
      then have "r = Threw e" "w' = w1" using assms by (simp_all add: RemoveLinuxTreeExact_def seq_def pre)
      then show ?thesis by (simp add: w1)
    next
      case Died
      have "runs (\<lambda>_. True) (CleanupPreflight k leaf expected) (\<lambda>_ _. True) (\<lambda>_. True) \<and> r1 \<noteq> Died"
        using pre k by (auto simp: CleanupPreflight_def OpenLinuxRelativeNoFollow_def action_defs call_def Let_def steady_def runs_def
            split: sum.splits option.splits prod.splits if_splits)
      with Died show ?thesis by simp
    qed
  qed
  with gone show ?thesis by (auto simp: w')
qed

text \<open>A kernel that lets every call through, and a directory with a small tree.\<close>

definition sample_kernel :: LinuxKernel where
  "sample_kernel = \<lparr>kn_call = \<lambda>_. Proceeds, kn_hit = \<lambda>_ _. Proceeds, kn_change_time = \<lambda>_. (2, 0),
     kn_link_count = \<lambda>_. 1, kn_created = \<lambda>_. sample_identity 9 False, kn_written = \<lambda>_. 0, kn_flock = \<lambda>_. True\<rparr>"

definition sample_tree :: "64 word \<Rightarrow> string \<Rightarrow> LinuxNode" where
  "sample_tree inode version = LinuxNode (sample_identity inode True) []
     [(''app'', LinuxNode (sample_identity (inode + 1) False) version [])]"

definition sample_directory :: LinuxWorld where
  "sample_directory = \<lparr>lw_parent = sample_identity 1 True,
     lw_entries = [''Example.AppDir'' \<mapsto> sample_tree 2 ''old'', ''Stage.AppDir'' \<mapsto> sample_tree 4 ''new''],
     lw_clock = 0, lw_lock_held = False, lw_journal = None, lw_journal_persisted = False, lw_execution_started = False\<rparr>"

lemma sample_identity_kinds:
  "and (id_mode (sample_identity i True)) S_IFMT = S_IFDIR" "and (id_mode (sample_identity i False)) S_IFMT = S_IFREG"
  by (simp_all add: sample_identity_def S_IFMT_def S_IFDIR_def S_IFREG_def)

lemma sample_tree_wf: "wf_tree (sample_tree i version)"
  by (simp add: sample_tree_def sample_identity_kinds) (simp add: sample_identity_def)

lemma sample_manifest:
  "\<exists>b. BuildCleanupManifest (sample_tree i version) leaf (sample_identity i True) 0 fresh_budget False =
     Inr (CleanupManifestNode leaf (sample_identity i True) [CleanupManifestNode ''app'' (sample_identity (i + 1) False) []], b)"
  if "length leaf < 1000"
proof -
  have policy: "RequireCleanupNodePolicy (sample_identity j d) (sample_identity i True) = Inr ()" for j d
    by (cases d) (simp_all add: RequireCleanupNodePolicy_iff IsRegularFile_def sample_identity_kinds,
        simp_all add: sample_identity_def S_IFDIR_def S_IFREG_def)
  have link: "\<not> is_symlink (LinuxNode (sample_identity (i + 1) False) version [])"
    by (simp add: is_symlink_def sample_identity_kinds) (simp add: S_IFREG_def S_IFLNK_def)
  have flags: "id_directory (sample_identity j d) = d" for j d by (simp add: sample_identity_def)
  have work: "ChargeCleanupWork b c = (if cb_work b + c \<le> kMaximumCleanupWork then Inr (b\<lparr>cb_work := cb_work b + c\<rparr>)
      else journal_Fail ''cleanup traversal work limit exceeded'')" for b c
    by (auto simp: ChargeCleanupWork_def)
  have "is_leaf ''app''" by (simp add: is_leaf_def char_of_def)
  with that link show ?thesis
    by (simp add: BuildCleanupManifest.simps sample_tree_def ChargeCleanupEntry_def work policy is_directory_def
        flags ReadCleanupDirectoryNames_def OpenChild_def fresh_budget_def kMaximumCleanupDepth_def
        kMaximumCleanupEntries_def kMaximumCleanupWork_def)
qed

theorem cleanup_bounded_witness:
  "\<exists>m b. BuildCleanupManifest (sample_tree 2 ''old'') ''old'' (sample_identity 2 True) 0 fresh_budget False = Inr (m, b) \<and>
     m = full_manifest ''old'' (sample_tree 2 ''old'') \<and> tree_nodes (sample_tree 2 ''old'') = 2 \<and>
     tree_depth (sample_tree 2 ''old'') \<le> 128"
proof -
  obtain m b where "BuildCleanupManifest (sample_tree 2 ''old'') ''old'' (sample_identity 2 True) 0 fresh_budget False = Inr (m, b)"
    using sample_manifest [of "''old''" 2 "''old''"] by auto
  moreover have "tree_nodes (sample_tree 2 ''old'') = 2" by (simp add: sample_tree_def sample_identity_def)
  ultimately show ?thesis using cleanup_bounded [OF _ sample_tree_wf] by blast
qed

theorem cleanup_all_or_nothing_witness:
  "\<exists>r w'. RemoveLinuxTreeExact sample_kernel ''Example.AppDir'' (sample_identity 2 True) sample_directory = (r, w') \<and>
     (\<exists>n. lw_entries w' = (lw_entries sample_directory)(''Example.AppDir'' := n)) \<and>
     (r = Returned () \<or> lw_entries w' = lw_entries sample_directory)"
proof -
  obtain r w' where run: "RemoveLinuxTreeExact sample_kernel ''Example.AppDir'' (sample_identity 2 True) sample_directory = (r, w')"
    by (cases "RemoveLinuxTreeExact sample_kernel ''Example.AppDir'' (sample_identity 2 True) sample_directory")
  have "steady sample_kernel" by (simp add: steady_def sample_kernel_def)
  moreover have "\<forall>node. lw_entries sample_directory ''Example.AppDir'' = Some node \<longrightarrow> wf_tree node"
    by (simp add: sample_directory_def sample_tree_wf)
  ultimately show ?thesis using cleanup_all_or_nothing [OF run] run by blast
qed

end
