(* ===== verification/Linux_Transaction.thy ===== *)
theory Linux_Transaction
  imports Linux_Cleanup
begin

text \<open>
  The journal store (the rest of \<^verbatim>\<open>linux_transaction_journal.cc\<close>) and the file transaction
  (\<^verbatim>\<open>linux_file_transaction.{h,cc}\<close>) that replaces a target by a staged payload with three renames. The payload verifier is an
  interface of the code; its contract is the locale \<open>payload_verifier\<close>, which both the base class of the
  interface and the archive verifier (\<^verbatim>\<open>linux_archive_restage.cc\<close>) satisfy. How the archive verifier checks the
  payload itself is the parameter \<open>check\<close> of the two instances.
\<close>

section \<open>The journal store\<close>

definition Load :: "LinuxKernel \<Rightarrow> LinuxTransactionPaths \<Rightarrow> LinuxTransactionJournal option action" where
  "Load k paths =
     seq (LinuxRelativeExistsNoFollow k (lp_journal_name paths)) (\<lambda>exists.
       if \<not> exists then ret None
       else
         seq (ReadLinuxRelativeUtf8 k (lp_journal_name paths) (1024 * 1024)) (\<lambda>text.
         seq (lift (DecodeJournal text)) (\<lambda>journal. ret (Some journal))))"

definition HasAmbiguousNext :: "LinuxKernel \<Rightarrow> LinuxTransactionPaths \<Rightarrow> bool action" where
  "HasAmbiguousNext k paths = LinuxRelativeExistsNoFollow k (lp_journal_next_name paths)"

text \<open>
  The handler of \<^verbatim>\<open>Persist\<close> only closes the descriptor, so a failure leaves the next file behind.
\<close>

definition Persist :: "LinuxKernel \<Rightarrow> LinuxTransactionPaths \<Rightarrow> LinuxTransactionJournal \<Rightarrow> unit action" where
  "Persist k paths journal =
     seq (Hit k (fst (FaultPoints (lj_state journal)))) (\<lambda>_.
     seq (LinuxRelativeExistsNoFollow k (lp_journal_next_name paths)) (\<lambda>exists.
     seq (require (\<not> exists) (journal_error ''ambiguous journal next file exists'')) (\<lambda>_.
     seq (CreateExclusive k (lp_journal_next_name paths)) (\<lambda>_.
     seq (Hit k kDiskFull) (\<lambda>_.
     seq (Hit k kShortJournalWrite) (\<lambda>_.
     seq (WriteAll k (journal_error ''journal write failed or was short'') (lp_journal_next_name paths)
            (EncodeJournal journal)) (\<lambda>_.
     seq (Hit k kFileFsyncFailure) (\<lambda>_.
     seq (Flush k (journal_error ''journal fdatasync failed'')) (\<lambda>_.
     seq (RenameLinuxRelative k (lp_journal_next_name paths) (lp_journal_name paths) True) (\<lambda>_.
     seq (Hit k kDirectoryFsyncFailure) (\<lambda>_.
     seq (SyncLinuxDirectory k) (\<lambda>_.
       Hit k (snd (FaultPoints (lj_state journal)))))))))))))))"

definition UnlinkIfExists :: "LinuxKernel \<Rightarrow> string \<Rightarrow> string \<Rightarrow> unit action" where
  "UnlinkIfExists k leaf detail =
     seq (LinuxRelativeExistsNoFollow k leaf) (\<lambda>exists.
       if exists then seq (Unlink k leaf) (\<lambda>removed. require removed (journal_error detail)) else ret ())"

definition RemoveJournal :: "LinuxKernel \<Rightarrow> LinuxTransactionPaths \<Rightarrow> unit action" where
  "RemoveJournal k paths =
     seq (UnlinkIfExists k (lp_journal_name paths) ''journal unlink failed'') (\<lambda>_.
     seq (UnlinkIfExists k (lp_lock_name paths) ''transaction lock unlink failed'') (\<lambda>_.
       SyncLinuxDirectory k))"

section \<open>The payload verifier\<close>

record LinuxInstallPayloadVerifier =
  vf_Verify :: "linux_entries \<Rightarrow> string \<Rightarrow> LinuxVerifiedPayloadIdentity result"
  vf_Finalize :: "LinuxKernel \<Rightarrow> string \<Rightarrow> LinuxFileIdentity \<Rightarrow> unit action"
  vf_Matches :: "LinuxKernel \<Rightarrow> string \<Rightarrow> LinuxFileIdentity \<Rightarrow> bool action"

definition Verify :: "LinuxKernel \<Rightarrow> LinuxInstallPayloadVerifier \<Rightarrow> string \<Rightarrow> LinuxVerifiedPayloadIdentity action" where
  "Verify k V leaf = call k (mount_error ''payload verification failed'') (\<lambda>_.
     seq (reading lw_entries) (\<lambda>entries. lift (vf_Verify V entries leaf)))"

text \<open>The virtual functions of the base class.\<close>

definition base_Matches :: "LinuxKernel \<Rightarrow> string \<Rightarrow> LinuxFileIdentity \<Rightarrow> bool action" where
  "base_Matches k leaf staged_identity =
     seq (LinuxRelativeExistsNoFollow k leaf) (\<lambda>exists.
       if \<not> exists then ret False
       else seq (ReadLinuxRelativeIdentity k leaf) (\<lambda>current. ret (SameLinuxIdentity current staged_identity)))"

definition base_verifier ::
    "(linux_entries \<Rightarrow> string \<Rightarrow> LinuxVerifiedPayloadIdentity result) \<Rightarrow> LinuxInstallPayloadVerifier" where
  "base_verifier check = \<lparr>vf_Verify = check, vf_Finalize = \<lambda>_ _ _. ret (), vf_Matches = base_Matches\<rparr>"

text \<open>The archive verifier gives the activated root its final permissions.\<close>

definition SameIdentityExceptMode :: "LinuxFileIdentity \<Rightarrow> LinuxFileIdentity \<Rightarrow> bool" where
  "SameIdentityExceptMode current staged \<longleftrightarrow>
     id_device current = id_device staged \<and> id_inode current = id_inode staged \<and>
     id_mount_id current = id_mount_id staged \<and> id_uid current = id_uid staged \<and>
     id_gid current = id_gid staged \<and> id_link_count current = id_link_count staged \<and>
     id_directory current = id_directory staged \<and>
     and (id_mode current) S_IFMT = and (id_mode staged) S_IFMT"

definition final_mode :: "32 word \<Rightarrow> 32 word \<Rightarrow> 32 word" where
  "final_mode mode activation_root_mode = or (and mode S_IFMT) (and activation_root_mode 0x1FF)"

definition LinuxArchiveActivatedRootMatches ::
    "32 word \<Rightarrow> LinuxKernel \<Rightarrow> string \<Rightarrow> LinuxFileIdentity \<Rightarrow> bool action" where
  "LinuxArchiveActivatedRootMatches activation_root_mode k leaf staged_identity =
     seq (LinuxRelativeExistsNoFollow k leaf) (\<lambda>exists.
       if \<not> exists then ret False
       else seq (ReadLinuxRelativeIdentity k leaf) (\<lambda>current.
         ret (SameIdentityExceptMode current staged_identity \<and>
           (id_mode current = id_mode staged_identity \<or>
            id_mode current = final_mode (id_mode staged_identity) activation_root_mode))))"

definition set_mode :: "LinuxKernel \<Rightarrow> nat \<Rightarrow> 32 word \<Rightarrow> LinuxNode \<Rightarrow> LinuxNode" where
  "set_mode k n mode node = retime k n (LinuxNode ((node_identity node)\<lparr>id_mode := final_mode (id_mode (node_identity node)) mode\<rparr>)
     (node_bytes node) (node_entries node))"

definition archive_error :: "string \<Rightarrow> cpp_exception" where
  "archive_error detail = HelperError LinuxArchiveRestageError detail"

definition FinalizeLinuxArchiveActivatedRoot ::
    "32 word \<Rightarrow> LinuxKernel \<Rightarrow> string \<Rightarrow> LinuxFileIdentity \<Rightarrow> unit action" where
  "FinalizeLinuxArchiveActivatedRoot activation_root_mode k leaf staged_identity =
     seq (LinuxArchiveActivatedRootMatches activation_root_mode k leaf staged_identity) (\<lambda>matches.
     seq (require matches (archive_error ''activated payload root identity changed'')) (\<lambda>_.
     seq (OpenLinuxRelativeNoFollow k leaf) (\<lambda>root.
     seq (require (is_directory root) (mount_error ''openat no-follow failed'')) (\<lambda>_.
     seq (call k (archive_error ''activated payload root mode failed'') (\<lambda>n.
            update (set_entry leaf (Some (set_mode k n activation_root_mode root))))) (\<lambda>_.
     seq (Flush k (archive_error ''directory fsync failed'')) (\<lambda>_.
     seq (SyncLinuxDirectory k) (\<lambda>_.
     seq (LinuxArchiveActivatedRootMatches activation_root_mode k leaf staged_identity) (\<lambda>matches.
       require matches (archive_error ''activated payload root mode changed'')))))))))"

definition archive_verifier ::
    "32 word \<Rightarrow> (linux_entries \<Rightarrow> string \<Rightarrow> LinuxVerifiedPayloadIdentity result) \<Rightarrow> LinuxInstallPayloadVerifier" where
  "archive_verifier activation_root_mode check = \<lparr>vf_Verify = check,
     vf_Finalize = FinalizeLinuxArchiveActivatedRoot activation_root_mode,
     vf_Matches = LinuxArchiveActivatedRootMatches activation_root_mode\<rparr>"

section \<open>The transaction\<close>

text \<open>The members that the constructor fixes; the others are in \<^typ>\<open>LinuxWorld\<close>.\<close>

record LinuxFileTransaction =
  ft_stage_name :: string
  ft_paths :: LinuxTransactionPaths
  ft_owner_process_id :: "32 word"
  ft_owner_process_start_identity :: "64 word"
  ft_expected_payload_identity :: LinuxVerifiedPayloadIdentity
  ft_mount_guard :: LinuxMountGuard

definition file_error :: "string \<Rightarrow> cpp_exception" where
  "file_error detail = HelperError LinuxFileTransactionError detail"

text \<open>The two parents are the paths after \<^verbatim>\<open>absolute().lexically_normal()\<close>.\<close>

definition ValidatedStageName :: "string \<Rightarrow> string \<Rightarrow> string \<Rightarrow> string result" where
  "ValidatedStageName parent stage_parent stage_leaf =
     (if stage_parent \<noteq> parent
      then Inl (file_error ''stage must be an immediate sibling in the target parent'')
      else bindE (ValidateLinuxLeaf stage_leaf) (\<lambda>_. Inr stage_leaf))"

text \<open>
  The constructor. The lock file is created last; when its record cannot be written it is unlinked again.
  The start identity of the owner comes from \<^verbatim>\<open>/proc\<close> and is an argument.
\<close>

definition MakeLinuxFileTransaction ::
    "LinuxKernel \<Rightarrow> string \<Rightarrow> string \<Rightarrow> string \<Rightarrow> string \<Rightarrow> string \<Rightarrow> 32 word \<Rightarrow> 64 word \<Rightarrow> LinuxVerifiedPayloadIdentity \<Rightarrow>
     LinuxFileTransaction action" where
  "MakeLinuxFileTransaction k parent target_leaf stage_parent stage_leaf transaction_id owner_process_id start expected =
     seq (lift (ValidatedStageName parent stage_parent stage_leaf)) (\<lambda>stage_name.
     seq (lift (CreateLinuxTransactionPaths target_leaf transaction_id)) (\<lambda>paths.
     seq (ReadLinuxRelativeIdentity k (lp_target_name paths)) (\<lambda>target.
     seq (ReadLinuxRelativeIdentity k stage_name) (\<lambda>stage.
     seq (reading lw_parent) (\<lambda>parent_identity.
     seq (lift (MakeLinuxMountGuard parent_identity target stage)) (\<lambda>guard.
     seq (require (\<not> (sint owner_process_id \<le> 0 \<or> start = 0)) (file_error ''owner process identity unavailable'')) (\<lambda>_.
     seq (require (\<not> (\<not> id_directory stage \<and> id_link_count stage \<noteq> 1)) (file_error ''hard-linked stage rejected'')) (\<lambda>_.
     seq (CreateExclusive k (lp_lock_name paths)) (\<lambda>_.
     seq (rethrowing
            (seq (Flock k) (\<lambda>locked.
             seq (require locked (file_error ''transaction lock ownership failed'')) (\<lambda>_.
             seq (WriteAll k (file_error ''transaction lock write failed'') (lp_lock_name paths)
                    (EncodeLockRecord \<lparr>lk_transaction_id = lp_transaction_id paths,
                       lk_owner_process_id = owner_process_id, lk_owner_process_start_identity = start\<rparr>)) (\<lambda>_.
             seq (Flush k (file_error ''transaction lock fdatasync failed'')) (\<lambda>_.
               SyncLinuxDirectory k)))))
            (seq (Unlink k (lp_lock_name paths)) (\<lambda>_. ret ()))) (\<lambda>_.
     seq (update (\<lambda>w. w\<lparr>lw_lock_held := True, lw_journal := None, lw_journal_persisted := False,
            lw_execution_started := False\<rparr>)) (\<lambda>_.
       ret \<lparr>ft_stage_name = stage_name, ft_paths = paths, ft_owner_process_id = owner_process_id,
         ft_owner_process_start_identity = start, ft_expected_payload_identity = expected,
         ft_mount_guard = guard\<rparr>)))))))))))"

text \<open>The destructor swallows what the flush throws.\<close>

definition DestroyLinuxFileTransaction :: "LinuxKernel \<Rightarrow> LinuxFileTransaction \<Rightarrow> unit action" where
  "DestroyLinuxFileTransaction k tx =
     seq (reading (\<lambda>w. (lw_journal_persisted w, lw_lock_held w))) (\<lambda>(persisted, held).
       if \<not> persisted \<and> held then
         seq (update (\<lambda>w. w\<lparr>lw_lock_held := False\<rparr>)) (\<lambda>_.
         seq (Unlink k (lp_lock_name (ft_paths tx))) (\<lambda>removed.
           if removed then catching (SyncLinuxDirectory k) () else ret ()))
       else ret ())"

definition ValidateParentLocator :: "LinuxKernel \<Rightarrow> LinuxFileTransaction \<Rightarrow> unit action" where
  "ValidateParentLocator k tx =
     call k (mount_error ''directory component pin failed'') (\<lambda>_. seq (reading lw_parent) (\<lambda>observed.
       require (HasStableLinuxIdentity observed (mg_parent (ft_mount_guard tx)))
         (file_error ''target parent replacement rejected'')))"

definition ValidateRelativeIdentity :: "LinuxKernel \<Rightarrow> string \<Rightarrow> LinuxFileIdentity \<Rightarrow> string \<Rightarrow> unit action" where
  "ValidateRelativeIdentity k leaf expected detail =
     seq (LinuxRelativeExistsNoFollow k leaf) (\<lambda>exists.
       if \<not> exists then throwing (file_error detail)
       else seq (ReadLinuxRelativeIdentity k leaf) (\<lambda>observed.
         require (HasExactLinuxIdentity observed expected) (file_error detail)))"

definition VerifyPayload :: "LinuxKernel \<Rightarrow> LinuxInstallPayloadVerifier \<Rightarrow> LinuxFileTransaction \<Rightarrow> string \<Rightarrow> unit action" where
  "VerifyPayload k V tx leaf =
     seq (Verify k V leaf) (\<lambda>identity.
       require (identity = ft_expected_payload_identity tx)
         (file_error ''stage provenance, artifact digest, signer, executable, or permissions changed''))"

definition first_journal :: "LinuxFileTransaction \<Rightarrow> LinuxTransactionJournal" where
  "first_journal tx = \<lparr>lj_schema_version = journal_kSchemaVersion,
     lj_transaction_id = lp_transaction_id (ft_paths tx),
     lj_owner_process_id = ft_owner_process_id tx,
     lj_owner_process_start_identity = ft_owner_process_start_identity tx,
     lj_target_name = lp_target_name (ft_paths tx), lj_original_stage_name = ft_stage_name tx,
     lj_prepared_name = lp_prepared_name (ft_paths tx), lj_backup_name = lp_backup_name (ft_paths tx),
     lj_lock_name = lp_lock_name (ft_paths tx),
     lj_parent_identity = mg_parent (ft_mount_guard tx), lj_target_identity = mg_target (ft_mount_guard tx),
     lj_stage_identity = mg_stage (ft_mount_guard tx),
     lj_expected_payload_identity = ft_expected_payload_identity tx, lj_state = lt_kPrepared\<rparr>"

text \<open>
  \<^verbatim>\<open>mount_guard_.Validate\<close> reads the descriptors of target and stage that the constructor opened; nothing else
  moves these files in between, so it reads what their names show.
\<close>

definition PrepareDurableJournal ::
    "LinuxKernel \<Rightarrow> LinuxInstallPayloadVerifier \<Rightarrow> LinuxFileTransaction \<Rightarrow> string action" where
  "PrepareDurableJournal k V tx =
     seq (reading lw_execution_started) (\<lambda>started.
     seq (require (\<not> started) (file_error ''transaction preparation cannot follow mutation'')) (\<lambda>_.
     seq (reading lw_journal) (\<lambda>prepared. case prepared of
         Some journal \<Rightarrow> ret (EncodeJournal journal)
       | None \<Rightarrow>
           seq (ValidateParentLocator k tx) (\<lambda>_.
           seq (reading lw_parent) (\<lambda>parent.
           seq (ReadLinuxRelativeIdentity k (lp_target_name (ft_paths tx))) (\<lambda>target.
           seq (ReadLinuxRelativeIdentity k (ft_stage_name tx)) (\<lambda>stage.
           seq (lift (ValidateMountGuard (ft_mount_guard tx) parent target stage)) (\<lambda>_.
           seq (ValidateRelativeIdentity k (lp_target_name (ft_paths tx)) (mg_target (ft_mount_guard tx))
                  ''target identity changed before mutation'') (\<lambda>_.
           seq (ValidateRelativeIdentity k (ft_stage_name tx) (mg_stage (ft_mount_guard tx))
                  ''stage identity changed before mutation'') (\<lambda>_.
           seq (VerifyPayload k V tx (ft_stage_name tx)) (\<lambda>_.
           seq (update (\<lambda>w. w\<lparr>lw_journal_persisted := True\<rparr>)) (\<lambda>_.
           seq (Persist k (ft_paths tx) (first_journal tx)) (\<lambda>_.
           seq (update (\<lambda>w. w\<lparr>lw_journal := Some (first_journal tx)\<rparr>)) (\<lambda>_.
             ret (EncodeJournal (first_journal tx))))))))))))))))"

definition CancelPrepared :: "LinuxKernel \<Rightarrow> LinuxFileTransaction \<Rightarrow> unit action" where
  "CancelPrepared k tx =
     seq (reading (\<lambda>w. (lw_journal w, lw_execution_started w))) (\<lambda>(prepared, started).
       case prepared of
         None \<Rightarrow> throwing (file_error ''only a prepared transaction can be cancelled'')
       | Some journal \<Rightarrow>
           if started then throwing (file_error ''only a prepared transaction can be cancelled'')
           else
             seq (ValidateParentLocator k tx) (\<lambda>_.
             seq (ValidateRelativeIdentity k (lp_target_name (ft_paths tx)) (lj_target_identity journal)
                    ''target identity changed before cancellation'') (\<lambda>_.
             seq (ValidateRelativeIdentity k (ft_stage_name tx) (lj_stage_identity journal)
                    ''stage identity changed before cancellation'') (\<lambda>_.
             seq (RemoveJournal k (ft_paths tx)) (\<lambda>_.
               update (\<lambda>w. w\<lparr>lw_lock_held := False, lw_journal := None, lw_journal_persisted := False\<rparr>))))))"

text \<open>The three renames of \<^verbatim>\<open>Execute\<close>, which has a journal when it gets there, each with the checks before it and the journal after it.\<close>

definition ExecutePrepareRename ::
    "LinuxKernel \<Rightarrow> LinuxFileTransaction \<Rightarrow> LinuxTransactionJournal \<Rightarrow> LinuxTransactionJournal action" where
  "ExecutePrepareRename k tx journal =
     seq (Hit k kBeforeStageRename) (\<lambda>_.
     seq (ValidateParentLocator k tx) (\<lambda>_.
     seq (ValidateRelativeIdentity k (ft_stage_name tx) (lj_stage_identity journal)
            ''stage replaced before prepare rename'') (\<lambda>_.
     seq (RenameLinuxRelative k (ft_stage_name tx) (lp_prepared_name (ft_paths tx)) False) (\<lambda>_.
     seq (Hit k kAfterStageRenameBeforeDirectoryFlush) (\<lambda>_.
     seq (SyncLinuxDirectory k) (\<lambda>_.
     seq (ReadLinuxRelativeIdentity k (lp_prepared_name (ft_paths tx))) (\<lambda>stage.
     seq (Persist k (ft_paths tx) (journal\<lparr>lj_stage_identity := stage\<rparr>)) (\<lambda>_.
     seq (Hit k kAfterStageRename) (\<lambda>_.
       ret (journal\<lparr>lj_stage_identity := stage\<rparr>))))))))))"

definition ExecuteBackupRename ::
    "LinuxKernel \<Rightarrow> LinuxInstallPayloadVerifier \<Rightarrow> LinuxFileTransaction \<Rightarrow> LinuxTransactionJournal \<Rightarrow> LinuxTransactionJournal action" where
  "ExecuteBackupRename k V tx journal =
     seq (Hit k kBeforeBackupRename) (\<lambda>_.
     seq (ValidateParentLocator k tx) (\<lambda>_.
     seq (ValidateRelativeIdentity k (lp_target_name (ft_paths tx)) (lj_target_identity journal)
            ''target replaced before backup rename'') (\<lambda>_.
     seq (ValidateRelativeIdentity k (lp_prepared_name (ft_paths tx)) (lj_stage_identity journal)
            ''prepared stage identity changed'') (\<lambda>_.
     seq (VerifyPayload k V tx (lp_prepared_name (ft_paths tx))) (\<lambda>_.
     seq (RenameLinuxRelative k (lp_target_name (ft_paths tx)) (lp_backup_name (ft_paths tx)) False) (\<lambda>_.
     seq (Hit k kAfterBackupRenameBeforeDirectoryFlush) (\<lambda>_.
     seq (SyncLinuxDirectory k) (\<lambda>_.
     seq (ReadLinuxRelativeIdentity k (lp_backup_name (ft_paths tx))) (\<lambda>target.
     seq (Persist k (ft_paths tx) (journal\<lparr>lj_target_identity := target, lj_state := lt_kBackupCreated\<rparr>)) (\<lambda>_.
     seq (Hit k kAfterBackupRename) (\<lambda>_.
       ret (journal\<lparr>lj_target_identity := target, lj_state := lt_kBackupCreated\<rparr>))))))))))))"

definition ExecuteActivationRename ::
    "LinuxKernel \<Rightarrow> LinuxInstallPayloadVerifier \<Rightarrow> LinuxFileTransaction \<Rightarrow> LinuxTransactionJournal \<Rightarrow> LinuxTransactionJournal action" where
  "ExecuteActivationRename k V tx journal =
     seq (Hit k kBeforeActivationRename) (\<lambda>_.
     seq (ValidateParentLocator k tx) (\<lambda>_.
     seq (ValidateRelativeIdentity k (lp_backup_name (ft_paths tx)) (lj_target_identity journal)
            ''backup identity changed before activation'') (\<lambda>_.
     seq (ValidateRelativeIdentity k (lp_prepared_name (ft_paths tx)) (lj_stage_identity journal)
            ''prepared stage changed before activation'') (\<lambda>_.
     seq (VerifyPayload k V tx (lp_prepared_name (ft_paths tx))) (\<lambda>_.
     seq (RenameLinuxRelative k (lp_prepared_name (ft_paths tx)) (lp_target_name (ft_paths tx)) False) (\<lambda>_.
     seq (Hit k kAfterActivationRenameBeforeDirectoryFlush) (\<lambda>_.
     seq (SyncLinuxDirectory k) (\<lambda>_.
     seq (ReadLinuxRelativeIdentity k (lp_target_name (ft_paths tx))) (\<lambda>stage.
     seq (Persist k (ft_paths tx) (journal\<lparr>lj_stage_identity := stage, lj_state := lt_kTargetActivated\<rparr>)) (\<lambda>_.
     seq (Hit k kAfterActivationRename) (\<lambda>_.
       ret (journal\<lparr>lj_stage_identity := stage, lj_state := lt_kTargetActivated\<rparr>))))))))))))"

definition ExecuteFinish ::
    "LinuxKernel \<Rightarrow> LinuxInstallPayloadVerifier \<Rightarrow> LinuxFileTransaction \<Rightarrow> LinuxTransactionJournal \<Rightarrow> unit action" where
  "ExecuteFinish k V tx journal =
     seq (ValidateParentLocator k tx) (\<lambda>_.
     seq (vf_Finalize V k (lp_target_name (ft_paths tx)) (lj_stage_identity journal)) (\<lambda>_.
     seq (vf_Matches V k (lp_target_name (ft_paths tx)) (lj_stage_identity journal)) (\<lambda>matches.
     seq (require matches (file_error ''activated target identity changed'')) (\<lambda>_.
     seq (VerifyPayload k V tx (lp_target_name (ft_paths tx))) (\<lambda>_.
     seq (Persist k (ft_paths tx) (journal\<lparr>lj_state := lt_kCompleted\<rparr>)) (\<lambda>_.
     seq (RemoveLinuxTreeExact k (lp_backup_name (ft_paths tx)) (lj_target_identity journal)) (\<lambda>_.
       RemoveJournal k (ft_paths tx))))))))"

definition Execute :: "LinuxKernel \<Rightarrow> LinuxInstallPayloadVerifier \<Rightarrow> LinuxFileTransaction \<Rightarrow> unit action" where
  "Execute k V tx =
     seq (reading lw_journal) (\<lambda>prepared.
     seq (case prepared of None \<Rightarrow> seq (PrepareDurableJournal k V tx) (\<lambda>_. ret ()) | Some _ \<Rightarrow> ret ()) (\<lambda>_.
     seq (reading lw_execution_started) (\<lambda>started.
     seq (require (\<not> started) (file_error ''transaction mutation already started'')) (\<lambda>_.
     seq (update (\<lambda>w. w\<lparr>lw_execution_started := True\<rparr>)) (\<lambda>_.
     seq (reading lw_journal) (\<lambda>prepared. case prepared of
         None \<Rightarrow> throwing (file_error ''no journal'')
       | Some journal \<Rightarrow>
           seq (ExecutePrepareRename k tx journal) (\<lambda>journal.
           seq (ExecuteBackupRename k V tx journal) (\<lambda>journal.
           seq (ExecuteActivationRename k V tx journal) (\<lambda>journal.
             ExecuteFinish k V tx journal)))))))))"

section \<open>The contract of a verifier\<close>

text \<open>What a file or directory holds, apart from its identity.\<close>

definition content :: "LinuxNode \<Rightarrow> string \<times> (string \<times> LinuxNode) list" where
  "content node = (node_bytes node, node_entries node)"

lemma content_retime [simp]: "content (retime k n node) = content node"
  by (simp add: content_def)

text \<open>The states that differ from \<open>w\<close> in the identity of one entry at most.\<close>

definition same_content :: "string \<Rightarrow> LinuxWorld \<Rightarrow> LinuxWorld \<Rightarrow> bool" where
  "same_content l w w' \<longleftrightarrow> (\<exists>c n. w' = set_entry l n (w\<lparr>lw_clock := c\<rparr>) \<and>
     map_option content n = map_option content (lw_entries w l))"

lemma same_content_refl: "same_content l w w"
proof -
  have "w = set_entry l (lw_entries w l) (w\<lparr>lw_clock := lw_clock w\<rparr>)" by (simp add: set_entry_same)
  then show ?thesis unfolding same_content_def by blast
qed

lemma timeless_same_content: "timeless (same_content l w)"
proof -
  have step: "same_content l w (w'\<lparr>lw_clock := c\<rparr>)" if same: "same_content l w w'" for w' c
  proof -
    obtain d n where "w' = set_entry l n (w\<lparr>lw_clock := d\<rparr>)" "map_option content n = map_option content (lw_entries w l)"
      using same unfolding same_content_def by blast
    then have "w'\<lparr>lw_clock := c\<rparr> = set_entry l n (w\<lparr>lw_clock := c\<rparr>)" by simp
    then show ?thesis unfolding same_content_def using \<open>map_option content n = _\<close> by blast
  qed
  show ?thesis unfolding timeless_def
  proof (intro allI iffI)
    fix w' c assume "same_content l w (w'\<lparr>lw_clock := c\<rparr>)"
    from step [OF this, of "lw_clock w'"] show "same_content l w w'" by simp
  qed (rule step)
qed

lemma same_content_entry:
  "same_content l w w' \<Longrightarrow> map_option content (lw_entries w' l) = map_option content (lw_entries w l)"
  by (auto simp: same_content_def)

lemma same_content_set:
  assumes "same_content l w w'" and "map_option content n = map_option content (lw_entries w l)"
  shows "same_content l w (set_entry l n w')"
  using assms unfolding same_content_def by (metis set_entry_twice)

text \<open>
  A verifier reads, and finalizing the root of an activated payload changes the identity of that root
  only.
\<close>

locale payload_verifier =
  fixes V :: LinuxInstallPayloadVerifier
  assumes matches_quiet: "quiet (vf_Matches V k l i)"
    and finalize_content: "keeps (same_content l w) (vf_Finalize V k l i)"
begin

lemma runs_finalize:
  assumes "timeless P" and "\<And>w n. P w \<Longrightarrow> map_option content n = map_option content (lw_entries w l) \<Longrightarrow> P (set_entry l n w)"
  shows "keeps P (vf_Finalize V k l i)"
proof (rule runsI)
  fix w r w' assume "P w" and run: "vf_Finalize V k l i w = (r, w')"
  have "case r of Returned x \<Rightarrow> same_content l w w' | Threw e \<Rightarrow> same_content l w w' | Died \<Rightarrow> same_content l w w'"
    by (rule runsD [OF finalize_content [of l w] same_content_refl run])
  then have "same_content l w w'" by (cases r) simp_all
  then obtain c n where w': "w' = set_entry l n (w\<lparr>lw_clock := c\<rparr>)" "map_option content n = map_option content (lw_entries w l)"
    unfolding same_content_def by blast
  have "P (w\<lparr>lw_clock := c\<rparr>)" using \<open>P w\<close> assms(1) by (simp add: timelessD)
  then have "P w'" using assms(2) w' by simp
  then show "case r of Returned x \<Rightarrow> P w' | Threw e \<Rightarrow> P w' | Died \<Rightarrow> P w'" by (cases r) simp_all
qed

end

lemma quiet_Verify [simp]: "quiet (Verify k V l)"
  unfolding Verify_def by (auto intro!: quiet_call quiet_seq)

lemma quiet_base_Matches: "quiet (base_Matches k l i)"
  unfolding base_Matches_def by (auto intro!: quiet_seq)

interpretation base: payload_verifier "base_verifier check" for check
  by unfold_locales (auto simp: base_verifier_def quiet_base_Matches intro: runs_ret)

lemma quiet_archive_Matches: "quiet (LinuxArchiveActivatedRootMatches mode k l i)"
  unfolding LinuxArchiveActivatedRootMatches_def by (auto intro!: quiet_seq)

lemma finalize_archive: "keeps (same_content l w) (FinalizeLinuxArchiveActivatedRoot mode k l i)"
proof -
  have quiet: "keeps (same_content l w) m" if "quiet m" for m :: "'a action"
    using that timeless_same_content by (rule runs_quiet)
  let ?R = "\<lambda>root w'. same_content l w w' \<and> lw_entries w' l = Some root"
  have time: "timeless (?R root)" for root
    using timeless_same_content by (simp add: timeless_def)
  have chmod: "runs (?R root) (call k e (\<lambda>n. update (set_entry l (Some (set_mode k n mode root))))) (\<lambda>_. same_content l w) (same_content l w)" for root e
  proof -
    have "content (set_mode k n mode root) = content root" for n by (simp add: set_mode_def content_def)
    then have "runs (?R root) (update (set_entry l (Some (set_mode k n mode root)))) (\<lambda>_. same_content l w) (?R root)" for n
      by (intro runs_update same_content_set) (use same_content_entry in fastforce)+
    from runs_call [OF time this] show ?thesis by (rule runs_conseq) auto
  qed
  have open_root: "runs (same_content l w) (OpenLinuxRelativeNoFollow k l) ?R (same_content l w)"
    by (rule runs_conseq [OF runs_open [OF timeless_same_content]]) auto
  have directory: "runs (?R root) (require b e) (\<lambda>_. ?R root) (same_content l w)" for root b e
    by (rule runs_require) auto
  show ?thesis
    unfolding FinalizeLinuxArchiveActivatedRoot_def
    by (rule runs_seq [OF quiet [OF quiet_archive_Matches]], rule runs_seq [OF quiet], simp, rule runs_seq [OF open_root],
        rule runs_seq [OF directory], rule runs_seq [OF chmod], rule runs_seq [OF quiet], simp, rule runs_seq [OF quiet], simp,
        rule runs_seq [OF quiet [OF quiet_archive_Matches]], rule quiet, simp)
qed

interpretation archive: payload_verifier "archive_verifier mode check" for mode check
  by unfold_locales (simp_all add: archive_verifier_def quiet_archive_Matches finalize_archive)

section \<open>Rules for the composed statements\<close>

lemma quiet_checks [simp]:
  "quiet (ValidateParentLocator k tx)" "quiet (ValidateRelativeIdentity k l i d)" "quiet (VerifyPayload k V tx l)"
  "quiet (HasAmbiguousNext k paths)" "quiet (Load k paths)"
  unfolding ValidateParentLocator_def ValidateRelativeIdentity_def VerifyPayload_def HasAmbiguousNext_def Load_def
  by (auto intro!: quiet_seq quiet_call)

lemma runs_quiet_into: "quiet m \<Longrightarrow> timeless P \<Longrightarrow> (\<And>w. P w \<Longrightarrow> E w) \<Longrightarrow> runs P m (\<lambda>_. P) E"
  by (rule runs_conseq [OF runs_quiet [of m P]]) auto

lemma runs_validate:
  assumes "timeless P"
  shows "runs P (ValidateRelativeIdentity k l i d) (\<lambda>_ w. P w \<and> lw_entries w l \<noteq> None) P"
proof -
  have time: "timeless (\<lambda>w. P w \<and> lw_entries w l \<noteq> None)" using assms by (simp add: timeless_def)
  have read: "runs (\<lambda>w. P w \<and> lw_entries w l \<noteq> None) (seq (ReadLinuxRelativeIdentity k l) (\<lambda>observed.
      require (HasExactLinuxIdentity observed i) (file_error d))) (\<lambda>_ w. P w \<and> lw_entries w l \<noteq> None) P"
    by (rule runs_quiet_into [OF _ time]) (auto intro!: quiet_seq)
  show ?thesis
    unfolding ValidateRelativeIdentity_def
    by (rule runs_seq [OF runs_exists [OF assms]], rule runs_if, rule runs_throwing, simp,
        rule runs_pre [OF read], simp)
qed

lemma runs_verify:
  assumes "timeless P"
  shows "runs P (Verify k V l) (\<lambda>p w. P w \<and> vf_Verify V (lw_entries w) l = Inr p) P"
  unfolding Verify_def
  by (auto intro!: runs_call assms runs_seq [where R = "\<lambda>es w. P w \<and> lw_entries w = es"] runs_reading runs_lift)

lemma runs_verify_payload:
  assumes "timeless P"
  shows "runs P (VerifyPayload k V tx l)
    (\<lambda>_ w. P w \<and> vf_Verify V (lw_entries w) l = Inr (ft_expected_payload_identity tx)) P"
  unfolding VerifyPayload_def by (rule runs_seq [OF runs_verify [OF assms]], rule runs_require) auto

lemma timeless_conj: "timeless P \<Longrightarrow> timeless (\<lambda>w. P w \<and> Q (lw_entries w))"
  by (simp add: timeless_def)

lemma runs_persist:
  assumes time: "timeless P" and scratch: "\<And>w n. P (set_entry (lp_journal_next_name paths) n w) \<longleftrightarrow> P w"
    and journal: "\<And>w node. P w \<Longrightarrow> node_bytes node = EncodeJournal j \<Longrightarrow> P (set_entry (lp_journal_name paths) (Some node) w)"
    and distinct: "lp_journal_next_name paths \<noteq> lp_journal_name paths"
  shows "keeps P (Persist k paths j)"
proof -
  let ?next = "lp_journal_next_name paths"
  let ?created = "\<lambda>w. P w \<and> (\<exists>node. lw_entries w ?next = Some node)"
  let ?written = "\<lambda>w. P w \<and> (\<exists>node. lw_entries w ?next = Some node \<and> node_bytes node = EncodeJournal j)"
  have times: "timeless ?created" "timeless ?written" using time by (simp_all add: timeless_def)
  have quiet: "keeps P m" if "quiet m" for m :: "'a action" using that time by (rule runs_quiet)
  have quiet_created: "runs ?created m (\<lambda>_. ?created) P" if "quiet m" for m :: "'a action"
    by (rule runs_quiet_into [OF that times(1)]) simp
  have quiet_written: "runs ?written m (\<lambda>_. ?written) P" if "quiet m" for m :: "'a action"
    by (rule runs_quiet_into [OF that times(2)]) simp
  have create: "runs P (CreateExclusive k ?next) (\<lambda>_. ?created) P"
    by (rule runs_create [OF time]) (simp add: scratch)
  have bytes: "P (write_bytes ?next b w) \<longleftrightarrow> P w" for b w
    by (simp add: write_bytes_def scratch split: option.split)
  have write_next: "runs ?created (WriteAll k e ?next (EncodeJournal j)) (\<lambda>_. ?written) P" for e
    by (rule runs_write [OF times(1)]) (auto simp: bytes, auto simp: write_bytes_def)
  have rename: "runs ?written (RenameLinuxRelative k ?next (lp_journal_name paths) True) (\<lambda>_. P) P"
    by (rule runs_conseq [OF runs_rename [OF times(2), where Q = "\<lambda>_. P"]]) (auto simp: scratch distinct intro!: journal)
  show ?thesis
    unfolding Persist_def
    by (rule runs_seq [OF quiet], simp, rule runs_seq [OF quiet], simp, rule runs_seq [OF quiet], simp,
        rule runs_seq [OF create], rule runs_seq [OF quiet_created], simp, rule runs_seq [OF quiet_created], simp,
        rule runs_seq [OF write_next], rule runs_seq [OF quiet_written], simp, rule runs_seq [OF quiet_written], simp,
        rule runs_seq [OF rename], rule runs_seq [OF quiet], simp, rule runs_seq [OF quiet], simp, rule quiet, simp)
qed

lemma runs_unlink_if_exists:
  assumes "timeless P" and "\<And>w. P w \<Longrightarrow> P (set_entry l None w)"
  shows "runs P (UnlinkIfExists k l d) (\<lambda>_ w. P w \<and> lw_entries w l = None) P"
proof -
  have gone: "runs P (Unlink k l) (\<lambda>b w. P w \<and> (b \<longrightarrow> lw_entries w l = None)) P"
    by (rule runs_unlink [OF assms(1)]) (simp_all add: assms(2))
  show ?thesis
    unfolding UnlinkIfExists_def
    by (rule runs_seq [OF runs_exists [OF assms(1)]])
      (auto intro!: runs_ret runs_pre [OF runs_seq [OF gone]] runs_require)
qed

lemma runs_remove_journal:
  assumes "timeless P" and "\<And>w. P w \<Longrightarrow> P (set_entry (lp_journal_name paths) None w)"
    and "\<And>w. P w \<Longrightarrow> P (set_entry (lp_lock_name paths) None w)"
  shows "runs P (RemoveJournal k paths)
    (\<lambda>_ w. P w \<and> lw_entries w (lp_journal_name paths) = None \<and> lw_entries w (lp_lock_name paths) = None) P"
proof -
  have first: "runs P (UnlinkIfExists k (lp_journal_name paths) d) (\<lambda>_ w. P w \<and> lw_entries w (lp_journal_name paths) = None) P" for d
    by (rule runs_unlink_if_exists [OF assms(1,2)])
  have second: "runs (\<lambda>w. P w \<and> lw_entries w (lp_journal_name paths) = None) (UnlinkIfExists k (lp_lock_name paths) d)
      (\<lambda>_ w. (P w \<and> lw_entries w (lp_journal_name paths) = None) \<and> lw_entries w (lp_lock_name paths) = None) P" for d
    by (rule runs_conseq [OF runs_unlink_if_exists [of "\<lambda>w. P w \<and> lw_entries w (lp_journal_name paths) = None"]])
      (auto simp: assms(3) intro: timeless_conj [OF assms(1), of "\<lambda>es. es (lp_journal_name paths) = None"])
  have third: "runs (\<lambda>w. (P w \<and> lw_entries w (lp_journal_name paths) = None) \<and> lw_entries w (lp_lock_name paths) = None)
      (SyncLinuxDirectory k) (\<lambda>_ w. P w \<and> lw_entries w (lp_journal_name paths) = None \<and> lw_entries w (lp_lock_name paths) = None) P"
    by (rule runs_conseq [OF runs_quiet [of _ "\<lambda>w. P w \<and> lw_entries w (lp_journal_name paths) = None \<and>
          lw_entries w (lp_lock_name paths) = None"]])
      (use assms(1) in \<open>auto simp: timeless_def\<close>)
  show ?thesis
    unfolding RemoveJournal_def by (rule runs_seq [OF first], rule runs_seq [OF second], rule third)
qed

end
