(* ===== verification/Linux_Recovery.thy ===== *)
theory Linux_Recovery
  imports Linux_Transaction
begin

text \<open>
  Recovery after a crash, \<^verbatim>\<open>linux_recovery_service.{h,cc}\<close>: from the journal, the lock and the names that exist, go on with the
  transaction to its end or leave everything for a manual repair. Whether the owner of a lock still
  runs is the argument \<open>alive\<close>, the \<^verbatim>\<open>LinuxProcessLivenessChecker\<close> of the code.
\<close>

datatype LinuxRecoveryOutcome =
    ro_kNothingToRecover
  | ro_kLiveOwner
  | ro_kRecovered
  | ro_kManualActionRequired

section \<open>Observations\<close>

text \<open>\<^verbatim>\<open>Matches\<close>.\<close>

definition recovery_Matches :: "LinuxKernel \<Rightarrow> string \<Rightarrow> LinuxFileIdentity \<Rightarrow> bool action" where
  "recovery_Matches k leaf identity =
     seq (LinuxRelativeExistsNoFollow k leaf) (\<lambda>exists.
       if \<not> exists then ret False
       else seq (ReadLinuxRelativeIdentity k leaf) (\<lambda>observed. ret (HasExactLinuxIdentity observed identity)))"

text \<open>The four flags of \<^verbatim>\<open>Recover\<close>.\<close>

record LinuxObservation =
  lo_target :: bool
  lo_stage :: bool
  lo_prepared :: bool
  lo_backup :: bool

definition CompatibleObservation :: "LinuxTransactionState \<Rightarrow> LinuxObservation \<Rightarrow> bool" where
  "CompatibleObservation state ob = (case state of
       lt_kPrepared \<Rightarrow>
         (lo_target ob \<and> lo_stage ob \<and> \<not> lo_prepared ob \<and> \<not> lo_backup ob) \<or>
         (lo_target ob \<and> \<not> lo_stage ob \<and> lo_prepared ob \<and> \<not> lo_backup ob) \<or>
         (\<not> lo_target ob \<and> \<not> lo_stage ob \<and> lo_prepared ob \<and> lo_backup ob)
     | lt_kBackupCreated \<Rightarrow>
         (\<not> lo_target ob \<and> \<not> lo_stage ob \<and> lo_prepared ob \<and> lo_backup ob) \<or>
         (lo_target ob \<and> \<not> lo_stage ob \<and> \<not> lo_prepared ob \<and> lo_backup ob)
     | lt_kTargetActivated \<Rightarrow> lo_target ob \<and> \<not> lo_stage ob \<and> \<not> lo_prepared ob \<and> lo_backup ob
     | lt_kCompleted \<Rightarrow> lo_target ob \<and> \<not> lo_stage ob \<and> \<not> lo_prepared ob
     | lt_kManualActionRequired \<Rightarrow> False)"

definition Observe :: "LinuxKernel \<Rightarrow> LinuxTransactionPaths \<Rightarrow> string \<Rightarrow> LinuxObservation action" where
  "Observe k paths stage =
     seq (LinuxRelativeExistsNoFollow k (lp_target_name paths)) (\<lambda>target.
     seq (LinuxRelativeExistsNoFollow k stage) (\<lambda>stage.
     seq (LinuxRelativeExistsNoFollow k (lp_prepared_name paths)) (\<lambda>prepared.
     seq (LinuxRelativeExistsNoFollow k (lp_backup_name paths)) (\<lambda>backup.
       ret \<lparr>lo_target = target, lo_stage = stage, lo_prepared = prepared, lo_backup = backup\<rparr>))))"

text \<open>\<^verbatim>\<open>unlinkat(...) == 0 || errno == ENOENT\<close>.\<close>

definition UnlinkOrMissing :: "LinuxKernel \<Rightarrow> string \<Rightarrow> bool action" where
  "UnlinkOrMissing k leaf =
     seq (reading (\<lambda>w. lw_entries w leaf = None \<and> kn_call k (lw_clock w) = Proceeds)) (\<lambda>missing.
     seq (Unlink k leaf) (\<lambda>removed. ret (removed \<or> missing)))"

section \<open>Steps\<close>

text \<open>A lock without a journal: lines 109 to 140 of the source.\<close>

definition RecoverOrphanLock ::
    "LinuxKernel \<Rightarrow> LinuxTransactionPaths \<Rightarrow> (32 word \<Rightarrow> 64 word \<Rightarrow> bool) \<Rightarrow> LinuxRecoveryOutcome action" where
  "RecoverOrphanLock k paths alive =
     seq (LinuxRelativeExistsNoFollow k (lp_lock_name paths)) (\<lambda>exists.
       if \<not> exists then ret ro_kNothingToRecover
       else
         seq (OpenLinuxRelativeNoFollow k (lp_lock_name paths)) (\<lambda>_.
         seq (Flock k) (\<lambda>locked.
           if \<not> locked then ret ro_kLiveOwner
           else
             seq (ReadLinuxRelativeUtf8 k (lp_lock_name paths) 4096) (\<lambda>text.
             seq (lift (DecodeLockRecord text)) (\<lambda>r.
               if lk_transaction_id r \<noteq> lp_transaction_id paths then ret ro_kManualActionRequired
               else if alive (lk_owner_process_id r) (lk_owner_process_start_identity r) then ret ro_kLiveOwner
               else
                 seq (LinuxRelativeExistsNoFollow k (lp_prepared_name paths)) (\<lambda>prepared.
                   if prepared then ret ro_kManualActionRequired
                   else
                     seq (LinuxRelativeExistsNoFollow k (lp_backup_name paths)) (\<lambda>backup.
                       if backup then ret ro_kManualActionRequired
                       else
                         seq (Unlink k (lp_lock_name paths)) (\<lambda>removed.
                           if \<not> removed then ret ro_kManualActionRequired
                           else seq (SyncLinuxDirectory k) (\<lambda>_. ret ro_kNothingToRecover)))))))))"

definition journal_mismatch ::
    "LinuxTransactionPaths \<Rightarrow> LinuxVerifiedPayloadIdentity \<Rightarrow> LinuxFileIdentity \<Rightarrow> LinuxTransactionJournal \<Rightarrow> bool" where
  "journal_mismatch paths expected parent journal \<longleftrightarrow>
     lj_transaction_id journal \<noteq> lp_transaction_id paths \<or> lj_target_name journal \<noteq> lp_target_name paths \<or>
     lj_prepared_name journal \<noteq> lp_prepared_name paths \<or> lj_backup_name journal \<noteq> lp_backup_name paths \<or>
     lj_lock_name journal \<noteq> lp_lock_name paths \<or>
     \<not> HasStableLinuxIdentity parent (lj_parent_identity journal) \<or>
     lj_expected_payload_identity journal \<noteq> expected"

text \<open>Taking over the transaction; \<^const>\<open>None\<close> goes on.\<close>

definition TakeOwnership ::
    "LinuxKernel \<Rightarrow> LinuxTransactionPaths \<Rightarrow> LinuxVerifiedPayloadIdentity \<Rightarrow> (32 word \<Rightarrow> 64 word \<Rightarrow> bool) \<Rightarrow>
     LinuxTransactionJournal \<Rightarrow> LinuxRecoveryOutcome option action" where
  "TakeOwnership k paths expected alive loaded =
     seq (LinuxRelativeExistsNoFollow k (lp_lock_name paths)) (\<lambda>exists.
       if \<not> exists then ret (Some ro_kManualActionRequired)
       else
         seq (OpenLinuxRelativeNoFollow k (lp_lock_name paths)) (\<lambda>_.
         seq (Flock k) (\<lambda>locked.
           if \<not> locked then ret (Some ro_kLiveOwner)
           else
             seq (ReadLinuxRelativeUtf8 k (lp_lock_name paths) 4096) (\<lambda>text.
             seq (lift (DecodeLockRecord text)) (\<lambda>lock_record.
               if lk_transaction_id lock_record \<noteq> lp_transaction_id paths then ret (Some ro_kManualActionRequired)
               else if lj_owner_process_id loaded \<noteq> lk_owner_process_id lock_record \<or>
                 lj_owner_process_start_identity loaded \<noteq> lk_owner_process_start_identity lock_record
               then ret (Some ro_kManualActionRequired)
               else
                 seq (reading lw_parent) (\<lambda>parent.
                   if journal_mismatch paths expected parent loaded then ret (Some ro_kManualActionRequired)
                   else if alive (lj_owner_process_id loaded) (lj_owner_process_start_identity loaded)
                   then ret (Some ro_kLiveOwner)
                   else
                     seq (OpenOrCreate k (lp_recovery_lock_name paths)) (\<lambda>_.
                     seq (Flock k) (\<lambda>locked.
                       if \<not> locked then ret (Some ro_kLiveOwner)
                       else
                         seq (LinuxRelativeExistsNoFollow k (lp_lock_name paths)) (\<lambda>exists.
                           ret (if \<not> exists then Some ro_kManualActionRequired else None))))))))))"

text \<open>The checks of lines 198 to 210.\<close>

definition ObservationVerified ::
    "LinuxKernel \<Rightarrow> LinuxInstallPayloadVerifier \<Rightarrow> LinuxTransactionPaths \<Rightarrow> LinuxTransactionJournal \<Rightarrow> LinuxObservation \<Rightarrow> bool action" where
  "ObservationVerified k V paths journal ob =
     seq (if lo_target ob then
            seq (ReadLinuxRelativeIdentity k (lp_target_name paths)) (\<lambda>identity.
              if \<not> SameLinuxIdentity identity (lj_target_identity journal)
              then vf_Matches V k (lp_target_name paths) (lj_stage_identity journal) else ret True)
          else ret True) (\<lambda>target_ok.
       if \<not> target_ok then ret False
       else if lo_backup ob then recovery_Matches k (lp_backup_name paths) (lj_target_identity journal)
       else ret True)"

text \<open>
  The three renames. Each returns the journal and the flags after it, or \<^const>\<open>None\<close> for a manual repair.
\<close>

type_synonym recovery_state = "(LinuxTransactionJournal \<times> LinuxObservation) option"

definition RecoverPrepareRename ::
    "LinuxKernel \<Rightarrow> LinuxInstallPayloadVerifier \<Rightarrow> LinuxTransactionPaths \<Rightarrow> LinuxVerifiedPayloadIdentity \<Rightarrow>
     LinuxTransactionJournal \<Rightarrow> LinuxObservation \<Rightarrow> recovery_state action" where
  "RecoverPrepareRename k V paths expected journal ob =
     (if \<not> lo_stage ob then ret (Some (journal, ob))
      else
        seq (recovery_Matches k (lj_original_stage_name journal) (lj_stage_identity journal)) (\<lambda>matches.
          if \<not> matches then ret None
          else
            seq (Verify k V (lj_original_stage_name journal)) (\<lambda>identity.
              if identity \<noteq> expected then ret None
              else
                seq (RenameLinuxRelative k (lj_original_stage_name journal) (lp_prepared_name paths) False) (\<lambda>_.
                seq (SyncLinuxDirectory k) (\<lambda>_.
                seq (ReadLinuxRelativeIdentity k (lp_prepared_name paths)) (\<lambda>stage.
                seq (Persist k paths (journal\<lparr>lj_stage_identity := stage\<rparr>)) (\<lambda>_.
                  ret (Some (journal\<lparr>lj_stage_identity := stage\<rparr>,
                    ob\<lparr>lo_stage := False, lo_prepared := True\<rparr>)))))))))"

definition RecoverBackupRename ::
    "LinuxKernel \<Rightarrow> LinuxTransactionPaths \<Rightarrow> LinuxTransactionJournal \<Rightarrow> LinuxObservation \<Rightarrow> recovery_state action" where
  "RecoverBackupRename k paths journal ob =
     (if \<not> (\<not> lo_backup ob \<and> lo_prepared ob) then ret (Some (journal, ob))
      else
        seq (if \<not> lo_target ob then ret False
             else recovery_Matches k (lp_target_name paths) (lj_target_identity journal)) (\<lambda>matches.
          if \<not> matches then ret None
          else
            seq (RenameLinuxRelative k (lp_target_name paths) (lp_backup_name paths) False) (\<lambda>_.
            seq (SyncLinuxDirectory k) (\<lambda>_.
            seq (ReadLinuxRelativeIdentity k (lp_backup_name paths)) (\<lambda>target.
            seq (Persist k paths (journal\<lparr>lj_target_identity := target, lj_state := lt_kBackupCreated\<rparr>)) (\<lambda>_.
              ret (Some (journal\<lparr>lj_target_identity := target, lj_state := lt_kBackupCreated\<rparr>,
                ob\<lparr>lo_target := False, lo_backup := True\<rparr>))))))))"

definition RecoverActivationRename ::
    "LinuxKernel \<Rightarrow> LinuxInstallPayloadVerifier \<Rightarrow> LinuxTransactionPaths \<Rightarrow> LinuxVerifiedPayloadIdentity \<Rightarrow>
     LinuxTransactionJournal \<Rightarrow> LinuxObservation \<Rightarrow> recovery_state action" where
  "RecoverActivationRename k V paths expected journal ob =
     (if \<not> (lo_backup ob \<and> lo_prepared ob \<and> \<not> lo_target ob) then ret (Some (journal, ob))
      else
        seq (recovery_Matches k (lp_prepared_name paths) (lj_stage_identity journal)) (\<lambda>matches.
          if \<not> matches then ret None
          else
            seq (Verify k V (lp_prepared_name paths)) (\<lambda>identity.
              if identity \<noteq> expected then ret None
              else
                seq (RenameLinuxRelative k (lp_prepared_name paths) (lp_target_name paths) False) (\<lambda>_.
                seq (SyncLinuxDirectory k) (\<lambda>_.
                seq (ReadLinuxRelativeIdentity k (lp_target_name paths)) (\<lambda>stage.
                seq (Persist k paths (journal\<lparr>lj_stage_identity := stage, lj_state := lt_kTargetActivated\<rparr>)) (\<lambda>_.
                  ret (Some (journal\<lparr>lj_stage_identity := stage, lj_state := lt_kTargetActivated\<rparr>,
                    ob\<lparr>lo_prepared := False, lo_target := True\<rparr>)))))))))"

text \<open>The verification of the target, and the cleanup it permits.\<close>

definition TargetVerified ::
    "LinuxKernel \<Rightarrow> LinuxInstallPayloadVerifier \<Rightarrow> LinuxTransactionPaths \<Rightarrow> LinuxVerifiedPayloadIdentity \<Rightarrow>
     LinuxTransactionJournal \<Rightarrow> LinuxObservation \<Rightarrow> bool action" where
  "TargetVerified k V paths expected journal ob =
     seq (if lo_target ob \<and> \<not> lo_prepared ob \<and> lo_backup ob
          then vf_Finalize V k (lp_target_name paths) (lj_stage_identity journal) else ret ()) (\<lambda>_.
       if \<not> lo_target ob \<or> lo_stage ob \<or> lo_prepared ob then ret False
       else
         seq (vf_Matches V k (lp_target_name paths) (lj_stage_identity journal)) (\<lambda>matches.
           if \<not> matches then ret False
           else seq (Verify k V (lp_target_name paths)) (\<lambda>identity. ret (identity = expected))))"

definition RecoverCleanup ::
    "LinuxKernel \<Rightarrow> LinuxTransactionPaths \<Rightarrow> LinuxTransactionJournal \<Rightarrow> LinuxObservation \<Rightarrow> LinuxRecoveryOutcome action" where
  "RecoverCleanup k paths journal ob =
     seq (if \<not> lo_backup ob then ret True
          else
            seq (recovery_Matches k (lp_backup_name paths) (lj_target_identity journal)) (\<lambda>matches.
              if \<not> matches then ret False
              else
                seq (Persist k paths (journal\<lparr>lj_state := lt_kTargetActivated\<rparr>)) (\<lambda>_.
                seq (Persist k paths (journal\<lparr>lj_state := lt_kCompleted\<rparr>)) (\<lambda>_.
                seq (RemoveLinuxTreeExact k (lp_backup_name paths) (lj_target_identity journal)) (\<lambda>_.
                  ret True))))) (\<lambda>cleaned.
       if \<not> cleaned then ret ro_kManualActionRequired
       else
         seq (RemoveJournal k paths) (\<lambda>_.
         seq (UnlinkOrMissing k (lp_recovery_lock_name paths)) (\<lambda>gone.
           if \<not> gone then ret ro_kManualActionRequired
           else seq (SyncLinuxDirectory k) (\<lambda>_. ret ro_kRecovered))))"

definition RecoverSwap ::
    "LinuxKernel \<Rightarrow> LinuxInstallPayloadVerifier \<Rightarrow> LinuxTransactionPaths \<Rightarrow> LinuxVerifiedPayloadIdentity \<Rightarrow>
     LinuxTransactionJournal \<Rightarrow> LinuxRecoveryOutcome action" where
  "RecoverSwap k V paths expected journal =
     seq (Observe k paths (lj_original_stage_name journal)) (\<lambda>ob.
       if \<not> CompatibleObservation (lj_state journal) ob then ret ro_kManualActionRequired
       else
         seq (ObservationVerified k V paths journal ob) (\<lambda>verified.
           if \<not> verified then ret ro_kManualActionRequired
           else
             seq (RecoverPrepareRename k V paths expected journal ob) (\<lambda>state. case state of
                 None \<Rightarrow> ret ro_kManualActionRequired
               | Some (journal, ob) \<Rightarrow>
             seq (RecoverBackupRename k paths journal ob) (\<lambda>state. case state of
                 None \<Rightarrow> ret ro_kManualActionRequired
               | Some (journal, ob) \<Rightarrow>
             seq (RecoverActivationRename k V paths expected journal ob) (\<lambda>state. case state of
                 None \<Rightarrow> ret ro_kManualActionRequired
               | Some (journal, ob) \<Rightarrow>
             seq (TargetVerified k V paths expected journal ob) (\<lambda>verified.
               if \<not> verified then ret ro_kManualActionRequired else RecoverCleanup k paths journal ob))))))"

definition Recover ::
    "LinuxKernel \<Rightarrow> LinuxInstallPayloadVerifier \<Rightarrow> LinuxTransactionPaths \<Rightarrow> LinuxVerifiedPayloadIdentity \<Rightarrow>
     (32 word \<Rightarrow> 64 word \<Rightarrow> bool) \<Rightarrow> LinuxRecoveryOutcome action" where
  "Recover k V paths expected alive =
     catching
       (seq (call k (mount_error ''directory component pin failed'') (\<lambda>_. ret ())) (\<lambda>_.
        seq (HasAmbiguousNext k paths) (\<lambda>ambiguous.
          if ambiguous then ret ro_kManualActionRequired
          else
            seq (Load k paths) (\<lambda>loaded. case loaded of
                None \<Rightarrow> RecoverOrphanLock k paths alive
              | Some journal \<Rightarrow>
                  seq (TakeOwnership k paths expected alive journal) (\<lambda>stopped. case stopped of
                      Some outcome \<Rightarrow> ret outcome
                    | None \<Rightarrow> RecoverSwap k V paths expected journal)))))
       ro_kManualActionRequired"

end
