(* ===== verification/Linux_Progress.thy ===== *)
theory Linux_Progress
  imports Linux_Recovery
begin

text \<open>
  What a Linux transaction and its recovery do when no call fails: every operation evaluated, one lemma per
  operation and phase, and from them that an installation completes.
\<close>

section \<open>Kernels that let everything through\<close>

definition undisturbed :: "LinuxKernel \<Rightarrow> bool" where
  "undisturbed k \<longleftrightarrow> steady k \<and> (\<forall>p n. kn_hit k p n = Proceeds) \<and> (\<forall>n. kn_flock k n) \<and>
     (\<forall>n. \<not> id_directory (kn_created k n) \<and> and (id_mode (kn_created k n)) S_IFMT = S_IFREG)"

definition tick :: "LinuxWorld \<Rightarrow> LinuxWorld" where
  "tick w = w\<lparr>lw_clock := Suc (lw_clock w)\<rparr>"

lemma tick_simps [simp]:
  "lw_entries (tick w) = lw_entries w" "lw_parent (tick w) = lw_parent w" "lw_journal (tick w) = lw_journal w"
  "lw_lock_held (tick w) = lw_lock_held w" "lw_journal_persisted (tick w) = lw_journal_persisted w"
  "lw_execution_started (tick w) = lw_execution_started w" "lw_clock (tick w) = Suc (lw_clock w)"
  "tick (set_entry l n w) = set_entry l n (tick w)" "(tick w)\<lparr>lw_clock := c\<rparr> = w\<lparr>lw_clock := c\<rparr>"
  by (simp_all add: tick_def)

named_theorems steps \<open>evaluation of the operations under an undisturbed kernel\<close>

declare seq_def [simp]

lemma statement_steps [simp]:
  "ret x w = (Returned x, w)" "throwing e w = (Threw e, w)" "reading f w = (Returned (f w), w)"
  "update g w = (Returned (), g w)" "require True e w = (Returned (), w)" "require False e w = (Threw e, w)"
  "lift (Inr x) w = (Returned x, w)" "lift (Inl e) w = (Threw e, w)"
  by (simp_all add: action_defs)

lemma call_ok [steps]: "undisturbed k \<Longrightarrow> call k e body w = body (lw_clock w) (tick w)"
  by (simp add: call_def undisturbed_def steady_def tick_def Let_def)

lemma Hit_ok [steps]: "undisturbed k \<Longrightarrow> Hit k p w = (Returned (), tick w)"
  by (simp add: Hit_def undisturbed_def tick_def Let_def)

lemma Flush_ok [steps]: "undisturbed k \<Longrightarrow> Flush k e w = (Returned (), tick w)"
  by (simp add: Flush_def call_ok)

lemma Sync_ok [steps]: "undisturbed k \<Longrightarrow> SyncLinuxDirectory k w = (Returned (), tick w)"
  by (simp add: SyncLinuxDirectory_def Flush_ok)

lemma Flock_ok [steps]: "undisturbed k \<Longrightarrow> Flock k w = (Returned True, tick w)"
  by (simp add: Flock_def undisturbed_def steady_def tick_def Let_def)

lemma exists_ok [steps]:
  "undisturbed k \<Longrightarrow> is_leaf l \<Longrightarrow> LinuxRelativeExistsNoFollow k l w = (Returned (lw_entries w l \<noteq> None), tick w)"
  by (simp add: LinuxRelativeExistsNoFollow_def ValidateLinuxLeaf_iff call_ok)

lemma open_ok [steps]:
  "undisturbed k \<Longrightarrow> is_leaf l \<Longrightarrow> lw_entries w l = Some node \<Longrightarrow> \<not> is_symlink node \<Longrightarrow>
     OpenLinuxRelativeNoFollow k l w = (Returned node, tick w)"
  by (simp add: OpenLinuxRelativeNoFollow_def ValidateLinuxLeaf_iff call_ok)

lemma read_identity_ok [steps]:
  "undisturbed k \<Longrightarrow> is_leaf l \<Longrightarrow> lw_entries w l = Some node \<Longrightarrow> \<not> is_symlink node \<Longrightarrow>
     ReadLinuxRelativeIdentity k l w = (Returned (node_identity node), tick w)"
  by (simp add: ReadLinuxRelativeIdentity_def open_ok)

lemma create_ok [steps]:
  "undisturbed k \<Longrightarrow> is_leaf l \<Longrightarrow> lw_entries w l = None \<Longrightarrow>
     CreateExclusive k l w = (Returned (), set_entry l (Some (LinuxNode (kn_created k (lw_clock w)) [] [])) (tick w))"
  by (simp add: CreateExclusive_def ValidateLinuxLeaf_iff call_ok)

lemma write_ok [steps]:
  "undisturbed k \<Longrightarrow> lw_entries w l = Some node \<Longrightarrow>
     WriteAll k e l s w = (Returned (), set_entry l (Some (LinuxNode (node_identity node) s (node_entries node))) (tick w))"
  by (simp add: WriteAll_def undisturbed_def steady_def Let_def write_bytes_def tick_def)

lemma unlink_ok [steps]:
  "undisturbed k \<Longrightarrow> lw_entries w l = Some node \<Longrightarrow> \<not> is_directory node \<Longrightarrow>
     Unlink k l w = (Returned True, set_entry l None (tick w))"
  by (simp add: Unlink_def undisturbed_def steady_def Let_def tick_def)

lemma rename_ok [steps]:
  assumes "undisturbed k" "is_leaf a" "is_leaf b" "lw_entries w a = Some node" "lw_entries w b = None"
  shows "RenameLinuxRelative k a b replace w = (Returned (), set_entry b (Some (retime k (lw_clock w) node)) (set_entry a None (tick w)))"
  using assms by (simp add: RenameLinuxRelative_def ValidateLinuxLeaf_iff call_ok)

lemma rename_over_ok [steps]:
  assumes "undisturbed k" "is_leaf a" "is_leaf b" "a \<noteq> b" "lw_entries w a = Some node" "lw_entries w b = Some old"
    and "may_replace node old"
  shows "RenameLinuxRelative k a b True w = (Returned (), set_entry b (Some (retime k (lw_clock w) node)) (set_entry a None (tick w)))"
  using assms by (simp add: RenameLinuxRelative_def ValidateLinuxLeaf_iff call_ok)

lemma read_text_ok [steps]:
  assumes "undisturbed k" "is_leaf l" "lw_entries w l = Some node" "\<not> is_symlink node" "\<not> is_directory node"
    and "length (node_bytes node) \<le> limit"
  shows "ReadLinuxRelativeUtf8 k l limit w = (Returned (node_bytes node), tick (tick w))"
  using assms by (simp add: ReadLinuxRelativeUtf8_def open_ok call_ok)

lemma Verify_ok [steps]:
  "undisturbed k \<Longrightarrow> vf_Verify V (lw_entries w) l = Inr i \<Longrightarrow> Verify k V l w = (Returned i, tick w)"
  by (simp add: Verify_def call_ok)

lemma parent_ok [steps]:
  "undisturbed k \<Longrightarrow> HasStableLinuxIdentity (lw_parent w) (mg_parent (ft_mount_guard tx)) \<Longrightarrow>
     ValidateParentLocator k tx w = (Returned (), tick w)"
  by (simp add: ValidateParentLocator_def call_ok)

lemma identity_ok [steps]:
  assumes "undisturbed k" "is_leaf l" "lw_entries w l = Some node" "\<not> is_symlink node" "HasExactLinuxIdentity (node_identity node) i"
  shows "ValidateRelativeIdentity k l i detail w = (Returned (), tick (tick w))"
  using assms by (simp add: ValidateRelativeIdentity_def steps)

lemma payload_ok [steps]:
  "undisturbed k \<Longrightarrow> vf_Verify V (lw_entries w) l = Inr (ft_expected_payload_identity tx) \<Longrightarrow>
     VerifyPayload k V tx l w = (Returned (), tick w)"
  by (simp add: VerifyPayload_def steps)

lemma exact_refl [simp]: "HasExactLinuxIdentity i i" "SameLinuxIdentity i i"
  by (simp_all add: HasExactLinuxIdentity_def SameLinuxIdentity_def)

section \<open>Journal files\<close>

text \<open>An entry that, if it is there, is a file and no link.\<close>

definition plain_file :: "LinuxNode \<Rightarrow> bool" where
  "plain_file node \<longleftrightarrow> \<not> is_directory node \<and> \<not> is_symlink node"

lemma created_plain: "undisturbed k \<Longrightarrow> node_identity node = kn_created k n \<Longrightarrow> plain_file node"
  by (simp add: undisturbed_def plain_file_def is_directory_def is_symlink_def S_IFREG_def S_IFLNK_def)

definition tidy :: "LinuxTransactionPaths \<Rightarrow> linux_entries \<Rightarrow> bool" where
  "tidy paths entries \<longleftrightarrow> entries (lp_journal_next_name paths) = None \<and>
     (\<forall>node. entries (lp_journal_name paths) = Some node \<longrightarrow> plain_file node) \<and>
     (\<forall>node. entries (lp_lock_name paths) = Some node \<longrightarrow> plain_file node)"

abbreviation leaves :: "LinuxTransactionPaths \<Rightarrow> bool" where
  "leaves paths \<equiv> list_all is_leaf [lp_target_name paths, lp_prepared_name paths, lp_backup_name paths, lp_journal_name paths,
     lp_journal_next_name paths, lp_lock_name paths, lp_recovery_lock_name paths]"

text \<open>The names of one transaction and its stage differ.\<close>

definition transaction_names :: "LinuxTransactionPaths \<Rightarrow> string \<Rightarrow> bool" where
  "transaction_names paths stage \<longleftrightarrow> distinct [stage, lp_target_name paths, lp_prepared_name paths,
     lp_backup_name paths, lp_journal_name paths, lp_journal_next_name paths, lp_lock_name paths,
     lp_recovery_lock_name paths]"

lemma Persist_ok:
  assumes k: "undisturbed k" and paths: "leaves paths" "lp_journal_next_name paths \<noteq> lp_journal_name paths"
    "lp_journal_next_name paths \<noteq> lp_lock_name paths" and tidy: "tidy paths (lw_entries w)"
  shows "\<exists>node c. Persist k paths j w = (Returned (), set_entry (lp_journal_name paths) (Some node) (w\<lparr>lw_clock := c\<rparr>)) \<and>
     plain_file node \<and> node_bytes node = EncodeJournal j"
proof -
  let ?N = "lp_journal_next_name paths" and ?J = "lp_journal_name paths"
  define new where "new = LinuxNode (kn_created k (Suc (Suc (lw_clock w)))) (EncodeJournal j) []"
  have new: "plain_file new" "\<not> is_directory new" using created_plain [OF k] by (simp_all add: new_def plain_file_def)
  have old: "may_replace (LinuxNode (kn_created k (Suc (Suc (lw_clock w)))) (EncodeJournal j) []) node"
    if "lw_entries w ?J = Some node" for node
    using tidy new that by (auto simp: tidy_def plain_file_def may_replace_def new_def)
  have next_free: "lw_entries w ?N = None" using tidy by (simp add: tidy_def)
  have leaf: "is_leaf ?N" "is_leaf ?J" using paths(1) by simp_all
  have idem: "set_entry ?N None (w\<lparr>lw_clock := c\<rparr>) = w\<lparr>lw_clock := c\<rparr>" for c
    using next_free by (simp add: set_entry_def fun_upd_idem)
  let ?node = "retime k (lw_clock w + 8) new"
  have "Persist k paths j w = (Returned (), set_entry ?J (Some ?node) (w\<lparr>lw_clock := lw_clock w + 12\<rparr>))"
    unfolding Persist_def
    by (cases "lw_entries w ?J")
      (simp_all add: steps k leaf paths(2) paths(2) [symmetric] next_free old,
       simp_all add: tick_def new_def idem eval_nat_numeral)
  moreover have "plain_file ?node \<and> node_bytes ?node = EncodeJournal j" using new by (simp add: plain_file_def) (simp add: new_def)
  ultimately show ?thesis by blast
qed

lemma RemoveJournal_ok:
  assumes k: "undisturbed k" and leaf: "is_leaf (lp_journal_name paths)" "is_leaf (lp_lock_name paths)"
    and names: "lp_journal_name paths \<noteq> lp_lock_name paths" and tidy: "tidy paths (lw_entries w)"
  shows "\<exists>c. RemoveJournal k paths w =
     (Returned (), set_entry (lp_lock_name paths) None (set_entry (lp_journal_name paths) None (w\<lparr>lw_clock := c\<rparr>)))"
proof -
  have unlink: "\<exists>c. UnlinkIfExists k l detail w = (Returned (), set_entry l None (w\<lparr>lw_clock := c\<rparr>))"
    if "is_leaf l" "\<And>node. lw_entries w l = Some node \<Longrightarrow> plain_file node" for l detail w
  proof (cases "lw_entries w l")
    case None
    then have "UnlinkIfExists k l detail w = (Returned (), set_entry l None (w\<lparr>lw_clock := Suc (lw_clock w)\<rparr>))"
      using that(1) by (simp add: UnlinkIfExists_def steps k tick_def set_entry_def fun_upd_idem)
    then show ?thesis by blast
  next
    case (Some node)
    then have "\<not> is_directory node" using that(2) by (simp add: plain_file_def)
    then have "UnlinkIfExists k l detail w = (Returned (), set_entry l None (w\<lparr>lw_clock := Suc (Suc (lw_clock w))\<rparr>))"
      using that(1) Some by (simp add: UnlinkIfExists_def steps k tick_def)
    then show ?thesis by blast
  qed
  obtain c where 1: "UnlinkIfExists k (lp_journal_name paths) ''journal unlink failed'' w =
      (Returned (), set_entry (lp_journal_name paths) None (w\<lparr>lw_clock := c\<rparr>))"
    using unlink [OF leaf(1)] tidy unfolding tidy_def by blast
  let ?w1 = "set_entry (lp_journal_name paths) None (w\<lparr>lw_clock := c\<rparr>)"
  obtain d where 2: "UnlinkIfExists k (lp_lock_name paths) ''transaction lock unlink failed'' ?w1 =
      (Returned (), set_entry (lp_lock_name paths) None (?w1\<lparr>lw_clock := d\<rparr>))"
    using unlink [OF leaf(2), of ?w1 "''transaction lock unlink failed''"] tidy names unfolding tidy_def by auto
  have "RemoveJournal k paths w =
      (Returned (), set_entry (lp_lock_name paths) None (set_entry (lp_journal_name paths) None (w\<lparr>lw_clock := Suc d\<rparr>)))"
    unfolding RemoveJournal_def by (simp add: 1 2 steps k tick_def)
  then show ?thesis by blast
qed

section \<open>Cleanup\<close>

definition removable :: "string \<Rightarrow> LinuxFileIdentity \<Rightarrow> LinuxNode \<Rightarrow> bool" where
  "removable l parent node \<longleftrightarrow> wf_tree node \<and> \<not> is_symlink node \<and> id_directory parent \<and>
     id_device parent = id_device (node_identity node) \<and> id_mount_id parent = id_mount_id (node_identity node) \<and>
     (\<exists>m b. BuildCleanupManifest node l (node_identity node) 0 fresh_budget False = Inr (m, b))"

lemma RemoveTree_ok:
  assumes k: "undisturbed k" and leaf: "is_leaf l" and node: "lw_entries w l = Some node" "removable l (lw_parent w) node"
    and same: "SameLinuxIdentity (node_identity node) expected"
  shows "\<exists>c. RemoveLinuxTreeExact k l expected w = (Returned (), set_entry l None (w\<lparr>lw_clock := c\<rparr>))"
proof -
  obtain m b where built: "BuildCleanupManifest node l (node_identity node) 0 fresh_budget False = Inr (m, b)"
    and wf: "wf_tree node" "\<not> is_symlink node" using node(2) unfolding removable_def by blast
  have policy: "RequireCleanupNodePolicy (node_identity node) (node_identity node) = Inr ()"
    using built unfolding BuildCleanupManifest.simps [of node] by (auto simp: bindE_Inr_iff)
  have pre: "CleanupPreflight k l expected w = (Returned (node_identity node, m), tick (tick w))"
    unfolding CleanupPreflight_def using node(2)
    by (simp add: steps k leaf node(1) wf same policy built removable_def)
  have "steady k" using k by (simp add: undisturbed_def)
  from remove_total(1) [OF built wf leaf this]
  have run: "runs (\<lambda>w. lw_entries w l = Some node) (RemoveCleanupManifestNode k (node_identity node) m)
      (\<lambda>_ w. lw_entries w l = None) (\<lambda>_. False)" .
  obtain r w1 where w1: "RemoveCleanupManifestNode k (node_identity node) m (tick (tick w)) = (r, w1)"
    by (cases "RemoveCleanupManifestNode k (node_identity node) m (tick (tick w))")
  have gone: "r = Returned ()" "lw_entries w1 l = None"
    using runsD [OF run _ w1] node(1) by (cases r, simp_all)+
  obtain c n where "w1 = set_entry l n ((tick (tick w))\<lparr>lw_clock := c\<rparr>)"
    using confined_remove(1) [of m k "node_identity node"] Build_name [OF built] w1 unfolding confined_def by (metis snd_conv)
  with gone(2) have w1': "w1 = set_entry l None (w\<lparr>lw_clock := c\<rparr>)" by simp
  have "RemoveLinuxTreeExact k l expected w = (Returned (), set_entry l None (w\<lparr>lw_clock := Suc c\<rparr>))"
    unfolding RemoveLinuxTreeExact_def by (simp add: pre w1 gone(1) steps k) (simp add: w1' tick_def)
  then show ?thesis by blast
qed

section \<open>The phases of a transaction\<close>

text \<open>The parent and the four entries that a transaction moves, with nothing in its way.\<close>

definition standing ::
    "LinuxTransactionPaths \<Rightarrow> string \<Rightarrow> LinuxFileIdentity \<Rightarrow> LinuxNode option \<Rightarrow> LinuxNode option \<Rightarrow> LinuxNode option \<Rightarrow>
     LinuxNode option \<Rightarrow> LinuxWorld \<Rightarrow> bool" where
  "standing paths stage parent s t p b w \<longleftrightarrow> lw_parent w = parent \<and> lw_entries w stage = s \<and> lw_entries w (lp_target_name paths) = t \<and>
     lw_entries w (lp_prepared_name paths) = p \<and> lw_entries w (lp_backup_name paths) = b \<and> tidy paths (lw_entries w)"

definition journal_stored :: "LinuxTransactionPaths \<Rightarrow> LinuxTransactionJournal \<Rightarrow> LinuxWorld \<Rightarrow> bool" where
  "journal_stored paths j w \<longleftrightarrow> (\<exists>node. lw_entries w (lp_journal_name paths) = Some node \<and> plain_file node \<and> node_bytes node = EncodeJournal j)"

lemma standing_tick [simp]:
  "standing paths stage parent s t p b (tick w) = standing paths stage parent s t p b w"
  "standing paths stage parent s t p b (w\<lparr>lw_clock := c\<rparr>) = standing paths stage parent s t p b w"
  by (simp_all add: standing_def)

lemma Persist_standing:
  assumes k: "undisturbed k" and names: "transaction_names paths stage" "leaves paths" and st: "standing paths stage parent s t p b w"
  shows "\<exists>w'. Persist k paths j w = (Returned (), w') \<and> standing paths stage parent s t p b w' \<and> journal_stored paths j w' \<and>
     lw_entries w' (lp_lock_name paths) = lw_entries w (lp_lock_name paths)"
proof -
  have "lp_journal_next_name paths \<noteq> lp_journal_name paths" "lp_journal_next_name paths \<noteq> lp_lock_name paths" "tidy paths (lw_entries w)"
    using names(1) st by (auto simp: transaction_names_def standing_def)
  from Persist_ok [OF k names(2) this, of j] obtain node c where
    run: "Persist k paths j w = (Returned (), set_entry (lp_journal_name paths) (Some node) (w\<lparr>lw_clock := c\<rparr>))"
    and node: "plain_file node" "node_bytes node = EncodeJournal j" by blast
  have "standing paths stage parent s t p b (set_entry (lp_journal_name paths) (Some node) (w\<lparr>lw_clock := c\<rparr>))"
    using st names(1) node(1) by (auto simp: standing_def tidy_def transaction_names_def)
  moreover have "journal_stored paths j (set_entry (lp_journal_name paths) (Some node) (w\<lparr>lw_clock := c\<rparr>))"
    using node by (simp add: journal_stored_def)
  ultimately show ?thesis using run names(1) by (auto simp: transaction_names_def)
qed

text \<open>Both ways to move an entry, as in the transaction and in the recovery.\<close>

lemma standing_moves:
  assumes "transaction_names paths stage"
  shows "standing paths stage parent (Some n) t None b w \<Longrightarrow>
      standing paths stage parent None t (Some n') b (set_entry (lp_prepared_name paths) (Some n') (set_entry stage None w))"
    and "standing paths stage parent s (Some n) p None w \<Longrightarrow>
      standing paths stage parent s None p (Some n') (set_entry (lp_backup_name paths) (Some n') (set_entry (lp_target_name paths) None w))"
    and "standing paths stage parent s None (Some n) b w \<Longrightarrow>
      standing paths stage parent s (Some n') None b (set_entry (lp_target_name paths) (Some n') (set_entry (lp_prepared_name paths) None w))"
  using assms by (auto simp: standing_def tidy_def transaction_names_def)

lemma standing_entries:
  "standing paths stage parent s t p b w \<Longrightarrow> lw_entries w stage = s \<and> lw_entries w (lp_target_name paths) = t \<and>
     lw_entries w (lp_prepared_name paths) = p \<and> lw_entries w (lp_backup_name paths) = b \<and> lw_parent w = parent"
  by (simp add: standing_def)

text \<open>Giving the activated root its final permissions leaves everything else.\<close>

lemma final_mode_kind: "and (final_mode m a) S_IFMT = and m S_IFMT"
proof -
  have "and (and m S_IFMT) S_IFMT = and m S_IFMT" "and (and a 0x1FF) S_IFMT = 0"
    by (simp_all add: and.assoc S_IFMT_def)
  then show ?thesis by (simp add: final_mode_def bit.conj_disj_distrib2)
qed

lemma set_mode_facts:
  "content (set_mode k c mode n) = content n" "is_directory (set_mode k c mode n) = is_directory n"
  "is_symlink (set_mode k c mode n) = is_symlink n"
  "SameIdentityExceptMode (node_identity (set_mode k c mode n)) (node_identity n)"
  "id_mode (node_identity (set_mode k c mode n)) = final_mode (id_mode (node_identity n)) mode"
  by (simp_all add: set_mode_def content_def is_directory_def is_symlink_def SameIdentityExceptMode_def retime_def final_mode_kind)

text \<open>The setting of a transaction: its names, an undisturbed kernel, and a verifier that accepts the content of the stage.\<close>

definition accepts ::
    "LinuxInstallPayloadVerifier \<Rightarrow> LinuxVerifiedPayloadIdentity \<Rightarrow> LinuxNode \<Rightarrow> bool" where
  "accepts V expected node \<longleftrightarrow>
     (\<forall>entries l. map_option content (entries l) = Some (content node) \<longrightarrow> vf_Verify V entries l = Inr expected)"

lemma acceptsD: "accepts V expected node \<Longrightarrow> entries l = Some node' \<Longrightarrow> content node' = content node \<Longrightarrow> vf_Verify V entries l = Inr expected"
  unfolding accepts_def by auto

definition persisted :: "LinuxKernel \<Rightarrow> LinuxTransactionPaths \<Rightarrow> LinuxTransactionJournal \<Rightarrow> LinuxWorld \<Rightarrow> LinuxWorld" where
  "persisted k paths j w = snd (Persist k paths j w)"

definition undisturbed_transaction ::
    "LinuxKernel \<Rightarrow> LinuxFileTransaction \<Rightarrow> LinuxTransactionPaths \<Rightarrow> string \<Rightarrow> LinuxFileIdentity \<Rightarrow> bool" where
  "undisturbed_transaction k tx paths stage parent \<longleftrightarrow> undisturbed k \<and> transaction_names paths stage \<and> leaves paths \<and> is_leaf stage \<and>
     ft_paths tx = paths \<and> ft_stage_name tx = stage \<and> HasStableLinuxIdentity parent (mg_parent (ft_mount_guard tx))"

lemma transactionD:
  assumes "undisturbed_transaction k tx paths stage parent"
  shows "undisturbed k" "transaction_names paths stage" "leaves paths" "ft_paths tx = paths" "ft_stage_name tx = stage"
    "HasStableLinuxIdentity parent (mg_parent (ft_mount_guard tx))" "is_leaf stage" "is_leaf (lp_target_name paths)"
    "is_leaf (lp_prepared_name paths)" "is_leaf (lp_backup_name paths)" "is_leaf (lp_journal_name paths)"
    "is_leaf (lp_lock_name paths)" "is_leaf (lp_journal_next_name paths)"
  using assms by (simp_all add: undisturbed_transaction_def)

lemma persist:
  assumes "undisturbed k" "transaction_names paths stage" "leaves paths" "tidy paths (lw_entries w)"
  shows "Persist k paths j w = (Returned (), persisted k paths j w)"
  using Persist_ok [OF assms(1,3), of w j] assms(2,4) by (auto simp: persisted_def transaction_names_def)

lemma standing_persisted:
  "undisturbed k \<Longrightarrow> transaction_names paths stage \<Longrightarrow> leaves paths \<Longrightarrow> standing paths stage parent s t p b w \<Longrightarrow>
     standing paths stage parent s t p b (persisted k paths j w) \<and> journal_stored paths j (persisted k paths j w)"
  using Persist_standing [of k paths stage parent s t p b w j] by (auto simp: persisted_def)

lemma tidy_moves:
  "transaction_names paths stage \<Longrightarrow> l \<in> {stage, lp_target_name paths, lp_prepared_name paths, lp_backup_name paths} \<Longrightarrow> tidy paths (entries(l := x)) = tidy paths entries"
  by (auto simp: tidy_def transaction_names_def)

lemma prepare_rename:
  assumes S: "undisturbed_transaction k tx paths stage parent" and st: "standing paths stage parent (Some n) t None b w"
    and n: "\<not> is_symlink n" "HasExactLinuxIdentity (node_identity n) (lj_stage_identity j)"
  shows "\<exists>w' c. ExecutePrepareRename k tx j w = (Returned (j\<lparr>lj_stage_identity := node_identity (retime k c n)\<rparr>), w') \<and>
     standing paths stage parent None t (Some (retime k c n)) b w'"
proof -
  note S = transactionD [OF S]
  note names = S(2) and persist = persist [OF S(1-3)]
  let ?n = "retime k (lw_clock w + 4) n"
  let ?j = "j\<lparr>lj_stage_identity := node_identity (?n)\<rparr>"
  let ?w = "set_entry (lp_prepared_name paths) (Some ?n) (set_entry stage None ((tick ^^ 8) w))"
  have "ExecutePrepareRename k tx j w = (Returned ?j, tick (persisted k paths ?j ?w))"
    unfolding ExecutePrepareRename_def using n standing_entries [OF st] names
    by (simp add: steps S persist tidy_moves [OF names] transaction_names_def st [unfolded standing_def] eval_nat_numeral)
  moreover have "standing paths stage parent None t (Some ?n) b ?w"
    by (rule standing_moves(1) [where n = n, OF names]) (simp add: eval_nat_numeral st)
  ultimately show ?thesis using standing_persisted [OF S(1-3)] by (metis standing_tick(1))
qed

lemma backup_rename:
  assumes S: "undisturbed_transaction k tx paths stage parent" and st: "standing paths stage parent None (Some n) (Some q) None w"
    and n: "\<not> is_symlink n" "HasExactLinuxIdentity (node_identity n) (lj_target_identity j)"
    and q: "\<not> is_symlink q" "HasExactLinuxIdentity (node_identity q) (lj_stage_identity j)" "accepts V (ft_expected_payload_identity tx) q"
  shows "\<exists>w' c. ExecuteBackupRename k V tx j w = (Returned (j\<lparr>lj_target_identity := node_identity (retime k c n), lj_state := lt_kBackupCreated\<rparr>), w') \<and>
     standing paths stage parent None None (Some q) (Some (retime k c n)) w'"
proof -
  note S = transactionD [OF S]
  note names = S(2) and persist = persist [OF S(1-3)]
  let ?n = "retime k (lw_clock w + 7) n"
  let ?j = "j\<lparr>lj_target_identity := node_identity (?n), lj_state := lt_kBackupCreated\<rparr>"
  let ?w = "set_entry (lp_backup_name paths) (Some ?n) (set_entry (lp_target_name paths) None ((tick ^^ 11) w))"
  have "ExecuteBackupRename k V tx j w = (Returned ?j, tick (persisted k paths ?j ?w))"
    unfolding ExecuteBackupRename_def using n q standing_entries [OF st] names
    by (simp add: steps S persist tidy_moves [OF names] transaction_names_def acceptsD [OF q(3)] st [unfolded standing_def] eval_nat_numeral)
  moreover have "standing paths stage parent None None (Some q) (Some ?n) ?w"
    by (rule standing_moves(2) [where n = n, OF names]) (simp add: eval_nat_numeral st)
  ultimately show ?thesis using standing_persisted [OF S(1-3)] by (metis standing_tick(1))
qed

lemma activation_rename:
  assumes S: "undisturbed_transaction k tx paths stage parent" and st: "standing paths stage parent None None (Some n) (Some q) w"
    and n: "\<not> is_symlink n" "HasExactLinuxIdentity (node_identity n) (lj_stage_identity j)" "accepts V (ft_expected_payload_identity tx) n"
    and q: "\<not> is_symlink q" "HasExactLinuxIdentity (node_identity q) (lj_target_identity j)"
  shows "\<exists>w' c. ExecuteActivationRename k V tx j w = (Returned (j\<lparr>lj_stage_identity := node_identity (retime k c n), lj_state := lt_kTargetActivated\<rparr>), w') \<and>
     standing paths stage parent None (Some (retime k c n)) None (Some q) w'"
proof -
  note S = transactionD [OF S]
  note names = S(2) and persist = persist [OF S(1-3)]
  let ?n = "retime k (lw_clock w + 7) n"
  let ?j = "j\<lparr>lj_stage_identity := node_identity (?n), lj_state := lt_kTargetActivated\<rparr>"
  let ?w = "set_entry (lp_target_name paths) (Some ?n) (set_entry (lp_prepared_name paths) None ((tick ^^ 11) w))"
  have "ExecuteActivationRename k V tx j w = (Returned ?j, tick (persisted k paths ?j ?w))"
    unfolding ExecuteActivationRename_def using n q standing_entries [OF st] names
    by (simp add: steps S persist tidy_moves [OF names] transaction_names_def acceptsD [OF n(3)] st [unfolded standing_def] eval_nat_numeral)
  moreover have "standing paths stage parent None (Some ?n) None (Some q) ?w"
    by (rule standing_moves(3) [where n = n, OF names]) (simp add: eval_nat_numeral st)
  ultimately show ?thesis using standing_persisted [OF S(1-3)] by (metis standing_tick(1))
qed

lemma finish:
  assumes S: "undisturbed_transaction k tx paths stage parent" and st: "standing paths stage parent None (Some n) None (Some q) w"
    and V: "V = archive_verifier mode check" and n: "is_directory n" "\<not> is_symlink n" "lj_stage_identity j = node_identity n"
    "accepts V (ft_expected_payload_identity tx) n"
    and q: "removable (lp_backup_name paths) parent q" "SameLinuxIdentity (node_identity q) (lj_target_identity j)"
  shows "\<exists>w' n'. ExecuteFinish k V tx j w = (Returned (), w') \<and> standing paths stage parent None (Some n') None None w' \<and>
     content n' = content n \<and> lw_entries w' (lp_journal_name paths) = None \<and> lw_entries w' (lp_lock_name paths) = None"
proof -
  note S = transactionD [OF S]
  note names = S(2) and persist = persist [OF S(1-3)]
  let ?n = "set_mode k (Suc (Suc (Suc (Suc (lw_clock w))))) mode n"
  let ?j = "j\<lparr>lj_state := lt_kCompleted\<rparr>"
  have matches: "LinuxArchiveActivatedRootMatches mode k (lp_target_name paths) (node_identity n) v = (Returned True, tick (tick v))"
    if shown: "lw_entries v (lp_target_name paths) = Some n \<or> lw_entries v (lp_target_name paths) = Some ?n" for v
  proof -
    obtain m where m: "lw_entries v (lp_target_name paths) = Some m" "m = n \<or> m = ?n" using shown by blast
    then have "\<not> is_symlink m" "SameIdentityExceptMode (node_identity m) (node_identity n)"
      "id_mode (node_identity m) \<in> {id_mode (node_identity n), final_mode (id_mode (node_identity n)) mode}"
      using n(2) by (auto simp: set_mode_facts) (simp add: SameIdentityExceptMode_def)
    then show ?thesis using m(1) by (simp add: LinuxArchiveActivatedRootMatches_def steps S)
  qed
  have target: "lw_entries w (lp_target_name paths) = Some n" using st by (simp add: standing_def)
  let ?w1 = "set_entry (lp_target_name paths) (Some ?n) (tick (tick (tick (tick (tick (tick (tick (tick (tick (tick (tick (tick w))))))))))))"
  have st1: "standing paths stage parent None (Some ?n) None (Some q) ?w1"
    using st names by (auto simp: standing_def tidy_def transaction_names_def)
  note st2 = conjunct1 [OF standing_persisted [OF S(1-3) st1, of ?j]]
  let ?w2 = "persisted k paths ?j ?w1"
  obtain c where tree: "RemoveLinuxTreeExact k (lp_backup_name paths) (lj_target_identity j) ?w2 =
      (Returned (), set_entry (lp_backup_name paths) None (?w2\<lparr>lw_clock := c\<rparr>))"
    using RemoveTree_ok [OF S(1,10), of ?w2 q "lj_target_identity j"] st2 q unfolding standing_def by auto
  let ?w3 = "set_entry (lp_backup_name paths) None (?w2\<lparr>lw_clock := c\<rparr>)"
  have st3: "standing paths stage parent None (Some ?n) None None ?w3"
    using st2 names by (auto simp: standing_def tidy_def transaction_names_def)
  have differ: "lp_journal_name paths \<noteq> lp_lock_name paths" "tidy paths (lw_entries ?w3)"
    using names st3 unfolding transaction_names_def standing_def by auto
  from RemoveJournal_ok [OF S(1,11,12) this] obtain d where
    over: "RemoveJournal k paths ?w3 =
      (Returned (), set_entry (lp_lock_name paths) None (set_entry (lp_journal_name paths) None (?w3\<lparr>lw_clock := d\<rparr>)))" by blast
  let ?w4 = "set_entry (lp_lock_name paths) None (set_entry (lp_journal_name paths) None (?w3\<lparr>lw_clock := d\<rparr>))"
  have checked: "check entries l = Inr (ft_expected_payload_identity tx)" if "entries l = Some m" "content m = content n" for entries l m
    using acceptsD [OF n(4), of entries l m] that by (simp add: V archive_verifier_def)
  have "ExecuteFinish k V tx j w = (Returned (), ?w4)"
    unfolding ExecuteFinish_def using standing_entries [OF st] n names
    by (simp add: steps S persist tidy_moves [OF names] transaction_names_def st [unfolded standing_def] V archive_verifier_def
        FinalizeLinuxArchiveActivatedRoot_def matches checked set_mode_facts tree over)
  moreover have "standing paths stage parent None (Some ?n) None None ?w4"
    using st3 names by (auto simp: standing_def tidy_def transaction_names_def)
  ultimately show ?thesis using differ(1) by (intro exI [of _ ?w4] exI [of _ ?n]) (simp add: set_mode_facts)
qed

end
