(* ===== verification/Linux_Completion.thy ===== *)
theory Linux_Completion
  imports Linux_Progress
begin

text \<open>
  From the phases of \<open>Linux_Progress\<close>: an undisturbed installation completes, and a concrete one.
\<close>

section \<open>A whole installation\<close>

lemma retime_facts [simp]:
  "id_device (node_identity (retime k c n)) = id_device (node_identity n)"
  "id_mount_id (node_identity (retime k c n)) = id_mount_id (node_identity n)"
  "wf_tree (retime k c n) = wf_tree n"
  by (cases n; simp add: retime_def)+

lemma accepts_content: "content n = content m \<Longrightarrow> accepts V expected n = accepts V expected m"
  by (simp add: accepts_def)

text \<open>The walk looks at the device and mount of the root only.\<close>

lemma Build_root:
  assumes "id_device r' = id_device r" "id_mount_id r' = id_mount_id r"
  shows "BuildCleanupManifest node name r d b charged = BuildCleanupManifest node name r' d b charged"
    and "BuildCleanupChildren es names r d b = BuildCleanupChildren es names r' d b"
proof -
  have policy: "RequireCleanupNodePolicy i r = RequireCleanupNodePolicy i r'" for i
    using assms by (simp add: RequireCleanupNodePolicy_def)
  show "BuildCleanupManifest node name r d b charged = BuildCleanupManifest node name r' d b charged"
    and "BuildCleanupChildren es names r d b = BuildCleanupChildren es names r' d b"
    using assms
    by (induction node name r d b charged and es names r d b rule: BuildCleanupManifest_BuildCleanupChildren.induct)
      (auto simp: BuildCleanupManifest.simps [of node for node] bindE_def RequireCleanupNodePolicy_def split: sum.splits prod.splits)
qed

lemma removable_retime [simp]: "removable l parent (retime k c n) = removable l parent n"
proof -
  have policy: "RequireCleanupNodePolicy (node_identity (retime k c n)) r = RequireCleanupNodePolicy (node_identity n) r" for r
    by (simp add: RequireCleanupNodePolicy_def IsRegularFile_def retime_def)
  have "(\<exists>m b. BuildCleanupManifest (retime k c n) l (node_identity (retime k c n)) 0 fresh_budget False = Inr (m, b)) \<longleftrightarrow>
      (\<exists>m b. BuildCleanupManifest n l (node_identity n) 0 fresh_budget False = Inr (m, b))"
    unfolding Build_root(1) [of "node_identity n" "node_identity (retime k c n)", OF retime_facts(1,2) [symmetric]]
    by (cases "is_directory n") (auto simp: BuildCleanupManifest.simps [of "retime k c n"] BuildCleanupManifest.simps [of n] policy bindE_Inr_iff)
  then show ?thesis by (simp add: removable_def)
qed

lemma Execute_ok:
  assumes S: "undisturbed_transaction k tx paths stage parent" and st: "standing paths stage parent (Some s) (Some t) None None w"
    and fresh: "lw_journal w = None" "\<not> lw_execution_started w"
    and guard: "ft_mount_guard tx = \<lparr>mg_parent = parent, mg_target = node_identity t, mg_stage = node_identity s\<rparr>"
      "MakeLinuxMountGuard parent (node_identity t) (node_identity s) = Inr (ft_mount_guard tx)"
    and V: "V = archive_verifier mode check" "accepts V (ft_expected_payload_identity tx) s"
    and s: "is_directory s" "\<not> is_symlink s" and removable: "removable (lp_backup_name paths) parent t"
  shows "\<exists>w' n. Execute k V tx w = (Returned (), w') \<and> standing paths stage parent None (Some n) None None w' \<and>
     content n = content s \<and> lw_entries w' (lp_journal_name paths) = None \<and> lw_entries w' (lp_lock_name paths) = None"
proof -
  note T = transactionD [OF S]
  note names = T(2) and persist = persist [OF T(1-3)]
  let ?t = "((tick ^^ 8) w)\<lparr>lw_journal_persisted := True\<rparr>"
  let ?j = "first_journal tx"
  let ?w1 = "(persisted k paths ?j ?t)\<lparr>lw_journal := Some ?j\<rparr>"
  have valid: "ValidateMountGuard (ft_mount_guard tx) parent (node_identity t) (node_identity s) = Inr ()"
    using guard(2) by (auto simp: guard(1) MakeLinuxMountGuard_def ValidateMountGuard_def ValidateLinuxIdentity_def bindE_Inr_iff
        ValidateLinuxMountRelationship_def mount_Fail_def split: if_splits)
  have parent: "lw_parent w = parent" "\<not> is_symlink t" "tidy paths (lw_entries w)"
    using st removable by (simp_all add: standing_def removable_def)
  have prepared: "PrepareDurableJournal k V tx w = (Returned (EncodeJournal ?j), ?w1)"
    unfolding PrepareDurableJournal_def using standing_entries [OF st] s parent
    by (simp add: steps T persist fresh guard(1) valid [unfolded guard(1)] acceptsD [OF V(2)] eval_nat_numeral)
  have t: "standing paths stage parent (Some s) (Some t) None None ?t" "tidy paths (lw_entries ?t)"
    using st by (simp_all add: standing_def eval_nat_numeral)
  let ?w2 = "?w1\<lparr>lw_execution_started := True\<rparr>"
  have st2: "standing paths stage parent (Some s) (Some t) None None ?w2"
    using standing_persisted [OF T(1-3) t(1), of ?j] by (simp add: standing_def)
  have started: "\<not> lw_execution_started ?w1"
    using Persist_ok [OF T(1,3) _ _ t(2), of ?j] names fresh(2)
    by (auto simp: persisted_def transaction_names_def eval_nat_numeral)
  obtain w3 c1 where 1: "ExecutePrepareRename k tx ?j ?w2 = (Returned (?j\<lparr>lj_stage_identity := node_identity (retime k c1 s)\<rparr>), w3)"
    and st3: "standing paths stage parent None (Some t) (Some (retime k c1 s)) None w3"
    using prepare_rename [OF S st2 s(2), of ?j] by (auto simp: first_journal_def guard(1))
  let ?s1 = "retime k c1 s"
  let ?j1 = "?j\<lparr>lj_stage_identity := node_identity ?s1\<rparr>"
  have good: "accepts V (ft_expected_payload_identity tx) n" if "content n = content s" for n
    using V(2) accepts_content [OF that] by simp
  obtain w4 c2 where 2: "ExecuteBackupRename k V tx ?j1 w3 = (Returned (?j1\<lparr>lj_target_identity := node_identity (retime k c2 t),
      lj_state := lt_kBackupCreated\<rparr>), w4)"
    and st4: "standing paths stage parent None None (Some ?s1) (Some (retime k c2 t)) w4"
    using backup_rename [OF S st3 parent(2), of ?j1 V] s(2) good by (auto simp: first_journal_def guard(1))
  let ?t1 = "retime k c2 t"
  let ?j2 = "?j1\<lparr>lj_target_identity := node_identity ?t1, lj_state := lt_kBackupCreated\<rparr>"
  obtain w5 c3 where 3: "ExecuteActivationRename k V tx ?j2 w4 = (Returned (?j2\<lparr>lj_stage_identity := node_identity (retime k c3 ?s1),
      lj_state := lt_kTargetActivated\<rparr>), w5)"
    and st5: "standing paths stage parent None (Some (retime k c3 ?s1)) None (Some ?t1) w5"
    using activation_rename [OF S st4, of ?j2 V] s(2) parent(2) good by auto
  let ?s2 = "retime k c3 ?s1"
  let ?j3 = "?j2\<lparr>lj_stage_identity := node_identity ?s2, lj_state := lt_kTargetActivated\<rparr>"
  obtain w6 n where 4: "ExecuteFinish k V tx ?j3 w5 = (Returned (), w6)" and
    over: "standing paths stage parent None (Some n) None None w6" "content n = content s" "lw_entries w6 (lp_journal_name paths) = None"
      "lw_entries w6 (lp_lock_name paths) = None"
    using finish [OF S st5 V(1), of ?j3] s good removable by auto
  have "Execute k V tx w = (Returned (), w6)"
    unfolding Execute_def using 1 2 3 4 by (simp add: fresh prepared started)
  with over show ?thesis by blast
qed

lemma undisturbed_install:
  assumes "undisturbed k" and "CreateLinuxTransactionPaths target tid = Inr paths" and "is_leaf stage" and "transaction_names paths stage"
    and "standing paths stage parent (Some s) (Some t) None None w"
    and "lw_entries w (lp_lock_name paths) = None" and "lw_entries w (lp_journal_name paths) = None"
    and "MakeLinuxMountGuard parent (node_identity t) (node_identity s) = Inr guard" and "0 < sint pid" and "start \<noteq> 0"
    and "accepts (archive_verifier mode check) expected s" and "is_directory s" and "\<not> is_symlink s"
    and "removable (lp_backup_name paths) parent t"
  shows "\<exists>tx w1 w2 n. MakeLinuxFileTransaction k dir target dir stage tid pid start expected w = (Returned tx, w1) \<and>
     ft_paths tx = paths \<and> ft_stage_name tx = stage \<and> ft_expected_payload_identity tx = expected \<and>
     Execute k (archive_verifier mode check) tx w1 = (Returned (), w2) \<and>
     standing paths stage parent None (Some n) None None w2 \<and> content n = content s \<and>
     lw_entries w2 (lp_journal_name paths) = None \<and> lw_entries w2 (lp_lock_name paths) = None"
proof -
  note leaves = paths_leaves [OF assms(2)]
  have target: "lp_target_name paths = target" "lp_transaction_id paths = tid" "is_leaf target"
    using paths_derived [OF assms(2)] by (simp_all add: Let_def)
  have guard: "guard = \<lparr>mg_parent = parent, mg_target = node_identity t, mg_stage = node_identity s\<rparr>"
    using assms(8) by (auto simp: MakeLinuxMountGuard_def bindE_Inr_iff mount_Fail_def split: if_splits)
  define tx where "tx = \<lparr>ft_stage_name = stage, ft_paths = paths, ft_owner_process_id = pid,
     ft_owner_process_start_identity = start, ft_expected_payload_identity = expected, ft_mount_guard = guard\<rparr>"
  have plain: "plain_file (LinuxNode (kn_created k c) s [])" for c s using created_plain [OF assms(1)] by simp
  let ?lock = "EncodeLockRecord \<lparr>lk_transaction_id = tid, lk_owner_process_id = pid, lk_owner_process_start_identity = start\<rparr>"
  let ?w = "set_entry (lp_lock_name paths) (Some (LinuxNode (kn_created k (Suc (Suc (lw_clock w)))) ?lock [])) ((tick ^^ 7) w)"
  let ?w1 = "?w\<lparr>lw_lock_held := True, lw_journal := None, lw_journal_persisted := False, lw_execution_started := False\<rparr>"
  have "\<not> sint pid \<le> 0" using assms(9) by linarith
  then have pid: "(sint pid \<le> 0) = False" by blast
  have made: "MakeLinuxFileTransaction k dir target dir stage tid pid start expected w = (Returned tx, ?w1)"
    using assms(12-14) standing_entries [OF assms(5)] leaves
    by (simp add: MakeLinuxFileTransaction_def ValidatedStageName_def rethrowing_def steps assms(1-3,6,8,10) pid target
        is_directory_def removable_def eval_nat_numeral tx_def)
  have st: "standing paths stage parent (Some s) (Some t) None None ?w1"
    using assms(4,5) plain by (auto simp: standing_def tidy_def transaction_names_def eval_nat_numeral)
  have S: "undisturbed_transaction k tx paths stage parent"
    using assms(1,3,4) leaves by (simp add: undisturbed_transaction_def tx_def guard)
  have "\<exists>w' n. Execute k (archive_verifier mode check) tx ?w1 = (Returned (), w') \<and> standing paths stage parent None (Some n) None None w' \<and>
     content n = content s \<and> lw_entries w' (lp_journal_name paths) = None \<and> lw_entries w' (lp_lock_name paths) = None"
    by (rule Execute_ok [OF S st]) (use assms(8,11-14) in \<open>simp_all add: tx_def guard\<close>)
  moreover have "ft_paths tx = paths \<and> ft_stage_name tx = stage \<and> ft_expected_payload_identity tx = expected" by (simp add: tx_def)
  ultimately show ?thesis using made by blast
qed

text \<open>A verifier that accepts one content, and the names of the sample directory.\<close>

definition sample_check :: "linux_entries \<Rightarrow> string \<Rightarrow> LinuxVerifiedPayloadIdentity result" where
  "sample_check entries leaf =
     (if map_option content (entries leaf) = Some (content (sample_tree 4 ''new'')) then Inr sample_payload
      else Inl (archive_error ''payload verification failed''))"

lemma sample_names: "transaction_names sample_paths ''Stage.AppDir''"
  using paths_distinct [OF sample_paths_created] unfolding transaction_names_def paths_derived(3) [OF sample_paths_created]
  by (simp add: Let_def)

lemma sample_undisturbed: "undisturbed sample_kernel"
  by (simp add: undisturbed_def steady_def sample_kernel_def sample_identity_kinds) (simp add: sample_identity_def)

lemma sample_standing:
  "standing sample_paths ''Stage.AppDir'' (sample_identity 1 True) (Some (sample_tree 4 ''new'')) (Some (sample_tree 2 ''old'')) None None
     sample_directory"
  "lw_entries sample_directory (lp_lock_name sample_paths) = None" "lw_entries sample_directory (lp_journal_name sample_paths) = None"
  unfolding standing_def tidy_def paths_derived(3) [OF sample_paths_created]
  by (simp_all add: sample_directory_def Let_def)

lemma sample_tree_kind: "is_directory (sample_tree i v)" "\<not> is_symlink (sample_tree i v)"
  by (simp add: is_directory_def sample_tree_def sample_identity_def)
    (simp add: is_symlink_def sample_tree_def sample_identity_kinds S_IFDIR_def S_IFLNK_def)

lemma sample_removable: "removable (lp_backup_name sample_paths) (sample_identity 1 True) (sample_tree 2 ''old'')"
proof -
  have "length (lp_backup_name sample_paths) < 1000"
    unfolding paths_derived(3) [OF sample_paths_created] by (simp add: Let_def sample_transaction_def)
  moreover have root: "node_identity (sample_tree 2 ''old'') = sample_identity 2 True" by (simp add: sample_tree_def)
  ultimately have "\<exists>m b. BuildCleanupManifest (sample_tree 2 ''old'') (lp_backup_name sample_paths) (node_identity (sample_tree 2 ''old''))
      0 fresh_budget False = Inr (m, b)"
    using sample_manifest [of "lp_backup_name sample_paths" 2 "''old''"] by auto
  then show ?thesis
    unfolding removable_def by (simp add: sample_tree_wf sample_tree_kind) (simp add: root sample_identity_def)
qed

lemma sample_guard:
  "MakeLinuxMountGuard (sample_identity 1 True) (node_identity (sample_tree 2 ''old'')) (node_identity (sample_tree 4 ''new'')) =
     Inr \<lparr>mg_parent = sample_identity 1 True, mg_target = node_identity (sample_tree 2 ''old''),
       mg_stage = node_identity (sample_tree 4 ''new'')\<rparr>"
  by (simp add: MakeLinuxMountGuard_def ValidateLinuxMountRelationship_def sample_tree_def sample_identity_def)

lemma sample_accepts: "accepts (archive_verifier 0x1ED sample_check) sample_payload (sample_tree 4 ''new'')"
  by (simp add: accepts_def archive_verifier_def sample_check_def)

lemma sample_target: "lp_target_name sample_paths = ''Example.AppDir''"
  by (simp add: paths_derived(3) [OF sample_paths_created] Let_def)

lemmas sample_setting = sample_undisturbed sample_paths_created sample_target_leaf(2) sample_names sample_standing(1-3) sample_guard

text \<open>The sample installed.\<close>

lemma sample_installed:
  "\<exists>tx w1 w2 n. MakeLinuxFileTransaction sample_kernel ''/opt'' ''Example.AppDir'' ''/opt'' ''Stage.AppDir'' sample_transaction 7 9
       sample_payload sample_directory = (Returned tx, w1) \<and>
     ft_paths tx = sample_paths \<and> ft_stage_name tx = ''Stage.AppDir'' \<and> ft_expected_payload_identity tx = sample_payload \<and>
     Execute sample_kernel (archive_verifier 0x1ED sample_check) tx w1 = (Returned (), w2) \<and>
     standing sample_paths ''Stage.AppDir'' (sample_identity 1 True) None (Some n) None None w2 \<and> content n = content (sample_tree 4 ''new'')"
  using undisturbed_install [OF sample_setting _ _ sample_accepts sample_tree_kind sample_removable, of 7 9 "''/opt''"] by auto

section \<open>Properties\<close>

text \<open>
  C11. An installation that nothing disturbs completes: in a directory with a target and a stage on one mount,
  with no trace of the transaction, a stage whose content the verifier accepts and an old
  application that is within the limits of the cleanup, the constructor and \<open>Execute\<close> return, and
  then the target holds the content of the stage and nothing else of the transaction is left.
\<close>

theorem linux_install_completes:
  assumes "undisturbed k" and "CreateLinuxTransactionPaths target tid = Inr paths" and "is_leaf stage" and "transaction_names paths stage"
    and "standing paths stage parent (Some s) (Some t) None None w"
    and "lw_entries w (lp_lock_name paths) = None" and "lw_entries w (lp_journal_name paths) = None"
    and "MakeLinuxMountGuard parent (node_identity t) (node_identity s) = Inr guard" and "0 < sint pid" and "start \<noteq> 0"
    and "accepts (archive_verifier mode check) expected s" and "is_directory s" and "\<not> is_symlink s"
    and "removable (lp_backup_name paths) parent t"
  shows "\<exists>tx w1 w2 n. MakeLinuxFileTransaction k dir target dir stage tid pid start expected w = (Returned tx, w1) \<and>
     ft_paths tx = paths \<and> ft_stage_name tx = stage \<and> ft_expected_payload_identity tx = expected \<and>
     Execute k (archive_verifier mode check) tx w1 = (Returned (), w2) \<and>
     standing paths stage parent None (Some n) None None w2 \<and> content n = content s \<and>
     lw_entries w2 (lp_journal_name paths) = None \<and> lw_entries w2 (lp_lock_name paths) = None"
  by (rule undisturbed_install [OF assms])

theorem linux_install_completes_witness:
  "\<exists>tx w1 w2 n. MakeLinuxFileTransaction sample_kernel ''/opt'' ''Example.AppDir'' ''/opt'' ''Stage.AppDir'' sample_transaction 7 9
       sample_payload sample_directory = (Returned tx, w1) \<and>
     Execute sample_kernel (archive_verifier 0x1ED sample_check) tx w1 = (Returned (), w2) \<and>
     lw_entries w2 ''Example.AppDir'' = Some n \<and> content n = content (sample_tree 4 ''new'')"
  using linux_install_completes [OF sample_setting _ _ sample_accepts sample_tree_kind sample_removable, of 7 9 "''/opt''"]
  by (auto simp: standing_def sample_target)

declare seq_def [simp del] statement_steps [simp del]

end
