(* ===== verification/Linux_Crash_Safety.thy ===== *)
theory Linux_Crash_Safety
  imports Linux_Completion
begin

text \<open>
  Crash safety of the Linux transaction: an invariant of the directory that every operation of
  \<open>Linux_Transaction\<close> and \<open>Linux_Recovery\<close> keeps at every call, whatever calls fail and wherever the process dies.
\<close>

section \<open>The invariant\<close>

abbreviation has_content :: "linux_entries \<Rightarrow> string \<Rightarrow> (string \<times> (string \<times> LinuxNode) list) \<Rightarrow> bool" where
  "has_content entries leaf c \<equiv> map_option content (entries leaf) = Some c"

text \<open>\<open>c\<close> was found at the target and verified there as the expected payload.\<close>

definition verified_content ::
    "LinuxInstallPayloadVerifier \<Rightarrow> LinuxVerifiedPayloadIdentity \<Rightarrow> string \<Rightarrow> (string \<times> (string \<times> LinuxNode) list) \<Rightarrow> bool" where
  "verified_content V expected leaf c \<longleftrightarrow> (\<exists>entries. has_content entries leaf c \<and> vf_Verify V entries leaf = Inr expected)"

text \<open>The target holds a verified payload, and nothing is left that could be moved over it.\<close>

definition activated ::
    "LinuxInstallPayloadVerifier \<Rightarrow> LinuxTransactionPaths \<Rightarrow> string \<Rightarrow> LinuxVerifiedPayloadIdentity \<Rightarrow> linux_entries \<Rightarrow> bool" where
  "activated V paths stage expected entries \<longleftrightarrow>
     (\<exists>c. has_content entries (lp_target_name paths) c \<and> verified_content V expected (lp_target_name paths) c) \<and>
     entries (lp_prepared_name paths) = None \<and> entries stage = None"

definition application_kept ::
    "LinuxInstallPayloadVerifier \<Rightarrow> LinuxTransactionPaths \<Rightarrow> string \<Rightarrow> LinuxVerifiedPayloadIdentity \<Rightarrow>
     (string \<times> (string \<times> LinuxNode) list) \<Rightarrow> linux_entries \<Rightarrow> bool" where
  "application_kept V paths stage expected old entries \<longleftrightarrow>
     has_content entries (lp_target_name paths) old \<or> has_content entries (lp_backup_name paths) old \<or>
     activated V paths stage expected entries"

definition journals_named :: "LinuxTransactionPaths \<Rightarrow> string \<Rightarrow> LinuxWorld \<Rightarrow> bool" where
  "journals_named paths stage w \<longleftrightarrow>
     (\<forall>node j. lw_entries w (lp_journal_name paths) = Some node \<longrightarrow> DecodeJournal (node_bytes node) = Inr j \<longrightarrow>
        lj_original_stage_name j = stage) \<and>
     (\<forall>j. lw_journal w = Some j \<longrightarrow> lj_original_stage_name j = stage)"

definition linux_invariant ::
    "LinuxInstallPayloadVerifier \<Rightarrow> LinuxTransactionPaths \<Rightarrow> string \<Rightarrow> LinuxVerifiedPayloadIdentity \<Rightarrow>
     (string \<times> (string \<times> LinuxNode) list) \<Rightarrow> LinuxWorld \<Rightarrow> bool" where
  "linux_invariant V paths stage expected old w \<longleftrightarrow>
     application_kept V paths stage expected old (lw_entries w) \<and> journals_named paths stage w"

text \<open>Inside a run that has a verified target, the backup is of no more concern.\<close>

definition finished_invariant ::
    "LinuxInstallPayloadVerifier \<Rightarrow> LinuxTransactionPaths \<Rightarrow> string \<Rightarrow> LinuxVerifiedPayloadIdentity \<Rightarrow> LinuxWorld \<Rightarrow> bool" where
  "finished_invariant V paths stage expected w \<longleftrightarrow>
     activated V paths stage expected (lw_entries w) \<and> journals_named paths stage w"

lemmas invariant_defs = linux_invariant_def finished_invariant_def application_kept_def activated_def journals_named_def

lemma timeless_invariant [simp]:
  "timeless (linux_invariant V paths stage expected old)" "timeless (finished_invariant V paths stage expected)"
  by (simp_all add: timeless_def invariant_defs)

lemma finished_imp_invariant: "finished_invariant V paths stage expected w \<Longrightarrow> linux_invariant V paths stage expected old w"
  by (simp add: linux_invariant_def finished_invariant_def application_kept_def)

section \<open>Entries that the invariant does not depend on\<close>

lemma invariant_other_entry:
  assumes "transaction_names paths stage"
    and "l \<in> {lp_journal_next_name paths, lp_lock_name paths, lp_recovery_lock_name paths}"
  shows "linux_invariant V paths stage expected old (set_entry l n w) \<longleftrightarrow> linux_invariant V paths stage expected old w"
    and "finished_invariant V paths stage expected (set_entry l n w) \<longleftrightarrow> finished_invariant V paths stage expected w"
proof -
  have "l \<noteq> stage" "l \<noteq> lp_target_name paths" "l \<noteq> lp_prepared_name paths" "l \<noteq> lp_backup_name paths" "l \<noteq> lp_journal_name paths"
    using assms by (auto simp: transaction_names_def)
  then show "linux_invariant V paths stage expected old (set_entry l n w) \<longleftrightarrow> linux_invariant V paths stage expected old w"
    and "finished_invariant V paths stage expected (set_entry l n w) \<longleftrightarrow> finished_invariant V paths stage expected w"
    by (simp_all add: invariant_defs)
qed

lemma finished_backup:
  assumes "transaction_names paths stage"
  shows "finished_invariant V paths stage expected (set_entry (lp_backup_name paths) n w) \<longleftrightarrow> finished_invariant V paths stage expected w"
  using assms by (auto simp: invariant_defs transaction_names_def)

lemma invariant_journal:
  assumes "transaction_names paths stage" and "n = None \<or> (\<exists>node j. n = Some node \<and> node_bytes node = EncodeJournal j \<and>
      lj_original_stage_name j = stage)"
  shows "linux_invariant V paths stage expected old w \<Longrightarrow> linux_invariant V paths stage expected old (set_entry (lp_journal_name paths) n w)"
    and "finished_invariant V paths stage expected w \<Longrightarrow> finished_invariant V paths stage expected (set_entry (lp_journal_name paths) n w)"
proof -
  have names: "lp_journal_name paths \<notin> {stage, lp_target_name paths, lp_prepared_name paths, lp_backup_name paths}"
    using assms(1) by (auto simp: transaction_names_def)
  have "journals_named paths stage (set_entry (lp_journal_name paths) n w)" if "journals_named paths stage w"
    using that assms(2) by (auto simp: journals_named_def DecodeJournal_Encode)
  then show "linux_invariant V paths stage expected old w \<Longrightarrow> linux_invariant V paths stage expected old (set_entry (lp_journal_name paths) n w)"
    and "finished_invariant V paths stage expected w \<Longrightarrow> finished_invariant V paths stage expected (set_entry (lp_journal_name paths) n w)"
    using names by (auto simp: linux_invariant_def finished_invariant_def application_kept_def activated_def)
qed

text \<open>Persisting a journal of the transaction, and removing it, keeps the invariants.\<close>

lemma names_journal: "transaction_names paths stage \<Longrightarrow> lp_journal_next_name paths \<noteq> lp_journal_name paths"
  by (auto simp: transaction_names_def)

lemma persist_invariant:
  assumes names: "transaction_names paths stage" and j: "lj_original_stage_name j = stage"
    and Q: "\<And>es es'. (\<And>l. l \<in> {stage, lp_target_name paths, lp_prepared_name paths, lp_backup_name paths} \<Longrightarrow> es l = es' l) \<Longrightarrow> Q es \<longleftrightarrow> Q es'"
  shows "keeps (\<lambda>w. linux_invariant V paths stage expected old w \<and> Q (lw_entries w)) (Persist k paths j)"
    and "keeps (\<lambda>w. finished_invariant V paths stage expected w \<and> Q (lw_entries w)) (Persist k paths j)"
proof -
  have Q1: "Q (lw_entries (set_entry l n w)) \<longleftrightarrow> Q (lw_entries w)"
    if "l \<in> {lp_journal_next_name paths, lp_journal_name paths}" for w l n
    using that names by (intro Q) (auto simp: transaction_names_def)
  note other = invariant_other_entry [OF names, of "lp_journal_next_name paths"]
  have written: "Some node = None \<or> (\<exists>node' j. Some node = Some node' \<and> node_bytes node' = EncodeJournal j \<and>
      lj_original_stage_name j = stage)" if "node_bytes node = EncodeJournal j" for node
    using that j by blast
  note journal = invariant_journal [OF names written]
  show "keeps (\<lambda>w. linux_invariant V paths stage expected old w \<and> Q (lw_entries w)) (Persist k paths j)"
    by (rule runs_persist [OF timeless_conj [OF timeless_invariant(1)] _ _ names_journal [OF names]])
      (simp_all add: Q1 other journal del: set_entry_simps)
  show "keeps (\<lambda>w. finished_invariant V paths stage expected w \<and> Q (lw_entries w)) (Persist k paths j)"
    by (rule runs_persist [OF timeless_conj [OF timeless_invariant(2)] _ _ names_journal [OF names]])
      (simp_all add: Q1 other journal del: set_entry_simps)
qed

section \<open>The renames\<close>

lemma rename_stage_invariant:
  assumes names: "transaction_names paths stage"
  shows "runs (linux_invariant V paths stage expected old) (RenameLinuxRelative k stage (lp_prepared_name paths) False)
    (\<lambda>_ w. linux_invariant V paths stage expected old w \<and> lw_entries w stage = None) (linux_invariant V paths stage expected old)"
  by (rule runs_rename [OF timeless_invariant(1)])
    (use names in \<open>auto simp: invariant_defs transaction_names_def\<close>)

text \<open>Moving the target away is safe while a payload waits to be moved in.\<close>

lemma rename_target_invariant:
  assumes names: "transaction_names paths stage"
  shows "runs (\<lambda>w. linux_invariant V paths stage expected old w \<and> lw_entries w (lp_prepared_name paths) \<noteq> None \<and> Q (lw_entries w stage))
    (RenameLinuxRelative k (lp_target_name paths) (lp_backup_name paths) False)
    (\<lambda>_ w. linux_invariant V paths stage expected old w \<and> lw_entries w (lp_prepared_name paths) \<noteq> None \<and> Q (lw_entries w stage) \<and>
       lw_entries w (lp_target_name paths) = None \<and> lw_entries w (lp_backup_name paths) \<noteq> None)
    (linux_invariant V paths stage expected old)"
  by (rule runs_conseq [OF runs_rename [where P = "\<lambda>w. linux_invariant V paths stage expected old w \<and>
          lw_entries w (lp_prepared_name paths) \<noteq> None \<and> Q (lw_entries w stage)" and
        Q = "\<lambda>_ w. linux_invariant V paths stage expected old w \<and> lw_entries w (lp_prepared_name paths) \<noteq> None \<and> Q (lw_entries w stage) \<and>
          lw_entries w (lp_target_name paths) = None \<and> lw_entries w (lp_backup_name paths) \<noteq> None"]])
    (use names in \<open>auto simp: invariant_defs transaction_names_def timeless_def\<close>)

lemma rename_prepared_invariant:
  assumes names: "transaction_names paths stage"
  shows "runs (\<lambda>w. linux_invariant V paths stage expected old w \<and> Q (lw_entries w stage) (lw_entries w (lp_backup_name paths)))
    (RenameLinuxRelative k (lp_prepared_name paths) (lp_target_name paths) False)
    (\<lambda>_ w. linux_invariant V paths stage expected old w \<and> Q (lw_entries w stage) (lw_entries w (lp_backup_name paths)) \<and>
       lw_entries w (lp_prepared_name paths) = None \<and> lw_entries w (lp_target_name paths) \<noteq> None)
    (linux_invariant V paths stage expected old)"
  by (rule runs_conseq [OF runs_rename [where P = "\<lambda>w. linux_invariant V paths stage expected old w \<and>
          Q (lw_entries w stage) (lw_entries w (lp_backup_name paths))" and
        Q = "\<lambda>_ w. linux_invariant V paths stage expected old w \<and> Q (lw_entries w stage) (lw_entries w (lp_backup_name paths)) \<and>
          lw_entries w (lp_prepared_name paths) = None \<and> lw_entries w (lp_target_name paths) \<noteq> None"]])
    (use names in \<open>auto simp: invariant_defs transaction_names_def timeless_def\<close>)

section \<open>The transaction\<close>

definition of_transaction ::
    "LinuxTransactionPaths \<Rightarrow> string \<Rightarrow> LinuxVerifiedPayloadIdentity \<Rightarrow> LinuxFileTransaction \<Rightarrow> bool" where
  "of_transaction paths stage expected tx \<longleftrightarrow>
     ft_paths tx = paths \<and> ft_stage_name tx = stage \<and> ft_expected_payload_identity tx = expected"

lemma execute_prepare_invariant:
  assumes names: "transaction_names paths stage" and tx: "of_transaction paths stage expected tx"
    and j: "lj_original_stage_name j = stage"
  shows "runs (linux_invariant V paths stage expected old) (ExecutePrepareRename k tx j)
    (\<lambda>j' w. (linux_invariant V paths stage expected old w \<and> lw_entries w stage = None) \<and> lj_original_stage_name j' = stage)
    (linux_invariant V paths stage expected old)"
proof -
  let ?I = "linux_invariant V paths stage expected old"
  let ?A = "\<lambda>w. ?I w \<and> lw_entries w stage = None"
  have time: "timeless ?A" by (rule timeless_conj [OF timeless_invariant(1), of _ _ _ _ _ "\<lambda>es. es stage = None"])
  have quiet: "keeps ?I m" if "quiet m" for m :: "'a action" by (rule runs_quiet [OF that timeless_invariant(1)])
  have quiet': "runs ?A m (\<lambda>_. ?A) ?I" if "quiet m" for m :: "'a action" by (rule runs_quiet_into [OF that time]) simp
  have persist: "runs ?A (Persist k paths (j\<lparr>lj_stage_identity := i\<rparr>)) (\<lambda>_. ?A) ?I" for i
    by (rule runs_conseq [OF persist_invariant(1) [OF names, where Q = "\<lambda>es. es stage = None"]]) (auto simp: j)
  show ?thesis
    unfolding ExecutePrepareRename_def using tx unfolding of_transaction_def
    by (simp only:)
      (rule runs_seq [OF quiet], simp, rule runs_seq [OF quiet], simp, rule runs_seq [OF quiet], simp,
       rule runs_seq [OF rename_stage_invariant [OF names]], rule runs_seq [OF quiet'], simp, rule runs_seq [OF quiet'], simp,
       rule runs_seq [OF quiet'], simp, rule runs_seq [OF persist], rule runs_seq [OF quiet'], simp,
       rule runs_ret, simp add: j)
qed

lemma execute_backup_invariant:
  assumes names: "transaction_names paths stage" and tx: "of_transaction paths stage expected tx"
    and j: "lj_original_stage_name j = stage"
  shows "runs (\<lambda>w. linux_invariant V paths stage expected old w \<and> lw_entries w stage = None) (ExecuteBackupRename k V tx j)
    (\<lambda>j' w. (linux_invariant V paths stage expected old w \<and> lw_entries w stage = None) \<and> lj_original_stage_name j' = stage)
    (linux_invariant V paths stage expected old)"
proof -
  let ?I = "linux_invariant V paths stage expected old"
  let ?A = "\<lambda>w. ?I w \<and> lw_entries w stage = None"
  let ?B = "\<lambda>w. ?I w \<and> lw_entries w (lp_prepared_name paths) \<noteq> None \<and> lw_entries w stage = None"
  have time: "timeless ?A" "timeless ?B"
    using timeless_invariant(1) [of V paths stage expected old] by (auto simp: timeless_def)
  have quiet: "runs ?A m (\<lambda>_. ?A) ?I" if "quiet m" for m :: "'a action" by (rule runs_quiet_into [OF that time(1)]) simp
  have quiet': "runs ?B m (\<lambda>_. ?B) ?I" if "quiet m" for m :: "'a action" by (rule runs_quiet_into [OF that time(2)]) simp
  have prepared: "runs ?A (ValidateRelativeIdentity k (lp_prepared_name paths) i d) (\<lambda>_. ?B) ?I" for i d
    by (rule runs_conseq [OF runs_validate [OF time(1)]]) auto
  have rename: "runs ?B (RenameLinuxRelative k (lp_target_name paths) (lp_backup_name paths) False) (\<lambda>_. ?A) ?I"
    by (rule runs_conseq [OF rename_target_invariant [OF names, where Q = "\<lambda>n. n = None"]]) auto
  have persist: "runs ?A (Persist k paths (j\<lparr>lj_target_identity := i, lj_state := s\<rparr>)) (\<lambda>_. ?A) ?I" for i s
    by (rule runs_conseq [OF persist_invariant(1) [OF names, where Q = "\<lambda>es. es stage = None"]]) (auto simp: j)
  show ?thesis
    unfolding ExecuteBackupRename_def using tx unfolding of_transaction_def
    by (simp only:)
      (rule runs_seq [OF quiet], simp, rule runs_seq [OF quiet], simp, rule runs_seq [OF quiet], simp,
       rule runs_seq [OF prepared], rule runs_seq [OF quiet'], simp, rule runs_seq [OF rename],
       rule runs_seq [OF quiet], simp, rule runs_seq [OF quiet], simp, rule runs_seq [OF quiet], simp,
       rule runs_seq [OF persist], rule runs_seq [OF quiet], simp, rule runs_ret, simp add: j)
qed

lemma execute_activation_invariant:
  assumes names: "transaction_names paths stage" and tx: "of_transaction paths stage expected tx"
    and j: "lj_original_stage_name j = stage"
  shows "runs (\<lambda>w. linux_invariant V paths stage expected old w \<and> lw_entries w stage = None) (ExecuteActivationRename k V tx j)
    (\<lambda>j' w. (linux_invariant V paths stage expected old w \<and> lw_entries w stage = None \<and>
       lw_entries w (lp_prepared_name paths) = None \<and> lw_entries w (lp_target_name paths) \<noteq> None) \<and> lj_original_stage_name j' = stage)
    (linux_invariant V paths stage expected old)"
proof -
  let ?I = "linux_invariant V paths stage expected old"
  let ?A = "\<lambda>w. ?I w \<and> lw_entries w stage = None"
  let ?B = "\<lambda>w. ?I w \<and> lw_entries w stage = None \<and> lw_entries w (lp_prepared_name paths) = None \<and> lw_entries w (lp_target_name paths) \<noteq> None"
  have time: "timeless ?A" "timeless ?B"
    using timeless_invariant(1) [of V paths stage expected old] by (auto simp: timeless_def)
  have quiet: "runs ?A m (\<lambda>_. ?A) ?I" if "quiet m" for m :: "'a action" by (rule runs_quiet_into [OF that time(1)]) simp
  have quiet': "runs ?B m (\<lambda>_. ?B) ?I" if "quiet m" for m :: "'a action" by (rule runs_quiet_into [OF that time(2)]) simp
  have rename: "runs ?A (RenameLinuxRelative k (lp_prepared_name paths) (lp_target_name paths) False) (\<lambda>_. ?B) ?I"
    by (rule runs_conseq [OF rename_prepared_invariant [OF names, where Q = "\<lambda>n _. n = None"]]) auto
  have persist: "runs ?B (Persist k paths (j\<lparr>lj_stage_identity := i, lj_state := s\<rparr>)) (\<lambda>_. ?B) ?I" for i s
    by (rule runs_conseq [OF persist_invariant(1) [OF names, where Q = "\<lambda>es. es stage = None \<and> es (lp_prepared_name paths) = None \<and>
          es (lp_target_name paths) \<noteq> None"]]) (auto simp: j)
  show ?thesis
    unfolding ExecuteActivationRename_def using tx unfolding of_transaction_def
    by (simp only:)
      (rule runs_seq [OF quiet], simp, rule runs_seq [OF quiet], simp, rule runs_seq [OF quiet], simp,
       rule runs_seq [OF quiet], simp, rule runs_seq [OF quiet], simp, rule runs_seq [OF rename],
       rule runs_seq [OF quiet'], simp, rule runs_seq [OF quiet'], simp, rule runs_seq [OF quiet'], simp,
       rule runs_seq [OF persist], rule runs_seq [OF quiet'], simp, rule runs_ret, simp add: j)
qed

text \<open>What is left when a transaction is over.\<close>

definition transaction_over ::
    "LinuxInstallPayloadVerifier \<Rightarrow> LinuxTransactionPaths \<Rightarrow> string \<Rightarrow> LinuxVerifiedPayloadIdentity \<Rightarrow> linux_entries \<Rightarrow> bool" where
  "transaction_over V paths stage expected entries \<longleftrightarrow> activated V paths stage expected entries \<and>
     entries (lp_backup_name paths) = None \<and> entries (lp_journal_name paths) = None \<and> entries (lp_lock_name paths) = None"

lemma finish_cleanup:
  assumes names: "transaction_names paths stage"
  shows "runs (\<lambda>w. finished_invariant V paths stage expected w \<and> lw_entries w (lp_backup_name paths) = None) (RemoveJournal k paths)
    (\<lambda>_ w. finished_invariant V paths stage expected w \<and> transaction_over V paths stage expected (lw_entries w))
    (linux_invariant V paths stage expected old)"
  by (rule runs_conseq [OF runs_remove_journal [where P = "\<lambda>w. finished_invariant V paths stage expected w \<and>
          lw_entries w (lp_backup_name paths) = None"]])
    (use names in \<open>auto simp: transaction_over_def finished_invariant_def activated_def journals_named_def
        application_kept_def linux_invariant_def timeless_def transaction_names_def\<close>)

lemma finish_remove_tree:
  assumes names: "transaction_names paths stage"
  shows "runs (finished_invariant V paths stage expected) (RemoveLinuxTreeExact k (lp_backup_name paths) i)
    (\<lambda>_ w. finished_invariant V paths stage expected w \<and> lw_entries w (lp_backup_name paths) = None)
    (linux_invariant V paths stage expected old)"
  by (rule runs_conseq [OF runs_remove_tree [OF timeless_invariant(2) finished_backup [OF names]]])
    (auto intro: finished_imp_invariant)

lemma finish_persist:
  assumes names: "transaction_names paths stage" and "lj_original_stage_name j = stage"
  shows "runs (finished_invariant V paths stage expected) (Persist k paths j) (\<lambda>_. finished_invariant V paths stage expected)
    (linux_invariant V paths stage expected old)"
  by (rule runs_conseq [OF persist_invariant(2) [OF assms, where Q = "\<lambda>_. True"]]) (auto intro: finished_imp_invariant)

lemma verified_finished:
  assumes "linux_invariant V paths stage expected old w" and "lw_entries w stage = None"
    and "lw_entries w (lp_prepared_name paths) = None" and "lw_entries w (lp_target_name paths) \<noteq> None"
    and "vf_Verify V (lw_entries w) (lp_target_name paths) = Inr expected"
  shows "finished_invariant V paths stage expected w"
proof -
  obtain y where y: "lw_entries w (lp_target_name paths) = Some y" using assms(4) by blast
  then have "verified_content V expected (lp_target_name paths) (content y)"
    unfolding verified_content_def using assms(5) by force
  with y assms(1-3) show ?thesis by (auto simp: finished_invariant_def linux_invariant_def activated_def)
qed

context payload_verifier
begin

lemma quiet_Matches: "quiet (vf_Matches V k l i)"
  by (rule matches_quiet)

lemma finalize_invariant:
  assumes names: "transaction_names paths stage"
    and Q: "\<And>w n. Q w \<Longrightarrow> map_option content n = map_option content (lw_entries w (lp_target_name paths)) \<Longrightarrow>
      Q (set_entry (lp_target_name paths) n w)" and "timeless Q"
  shows "runs (\<lambda>w. linux_invariant V paths stage expected old w \<and> Q w) (vf_Finalize V k (lp_target_name paths) i)
    (\<lambda>_ w. linux_invariant V paths stage expected old w \<and> Q w) (linux_invariant V paths stage expected old)"
proof (rule runs_conseq [OF runs_finalize [where P = "\<lambda>w. linux_invariant V paths stage expected old w \<and> Q w"]])
  show "timeless (\<lambda>w. linux_invariant V paths stage expected old w \<and> Q w)"
    using timeless_invariant(1) [of V paths stage expected old] assms(3) by (simp add: timeless_def)
  fix w n assume "linux_invariant V paths stage expected old w \<and> Q w"
    and "map_option content n = map_option content (lw_entries w (lp_target_name paths))"
  then show "linux_invariant V paths stage expected old (set_entry (lp_target_name paths) n w) \<and> Q (set_entry (lp_target_name paths) n w)"
    using names Q by (auto simp: invariant_defs transaction_names_def)
qed simp_all

lemma execute_finish_invariant:
  assumes names: "transaction_names paths stage" and tx: "of_transaction paths stage expected tx"
    and j: "lj_original_stage_name j = stage"
  shows "runs (\<lambda>w. linux_invariant V paths stage expected old w \<and> lw_entries w stage = None \<and>
       lw_entries w (lp_prepared_name paths) = None \<and> lw_entries w (lp_target_name paths) \<noteq> None) (ExecuteFinish k V tx j)
    (\<lambda>_ w. finished_invariant V paths stage expected w \<and> transaction_over V paths stage expected (lw_entries w))
    (linux_invariant V paths stage expected old)"
proof -
  let ?I = "linux_invariant V paths stage expected old"
  let ?Q = "\<lambda>w. lw_entries w stage = None \<and> lw_entries w (lp_prepared_name paths) = None \<and> lw_entries w (lp_target_name paths) \<noteq> None"
  let ?B = "\<lambda>w. ?I w \<and> ?Q w"
  have time: "timeless ?B" "timeless ?Q"
    using timeless_invariant(1) [of V paths stage expected old] by (auto simp: timeless_def)
  have quiet: "runs ?B m (\<lambda>_. ?B) ?I" if "quiet m" for m :: "'a action" by (rule runs_quiet_into [OF that time(1)]) simp
  have finalize: "runs ?B (vf_Finalize V k (lp_target_name paths) i) (\<lambda>_. ?B) ?I" for i
    by (rule finalize_invariant [OF names _ time(2)]) (use names in \<open>auto simp: transaction_names_def\<close>)
  have verify: "runs ?B (VerifyPayload k V tx (lp_target_name paths)) (\<lambda>_. finished_invariant V paths stage expected) ?I"
    by (rule runs_conseq [OF runs_verify_payload [OF time(1)]])
      (use tx in \<open>auto simp: of_transaction_def intro: verified_finished\<close>)
  have persist: "runs (finished_invariant V paths stage expected) (Persist k paths (j\<lparr>lj_state := s\<rparr>))
      (\<lambda>_. finished_invariant V paths stage expected) ?I" for s
    by (rule finish_persist [OF names]) (simp add: j)
  show ?thesis
    unfolding ExecuteFinish_def using tx unfolding of_transaction_def
    by (simp only:)
      (rule runs_seq [OF quiet], simp, rule runs_seq [OF finalize], rule runs_seq [OF quiet [OF quiet_Matches]],
       rule runs_seq [OF quiet], simp, rule runs_seq [OF verify], rule runs_seq [OF persist],
       rule runs_seq [OF finish_remove_tree [OF names]], rule finish_cleanup [OF names])
qed

lemma prepare_invariant:
  assumes names: "transaction_names paths stage" and tx: "of_transaction paths stage expected tx"
  shows "keeps (linux_invariant V paths stage expected old) (PrepareDurableJournal k V tx)"
proof -
  let ?I = "linux_invariant V paths stage expected old"
  have quiet: "keeps ?I m" if "quiet m" for m :: "'a action" by (rule runs_quiet [OF that timeless_invariant(1)])
  have memory: "keeps ?I (update (\<lambda>w. w\<lparr>lw_journal_persisted := True\<rparr>))"
    "keeps ?I (update (\<lambda>w. w\<lparr>lw_journal := Some (first_journal tx)\<rparr>))"
    by (rule runs_update, use tx in \<open>simp add: invariant_defs first_journal_def of_transaction_def\<close>)+
  have persist: "keeps ?I (Persist k (ft_paths tx) (first_journal tx))"
    using tx unfolding of_transaction_def
    by (simp only:) (rule runs_conseq [OF persist_invariant(1) [OF names, where Q = "\<lambda>_. True"]],
      simp_all add: first_journal_def)
  show ?thesis
    unfolding PrepareDurableJournal_def
    by (auto intro!: runs_seq [where R = "\<lambda>_. ?I"] simp: quiet memory persist split: option.split)
qed

lemma execute_invariant:
  assumes names: "transaction_names paths stage" and tx: "of_transaction paths stage expected tx"
  shows "runs (linux_invariant V paths stage expected old) (Execute k V tx)
    (\<lambda>_ w. finished_invariant V paths stage expected w \<and> transaction_over V paths stage expected (lw_entries w))
    (linux_invariant V paths stage expected old)"
proof -
  let ?I = "linux_invariant V paths stage expected old"
  have quiet: "keeps ?I m" if "quiet m" for m :: "'a action" by (rule runs_quiet [OF that timeless_invariant(1)])
  have memory: "keeps ?I (update (\<lambda>w. w\<lparr>lw_execution_started := True\<rparr>))"
    by (rule runs_update) (simp add: invariant_defs)
  have journal: "runs ?I (reading lw_journal) (\<lambda>j w. ?I w \<and> (\<forall>journal. j = Some journal \<longrightarrow> lj_original_stage_name journal = stage)) ?I"
    by (rule runs_reading) (auto simp: linux_invariant_def journals_named_def)
  have prepare: "keeps ?I (case prepared of None \<Rightarrow> seq (PrepareDurableJournal k V tx) (\<lambda>_. ret ()) | Some _ \<Rightarrow> ret ())" for prepared
    by (auto intro!: runs_seq [OF prepare_invariant [OF names tx]] simp: quiet split: option.split)
  have renames: "runs (\<lambda>w. ?I w \<and> lj_original_stage_name j = stage)
      (seq (ExecutePrepareRename k tx j) (\<lambda>journal. seq (ExecuteBackupRename k V tx journal) (\<lambda>journal.
       seq (ExecuteActivationRename k V tx journal) (\<lambda>journal. ExecuteFinish k V tx journal))))
      (\<lambda>_ w. finished_invariant V paths stage expected w \<and> transaction_over V paths stage expected (lw_entries w)) ?I" for j
  proof (rule runs_assume [where b = "lj_original_stage_name j = stage"])
    assume j: "lj_original_stage_name j = stage"
    have named: "runs (\<lambda>w. P w \<and> lj_original_stage_name x = stage) m Q ?I"
      if "lj_original_stage_name x = stage \<Longrightarrow> runs P m Q ?I" for P Q x and m :: "'b action"
      using that by (auto simp: runs_def)
    show ?thesis
      by (rule runs_pre [OF runs_seq [OF execute_prepare_invariant [OF names tx j]]], rule named,
          rule runs_seq [OF execute_backup_invariant [OF names tx]], assumption, rule named,
          rule runs_seq [OF execute_activation_invariant [OF names tx]], assumption, rule named,
          rule execute_finish_invariant [OF names tx], assumption, simp)
  qed simp
  have rest: "runs (\<lambda>w. ?I w \<and> (\<forall>journal. j = Some journal \<longrightarrow> lj_original_stage_name journal = stage)) (case j of
        None \<Rightarrow> throwing (file_error ''no journal'')
      | Some journal \<Rightarrow> seq (ExecutePrepareRename k tx journal) (\<lambda>journal. seq (ExecuteBackupRename k V tx journal) (\<lambda>journal.
          seq (ExecuteActivationRename k V tx journal) (\<lambda>journal. ExecuteFinish k V tx journal))))
      (\<lambda>_ w. finished_invariant V paths stage expected w \<and> transaction_over V paths stage expected (lw_entries w)) ?I" for j
    by (cases j) (auto intro!: runs_throwing runs_pre [OF renames])
  show ?thesis
    unfolding Execute_def
    by (rule runs_seq [OF quiet], simp, rule runs_seq [OF prepare], rule runs_seq [OF quiet], simp,
        rule runs_seq [OF quiet], simp, rule runs_seq [OF memory], rule runs_seq [OF journal], rule rest)
qed

end

lemma cancel_invariant:
  assumes names: "transaction_names paths stage" and tx: "of_transaction paths stage expected tx"
  shows "keeps (linux_invariant V paths stage expected old) (CancelPrepared k tx)"
proof -
  have p: "ft_paths tx = paths" using tx by (simp add: of_transaction_def)
  let ?I = "linux_invariant V paths stage expected old"
  have quiet: "keeps ?I m" if "quiet m" for m :: "'a action" by (rule runs_quiet [OF that timeless_invariant(1)])
  have memory: "keeps ?I (update (\<lambda>w. w\<lparr>lw_lock_held := False, lw_journal := None, lw_journal_persisted := False\<rparr>))"
    by (rule runs_update) (simp add: invariant_defs)
  have remove: "keeps ?I (RemoveJournal k paths)"
    by (rule runs_conseq [OF runs_remove_journal [OF timeless_invariant(1)]])
      (auto simp: invariant_other_entry(1) [OF names] intro!: invariant_journal(1) [OF names])
  show ?thesis
    unfolding CancelPrepared_def p
    by (auto intro!: runs_seq [where R = "\<lambda>_. ?I"] simp: quiet remove memory split: option.split)
qed

lemma constructor_invariant:
  assumes names: "transaction_names paths stage" and "CreateLinuxTransactionPaths target tid = Inr paths"
  shows "keeps (linux_invariant V paths stage expected old)
    (MakeLinuxFileTransaction k parent target stage_parent stage_leaf tid pid start expected')"
proof -
  let ?I = "linux_invariant V paths stage expected old"
  have quiet: "keeps ?I m" if "quiet m" for m :: "'a action" by (rule runs_quiet [OF that timeless_invariant(1)])
  have create: "keeps ?I (CreateExclusive k (lp_lock_name paths))"
    by (rule runs_create [OF timeless_invariant(1)]) (simp add: invariant_other_entry(1) [OF names])
  have write_lock: "keeps ?I (WriteAll k e (lp_lock_name paths) s)" for e s
    by (rule runs_write [OF timeless_invariant(1)])
      (auto simp: write_bytes_def invariant_other_entry(1) [OF names] split: option.split)
  have unlink: "keeps ?I (Unlink k (lp_lock_name paths))"
    by (rule runs_unlink [OF timeless_invariant(1)]) (simp_all add: invariant_other_entry(1) [OF names])
  have memory: "keeps ?I (update (\<lambda>w. w\<lparr>lw_lock_held := True, lw_journal := None, lw_journal_persisted := False, lw_execution_started := False\<rparr>))"
    by (rule runs_update) (simp add: invariant_defs)
  have paths: "runs ?I (lift (CreateLinuxTransactionPaths target tid)) (\<lambda>p w. ?I w \<and> p = paths) ?I"
    by (rule runs_lift) (simp_all add: assms(2))
  have rest: "runs (\<lambda>w. ?I w \<and> p = paths) m (\<lambda>_. ?I) ?I" if "p = paths \<Longrightarrow> keeps ?I m" for p and m :: "'a action"
    using that by (auto simp: runs_def)
  show ?thesis
    unfolding MakeLinuxFileTransaction_def
    by (rule runs_seq [OF quiet], simp, rule runs_seq [OF paths], rule rest)
      (auto intro!: runs_seq [where R = "\<lambda>_. ?I"] runs_rethrowing simp: quiet create write_lock unlink memory)
qed

lemma destructor_invariant:
  assumes names: "transaction_names paths stage" and tx: "of_transaction paths stage expected tx"
  shows "keeps (linux_invariant V paths stage expected old) (DestroyLinuxFileTransaction k tx)"
proof -
  have p: "ft_paths tx = paths" using tx by (simp add: of_transaction_def)
  let ?I = "linux_invariant V paths stage expected old"
  have quiet: "keeps ?I m" if "quiet m" for m :: "'a action" by (rule runs_quiet [OF that timeless_invariant(1)])
  have memory: "keeps ?I (update (\<lambda>w. w\<lparr>lw_lock_held := False\<rparr>))"
    by (rule runs_update) (simp add: invariant_defs)
  have unlink: "keeps ?I (Unlink k (lp_lock_name paths))"
    by (rule runs_unlink [OF timeless_invariant(1)]) (simp_all add: invariant_other_entry(1) [OF names])
  have sync: "keeps ?I (catching (SyncLinuxDirectory k) ())"
    by (rule runs_catching [OF quiet]) simp_all
  show ?thesis
    unfolding DestroyLinuxFileTransaction_def p
    by (auto intro!: runs_seq [where R = "\<lambda>_. ?I"] simp: quiet memory unlink sync)
qed

section \<open>Recovery\<close>

definition observing :: "LinuxTransactionPaths \<Rightarrow> string \<Rightarrow> LinuxObservation \<Rightarrow> linux_entries \<Rightarrow> bool" where
  "observing paths stage ob entries \<longleftrightarrow>
     (lo_target ob \<longleftrightarrow> entries (lp_target_name paths) \<noteq> None) \<and> (lo_stage ob \<longleftrightarrow> entries stage \<noteq> None) \<and>
     (lo_prepared ob \<longleftrightarrow> entries (lp_prepared_name paths) \<noteq> None) \<and>
     (lo_backup ob \<longleftrightarrow> entries (lp_backup_name paths) \<noteq> None)"

definition observed_invariant ::
    "LinuxInstallPayloadVerifier \<Rightarrow> LinuxTransactionPaths \<Rightarrow> string \<Rightarrow> LinuxVerifiedPayloadIdentity \<Rightarrow>
     (string \<times> (string \<times> LinuxNode) list) \<Rightarrow> LinuxObservation \<Rightarrow> LinuxWorld \<Rightarrow> bool" where
  "observed_invariant V paths stage expected old ob w \<longleftrightarrow>
     linux_invariant V paths stage expected old w \<and> observing paths stage ob (lw_entries w)"

lemma timeless_observed [simp]: "timeless (observed_invariant V paths stage expected old ob)"
  unfolding observed_invariant_def by (rule timeless_conj [OF timeless_invariant(1)])

lemma observed_imp: "observed_invariant V paths stage expected old ob w \<Longrightarrow> linux_invariant V paths stage expected old w"
  by (simp add: observed_invariant_def)

lemma quiet_recovery_Matches [simp]: "quiet (recovery_Matches k l i)"
  unfolding recovery_Matches_def by (auto intro!: quiet_seq)

lemma observed_quiet:
  "quiet m \<Longrightarrow> runs (observed_invariant V paths stage expected old ob) m (\<lambda>_. observed_invariant V paths stage expected old ob)
     (linux_invariant V paths stage expected old)"
  by (rule runs_quiet_into [OF _ timeless_observed observed_imp])

lemma observed_persist:
  assumes "transaction_names paths stage" and "lj_original_stage_name j = stage"
  shows "runs (observed_invariant V paths stage expected old ob) (Persist k paths j)
    (\<lambda>_. observed_invariant V paths stage expected old ob) (linux_invariant V paths stage expected old)"
  by (rule runs_conseq [OF persist_invariant(1) [OF assms, where Q = "observing paths stage ob"]])
    (auto simp: observing_def observed_invariant_def)

lemma observed_stop:
  "runs (observed_invariant V paths stage expected old ob) (ret None)
     (\<lambda>r w. case r of None \<Rightarrow> linux_invariant V paths stage expected old w
        | Some (j, ob) \<Rightarrow> observed_invariant V paths stage expected old ob w \<and> lj_original_stage_name j = stage)
     (linux_invariant V paths stage expected old)"
  by (rule runs_ret) (simp add: observed_imp)

lemma observed_continue:
  "lj_original_stage_name j = stage \<Longrightarrow>
   runs (observed_invariant V paths stage expected old ob) (ret (Some (j, ob)))
     (\<lambda>r w. case r of None \<Rightarrow> linux_invariant V paths stage expected old w
        | Some (j, ob) \<Rightarrow> observed_invariant V paths stage expected old ob w \<and> lj_original_stage_name j = stage)
     (linux_invariant V paths stage expected old)"
  by (rule runs_ret) simp

lemma observed_rename:
  assumes "runs (\<lambda>w. linux_invariant V paths stage expected old w \<and> Q w) (RenameLinuxRelative k a b False)
      (\<lambda>_. linux_invariant V paths stage expected old) (linux_invariant V paths stage expected old)"
    and "\<And>w. observing paths stage ob (lw_entries w) \<Longrightarrow> Q w"
    and "\<And>(w :: LinuxWorld) node'. observing paths stage ob (lw_entries w) \<Longrightarrow> lw_entries w a \<noteq> None \<Longrightarrow> lw_entries w b = None \<Longrightarrow> a \<noteq> b \<Longrightarrow>
      observing paths stage ob' ((lw_entries w)(a := None, b := Some node'))"
  shows "runs (observed_invariant V paths stage expected old ob) (RenameLinuxRelative k a b False)
      (\<lambda>_. observed_invariant V paths stage expected old ob') (linux_invariant V paths stage expected old)"
proof -
  have "runs (\<lambda>w. observing paths stage ob (lw_entries w)) (RenameLinuxRelative k a b False)
      (\<lambda>_ w. observing paths stage ob' (lw_entries w)) (\<lambda>w. observing paths stage ob (lw_entries w))"
    by (rule runs_rename) (simp_all add: timeless_def assms(3))
  then show ?thesis
    using assms(1,2) unfolding observed_invariant_def
    by (fastforce simp: runs_def split: prod.splits outcome.splits)
qed

lemma observed_renames:
  assumes names: "transaction_names paths stage"
  shows "runs (observed_invariant V paths stage expected old ob) (RenameLinuxRelative k stage (lp_prepared_name paths) False)
      (\<lambda>_. observed_invariant V paths stage expected old (ob\<lparr>lo_stage := False, lo_prepared := True\<rparr>)) (linux_invariant V paths stage expected old)"
    and "lo_prepared ob \<Longrightarrow> runs (observed_invariant V paths stage expected old ob) (RenameLinuxRelative k (lp_target_name paths) (lp_backup_name paths) False)
      (\<lambda>_. observed_invariant V paths stage expected old (ob\<lparr>lo_target := False, lo_backup := True\<rparr>)) (linux_invariant V paths stage expected old)"
    and "runs (observed_invariant V paths stage expected old ob) (RenameLinuxRelative k (lp_prepared_name paths) (lp_target_name paths) False)
      (\<lambda>_. observed_invariant V paths stage expected old (ob\<lparr>lo_prepared := False, lo_target := True\<rparr>)) (linux_invariant V paths stage expected old)"
proof -
  have *: "stage \<noteq> lp_target_name paths" "stage \<noteq> lp_prepared_name paths" "stage \<noteq> lp_backup_name paths"
    "lp_target_name paths \<noteq> lp_prepared_name paths" "lp_target_name paths \<noteq> lp_backup_name paths" "lp_prepared_name paths \<noteq> lp_backup_name paths"
    using names by (auto simp: transaction_names_def)
  show "runs (observed_invariant V paths stage expected old ob) (RenameLinuxRelative k stage (lp_prepared_name paths) False)
      (\<lambda>_. observed_invariant V paths stage expected old (ob\<lparr>lo_stage := False, lo_prepared := True\<rparr>)) (linux_invariant V paths stage expected old)"
    by (rule observed_rename [where Q = "\<lambda>_. True"])
      (rule runs_conseq [OF rename_stage_invariant [OF names]], use * in \<open>auto simp: observing_def\<close>)
  show "runs (observed_invariant V paths stage expected old ob) (RenameLinuxRelative k (lp_prepared_name paths) (lp_target_name paths) False)
      (\<lambda>_. observed_invariant V paths stage expected old (ob\<lparr>lo_prepared := False, lo_target := True\<rparr>)) (linux_invariant V paths stage expected old)"
    by (rule observed_rename [where Q = "\<lambda>_. True"])
      (rule runs_conseq [OF rename_prepared_invariant [OF names, where Q = "\<lambda>_ _. True"]], use * in \<open>auto simp: observing_def\<close>)
  show "runs (observed_invariant V paths stage expected old ob) (RenameLinuxRelative k (lp_target_name paths) (lp_backup_name paths) False)
      (\<lambda>_. observed_invariant V paths stage expected old (ob\<lparr>lo_target := False, lo_backup := True\<rparr>)) (linux_invariant V paths stage expected old)"
    if "lo_prepared ob"
    by (rule observed_rename [where Q = "\<lambda>w. lw_entries w (lp_prepared_name paths) \<noteq> None"])
      (rule runs_conseq [OF rename_target_invariant [OF names, where Q = "\<lambda>_. True"]], use * that in \<open>auto simp: observing_def\<close>)
qed

text \<open>Each step of the recovery keeps the invariant and its flags stay true.\<close>

lemma recover_renames:
  assumes names: "transaction_names paths stage" and j: "lj_original_stage_name j = stage"
  shows "runs (observed_invariant V paths stage expected old ob) (RecoverPrepareRename k V paths expected j ob)
      (\<lambda>r w. case r of None \<Rightarrow> linux_invariant V paths stage expected old w
        | Some (j, ob) \<Rightarrow> observed_invariant V paths stage expected old ob w \<and> lj_original_stage_name j = stage) (linux_invariant V paths stage expected old)"
    and "runs (observed_invariant V paths stage expected old ob) (RecoverBackupRename k paths j ob)
      (\<lambda>r w. case r of None \<Rightarrow> linux_invariant V paths stage expected old w
        | Some (j, ob) \<Rightarrow> observed_invariant V paths stage expected old ob w \<and> lj_original_stage_name j = stage) (linux_invariant V paths stage expected old)"
    and "runs (observed_invariant V paths stage expected old ob) (RecoverActivationRename k V paths expected j ob)
      (\<lambda>r w. case r of None \<Rightarrow> linux_invariant V paths stage expected old w
        | Some (j, ob) \<Rightarrow> observed_invariant V paths stage expected old ob w \<and> lj_original_stage_name j = stage) (linux_invariant V paths stage expected old)"
proof -
  note quiet = observed_quiet [of _ V paths stage expected old]
  note persist = observed_persist [OF names, of _ V expected old]
  note stop = observed_stop [of V paths stage expected old] and go = observed_continue [of _ stage V paths expected old]
  show "runs (observed_invariant V paths stage expected old ob) (RecoverPrepareRename k V paths expected j ob)
      (\<lambda>r w. case r of None \<Rightarrow> linux_invariant V paths stage expected old w
        | Some (j, ob) \<Rightarrow> observed_invariant V paths stage expected old ob w \<and> lj_original_stage_name j = stage) (linux_invariant V paths stage expected old)"
    unfolding RecoverPrepareRename_def j
    by (rule runs_if, rule go, rule j, rule runs_seq [OF quiet], simp, rule runs_if, rule stop, rule runs_seq [OF quiet], simp,
        rule runs_if, rule stop, rule runs_seq [OF observed_renames(1) [OF names]], rule runs_seq [OF quiet], simp,
        rule runs_seq [OF quiet], simp, rule runs_seq [OF persist], simp add: j, rule go, simp add: j)
  show "runs (observed_invariant V paths stage expected old ob) (RecoverActivationRename k V paths expected j ob)
      (\<lambda>r w. case r of None \<Rightarrow> linux_invariant V paths stage expected old w
        | Some (j, ob) \<Rightarrow> observed_invariant V paths stage expected old ob w \<and> lj_original_stage_name j = stage) (linux_invariant V paths stage expected old)"
    unfolding RecoverActivationRename_def
    by (rule runs_if, rule go, rule j, rule runs_seq [OF quiet], simp, rule runs_if, rule stop, rule runs_seq [OF quiet], simp,
        rule runs_if, rule stop, rule runs_seq [OF observed_renames(3) [OF names]], rule runs_seq [OF quiet], simp,
        rule runs_seq [OF quiet], simp, rule runs_seq [OF persist], simp add: j, rule go, simp add: j)
  show "runs (observed_invariant V paths stage expected old ob) (RecoverBackupRename k paths j ob)
      (\<lambda>r w. case r of None \<Rightarrow> linux_invariant V paths stage expected old w
        | Some (j, ob) \<Rightarrow> observed_invariant V paths stage expected old ob w \<and> lj_original_stage_name j = stage) (linux_invariant V paths stage expected old)"
    unfolding RecoverBackupRename_def
    by (rule runs_if, rule go, rule j, rule runs_seq [OF quiet], simp, rule runs_if, rule stop,
        rule runs_seq [OF observed_renames(2) [OF names]], simp, rule runs_seq [OF quiet], simp,
        rule runs_seq [OF quiet], simp, rule runs_seq [OF persist], simp add: j, rule go, simp add: j)
qed

lemma recover_cleanup:
  assumes names: "transaction_names paths stage" and j: "lj_original_stage_name j = stage"
  shows "runs (\<lambda>w. finished_invariant V paths stage expected w \<and> (lo_backup ob \<longleftrightarrow> lw_entries w (lp_backup_name paths) \<noteq> None))
    (RecoverCleanup k paths j ob)
    (\<lambda>r w. linux_invariant V paths stage expected old w \<and> (r = ro_kRecovered \<longrightarrow> transaction_over V paths stage expected (lw_entries w)))
    (linux_invariant V paths stage expected old)"
proof -
  let ?I = "linux_invariant V paths stage expected old" and ?F = "finished_invariant V paths stage expected"
  let ?C = "\<lambda>w. ?F w \<and> lw_entries w (lp_backup_name paths) = None"
  let ?O = "\<lambda>w. ?F w \<and> transaction_over V paths stage expected (lw_entries w)"
  have time: "timeless ?O" using timeless_invariant(2) by (rule timeless_conj)
  have quiet: "runs ?F m (\<lambda>_. ?F) ?I" if "quiet m" for m :: "'a action"
    by (rule runs_quiet_into [OF that timeless_invariant(2) finished_imp_invariant])
  have persist: "runs ?F (Persist k paths (j\<lparr>lj_state := s\<rparr>)) (\<lambda>_. ?F) ?I" for s
    by (rule finish_persist [OF names]) (simp add: j)
  have unlink: "runs ?O (UnlinkOrMissing k (lp_recovery_lock_name paths)) (\<lambda>_. ?O) ?I"
  proof -
    have ignores: "?O (set_entry (lp_recovery_lock_name paths) None w) \<longleftrightarrow> ?O w" for w
      using names invariant_other_entry(2) [OF names, of "lp_recovery_lock_name paths"]
      by (auto simp: transaction_over_def activated_def transaction_names_def)
    have "keeps ?O (Unlink k (lp_recovery_lock_name paths))"
      by (rule runs_unlink [OF time]) (simp_all add: ignores del: set_entry_simps)
    then have "runs ?O (Unlink k (lp_recovery_lock_name paths)) (\<lambda>_. ?O) ?I"
      by (rule runs_conseq) (auto intro: finished_imp_invariant)
    then show ?thesis
      unfolding UnlinkOrMissing_def
      by (intro runs_seq [OF runs_quiet_into [OF _ time]] runs_seq runs_ret) (auto intro: finished_imp_invariant)
  qed
  have sync: "runs ?O (SyncLinuxDirectory k) (\<lambda>_. ?O) ?I"
    by (rule runs_quiet_into [OF _ time]) (auto intro: finished_imp_invariant)
  have last: "runs ?O (ret r) (\<lambda>r w. ?I w \<and> (r = ro_kRecovered \<longrightarrow> transaction_over V paths stage expected (lw_entries w))) ?I" for r
    by (rule runs_ret) (auto intro: finished_imp_invariant)
  have backup: "runs (\<lambda>w. ?F w \<and> (lo_backup ob \<longleftrightarrow> lw_entries w (lp_backup_name paths) \<noteq> None))
      (if \<not> lo_backup ob then ret True
       else seq (recovery_Matches k (lp_backup_name paths) (lj_target_identity j)) (\<lambda>matches.
         if \<not> matches then ret False
         else seq (Persist k paths (j\<lparr>lj_state := lt_kTargetActivated\<rparr>)) (\<lambda>_. seq (Persist k paths (j\<lparr>lj_state := lt_kCompleted\<rparr>)) (\<lambda>_.
           seq (RemoveLinuxTreeExact k (lp_backup_name paths) (lj_target_identity j)) (\<lambda>_. ret True)))))
      (\<lambda>cleaned w. ?I w \<and> (cleaned \<longrightarrow> ?C w)) ?I"
  proof (cases "lo_backup ob")
    case False
    then show ?thesis by (auto intro!: runs_ret finished_imp_invariant)
  next
    case True
    have stop: "runs ?F (ret False) (\<lambda>cleaned w. ?I w \<and> (cleaned \<longrightarrow> ?C w)) ?I"
      by (rule runs_ret) (auto intro: finished_imp_invariant)
    have cleaned: "runs ?C (ret True) (\<lambda>cleaned w. ?I w \<and> (cleaned \<longrightarrow> ?C w)) ?I"
      by (rule runs_ret) (auto intro: finished_imp_invariant)
    have "runs ?F (seq (recovery_Matches k (lp_backup_name paths) (lj_target_identity j)) (\<lambda>matches.
         if \<not> matches then ret False
         else seq (Persist k paths (j\<lparr>lj_state := lt_kTargetActivated\<rparr>)) (\<lambda>_. seq (Persist k paths (j\<lparr>lj_state := lt_kCompleted\<rparr>)) (\<lambda>_.
           seq (RemoveLinuxTreeExact k (lp_backup_name paths) (lj_target_identity j)) (\<lambda>_. ret True)))))
      (\<lambda>cleaned w. ?I w \<and> (cleaned \<longrightarrow> ?C w)) ?I"
      by (rule runs_seq [OF quiet], simp, rule runs_if, rule stop, rule runs_seq [OF persist], rule runs_seq [OF persist],
          rule runs_seq [OF finish_remove_tree [OF names]], rule cleaned)
    then show ?thesis using True by (simp add: runs_def)
  qed
  have manual: "runs (\<lambda>w. ?I w \<and> (cleaned \<longrightarrow> ?C w)) (ret ro_kManualActionRequired)
      (\<lambda>r w. ?I w \<and> (r = ro_kRecovered \<longrightarrow> transaction_over V paths stage expected (lw_entries w))) ?I" for cleaned
    by (rule runs_ret) simp
  show ?thesis
    unfolding RecoverCleanup_def
    by (rule runs_seq [OF backup], rule runs_if, rule manual, rule runs_seq [OF runs_pre [OF finish_cleanup [OF names]]], simp,
        rule runs_seq [OF unlink], rule runs_if, rule last, rule runs_seq [OF sync], rule last)
qed

lemma observe_invariant:
  "runs (linux_invariant V paths stage expected old) (Observe k paths stage)
     (\<lambda>ob. observed_invariant V paths stage expected old ob) (linux_invariant V paths stage expected old)"
proof -
  let ?I = "linux_invariant V paths stage expected old"
  have seen: "runs (\<lambda>w. ?I w \<and> Q (lw_entries w)) (LinuxRelativeExistsNoFollow k l)
      (\<lambda>b w. ?I w \<and> (Q (lw_entries w) \<and> (b \<longleftrightarrow> lw_entries w l \<noteq> None))) ?I" for Q l
    by (rule runs_conseq [OF runs_exists [OF timeless_conj [OF timeless_invariant(1)]]]) auto
  show ?thesis
    unfolding Observe_def
    by (rule runs_pre [OF runs_seq [OF seen [where Q = "\<lambda>_. True"]]], rule runs_seq [OF seen], rule runs_seq [OF seen],
        rule runs_seq [OF seen], rule runs_ret) (simp_all add: observed_invariant_def observing_def)
qed

lemma load_invariant:
  "runs (linux_invariant V paths stage expected old) (Load k paths)
     (\<lambda>r w. linux_invariant V paths stage expected old w \<and> (\<forall>j. r = Some j \<longrightarrow> lj_original_stage_name j = stage))
     (linux_invariant V paths stage expected old)"
proof -
  let ?I = "linux_invariant V paths stage expected old"
  let ?R = "\<lambda>s w. ?I w \<and> (\<forall>j. DecodeJournal s = Inr j \<longrightarrow> lj_original_stage_name j = stage)"
  have quiet: "keeps ?I m" if "quiet m" for m :: "'a action" by (rule runs_quiet [OF that timeless_invariant(1)])
  have read: "runs ?I (ReadLinuxRelativeUtf8 k (lp_journal_name paths) n) ?R ?I" for n
    by (rule runs_conseq [OF runs_read_text [OF timeless_invariant(1)]])
      (auto simp: linux_invariant_def journals_named_def)
  have decode: "runs (?R s) (lift (DecodeJournal s)) (\<lambda>j w. ?I w \<and> lj_original_stage_name j = stage) ?I" for s
    by (rule runs_lift) auto
  have decoded: "runs (?R s) (seq (lift (DecodeJournal s)) (\<lambda>j. ret (Some j)))
      (\<lambda>r w. ?I w \<and> (\<forall>j. r = Some j \<longrightarrow> lj_original_stage_name j = stage)) ?I" for s
    by (rule runs_seq [OF decode], rule runs_ret) simp
  have absent: "runs ?I (ret None) (\<lambda>r w. ?I w \<and> (\<forall>j. r = Some j \<longrightarrow> lj_original_stage_name j = stage)) ?I"
    by (rule runs_ret) simp
  show ?thesis
    unfolding Load_def
    by (rule runs_seq [OF quiet], simp, rule runs_if, rule absent, rule runs_seq [OF read], rule decoded)
qed

lemma ownership_invariant:
  assumes names: "transaction_names paths stage"
  shows "runs (linux_invariant V paths stage expected old) (RecoverOrphanLock k paths alive)
      (\<lambda>r w. linux_invariant V paths stage expected old w \<and> r \<noteq> ro_kRecovered) (linux_invariant V paths stage expected old)"
    and "runs (linux_invariant V paths stage expected old) (TakeOwnership k paths expected alive j)
      (\<lambda>r w. linux_invariant V paths stage expected old w \<and> r \<noteq> Some ro_kRecovered) (linux_invariant V paths stage expected old)"
proof -
  let ?I = "linux_invariant V paths stage expected old"
  have quiet: "keeps ?I m" if "quiet m" for m :: "'a action" by (rule runs_quiet [OF that timeless_invariant(1)])
  have unlink: "keeps ?I (Unlink k (lp_lock_name paths))"
    by (rule runs_unlink [OF timeless_invariant(1)]) (simp_all add: invariant_other_entry(1) [OF names])
  have open_lock: "keeps ?I (OpenOrCreate k (lp_recovery_lock_name paths))"
    by (rule runs_open_or_create [OF timeless_invariant(1)]) (simp_all add: invariant_other_entry(1) [OF names])
  have early: "runs ?I (ret r) (\<lambda>r w. ?I w \<and> r \<noteq> x) ?I" if "r \<noteq> x" for r x :: 'b
    using that by (intro runs_ret) simp
  show "runs ?I (RecoverOrphanLock k paths alive) (\<lambda>r w. ?I w \<and> r \<noteq> ro_kRecovered) ?I"
    unfolding RecoverOrphanLock_def by (auto intro!: runs_seq [where R = "\<lambda>_. ?I"] simp: quiet unlink early)
  show "runs ?I (TakeOwnership k paths expected alive j) (\<lambda>r w. ?I w \<and> r \<noteq> Some ro_kRecovered) ?I"
    unfolding TakeOwnership_def by (auto intro!: runs_seq [where R = "\<lambda>_. ?I"] simp: quiet open_lock early)
qed

context payload_verifier
begin

lemma quiet_ObservationVerified: "quiet (ObservationVerified k V paths j ob)"
  unfolding ObservationVerified_def by (auto intro!: quiet_seq simp: quiet_Matches)

lemma target_verified:
  assumes names: "transaction_names paths stage"
  shows "runs (observed_invariant V paths stage expected old ob) (TargetVerified k V paths expected j ob)
    (\<lambda>b w. linux_invariant V paths stage expected old w \<and> (b \<longrightarrow> finished_invariant V paths stage expected w \<and>
       (lo_backup ob \<longleftrightarrow> lw_entries w (lp_backup_name paths) \<noteq> None)))
    (linux_invariant V paths stage expected old)"
proof -
  let ?I = "linux_invariant V paths stage expected old" and ?O = "observed_invariant V paths stage expected old ob"
  let ?Q = "\<lambda>b w. ?I w \<and> (b \<longrightarrow> finished_invariant V paths stage expected w \<and> (lo_backup ob \<longleftrightarrow> lw_entries w (lp_backup_name paths) \<noteq> None))"
  have finalize: "runs ?O (vf_Finalize V k (lp_target_name paths) i) (\<lambda>_. ?O) ?I" for i
    unfolding observed_invariant_def
    by (rule finalize_invariant [OF names]) (use names in \<open>auto simp: timeless_def observing_def transaction_names_def\<close>)
  have first: "runs ?O (if b then vf_Finalize V k (lp_target_name paths) i else ret ()) (\<lambda>_. ?O) ?I" for b i
    by (simp add: finalize observed_quiet)
  have no: "runs ?O (ret False) ?Q ?I" by (rule runs_ret) (simp add: observed_imp)
  have verify: "runs ?O (Verify k V (lp_target_name paths)) (\<lambda>p w. ?O w \<and> vf_Verify V (lw_entries w) (lp_target_name paths) = Inr p) ?I"
    by (rule runs_conseq [OF runs_verify [OF timeless_observed]]) (auto intro: observed_imp)
  have final: "runs (\<lambda>w. ?O w \<and> vf_Verify V (lw_entries w) (lp_target_name paths) = Inr p) (ret (p = expected)) ?Q ?I"
    if "lo_target ob" "\<not> lo_stage ob" "\<not> lo_prepared ob" for p
    by (rule runs_ret) (use that in \<open>auto simp: observed_invariant_def observing_def intro: verified_finished\<close>)
  show ?thesis
    unfolding TargetVerified_def
    by (rule runs_seq [OF first], rule runs_if, rule no, rule runs_seq [OF observed_quiet [OF quiet_Matches]],
        rule runs_if, rule no, rule runs_seq [OF verify], rule final) simp_all
qed

lemma recover_swap_invariant:
  assumes names: "transaction_names paths stage" and j: "lj_original_stage_name j = stage"
  shows "runs (linux_invariant V paths stage expected old) (RecoverSwap k V paths expected j)
    (\<lambda>r w. linux_invariant V paths stage expected old w \<and> (r = ro_kRecovered \<longrightarrow> transaction_over V paths stage expected (lw_entries w)))
    (linux_invariant V paths stage expected old)"
proof -
  let ?I = "linux_invariant V paths stage expected old" and ?O = "observed_invariant V paths stage expected old"
  let ?Q = "\<lambda>r w. ?I w \<and> (r = ro_kRecovered \<longrightarrow> transaction_over V paths stage expected (lw_entries w))"
  let ?S = "\<lambda>r w. case r of None \<Rightarrow> ?I w | Some (j, ob) \<Rightarrow> ?O ob w \<and> lj_original_stage_name j = stage"
  have manual: "runs (?O ob) (ret ro_kManualActionRequired) ?Q ?I" for ob
    by (rule runs_ret) (simp add: observed_imp)
  have state: "runs (?S r) (case r of None \<Rightarrow> ret ro_kManualActionRequired | Some (journal, ob) \<Rightarrow> f journal ob) ?Q ?I"
    if "\<And>j ob. lj_original_stage_name j = stage \<Longrightarrow> runs (?O ob) (f j ob) ?Q ?I" for r f
  proof (cases r)
    case None
    then show ?thesis by (auto intro: runs_ret)
  next
    case (Some x)
    obtain j ob where x: "x = (j, ob)" by (cases x)
    show ?thesis unfolding Some x option.case prod.case
      by (rule runs_assume [where b = "lj_original_stage_name j = stage"], simp, rule runs_pre [OF that], assumption, simp)
  qed
  have cleanup: "runs (\<lambda>w. ?I w \<and> (b \<longrightarrow> finished_invariant V paths stage expected w \<and>
      (lo_backup ob \<longleftrightarrow> lw_entries w (lp_backup_name paths) \<noteq> None)))
      (if \<not> b then ret ro_kManualActionRequired else RecoverCleanup k paths j ob) ?Q ?I"
    if "lj_original_stage_name j = stage" for b j ob
    by (rule runs_if, rule runs_ret, simp, rule runs_pre [OF recover_cleanup [OF names that]]) simp
  show ?thesis
    unfolding RecoverSwap_def j
    by (rule runs_seq [OF observe_invariant], rule runs_if, rule manual,
        rule runs_seq [OF observed_quiet [OF quiet_ObservationVerified]], rule runs_if, rule manual,
        rule runs_seq [OF recover_renames(1) [OF names j]], rule state, rule runs_seq [OF recover_renames(2) [OF names]], assumption,
        rule state, rule runs_seq [OF recover_renames(3) [OF names]], assumption, rule state,
        rule runs_seq [OF target_verified [OF names]], rule cleanup, assumption)
qed

lemma recover_invariant:
  assumes names: "transaction_names paths stage"
  shows "runs (linux_invariant V paths stage expected old) (Recover k V paths expected alive)
    (\<lambda>r w. linux_invariant V paths stage expected old w \<and> (r = ro_kRecovered \<longrightarrow> transaction_over V paths stage expected (lw_entries w)))
    (linux_invariant V paths stage expected old)"
proof -
  let ?I = "linux_invariant V paths stage expected old"
  let ?Q = "\<lambda>r w. ?I w \<and> (r = ro_kRecovered \<longrightarrow> transaction_over V paths stage expected (lw_entries w))"
  have quiet: "keeps ?I m" if "quiet m" for m :: "'a action" by (rule runs_quiet [OF that timeless_invariant(1)])
  have early: "runs (\<lambda>w. ?I w \<and> P) (ret r) ?Q ?I" if "P \<Longrightarrow> r \<noteq> ro_kRecovered" for r P
    using that by (intro runs_ret) simp
  have orphan: "runs ?I (RecoverOrphanLock k paths alive) ?Q ?I"
    by (rule runs_conseq [OF ownership_invariant(1) [OF names]]) auto
  have owned: "runs (\<lambda>w. ?I w \<and> stopped \<noteq> Some ro_kRecovered) (case stopped of
      Some outcome \<Rightarrow> ret outcome | None \<Rightarrow> RecoverSwap k V paths expected j) ?Q ?I" if "lj_original_stage_name j = stage" for stopped j
    by (cases stopped) (auto intro: early runs_pre [OF recover_swap_invariant [OF names that]])
  have loaded: "runs (\<lambda>w. ?I w \<and> (\<forall>j. r = Some j \<longrightarrow> lj_original_stage_name j = stage)) (case r of
        None \<Rightarrow> RecoverOrphanLock k paths alive
      | Some journal \<Rightarrow> seq (TakeOwnership k paths expected alive journal) (\<lambda>stopped. case stopped of
          Some outcome \<Rightarrow> ret outcome | None \<Rightarrow> RecoverSwap k V paths expected journal)) ?Q ?I" for r
  proof (cases r)
    case None
    then show ?thesis using orphan by simp
  next
    case (Some j)
    show ?thesis
      by (rule runs_assume [where b = "lj_original_stage_name j = stage"], simp add: Some)
        (simp add: Some, rule runs_pre [OF runs_seq [OF ownership_invariant(2) [OF names]]], rule owned, simp_all)
  qed
  show ?thesis
    unfolding Recover_def
    by (rule runs_catching, rule runs_seq [OF quiet], rule quiet_call, simp, rule runs_seq [OF quiet], simp, rule runs_if,
        rule runs_pre [OF early [of True]], simp, simp, rule runs_seq [OF load_invariant], rule loaded, simp)
qed

end

section \<open>Sequences of operations\<close>

text \<open>
  One operation on a directory, in any process and under any kernel; \<open>forgets\<close> is the end of a process,
  whose memory is gone.
\<close>

inductive linux_step ::
    "LinuxInstallPayloadVerifier \<Rightarrow> LinuxTransactionPaths \<Rightarrow> string \<Rightarrow> LinuxVerifiedPayloadIdentity \<Rightarrow> LinuxWorld \<Rightarrow> LinuxWorld \<Rightarrow> bool"
  for V paths stage expected where
  constructs: "CreateLinuxTransactionPaths target tid = Inr paths \<Longrightarrow>
    MakeLinuxFileTransaction k parent target stage_parent stage tid pid start expected w = (r, w') \<Longrightarrow>
    linux_step V paths stage expected w w'"
| prepares: "of_transaction paths stage expected tx \<Longrightarrow> PrepareDurableJournal k V tx w = (r, w') \<Longrightarrow> linux_step V paths stage expected w w'"
| cancels: "of_transaction paths stage expected tx \<Longrightarrow> CancelPrepared k tx w = (r, w') \<Longrightarrow> linux_step V paths stage expected w w'"
| executes: "of_transaction paths stage expected tx \<Longrightarrow> Execute k V tx w = (r, w') \<Longrightarrow> linux_step V paths stage expected w w'"
| destroys: "of_transaction paths stage expected tx \<Longrightarrow> DestroyLinuxFileTransaction k tx w = (r, w') \<Longrightarrow> linux_step V paths stage expected w w'"
| recovers: "Recover k V paths expected alive w = (r, w') \<Longrightarrow> linux_step V paths stage expected w w'"
| forgets: "linux_step V paths stage expected w (w\<lparr>lw_lock_held := False, lw_journal := None, lw_journal_persisted := False,
    lw_execution_started := False, lw_clock := c\<rparr>)"

lemma runs_keepsD: "runs P m Q P \<Longrightarrow> (\<And>x w. Q x w \<Longrightarrow> P w) \<Longrightarrow> P w \<Longrightarrow> m w = (r, w') \<Longrightarrow> P w'"
  using runsD [of P m Q P w r w'] by (cases r) auto

context payload_verifier
begin

lemma step_invariant:
  assumes "linux_step V paths stage expected w w'" and names: "transaction_names paths stage"
    and inv: "linux_invariant V paths stage expected old w"
  shows "linux_invariant V paths stage expected old w'"
  using assms(1,3)
proof (induction rule: linux_step.induct)
  case (constructs target tid k parent stage_parent pid start w r w')
  then show ?case using runs_keepsD [OF constructor_invariant [OF names constructs(1)]] by blast
next
  case (prepares tx k w r w')
  then show ?case using runs_keepsD [OF prepare_invariant [OF names prepares(1)]] by blast
next
  case (cancels tx k w r w')
  then show ?case using runs_keepsD [OF cancel_invariant [OF names cancels(1)]] by blast
next
  case (executes tx k w r w')
  then show ?case using runs_keepsD [OF execute_invariant [OF names executes(1)]] finished_imp_invariant by blast
next
  case (destroys tx k w r w')
  then show ?case using runs_keepsD [OF destructor_invariant [OF names destroys(1)]] by blast
next
  case (recovers k alive w r w')
  then show ?case using runs_keepsD [OF recover_invariant [OF names]] by blast
next
  case (forgets w c)
  then show ?case by (simp add: invariant_defs)
qed

lemma reachable_invariant:
  assumes "(linux_step V paths stage expected)\<^sup>*\<^sup>* w w'" and "transaction_names paths stage"
    and "linux_invariant V paths stage expected old w"
  shows "linux_invariant V paths stage expected old w'"
  using assms by (induction rule: rtranclp_induct) (auto intro: step_invariant)

end

section \<open>Properties\<close>

text \<open>
  C1. The application is never lost. Start from a directory whose target holds some content, with no journal of
  the transaction yet, and perform any operations of the transaction and its recovery, in any order
  and number, where any system call may fail and the process may die at any call. At every such point
  the old content is still complete under the target name or the backup name, or the target holds
  content that was verified as the expected payload.
\<close>

theorem linux_application_never_lost:
  assumes "transaction_names paths stage" and "has_content (lw_entries w) (lp_target_name paths) old"
    and "lw_entries w (lp_journal_name paths) = None" and "lw_journal w = None"
    and "(linux_step (archive_verifier mode check) paths stage expected)\<^sup>*\<^sup>* w w'"
  shows "application_kept (archive_verifier mode check) paths stage expected old (lw_entries w')"
proof -
  have "linux_invariant (archive_verifier mode check) paths stage expected old w"
    using assms(2-4) by (simp add: linux_invariant_def application_kept_def journals_named_def)
  from archive.reachable_invariant [OF assms(5,1) this] show ?thesis by (simp add: linux_invariant_def)
qed

text \<open>
  C4. Success is not claimed without evidence. In any state that keeps the invariant of C1, as every state that its runs reach does: when the
  transaction reports completion, or the recovery reports that it recovered, the target holds content that was verified there as the expected payload, and
  stage, prepared payload, backup, journal and lock are gone. A recovery that its process survives
  always reports one of its four outcomes.
\<close>

theorem linux_completion_verified:
  assumes "transaction_names paths stage" and "linux_invariant (archive_verifier mode check) paths stage expected old w"
  shows "(of_transaction paths stage expected tx \<and> Execute k (archive_verifier mode check) tx w = (Returned (), w') \<longrightarrow>
       transaction_over (archive_verifier mode check) paths stage expected (lw_entries w')) \<and>
     (Recover k (archive_verifier mode check) paths expected alive w = (Returned ro_kRecovered, w') \<longrightarrow>
       transaction_over (archive_verifier mode check) paths stage expected (lw_entries w')) \<and>
     fst (Recover k (archive_verifier mode check) paths expected alive w) \<noteq> Threw e"
proof -
  have "transaction_over (archive_verifier mode check) paths stage expected (lw_entries w')"
    if "of_transaction paths stage expected tx" "Execute k (archive_verifier mode check) tx w = (Returned (), w')"
    using runsD [OF archive.execute_invariant [OF assms(1)] assms(2)] that by fastforce
  moreover have "transaction_over (archive_verifier mode check) paths stage expected (lw_entries w')"
    if "Recover k (archive_verifier mode check) paths expected alive w = (Returned ro_kRecovered, w')"
    using runsD [OF archive.recover_invariant [OF assms(1)] assms(2)] that by fastforce
  moreover have "fst (Recover k (archive_verifier mode check) paths expected alive w) \<noteq> Threw e"
    by (auto simp: Recover_def catching_def split: prod.splits outcome.splits)
  ultimately show ?thesis by blast
qed

section \<open>A concrete transaction\<close>

lemma sample_run:
  obtains tx w1 w2 where
    "linux_step (archive_verifier 0x1ED sample_check) sample_paths ''Stage.AppDir'' sample_payload sample_directory w1"
    "of_transaction sample_paths ''Stage.AppDir'' sample_payload tx"
    "Execute sample_kernel (archive_verifier 0x1ED sample_check) tx w1 = (Returned (), w2)"
    "lw_entries w2 (lp_backup_name sample_paths) = None"
proof -
  obtain tx w1 w2 n where made: "MakeLinuxFileTransaction sample_kernel ''/opt'' ''Example.AppDir'' ''/opt'' ''Stage.AppDir''
      sample_transaction 7 9 sample_payload sample_directory = (Returned tx, w1)"
    and run: "Execute sample_kernel (archive_verifier 0x1ED sample_check) tx w1 = (Returned (), w2)"
    and over: "standing sample_paths ''Stage.AppDir'' (sample_identity 1 True) None (Some n) None None w2"
    and tx: "of_transaction sample_paths ''Stage.AppDir'' sample_payload tx"
    using sample_installed unfolding of_transaction_def by blast
  show ?thesis
    by (rule that [OF linux_step.constructs [OF sample_paths_created made] tx run])
      (use over in \<open>simp add: standing_def\<close>)
qed

lemma sample_start:
  "has_content (lw_entries sample_directory) (lp_target_name sample_paths) (content (sample_tree 2 ''old''))"
  "lw_journal sample_directory = None"
  using sample_standing(1) by (simp_all add: standing_def sample_directory_def)

theorem linux_application_never_lost_witness:
  "\<exists>w. (linux_step (archive_verifier 0x1ED sample_check) sample_paths ''Stage.AppDir'' sample_payload)\<^sup>*\<^sup>* sample_directory w \<and>
     lw_entries w (lp_backup_name sample_paths) = None \<and>
     application_kept (archive_verifier 0x1ED sample_check) sample_paths ''Stage.AppDir'' sample_payload
       (content (sample_tree 2 ''old'')) (lw_entries w)"
proof (rule sample_run)
  fix tx w1 w2
  assume 1: "linux_step (archive_verifier 0x1ED sample_check) sample_paths ''Stage.AppDir'' sample_payload sample_directory w1"
    and tx: "of_transaction sample_paths ''Stage.AppDir'' sample_payload tx"
    and run: "Execute sample_kernel (archive_verifier 0x1ED sample_check) tx w1 = (Returned (), w2)"
    and gone: "lw_entries w2 (lp_backup_name sample_paths) = None"
  have steps: "(linux_step (archive_verifier 0x1ED sample_check) sample_paths ''Stage.AppDir'' sample_payload)\<^sup>*\<^sup>* sample_directory w2"
    using 1 linux_step.executes [OF tx run] by (meson converse_rtranclp_into_rtranclp r_into_rtranclp)
  from linux_application_never_lost [OF sample_names sample_start(1) sample_standing(3) sample_start(2) this] steps gone
  show ?thesis by blast
qed

theorem linux_completion_verified_witness:
  "\<exists>tx w1 w2. Execute sample_kernel (archive_verifier 0x1ED sample_check) tx w1 = (Returned (), w2) \<and>
     transaction_over (archive_verifier 0x1ED sample_check) sample_paths ''Stage.AppDir'' sample_payload (lw_entries w2)"
proof (rule sample_run)
  fix tx w1 w2
  assume 1: "linux_step (archive_verifier 0x1ED sample_check) sample_paths ''Stage.AppDir'' sample_payload sample_directory w1"
    and tx: "of_transaction sample_paths ''Stage.AppDir'' sample_payload tx"
    and run: "Execute sample_kernel (archive_verifier 0x1ED sample_check) tx w1 = (Returned (), w2)"
  have "linux_invariant (archive_verifier 0x1ED sample_check) sample_paths ''Stage.AppDir'' sample_payload
      (content (sample_tree 2 ''old'')) sample_directory"
    using sample_start sample_standing(3) by (simp add: linux_invariant_def application_kept_def journals_named_def)
  from archive.step_invariant [OF 1 sample_names this]
  have "linux_invariant (archive_verifier 0x1ED sample_check) sample_paths ''Stage.AppDir'' sample_payload
      (content (sample_tree 2 ''old'')) w1" .
  from linux_completion_verified [OF sample_names this] tx run show ?thesis by blast
qed

end
