(* ===== verification/Linux_Registry.thy ===== *)
theory Linux_Registry
  imports Linux_Directory
begin

text \<open>
  The index of install transactions that the Linux helper keeps, \<^verbatim>\<open>linux_transaction_registry.{h,cc}\<close>: one record per
  transaction, with its strict codec and the order in which its states may follow each other. The digest
  function is a parameter: it is a function of OpenSSL that may throw.
\<close>

type_synonym digest_function = "string \<Rightarrow> string result"

section \<open>Records\<close>

record LinuxTransactionRegistryRecord =
  rg_schema_version :: int
  rg_transaction_id :: string
  rg_package_id :: string
  rg_policy_id :: string
  rg_helper_endpoint_identity_digest :: string
  rg_recovery_authority_kind :: string
  rg_recovery_authority_generation_digest :: string
  rg_recovery_policy_identity_digest :: string
  rg_target_path :: string
  rg_canonical_request :: string
  rg_state :: string
  rg_result_code :: string
  rg_journal_digest :: string
  rg_expected_payload_identity :: LinuxVerifiedPayloadIdentity

definition registry_kSchemaVersion :: int where "registry_kSchemaVersion = 2"

definition registry_error :: "string \<Rightarrow> cpp_exception" where
  "registry_error detail = HelperError LinuxTransactionRegistryError detail"

definition registry_IsUuid :: "string \<Rightarrow> bool" where
  "registry_IsUuid s \<longleftrightarrow> length s = 36 \<and> s ! 14 = CHR ''4'' \<and> s ! 19 \<in> set ''89ab'' \<and>
     (\<forall>i < length s. if i \<in> {8, 13, 18, 23} then s ! i = CHR ''-'' else is_lower_hex (s ! i))"

definition registry_IsSha256 :: "string \<Rightarrow> bool" where
  "registry_IsSha256 s \<longleftrightarrow> length s = 64 \<and> list_all is_lower_hex s"

definition registry_RequireKeys :: "JsonValue \<Rightarrow> string list \<Rightarrow> unit result" where
  "registry_RequireKeys json keys =
     bindE (jobject json) (\<lambda>object.
       if length object \<noteq> length (remdups keys) \<or> (\<exists>key \<in> set keys. map_find object key = None)
       then Inl (registry_error ''transaction index fields rejected'') else Inr ())"

definition registry_ValidatePayload :: "LinuxVerifiedPayloadIdentity \<Rightarrow> unit result" where
  "registry_ValidatePayload p =
     throw_if (pl_package_id p = [] \<or> pl_signer_identity p = [] \<or>
         \<not> registry_IsSha256 (pl_package_identity_digest p) \<or> \<not> registry_IsSha256 (pl_stage_provenance_digest p) \<or>
         \<not> registry_IsSha256 (pl_artifact_digest p) \<or> pl_executable_relative_path p = [] \<or>
         \<not> registry_IsSha256 (pl_executable_digest p) \<or> pl_executable_mode p = 0)
       (registry_error ''transaction payload identity rejected'')"

definition LinuxRecoveryAuthorityGenerationSha256 ::
    "digest_function \<Rightarrow> string \<Rightarrow> string \<Rightarrow> string \<Rightarrow> string \<Rightarrow> string result" where
  "LinuxRecoveryAuthorityGenerationSha256 sha transaction_id authority_kind helper_digest policy_digest =
     sha (''desktop-updater-linux-recovery-authority-v1'' @ [CHR 0x0A] @ transaction_id @ [CHR 0x0A] @ authority_kind @
       [CHR 0x0A] @ helper_digest @ [CHR 0x0A] @ policy_digest)"

definition registry_states :: "string list" where
  "registry_states = [''preparing'', ''prepared'', ''commitAccepted'', ''completed'', ''rolledBack'', ''recoveryRequired'',
     ''manualActionRequired'', ''launchPending'', ''launchAttempting'', ''launched'', ''launchFailed'']"

definition registry_result_codes :: "string list" where
  "registry_result_codes = [''recoveryRequired'', ''completed'', ''rolledBack'', ''manualActionRequired'', ''relaunchFailure'']"

definition state_result_match :: "string \<Rightarrow> string \<Rightarrow> bool" where
  "state_result_match state result_code \<longleftrightarrow>
     (state \<in> set [''preparing'', ''prepared'', ''commitAccepted'', ''recoveryRequired'', ''launchPending''] \<and>
        result_code = ''recoveryRequired'') \<or>
     (state \<in> set [''completed'', ''launched''] \<and> result_code = ''completed'') \<or>
     (state = ''rolledBack'' \<and> result_code = ''rolledBack'') \<or>
     (state = ''manualActionRequired'' \<and> result_code = ''manualActionRequired'') \<or>
     (state \<in> set [''launchAttempting'', ''launchFailed''] \<and> result_code = ''relaunchFailure'')"

text \<open>The digest is computed only when the conditions before it hold.\<close>

definition registry_ValidateRecord :: "digest_function \<Rightarrow> LinuxTransactionRegistryRecord \<Rightarrow> unit result" where
  "registry_ValidateRecord sha r =
     (let rejected = registry_error ''transaction index record rejected'' in
      bindE (throw_if (rg_schema_version r \<noteq> registry_kSchemaVersion \<or> \<not> registry_IsUuid (rg_transaction_id r) \<or>
          rg_package_id r = [] \<or> rg_policy_id r = [] \<or> \<not> registry_IsSha256 (rg_helper_endpoint_identity_digest r) \<or>
          (rg_recovery_authority_kind r \<noteq> ''fixedBroker'' \<and> rg_recovery_authority_kind r \<noteq> ''retainedPortable'') \<or>
          \<not> registry_IsSha256 (rg_recovery_authority_generation_digest r) \<or>
          \<not> registry_IsSha256 (rg_recovery_policy_identity_digest r)) rejected) (\<lambda>_.
      bindE (LinuxRecoveryAuthorityGenerationSha256 sha (rg_transaction_id r) (rg_recovery_authority_kind r)
          (rg_helper_endpoint_identity_digest r) (rg_recovery_policy_identity_digest r)) (\<lambda>generation.
      bindE (throw_if (rg_recovery_authority_generation_digest r \<noteq> generation \<or> \<not> starts_with ''/'' (rg_target_path r) \<or>
          rg_canonical_request r = [] \<or> rg_state r \<notin> set registry_states \<or>
          rg_result_code r \<notin> set registry_result_codes \<or> \<not> state_result_match (rg_state r) (rg_result_code r) \<or>
          \<not> registry_IsSha256 (rg_journal_digest r)) rejected) (\<lambda>_.
        registry_ValidatePayload (rg_expected_payload_identity r)))))"

section \<open>Codec\<close>

text \<open>The members are those of the journal's payload identity.\<close>

definition registry_EncodePayload :: "LinuxVerifiedPayloadIdentity \<Rightarrow> JsonValue" where
  "registry_EncodePayload payload = kObject (emplaced (payload_members payload))"

definition registry_DecodePayload :: "JsonValue \<Rightarrow> LinuxVerifiedPayloadIdentity result" where
  "registry_DecodePayload json =
     bindE (registry_RequireKeys json [''artifactSha256'', ''executableGid'', ''executableMode'',
       ''executableRelativePath'', ''executableSha256'', ''executableUid'', ''packageId'',
       ''packageIdentitySha256'', ''signerIdentity'', ''stageProvenanceSha256'']) (\<lambda>_.
     bindE (string_at json ''packageId'') (\<lambda>package_id.
     bindE (string_at json ''signerIdentity'') (\<lambda>signer.
     bindE (string_at json ''packageIdentitySha256'') (\<lambda>package_identity.
     bindE (string_at json ''stageProvenanceSha256'') (\<lambda>stage_provenance.
     bindE (string_at json ''artifactSha256'') (\<lambda>artifact.
     bindE (string_at json ''executableRelativePath'') (\<lambda>path.
     bindE (string_at json ''executableSha256'') (\<lambda>executable.
     bindE (integer_at json ''executableMode'') (\<lambda>mode.
     bindE (integer_at json ''executableUid'') (\<lambda>uid.
     bindE (integer_at json ''executableGid'') (\<lambda>gid.
       let payload = \<lparr>pl_package_id = package_id, pl_signer_identity = signer,
             pl_package_identity_digest = package_identity, pl_stage_provenance_digest = stage_provenance,
             pl_artifact_digest = artifact, pl_executable_relative_path = path, pl_executable_digest = executable,
             pl_executable_mode = word_of_int mode, pl_executable_uid = word_of_int uid,
             pl_executable_gid = word_of_int gid\<rparr>
       in bindE (registry_ValidatePayload payload) (\<lambda>_. Inr payload))))))))))))"

definition registry_members :: "LinuxTransactionRegistryRecord \<Rightarrow> (string \<times> JsonValue) list" where
  "registry_members r =
     [(''canonicalRequest'', kString (rg_canonical_request r)),
      (''expectedPayloadIdentity'', registry_EncodePayload (rg_expected_payload_identity r)),
      (''helperEndpointIdentitySha256'', kString (rg_helper_endpoint_identity_digest r)),
      (''journalSha256'', kString (rg_journal_digest r)),
      (''packageId'', kString (rg_package_id r)),
      (''policyId'', kString (rg_policy_id r)),
      (''recoveryAuthorityGenerationSha256'', kString (rg_recovery_authority_generation_digest r)),
      (''recoveryAuthorityKind'', kString (rg_recovery_authority_kind r)),
      (''recoveryPolicyIdentitySha256'', kString (rg_recovery_policy_identity_digest r)),
      (''resultCode'', kString (rg_result_code r)),
      (''schemaVersion'', kInteger (rg_schema_version r)),
      (''state'', kString (rg_state r)),
      (''targetPath'', kString (rg_target_path r)),
      (''transactionId'', kString (rg_transaction_id r))]"

definition registry_text :: "LinuxTransactionRegistryRecord \<Rightarrow> string" where
  "registry_text r = EncodeCanonicalJson (kObject (emplaced (registry_members r)))"

definition EncodeRegistryRecord :: "digest_function \<Rightarrow> LinuxTransactionRegistryRecord \<Rightarrow> string result" where
  "EncodeRegistryRecord sha r = bindE (registry_ValidateRecord sha r) (\<lambda>_. Inr (registry_text r))"

text \<open>\<^verbatim>\<open>catch (const LinuxTransactionRegistryError&) { throw; } catch (const std::exception&) { throw ...; }\<close>.\<close>

definition registry_guard :: "'a result \<Rightarrow> 'a result" where
  "registry_guard m = (case m of
       Inl (HelperError LinuxTransactionRegistryError detail) \<Rightarrow> Inl (HelperError LinuxTransactionRegistryError detail)
     | Inl e \<Rightarrow> Inl (registry_error ''transaction index decode failed'')
     | Inr x \<Rightarrow> Inr x)"

definition DecodeRegistryRecord :: "digest_function \<Rightarrow> string \<Rightarrow> LinuxTransactionRegistryRecord result" where
  "DecodeRegistryRecord sha canonical_json = registry_guard
     (bindE (ParseJson canonical_json) (\<lambda>json.
      bindE (throw_if (EncodeCanonicalJson json \<noteq> canonical_json)
        (registry_error ''transaction index is not canonical'')) (\<lambda>_.
      bindE (registry_RequireKeys json [''canonicalRequest'', ''expectedPayloadIdentity'', ''helperEndpointIdentitySha256'',
        ''journalSha256'', ''packageId'', ''policyId'', ''recoveryAuthorityGenerationSha256'', ''recoveryAuthorityKind'',
        ''recoveryPolicyIdentitySha256'', ''resultCode'', ''schemaVersion'', ''state'', ''targetPath'', ''transactionId'']) (\<lambda>_.
      bindE (integer_at json ''schemaVersion'') (\<lambda>schema.
      bindE (string_at json ''transactionId'') (\<lambda>transaction.
      bindE (string_at json ''packageId'') (\<lambda>package_id.
      bindE (string_at json ''policyId'') (\<lambda>policy_id.
      bindE (string_at json ''helperEndpointIdentitySha256'') (\<lambda>helper.
      bindE (string_at json ''recoveryAuthorityKind'') (\<lambda>kind.
      bindE (string_at json ''recoveryAuthorityGenerationSha256'') (\<lambda>generation.
      bindE (string_at json ''recoveryPolicyIdentitySha256'') (\<lambda>policy.
      bindE (string_at json ''targetPath'') (\<lambda>target.
      bindE (string_at json ''canonicalRequest'') (\<lambda>request.
      bindE (string_at json ''state'') (\<lambda>state.
      bindE (string_at json ''resultCode'') (\<lambda>result_code.
      bindE (string_at json ''journalSha256'') (\<lambda>journal.
      bindE (bindE (json_at json ''expectedPayloadIdentity'') registry_DecodePayload) (\<lambda>payload.
        let r = \<lparr>rg_schema_version = schema, rg_transaction_id = transaction, rg_package_id = package_id,
              rg_policy_id = policy_id, rg_helper_endpoint_identity_digest = helper, rg_recovery_authority_kind = kind,
              rg_recovery_authority_generation_digest = generation, rg_recovery_policy_identity_digest = policy,
              rg_target_path = target, rg_canonical_request = request, rg_state = state, rg_result_code = result_code,
              rg_journal_digest = journal, rg_expected_payload_identity = payload\<rparr>
        in bindE (registry_ValidateRecord sha r) (\<lambda>_. Inr r)))))))))))))))))))"

section \<open>Transitions\<close>

definition SameImmutableBinding :: "LinuxTransactionRegistryRecord \<Rightarrow> LinuxTransactionRegistryRecord \<Rightarrow> bool" where
  "SameImmutableBinding a b \<longleftrightarrow>
     rg_schema_version a = rg_schema_version b \<and> rg_transaction_id a = rg_transaction_id b \<and>
     rg_package_id a = rg_package_id b \<and> rg_policy_id a = rg_policy_id b \<and>
     rg_helper_endpoint_identity_digest a = rg_helper_endpoint_identity_digest b \<and>
     rg_recovery_authority_kind a = rg_recovery_authority_kind b \<and>
     rg_recovery_authority_generation_digest a = rg_recovery_authority_generation_digest b \<and>
     rg_recovery_policy_identity_digest a = rg_recovery_policy_identity_digest b \<and>
     rg_target_path a = rg_target_path b \<and> rg_canonical_request a = rg_canonical_request b \<and>
     rg_expected_payload_identity a = rg_expected_payload_identity b"

definition AllowedStateTransition :: "string \<Rightarrow> string \<Rightarrow> bool" where
  "AllowedStateTransition from to \<longleftrightarrow>
     (if from = to then True
      else if from = ''preparing''
      then to \<in> set [''prepared'', ''rolledBack'', ''recoveryRequired'', ''manualActionRequired'']
      else if from = ''prepared''
      then to \<in> set [''commitAccepted'', ''rolledBack'', ''recoveryRequired'', ''completed'', ''manualActionRequired'']
      else if from = ''commitAccepted''
      then to \<in> set [''recoveryRequired'', ''completed'', ''launchPending'', ''manualActionRequired'']
      else if from = ''recoveryRequired''
      then to \<in> set [''completed'', ''rolledBack'', ''launchPending'', ''manualActionRequired'']
      else if from = ''launchPending'' then to \<in> set [''launchAttempting'', ''launchFailed'']
      else if from = ''launchAttempting'' then to \<in> set [''launched'', ''launchFailed'']
      else False)"

definition registry_transition :: "LinuxTransactionRegistryRecord \<Rightarrow> LinuxTransactionRegistryRecord \<Rightarrow> bool" where
  "registry_transition from to \<longleftrightarrow> SameImmutableBinding from to \<and> AllowedStateTransition (rg_state from) (rg_state to) \<and>
     (rg_journal_digest from = rg_journal_digest to \<or>
      (rg_journal_digest from = replicate 64 CHR ''0'' \<and> rg_journal_digest to \<noteq> replicate 64 CHR ''0''))"

definition registry_ValidateTransition :: "LinuxTransactionRegistryRecord \<Rightarrow> LinuxTransactionRegistryRecord \<Rightarrow> unit result" where
  "registry_ValidateTransition from to =
     throw_if (\<not> registry_transition from to) (registry_error ''transaction index transition rejected'')"

section \<open>Strict decoding\<close>

lemma registry_RequireKeys_object: "registry_RequireKeys json keys = Inr u \<Longrightarrow> \<exists>m. json = kObject m"
  by (auto simp: registry_RequireKeys_def jobject_def split: JsonValue.splits)

lemma registry_RequireKeys_emplaced:
  "distinct (map fst kvs) \<Longrightarrow> set keys = fst ` set kvs \<Longrightarrow> registry_RequireKeys (kObject (emplaced kvs)) keys = Inr ()"
  using distinct_card [of "map fst kvs"]
  by (auto simp: registry_RequireKeys_def jobject_def length_emplaced map_find_emplaced map_of_eq_None_iff
      length_remdups_card_conv)

lemma registry_DecodePayload_Encode:
  "registry_DecodePayload (registry_EncodePayload p) = Inr q \<longleftrightarrow> registry_ValidatePayload p = Inr () \<and> q = p"
proof -
  have keys: "registry_RequireKeys (registry_EncodePayload p) [''artifactSha256'', ''executableGid'', ''executableMode'',
       ''executableRelativePath'', ''executableSha256'', ''executableUid'', ''packageId'',
       ''packageIdentitySha256'', ''signerIdentity'', ''stageProvenanceSha256''] = Inr ()"
    unfolding registry_EncodePayload_def by (rule registry_RequireKeys_emplaced) (auto simp: payload_members_def)
  have at: "json_at (registry_EncodePayload p) k = (case map_of (payload_members p) k of
      None \<Rightarrow> Inl (JsonError (''Missing JSON key: '' @ k)) | Some w \<Rightarrow> Inr w)" for k
    by (simp add: registry_EncodePayload_def journal_at_emplaced)
  show ?thesis
    unfolding registry_DecodePayload_def keys at
    by (cases p) (auto simp: payload_members_def accessor_defs bindE_Inr_iff Let_def)
qed

lemma registry_valid_payload:
  "registry_ValidateRecord sha r = Inr () \<Longrightarrow> registry_ValidatePayload (rg_expected_payload_identity r) = Inr ()"
  by (auto simp: registry_ValidateRecord_def Let_def bindE_Inr_iff)

lemma registry_valid_schema: "registry_ValidateRecord sha r = Inr () \<Longrightarrow> rg_schema_version r = 2"
  by (auto simp: registry_ValidateRecord_def Let_def bindE_Inr_iff throw_if_Inr_iff registry_kSchemaVersion_def)

lemma registry_valid_id: "registry_ValidateRecord sha r = Inr () \<Longrightarrow> registry_IsUuid (rg_transaction_id r)"
  by (auto simp: registry_ValidateRecord_def Let_def bindE_Inr_iff throw_if_Inr_iff)

lemma registry_guard_Inr_iff: "registry_guard m = Inr x \<longleftrightarrow> m = Inr x"
  by (auto simp: registry_guard_def split: sum.splits cpp_exception.splits helper_error.splits)

lemma wf_registry_members: "rg_schema_version r = 2 \<Longrightarrow> wf_json (kObject (emplaced (registry_members r)))"
  by (rule wf_emplaced) (auto simp: registry_members_def registry_EncodePayload_def EncodePayload_def [symmetric] wf_payload
      int64_defs)

lemma DecodeRegistryRecord_valid:
  "DecodeRegistryRecord sha s = Inr r \<Longrightarrow> registry_ValidateRecord sha r = Inr ()"
  unfolding DecodeRegistryRecord_def registry_guard_Inr_iff Let_def by (auto simp: bindE_Inr_iff)

lemma DecodeRegistryRecord_text:
  assumes "registry_ValidateRecord sha r = Inr ()"
  shows "DecodeRegistryRecord sha (registry_text r) = Inr r"
proof -
  let ?json = "kObject (emplaced (registry_members r))"
  have parsed: "ParseJson (registry_text r) = Inr ?json"
    unfolding registry_text_def using registry_valid_schema [OF assms] by (intro ParseJson_Encode wf_registry_members)
  have keys: "registry_RequireKeys ?json [''canonicalRequest'', ''expectedPayloadIdentity'', ''helperEndpointIdentitySha256'',
        ''journalSha256'', ''packageId'', ''policyId'', ''recoveryAuthorityGenerationSha256'', ''recoveryAuthorityKind'',
        ''recoveryPolicyIdentitySha256'', ''resultCode'', ''schemaVersion'', ''state'', ''targetPath'', ''transactionId''] = Inr ()"
    by (rule registry_RequireKeys_emplaced) (auto simp: registry_members_def)
  have payload: "registry_DecodePayload (registry_EncodePayload (rg_expected_payload_identity r)) =
      Inr (rg_expected_payload_identity r)"
    using registry_valid_payload [OF assms] by (simp add: registry_DecodePayload_Encode)
  have same: "EncodeCanonicalJson ?json = registry_text r" by (simp add: registry_text_def)
  show ?thesis
    unfolding DecodeRegistryRecord_def parsed bindE_simps same keys journal_at_emplaced registry_guard_Inr_iff
    using assms by (simp add: registry_members_def accessor_defs payload Let_def) (cases r, simp)
qed

lemma DecodeRegistryRecord_object:
  assumes "DecodeRegistryRecord sha s = Inr r"
  shows "\<exists>m. wf_json (kObject m) \<and> s = EncodeCanonicalJson (kObject m)"
proof -
  obtain json where json: "ParseJson s = Inr json" "EncodeCanonicalJson json = s" "\<exists>keys. registry_RequireKeys json keys = Inr ()"
    using assms unfolding DecodeRegistryRecord_def registry_guard_Inr_iff by (auto simp: bindE_Inr_iff throw_if_Inr_iff)
  then show ?thesis using ParseJson_wf registry_RequireKeys_object by metis
qed

lemma registry_text_inject:
  "registry_ValidateRecord sha a = Inr () \<Longrightarrow> registry_ValidateRecord sha b = Inr () \<Longrightarrow>
     registry_text a = registry_text b \<longleftrightarrow> a = b"
  using DecodeRegistryRecord_text by (metis sum.inject(2))

text \<open>A canonical object is no proper prefix of another, so a file that was cut short never decodes.\<close>

lemma ParseValue_object:
  assumes "wf_json (kObject m)"
  shows "ParseValue (Encode (kObject m) @ rest) = Inr (kObject m, rest)"
proof (cases m)
  case Nil
  then show ?thesis by (simp add: ParseValue.simps ParseObject.simps)
next
  case (Cons kv m')
  obtain k v where kv: "kv = (k, v)" by (cases kv)
  have "ParseObjectLoop (EncodeObjectLoop True m @ CHR ''}'' # rest) [] = Inr (kObject ([] @ m), rest)"
    using assms Cons by (intro ParseValue_Encode_loops(3)) auto
  with Cons kv show ?thesis by (simp add: ParseValue.simps ParseObject.simps EncodeString_def)
qed

lemma object_prefix_free:
  assumes "wf_json (kObject m)" and "wf_json (kObject n)" and "EncodeCanonicalJson (kObject m) = take i (EncodeCanonicalJson (kObject n))"
  shows "m = n"
proof -
  have "Encode (kObject n) = Encode (kObject m) @ drop i (Encode (kObject n))"
    using assms(3) by (metis EncodeCanonicalJson_def append_take_drop_id)
  then have "Inr (kObject n, []) = (Inr (kObject m, drop i (Encode (kObject n))) :: (JsonValue \<times> string) result)"
    using ParseValue_object [OF assms(1)] ParseValue_object [OF assms(2), of "[]"] by (metis append_Nil2)
  then show ?thesis by simp
qed

lemma DecodeRegistryRecord_take:
  assumes "registry_ValidateRecord sha r = Inr ()" and "DecodeRegistryRecord sha (take i (registry_text r)) = Inr q"
  shows "take i (registry_text r) = registry_text r \<and> q = r"
proof -
  obtain m where m: "wf_json (kObject m)" "take i (registry_text r) = EncodeCanonicalJson (kObject m)"
    using DecodeRegistryRecord_object [OF assms(2)] by blast
  have "m = emplaced (registry_members r)"
    using object_prefix_free [OF m(1) wf_registry_members] m(2) registry_valid_schema [OF assms(1)]
    unfolding registry_text_def by metis
  then have "take i (registry_text r) = registry_text r" using m(2) by (simp add: registry_text_def)
  then show ?thesis using assms DecodeRegistryRecord_text by (metis sum.inject(2))
qed

section \<open>Properties\<close>

text \<open>
  C20. The records of the index survive being written and read back, exactly the valid ones are accepted,
  and no text that was cut short is taken for a record: a canonical object is no proper prefix of another.
\<close>

theorem registry_codec:
  "(DecodeRegistryRecord sha s = Inr r \<longrightarrow> registry_ValidateRecord sha r = Inr ()) \<and>
   (DecodeRegistryRecord sha (registry_text r) = Inr r \<longleftrightarrow> registry_ValidateRecord sha r = Inr ()) \<and>
   (registry_ValidateRecord sha r = Inr () \<and> DecodeRegistryRecord sha (take i (registry_text r)) = Inr q \<longrightarrow>
      take i (registry_text r) = registry_text r \<and> q = r)"
  using DecodeRegistryRecord_valid DecodeRegistryRecord_text DecodeRegistryRecord_take by blast

definition sample_digest :: digest_function where
  "sample_digest text = Inr (replicate 64 CHR ''a'')"

definition sample_entry :: "string \<Rightarrow> LinuxTransactionRegistryRecord" where
  "sample_entry state = \<lparr>rg_schema_version = 2, rg_transaction_id = sample_transaction, rg_package_id = ''com.example.app'',
     rg_policy_id = ''policy-1'', rg_helper_endpoint_identity_digest = replicate 64 CHR ''1'',
     rg_recovery_authority_kind = ''fixedBroker'', rg_recovery_authority_generation_digest = replicate 64 CHR ''a'',
     rg_recovery_policy_identity_digest = replicate 64 CHR ''2'', rg_target_path = ''/opt/Example.AppDir'',
     rg_canonical_request = ''{}'', rg_state = state, rg_result_code = ''recoveryRequired'',
     rg_journal_digest = replicate 64 CHR ''0'', rg_expected_payload_identity = sample_payload\<rparr>"

lemma sample_id_uuid: "registry_IsUuid sample_transaction"
  unfolding registry_IsUuid_def sample_transaction_def by code_simp

lemma sample_entry_valid:
  assumes "state \<in> {''preparing'', ''prepared''}"
  shows "registry_ValidateRecord sample_digest (sample_entry state) = Inr ()"
  using assms sample_id_uuid
  by (auto simp: registry_ValidateRecord_def sample_entry_def registry_kSchemaVersion_def registry_IsSha256_def list_all_iff
      is_lower_hex_def isdigit_def LinuxRecoveryAuthorityGenerationSha256_def sample_digest_def starts_with_def registry_states_def
      registry_result_codes_def state_result_match_def registry_ValidatePayload_def sample_payload_def Let_def)

theorem registry_codec_witness:
  "DecodeRegistryRecord sample_digest (registry_text (sample_entry ''preparing'')) = Inr (sample_entry ''preparing'')"
  using registry_codec [of sample_digest "[]" "sample_entry ''preparing''" 0 "sample_entry ''preparing''"] sample_entry_valid
  by blast

end
