(* ===== verification/Linux_Registry_Store.thy ===== *)
theory Linux_Registry_Store
  imports Linux_Registry
begin

text \<open>
  The store of the transaction index, \<^verbatim>\<open>LinuxTransactionRegistry\<close>: a record is written to a next file that
  replaces the record in one rename, and a leftover next file is promoted or dropped whenever the record is
  read. Shown here: whatever call fails or kills the process, a stored record only moves along the
  allowed transitions, and the next process reads it.
\<close>

section \<open>The store\<close>

text \<open>The owner and the retained identity of the state directory, as the constructor keeps them.\<close>

record LinuxTransactionRegistry =
  rs_uid :: "32 word"
  rs_gid :: "32 word"
  rs_directory_identity :: LinuxFileIdentity

definition private_directory :: "LinuxTransactionRegistry \<Rightarrow> LinuxFileIdentity \<Rightarrow> bool" where
  "private_directory rs i \<longleftrightarrow> id_directory i \<and> id_uid i = rs_uid rs \<and> id_gid i = rs_gid rs \<and> and (id_mode i) 0xFFF = 0x1C0"

text \<open>\<^verbatim>\<open>RequireRegistryFileIdentity\<close>.\<close>

definition private_file :: "LinuxTransactionRegistry \<Rightarrow> LinuxFileIdentity \<Rightarrow> bool" where
  "private_file rs i \<longleftrightarrow> and (id_mode i) S_IFMT = S_IFREG \<and> id_link_count i = 1 \<and> id_uid i = rs_uid rs \<and>
     id_gid i = rs_gid rs \<and> and (id_mode i) 0xFFF = 0x180"

definition RequireRegistryFileIdentity :: "LinuxTransactionRegistry \<Rightarrow> LinuxFileIdentity \<Rightarrow> unit action" where
  "RequireRegistryFileIdentity rs identity =
     require (private_file rs identity) (registry_error ''transaction index identity rejected'')"

definition OpenRetainedRegistryDirectory :: "LinuxKernel \<Rightarrow> LinuxTransactionRegistry \<Rightarrow> unit action" where
  "OpenRetainedRegistryDirectory k rs =
     call k (registry_error ''transaction state directory open failed'') (\<lambda>_. seq (reading lw_parent) (\<lambda>observed.
     seq (require (private_directory rs observed) (registry_error ''transaction state directory is not private'')) (\<lambda>_.
     seq (require (id_device observed = id_device (rs_directory_identity rs) \<and> id_inode observed = id_inode (rs_directory_identity rs))
       (registry_error ''transaction state directory locator changed'')) (\<lambda>_.
       require (HasStableLinuxIdentity observed (rs_directory_identity rs))
         (registry_error ''transaction state directory identity changed'')))))"

definition registry_ReadAll :: "LinuxKernel \<Rightarrow> LinuxNode \<Rightarrow> string action" where
  "registry_ReadAll k node =
     call k (registry_error ''transaction index read failed'') (\<lambda>_.
       if length (node_bytes node) > 2 * 1024 * 1024
       then throwing (registry_error ''transaction index read failed'') else ret (node_bytes node))"

text \<open>An \<^verbatim>\<open>openat\<close> with \<^verbatim>\<open>O_NOFOLLOW\<close>: a missing name is \<^verbatim>\<open>ENOENT\<close>, every other failure throws.\<close>

definition ReadRecordIfPresent ::
    "LinuxKernel \<Rightarrow> digest_function \<Rightarrow> LinuxTransactionRegistry \<Rightarrow> string \<Rightarrow> LinuxTransactionRegistryRecord option action" where
  "ReadRecordIfPresent k sha rs leaf =
     call k (registry_error ''transaction index open failed'') (\<lambda>_. seq (reading (\<lambda>w. lw_entries w leaf)) (\<lambda>found. case found of
         None \<Rightarrow> ret None
       | Some node \<Rightarrow>
           if is_symlink node then throwing (registry_error ''transaction index open failed'')
           else
             seq (RequireRegistryFileIdentity rs (node_identity node)) (\<lambda>_.
             seq (registry_ReadAll k node) (\<lambda>text.
             seq (lift (DecodeRegistryRecord sha text)) (\<lambda>r. ret (Some r))))))"

definition registry_leaf :: "string \<Rightarrow> string" where
  "registry_leaf transaction_id = transaction_id @ ''.json''"

definition registry_next :: "string \<Rightarrow> string" where
  "registry_next transaction_id = registry_leaf transaction_id @ ''.next''"

text \<open>
  The two ends of \<^verbatim>\<open>ReconcileTornNext\<close>: a next file that does not decode is dropped, one that decodes and
  continues the record is promoted. Where the code tests a chain of calls, any failing one throws.
\<close>

definition DropNext :: "LinuxKernel \<Rightarrow> string \<Rightarrow> LinuxFileIdentity \<Rightarrow> unit action" where
  "DropNext k next_leaf identity =
     seq (ReadLinuxRelativeIdentity k next_leaf) (\<lambda>observed.
     seq (require (SameLinuxIdentity observed identity) (registry_error ''invalid transaction next cleanup failed'')) (\<lambda>_.
     seq (Unlink k next_leaf) (\<lambda>removed.
     seq (require removed (registry_error ''invalid transaction next cleanup failed'')) (\<lambda>_.
       Flush k (registry_error ''invalid transaction next cleanup failed'')))))"

text \<open>\<^verbatim>\<open>renameat\<close>, which replaces its destination.\<close>

definition Replace :: "LinuxKernel \<Rightarrow> cpp_exception \<Rightarrow> string \<Rightarrow> string \<Rightarrow> unit action" where
  "Replace k e source destination =
     call k e (\<lambda>n. seq (reading lw_entries) (\<lambda>entries. case entries source of
         None \<Rightarrow> throwing e
       | Some node \<Rightarrow>
           if (case entries destination of None \<Rightarrow> True | Some existing \<Rightarrow> may_replace node existing)
           then update (\<lambda>w. set_entry destination (Some (retime k n node)) (set_entry source None w))
           else throwing e))"

definition PromoteNext :: "LinuxKernel \<Rightarrow> string \<Rightarrow> string \<Rightarrow> LinuxFileIdentity \<Rightarrow> unit action" where
  "PromoteNext k next_leaf leaf identity =
     seq (ReadLinuxRelativeIdentity k next_leaf) (\<lambda>observed.
     seq (require (SameLinuxIdentity observed identity) (registry_error ''transaction next promotion failed'')) (\<lambda>_.
     seq (Replace k (registry_error ''transaction next promotion failed'') next_leaf leaf) (\<lambda>_.
       Flush k (registry_error ''transaction next promotion failed''))))"

text \<open>Only a \<^verbatim>\<open>LinuxTransactionRegistryError\<close> of reading and decoding the next file is caught, and nothing else is thrown there.\<close>

definition ReadNext ::
    "LinuxKernel \<Rightarrow> digest_function \<Rightarrow> LinuxNode \<Rightarrow> LinuxTransactionRegistryRecord option action" where
  "ReadNext k sha node =
     catching (seq (registry_ReadAll k node) (\<lambda>text.
       seq (lift (DecodeRegistryRecord sha text)) (\<lambda>r. ret (Some r)))) None"

definition ReconcileTornNext ::
    "LinuxKernel \<Rightarrow> digest_function \<Rightarrow> LinuxTransactionRegistry \<Rightarrow> string \<Rightarrow> LinuxTransactionRegistryRecord option action" where
  "ReconcileTornNext k sha rs transaction_id =
     seq (ReadRecordIfPresent k sha rs (registry_leaf transaction_id)) (\<lambda>current.
     seq (LinuxRelativeExistsNoFollow k (registry_next transaction_id)) (\<lambda>exists.
       if \<not> exists then ret current
       else
         seq (OpenLinuxRelativeNoFollow k (registry_next transaction_id)) (\<lambda>next_file.
         seq (RequireRegistryFileIdentity rs (node_identity next_file)) (\<lambda>_.
         seq (ReadNext k sha next_file) (\<lambda>candidate. case candidate of
             None \<Rightarrow>
               seq (DropNext k (registry_next transaction_id) (node_identity next_file)) (\<lambda>_. ret current)
           | Some r \<Rightarrow>
               seq (require (rg_transaction_id r = transaction_id) (registry_error ''transaction next binding rejected'')) (\<lambda>_.
               seq (case current of None \<Rightarrow> ret () | Some c \<Rightarrow> lift (registry_ValidateTransition c r)) (\<lambda>_.
               seq (PromoteNext k (registry_next transaction_id) (registry_leaf transaction_id) (node_identity next_file)) (\<lambda>_.
                 ret (Some r)))))))))"

text \<open>\<^verbatim>\<open>openat\<close> with \<^verbatim>\<open>O_CREAT | O_EXCL\<close>, then \<^verbatim>\<open>fchown\<close> and \<^verbatim>\<open>fchmod\<close> of the file just created.\<close>

definition CreateNext :: "LinuxKernel \<Rightarrow> string \<Rightarrow> unit action" where
  "CreateNext k leaf =
     call k (registry_error ''transaction index open failed'') (\<lambda>n. seq (reading (\<lambda>w. lw_entries w leaf)) (\<lambda>found.
       if found \<noteq> None then throwing (registry_error ''transaction index open failed'')
       else update (set_entry leaf (Some (LinuxNode (kn_created k n) [] [])))))"

definition ChangeNext :: "LinuxKernel \<Rightarrow> (LinuxFileIdentity \<Rightarrow> LinuxFileIdentity) \<Rightarrow> string \<Rightarrow> unit action" where
  "ChangeNext k change leaf =
     call k (registry_error ''transaction index ownership failed'') (\<lambda>_. update (\<lambda>w. set_entry leaf
       (map_option (\<lambda>node. LinuxNode (change (node_identity node)) (node_bytes node) (node_entries node)) (lw_entries w leaf)) w))"

definition own :: "LinuxTransactionRegistry \<Rightarrow> LinuxFileIdentity \<Rightarrow> LinuxFileIdentity" where
  "own rs i = i\<lparr>id_uid := rs_uid rs, id_gid := rs_gid rs\<rparr>"

definition restrict_mode :: "LinuxFileIdentity \<Rightarrow> LinuxFileIdentity" where
  "restrict_mode i = i\<lparr>id_mode := or (and (id_mode i) S_IFMT) 0x180\<rparr>"

definition OwnNext :: "LinuxKernel \<Rightarrow> LinuxTransactionRegistry \<Rightarrow> string \<Rightarrow> unit action" where
  "OwnNext k rs leaf =
     seq (ChangeNext k (own rs) leaf) (\<lambda>_.
     seq (ChangeNext k restrict_mode leaf) (\<lambda>_.
     seq (reading (\<lambda>w. lw_entries w leaf)) (\<lambda>found. case found of
         None \<Rightarrow> throwing (registry_error ''transaction index identity rejected'')
       | Some node \<Rightarrow> RequireRegistryFileIdentity rs (node_identity node))))"

text \<open>The fault injector may throw at each of its three points.\<close>

definition OnLinuxTransactionRegistryFault :: "LinuxKernel \<Rightarrow> unit action" where
  "OnLinuxTransactionRegistryFault k = Flush k (registry_error ''injected fault'')"

text \<open>The part of \<^verbatim>\<open>Persist\<close> from the creation of the next file on.\<close>

definition ReplaceRecord :: "LinuxKernel \<Rightarrow> LinuxTransactionRegistry \<Rightarrow> string \<Rightarrow> string \<Rightarrow> unit action" where
  "ReplaceRecord k rs transaction_id bytes =
     seq (CreateNext k (registry_next transaction_id)) (\<lambda>_.
     seq (OwnNext k rs (registry_next transaction_id)) (\<lambda>_.
     seq (Flush k (registry_error ''transaction index create sync failed'')) (\<lambda>_.
     seq (OnLinuxTransactionRegistryFault k) (\<lambda>_.
     seq (WriteAll k (registry_error ''transaction index write failed'') (registry_next transaction_id) bytes) (\<lambda>_.
     seq (Flush k (registry_error ''transaction index fdatasync failed'')) (\<lambda>_.
     seq (OnLinuxTransactionRegistryFault k) (\<lambda>_.
     seq (Replace k (registry_error ''transaction index atomic replace failed'')
            (registry_next transaction_id) (registry_leaf transaction_id)) (\<lambda>_.
     seq (OnLinuxTransactionRegistryFault k) (\<lambda>_.
       Flush k (registry_error ''transaction index directory sync failed''))))))))))"

text \<open>\<^verbatim>\<open>if (current.has_value()) { ValidateTransition(*current, record); if (current->EncodeCanonical() == bytes) return; }\<close>.\<close>

definition AlreadyStored ::
    "digest_function \<Rightarrow> LinuxTransactionRegistryRecord \<Rightarrow> LinuxTransactionRegistryRecord option \<Rightarrow> string \<Rightarrow> bool action" where
  "AlreadyStored sha record current bytes = (case current of
       None \<Rightarrow> ret False
     | Some c \<Rightarrow> seq (lift (registry_ValidateTransition c record)) (\<lambda>_.
         seq (lift (EncodeRegistryRecord sha c)) (\<lambda>text. ret (text = bytes))))"

definition RegistryPersist ::
    "LinuxKernel \<Rightarrow> digest_function \<Rightarrow> LinuxTransactionRegistry \<Rightarrow> LinuxTransactionRegistryRecord \<Rightarrow> unit action" where
  "RegistryPersist k sha rs record =
     seq (lift (EncodeRegistryRecord sha record)) (\<lambda>bytes.
     seq (OpenRetainedRegistryDirectory k rs) (\<lambda>_.
     seq (Flock k) (\<lambda>locked.
     seq (require locked (registry_error ''transaction index lock failed'')) (\<lambda>_.
     seq (ReconcileTornNext k sha rs (rg_transaction_id record)) (\<lambda>current.
     seq (AlreadyStored sha record current bytes) (\<lambda>unchanged.
       if unchanged then ret () else ReplaceRecord k rs (rg_transaction_id record) bytes))))))"

definition RegistryLoad ::
    "LinuxKernel \<Rightarrow> digest_function \<Rightarrow> LinuxTransactionRegistry \<Rightarrow> string \<Rightarrow> LinuxTransactionRegistryRecord option action" where
  "RegistryLoad k sha rs transaction_id =
     seq (require (registry_IsUuid transaction_id) (registry_error ''transaction ID rejected'')) (\<lambda>_.
     seq (OpenRetainedRegistryDirectory k rs) (\<lambda>_.
     seq (Flock k) (\<lambda>locked.
     seq (require locked (registry_error ''transaction index lock failed'')) (\<lambda>_.
       ReconcileTornNext k sha rs transaction_id))))"

section \<open>What is stored\<close>

definition stored :: "digest_function \<Rightarrow> string \<Rightarrow> LinuxWorld \<Rightarrow> LinuxTransactionRegistryRecord option" where
  "stored sha t w = (case lw_entries w (registry_leaf t) of
       None \<Rightarrow> None
     | Some node \<Rightarrow> (case DecodeRegistryRecord sha (node_bytes node) of Inl e \<Rightarrow> None | Inr r \<Rightarrow> Some r))"

text \<open>What reading the record returned is what is stored.\<close>

definition current_is :: "digest_function \<Rightarrow> string \<Rightarrow> LinuxTransactionRegistryRecord option \<Rightarrow> LinuxWorld \<Rightarrow> bool" where
  "current_is sha t current w \<longleftrightarrow> (case current of
       None \<Rightarrow> lw_entries w (registry_leaf t) = None
     | Some c \<Rightarrow> stored sha t w = Some c)"

text \<open>How much of a file is read.\<close>

definition registry_limit :: nat where "registry_limit = 2 * 1024 * 1024"

text \<open>Every record stored at first is still stored, or a record that it allows.\<close>

definition advanced :: "digest_function \<Rightarrow> LinuxWorld \<Rightarrow> LinuxWorld \<Rightarrow> bool" where
  "advanced sha w0 w \<longleftrightarrow> (\<forall>t r. stored sha t w0 = Some r \<longrightarrow> (\<exists>q. stored sha t w = Some q \<and> registry_transition\<^sup>*\<^sup>* r q))"

lemma registry_next_neq_leaf [simp]: "registry_next t \<noteq> registry_leaf u" "registry_leaf u \<noteq> registry_next t"
proof -
  have "rev (registry_next t) \<noteq> rev (registry_leaf u)" by (simp add: registry_next_def registry_leaf_def)
  then show "registry_next t \<noteq> registry_leaf u" "registry_leaf u \<noteq> registry_next t" by metis+
qed

lemma registry_leaf_inject [simp]: "registry_leaf t = registry_leaf u \<longleftrightarrow> t = u"
  by (simp add: registry_leaf_def)

lemma stored_next [simp]: "stored sha t (set_entry (registry_next u) x w) = stored sha t w"
  by (simp add: stored_def)

lemma stored_clock [simp]: "stored sha t (w\<lparr>lw_clock := c\<rparr>) = stored sha t w"
  by (simp add: stored_def)

lemma advanced_refl [simp]: "advanced sha w w"
  by (auto simp: advanced_def)

lemma advanced_trans: "advanced sha a b \<Longrightarrow> advanced sha b c \<Longrightarrow> advanced sha a c"
  unfolding advanced_def by (meson rtranclp_trans)

lemma advanced_cong: "(\<And>t. stored sha t w' = stored sha t w) \<Longrightarrow> advanced sha w0 w' = advanced sha w0 w"
  by (simp add: advanced_def)

lemma current_is_cong:
  "lw_entries w' (registry_leaf t) = lw_entries w (registry_leaf t) \<Longrightarrow> current_is sha t c w' = current_is sha t c w"
  by (simp add: current_is_def stored_def split: option.split)

lemma timeless_store:
  "timeless (advanced sha w0)" "timeless (current_is sha t c)" "timeless (\<lambda>w. lw_entries w l = x)"
  "timeless (\<lambda>w. stored sha t w = r)"
  by (simp_all add: timeless_def advanced_def current_is_def split: option.split)

lemma timeless_both: "timeless P \<Longrightarrow> timeless Q \<Longrightarrow> timeless (\<lambda>w. P w \<and> Q w)"
  by (simp add: timeless_def)

lemma timeless_const: "timeless (\<lambda>w. b)"
  by (simp add: timeless_def)

lemma timeless_ex: "(\<And>x. timeless (P x)) \<Longrightarrow> timeless (\<lambda>w. \<exists>x. P x w)"
  by (simp add: timeless_def)

lemmas timeless_intros = timeless_store timeless_both timeless_const timeless_ex

text \<open>Replacing the record of a transaction.\<close>

lemma advanced_replace:
  assumes "advanced sha w0 w" and "current_is sha t current w" and "\<And>c. current = Some c \<Longrightarrow> registry_transition c r"
    and "DecodeRegistryRecord sha (node_bytes node) = Inr r"
  shows "advanced sha w0 (set_entry (registry_leaf t) (Some (retime k n node)) (set_entry (registry_next t) None w))"
    (is "advanced sha w0 ?w")
proof -
  have new: "stored sha u ?w = (if u = t then Some r else stored sha u w)" for u
    using assms(4) by (simp add: stored_def)
  have "advanced sha w ?w"
    unfolding advanced_def new using assms(2,3) by (auto simp: current_is_def stored_def split: option.splits)
  with assms(1) show ?thesis by (rule advanced_trans)
qed

section \<open>Statements of the store\<close>

lemma runs_replace:
  assumes time: "timeless P"
    and moved: "\<And>w n node. P w \<Longrightarrow> lw_entries w a = Some node \<Longrightarrow> Q () (set_entry b (Some (retime k n node)) (set_entry a None w))"
  shows "runs P (Replace k e a b) Q P"
proof -
  have body: "runs (\<lambda>w. P w \<and> lw_entries w = es) (case es a of
         None \<Rightarrow> throwing e
       | Some node \<Rightarrow>
           if (case es b of None \<Rightarrow> True | Some existing \<Rightarrow> may_replace node existing)
           then update (\<lambda>w. set_entry b (Some (retime k n node)) (set_entry a None w))
           else throwing e) Q P" for es n
    using moved by (auto intro!: runs_throwing runs_update split: option.split)
  have read: "runs P (reading lw_entries) (\<lambda>es w. P w \<and> lw_entries w = es) P" by (rule runs_reading) simp
  show ?thesis
    unfolding Replace_def by (rule runs_call [OF time], rule runs_seq [OF read], rule body)
qed

lemma quiet_ReadAll [simp]: "quiet (registry_ReadAll k node)"
  unfolding registry_ReadAll_def by (auto intro!: quiet_call)

lemma quiet_catching: "quiet m \<Longrightarrow> quiet (catching m x)"
  unfolding quiet_def catching_def by (auto split: prod.split outcome.split) (metis snd_conv)+

lemma quiet_store [simp]:
  "quiet (RequireRegistryFileIdentity rs i)" "quiet (OpenRetainedRegistryDirectory k rs)" "quiet (ReadNext k sha node)"
  "quiet (ReadRecordIfPresent k sha rs leaf)" "quiet (OnLinuxTransactionRegistryFault k)"
  unfolding RequireRegistryFileIdentity_def OpenRetainedRegistryDirectory_def ReadNext_def ReadRecordIfPresent_def
    OnLinuxTransactionRegistryFault_def
  by (auto intro!: quiet_call quiet_seq quiet_catching split: option.split)


text \<open>A statement that only reads keeps what is known, and may add what it returns.\<close>

lemma runs_quiet_post:
  assumes "quiet m" and "timeless P" and "\<And>w x w'. P w \<Longrightarrow> m w = (Returned x, w') \<Longrightarrow> R x"
  shows "runs P m (\<lambda>x w. P w \<and> R x) P"
proof (rule runsI)
  fix w r w' assume "P w" and m: "m w = (r, w')"
  then have "P w'" using runsD [OF runs_quiet [OF assms(1,2)] \<open>P w\<close> m] by (cases r) simp_all
  then show "case r of Returned x \<Rightarrow> P w' \<and> R x | Threw e \<Rightarrow> P w' | Died \<Rightarrow> P w'"
    using assms(3) [OF \<open>P w\<close>] m by (cases r) simp_all
qed

lemma runs_quiet_weak: "quiet m \<Longrightarrow> timeless P \<Longrightarrow> (\<And>w. P w \<Longrightarrow> E w) \<Longrightarrow> runs P m (\<lambda>_. P) E"
  by (rule runs_conseq [OF runs_quiet])

lemma seq_lift_Inr: "seq (lift (Inr x)) f = f x"
  by (rule ext) (simp add: seq_def lift_def)

lemma ReadAll_returned:
  "registry_ReadAll k node w = (Returned s, w') \<Longrightarrow> s = node_bytes node \<and> length (node_bytes node) \<le> registry_limit"
  by (auto simp: registry_limit_def registry_ReadAll_def call_def Let_def action_defs split: call_result.splits if_splits)

lemma ReadNext_returned:
  "ReadNext k sha node w = (Returned (Some r), w') \<Longrightarrow>
     DecodeRegistryRecord sha (node_bytes node) = Inr r \<and> length (node_bytes node) \<le> registry_limit"
  by (auto simp: ReadNext_def catching_def seq_def lift_def ret_def dest!: ReadAll_returned
      split: prod.splits outcome.splits sum.splits)

lemma runs_ReadRecord:
  assumes "timeless P"
  shows "runs P (ReadRecordIfPresent k sha rs (registry_leaf t)) (\<lambda>c w. P w \<and> current_is sha t c w) P"
proof -
  have body: "runs (\<lambda>w. P w \<and> lw_entries w (registry_leaf t) = found) (case found of
         None \<Rightarrow> ret None
       | Some node \<Rightarrow>
           if is_symlink node then throwing (registry_error ''transaction index open failed'')
           else
             seq (RequireRegistryFileIdentity rs (node_identity node)) (\<lambda>_.
             seq (registry_ReadAll k node) (\<lambda>text.
             seq (lift (DecodeRegistryRecord sha text)) (\<lambda>r. ret (Some r)))))
      (\<lambda>c w. P w \<and> current_is sha t c w) P" for found
  proof (cases found)
    case None
    then show ?thesis by (auto intro!: runs_ret simp: current_is_def)
  next
    case (Some node)
    let ?P = "\<lambda>w. P w \<and> lw_entries w (registry_leaf t) = Some node"
    have time: "timeless ?P" using assms by (intro timeless_intros)
    have "runs ?P (seq (RequireRegistryFileIdentity rs (node_identity node)) (\<lambda>_.
             seq (registry_ReadAll k node) (\<lambda>text.
             seq (lift (DecodeRegistryRecord sha text)) (\<lambda>r. ret (Some r)))))
        (\<lambda>c w. P w \<and> current_is sha t c w) ?P"
      by (rule runs_seq, rule runs_quiet [OF _ time], simp,
          rule runs_seq, rule runs_quiet_post [OF _ time], simp, erule ReadAll_returned [THEN conjunct1],
          rule runs_seq [where R = "\<lambda>r w. ?P w \<and> DecodeRegistryRecord sha (node_bytes node) = Inr r"])
        (auto intro!: runs_lift runs_ret simp: current_is_def stored_def)
    then have "runs ?P (seq (RequireRegistryFileIdentity rs (node_identity node)) (\<lambda>_.
             seq (registry_ReadAll k node) (\<lambda>text.
             seq (lift (DecodeRegistryRecord sha text)) (\<lambda>r. ret (Some r)))))
        (\<lambda>c w. P w \<and> current_is sha t c w) P" by (rule runs_conseq) simp_all
    then show ?thesis using Some by (auto intro!: runs_throwing)
  qed
  have read: "runs P (reading (\<lambda>w. lw_entries w (registry_leaf t)))
      (\<lambda>found w. P w \<and> lw_entries w (registry_leaf t) = found) P"
    by (rule runs_reading) simp
  show ?thesis
    unfolding ReadRecordIfPresent_def by (rule runs_call [OF assms], rule runs_seq [OF read], rule body)
qed

lemma runs_DropNext:
  assumes "timeless P" "timeless Q" and "\<And>w. P w \<Longrightarrow> E w" and "\<And>w. Q w \<Longrightarrow> E w" and "\<And>w. P w \<Longrightarrow> Q (set_entry l None w)"
  shows "runs P (DropNext k l i) (\<lambda>_. Q) E"
proof -
  have quiet: "runs P (ReadLinuxRelativeIdentity k l) (\<lambda>_. P) E" "runs Q (Flush k e) (\<lambda>_. Q) E" for e
    by (simp_all add: runs_quiet_weak assms)
  have unlink: "runs P (Unlink k l) (\<lambda>removed w. if removed then Q w else E w) E"
    by (rule runs_conseq, rule runs_unlink [OF assms(1), where Q = "\<lambda>removed w. if removed then Q w else E w"])
      (auto intro: assms)
  show ?thesis
    unfolding DropNext_def
    by (rule runs_seq [OF quiet(1)], rule runs_seq [where R = "\<lambda>_. P"], rule runs_require, assumption, rule assms, assumption,
        rule runs_seq [OF unlink], rule runs_seq [where R = "\<lambda>_. Q"], rule runs_require, simp, simp split: if_splits add: assms(4),
        rule quiet)
qed

lemma runs_PromoteNext:
  assumes "timeless P" "timeless Q" and "\<And>w. P w \<Longrightarrow> E w" and "\<And>w. Q w \<Longrightarrow> E w"
    and "\<And>w n node. P w \<Longrightarrow> lw_entries w a = Some node \<Longrightarrow> Q (set_entry b (Some (retime k n node)) (set_entry a None w))"
  shows "runs P (PromoteNext k a b i) (\<lambda>_. Q) E"
proof -
  have quiet: "runs P (ReadLinuxRelativeIdentity k a) (\<lambda>_. P) E" "runs Q (Flush k e) (\<lambda>_. Q) E" for e
    by (simp_all add: runs_quiet_weak assms)
  have move: "runs P (Replace k e a b) (\<lambda>_. Q) E" for e
    by (rule runs_conseq, rule runs_replace [OF assms(1), where Q = "\<lambda>_. Q"], rule assms(5)) (auto intro: assms)
  show ?thesis
    unfolding PromoteNext_def
    by (rule runs_seq [OF quiet(1)], rule runs_seq [where R = "\<lambda>_. P"], rule runs_require, assumption, rule assms, assumption,
        rule runs_seq [OF move quiet(2)])
qed


lemma runs_write_take:
  assumes "timeless P" and "\<And>w i. P w \<Longrightarrow> E (write_bytes l (take i contents) w)"
    and "\<And>w. P w \<Longrightarrow> Q () (write_bytes l contents w)"
  shows "runs P (WriteAll k e l contents) Q E"
  using assms by (auto simp: runs_def WriteAll_def Let_def timeless_def split: call_result.splits)

lemma runs_CreateNext:
  assumes "timeless P" and "\<And>w n. P w \<Longrightarrow> lw_entries w l = None \<Longrightarrow> Q () (set_entry l (Some (LinuxNode (kn_created k n) [] [])) w)"
  shows "runs P (CreateNext k l) Q P"
  unfolding CreateNext_def
  by (auto intro!: runs_call assms runs_seq [where R = "\<lambda>found w. P w \<and> lw_entries w l = found"] runs_reading
      runs_throwing runs_update)

definition changed :: "(LinuxFileIdentity \<Rightarrow> LinuxFileIdentity) \<Rightarrow> LinuxNode \<Rightarrow> LinuxNode" where
  "changed f node = LinuxNode (f (node_identity node)) (node_bytes node) (node_entries node)"

lemma runs_ChangeNext:
  assumes "timeless P" and "\<And>w. P w \<Longrightarrow> lw_entries w l \<noteq> None"
    and "\<And>w node. P w \<Longrightarrow> lw_entries w l = Some node \<Longrightarrow> P (set_entry l (Some (changed f node)) w)"
  shows "keeps P (ChangeNext k f l)"
  unfolding ChangeNext_def
proof (rule runs_call [OF assms(1)], rule runs_update)
  fix w assume w: "P w"
  then obtain node where node: "lw_entries w l = Some node" using assms(2) by blast
  show "P (set_entry l (map_option (\<lambda>node. LinuxNode (f (node_identity node)) (node_bytes node) (node_entries node))
      (lw_entries w l)) w)"
    using assms(3) [OF w node] by (simp add: node changed_def)
qed

section \<open>Invariants of the store\<close>

text \<open>
  What a property of the directory has to satisfy so that reconciling, persisting and loading keep it:
  every kind of change of the directory, in the situation in which the code makes it.
\<close>

locale registry_invariant =
  fixes sha :: digest_function and rs :: LinuxTransactionRegistry and k :: LinuxKernel
    and records :: "LinuxTransactionRegistryRecord set" and I :: "LinuxWorld \<Rightarrow> bool"
  assumes time: "timeless I"
    and dropped: "\<And>w t. I w \<Longrightarrow> I (set_entry (registry_next t) None w)"
    and promoted: "\<And>w t current node r n. I w \<Longrightarrow> current_is sha t current w \<Longrightarrow>
      lw_entries w (registry_next t) = Some node \<Longrightarrow> DecodeRegistryRecord sha (node_bytes node) = Inr r \<Longrightarrow>
      rg_transaction_id r = t \<Longrightarrow> (\<And>c. current = Some c \<Longrightarrow> registry_transition c r) \<Longrightarrow>
      r \<in> records \<and> node_bytes node = registry_text r \<or> length (node_bytes node) \<le> registry_limit \<Longrightarrow>
      I (set_entry (registry_leaf t) (Some (retime k n node)) (set_entry (registry_next t) None w))"
    and created: "\<And>w t n. I w \<Longrightarrow> I (set_entry (registry_next t) (Some (LinuxNode (kn_created k n) [] [])) w)"
    and changed_identity: "\<And>w t f node. I w \<Longrightarrow> lw_entries w (registry_next t) = Some node \<Longrightarrow> f = own rs \<or> f = restrict_mode \<Longrightarrow>
      I (set_entry (registry_next t) (Some (changed f node)) w)"
    and written: "\<And>w t current node r i. I w \<Longrightarrow> current_is sha t current w \<Longrightarrow> lw_entries w (registry_next t) = Some node \<Longrightarrow>
      registry_ValidateRecord sha r = Inr () \<Longrightarrow> rg_transaction_id r = t \<Longrightarrow> (\<And>c. current = Some c \<Longrightarrow> registry_transition c r) \<Longrightarrow>
      r \<in> records \<Longrightarrow>
      I (set_entry (registry_next t) (Some (LinuxNode (node_identity node) (take i (registry_text r)) (node_entries node))) w)"
begin

lemma keeps_Reconcile:
  "runs I (ReconcileTornNext k sha rs t)
    (\<lambda>current w. I w \<and> current_is sha t current w \<and> lw_entries w (registry_next t) = None) I"
proof -
  let ?next = "registry_next t" and ?leaf = "registry_leaf t"
  let ?done = "\<lambda>current w. I w \<and> current_is sha t current w \<and> lw_entries w ?next = None"
  let ?found = "\<lambda>current node w. I w \<and> current_is sha t current w \<and> lw_entries w ?next = Some node"
  have times: "timeless (?found current node)" "timeless (?done current)"
    "timeless (\<lambda>w. I w \<and> current_is sha t current w)" for current node
    by (intro timeless_intros time)+
  have drop: "runs (?found current node) (seq (DropNext k ?next i) (\<lambda>_. ret current)) ?done I" for current node i
    by (rule runs_seq, rule runs_DropNext [where Q = "?done current"], rule times, rule times)
      (auto intro!: runs_ret dropped simp: current_is_cong [of "set_entry ?next None w" for w])
  have promote: "runs (?found current node) (seq (require (rg_transaction_id r = t) e) (\<lambda>_.
               seq (case current of None \<Rightarrow> ret () | Some c \<Rightarrow> lift (registry_ValidateTransition c r)) (\<lambda>_.
               seq (PromoteNext k ?next ?leaf i) (\<lambda>_. ret (Some r))))) ?done I"
    if r: "DecodeRegistryRecord sha (node_bytes node) = Inr r" "length (node_bytes node) \<le> registry_limit" for current node r i e
  proof -
    let ?go = "\<lambda>w. ?found current node w \<and> rg_transaction_id r = t \<and> (\<forall>c. current = Some c \<longrightarrow> registry_transition c r)"
    have allowed: "runs (\<lambda>w. ?found current node w \<and> rg_transaction_id r = t)
        (case current of None \<Rightarrow> ret () | Some c \<Rightarrow> lift (registry_ValidateTransition c r)) (\<lambda>_. ?go) I"
      by (auto intro!: runs_ret runs_lift simp: registry_ValidateTransition_def throw_if_Inr_iff split: option.split)
    have "timeless ?go" using time by (intro timeless_intros)
    then have move: "runs ?go (PromoteNext k ?next ?leaf i) (\<lambda>_. ?done (Some r)) I"
      by (rule runs_PromoteNext [OF _ times(2)])
        (use r in \<open>auto intro!: promoted simp: current_is_def [of _ _ "Some r"] stored_def\<close>)
    show ?thesis
      by (rule runs_seq [where R = "\<lambda>_ w. ?found current node w \<and> rg_transaction_id r = t"], rule runs_require, simp, simp,
          rule runs_seq [OF allowed], rule runs_seq [OF move], rule runs_ret)
  qed
  have opened: "runs (\<lambda>w. I w \<and> current_is sha t current w) (OpenLinuxRelativeNoFollow k ?next) (?found current) I" for current
    by (rule runs_conseq, rule runs_open [OF times(3)]) auto
  have candidate: "runs (?found current node) (ReadNext k sha node)
      (\<lambda>c w. ?found current node w \<and> (\<forall>r. c = Some r \<longrightarrow>
        DecodeRegistryRecord sha (node_bytes node) = Inr r \<and> length (node_bytes node) \<le> registry_limit)) I" for current node
    by (rule runs_conseq, rule runs_quiet_post [OF _ times(1)]) (auto dest: ReadNext_returned)
  have exists: "runs (\<lambda>w. I w \<and> current_is sha t current w) (LinuxRelativeExistsNoFollow k ?next)
      (\<lambda>b w. I w \<and> current_is sha t current w \<and> (b \<longleftrightarrow> lw_entries w ?next \<noteq> None)) I" for current
    by (rule runs_conseq, rule runs_exists [OF times(3)]) auto
  have owned: "runs (?found current node) (RequireRegistryFileIdentity rs i) (\<lambda>_. ?found current node) I" for current node i
    by (rule runs_quiet_weak [OF _ times(1)]) auto
  have next_file: "runs (?found current node) (seq (RequireRegistryFileIdentity rs (node_identity node)) (\<lambda>_.
         seq (ReadNext k sha node) (\<lambda>candidate. case candidate of
             None \<Rightarrow> seq (DropNext k ?next (node_identity node)) (\<lambda>_. ret current)
           | Some r \<Rightarrow>
               seq (require (rg_transaction_id r = t) (registry_error ''transaction next binding rejected'')) (\<lambda>_.
               seq (case current of None \<Rightarrow> ret () | Some c \<Rightarrow> lift (registry_ValidateTransition c r)) (\<lambda>_.
               seq (PromoteNext k ?next ?leaf (node_identity node)) (\<lambda>_. ret (Some r))))))) ?done I" for current node
  proof (rule runs_seq [OF owned], rule runs_seq [OF candidate], split option.split, intro conjI allI impI)
    fix x :: "LinuxTransactionRegistryRecord option" assume "x = None"
    then show "runs (\<lambda>w. ?found current node w \<and> (\<forall>r. x = Some r \<longrightarrow>
        DecodeRegistryRecord sha (node_bytes node) = Inr r \<and> length (node_bytes node) \<le> registry_limit))
       (seq (DropNext k ?next (node_identity node)) (\<lambda>_. ret current)) ?done I"
      by (intro runs_pre [OF drop]) simp
  next
    fix x and r :: LinuxTransactionRegistryRecord assume x: "x = Some r"
    show "runs (\<lambda>w. ?found current node w \<and> (\<forall>r. x = Some r \<longrightarrow>
        DecodeRegistryRecord sha (node_bytes node) = Inr r \<and> length (node_bytes node) \<le> registry_limit))
       (seq (require (rg_transaction_id r = t) (registry_error ''transaction next binding rejected'')) (\<lambda>_.
               seq (case current of None \<Rightarrow> ret () | Some c \<Rightarrow> lift (registry_ValidateTransition c r)) (\<lambda>_.
               seq (PromoteNext k ?next ?leaf (node_identity node)) (\<lambda>_. ret (Some r))))) ?done I"
      by (rule runs_assume [where b = "DecodeRegistryRecord sha (node_bytes node) = Inr r \<and>
          length (node_bytes node) \<le> registry_limit"], simp add: x, rule runs_pre [OF promote], simp_all)
  qed
  show ?thesis
    unfolding ReconcileTornNext_def
    by (rule runs_seq [OF runs_ReadRecord [OF time]], rule runs_seq [OF exists], rule runs_if)
      (auto intro!: runs_ret runs_seq [OF runs_pre [OF opened]] next_file)
qed

lemma keeps_OwnNext:
  assumes "\<And>w f node. P w \<Longrightarrow> lw_entries w (registry_next t) = Some node \<Longrightarrow> f = own rs \<or> f = restrict_mode \<Longrightarrow>
      P (set_entry (registry_next t) (Some (changed f node)) w)"
    and "timeless P" and "\<And>w. P w \<Longrightarrow> lw_entries w (registry_next t) \<noteq> None"
  shows "keeps P (OwnNext k rs (registry_next t))"
proof -
  have change: "keeps P (ChangeNext k (own rs) (registry_next t))" "keeps P (ChangeNext k restrict_mode (registry_next t))"
    by (rule runs_ChangeNext; simp add: assms)+
  have read: "keeps P (reading (\<lambda>w. lw_entries w (registry_next t)))" by (rule runs_quiet) (simp_all add: assms)
  show ?thesis
    unfolding OwnNext_def
    by (rule runs_seq [OF change(1)], rule runs_seq [OF change(2)], rule runs_seq [OF read])
      (auto intro!: runs_throwing runs_quiet assms split: option.split)
qed

lemma keeps_write_and_replace:
  assumes "registry_ValidateRecord sha r = Inr ()" and "r \<in> records" and "rg_transaction_id r = t"
    and "\<And>c. current = Some c \<Longrightarrow> registry_transition c r"
  shows "runs (\<lambda>w. I w \<and> current_is sha t current w \<and> lw_entries w (registry_next t) = None)
     (ReplaceRecord k rs t (registry_text r))
     (\<lambda>_ w. I w \<and> stored sha t w = Some r) I"
proof -
  let ?next = "registry_next t" and ?leaf = "registry_leaf t"
  let ?absent = "\<lambda>w. I w \<and> current_is sha t current w \<and> lw_entries w ?next = None"
  let ?there = "\<lambda>w. I w \<and> current_is sha t current w \<and> (\<exists>node. lw_entries w ?next = Some node)"
  let ?full = "\<lambda>w. I w \<and> current_is sha t current w \<and> (\<exists>node. lw_entries w ?next = Some node \<and> node_bytes node = registry_text r)"
  let ?done = "\<lambda>w. I w \<and> stored sha t w = Some r"
  have times: "timeless ?absent" "timeless ?there" "timeless ?full" "timeless ?done"
    by (intro timeless_intros time)+
  have same: "current_is sha t current (set_entry ?next x w) = current_is sha t current w" for x w
    by (rule current_is_cong) simp
  have create: "runs ?absent (CreateNext k ?next) (\<lambda>_. ?there) I"
    by (rule runs_conseq, rule runs_CreateNext [OF times(1), where Q = "\<lambda>_. ?there"]) (auto simp: same created)
  have own: "runs ?there (OwnNext k rs ?next) (\<lambda>_. ?there) I"
    by (rule runs_conseq, rule keeps_OwnNext [where P = ?there]) (auto simp: same times changed_identity)
  have quiet: "runs ?there m (\<lambda>_. ?there) I" "runs ?full m (\<lambda>_. ?full) I" "runs ?done m (\<lambda>_. ?done) I"
    if "quiet m" for m :: "unit action"
    by (rule runs_quiet_weak [OF that]; simp add: times)+
  have partial: "I (write_bytes ?next (take i (registry_text r)) w)" if "?there w" for i w
    using that assms by (auto simp: write_bytes_def intro!: written)
  have full: "?full (write_bytes ?next (registry_text r) w)" if "?there w" for w
    using that partial [OF that, of "length (registry_text r)"] by (auto simp: write_bytes_def same)
  have wrote: "runs ?there (WriteAll k e ?next (registry_text r)) (\<lambda>_. ?full) I" for e
    by (rule runs_write_take [OF times(2)], erule partial, erule full)
  have moved: "runs ?full (Replace k e ?next ?leaf) (\<lambda>_. ?done) I" for e
    by (rule runs_conseq, rule runs_replace [OF times(3), where Q = "\<lambda>_. ?done"])
      (use assms DecodeRegistryRecord_text in \<open>auto intro!: promoted simp: stored_def\<close>)
  show ?thesis
    unfolding ReplaceRecord_def
    by (rule runs_seq [OF create], rule runs_seq [OF own], rule runs_seq [OF quiet(1)], simp, rule runs_seq [OF quiet(1)], simp,
        rule runs_seq [OF wrote], rule runs_seq [OF quiet(2)], simp, rule runs_seq [OF quiet(2)], simp,
        rule runs_seq [OF moved], rule runs_seq [OF quiet(3)], simp, rule quiet(3), simp)
qed

lemma keeps_Persist:
  assumes "r \<in> records"
  shows "runs I (RegistryPersist k sha rs r) (\<lambda>_ w. I w \<and> stored sha (rg_transaction_id r) w = Some r) I"
proof (cases "registry_ValidateRecord sha r")
  case (Inl e)
  then show ?thesis
    by (simp add: RegistryPersist_def EncodeRegistryRecord_def runs_def seq_def lift_def)
next
  case (Inr u)
  then have valid: "registry_ValidateRecord sha r = Inr ()" by simp
  let ?t = "rg_transaction_id r"
  let ?known = "\<lambda>current w. I w \<and> current_is sha ?t current w \<and> lw_entries w (registry_next ?t) = None"
  let ?go = "\<lambda>current b w. ?known current w \<and> (\<forall>c. current = Some c \<longrightarrow> registry_transition c r) \<and> (b \<longrightarrow> current = Some r)"
  have same: "runs (?known current) (AlreadyStored sha r current (registry_text r))
     (?go current) I" for current
  proof (cases current)
    case None
    then show ?thesis by (auto simp: AlreadyStored_def intro: runs_ret)
  next
    case (Some c)
    have encoded: "EncodeRegistryRecord sha c = Inr (registry_text r) \<Longrightarrow> c = r"
      using registry_text_inject [of sha c r] valid by (auto simp: EncodeRegistryRecord_def bindE_Inr_iff)
    show ?thesis
      unfolding AlreadyStored_def Some option.case
      by (rule runs_seq [where R = "\<lambda>_ w. ?known current w \<and> registry_transition c r"], rule runs_lift,
          simp add: registry_ValidateTransition_def throw_if_Inr_iff Some, simp add: Some,
          rule runs_seq [where R = "\<lambda>s w. ?known current w \<and> registry_transition c r \<and> EncodeRegistryRecord sha c = Inr s"], rule runs_lift,
          simp, simp, rule runs_ret) (auto simp: Some encoded)
  qed
  have unchanged: "runs (?go current True) (ret ()) (\<lambda>_ w. I w \<and> stored sha ?t w = Some r) I" for current
    by (rule runs_ret) (auto simp: current_is_def)
  have changed: "runs (?go current False) m Q I"
    if "(\<And>c. current = Some c \<Longrightarrow> registry_transition c r) \<Longrightarrow> runs (?known current) m Q I" for current m Q
    by (rule runs_assume [where b = "\<forall>c. current = Some c \<longrightarrow> registry_transition c r"], simp, rule runs_pre, rule that) auto
  show ?thesis
    unfolding RegistryPersist_def
    by (simp only: EncodeRegistryRecord_def [of sha r] valid bindE_simps seq_lift_Inr,
        rule runs_seq [OF runs_quiet], simp, rule time, rule runs_seq [OF runs_quiet], simp, rule time,
        rule runs_seq [where R = "\<lambda>_. I"], rule runs_require, assumption, assumption,
        rule runs_seq [OF keeps_Reconcile], rule runs_seq [OF same], rule runs_if)
      (auto simp only: intro!: unchanged changed keeps_write_and_replace [OF valid assms])
qed

lemma keeps_Load:
  "runs I (RegistryLoad k sha rs t)
    (\<lambda>current w. I w \<and> current_is sha t current w \<and> lw_entries w (registry_next t) = None) I"
  unfolding RegistryLoad_def
  by (rule runs_seq [where R = "\<lambda>_. I"], rule runs_require, assumption, assumption,
      rule runs_seq, rule runs_quiet, simp, rule time, rule runs_seq, rule runs_quiet, simp, rule time,
      rule runs_seq [where R = "\<lambda>_. I"], rule runs_require, assumption, assumption, rule keeps_Reconcile)

end

section \<open>Records only advance\<close>

interpretation advance: registry_invariant sha rs k UNIV "advanced sha w0"
  for sha rs k w0
proof unfold_locales
  fix w t current node r n
  assume "advanced sha w0 w" "current_is sha t current w" "DecodeRegistryRecord sha (node_bytes node) = Inr r"
    "\<And>c. current = Some c \<Longrightarrow> registry_transition c r"
  then show "advanced sha w0 (set_entry (registry_leaf t) (Some (retime k n node)) (set_entry (registry_next t) None w))"
    by (intro advanced_replace)
qed (simp_all add: timeless_store advanced_def)

text \<open>
  A call of one of the processes that share the directory, with any kernel of a set and any record of a set;
  it may return, throw or die.
\<close>

inductive registry_step ::
    "digest_function \<Rightarrow> LinuxTransactionRegistry \<Rightarrow> LinuxKernel set \<Rightarrow> LinuxTransactionRegistryRecord set \<Rightarrow>
     LinuxWorld \<Rightarrow> LinuxWorld \<Rightarrow> bool" for sha rs kernels records where
  persisted: "k \<in> kernels \<Longrightarrow> r \<in> records \<Longrightarrow> RegistryPersist k sha rs r w = (outcome, w') \<Longrightarrow>
    registry_step sha rs kernels records w w'"
| loaded: "k \<in> kernels \<Longrightarrow> RegistryLoad k sha rs t w = (outcome', w') \<Longrightarrow> registry_step sha rs kernels records w w'"

lemma runs_invariant:
  assumes "runs I m Q I" and "\<And>x w. Q x w \<Longrightarrow> I w" and "I w" and "m w = (r, w')"
  shows "I w'"
  using runsD [OF assms(1,3,4)] assms(2) by (cases r) auto

lemma registry_step_invariant:
  assumes "registry_step sha rs kernels records w w'" and "I w"
    and "\<And>k. k \<in> kernels \<Longrightarrow> registry_invariant sha rs k records I"
  shows "I w'"
  using assms(1)
proof cases
  case (persisted k r outcome)
  show ?thesis
    by (rule runs_invariant [OF registry_invariant.keeps_Persist [OF assms(3) [OF persisted(1)] persisted(2)] _ assms(2) persisted(3)])
      simp
next
  case (loaded k t outcome)
  show ?thesis
    by (rule runs_invariant [OF registry_invariant.keeps_Load [OF assms(3) [OF loaded(1)]] _ assms(2) loaded(2)]) simp
qed

lemma registry_steps_invariant:
  assumes "(registry_step sha rs kernels records)\<^sup>*\<^sup>* w w'" and "I w"
    and "\<And>k. k \<in> kernels \<Longrightarrow> registry_invariant sha rs k records I"
  shows "I w'"
  using assms(1,2) by (induction rule: rtranclp_induct) (blast intro: registry_step_invariant assms(3))+

lemma registry_step_mono:
  "registry_step sha rs kernels records w w' \<Longrightarrow> records \<subseteq> records' \<Longrightarrow> registry_step sha rs kernels records' w w'"
  by (induction rule: registry_step.induct) (blast intro: registry_step.intros)+

lemma registry_steps_advanced:
  assumes "(registry_step sha rs kernels records)\<^sup>*\<^sup>* w w'"
  shows "advanced sha w w'"
proof -
  have "(registry_step sha rs kernels UNIV)\<^sup>*\<^sup>* w w'"
    using assms by (rule rtranclp_mono [THEN predicate2D, rotated]) (auto intro: registry_step_mono)
  then show ?thesis by (rule registry_steps_invariant [where I = "advanced sha w"]) (simp, unfold_locales)
qed

text \<open>What the transitions keep: the binding always, and the outcome once there is one.\<close>

definition final_states :: "string set" where
  "final_states = {''completed'', ''rolledBack'', ''manualActionRequired'', ''launched'', ''launchFailed''}"

lemma SameImmutableBinding_trans: "SameImmutableBinding a b \<Longrightarrow> SameImmutableBinding b c \<Longrightarrow> SameImmutableBinding a c"
  by (simp add: SameImmutableBinding_def)

lemma registry_transitions_keep:
  assumes "registry_transition\<^sup>*\<^sup>* r q"
  shows "SameImmutableBinding r q" and "rg_state r \<in> final_states \<Longrightarrow> rg_state q = rg_state r"
    and "rg_journal_digest r \<noteq> replicate 64 CHR ''0'' \<Longrightarrow> rg_journal_digest q = rg_journal_digest r"
proof -
  show "SameImmutableBinding r q"
    using assms by (induction rule: rtranclp_induct)
      (auto simp: registry_transition_def SameImmutableBinding_def)
  show "rg_state q = rg_state r" if "rg_state r \<in> final_states"
    using assms that by (induction rule: rtranclp_induct)
      (auto simp: registry_transition_def AllowedStateTransition_def final_states_def split: if_splits)
  show "rg_journal_digest q = rg_journal_digest r" if "rg_journal_digest r \<noteq> replicate 64 CHR ''0''"
    using assms that by (induction rule: rtranclp_induct) (auto simp: registry_transition_def)
qed

end
