(* ===== verification/Linux_Registry_Recovery.thy ===== *)
theory Linux_Registry_Recovery
  imports Linux_Registry_Store
begin

text \<open>
  The transaction index after a crash: a directory that the store has worked in stays in a state from
  which an undisturbed process reads a record and writes the next one.
\<close>

section \<open>Healthy directories\<close>

definition registry_file :: "LinuxTransactionRegistry \<Rightarrow> LinuxNode \<Rightarrow> bool" where
  "registry_file rs node \<longleftrightarrow> private_file rs (node_identity node) \<and> \<not> is_directory node"

text \<open>
  A file created with mode 0600 by a process of the owner is private from the start: the file mode creation
  mask takes away no permission of the owner.
\<close>

definition creates_private :: "LinuxTransactionRegistry \<Rightarrow> LinuxKernel \<Rightarrow> bool" where
  "creates_private rs k \<longleftrightarrow> (\<forall>n. private_file rs (kn_created k n) \<and> \<not> id_directory (kn_created k n))"

definition leaf_healthy :: "digest_function \<Rightarrow> LinuxTransactionRegistry \<Rightarrow> string \<Rightarrow> LinuxNode \<Rightarrow> bool" where
  "leaf_healthy sha rs t node \<longleftrightarrow> registry_file rs node \<and> length (node_bytes node) \<le> registry_limit \<and>
     (\<exists>r. DecodeRegistryRecord sha (node_bytes node) = Inr r \<and> rg_transaction_id r = t)"

definition next_healthy ::
    "digest_function \<Rightarrow> LinuxTransactionRegistry \<Rightarrow> string \<Rightarrow> LinuxTransactionRegistryRecord option \<Rightarrow> LinuxNode \<Rightarrow> bool" where
  "next_healthy sha rs t current node \<longleftrightarrow> registry_file rs node \<and>
     (\<forall>r. DecodeRegistryRecord sha (node_bytes node) = Inr r \<longrightarrow>
        rg_transaction_id r = t \<and> (\<forall>c. current = Some c \<longrightarrow> registry_transition c r))"

definition healthy :: "digest_function \<Rightarrow> LinuxTransactionRegistry \<Rightarrow> LinuxWorld \<Rightarrow> bool" where
  "healthy sha rs w \<longleftrightarrow> private_directory rs (lw_parent w) \<and> HasStableLinuxIdentity (lw_parent w) (rs_directory_identity rs) \<and>
     (\<forall>t node. lw_entries w (registry_leaf t) = Some node \<longrightarrow> leaf_healthy sha rs t node) \<and>
     (\<forall>t node. lw_entries w (registry_next t) = Some node \<longrightarrow> next_healthy sha rs t (stored sha t w) node)"

lemma registry_next_inject [simp]: "registry_next t = registry_next u \<longleftrightarrow> t = u"
  by (simp add: registry_next_def)

lemma registry_file_retime [simp]: "registry_file rs (retime k n node) = registry_file rs node"
  by (simp add: registry_file_def private_file_def retime_def is_directory_def)

lemma registry_file_changed: "registry_file rs node \<Longrightarrow> f = own rs \<or> f = restrict_mode \<Longrightarrow> registry_file rs (changed f node)"
  by (auto simp: registry_file_def private_file_def changed_def own_def restrict_mode_def is_directory_def S_IFMT_def S_IFREG_def)

lemma changed_bytes [simp]: "node_bytes (changed f node) = node_bytes node"
  by (simp add: changed_def)

lemma Decode_empty: "DecodeRegistryRecord sha [] \<noteq> Inr r"
  using DecodeRegistryRecord_object [of sha "[]" r] by (auto simp: EncodeCanonicalJson_def)

lemma current_is_stored: "current_is sha t current w \<Longrightarrow> stored sha t w = current"
  by (auto simp: current_is_def stored_def split: option.splits)

lemma healthy_next:
  assumes "healthy sha rs w" and "\<And>node. x = Some node \<Longrightarrow> next_healthy sha rs t (stored sha t w) node"
  shows "healthy sha rs (set_entry (registry_next t) x w)"
  using assms by (auto simp: healthy_def split: if_splits)

lemma healthy_promoted:
  assumes "healthy sha rs w" and "lw_entries w (registry_next t) = Some node"
    and "DecodeRegistryRecord sha (node_bytes node) = Inr r" and "rg_transaction_id r = t"
    and "length (node_bytes node) \<le> registry_limit"
  shows "healthy sha rs (set_entry (registry_leaf t) (Some (retime k n node)) (set_entry (registry_next t) None w))"
    (is "healthy sha rs ?w")
proof -
  have mine: "registry_file rs node" using assms(1,2) by (auto simp: healthy_def next_healthy_def)
  have "stored sha u ?w = stored sha u w" if "u \<noteq> t" for u using that by (simp add: stored_def)
  with assms mine show ?thesis by (auto simp: healthy_def leaf_healthy_def split: if_splits)
qed

lemma healthy_written:
  assumes "healthy sha rs w" "current_is sha (rg_transaction_id r) current w"
    "lw_entries w (registry_next (rg_transaction_id r)) = Some node"
    and valid: "registry_ValidateRecord sha r = Inr ()" and "\<And>c. current = Some c \<Longrightarrow> registry_transition c r"
  shows "healthy sha rs (set_entry (registry_next (rg_transaction_id r))
      (Some (LinuxNode (node_identity node) (take i (registry_text r)) (node_entries node))) w)"
proof (rule healthy_next [OF assms(1)])
  fix written assume "Some (LinuxNode (node_identity node) (take i (registry_text r)) (node_entries node)) = Some written"
  moreover have "registry_file rs node" using assms(1,3) by (auto simp: healthy_def next_healthy_def)
  moreover have "q = r" if "DecodeRegistryRecord sha (take i (registry_text r)) = Inr q" for q
    using DecodeRegistryRecord_take [OF valid that] by simp
  ultimately show "next_healthy sha rs (rg_transaction_id r) (stored sha (rg_transaction_id r) w) written"
    using assms(5) current_is_stored [OF assms(2)]
    by (auto simp: next_healthy_def registry_file_def is_directory_def)
qed

interpretation health: registry_invariant sha rs k "{r. length (registry_text r) \<le> registry_limit}"
    "\<lambda>w. creates_private rs k \<longrightarrow> healthy sha rs w"
  for sha rs k
proof unfold_locales
  show "timeless (\<lambda>w. creates_private rs k \<longrightarrow> healthy sha rs w)" by (simp add: timeless_def healthy_def)
next
  fix w t assume "creates_private rs k \<longrightarrow> healthy sha rs w"
  then show "creates_private rs k \<longrightarrow> healthy sha rs (set_entry (registry_next t) None w)" by (auto intro: healthy_next)
next
  fix w t current node r n
  assume "creates_private rs k \<longrightarrow> healthy sha rs w" "lw_entries w (registry_next t) = Some node"
    and "DecodeRegistryRecord sha (node_bytes node) = Inr r" "rg_transaction_id r = t"
    and "r \<in> {r. length (registry_text r) \<le> registry_limit} \<and> node_bytes node = registry_text r \<or>
      length (node_bytes node) \<le> registry_limit"
  then show "creates_private rs k \<longrightarrow> healthy sha rs (set_entry (registry_leaf t) (Some (retime k n node)) (set_entry (registry_next t) None w))"
    by (auto intro!: healthy_promoted)
next
  fix w t n assume "creates_private rs k \<longrightarrow> healthy sha rs w"
  then show "creates_private rs k \<longrightarrow> healthy sha rs (set_entry (registry_next t) (Some (LinuxNode (kn_created k n) [] [])) w)"
    by (auto intro!: healthy_next simp: next_healthy_def registry_file_def creates_private_def is_directory_def Decode_empty)
next
  fix w t f node
  assume "creates_private rs k \<longrightarrow> healthy sha rs w" "lw_entries w (registry_next t) = Some node" "f = own rs \<or> f = restrict_mode"
  then show "creates_private rs k \<longrightarrow> healthy sha rs (set_entry (registry_next t) (Some (changed f node)) w)"
    by (auto intro!: healthy_next simp: healthy_def next_healthy_def registry_file_changed changed_bytes)
next
  fix w t current node r i
  assume "creates_private rs k \<longrightarrow> healthy sha rs w" "current_is sha t current w" "lw_entries w (registry_next t) = Some node"
    "registry_ValidateRecord sha r = Inr ()" "rg_transaction_id r = t" "\<And>c. current = Some c \<Longrightarrow> registry_transition c r"
  then show "creates_private rs k \<longrightarrow> healthy sha rs
      (set_entry (registry_next t) (Some (LinuxNode (node_identity node) (take i (registry_text r)) (node_entries node))) w)"
    by (auto intro: healthy_written)
qed

section \<open>Undisturbed calls return\<close>

text \<open>A kernel under which no call fails, and the lock is free.\<close>

definition uninterrupted :: "LinuxKernel \<Rightarrow> bool" where
  "uninterrupted k \<longleftrightarrow> (\<forall>n. kn_call k n = Proceeds \<and> kn_flock k n)"

definition returns :: "'a action \<Rightarrow> LinuxWorld \<Rightarrow> bool" where
  "returns m w \<longleftrightarrow> (\<exists>x w'. m w = (Returned x, w'))"

lemma returns_seqI: "m w = (Returned x, w') \<Longrightarrow> returns (f x) w' \<Longrightarrow> returns (seq m f) w"
  by (simp add: returns_def seq_def)

lemma returns_seq_any: "returns m w \<Longrightarrow> (\<And>x w'. returns (f x) w') \<Longrightarrow> returns (seq m f) w"
  by (auto simp: returns_def seq_def)

lemma returns_last: "returns m w \<Longrightarrow> returns (seq m (\<lambda>_. ret x)) w"
  by (auto simp: returns_def seq_def ret_def)

lemma returns_require: "b \<Longrightarrow> returns f w \<Longrightarrow> returns (seq (require b e) (\<lambda>_. f)) w"
  by (simp add: returns_def seq_def require_def)

lemma returns_else: "\<not> b \<Longrightarrow> returns f w \<Longrightarrow> returns (if b then m else f) w"
  by simp

lemma returns_ret [simp]: "returns (ret x) w"
  by (simp add: returns_def ret_def)

lemma uuid_chars: "registry_IsUuid t \<Longrightarrow> c \<in> set t \<Longrightarrow> c = CHR ''-'' \<or> is_lower_hex c"
  by (auto simp: registry_IsUuid_def in_set_conv_nth split: if_splits)

lemma uuid_leaf:
  assumes "registry_IsUuid t" shows "is_leaf (registry_next t)"
proof (rule leaf_of_length)
  show "3 \<le> length (registry_next t)" by (simp add: registry_next_def registry_leaf_def)
  show "CHR ''/'' \<notin> set (registry_next t)"
    using uuid_chars [OF assms, of "CHR ''/''"] by (auto simp: registry_next_def registry_leaf_def is_lower_hex_def isdigit_def)
  show "char_of (0::nat) \<notin> set (registry_next t)"
    using uuid_chars [OF assms, of "char_of (0::nat)"]
    by (auto simp: registry_next_def registry_leaf_def is_lower_hex_def isdigit_def char_of_def)
qed

lemma steady_call:
  assumes "uninterrupted k"
  shows "call k e body w = body (lw_clock w) (w\<lparr>lw_clock := Suc (lw_clock w)\<rparr>)"
    and "Flush k e w = (Returned (), w\<lparr>lw_clock := Suc (lw_clock w)\<rparr>)"
    and "Flock k w = (Returned True, w\<lparr>lw_clock := Suc (lw_clock w)\<rparr>)"
    and "WriteAll k e l s w = (Returned (), write_bytes l s (w\<lparr>lw_clock := Suc (lw_clock w)\<rparr>))"
    and "lw_entries w l = Some node \<Longrightarrow> \<not> is_directory node \<Longrightarrow>
      Unlink k l w = (Returned True, set_entry l None (w\<lparr>lw_clock := Suc (lw_clock w)\<rparr>))"
  using assms by (simp_all add: uninterrupted_def call_def Flush_def Flock_def WriteAll_def Unlink_def Let_def ret_def)

lemma private_not_symlink: "registry_file rs node \<Longrightarrow> \<not> is_symlink node"
  by (auto simp: registry_file_def private_file_def is_symlink_def S_IFREG_def S_IFLNK_def)

lemma steady_read:
  assumes "uninterrupted k" and "healthy sha rs w"
  shows "ReadRecordIfPresent k sha rs (registry_leaf t) w =
    (Returned (stored sha t w), w\<lparr>lw_clock := lw_clock w + (if lw_entries w (registry_leaf t) = None then 1 else 2)\<rparr>)"
proof (cases "lw_entries w (registry_leaf t)")
  case None
  then show ?thesis
    by (simp add: ReadRecordIfPresent_def steady_call [OF assms(1)] seq_def reading_def ret_def stored_def)
next
  case (Some node)
  then have "leaf_healthy sha rs t node" using assms(2) by (simp add: healthy_def)
  then obtain r where "registry_file rs node" "length (node_bytes node) \<le> registry_limit"
      "DecodeRegistryRecord sha (node_bytes node) = Inr r"
    by (auto simp: leaf_healthy_def)
  moreover from this(1) have "\<not> is_symlink node" by (rule private_not_symlink)
  ultimately show ?thesis
    using Some
    by (simp add: ReadRecordIfPresent_def steady_call [OF assms(1)] seq_def reading_def ret_def stored_def registry_ReadAll_def
        RequireRegistryFileIdentity_def registry_file_def require_def lift_def registry_limit_def)
qed

lemma steady_ReadNext:
  assumes "uninterrupted k"
  shows "ReadNext k sha node w = (Returned (if length (node_bytes node) > registry_limit then None
      else case DecodeRegistryRecord sha (node_bytes node) of Inl e \<Rightarrow> None | Inr r \<Rightarrow> Some r), w\<lparr>lw_clock := Suc (lw_clock w)\<rparr>)"
  by (auto simp: ReadNext_def registry_ReadAll_def catching_def steady_call [OF assms] seq_def throwing_def ret_def lift_def
      registry_limit_def split: sum.split)

lemma steady_open:
  assumes "uninterrupted k" and "is_leaf l" and "lw_entries w l = Some node" and "\<not> is_symlink node"
  shows "OpenLinuxRelativeNoFollow k l w = (Returned node, w\<lparr>lw_clock := Suc (lw_clock w)\<rparr>)"
    and "ReadLinuxRelativeIdentity k l w = (Returned (node_identity node), w\<lparr>lw_clock := Suc (lw_clock w)\<rparr>)"
  using assms
  by (simp_all add: OpenLinuxRelativeNoFollow_def ReadLinuxRelativeIdentity_def steady_call seq_def lift_def reading_def ret_def)

lemma steady_exists:
  assumes "uninterrupted k" and "is_leaf l"
  shows "LinuxRelativeExistsNoFollow k l w = (Returned (lw_entries w l \<noteq> None), w\<lparr>lw_clock := Suc (lw_clock w)\<rparr>)"
  using assms by (simp add: LinuxRelativeExistsNoFollow_def steady_call seq_def lift_def reading_def)

lemma steady_replace:
  assumes "uninterrupted k" and "lw_entries w a = Some node" and "\<not> is_directory node"
    and "\<And>old. lw_entries w b = Some old \<Longrightarrow> \<not> is_directory old"
  shows "\<exists>n w'. Replace k e a b w = (Returned (), w')"
  using assms by (auto simp: Replace_def steady_call seq_def reading_def update_def may_replace_def split: option.split)

lemma steady_drop:
  assumes "uninterrupted k" and "is_leaf l" and "lw_entries w l = Some node" and "registry_file rs node"
  shows "returns (DropNext k l (node_identity node)) w"
  using assms private_not_symlink [OF assms(4)]
  by (simp add: DropNext_def returns_def seq_def steady_open require_def steady_call registry_file_def)

lemma steady_promote:
  assumes "uninterrupted k" and "is_leaf a" and "lw_entries w a = Some node" and "registry_file rs node"
    and "\<And>old. lw_entries w b = Some old \<Longrightarrow> \<not> is_directory old"
  shows "returns (PromoteNext k a b (node_identity node)) w"
proof -
  let ?w = "w\<lparr>lw_clock := Suc (lw_clock w)\<rparr>"
  obtain w' where "Replace k (registry_error ''transaction next promotion failed'') a b ?w = (Returned (), w')"
    using steady_replace [OF assms(1), of ?w a node b "registry_error ''transaction next promotion failed''"] assms(3-)
    by (auto simp: registry_file_def)
  then show ?thesis
    using assms private_not_symlink [OF assms(4)]
    by (simp add: PromoteNext_def returns_def seq_def steady_open require_def steady_call)
qed

lemma healthy_clock [simp]: "healthy sha rs (w\<lparr>lw_clock := c\<rparr>) = healthy sha rs w"
  by (simp add: healthy_def)

lemma steady_reconcile:
  assumes "uninterrupted k" and "healthy sha rs w" and "registry_IsUuid t"
  shows "returns (ReconcileTornNext k sha rs t) w"
proof -
  note leaf = uuid_leaf [OF assms(3)]
  obtain c where read: "ReadRecordIfPresent k sha rs (registry_leaf t) w = (Returned (stored sha t w), w\<lparr>lw_clock := c\<rparr>)"
    using steady_read [OF assms(1,2)] by metis
  show ?thesis
  proof (cases "lw_entries w (registry_next t)")
    case None
    show ?thesis
      unfolding ReconcileTornNext_def
      by (rule returns_seqI, rule read, rule returns_seqI, rule steady_exists [OF assms(1) leaf]) (simp add: None)
  next
    case (Some node)
    then have next_ok: "next_healthy sha rs t (stored sha t w) node" using assms(2) by (simp add: healthy_def)
    then have mine: "registry_file rs node" by (simp add: next_healthy_def)
    have old: "\<not> is_directory old" if "lw_entries w (registry_leaf t) = Some old" for old
      using assms(2) that by (auto simp: healthy_def leaf_healthy_def registry_file_def)
    note linked = private_not_symlink [OF mine]
    have allowed: "returns (seq (case stored sha t w of None \<Rightarrow> ret () | Some c \<Rightarrow> lift (registry_ValidateTransition c r)) (\<lambda>_. m)) w'"
      if "DecodeRegistryRecord sha (node_bytes node) = Inr r" "returns m w'" for r w' and m :: "LinuxTransactionRegistryRecord option action"
      using next_ok that
      by (auto simp: next_healthy_def returns_def seq_def ret_def lift_def registry_ValidateTransition_def split: option.split)
    have handled: "returns (case (if length (node_bytes node) > registry_limit then None
          else case DecodeRegistryRecord sha (node_bytes node) of Inl e \<Rightarrow> None | Inr r \<Rightarrow> Some r) of
             None \<Rightarrow> seq (DropNext k (registry_next t) (node_identity node)) (\<lambda>_. ret (stored sha t w))
           | Some r \<Rightarrow>
               seq (require (rg_transaction_id r = t) (registry_error ''transaction next binding rejected'')) (\<lambda>_.
               seq (case stored sha t w of None \<Rightarrow> ret () | Some c \<Rightarrow> lift (registry_ValidateTransition c r)) (\<lambda>_.
               seq (PromoteNext k (registry_next t) (registry_leaf t) (node_identity node)) (\<lambda>_. ret (Some r)))))
        (w\<lparr>lw_clock := d\<rparr>)" for d
    proof -
      have drop: "returns (DropNext k (registry_next t) (node_identity node)) (w\<lparr>lw_clock := d\<rparr>)"
        using Some by (intro steady_drop [OF assms(1) leaf _ mine]) simp
      have promote: "returns (PromoteNext k (registry_next t) (registry_leaf t) (node_identity node)) (w\<lparr>lw_clock := d\<rparr>)"
        using Some old by (intro steady_promote [OF assms(1) leaf _ mine]) simp_all
      have "rg_transaction_id r = t" if "DecodeRegistryRecord sha (node_bytes node) = Inr r" for r
        using next_ok that by (simp add: next_healthy_def)
      then show ?thesis
        by (auto split: sum.split intro!: returns_last returns_require allowed drop promote)
    qed
    show ?thesis
      unfolding ReconcileTornNext_def RequireRegistryFileIdentity_def
      by (rule returns_seqI, rule read, rule returns_seqI, rule steady_exists [OF assms(1) leaf], rule returns_else, simp add: Some,
          rule returns_seqI, rule steady_open(1) [OF assms(1) leaf _ linked], simp add: Some,
          rule returns_require, use mine in \<open>simp add: registry_file_def\<close>,
          rule returns_seqI, rule steady_ReadNext [OF assms(1)], use handled in simp)
  qed
qed

lemma steady_load:
  assumes "uninterrupted k" and "healthy sha rs w" and "registry_IsUuid t"
  shows "returns (RegistryLoad k sha rs t) w"
proof -
  have directory: "OpenRetainedRegistryDirectory k rs w = (Returned (), w\<lparr>lw_clock := Suc (lw_clock w)\<rparr>)"
    using assms(2) unfolding OpenRetainedRegistryDirectory_def
    by (simp add: steady_call [OF assms(1)] seq_def reading_def require_def healthy_def HasStableLinuxIdentity_def)
  show ?thesis
    unfolding RegistryLoad_def
    by (rule returns_require [OF assms(3)], rule returns_seqI, rule directory, rule returns_seqI,
        rule steady_call(3) [OF assms(1)], rule returns_require, simp, rule steady_reconcile) (simp_all add: assms)
qed

text \<open>Without a leftover next file, what is loaded is what is stored.\<close>

lemma settled_load:
  assumes "uninterrupted k" and "healthy sha rs w" and "registry_IsUuid t" and "lw_entries w (registry_next t) = None"
  shows "\<exists>w'. RegistryLoad k sha rs t w = (Returned (stored sha t w), w')"
proof -
  have directory: "OpenRetainedRegistryDirectory k rs w = (Returned (), w\<lparr>lw_clock := Suc (lw_clock w)\<rparr>)"
    using assms(2) unfolding OpenRetainedRegistryDirectory_def
    by (simp add: steady_call [OF assms(1)] seq_def reading_def require_def healthy_def HasStableLinuxIdentity_def)
  show ?thesis
    using assms
    by (simp add: RegistryLoad_def ReconcileTornNext_def seq_def require_def directory steady_call
        steady_read [of k sha rs] steady_exists uuid_leaf ret_def)
qed

lemma private_created: "private_file rs i \<Longrightarrow> private_file rs (restrict_mode (own rs i))"
  by (auto simp: private_file_def own_def restrict_mode_def S_IFMT_def S_IFREG_def)

lemma steady_write:
  assumes "uninterrupted k" and "creates_private rs k" and "lw_entries w (registry_next t) = None"
    and "\<And>old. lw_entries w (registry_leaf t) = Some old \<Longrightarrow> \<not> is_directory old"
  shows "returns (ReplaceRecord k rs t s) w"
proof -
  let ?next = "registry_next t" and ?i = "kn_created k (lw_clock w)"
  let ?node = "\<lambda>s. LinuxNode (restrict_mode (own rs ?i)) s []"
  have create: "CreateNext k ?next w = (Returned (), set_entry ?next (Some (LinuxNode ?i [] [])) (w\<lparr>lw_clock := Suc (lw_clock w)\<rparr>))"
    using assms(3) by (simp add: CreateNext_def steady_call [OF assms(1)] seq_def reading_def update_def)
  obtain w1 where w1: "OwnNext k rs ?next (set_entry ?next (Some (LinuxNode ?i [] [])) (w\<lparr>lw_clock := Suc (lw_clock w)\<rparr>)) = (Returned (), w1)"
      "lw_entries w1 = (lw_entries w)(?next \<mapsto> ?node [])"
    using assms(2)
    by (auto simp: OwnNext_def ChangeNext_def steady_call [OF assms(1)] seq_def reading_def update_def
        RequireRegistryFileIdentity_def require_def creates_private_def private_created)
  have moved: "returns (Replace k e ?next (registry_leaf t)) w2" if "lw_entries w2 = (lw_entries w)(?next \<mapsto> ?node s)" for w2 e
    using steady_replace [OF assms(1), of w2 ?next "?node s" "registry_leaf t" e] that assms(2,4)
    by (auto simp: returns_def creates_private_def is_directory_def own_def restrict_mode_def)
  have flush: "returns (Flush k e) w'" for e w' by (simp add: returns_def steady_call [OF assms(1)])
  note step = returns_seqI [where m = "Flush k e" for e, OF steady_call(2) [OF assms(1)]]
  show ?thesis
    unfolding ReplaceRecord_def OnLinuxTransactionRegistryFault_def
    by (rule returns_seqI, rule create, rule returns_seqI, rule w1, rule step, rule step,
        rule returns_seqI, rule steady_call(4) [OF assms(1)], rule step, rule step, rule returns_seq_any, rule moved)
      (auto simp: write_bytes_def w1(2) intro!: step flush)
qed

lemma seq_assoc: "seq (seq m f) g = seq m (\<lambda>x. seq (f x) g)"
  by (rule ext) (simp add: seq_def split: prod.split outcome.split)

lemma seq_require_True: "seq (require True e) f = f ()"
  by (rule ext) (simp add: seq_def require_def)

lemma steady_persist:
  assumes "uninterrupted k" and "creates_private rs k" and "healthy sha rs w" and valid: "registry_ValidateRecord sha r = Inr ()"
    and load: "RegistryLoad k sha rs (rg_transaction_id r) w = (Returned current, w1)"
    and "\<And>c. current = Some c \<Longrightarrow> registry_transition c r"
  shows "returns (RegistryPersist k sha rs r) w"
proof -
  let ?t = "rg_transaction_id r"
  have w1: "healthy sha rs w1" "current_is sha ?t current w1" "lw_entries w1 (registry_next ?t) = None"
    using runsD [OF health.keeps_Load _ load] assms(2,3) by simp_all
  have valid_current: "EncodeRegistryRecord sha c = Inr (registry_text c)" if "current = Some c" for c
    using w1(2) that DecodeRegistryRecord_valid [of sha _ c]
    by (auto simp: current_is_def stored_def EncodeRegistryRecord_def split: option.splits sum.splits)
  have uuid: "registry_IsUuid ?t = True" using registry_valid_id [OF valid] by simp
  have decided: "\<exists>b. AlreadyStored sha r current (registry_text r) w1 = (Returned b, w1)"
    using assms(6) valid_current
    by (auto simp: AlreadyStored_def ret_def seq_def lift_def registry_ValidateTransition_def split: option.split)
  have rest: "RegistryPersist k sha rs r = seq (RegistryLoad k sha rs ?t) (\<lambda>current.
      seq (AlreadyStored sha r current (registry_text r)) (\<lambda>unchanged.
        if unchanged then ret () else ReplaceRecord k rs ?t (registry_text r)))"
    unfolding RegistryPersist_def RegistryLoad_def uuid seq_require_True seq_assoc
    by (simp only: EncodeRegistryRecord_def [of sha r] valid bindE_simps seq_lift_Inr)
  show ?thesis
    unfolding rest
    by (rule returns_seqI, rule load)
      (use decided w1 in \<open>auto intro!: returns_seqI steady_write [OF assms(1,2)]
        simp: healthy_def leaf_healthy_def registry_file_def\<close>)
qed

lemma health_invariant:
  assumes "creates_private rs k"
  shows "registry_invariant sha rs k {r. length (registry_text r) \<le> registry_limit} (healthy sha rs)"
  using health.registry_invariant_axioms [of sha rs k] assms by simp

lemma persist_stored:
  assumes "RegistryPersist k sha rs r w = (Returned (), w')"
  shows "stored sha (rg_transaction_id r) w' = Some r" and "advanced sha w w'"
  using runsD [OF advance.keeps_Persist [of r sha w k rs] advanced_refl assms] by simp_all

lemma load_stored:
  assumes "RegistryLoad k sha rs t w = (Returned v, w')"
  shows "stored sha t w' = v" and "advanced sha w w'"
  using runsD [OF advance.keeps_Load [of sha w k rs t] advanced_refl assms] by (simp_all add: current_is_stored)

section \<open>A sample index\<close>

definition sample_store :: LinuxTransactionRegistry where
  "sample_store = \<lparr>rs_uid = 1000, rs_gid = 1000, rs_directory_identity = (sample_identity 1 True)\<lparr>id_mode := 0x41C0\<rparr>\<rparr>"

definition sample_registry :: LinuxWorld where
  "sample_registry = \<lparr>lw_parent = rs_directory_identity sample_store,
     lw_entries = [registry_leaf sample_transaction \<mapsto> LinuxNode (sample_identity 2 False) (registry_text (sample_entry ''preparing'')) []],
     lw_clock = 0, lw_lock_held = False, lw_journal = None, lw_journal_persisted = False, lw_execution_started = False\<rparr>"

definition sample_steady :: LinuxKernel where
  "sample_steady = \<lparr>kn_call = \<lambda>_. Proceeds, kn_hit = \<lambda>_ _. Proceeds, kn_change_time = \<lambda>_. (1, 0), kn_link_count = \<lambda>_. 1,
     kn_created = \<lambda>_. sample_identity 3 False, kn_written = \<lambda>_. 0, kn_flock = \<lambda>_. True\<rparr>"

lemma sample_transition: "registry_transition (sample_entry ''preparing'') (sample_entry ''prepared'')"
  by (simp add: registry_transition_def SameImmutableBinding_def AllowedStateTransition_def sample_entry_def)

lemma sample_stored: "stored sample_digest sample_transaction sample_registry = Some (sample_entry ''preparing'')"
  by (simp add: stored_def sample_registry_def DecodeRegistryRecord_text sample_entry_valid)

lemma sample_kernel_uninterrupted: "uninterrupted sample_steady" "creates_private sample_store sample_steady"
  by (simp_all add: uninterrupted_def sample_steady_def creates_private_def private_file_def sample_identity_def sample_store_def
      S_IFMT_def S_IFREG_def)

lemma sample_length:
  assumes "length state \<le> 100" shows "length (registry_text (sample_entry state)) \<le> registry_limit"
proof -
  let ?f = "\<lambda>v. case v of kString s \<Rightarrow> 6 * length s + 2 | kInteger i \<Rightarrow> 5 | _ \<Rightarrow> 10000"
  have integers: "length (show_int 2) \<le> 5" "length (show_int 1000) \<le> 5" "length (show_int 33261) \<le> 5"
    by (simp_all add: show_int_def show_nat.simps)
  have string: "length (EncodeString s) \<le> n" if "6 * length s + 2 \<le> n" for s n
    using length_EncodeString [of s] that by (rule order_trans)
  have payload: "length (Encode (registry_EncodePayload sample_payload)) \<le> 10000"
    unfolding registry_EncodePayload_def
    by (rule order_trans [OF length_object [where f = ?f]])
      (simp_all add: payload_members_def sample_payload_def integers string)
  show ?thesis
    unfolding registry_text_def EncodeCanonicalJson_def registry_limit_def
    by (rule order_trans [OF length_object [where f = ?f]])
      (use assms payload in \<open>simp_all add: registry_members_def sample_entry_def sample_transaction_def integers string
         registry_EncodePayload_def\<close>)
qed

lemma sample_healthy: "healthy sample_digest sample_store sample_registry"
proof -
  have "leaf_healthy sample_digest sample_store sample_transaction
      (LinuxNode (sample_identity 2 False) (registry_text (sample_entry ''preparing'')) [])"
    using sample_length [of "''preparing''"] DecodeRegistryRecord_text [OF sample_entry_valid, of "''preparing''"]
    by (simp add: leaf_healthy_def registry_file_def private_file_def sample_identity_def sample_store_def is_directory_def
        S_IFMT_def S_IFREG_def) (simp add: sample_entry_def)
  then show ?thesis
    by (simp add: healthy_def sample_registry_def private_directory_def sample_store_def sample_identity_def)
qed

text \<open>A kernel that lets a number of calls through and kills the process at the next.\<close>

definition sample_dying :: "nat \<Rightarrow> LinuxKernel" where
  "sample_dying n = sample_steady\<lparr>kn_call := \<lambda>m. if m < n then Proceeds else Dies\<rparr>"

lemma sample_persists:
  "\<exists>w. RegistryPersist sample_steady sample_digest sample_store (sample_entry ''prepared'') sample_registry = (Returned (), w)"
proof -
  have id: "rg_transaction_id (sample_entry ''prepared'') = sample_transaction" by (simp add: sample_entry_def)
  have "lw_entries sample_registry (registry_next sample_transaction) = None" by (simp add: sample_registry_def)
  then obtain w where load: "RegistryLoad sample_steady sample_digest sample_store sample_transaction sample_registry =
      (Returned (Some (sample_entry ''preparing'')), w)"
    using settled_load [OF sample_kernel_uninterrupted(1) sample_healthy sample_id_uuid] sample_stored by auto
  show ?thesis
    using steady_persist [OF sample_kernel_uninterrupted sample_healthy sample_entry_valid load [folded id]] sample_transition
    by (simp add: returns_def)
qed

section \<open>Properties\<close>

text \<open>
  C5. The history of a transaction survives every crash: whatever calls of the store the processes make, and
  whichever call of theirs fails or kills them, a record that was stored is followed only by records
  that the transition rules allow. So its binding to package, policy, helper, target and payload never
  changes, a journal digest once set stays, and a transaction that has an outcome keeps it.
\<close>

theorem registry_history:
  assumes "(registry_step sha rs kernels records)\<^sup>*\<^sup>* w w'" and "stored sha t w = Some r"
  shows "\<exists>q. stored sha t w' = Some q \<and> registry_transition\<^sup>*\<^sup>* r q \<and> SameImmutableBinding r q \<and>
    (rg_state r \<in> final_states \<longrightarrow> rg_state q = rg_state r) \<and>
    (rg_journal_digest r \<noteq> replicate 64 CHR ''0'' \<longrightarrow> rg_journal_digest q = rg_journal_digest r)"
proof -
  obtain q where q: "stored sha t w' = Some q" "registry_transition\<^sup>*\<^sup>* r q"
    using registry_steps_advanced [OF assms(1)] assms(2) unfolding advanced_def by blast
  show ?thesis using q registry_transitions_keep [OF q(2)] by blast
qed

theorem registry_history_witness:
  "\<exists>w q. stored sample_digest sample_transaction w = Some q \<and> rg_state q = ''prepared'' \<and>
     SameImmutableBinding (sample_entry ''preparing'') q"
proof -
  obtain w where w: "RegistryPersist sample_steady sample_digest sample_store (sample_entry ''prepared'') sample_registry = (Returned (), w)"
    using sample_persists by blast
  have "(registry_step sample_digest sample_store {sample_steady} UNIV)\<^sup>*\<^sup>* sample_registry w"
    using w by (intro r_into_rtranclp) (rule registry_step.persisted; simp)
  moreover have "stored sample_digest sample_transaction w = Some (sample_entry ''prepared'')" "rg_state (sample_entry ''prepared'') = ''prepared''"
    using persist_stored(1) [OF w] by (simp_all add: sample_entry_def)
  ultimately show ?thesis using registry_history [OF _ sample_stored] by fastforce
qed

text \<open>
  C12. The index recovers from every crash, under conditions that its code relies on: the index is healthy at the start (private directory and
  files, every file a record that reading accepts), every process creates private files, and no record that was persisted is longer than
  the 2 MiB that reading accepts, which persisting does not check. Then, after any calls of the store by
  processes that were killed anywhere, a process whose own calls all go through loads a record that continues the one stored at
  first, and persists every valid record that the transition rules allow after the one it loads.
\<close>

theorem registry_recovers:
  assumes "(registry_step sha rs kernels {r. length (registry_text r) \<le> registry_limit})\<^sup>*\<^sup>* w w'" and "healthy sha rs w"
    and "\<And>k. k \<in> kernels \<Longrightarrow> creates_private rs k" and k: "uninterrupted k" "creates_private rs k" and t: "registry_IsUuid t"
  shows "\<exists>v w1. RegistryLoad k sha rs t w' = (Returned v, w1) \<and> stored sha t w1 = v \<and>
    (\<forall>r. stored sha t w = Some r \<longrightarrow> (\<exists>q. v = Some q \<and> registry_transition\<^sup>*\<^sup>* r q)) \<and>
    (\<forall>r. rg_transaction_id r = t \<and> registry_ValidateRecord sha r = Inr () \<and> (\<forall>c. v = Some c \<longrightarrow> registry_transition c r) \<longrightarrow>
      (\<exists>w2. RegistryPersist k sha rs r w' = (Returned (), w2) \<and> stored sha t w2 = Some r))"
proof -
  have w': "healthy sha rs w'"
    by (rule registry_steps_invariant [where I = "healthy sha rs", OF assms(1,2)]) (blast intro: health_invariant assms(3))
  then obtain v w1 where load: "RegistryLoad k sha rs t w' = (Returned v, w1)"
    using steady_load [OF k(1) _ t] unfolding returns_def by blast
  note v = load_stored [OF load]
  have continued: "\<exists>q. v = Some q \<and> registry_transition\<^sup>*\<^sup>* r q" if "stored sha t w = Some r" for r
    using advanced_trans [OF registry_steps_advanced [OF assms(1)] v(2)] that v(1) by (auto simp: advanced_def)
  have persisted: "\<exists>w2. RegistryPersist k sha rs r w' = (Returned (), w2) \<and> stored sha t w2 = Some r"
    if r: "rg_transaction_id r = t" "registry_ValidateRecord sha r = Inr ()" "\<forall>c. v = Some c \<longrightarrow> registry_transition c r" for r
    using steady_persist [OF k w' r(2)] load r(1,3) persist_stored(1) unfolding returns_def by fastforce
  show ?thesis using load v(1) continued persisted by blast
qed

theorem registry_recovers_witness:
  "\<exists>v w. RegistryLoad sample_steady sample_digest sample_store sample_transaction
      (snd (RegistryPersist (sample_dying 9) sample_digest sample_store (sample_entry ''prepared'') sample_registry)) = (Returned (Some v), w)"
proof -
  let ?run = "RegistryPersist (sample_dying 9) sample_digest sample_store (sample_entry ''prepared'') sample_registry"
  have "(registry_step sample_digest sample_store {sample_dying 9} {r. length (registry_text r) \<le> registry_limit})\<^sup>*\<^sup>* sample_registry (snd ?run)"
    using sample_length [of "''prepared''"]
    by (intro r_into_rtranclp registry_step.persisted [where k = "sample_dying 9" and outcome = "fst ?run"]) simp_all
  moreover have "creates_private sample_store (sample_dying 9)"
    using sample_kernel_uninterrupted(2) by (simp add: creates_private_def sample_dying_def)
  ultimately show ?thesis
    using registry_recovers [OF _ sample_healthy _ sample_kernel_uninterrupted sample_id_uuid] sample_stored by fastforce
qed

text \<open>
  C18. A call that returns tells the truth: when persisting returns, the record is valid and is what is
  stored, and it continues what was stored before; what loading returns is what is stored then.
\<close>

theorem registry_reports:
  assumes "RegistryPersist k sha rs r w = (Returned (), w1)" and "RegistryLoad k' sha rs t w1 = (Returned v, w2)"
  shows "registry_ValidateRecord sha r = Inr () \<and> stored sha (rg_transaction_id r) w1 = Some r \<and>
    (\<forall>c. stored sha (rg_transaction_id r) w = Some c \<longrightarrow> registry_transition\<^sup>*\<^sup>* c r) \<and>
    stored sha t w2 = v \<and> (\<forall>c. stored sha t w1 = Some c \<longrightarrow> (\<exists>q. v = Some q \<and> registry_transition\<^sup>*\<^sup>* c q))"
proof -
  have "registry_ValidateRecord sha r = Inr ()"
    using persist_stored(1) [OF assms(1)] DecodeRegistryRecord_valid
    by (auto simp: stored_def split: option.splits sum.splits)
  then show ?thesis
    using persist_stored [OF assms(1)] load_stored [OF assms(2)] unfolding advanced_def by fastforce
qed

theorem registry_reports_witness:
  "\<exists>w1 q w2. RegistryPersist sample_steady sample_digest sample_store (sample_entry ''prepared'') sample_registry = (Returned (), w1) \<and>
     RegistryLoad sample_steady sample_digest sample_store sample_transaction w1 = (Returned (Some q), w2) \<and>
     stored sample_digest sample_transaction w1 = Some (sample_entry ''prepared'') \<and>
     stored sample_digest sample_transaction w2 = Some q \<and> SameImmutableBinding (sample_entry ''prepared'') q"
proof -
  obtain w1 where w1: "RegistryPersist sample_steady sample_digest sample_store (sample_entry ''prepared'') sample_registry = (Returned (), w1)"
    using sample_persists by blast
  have id: "rg_transaction_id (sample_entry ''prepared'') = sample_transaction" by (simp add: sample_entry_def)
  have w1_healthy: "healthy sample_digest sample_store w1"
    using runsD [OF health.keeps_Persist _ w1] sample_healthy sample_length [of "''prepared''"] sample_kernel_uninterrupted(2) by simp
  obtain v w2 where load: "RegistryLoad sample_steady sample_digest sample_store sample_transaction w1 = (Returned v, w2)"
    using steady_load [OF sample_kernel_uninterrupted(1) w1_healthy sample_id_uuid] unfolding returns_def by blast
  note told = registry_reports [OF w1 load]
  then obtain q where q: "v = Some q" "registry_transition\<^sup>*\<^sup>* (sample_entry ''prepared'') q" using id by auto
  then show ?thesis using w1 load told id registry_transitions_keep [OF q(2)] by auto
qed

end
