(* ===== verification/Sha256.thy ===== *)
theory Sha256
  imports Number_Text Complex_Main
begin

text \<open>
  The SHA-256 that \<^verbatim>\<open>install_helper_policy.cc\<close> carries for the digest of a policy, and its agreement with the
  definition of the Secure Hash Standard (FIPS 180-4). The code pads a vector of bytes, fills an array of
  64 words block by block and shifts eight working variables in place; the standard speaks of padded
  messages, of a recursive message schedule and of constants that are fractional parts of roots of primes.
\<close>

section \<open>The code\<close>

definition kSha256Constants :: "32 word list" where
  "kSha256Constants = [
    0x428a2f98, 0x71374491, 0xb5c0fbcf, 0xe9b5dba5, 0x3956c25b, 0x59f111f1, 0x923f82a4, 0xab1c5ed5,
    0xd807aa98, 0x12835b01, 0x243185be, 0x550c7dc3, 0x72be5d74, 0x80deb1fe, 0x9bdc06a7, 0xc19bf174,
    0xe49b69c1, 0xefbe4786, 0x0fc19dc6, 0x240ca1cc, 0x2de92c6f, 0x4a7484aa, 0x5cb0a9dc, 0x76f988da,
    0x983e5152, 0xa831c66d, 0xb00327c8, 0xbf597fc7, 0xc6e00bf3, 0xd5a79147, 0x06ca6351, 0x14292967,
    0x27b70a85, 0x2e1b2138, 0x4d2c6dfc, 0x53380d13, 0x650a7354, 0x766a0abb, 0x81c2c92e, 0x92722c85,
    0xa2bfe8a1, 0xa81a664b, 0xc24b8b70, 0xc76c51a3, 0xd192e819, 0xd6990624, 0xf40e3585, 0x106aa070,
    0x19a4c116, 0x1e376c08, 0x2748774c, 0x34b0bcb5, 0x391c0cb3, 0x4ed8aa4a, 0x5b9cca4f, 0x682e6ff3,
    0x748f82ee, 0x78a5636f, 0x84c87814, 0x8cc70208, 0x90befffa, 0xa4506ceb, 0xbef9a3f7, 0xc67178f2]"

definition sha256_initial :: "32 word list" where
  "sha256_initial = [0x6a09e667, 0xbb67ae85, 0x3c6ef372, 0xa54ff53a, 0x510e527f, 0x9b05688c, 0x1f83d9ab, 0x5be0cd19]"

definition RotateRight :: "32 word \<Rightarrow> nat \<Rightarrow> 32 word" where
  "RotateRight v count = or (drop_bit count v) (push_bit (32 - count) v)"

text \<open>\<^verbatim>\<open>while (bytes.size() % 64 != 56) bytes.push_back(0);\<close>\<close>

function PushZeros :: "8 word list \<Rightarrow> 8 word list" where
  "PushZeros bytes = (if length bytes mod 64 \<noteq> 56 then PushZeros (bytes @ [0]) else bytes)"
  by pat_completeness auto
termination
proof (relation "measure (\<lambda>bytes. let r = length bytes mod 64 in if r \<le> 56 then 56 - r else 120 - r)")
  fix bytes :: "8 word list" assume "length bytes mod 64 \<noteq> 56"
  moreover have "length bytes mod 64 < 64" by simp
  ultimately show "(bytes @ [0], bytes) \<in> measure (\<lambda>bytes. let r = length bytes mod 64 in if r \<le> 56 then 56 - r else 120 - r)"
    by (auto simp: Let_def mod_Suc)
qed simp

declare PushZeros.simps [simp del]

definition sha256_bytes :: "string \<Rightarrow> 8 word list" where
  "sha256_bytes input =
     (let bytes = map of_char input; bit_length = of_nat (length bytes) * 8 :: 64 word in
      PushZeros (bytes @ [0x80]) @ map (\<lambda>shift. ucast (drop_bit shift bit_length)) [56, 48, 40, 32, 24, 16, 8, 0])"

text \<open>The array \<^verbatim>\<open>words\<close> of a block: sixteen words from the bytes, the others from earlier words.\<close>

definition LoadWord :: "8 word list \<Rightarrow> nat \<Rightarrow> nat \<Rightarrow> 32 word" where
  "LoadWord bytes offset index =
     (let start = offset + index * 4 in
      or (or (or (push_bit 24 (ucast (bytes ! start))) (push_bit 16 (ucast (bytes ! (start + 1)))))
        (push_bit 8 (ucast (bytes ! (start + 2))))) (ucast (bytes ! (start + 3))))"

definition ExtendWord :: "32 word list \<Rightarrow> nat \<Rightarrow> 32 word" where
  "ExtendWord words index =
     (let first = xor (xor (RotateRight (words ! (index - 15)) 7) (RotateRight (words ! (index - 15)) 18))
            (drop_bit 3 (words ! (index - 15)));
          second = xor (xor (RotateRight (words ! (index - 2)) 17) (RotateRight (words ! (index - 2)) 19))
            (drop_bit 10 (words ! (index - 2)))
      in words ! (index - 16) + first + words ! (index - 7) + second)"

definition sha256_words :: "8 word list \<Rightarrow> nat \<Rightarrow> 32 word list" where
  "sha256_words bytes offset =
     fold (\<lambda>index words. words[index := ExtendWord words index]) [16..<64]
       (fold (\<lambda>index words. words[index := LoadWord bytes offset index]) [0..<16] (replicate 64 0))"

text \<open>One round: the assignments to the working variables, in the order of the code.\<close>

definition sha256_round :: "32 word list \<Rightarrow> nat \<Rightarrow> 32 word list \<Rightarrow> 32 word list" where
  "sha256_round words index state =
     (let chosen = xor (and (state ! 4) (state ! 5)) (and (not (state ! 4)) (state ! 6));
          majority = xor (xor (and (state ! 0) (state ! 1)) (and (state ! 0) (state ! 2))) (and (state ! 1) (state ! 2));
          sum_one = xor (xor (RotateRight (state ! 4) 6) (RotateRight (state ! 4) 11)) (RotateRight (state ! 4) 25);
          sum_zero = xor (xor (RotateRight (state ! 0) 2) (RotateRight (state ! 0) 13)) (RotateRight (state ! 0) 22);
          temporary_one = state ! 7 + sum_one + chosen + kSha256Constants ! index + words ! index;
          temporary_two = sum_zero + majority;
          state = state[7 := state ! 6];
          state = state[6 := state ! 5];
          state = state[5 := state ! 4];
          state = state[4 := state ! 3 + temporary_one];
          state = state[3 := state ! 2];
          state = state[2 := state ! 1];
          state = state[1 := state ! 0]
      in state[0 := temporary_one + temporary_two])"

definition sha256_block :: "8 word list \<Rightarrow> nat \<Rightarrow> 32 word list \<Rightarrow> 32 word list" where
  "sha256_block bytes offset hash =
     (let words = sha256_words bytes offset; state = fold (sha256_round words) [0..<64] hash
      in fold (\<lambda>index hash. hash[index := hash ! index + state ! index]) [0..<8] hash)"

function sha256_loop :: "8 word list \<Rightarrow> nat \<Rightarrow> 32 word list \<Rightarrow> 32 word list" where
  "sha256_loop bytes offset hash =
     (if offset < length bytes then sha256_loop bytes (offset + 64) (sha256_block bytes offset hash) else hash)"
  by pat_completeness auto
termination
  by (relation "measure (\<lambda>(bytes, offset, hash). length bytes - offset)") auto

declare sha256_loop.simps [simp del]

definition Sha256Hex :: "string \<Rightarrow> string" where
  "Sha256Hex input = concat (map (\<lambda>v. hex_pad 8 (unat v)) (sha256_loop (sha256_bytes input) 0 sha256_initial))"

section \<open>The standard\<close>

text \<open>The functions of section 4.1.2.\<close>

definition Ch :: "32 word \<Rightarrow> 32 word \<Rightarrow> 32 word \<Rightarrow> 32 word" where
  "Ch x y z = xor (and x y) (and (not x) z)"

definition Maj :: "32 word \<Rightarrow> 32 word \<Rightarrow> 32 word \<Rightarrow> 32 word" where
  "Maj x y z = xor (xor (and x y) (and x z)) (and y z)"

definition Sigma0 :: "32 word \<Rightarrow> 32 word" where
  "Sigma0 x = xor (xor (word_rotr 2 x) (word_rotr 13 x)) (word_rotr 22 x)"

definition Sigma1 :: "32 word \<Rightarrow> 32 word" where
  "Sigma1 x = xor (xor (word_rotr 6 x) (word_rotr 11 x)) (word_rotr 25 x)"

definition sigma0 :: "32 word \<Rightarrow> 32 word" where
  "sigma0 x = xor (xor (word_rotr 7 x) (word_rotr 18 x)) (drop_bit 3 x)"

definition sigma1 :: "32 word \<Rightarrow> 32 word" where
  "sigma1 x = xor (xor (word_rotr 17 x) (word_rotr 19 x)) (drop_bit 10 x)"

text \<open>
  The constants of section 4.2.2 and the initial value of section 5.3.3: the first 32 bits of the
  fractional parts of the cube roots of the first 64 primes, and of the square roots of the first eight.
\<close>

definition first_primes :: "nat list" where
  "first_primes = [2, 3, 5, 7, 11, 13, 17, 19, 23, 29, 31, 37, 41, 43, 47, 53, 59, 61, 67, 71, 73, 79, 83, 89, 97,
     101, 103, 107, 109, 113, 127, 131, 137, 139, 149, 151, 157, 163, 167, 173, 179, 181, 191, 193, 197, 199,
     211, 223, 227, 229, 233, 239, 241, 251, 257, 263, 269, 271, 277, 281, 283, 293, 307, 311]"

definition root_fraction :: "nat \<Rightarrow> nat \<Rightarrow> 32 word" where
  "root_fraction n p = of_int \<lfloor>2 ^ 32 * (root n (real p) - of_int \<lfloor>root n (real p)\<rfloor>)\<rfloor>"

definition fips_K :: "nat \<Rightarrow> 32 word" where
  "fips_K t = root_fraction 3 (first_primes ! t)"

definition fips_initial :: "32 word list" where
  "fips_initial = map (root_fraction 2) (take 8 first_primes)"

text \<open>Padding and parsing, sections 5.1.1 and 5.2.1.\<close>

definition big_endian :: "nat \<Rightarrow> nat \<Rightarrow> 8 word list" where
  "big_endian k n = map (\<lambda>i. of_nat (n div 256 ^ (k - 1 - i))) [0..<k]"

definition fips_pad :: "8 word list \<Rightarrow> 8 word list" where
  "fips_pad m = m @ [0x80] @ replicate (LEAST z. (length m + 1 + z) mod 64 = 56) 0 @ big_endian 8 (8 * length m)"

fun fips_blocks :: "8 word list \<Rightarrow> 8 word list list" where
  "fips_blocks m = (if m = [] then [] else take 64 m # fips_blocks (drop 64 m))"

declare fips_blocks.simps [simp del]

definition fips_word :: "8 word list \<Rightarrow> nat \<Rightarrow> 32 word" where
  "fips_word block t = of_nat (horner_sum unat 256 (rev (take 4 (drop (4 * t) block))))"

text \<open>The hash computation, section 6.2.2.\<close>

fun fips_W :: "8 word list \<Rightarrow> nat \<Rightarrow> 32 word" where
  "fips_W block t =
     (if t < 16 then fips_word block t
      else sigma1 (fips_W block (t - 2)) + fips_W block (t - 7) + sigma0 (fips_W block (t - 15)) + fips_W block (t - 16))"

declare fips_W.simps [simp del]

type_synonym working = "32 word \<times> 32 word \<times> 32 word \<times> 32 word \<times> 32 word \<times> 32 word \<times> 32 word \<times> 32 word"

definition fips_step :: "8 word list \<Rightarrow> working \<Rightarrow> nat \<Rightarrow> working" where
  "fips_step block = (\<lambda>(a, b, c, d, e, f, g, h) t.
     let T1 = h + Sigma1 e + Ch e f g + fips_K t + fips_W block t;
         T2 = Sigma0 a + Maj a b c
     in (T1 + T2, a, b, c, d + T1, e, f, g))"

definition working_list :: "working \<Rightarrow> 32 word list" where
  "working_list = (\<lambda>(a, b, c, d, e, f, g, h). [a, b, c, d, e, f, g, h])"

definition list_working :: "32 word list \<Rightarrow> working" where
  "list_working H = (H ! 0, H ! 1, H ! 2, H ! 3, H ! 4, H ! 5, H ! 6, H ! 7)"

definition fips_compress :: "32 word list \<Rightarrow> 8 word list \<Rightarrow> 32 word list" where
  "fips_compress H block = map2 (+) (working_list (foldl (fips_step block) (list_working H) [0..<64])) H"

definition fips_sha256 :: "8 word list \<Rightarrow> 32 word list" where
  "fips_sha256 m = foldl fips_compress fips_initial (fips_blocks (fips_pad m))"

section \<open>Rotation and words\<close>

lemma RotateRight_rotr:
  assumes "n < 32" "0 < n" shows "RotateRight v n = word_rotr n v"
proof (rule bit_word_eqI)
  fix i assume i: "i < LENGTH(32)"
  show "bit (RotateRight v n) i \<longleftrightarrow> bit (word_rotr n v) i"
  proof (cases "i + n < 32")
    case True
    then show ?thesis using assms i by (auto simp: RotateRight_def bit_simps add.commute)
  next
    case False
    then have "(i + n) mod 32 = i - (32 - n)" using assms i by (simp add: mod_if)
    then show ?thesis using False assms i
      by (auto simp: RotateRight_def bit_simps bit_word_rotr_iff add.commute dest: bit_imp_le_length)
  qed
qed

lemma or_push_bits:
  fixes b0 b1 b2 b3 :: "8 word"
  shows "or (or (or (push_bit 24 (ucast b0 :: 32 word)) (push_bit 16 (ucast b1))) (push_bit 8 (ucast b2))) (ucast b3) =
    of_nat (horner_sum unat 256 [b3, b2, b1, b0])"
proof -
  let ?b0 = "push_bit 24 (ucast b0 :: 32 word)" and ?b1 = "push_bit 16 (ucast b1 :: 32 word)"
    and ?b2 = "push_bit 8 (ucast b2 :: 32 word)" and ?b3 = "ucast b3 :: 32 word"
  have "and ?b0 ?b1 = 0" "and (or ?b0 ?b1) ?b2 = 0" "and (or (or ?b0 ?b1) ?b2) ?b3 = 0"
    by (rule bit_eqI, auto simp: bit_simps dest: bit_imp_le_length)+
  then have "or (or (or ?b0 ?b1) ?b2) ?b3 = ?b0 + ?b1 + ?b2 + ?b3"
    by (simp only: disjunctive_add_eq_or)
  also have "\<dots> = of_nat (horner_sum unat 256 [b3, b2, b1, b0])"
    by (simp add: push_bit_eq_mult of_nat_unat algebra_simps)
  finally show ?thesis .
qed

lemma LoadWord_fips:
  assumes "offset + 64 \<le> length bytes" and "t < 16"
  shows "LoadWord bytes offset t = fips_word (take 64 (drop offset bytes)) t"
proof -
  let ?s = "offset + t * 4"
  have "take 4 (drop (4 * t) (take 64 (drop offset bytes))) = take 4 (drop ?s bytes)"
    using assms by (simp add: drop_take min_def add.commute mult.commute)
  also have "\<dots> = [bytes ! ?s, bytes ! (?s + 1), bytes ! (?s + 2), bytes ! (?s + 3)]"
    using assms by (intro nth_equalityI) (auto simp: numeral_nat less_Suc_eq)
  finally show ?thesis
    by (simp add: fips_word_def LoadWord_def Let_def or_push_bits)
qed

text \<open>Filling an array from the left, each entry from those before it.\<close>

lemma fold_fill:
  assumes "length w = n" and "a \<le> b" "b \<le> n" and "\<And>t. t < a \<Longrightarrow> w ! t = f t"
    and step: "\<And>i w. a \<le> i \<Longrightarrow> i < b \<Longrightarrow> length w = n \<Longrightarrow> (\<And>t. t < i \<Longrightarrow> w ! t = f t) \<Longrightarrow> g i w = f i"
  shows "length (fold (\<lambda>i w. w[i := g i w]) [a..<b] w) = n \<and> (\<forall>t < b. fold (\<lambda>i w. w[i := g i w]) [a..<b] w ! t = f t)"
  using assms(2,3) step
proof (induction b rule: dec_induct)
  case base
  then show ?case using assms by simp
next
  case (step b)
  let ?w = "fold (\<lambda>i w. w[i := g i w]) [a..<b] w"
  have IH: "length ?w = n" "\<And>t. t < b \<Longrightarrow> ?w ! t = f t" using step by auto
  then have "g b ?w = f b" using step by auto
  with IH step show ?case by (auto simp: less_Suc_eq nth_list_update)
qed

lemma fips_W_less: "t < 16 \<Longrightarrow> fips_W block t = fips_word block t"
  by (simp add: fips_W.simps [of block t])

lemma fips_W_ge:
  "16 \<le> t \<Longrightarrow> fips_W block t =
     sigma1 (fips_W block (t - 2)) + fips_W block (t - 7) + sigma0 (fips_W block (t - 15)) + fips_W block (t - 16)"
  by (simp add: fips_W.simps [of block t])

lemma sha256_words_W:
  assumes "offset + 64 \<le> length bytes" and "t < 64"
  shows "sha256_words bytes offset ! t = fips_W (take 64 (drop offset bytes)) t"
proof -
  let ?W = "fips_W (take 64 (drop offset bytes))"
  define first where "first = fold (\<lambda>index words. words[index := LoadWord bytes offset index]) [0..<16] (replicate 64 0)"
  have first: "length first = 64 \<and> (\<forall>t < 16. first ! t = ?W t)"
    unfolding first_def
  proof (rule fold_fill [where g = "\<lambda>i _. LoadWord bytes offset i" and f = ?W])
    fix i :: nat assume "i < 16"
    then show "LoadWord bytes offset i = ?W i" using assms(1) by (simp only: LoadWord_fips fips_W_less)
  qed simp_all
  have "length (fold (\<lambda>i w. w[i := ExtendWord w i]) [16..<64] first) = 64 \<and>
      (\<forall>t < 64. fold (\<lambda>i w. w[i := ExtendWord w i]) [16..<64] first ! t = ?W t)"
  proof (rule fold_fill [where g = "\<lambda>i w. ExtendWord w i" and f = ?W])
    fix i and w :: "32 word list"
    assume "16 \<le> i" "\<And>t. t < i \<Longrightarrow> w ! t = ?W t"
    then show "ExtendWord w i = ?W i"
      by (simp add: fips_W_ge ExtendWord_def sigma0_def sigma1_def RotateRight_rotr)
  qed (use first in simp_all)
  then show ?thesis using assms(2) by (simp only: sha256_words_def first_def)
qed

section \<open>Constants\<close>

lemma floor_root:
  assumes "0 < n" and "k ^ n \<le> p" "p < (k + 1) ^ n"
  shows "\<lfloor>root n (real p)\<rfloor> = int k"
proof (rule floor_unique)
  have "root n (real k ^ n) \<le> root n (real p)" using assms by (simp add: real_root_le_iff flip: of_nat_power)
  then show "of_int (int k) \<le> root n (real p)" using assms(1) by (simp add: real_root_power_cancel)
  have "root n (real p) < root n ((real k + 1) ^ n)"
  proof (rule real_root_less_mono [OF assms(1)])
    have "real p < real ((k + 1) ^ n)" using assms(3) by (simp only: of_nat_less_iff)
    then show "real p < (real k + 1) ^ n" by (simp add: add.commute)
  qed
  then show "root n (real p) < of_int (int k) + 1" using assms(1) by (simp add: real_root_power_cancel)
qed

lemma root_fraction_eqI:
  assumes "0 < n" and "k ^ n \<le> p" "p < (k + 1) ^ n"
    and "(k * 2 ^ 32 + c) ^ n \<le> (2 ^ 32) ^ n * p" "(2 ^ 32) ^ n * p < (k * 2 ^ 32 + c + 1) ^ n"
  shows "root_fraction n p = of_nat c"
proof -
  have "root n (real ((2 ^ 32) ^ n * p)) = 2 ^ 32 * root n (real p)"
    using assms(1) by (simp add: real_root_mult real_root_power_cancel)
  then have "\<lfloor>2 ^ 32 * root n (real p)\<rfloor> = int (k * 2 ^ 32 + c)"
    using floor_root [OF assms(1,4,5)] by simp
  moreover have "2 ^ 32 * (root n (real p) - of_int \<lfloor>root n (real p)\<rfloor>) = 2 ^ 32 * root n (real p) - of_int (2 ^ 32 * int k)"
    using floor_root [OF assms(1,2,3)] by (simp add: algebra_simps)
  ultimately have "\<lfloor>2 ^ 32 * (root n (real p) - of_int \<lfloor>root n (real p)\<rfloor>)\<rfloor> = int c"
    by (simp only: floor_diff_of_int) simp
  then show ?thesis by (simp add: root_fraction_def)
qed

text \<open>The test of a constant, given the whole part of the root.\<close>

definition is_root_fraction :: "nat \<Rightarrow> nat \<Rightarrow> nat \<Rightarrow> 32 word \<Rightarrow> bool" where
  "is_root_fraction n k p w \<longleftrightarrow> k ^ n \<le> p \<and> p < (k + 1) ^ n \<and>
     (k * 2 ^ 32 + unat w) ^ n \<le> (2 ^ 32) ^ n * p \<and> (2 ^ 32) ^ n * p < (k * 2 ^ 32 + unat w + 1) ^ n"

lemma is_root_fraction: "is_root_fraction n k p w \<Longrightarrow> 0 < n \<Longrightarrow> root_fraction n p = w"
  using root_fraction_eqI [of n k p "unat w"] by (simp add: is_root_fraction_def)

definition small_root :: "nat \<Rightarrow> nat" where
  "small_root p = (if p < 8 then 1 else if p < 27 then 2 else if p < 64 then 3 else if p < 125 then 4 else if p < 216 then 5 else 6)"

lemma kSha256Constants_roots: "list_all2 (\<lambda>p w. is_root_fraction 3 (small_root p) p w) first_primes kSha256Constants"
  unfolding first_primes_def kSha256Constants_def
  by (simp add: is_root_fraction_def small_root_def flip: numeral_2_eq_2)

lemma kSha256Constants_K: "t < 64 \<Longrightarrow> kSha256Constants ! t = fips_K t"
proof -
  assume t: "t < 64"
  have "length first_primes = 64" by (simp add: first_primes_def)
  then have "is_root_fraction 3 (small_root (first_primes ! t)) (first_primes ! t) (kSha256Constants ! t)"
    using t by (intro list_all2_nthD [OF kSha256Constants_roots]) simp
  from is_root_fraction [OF this] show ?thesis by (simp add: fips_K_def)
qed

lemma sha256_initial_H: "sha256_initial = fips_initial"
proof -
  have "list_all2 (\<lambda>(p, k) w. is_root_fraction 2 k p w) (zip (take 8 first_primes) [1, 1, 2, 2, 3, 3, 4, 4]) sha256_initial"
    by (simp add: sha256_initial_def first_primes_def is_root_fraction_def flip: numeral_2_eq_2)
  then have "list_all2 (\<lambda>(p, k) w. root_fraction 2 p = w) (zip (take 8 first_primes) [1, 1, 2, 2, 3, 3, 4, 4 :: nat]) sha256_initial"
    by (rule list_all2_mono) (auto intro: is_root_fraction)
  then show ?thesis by (simp add: fips_initial_def sha256_initial_def first_primes_def)
qed

section \<open>Rounds and blocks\<close>

lemma sha256_round_step:
  assumes "sha256_words bytes offset ! t = fips_W block t" and "t < 64"
  shows "sha256_round (sha256_words bytes offset) t (working_list s) = working_list (fips_step block s t)"
proof -
  obtain a b c d e f g h where s: "s = (a, b, c, d, e, f, g, h)" by (metis surj_pair)
  show ?thesis
    by (simp add: s sha256_round_def fips_step_def working_list_def Let_def assms(1) kSha256Constants_K [OF assms(2)]
        RotateRight_rotr Sigma0_def Sigma1_def Ch_def Maj_def numeral_nat)
qed

lemma working_list_inverse: "length H = 8 \<Longrightarrow> working_list (list_working H) = H"
  by (auto simp: working_list_def list_working_def numeral_nat length_Suc_conv)

lemma sha256_rounds:
  assumes "offset + 64 \<le> length bytes" and "length H = 8" and "n \<le> 64"
  shows "fold (sha256_round (sha256_words bytes offset)) [0..<n] H =
    working_list (foldl (fips_step (take 64 (drop offset bytes))) (list_working H) [0..<n])"
  using assms(3)
  by (induction n) (simp_all add: working_list_inverse assms(2) sha256_round_step [OF sha256_words_W [OF assms(1)]])

lemma sha256_block_compress:
  assumes "offset + 64 \<le> length bytes" and "length H = 8"
  shows "sha256_block bytes offset H = fips_compress H (take 64 (drop offset bytes))"
    and "length (sha256_block bytes offset H) = 8"
proof -
  obtain h0 h1 h2 h3 h4 h5 h6 h7 where H: "H = [h0, h1, h2, h3, h4, h5, h6, h7]"
    using assms(2) by (auto simp: numeral_nat length_Suc_conv)
  obtain a b c d e f g h where s: "foldl (fips_step (take 64 (drop offset bytes))) (list_working H) [0..<64] = (a, b, c, d, e, f, g, h)"
    by (metis surj_pair)
  have add: "fold (\<lambda>index hash. hash[index := hash ! index + [a, b, c, d, e, f, g, h] ! index]) [0..<8] H =
      map2 (+) [a, b, c, d, e, f, g, h] H"
    by (simp add: H upt_rec add.commute numeral_nat)
  show block: "sha256_block bytes offset H = fips_compress H (take 64 (drop offset bytes))"
    unfolding sha256_block_def Let_def sha256_rounds [OF assms order_refl] fips_compress_def s
    using add by (simp add: working_list_def)
  show "length (sha256_block bytes offset H) = 8"
    unfolding block fips_compress_def s by (simp add: working_list_def H)
qed

lemma sha256_loop_blocks:
  assumes "length bytes mod 64 = 0" and "offset mod 64 = 0" and "length H = 8"
  shows "sha256_loop bytes offset H = foldl fips_compress H (fips_blocks (drop offset bytes))"
  using assms
proof (induction bytes offset H rule: sha256_loop.induct)
  case (1 bytes offset H)
  show ?case
  proof (cases "offset < length bytes")
    case True
    then have room: "offset + 64 \<le> length bytes" using 1(2,3) by presburger
    have "(offset + 64) mod 64 = 0" using 1(3) by presburger
    then have "sha256_loop bytes (offset + 64) (sha256_block bytes offset H) =
        foldl fips_compress (sha256_block bytes offset H) (fips_blocks (drop (offset + 64) bytes))"
      by (rule 1(1) [OF True 1(2) _ sha256_block_compress(2) [OF room 1(4)]])
    then show ?thesis
      using True sha256_block_compress(1) [OF room 1(4)]
      by (simp add: sha256_loop.simps [of bytes offset] fips_blocks.simps [of "drop offset bytes"] add.commute)
  qed (simp add: sha256_loop.simps [of bytes offset] fips_blocks.simps)
qed

section \<open>Padding\<close>

lemma PushZeros_least: "PushZeros bytes = bytes @ replicate (LEAST z. (length bytes + z) mod 64 = 56) 0"
proof (induction bytes rule: PushZeros.induct)
  case (1 bytes)
  show ?case
  proof (cases "length bytes mod 64 = 56")
    case True
    then have "(LEAST z. (length bytes + z) mod 64 = 56) = 0" by (intro Least_equality) simp_all
    with True show ?thesis by (simp add: PushZeros.simps [of bytes])
  next
    case False
    define q r where "q = length bytes div 64" and "r = length bytes mod 64"
    then have "length bytes = 64 * q + r" "r < 64" by simp_all
    then have "length bytes + (120 - r) = 120 + 64 * q" by simp
    then have "(length bytes + (120 - length bytes mod 64)) mod 64 = 56" by (simp add: r_def)
    then have "(LEAST z. (length bytes + z) mod 64 = 56) = Suc (LEAST z. (length bytes + Suc z) mod 64 = 56)"
      using False by (intro Least_Suc [where n = "120 - length bytes mod 64"]) simp_all
    with False 1 show ?thesis by (simp add: PushZeros.simps [of bytes])
  qed
qed

lemma PushZeros_length: "length (PushZeros bytes) mod 64 = 56"
proof (induction bytes rule: PushZeros.induct)
  case (1 bytes)
  then show ?case by (cases "length bytes mod 64 = 56") (simp_all add: PushZeros.simps [of bytes])
qed

lemma length_byte: "s + 8 \<le> 64 \<Longrightarrow> ucast (drop_bit s (of_nat x :: 64 word)) = (of_nat (x div 2 ^ s) :: 8 word)"
  by (rule bit_word_eqI) (auto simp: bit_simps simp flip: drop_bit_eq_div)

lemma length_bytes:
  "map (\<lambda>shift. ucast (drop_bit shift (of_nat n :: 64 word))) [56, 48, 40, 32, 24, 16, 8, 0] = big_endian 8 n"
proof -
  have "map (\<lambda>shift. ucast (drop_bit shift (of_nat n :: 64 word))) [56, 48, 40, 32, 24, 16, 8, 0] =
      map (\<lambda>shift. of_nat (n div 2 ^ shift) :: 8 word) [56, 48, 40, 32, 24, 16, 8, 0]"
    by (rule map_cong [OF refl], rule length_byte) auto
  also have "\<dots> = big_endian 8 n" by (simp add: big_endian_def upt_rec)
  finally show ?thesis .
qed

lemma sha256_bytes_pad: "sha256_bytes input = fips_pad (map of_char input)"
proof -
  have bits: "of_nat (length input) * 8 = (of_nat (8 * length input) :: 64 word)" by simp
  show ?thesis
    unfolding sha256_bytes_def fips_pad_def Let_def length_map bits length_bytes by (simp add: PushZeros_least)
qed

lemma sha256_bytes_length: "length (sha256_bytes input) mod 64 = 0"
  using mod_add_left_eq [of "length (PushZeros (map of_char input @ [0x80]))" 64 8]
  by (simp add: sha256_bytes_def Let_def PushZeros_length add.commute)

text \<open>
  C26. The digest that the policy parser computes is the SHA-256 of the standard, for every text: the
  in-place rounds over an array agree with the recursive schedule and the working variables of FIPS 180-4,
  the loop that pads agrees with its padding, and the tabulated constants are the roots that it names.
\<close>

theorem sha256_standard:
  "Sha256Hex input = concat (map (\<lambda>v. hex_pad 8 (unat v)) (fips_sha256 (map of_char input)))"
  unfolding Sha256Hex_def fips_sha256_def
  using sha256_loop_blocks [of "sha256_bytes input" 0 fips_initial]
  by (simp add: sha256_bytes_length sha256_initial_H sha256_bytes_pad [symmetric] fips_initial_def first_primes_def)

end
