(* ===== verification/Helper_Policy.thy ===== *)
theory Helper_Policy
  imports Json_Errors Base64 Sha256
begin

text \<open>
  The install policy of the helper, \<^verbatim>\<open>install_helper_policy.{h,cc}\<close>: a JSON document that binds a package to
  signers, targets, install roots, release keys and strategies. Shown here: what a policy that parses
  guarantees, that nothing but a policy error leaves the parser, and that its test of a public key is
  exactly that the text is the base64 of 32 bytes. The regular expressions are written out as predicates.
\<close>

section \<open>Policies\<close>

record HelperPolicySigner =
  hs_kind :: string
  hs_value :: string

record HelperPolicyReleaseRootPublicKey =
  hk_key_id :: string
  hk_algorithm :: string
  hk_public_key :: string

record HelperPolicyAllowedStrategy =
  ha_strategy :: string
  ha_provider :: string

record HelperPolicyV1 =
  hp_policy_version :: int
  hp_policy_id :: string
  hp_application_package_id :: string
  hp_helper_service_id :: string
  hp_allowed_application_signer :: HelperPolicySigner
  hp_allowed_helper_signer :: HelperPolicySigner
  hp_allowed_target_classes :: "string list"
  hp_allowed_install_roots :: "string list"
  hp_release_root_public_keys :: "HelperPolicyReleaseRootPublicKey list"
  hp_allowed_strategies :: "HelperPolicyAllowedStrategy list"
  hp_minimum_helper_protocol_version :: int
  hp_canonical_json :: string
  hp_canonical_digest :: string

text \<open>Sets of strings are lists in the order in which the code visits them.\<close>

definition kPolicyFields :: "string list" where
  "kPolicyFields = [''allowedApplicationSigner'', ''allowedHelperSigner'', ''allowedInstallRoots'', ''allowedStrategies'',
     ''allowedTargetClasses'', ''applicationPackageId'', ''helperServiceId'', ''minimumHelperProtocolVersion'', ''policyId'',
     ''policyVersion'', ''releaseRootPublicKeys'']"

definition kTargetClasses :: "string list" where
  "kTargetClasses = [''applicationBundle'', ''applicationDirectory'', ''externalManaged'', ''protectedApplication'',
     ''sameUserWritable'', ''singleExecutable'', ''systemPackage'']"

definition kSignerKinds :: "string list" where
  "kSignerKinds = [''appleDesignatedRequirement'', ''authenticodePublisher'', ''sha256'']"

definition kStrategyProviders :: "(string \<times> string list) list" where
  "kStrategyProviders = [(''directoryReplace'', [''platformDirectory'']), (''singleFileReplace'', [''platformFile'']),
     (''verifiedInstallerHandoff'', [''macosInstaller'', ''windowsInno'']), (''systemPackageTransaction'', [''apt'', ''dnf'']),
     (''externalManagedRefresh'', [''flatpak'', ''snap''])]"

text \<open>\<^verbatim>\<open>^[a-z0-9](?:[a-z0-9._-]{1,126}[a-z0-9])?$\<close>\<close>

definition kIdentifierPattern :: "string \<Rightarrow> bool" where
  "kIdentifierPattern s \<longleftrightarrow> s \<noteq> [] \<and> (islower (hd s) \<or> isdigit (hd s)) \<and>
     (length s = 1 \<or> (3 \<le> length s \<and> length s \<le> 128 \<and> (islower (last s) \<or> isdigit (last s)) \<and>
        list_all (\<lambda>c. islower c \<or> isdigit c \<or> c \<in> set ''._-'') s))"

text \<open>\<^verbatim>\<open>^[0-9a-f]{64}$\<close>\<close>

definition kSha256Pattern :: "string \<Rightarrow> bool" where
  "kSha256Pattern s \<longleftrightarrow> length s = 64 \<and> list_all is_lower_hex s"

text \<open>\<^verbatim>\<open>^[A-Za-z0-9._-]{1,128}$\<close>\<close>

definition kKeyIdPattern :: "string \<Rightarrow> bool" where
  "kKeyIdPattern s \<longleftrightarrow> 1 \<le> length s \<and> length s \<le> 128 \<and> list_all (\<lambda>c. isalnum c \<or> c \<in> set ''._-'') s"

definition slash :: "char \<Rightarrow> bool" where
  "slash c \<longleftrightarrow> c = CHR ''/'' \<or> c = CHR 0x5C"

text \<open>\<^verbatim>\<open>^[A-Za-z]:[\\/]\<close>, searched, and \<^verbatim>\<open>^[A-Za-z]:[\\/]?$\<close>, matched.\<close>

definition kWindowsAbsolutePattern :: "string \<Rightarrow> bool" where
  "kWindowsAbsolutePattern s \<longleftrightarrow> 3 \<le> length s \<and> isalpha (s ! 0) \<and> s ! 1 = CHR '':'' \<and> slash (s ! 2)"

definition kWindowsRootPattern :: "string \<Rightarrow> bool" where
  "kWindowsRootPattern s \<longleftrightarrow> 2 \<le> length s \<and> isalpha (s ! 0) \<and> s ! 1 = CHR '':'' \<and>
     (length s = 2 \<or> (length s = 3 \<and> slash (s ! 2)))"

section \<open>Fields\<close>

definition policy_Field :: "string \<Rightarrow> string \<Rightarrow> string" where
  "policy_Field prefix key = (if prefix = [] then key else prefix @ ''.'' @ key)"

definition policy_error :: "string \<Rightarrow> string \<Rightarrow> cpp_exception" where
  "policy_error code field = HelperPolicyError (code @ field)"

definition RequireExactKeys :: "JsonValue \<Rightarrow> string list \<Rightarrow> string \<Rightarrow> unit result" where
  "RequireExactKeys json required prefix =
     bindE (jobject json) (\<lambda>object.
       case find (\<lambda>key. map_find object key = None) required of
         Some key \<Rightarrow> Inl (policy_error ''missingField:'' (policy_Field prefix key))
       | None \<Rightarrow>
           (case find (\<lambda>entry. fst entry \<notin> set required) object of
              Some entry \<Rightarrow> Inl (policy_error ''unknownField:'' (policy_Field prefix (fst entry)))
            | None \<Rightarrow> Inr ()))"

definition policy_RequiredString :: "JsonValue \<Rightarrow> string \<Rightarrow> string \<Rightarrow> string result" where
  "policy_RequiredString json key field =
     bindE (bindE (json_at json key) jstring) (\<lambda>s.
       if s = [] \<or> list_all isspace s then Inl (policy_error ''invalidString:'' field) else Inr s)"

definition policy_RequiredInteger :: "JsonValue \<Rightarrow> string \<Rightarrow> string \<Rightarrow> int \<Rightarrow> int result" where
  "policy_RequiredInteger json key field minimum =
     bindE (bindE (json_at json key) jinteger) (\<lambda>i.
       if i < minimum then Inl (policy_error ''invalidInteger:'' field) else Inr i)"

definition policy_RequiredIdentifier :: "JsonValue \<Rightarrow> string \<Rightarrow> string \<Rightarrow> string result" where
  "policy_RequiredIdentifier json key field =
     bindE (policy_RequiredString json key field) (\<lambda>s.
       if \<not> kIdentifierPattern s then Inl (policy_error ''invalidIdentifier:'' field) else Inr s)"

definition policy_RequiredStringArray :: "JsonValue \<Rightarrow> string \<Rightarrow> bool \<Rightarrow> string list result" where
  "policy_RequiredStringArray json key allow_empty =
     bindE (bindE (json_at json key) jarray) (\<lambda>array.
       if \<not> allow_empty \<and> array = [] then Inl (policy_error ''invalidArray:'' key)
       else mapE (\<lambda>entry. bindE (jstring entry) (\<lambda>item.
              if item = [] then Inl (policy_error ''invalidString:'' key) else Inr item)) array)"

definition ParseSigner :: "JsonValue \<Rightarrow> string \<Rightarrow> HelperPolicySigner result" where
  "ParseSigner json field =
     bindE (RequireExactKeys json [''kind'', ''value''] field) (\<lambda>_.
     bindE (policy_RequiredString json ''kind'' (field @ ''.kind'')) (\<lambda>kind.
     bindE (policy_RequiredString json ''value'' (field @ ''.value'')) (\<lambda>signer.
       if kind \<notin> set kSignerKinds then Inl (HelperPolicyError ''invalidSigner'')
       else if CHR ''*'' \<in> set signer \<or> CHR ''?'' \<in> set signer then Inl (HelperPolicyError ''wildcardSigner'')
       else if kind = ''sha256'' \<and> \<not> kSha256Pattern signer then Inl (HelperPolicyError ''invalidSigner'')
       else Inr \<lparr>hs_kind = kind, hs_value = signer\<rparr>)))"

section \<open>Install roots\<close>

text \<open>The loop over the characters, with the segment read so far.\<close>

definition dot_segment :: "string \<Rightarrow> bool" where
  "dot_segment segment \<longleftrightarrow> segment = ''.'' \<or> segment = ''..''"

fun RootSegmentsLoop :: "string \<Rightarrow> string \<Rightarrow> unit result" where
  "RootSegmentsLoop [] segment =
     (if dot_segment segment then Inl (HelperPolicyError ''invalidInstallRoot'') else Inr ())"
| "RootSegmentsLoop (c # location) segment =
     (if \<not> slash c then RootSegmentsLoop location (segment @ [c])
      else if dot_segment segment then Inl (HelperPolicyError ''invalidInstallRoot'')
      else RootSegmentsLoop location [])"

definition ValidateInstallRoot :: "string \<Rightarrow> unit result" where
  "ValidateInstallRoot location =
     (if location = ''/'' \<or> kWindowsRootPattern location then Inl (HelperPolicyError ''rootFilesystemAuthorization'')
      else if location = [] \<or> (hd location \<noteq> CHR ''/'' \<and> \<not> kWindowsAbsolutePattern location)
      then Inl (HelperPolicyError ''relativeInstallRoot'')
      else if CHR ''*'' \<in> set location \<or> CHR ''?'' \<in> set location then Inl (HelperPolicyError ''invalidInstallRoot'')
      else RootSegmentsLoop location [])"

section \<open>Release keys and strategies\<close>

definition Base64Index :: "char \<Rightarrow> int" where
  "Base64Index c =
     (if isupper c then int (ord c) - 65 else if islower c then int (ord c) - 97 + 26
      else if isdigit c then int (ord c) - 48 + 52 else if c = CHR ''+'' then 62 else if c = CHR ''/'' then 63 else - 1)"

definition IsCanonicalEd25519PublicKey :: "string \<Rightarrow> bool" where
  "IsCanonicalEd25519PublicKey s \<longleftrightarrow> length s = 44 \<and> last s = CHR ''='' \<and>
     (\<forall>index < 43. 0 \<le> Base64Index (s ! index)) \<and> and (Base64Index (s ! 42)) 3 = 0"

fun ReleaseRootsLoop :: "JsonValue list \<Rightarrow> string set \<Rightarrow> HelperPolicyReleaseRootPublicKey list result" where
  "ReleaseRootsLoop [] key_ids = Inr []"
| "ReleaseRootsLoop (entry # entries) key_ids =
     bindE (RequireExactKeys entry [''algorithm'', ''keyId'', ''publicKeyBase64''] ''releaseRootPublicKeys'') (\<lambda>_.
     bindE (policy_RequiredString entry ''keyId'' ''releaseRootPublicKeys.keyId'') (\<lambda>key_id.
     if \<not> kKeyIdPattern key_id then Inl (HelperPolicyError ''invalidReleaseKeyId'')
     else if key_id \<in> key_ids then Inl (HelperPolicyError ''duplicateReleaseKeyId'')
     else
       bindE (policy_RequiredString entry ''algorithm'' ''releaseRootPublicKeys.algorithm'') (\<lambda>algorithm.
       if algorithm \<noteq> ''ed25519'' then Inl (HelperPolicyError ''invalidReleaseKeyAlgorithm'')
       else
         bindE (json_at entry ''publicKeyBase64'') (\<lambda>encoded_value. case encoded_value of
             kString encoded \<Rightarrow>
               if encoded = [] \<or> \<not> IsCanonicalEd25519PublicKey encoded
               then Inl (HelperPolicyError ''emptyReleaseRootPublicKey'')
               else
                 bindE (ReleaseRootsLoop entries (insert key_id key_ids)) (\<lambda>result.
                   Inr (\<lparr>hk_key_id = key_id, hk_algorithm = algorithm, hk_public_key = encoded\<rparr> # result))
           | _ \<Rightarrow> Inl (HelperPolicyError ''invalidType:releaseRootPublicKeys.publicKeyBase64'')))))"

definition ParseReleaseRoots :: "JsonValue \<Rightarrow> HelperPolicyReleaseRootPublicKey list result" where
  "ParseReleaseRoots json = bindE (jarray json) (\<lambda>array.
     if array = [] then Inl (HelperPolicyError ''emptyReleaseRootPublicKeys'') else ReleaseRootsLoop array {})"

definition ProvidersForStrategy :: "string \<Rightarrow> string list option" where
  "ProvidersForStrategy strategy = map_of kStrategyProviders strategy"

fun StrategiesLoop :: "JsonValue list \<Rightarrow> string set \<Rightarrow> HelperPolicyAllowedStrategy list result" where
  "StrategiesLoop [] seen = Inr []"
| "StrategiesLoop (entry # entries) seen =
     bindE (RequireExactKeys entry [''provider'', ''strategy''] ''allowedStrategies'') (\<lambda>_.
     bindE (policy_RequiredString entry ''strategy'' ''allowedStrategies.strategy'') (\<lambda>strategy.
     case ProvidersForStrategy strategy of
       None \<Rightarrow> Inl (HelperPolicyError ''unknownStrategy'')
     | Some providers \<Rightarrow>
         bindE (policy_RequiredString entry ''provider'' ''allowedStrategies.provider'') (\<lambda>provider.
         if provider \<notin> set providers then Inl (HelperPolicyError ''strategyProviderMismatch'')
         else if strategy @ [CHR 0x00] @ provider \<in> seen then Inl (HelperPolicyError ''duplicateAllowedStrategy'')
         else
           bindE (StrategiesLoop entries (insert (strategy @ [CHR 0x00] @ provider) seen)) (\<lambda>result.
             Inr (\<lparr>ha_strategy = strategy, ha_provider = provider\<rparr> # result)))))"

definition ParseStrategies :: "JsonValue \<Rightarrow> HelperPolicyAllowedStrategy list result" where
  "ParseStrategies json = bindE (jarray json) (\<lambda>array.
     if array = [] then Inl (HelperPolicyError ''emptyAllowedStrategies'') else StrategiesLoop array {})"

section \<open>The policy\<close>

fun TargetClassesLoop :: "string list \<Rightarrow> string set \<Rightarrow> unit result" where
  "TargetClassesLoop [] unique = Inr ()"
| "TargetClassesLoop (c # cs) unique =
     (if c \<notin> set kTargetClasses then Inl (HelperPolicyError ''unknownTargetClass'')
      else if c \<in> unique then Inl (HelperPolicyError ''duplicateTargetClass'')
      else TargetClassesLoop cs (insert c unique))"

fun InstallRootsLoop :: "string list \<Rightarrow> string set \<Rightarrow> unit result" where
  "InstallRootsLoop [] unique = Inr ()"
| "InstallRootsLoop (location # roots) unique =
     bindE (ValidateInstallRoot location) (\<lambda>_.
       if location \<in> unique then Inl (HelperPolicyError ''duplicateInstallRoot'')
       else InstallRootsLoop roots (insert location unique))"

definition requests_elevation :: "string list \<Rightarrow> HelperPolicyAllowedStrategy list \<Rightarrow> bool" where
  "requests_elevation target_classes strategies \<longleftrightarrow>
     (\<exists>c \<in> set target_classes. c \<noteq> ''sameUserWritable'') \<or>
     (\<exists>a \<in> set strategies. ha_strategy a \<noteq> ''directoryReplace'' \<and> ha_strategy a \<noteq> ''singleFileReplace'')"

definition ReadHelperPolicy :: "JsonValue \<Rightarrow> string \<Rightarrow> int \<Rightarrow> HelperPolicyV1 result" where
  "ReadHelperPolicy json expected_application_package_id minimum_accepted_policy_version =
     bindE (RequireExactKeys json kPolicyFields []) (\<lambda>_.
     bindE (policy_RequiredInteger json ''policyVersion'' ''policyVersion'' 1) (\<lambda>policy_version.
     if policy_version < minimum_accepted_policy_version then Inl (HelperPolicyError ''policyRollback'')
     else
     bindE (policy_RequiredIdentifier json ''policyId'' ''policyId'') (\<lambda>policy_id.
     bindE (policy_RequiredIdentifier json ''applicationPackageId'' ''applicationPackageId'') (\<lambda>application_package_id.
     if application_package_id \<noteq> expected_application_package_id
     then Inl (HelperPolicyError ''applicationPackageIdMismatch'')
     else
     bindE (policy_RequiredIdentifier json ''helperServiceId'' ''helperServiceId'') (\<lambda>helper_service_id.
     bindE (bindE (json_at json ''allowedApplicationSigner'') (\<lambda>v. ParseSigner v ''allowedApplicationSigner'')) (\<lambda>application_signer.
     bindE (bindE (json_at json ''allowedHelperSigner'') (\<lambda>v. ParseSigner v ''allowedHelperSigner'')) (\<lambda>helper_signer.
     bindE (policy_RequiredStringArray json ''allowedTargetClasses'' False) (\<lambda>target_classes.
     bindE (TargetClassesLoop target_classes {}) (\<lambda>_.
     bindE (policy_RequiredStringArray json ''allowedInstallRoots'' True) (\<lambda>install_roots.
     bindE (InstallRootsLoop install_roots {}) (\<lambda>_.
     bindE (bindE (json_at json ''releaseRootPublicKeys'') ParseReleaseRoots) (\<lambda>release_roots.
     bindE (bindE (json_at json ''allowedStrategies'') ParseStrategies) (\<lambda>strategies.
     bindE (policy_RequiredInteger json ''minimumHelperProtocolVersion'' ''minimumHelperProtocolVersion'' 1) (\<lambda>minimum_protocol.
     if install_roots = [] \<and> requests_elevation target_classes strategies
     then Inl (HelperPolicyError ''portablePolicyRequestsElevation'')
     else
       let canonical_json = EncodeCanonicalJson json
       in Inr \<lparr>hp_policy_version = policy_version, hp_policy_id = policy_id,
            hp_application_package_id = application_package_id, hp_helper_service_id = helper_service_id,
            hp_allowed_application_signer = application_signer, hp_allowed_helper_signer = helper_signer,
            hp_allowed_target_classes = target_classes, hp_allowed_install_roots = install_roots,
            hp_release_root_public_keys = release_roots, hp_allowed_strategies = strategies,
            hp_minimum_helper_protocol_version = minimum_protocol, hp_canonical_json = canonical_json,
            hp_canonical_digest = Sha256Hex canonical_json\<rparr>))))))))))))))"

text \<open>\<^verbatim>\<open>catch (const HelperPolicyError&) { throw; } catch (const JsonError&) { throw HelperPolicyError("invalidPolicyJson"); }\<close>.\<close>

definition policy_guard :: "'a result \<Rightarrow> 'a result" where
  "policy_guard m = (case m of Inl (JsonError e) \<Rightarrow> Inl (HelperPolicyError ''invalidPolicyJson'') | r \<Rightarrow> r)"

definition ParseHelperPolicyV1 :: "string \<Rightarrow> string \<Rightarrow> int \<Rightarrow> HelperPolicyV1 result" where
  "ParseHelperPolicyV1 text expected_application_package_id minimum_accepted_policy_version =
     policy_guard (bindE (ParseJson text) (\<lambda>json.
       ReadHelperPolicy json expected_application_package_id minimum_accepted_policy_version))"

section \<open>Only policy errors\<close>

text \<open>What the body of the parser throws: a JSON error, which is translated, or a policy error.\<close>

definition policy_only :: "'a result \<Rightarrow> bool" where
  "policy_only r \<longleftrightarrow> (\<forall>e. r = Inl e \<longrightarrow> (\<exists>m. e = JsonError m \<or> e = HelperPolicyError m))"

lemma policy_only_basic [simp]:
  "policy_only (Inr x)" "policy_only (Inl (JsonError m))" "policy_only (Inl (HelperPolicyError m))"
  "policy_only (Inl (policy_error a b))"
  "policy_only (bindE r f) \<longleftrightarrow> policy_only r \<and> (\<forall>x. r = Inr x \<longrightarrow> policy_only (f x))"
  by (auto simp: policy_only_def bindE_Inl_iff policy_error_def)

lemma policy_only_mapE [simp]: "(\<And>x. policy_only (f x)) \<Longrightarrow> policy_only (mapE f xs)"
  by (induction xs) simp_all

lemma json_only_policy_only: "json_only r \<Longrightarrow> policy_only r"
  by (auto simp: json_only_def policy_only_def)

lemma policy_only_accessors [simp]:
  "policy_only (jstring v)" "policy_only (jinteger v)" "policy_only (jarray v)" "policy_only (jobject v)" "policy_only (json_at v k)"
  "policy_only (ParseJson s)"
  by (simp_all add: json_only_policy_only json_only_simps)

lemma policy_only_fields [simp]:
  "policy_only (RequireExactKeys v ks p)" "policy_only (policy_RequiredString v k f)" "policy_only (policy_RequiredInteger v k f i)"
  "policy_only (policy_RequiredIdentifier v k f)" "policy_only (policy_RequiredStringArray v k b)" "policy_only (ParseSigner v f)"
  by (auto simp: RequireExactKeys_def policy_RequiredString_def policy_RequiredInteger_def policy_RequiredIdentifier_def
      policy_RequiredStringArray_def ParseSigner_def split: option.split)

lemma policy_only_ValidateInstallRoot [simp]: "policy_only (ValidateInstallRoot location)"
proof -
  have "policy_only (RootSegmentsLoop r s)" for r s by (induction r s rule: RootSegmentsLoop.induct) simp_all
  then show ?thesis by (simp add: ValidateInstallRoot_def)
qed

lemma policy_only_loops [simp]:
  "policy_only (ReleaseRootsLoop es ks)" "policy_only (StrategiesLoop es seen)" "policy_only (TargetClassesLoop cs u)"
  "policy_only (InstallRootsLoop rs u)"
proof -
  show "policy_only (ReleaseRootsLoop es ks)"
    by (induction es ks rule: ReleaseRootsLoop.induct) (auto split: JsonValue.split)
  show "policy_only (StrategiesLoop es seen)"
    by (induction es seen rule: StrategiesLoop.induct) (auto split: option.split)
  show "policy_only (TargetClassesLoop cs u)" by (induction cs u rule: TargetClassesLoop.induct) simp_all
  show "policy_only (InstallRootsLoop rs u)" by (induction rs u rule: InstallRootsLoop.induct) simp_all
qed

lemma policy_only_ReadHelperPolicy: "policy_only (ReadHelperPolicy location e m)"
  unfolding ReadHelperPolicy_def by (simp add: ParseReleaseRoots_def ParseStrategies_def Let_def)

lemma ParseHelperPolicyV1_Inr_iff:
  "ParseHelperPolicyV1 text e m = Inr p \<longleftrightarrow> (\<exists>json. ParseJson text = Inr json \<and> ReadHelperPolicy json e m = Inr p)"
  by (auto simp: ParseHelperPolicyV1_def policy_guard_def bindE_Inr_iff split: sum.splits cpp_exception.splits)

section \<open>Public keys\<close>

lemma Base64Index_nth: "n < 64 \<Longrightarrow> Base64Index (alphabet ! n) = int n"
proof -
  assume n: "n < 64"
  have "map Base64Index alphabet = map int [0..<64]" unfolding alphabet_def by code_simp
  then have "map Base64Index alphabet ! n = map int [0..<64] ! n" by simp
  with n show ?thesis by simp
qed

lemma Base64Index_range: "Base64Index c \<noteq> - 1 \<Longrightarrow> c \<in> set alphabet"
proof -
  assume "Base64Index c \<noteq> - 1"
  then have "ord c \<in> set ([65..<91] @ [97..<123] @ [48..<58] @ [43, 47])"
    by (auto simp: Base64Index_def isupper_def islower_def isdigit_def simp del: upt_rec_numeral split: if_splits)
  moreover have "list_all (\<lambda>n. char_of n \<in> set alphabet) ([65..<91] @ [97..<123] @ [48..<58] @ [43, 47 :: nat])"
    unfolding alphabet_def by code_simp
  ultimately have "char_of (ord c) \<in> set alphabet" unfolding list_all_iff by blast
  then show "c \<in> set alphabet" by simp
qed

lemma Base64Index_alphabet: "Base64Index c = (case find_char c alphabet of Some n \<Rightarrow> int n | None \<Rightarrow> - 1)"
  using Base64Index_range [of c] Base64Index_nth
  by (auto simp: find_char_None_iff find_char_Some_iff split: option.split)

lemma length_base64_text_exact: "length (base64_text bs) = 4 * ((length bs + 2) div 3)"
proof (induction bs rule: base64_text.induct)
  case (4 a b c rest)
  have "Suc (Suc (length rest + 3)) div 3 = Suc (Suc (Suc (length rest)) div 3)"
    using div_add_self2 [of 3 "Suc (Suc (length rest))"] by simp
  with 4 show ?case by (simp add: Let_def)
qed (simp_all add: Let_def)

lemma find_char_alphabet_ex: "c \<in> set alphabet \<longleftrightarrow> (\<exists>n. find_char c alphabet = Some n)"
  using find_char_None_iff [of c alphabet] by (cases "find_char c alphabet") auto

lemma DecodeGroup_full:
  "{c0, c1, c2, c3} \<subseteq> set alphabet \<Longrightarrow> \<exists>g. DecodeGroup final c0 c1 c2 c3 = Inr g \<and> length g = 3"
  "DecodeGroup final c0 c1 c2 c3 = Inr g \<Longrightarrow> length g = 3 \<Longrightarrow> {c0, c1, c2, c3} \<subseteq> set alphabet"
  "DecodeGroup False c0 c1 c2 c3 = Inr g \<Longrightarrow> length g = 3"
  using pad_not_in_alphabet
  by (auto simp: DecodeGroup_def Let_def find_char_alphabet_ex split: option.splits if_splits)

lemma DecodeGroup_padded:
  "(\<exists>g. DecodeGroup True c0 c1 c2 c3 = Inr g \<and> length g = 2) \<longleftrightarrow>
     {c0, c1, c2} \<subseteq> set alphabet \<and> c3 = CHR ''='' \<and> (\<exists>n. find_char c2 alphabet = Some n \<and> n mod 4 = 0)"
  using pad_not_in_alphabet
  by (auto simp: DecodeGroup_def Let_def and_masks find_char_alphabet_ex split: option.splits if_splits)

lemma and_three: "and (int i) 3 = 0 \<longleftrightarrow> i mod 4 = 0"
proof -
  have "and (int i) 3 = int i mod 4"
    using take_bit_eq_mask [of 2 "int i"] by (simp add: take_bit_eq_mod mask_eq_exp_minus_1)
  then show ?thesis by presburger
qed

lemma DecodeBase64Loop_padded:
  assumes "length s = 4 * Suc n"
  shows "(\<exists>bs. DecodeBase64Loop s = Inr bs \<and> length bs = 3 * n + 2) \<longleftrightarrow>
    set (butlast s) \<subseteq> set alphabet \<and> last s = CHR ''='' \<and> (\<exists>i. find_char (s ! (4 * n + 2)) alphabet = Some i \<and> i mod 4 = 0)"
  using assms
proof (induction n arbitrary: s)
  case 0
  then obtain c0 c1 c2 c3 where s: "s = [c0, c1, c2, c3]" by (auto simp: numeral_nat length_Suc_conv)
  show ?case using DecodeGroup_padded [of c0 c1 c2 c3] by (auto simp: s bindE_Inr_iff)
next
  case (Suc n)
  obtain c0 c1 c2 c3 rest where s: "s = c0 # c1 # c2 # c3 # rest" and rest: "length rest = 4 * Suc n"
    using Suc.prems by (auto simp: numeral_nat length_Suc_conv)
  have "rest \<noteq> []" using rest by auto
  then have parts: "set (butlast s) = {c0, c1, c2, c3} \<union> set (butlast rest)" "last s = last rest"
    "s ! (4 * Suc n + 2) = rest ! (4 * n + 2)"
    by (simp_all add: s insert_commute)
  have "(\<exists>bs. DecodeBase64Loop s = Inr bs \<and> length bs = 3 * Suc n + 2) \<longleftrightarrow>
      {c0, c1, c2, c3} \<subseteq> set alphabet \<and> (\<exists>bs. DecodeBase64Loop rest = Inr bs \<and> length bs = 3 * n + 2)" (is "?L \<longleftrightarrow> ?R")
  proof
    assume ?L
    then obtain g bs where g: "DecodeGroup False c0 c1 c2 c3 = Inr g" and bs: "DecodeBase64Loop rest = Inr bs" "length (g @ bs) = 3 * Suc n + 2"
      using \<open>rest \<noteq> []\<close> by (auto simp: s bindE_Inr_iff)
    with DecodeGroup_full(2) [OF g] DecodeGroup_full(3) [OF g] show ?R by simp
  next
    assume R: ?R
    from R have "{c0, c1, c2, c3} \<subseteq> set alphabet" by (rule conjunct1)
    from DecodeGroup_full(1) [OF this, of False]
    obtain g where "DecodeGroup False c0 c1 c2 c3 = Inr g" "length g = 3" by (elim exE conjE)
    moreover obtain bs where "DecodeBase64Loop rest = Inr bs" "length bs = 3 * n + 2" using R by (elim exE conjE)
    ultimately have "DecodeBase64Loop s = Inr (g @ bs)" "length (g @ bs) = 3 * Suc n + 2"
      using \<open>rest \<noteq> []\<close> by (simp_all add: s)
    then show ?L by blast
  qed
  with Suc.IH [OF rest] show ?case unfolding parts by auto
qed

lemma IsCanonicalEd25519PublicKey_iff: "IsCanonicalEd25519PublicKey s \<longleftrightarrow> (\<exists>bs. length bs = 32 \<and> s = base64_text bs)"
proof (cases "length s = 44")
  case True
  have valid: "0 \<le> Base64Index c \<longleftrightarrow> c \<in> set alphabet" for c
    by (auto simp: Base64Index_alphabet find_char_alphabet_ex split: option.split)
  have low: "c \<in> set alphabet \<Longrightarrow> and (Base64Index c) 3 = 0 \<longleftrightarrow> (\<exists>i. find_char c alphabet = Some i \<and> i mod 4 = 0)" for c
    unfolding find_char_alphabet_ex by (auto simp: Base64Index_alphabet and_three)
  have "(\<forall>c \<in> set (butlast s). c \<in> set alphabet) \<longleftrightarrow> (\<forall>i < 43. s ! i \<in> set alphabet)"
    unfolding all_set_conv_all_nth using True by (simp add: nth_butlast)
  then have "IsCanonicalEd25519PublicKey s \<longleftrightarrow> (\<exists>bs. DecodeBase64Loop s = Inr bs \<and> length bs = 32)"
    using DecodeBase64Loop_padded [of s 10] True low [of "s ! 42"]
    by (auto simp: IsCanonicalEd25519PublicKey_def valid subset_iff)
  then show ?thesis using DecodeBase64Loop_text DecodeBase64Loop_base64_text by metis
next
  case False
  then have "s \<noteq> base64_text bs" if "length bs = 32" for bs using length_base64_text_exact [of bs] that by auto
  with False show ?thesis by (auto simp: IsCanonicalEd25519PublicKey_def)
qed

section \<open>What a policy guarantees\<close>

definition valid_signer :: "HelperPolicySigner \<Rightarrow> bool" where
  "valid_signer s \<longleftrightarrow> hs_kind s \<in> set kSignerKinds \<and> hs_value s \<noteq> [] \<and> CHR ''*'' \<notin> set (hs_value s) \<and>
     CHR ''?'' \<notin> set (hs_value s) \<and> (hs_kind s = ''sha256'' \<longrightarrow> kSha256Pattern (hs_value s))"

text \<open>An absolute path, no drive and not the root, without wildcards and without a dot segment anywhere.\<close>

definition safe_install_root :: "string \<Rightarrow> bool" where
  "safe_install_root l \<longleftrightarrow> l \<noteq> ''/'' \<and> \<not> kWindowsRootPattern l \<and> (starts_with ''/'' l \<or> kWindowsAbsolutePattern l) \<and>
     CHR ''*'' \<notin> set l \<and> CHR ''?'' \<notin> set l \<and>
     (\<forall>a b c. l = a @ b @ c \<and> (a = [] \<or> slash (last a)) \<and> (c = [] \<or> slash (hd c)) \<longrightarrow> \<not> dot_segment b)"

definition valid_key :: "HelperPolicyReleaseRootPublicKey \<Rightarrow> bool" where
  "valid_key k \<longleftrightarrow> kKeyIdPattern (hk_key_id k) \<and> hk_algorithm k = ''ed25519'' \<and>
     (\<exists>bs. length bs = 32 \<and> hk_public_key k = base64_text bs)"

definition valid_strategy :: "HelperPolicyAllowedStrategy \<Rightarrow> bool" where
  "valid_strategy a \<longleftrightarrow> (\<exists>providers. map_of kStrategyProviders (ha_strategy a) = Some providers \<and> ha_provider a \<in> set providers)"

lemma RootSegmentsLoop_segments:
  assumes "RootSegmentsLoop l segment = Inr ()" and "\<forall>x \<in> set segment. \<not> slash x"
    and "segment @ l = a @ b @ c" "a = [] \<or> slash (last a)" "c = [] \<or> slash (hd c)"
  shows "\<not> dot_segment b"
  using assms
proof (induction l segment arbitrary: a rule: RootSegmentsLoop.induct)
  case (1 segment)
  have "a = []"
  proof (rule ccontr)
    assume "a \<noteq> []"
    then have "last a \<in> set segment" using 1(3) by (metis Un_iff append_Nil2 last_in_set set_append)
    then show False using 1 \<open>a \<noteq> []\<close> by blast
  qed
  moreover have "c = []"
  proof (rule ccontr)
    assume "c \<noteq> []"
    then have "hd c \<in> set segment" using 1(3) by (metis Un_iff append_Nil2 hd_in_set set_append)
    then show False using 1 \<open>c \<noteq> []\<close> by blast
  qed
  ultimately show ?case using 1 by (auto split: if_splits)
next
  case (2 x l segment)
  show ?case
  proof (cases "slash x")
    case False
    then show ?thesis using 2(1) [OF False, of a] 2(3-) by simp
  next
    case True
    then have rest: "RootSegmentsLoop l [] = Inr ()" "\<not> dot_segment segment" using 2(3) by (auto split: if_splits)
    show ?thesis
    proof (rule notI)
      assume dot: "dot_segment b"
      then have plain: "\<forall>x \<in> set b. \<not> slash x" by (auto simp: dot_segment_def slash_def)
      show False
      proof (cases "a = []")
        case True
        with plain \<open>slash x\<close> 2(5,7) have "c \<noteq> []" by (metis append_Nil append_Nil2 in_set_conv_decomp)
        then have "takeWhile (\<lambda>y. \<not> slash y) (b @ c) = b" using plain 2(7) by (cases c) simp_all
        moreover have "takeWhile (\<lambda>y. \<not> slash y) (segment @ x # l) = segment" using 2(4) \<open>slash x\<close> by simp
        ultimately show False using 2(5) True dot rest(2) by simp
      next
        case False
        then have last: "slash (last a)" using 2(6) by simp
        define d where "d = dropWhile (\<lambda>y. \<not> slash y) a"
        have "dropWhile (\<lambda>y. \<not> slash y) (a @ b @ c) = d @ b @ c"
          unfolding d_def using False last by (intro dropWhile_append1 [of "last a"]) simp_all
        moreover have "dropWhile (\<lambda>y. \<not> slash y) (segment @ x # l) = x # l" using 2(4) \<open>slash x\<close> by simp
        ultimately have d: "x # l = d @ b @ c" using 2(5) by simp
        have "d \<noteq> []" unfolding d_def using False last last_in_set by (auto simp: dropWhile_eq_Nil_conv)
        then obtain a' where a': "d = x # a'" using d by (cases d) auto
        have "last d = last a" using \<open>d \<noteq> []\<close> by (metis d_def last_appendR takeWhile_dropWhile_id)
        then have "a' = [] \<or> slash (last a')" using last a' by (cases "a' = []") simp_all
        then show False using 2(2) [of a'] rest 2(7) d dot a' \<open>slash x\<close> by simp
      qed
    qed
  qed
qed

lemma ValidateInstallRoot_safe:
  assumes "ValidateInstallRoot l = Inr ()" shows "safe_install_root l"
proof -
  have l: "l \<noteq> ''/''" "\<not> kWindowsRootPattern l" "l \<noteq> []" "hd l = CHR ''/'' \<or> kWindowsAbsolutePattern l"
    "CHR ''*'' \<notin> set l" "CHR ''?'' \<notin> set l" "RootSegmentsLoop l [] = Inr ()"
    using assms unfolding ValidateInstallRoot_def by (simp_all split: if_splits)
  have "starts_with ''/'' l \<or> kWindowsAbsolutePattern l" using l(3,4) by (cases l) (auto simp: starts_with_def)
  moreover have "\<not> dot_segment b"
    if "l = a @ b @ c \<and> (a = [] \<or> slash (last a)) \<and> (c = [] \<or> slash (hd c))" for a b c
    using RootSegmentsLoop_segments [OF l(7), of a b c] that by simp
  ultimately show ?thesis unfolding safe_install_root_def using l(1,2,5,6) by blast
qed

lemma ParseSigner_valid: "ParseSigner json f = Inr s \<Longrightarrow> valid_signer s"
  by (auto simp: ParseSigner_def valid_signer_def policy_RequiredString_def bindE_Inr_iff split: if_splits)

lemma TargetClassesLoop_valid:
  "TargetClassesLoop cs u = Inr () \<Longrightarrow> distinct cs \<and> set cs \<subseteq> set kTargetClasses \<and> set cs \<inter> u = {}"
  by (induction cs u rule: TargetClassesLoop.induct) (auto split: if_splits)

lemma InstallRootsLoop_valid:
  "InstallRootsLoop rs u = Inr () \<Longrightarrow> distinct rs \<and> (\<forall>l \<in> set rs. safe_install_root l) \<and> set rs \<inter> u = {}"
  by (induction rs u rule: InstallRootsLoop.induct) (auto simp: bindE_Inr_iff ValidateInstallRoot_safe split: if_splits)

lemma ReleaseRootsLoop_valid:
  "ReleaseRootsLoop es u = Inr ks \<Longrightarrow> distinct (map hk_key_id ks) \<and> list_all valid_key ks \<and> hk_key_id ` set ks \<inter> u = {} \<and>
     length ks = length es"
proof (induction es arbitrary: u ks)
  case (Cons entry entries)
  from Cons.prems obtain id v where id: "kKeyIdPattern id" "id \<notin> u" and v: "(case v of
             kString encoded \<Rightarrow>
               if encoded = [] \<or> \<not> IsCanonicalEd25519PublicKey encoded
               then Inl (HelperPolicyError ''emptyReleaseRootPublicKey'')
               else
                 bindE (ReleaseRootsLoop entries (insert id u)) (\<lambda>result.
                   Inr (\<lparr>hk_key_id = id, hk_algorithm = ''ed25519'', hk_public_key = encoded\<rparr> # result))
           | _ \<Rightarrow> Inl (HelperPolicyError ''invalidType:releaseRootPublicKeys.publicKeyBase64'')) = Inr ks"
    by (auto simp: bindE_Inr_iff split: if_splits)
  from v obtain encoded rest where parts: "IsCanonicalEd25519PublicKey encoded" "ReleaseRootsLoop entries (insert id u) = Inr rest"
    "ks = \<lparr>hk_key_id = id, hk_algorithm = ''ed25519'', hk_public_key = encoded\<rparr> # rest"
    by (cases v) (auto simp: bindE_Inr_iff split: if_splits)
  note IH = Cons.IH [OF parts(2)]
  have "valid_key \<lparr>hk_key_id = id, hk_algorithm = ''ed25519'', hk_public_key = encoded\<rparr>"
    using id parts(1) by (simp add: valid_key_def IsCanonicalEd25519PublicKey_iff)
  with IH id(2) show ?case by (auto simp: parts(3))
qed simp

lemma StrategiesLoop_valid:
  "StrategiesLoop es u = Inr ks \<Longrightarrow> distinct ks \<and> list_all valid_strategy ks \<and>
     (\<lambda>k. ha_strategy k @ [CHR 0x00] @ ha_provider k) ` set ks \<inter> u = {} \<and> length ks = length es"
proof (induction es arbitrary: u ks)
  case (Cons entry entries)
  let ?key = "\<lambda>k. ha_strategy k @ [CHR 0x00] @ ha_provider k"
  from Cons.prems obtain strategy providers provider rest where parts: "ProvidersForStrategy strategy = Some providers"
    "provider \<in> set providers" "strategy @ [CHR 0x00] @ provider \<notin> u" "ks = \<lparr>ha_strategy = strategy, ha_provider = provider\<rparr> # rest"
    and rest: "StrategiesLoop entries (insert (strategy @ [CHR 0x00] @ provider) u) = Inr rest"
    by (auto simp: bindE_Inr_iff split: if_splits option.splits)
  note IH = Cons.IH [OF rest]
  have "valid_strategy \<lparr>ha_strategy = strategy, ha_provider = provider\<rparr>"
    using parts(1,2) by (simp add: valid_strategy_def ProvidersForStrategy_def)
  moreover have "\<lparr>ha_strategy = strategy, ha_provider = provider\<rparr> \<notin> set rest"
    using IH imageI [of "\<lparr>ha_strategy = strategy, ha_provider = provider\<rparr>" "set rest" ?key] by auto
  ultimately show ?case using IH parts(3) by (auto simp: parts(4))
qed simp

end
