(* ===== verification/Helper_Policy_Safety.thy ===== *)
theory Helper_Policy_Safety
  imports Helper_Policy
begin

text \<open>
  What a helper policy that parses guarantees, and a concrete policy.
\<close>

definition valid_policy :: "HelperPolicyV1 \<Rightarrow> bool" where
  "valid_policy p \<longleftrightarrow> 1 \<le> hp_policy_version p \<and> 1 \<le> hp_minimum_helper_protocol_version p \<and>
     kIdentifierPattern (hp_policy_id p) \<and> kIdentifierPattern (hp_application_package_id p) \<and>
     kIdentifierPattern (hp_helper_service_id p) \<and>
     valid_signer (hp_allowed_application_signer p) \<and> valid_signer (hp_allowed_helper_signer p) \<and>
     hp_allowed_target_classes p \<noteq> [] \<and> distinct (hp_allowed_target_classes p) \<and>
     set (hp_allowed_target_classes p) \<subseteq> set kTargetClasses \<and>
     distinct (hp_allowed_install_roots p) \<and> (\<forall>l \<in> set (hp_allowed_install_roots p). safe_install_root l) \<and>
     hp_release_root_public_keys p \<noteq> [] \<and> distinct (map hk_key_id (hp_release_root_public_keys p)) \<and>
     list_all valid_key (hp_release_root_public_keys p) \<and>
     hp_allowed_strategies p \<noteq> [] \<and> distinct (hp_allowed_strategies p) \<and> list_all valid_strategy (hp_allowed_strategies p) \<and>
     (hp_allowed_install_roots p = [] \<longrightarrow> \<not> requests_elevation (hp_allowed_target_classes p) (hp_allowed_strategies p)) \<and>
     hp_canonical_digest p = Sha256Hex (hp_canonical_json p)"

lemma RequiredIdentifier_pattern: "policy_RequiredIdentifier json k f = Inr s \<Longrightarrow> kIdentifierPattern s"
  by (auto simp: policy_RequiredIdentifier_def bindE_Inr_iff split: if_splits)

lemma RequiredInteger_minimum: "policy_RequiredInteger json k f m = Inr i \<Longrightarrow> m \<le> i"
  by (auto simp: policy_RequiredInteger_def bindE_Inr_iff split: if_splits)

lemma RequiredStringArray_nonempty: "policy_RequiredStringArray json k False = Inr xs \<Longrightarrow> xs \<noteq> []"
  by (auto simp: policy_RequiredStringArray_def bindE_Inr_iff dest: mapE_length split: if_splits)

lemma ParseReleaseRoots_valid:
  "ParseReleaseRoots json = Inr ks \<Longrightarrow> ks \<noteq> [] \<and> distinct (map hk_key_id ks) \<and> list_all valid_key ks"
  by (auto simp: ParseReleaseRoots_def bindE_Inr_iff dest!: ReleaseRootsLoop_valid split: if_splits)

lemma ParseStrategies_valid:
  "ParseStrategies json = Inr ks \<Longrightarrow> ks \<noteq> [] \<and> distinct ks \<and> list_all valid_strategy ks"
  by (auto simp: ParseStrategies_def bindE_Inr_iff dest!: StrategiesLoop_valid split: if_splits)

lemma ReadHelperPolicy_valid:
  assumes "ReadHelperPolicy json e m = Inr p"
  shows "valid_policy p \<and> hp_application_package_id p = e \<and> m \<le> hp_policy_version p \<and> hp_canonical_json p = EncodeCanonicalJson json"
  using assms unfolding ReadHelperPolicy_def Let_def valid_policy_def
  by (auto simp: bindE_Inr_iff split: if_splits
      dest!: RequiredIdentifier_pattern RequiredInteger_minimum RequiredStringArray_nonempty ParseReleaseRoots_valid
        ParseStrategies_valid ParseSigner_valid TargetClassesLoop_valid InstallRootsLoop_valid)

text \<open>
  C25. The policy parser is total and safe: it returns a policy whose every part is checked (identifiers,
  signers without wildcards, known target classes, absolute install roots without wildcards and dot segments and not written as one
  slash or as the root of a Windows drive, release keys of 32 bytes, allowed pairs of strategy and provider, no elevation without an install root), that is
  for the expected package and no older than the accepted version, and whose digest is the SHA-256 of the
  canonical form of the text; or it throws a policy error and nothing else. Roots are texts here: one written with two slashes is accepted, as
  \<open>doubled_root_accepted\<close> shows.
\<close>

theorem policy_parse_safe:
  "case ParseHelperPolicyV1 text package_id minimum of
     Inl e \<Rightarrow> \<exists>code. e = HelperPolicyError code
   | Inr p \<Rightarrow> valid_policy p \<and> hp_application_package_id p = package_id \<and> minimum \<le> hp_policy_version p \<and>
       (\<exists>json. ParseJson text = Inr json \<and> hp_canonical_json p = EncodeCanonicalJson json)"
proof (cases "ParseHelperPolicyV1 text package_id minimum")
  case (Inl e)
  have "policy_only (bindE (ParseJson text) (\<lambda>json. ReadHelperPolicy json package_id minimum))"
    by (simp add: policy_only_ReadHelperPolicy)
  with Inl show ?thesis
    by (auto simp: ParseHelperPolicyV1_def policy_guard_def policy_only_def split: sum.splits cpp_exception.splits)
next
  case (Inr p)
  then obtain json where "ParseJson text = Inr json" and json: "ReadHelperPolicy json package_id minimum = Inr p"
    by (auto simp: ParseHelperPolicyV1_Inr_iff)
  with ReadHelperPolicy_valid [OF json] show ?thesis by (simp add: Inr)
qed

text \<open>
  The guard against the root of the file system looks at two spellings only: a doubled separator names
  the same directory and is accepted.
\<close>

lemma doubled_root_accepted: "ValidateInstallRoot ''//'' = Inr ()"
  by (simp add: ValidateInstallRoot_def kWindowsRootPattern_def slash_def dot_segment_def)

section \<open>A sample policy\<close>

definition sample_release_key :: string where "sample_release_key = replicate 43 CHR ''A'' @ ''=''"

definition sample_policy_signer :: "string \<Rightarrow> JsonValue" where
  "sample_policy_signer digest = kObject [(''kind'', kString ''sha256''), (''value'', kString digest)]"

definition sample_helper_policy_json :: JsonValue where
  "sample_helper_policy_json = kObject
     [(''allowedApplicationSigner'', sample_policy_signer (replicate 64 CHR ''a'')),
      (''allowedHelperSigner'', sample_policy_signer (replicate 64 CHR ''b'')),
      (''allowedInstallRoots'', kArray [kString ''/opt'']),
      (''allowedStrategies'', kArray [kObject [(''provider'', kString ''platformDirectory''), (''strategy'', kString ''directoryReplace'')]]),
      (''allowedTargetClasses'', kArray [kString ''applicationDirectory'']),
      (''applicationPackageId'', kString ''com.example.app''),
      (''helperServiceId'', kString ''com.example.helper''),
      (''minimumHelperProtocolVersion'', kInteger 1),
      (''policyId'', kString ''example.policy''),
      (''policyVersion'', kInteger 3),
      (''releaseRootPublicKeys'', kArray [kObject [(''algorithm'', kString ''ed25519''), (''keyId'', kString ''release-1''),
         (''publicKeyBase64'', kString sample_release_key)]])]"

definition sample_helper_policy :: HelperPolicyV1 where
  "sample_helper_policy = (case ReadHelperPolicy sample_helper_policy_json ''com.example.app'' 1 of Inr p \<Rightarrow> p)"

lemma sample_release_key_canonical: "IsCanonicalEd25519PublicKey sample_release_key"
proof -
  have "sample_release_key ! i = CHR ''A''" if "i < 43" for i using that by (simp add: sample_release_key_def nth_append)
  then show ?thesis
    by (simp add: IsCanonicalEd25519PublicKey_def Base64Index_def isupper_def) (simp add: sample_release_key_def)
qed

lemma sample_signer_parsed:
  assumes "c = CHR ''a'' \<or> c = CHR ''b''"
  shows "ParseSigner (sample_policy_signer (replicate 64 c)) field = Inr \<lparr>hs_kind = ''sha256'', hs_value = replicate 64 c\<rparr>"
proof -
  have "\<not> list_all isspace (replicate 64 c)" "kSha256Pattern (replicate 64 c)" "CHR ''*'' \<notin> set (replicate 64 c)"
    "CHR ''?'' \<notin> set (replicate 64 c)"
    using assms by (auto simp: list_all_iff isspace_def kSha256Pattern_def is_lower_hex_def isdigit_def)
  then show ?thesis
    by (simp add: ParseSigner_def sample_policy_signer_def RequireExactKeys_def policy_RequiredString_def json_at_def jobject_def
        jstring_def map_find_def kSignerKinds_def isspace_def del: replicate.simps set_replicate)
qed

lemmas sample_reading = RequireExactKeys_def json_at_def jobject_def jstring_def jinteger_def jarray_def map_find_def
  policy_RequiredString_def policy_RequiredInteger_def policy_RequiredIdentifier_def policy_RequiredStringArray_def isspace_def

lemma sample_keys_parsed:
  "ParseReleaseRoots (kArray [kObject [(''algorithm'', kString ''ed25519''), (''keyId'', kString ''release-1''),
       (''publicKeyBase64'', kString sample_release_key)]]) =
     Inr [\<lparr>hk_key_id = ''release-1'', hk_algorithm = ''ed25519'', hk_public_key = sample_release_key\<rparr>]"
  using sample_release_key_canonical
  by (simp add: ParseReleaseRoots_def sample_reading kKeyIdPattern_def isalnum_def isalpha_def islower_def isupper_def isdigit_def)
    (simp add: sample_release_key_def)

lemma sample_strategies_parsed:
  "ParseStrategies (kArray [kObject [(''provider'', kString ''platformDirectory''), (''strategy'', kString ''directoryReplace'')]]) =
     Inr [\<lparr>ha_strategy = ''directoryReplace'', ha_provider = ''platformDirectory''\<rparr>]"
  by (simp add: ParseStrategies_def sample_reading ProvidersForStrategy_def kStrategyProviders_def)

lemma sample_root_valid: "ValidateInstallRoot ''/opt'' = Inr ()"
  by (simp add: ValidateInstallRoot_def kWindowsRootPattern_def slash_def dot_segment_def)

lemma sample_identifiers: "list_all kIdentifierPattern [''com.example.app'', ''com.example.helper'', ''example.policy'']"
  by (simp add: kIdentifierPattern_def islower_def isdigit_def)

lemma sample_helper_policy_read:
  "\<exists>p. ReadHelperPolicy sample_helper_policy_json ''com.example.app'' 1 = Inr p \<and>
     hp_canonical_digest p = Sha256Hex (EncodeCanonicalJson sample_helper_policy_json) \<and>
     hp_allowed_application_signer p = \<lparr>hs_kind = ''sha256'', hs_value = replicate 64 CHR ''a''\<rparr> \<and>
     hp_allowed_helper_signer p = \<lparr>hs_kind = ''sha256'', hs_value = replicate 64 CHR ''b''\<rparr> \<and>
     hp_allowed_install_roots p = [''/opt'']"
proof -
  have keys: "RequireExactKeys sample_helper_policy_json kPolicyFields [] = Inr ()"
    by (simp add: sample_helper_policy_json_def RequireExactKeys_def jobject_def map_find_def kPolicyFields_def)
  have at: "json_at sample_helper_policy_json ''policyVersion'' = Inr (kInteger 3)"
    "json_at sample_helper_policy_json ''policyId'' = Inr (kString ''example.policy'')"
    "json_at sample_helper_policy_json ''applicationPackageId'' = Inr (kString ''com.example.app'')"
    "json_at sample_helper_policy_json ''helperServiceId'' = Inr (kString ''com.example.helper'')"
    "json_at sample_helper_policy_json ''allowedApplicationSigner'' = Inr (sample_policy_signer (replicate 64 CHR ''a''))"
    "json_at sample_helper_policy_json ''allowedHelperSigner'' = Inr (sample_policy_signer (replicate 64 CHR ''b''))"
    "json_at sample_helper_policy_json ''allowedTargetClasses'' = Inr (kArray [kString ''applicationDirectory''])"
    "json_at sample_helper_policy_json ''allowedInstallRoots'' = Inr (kArray [kString ''/opt''])"
    "json_at sample_helper_policy_json ''minimumHelperProtocolVersion'' = Inr (kInteger 1)"
    "json_at sample_helper_policy_json ''releaseRootPublicKeys'' = Inr (kArray [kObject [(''algorithm'', kString ''ed25519''),
       (''keyId'', kString ''release-1''), (''publicKeyBase64'', kString sample_release_key)]])"
    "json_at sample_helper_policy_json ''allowedStrategies'' = Inr (kArray [kObject [(''provider'', kString ''platformDirectory''),
       (''strategy'', kString ''directoryReplace'')]])"
    by (simp_all add: sample_helper_policy_json_def json_at_def jobject_def map_find_def)
  have strings: "policy_RequiredIdentifier sample_helper_policy_json ''policyId'' ''policyId'' = Inr ''example.policy''"
    "policy_RequiredIdentifier sample_helper_policy_json ''applicationPackageId'' ''applicationPackageId'' = Inr ''com.example.app''"
    "policy_RequiredIdentifier sample_helper_policy_json ''helperServiceId'' ''helperServiceId'' = Inr ''com.example.helper''"
    "policy_RequiredInteger sample_helper_policy_json ''policyVersion'' ''policyVersion'' 1 = Inr 3"
    "policy_RequiredInteger sample_helper_policy_json ''minimumHelperProtocolVersion'' ''minimumHelperProtocolVersion'' 1 = Inr 1"
    "policy_RequiredStringArray sample_helper_policy_json ''allowedTargetClasses'' False = Inr [''applicationDirectory'']"
    "policy_RequiredStringArray sample_helper_policy_json ''allowedInstallRoots'' True = Inr [''/opt'']"
    using sample_identifiers
    by (simp_all add: at policy_RequiredIdentifier_def policy_RequiredString_def policy_RequiredInteger_def policy_RequiredStringArray_def
        jstring_def jinteger_def jarray_def isspace_def)
  show ?thesis
    unfolding ReadHelperPolicy_def keys strings at
    by (simp add: sample_signer_parsed sample_keys_parsed sample_strategies_parsed sample_root_valid kTargetClasses_def
        requests_elevation_def Let_def del: replicate.simps)
qed

lemma sample_helper_policy_wf: "wf_json sample_helper_policy_json"
  unfolding sample_helper_policy_json_def sample_policy_signer_def sample_release_key_def by code_simp

definition sample_policy_text :: string where
  "sample_policy_text = EncodeCanonicalJson sample_helper_policy_json"

lemma sample_policy_parsed: "ParseHelperPolicyV1 sample_policy_text ''com.example.app'' 1 = Inr sample_helper_policy"
  using sample_helper_policy_read sample_helper_policy_wf
  by (auto simp: sample_policy_text_def ParseHelperPolicyV1_Inr_iff ParseJson_Encode sample_helper_policy_def)

lemma sample_policy_fields:
  "hp_canonical_digest sample_helper_policy = Sha256Hex sample_policy_text"
  "hp_allowed_application_signer sample_helper_policy = \<lparr>hs_kind = ''sha256'', hs_value = replicate 64 CHR ''a''\<rparr>"
  "hp_allowed_helper_signer sample_helper_policy = \<lparr>hs_kind = ''sha256'', hs_value = replicate 64 CHR ''b''\<rparr>"
  "hp_allowed_install_roots sample_helper_policy = [''/opt'']"
  using sample_helper_policy_read by (auto simp: sample_helper_policy_def sample_policy_text_def)

end
