(* ===== verification/Linux_Helper_Policy.thy ===== *)
theory Linux_Helper_Policy
  imports Helper_Policy_Safety Linux_Identity
begin

text \<open>
  The policy file of the Linux broker, \<^verbatim>\<open>linux_helper_policy.{h,cc}\<close>: a sealed, root-owned file that wraps a helper
  policy with digests of its text and of the helper. What \<^verbatim>\<open>lstat\<close>, \<^verbatim>\<open>open\<close> and \<^verbatim>\<open>fstat\<close> find is a parameter, and so is
  the digest of a file, a function of OpenSSL.
\<close>

section \<open>Files\<close>

record LinuxStat =
  st_dev :: "64 word"
  st_ino :: "64 word"
  st_uid :: "32 word"
  st_gid :: "32 word"
  st_mode :: "32 word"

record LinuxFileSecurity =
  fs_uid :: "32 word"
  fs_gid :: "32 word"
  fs_mode :: "32 word"
  fs_symbolic_link :: bool
  fs_writable_ancestor :: bool

record LinuxVerifiedFile =
  vf_path :: string
  vf_device :: "64 word"
  vf_inode :: "64 word"
  vf_digest :: string
  vf_security :: LinuxFileSecurity

text \<open>
  What the process finds: the working directory as a list of names, \<^verbatim>\<open>lstat\<close> of a path, \<^verbatim>\<open>lstat\<close> of an absolute path
  given by its names, the status and the digest of the file that an \<^verbatim>\<open>open\<close> without following links opened,
  and what reading the file gives when it is opened again.
\<close>

record PolicyHost =
  hs_cwd :: "string list"
  hs_lstat :: "string \<Rightarrow> LinuxStat option"
  hs_lstat_names :: "string list \<Rightarrow> LinuxStat option"
  hs_open :: "string \<Rightarrow> (LinuxStat \<times> string result) option"
  hs_reopen :: "string \<Rightarrow> string result option"

definition linux_policy_error :: "string \<Rightarrow> cpp_exception" where
  "linux_policy_error detail = HelperError LinuxHelperPolicyError detail"

text \<open>\<^verbatim>\<open>S_IWGRP | S_IWOTH\<close>.\<close>

definition group_or_other_writes :: "32 word \<Rightarrow> bool" where
  "group_or_other_writes mode \<longleftrightarrow> and mode 0x12 \<noteq> 0"

definition S_ISLNK :: "32 word \<Rightarrow> bool" where "S_ISLNK mode \<longleftrightarrow> and mode S_IFMT = S_IFLNK"
definition S_ISREG :: "32 word \<Rightarrow> bool" where "S_ISREG mode \<longleftrightarrow> and mode S_IFMT = S_IFREG"

text \<open>The names of \<^verbatim>\<open>absolute(path).lexically_normal()\<close>.\<close>

fun normal_names :: "string list \<Rightarrow> string list \<Rightarrow> string list" where
  "normal_names [] done_names = done_names"
| "normal_names (n # ns) done_names =
     (if n = [] \<or> n = ''.'' then normal_names ns done_names
      else if n = ''..'' then normal_names ns (butlast done_names)
      else normal_names ns (done_names @ [n]))"

definition absolute_names :: "PolicyHost \<Rightarrow> string \<Rightarrow> string list" where
  "absolute_names host path =
     normal_names (Split path CHR ''/'') (if starts_with ''/'' path then [] else hs_cwd host)"

text \<open>The loop over the parents, up to and including the root.\<close>

definition writable_directory :: "LinuxStat option \<Rightarrow> bool" where
  "writable_directory status \<longleftrightarrow> (case status of None \<Rightarrow> True
     | Some s \<Rightarrow> st_uid s \<noteq> 0 \<or> group_or_other_writes (st_mode s) \<or> S_ISLNK (st_mode s))"

function AncestorLoop :: "PolicyHost \<Rightarrow> string list \<Rightarrow> bool" where
  "AncestorLoop host names =
     (if writable_directory (hs_lstat_names host names) then True
      else if names = [] then False else AncestorLoop host (butlast names))"
  by pat_completeness auto
termination by (relation "measure (\<lambda>(host, names). length names)") auto

declare AncestorLoop.simps [simp del]

text \<open>
  The first parent. A normal path that ends in a separator has itself without the separator as parent; the normal
  form ends so when the path ends in a separator, a dot or two dots.
\<close>

definition parent_names :: "PolicyHost \<Rightarrow> string \<Rightarrow> string list" where
  "parent_names host path =
     (let names = absolute_names host path
      in if last (Split path CHR ''/'') \<in> {[], ''.'', ''..''} then names else butlast names)"

definition HasWritableAncestor :: "PolicyHost \<Rightarrow> string \<Rightarrow> bool" where
  "HasWritableAncestor host path = AncestorLoop host (parent_names host path)"

definition ValidateProtectedFileSecurity :: "LinuxFileSecurity \<Rightarrow> string \<Rightarrow> unit result" where
  "ValidateProtectedFileSecurity security label =
     throw_if (fs_uid security \<noteq> 0 \<or> \<not> S_ISREG (fs_mode security) \<or> fs_symbolic_link security \<or>
         fs_writable_ancestor security \<or> group_or_other_writes (fs_mode security))
       (linux_policy_error (label @ '' is not root-owned and sealed''))"

definition VerifyProtectedLinuxFile :: "PolicyHost \<Rightarrow> string \<Rightarrow> LinuxVerifiedFile result" where
  "VerifyProtectedLinuxFile host path =
     (case hs_lstat host path of
        None \<Rightarrow> Inl (linux_policy_error ''protected file path is missing or symlinked'')
      | Some path_status \<Rightarrow>
          if S_ISLNK (st_mode path_status)
          then Inl (linux_policy_error ''protected file path is missing or symlinked'')
          else case hs_open host path of
              None \<Rightarrow> Inl (linux_policy_error ''protected file identity changed'')
            | Some (status, digest) \<Rightarrow>
                if st_dev path_status \<noteq> st_dev status \<or> st_ino path_status \<noteq> st_ino status
                then Inl (linux_policy_error ''protected file identity changed'')
                else
                  let security = \<lparr>fs_uid = st_uid status, fs_gid = st_gid status, fs_mode = st_mode status,
                        fs_symbolic_link = False, fs_writable_ancestor = HasWritableAncestor host path\<rparr>
                  in bindE (ValidateProtectedFileSecurity security ''protected file'') (\<lambda>_.
                     bindE digest (\<lambda>sha.
                       Inr \<lparr>vf_path = path, vf_device = st_dev status, vf_inode = st_ino status, vf_digest = sha,
                         vf_security = security\<rparr>)))"

section \<open>The policy of the broker\<close>

record LinuxHelperPolicy =
  lh_package_id :: string
  lh_application_signer :: string
  lh_helper_digest :: string
  lh_broker_path :: string
  lh_allowed_install_roots :: "string list"
  lh_canonical_policy_json :: string

text \<open>
  Comparison of \<^verbatim>\<open>std::filesystem::path\<close> values: the root, the names between separators, and whether the
  path ends in a separator.
\<close>

definition path_elements :: "string \<Rightarrow> bool \<times> string list \<times> bool" where
  "path_elements s = (let names = filter (\<lambda>n. n \<noteq> []) (Split s CHR ''/'')
     in (starts_with ''/'' s, names, names \<noteq> [] \<and> last s = CHR ''/''))"

definition same_path :: "string \<Rightarrow> string \<Rightarrow> bool" where
  "same_path a b \<longleftrightarrow> path_elements a = path_elements b"

definition broker_location :: string where "broker_location = ''/usr/libexec/desktop-updater-helper''"

definition MakeLinuxHelperPolicy :: "LinuxHelperPolicy \<Rightarrow> LinuxHelperPolicy result" where
  "MakeLinuxHelperPolicy p =
     bindE (throw_if (lh_package_id p = [] \<or> lh_application_signer p = [] \<or> \<not> kSha256Pattern (lh_helper_digest p) \<or>
         \<not> same_path (lh_broker_path p) broker_location \<or> lh_allowed_install_roots p = [])
       (linux_policy_error ''portable or unsealed elevation rejected'')) (\<lambda>_.
     bindE (throw_if (\<exists>l \<in> set (lh_allowed_install_roots p). \<not> starts_with ''/'' l \<or> same_path l ''/'')
       (linux_policy_error ''privileged install root rejected'')) (\<lambda>_. Inr p))"

definition wrapper_RequireKeys :: "JsonValue \<Rightarrow> string list \<Rightarrow> unit result" where
  "wrapper_RequireKeys json expected =
     bindE (jobject json) (\<lambda>object.
       throw_if (length object \<noteq> length expected \<or> (\<exists>key \<in> set expected. map_find object key = None))
         (linux_policy_error ''sealed policy wrapper fields rejected''))"

definition policy_ReadAll :: "PolicyHost \<Rightarrow> string \<Rightarrow> nat \<Rightarrow> string result" where
  "policy_ReadAll host path maximum = (case hs_reopen host path of
       None \<Rightarrow> Inl (linux_policy_error ''policy reopen failed'')
     | Some contents \<Rightarrow> bindE contents (\<lambda>s.
         bindE (throw_if (length s > maximum) (linux_policy_error ''protected file read failed'')) (\<lambda>_. Inr s)))"

abbreviation json_string :: "JsonValue \<Rightarrow> string \<Rightarrow> string result" where
  "json_string json key \<equiv> bindE (json_at json key) jstring"

definition LoadLinuxHelperPolicy :: "PolicyHost \<Rightarrow> string \<Rightarrow> string \<Rightarrow> LinuxHelperPolicy result" where
  "LoadLinuxHelperPolicy host policy_path package_id =
     bindE (VerifyProtectedLinuxFile host policy_path) (\<lambda>policy_file.
     bindE (policy_ReadAll host policy_path (128 * 1024)) (\<lambda>contents.
     bindE (ParseJson contents) (\<lambda>wrapper.
     bindE (wrapper_RequireKeys wrapper [''applicationPackageId'', ''brokerPath'', ''canonicalPolicyJson'',
       ''canonicalPolicySha256'', ''helperSha256'']) (\<lambda>_.
     bindE (json_string wrapper ''applicationPackageId'') (\<lambda>wrapped_package.
     bindE (throw_if (wrapped_package \<noteq> package_id) (linux_policy_error ''exact package policy mismatch'')) (\<lambda>_.
     bindE (json_string wrapper ''canonicalPolicyJson'') (\<lambda>canonical.
     bindE (ParseHelperPolicyV1 canonical package_id 1) (\<lambda>parsed.
     bindE (json_string wrapper ''canonicalPolicySha256'') (\<lambda>canonical_digest.
     bindE (throw_if (hp_canonical_digest parsed \<noteq> canonical_digest \<or>
         hs_kind (hp_allowed_application_signer parsed) \<noteq> ''sha256'' \<or> hs_kind (hp_allowed_helper_signer parsed) \<noteq> ''sha256'')
       (linux_policy_error ''sealed policy digest or signer mismatch'')) (\<lambda>_.
     bindE (json_string wrapper ''helperSha256'') (\<lambda>helper_digest.
     bindE (throw_if (hs_value (hp_allowed_helper_signer parsed) \<noteq> helper_digest)
       (linux_policy_error ''sealed policy digest or signer mismatch'')) (\<lambda>_.
     bindE (json_string wrapper ''brokerPath'') (\<lambda>broker_path.
       MakeLinuxHelperPolicy \<lparr>lh_package_id = package_id,
         lh_application_signer = hs_value (hp_allowed_application_signer parsed), lh_helper_digest = helper_digest,
         lh_broker_path = broker_path, lh_allowed_install_roots = hp_allowed_install_roots parsed,
         lh_canonical_policy_json = hp_canonical_json parsed\<rparr>)))))))))))))"

definition ValidateLinuxBrokerIdentity :: "LinuxVerifiedFile \<Rightarrow> LinuxHelperPolicy \<Rightarrow> unit result" where
  "ValidateLinuxBrokerIdentity broker policy =
     bindE (ValidateProtectedFileSecurity (vf_security broker) ''broker'') (\<lambda>_.
       throw_if (\<not> same_path (vf_path broker) (lh_broker_path policy) \<or> vf_digest broker \<noteq> lh_helper_digest policy \<or>
           vf_device broker = 0 \<or> vf_inode broker = 0)
         (linux_policy_error ''broker path, inode, or helperSha256 mismatch''))"

text \<open>
  The peer of a connection: its start identity is read before and after its executable is digested. Both
  readings and the digest are parameters; a short-circuit keeps the second reading from happening when
  the digest differs.
\<close>

definition VerifyLinuxPeerExecutable ::
    "64 word result \<Rightarrow> string result option \<Rightarrow> 64 word result \<Rightarrow> 64 word \<Rightarrow> string \<Rightarrow> unit result" where
  "VerifyLinuxPeerExecutable start_before executable_digest start_after expected_start_identity expected_digest =
     bindE start_before (\<lambda>before.
     bindE (throw_if (before \<noteq> expected_start_identity) (linux_policy_error ''caller process identity changed'')) (\<lambda>_.
     case executable_digest of
       None \<Rightarrow> Inl (linux_policy_error ''caller executable digest mismatch'')
     | Some digest \<Rightarrow>
         bindE digest (\<lambda>sha.
         if sha \<noteq> expected_digest then Inl (linux_policy_error ''caller executable digest mismatch'')
         else bindE start_after (\<lambda>after.
           throw_if (after \<noteq> expected_start_identity) (linux_policy_error ''caller executable digest mismatch'')))))"

section \<open>What a loaded policy guarantees\<close>

definition sealed_file :: "LinuxFileSecurity \<Rightarrow> bool" where
  "sealed_file security \<longleftrightarrow> fs_uid security = 0 \<and> S_ISREG (fs_mode security) \<and> \<not> fs_symbolic_link security \<and>
     \<not> fs_writable_ancestor security \<and> \<not> group_or_other_writes (fs_mode security)"

lemma ValidateProtectedFileSecurity_iff: "ValidateProtectedFileSecurity security label = Inr u \<longleftrightarrow> sealed_file security"
  by (auto simp: ValidateProtectedFileSecurity_def sealed_file_def throw_if_def)

lemma VerifyProtectedLinuxFile_sealed:
  assumes "VerifyProtectedLinuxFile host path = Inr f"
  shows "sealed_file (vf_security f)" and "vf_path f = path"
    and "\<exists>status digest. hs_open host path = Some (status, Inr digest) \<and> vf_digest f = digest \<and> vf_device f = st_dev status \<and>
      vf_inode f = st_ino status"
  using assms
  by (auto simp: VerifyProtectedLinuxFile_def ValidateProtectedFileSecurity_iff bindE_Inr_iff Let_def split: option.splits if_splits)

text \<open>Every parent directory of a sealed file belongs to root and is writable to nobody else.\<close>

lemma AncestorLoop_all: "\<not> AncestorLoop host names \<longleftrightarrow> (\<forall>n \<le> length names. \<not> writable_directory (hs_lstat_names host (take n names)))"
proof (induction host names rule: AncestorLoop.induct)
  case (1 host names)
  show ?case
  proof (cases "writable_directory (hs_lstat_names host names) \<or> names = []")
    case True
    then show ?thesis by (auto simp: AncestorLoop.simps [of host names])
  next
    case False
    have parent: "take n names = take n (butlast names)" if "n \<le> length (butlast names)" for n
      using that False by (intro take_butlast [symmetric]) (cases names; auto split: if_splits)
    have "n \<le> length names \<longleftrightarrow> n = length names \<or> n \<le> length (butlast names)" for n using False by auto
    with False 1 show ?thesis
      by (simp add: AncestorLoop.simps [of host names] parent)
  qed
qed

definition root_only_above :: "PolicyHost \<Rightarrow> string \<Rightarrow> bool" where
  "root_only_above host path \<longleftrightarrow> (\<forall>n < length (absolute_names host path).
     \<not> writable_directory (hs_lstat_names host (take n (absolute_names host path))))"

lemma VerifyProtectedLinuxFile_above:
  assumes "VerifyProtectedLinuxFile host path = Inr f"
  shows "root_only_above host path"
proof -
  have "fs_writable_ancestor (vf_security f) = HasWritableAncestor host path"
    using assms by (auto simp: VerifyProtectedLinuxFile_def bindE_Inr_iff Let_def split: option.splits if_splits)
  then have "\<not> AncestorLoop host (parent_names host path)"
    using VerifyProtectedLinuxFile_sealed(1) [OF assms] by (simp add: sealed_file_def HasWritableAncestor_def)
  then show ?thesis
    unfolding AncestorLoop_all parent_names_def Let_def root_only_above_def by (auto simp: take_butlast split: if_splits)
qed

text \<open>
  The file that was at the path when it was verified is sealed, and the policy is the one in the text that the second \<^verbatim>\<open>open\<close> of the
  path gave. Nothing in the code compares the two files.
\<close>

definition sealed_policy :: "PolicyHost \<Rightarrow> string \<Rightarrow> string \<Rightarrow> LinuxHelperPolicy \<Rightarrow> bool" where
  "sealed_policy host path package_id p \<longleftrightarrow>
     lh_package_id p = package_id \<and> kSha256Pattern (lh_helper_digest p) \<and> kSha256Pattern (lh_application_signer p) \<and>
     same_path (lh_broker_path p) broker_location \<and> lh_allowed_install_roots p \<noteq> [] \<and>
     (\<forall>l \<in> set (lh_allowed_install_roots p). safe_install_root l \<and> starts_with ''/'' l \<and> \<not> same_path l ''/'') \<and>
     (\<exists>f. VerifyProtectedLinuxFile host path = Inr f \<and> sealed_file (vf_security f)) \<and> root_only_above host path \<and>
     (\<exists>contents wrapper canonical policy. hs_reopen host path = Some (Inr contents) \<and> length contents \<le> 131072 \<and>
        ParseJson contents = Inr wrapper \<and> json_string wrapper ''canonicalPolicyJson'' = Inr canonical \<and>
        ParseHelperPolicyV1 canonical package_id 1 = Inr policy \<and> valid_policy policy \<and> hp_application_package_id policy = package_id \<and>
        hp_canonical_json policy = lh_canonical_policy_json p \<and> hp_allowed_install_roots policy = lh_allowed_install_roots p \<and>
        hs_value (hp_allowed_helper_signer policy) = lh_helper_digest p \<and>
        hs_value (hp_allowed_application_signer policy) = lh_application_signer p)"

lemma LoadLinuxHelperPolicy_sealed:
  assumes "LoadLinuxHelperPolicy host path package_id = Inr p"
  shows "sealed_policy host path package_id p"
proof -
  obtain f contents wrapper canonical parsed broker where f: "VerifyProtectedLinuxFile host path = Inr f"
    and read: "policy_ReadAll host path (128 * 1024) = Inr contents" "ParseJson contents = Inr wrapper"
      "json_string wrapper ''canonicalPolicyJson'' = Inr canonical"
    and parsed: "ParseHelperPolicyV1 canonical package_id 1 = Inr parsed"
    and signers: "hs_kind (hp_allowed_application_signer parsed) = ''sha256''" "hs_kind (hp_allowed_helper_signer parsed) = ''sha256''"
    and p: "MakeLinuxHelperPolicy \<lparr>lh_package_id = package_id,
         lh_application_signer = hs_value (hp_allowed_application_signer parsed),
         lh_helper_digest = hs_value (hp_allowed_helper_signer parsed),
         lh_broker_path = broker, lh_allowed_install_roots = hp_allowed_install_roots parsed,
         lh_canonical_policy_json = hp_canonical_json parsed\<rparr> = Inr p"
    using assms unfolding LoadLinuxHelperPolicy_def by (simp only: bindE_Inr_iff throw_if_Inr_iff) auto
  have contents: "hs_reopen host path = Some (Inr contents)" "length contents \<le> 131072"
    using read(1) by (auto simp: policy_ReadAll_def bindE_Inr_iff throw_if_Inr_iff split: option.splits)
  obtain json where "ReadHelperPolicy json package_id 1 = Inr parsed" using parsed by (auto simp: ParseHelperPolicyV1_Inr_iff)
  note valid = ReadHelperPolicy_valid [OF this]
  have "kSha256Pattern (hs_value (hp_allowed_application_signer parsed))"
    using valid signers by (auto simp: valid_policy_def valid_signer_def)
  moreover have "\<forall>l \<in> set (hp_allowed_install_roots parsed). safe_install_root l" using valid by (simp add: valid_policy_def)
  ultimately show ?thesis
    using p f valid VerifyProtectedLinuxFile_sealed(1) [OF f] VerifyProtectedLinuxFile_above [OF f] contents read(2,3) parsed
    by (auto simp: MakeLinuxHelperPolicy_def bindE_Inr_iff [of "throw_if b e" for b e] throw_if_Inr_iff sealed_policy_def)
qed

section \<open>Properties\<close>

text \<open>
  C24. An elevated helper acts under a sealed policy, as far as the code looks. When the broker loads a policy, the file at the path was found to be
  owned by root, not a link and writable to nobody else, below directories that belong to root and that nobody else writes; and the policy is the one
  in the text that a second \<^verbatim>\<open>open\<close> of the same path gave, parses as a valid policy for the package, is not portable and names no file
  system root. That both opens met the same file rests on root alone being able to exchange it: the code does not compare them. A
  broker that it accepts is a sealed file at the fixed place, below such directories, whose digest is the one the policy names as
  signer of the helper.
\<close>

theorem linux_policy_sealed:
  assumes "LoadLinuxHelperPolicy host path package_id = Inr p" and "VerifyProtectedLinuxFile host' location = Inr broker"
    and "ValidateLinuxBrokerIdentity broker p = Inr ()"
  shows "sealed_policy host path package_id p \<and> sealed_file (vf_security broker) \<and> same_path location broker_location \<and>
    (\<exists>status. hs_open host' location = Some (status, Inr (lh_helper_digest p))) \<and> root_only_above host' location"
proof -
  note broker = VerifyProtectedLinuxFile_sealed [OF assms(2)]
  have sealed: "sealed_policy host path package_id p" by (rule LoadLinuxHelperPolicy_sealed [OF assms(1)])
  have same: "same_path location (lh_broker_path p)" "vf_digest broker = lh_helper_digest p"
    using assms(3) broker(2) by (auto simp: ValidateLinuxBrokerIdentity_def bindE_Inr_iff throw_if_Inr_iff)
  show ?thesis
    using sealed broker same VerifyProtectedLinuxFile_above [OF assms(2)] by (auto simp: sealed_policy_def same_path_def)
qed

definition sample_wrapper :: JsonValue where
  "sample_wrapper = kObject
     [(''applicationPackageId'', kString ''com.example.app''), (''brokerPath'', kString broker_location),
      (''canonicalPolicyJson'', kString sample_policy_text), (''canonicalPolicySha256'', kString (Sha256Hex sample_policy_text)),
      (''helperSha256'', kString (replicate 64 CHR ''b''))]"

definition sample_root_file :: "64 word \<Rightarrow> LinuxStat" where
  "sample_root_file inode = \<lparr>st_dev = 1, st_ino = inode, st_uid = 0, st_gid = 0, st_mode = 0x81A4\<rparr>"

definition sample_host :: "string \<Rightarrow> string \<Rightarrow> PolicyHost" where
  "sample_host digest contents = \<lparr>hs_cwd = [], hs_lstat = \<lambda>_. Some (sample_root_file 7),
     hs_lstat_names = \<lambda>_. Some \<lparr>st_dev = 1, st_ino = 2, st_uid = 0, st_gid = 0, st_mode = 0x41ED\<rparr>,
     hs_open = \<lambda>_. Some (sample_root_file 7, Inr digest), hs_reopen = \<lambda>_. Some (Inr contents)\<rparr>"

lemma sample_ancestors: "\<not> AncestorLoop (sample_host d c) names"
  by (simp add: AncestorLoop_all sample_host_def writable_directory_def group_or_other_writes_def S_ISLNK_def S_IFMT_def S_IFLNK_def)

lemma sample_verified:
  "VerifyProtectedLinuxFile (sample_host d c) path = Inr \<lparr>vf_path = path, vf_device = 1, vf_inode = 7, vf_digest = d,
     vf_security = \<lparr>fs_uid = 0, fs_gid = 0, fs_mode = 0x81A4, fs_symbolic_link = False, fs_writable_ancestor = False\<rparr>\<rparr>"
proof -
  have "\<not> HasWritableAncestor (sample_host d c) path" by (simp add: HasWritableAncestor_def sample_ancestors)
  then show ?thesis
    by (simp add: VerifyProtectedLinuxFile_def ValidateProtectedFileSecurity_def throw_if_def bindE_def Let_def
        S_ISLNK_def S_ISREG_def S_IFMT_def S_IFLNK_def S_IFREG_def group_or_other_writes_def sample_host_def sample_root_file_def)
qed

lemma length_sha256_block: "length (sha256_block bytes offset hash) = length hash"
proof -
  have "length (fold (\<lambda>i hash. hash[i := f hash i]) xs h) = length (h :: 32 word list)" for f xs h
    by (induction xs arbitrary: h) simp_all
  then show ?thesis by (simp add: sha256_block_def Let_def)
qed

lemma length_sha256_loop: "length (sha256_loop bytes offset hash) = length hash"
  by (induction bytes offset hash rule: sha256_loop.induct)
    (subst sha256_loop.simps, simp add: length_sha256_block)

lemma length_Sha256Hex: "length (Sha256Hex s) = 64"
proof -
  have "length (concat (map (\<lambda>v :: 32 word. hex_pad 8 (unat v)) ws)) = 8 * length ws" for ws
    by (induction ws) simp_all
  then show ?thesis by (simp add: Sha256Hex_def length_sha256_loop sha256_initial_def)
qed

fun json_weight :: "JsonValue \<Rightarrow> nat" where
  "json_weight (kString s) = 6 * length s + 2"
| "json_weight (kArray a) = 2 + sum_list (map (\<lambda>v. Suc (json_weight v)) a)"
| "json_weight (kObject m) = 2 + sum_list (map (\<lambda>(k, v). 6 * length k + 4 + json_weight v) m)"
| "json_weight (kInteger i) = length (show_int i)"
| "json_weight _ = 5"

lemma length_Encode:
  "length (Encode v) \<le> json_weight v"
  "length (EncodeArrayLoop b a) \<le> sum_list (map (\<lambda>v. Suc (json_weight v)) a)"
  "length (EncodeObjectLoop b m) \<le> sum_list (map (\<lambda>(k, v). 6 * length k + 4 + json_weight v) m)"
proof (induction v and b a and b m rule: Encode_EncodeArrayLoop_EncodeObjectLoop.induct)
  case (4 s)
  show ?case using length_EncodeString [of s] by simp
next
  case (10 b k v m)
  then show ?case using length_EncodeString [of k] by simp
qed simp_all

lemma sample_policy_length: "length sample_policy_text \<le> 10000"
proof (unfold sample_policy_text_def EncodeCanonicalJson_def, rule order_trans [OF length_Encode(1)])
  have "length (show_int 1) \<le> 5" "length (show_int 3) \<le> 5" by (simp_all add: show_int_def show_nat.simps)
  then show "json_weight sample_helper_policy_json \<le> 10000"
    by (simp add: sample_helper_policy_json_def sample_policy_signer_def sample_release_key_def del: replicate.simps)
qed

lemma sample_wrapper_length: "length (EncodeCanonicalJson sample_wrapper) \<le> 131072"
proof (unfold EncodeCanonicalJson_def, rule order_trans [OF length_Encode(1)])
  show "json_weight sample_wrapper \<le> 131072"
    using sample_policy_length
    by (simp add: sample_wrapper_def length_Sha256Hex broker_location_def del: replicate.simps)
qed

lemma sample_wrapper_wf: "wf_json sample_wrapper"
  by (simp add: sample_wrapper_def sorted_keys_def)

lemma sample_loaded:
  "\<exists>p. LoadLinuxHelperPolicy (sample_host d (EncodeCanonicalJson sample_wrapper)) path ''com.example.app'' = Inr p \<and>
    lh_helper_digest p = replicate 64 CHR ''b'' \<and> lh_broker_path p = broker_location"
proof -
  have reopened: "policy_ReadAll (sample_host d (EncodeCanonicalJson sample_wrapper)) path (128 * 1024) = Inr (EncodeCanonicalJson sample_wrapper)"
    using sample_wrapper_length by (simp add: policy_ReadAll_def sample_host_def throw_if_def bindE_def)
  have keys: "wrapper_RequireKeys sample_wrapper [''applicationPackageId'', ''brokerPath'', ''canonicalPolicyJson'',
       ''canonicalPolicySha256'', ''helperSha256''] = Inr ()"
    by (simp add: wrapper_RequireKeys_def sample_wrapper_def jobject_def map_find_def throw_if_def bindE_def)
  have fields: "json_string sample_wrapper ''applicationPackageId'' = Inr ''com.example.app''"
    "json_string sample_wrapper ''brokerPath'' = Inr broker_location"
    "json_string sample_wrapper ''canonicalPolicyJson'' = Inr sample_policy_text"
    "json_string sample_wrapper ''canonicalPolicySha256'' = Inr (Sha256Hex sample_policy_text)"
    "json_string sample_wrapper ''helperSha256'' = Inr (replicate 64 CHR ''b'')"
    by (simp_all add: sample_wrapper_def json_at_def jobject_def map_find_def jstring_def bindE_def del: replicate.simps)
  have digest: "kSha256Pattern (replicate 64 CHR ''b'')"
    by (simp add: kSha256Pattern_def is_lower_hex_def list_all_iff isdigit_def del: replicate.simps)
  have "\<exists>p. MakeLinuxHelperPolicy \<lparr>lh_package_id = ''com.example.app'', lh_application_signer = replicate 64 CHR ''a'',
      lh_helper_digest = replicate 64 CHR ''b'', lh_broker_path = broker_location, lh_allowed_install_roots = [''/opt''],
      lh_canonical_policy_json = hp_canonical_json sample_helper_policy\<rparr> = Inr p \<and>
      lh_helper_digest p = replicate 64 CHR ''b'' \<and> lh_broker_path p = broker_location"
    using digest
    by (simp add: MakeLinuxHelperPolicy_def throw_if_def bindE_def same_path_def path_elements_def Split.simps Let_def del: replicate.simps)
  then show ?thesis
    unfolding LoadLinuxHelperPolicy_def sample_verified reopened ParseJson_Encode [OF sample_wrapper_wf] bindE_simps keys fields
      sample_policy_parsed
    by (simp add: sample_policy_fields throw_if_def del: replicate.simps)
qed

lemma linux_policy_sealed_witness:
  "let host = sample_host (replicate 64 CHR ''b'') (EncodeCanonicalJson sample_wrapper);
     path = ''/usr/share/desktop-updater/policies/com.example.app.json'' in
   \<exists>p broker. LoadLinuxHelperPolicy host path ''com.example.app'' = Inr p \<and>
     VerifyProtectedLinuxFile host broker_location = Inr broker \<and> ValidateLinuxBrokerIdentity broker p = Inr () \<and>
     sealed_policy host path ''com.example.app'' p"
proof -
  let ?host = "sample_host (replicate 64 CHR ''b'') (EncodeCanonicalJson sample_wrapper)"
  let ?path = "''/usr/share/desktop-updater/policies/com.example.app.json''"
  obtain p where p: "LoadLinuxHelperPolicy ?host ?path ''com.example.app'' = Inr p"
    "lh_helper_digest p = replicate 64 CHR ''b''" "lh_broker_path p = broker_location"
    using sample_loaded by blast
  note broker = sample_verified [of "replicate 64 CHR ''b''" "EncodeCanonicalJson sample_wrapper" broker_location]
  have "ValidateLinuxBrokerIdentity \<lparr>vf_path = broker_location, vf_device = 1, vf_inode = 7, vf_digest = replicate 64 CHR ''b'',
     vf_security = \<lparr>fs_uid = 0, fs_gid = 0, fs_mode = 0x81A4, fs_symbolic_link = False, fs_writable_ancestor = False\<rparr>\<rparr> p = Inr ()"
    using p(2,3)
    by (simp add: ValidateLinuxBrokerIdentity_def ValidateProtectedFileSecurity_def throw_if_def same_path_def S_ISREG_def S_IFMT_def
        S_IFREG_def group_or_other_writes_def del: replicate.simps)
  with linux_policy_sealed [OF p(1) broker this] p(1) broker show ?thesis unfolding Let_def by blast
qed

end
