(* ===== verification/Artifact_Staging.thy ===== *)
theory Artifact_Staging
  imports File_Tree Ordered_Map
begin

unbundle bit_operations_syntax

text \<open>
  Unpacking of a downloaded archive, \<^verbatim>\<open>artifact_stager.{h,cc}\<close> in its POSIX form: the names of an archive are made safe,
  all entries are checked before the first one is written, and then directories and files are created below
  the destination. What the reader of archives (miniz) reports about an archive is a parameter: the
  status of every entry and, for every entry, the calls it makes to the callback that takes the bytes.
\<close>

section \<open>Archives\<close>

record ArchiveLimits =
  maximum_archive_entries :: int
  maximum_uncompressed_bytes :: int
  maximum_single_entry_bytes :: int

text \<open>\<^verbatim>\<open>mz_zip_archive_file_stat\<close>, the fields that the code reads.\<close>

record ZipStat =
  m_filename :: string
  m_is_encrypted :: bool
  m_is_supported :: bool
  m_is_directory :: bool
  m_external_attr :: "32 word"
  m_uncomp_size :: "64 word"

text \<open>
  An entry whose status cannot be read is \<^const>\<open>None\<close>. The second part of \<open>za_extract\<close> is what the extraction returns
  when the callback took every piece.
\<close>

record ZipArchive =
  za_stats :: "ZipStat option list"
  za_extract :: "nat \<Rightarrow> (64 word \<times> string) list \<times> bool"

section \<open>Safe names\<close>

definition IsDrivePrefixed :: "string \<Rightarrow> bool" where
  "IsDrivePrefixed path \<longleftrightarrow> 2 \<le> length path \<and> isalpha (path ! 0) \<and> path ! 1 = CHR '':''"

text \<open>The loop over the segments between slashes, then the loop that joins them.\<close>

fun SegmentsLoop :: "string list \<Rightarrow> string list \<Rightarrow> string list result" where
  "SegmentsLoop [] segments = Inr segments"
| "SegmentsLoop (segment # rest) segments =
     (if segment = ''..'' then Inl (RuntimeError ''Unsafe archive path traversal.'')
      else SegmentsLoop rest (if segment \<noteq> [] \<and> segment \<noteq> ''.'' then segments @ [segment] else segments))"

fun JoinLoop :: "string list \<Rightarrow> string \<Rightarrow> string result" where
  "JoinLoop [] joined = Inr joined"
| "JoinLoop (segment # rest) joined =
     (if CHR '':'' \<in> set segment then Inl (RuntimeError ''Unsafe archive path.'')
      else JoinLoop rest ((if joined \<noteq> [] then joined @ ''/'' else joined) @ segment))"

definition NormalizeSafeArchivePath :: "string \<Rightarrow> string result" where
  "NormalizeSafeArchivePath input =
     (if CHR 0x00 \<in> set input then Inl (RuntimeError ''Unsafe archive path.'')
      else
        let normalized = map (\<lambda>c. if c = CHR 0x5C then CHR ''/'' else c) input in
        if normalized = [] \<or> hd normalized = CHR ''/'' \<or> IsDrivePrefixed normalized
        then Inl (RuntimeError ''Unsafe archive path.'')
        else
          bindE (SegmentsLoop (Split normalized CHR ''/'') []) (\<lambda>segments.
            if segments = [] then Inl (RuntimeError ''Unsafe archive path.'')
            else
              bindE (JoinLoop segments []) (\<lambda>joined.
                if IsDrivePrefixed joined then Inl (RuntimeError ''Unsafe archive path.'') else Inr joined)))"

section \<open>Conflicts\<close>

text \<open>The keys of the map are the paths themselves: \<^verbatim>\<open>ArchiveComparisonKey\<close> changes them on Windows only.\<close>

text \<open>The loop over the parents of a path, with the position of a separator.\<close>

function ParentsLoop :: "string \<Rightarrow> nat \<Rightarrow> (string, bool) std_map \<Rightarrow> unit result" where
  "ParentsLoop path start entries =
     (case find_char CHR ''/'' (drop start path) of
        None \<Rightarrow> Inr ()
      | Some offset \<Rightarrow>
          if map_find entries (take (start + offset) path) = Some False
          then Inl (RuntimeError ''Unsafe duplicate file/directory conflict.'')
          else ParentsLoop path (start + offset + 1) entries)"
  by pat_completeness auto
termination
  by (relation "measure (\<lambda>(path, start, entries). length path - start)") (auto dest: find_char_less)

declare ParentsLoop.simps [simp del]

definition CheckDuplicateConflict :: "string \<Rightarrow> bool \<Rightarrow> (string, bool) std_map \<Rightarrow> (string, bool) std_map result" where
  "CheckDuplicateConflict path directory entries =
     (case map_find entries path of
        Some existing \<Rightarrow>
          if existing \<noteq> directory then Inl (RuntimeError ''Unsafe duplicate file/directory conflict.'')
          else Inl (RuntimeError ''Unsafe duplicate archive entry.'')
      | None \<Rightarrow>
          bindE (ParentsLoop path 0 entries) (\<lambda>_.
          bindE (throw_if (\<not> directory \<and>
              (case find (\<lambda>(key, _). path @ ''/'' \<le> key) entries of
                 None \<Rightarrow> False
               | Some (child, _) \<Rightarrow> starts_with (path @ ''/'') child))
            (RuntimeError ''Unsafe duplicate file/directory conflict.'')) (\<lambda>_.
            Inr (map_emplace path directory entries))))"

section \<open>The check of all entries\<close>

record StagedEntry =
  se_index :: nat
  se_path :: string
  se_directory :: bool
  se_mode :: "32 word"

definition unsafe_type :: "32 word \<Rightarrow> bool" where
  "unsafe_type mode \<longleftrightarrow> (let type = mode AND 0xF000 in type = 0xA000 \<or> (type \<noteq> 0 \<and> type \<noteq> 0x8000 \<and> type \<noteq> 0x4000))"

fun ArchiveScanLoop ::
    "ArchiveLimits \<Rightarrow> ZipStat option list \<Rightarrow> nat \<Rightarrow> 64 word \<Rightarrow> (string, bool) std_map \<Rightarrow> StagedEntry list \<Rightarrow>
     StagedEntry list result" where
  "ArchiveScanLoop limits [] index total_bytes entries staged = Inr staged"
| "ArchiveScanLoop limits (None # stats) index total_bytes entries staged = Inl (RuntimeError ''Unsupported ZIP archive entry.'')"
| "ArchiveScanLoop limits (Some stat # stats) index total_bytes entries staged =
     (if m_is_encrypted stat \<or> \<not> m_is_supported stat then Inl (RuntimeError ''Unsupported ZIP archive entry.'')
      else
        bindE (NormalizeSafeArchivePath (m_filename stat)) (\<lambda>path.
          let mode = drop_bit 16 (m_external_attr stat);
              maximum_total = word_of_int (maximum_uncompressed_bytes limits) in
          if unsafe_type mode then Inl (RuntimeError ''Unsafe symbolic link or hard link archive entry.'')
          else if m_uncomp_size stat > word_of_int (maximum_single_entry_bytes limits)
          then Inl (RuntimeError ''Archive exceeds maximum_single_entry_bytes.'')
          else if m_uncomp_size stat > maximum_total \<or> total_bytes > maximum_total - m_uncomp_size stat
          then Inl (RuntimeError ''Archive exceeds maximum_uncompressed_bytes.'')
          else
            bindE (CheckDuplicateConflict path (m_is_directory stat) entries) (\<lambda>entries.
              ArchiveScanLoop limits stats (index + 1) (total_bytes + m_uncomp_size stat) entries
                (staged @ [\<lparr>se_index = index, se_path = path, se_directory = m_is_directory stat, se_mode = mode\<rparr>]))))"

definition ScanArchive :: "ArchiveLimits \<Rightarrow> ZipArchive \<Rightarrow> StagedEntry list result" where
  "ScanArchive limits archive =
     (let count = length (za_stats archive) in
      if count = 0 \<or> int count > maximum_archive_entries limits
      then Inl (RuntimeError ''Archive exceeds maximum_archive_entries.'')
      else ArchiveScanLoop limits (za_stats archive) 0 0 [] [])"

section \<open>Directories and files\<close>

text \<open>
  What the system permits: making a directory, opening a file, writing at an offset, closing a file, and
  removing an entry. The state is the tree and the permissions that \<^verbatim>\<open>chmod\<close> gave to files; one that fails is
  ignored by the code.
\<close>

record stage_system =
  sy_mkdir :: "fs_path \<Rightarrow> bool"
  sy_open :: "fs_path \<Rightarrow> bool"
  sy_put :: "fs_path \<Rightarrow> 64 word \<Rightarrow> bool"
  sy_close :: "fs_path \<Rightarrow> bool"
  sy_chmod :: "fs_path \<Rightarrow> bool"
  sy_remove :: "fs_path \<Rightarrow> bool"

record stage_state =
  st_fs :: fs_node
  st_modes :: "fs_path \<Rightarrow> 32 word option"

text \<open>\<^verbatim>\<open>mkdir\<close>, and \<^verbatim>\<open>std::filesystem::create_directories\<close> with its error code.\<close>

definition make_directory :: "stage_system \<Rightarrow> fs_node \<Rightarrow> fs_path \<Rightarrow> bool \<times> fs_node" where
  "make_directory sys fs path =
     (case realpath fs (butlast path) of
        None \<Rightarrow> (False, fs)
      | Some parent \<Rightarrow>
          let created = parent @ [last path] in
          if is_directory (fs_at fs parent) \<and> fs_at fs created = None \<and> sy_mkdir sys created
          then (True, fs_put fs created (Some (Fs_Directory []))) else (False, fs))"

function create_directories :: "stage_system \<Rightarrow> fs_node \<Rightarrow> fs_path \<Rightarrow> bool \<times> fs_node" where
  "create_directories sys fs path =
     (case node_at fs path of
        Some node \<Rightarrow> (S_ISDIR node, fs)
      | None \<Rightarrow>
          if path = [] then (False, fs)
          else if last path \<in> {[], ''.'', ''..''} then create_directories sys fs (butlast path)
          else
            (case create_directories sys fs (butlast path) of
               (False, fs) \<Rightarrow> (False, fs)
             | (True, fs) \<Rightarrow> make_directory sys fs path))"
  by pat_completeness auto
termination
  by (relation "measure (\<lambda>(sys, fs, path). length path)") auto

declare create_directories.simps [simp del]

definition MakeParents :: "stage_system \<Rightarrow> fs_path \<Rightarrow> bool \<Rightarrow> fs_node \<Rightarrow> unit result \<times> fs_node" where
  "MakeParents sys path include_last fs =
     (let directory = if include_last then path else butlast path in
      case create_directories sys fs directory of
        (False, fs) \<Rightarrow> (Inl (RuntimeError ''Unable to create staging directory.''), fs)
      | (True, fs) \<Rightarrow>
          (case node_at fs directory of
             Some node \<Rightarrow>
               (if S_ISDIR node then Inr () else Inl (RuntimeError ''Unable to create staging directory.''), fs)
           | None \<Rightarrow> (Inl (RuntimeError ''Unable to create staging directory.''), fs)))"

text \<open>
  Where \<^verbatim>\<open>open\<close> with \<^verbatim>\<open>O_CREAT\<close> finds or makes a file: links are followed, also the last one and one that leads
  nowhere.
\<close>

primrec open_place :: "nat \<Rightarrow> fs_node \<Rightarrow> fs_path \<Rightarrow> fs_path option" where
  "open_place 0 fs path = None"
| "open_place (Suc links) fs path =
     (if path = [] \<or> last path \<in> {[], ''.'', ''..''} then None
      else
        (case realpath fs (butlast path) of
           None \<Rightarrow> None
         | Some parent \<Rightarrow>
             (case fs_at fs (parent @ [last path]) of
                Some (Fs_Symlink target) \<Rightarrow>
                  open_place links fs ((if starts_with ''/'' target then [] else parent) @ Split target CHR ''/'')
              | _ \<Rightarrow> if is_directory (fs_at fs parent) then Some (parent @ [last path]) else None)))"

definition open_truncated :: "stage_system \<Rightarrow> fs_node \<Rightarrow> fs_path \<Rightarrow> (fs_path \<times> fs_node) option" where
  "open_truncated sys fs path =
     (case open_place (Suc SYMLOOP_MAX) fs path of
        None \<Rightarrow> None
      | Some place \<Rightarrow>
          (case fs_at fs place of
             None \<Rightarrow> if sy_open sys place then Some (place, fs_put fs place (Some (Fs_File []))) else None
           | Some (Fs_File _) \<Rightarrow> if sy_open sys place then Some (place, fs_put fs place (Some (Fs_File []))) else None
           | Some _ \<Rightarrow> None))"

text \<open>
  The callback and the calls to it. The stream writes at the end of what it has written; a piece at another
  offset than expected, or one that cannot be written, ends the extraction. The result is whether the
  extraction was successful, and what the file then holds.
\<close>

fun WriteExtractedBytes ::
    "stage_system \<Rightarrow> fs_path \<Rightarrow> 64 word \<Rightarrow> string \<Rightarrow> (64 word \<times> string) list \<Rightarrow> bool \<times> string" where
  "WriteExtractedBytes sys place next_offset contents [] = (True, contents)"
| "WriteExtractedBytes sys place next_offset contents ((offset, bytes) # pieces) =
     (if offset \<noteq> next_offset then (False, contents)
      else if \<not> sy_put sys place offset then (False, contents)
      else WriteExtractedBytes sys place (next_offset + of_nat (length bytes)) (contents @ bytes) pieces)"

definition ExtractEntry :: "stage_system \<Rightarrow> ZipArchive \<Rightarrow> fs_path \<Rightarrow> nat \<Rightarrow> fs_node \<Rightarrow> unit result \<times> fs_node" where
  "ExtractEntry sys archive output index fs =
     (case open_truncated sys fs output of
        None \<Rightarrow> (Inl (RuntimeError ''ZIP extraction failed.''), fs)
      | Some (place, fs) \<Rightarrow>
          (case za_extract archive index of (pieces, result) \<Rightarrow>
           case WriteExtractedBytes sys place 0 [] pieces of (taken, contents) \<Rightarrow>
             (if taken \<and> result \<and> sy_close sys place then Inr ()
              else Inl (RuntimeError ''ZIP extraction failed.''),
              fs_put fs place (Some (Fs_File contents)))))"

definition change_mode :: "stage_system \<Rightarrow> fs_path \<Rightarrow> 32 word \<Rightarrow> stage_state \<Rightarrow> stage_state" where
  "change_mode sys path mode s =
     (case realpath (st_fs s) path of
        None \<Rightarrow> s
      | Some place \<Rightarrow> if sy_chmod sys place then s\<lparr>st_modes := (st_modes s)(place \<mapsto> mode)\<rparr> else s)"

definition entry_place :: "fs_path \<Rightarrow> string \<Rightarrow> fs_path" where
  "entry_place destination path = destination @ Split path CHR ''/''"

definition StageEntry :: "stage_system \<Rightarrow> ZipArchive \<Rightarrow> fs_path \<Rightarrow> StagedEntry \<Rightarrow> stage_state \<Rightarrow> unit result \<times> stage_state" where
  "StageEntry sys archive destination staged s =
     (let output = entry_place destination (se_path staged) in
      case MakeParents sys output (se_directory staged) (st_fs s) of
        (Inl e, fs) \<Rightarrow> (Inl e, s\<lparr>st_fs := fs\<rparr>)
      | (Inr _, fs) \<Rightarrow>
          if se_directory staged then (Inr (), s\<lparr>st_fs := fs\<rparr>)
          else
            (case ExtractEntry sys archive output (se_index staged) fs of
               (Inl e, fs) \<Rightarrow> (Inl e, s\<lparr>st_fs := fs\<rparr>)
             | (Inr _, fs) \<Rightarrow>
                 let s = s\<lparr>st_fs := fs\<rparr> in
                 (Inr (), if se_mode staged AND 0x1FF \<noteq> 0 then change_mode sys output (se_mode staged AND 0x1FF) s else s)))"

fun StageLoop :: "stage_system \<Rightarrow> ZipArchive \<Rightarrow> fs_path \<Rightarrow> StagedEntry list \<Rightarrow> stage_state \<Rightarrow> unit result \<times> stage_state" where
  "StageLoop sys archive destination [] s = (Inr (), s)"
| "StageLoop sys archive destination (staged # rest) s =
     (case StageEntry sys archive destination staged s of
        (Inl e, s) \<Rightarrow> (Inl e, s)
      | (Inr _, s) \<Rightarrow> StageLoop sys archive destination rest s)"

section \<open>Removal\<close>

fun stager_RemoveNode :: "stage_system \<Rightarrow> fs_path \<Rightarrow> fs_node \<Rightarrow> unit result \<times> fs_node option"
and stager_RemoveChildren ::
    "stage_system \<Rightarrow> fs_path \<Rightarrow> (string \<times> fs_node) list \<Rightarrow> unit result \<times> (string \<times> fs_node) list" where
  "stager_RemoveNode sys path (Fs_Directory children) =
     (case stager_RemoveChildren sys path children of
        (Inl e, left) \<Rightarrow> (Inl e, Some (Fs_Directory left))
      | (Inr _, left) \<Rightarrow>
          if left = [] \<and> sy_remove sys path then (Inr (), None)
          else (Inl (RuntimeError ''Unable to clean partial staging directory.''), Some (Fs_Directory left)))"
| "stager_RemoveNode sys path (Fs_Unreadable Fail_lstat) = (Inr (), Some (Fs_Unreadable Fail_lstat))"
| "stager_RemoveNode sys path (Fs_Unreadable Fail_opendir) =
     (Inl (RuntimeError ''Unable to inspect partial staging directory.''), Some (Fs_Unreadable Fail_opendir))"
| "stager_RemoveNode sys path node =
     (if sy_remove sys path then (Inr (), None)
      else (Inl (RuntimeError ''Unable to clean partial staging entry.''), Some node))"
| "stager_RemoveChildren sys path [] = (Inr (), [])"
| "stager_RemoveChildren sys path ((name, node) # rest) =
     (if name = ''.'' \<or> name = ''..'' then
        (case stager_RemoveChildren sys path rest of (r, left) \<Rightarrow> (r, (name, node) # left))
      else
        (case stager_RemoveNode sys (path @ [name]) node of
           (Inl e, None) \<Rightarrow> (Inl e, rest)
         | (Inl e, Some left) \<Rightarrow> (Inl e, (name, left) # rest)
         | (Inr _, None) \<Rightarrow> stager_RemoveChildren sys path rest
         | (Inr _, Some left) \<Rightarrow>
             (case stager_RemoveChildren sys path rest of (r, others) \<Rightarrow> (r, (name, left) # others))))"

text \<open>
  The entry that a path names, with the links of the directories before it followed. The last component is a
  proper name, as it is for the stages that the client creates.
\<close>

definition RemoveStagingDirectory :: "stage_system \<Rightarrow> fs_path \<Rightarrow> fs_node \<Rightarrow> unit result \<times> fs_node" where
  "RemoveStagingDirectory sys path fs =
     (case realpath fs (butlast path) of
        None \<Rightarrow> (Inr (), fs)
      | Some parent \<Rightarrow>
          let place = parent @ [last path] in
          (case fs_at fs place of
             None \<Rightarrow> (Inr (), fs)
           | Some node \<Rightarrow> (case stager_RemoveNode sys place node of (r, left) \<Rightarrow> (r, fs_put fs place left))))"

section \<open>Staging\<close>

definition StageChecked :: "stage_system \<Rightarrow> ZipArchive \<Rightarrow> fs_path \<Rightarrow> ArchiveLimits \<Rightarrow> stage_state \<Rightarrow> unit result \<times> stage_state" where
  "StageChecked sys archive destination limits s =
     (case ScanArchive limits archive of
        Inl e \<Rightarrow> (Inl e, s)
      | Inr staged \<Rightarrow>
          (case MakeParents sys destination True (st_fs s) of
             (Inl e, fs) \<Rightarrow> (Inl e, s\<lparr>st_fs := fs\<rparr>)
           | (Inr _, fs) \<Rightarrow> StageLoop sys archive destination staged (s\<lparr>st_fs := fs\<rparr>)))"

text \<open>No archive is one that the reader cannot open. What the clean-up throws is caught.\<close>

definition StageZipArchive ::
    "stage_system \<Rightarrow> ZipArchive option \<Rightarrow> fs_path \<Rightarrow> ArchiveLimits \<Rightarrow> stage_state \<Rightarrow> unit result \<times> stage_state" where
  "StageZipArchive sys archive destination limits s =
     (if maximum_archive_entries limits \<le> 0 \<or> maximum_uncompressed_bytes limits \<le> 0 \<or>
         maximum_single_entry_bytes limits \<le> 0
      then (Inl (InvalidArgument ''Archive limits must be positive.''), s)
      else
        (case archive of
           None \<Rightarrow> (Inl (RuntimeError ''Unable to open ZIP archive.''), s)
         | Some archive \<Rightarrow>
             (case StageChecked sys archive destination limits s of
                (Inl e, s) \<Rightarrow> (Inl e, s\<lparr>st_fs := snd (RemoveStagingDirectory sys destination (st_fs s))\<rparr>)
              | (Inr _, s) \<Rightarrow> (Inr (), s))))"

end
