(* ===== verification/Artifact_Names.thy ===== *)
theory Artifact_Names
  imports Artifact_Staging
begin

text \<open>
  What the check of an archive establishes before anything is written: names that stay below the destination,
  no two entries that get in each other's way, and sizes within the limits.
\<close>

section \<open>Names\<close>

definition safe_name :: "string \<Rightarrow> bool" where
  "safe_name s \<longleftrightarrow> s \<notin> {[], ''.'', ''..''} \<and> set s \<inter> {CHR ''/'', CHR 0x5C, CHR '':'', CHR 0x00} = {}"

definition safe_path :: "string \<Rightarrow> bool" where
  "safe_path path \<longleftrightarrow> (\<forall>name \<in> set (Split path CHR ''/''). safe_name name)"

lemma SegmentsLoop_iff:
  "SegmentsLoop xs acc = Inr segments \<longleftrightarrow>
     ''..'' \<notin> set xs \<and> segments = acc @ filter (\<lambda>s. s \<noteq> [] \<and> s \<noteq> ''.'') xs"
  by (induction xs arbitrary: acc) auto

lemma JoinLoop_iff:
  assumes "[] \<notin> set xs"
  shows "JoinLoop xs joined = Inr r \<longleftrightarrow> (\<forall>s \<in> set xs. CHR '':'' \<notin> set s) \<and>
     r = (if joined = [] then join_with CHR ''/'' xs else if xs = [] then joined else joined @ CHR ''/'' # join_with CHR ''/'' xs)"
  using assms
proof (induction xs arbitrary: joined)
  case (Cons x xs)
  then show ?case by (cases "xs = []") auto
qed auto

lemma safe_path_join:
  assumes "segments \<noteq> []" and "\<forall>s \<in> set segments. safe_name s"
  shows "safe_path (join_with CHR ''/'' segments)"
proof -
  have "Split (join_with CHR ''/'' segments) CHR ''/'' = segments"
    using assms by (intro Split_join) (auto simp: safe_name_def)
  then show ?thesis using assms(2) by (simp add: safe_path_def)
qed

lemma Normalize_safe:
  assumes "NormalizeSafeArchivePath input = Inr path"
  shows "safe_path path"
proof -
  let ?n = "map (\<lambda>c. if c = CHR 0x5C then CHR ''/'' else c) input"
  define segments where "segments = filter (\<lambda>s. s \<noteq> [] \<and> s \<noteq> ''.'') (Split ?n CHR ''/'')"
  have nul: "CHR 0x00 \<notin> set input" and dots: "''..'' \<notin> set (Split ?n CHR ''/'')" and some: "segments \<noteq> []"
    and joined: "JoinLoop segments [] = Inr path"
    using assms
    by (auto simp: NormalizeSafeArchivePath_def Let_def SegmentsLoop_iff bindE_Inr_iff segments_def split: if_splits)
  have colon: "\<forall>s \<in> set segments. CHR '':'' \<notin> set s" and path: "path = join_with CHR ''/'' segments"
    using joined by (auto simp: JoinLoop_iff segments_def)
  have "safe_name s" if "s \<in> set segments" for s
  proof -
    have s: "s \<in> set (Split ?n CHR ''/'')" using that by (simp add: segments_def)
    have "CHR 0x5C \<notin> set ?n" "CHR 0x00 \<notin> set ?n" using nul by (auto split: if_splits)
    then show ?thesis
      using that dots colon Split_no_sep [OF s] set_Split [OF s] by (auto simp: safe_name_def segments_def)
  qed
  then show ?thesis using safe_path_join [OF some] path by simp
qed

lemma Normalize_fixed:
  assumes "safe_path path"
  shows "NormalizeSafeArchivePath path = Inr path"
proof -
  let ?xs = "Split path CHR ''/''"
  have names: "safe_name x" if "x \<in> set ?xs" for x using assms that by (simp add: safe_path_def)
  have parts: "c = CHR ''/'' \<or> (\<exists>x \<in> set ?xs. c \<in> set x)" if "c \<in> set path" for c
    using that set_join_with [of "CHR ''/''" ?xs] by auto
  have clean: "CHR 0x5C \<notin> set path" "CHR 0x00 \<notin> set path" "CHR '':'' \<notin> set path"
    using parts names by (auto simp: safe_name_def)
  have same: "map (\<lambda>c. if c = CHR 0x5C then CHR ''/'' else c) path = path"
    using clean(1) by (intro map_idI) auto
  obtain x xs where xs: "?xs = x # xs" by (cases ?xs) auto
  then have "safe_name x" using names by simp
  moreover have "path = join_with CHR ''/'' (x # xs)" using join_Split [of "CHR ''/''" path] xs by simp
  ultimately have head: "path \<noteq> []" "hd path \<noteq> CHR ''/''" by (cases x; auto simp: safe_name_def)+
  have drive: "\<not> IsDrivePrefixed path"
    using clean(3) by (metis IsDrivePrefixed_def One_nat_def Suc_1 Suc_le_eq nth_mem)
  have "filter (\<lambda>s. s \<noteq> [] \<and> s \<noteq> ''.'') ?xs = ?xs" "''..'' \<notin> set ?xs" "[] \<notin> set ?xs" "\<forall>s \<in> set ?xs. CHR '':'' \<notin> set s"
    using names by (auto simp: filter_id_conv safe_name_def)
  then have "SegmentsLoop ?xs [] = Inr ?xs" "JoinLoop ?xs [] = Inr path"
    by (auto simp: SegmentsLoop_iff JoinLoop_iff)
  then show ?thesis using clean(2) head drive by (simp add: NormalizeSafeArchivePath_def same)
qed

section \<open>Paths as lists of names\<close>

lemma Split_append_sep: "Split (a @ c # b) c = Split a c @ Split b c"
proof (induction a c rule: Split.induct)
  case (1 a c)
  show ?case
  proof (cases "find_char c a")
    case None
    then show ?thesis by (simp add: find_char_None_iff Split_append Split_no_occurrence)
  next
    case (Some n)
    note a = find_char_SomeD [OF Some]
    have "Split (a @ c # b) c = Split (take n a @ c # (drop (Suc n) a @ c # b)) c" by (subst a(1)) simp
    also have "\<dots> = take n a # Split (drop (Suc n) a @ c # b) c" by (rule Split_append [OF a(2)])
    also have "\<dots> = take n a # Split (drop (Suc n) a) c @ Split b c" using 1 [OF Some] by simp
    also have "\<dots> = Split a c @ Split b c" by (simp add: Split.simps [of a c] Some)
    finally show ?thesis by (simp only: append_Cons)
  qed
qed

lemma join_append: "xs \<noteq> [] \<Longrightarrow> ys \<noteq> [] \<Longrightarrow> join_with c (xs @ ys) = join_with c xs @ c # join_with c ys"
  by (induction xs) auto

lemma prefix_Split: "prefix (Split a c) (Split b c) \<longleftrightarrow> a = b \<or> starts_with (a @ [c]) b"
proof
  assume "prefix (Split a c) (Split b c)"
  then obtain r where r: "Split b c = Split a c @ r" by (auto simp: prefix_def)
  show "a = b \<or> starts_with (a @ [c]) b"
  proof (cases "r = []")
    case True
    then show ?thesis using r join_Split [of c a] join_Split [of c b] by simp
  next
    case False
    then have "b = a @ c # join_with c r"
      using r join_Split [of c b] join_append [of "Split a c" r c] by simp
    then show ?thesis by (simp add: starts_with_iff)
  qed
qed (auto simp: starts_with_iff Split_append_sep)

section \<open>Conflicts\<close>

lemma ParentsLoop_iff:
  "ParentsLoop path start m = Inr () \<longleftrightarrow>
     (\<forall>n. start \<le> n \<longrightarrow> n < length path \<longrightarrow> path ! n = CHR ''/'' \<longrightarrow> map_find m (take n path) \<noteq> Some False)"
proof (induction path start m rule: ParentsLoop.induct)
  case (1 path start m)
  show ?case
  proof (cases "find_char CHR ''/'' (drop start path)")
    case None
    then have "path ! n \<noteq> CHR ''/''" if "start \<le> n" "n < length path" for n
    proof -
      have "drop start path ! (n - start) \<in> set (drop start path)" using that by (intro nth_mem) simp
      then show ?thesis using that None by (auto simp: find_char_None_iff)
    qed
    then show ?thesis using None by (auto simp: ParentsLoop.simps [of path])
  next
    case (Some k)
    then have k: "k < length path - start" "path ! (start + k) = CHR ''/''" "CHR ''/'' \<notin> set (take k (drop start path))"
      by (auto simp: find_char_Some_iff)
    have before: "path ! n \<noteq> CHR ''/''" if "start \<le> n" "n < start + k" for n
    proof -
      have "take k (drop start path) ! (n - start) \<in> set (take k (drop start path))"
        using that k(1) by (intro nth_mem) auto
      moreover have "take k (drop start path) ! (n - start) = path ! n" using that k(1) by simp
      ultimately show ?thesis using k(3) by auto
    qed
    have "(\<forall>n. start \<le> n \<longrightarrow> n < length path \<longrightarrow> path ! n = CHR ''/'' \<longrightarrow> map_find m (take n path) \<noteq> Some False) \<longleftrightarrow>
        map_find m (take (start + k) path) \<noteq> Some False \<and>
        (\<forall>n. start + k + 1 \<le> n \<longrightarrow> n < length path \<longrightarrow> path ! n = CHR ''/'' \<longrightarrow> map_find m (take n path) \<noteq> Some False)"
      (is "?all \<longleftrightarrow> ?here \<and> ?rest")
    proof
      assume ?all
      then show "?here \<and> ?rest" using k(1,2) by auto
    next
      assume r: "?here \<and> ?rest"
      show ?all
      proof (intro allI impI)
        fix n assume n: "start \<le> n" "n < length path" "path ! n = CHR ''/''"
        then have "\<not> n < start + k" using before by blast
        then show "map_find m (take n path) \<noteq> Some False" using r n by (cases "n = start + k") auto
      qed
    qed
    then show ?thesis using 1 [OF Some] Some by (simp add: ParentsLoop.simps [of path])
  qed
qed

text \<open>The keys that start with a given text follow its lower bound.\<close>

lemma between_starts_with: "p \<le> c \<Longrightarrow> c \<le> p @ t \<Longrightarrow> starts_with p (c :: string)"
proof (induction p arbitrary: c)
  case (Cons a p)
  then show ?case by (cases c) auto
qed simp

lemma starts_with_le: "starts_with p c \<Longrightarrow> p \<le> (c :: string)"
  by (induction p arbitrary: c) auto

lemma lower_bound_starts_with:
  assumes "sorted_keys m"
  shows "(case find (\<lambda>(key, _). p \<le> key) m of None \<Rightarrow> False | Some (child, _) \<Rightarrow> starts_with p child) \<longleftrightarrow>
     (\<exists>key \<in> fst ` set m. starts_with p (key :: string))"
  using assms
proof (induction m)
  case (Cons kv m)
  obtain k v where kv: "kv = (k, v)" by (cases kv)
  show ?case
  proof (cases "p \<le> k")
    case True
    have "starts_with p k" if "key \<in> fst ` set m" "starts_with p key" for key
    proof -
      have "k < key" using that(1) Cons.prems by (auto simp: kv sorted_keys_Cons)
      then have "k \<le> key" by simp
      then show ?thesis using that(2) True between_starts_with [of p k] unfolding starts_with_iff by blast
    qed
    then show ?thesis using True by (auto simp: kv)
  next
    case False
    then have "\<not> starts_with p k" using starts_with_le by blast
    then show ?thesis using Cons False by (auto simp: kv sorted_keys_Cons)
  qed
qed simp

text \<open>An entry is compatible with the others when neither is a file above the other.\<close>

definition compatible :: "string \<Rightarrow> bool \<Rightarrow> string \<Rightarrow> bool \<Rightarrow> bool" where
  "compatible path directory other other_directory \<longleftrightarrow> path \<noteq> other \<and>
     (\<not> directory \<longrightarrow> \<not> prefix (Split path CHR ''/'') (Split other CHR ''/'')) \<and>
     (\<not> other_directory \<longrightarrow> \<not> prefix (Split other CHR ''/'') (Split path CHR ''/''))"

lemma CheckDuplicateConflict_iff:
  assumes "sorted_keys m"
  shows "CheckDuplicateConflict path directory m = Inr m' \<longleftrightarrow>
    m' = map_emplace path directory m \<and> (\<forall>(other, other_directory) \<in> set m. compatible path directory other other_directory)"
proof -
  have found: "map_find m k = Some v \<longleftrightarrow> (k, v) \<in> set m" for k v
    using assms by (simp add: map_find_def sorted_keys_def strict_sorted_iff)
  have present: "map_find m k = None \<longleftrightarrow> k \<notin> fst ` set m" for k by (simp add: map_find_def map_of_eq_None_iff)
  have parents: "ParentsLoop path 0 m = Inr () \<longleftrightarrow> (\<forall>other. (other, False) \<in> set m \<longrightarrow> \<not> starts_with (other @ ''/'') path)"
  proof -
    have "(\<exists>n < length path. path ! n = CHR ''/'' \<and> take n path = other) \<longleftrightarrow> starts_with (other @ ''/'') path" for other
    proof
      assume "\<exists>n < length path. path ! n = CHR ''/'' \<and> take n path = other"
      then show "starts_with (other @ ''/'') path" by (auto simp: starts_with_iff) (metis id_take_nth_drop)
    next
      assume "starts_with (other @ ''/'') path"
      then obtain t where "path = other @ CHR ''/'' # t" by (auto simp: starts_with_iff)
      then show "\<exists>n < length path. path ! n = CHR ''/'' \<and> take n path = other"
        by (intro exI [of _ "length other"]) simp
    qed
    then show ?thesis unfolding ParentsLoop_iff by (metis found le0)
  qed
  define inside where "inside \<longleftrightarrow> (\<exists>key \<in> fst ` set m. starts_with (path @ ''/'') key)"
  define above where "above \<longleftrightarrow> (\<exists>other. (other, False) \<in> set m \<and> starts_with (other @ ''/'') path)"
  have "CheckDuplicateConflict path directory m = Inr m' \<longleftrightarrow>
      path \<notin> fst ` set m \<and> \<not> above \<and> (directory \<or> \<not> inside) \<and> m' = map_emplace path directory m"
    unfolding CheckDuplicateConflict_def lower_bound_starts_with [OF assms]
    using parents present [of path] by (auto simp: bindE_Inr_iff throw_if_Inr_iff inside_def above_def split: option.splits if_splits)
  also have "\<dots> \<longleftrightarrow> m' = map_emplace path directory m \<and> (\<forall>(other, other_directory) \<in> set m. compatible path directory other other_directory)"
    unfolding compatible_def prefix_Split inside_def above_def by (force simp: image_iff)
  finally show ?thesis .
qed

section \<open>Accepted archives\<close>

definition compatible_entries :: "StagedEntry \<Rightarrow> StagedEntry \<Rightarrow> bool" where
  "compatible_entries a b \<longleftrightarrow> compatible (se_path a) (se_directory a) (se_path b) (se_directory b)"

definition accepted :: "StagedEntry list \<Rightarrow> bool" where
  "accepted staged \<longleftrightarrow> (\<forall>e \<in> set staged. safe_path (se_path e)) \<and> sorted_wrt compatible_entries staged"

text \<open>What an entry of the archive becomes.\<close>

definition staged_as :: "ArchiveLimits \<Rightarrow> ZipStat option \<Rightarrow> StagedEntry \<Rightarrow> bool" where
  "staged_as limits stat e \<longleftrightarrow> (\<exists>s. stat = Some s \<and> \<not> m_is_encrypted s \<and> m_is_supported s \<and>
     NormalizeSafeArchivePath (m_filename s) = Inr (se_path e) \<and> se_directory e = m_is_directory s \<and>
     se_mode e = drop_bit 16 (m_external_attr s) \<and> \<not> unsafe_type (se_mode e) \<and>
     m_uncomp_size s \<le> word_of_int (maximum_single_entry_bytes limits))"

definition stat_size :: "ZipStat option \<Rightarrow> nat" where
  "stat_size stat = (case stat of None \<Rightarrow> 0 | Some s \<Rightarrow> unat (m_uncomp_size s))"

lemma add_within:
  fixes a b c :: "64 word"
  assumes "b \<le> c" and "a \<le> c - b"
  shows "unat (a + b) = unat a + unat b" and "a + b \<le> c"
proof -
  have "unat a \<le> unat c - unat b" using assms by (metis unat_sub word_le_nat_alt)
  then have sum: "unat a + unat b \<le> unat c" using assms(1) by (simp add: word_le_nat_alt)
  then show "unat (a + b) = unat a + unat b"
    using unsigned_less [of c, where ?'a = nat] by (simp add: unat_add_lem [symmetric])
  with sum show "a + b \<le> c" by (simp add: word_le_nat_alt)
qed

lemma ArchiveScanLoop_accepted:
  assumes "ArchiveScanLoop limits stats index total_bytes entries staged = Inr r"
    and "sorted_keys entries" and "set entries = (\<lambda>e. (se_path e, se_directory e)) ` set staged" and "accepted staged"
    and "total_bytes \<le> word_of_int (maximum_uncompressed_bytes limits)"
  shows "\<exists>new. r = staged @ new \<and> accepted r \<and> map se_index new = [index..<index + length stats] \<and>
    list_all2 (staged_as limits) stats new \<and>
    unat total_bytes + sum_list (map stat_size stats) \<le> unat (word_of_int (maximum_uncompressed_bytes limits) :: 64 word)"
  using assms
proof (induction limits stats index total_bytes entries staged rule: ArchiveScanLoop.induct)
  case (1 limits index total_bytes entries staged)
  then show ?case by (simp add: word_le_nat_alt)
next
  case (3 limits stat stats index total_bytes entries staged)
  let ?max = "word_of_int (maximum_uncompressed_bytes limits) :: 64 word"
  let ?e = "\<lambda>path. \<lparr>se_index = index, se_path = path, se_directory = m_is_directory stat, se_mode = drop_bit 16 (m_external_attr stat)\<rparr>"
  obtain path entries' where ok: "\<not> m_is_encrypted stat" "m_is_supported stat"
    and path: "NormalizeSafeArchivePath (m_filename stat) = Inr path"
    and type: "\<not> unsafe_type (drop_bit 16 (m_external_attr stat))"
    and single: "m_uncomp_size stat \<le> word_of_int (maximum_single_entry_bytes limits)"
    and sum: "m_uncomp_size stat \<le> ?max" "total_bytes \<le> ?max - m_uncomp_size stat"
    and check: "CheckDuplicateConflict path (m_is_directory stat) entries = Inr entries'"
    and rest: "ArchiveScanLoop limits stats (index + 1) (total_bytes + m_uncomp_size stat) entries' (staged @ [?e path]) = Inr r"
    using "3.prems"(1) by (auto simp: bindE_Inr_iff Let_def not_less split: if_splits)
  have fresh: "entries' = map_emplace path (m_is_directory stat) entries"
      "\<forall>(other, other_directory) \<in> set entries. compatible path (m_is_directory stat) other other_directory"
    using check unfolding CheckDuplicateConflict_iff [OF "3.prems"(2)] by auto
  have "accepted (staged @ [?e path])"
    using "3.prems"(3,4) fresh(2) Normalize_safe [OF path]
    by (auto simp: accepted_def sorted_wrt_append compatible_entries_def compatible_def)
  moreover have "path \<notin> fst ` set entries" using fresh(2) by (auto simp: compatible_def)
  then have "set entries' = insert (path, m_is_directory stat) (set entries)"
    unfolding fresh(1) by (induction path "m_is_directory stat" entries rule: map_emplace.induct) auto
  then have "set entries' = (\<lambda>e. (se_path e, se_directory e)) ` set (staged @ [?e path])" using "3.prems"(3) by auto
  moreover have "sorted_keys entries'" unfolding fresh(1) by (rule sorted_map_emplace [OF "3.prems"(2)])
  ultimately have "\<exists>new. r = (staged @ [?e path]) @ new \<and> accepted r \<and> map se_index new = [index + 1..<index + 1 + length stats] \<and>
      list_all2 (staged_as limits) stats new \<and>
      unat (total_bytes + m_uncomp_size stat) + sum_list (map stat_size stats) \<le> unat ?max"
    using ok type single sum add_within(2) [OF sum]
    by (intro "3.IH" [OF _ path refl refl _ _ _ check rest]) (simp_all only: not_less simp_thms de_Morgan_disj)
  then obtain new where new: "r = (staged @ [?e path]) @ new" "accepted r" "map se_index new = [index + 1..<index + 1 + length stats]"
      "list_all2 (staged_as limits) stats new"
      "unat (total_bytes + m_uncomp_size stat) + sum_list (map stat_size stats) \<le> unat ?max"
    by blast
  have "r = staged @ ?e path # new" using new(1) by simp
  moreover have "map se_index (?e path # new) = [index..<index + length (Some stat # stats)]"
    using new(3) by (simp add: upt_conv_Cons del: upt_Suc)
  moreover have "staged_as limits (Some stat) (?e path)" using ok path type single by (simp add: staged_as_def)
  moreover have "stat_size (Some stat) = unat (m_uncomp_size stat)" by (simp add: stat_size_def)
  ultimately show ?case
    using new(2,4,5) add_within(1) [OF sum] by (intro exI [of _ "?e path # new"]) (simp add: add.assoc del: upt_Suc)
qed simp

lemma ScanArchive_accepted:
  assumes "ScanArchive limits archive = Inr staged"
  shows "accepted staged" and "map se_index staged = [0..<length (za_stats archive)]"
    and "list_all2 (staged_as limits) (za_stats archive) staged"
    and "int (length staged) \<le> maximum_archive_entries limits"
    and "sum_list (map stat_size (za_stats archive)) \<le> unat (word_of_int (maximum_uncompressed_bytes limits) :: 64 word)"
proof -
  have count: "int (length (za_stats archive)) \<le> maximum_archive_entries limits"
    and run: "ArchiveScanLoop limits (za_stats archive) 0 0 [] [] = Inr staged"
    using assms by (auto simp: ScanArchive_def Let_def split: if_splits)
  have "accepted []" by (simp add: accepted_def)
  from ArchiveScanLoop_accepted [OF run _ _ this]
  show "accepted staged" "map se_index staged = [0..<length (za_stats archive)]"
    and all: "list_all2 (staged_as limits) (za_stats archive) staged"
    and "sum_list (map stat_size (za_stats archive)) \<le> unat (word_of_int (maximum_uncompressed_bytes limits) :: 64 word)"
    by auto
  show "int (length staged) \<le> maximum_archive_entries limits" using count list_all2_lengthD [OF all] by simp
qed

end
