(* ===== verification/Artifact_Safety.thy ===== *)
theory Artifact_Safety
  imports Artifact_Names
begin

text \<open>
  What unpacking an archive does to the file system, for a destination without links, which may hold entries already: nothing outside of it
  changes, a run that returns leaves the entries of the archive there and the others as they were, and one that fails after
  it began removes the destination. A link in the destination would be followed.
\<close>

section \<open>Trees without links\<close>

definition proper :: "fs_path \<Rightarrow> bool" where
  "proper path \<longleftrightarrow> list_all (\<lambda>name. name \<notin> {[], ''.'', ''..''}) path"

lemma proper_simps [simp]:
  "proper []" "proper (name # path) \<longleftrightarrow> name \<notin> {[], ''.'', ''..''} \<and> proper path"
  "proper (p @ q) \<longleftrightarrow> proper p \<and> proper q"
  by (auto simp: proper_def)

lemma proper_butlast: "proper p \<Longrightarrow> proper (butlast p)"
  by (auto simp: proper_def list_all_iff dest: in_set_butlastD)

fun plain_node :: "fs_node \<Rightarrow> bool" where
  "plain_node (Fs_Directory children) = (\<forall>kv \<in> set children. fst kv \<notin> {[], ''.'', ''..''} \<and> plain_node (snd kv))"
| "plain_node (Fs_File _) = True"
| "plain_node _ = False"

lemma set_update: "set (AList.update k v al) \<subseteq> insert (k, v) (set al)"
  by (induction al) auto

lemma set_delete: "set (AList.delete k al) \<subseteq> set al"
  by (auto simp: AList.delete_eq)

lemma plain_child: "plain_node (Fs_Directory children) \<Longrightarrow> map_of children name = Some c \<Longrightarrow> plain_node c"
  by (force dest: map_of_SomeD)

lemma plain_at: "plain_node n \<Longrightarrow> fs_at n q = Some m \<Longrightarrow> plain_node m"
proof (induction n q rule: fs_at.induct)
  case (2 children name path)
  then show ?case by (auto simp del: plain_node.simps dest: plain_child split: option.splits)
qed auto

lemma plain_update:
  assumes "plain_node (Fs_Directory children)" and "plain_node new" and "name \<notin> {[], ''.'', ''..''}"
  shows "plain_node (Fs_Directory (AList.update name new children))"
proof -
  have "fst kv \<notin> {[], ''.'', ''..''} \<and> plain_node (snd kv)" if "kv \<in> set (AList.update name new children)" for kv
    using that set_update [of name new children] assms by auto
  then show ?thesis by simp
qed

lemma plain_put:
  assumes "plain_node n" and "proper q" and "\<And>m. v = Some m \<Longrightarrow> plain_node m"
  shows "plain_node (fs_put n q v)"
  using assms
proof (induction q arbitrary: n)
  case (Cons name q)
  show ?case
  proof (cases n)
    case (Fs_Directory children)
    have name: "name \<notin> {[], ''.'', ''..''}" using Cons.prems(2) by simp
    note update = plain_update [OF Cons.prems(1) [unfolded Fs_Directory] _ name]
    have gone: "plain_node (Fs_Directory (AList.delete name children))"
      using Cons.prems(1) set_delete [of name children] by (auto simp: Fs_Directory)
    show ?thesis
    proof (cases "q = []")
      case True
      then show ?thesis using update gone Cons.prems(3) by (simp add: Fs_Directory del: plain_node.simps split: option.split)
    next
      case False
      show ?thesis
      proof (cases "map_of children name")
        case None
        then show ?thesis using False Cons.prems(1) by (simp add: Fs_Directory del: plain_node.simps)
      next
        case (Some c)
        then have "plain_node (fs_put c q v)"
          using Cons.IH [of c] plain_child [of children name c] Cons.prems by (simp add: Fs_Directory del: plain_node.simps)
        then show ?thesis using False Some update by (simp add: Fs_Directory del: plain_node.simps)
      qed
    qed
  qed (use Cons in simp_all)
qed simp

text \<open>What an entry is, without the entries of a directory.\<close>

definition shape :: "fs_node option \<Rightarrow> fs_node option" where
  "shape node = (case node of Some (Fs_Directory _) \<Rightarrow> Some (Fs_Directory []) | other \<Rightarrow> other)"

lemma shape_simps [simp]:
  "shape None = None" "shape (Some (Fs_File b)) = Some (Fs_File b)" "shape (Some (Fs_Directory cs)) = Some (Fs_Directory [])"
  by (simp_all add: shape_def)

lemma shape_None [simp]: "shape x = None \<longleftrightarrow> x = None"
  by (auto simp: shape_def split: option.splits fs_node.splits)

lemma shape_directory: "shape x = Some (Fs_Directory []) \<longleftrightarrow> is_directory x"
  by (auto simp: shape_def is_directory_def split: option.splits fs_node.splits)

lemma shape_file: "shape x = Some (Fs_File b) \<longleftrightarrow> x = Some (Fs_File b)"
  by (auto simp: shape_def split: option.splits fs_node.splits)

lemma directory_above:
  assumes "is_directory (fs_at n p)" and "prefix q p"
  shows "is_directory (fs_at n q)"
proof -
  obtain r where r: "p = q @ r" using assms(2) by (auto simp: prefix_def)
  then obtain m where m: "fs_at n q = Some m" "is_directory (fs_at m r)"
    using assms(1) by (auto simp: fs_at_append is_directory_def split: option.splits)
  then show ?thesis by (cases r; cases m) (auto simp: is_directory_def)
qed

lemma shape_put:
  assumes "is_directory (fs_at n (butlast p))" and "p \<noteq> []" and "v = Fs_Directory [] \<or> v = Fs_File b"
  shows "shape (fs_at (fs_put n p (Some v)) q) = (if q = p then Some v else if prefix p q then None else shape (fs_at n q))"
proof -
  have at: "fs_at (fs_put n p (Some v)) p = Some v" using assms(1,2) by (rule tree.look_changed)
  consider "q = p" | "strict_prefix p q" | "strict_prefix q p" | "apart p q"
    by (auto simp: apart_def strict_prefix_def)
  then show ?thesis
  proof cases
    case 2
    then obtain x r where "q = p @ x # r" by (rule strict_prefixE')
    then have "fs_at (fs_put n p (Some v)) q = None" using at assms(3) by (auto simp: fs_at_append)
    with 2 show ?thesis by (auto simp: strict_prefix_def)
  next
    case 3
    then have "prefix q (butlast p)" using assms(2) by (metis append_butlast_last_id prefix_snoc strict_prefix_def)
    then have "is_directory (fs_at n q)" by (rule directory_above [OF assms(1)])
    with 3 show ?thesis
      using tree.look_above [OF 3, of n "Some v"] shape_directory by (metis prefix_order.less_le_not_le)
  qed (use at assms(3) in \<open>auto simp: tree.look_apart apart_def\<close>)
qed

section \<open>The tree at the destination\<close>

lemma fs_put_twice: "fs_put (fs_put fs d (Some a)) d v = fs_put fs d v"
proof (induction d arbitrary: fs)
  case (Cons name path)
  then show ?case
    by (cases fs) (auto simp: update_conv' delete_update_same split: option.splits)
qed simp

lemma fs_put_inside:
  "fs_at fs d = Some n \<Longrightarrow> d \<noteq> [] \<Longrightarrow> q \<noteq> [] \<Longrightarrow> fs_put fs (d @ q) v = fs_put fs d (Some (fs_put n q v))"
proof (induction d arbitrary: fs)
  case (Cons name path)
  then show ?case by (cases fs) (auto split: option.splits)
qed simp

lemma fs_put_same: "fs_at fs d = Some n \<Longrightarrow> fs_put fs d (Some n) = fs"
proof (induction d arbitrary: fs)
  case (Cons name path)
  then show ?case by (cases fs) (auto simp: AList.update_triv split: option.splits)
qed simp

text \<open>A place for the destination, and the file system with a tree at this place.\<close>

definition place_for :: "fs_node \<Rightarrow> fs_path \<Rightarrow> bool" where
  "place_for fs d \<longleftrightarrow> d \<noteq> [] \<and> real_directory fs (butlast d) \<and> last d \<notin> {[], ''.'', ''..''}"

abbreviation placed :: "fs_node \<Rightarrow> fs_path \<Rightarrow> fs_node \<Rightarrow> fs_node" where
  "placed fs d n \<equiv> fs_put fs d (Some n)"

definition good_tree :: "fs_node \<Rightarrow> bool" where
  "good_tree n \<longleftrightarrow> is_directory (Some n) \<and> plain_node n"

lemma placed_at:
  assumes "place_for fs d"
  shows "fs_at (placed fs d n) (d @ q) = fs_at n q"
proof -
  have "fs_at (placed fs d n) d = Some n"
    using assms by (intro tree.look_changed) (auto simp: place_for_def real_directory_at)
  then show ?thesis by (simp add: fs_at_append)
qed

lemma placed_put: "place_for fs d \<Longrightarrow> q \<noteq> [] \<Longrightarrow> fs_put (placed fs d n) (d @ q) v = placed fs d (fs_put n q v)"
  using placed_at [of fs d n "[]"] by (simp add: fs_put_inside place_for_def fs_put_twice)

lemma strict_prefix_butlast: "d \<noteq> [] \<Longrightarrow> strict_prefix (butlast d) d"
  by (metis append_butlast_last_id strict_prefixI')

lemma placed_parent: "place_for fs d \<Longrightarrow> real_directory (fs_put fs d v) (butlast d)"
  by (simp add: place_for_def real_directory_put strict_prefix_butlast)

lemma placed_real:
  assumes "place_for fs d" and "good_tree n"
  shows "real_directory (placed fs d n) d"
proof -
  have d: "butlast d @ [last d] = d" using assms(1) by (simp add: place_for_def)
  have "real_directory (placed fs d n) (butlast d @ [last d])"
    unfolding real_directory_snoc unfolding d
    using placed_parent [OF assms(1)] placed_at [OF assms(1), of n "[]"] assms by (simp add: good_tree_def place_for_def)
  then show ?thesis unfolding d .
qed

lemma resolve_links_real_append:
  assumes "list_all (\<lambda>name. name \<notin> {[], ''.'', ''..''}) p" and "\<forall>q. prefix q (r @ p) \<longrightarrow> is_directory (fs_at fs q)"
  shows "resolve_links links fs r (p @ path) = resolve_links links fs (r @ p) path"
  using assms
proof (induction p arbitrary: r)
  case (Cons name p)
  have "prefix (r @ [name]) (r @ name # p)" by simp
  with Cons.prems(2) obtain cs where "fs_at fs (r @ [name]) = Some (Fs_Directory cs)"
    unfolding is_directory_def by blast
  with Cons.IH [of "r @ [name]"] Cons.prems show ?case by simp
qed simp

lemma resolve_links_plain:
  assumes "fs_at fs r = Some m" and "plain_node m" and "proper q"
  shows "resolve_links links fs r q = (if fs_at m q = None then None else Some (r @ q))"
  using assms
proof (induction q arbitrary: r m)
  case (Cons name q)
  have at: "fs_at fs (r @ [name]) = fs_at m [name]" by (simp add: fs_at_append Cons.prems(1))
  show ?case
  proof (cases "fs_at m [name]")
    case None
    then have "fs_at m (name # q) = None" using tree.look_inside [of m "[name]" "name # q"] by simp
    then show ?thesis using None at Cons.prems(3) by simp
  next
    case (Some c)
    then have c: "plain_node c" by (rule plain_at [OF Cons.prems(2)])
    have "fs_at m (name # q) = fs_at c q" using fs_at_append [of m "[name]" q] Some by simp
    then show ?thesis using Cons.IH [of "r @ [name]" c] at Some c Cons.prems(3) by (cases c) auto
  qed
qed simp

lemma placed_realpath:
  assumes "place_for fs d" and "good_tree n" and "proper q"
  shows "realpath (placed fs d n) (d @ q) = (if fs_at n q = None then None else Some (d @ q))"
    and "node_at (placed fs d n) (d @ q) = fs_at n q"
proof -
  have "resolve_links SYMLOOP_MAX (placed fs d n) [] (d @ q) = resolve_links SYMLOOP_MAX (placed fs d n) d q"
    using placed_real [OF assms(1,2)] by (subst resolve_links_real_append) (simp_all add: real_directory_def)
  also have "\<dots> = (if fs_at n q = None then None else Some (d @ q))"
    using placed_at [OF assms(1), of n "[]"] assms(2,3) by (intro resolve_links_plain) (simp_all add: good_tree_def)
  finally show *: "realpath (placed fs d n) (d @ q) = (if fs_at n q = None then None else Some (d @ q))"
    by (simp add: realpath_def)
  show "node_at (placed fs d n) (d @ q) = fs_at n q"
    using placed_at [OF assms(1)] by (simp add: node_at_def *)
qed

lemma good_tree_at: "good_tree n \<Longrightarrow> fs_at n q = Some m \<Longrightarrow> S_ISDIR m \<longleftrightarrow> is_directory (Some m)"
  by (cases m) (auto simp: good_tree_def S_ISDIR_def is_directory_def dest: plain_at)

lemma good_tree_put:
  assumes "good_tree n" and "proper q" and "q \<noteq> []" and "plain_node v"
  shows "good_tree (fs_put n q (Some v))"
  using assms plain_put [of n q "Some v"]
  by (cases q; cases n) (auto simp: good_tree_def is_directory_def split: option.splits)

section \<open>Directories\<close>

lemma make_directory_placed:
  assumes "place_for fs d" and "good_tree n" and "proper q" and "q \<noteq> []"
  shows "make_directory sys (placed fs d n) (d @ q) =
    (if is_directory (fs_at n (butlast q)) \<and> fs_at n q = None \<and> sy_mkdir sys (d @ q)
     then (True, placed fs d (fs_put n q (Some (Fs_Directory [])))) else (False, placed fs d n))"
proof -
  have path: "butlast (d @ q) = d @ butlast q" "(d @ butlast q) @ [last (d @ q)] = d @ q"
    using assms(4) by (simp_all add: butlast_append)
  note at = placed_at [OF assms(1)]
  show ?thesis
    unfolding make_directory_def path placed_realpath(1) [OF assms(1,2) proper_butlast [OF assms(3)]]
    using path(2) assms(4)
    by (cases "fs_at n (butlast q)") (auto simp: Let_def at placed_put [OF assms(1)] is_directory_def simp del: append_assoc)
qed

text \<open>The directories on the way to a path, added to what a tree holds.\<close>

definition with_directories :: "fs_path \<Rightarrow> (fs_path \<Rightarrow> fs_node option) \<Rightarrow> fs_path \<Rightarrow> fs_node option" where
  "with_directories q view r = (if prefix r q then Some (Fs_Directory []) else view r)"

definition view :: "fs_node \<Rightarrow> fs_path \<Rightarrow> fs_node option" where
  "view n r = shape (fs_at n r)"

lemma view_put:
  assumes "is_directory (fs_at n (butlast p))" and "p \<noteq> []" and "v = Fs_Directory [] \<or> v = Fs_File b"
  shows "view (fs_put n p (Some v)) q = (if q = p then Some v else if prefix p q then None else view n q)"
  unfolding view_def by (rule shape_put [OF assms])

lemma view_directory: "view n r = Some (Fs_Directory []) \<longleftrightarrow> is_directory (fs_at n r)"
  by (simp add: view_def shape_directory)

lemma view_None: "view n r = None \<longleftrightarrow> fs_at n r = None"
  by (simp add: view_def)

text \<open>A step that ends with a tree at the destination; when it succeeds, the tree is as described.\<close>

definition ends_placed :: "fs_node \<Rightarrow> fs_path \<Rightarrow> bool \<Rightarrow> fs_node \<Rightarrow> (fs_path \<Rightarrow> fs_node option) \<Rightarrow> bool" where
  "ends_placed fs d ok fs' expected \<longleftrightarrow>
     (\<exists>n. good_tree n \<and> fs' = placed fs d n \<and> (ok \<longrightarrow> (\<forall>r. view n r = expected r)))"

lemma create_directories_placed:
  assumes "place_for fs d" and "good_tree n" and "proper q"
  shows "case create_directories sys (placed fs d n) (d @ q) of (ok, fs') \<Rightarrow>
    ends_placed fs d ok fs' (with_directories q (view n)) \<and>
    ((\<forall>p. sy_mkdir sys p) \<longrightarrow> (\<forall>r. prefix r q \<longrightarrow> fs_at n r = None \<or> is_directory (fs_at n r)) \<longrightarrow> ok)"
  using assms(3)
proof (induction q rule: rev_induct)
  case Nil
  have "node_at (placed fs d n) d = Some n" using placed_realpath(2) [OF assms(1,2), of "[]"] by simp
  then show ?case
    using assms(2) good_tree_at [OF assms(2), of "[]" n]
    by (auto simp: create_directories.simps [of sys _ d] ends_placed_def with_directories_def view_def good_tree_def shape_directory
        intro!: exI [of _ n] split: if_splits)
next
  case (snoc name q)
  have proper: "proper (q @ [name])" "proper q" using snoc.prems by simp_all
  let ?p = "d @ q @ [name]"
  have node: "node_at (placed fs d n) ?p = fs_at n (q @ [name])" by (rule placed_realpath(2) [OF assms(1,2) proper(1)])
  show ?case
  proof (cases "fs_at n (q @ [name])")
    case (Some m)
    have "is_directory (fs_at n r)" if "prefix r (q @ [name])" "is_directory (Some m)" for r
      using directory_above [OF _ that(1)] that(2) Some by simp
    then have "view n = with_directories (q @ [name]) (view n)" if "is_directory (Some m)"
      using that by (auto simp: with_directories_def view_def shape_directory fun_eq_iff)
    then show ?thesis
      using node Some good_tree_at [OF assms(2) Some] assms(2)
      by (auto simp: create_directories.simps [of sys _ ?p] ends_placed_def)
  next
    case None
    obtain ok fs1 where run: "create_directories sys (placed fs d n) (d @ q) = (ok, fs1)" by (cases "create_directories sys (placed fs d n) (d @ q)")
    have eq: "create_directories sys (placed fs d n) ?p = (if ok then make_directory sys fs1 ?p else (False, fs1))"
      using node None proper(1) run by (simp add: create_directories.simps [of sys _ ?p] butlast_append)
    obtain n1 where n1: "good_tree n1" "fs1 = placed fs d n1" "ok \<Longrightarrow> view n1 = with_directories q (view n)"
      and live: "(\<forall>p. sy_mkdir sys p) \<Longrightarrow> (\<forall>r. prefix r q \<longrightarrow> fs_at n r = None \<or> is_directory (fs_at n r)) \<Longrightarrow> ok"
      using snoc.IH [OF proper(2)] run by (auto simp: ends_placed_def)
    show ?thesis
    proof (cases ok)
      case False
      then have "\<not> ((\<forall>p. sy_mkdir sys p) \<and> (\<forall>r. prefix r q \<longrightarrow> fs_at n r = None \<or> is_directory (fs_at n r)))" using live by blast
      then show ?thesis using eq n1(1,2) False by (auto simp: ends_placed_def)
    next
      case True
      have dir: "is_directory (fs_at n1 q)" using n1(3) [OF True] view_directory [of n1 q] by (simp add: with_directories_def)
      have free: "fs_at n1 (q @ [name]) = None"
        using n1(3) [OF True] None view_None [of n1 "q @ [name]"] by (simp add: with_directories_def view_def)
      have made: "create_directories sys (placed fs d n) ?p =
          (if sy_mkdir sys ?p then (True, placed fs d (fs_put n1 (q @ [name]) (Some (Fs_Directory [])))) else (False, fs1))"
        using eq True make_directory_placed [OF assms(1) n1(1) proper(1)] dir free n1(2) by simp
      have "view (fs_put n1 (q @ [name]) (Some (Fs_Directory []))) r = with_directories (q @ [name]) (view n) r" for r
      proof -
        have "view n r = None" if "prefix (q @ [name]) r"
          using tree.look_inside [OF None that] by (simp add: view_def)
        moreover have "\<not> (prefix (q @ [name]) r \<and> prefix r q)" by (auto dest!: prefix_length_le)
        ultimately show ?thesis
          using view_put [of n1 "q @ [name]" "Fs_Directory []" "[]" r] dir n1(3) [OF True]
          by (auto simp: with_directories_def)
      qed
      then have "ends_placed fs d True (placed fs d (fs_put n1 (q @ [name]) (Some (Fs_Directory [])))) (with_directories (q @ [name]) (view n))"
        using good_tree_put [OF n1(1) proper(1), of "Fs_Directory []"] unfolding ends_placed_def by auto
      then show ?thesis
        using made n1(1,2) by (cases "sy_mkdir sys ?p") (auto simp: ends_placed_def)
    qed
  qed
qed

lemma MakeParents_placed:
  assumes "place_for fs d" and "good_tree n" and "proper q" and "q' = (if include_last then q else butlast q)"
    and "include_last \<or> q \<noteq> []"
  shows "case MakeParents sys (d @ q) include_last (placed fs d n) of (r, fs') \<Rightarrow>
    ends_placed fs d (r = Inr ()) fs' (with_directories q' (view n)) \<and>
    ((\<forall>p. sy_mkdir sys p) \<longrightarrow> (\<forall>r. prefix r q' \<longrightarrow> fs_at n r = None \<or> is_directory (fs_at n r)) \<longrightarrow> r = Inr ())"
proof -
  have directory: "(if include_last then d @ q else butlast (d @ q)) = d @ q'" using assms(4,5) by (auto simp: butlast_append)
  have q': "proper q'" using assms(3,4) by (simp add: proper_butlast)
  obtain ok fs1 where run: "create_directories sys (placed fs d n) (d @ q') = (ok, fs1)" by (cases "create_directories sys (placed fs d n) (d @ q')")
  note made = create_directories_placed [OF assms(1,2) q', of sys, unfolded run, simplified]
  then obtain n1 where n1: "good_tree n1" "fs1 = placed fs d n1" "ok \<Longrightarrow> view n1 = with_directories q' (view n)"
    by (auto simp: ends_placed_def)
  have "node_at fs1 (d @ q') = fs_at n1 q'" unfolding n1(2) by (rule placed_realpath(2) [OF assms(1) n1(1) q'])
  moreover have "is_directory (fs_at n1 q')" if ok
    using n1(3) [OF that] view_directory [of n1 q'] by (simp add: with_directories_def)
  ultimately have "MakeParents sys (d @ q) include_last (placed fs d n) =
      (if ok then Inr () else Inl (RuntimeError ''Unable to create staging directory.''), fs1)"
    unfolding MakeParents_def Let_def directory run by (auto simp: is_directory_def S_ISDIR_def)
  then show ?thesis using made by (cases ok) simp_all
qed

section \<open>Files\<close>

definition permits_all :: "stage_system \<Rightarrow> bool" where
  "permits_all sys \<longleftrightarrow> (\<forall>p. sy_mkdir sys p \<and> sy_open sys p \<and> (\<forall>k. sy_put sys p k) \<and> sy_close sys p \<and>
     sy_chmod sys p \<and> sy_remove sys p)"

lemma permits_all_mkdir: "permits_all sys \<Longrightarrow> sy_mkdir sys p"
  by (simp add: permits_all_def)

text \<open>The reader delivers an entry from the start, one piece after the other, and finds it intact.\<close>

fun in_order :: "64 word \<Rightarrow> (64 word \<times> string) list \<Rightarrow> bool" where
  "in_order next_offset [] = True"
| "in_order next_offset ((offset, bytes) # pieces) =
     (offset = next_offset \<and> in_order (next_offset + of_nat (length bytes)) pieces)"

definition delivers :: "ZipArchive \<Rightarrow> nat \<Rightarrow> bool" where
  "delivers archive index \<longleftrightarrow> (case za_extract archive index of (pieces, result) \<Rightarrow> in_order 0 pieces \<and> result)"

definition entry_bytes :: "ZipArchive \<Rightarrow> nat \<Rightarrow> string" where
  "entry_bytes archive index = concat (map snd (fst (za_extract archive index)))"

lemma WriteExtractedBytes_taken:
  "WriteExtractedBytes sys place off contents pieces = (True, written) \<Longrightarrow> written = contents @ concat (map snd pieces)"
  by (induction sys place off contents pieces rule: WriteExtractedBytes.induct) (auto split: if_splits)

lemma WriteExtractedBytes_total:
  "permits_all sys \<Longrightarrow> in_order off pieces \<Longrightarrow>
     WriteExtractedBytes sys place off contents pieces = (True, contents @ concat (map snd pieces))"
  by (induction sys place off contents pieces rule: WriteExtractedBytes.induct) (auto simp: permits_all_def)

lemma good_tree_cases:
  assumes "good_tree n"
  shows "fs_at n q = None \<or> (\<exists>cs. fs_at n q = Some (Fs_Directory cs)) \<or> (\<exists>b. fs_at n q = Some (Fs_File b))"
proof (cases "fs_at n q")
  case (Some m)
  then have "plain_node m" using assms plain_at by (auto simp: good_tree_def)
  with Some show ?thesis by (cases m) auto
qed simp

lemma open_truncated_placed:
  assumes "place_for fs d" and "good_tree n" and "proper q" and "q \<noteq> []" and "is_directory (fs_at n (butlast q))"
  shows "open_truncated sys (placed fs d n) (d @ q) =
    (if is_directory (fs_at n q) \<or> \<not> sy_open sys (d @ q) then None
     else Some (d @ q, placed fs d (fs_put n q (Some (Fs_File [])))))"
proof -
  have path: "butlast (d @ q) = d @ butlast q" "(d @ butlast q) @ [last (d @ q)] = d @ q"
    using assms(4) by (simp_all add: butlast_append)
  have last: "last (d @ q) \<notin> {[], ''.'', ''..''}" using assms(3,4) by (cases q rule: rev_cases) auto
  note plain = good_tree_cases [OF assms(2), of q]
  have parent: "fs_at n (butlast q) \<noteq> None" "is_directory (fs_at (placed fs d n) (d @ butlast q))"
    using assms(5) placed_at [OF assms(1)] by (auto simp: is_directory_def)
  have at: "fs_at (placed fs d n) (d @ q) = fs_at n q" by (rule placed_at [OF assms(1)])
  have "open_place (Suc SYMLOOP_MAX) (placed fs d n) (d @ q) = Some (d @ q)"
    using plain parent last assms(4)
    by (auto simp: path placed_realpath(1) [OF assms(1,2) proper_butlast [OF assms(3)]] at simp del: append_assoc last_appendR
        split: fs_node.splits option.splits)
  then show ?thesis
    using plain at by (auto simp: open_truncated_def placed_put [OF assms(1,4)] is_directory_def)
qed

lemma ExtractEntry_placed:
  assumes "place_for fs d" and "good_tree n" and "proper q" and "q \<noteq> []" and "is_directory (fs_at n (butlast q))"
  shows "case ExtractEntry sys archive (d @ q) index (placed fs d n) of (r, fs') \<Rightarrow>
    ends_placed fs d (r = Inr ()) fs' ((view n)(q := Some (Fs_File (entry_bytes archive index)))) \<and>
    (permits_all sys \<longrightarrow> delivers archive index \<longrightarrow> \<not> is_directory (fs_at n q) \<longrightarrow> r = Inr ())"
proof (cases "is_directory (fs_at n q) \<or> \<not> sy_open sys (d @ q)")
  case True
  then show ?thesis
    using assms(2) open_truncated_placed [OF assms, of sys]
    by (auto simp: ExtractEntry_def ends_placed_def permits_all_def is_directory_def)
next
  case False
  obtain pieces result where x: "za_extract archive index = (pieces, result)" by (cases "za_extract archive index")
  obtain taken contents where w: "WriteExtractedBytes sys (d @ q) 0 [] pieces = (taken, contents)"
    by (cases "WriteExtractedBytes sys (d @ q) 0 [] pieces")
  let ?n = "fs_put n q (Some (Fs_File contents))"
  have twice: "fs_put (placed fs d (fs_put n q (Some (Fs_File [])))) (d @ q) (Some (Fs_File contents)) = placed fs d ?n"
    by (simp add: placed_put [OF assms(1,4)] fs_put_twice)
  have run: "ExtractEntry sys archive (d @ q) index (placed fs d n) =
      (if taken \<and> result \<and> sy_close sys (d @ q) then Inr () else Inl (RuntimeError ''ZIP extraction failed.''), placed fs d ?n)"
    using False open_truncated_placed [OF assms, of sys] by (simp add: ExtractEntry_def x w twice)
  have good: "good_tree ?n" using assms(2,3,4) by (intro good_tree_put) simp_all
  have "view n r = None" if "strict_prefix q r" for r
  proof -
    have "fs_at n q = None \<or> (\<exists>b. fs_at n q = Some (Fs_File b))"
      using False good_tree_cases [OF assms(2), of q] by (auto simp: is_directory_def)
    moreover have "\<exists>y t. r = q @ y # t" using that by (auto elim: strict_prefixE')
    ultimately show ?thesis by (cases "fs_at n q") (auto simp: view_def fs_at_append)
  qed
  then have "view ?n r = ((view n)(q := Some (Fs_File contents))) r" for r
    using view_put [OF assms(5,4), of "Fs_File contents" contents r] by (auto simp: strict_prefix_def)
  moreover have "contents = entry_bytes archive index" if taken
    using WriteExtractedBytes_taken [of sys "d @ q" 0 "[]" pieces contents] w that by (simp add: entry_bytes_def x)
  ultimately have "ends_placed fs d (taken \<and> result \<and> sy_close sys (d @ q)) (placed fs d ?n)
      ((view n)(q := Some (Fs_File (entry_bytes archive index))))"
    using good unfolding ends_placed_def by blast
  moreover have "taken \<and> result \<and> sy_close sys (d @ q)" if "permits_all sys" "delivers archive index"
    using that WriteExtractedBytes_total [of sys 0 pieces "d @ q" "[]"] w by (simp add: delivers_def x permits_all_def)
  ultimately show ?thesis by (auto simp: run)
qed

section \<open>Entries\<close>

abbreviation names_of :: "StagedEntry \<Rightarrow> fs_path" where
  "names_of e \<equiv> Split (se_path e) CHR ''/''"

text \<open>What staging an entry adds to a tree.\<close>

definition add_entry :: "ZipArchive \<Rightarrow> StagedEntry \<Rightarrow> (fs_path \<Rightarrow> fs_node option) \<Rightarrow> fs_path \<Rightarrow> fs_node option" where
  "add_entry archive e old =
     (if se_directory e then with_directories (names_of e) old
      else (with_directories (butlast (names_of e)) old)(names_of e := Some (Fs_File (entry_bytes archive (se_index e)))))"

text \<open>Nothing is in the way of an entry: its directories can be made, and its file can be opened.\<close>

definition directories_of :: "StagedEntry \<Rightarrow> fs_path" where
  "directories_of e = (if se_directory e then names_of e else butlast (names_of e))"

definition way_free :: "(fs_path \<Rightarrow> fs_node option) \<Rightarrow> StagedEntry \<Rightarrow> bool" where
  "way_free old e \<longleftrightarrow> (\<forall>r. prefix r (directories_of e) \<longrightarrow> old r = None \<or> old r = Some (Fs_Directory [])) \<and>
     (\<not> se_directory e \<longrightarrow> old (names_of e) \<noteq> Some (Fs_Directory []))"

lemma way_free_view:
  "way_free (view n) e \<longleftrightarrow> (\<forall>r. prefix r (directories_of e) \<longrightarrow> fs_at n r = None \<or> is_directory (fs_at n r)) \<and>
     (\<not> se_directory e \<longrightarrow> \<not> is_directory (fs_at n (names_of e)))"
  by (simp add: way_free_def view_None view_directory)

lemma safe_path_proper: "safe_path path \<Longrightarrow> proper (Split path CHR ''/'')"
  by (auto simp: safe_path_def proper_def list_all_iff safe_name_def)

lemma StageEntry_placed:
  assumes "place_for fs d" and "good_tree n" and "safe_path (se_path e)" and "st_fs s = placed fs d n"
  shows "case StageEntry sys archive d e s of (r, s') \<Rightarrow>
    ends_placed fs d (r = Inr ()) (st_fs s') (add_entry archive e (view n)) \<and>
    (permits_all sys \<longrightarrow> (\<not> se_directory e \<longrightarrow> delivers archive (se_index e)) \<longrightarrow> way_free (view n) e \<longrightarrow> r = Inr ())"
proof -
  note q = safe_path_proper [OF assms(3)]
  let ?q = "names_of e"
  let ?q' = "if se_directory e then ?q else butlast ?q"
  obtain r1 fs1 where parents: "MakeParents sys (d @ ?q) (se_directory e) (placed fs d n) = (r1, fs1)"
    by (cases "MakeParents sys (d @ ?q) (se_directory e) (placed fs d n)")
  note made = MakeParents_placed [OF assms(1,2) q refl, of "se_directory e" sys, unfolded parents, simplified]
  obtain n1 where n1: "good_tree n1" "fs1 = placed fs d n1" "r1 = Inr () \<Longrightarrow> view n1 = with_directories ?q' (view n)"
    using made by (auto simp: ends_placed_def)
  have dirs: "directories_of e = ?q'" by (simp add: directories_of_def)
  show ?thesis
  proof (cases r1)
    case (Inl x)
    then have "StageEntry sys archive d e s = (Inl x, s\<lparr>st_fs := fs1\<rparr>)"
      by (simp add: StageEntry_def entry_place_def assms(4) parents)
    moreover have "\<not> (permits_all sys \<and> way_free (view n) e)"
      using made Inl permits_all_mkdir unfolding way_free_view dirs by auto
    ultimately show ?thesis using n1(1,2) by (auto simp: ends_placed_def)
  next
    case (Inr u)
    show ?thesis
    proof (cases "se_directory e")
      case True
      then have "StageEntry sys archive d e s = (Inr (), s\<lparr>st_fs := fs1\<rparr>)"
        using Inr parents by (simp add: StageEntry_def entry_place_def assms(4) Let_def)
      then show ?thesis using n1 Inr True by (auto simp: ends_placed_def add_entry_def)
    next
      case False
      have view: "view n1 = with_directories (butlast ?q) (view n)" using n1(3) Inr False by simp
      then have dir: "is_directory (fs_at n1 (butlast ?q))"
        using view_directory [of n1 "butlast ?q"] by (simp add: with_directories_def)
      obtain r2 fs2 where extracted: "ExtractEntry sys archive (d @ ?q) (se_index e) (placed fs d n1) = (r2, fs2)"
        by (cases "ExtractEntry sys archive (d @ ?q) (se_index e) (placed fs d n1)")
      note unpacked = ExtractEntry_placed [OF assms(1) n1(1) q _ dir, where sys = sys and archive = archive and index = "se_index e", unfolded extracted, simplified]
      have "0 < length ?q" by simp
      then have "\<not> prefix ?q (butlast ?q)" using prefix_length_le [of ?q "butlast ?q"] unfolding length_butlast by linarith
      then have "is_directory (fs_at n1 ?q) \<longleftrightarrow> is_directory (fs_at n ?q)"
        using view view_directory by (metis with_directories_def)
      moreover obtain s' where "StageEntry sys archive d e s = (r2, s')" "st_fs s' = fs2"
        using Inr False parents extracted [folded n1(2)]
        by (cases r2) (auto simp: StageEntry_def entry_place_def assms(4) Let_def change_mode_def split: option.splits)
      ultimately show ?thesis using unpacked False by (auto simp: add_entry_def view way_free_view)
    qed
  qed
qed

section \<open>All entries\<close>

text \<open>What the accepted entries of an archive make together of what was there before.\<close>

definition staged_over ::
    "ZipArchive \<Rightarrow> StagedEntry list \<Rightarrow> (fs_path \<Rightarrow> fs_node option) \<Rightarrow> fs_path \<Rightarrow> fs_node option" where
  "staged_over archive staged old r =
     (case find (\<lambda>e. \<not> se_directory e \<and> names_of e = r) staged of
        Some e \<Rightarrow> Some (Fs_File (entry_bytes archive (se_index e)))
      | None \<Rightarrow> if \<exists>e \<in> set staged. prefix r (names_of e) then Some (Fs_Directory []) else old r)"

text \<open>The entries of an archive do not get in the way of each other, only what was there before can.\<close>

definition unobstructed :: "(fs_path \<Rightarrow> fs_node option) \<Rightarrow> StagedEntry list \<Rightarrow> bool" where
  "unobstructed old staged \<longleftrightarrow> (\<forall>e \<in> set staged. way_free old e)"

lemma no_file_above:
  assumes "accepted (before @ e # rest)" and "prefix r (names_of e)"
  shows "find (\<lambda>a. \<not> se_directory a \<and> names_of a = r) before = None"
  using assms
  by (auto simp: accepted_def sorted_wrt_append compatible_entries_def compatible_def find_None_iff)

lemma no_entry_below:
  assumes "accepted (before @ e # rest)" and "\<not> se_directory e" and "a \<in> set before"
  shows "\<not> prefix (names_of e) (names_of a)"
  using assms by (auto simp: accepted_def sorted_wrt_append compatible_entries_def compatible_def)

lemma find_append: "find P (xs @ ys) = (case find P xs of None \<Rightarrow> find P ys | Some x \<Rightarrow> Some x)"
  by (induction xs) auto

lemma prefix_butlast_iff: "q \<noteq> [] \<Longrightarrow> prefix r q \<longleftrightarrow> r = q \<or> prefix r (butlast q)"
  by (metis append_butlast_last_id prefix_snoc)

lemma add_entry_view:
  assumes "accepted (before @ e # rest)"
  shows "add_entry archive e (staged_over archive before old) = staged_over archive (before @ [e]) old"
proof
  fix r
  show "add_entry archive e (staged_over archive before old) r = staged_over archive (before @ [e]) old r"
  proof (cases "prefix r (names_of e)")
    case True
    then show ?thesis
      using no_file_above [OF assms True] prefix_butlast_iff [of "names_of e" r]
      by (auto simp: add_entry_def with_directories_def staged_over_def find_append)
  next
    case False
    then have "\<not> prefix r (butlast (names_of e))" "r \<noteq> names_of e"
      using prefix_butlast_iff [of "names_of e" r] by auto
    with False show ?thesis
      by (auto simp: add_entry_def with_directories_def staged_over_def find_append split: option.splits)
  qed
qed

lemma way_free_later:
  assumes "accepted (before @ e # rest)" and "way_free old e"
  shows "way_free (staged_over archive before old) e"
proof -
  have "prefix r (names_of e)" if "prefix r (directories_of e)" for r
    using that prefix_butlast_iff [of "names_of e" r] by (auto simp: directories_of_def split: if_splits)
  then have "staged_over archive before old r = None \<or> staged_over archive before old r = Some (Fs_Directory [])"
    if "prefix r (directories_of e)" for r
    using that assms(2) no_file_above [OF assms(1), of r] by (auto simp: staged_over_def way_free_def)
  moreover have "staged_over archive before old (names_of e) \<noteq> Some (Fs_Directory [])" if "\<not> se_directory e"
    using that assms(2) no_file_above [OF assms(1), of "names_of e"] no_entry_below [OF assms(1) that]
    by (auto simp: staged_over_def way_free_def)
  ultimately show ?thesis by (simp add: way_free_def)
qed

lemma StageLoop_placed:
  assumes "place_for fs d" and "accepted (before @ rest)" and "good_tree n" and "view n = staged_over archive before old"
    and "st_fs s = placed fs d n"
  shows "case StageLoop sys archive d rest s of (r, s') \<Rightarrow>
    ends_placed fs d (r = Inr ()) (st_fs s') (staged_over archive (before @ rest) old) \<and>
    (permits_all sys \<longrightarrow> unobstructed old rest \<longrightarrow>
      (\<forall>e \<in> set rest. \<not> se_directory e \<longrightarrow> delivers archive (se_index e)) \<longrightarrow> r = Inr ())"
  using assms(2-)
proof (induction rest arbitrary: before n s)
  case Nil
  then show ?case by (auto simp: ends_placed_def)
next
  case (Cons e rest)
  have safe: "safe_path (se_path e)" using Cons.prems(1) by (simp add: accepted_def)
  obtain r1 s1 where run: "StageEntry sys archive d e s = (r1, s1)" by (cases "StageEntry sys archive d e s")
  note entry = StageEntry_placed [OF assms(1) Cons.prems(2) safe Cons.prems(4), where sys = sys and archive = archive, unfolded run, simplified]
  have free: "way_free (view n) e" if "unobstructed old (e # rest)"
    using that way_free_later [OF Cons.prems(1)] Cons.prems(3) by (simp add: unobstructed_def)
  have live: "r1 = Inr ()" if "permits_all sys" "unobstructed old (e # rest)" "\<not> se_directory e \<Longrightarrow> delivers archive (se_index e)"
    using entry that free by blast
  show ?case
  proof (cases r1)
    case (Inl x)
    then show ?thesis using entry live run by (auto simp: ends_placed_def)
  next
    case (Inr u)
    then obtain n1 where n1: "good_tree n1" "st_fs s1 = placed fs d n1" "view n1 = staged_over archive (before @ [e]) old"
      using entry add_entry_view [OF Cons.prems(1), of archive] Cons.prems(3) by (auto simp: ends_placed_def)
    from Cons.IH [OF _ n1(1,3,2)] Cons.prems(1)
    have "case StageLoop sys archive d rest s1 of (r, s') \<Rightarrow>
      ends_placed fs d (r = Inr ()) (st_fs s') (staged_over archive (before @ e # rest) old) \<and>
      (permits_all sys \<longrightarrow> unobstructed old rest \<longrightarrow>
        (\<forall>e \<in> set rest. \<not> se_directory e \<longrightarrow> delivers archive (se_index e)) \<longrightarrow> r = Inr ())"
      by simp
    then show ?thesis using run Inr by (auto simp: unobstructed_def split: prod.splits)
  qed
qed

section \<open>Removal\<close>



section \<open>A whole archive\<close>

text \<open>
  The destination is on a path without links, and it is missing or a tree without links and unreadable directories, which may
  hold entries already. The entries it holds are the ones before the run.
\<close>

definition ready_place :: "fs_node \<Rightarrow> fs_path \<Rightarrow> bool" where
  "ready_place fs d \<longleftrightarrow> place_for fs d \<and> (case fs_at fs d of None \<Rightarrow> True | Some n \<Rightarrow> good_tree n)"

definition entries_before :: "fs_node \<Rightarrow> fs_path \<Rightarrow> fs_path \<Rightarrow> fs_node option" where
  "entries_before fs d q = shape (fs_at fs (d @ q))"

definition tree_before :: "fs_node \<Rightarrow> fs_path \<Rightarrow> fs_node" where
  "tree_before fs d = (case fs_at fs d of None \<Rightarrow> Fs_Directory [] | Some n \<Rightarrow> n)"

lemma good_tree_empty [simp]: "good_tree (Fs_Directory [])"
  by (simp add: good_tree_def is_directory_def)

lemma good_tree_before: "ready_place fs d \<Longrightarrow> good_tree (tree_before fs d)"
  by (simp add: ready_place_def tree_before_def split: option.splits)

lemma view_tree_before:
  assumes "ready_place fs d"
  shows "view (tree_before fs d) q = (if q = [] then Some (Fs_Directory []) else entries_before fs d q)"
proof (cases "q = []")
  case True
  then show ?thesis using good_tree_before [OF assms] view_directory [of "tree_before fs d" "[]"] by (simp add: good_tree_def)
next
  case False
  then show ?thesis
    by (cases q) (simp_all add: view_def entries_before_def tree_before_def fs_at_append split: option.split)
qed

lemma unobstructed_before:
  assumes "ready_place fs d"
  shows "unobstructed (view (tree_before fs d)) staged \<longleftrightarrow> unobstructed (entries_before fs d) staged"
proof -
  have root: "entries_before fs d [] = None \<or> entries_before fs d [] = Some (Fs_Directory [])"
    using assms shape_directory [of "fs_at fs d"]
    by (auto simp: ready_place_def good_tree_def entries_before_def split: option.splits)
  then have dirs: "view (tree_before fs d) q = None \<or> view (tree_before fs d) q = Some (Fs_Directory []) \<longleftrightarrow>
      entries_before fs d q = None \<or> entries_before fs d q = Some (Fs_Directory [])" for q
    unfolding view_tree_before [OF assms] by auto
  have "view (tree_before fs d) (names_of e) = entries_before fs d (names_of e)" for e
    by (simp add: view_tree_before [OF assms])
  then have "way_free (view (tree_before fs d)) e \<longleftrightarrow> way_free (entries_before fs d) e" for e
    unfolding way_free_def dirs by simp
  then show ?thesis by (simp add: unobstructed_def)
qed

lemma staged_over_before:
  assumes "ready_place fs d" and "staged \<noteq> []"
  shows "staged_over archive staged (view (tree_before fs d)) = staged_over archive staged (entries_before fs d)"
  using assms(2) by (auto simp: fun_eq_iff staged_over_def view_tree_before [OF assms(1)] split: option.split)

text \<open>A destination that is missing or empty is not in the way of anything.\<close>

lemma unobstructed_empty:
  assumes "place_for fs d" and "fs_at fs d = None \<or> fs_at fs d = Some (Fs_Directory [])"
  shows "ready_place fs d" and "entries_before fs d q \<noteq> None \<Longrightarrow> q = []" and "unobstructed (entries_before fs d) staged"
proof -
  show "ready_place fs d" using assms by (auto simp: ready_place_def)
  have "entries_before fs d (name # q) = None" for name q
    using assms(2) by (auto simp: entries_before_def fs_at_append)
  moreover have "entries_before fs d [] = None \<or> entries_before fs d [] = Some (Fs_Directory [])"
    using assms(2) by (auto simp: entries_before_def)
  ultimately have all: "entries_before fs d q = None \<or> q = [] \<and> entries_before fs d q = Some (Fs_Directory [])" for q
    by (cases q) auto
  show "entries_before fs d q \<noteq> None \<Longrightarrow> q = []" using all [of q] by auto
  have "entries_before fs d (names_of e) \<noteq> Some (Fs_Directory [])" for e using all [of "names_of e"] by auto
  moreover have "entries_before fs d r = None \<or> entries_before fs d r = Some (Fs_Directory [])" for r using all [of r] by auto
  ultimately show "unobstructed (entries_before fs d) staged" by (simp add: unobstructed_def way_free_def)
qed

lemma MakeParents_ready:
  assumes "ready_place fs d"
  shows "case MakeParents sys d True fs of (r, fs') \<Rightarrow>
    fs' = (if r = Inr () then placed fs d (tree_before fs d) else fs) \<and>
    ((\<forall>p. sy_mkdir sys p) \<longrightarrow> r = Inr ())"
proof (cases "fs_at fs d")
  case (Some m)
  have place: "place_for fs d" and m: "good_tree m" using assms Some by (auto simp: ready_place_def)
  have same: "placed fs d m = fs" by (rule fs_put_same [OF Some])
  have "node_at fs d = Some m" using placed_realpath(2) [OF place m, of "[]"] same by simp
  moreover have "S_ISDIR m" using good_tree_at [OF m, of "[]" m] m by (simp add: good_tree_def)
  ultimately have "MakeParents sys d True fs = (Inr (), fs)"
    by (simp add: MakeParents_def create_directories.simps [of sys fs d])
  then show ?thesis using same by (simp add: tree_before_def Some)
next
  case None
  have place: "place_for fs d" using assms by (simp add: ready_place_def)
  have d: "butlast d @ [last d] = d" "d \<noteq> []" "last d \<notin> {[], ''.'', ''..''}" and parent: "real_directory fs (butlast d)"
    using place by (simp_all add: place_for_def)
  have "resolve_links SYMLOOP_MAX fs [] (butlast d @ [last d]) = resolve_links SYMLOOP_MAX fs (butlast d) [last d]"
    using parent by (subst resolve_links_real_append) (simp_all add: real_directory_def)
  then have "realpath fs d = None" using d None by (simp add: realpath_def)
  then have missing: "node_at fs d = None" by (simp add: node_at_def)
  obtain cs where cs: "fs_at fs (butlast d) = Some (Fs_Directory cs)"
    using real_directory_at [OF parent] by (auto simp: is_directory_def)
  have "create_directories sys fs (butlast d) = (True, fs)"
    using node_at_real [OF parent] cs by (simp add: create_directories.simps [of sys fs "butlast d"] S_ISDIR_def)
  then have "create_directories sys fs d = (if sy_mkdir sys d then (True, placed fs d (Fs_Directory [])) else (False, fs))"
    using missing d None realpath_real [OF parent] cs
    by (simp add: create_directories.simps [of sys fs d] make_directory_def is_directory_def)
  moreover have "node_at (placed fs d (Fs_Directory [])) d = Some (Fs_Directory [])"
    using placed_realpath(2) [OF place good_tree_empty, of "[]"] by simp
  ultimately have "MakeParents sys d True fs = (if sy_mkdir sys d then (Inr (), placed fs d (Fs_Directory []))
      else (Inl (RuntimeError ''Unable to create staging directory.''), fs))"
    by (simp add: MakeParents_def S_ISDIR_def)
  then show ?thesis using None by (auto simp: tree_before_def)
qed

lemma StageChecked_ready:
  assumes "ready_place (st_fs s) d"
  shows "case StageChecked sys archive d limits s of (r, s') \<Rightarrow>
    (st_fs s' = st_fs s \<and> r \<noteq> Inr () \<or> (\<exists>n. good_tree n \<and> st_fs s' = placed (st_fs s) d n)) \<and>
    (r = Inr () \<longrightarrow> (\<exists>staged n. ScanArchive limits archive = Inr staged \<and> st_fs s' = placed (st_fs s) d n \<and>
      good_tree n \<and> view n = staged_over archive staged (entries_before (st_fs s) d))) \<and>
    (permits_all sys \<longrightarrow> (\<exists>staged. ScanArchive limits archive = Inr staged \<and> unobstructed (entries_before (st_fs s) d) staged \<and>
      (\<forall>e \<in> set staged. \<not> se_directory e \<longrightarrow> delivers archive (se_index e))) \<longrightarrow> r = Inr ())"
proof (cases "ScanArchive limits archive")
  case (Inl e)
  then show ?thesis by (simp add: StageChecked_def)
next
  case (Inr staged)
  have place: "place_for (st_fs s) d" using assms by (simp add: ready_place_def)
  obtain r1 fs1 where made: "MakeParents sys d True (st_fs s) = (r1, fs1)" by (cases "MakeParents sys d True (st_fs s)")
  note dest = MakeParents_ready [OF assms, of sys, unfolded made, simplified]
  show ?thesis
  proof (cases r1)
    case (Inl e)
    then show ?thesis using dest by (auto simp: StageChecked_def Inr made permits_all_def)
  next
    case ok: (Inr u)
    let ?n = "tree_before (st_fs s) d"
    have n: "fs1 = placed (st_fs s) d ?n" using dest ok by simp
    obtain r s' where loop: "StageLoop sys archive d staged (s\<lparr>st_fs := fs1\<rparr>) = (r, s')"
      by (cases "StageLoop sys archive d staged (s\<lparr>st_fs := fs1\<rparr>)")
    have "accepted ([] @ staged)" and some: "staged \<noteq> []"
      using ScanArchive_accepted(1) [OF Inr] arg_cong [OF ScanArchive_accepted(2) [OF Inr], of length] Inr
      by (auto simp: ScanArchive_def)
    moreover have "view ?n = staged_over archive [] (view ?n)" by (simp add: staged_over_def fun_eq_iff)
    ultimately have "case StageLoop sys archive d staged (s\<lparr>st_fs := fs1\<rparr>) of (r, s') \<Rightarrow>
        ends_placed (st_fs s) d (r = Inr ()) (st_fs s') (staged_over archive ([] @ staged) (view ?n)) \<and>
        (permits_all sys \<longrightarrow> unobstructed (view ?n) staged \<longrightarrow>
          (\<forall>e \<in> set staged. \<not> se_directory e \<longrightarrow> delivers archive (se_index e)) \<longrightarrow> r = Inr ())"
      by (intro StageLoop_placed [OF place _ good_tree_before [OF assms]]) (simp_all add: n)
    then show ?thesis
      unfolding loop using ok unobstructed_before [OF assms, of staged] staged_over_before [OF assms some, of archive]
      by (auto simp: StageChecked_def Inr made loop ends_placed_def)
  qed
qed

definition limits_positive :: "ArchiveLimits \<Rightarrow> bool" where
  "limits_positive limits \<longleftrightarrow> 0 < maximum_archive_entries limits \<and> 0 < maximum_uncompressed_bytes limits \<and>
     0 < maximum_single_entry_bytes limits"

lemma StageZipArchive_cases:
  assumes "StageZipArchive sys archive d limits s = (r, s')"
  obtains (refused) "r \<noteq> Inr ()" "\<not> limits_positive limits \<or> archive = None" "st_fs s' = st_fs s"
  | (failed) z s1 where "archive = Some z" "limits_positive limits" "StageChecked sys z d limits s = (r, s1)" "r \<noteq> Inr ()"
      "st_fs s' = snd (RemoveStagingDirectory sys d (st_fs s1))"
  | (staged) z where "archive = Some z" "limits_positive limits" "StageChecked sys z d limits s = (r, s')" "r = Inr ()"
proof (cases "limits_positive limits \<and> archive \<noteq> None")
  case False
  then show ?thesis
    using assms by (intro refused) (auto simp: StageZipArchive_def limits_positive_def not_less split: if_splits option.splits)
next
  case True
  then obtain z where z: "archive = Some z" "limits_positive limits" by auto
  obtain r1 s1 where run: "StageChecked sys z d limits s = (r1, s1)" by (cases "StageChecked sys z d limits s")
  show ?thesis
  proof (cases r1)
    case (Inl e)
    then show ?thesis
      using assms z run by (intro failed [OF z, of s1]) (auto simp: StageZipArchive_def limits_positive_def split: if_splits)
  next
    case (Inr u)
    then show ?thesis
      using assms z run by (intro staged [OF z]) (auto simp: StageZipArchive_def limits_positive_def split: if_splits)
  qed
qed


lemma distinct_if_sorted: "sorted_wrt (\<noteq>) xs \<Longrightarrow> distinct xs"
  by (induction xs) auto

section \<open>A sample\<close>

definition sample_stat :: "string \<Rightarrow> bool \<Rightarrow> 32 word \<Rightarrow> 64 word \<Rightarrow> ZipStat option" where
  "sample_stat filename directory attributes bytes = Some \<lparr>m_filename = filename, m_is_encrypted = False, m_is_supported = True,
     m_is_directory = directory, m_external_attr = attributes, m_uncomp_size = bytes\<rparr>"

definition sample_archive :: ZipArchive where
  "sample_archive = \<lparr>za_stats = [sample_stat ''app/'' True 0 0, sample_stat ''app/run'' False 0x81ED0000 4,
       sample_stat (''docs'' @ CHR 0x5C # ''readme'') False 0 2],
     za_extract = \<lambda>i. (if i = 1 then [(0, ''ab''), (2, ''cd'')] else if i = 2 then [(0, ''hi'')] else [], True)\<rparr>"

definition sample_limits :: ArchiveLimits where
  "sample_limits = \<lparr>maximum_archive_entries = 100000, maximum_uncompressed_bytes = 8589934592,
     maximum_single_entry_bytes = 4294967296\<rparr>"

definition sample_system :: "bool \<Rightarrow> stage_system" where
  "sample_system writable = \<lparr>sy_mkdir = \<lambda>_. True, sy_open = \<lambda>_. True, sy_put = \<lambda>_ _. writable, sy_close = \<lambda>_. True, sy_chmod = \<lambda>_. True,
     sy_remove = \<lambda>_. True\<rparr>"

definition sample_disk :: stage_state where
  "sample_disk = \<lparr>st_fs = Fs_Directory [(''stage'', Fs_Directory [(''old'', Fs_File ''left'')]), (''other'', Fs_File ''kept'')], st_modes = Map.empty\<rparr>"

lemma sample_scan:
  "ScanArchive sample_limits sample_archive = Inr
     [\<lparr>se_index = 0, se_path = ''app'', se_directory = True, se_mode = 0\<rparr>,
      \<lparr>se_index = 1, se_path = ''app/run'', se_directory = False, se_mode = 0x81ED\<rparr>,
      \<lparr>se_index = 2, se_path = ''docs/readme'', se_directory = False, se_mode = 0\<rparr>]"
  unfolding sample_archive_def sample_limits_def sample_stat_def by code_simp

lemma sample_disk_ready: "ready_place (st_fs sample_disk) [''stage'']"
  by (simp add: ready_place_def place_for_def sample_disk_def real_directory_def is_directory_def good_tree_def)

lemma sample_disk_before:
  "entries_before (st_fs sample_disk) [''stage''] q =
     (if q = [] then Some (Fs_Directory []) else if q = [''old''] then Some (Fs_File ''left'') else None)"
proof (cases q)
  case (Cons name path)
  then show ?thesis by (cases path) (simp_all add: entries_before_def sample_disk_def)
qed (simp add: entries_before_def sample_disk_def)

lemma sample_delivers: "delivers sample_archive i"
  by (simp add: delivers_def sample_archive_def)


section \<open>Properties\<close>

text \<open>
  C15. What an archive may make of the destination is decided before anything is written: when the check accepts
  an archive, every entry has a name that stays below the destination, no file is above another entry or in its place, and the
  number of entries and their sizes are within the limits, so that a reader that delivers no more bytes than it
  announced fills no more than the limit allows. The sum of the sizes does not wrap around.
\<close>

theorem archive_check_safe:
  assumes "ScanArchive limits archive = Inr staged"
    and "0 < maximum_uncompressed_bytes limits" and "maximum_uncompressed_bytes limits < 2 ^ 63"
    and "\<forall>i < length (za_stats archive). length (entry_bytes archive i) \<le> stat_size (za_stats archive ! i)"
  shows "(\<forall>e \<in> set staged. \<forall>name \<in> set (names_of e). safe_name name) \<and> distinct (map se_path staged) \<and>
    (\<forall>a \<in> set staged. \<forall>b \<in> set staged. \<not> se_directory a \<longrightarrow> prefix (names_of a) (names_of b) \<longrightarrow> a = b) \<and>
    int (length staged) \<le> maximum_archive_entries limits \<and>
    int (\<Sum>e \<leftarrow> staged. length (entry_bytes archive (se_index e))) \<le> maximum_uncompressed_bytes limits"
proof -
  note ok = ScanArchive_accepted [OF assms(1)]
  let ?stats = "za_stats archive"
  have sorted: "sorted_wrt compatible_entries staged" and safe: "\<forall>e \<in> set staged. safe_path (se_path e)"
    using ok(1) by (simp_all add: accepted_def)
  have "sorted_wrt (\<noteq>) (map se_path staged)"
    using sorted by (rule sorted_wrt_map_mono) (simp_all add: compatible_entries_def compatible_def)
  then have paths: "distinct (map se_path staged)" by (rule distinct_if_sorted)
  have apart: "a = b" if a: "a \<in> set staged" and b: "b \<in> set staged" and leaf: "\<not> se_directory a" and above: "prefix (names_of a) (names_of b)" for a b
  proof -
    obtain i j where ij: "i < length staged" "j < length staged" "a = staged ! i" "b = staged ! j"
      using a b by (auto simp: in_set_conv_nth)
    have "\<not> i < j" "\<not> j < i"
      using sorted ij leaf above by (auto simp: sorted_wrt_iff_nth_less compatible_entries_def compatible_def)
    then show "a = b" using ij by simp
  qed
  have "(\<Sum>e \<leftarrow> staged. length (entry_bytes archive (se_index e))) = (\<Sum>i \<leftarrow> map se_index staged. length (entry_bytes archive i))"
    by (simp add: comp_def)
  also have "\<dots> \<le> (\<Sum>i \<leftarrow> [0..<length ?stats]. stat_size (?stats ! i))"
    unfolding ok(2) using assms(4) by (intro sum_list_mono) simp
  also have "map (\<lambda>i. stat_size (?stats ! i)) [0..<length ?stats] = map stat_size ?stats" by (rule nth_equalityI) simp_all
  also note ok(5)
  also have "unat (word_of_int (maximum_uncompressed_bytes limits) :: 64 word) = nat (maximum_uncompressed_bytes limits)"
    using assms(2,3) by (simp add: unat_eq_nat_uint uint_word_of_int_eq take_bit_int_eq_self)
  finally have "int (\<Sum>e \<leftarrow> staged. length (entry_bytes archive (se_index e))) \<le> maximum_uncompressed_bytes limits"
    using assms(2) by simp
  then show ?thesis using paths apart safe ok(4) by (auto simp: safe_path_def)
qed

lemma archive_check_safe_witness:
  "\<exists>staged. ScanArchive sample_limits sample_archive = Inr staged \<and> distinct (map se_path staged) \<and>
     int (\<Sum>e \<leftarrow> staged. length (entry_bytes sample_archive (se_index e))) \<le> 8589934592"
proof -
  have "length (entry_bytes sample_archive i) \<le> stat_size (za_stats sample_archive ! i)" if "i < 3" for i
    using that by (auto simp: less_Suc_eq numeral_3_eq_3 entry_bytes_def sample_archive_def sample_stat_def stat_size_def)
  then have "\<forall>i < length (za_stats sample_archive). length (entry_bytes sample_archive i) \<le> stat_size (za_stats sample_archive ! i)"
    by (simp add: sample_archive_def)
  from archive_check_safe [OF sample_scan _ _ this] sample_scan show ?thesis by (simp add: sample_limits_def)
qed



text \<open>
  C14. Unpacking is exact. The destination is as before: on a path without links, and missing or a readable tree without links. After a run
  that returns it holds a tree without links in which every file of the archive is at its place with the bytes that the reader
  delivered, the directories of the archive and those on the way to an entry are directories, and every other entry is what it
  was before the run; so a destination that was missing or empty holds the entries of the archive and nothing else. And a run
  returns when the limits are positive, the check accepts the archive, the reader delivers its files, no call of the system fails and
  nothing that was in the destination before is in the way of an entry, which a destination that was missing or empty never is: what the
  check accepted never gets in its own way.
\<close>

theorem archive_staged_exactly:
  assumes "ready_place (st_fs s) d" and "StageZipArchive sys (Some archive) d limits s = (r, s')"
  shows "(r = Inr () \<longrightarrow> (\<exists>staged n. ScanArchive limits archive = Inr staged \<and> st_fs s' = placed (st_fs s) d n \<and> plain_node n \<and>
      (\<forall>q. shape (fs_at n q) = staged_over archive staged (entries_before (st_fs s) d) q))) \<and>
    (permits_all sys \<longrightarrow> limits_positive limits \<longrightarrow> (\<exists>staged. ScanArchive limits archive = Inr staged \<and>
      unobstructed (entries_before (st_fs s) d) staged \<and>
      (\<forall>e \<in> set staged. \<not> se_directory e \<longrightarrow> delivers archive (se_index e))) \<longrightarrow> r = Inr ()) \<and>
    (fs_at (st_fs s) d = None \<or> fs_at (st_fs s) d = Some (Fs_Directory []) \<longrightarrow>
      (\<forall>staged. unobstructed (entries_before (st_fs s) d) staged) \<and> (\<forall>q. q \<noteq> [] \<longrightarrow> entries_before (st_fs s) d q = None))"
proof -
  have "place_for (st_fs s) d" using assms(1) by (simp add: ready_place_def)
  from unobstructed_empty(2,3) [OF this]
  have empty: "fs_at (st_fs s) d = None \<or> fs_at (st_fs s) d = Some (Fs_Directory []) \<longrightarrow>
      (\<forall>staged. unobstructed (entries_before (st_fs s) d) staged) \<and> (\<forall>q. q \<noteq> [] \<longrightarrow> entries_before (st_fs s) d q = None)"
    by blast
  note checked = StageChecked_ready [OF assms(1), where sys = sys and archive = archive and limits = limits]
  show ?thesis
  proof (rule StageZipArchive_cases [OF assms(2)])
    fix z s1 assume "Some archive = Some z" "StageChecked sys z d limits s = (r, s1)" "r \<noteq> Inr ()"
    then show ?thesis using checked empty by auto
  next
    fix z assume "Some archive = Some z" "StageChecked sys z d limits s = (r, s')" "r = Inr ()"
    then show ?thesis using checked empty by (auto simp: view_def good_tree_def fun_eq_iff)
  qed (use empty in auto)
qed

lemma archive_staged_exactly_witness:
  "case StageZipArchive (sample_system True) (Some sample_archive) [''stage''] sample_limits sample_disk of (r, s') \<Rightarrow>
     r = Inr () \<and> fs_at (st_fs s') [''stage'', ''app'', ''run''] = Some (Fs_File ''abcd'') \<and>
     fs_at (st_fs s') [''stage'', ''docs'', ''readme''] = Some (Fs_File ''hi'') \<and>
     fs_at (st_fs s') [''stage'', ''old''] = Some (Fs_File ''left'')"
proof -
  obtain r s' where run: "StageZipArchive (sample_system True) (Some sample_archive) [''stage''] sample_limits sample_disk = (r, s')"
    by (cases "StageZipArchive (sample_system True) (Some sample_archive) [''stage''] sample_limits sample_disk")
  note exact = archive_staged_exactly [OF sample_disk_ready run]
  let ?staged = "[\<lparr>se_index = 0, se_path = ''app'', se_directory = True, se_mode = 0\<rparr>,
      \<lparr>se_index = 1, se_path = ''app/run'', se_directory = False, se_mode = 0x81ED\<rparr>,
      \<lparr>se_index = 2, se_path = ''docs/readme'', se_directory = False, se_mode = 0\<rparr>]"
  have "permits_all (sample_system True)" "limits_positive sample_limits"
    by (simp_all add: permits_all_def sample_system_def limits_positive_def sample_limits_def)
  moreover have "unobstructed (entries_before (st_fs sample_disk) [''stage'']) ?staged"
    by (simp add: unobstructed_def way_free_def directories_of_def sample_disk_before Split.simps)
  ultimately have r: "r = Inr ()" using exact sample_scan sample_delivers by blast
  with exact obtain n where n: "st_fs s' = placed (st_fs sample_disk) [''stage''] n"
    "\<forall>q. shape (fs_at n q) = staged_over sample_archive ?staged (entries_before (st_fs sample_disk) [''stage'']) q"
    by (auto simp: sample_scan)
  have "shape (fs_at n [''app'', ''run'']) = Some (Fs_File ''abcd'')" "shape (fs_at n [''docs'', ''readme'']) = Some (Fs_File ''hi'')"
    "shape (fs_at n [''old'']) = Some (Fs_File ''left'')"
    unfolding spec [OF n(2)]
    by (simp_all add: staged_over_def entry_bytes_def sample_archive_def sample_disk_before Split.simps)
  then have "fs_at n [''app'', ''run''] = Some (Fs_File ''abcd'')" "fs_at n [''docs'', ''readme''] = Some (Fs_File ''hi'')"
    "fs_at n [''old''] = Some (Fs_File ''left'')"
    by (simp_all add: shape_file)
  moreover have "fs_at (st_fs s') ([''stage''] @ q) = fs_at n q" for q
    unfolding n(1) using sample_disk_ready by (intro placed_at) (simp add: ready_place_def)
  from this [of "[''app'', ''run'']"] this [of "[''docs'', ''readme'']"] this [of "[''old'']"]
  have "fs_at (st_fs s') [''stage'', ''app'', ''run''] = fs_at n [''app'', ''run'']"
    "fs_at (st_fs s') [''stage'', ''docs'', ''readme''] = fs_at n [''docs'', ''readme'']"
    "fs_at (st_fs s') [''stage'', ''old''] = fs_at n [''old'']" unfolding append_Cons append_Nil .
  ultimately show ?thesis by (simp only: run r prod.case simp_thms)
qed

text \<open>
  Why the destination must hold no links: the code does not look for them, so a directory entry that is one leads the files of an
  archive out of the destination.
\<close>

lemma link_followed:
  "fs_at (st_fs (snd (StageZipArchive (sample_system True) (Some sample_archive) [''stage''] sample_limits
      \<lparr>st_fs = Fs_Directory [(''stage'', Fs_Directory [(''app'', Fs_Symlink ''/other'')]), (''other'', Fs_Directory [])],
       st_modes = Map.empty\<rparr>))) [''other'', ''run''] = Some (Fs_File ''abcd'')"
  unfolding sample_archive_def sample_limits_def sample_stat_def sample_system_def by code_simp

end
