(* ===== verification/Spec2Isabelle.thy ===== *)
theory Spec2Isabelle
  imports Redirect_Url Client_Lifecycle Helper_Contract Service_Runtime Stage_Lifecycle Install_Authorization
    Linux_Crash_Safety Linux_Registry_Recovery Linux_Helper_Policy Artifact_Safety
begin

text \<open>
  Verification of the native runtime of the desktop updater and of the install transaction of its Linux helper.

  \<^bold>\<open>The program.\<close> A client asks a server for an index of releases, selects one, checks that a pinned key signed it,
  stages its artifact and hands it over to a helper process with more rights, which replaces the installed application.
  The parts follow each other:

  \<^item> The client, \<^verbatim>\<open>src/native_runtime/cpp\<close>: \<^verbatim>\<open>CheckForUpdate\<close> downloads the index and a descriptor through a
    transport (\<open>Update_Client_Core\<close>, with the parsers, the selection and the signatures of \<^verbatim>\<open>release_contract.cc\<close> below
    it); the transport follows redirects (\<open>Redirect_Url\<close>); a lifecycle object hands out leases for checks and stages
    and one handoff for the installation (\<open>Client_Lifecycle\<close>); a stage is a private directory with a marker of provenance
    (\<open>Stage_Provenance\<close>).
  \<^item> The protocol, in the same directory: a request (\<open>Install_Request\<close>) that the helper authorizes against its sealed
    policy, the manifest and the marker (\<open>Install_Authorization\<close>, \<open>Helper_Policy\<close>), a session with a reservation, a
    commit and one execution (\<open>Install_Session\<close>), driven over a channel (\<open>Service_Runtime\<close>) that carries canonical
    messages (\<open>Install_Wire\<close>).
  \<^item> The Linux helper, \<^verbatim>\<open>src/linux/native/src/helper\<close>: the policy file of the broker (\<open>Linux_Helper_Policy\<close>), the journalled
    replacement of the target by three renames (\<open>Linux_Transaction\<close>), its recovery (\<open>Linux_Recovery\<close>) and the index of
    all transactions (\<open>Linux_Registry_Store\<close>).

  \<^bold>\<open>How the code is modelled.\<close> A struct is a record, an enumeration a datatype with the constructors of the source, a
  method a function of the same name (with a prefix where the name is taken). A \<^verbatim>\<open>std::string\<close> is a list of bytes. An
  exception is a value of \<open>cpp_exception\<close>, and a call that may throw returns a value of \<open>result\<close>, a sum; every throw and
  every early return of the source is a branch. A \<^verbatim>\<open>std::map\<close> is a strictly sorted association list. An \<^verbatim>\<open>int64_t\<close> is an
  integer with the range check the code makes, or a word where the code casts or wraps (\<open>Linux_Identity\<close>, \<open>Linux_Journal\<close>,
  \<open>Client_Lifecycle\<close>, \<open>Sha256\<close>). A parser takes the rest of its input and returns the rest it leaves. A loop is a function
  that terminates by a measure on its data.

  \<^bold>\<open>Theories.\<close> Prelude and standard library:

  \<^item> \<open>Updater_Prelude\<close>: exceptions as values, \<open>bindE\<close>, character classes, \<open>Split\<close>, shared collections of rules.
  \<^item> \<open>Number_Text\<close>: decimal and hexadecimal text and the 64-bit range. \<open>Ordered_Map\<close>: the interface of \<^verbatim>\<open>std::map\<close> and its
    model. \<open>File_Tree\<close>: trees of files, the interface of a file store, resolution of paths with symbolic links (at most
    40 of them, as \<^verbatim>\<open>SYMLOOP_MAX\<close> says).

  Documents (\<^verbatim>\<open>json_value.cc\<close>, \<^verbatim>\<open>redirect_url.cc\<close>, \<^verbatim>\<open>release_contract.cc\<close>):

  \<^item> \<open>Json_Value\<close>, \<open>Json_Codec\<close>, \<open>Json_Errors\<close>: the strict parser and the canonical encoder are inverse, and the parsers
    of the release contract throw nothing but a JSON error.
  \<^item> \<open>Redirect_Url\<close>: a followed redirect stays on HTTPS and carries no credentials, and no dot segments when it names a path or a
    host; the loop that removes dot segments in place is a stack machine.
  \<^item> \<open>Release_Instant\<close>, \<open>Release_Version\<close>, \<open>Base64\<close>: calendar and instants; the order of versions, which for canonical
    identifiers is that of semantic versioning unless both have a build number, and may be cyclic when only some have one; the strict decoder as a bijection.
  \<^item> \<open>Release_Contract\<close>, \<open>Release_Selection\<close>, \<open>Release_Signature\<close>: the two parsers, staged rollout and selection, the signed
    bytes, which bind every field, and the checks.

  Client (\<^verbatim>\<open>update_client_core.cc\<close>, \<^verbatim>\<open>client_lifecycle.cc\<close>, \<^verbatim>\<open>artifact_stager.cc\<close>, \<^verbatim>\<open>stage_provenance.cc\<close>):

  \<^item> \<open>Update_Client_Core\<close>: an offered update is signed, selected and bound; no exception escapes but one that the transport or
    a callback threw and that the code does not catch.
  \<^item> \<open>Client_Lifecycle\<close>: every method in every reachable state is a step of a machine with five phases.
  \<^item> \<open>Artifact_Staging\<close>, \<open>Artifact_Names\<close>, \<open>Artifact_Safety\<close> (\<^verbatim>\<open>artifact_stager.cc\<close>): the check of all names, conflicts and sizes
    before the first entry is written, and the unpacking into a destination without links, which may hold entries already: it stays in its
    destination, is exact when it returns and, once it has begun, leaves nothing when it throws and entries can be removed.
  \<^item> \<open>Stage_Provenance\<close>, \<open>Stage_Integrity\<close>, \<open>Stage_Lifecycle\<close>: inventory, marker, creation, verification and removal of a
    stage over \<open>File_Tree\<close>; a stage is evidence against any change and is removed alone.

  Protocol (\<^verbatim>\<open>native_install_*.cc\<close>, \<^verbatim>\<open>install_helper_*.cc\<close>):

  \<^item> \<open>Install_Wire\<close>, \<open>Install_Request\<close>, \<open>Install_Request_Codec\<close>, \<open>Install_Request_Sample\<close>: messages and request; the readers
    accept exactly the texts that the encoders print for valid values.
  \<^item> \<open>Install_Authorization\<close>: a request is authorized exactly when the documents agree and a sealed key signed.
  \<^item> \<open>Install_Session\<close>, \<open>Service_Runtime\<close>: execution comes after a durable journal and a commit, once, and last in a run;
    every run settles.
  \<^item> \<open>Helper_Contract\<close>: journal states of all platforms and the recovery decision.
  \<^item> \<open>Sha256\<close>, \<open>Helper_Policy\<close>, \<open>Helper_Policy_Safety\<close>: the digest of the policy is SHA-256 as FIPS 180-4 defines it; what a
    policy that parses guarantees.

  Linux helper:

  \<^item> \<open>Linux_Helper_Policy\<close> (\<^verbatim>\<open>linux_helper_policy.cc\<close>): the policy file, found sealed and then opened
    again for its text, and the identity of the broker.
  \<^item> \<open>Linux_Identity\<close> (\<^verbatim>\<open>linux_mount_guard.cc\<close>), \<open>Linux_Journal\<close> (\<^verbatim>\<open>linux_transaction_journal.cc\<close>): file identities, names,
    payloads, lock records and journals with their strict codecs.
  \<^item> \<open>Linux_Directory\<close>: the directory and the system calls. \<open>Linux_Cleanup\<close>: the bounded removal of a tree.
    \<open>Linux_Transaction\<close> (\<^verbatim>\<open>linux_file_transaction.cc\<close>): journal store, lock, preparation, the three renames.
    \<open>Linux_Recovery\<close> (\<^verbatim>\<open>linux_recovery_service.cc\<close>): recovery from any journal.
  \<^item> \<open>Linux_Progress\<close>, \<open>Linux_Completion\<close>: every operation evaluated when no call fails, and so a whole installation.
    \<open>Linux_Crash_Safety\<close>: the invariant that every call keeps: the old application is complete under its name or the
    backup name, or the target holds verified content.
  \<^item> \<open>Linux_Registry\<close>, \<open>Linux_Registry_Store\<close>, \<open>Linux_Registry_Recovery\<close> (\<^verbatim>\<open>linux_transaction_registry.cc\<close>): records with
    their codec and their order, the store that replaces a record in one rename, and its recovery.

  \<^bold>\<open>Interfaces.\<close> Each contract between components is a locale, interpreted on the definitions of the code:
  \<open>ordered_map\<close> (the sorted lists), \<open>file_store\<close> (the trees), \<open>text_codec\<close> (the JSON codec), \<open>version_order\<close> (versions
  without and with build numbers), \<open>wire_message\<close> (the four messages), \<open>payload_verifier\<close> (the verifier of the base class
  and the one for archives), \<open>registry_invariant\<close> (allowed histories of a record, and directories that the next process
  can go on with).

  \<^bold>\<open>Crashes.\<close> The system calls of a Linux process are numbered, and a kernel decides for each number whether the call goes
  through, fails, or the process dies there. A theorem about every kernel therefore speaks about every combination of
  failing calls and every point of a crash; a history is a sequence of such processes. No other process changes the
  directory between two calls, and a change of the directory that was made is not lost. The liveness theorems speak of a
  kernel that lets everything through.

  \<^bold>\<open>Bounds.\<close> All are the ones of the source: the limits of the cleanup walk (128 levels, 100001 entries, 128 MiB of
  work), 2 MiB for a record of the index, 128 KiB for a policy file. The one fuel of the development is the count of
  symbolic links; a path that needs more of them fails as the system call does.

  \<^bold>\<open>Parameters.\<close> Code that is not part of the repository's own sources, or only answers: the Ed25519 check and the digests
  of OpenSSL and of the platforms (arguments \<open>check\<close>, \<open>sha\<close>), the transport, the digest and the operating-system resolver of the
  update check (each may throw whatever it likes) and the clock, the interfaces of the session
  and of the service (the answers of authorizer, transaction, channel and monitor, each of which may throw), whether the
  owner of a lock is alive, what the reader of archives (miniz) reports and delivers, which system calls succeed, what
  \<^verbatim>\<open>lstat\<close> and \<^verbatim>\<open>open\<close> find for a protected file, and the check that the archive verifier makes of a payload. A theorem
  that needs one of them to behave says so in a hypothesis, such as \<open>collision_free\<close> or \<open>delivers\<close>, and its witness
  instantiates it.

  \<^bold>\<open>Not modelled.\<close> The second unpacking of an artifact inside the Linux helper (the larger part of
  \<^verbatim>\<open>linux_archive_restage.cc\<close>), which enters the transaction as a check; the redaction of log output
  (\<^verbatim>\<open>diagnostics.cc\<close>); of the index of transactions the creation of its directory and the copies that portable recovery
  keeps; errors of the disk in the middle of a file that a stage reads, which end its contents early without an exception; sockets, credentials and start-up of the Linux service, its providers and the relaunch, which consist of calls
  to other programs; the HTTP clients; the helpers of Windows and macOS, which call the file, registry and service
  interfaces of those systems, and share with Linux the decisions modelled here; the plugin and the tools in Dart; and
  third-party code.
\<close>

section \<open>Properties that span components\<close>

lemma zero_digest_hex: "StageBytesToHex (replicate 32 0) = zero_digest"
  unfolding zero_digest_def by code_simp

lemma authorized_facts:
  assumes "AuthorizeNativeInstallTransactionRequestV1 check request policy platform manifest m msha sha = Inr d"
  shows "sg_provenance_sha256 (rq_stage request) = msha"
    and "mk_artifact_sha256 m = artifact_sha256 (desc_artifact d)"
    and "\<exists>key signature. sealed_key policy (sig_public_key_id (desc_signature d)) key \<and>
      sig_value (desc_signature d) = base64_text signature \<and> check signature key (CanonicalSignatureBytes d)"
proof -
  obtain dsha nsha keys where bound: "\<not> BindingMismatch request platform d m msha dsha nsha"
    and keys: "TrustedKeysLoop (ap_release_root_public_keys policy) [] = Inr keys"
    and signed: "VerifyDescriptorSignature check d keys"
    using assms by (auto simp: Authorize_Inr_iff AuthorizeBody_iff)
  show "sg_provenance_sha256 (rq_stage request) = msha" "mk_artifact_sha256 m = artifact_sha256 (desc_artifact d)"
    using bound by (simp_all add: BindingMismatch_def)
  show "\<exists>key signature. sealed_key policy (sig_public_key_id (desc_signature d)) key \<and>
      sig_value (desc_signature d) = base64_text signature \<and> check signature key (CanonicalSignatureBytes d)"
    using signed by (auto simp: VerifyDescriptorSignature_iff trusted_key_iff [OF keys])
qed

text \<open>
  C3. What is installed is what was signed and authorized: when a request was authorized for a stage
  whose marker had been verified, then every tree that later verifies against the provenance digest
  in the request, in place or moved, holds exactly the files of the stage that was authorized, and
  its marker names the artifact of a descriptor that a key of the sealed policy signed. The digest
  function must not collide on the texts that were digested.
\<close>

theorem installed_content_authorized:
  assumes "stage_verified (Some f) fs location msha m"
    and "AuthorizeNativeInstallTransactionRequestV1 check request policy platform manifest m msha sha = Inr d"
    and "stage_verified (Some f) fs' location' (sg_provenance_sha256 (rq_stage request)) m'"
    and "node_at fs location = Some (Fs_Directory cs)" and "node_at fs' location' = Some (Fs_Directory cs')"
    and "wf_children cs" and "wf_children cs'"
    and "collision_free f (stage_texts fs location cs \<union> stage_texts fs' location' cs')"
  shows "stage_files cs' = stage_files cs \<and>
    mk_artifact_sha256 m' = artifact_sha256 (desc_artifact d) \<and>
    (\<exists>key signature. sealed_key policy (sig_public_key_id (desc_signature d)) key \<and>
       sig_value (desc_signature d) = base64_text signature \<and> check signature key (CanonicalSignatureBytes d))"
proof -
  note auth = authorized_facts [OF assms(2)]
  have "m = m' \<and> stage_files cs = stage_files cs'"
    using stage_verified_content [OF assms(1) _ assms(4-8)] assms(3) auth(1) by simp
  with auth(2,3) show ?thesis by simp
qed

theorem installed_content_authorized_witness:
  "\<exists>fs m d cs. stage_verified (Some sample_sha256) fs (fo_path sample_stage) zero_digest m \<and>
     AuthorizeNativeInstallTransactionRequestV1 (\<lambda>_ _ _. True) authorized_request sample_policy ''linux''
       sample_manifest m zero_digest (Some (\<lambda>_. Inr zero_digest)) = Inr d \<and>
     node_at fs (fo_path sample_stage) = Some (Fs_Directory cs) \<and>
     mk_artifact_sha256 m = artifact_sha256 (desc_artifact d)"
proof -
  have digests: "ValidSha256 zero_digest" "ValidSha256 (replicate 64 CHR ''a'')"
    by (simp_all add: ValidSha256_def zero_digest_def list_all_iff char_class_defs)
  then show ?thesis
  proof (rule sample_written)
    fix fs state cs
    assume verified: "stage_verified (Some sample_sha256) fs (fo_path sample_stage) (ps_marker_sha256 state) (ps_marker state)"
      and tree: "node_at fs (fo_path sample_stage) = Some (Fs_Directory cs)" "wf_children cs"
      and free: "collision_free sample_sha256
        (stage_texts fs (fo_path sample_stage) cs \<union> stage_texts fs (fo_path sample_stage) cs)"
      and zero: "ps_marker_sha256 state = StageBytesToHex (replicate 32 0)"
      and marker: "\<exists>entries. ps_marker state = \<lparr>mk_nonce = sample_nonce, mk_package_id = ''app'',
        mk_descriptor_sha256 = zero_digest, mk_artifact_sha256 = replicate 64 CHR ''a'', mk_entries = entries\<rparr>"
    obtain d where auth: "AuthorizeNativeInstallTransactionRequestV1 (\<lambda>_ _ _. True) authorized_request sample_policy
        ''linux'' sample_manifest (ps_marker state) zero_digest (Some (\<lambda>_. Inr zero_digest)) = Inr d"
      using sample_authorized marker unfolding sample_marker_def by metis
    have v: "stage_verified (Some sample_sha256) fs (fo_path sample_stage) zero_digest (ps_marker state)"
      using verified zero by (simp add: zero_digest_hex)
    then have "stage_verified (Some sample_sha256) fs (fo_path sample_stage)
        (sg_provenance_sha256 (rq_stage authorized_request)) (ps_marker state)"
      by (simp add: authorized_request_def)
    from installed_content_authorized [OF v auth this tree(1,1,2,2) free] v auth tree(1) show ?thesis by blast
  qed
qed

end
